(* ===== verification/GoRuntime.thy ===== *)
theory GoRuntime
  imports Main "HOL-Library.Word" "HOL-Library.AList" "HOL-Library.Char_ord"
    "HOL-Library.List_Lexorder" "HOL-Library.Multiset" "HOL-Library.Sublist"
begin

text \<open>
  The part of Go and of its standard library that every component uses: byte strings with
  \<open>strings.TrimSpace\<close> and the identifier and digest patterns, error values with
  \<open>errors.Is\<close>, the clock, Go maps, loops with a \<open>seen\<close> set, and a directory of JSON
  records written by the "temporary file, fsync, rename, fsync directory" idiom, with the places
  where that idiom can fail. A Go string is a list of bytes, which is Isabelle's \<open>string\<close>. A Go map
  is an association list: its order is one of the iteration orders the language allows.
\<close>

named_theorems store_simps \<open>rewrite rules for records, directories and maps shared by the stores\<close>
named_theorems inv_intros \<open>introduction rules for the stores' invariants\<close>

section \<open>Strings\<close>

text \<open>\<open>safeID\<close> is \<open>^[A-Za-z0-9][A-Za-z0-9._-]{0,127}$\<close>, the pattern every store declares; Go's
  \<open>$\<close> without the \<open>m\<close> flag matches at the end of the text only.\<close>

definition is_alnum :: "char \<Rightarrow> bool" where
  "is_alnum c \<longleftrightarrow> (CHR ''A'' \<le> c \<and> c \<le> CHR ''Z'') \<or> (CHR ''a'' \<le> c \<and> c \<le> CHR ''z'')
     \<or> (CHR ''0'' \<le> c \<and> c \<le> CHR ''9'')"

definition safe_char :: "char \<Rightarrow> bool" where
  "safe_char c \<longleftrightarrow> is_alnum c \<or> c = CHR ''.'' \<or> c = CHR ''_'' \<or> c = CHR ''-''"

fun safeID :: "string \<Rightarrow> bool" where
  "safeID [] = False"
| "safeID (c # cs) = (is_alnum c \<and> length cs \<le> 127 \<and> list_all safe_char cs)"

text \<open>\<open>safeDigest\<close>, \<open>hexDigest\<close> and \<open>safeFingerprint\<close> are \<open>^[a-f0-9]{64}$\<close>.\<close>

definition is_hex :: "char \<Rightarrow> bool" where
  "is_hex c \<longleftrightarrow> (CHR ''a'' \<le> c \<and> c \<le> CHR ''f'') \<or> (CHR ''0'' \<le> c \<and> c \<le> CHR ''9'')"

definition safeDigest :: "string \<Rightarrow> bool" where
  "safeDigest s \<longleftrightarrow> length s = 64 \<and> list_all is_hex s"

lemmas char_eval = is_alnum_def safe_char_def is_hex_def less_eq_char_def

lemma safeID_not_empty [simp]: "\<not> safeID []"
  by simp

lemma safeID_nonempty: "safeID s \<Longrightarrow> s \<noteq> []"
  by (cases s) auto

lemma safeDigest_nonempty: "safeDigest s \<Longrightarrow> s \<noteq> []"
  by (auto simp: safeDigest_def)

text \<open>
  \<open>strings.TrimSpace\<close> removes the leading and trailing runes that \<open>unicode.IsSpace\<close> accepts. On
  bytes that is: repeatedly drop a prefix (suffix) that is the UTF-8 encoding of such a rune.
\<close>

definition space_runes :: "string list" where
  "space_runes =
     [[CHR 0x09], [CHR 0x0A], [CHR 0x0B], [CHR 0x0C], [CHR 0x0D], [CHR 0x20],
      [CHR 0xC2, CHR 0x85], [CHR 0xC2, CHR 0xA0], [CHR 0xE1, CHR 0x9A, CHR 0x80],
      [CHR 0xE2, CHR 0x80, CHR 0x80], [CHR 0xE2, CHR 0x80, CHR 0x81], [CHR 0xE2, CHR 0x80, CHR 0x82],
      [CHR 0xE2, CHR 0x80, CHR 0x83], [CHR 0xE2, CHR 0x80, CHR 0x84], [CHR 0xE2, CHR 0x80, CHR 0x85],
      [CHR 0xE2, CHR 0x80, CHR 0x86], [CHR 0xE2, CHR 0x80, CHR 0x87], [CHR 0xE2, CHR 0x80, CHR 0x88],
      [CHR 0xE2, CHR 0x80, CHR 0x89], [CHR 0xE2, CHR 0x80, CHR 0x8A], [CHR 0xE2, CHR 0x80, CHR 0xA8],
      [CHR 0xE2, CHR 0x80, CHR 0xA9], [CHR 0xE2, CHR 0x80, CHR 0xAF], [CHR 0xE2, CHR 0x81, CHR 0x9F],
      [CHR 0xE3, CHR 0x80, CHR 0x80]]"

definition drop_rune :: "string list \<Rightarrow> string \<Rightarrow> string option" where
  "drop_rune rs s = (case filter (\<lambda>r. prefix r s) rs of [] \<Rightarrow> None | r # _ \<Rightarrow> Some (drop (length r) s))"

text \<open>Each rune dropped makes the string shorter, so the length of the string is enough fuel.\<close>

fun drop_runes :: "nat \<Rightarrow> string list \<Rightarrow> string \<Rightarrow> string" where
  "drop_runes 0 rs s = s"
| "drop_runes (Suc n) rs s = (case drop_rune rs s of None \<Rightarrow> s | Some t \<Rightarrow> drop_runes n rs t)"

definition trim_left :: "string list \<Rightarrow> string \<Rightarrow> string" where
  "trim_left rs s = drop_runes (length s) rs s"

definition TrimSpace :: "string \<Rightarrow> string" where
  "TrimSpace s = rev (trim_left (map rev space_runes) (rev (trim_left space_runes s)))"

lemma drop_rune_None: "drop_rune rs s = None \<longleftrightarrow> (\<forall>r\<in>set rs. \<not> prefix r s)"
proof -
  have "drop_rune rs s = None \<longleftrightarrow> filter (\<lambda>r. prefix r s) rs = []"
    by (cases "filter (\<lambda>r. prefix r s) rs") (simp_all add: drop_rune_def)
  then show ?thesis by (simp add: filter_empty_conv)
qed

lemma drop_rune_shorter:
  assumes "drop_rune rs s = Some t" and "[] \<notin> set rs"
  shows "length t < length s"
proof -
  from assms(1) obtain r rs' where f: "filter (\<lambda>r. prefix r s) rs = r # rs'" and t: "t = drop (length r) s"
    by (auto simp: drop_rune_def split: list.splits)
  have "r \<in> set (filter (\<lambda>r. prefix r s) rs)" by (simp add: f)
  then have "r \<in> set rs" and "prefix r s" by auto
  with assms(2) have "r \<noteq> []" by auto
  moreover from \<open>prefix r s\<close> have "length r \<le> length s" by (rule prefix_length_le)
  ultimately show ?thesis using t by (cases r) auto
qed

lemma drop_runes_fixed:
  assumes "[] \<notin> set rs" and "length s \<le> n"
  shows "drop_rune rs (drop_runes n rs s) = None"
  using assms(2)
proof (induction n arbitrary: s)
  case 0
  then have "s = []" by simp
  with assms(1) show ?case by (auto simp: drop_rune_None)
next
  case (Suc n)
  show ?case
  proof (cases "drop_rune rs s")
    case None
    then show ?thesis by simp
  next
    case (Some t)
    with assms(1) have "length t < length s" by (rule drop_rune_shorter[rotated])
    with Suc.prems have "length t \<le> n" by simp
    with Some Suc.IH show ?thesis by simp
  qed
qed

text \<open>The fuel is enough: what is left starts with no space rune.\<close>

lemma trim_left_fixed: "[] \<notin> set rs \<Longrightarrow> drop_rune rs (trim_left rs s) = None"
  by (simp add: trim_left_def drop_runes_fixed)

lemma TrimSpace_empty [simp]: "TrimSpace [] = []"
  by (simp add: TrimSpace_def trim_left_def)

lemma drop_runes_None: "drop_rune rs s = None \<Longrightarrow> drop_runes n rs s = s"
  by (cases n) auto

text \<open>An identifier has no space rune at either end, so trimming leaves it alone.\<close>

lemma safe_char_not_space:
  assumes "safe_char c" and "r \<in> set space_runes"
  shows "hd r \<noteq> c" and "last r \<noteq> c"
  using assms by (auto simp: safe_char_def is_alnum_def space_runes_def less_eq_char_def)

lemma space_runes_nonempty: "[] \<notin> set space_runes"
  by (simp add: space_runes_def)

lemma TrimSpace_ends:
  assumes ne: "s \<noteq> []" and hd: "hd s \<notin> hd ` set space_runes" and last: "last s \<notin> last ` set space_runes"
  shows "TrimSpace s = s"
proof -
  have p: "drop_rune space_runes s = None"
    unfolding drop_rune_None
  proof
    fix r assume r: "r \<in> set space_runes"
    with space_runes_nonempty have "r \<noteq> []" by auto
    then show "\<not> prefix r s"
      using hd r ne by (auto simp: prefix_def)
  qed
  have q: "drop_rune (map rev space_runes) (rev s) = None"
    unfolding drop_rune_None
  proof
    fix r assume "r \<in> set (map rev space_runes)"
    then obtain r' where r': "r' \<in> set space_runes" and r: "r = rev r'" by auto
    with space_runes_nonempty have ne': "r' \<noteq> []" by auto
    have "suffix r' s \<Longrightarrow> last r' = last s" using ne' by (auto simp: suffix_def)
    moreover from last r' have "last r' \<noteq> last s" by (metis image_eqI)
    ultimately show "\<not> prefix r (rev s)"
      by (auto simp: r suffix_to_prefix)
  qed
  show ?thesis by (simp add: TrimSpace_def trim_left_def drop_runes_None p q)
qed

lemma TrimSpace_safe_ends: "s \<noteq> [] \<Longrightarrow> safe_char (hd s) \<Longrightarrow> safe_char (last s) \<Longrightarrow> TrimSpace s = s"
  using safe_char_not_space by (intro TrimSpace_ends) (auto dest: sym)

lemma TrimSpace_safeID: 
  assumes "safeID s"
  shows "TrimSpace s = s"
proof (rule TrimSpace_safe_ends)
  show "s \<noteq> []" using assms by (rule safeID_nonempty)
  show "safe_char (hd s)" using assms by (cases s) (auto simp: safe_char_def)
  show "safe_char (last s)" using assms by (cases s) (auto simp: safe_char_def list_all_iff)
qed


section \<open>Errors, results and the clock\<close>

text \<open>
  \<open>Errorf\<close> is \<open>errors.New\<close> or \<open>fmt.Errorf\<close> with no wrapped error, \<open>Wrap\<close> is \<open>fmt.Errorf\<close> ending
  in \<open>: %w\<close>, \<open>Sentinel\<close> a package-level error value, named by its text. \<open>IOError\<close> stands for any error of the file
  system or of the JSON codec, whose text is not modelled.
\<close>

datatype go_error =
    Errorf string
  | Sentinel string
  | Wrap string go_error
  | IOError

fun errors_Is :: "go_error \<Rightarrow> go_error \<Rightarrow> bool" where
  "errors_Is (Wrap m e) t = (Wrap m e = t \<or> errors_Is e t)"
| "errors_Is e t = (e = t)"

fun error_text :: "go_error \<Rightarrow> string" where
  "error_text (Errorf m) = m"
| "error_text (Sentinel m) = m"
| "error_text (Wrap m e) = m @ '': '' @ error_text e"
| "error_text IOError = ''i/o error''"

abbreviation os_ErrNotExist :: go_error where
  "os_ErrNotExist \<equiv> Sentinel ''file does not exist''"

text \<open>An instant is the number of nanoseconds since Go's zero time, so \<open>IsZero\<close> is equality with 0.
  A duration is a number of nanoseconds too; \<open>Sub\<close> saturates at the bounds of \<open>int64\<close>.\<close>

type_synonym time = int
type_synonym duration = int

definition time_Sub :: "time \<Rightarrow> time \<Rightarrow> duration" where
  "time_Sub t u = max (- (2 ^ 63)) (min (2 ^ 63 - 1) (t - u))"

abbreviation Second :: duration where "Second \<equiv> 1000000000"
abbreviation Hour :: duration where "Hour \<equiv> 3600 * Second"

text \<open>Decimal and hexadecimal text, and \<open>newID\<close>, the same function in every store: 12 random bytes
  in hexadecimal, or the clock in nanoseconds when the random source fails.\<close>

definition digit :: "nat \<Rightarrow> char" where
  "digit n = ''0123456789abcdef'' ! (n mod 16)"

fun dec_nat :: "nat \<Rightarrow> string" where
  "dec_nat n = (if n < 10 then [digit n] else dec_nat (n div 10) @ [digit (n mod 10)])"

declare dec_nat.simps [simp del]

definition dec_int :: "int \<Rightarrow> string" where
  "dec_int i = (if i < 0 then ''-'' @ dec_nat (nat (- i)) else dec_nat (nat i))"

definition hex_byte :: "nat \<Rightarrow> string" where
  "hex_byte b = [digit (b div 16 mod 16), digit (b mod 16)]"

definition hexEncode :: "nat list \<Rightarrow> string" where
  "hexEncode bs = concat (map hex_byte bs)"

type_synonym entropy = "nat list option \<times> int"

definition newID :: "string \<Rightarrow> entropy \<Rightarrow> string" where
  "newID p r = (case fst r of Some v \<Rightarrow> p @ ''-'' @ hexEncode v | None \<Rightarrow> p @ ''-'' @ dec_int (snd r))"

lemma digit_cases: "digit n \<in> set ''0123456789abcdef''"
proof -
  have "n mod 16 < length ''0123456789abcdef''" by simp
  then show ?thesis unfolding digit_def by (rule nth_mem)
qed

lemma is_hex_digit [simp]: "is_hex (digit n)"
  using digit_cases [of n] by (auto simp: is_hex_def less_eq_char_def)

lemma hexEncode_length [simp]: "length (hexEncode bs) = 2 * length bs"
  by (induction bs) (simp_all add: hexEncode_def hex_byte_def)

lemma hexEncode_hex [simp]: "list_all is_hex (hexEncode bs)"
  by (induction bs) (simp_all add: hexEncode_def hex_byte_def)

lemma hexEncode_digest: "length bs = 32 \<Longrightarrow> safeDigest (hexEncode bs)"
  by (simp add: safeDigest_def)

lemma is_hex_safe_char: "is_hex c \<Longrightarrow> safe_char c"
  by (auto simp: is_hex_def safe_char_def is_alnum_def less_eq_char_def)

lemma safe_char_hexEncode: "list_all safe_char (hexEncode bs)"
  using hexEncode_hex [of bs] by (simp add: list_all_iff is_hex_safe_char)

lemma digit_inj: "m < 10 \<Longrightarrow> n < 10 \<Longrightarrow> digit m = digit n \<longleftrightarrow> m = n"
  unfolding digit_def by (subst nth_eq_iff_index_eq) auto

lemma dec_nat_not_empty [simp]: "dec_nat n \<noteq> []"
  by (subst dec_nat.simps) simp

lemma dec_nat_inj: "dec_nat m = dec_nat n \<longleftrightarrow> m = n"
proof
  show "dec_nat m = dec_nat n \<Longrightarrow> m = n"
  proof (induction m arbitrary: n rule: less_induct)
    case (less m)
    have "dec_nat m = (if m < 10 then [digit m] else dec_nat (m div 10) @ [digit (m mod 10)])"
      "dec_nat n = (if n < 10 then [digit n] else dec_nat (n div 10) @ [digit (n mod 10)])" by (subst dec_nat.simps, rule refl)+
    with less.prems have "(m < 10) = (n < 10)" "m < 10 \<Longrightarrow> digit m = digit n"
      "\<not> m < 10 \<Longrightarrow> dec_nat (m div 10) = dec_nat (n div 10) \<and> digit (m mod 10) = digit (n mod 10)"
      using dec_nat_not_empty by (metis append1_eq_conv append_self_conv2)+
    with less.IH [of "m div 10" "n div 10"] show ?case
      by (cases "m < 10") (auto simp: digit_inj, metis mult_div_mod_eq)
  qed
qed simp

lemma dec_int_inj: "0 \<le> x \<Longrightarrow> 0 \<le> y \<Longrightarrow> dec_int x = dec_int y \<longleftrightarrow> x = y"
  by (simp add: dec_int_def dec_nat_inj eq_nat_nat_iff)

lemma newID_safe:
  assumes "safeID p" and "length p \<le> 64" and "length v = 12"
  shows "safeID (newID p (Some v, n))"
proof (cases p)
  case Nil
  with assms show ?thesis by simp
next
  case (Cons c cs)
  with assms safe_char_hexEncode show ?thesis
    by (simp add: newID_def safe_char_def)
qed

section \<open>Maps and loops\<close>

type_synonym 'v gomap = "(string \<times> 'v) list"

abbreviation mget :: "'v gomap \<Rightarrow> string \<Rightarrow> 'v option" where
  "mget m k \<equiv> map_of m k"

abbreviation mput :: "string \<Rightarrow> 'v \<Rightarrow> 'v gomap \<Rightarrow> 'v gomap" where
  "mput k v m \<equiv> AList.update k v m"

definition wf_map :: "'v gomap \<Rightarrow> bool" where
  "wf_map m \<longleftrightarrow> distinct (map fst m)"

lemma wf_map_Nil [simp]: "wf_map []"
  by (simp add: wf_map_def)

lemma wf_map_mput [simp, inv_intros]: "wf_map m \<Longrightarrow> wf_map (mput k v m)"
  by (simp add: wf_map_def distinct_update)

lemma mget_mput [simp]: "mget (mput k v m) k' = (if k' = k then Some v else mget m k')"
  by (simp add: update_conv')

lemma mget_set: "wf_map m \<Longrightarrow> (k, v) \<in> set m \<longleftrightarrow> mget m k = Some v"
  unfolding wf_map_def by (metis map_of_SomeD map_of_is_SomeI)

lemma set_mput: "wf_map m \<Longrightarrow> set (mput k v m) = {(k, v)} \<union> {p \<in> set m. fst p \<noteq> k}"
proof -
  assume wf: "wf_map m"
  then have "wf_map (mput k v m)" by simp
  then have "p \<in> set (mput k v m) \<longleftrightarrow> p \<in> {(k, v)} \<union> {p \<in> set m. fst p \<noteq> k}" for p
    using mget_set [OF wf, of "fst p" "snd p"] mget_set [of "mput k v m" "fst p" "snd p"]
    by (cases p) auto
  then show ?thesis by blast
qed

text \<open>\<open>delete(m, k)\<close>.\<close>

abbreviation mdel :: "string \<Rightarrow> 'v gomap \<Rightarrow> 'v gomap" where
  "mdel k m \<equiv> AList.delete k m"

lemma set_mdel: "set (mdel k m) = {p \<in> set m. fst p \<noteq> k}"
  by (auto simp: AList.delete_eq)

lemma wf_map_filter [simp, inv_intros]: "wf_map m \<Longrightarrow> wf_map (filter P m)"
  by (induction m) (auto simp: wf_map_def)

lemma wf_map_mdel [simp, inv_intros]: "wf_map m \<Longrightarrow> wf_map (mdel k m)"
  by (simp add: AList.delete_eq split_def)

lemma mget_mdel [simp]: "mget (mdel k m) k' = (if k' = k then None else mget m k')"
  by (simp add: AList.delete_conv')

text \<open>A loop that stops at the first element with an error.\<close>

fun first_error :: "('a \<Rightarrow> go_error option) \<Rightarrow> 'a list \<Rightarrow> go_error option" where
  "first_error f [] = None"
| "first_error f (x # xs) = (case f x of Some err \<Rightarrow> Some err | None \<Rightarrow> first_error f xs)"

lemma first_error_None: "first_error f xs = None \<longleftrightarrow> (\<forall>x\<in>set xs. f x = None)"
  by (induction xs) (auto split: option.splits)

text \<open>A loop that checks each element and that its key is new, with the keys met so far.\<close>

fun scan_unique :: "('a \<Rightarrow> bool) \<Rightarrow> ('a \<Rightarrow> 'k) \<Rightarrow> 'k list \<Rightarrow> 'a list \<Rightarrow> bool" where
  "scan_unique ok key seen [] = True"
| "scan_unique ok key seen (x # xs) =
     (if \<not> ok x \<or> key x \<in> set seen then False else scan_unique ok key (key x # seen) xs)"

lemma scan_unique_iff:
  "scan_unique ok key seen xs \<longleftrightarrow>
     list_all ok xs \<and> distinct (map key xs) \<and> set (map key xs) \<inter> set seen = {}"
  by (induction xs arbitrary: seen) auto

lemma scan_unique_Nil: "scan_unique ok key [] xs \<longleftrightarrow> list_all ok xs \<and> distinct (map key xs)"
  by (simp add: scan_unique_iff)

lemma scan_unique_snoc:
  "scan_unique ok key [] (xs @ [x]) \<longleftrightarrow>
     scan_unique ok key [] xs \<and> ok x \<and> key x \<notin> key ` set xs"
  by (auto simp: scan_unique_iff)

lemma find_append: "find P (xs @ ys) = (case find P xs of Some x \<Rightarrow> Some x | None \<Rightarrow> find P ys)"
  by (induction xs) auto

lemma list_all2_right: "list_all2 P xs ys \<Longrightarrow> y \<in> set ys \<Longrightarrow> \<exists>x\<in>set xs. P x y"
  by (induction rule: list_all2_induct) auto

text \<open>\<open>sort.Slice\<close> with a comparison function, as insertion sort: elements that are equal for the comparison keep their
  order, which is one of the orders Go may return.\<close>

fun insert_by :: "('a \<Rightarrow> 'a \<Rightarrow> bool) \<Rightarrow> 'a \<Rightarrow> 'a list \<Rightarrow> 'a list" where
  "insert_by lt x [] = [x]"
| "insert_by lt x (y # ys) = (if lt y x then y # insert_by lt x ys else x # y # ys)"

definition sort_by :: "('a \<Rightarrow> 'a \<Rightarrow> bool) \<Rightarrow> 'a list \<Rightarrow> 'a list" where
  "sort_by lt xs = foldr (insert_by lt) xs []"

lemma mset_insert_by [simp]: "mset (insert_by lt x xs) = add_mset x (mset xs)"
  by (induction xs) auto

lemma sort_by_Cons: "sort_by lt (x # xs) = insert_by lt x (sort_by lt xs)"
  by (simp add: sort_by_def)

lemma mset_sort_by [simp]: "mset (sort_by lt xs) = mset xs"
  by (induction xs) (auto simp: sort_by_def)

lemma set_sort_by [simp]: "set (sort_by lt xs) = set xs"
  by (metis mset_sort_by set_mset_mset)

lemma length_sort_by [simp]: "length (sort_by lt xs) = length xs"
  by (metis mset_sort_by size_mset)

lemma sort_by_empty [simp]: "sort_by lt xs = [] \<longleftrightarrow> xs = []"
  by (metis mset_sort_by mset_zero_iff)

text \<open>The first element of the sorted slice comes before all others, when the comparison is a strict weak order.\<close>

lemma insert_by_first:
  assumes "\<And>a b c. lt a b \<Longrightarrow> \<not> lt c b \<Longrightarrow> lt a c" and "\<And>a b. lt a b \<Longrightarrow> \<not> lt b a"
    and "ys \<noteq> [] \<Longrightarrow> \<forall>y\<in>set ys. \<not> lt y (hd ys)"
  shows "\<forall>y\<in>insert x (set ys). \<not> lt y (hd (insert_by lt x ys))"
proof (cases ys)
  case Nil
  with assms(2) [of x x] show ?thesis by auto
next
  case (Cons y zs)
  from Cons assms(3) have f: "\<forall>z\<in>set ys. \<not> lt z y" by simp
  show ?thesis
  proof (cases "lt y x")
    case True
    from True f assms(2) [OF True] show ?thesis by (simp add: Cons)
  next
    case False
    have "\<not> lt z x" if "z \<in> set ys" for z
      using f that assms(1) [of z x y] False assms(2) by blast
    moreover have "\<not> lt x x" using assms(2) by blast
    ultimately show ?thesis using False by (simp add: Cons)
  qed
qed

lemma sort_by_first:
  assumes "\<And>a b c. lt a b \<Longrightarrow> \<not> lt c b \<Longrightarrow> lt a c" and "\<And>a b. lt a b \<Longrightarrow> \<not> lt b a" and "y \<in> set xs"
  shows "\<not> lt y (hd (sort_by lt xs))"
proof -
  have "xs \<noteq> [] \<Longrightarrow> \<forall>y\<in>set xs. \<not> lt y (hd (sort_by lt xs))"
  proof (induction xs)
    case (Cons x xs)
    have "sort_by lt xs \<noteq> [] \<Longrightarrow> \<forall>y\<in>set (sort_by lt xs). \<not> lt y (hd (sort_by lt xs))"
      using Cons.IH by auto
    from insert_by_first [of lt "sort_by lt xs" x, OF assms(1,2) this] show ?case by (simp add: sort_by_Cons)
  qed simp
  with assms(3) show ?thesis by force
qed

definition normalizeStrings :: "string list \<Rightarrow> string list" where
  "normalizeStrings items = filter (\<lambda>s. s \<noteq> []) (map TrimSpace items)"

lemma normalizeStrings_no_empty: "[] \<notin> set (normalizeStrings items)"
  by (simp add: normalizeStrings_def)

section \<open>A directory of JSON records\<close>

text \<open>
  A file holds a record that decodes, or bytes that do not (\<open>Garbage\<close>). A write goes to a temporary
  file, which is synced, closed and renamed over the target; then the directory is synced and, in
  most stores, the record is read back. \<open>Io_early\<close> is a failure up to the rename (encoding included):
  the target is untouched. \<open>Io_late\<close> is a failure after it: the caller gets an error although the new
  record is in place.
\<close>

datatype io = Io_ok | Io_early | Io_late

datatype 'a content = Record 'a | Garbage

type_synonym 'a dir = "(string \<times> 'a content) list"

definition readJSON :: "'a dir \<Rightarrow> string \<Rightarrow> go_error + 'a" where
  "readJSON d p = (case map_of d p of
     None \<Rightarrow> Inl os_ErrNotExist
   | Some Garbage \<Rightarrow> Inl IOError
   | Some (Record v) \<Rightarrow> Inr v)"

definition atomicWrite :: "io \<Rightarrow> string \<Rightarrow> 'a \<Rightarrow> 'a dir \<Rightarrow> go_error option \<times> 'a dir" where
  "atomicWrite i p v d = (case i of
     Io_ok \<Rightarrow> (None, AList.update p (Record v) d)
   | Io_early \<Rightarrow> (Some IOError, d)
   | Io_late \<Rightarrow> (Some IOError, AList.update p (Record v) d))"

text \<open>\<open>os.ReadDir\<close> returns the entries sorted by file name.\<close>

definition readDir :: "'a dir \<Rightarrow> (string \<times> 'a content) list" where
  "readDir d = sort_key fst d"

lemma set_readDir [simp]: "set (readDir d) = set d"
  by (simp add: readDir_def)

lemma readJSON_update [store_simps]:
  "readJSON (AList.update p (Record v) d) q = (if q = p then Inr v else readJSON d q)"
  by (simp add: readJSON_def)

lemma readJSON_Inr: "readJSON d p = Inr v \<longleftrightarrow> map_of d p = Some (Record v)"
  by (auto simp: readJSON_def split: option.splits content.splits)

lemma readJSON_NotExist: "readJSON d p = Inl os_ErrNotExist \<longleftrightarrow> map_of d p = None"
  by (auto simp: readJSON_def split: option.splits content.splits)

lemma atomicWrite_ok [store_simps]:
  "atomicWrite Io_ok p v d = (None, AList.update p (Record v) d)"
  by (simp add: atomicWrite_def)

lemma atomicWrite_None:
  "atomicWrite i p v d = (None, d') \<Longrightarrow> i = Io_ok \<and> d' = AList.update p (Record v) d"
  by (cases i) (auto simp: atomicWrite_def)

text \<open>Crash safety of the idiom: whatever fails, each file holds its old record or the new one.\<close>

lemma atomicWrite_old_or_new:
  "atomicWrite i p v d = (e, d') \<Longrightarrow> d' = d \<or> d' = AList.update p (Record v) d"
  by (cases i) (auto simp: atomicWrite_def)

lemma atomicWrite_other:
  "atomicWrite i p v d = (e, d') \<Longrightarrow> q \<noteq> p \<Longrightarrow> readJSON d' q = readJSON d q"
  by (cases i) (auto simp: atomicWrite_def readJSON_update)

lemma atomicWrite_wf [inv_intros]: "atomicWrite i p v d = (e, d') \<Longrightarrow> wf_map d \<Longrightarrow> wf_map d'"
  by (cases i) (auto simp: atomicWrite_def)

text \<open>The interface the stores rely on, and its instance: the record directory above.\<close>

locale record_dir =
  fixes rd :: "'d \<Rightarrow> string \<Rightarrow> go_error + 'a"
    and wr :: "io \<Rightarrow> string \<Rightarrow> 'a \<Rightarrow> 'd \<Rightarrow> go_error option \<times> 'd"
  assumes wr_ok: "wr Io_ok p v d = (e, d') \<Longrightarrow> e = None \<and> rd d' p = Inr v"
    and wr_fault: "wr i p v d = (Some x, d') \<Longrightarrow> d' = d \<or> rd d' p = Inr v"
    and wr_none: "wr i p v d = (None, d') \<Longrightarrow> i = Io_ok"
    and wr_frame: "wr i p v d = (e, d') \<Longrightarrow> q \<noteq> p \<Longrightarrow> rd d' q = rd d q"
begin

lemma read_your_write: "wr i p v d = (None, d') \<Longrightarrow> rd d' p = Inr v"
  using wr_none wr_ok by blast

lemma all_or_nothing: "wr i p v d = (e, d') \<Longrightarrow> rd d' p = rd d p \<or> rd d' p = Inr v"
  by (cases e) (auto dest: wr_fault read_your_write)

end

interpretation jd: record_dir readJSON atomicWrite
proof
  fix p :: string and v :: 'a and d d' :: "'a dir" and e
  assume "atomicWrite Io_ok p v d = (e, d')"
  then show "e = None \<and> readJSON d' p = Inr v" by (auto simp: store_simps)
next
  fix i p and v :: 'a and d d' :: "'a dir" and e
  assume "atomicWrite i p v d = (Some e, d')"
  then show "d' = d \<or> readJSON d' p = Inr v"
    by (cases i) (auto simp: atomicWrite_def readJSON_update)
next
  fix i p and v :: 'a and d d' :: "'a dir"
  assume "atomicWrite i p v d = (None, d')"
  then show "i = Io_ok" by (auto dest: atomicWrite_None)
next
  fix i p q and v :: 'a and d d' :: "'a dir" and e
  assume "atomicWrite i p v d = (e, d')" and "q \<noteq> p"
  then show "readJSON d' q = readJSON d q" by (rule atomicWrite_other)
qed

end
