(* ===== verification/Encoding.thy ===== *)
theory Encoding
  imports GoRuntime
begin

unbundle bit_operations_syntax

text \<open>
  What the stores use of \<open>encoding/json\<close> and \<open>crypto/sha256\<close>: the compact text of a JSON value, SHA-256,
  and \<open>semanticFingerprint\<close>, the digest of an operation's meaning which the ledgers compare. Strings
  are valid UTF-8, as everything that was decoded from JSON is, so the encoder replaces no byte.
\<close>

section \<open>JSON text\<close>

datatype json = JNull | JBool bool | JInt int | JNum string | JStr string | JArr "json list" | JObj "(string \<times> json) list"

text \<open>String escaping as \<open>json.Marshal\<close> does it, HTML characters and the line separators U+2028 and
  U+2029 included.\<close>

definition json_escape1 :: "char \<Rightarrow> string" where
  "json_escape1 c =
     (if c = CHR 0x22 then [CHR 0x5C, CHR 0x22]
      else if c = CHR 0x5C then [CHR 0x5C, CHR 0x5C]
      else if c = CHR 0x08 then [CHR 0x5C, CHR ''b'']
      else if c = CHR 0x0C then [CHR 0x5C, CHR ''f'']
      else if c = CHR 0x0A then [CHR 0x5C, CHR ''n'']
      else if c = CHR 0x0D then [CHR 0x5C, CHR ''r'']
      else if c = CHR 0x09 then [CHR 0x5C, CHR ''t'']
      else if of_char c < (32::nat) \<or> c = CHR ''<'' \<or> c = CHR ''>'' \<or> c = CHR ''&''
      then [CHR 0x5C, CHR ''u'', CHR ''0'', CHR ''0''] @ hex_byte (of_char c)
      else [c])"

fun json_escape :: "string \<Rightarrow> string" where
  "json_escape [] = []"
| "json_escape (a # b # c # cs) =
     (if a = CHR 0xE2 \<and> b = CHR 0x80 \<and> c = CHR 0xA8 then CHR 0x5C # ''u2028'' @ json_escape cs
      else if a = CHR 0xE2 \<and> b = CHR 0x80 \<and> c = CHR 0xA9 then CHR 0x5C # ''u2029'' @ json_escape cs
      else json_escape1 a @ json_escape (b # c # cs))"
| "json_escape (a # cs) = json_escape1 a @ json_escape cs"

definition json_string :: "string \<Rightarrow> string" where
  "json_string s = [CHR 0x22] @ json_escape s @ [CHR 0x22]"

fun join :: "string \<Rightarrow> string list \<Rightarrow> string" where
  "join sep [] = []"
| "join sep [x] = x"
| "join sep (x # y # ys) = x @ sep @ join sep (y # ys)"

fun json_text :: "json \<Rightarrow> string" where
  "json_text JNull = ''null''"
| "json_text (JBool b) = (if b then ''true'' else ''false'')"
| "json_text (JInt i) = dec_int i"
| "json_text (JNum s) = s"
| "json_text (JStr s) = json_string s"
| "json_text (JArr xs) = ''['' @ join '','' (map json_text xs) @ '']''"
| "json_text (JObj fs) =
     CHR 0x7B # join '','' (map (\<lambda>(k, v). json_string k @ '':'' @ json_text v) fs) @ [CHR 0x7D]"

text \<open>Struct fields: \<open>omitempty\<close> drops an empty string or slice; a nil slice is \<open>null\<close>.\<close>

definition jomit :: "string \<Rightarrow> string \<Rightarrow> (string \<times> json) list" where
  "jomit k s = (if s = [] then [] else [(k, JStr s)])"

definition jstrs :: "string list \<Rightarrow> json" where
  "jstrs xs = JArr (map JStr xs)"

definition jomit_strs :: "string \<Rightarrow> string list \<Rightarrow> (string \<times> json) list" where
  "jomit_strs k xs = (if xs = [] then [] else [(k, jstrs xs)])"

lemma json_escape1_length: "1 \<le> length (json_escape1 c)"
  by (simp add: json_escape1_def hex_byte_def)

lemma json_escape1_add: "n \<le> m \<Longrightarrow> Suc n \<le> length (json_escape1 c) + m"
  using json_escape1_length [of c] by linarith

lemma json_escape_length: "length s \<le> length (json_escape s)"
  by (induction s rule: json_escape.induct)
    (use json_escape1_length in \<open>auto intro: json_escape1_add\<close>)

section \<open>SHA-256\<close>

type_synonym w32 = "32 word"

text \<open>The constants are the first 32 bits of the fractional parts of the cube roots (square roots) of the first 64
  (8) primes; \<open>root_bits k n b 0\<close> is the \<open>k\<close>-th root of \<open>n\<close> rounded down, bit by bit.\<close>

fun root_bits :: "nat \<Rightarrow> nat \<Rightarrow> nat \<Rightarrow> nat \<Rightarrow> nat" where
  "root_bits k n 0 r = r"
| "root_bits k n (Suc b) r = root_bits k n b (if (r + 2 ^ b) ^ k \<le> n then r + 2 ^ b else r)"

definition primes_below :: "nat \<Rightarrow> nat list" where
  "primes_below m = filter (\<lambda>n. list_all (\<lambda>i. n mod i \<noteq> 0) [2..<n]) [2..<m]"

definition frac_root :: "nat \<Rightarrow> nat \<Rightarrow> w32" where
  "frac_root k p = word_of_nat (root_bits k (p * 2 ^ (32 * k)) 36 0)"

definition sha_k :: "w32 list" where
  "sha_k = map (frac_root 3) (primes_below 312)"

definition rotr :: "nat \<Rightarrow> w32 \<Rightarrow> w32" where
  "rotr n x = drop_bit n x OR push_bit (32 - n) x"

definition be_word :: "nat list \<Rightarrow> w32" where
  "be_word bs = word_of_nat (foldl (\<lambda>a b. 256 * a + b) 0 bs)"

definition be_bytes :: "nat \<Rightarrow> nat \<Rightarrow> nat list" where
  "be_bytes k n = map (\<lambda>i. n div 256 ^ i mod 256) (rev [0..<k])"

fun groups :: "nat \<Rightarrow> nat \<Rightarrow> 'a list \<Rightarrow> 'a list list" where
  "groups k 0 xs = []"
| "groups k (Suc n) xs = take k xs # groups k n (drop k xs)"

definition sha_pad :: "nat list \<Rightarrow> nat list" where
  "sha_pad m = (let n = length m in
     m @ [128] @ replicate ((119 - n mod 64) mod 64) 0 @ be_bytes 8 (8 * n))"

fun sha_schedule :: "nat \<Rightarrow> w32 list \<Rightarrow> w32 list" where
  \<comment> \<open>the newest word comes first\<close>
  "sha_schedule 0 ws = ws"
| "sha_schedule (Suc n) ws =
     (let a = ws ! 1; b = ws ! 14;
          s1 = rotr 17 a XOR rotr 19 a XOR drop_bit 10 a;
          s0 = rotr 7 b XOR rotr 18 b XOR drop_bit 3 b
      in sha_schedule n ((s1 + ws ! 6 + s0 + ws ! 15) # ws))"

fun sha_rounds :: "(w32 \<times> w32) list \<Rightarrow> w32 \<times> w32 \<times> w32 \<times> w32 \<times> w32 \<times> w32 \<times> w32 \<times> w32
    \<Rightarrow> w32 \<times> w32 \<times> w32 \<times> w32 \<times> w32 \<times> w32 \<times> w32 \<times> w32" where
  "sha_rounds [] st = st"
| "sha_rounds ((k, w) # kws) (a, b, c, d, e, f, g, h) =
     (let s1 = rotr 6 e XOR rotr 11 e XOR rotr 25 e;
          ch = (e AND f) XOR (NOT e AND g);
          t1 = h + s1 + ch + k + w;
          s0 = rotr 2 a XOR rotr 13 a XOR rotr 22 a;
          mj = (a AND b) XOR (a AND c) XOR (b AND c)
      in sha_rounds kws (t1 + (s0 + mj), a, b, c, d + t1, e, f, g))"

fun sha_block :: "w32 \<times> w32 \<times> w32 \<times> w32 \<times> w32 \<times> w32 \<times> w32 \<times> w32 \<Rightarrow> nat list
    \<Rightarrow> w32 \<times> w32 \<times> w32 \<times> w32 \<times> w32 \<times> w32 \<times> w32 \<times> w32" where
  "sha_block (a, b, c, d, e, f, g, h) bs =
     (let ws = rev (sha_schedule 48 (rev (map be_word (groups 4 16 bs)))) in
      case sha_rounds (zip sha_k ws) (a, b, c, d, e, f, g, h) of
        (a', b', c', d', e', f', g', h') \<Rightarrow>
          (a + a', b + b', c + c', d + d', e + e', f + f', g + g', h + h'))"

definition sha_init :: "w32 \<times> w32 \<times> w32 \<times> w32 \<times> w32 \<times> w32 \<times> w32 \<times> w32" where
  "sha_init = (frac_root 2 2, frac_root 2 3, frac_root 2 5, frac_root 2 7, frac_root 2 11, frac_root 2 13, frac_root 2 17,
     frac_root 2 19)"

fun sha_output :: "w32 \<times> w32 \<times> w32 \<times> w32 \<times> w32 \<times> w32 \<times> w32 \<times> w32 \<Rightarrow> nat list" where
  "sha_output (a, b, c, d, e, f, g, h) = concat (map (\<lambda>w. be_bytes 4 (unat w)) [a, b, c, d, e, f, g, h])"

definition sha256 :: "nat list \<Rightarrow> nat list" where
  "sha256 m = (let p = sha_pad m in sha_output (foldl sha_block sha_init (groups 64 (length p div 64) p)))"

lemma be_bytes_length [simp]: "length (be_bytes k n) = k"
  by (simp add: be_bytes_def)

lemma sha_output_length [simp]: "length (sha_output st) = 32"
  by (cases st rule: sha_output.cases) simp

lemma sha256_length [simp]: "length (sha256 m) = 32"
  by (simp add: sha256_def Let_def)

definition bytes_of :: "string \<Rightarrow> nat list" where
  "bytes_of s = map of_char s"

definition sha256_hex :: "string \<Rightarrow> string" where
  "sha256_hex s = hexEncode (sha256 (bytes_of s))"

lemma sha256_hex_digest [simp]: "safeDigest (sha256_hex s)"
  by (simp add: sha256_hex_def hexEncode_digest)

lemma sha256_hex_length [simp]: "length (sha256_hex s) = 64"
  by (simp add: sha256_hex_def)

section \<open>The fingerprint of an operation\<close>

text \<open>\<open>semanticFingerprint\<close> of the packages workitem, attention, dispatcher and
  agentregistry: the digest of the action's name and of the operation's normalised input.\<close>

definition semanticFingerprint :: "string \<Rightarrow> json \<Rightarrow> string" where
  "semanticFingerprint action v =
     sha256_hex (json_text (JObj [(''action'', JStr action), (''value'', v)]))"

lemma semanticFingerprint_digest [simp]: "safeDigest (semanticFingerprint a v)"
  by (simp add: semanticFingerprint_def)

text \<open>In the packages automation and computer the fields of the struct have no tags, and the callers ignore the error of a value that
  cannot be encoded (a time after the year 9999) and go on with the empty fingerprint.\<close>

definition plainFingerprint :: "string \<Rightarrow> json option \<Rightarrow> string" where
  "plainFingerprint action v = (case v of None \<Rightarrow> []
     | Some j \<Rightarrow> sha256_hex (json_text (JObj [(''Action'', JStr action), (''Value'', j)])))"

lemma plainFingerprint_digest [simp]: "safeDigest (plainFingerprint a (Some v))"
  by (simp add: plainFingerprint_def)

text \<open>The id of an operation that the store makes itself.\<close>

definition internalOperationID :: "string \<Rightarrow> string list \<Rightarrow> string" where
  "internalOperationID p parts = p @ ''-'' @ take 16 (sha256_hex (join [CHR 0x00] parts))"

lemma internalOperationID_safe:
  assumes "safeID p" and "length p \<le> 64"
  shows "safeID (internalOperationID p parts)"
proof (cases p)
  case (Cons c cs)
  have "list_all safe_char (take 16 (sha256_hex s))" for s
    unfolding sha256_hex_def using safe_char_hexEncode [of "sha256 (bytes_of s)"] by (auto simp: list_all_iff dest: in_set_takeD)
  with assms Cons show ?thesis by (simp add: internalOperationID_def safe_char_def)
qed (use assms in simp)

end
