(* ===== verification/Ledger.thy ===== *)
theory Ledger
  imports Encoding
begin

text \<open>
  The operation ledger that workitem, attention, dispatcher, automation, computer and agentregistry
  keep: a list of committed operations, numbered from 1 without gaps, each with a caller-chosen id and the
  fingerprint of its meaning. The loops over it are written once, over the field selectors of the component's
  \<open>Operation\<close> record, with the laws of the ledger as a locale. A second locale states what a
  ledger is for: however often a request is retried, it takes effect at most once.
\<close>

section \<open>The environment of one locked section\<close>

text \<open>What a store method reads from outside: the readings of the clock in order, the outcome of the write, the
  random source, and the error of its context, for the methods that ask for it.\<close>

record env =
  clk :: "nat \<Rightarrow> time"
  wio :: io
  ent :: "nat \<Rightarrow> entropy"
  cerr :: "go_error option"

abbreviation now :: "env \<Rightarrow> time" where
  "now e \<equiv> clk e 0"

text \<open>An environment for the examples: the clock stands at 100, nothing fails.\<close>

definition demo_env :: env where
  "demo_env = \<lparr>clk = (\<lambda>n. 100), wio = Io_ok, ent = (\<lambda>n. (Some (replicate 12 7), 0)), cerr = None\<rparr>"

section \<open>Ledger loops\<close>

text \<open>The validation loop: \<open>ok\<close> is what the component checks of one entry besides its number and id.\<close>

fun scan_ledger :: "('o \<Rightarrow> bool) \<Rightarrow> ('o \<Rightarrow> string) \<Rightarrow> ('o \<Rightarrow> int) \<Rightarrow> nat \<Rightarrow> string list \<Rightarrow> 'o list \<Rightarrow> bool" where
  "scan_ledger ok idOf revOf index seen [] = True"
| "scan_ledger ok idOf revOf index seen (x # xs) =
     (if \<not> ok x \<or> revOf x \<noteq> int index + 1 \<or> idOf x \<in> set seen then False
      else scan_ledger ok idOf revOf (Suc index) (idOf x # seen) xs)"

lemma scan_ledger_iff:
  "scan_ledger ok idOf revOf n seen xs \<longleftrightarrow>
     list_all ok xs \<and> distinct (map idOf xs) \<and> set (map idOf xs) \<inter> set seen = {} \<and>
     map revOf xs = map (\<lambda>i. int i + 1) [n..<n + length xs]"
proof (induction xs arbitrary: n seen)
  case Nil
  then show ?case by simp
next
  case (Cons x xs)
  have "[n..<n + length (x # xs)] = n # [Suc n..<Suc n + length xs]"
    by (simp add: upt_rec)
  with Cons.IH [of "Suc n" "idOf x # seen"] show ?case by auto
qed

definition ledger_ok :: "('o \<Rightarrow> bool) \<Rightarrow> ('o \<Rightarrow> string) \<Rightarrow> ('o \<Rightarrow> int) \<Rightarrow> 'o list \<Rightarrow> bool" where
  "ledger_ok ok idOf revOf xs = scan_ledger ok idOf revOf 0 [] xs"

lemma ledger_ok_iff:
  "ledger_ok ok idOf revOf xs \<longleftrightarrow>
     list_all ok xs \<and> distinct (map idOf xs) \<and> map revOf xs = map (\<lambda>i. int i + 1) [0..<length xs]"
  by (simp add: ledger_ok_def scan_ledger_iff)

lemma ledger_ok_Nil [simp]: "ledger_ok ok idOf revOf []"
  by (simp add: ledger_ok_iff)

lemma ledger_ok_snoc:
  "ledger_ok ok idOf revOf (xs @ [x]) \<longleftrightarrow>
     ledger_ok ok idOf revOf xs \<and> ok x \<and> idOf x \<notin> idOf ` set xs \<and> revOf x = int (length xs) + 1"
  by (auto simp: ledger_ok_iff)

lemma ledger_ok_last:
  assumes "ledger_ok ok idOf revOf xs" and "xs \<noteq> []"
  shows "revOf (last xs) = int (length xs)"
proof -
  from assms(2) obtain ys y where "xs = ys @ [y]" by (cases xs rule: rev_cases) auto
  with assms(1) show ?thesis by (simp add: ledger_ok_snoc)
qed

definition find_op :: "('o \<Rightarrow> string) \<Rightarrow> string \<Rightarrow> 'o list \<Rightarrow> 'o option" where
  "find_op idOf i xs = find (\<lambda>x. idOf x = i) xs"

lemma find_op_None: "find_op idOf i xs = None \<longleftrightarrow> i \<notin> idOf ` set xs"
  by (auto simp: find_op_def find_None_iff)

lemma find_op_Some: "find_op idOf i xs = Some x \<Longrightarrow> x \<in> set xs \<and> idOf x = i"
  by (auto simp: find_op_def find_Some_iff)

lemma find_op_append:
  "find_op idOf i (xs @ ys) = (case find_op idOf i xs of Some x \<Rightarrow> Some x | None \<Rightarrow> find_op idOf i ys)"
  by (induction xs) (simp_all add: find_op_def)

lemma find_op_single [simp]: "find_op idOf i [x] = (if idOf x = i then Some x else None)"
  by (simp add: find_op_def)

section \<open>The laws of a ledger\<close>

locale op_ledger =
  fixes idOf :: "'o \<Rightarrow> string"
    and fpOf :: "'o \<Rightarrow> string"
    and revOf :: "'o \<Rightarrow> int"
    and ok :: "'o \<Rightarrow> bool"
    and mk :: "'x \<Rightarrow> string \<Rightarrow> string \<Rightarrow> int \<Rightarrow> time \<Rightarrow> 'o"
    and okx :: "'x \<Rightarrow> bool"
  assumes id_mk [simp]: "idOf (mk x i f r t) = i"
    and fp_mk [simp]: "fpOf (mk x i f r t) = f"
    and rev_mk [simp]: "revOf (mk x i f r t) = r"
    and ok_mk: "okx x \<Longrightarrow> safeID i \<Longrightarrow> safeDigest f \<Longrightarrow> t \<noteq> 0 \<Longrightarrow> ok (mk x i f r t)"
begin

text \<open>Committing a fresh operation keeps the ledger in order, and later lookups find it.\<close>

lemma commit_ok:
  assumes "ledger_ok ok idOf revOf ops" and "find_op idOf i ops = None"
    and "okx x" and "safeID i" and "safeDigest f" and "t \<noteq> 0"
  shows "ledger_ok ok idOf revOf (ops @ [mk x i f (int (length ops) + 1) t])"
  using assms ok_mk [OF assms(3-6)] by (simp add: ledger_ok_snoc find_op_None)

lemma commit_found:
  "find_op idOf i ops = None \<Longrightarrow> find_op idOf i (ops @ [mk x i f r t]) = Some (mk x i f r t)"
  by (simp add: find_op_append)

lemma commit_keeps:
  "find_op idOf j ops = Some y \<Longrightarrow> find_op idOf j (ops @ [mk x i f r t]) = Some y"
  by (simp add: find_op_append)

text \<open>An id names one operation.\<close>

lemma one_operation_per_id:
  assumes "ledger_ok ok idOf revOf ops" and "a \<in> set ops" and "b \<in> set ops" and "idOf a = idOf b"
  shows "a = b"
proof -
  from assms(1) have "distinct (map idOf ops)" by (simp add: ledger_ok_iff)
  then have "inj_on idOf (set ops)" by (simp add: distinct_map)
  with assms(2-4) show ?thesis by (simp add: inj_on_def)
qed

text \<open>Reusing a committed id makes the ledger invalid.\<close>

lemma reuse_breaks:
  "find_op idOf i ops \<noteq> None \<Longrightarrow> \<not> ledger_ok ok idOf revOf (ops @ [mk x i f r t])"
  by (simp add: ledger_ok_snoc find_op_None)

end

section \<open>Retries\<close>

text \<open>\<open>run_steps\<close> executes a list of calls in order and keeps the state; \<open>outcomes\<close> keeps the results.\<close>

fun run_steps :: "('e \<Rightarrow> 's \<Rightarrow> 'r \<times> 's) \<Rightarrow> 'e list \<Rightarrow> 's \<Rightarrow> 's" where
  "run_steps exec [] s = s"
| "run_steps exec (e # es) s = run_steps exec es (snd (exec e s))"

fun outcomes :: "('e \<Rightarrow> 's \<Rightarrow> 'r \<times> 's) \<Rightarrow> 'e list \<Rightarrow> 's \<Rightarrow> 'r list" where
  "outcomes exec [] s = []"
| "outcomes exec (e # es) s = fst (exec e s) # outcomes exec es (snd (exec e s))"

lemma run_steps_append: "run_steps exec (es @ fs) s = run_steps exec fs (run_steps exec es s)"
  by (induction es arbitrary: s) auto

text \<open>
  \<open>exec\<close> performs one fixed request; \<open>recorded\<close> says that the ledger holds it. What the stores promise: a recorded
  request changes nothing, an unrecorded one changes nothing or gets recorded, and success is
  only reported for a recorded request.
\<close>

locale at_most_once =
  fixes exec :: "'e \<Rightarrow> 's \<Rightarrow> (go_error + 'a) \<times> 's"
    and recorded :: "'s \<Rightarrow> bool"
    and inv :: "'s \<Rightarrow> bool"
  assumes replay: "inv s \<Longrightarrow> recorded s \<Longrightarrow> snd (exec e s) = s"
    and effect: "inv s \<Longrightarrow> \<not> recorded s \<Longrightarrow> snd (exec e s) = s \<or> recorded (snd (exec e s))"
    and reported: "inv s \<Longrightarrow> fst (exec e s) = Inr v \<Longrightarrow> recorded (snd (exec e s))"
    and keeps: "inv s \<Longrightarrow> inv (snd (exec e s))"
begin

lemma recorded_stays: "inv s \<Longrightarrow> recorded s \<Longrightarrow> run_steps exec es s = s"
  by (induction es arbitrary: s) (auto simp: replay)

text \<open>Of all the states that any number of retries pass through, at most one differs from the first.\<close>

lemma one_effect:
  assumes "inv s"
  shows "\<exists>s'. \<forall>k. run_steps exec (take k es) s \<in> {s, s'}"
proof (cases "recorded s")
  case True
  then show ?thesis using recorded_stays [OF assms] by auto
next
  case False
  show ?thesis
    using assms False
  proof (induction es arbitrary: s)
    case Nil
    then show ?case by auto
  next
    case (Cons e es)
    let ?t = "snd (exec e s)"
    have inv: "inv ?t" using Cons.prems keeps by blast
    show ?case
    proof (cases "recorded ?t")
      case True
      have "run_steps exec (take k (e # es)) s \<in> {s, ?t}" for k
        by (cases k) (auto simp: recorded_stays [OF inv True])
      then show ?thesis by blast
    next
      case False
      with Cons.prems effect have "?t = s" by blast
      with Cons.IH [OF inv False] obtain s' where s': "\<And>k. run_steps exec (take k es) s \<in> {s, s'}"
        by auto
      have "run_steps exec (take k (e # es)) s \<in> {s, s'}" for k
        using s' \<open>?t = s\<close> by (cases k) auto
      then show ?thesis by blast
    qed
  qed
qed

text \<open>Once a retry has reported success, the request is recorded for good.\<close>

lemma success_recorded:
  "inv s \<Longrightarrow> Inr v \<in> set (outcomes exec es s) \<Longrightarrow> recorded (run_steps exec es s)"
proof (induction es arbitrary: s)
  case Nil
  then show ?case by simp
next
  case (Cons e es)
  let ?t = "snd (exec e s)"
  have inv: "inv ?t" using Cons.prems keeps by blast
  show ?case
  proof (cases "fst (exec e s) = Inr v")
    case True
    then have "recorded ?t" using Cons.prems(1) reported by blast
    then show ?thesis using recorded_stays [OF inv] by simp
  next
    case False
    with Cons.prems(2) have "Inr v \<in> set (outcomes exec es ?t)" by auto
    then show ?thesis using Cons.IH [OF inv] by simp
  qed
qed

end

end
