(* ===== verification/Inbox.thy ===== *)
theory Inbox
  imports Ledger
begin

text \<open>
  The durable input queue of a run: \<open>internal/runstore/inbox.go\<close> with the records of
  \<open>internal/engine/input.go\<close>. One file per run holds the queued inputs in order of arrival, each queued, held by a
  claim, or acknowledged at a history revision. The lemmas show the delivery contract: a held or acknowledged input
  is handed to no other claim, an acknowledged one stays so, and reconciling with the committed history after a crash leaves
  no input held.
\<close>

section \<open>Data\<close>

datatype InputKind = InputUserSteer | InputTool | InputTask | OtherKind string

record QueuedInput =
  qID :: string
  qRunID :: string
  qKind :: InputKind
  qContent :: string
  qCreatedAt :: time

record InputClaim =
  clID :: string
  clRunID :: string
  clTurnID :: string
  clItems :: "QueuedInput list"
  clClaimedAt :: time

record InputDeliveryStatus =
  dsInputID :: string
  dsClaimID :: string
  dsAckRevision :: int
  dsAcknowledgedAt :: time

record inboxItem =
  iInput :: QueuedInput
  iClaimID :: string
  iClaimTurnID :: string
  iClaimedAt :: time
  iAckRevision :: int
  iAcknowledgedAt :: time

record inboxState =
  ibRunID :: string
  ibItems :: "inboxItem list"

type_synonym inboxDir = "inboxState dir"

definition maximumQueuedInputBytes :: nat where
  "maximumQueuedInputBytes = 65536"

definition newItem :: "QueuedInput \<Rightarrow> inboxItem" where
  "newItem q = \<lparr>iInput = q, iClaimID = [], iClaimTurnID = [], iClaimedAt = 0, iAckRevision = 0, iAcknowledgedAt = 0\<rparr>"

definition zeroClaim :: InputClaim where
  "zeroClaim = \<lparr>clID = [], clRunID = [], clTurnID = [], clItems = [], clClaimedAt = 0\<rparr>"

section \<open>Operations\<close>

definition validateID :: "string \<Rightarrow> go_error option" where
  "validateID runID =
     (if \<not> safeID runID then Some (Errorf (''invalid run id '' @ runID)) else None)"

definition inboxPath :: "string \<Rightarrow> string" where
  "inboxPath runID = runID @ ''.inbox.json''"

definition loadInbox :: "string \<Rightarrow> inboxDir \<Rightarrow> go_error + inboxState" where
  "loadInbox runID d =
     (case readJSON d (inboxPath runID) of
        Inl e \<Rightarrow> if errors_Is e os_ErrNotExist then Inr \<lparr>ibRunID = runID, ibItems = []\<rparr> else Inl e
      | Inr state \<Rightarrow> if ibRunID state \<noteq> runID then Inl (Errorf ''inbox run id mismatch'') else Inr state)"

text \<open>The loop of \<open>Enqueue\<close> over the items looks for the id.\<close>

definition findInput :: "string \<Rightarrow> inboxItem list \<Rightarrow> inboxItem option" where
  "findInput i items = find (\<lambda>x. qID (iInput x) = i) items"

definition validKind :: "InputKind \<Rightarrow> bool" where
  "validKind k = (case k of InputUserSteer \<Rightarrow> True | InputTool \<Rightarrow> True | InputTask \<Rightarrow> True | OtherKind _ \<Rightarrow> False)"

definition Enqueue :: "env \<Rightarrow> QueuedInput \<Rightarrow> inboxDir \<Rightarrow> (go_error + QueuedInput) \<times> inboxDir" where
  "Enqueue e input0 d =
     (case validateID (qRunID input0) of Some err \<Rightarrow> (Inl err, d) | None \<Rightarrow>
      let input1 = input0\<lparr>qContent := TrimSpace (qContent input0)\<rparr> in
      if qContent input1 = [] \<or> length (qContent input1) > maximumQueuedInputBytes
      then (Inl (Errorf ''queued input content must contain 1-65536 bytes''), d) else
      if \<not> validKind (qKind input1) then (Inl (Errorf ''invalid queued input kind''), d) else
      let input2 = (if qID input1 = [] then input1\<lparr>qID := newID ''input'' (ent e 0)\<rparr> else input1) in
      if \<not> safeID (qID input2) then (Inl (Errorf ''invalid queued input id''), d) else
      let input = (if qCreatedAt input2 = 0 then input2\<lparr>qCreatedAt := now e\<rparr> else input2) in
      (case loadInbox (qRunID input) d of Inl err \<Rightarrow> (Inl err, d) | Inr state \<Rightarrow>
       (case findInput (qID input) (ibItems state) of
          Some item \<Rightarrow>
            if qKind (iInput item) = qKind input \<and> qContent (iInput item) = qContent input
            then (Inr (iInput item), d)
            else (Inl (Errorf (''input reused with different semantics '' @ qID input)), d)
        | None \<Rightarrow>
            (case atomicWrite (wio e) (inboxPath (qRunID input))
                    (state\<lparr>ibItems := ibItems state @ [newItem input]\<rparr>) d of
               (Some err, d') \<Rightarrow> (Inl err, d')
             | (None, d') \<Rightarrow> (Inr input, d')))))"

text \<open>\<open>Claim\<close> takes the first \<open>limit\<close> items that are neither held nor acknowledged.\<close>

definition claimable :: "inboxItem \<Rightarrow> bool" where
  "claimable x \<longleftrightarrow> iClaimID x = [] \<and> iAckRevision x = 0"

fun claimItems :: "string \<Rightarrow> string \<Rightarrow> time \<Rightarrow> nat \<Rightarrow> inboxItem list \<Rightarrow> QueuedInput list \<times> inboxItem list" where
  "claimItems cid turn t n [] = ([], [])"
| "claimItems cid turn t n (x # xs) =
     (if n > 0 \<and> claimable x
      then (case claimItems cid turn t (n - 1) xs of (qs, ys) \<Rightarrow>
              (iInput x # qs, x\<lparr>iClaimID := cid, iClaimTurnID := turn, iClaimedAt := t\<rparr> # ys))
      else (case claimItems cid turn t n xs of (qs, ys) \<Rightarrow> (qs, x # ys)))"

definition Claim :: "env \<Rightarrow> string \<Rightarrow> string \<Rightarrow> int \<Rightarrow> inboxDir \<Rightarrow> (go_error + InputClaim) \<times> inboxDir" where
  "Claim e runID turnID limit d =
     (case validateID runID of Some err \<Rightarrow> (Inl err, d) | None \<Rightarrow>
      if turnID = [] \<or> limit \<le> 0 then (Inl (Errorf ''turn id and positive claim limit are required''), d) else
      (case loadInbox runID d of Inl err \<Rightarrow> (Inl err, d) | Inr state \<Rightarrow>
       if filter claimable (ibItems state) = [] then (Inr zeroClaim, d) else
       let cid = newID ''claim'' (ent e 0); t = now e in
       (case claimItems cid turnID t (nat limit) (ibItems state) of (qs, items) \<Rightarrow>
        (case atomicWrite (wio e) (inboxPath runID) (state\<lparr>ibItems := items\<rparr>) d of
           (Some err, d') \<Rightarrow> (Inl err, d')
         | (None, d') \<Rightarrow>
             (Inr \<lparr>clID = cid, clRunID = runID, clTurnID = turnID, clItems = qs, clClaimedAt = t\<rparr>, d')))))"

text \<open>\<open>updateClaim\<close> goes through the inbox files in directory order and updates the items of the claim in
  the first file that has one; an update that fails leaves that file unwritten. The update gets the
  item's index, for the reading of the clock it makes.\<close>

fun updateItems :: "string \<Rightarrow> (nat \<Rightarrow> inboxItem \<Rightarrow> go_error + inboxItem) \<Rightarrow> nat \<Rightarrow> inboxItem list
    \<Rightarrow> go_error + (bool \<times> inboxItem list)" where
  "updateItems cid upd n [] = Inr (False, [])"
| "updateItems cid upd n (x # xs) =
     (if iClaimID x = cid
      then (case upd n x of Inl e \<Rightarrow> Inl e
            | Inr y \<Rightarrow> (case updateItems cid upd (Suc n) xs of Inl e \<Rightarrow> Inl e | Inr (_, ys) \<Rightarrow> Inr (True, y # ys)))
      else (case updateItems cid upd (Suc n) xs of Inl e \<Rightarrow> Inl e | Inr (f, ys) \<Rightarrow> Inr (f, x # ys)))"

fun updateFiles :: "io \<Rightarrow> string \<Rightarrow> (nat \<Rightarrow> inboxItem \<Rightarrow> go_error + inboxItem) \<Rightarrow> (string \<times> inboxState content) list
    \<Rightarrow> inboxDir \<Rightarrow> go_error option \<times> inboxDir" where
  "updateFiles i cid upd [] d = (Some (Errorf (''input claim not found '' @ cid)), d)"
| "updateFiles i cid upd ((name, c) # fs) d =
     (if \<not> suffix ''.inbox.json'' name then updateFiles i cid upd fs d else
      (case c of Garbage \<Rightarrow> (Some IOError, d)
       | Record state \<Rightarrow>
           (case updateItems cid upd 0 (ibItems state) of Inl err \<Rightarrow> (Some err, d)
            | Inr (found, items) \<Rightarrow>
                if found then atomicWrite i name (state\<lparr>ibItems := items\<rparr>) d
                else updateFiles i cid upd fs d)))"

definition updateClaim :: "io \<Rightarrow> string \<Rightarrow> (nat \<Rightarrow> inboxItem \<Rightarrow> go_error + inboxItem) \<Rightarrow> inboxDir
    \<Rightarrow> go_error option \<times> inboxDir" where
  "updateClaim i cid upd d = updateFiles i cid upd (readDir d) d"

definition ackItem :: "env \<Rightarrow> int \<Rightarrow> nat \<Rightarrow> inboxItem \<Rightarrow> go_error + inboxItem" where
  "ackItem e revision n x =
     (if iAckRevision x > 0 \<and> iAckRevision x \<noteq> revision
      then Inl (Errorf (''claim already acknowledged at revision '' @ dec_int (iAckRevision x)))
      else Inr (x\<lparr>iAckRevision := revision, iAcknowledgedAt := clk e n\<rparr>))"

definition Ack :: "env \<Rightarrow> string \<Rightarrow> int \<Rightarrow> inboxDir \<Rightarrow> go_error option \<times> inboxDir" where
  "Ack e claimID revision d =
     (if claimID = [] \<or> revision \<le> 0
      then (Some (Errorf ''claim id and positive history revision are required''), d)
      else updateClaim (wio e) claimID (ackItem e revision) d)"

definition releaseItem :: "nat \<Rightarrow> inboxItem \<Rightarrow> go_error + inboxItem" where
  "releaseItem n x =
     (if iAckRevision x = 0 then Inr (x\<lparr>iClaimID := [], iClaimTurnID := [], iClaimedAt := 0\<rparr>) else Inr x)"

definition Release :: "env \<Rightarrow> string \<Rightarrow> inboxDir \<Rightarrow> go_error option \<times> inboxDir" where
  "Release e claimID d =
     (if claimID = [] then (Some (Errorf ''claim id is required''), d)
      else updateClaim (wio e) claimID releaseItem d)"

text \<open>\<open>Reconcile\<close>: a claim that the history committed is acknowledged at its revision, any other is released.\<close>

definition reconcileItem :: "env \<Rightarrow> (string \<Rightarrow> int) \<Rightarrow> nat \<Rightarrow> inboxItem \<Rightarrow> inboxItem" where
  "reconcileItem e committed n x =
     (if iClaimID x = [] \<or> iAckRevision x > 0 then x
      else if committed (iClaimID x) > 0
      then x\<lparr>iAckRevision := committed (iClaimID x), iAcknowledgedAt := clk e n\<rparr>
      else x\<lparr>iClaimID := [], iClaimTurnID := [], iClaimedAt := 0\<rparr>)"

fun reconcileItems :: "env \<Rightarrow> (string \<Rightarrow> int) \<Rightarrow> nat \<Rightarrow> inboxItem list \<Rightarrow> bool \<times> inboxItem list" where
  "reconcileItems e committed n [] = (False, [])"
| "reconcileItems e committed n (x # xs) =
     (case reconcileItems e committed (Suc n) xs of (changed, ys) \<Rightarrow>
        (changed \<or> \<not> (iClaimID x = [] \<or> iAckRevision x > 0), reconcileItem e committed n x # ys))"

definition Reconcile :: "env \<Rightarrow> string \<Rightarrow> (string \<Rightarrow> int) \<Rightarrow> inboxDir \<Rightarrow> go_error option \<times> inboxDir" where
  "Reconcile e runID committed d =
     (case validateID runID of Some err \<Rightarrow> (Some err, d) | None \<Rightarrow>
      (case loadInbox runID d of Inl err \<Rightarrow> (Some err, d) | Inr state \<Rightarrow>
       (case reconcileItems e committed 0 (ibItems state) of (changed, items) \<Rightarrow>
          if \<not> changed then (None, d)
          else atomicWrite (wio e) (inboxPath runID) (state\<lparr>ibItems := items\<rparr>) d)))"

definition InputStatus :: "string \<Rightarrow> string \<Rightarrow> inboxDir \<Rightarrow> go_error + InputDeliveryStatus" where
  "InputStatus runID inputID d =
     (case validateID runID of Some err \<Rightarrow> Inl err | None \<Rightarrow>
      (case loadInbox runID d of Inl err \<Rightarrow> Inl err | Inr state \<Rightarrow>
       (case findInput inputID (ibItems state) of
          Some item \<Rightarrow> Inr \<lparr>dsInputID = inputID, dsClaimID = iClaimID item, dsAckRevision = iAckRevision item,
                            dsAcknowledgedAt = iAcknowledgedAt item\<rparr>
        | None \<Rightarrow> Inl os_ErrNotExist)))"

section \<open>The life of one input\<close>

datatype status = Queued | Held string | Acked int

definition item_status :: "inboxItem \<Rightarrow> status" where
  "item_status x = (if iAckRevision x > 0 then Acked (iAckRevision x)
               else if iClaimID x = [] then Queued else Held (iClaimID x))"

inductive status_step :: "status \<Rightarrow> status \<Rightarrow> bool" where
  stay: "status_step s s"
| hold: "status_step Queued (Held c)"
| ack: "r > 0 \<Longrightarrow> status_step (Held c) (Acked r)"
| release: "status_step (Held c) Queued"

inductive_cases acked_stepE: "status_step (Acked r) s"
inductive_cases held_stepE: "status_step (Held c) s"

declare status_step.stay [simp, inv_intros]

definition item_step :: "inboxItem \<Rightarrow> inboxItem \<Rightarrow> bool" where
  "item_step x y \<longleftrightarrow> iInput y = iInput x \<and> status_step (item_status x) (item_status y)"

lemma item_step_refl [simp]: "item_step x x"
  by (simp add: item_step_def)

lemma item_step_acked: "item_step x y \<Longrightarrow> item_status x = Acked r \<Longrightarrow> item_status y = Acked r \<and> iInput y = iInput x"
  by (auto simp: item_step_def elim: acked_stepE)

text \<open>One queue is a later version of another: the old inputs keep their places, what was added is queued,
  and ids stay distinct.\<close>

abbreviation inputIDs :: "inboxItem list \<Rightarrow> string list" where
  "inputIDs xs \<equiv> map (\<lambda>x. qID (iInput x)) xs"

definition evolves :: "inboxItem list \<Rightarrow> inboxItem list \<Rightarrow> bool" where
  "evolves xs ys \<longleftrightarrow> (\<exists>zs new. ys = zs @ new \<and> list_all2 item_step xs zs \<and> list_all claimable new)
     \<and> (distinct (inputIDs xs) \<longrightarrow> distinct (inputIDs ys))"

lemma item_steps_inputs: "list_all2 item_step xs ys \<Longrightarrow> map iInput ys = map iInput xs"
  by (induction rule: list_all2_induct) (auto simp: item_step_def)

lemma evolvesI: "list_all2 item_step xs ys \<Longrightarrow> evolves xs ys"
proof -
  assume step: "list_all2 item_step xs ys"
  have "map qID (map iInput ys) = map qID (map iInput xs)" using step by (simp add: item_steps_inputs)
  then have "inputIDs ys = inputIDs xs" by (simp add: comp_def)
  moreover have "\<exists>zs new. ys = zs @ new \<and> list_all2 item_step xs zs \<and> list_all claimable new"
    using step by (metis append_Nil2 list.pred_inject(1))
  ultimately show ?thesis by (simp add: evolves_def)
qed

lemma evolves_refl [simp]: "evolves xs xs"
  by (rule evolvesI) (simp add: list_all2_refl)

lemma evolves_snoc:
  assumes "claimable x" and "qID (iInput x) \<notin> set (inputIDs xs)"
  shows "evolves xs (xs @ [x])"
proof -
  have "\<exists>zs new. xs @ [x] = zs @ new \<and> list_all2 item_step xs zs \<and> list_all claimable new"
    using assms(1) by (intro exI [of _ xs] exI [of _ "[x]"]) (simp add: list_all2_refl)
  with assms(2) show ?thesis unfolding evolves_def by auto
qed

lemma evolves_distinct: "evolves xs ys \<Longrightarrow> distinct (inputIDs xs) \<Longrightarrow> distinct (inputIDs ys)"
  by (simp add: evolves_def)

lemma findInput_None: "findInput i xs = None \<longleftrightarrow> i \<notin> set (inputIDs xs)"
  by (auto simp: findInput_def find_None_iff)

lemma evolves_nth: "evolves xs ys \<Longrightarrow> i < length xs \<Longrightarrow> i < length ys \<and> item_step (xs ! i) (ys ! i)"
  by (auto simp: evolves_def nth_append list_all2_conv_all_nth)

lemma claimable_newItem [simp]: "claimable (newItem q)"
  by (simp add: claimable_def newItem_def)

lemma newID_nonempty [simp]: "newID (c # p) r \<noteq> []"
  by (simp add: newID_def split: option.splits)

subsection \<open>What each operation does to the items\<close>

lemma claimItems_step:
  "claimItems cid turn t n xs = (qs, ys) \<Longrightarrow> cid \<noteq> [] \<Longrightarrow> list_all2 item_step xs ys"
proof (induction cid turn t n xs arbitrary: qs ys rule: claimItems.induct)
  case (1 cid turn t n)
  then show ?case by simp
next
  case (2 cid turn t n x xs)
  have "n > 0 \<Longrightarrow> claimable x \<Longrightarrow> item_step x (x\<lparr>iClaimID := cid, iClaimTurnID := turn, iClaimedAt := t\<rparr>)"
    using 2 by (auto simp: item_step_def item_status_def claimable_def intro: status_step.hold)
  with 2 show ?case by (auto split: if_splits prod.splits)
qed

lemma claimItems_outputs:
  "claimItems cid turn t n xs = (qs, ys) \<Longrightarrow> qs = map iInput (take n (filter claimable xs))"
proof (induction cid turn t n xs arbitrary: qs ys rule: claimItems.induct)
  case (1 cid turn t n)
  then show ?case by simp
next
  case (2 cid turn t n x xs)
  then show ?case by (cases n) (auto split: if_splits prod.splits)
qed

lemma claimItems_held:
  assumes "claimItems cid turn t n xs = (qs, ys)" and "cid \<noteq> []" and "cid \<notin> iClaimID ` set xs"
  shows "map iInput (filter (\<lambda>y. iClaimID y = cid) ys) = qs"
  using assms
proof (induction cid turn t n xs arbitrary: qs ys rule: claimItems.induct)
  case (1 cid turn t n)
  then show ?case by simp
next
  case (2 cid turn t n x xs)
  then show ?case by (auto split: if_splits prod.splits)
qed

lemma updateItems_step:
  assumes "\<And>n x y. iClaimID x = cid \<Longrightarrow> upd n x = Inr y \<Longrightarrow> item_step x y"
  shows "updateItems cid upd n xs = Inr (f, ys) \<Longrightarrow> list_all2 item_step xs ys"
proof (induction xs arbitrary: n f ys)
  case Nil
  then show ?case by simp
next
  case (Cons x xs)
  then show ?case using assms by (auto split: if_splits sum.splits prod.splits)
qed

lemma ackItem_step:
  assumes "revision > 0" and "iClaimID x = cid" and "cid \<noteq> []" and "ackItem e revision n x = Inr y"
  shows "item_step x y"
  using assms by (auto simp: ackItem_def item_step_def item_status_def intro: status_step.ack split: if_splits)

lemma releaseItem_step:
  assumes "iClaimID x = cid" and "cid \<noteq> []" and "releaseItem n x = Inr y"
  shows "item_step x y"
  using assms by (auto simp: releaseItem_def item_step_def item_status_def intro: status_step.release split: if_splits)

lemma reconcileItem_step: "item_step x (reconcileItem e committed n x)"
  by (auto simp: reconcileItem_def item_step_def item_status_def intro: status_step.intros)

lemma reconcileItems_step: "reconcileItems e committed n xs = (c, ys) \<Longrightarrow> list_all2 item_step xs ys"
  by (induction xs arbitrary: n c ys) (auto simp: reconcileItem_step split: prod.splits)

section \<open>The queue of a run in the directory\<close>

definition items_of :: "inboxDir \<Rightarrow> string \<Rightarrow> inboxItem list" where
  "items_of d run = (case loadInbox run d of Inl _ \<Rightarrow> [] | Inr st \<Rightarrow> ibItems st)"

lemma inboxPath_inj [simp]: "inboxPath a = inboxPath b \<longleftrightarrow> a = b"
  by (simp add: inboxPath_def)

lemma loadInbox_run: "loadInbox run d = Inr st \<Longrightarrow> ibRunID st = run"
  by (auto simp: loadInbox_def split: sum.splits if_splits)

lemma items_of_put:
  "items_of (AList.update p (Record st) d) run =
     (if p = inboxPath run then (if ibRunID st = run then ibItems st else []) else items_of d run)"
  by (auto simp: items_of_def loadInbox_def readJSON_update)

text \<open>A write that replaces a queue by a later version of it, whatever fails, makes every queue evolve.\<close>

lemma write_evolves:
  assumes "atomicWrite i p st' d = (err, d')" and "ibRunID st' = rid"
    and "p = inboxPath rid \<Longrightarrow> evolves (items_of d rid) (ibItems st')"
    and "\<And>run. run \<noteq> rid \<Longrightarrow> p = inboxPath run \<Longrightarrow> items_of d run = []"
  shows "evolves (items_of d run) (items_of d' run)"
proof -
  from assms(1) consider "d' = d" | "d' = AList.update p (Record st') d"
    by (auto dest: atomicWrite_old_or_new)
  then show ?thesis
  proof cases
    case 1
    then show ?thesis by simp
  next
    case 2
    show ?thesis
    proof (cases "p = inboxPath run")
      case True
      then show ?thesis using assms(2,3) assms(4) [of run] 2 by (cases "run = rid") (auto simp: items_of_put)
    next
      case False
      then show ?thesis by (simp add: 2 items_of_put)
    qed
  qed
qed

lemma write_run_evolves:
  assumes "atomicWrite i (inboxPath rid) (st\<lparr>ibItems := xs\<rparr>) d = (err, d')"
    and "loadInbox rid d = Inr st" and "evolves (ibItems st) xs"
  shows "evolves (items_of d run) (items_of d' run)"
proof (rule write_evolves [OF assms(1)])
  show "ibRunID (st\<lparr>ibItems := xs\<rparr>) = rid" using loadInbox_run [OF assms(2)] by simp
  show "evolves (items_of d rid) (ibItems (st\<lparr>ibItems := xs\<rparr>))" using assms(2,3) by (simp add: items_of_def)
qed auto

lemma write_run_evolves2:
  assumes "atomicWrite i (inboxPath rid) (st\<lparr>ibItems := xs\<rparr>) d = (err, d')"
    and "loadInbox rid d = Inr st" and "list_all2 item_step (ibItems st) xs"
  shows "evolves (items_of d run) (items_of d' run)"
  using assms by (blast intro: write_run_evolves evolvesI)

lemma newItem_input [simp]: "iInput (newItem q) = q"
  by (simp add: newItem_def)

lemma Enqueue_evolves: "Enqueue e q d = (r, d') \<Longrightarrow> evolves (items_of d run) (items_of d' run)"
  by (auto simp: Enqueue_def Let_def evolves_snoc findInput_None split: option.splits if_splits sum.splits prod.splits
      elim!: write_run_evolves)

lemma Claim_evolves: "Claim e run0 turn n d = (r, d') \<Longrightarrow> evolves (items_of d run) (items_of d' run)"
  by (auto simp: Claim_def Let_def split: option.splits if_splits sum.splits prod.splits
      elim!: write_run_evolves2 dest!: claimItems_step)

lemma Reconcile_evolves: "Reconcile e run0 c d = (r, d') \<Longrightarrow> evolves (items_of d run) (items_of d' run)"
  by (auto simp: Reconcile_def split: option.splits if_splits sum.splits prod.splits
      elim!: write_run_evolves2 dest!: reconcileItems_step)

lemma updateFiles_evolves:
  assumes step: "\<And>n x y. iClaimID x = cid \<Longrightarrow> upd n x = Inr y \<Longrightarrow> item_step x y"
    and wf: "wf_map d"
  shows "set fs \<subseteq> set d \<Longrightarrow> updateFiles i cid upd fs d = (err, d') \<Longrightarrow> evolves (items_of d run) (items_of d' run)"
proof (induction fs)
  case Nil
  then show ?case by simp
next
  case (Cons f fs)
  obtain name c where f: "f = (name, c)" by (cases f)
  have IH: "updateFiles i cid upd fs d = (err, d') \<Longrightarrow> ?case" using Cons by simp
  have no_case: ?case if "d' = d" using that by simp
  show ?case
  proof (cases "suffix ''.inbox.json'' name")
    case False
    with Cons.prems(2) IH f show ?thesis by simp
  next
    case suf: True
    show ?thesis
    proof (cases c)
      case Garbage
      with Cons.prems(2) suf f no_case show ?thesis by simp
    next
      case (Record st)
      have "map_of d name = Some (Record st)"
        using Cons.prems(1) f Record wf by (simp add: mget_set)
      then have load: "name = inboxPath r \<Longrightarrow> items_of d r = (if ibRunID st = r then ibItems st else [])" for r
        by (simp add: items_of_def loadInbox_def readJSON_def)
      show ?thesis
      proof (cases "updateItems cid upd 0 (ibItems st)")
        case (Inl e)
        with Cons.prems(2) suf f Record no_case show ?thesis by simp
      next
        case (Inr fi)
        obtain found items where fi: "fi = (found, items)" by (cases fi)
        show ?thesis
        proof (cases found)
          case False
          with Cons.prems(2) suf f Record Inr fi IH show ?thesis by simp
        next
          case True
          with Cons.prems(2) suf f Record Inr fi
          have w: "atomicWrite i name (st\<lparr>ibItems := items\<rparr>) d = (err, d')" by simp
          have "list_all2 item_step (ibItems st) items"
            using updateItems_step [of cid upd 0 "ibItems st"] step Inr fi by blast
          then show ?thesis
            by (intro write_evolves [OF w, where rid = "ibRunID st"]) (auto simp: load evolvesI)
        qed
      qed
    qed
  qed
qed

lemma updateClaim_evolves:
  assumes "\<And>n x y. iClaimID x = cid \<Longrightarrow> upd n x = Inr y \<Longrightarrow> item_step x y" and "wf_map d"
    and "updateClaim i cid upd d = (err, d')"
  shows "evolves (items_of d run) (items_of d' run)"
  using updateFiles_evolves [OF assms(1,2), where fs = "readDir d"] assms(3) by (simp add: updateClaim_def)

lemma Ack_evolves: "wf_map d \<Longrightarrow> Ack e c r d = (err, d') \<Longrightarrow> evolves (items_of d run) (items_of d' run)"
  by (auto simp: Ack_def not_le split: if_splits elim!: updateClaim_evolves [rotated 2] intro!: ackItem_step)

lemma Release_evolves: "wf_map d \<Longrightarrow> Release e c d = (err, d') \<Longrightarrow> evolves (items_of d run) (items_of d' run)"
  by (auto simp: Release_def releaseItem_step split: if_splits elim!: updateClaim_evolves [rotated 2])

section \<open>Histories of a queue\<close>

datatype inbox_call =
    CEnqueue env QueuedInput
  | CClaim env string string int
  | CAck env string int
  | CRelease env string
  | CReconcile env string "string \<Rightarrow> int"

text \<open>A call's effect, and the inputs it hands to its caller.\<close>

fun do_call :: "inbox_call \<Rightarrow> inboxDir \<Rightarrow> (string \<times> string) list \<times> inboxDir" where
  "do_call (CEnqueue e q) d = ([], snd (Enqueue e q d))"
| "do_call (CClaim e rid turn n) d =
     (case Claim e rid turn n d of
        (Inr cl, d') \<Rightarrow> (map (\<lambda>q. (rid, qID q)) (clItems cl), d') | (Inl _, d') \<Rightarrow> ([], d'))"
| "do_call (CAck e c r) d = ([], snd (Ack e c r d))"
| "do_call (CRelease e c) d = ([], snd (Release e c d))"
| "do_call (CReconcile e rid m) d = ([], snd (Reconcile e rid m d))"

definition handed_out :: "inbox_call list \<Rightarrow> inboxDir \<Rightarrow> (string \<times> string) list" where
  "handed_out cs d = concat (outcomes do_call cs d)"

definition queue_inv :: "inboxDir \<Rightarrow> bool" where
  "queue_inv d \<longleftrightarrow> wf_map d \<and> (\<forall>rid. distinct (inputIDs (items_of d rid)))"

lemma updateFiles_wf: "updateFiles i cid upd fs d = (err, d') \<Longrightarrow> wf_map d \<Longrightarrow> wf_map d'"
  by (induction fs) (auto split: if_splits content.splits sum.splits prod.splits dest: atomicWrite_wf)

lemma Enqueue_wf: "wf_map d \<Longrightarrow> wf_map (snd (Enqueue e q d))"
  by (auto simp: Enqueue_def Let_def split: option.splits sum.splits prod.splits dest: atomicWrite_wf)

lemma Claim_wf: "wf_map d \<Longrightarrow> wf_map (snd (Claim e rid turn n d))"
  by (auto simp: Claim_def Let_def split: option.splits sum.splits prod.splits dest: atomicWrite_wf)

lemma Reconcile_wf: "wf_map d \<Longrightarrow> wf_map (snd (Reconcile e rid m d))"
  by (auto simp: Reconcile_def split: option.splits sum.splits prod.splits dest: atomicWrite_wf)
     (metis atomicWrite_wf prod.collapse)

lemma updateClaim_wf: "wf_map d \<Longrightarrow> wf_map (snd (updateClaim i cid upd d))"
  unfolding updateClaim_def by (metis updateFiles_wf prod.collapse)

lemma do_call_step:
  assumes "wf_map d"
  shows "wf_map (snd (do_call c d)) \<and> evolves (items_of d rid) (items_of (snd (do_call c d)) rid)"
proof (cases c)
  case (CEnqueue e q)
  then show ?thesis using assms Enqueue_wf [of d e q] Enqueue_evolves [of e q d]
    by (cases "Enqueue e q d") simp
next
  case (CClaim e r turn n)
  then show ?thesis using Claim_wf [OF assms, of e r turn n] Claim_evolves [of e r turn n d]
    by (auto split: prod.splits sum.splits)
next
  case (CAck e cl r)
  moreover have "wf_map (snd (Ack e cl r d))" using assms by (simp add: Ack_def updateClaim_wf)
  ultimately show ?thesis using Ack_evolves [OF assms, of e cl r] by (cases "Ack e cl r d") simp
next
  case (CRelease e cl)
  moreover have "wf_map (snd (Release e cl d))" using assms by (simp add: Release_def updateClaim_wf)
  ultimately show ?thesis using Release_evolves [OF assms, of e cl] by (cases "Release e cl d") simp
next
  case (CReconcile e r m)
  then show ?thesis using Reconcile_wf [OF assms, of e r m] Reconcile_evolves [of e r m d]
    by (cases "Reconcile e r m d") simp
qed

lemma do_call_inv: "queue_inv d \<Longrightarrow> queue_inv (snd (do_call c d))"
  using do_call_step [of d c] by (auto simp: queue_inv_def dest: evolves_distinct)

lemma Claim_outputs:
  assumes "Claim e rid turn n d = (Inr cl, d')"
  shows "clItems cl = map iInput (take (nat n) (filter claimable (items_of d rid)))"
  using assms
  by (auto simp: Claim_def Let_def items_of_def zeroClaim_def dest: claimItems_outputs
      split: option.splits if_splits sum.splits prod.splits)

lemma acked_not_claimable: "item_status x = Acked r \<Longrightarrow> \<not> claimable x"
  by (auto simp: item_status_def claimable_def split: if_splits)

lemma acked_not_handed:
  assumes inv: "queue_inv d" and x: "x \<in> set (items_of d rid)" and ack: "item_status x = Acked r"
  shows "(rid, qID (iInput x)) \<notin> set (fst (do_call c d))"
proof
  assume "(rid, qID (iInput x)) \<in> set (fst (do_call c d))"
  then obtain e turn n cl d' where c: "Claim e rid turn n d = (Inr cl, d')" and "qID (iInput x) \<in> qID ` set (clItems cl)"
    by (cases c) (auto split: prod.splits sum.splits)
  then obtain y where y: "y \<in> set (items_of d rid)" "claimable y" "qID (iInput y) = qID (iInput x)"
    by (auto simp: Claim_outputs [OF c] dest!: in_set_takeD)
  from inv have "distinct (inputIDs (items_of d rid))" by (simp add: queue_inv_def)
  with x y have "x = y" by (auto simp: distinct_map inj_on_def)
  with y(2) ack show False by (simp add: acked_not_claimable)
qed

lemma do_call_acked:
  assumes "wf_map d" and "x \<in> set (items_of d rid)" and "item_status x = Acked r"
  shows "\<exists>y\<in>set (items_of (snd (do_call c d)) rid). iInput y = iInput x \<and> item_status y = Acked r"
proof -
  from assms(2) obtain i where i: "i < length (items_of d rid)" "x = items_of d rid ! i"
    by (auto simp: in_set_conv_nth)
  from do_call_step [OF assms(1), of c rid]
  have "evolves (items_of d rid) (items_of (snd (do_call c d)) rid)" by simp
  from evolves_nth [OF this i(1)] i(2)
  have lt: "i < length (items_of (snd (do_call c d)) rid)"
    and step: "item_step x (items_of (snd (do_call c d)) rid ! i)" by auto
  show ?thesis using item_step_acked [OF step assms(3)] nth_mem [OF lt] by blast
qed

text \<open>C17. An input that was acknowledged at a history revision keeps that revision whatever is called later, and no
  later claim hands it out again.\<close>

theorem inbox_acked_for_good:
  assumes "queue_inv d" and "x \<in> set (items_of d rid)" and "item_status x = Acked r"
  shows "(\<exists>y\<in>set (items_of (run_steps do_call cs d) rid). iInput y = iInput x \<and> item_status y = Acked r)
    \<and> (rid, qID (iInput x)) \<notin> set (handed_out cs d)"
  using assms
proof (induction cs arbitrary: d x)
  case Nil
  then show ?case by (auto simp: handed_out_def)
next
  case (Cons c cs)
  obtain y where y: "y \<in> set (items_of (snd (do_call c d)) rid)" "iInput y = iInput x" "item_status y = Acked r"
    using do_call_acked [of d x rid r c] Cons.prems by (auto simp: queue_inv_def)
  from Cons.IH [OF do_call_inv [OF Cons.prems(1), of c] y(1,3)] acked_not_handed [OF Cons.prems, of c] y(2)
  show ?case by (auto simp: handed_out_def)
qed

text \<open>A concrete queue for the witnesses: one run, three inputs.\<close>

definition demo_input :: "string \<Rightarrow> QueuedInput" where
  "demo_input i = \<lparr>qID = i, qRunID = ''run'', qKind = InputTask, qContent = ''x'', qCreatedAt = 5\<rparr>"

definition demo_dir :: inboxDir where
  "demo_dir = [(''run.inbox.json'', Record \<lparr>ibRunID = ''run'', ibItems =
     [(newItem (demo_input ''a''))\<lparr>iClaimID := ''c1'', iAckRevision := 3\<rparr>,
      (newItem (demo_input ''b''))\<lparr>iClaimID := ''c2''\<rparr>,
      newItem (demo_input ''c'')]\<rparr>)]"

lemma demo_items [simp]:
  "items_of demo_dir rid = (if rid = ''run'' then
     [(newItem (demo_input ''a''))\<lparr>iClaimID := ''c1'', iAckRevision := 3\<rparr>,
      (newItem (demo_input ''b''))\<lparr>iClaimID := ''c2''\<rparr>,
      newItem (demo_input ''c'')] else [])"
  using inboxPath_inj [of rid "''run''"]
  by (auto simp: items_of_def demo_dir_def loadInbox_def readJSON_def inboxPath_def)

lemma demo_inv [simp]: "queue_inv demo_dir"
  by (simp add: queue_inv_def wf_map_def demo_input_def newItem_def) (simp add: demo_dir_def)

theorem inbox_acked_for_good_witness:
  "(''run'', ''a'') \<notin> set (handed_out [CRelease demo_env ''c1'', CClaim demo_env ''run'' ''turn'' 9] demo_dir)"
  using inbox_acked_for_good [of demo_dir "(newItem (demo_input ''a''))\<lparr>iClaimID := ''c1'', iAckRevision := 3\<rparr>"
      "''run''" 3 "[CRelease demo_env ''c1'', CClaim demo_env ''run'' ''turn'' 9]"]
  by (simp add: item_status_def) (simp add: demo_input_def newItem_def)

lemma claimItems_split:
  assumes "claimItems cid turn t n xs = (qs, ys)" and "cid \<noteq> []" and "cid \<notin> iClaimID ` set xs"
  shows "map iInput (filter (\<lambda>y. item_status y = Held cid) ys) = qs \<and>
    filter claimable ys = drop n (filter claimable xs)"
  using assms
proof (induction cid turn t n xs arbitrary: qs ys rule: claimItems.induct)
  case (1 cid turn t n)
  then show ?case by simp
next
  case (2 cid turn t n x xs)
  have "claimable x \<Longrightarrow> item_status (x\<lparr>iClaimID := cid, iClaimTurnID := turn, iClaimedAt := t\<rparr>) = Held cid"
    and "\<not> claimable (x\<lparr>iClaimID := cid, iClaimTurnID := turn, iClaimedAt := t\<rparr>)"
    and "item_status x \<noteq> Held cid"
    using 2(4,5) by (auto simp: claimable_def item_status_def)
  with 2 show ?case by (cases n) (auto split: if_splits prod.splits)
qed

text \<open>A claim that succeeds hands out the oldest inputs that nobody holds, at most \<open>limit\<close> of them, holds exactly
  those for itself, and leaves the rest claimable.\<close>

theorem inbox_claim_hands_out_oldest:
  assumes "Claim e rid turn n d = (Inr cl, d')" and "newID ''claim'' (ent e 0) \<notin> iClaimID ` set (items_of d rid)"
  shows "clItems cl = map iInput (take (nat n) (filter claimable (items_of d rid))) \<and>
    filter claimable (items_of d' rid) = drop (nat n) (filter claimable (items_of d rid)) \<and>
    (clItems cl = [] \<or> map iInput (filter (\<lambda>x. item_status x = Held (clID cl)) (items_of d' rid)) = clItems cl)"
proof -
  have "clItems cl = map iInput (take (nat n) (filter claimable (items_of d rid)))"
    using assms(1) by (rule Claim_outputs)
  moreover have "(cl = zeroClaim \<and> d' = d \<and> filter claimable (items_of d rid) = []) \<or>
    (filter claimable (items_of d' rid) = drop (nat n) (filter claimable (items_of d rid)) \<and>
     map iInput (filter (\<lambda>x. item_status x = Held (clID cl)) (items_of d' rid)) = clItems cl)"
    using assms
    by (auto simp: Claim_def Let_def items_of_def [of d] items_of_put loadInbox_run atomicWrite_def
        dest!: claimItems_split split: option.splits if_splits sum.splits prod.splits io.splits)
  ultimately show ?thesis by (auto simp: zeroClaim_def)
qed

lemma load_demo: "loadInbox ''run'' demo_dir = Inr \<lparr>ibRunID = ''run'', ibItems = items_of demo_dir ''run''\<rparr>"
  by (simp add: loadInbox_def readJSON_def inboxPath_def demo_dir_def) (simp add: items_of_def loadInbox_def readJSON_def inboxPath_def demo_dir_def)

lemma safe_demo [simp]: "validateID ''run'' = None"
  by (simp add: validateID_def is_alnum_def safe_char_def less_eq_char_def)

theorem inbox_claim_hands_out_oldest_witness:
  "\<exists>cl d'. Claim demo_env ''run'' ''turn'' 9 demo_dir = (Inr cl, d') \<and> clItems cl = [demo_input ''c'']"
proof -
  have c: "claimable (newItem (demo_input ''a'')\<lparr>iClaimID := ''c1'', iAckRevision := 3\<rparr>) = False"
    "claimable (newItem (demo_input ''b'')\<lparr>iClaimID := ''c2''\<rparr>) = False"
    by (simp_all add: claimable_def)
  obtain cl d' where cl: "Claim demo_env ''run'' ''turn'' 9 demo_dir = (Inr cl, d')"
    by (simp add: Claim_def load_demo Let_def c atomicWrite_def demo_env_def split: prod.splits)
  have fresh: "newID ''claim'' (ent demo_env 0) \<notin> iClaimID ` set (items_of demo_dir ''run'')"
    by (simp add: newID_def demo_env_def newItem_def)
  from inbox_claim_hands_out_oldest [OF cl fresh] have "clItems cl = [demo_input ''c'']" by (simp add: c)
  with cl show ?thesis by blast
qed

definition settled :: "(string \<Rightarrow> int) \<Rightarrow> inboxItem \<Rightarrow> inboxItem \<Rightarrow> bool" where
  "settled committed x y \<longleftrightarrow> iInput y = iInput x \<and>
     item_status y = (case item_status x of
         Held c \<Rightarrow> if committed c > 0 then Acked (committed c) else Queued
       | Queued \<Rightarrow> Queued | Acked r \<Rightarrow> Acked r)"

lemma settled_not_held: "settled committed x y \<Longrightarrow> item_status y \<noteq> Held c"
  by (auto simp: settled_def split: status.splits if_splits)

lemma settled_reconcileItem: "settled committed x (reconcileItem e committed n x)"
  by (auto simp: settled_def reconcileItem_def item_status_def)

lemma settled_reconcileItems: "reconcileItems e committed n xs = (ch, ys) \<Longrightarrow> list_all2 (settled committed) xs ys"
  by (induction xs arbitrary: n ch ys) (auto simp: settled_reconcileItem split: prod.splits)

lemma reconcileItems_unchanged: "reconcileItems e committed n xs = (False, ys) \<Longrightarrow> ys = xs"
  by (induction xs arbitrary: n ys) (auto simp: reconcileItem_def split: prod.splits)

text \<open>Reconciling a run's queue with its committed history after a crash: a held input whose claim the history
  committed becomes acknowledged at that revision, one whose claim it did not commit is queued again, and
  nothing else changes; no input is left held.\<close>

theorem inbox_reconcile_settles:
  assumes "Reconcile e rid committed d = (None, d')"
  shows "list_all2 (settled committed) (items_of d rid) (items_of d' rid)
    \<and> (\<forall>c. Held c \<notin> item_status ` set (items_of d' rid))"
proof -
  from assms obtain st ch ys where st: "loadInbox rid d = Inr st"
    and ys: "reconcileItems e committed 0 (ibItems st) = (ch, ys)"
    and d': "if ch then atomicWrite (wio e) (inboxPath rid) (st\<lparr>ibItems := ys\<rparr>) d = (None, d') else d' = d"
    by (auto simp: Reconcile_def split: option.splits if_splits sum.splits prod.splits)
  have "items_of d' rid = ys"
  proof (cases ch)
    case True
    with d' loadInbox_run [OF st] show ?thesis by (auto simp: items_of_put dest!: atomicWrite_None)
  next
    case False
    with ys have "ys = ibItems st" by (auto dest: reconcileItems_unchanged)
    with False d' st show ?thesis by (simp add: items_of_def)
  qed
  with settled_reconcileItems [OF ys] st
  have "list_all2 (settled committed) (items_of d rid) (items_of d' rid)" by (simp add: items_of_def)
  moreover from this have "Held c \<notin> item_status ` set (items_of d' rid)" for c
    by (auto dest!: list_all2_right [rotated] dest: settled_not_held [of _ _ _ c])
  ultimately show ?thesis by blast
qed

theorem inbox_reconcile_settles_witness:
  "Held ''c2'' \<in> item_status ` set (items_of demo_dir ''run'') \<and>
   (\<forall>c. Held c \<notin> item_status ` set (items_of (snd (Reconcile demo_env ''run'' (\<lambda>c. 8) demo_dir)) ''run''))"
proof -
  have "fst (Reconcile demo_env ''run'' (\<lambda>c. 8) demo_dir) = None"
    by (simp add: Reconcile_def load_demo atomicWrite_def demo_env_def newItem_def)
  then have "Reconcile demo_env ''run'' (\<lambda>c. 8) demo_dir = (None, snd (Reconcile demo_env ''run'' (\<lambda>c. 8) demo_dir))"
    by (metis prod.collapse)
  from inbox_reconcile_settles [OF this] show ?thesis by (simp add: item_status_def newItem_def)
qed

section \<open>Enqueueing is idempotent\<close>

definition enqueued :: "QueuedInput \<Rightarrow> inboxDir \<Rightarrow> bool" where
  "enqueued q d \<longleftrightarrow> (\<exists>x. findInput (qID q) (items_of d (qRunID q)) = Some x
     \<and> qKind (iInput x) = qKind q \<and> qContent (iInput x) = TrimSpace (qContent q))"

lemma findInput_append:
  "findInput i (xs @ ys) = (case findInput i xs of Some x \<Rightarrow> Some x | None \<Rightarrow> findInput i ys)"
  by (induction xs) (simp_all add: findInput_def)

lemma findInput_newItem [simp]: "findInput i [newItem q] = (if qID q = i then Some (newItem q) else None)"
  by (simp add: findInput_def)

lemma enqueued_load:
  "loadInbox (qRunID q) d = Inr st \<Longrightarrow> enqueued q d \<longleftrightarrow> (\<exists>x. findInput (qID q) (ibItems st) = Some x
     \<and> qKind (iInput x) = qKind q \<and> qContent (iInput x) = TrimSpace (qContent q))"
  by (simp add: enqueued_def items_of_def)

lemma Enqueue_cases:
  assumes "qID q \<noteq> []" and "Enqueue e q d = (r, d')"
  obtains (no_change) "d' = d" and "\<And>v. r = Inr v \<Longrightarrow> enqueued q d"
  | (appended) st q' where "loadInbox (qRunID q) d = Inr st" and "findInput (qID q) (ibItems st) = None"
      and "qID q' = qID q" and "qKind q' = qKind q" and "qContent q' = TrimSpace (qContent q)"
      and "d' = AList.update (inboxPath (qRunID q)) (Record (st\<lparr>ibItems := ibItems st @ [newItem q']\<rparr>)) d"
proof -
  let ?q = "let q1 = q\<lparr>qContent := TrimSpace (qContent q)\<rparr> in if qCreatedAt q = 0 then q1\<lparr>qCreatedAt := now e\<rparr> else q1"
  have sel: "qID ?q = qID q" "qRunID ?q = qRunID q" "qKind ?q = qKind q" "qContent ?q = TrimSpace (qContent q)"
    by (simp_all add: Let_def)
  show thesis
  proof (cases "loadInbox (qRunID q) d")
    case (Inl err)
    with assms have "d' = d \<and> (\<forall>v. r \<noteq> Inr v)"
      by (auto simp: Enqueue_def Let_def split: option.splits if_splits)
    then show thesis using no_change by blast
  next
    case (Inr st)
    show thesis
    proof (cases "findInput (qID q) (ibItems st)")
      case None
      from assms Inr None consider "d' = d \<and> (\<forall>v. r \<noteq> Inr v)"
        | "d' = AList.update (inboxPath (qRunID q)) (Record (st\<lparr>ibItems := ibItems st @ [newItem ?q]\<rparr>)) d"
        by (auto simp: Enqueue_def Let_def atomicWrite_def split: option.splits if_splits io.splits)
      then show thesis
      proof cases
        case 1
        then show thesis using no_change by blast
      next
        case 2
        from appended [OF Inr None sel(1,3,4) 2] show thesis .
      qed
    next
      case (Some x)
      with assms Inr have "d' = d \<and> (\<forall>v. r = Inr v \<longrightarrow> enqueued q d)"
        by (auto simp: Enqueue_def Let_def enqueued_load [OF Inr] split: option.splits if_splits)
      then show thesis using no_change by blast
    qed
  qed
qed

lemma appended_enqueued:
  assumes "loadInbox (qRunID q) d = Inr st" and "findInput (qID q) (ibItems st) = None"
    and "qID q' = qID q" and "qKind q' = qKind q" and "qContent q' = TrimSpace (qContent q)"
  shows "enqueued q (AList.update (inboxPath (qRunID q)) (Record (st\<lparr>ibItems := ibItems st @ [newItem q']\<rparr>)) d)"
  using assms loadInbox_run [OF assms(1)] by (simp add: enqueued_def items_of_put findInput_append)

lemma Enqueue_replay:
  assumes "qID q \<noteq> []" and "enqueued q d"
  shows "snd (Enqueue e q d) = d"
proof -
  obtain r d' where e: "Enqueue e q d = (r, d')" by (cases "Enqueue e q d")
  from assms(1) e show ?thesis
    by (rule Enqueue_cases) (use assms(2) e in \<open>auto simp: enqueued_load\<close>)
qed

lemma Enqueue_effect:
  assumes "qID q \<noteq> []"
  shows "snd (Enqueue e q d) = d \<or> enqueued q (snd (Enqueue e q d))"
proof -
  obtain r d' where e: "Enqueue e q d = (r, d')" by (cases "Enqueue e q d")
  from assms e show ?thesis by (rule Enqueue_cases) (auto simp: e appended_enqueued)
qed

lemma Enqueue_reported:
  assumes "qID q \<noteq> []" and "fst (Enqueue e q d) = Inr v"
  shows "enqueued q (snd (Enqueue e q d))"
proof -
  obtain r d' where e: "Enqueue e q d = (r, d')" by (cases "Enqueue e q d")
  from assms(1) e show ?thesis by (rule Enqueue_cases) (use assms(2) e in \<open>auto simp: appended_enqueued\<close>)
qed

interpretation enq: at_most_once "\<lambda>e. Enqueue e (q\<lparr>qID := c # cs\<rparr>)" "enqueued (q\<lparr>qID := c # cs\<rparr>)" "\<lambda>_. True"
  for q :: QueuedInput and c cs
proof
  fix s and e
  assume "enqueued (q\<lparr>qID := c # cs\<rparr>) s"
  then show "snd (Enqueue e (q\<lparr>qID := c # cs\<rparr>) s) = s" by (simp add: Enqueue_replay)
next
  fix s and e
  show "snd (Enqueue e (q\<lparr>qID := c # cs\<rparr>) s) = s
      \<or> enqueued (q\<lparr>qID := c # cs\<rparr>) (snd (Enqueue e (q\<lparr>qID := c # cs\<rparr>) s))"
    by (rule Enqueue_effect) simp
next
  fix s and e and v
  assume "fst (Enqueue e (q\<lparr>qID := c # cs\<rparr>) s) = Inr v"
  then show "enqueued (q\<lparr>qID := c # cs\<rparr>) (snd (Enqueue e (q\<lparr>qID := c # cs\<rparr>) s))"
    by (rule Enqueue_reported [rotated]) simp
qed simp

text \<open>However often an input with an id is enqueued, with whatever write failures in between, the queue goes through at
  most one change, and once one attempt has reported success the input is in the queue.\<close>

theorem inbox_enqueue_at_most_once:
  "(\<exists>d'. \<forall>k. run_steps (\<lambda>e. Enqueue e (q\<lparr>qID := c # cs\<rparr>)) (take k es) d \<in> {d, d'}) \<and>
   (Inr v \<notin> set (outcomes (\<lambda>e. Enqueue e (q\<lparr>qID := c # cs\<rparr>)) es d) \<or>
    enqueued (q\<lparr>qID := c # cs\<rparr>) (run_steps (\<lambda>e. Enqueue e (q\<lparr>qID := c # cs\<rparr>)) es d))"
  using enq.one_effect enq.success_recorded by blast

lemma Enqueue_known:
  assumes "validateID (qRunID q) = None" and "TrimSpace (qContent q) = qContent q" and "qContent q \<noteq> []"
    and "length (qContent q) \<le> maximumQueuedInputBytes" and "validKind (qKind q)" and "safeID (qID q)"
    and "loadInbox (qRunID q) d = Inr st" and "findInput (qID q) (ibItems st) = Some x"
    and "qKind (iInput x) = qKind q" and "qContent (iInput x) = qContent q"
  shows "Enqueue e q d = (Inr (iInput x), d)"
  using assms safeID_nonempty [OF assms(6)] by (simp add: Enqueue_def Let_def)

theorem inbox_enqueue_at_most_once_witness:
  "enqueued (demo_input ''c'') (run_steps (\<lambda>e. Enqueue e (demo_input ''c'')) [demo_env, demo_env] demo_dir)"
proof -
  have q: "demo_input ''c'' = demo_input [] \<lparr>qID := ''c''\<rparr>" by (simp add: demo_input_def)
  have "TrimSpace ''x'' = ''x''" by (rule TrimSpace_safeID) (simp add: char_eval)
  then have "Enqueue e (demo_input ''c'') demo_dir = (Inr (demo_input ''c''), demo_dir)" for e
    using Enqueue_known [of "demo_input ''c''" demo_dir _ "newItem (demo_input ''c'')" e]
    by (simp add: load_demo findInput_def)
      (simp add: demo_input_def newItem_def validKind_def maximumQueuedInputBytes_def char_eval validateID_def load_demo findInput_def)
  then have "Inr (demo_input ''c'') \<in> set (outcomes (\<lambda>e. Enqueue e (demo_input ''c'')) [demo_env, demo_env] demo_dir)"
    by simp
  with inbox_enqueue_at_most_once [of "CHR ''c''" "[]" "demo_input []"] show ?thesis unfolding q by blast
qed

end
