(* ===== verification/TaskStore.thy ===== *)
theory TaskStore
  imports Inbox
begin

text \<open>
  Background tasks: \<open>internal/taskstore/store.go\<close>, and \<open>reconcileTasks\<close> of \<open>cmd/01agentd/main.go\<close>. One JSON file per
  task; a task that ended is delivered as an input to the queue of its parent run, and counts as consumed once that
  queue reports the acknowledgement. The queue is behind the interfaces
  \<open>engine.InputEnqueuer\<close> and \<open>engine.InputStatusReader\<close>: here a locale, interpreted by the inbox. The
  lemmas show the life cycle of a task, the fencing of its owner and what a delivery mark means.
\<close>

section \<open>Data\<close>

datatype TState = TQueued | TRunning | TStopping | TSucceeded | TFailed | TCanceled | TLost

fun state_text :: "TState \<Rightarrow> string" where
  "state_text TQueued = ''queued''"
| "state_text TRunning = ''running''"
| "state_text TStopping = ''stopping''"
| "state_text TSucceeded = ''succeeded''"
| "state_text TFailed = ''failed''"
| "state_text TCanceled = ''canceled''"
| "state_text TLost = ''lost''"

record BTask =
  tVersion :: int
  tID :: string
  tParentRunID :: string
  tParentTurnID :: string
  tTitle :: string
  tState :: TState
  tOwnerID :: string
  tOutput :: string
  tFailure :: string
  tCreatedAt :: time
  tUpdatedAt :: time
  tHeartbeatAt :: time
  tDeliveredAt :: time
  tConsumedAt :: time
  tConsumedRevision :: int

type_synonym taskDir = "BTask dir"

type_synonym 'q enqueuer = "env \<Rightarrow> QueuedInput \<Rightarrow> 'q \<Rightarrow> (go_error + QueuedInput) \<times> 'q"
type_synonym 'q statusReader = "string \<Rightarrow> string \<Rightarrow> 'q \<Rightarrow> go_error + InputDeliveryStatus"

definition zeroBTask :: BTask where
  "zeroBTask = \<lparr>tVersion = 0, tID = [], tParentRunID = [], tParentTurnID = [], tTitle = [], tState = TQueued,
     tOwnerID = [], tOutput = [], tFailure = [], tCreatedAt = 0, tUpdatedAt = 0, tHeartbeatAt = 0, tDeliveredAt = 0,
     tConsumedAt = 0, tConsumedRevision = 0\<rparr>"

definition task_terminal :: "TState \<Rightarrow> bool" where
  "task_terminal s \<longleftrightarrow> s = TSucceeded \<or> s = TFailed \<or> s = TCanceled \<or> s = TLost"

definition transitionError :: "TState \<Rightarrow> TState \<Rightarrow> go_error" where
  "transitionError a b = Errorf (''invalid task transition '' @ state_text a @ '' -> '' @ state_text b)"

definition task_path :: "string \<Rightarrow> string" where
  "task_path i = i @ ''.task.json''"

section \<open>Operations on one task\<close>

definition CreateTask :: "env \<Rightarrow> BTask \<Rightarrow> taskDir \<Rightarrow> (go_error + BTask) \<times> taskDir" where
  "CreateTask e task0 d =
     (let task1 = (if tID task0 = [] then task0\<lparr>tID := newID ''task'' (ent e 0)\<rparr> else task0) in
      if \<not> safeID (tID task1) \<or> \<not> safeID (tParentRunID task1) \<or> TrimSpace (tTitle task1) = []
      then (Inl (Errorf ''task id, parent run id, and title are required''), d) else
      let task = task1\<lparr>tVersion := 1, tState := TQueued, tTitle := TrimSpace (tTitle task1), tCreatedAt := now e,
                       tUpdatedAt := now e\<rparr> in
      (case readJSON d (task_path (tID task)) of
         Inr existing \<Rightarrow>
           if tParentRunID existing = tParentRunID task \<and> tParentTurnID existing = tParentTurnID task
              \<and> tTitle existing = tTitle task
           then (Inr existing, d)
           else (Inl (Errorf (''task already exists with different semantics '' @ tID task)), d)
       | Inl err \<Rightarrow>
           if \<not> errors_Is err os_ErrNotExist then (Inl err, d) else
           (case atomicWrite (wio e) (task_path (tID task)) task d of
              (Some err', d') \<Rightarrow> (Inl err', d')
            | (None, d') \<Rightarrow> (Inr task, d'))))"

definition GetTask :: "string \<Rightarrow> taskDir \<Rightarrow> go_error + BTask" where
  "GetTask i d = (if \<not> safeID i then Inl (Errorf ''invalid task id'') else readJSON d (task_path i))"

text \<open>\<open>mutate\<close> gives the update the first reading of the clock and stamps \<open>UpdatedAt\<close> with the second.\<close>

definition mutateTask :: "env \<Rightarrow> string \<Rightarrow> (time \<Rightarrow> BTask \<Rightarrow> go_error + BTask) \<Rightarrow> taskDir
    \<Rightarrow> (go_error + BTask) \<times> taskDir" where
  "mutateTask e i upd d =
     (if \<not> safeID i then (Inl (Errorf ''invalid task id''), d) else
      case readJSON d (task_path i) of Inl err \<Rightarrow> (Inl err, d) | Inr task \<Rightarrow>
      (case upd (clk e 0) task of Inl err \<Rightarrow> (Inl err, d) | Inr task1 \<Rightarrow>
       let task' = task1\<lparr>tUpdatedAt := clk e 1\<rparr> in
       (case atomicWrite (wio e) (task_path (tID task')) task' d of
          (Some err, d') \<Rightarrow> (Inl err, d')
        | (None, d') \<Rightarrow> (Inr task', d'))))"

definition StartTask :: "env \<Rightarrow> string \<Rightarrow> string \<Rightarrow> taskDir \<Rightarrow> (go_error + BTask) \<times> taskDir" where
  "StartTask e i ownerID d =
     (if TrimSpace ownerID = [] then (Inl (Errorf ''owner id is required''), d) else
      mutateTask e i (\<lambda>t task.
        if tState task \<noteq> TQueued then Inl (transitionError (tState task) TRunning)
        else Inr (task\<lparr>tState := TRunning, tOwnerID := ownerID, tHeartbeatAt := t\<rparr>)) d)"

definition HeartbeatTask :: "env \<Rightarrow> string \<Rightarrow> string \<Rightarrow> taskDir \<Rightarrow> (go_error + BTask) \<times> taskDir" where
  "HeartbeatTask e i ownerID d =
     mutateTask e i (\<lambda>t task.
       if (tState task \<noteq> TRunning \<and> tState task \<noteq> TStopping) \<or> tOwnerID task \<noteq> ownerID
       then Inl (Errorf ''heartbeat rejected for inactive task owner'')
       else Inr (task\<lparr>tHeartbeatAt := t\<rparr>)) d"

definition RequestStop :: "env \<Rightarrow> string \<Rightarrow> taskDir \<Rightarrow> (go_error + BTask) \<times> taskDir" where
  "RequestStop e i d =
     mutateTask e i (\<lambda>t task.
       if tState task \<noteq> TRunning then Inl (transitionError (tState task) TStopping)
       else Inr (task\<lparr>tState := TStopping\<rparr>)) d"

definition finishTask :: "env \<Rightarrow> string \<Rightarrow> string \<Rightarrow> TState \<Rightarrow> string \<Rightarrow> string \<Rightarrow> taskDir
    \<Rightarrow> (go_error + BTask) \<times> taskDir" where
  "finishTask e i ownerID st output failure d =
     mutateTask e i (\<lambda>t task.
       if tState task \<noteq> TRunning \<and> tState task \<noteq> TStopping then Inl (transitionError (tState task) st)
       else if tOwnerID task \<noteq> ownerID then Inl (Errorf ''terminal update rejected for inactive task owner'')
       else Inr (task\<lparr>tState := st, tOutput := output, tFailure := failure\<rparr>)) d"

definition cancelMark :: "env \<Rightarrow> string \<Rightarrow> taskDir \<Rightarrow> (go_error + BTask) \<times> taskDir" where
  "cancelMark e i d =
     mutateTask e i (\<lambda>t task.
       if tState task \<noteq> TQueued \<and> tState task \<noteq> TRunning \<and> tState task \<noteq> TStopping
       then Inl (transitionError (tState task) TCanceled)
       else Inr (task\<lparr>tState := TCanceled\<rparr>)) d"

definition markLost :: "env \<Rightarrow> string \<Rightarrow> taskDir \<Rightarrow> (go_error + BTask) \<times> taskDir" where
  "markLost e i d =
     mutateTask e i (\<lambda>t task.
       if tState task \<noteq> TRunning \<and> tState task \<noteq> TStopping then Inr task
       else Inr (task\<lparr>tState := TLost, tFailure := ''executor heartbeat expired''\<rparr>)) d"

definition markConsumed :: "env \<Rightarrow> string \<Rightarrow> InputDeliveryStatus \<Rightarrow> taskDir \<Rightarrow> (go_error + BTask) \<times> taskDir" where
  "markConsumed e i ds d =
     mutateTask e i (\<lambda>t task.
       Inr (task\<lparr>tConsumedAt := dsAcknowledgedAt ds, tConsumedRevision := dsAckRevision ds\<rparr>)) d"

definition markDelivered :: "env \<Rightarrow> string \<Rightarrow> taskDir \<Rightarrow> (go_error + BTask) \<times> taskDir" where
  "markDelivered e i d =
     mutateTask e i (\<lambda>t task. Inr (if tDeliveredAt task = 0 then task\<lparr>tDeliveredAt := t\<rparr> else task)) d"

section \<open>Delivery to the parent run\<close>

text \<open>The delivered content is \<open>json.Marshal\<close> of a map, whose keys come out sorted.\<close>

definition result_content :: "BTask \<Rightarrow> string" where
  "result_content t = json_text (JObj
     [(''failure'', JStr (tFailure t)), (''output'', JStr (tOutput t)), (''state'', JStr (state_text (tState t))),
      (''task_id'', JStr (tID t)), (''title'', JStr (tTitle t))])"

definition result_input :: "BTask \<Rightarrow> QueuedInput" where
  "result_input t = \<lparr>qID = tID t, qRunID = tParentRunID t, qKind = InputTask, qContent = result_content t, qCreatedAt = 0\<rparr>"

text \<open>Like the code, \<open>deliver\<close> returns a task and an error: the task it was given when the queue refuses it, the
  zero task when the mark cannot be written. It locks the queue first and the task store afterwards, so it has one
  environment for each.\<close>

definition deliverTask :: "'q enqueuer option \<Rightarrow> env \<Rightarrow> env \<Rightarrow> BTask \<Rightarrow> taskDir \<times> 'q
    \<Rightarrow> (BTask \<times> go_error option) \<times> (taskDir \<times> 'q)" where
  "deliverTask delivery eq e task w =
     (if \<not> task_terminal (tState task) \<or> tDeliveredAt task \<noteq> 0 then ((task, None), w) else
      case delivery of None \<Rightarrow> ((task, Some (Errorf ''input delivery queue is not configured'')), w)
      | Some enqueue \<Rightarrow>
        (case enqueue eq (result_input task) (snd w) of
           (Inl err, q') \<Rightarrow> ((task, Some err), (fst w, q'))
         | (Inr _, q') \<Rightarrow>
             (case markDelivered e (tID task) (fst w) of
                (Inl err, d') \<Rightarrow> ((zeroBTask, Some err), (d', q'))
              | (Inr task', d') \<Rightarrow> ((task', None), (d', q')))))"

definition thenDeliver :: "'q enqueuer option \<Rightarrow> env \<Rightarrow> env \<Rightarrow> (go_error + BTask) \<times> taskDir \<Rightarrow> 'q
    \<Rightarrow> (BTask \<times> go_error option) \<times> (taskDir \<times> 'q)" where
  "thenDeliver delivery eq e r q =
     (case r of (Inl err, d) \<Rightarrow> ((zeroBTask, Some err), (d, q))
      | (Inr task, d) \<Rightarrow> deliverTask delivery eq e task (d, q))"

definition CompleteTask :: "'q enqueuer option \<Rightarrow> env \<Rightarrow> env \<Rightarrow> env \<Rightarrow> string \<Rightarrow> string \<Rightarrow> string \<Rightarrow> taskDir \<times> 'q
    \<Rightarrow> (BTask \<times> go_error option) \<times> (taskDir \<times> 'q)" where
  "CompleteTask delivery e1 eq e2 i ownerID output w =
     thenDeliver delivery eq e2 (finishTask e1 i ownerID TSucceeded output [] (fst w)) (snd w)"

definition FailTask :: "'q enqueuer option \<Rightarrow> env \<Rightarrow> env \<Rightarrow> env \<Rightarrow> string \<Rightarrow> string \<Rightarrow> string \<Rightarrow> taskDir \<times> 'q
    \<Rightarrow> (BTask \<times> go_error option) \<times> (taskDir \<times> 'q)" where
  "FailTask delivery e1 eq e2 i ownerID failure w =
     thenDeliver delivery eq e2 (finishTask e1 i ownerID TFailed [] failure (fst w)) (snd w)"

definition CancelTask :: "'q enqueuer option \<Rightarrow> env \<Rightarrow> env \<Rightarrow> env \<Rightarrow> string \<Rightarrow> taskDir \<times> 'q
    \<Rightarrow> (BTask \<times> go_error option) \<times> (taskDir \<times> 'q)" where
  "CancelTask delivery e1 eq e2 i w = thenDeliver delivery eq e2 (cancelMark e1 i (fst w)) (snd w)"

section \<open>Reconciliation\<close>

fun readTasks :: "(string \<times> BTask content) list \<Rightarrow> go_error + BTask list" where
  "readTasks [] = Inr []"
| "readTasks ((name, c) # fs) =
     (if \<not> suffix ''.task.json'' name then readTasks fs else
      (case c of Garbage \<Rightarrow> Inl IOError
       | Record t \<Rightarrow> (case readTasks fs of Inl e \<Rightarrow> Inl e | Inr ts \<Rightarrow> Inr (t # ts))))"

definition listTasks :: "taskDir \<Rightarrow> go_error + BTask list" where
  "listTasks d = readTasks (readDir d)"

text \<open>The loops of the reconcilers work on the list read at the start; the task store is locked again for each
  change. Round \<open>n\<close> uses the environments \<open>es n 0\<close>, \<open>es n 1\<close> and, for the queue, \<open>es n 2\<close>.\<close>

definition heartbeat_expired :: "time \<Rightarrow> duration \<Rightarrow> BTask \<Rightarrow> bool" where
  "heartbeat_expired t timeout c \<longleftrightarrow>
     (tState c = TRunning \<or> tState c = TStopping) \<and> tHeartbeatAt c \<noteq> 0 \<and> \<not> time_Sub t (tHeartbeatAt c) < timeout"

fun reconcileLoop :: "'q enqueuer option \<Rightarrow> (nat \<Rightarrow> nat \<Rightarrow> env) \<Rightarrow> time \<Rightarrow> duration \<Rightarrow> nat \<Rightarrow> BTask list \<Rightarrow> taskDir \<times> 'q
    \<Rightarrow> (BTask list \<times> go_error option) \<times> (taskDir \<times> 'q)" where
  "reconcileLoop delivery es t timeout n [] w = (([], None), w)"
| "reconcileLoop delivery es t timeout n (c # cs) w =
     (if \<not> heartbeat_expired t timeout c then reconcileLoop delivery es t timeout (Suc n) cs w else
      (case markLost (es n 0) (tID c) (fst w) of
         (Inl err, d') \<Rightarrow> (([], Some err), (d', snd w))
       | (Inr task, d') \<Rightarrow>
           (case deliverTask delivery (es n 2) (es n 1) task (d', snd w) of
              ((_, Some err), w') \<Rightarrow> (([], Some err), w')
            | ((task', None), w') \<Rightarrow>
                (case reconcileLoop delivery es t timeout (Suc n) cs w' of
                   ((lost, err), w'') \<Rightarrow> ((task' # lost, err), w'')))))"

definition ReconcileLost :: "'q enqueuer option \<Rightarrow> (nat \<Rightarrow> nat \<Rightarrow> env) \<Rightarrow> time \<Rightarrow> duration \<Rightarrow> taskDir \<times> 'q
    \<Rightarrow> (BTask list \<times> go_error option) \<times> (taskDir \<times> 'q)" where
  "ReconcileLost delivery es t timeout w =
     (if timeout \<le> 0 then (([], Some (Errorf ''positive heartbeat timeout is required'')), w) else
      case listTasks (fst w) of Inl err \<Rightarrow> (([], Some err), w)
      | Inr tasks \<Rightarrow> reconcileLoop delivery es t timeout 0 tasks w)"

fun deliverLoop :: "'q enqueuer option \<Rightarrow> (nat \<Rightarrow> nat \<Rightarrow> env) \<Rightarrow> nat \<Rightarrow> BTask list \<Rightarrow> taskDir \<times> 'q
    \<Rightarrow> go_error option \<times> (taskDir \<times> 'q)" where
  "deliverLoop delivery es n [] w = (None, w)"
| "deliverLoop delivery es n (c # cs) w =
     (if task_terminal (tState c) \<and> tDeliveredAt c = 0
      then (case deliverTask delivery (es n 2) (es n 1) c w of
              ((_, Some err), w') \<Rightarrow> (Some err, w')
            | ((_, None), w') \<Rightarrow> deliverLoop delivery es (Suc n) cs w')
      else deliverLoop delivery es (Suc n) cs w)"

definition DeliverPending :: "'q enqueuer option \<Rightarrow> (nat \<Rightarrow> nat \<Rightarrow> env) \<Rightarrow> taskDir \<times> 'q
    \<Rightarrow> go_error option \<times> (taskDir \<times> 'q)" where
  "DeliverPending delivery es w =
     (case listTasks (fst w) of Inl err \<Rightarrow> (Some err, w) | Inr tasks \<Rightarrow> deliverLoop delivery es 0 tasks w)"

fun consumeLoop :: "'q statusReader \<Rightarrow> (nat \<Rightarrow> nat \<Rightarrow> env) \<Rightarrow> nat \<Rightarrow> BTask list \<Rightarrow> taskDir \<times> 'q
    \<Rightarrow> go_error option \<times> (taskDir \<times> 'q)" where
  "consumeLoop reader es n [] w = (None, w)"
| "consumeLoop reader es n (c # cs) w =
     (if tDeliveredAt c = 0 \<or> tConsumedAt c \<noteq> 0 then consumeLoop reader es (Suc n) cs w else
      (case reader (tParentRunID c) (tID c) (snd w) of
         Inl err \<Rightarrow> if errors_Is err os_ErrNotExist then consumeLoop reader es (Suc n) cs w else (Some err, w)
       | Inr ds \<Rightarrow>
           if dsAckRevision ds \<le> 0 then consumeLoop reader es (Suc n) cs w else
           (case markConsumed (es n 0) (tID c) ds (fst w) of
              (Inl err, d') \<Rightarrow> (Some err, (d', snd w))
            | (Inr _, d') \<Rightarrow> consumeLoop reader es (Suc n) cs (d', snd w))))"

definition ReconcileConsumption :: "'q statusReader option \<Rightarrow> (nat \<Rightarrow> nat \<Rightarrow> env) \<Rightarrow> taskDir \<times> 'q
    \<Rightarrow> go_error option \<times> (taskDir \<times> 'q)" where
  "ReconcileConsumption reader es w =
     (case reader of None \<Rightarrow> (Some (Errorf ''input delivery status reader is not configured''), w)
      | Some rd \<Rightarrow>
        (case listTasks (fst w) of Inl err \<Rightarrow> (Some err, w) | Inr tasks \<Rightarrow> consumeLoop rd es 0 tasks w))"

text \<open>\<open>reconcileTasks\<close> of the daemon runs the three in order and stops at the first error.\<close>

definition reconcileTasks :: "'q enqueuer option \<Rightarrow> 'q statusReader option \<Rightarrow> (nat \<Rightarrow> nat \<Rightarrow> nat \<Rightarrow> env) \<Rightarrow> time \<Rightarrow> duration
    \<Rightarrow> taskDir \<times> 'q \<Rightarrow> go_error option \<times> (taskDir \<times> 'q)" where
  "reconcileTasks delivery reader es t timeout w =
     (case ReconcileLost delivery (es 0) t timeout w of
        ((_, Some err), w') \<Rightarrow> (Some err, w')
      | ((_, None), w') \<Rightarrow>
          (case DeliverPending delivery (es 1) w' of
             (Some err, w'') \<Rightarrow> (Some err, w'')
           | (None, w'') \<Rightarrow> ReconcileConsumption reader (es 2) w''))"

section \<open>The life cycle of a task\<close>

inductive life :: "TState \<Rightarrow> TState \<Rightarrow> bool" where
  start: "life TQueued TRunning"
| stop: "life TRunning TStopping"
| cancel: "s \<in> {TQueued, TRunning, TStopping} \<Longrightarrow> life s TCanceled"
| finish: "s \<in> {TRunning, TStopping} \<Longrightarrow> s' \<in> {TSucceeded, TFailed, TLost} \<Longrightarrow> life s s'"

inductive_cases life_fromE: "life s s'"

lemma life_terminal: "life s s' \<Longrightarrow> \<not> task_terminal s"
  by (auto simp: task_terminal_def elim: life_fromE)

lemma life_not_queued: "life s s' \<Longrightarrow> s' \<noteq> TQueued"
  by (auto elim: life_fromE)

lemma lives_terminal: "life\<^sup>*\<^sup>* s s' \<Longrightarrow> task_terminal s \<Longrightarrow> s' = s"
  by (induction rule: rtranclp_induct) (auto dest: life_terminal)

lemma lives_not_queued: "life\<^sup>*\<^sup>* s s' \<Longrightarrow> s \<noteq> TQueued \<Longrightarrow> s' \<noteq> TQueued"
  by (induction rule: rtranclp_induct) (auto dest: life_not_queued)

text \<open>\<open>u\<close> is a later version of the task \<open>t\<close>: same identity, a path of the life cycle between the states, the
  owner fixed once the task left the queue, the outcome fixed once it ended, the delivery mark fixed once set.\<close>

definition task_le :: "BTask \<Rightarrow> BTask \<Rightarrow> bool" where
  "task_le t u \<longleftrightarrow> tID u = tID t \<and> tParentRunID u = tParentRunID t \<and> tTitle u = tTitle t
     \<and> life\<^sup>*\<^sup>* (tState t) (tState u)
     \<and> (tState t \<noteq> TQueued \<longrightarrow> tOwnerID u = tOwnerID t)
     \<and> (task_terminal (tState t) \<longrightarrow> tOutput u = tOutput t \<and> tFailure u = tFailure t)
     \<and> (tDeliveredAt t \<noteq> 0 \<longrightarrow> tDeliveredAt u = tDeliveredAt t)"

lemma task_le_refl [simp]: "task_le t t"
  by (simp add: task_le_def)

lemma task_le_trans: "task_le t u \<Longrightarrow> task_le u v \<Longrightarrow> task_le t v"
  by (auto simp: task_le_def dest: lives_terminal lives_not_queued intro: rtranclp_trans)

lemma task_le_result: "task_le t u \<Longrightarrow> task_terminal (tState t) \<Longrightarrow> result_input u = result_input t \<and> tState u = tState t"
  by (auto simp: task_le_def result_input_def result_content_def dest: lives_terminal)

definition dir_le :: "taskDir \<Rightarrow> taskDir \<Rightarrow> bool" where
  "dir_le d d' \<longleftrightarrow> (\<forall>i t. readJSON d (task_path i) = Inr t \<longrightarrow>
     (\<exists>u. readJSON d' (task_path i) = Inr u \<and> task_le t u))"

lemma dir_le_refl [simp]: "dir_le d d"
  by (auto simp: dir_le_def)

lemma dir_le_trans: "dir_le a b \<Longrightarrow> dir_le b c \<Longrightarrow> dir_le a c"
  unfolding dir_le_def by (meson task_le_trans)

lemma dir_leD: "dir_le d d' \<Longrightarrow> readJSON d (task_path i) = Inr t \<Longrightarrow>
    \<exists>u. readJSON d' (task_path i) = Inr u \<and> task_le t u"
  by (auto simp: dir_le_def)

definition task_inv :: "taskDir \<Rightarrow> bool" where
  "task_inv d \<longleftrightarrow> wf_map d \<and> (\<forall>i t. readJSON d (task_path i) = Inr t \<longrightarrow> tID t = i)"

lemma task_path_inj [simp]: "task_path a = task_path b \<longleftrightarrow> a = b"
  by (simp add: task_path_def)

lemma suffix_task_path: "suffix ''.task.json'' n \<Longrightarrow> \<exists>i. n = task_path i"
  by (auto simp: suffix_def task_path_def)

section \<open>Frame rule for \<open>mutate\<close>\<close>

text \<open>An update that respects \<open>task_le\<close> turns into a step of the directory that does, whatever the write does.\<close>

lemma mutateTask_cases:
  assumes "mutateTask e i upd d = (r, d')"
  obtains (failed) err where "d' = d" and "r = Inl err"
  | (wrote) task task1 where "readJSON d (task_path i) = Inr task" and "upd (clk e 0) task = Inr task1"
      and "d' = d \<or> d' = AList.update (task_path (tID task1)) (Record (task1\<lparr>tUpdatedAt := clk e 1\<rparr>)) d"
      and "\<And>v. r = Inr v \<Longrightarrow> v = task1\<lparr>tUpdatedAt := clk e 1\<rparr>
          \<and> d' = AList.update (task_path (tID task1)) (Record (task1\<lparr>tUpdatedAt := clk e 1\<rparr>)) d"
      and "safeID i"
proof (cases "safeID i")
  case False
  with assms failed show thesis by (auto simp: mutateTask_def)
next
  case safe: True
  show thesis
  proof (cases "readJSON d (task_path i)")
    case (Inl err)
    with assms safe have "d' = d \<and> r = Inl err" by (simp add: mutateTask_def)
    with failed show thesis by blast
  next
    case (Inr task)
    show thesis
    proof (cases "upd (clk e 0) task")
      case (Inl err)
      with assms safe Inr have "d' = d \<and> r = Inl err" by (simp add: mutateTask_def)
      with failed show thesis by blast
    next
      case upd: (Inr task1)
      from assms safe Inr upd show thesis
        by (intro wrote [OF Inr upd]) (auto simp: mutateTask_def Let_def atomicWrite_def split: io.splits)
    qed
  qed
qed

definition upd_ok :: "(time \<Rightarrow> BTask \<Rightarrow> go_error + BTask) \<Rightarrow> bool" where
  "upd_ok upd \<longleftrightarrow> (\<forall>t x y. upd t x = Inr y \<longrightarrow> task_le x y)"

lemma task_le_stamp [simp]: "task_le t (u\<lparr>tUpdatedAt := n\<rparr>) \<longleftrightarrow> task_le t u"
  by (simp add: task_le_def)

lemma put_task_step:
  assumes inv: "task_inv d" and "readJSON d (task_path i) = Inr t" and "task_le t u" and "p = task_path i"
  shows "task_inv (AList.update p (Record u) d) \<and> dir_le d (AList.update p (Record u) d)"
proof -
  from inv assms(2) have "tID t = i" by (simp add: task_inv_def)
  with assms(3) have "tID u = i" by (simp add: task_le_def)
  with assms show ?thesis by (auto simp: task_inv_def readJSON_update dir_le_def)
qed

lemma mutateTask_step:
  assumes "upd_ok upd" and "task_inv d" and "mutateTask e i upd d = (r, d')"
  shows "task_inv d' \<and> dir_le d d'"
  using assms(3)
proof (cases rule: mutateTask_cases)
  case failed
  then show ?thesis using assms(2) by simp
next
  case (wrote task task1)
  from wrote(2) assms(1) have le: "task_le task task1" by (auto simp: upd_ok_def)
  with wrote(1) assms(2) have "tID task1 = i" by (auto simp: task_inv_def task_le_def)
  with put_task_step [OF assms(2) wrote(1), of "task1\<lparr>tUpdatedAt := clk e 1\<rparr>" "task_path i"] le wrote(3) assms(2)
  show ?thesis by auto
qed

text \<open>A successful call returns what it wrote, a later version of what it read.\<close>

lemma mutateTask_result:
  assumes "upd_ok upd" and "task_inv d" and "mutateTask e i upd d = (Inr v, d')"
  shows "readJSON d' (task_path i) = Inr v \<and> tID v = i
    \<and> (\<exists>t u. readJSON d (task_path i) = Inr t \<and> upd (clk e 0) t = Inr u \<and> v = u\<lparr>tUpdatedAt := clk e 1\<rparr> \<and> task_le t v)"
  using assms(3)
proof (cases rule: mutateTask_cases)
  case failed
  then show ?thesis by simp
next
  case (wrote task task1)
  from wrote(2) assms(1) have le: "task_le task task1" by (auto simp: upd_ok_def)
  with wrote(1) assms(2) have "tID task1 = i" by (auto simp: task_inv_def task_le_def)
  with wrote le show ?thesis by (auto simp: readJSON_update)
qed

lemmas mark_defs = StartTask_def HeartbeatTask_def RequestStop_def finishTask_def cancelMark_def markLost_def
  markConsumed_def markDelivered_def

lemma upd_ok_start: "upd_ok (\<lambda>t task. if tState task \<noteq> TQueued then Inl (err task)
    else Inr (task\<lparr>tState := TRunning, tOwnerID := o', tHeartbeatAt := t\<rparr>))"
  by (auto simp: upd_ok_def task_le_def task_terminal_def intro!: r_into_rtranclp life.start split: if_splits)

lemma upd_ok_heartbeat: "upd_ok (\<lambda>t task. if P task then Inl (err task) else Inr (task\<lparr>tHeartbeatAt := t\<rparr>))"
  by (auto simp: upd_ok_def task_le_def split: if_splits)

lemma upd_ok_stop: "upd_ok (\<lambda>t task. if tState task \<noteq> TRunning then Inl (err task) else Inr (task\<lparr>tState := TStopping\<rparr>))"
  by (auto simp: upd_ok_def task_le_def task_terminal_def intro!: r_into_rtranclp life.stop split: if_splits)

lemma upd_ok_finish:
  assumes "st \<in> {TSucceeded, TFailed, TLost}"
  shows "upd_ok (\<lambda>t task. if tState task \<noteq> TRunning \<and> tState task \<noteq> TStopping then Inl (err task)
    else if tOwnerID task \<noteq> o' then Inl err' else Inr (task\<lparr>tState := st, tOutput := out, tFailure := f\<rparr>))"
  using assms
  by (auto simp: upd_ok_def task_le_def task_terminal_def intro!: r_into_rtranclp life.finish split: if_splits)

lemma upd_ok_cancel: "upd_ok (\<lambda>t task. if tState task \<noteq> TQueued \<and> tState task \<noteq> TRunning \<and> tState task \<noteq> TStopping
    then Inl (err task) else Inr (task\<lparr>tState := TCanceled\<rparr>))"
  by (auto simp: upd_ok_def task_le_def task_terminal_def intro!: r_into_rtranclp life.cancel split: if_splits)

lemma upd_ok_lost: "upd_ok (\<lambda>t task. if tState task \<noteq> TRunning \<and> tState task \<noteq> TStopping then Inr task
    else Inr (task\<lparr>tState := TLost, tFailure := f\<rparr>))"
  by (auto simp: upd_ok_def task_le_def task_terminal_def intro!: r_into_rtranclp life.finish split: if_splits)

lemma upd_ok_consumed: "upd_ok (\<lambda>t task. Inr (task\<lparr>tConsumedAt := a, tConsumedRevision := r\<rparr>))"
  by (simp add: upd_ok_def task_le_def)

lemma upd_ok_delivered: "upd_ok (\<lambda>t task. Inr (if tDeliveredAt task = 0 then task\<lparr>tDeliveredAt := t\<rparr> else task))"
  by (auto simp: upd_ok_def task_le_def)

lemmas upd_ok_all [simp] = upd_ok_start upd_ok_heartbeat upd_ok_stop upd_ok_cancel upd_ok_lost
  upd_ok_consumed upd_ok_delivered

lemma mark_step:
  assumes "task_inv d"
  shows "StartTask e i o' d = (r, d') \<Longrightarrow> task_inv d' \<and> dir_le d d'"
    and "HeartbeatTask e i o' d = (r, d') \<Longrightarrow> task_inv d' \<and> dir_le d d'"
    and "RequestStop e i d = (r, d') \<Longrightarrow> task_inv d' \<and> dir_le d d'"
    and "cancelMark e i d = (r, d') \<Longrightarrow> task_inv d' \<and> dir_le d d'"
    and "markLost e i d = (r, d') \<Longrightarrow> task_inv d' \<and> dir_le d d'"
    and "markConsumed e i ds d = (r, d') \<Longrightarrow> task_inv d' \<and> dir_le d d'"
    and "markDelivered e i d = (r, d') \<Longrightarrow> task_inv d' \<and> dir_le d d'"
  using assms by (auto simp: mark_defs split: if_splits dest: mutateTask_step [rotated 2])

lemma finish_step:
  "task_inv d \<Longrightarrow> st \<in> {TSucceeded, TFailed, TLost} \<Longrightarrow> finishTask e i o' st out f d = (r, d')
    \<Longrightarrow> task_inv d' \<and> dir_le d d'"
  unfolding finishTask_def by (rule mutateTask_step [OF upd_ok_finish])

lemma CreateTask_cases:
  assumes "CreateTask e t d = (r, d')"
  obtains (same) "d' = d"
  | (created) u where "readJSON d (task_path (tID u)) = Inl os_ErrNotExist" and "tState u = TQueued"
      and "tDeliveredAt u = tDeliveredAt t" and "tConsumedRevision u = tConsumedRevision t"
      and "d' = AList.update (task_path (tID u)) (Record u) d"
proof -
  define t1 where "t1 = (if tID t = [] then t\<lparr>tID := newID ''task'' (ent e 0)\<rparr> else t)"
  define u where "u = t1\<lparr>tVersion := 1, tState := TQueued, tTitle := TrimSpace (tTitle t1), tCreatedAt := now e,
      tUpdatedAt := now e\<rparr>"
  have u: "tState u = TQueued" "tDeliveredAt u = tDeliveredAt t" "tConsumedRevision u = tConsumedRevision t"
    by (simp_all add: u_def t1_def)
  show thesis
  proof (cases "readJSON d (task_path (tID u)) = Inl os_ErrNotExist")
    case True
    have "d' = d \<or> d' = AList.update (task_path (tID u)) (Record u) d"
      using assms True unfolding CreateTask_def Let_def t1_def [symmetric] u_def [symmetric]
      by (auto simp: atomicWrite_def split: if_splits io.splits)
    with u True show thesis using same created by blast
  next
    case False
    have "errors_Is err os_ErrNotExist \<Longrightarrow> readJSON d p = Inl err \<Longrightarrow> readJSON d p = Inl os_ErrNotExist" for err p
      by (auto simp: readJSON_def split: option.splits content.splits)
    with assms False have "d' = d" unfolding CreateTask_def Let_def t1_def [symmetric] u_def [symmetric]
      by (auto split: if_splits sum.splits)
    then show thesis by (rule same)
  qed
qed

lemma CreateTask_step:
  assumes inv: "task_inv d" and c: "CreateTask e t d = (r, d')"
  shows "task_inv d' \<and> dir_le d d'"
  using c
proof (cases rule: CreateTask_cases)
  case same
  then show ?thesis using inv by simp
next
  case (created u)
  with inv show ?thesis by (auto simp: task_inv_def dir_le_def readJSON_update)
qed

section \<open>Histories of the store\<close>

lemma deliverTask_step:
  assumes "task_inv (fst w)" and "deliverTask dl eq e t w = (r, w')"
  shows "task_inv (fst w') \<and> dir_le (fst w) (fst w')"
  using assms
  by (auto simp: deliverTask_def split: if_splits option.splits sum.splits prod.splits dest: mark_step(7))

lemma thenDeliver_step:
  assumes "task_inv d0 \<and> dir_le d00 d0" and "thenDeliver dl eq e (x, d0) q = (r, w')"
  shows "task_inv (fst w') \<and> dir_le d00 (fst w')"
  using assms deliverTask_step [of "(d0, q)" dl eq e _ r w']
  by (auto simp: thenDeliver_def split: sum.splits intro: dir_le_trans)

lemma reconcileLoop_step:
  "reconcileLoop dl es t timeout n cs w = (r, w') \<Longrightarrow> task_inv (fst w) \<Longrightarrow> task_inv (fst w') \<and> dir_le (fst w) (fst w')"
proof (induction dl es t timeout n cs w arbitrary: r w' rule: reconcileLoop.induct)
  case (1 dl es t timeout n w)
  then show ?case by simp
next
  case (2 dl es t timeout n c cs w)
  show ?case
  proof (cases "heartbeat_expired t timeout c")
    case False
    with 2 show ?thesis by simp
  next
    case exp: True
    obtain x d1 where m: "markLost (es n 0) (tID c) (fst w) = (x, d1)" by (cases "markLost (es n 0) (tID c) (fst w)")
    from mark_step(5) [OF 2(4) m] have s1: "task_inv d1 \<and> dir_le (fst w) d1" .
    show ?thesis
    proof (cases x)
      case (Inl err)
      with 2(3) exp m s1 show ?thesis by auto
    next
      case (Inr task)
      obtain t' err w1 where dv: "deliverTask dl (es n 2) (es n 1) task (d1, snd w) = ((t', err), w1)"
        by (metis prod.collapse)
      from deliverTask_step [OF _ dv] s1 have s2: "task_inv (fst w1) \<and> dir_le (fst w) (fst w1)"
        by (auto intro: dir_le_trans)
      show ?thesis
      proof (cases err)
        case (Some er)
        with 2(3) exp m Inr dv s2 show ?thesis by auto
      next
        case None
        obtain r1 w2 where rc: "reconcileLoop dl es t timeout (Suc n) cs w1 = (r1, w2)"
          by (metis prod.collapse)
        with 2(3) exp m Inr dv None have "w' = w2" by (auto split: prod.splits)
        moreover from 2(2) [OF _ m [symmetric] Inr] exp dv None rc s2
        have "task_inv (fst w2) \<and> dir_le (fst w1) (fst w2)" by simp
        ultimately show ?thesis using s2 by (auto intro: dir_le_trans)
      qed
    qed
  qed
qed

lemma deliverLoop_step:
  "deliverLoop dl es n cs w = (r, w') \<Longrightarrow> task_inv (fst w) \<Longrightarrow> task_inv (fst w') \<and> dir_le (fst w) (fst w')"
proof (induction cs arbitrary: n w)
  case Nil
  then show ?case by simp
next
  case (Cons c cs)
  show ?case
  proof (cases "task_terminal (tState c) \<and> tDeliveredAt c = 0")
    case False
    with Cons show ?thesis by auto
  next
    case True
    obtain t' err w1 where dv: "deliverTask dl (es n 2) (es n 1) c w = ((t', err), w1)" by (metis prod.collapse)
    from deliverTask_step [OF Cons.prems(2) dv] have s1: "task_inv (fst w1) \<and> dir_le (fst w) (fst w1)" .
    with Cons.prems True dv Cons.IH [of "Suc n" w1] show ?thesis by (cases err) (auto intro: dir_le_trans)
  qed
qed

lemma consumeLoop_step:
  "consumeLoop rd es n cs w = (r, w') \<Longrightarrow> task_inv (fst w)
    \<Longrightarrow> task_inv (fst w') \<and> dir_le (fst w) (fst w') \<and> snd w' = snd w"
proof (induction cs arbitrary: n w)
  case Nil
  then show ?case by simp
next
  case (Cons c cs)
  show ?case
  proof (cases "rd (tParentRunID c) (tID c) (snd w)")
    case (Inl err)
    with Cons show ?thesis by (auto split: if_splits)
  next
    case (Inr ds)
    obtain x d1 where m: "markConsumed (es n 0) (tID c) ds (fst w) = (x, d1)" by (metis prod.collapse)
    from mark_step(6) [OF Cons.prems(2) m] have s1: "task_inv d1 \<and> dir_le (fst w) d1" .
    with Cons Inr m show ?thesis by (cases x) (auto split: if_splits intro: dir_le_trans)
  qed
qed

datatype task_call =
    TCreate env BTask
  | TStart env string string
  | THeartbeat env string string
  | TStop env string
  | TComplete env env env string string string
  | TFail env env env string string string
  | TCancel env env env string
  | TReconcileLost "nat \<Rightarrow> nat \<Rightarrow> env" time duration
  | TDeliverPending "nat \<Rightarrow> nat \<Rightarrow> env"
  | TReconcileConsumption "nat \<Rightarrow> nat \<Rightarrow> env"

definition on_tasks :: "('r \<times> taskDir) \<Rightarrow> 'q \<Rightarrow> unit \<times> (taskDir \<times> 'q)" where
  "on_tasks r q = ((), (snd r, q))"

fun do_task :: "'q enqueuer option \<Rightarrow> 'q statusReader option \<Rightarrow> task_call \<Rightarrow> taskDir \<times> 'q \<Rightarrow> unit \<times> (taskDir \<times> 'q)" where
  "do_task dl rd (TCreate e t) w = on_tasks (CreateTask e t (fst w)) (snd w)"
| "do_task dl rd (TStart e i o') w = on_tasks (StartTask e i o' (fst w)) (snd w)"
| "do_task dl rd (THeartbeat e i o') w = on_tasks (HeartbeatTask e i o' (fst w)) (snd w)"
| "do_task dl rd (TStop e i) w = on_tasks (RequestStop e i (fst w)) (snd w)"
| "do_task dl rd (TComplete e1 eq e2 i o' out) w = ((), snd (CompleteTask dl e1 eq e2 i o' out w))"
| "do_task dl rd (TFail e1 eq e2 i o' f) w = ((), snd (FailTask dl e1 eq e2 i o' f w))"
| "do_task dl rd (TCancel e1 eq e2 i) w = ((), snd (CancelTask dl e1 eq e2 i w))"
| "do_task dl rd (TReconcileLost es t timeout) w = ((), snd (ReconcileLost dl es t timeout w))"
| "do_task dl rd (TDeliverPending es) w = ((), snd (DeliverPending dl es w))"
| "do_task dl rd (TReconcileConsumption es) w = ((), snd (ReconcileConsumption rd es w))"

lemma do_task_step:
  assumes inv: "task_inv (fst w)"
  shows "task_inv (fst (snd (do_task dl rd c w))) \<and> dir_le (fst w) (fst (snd (do_task dl rd c w)))"
proof (cases c)
  case (TCreate e t)
  then show ?thesis using CreateTask_step [OF inv prod.collapse [symmetric]] by (simp add: on_tasks_def)
next
  case (TStart e i o')
  then show ?thesis using mark_step(1) [OF inv prod.collapse [symmetric]] by (simp add: on_tasks_def)
next
  case (THeartbeat e i o')
  then show ?thesis using mark_step(2) [OF inv prod.collapse [symmetric]] by (simp add: on_tasks_def)
next
  case (TStop e i)
  then show ?thesis using mark_step(3) [OF inv prod.collapse [symmetric]] by (simp add: on_tasks_def)
next
  case (TComplete e1 eq e2 i o' out)
  obtain x d1 where f: "finishTask e1 i o' TSucceeded out [] (fst w) = (x, d1)" by (metis prod.collapse)
  from thenDeliver_step [OF finish_step [OF inv _ f] prod.collapse [symmetric]] show ?thesis
    by (simp add: TComplete CompleteTask_def f)
next
  case (TFail e1 eq e2 i o' out)
  obtain x d1 where f: "finishTask e1 i o' TFailed [] out (fst w) = (x, d1)" by (metis prod.collapse)
  from thenDeliver_step [OF finish_step [OF inv _ f] prod.collapse [symmetric]] show ?thesis
    by (simp add: TFail FailTask_def f)
next
  case (TCancel e1 eq e2 i)
  obtain x d1 where f: "cancelMark e1 i (fst w) = (x, d1)" by (metis prod.collapse)
  from thenDeliver_step [OF mark_step(4) [OF inv f] prod.collapse [symmetric]] show ?thesis
    by (simp add: TCancel CancelTask_def f)
next
  case (TReconcileLost es t timeout)
  then show ?thesis using reconcileLoop_step [OF prod.collapse [symmetric] inv]
    by (auto simp: ReconcileLost_def inv split: sum.splits)
next
  case (TDeliverPending es)
  then show ?thesis using deliverLoop_step [OF prod.collapse [symmetric] inv]
    by (auto simp: DeliverPending_def inv split: sum.splits)
next
  case (TReconcileConsumption es)
  then show ?thesis using consumeLoop_step [OF prod.collapse [symmetric] inv]
    by (auto simp: ReconcileConsumption_def inv split: sum.splits option.splits)
qed

lemma task_history:
  "task_inv (fst w) \<Longrightarrow> task_inv (fst (run_steps (do_task dl rd) cs w))
    \<and> dir_le (fst w) (fst (run_steps (do_task dl rd) cs w))"
proof (induction cs arbitrary: w)
  case Nil
  then show ?case by simp
next
  case (Cons c cs)
  from do_task_step [OF Cons.prems, of dl rd c] Cons.IH [of "snd (do_task dl rd c w)"] show ?case
    by (auto intro: dir_le_trans)
qed

text \<open>C15. Whatever calls the store serves, with whatever write failures, a task keeps its identity and moves along the
  life cycle: it never leaves a terminal state, its outcome is then fixed, and its owner is fixed once it has started.\<close>

theorem task_lifecycle:
  assumes "task_inv (fst w)" and "readJSON (fst w) (task_path i) = Inr t"
  shows "\<exists>u. readJSON (fst (run_steps (do_task dl rd) cs w)) (task_path i) = Inr u \<and> task_le t u"
  using task_history [OF assms(1)] assms(2) by (blast dest: dir_leD)

definition demo_task :: "TState \<Rightarrow> BTask" where
  "demo_task st = zeroBTask\<lparr>tVersion := 1, tID := ''t1'', tParentRunID := ''run'', tTitle := ''x'', tState := st,
     tOwnerID := ''w1'', tCreatedAt := 1, tUpdatedAt := 1, tHeartbeatAt := 1\<rparr>"

definition demo_tasks :: "TState \<Rightarrow> taskDir" where
  "demo_tasks st = [(''t1.task.json'', Record (demo_task st))]"

lemma demo_tasks_read [simp]:
  "readJSON (demo_tasks st) (task_path i) = (if i = ''t1'' then Inr (demo_task st) else Inl os_ErrNotExist)"
  using task_path_inj [of i "''t1''"] by (auto simp: readJSON_def demo_tasks_def task_path_def)

lemma demo_tasks_inv [simp]: "task_inv (demo_tasks st)"
  by (simp add: task_inv_def demo_task_def zeroBTask_def) (simp add: demo_tasks_def wf_map_def)

lemma safe_t1 [simp]: "safeID ''t1''"
  by (simp add: char_eval)

theorem task_lifecycle_witness:
  "\<exists>u. readJSON (fst (run_steps (do_task (Some Enqueue) (Some InputStatus))
      [TCancel demo_env demo_env demo_env ''t1'', TStart demo_env ''t1'' ''w2''] (demo_tasks TSucceeded, [])))
      (task_path ''t1'') = Inr u \<and> tState u = TSucceeded \<and> tOwnerID u = ''w1''"
proof -
  have "readJSON (fst (demo_tasks TSucceeded, [] :: inboxDir)) (task_path ''t1'') = Inr (demo_task TSucceeded)" by simp
  from task_lifecycle [OF _ this, of "Some Enqueue" "Some InputStatus"
      "[TCancel demo_env demo_env demo_env ''t1'', TStart demo_env ''t1'' ''w2'']"]
  obtain u where r: "readJSON (fst (run_steps (do_task (Some Enqueue) (Some InputStatus))
      [TCancel demo_env demo_env demo_env ''t1'', TStart demo_env ''t1'' ''w2''] (demo_tasks TSucceeded, [])))
      (task_path ''t1'') = Inr u" and le: "task_le (demo_task TSucceeded) u"
    by (metis demo_tasks_inv fst_conv)
  from le have "tState u = TSucceeded \<and> tOwnerID u = ''w1''"
    using task_le_result [OF le] by (simp add: task_le_def demo_task_def task_terminal_def)
  with r show ?thesis by blast
qed

text \<open>C16. Once a worker has started a task, the store rejects every completion, failure report and heartbeat of any other
  worker for it, whatever calls came in between, and leaves the directory as it was.\<close>

theorem task_owner_fencing:
  assumes "task_inv (fst w)" and "StartTask e i o1 (fst w) = (Inr t, d1)" and "o2 \<noteq> o1"
    and "d = fst (run_steps (do_task dl rd) cs (d1, q))"
  shows "(\<exists>err. finishTask e' i o2 st out f d = (Inl err, d)) \<and> (\<exists>err. HeartbeatTask e' i o2 d = (Inl err, d))"
proof -
  have s: "mutateTask e i (\<lambda>t task. if tState task \<noteq> TQueued then Inl (transitionError (tState task) TRunning)
        else Inr (task\<lparr>tState := TRunning, tOwnerID := o1, tHeartbeatAt := t\<rparr>)) (fst w) = (Inr t, d1)"
    using assms(2) by (simp add: StartTask_def split: if_splits)
  then have safe: "safeID i" by (auto simp: mutateTask_def split: if_splits)
  from mutateTask_result [OF upd_ok_start assms(1) s]
  have t: "readJSON d1 (task_path i) = Inr t" "tState t = TRunning" "tOwnerID t = o1" by (auto split: if_splits)
  from mark_step(1) [OF assms(1,2)] have "task_inv (fst (d1, q))" by simp
  from task_history [OF this, of dl rd cs] t(1) obtain v
    where v: "readJSON d (task_path i) = Inr v" "task_le t v" unfolding assms(4) by (auto dest: dir_leD)
  from v(2) t(2,3) have "tOwnerID v = o1" by (simp add: task_le_def)
  with v(1) safe assms(3) show ?thesis by (auto simp: finishTask_def HeartbeatTask_def mutateTask_def)
qed

theorem task_owner_fencing_witness:
  "fst (StartTask demo_env ''t1'' ''w1'' (demo_tasks TQueued)) =
     Inr ((demo_task TQueued)\<lparr>tState := TRunning, tHeartbeatAt := 100, tUpdatedAt := 100\<rparr>) \<and>
   (\<exists>err. finishTask demo_env ''t1'' ''w2'' TSucceeded ''ok'' [] (snd (StartTask demo_env ''t1'' ''w1'' (demo_tasks TQueued)))
      = (Inl err, snd (StartTask demo_env ''t1'' ''w1'' (demo_tasks TQueued))))"
proof -
  let ?s = "StartTask demo_env ''t1'' ''w1'' (demo_tasks TQueued)"
  have ts: "TrimSpace ''w1'' = ''w1''"
    by (rule TrimSpace_safeID) (simp add: char_eval)
  have s: "fst ?s = Inr ((demo_task TQueued)\<lparr>tState := TRunning, tHeartbeatAt := 100, tUpdatedAt := 100\<rparr>)"
    using ts by (simp add: StartTask_def mutateTask_def Let_def atomicWrite_def demo_env_def char_eval)
      (simp add: demo_task_def zeroBTask_def)
  have "StartTask demo_env ''t1'' ''w1'' (fst (demo_tasks TQueued, ())) = (Inr ((demo_task TQueued)\<lparr>tState := TRunning,
      tHeartbeatAt := 100, tUpdatedAt := 100\<rparr>), snd ?s)"
    using s by (metis fst_conv prod.collapse)
  from task_owner_fencing [OF _ this, of "''w2''" "snd ?s" None None "[]" "()" demo_env TSucceeded "''ok''" "[]"] s
  show ?thesis by simp
qed

text \<open>The expiry check is made on the list read at the start and not repeated under the lock: a heartbeat that is accepted
  in between does not save the task, which is marked lost although its heartbeat is fresh.\<close>

theorem lost_ignores_heartbeat:
  assumes "task_inv d" and "readJSON d (task_path i) = Inr c" and "heartbeat_expired t timeout c"
    and "HeartbeatTask e i (tOwnerID c) d = (Inr h, d1)" and "wio (es n 0) = Io_ok"
  shows "\<exists>u. readJSON (fst (snd (reconcileLoop dl es t timeout n [c] (d1, q)))) (task_path i) = Inr u
    \<and> tState u = TLost \<and> tHeartbeatAt u = clk e 0"
proof -
  have hb: "mutateTask e i (\<lambda>t task. if (tState task \<noteq> TRunning \<and> tState task \<noteq> TStopping) \<or> tOwnerID task \<noteq> tOwnerID c
       then Inl (Errorf ''heartbeat rejected for inactive task owner'') else Inr (task\<lparr>tHeartbeatAt := t\<rparr>)) d = (Inr h, d1)"
    using assms(4) by (simp add: HeartbeatTask_def)
  have id: "tID c = i" using assms(1,2) by (simp add: task_inv_def)
  from mutateTask_result [OF upd_ok_heartbeat assms(1) hb] assms(2)
  have h: "readJSON d1 (task_path i) = Inr h" "tState h = tState c" "tHeartbeatAt h = clk e 0" "tID h = i"
    by (auto split: if_splits)
  have inv1: "task_inv d1" using mark_step(2) [OF assms(1,4)] by simp
  from hb have safe: "safeID i" by (auto simp: mutateTask_def split: if_splits)
  define u where "u = h\<lparr>tState := TLost, tFailure := ''executor heartbeat expired'', tUpdatedAt := clk (es n 0) 1\<rparr>"
  have m: "markLost (es n 0) i d1 = (Inr u, AList.update (task_path i) (Record u) d1)"
    using h safe assms(3,5) by (auto simp: markLost_def mutateTask_def u_def heartbeat_expired_def Let_def store_simps)
  have lost: "tState u = TLost" "tHeartbeatAt u = clk e 0" by (simp_all add: u_def h)
  obtain r w' where dv: "deliverTask dl (es n 2) (es n 1) u (AList.update (task_path i) (Record u) d1, q) = (r, w')"
    by (metis prod.collapse)
  have "readJSON d1 (task_path i) = Inr h \<and> task_le h u" using h assms(3)
    by (auto simp: u_def task_le_def heartbeat_expired_def task_terminal_def intro!: r_into_rtranclp life.finish)
  then have "task_inv (AList.update (task_path i) (Record u) d1)" using put_task_step [OF inv1] by blast
  from deliverTask_step [OF _ dv] this have "dir_le (AList.update (task_path i) (Record u) d1) (fst w')" by simp
  then obtain v where v: "readJSON (fst w') (task_path i) = Inr v" "task_le u v"
    by (metis (no_types, lifting) dir_leD readJSON_update)
  have "fst (snd (reconcileLoop dl es t timeout n [c] (d1, q))) = fst w'"
    using assms(3) id m dv by (auto split: prod.splits option.splits)
  moreover have "tHeartbeatAt v = tHeartbeatAt u \<and> tState v = TLost"
    using dv v lost task_le_result [OF v(2)]
    by (auto simp: deliverTask_def markDelivered_def mutateTask_def Let_def store_simps atomicWrite_def task_terminal_def u_def h
        split: if_splits option.splits sum.splits prod.splits io.splits)
  ultimately show ?thesis using v lost by auto
qed

theorem lost_ignores_heartbeat_witness:
  "\<exists>h d1 u. HeartbeatTask demo_env ''t1'' ''w1'' (demo_tasks TRunning) = (Inr h, d1) \<and>
     readJSON (fst (snd (reconcileLoop None (\<lambda>_ _. demo_env) 100 50 0 [demo_task TRunning] (d1, ())))) (task_path ''t1'') = Inr u \<and>
     tState u = TLost \<and> tHeartbeatAt u = 100"
proof -
  obtain h d1 where hb: "HeartbeatTask demo_env ''t1'' ''w1'' (demo_tasks TRunning) = (Inr h, d1)"
    by (simp add: HeartbeatTask_def mutateTask_def Let_def atomicWrite_def demo_env_def char_eval demo_task_def zeroBTask_def)
  have exp: "heartbeat_expired 100 50 (demo_task TRunning)"
    by (simp add: heartbeat_expired_def demo_task_def time_Sub_def)
  have "tOwnerID (demo_task TRunning) = ''w1''" by (simp add: demo_task_def)
  with lost_ignores_heartbeat [of "demo_tasks TRunning" "''t1''" "demo_task TRunning" 100 50 demo_env h d1 "\<lambda>_ _. demo_env" 0
      None "()"] exp hb show ?thesis by (auto simp: demo_env_def)
qed

section \<open>The delivery mark\<close>

text \<open>The interface to the queue: an input that was accepted is in the queue, and stays there.\<close>

locale input_enqueuer =
  fixes enq :: "'q enqueuer" and has :: "QueuedInput \<Rightarrow> 'q \<Rightarrow> bool" and qinv :: "'q \<Rightarrow> bool"
  assumes accepts: "qID inp \<noteq> [] \<Longrightarrow> enq e inp q = (Inr v, q') \<Longrightarrow> has inp q'"
    and keeps: "has inp q \<Longrightarrow> enq e inp' q = (r, q') \<Longrightarrow> has inp q'"
    and keeps_inv: "qinv q \<Longrightarrow> enq e inp q = (r, q') \<Longrightarrow> qinv q'"

definition delivered_inv :: "(QueuedInput \<Rightarrow> 'q \<Rightarrow> bool) \<Rightarrow> taskDir \<times> 'q \<Rightarrow> bool" where
  "delivered_inv has w \<longleftrightarrow> (\<forall>i t. readJSON (fst w) (task_path i) = Inr t \<longrightarrow> tDeliveredAt t \<noteq> 0 \<longrightarrow>
     task_terminal (tState t) \<and> has (result_input t) (snd w))"

lemma delivered_inv_queue:
  "delivered_inv has (d, q) \<Longrightarrow> (\<And>x. has x q \<Longrightarrow> has x q') \<Longrightarrow> delivered_inv has (d, q')"
  by (auto simp: delivered_inv_def)

lemma result_input_stamp [simp]: "result_input (t\<lparr>tUpdatedAt := n\<rparr>) = result_input t"
  by (simp add: result_input_def result_content_def)

lemma result_input_delivered [simp]: "result_input (t\<lparr>tDeliveredAt := n\<rparr>) = result_input t"
  by (simp add: result_input_def result_content_def)

lemma mutate_delivered:
  assumes "upd_ok upd" and "\<And>t x y. upd t x = Inr y \<Longrightarrow> tDeliveredAt y = tDeliveredAt x" and "task_inv d"
    and "delivered_inv has (d, q)" and "mutateTask e i upd d = (r, d')"
  shows "delivered_inv has (d', q)"
  using assms(5)
proof (cases rule: mutateTask_cases)
  case failed
  then show ?thesis using assms(4) by simp
next
  case (wrote x y)
  from wrote(2) assms(1,2) have le: "task_le x y" and del: "tDeliveredAt y = tDeliveredAt x" by (auto simp: upd_ok_def)
  with wrote(1) assms(3) have "tID y = i" by (auto simp: task_inv_def task_le_def)
  moreover have "tDeliveredAt y \<noteq> 0 \<Longrightarrow> task_terminal (tState y) \<and> has (result_input y) q"
    using assms(4) wrote(1) del task_le_result [OF le] by (auto simp: delivered_inv_def)
  ultimately show ?thesis using wrote(3) assms(4)
    by (auto simp: delivered_inv_def readJSON_update split: if_splits)
qed

lemma mark_delivered_keeps:
  assumes "task_inv d" and "delivered_inv has (d, q)"
  shows "StartTask e i o' d = (r, d') \<Longrightarrow> delivered_inv has (d', q)"
    and "HeartbeatTask e i o' d = (r, d') \<Longrightarrow> delivered_inv has (d', q)"
    and "RequestStop e i d = (r, d') \<Longrightarrow> delivered_inv has (d', q)"
    and "cancelMark e i d = (r, d') \<Longrightarrow> delivered_inv has (d', q)"
    and "markLost e i d = (r, d') \<Longrightarrow> delivered_inv has (d', q)"
    and "markConsumed e i ds d = (r, d') \<Longrightarrow> delivered_inv has (d', q)"
    and "st \<in> {TSucceeded, TFailed, TLost} \<Longrightarrow> finishTask e i o' st out f d = (r, d') \<Longrightarrow> delivered_inv has (d', q)"
  using assms
  by (auto simp: mark_defs upd_ok_finish split: if_splits elim!: mutate_delivered [rotated 4])

lemma create_delivered:
  assumes "tDeliveredAt t = 0" and "delivered_inv has (d, q)" and "CreateTask e t d = (r, d')"
  shows "delivered_inv has (d', q)"
  using assms(3)
proof (cases rule: CreateTask_cases)
  case same
  then show ?thesis using assms(2) by simp
next
  case (created u)
  then show ?thesis using assms(1,2) by (auto simp: delivered_inv_def readJSON_update)
qed

text \<open>A task read some time ago, of which the directory now holds a later version.\<close>

definition current :: "taskDir \<Rightarrow> BTask \<Rightarrow> bool" where
  "current d t \<longleftrightarrow> (\<exists>u. readJSON d (task_path (tID t)) = Inr u \<and> task_le t u)"

lemma current_later: "current d t \<Longrightarrow> dir_le d d' \<Longrightarrow> current d' t"
  unfolding current_def by (meson dir_leD task_le_trans)

lemma readTasks_set: "readTasks fs = Inr ts \<Longrightarrow> t \<in> set ts \<Longrightarrow> \<exists>n. suffix ''.task.json'' n \<and> (n, Record t) \<in> set fs"
proof (induction fs arbitrary: ts)
  case Nil
  then show ?case by simp
next
  case (Cons f fs)
  obtain name c where f: "f = (name, c)" by (cases f)
  show ?case
  proof (cases "suffix ''.task.json'' name")
    case False
    with Cons f show ?thesis by auto
  next
    case True
    with Cons.prems(1) f obtain x xs where x: "c = Record x" "readTasks fs = Inr xs" "ts = x # xs"
      by (auto split: content.splits sum.splits)
    with Cons.IH [OF x(2)] Cons.prems(2) f True show ?thesis by auto
  qed
qed

lemma listed_current:
  assumes inv: "task_inv d" and "listTasks d = Inr ts" and "t \<in> set ts"
  shows "current d t"
proof -
  from assms(2,3) obtain n where n: "suffix ''.task.json'' n" "(n, Record t) \<in> set d"
    unfolding listTasks_def by (metis readTasks_set set_readDir)
  from suffix_task_path [OF n(1)] obtain i where i: "n = task_path i" by blast
  from n(2) inv have "readJSON d (task_path i) = Inr t" by (simp add: i task_inv_def mget_set readJSON_Inr)
  with inv show ?thesis by (auto simp: current_def task_inv_def)
qed

text \<open>A call of the server: new tasks come without a delivery mark.\<close>

definition fresh_call :: "task_call \<Rightarrow> bool" where
  "fresh_call c \<longleftrightarrow> (case c of TCreate e t \<Rightarrow> tDeliveredAt t = 0 | _ \<Rightarrow> True)"

context input_enqueuer
begin

lemma deliver_keeps:
  assumes inv: "task_inv d" and del: "delivered_inv has (d, q)" and cur: "current d t"
    and dv: "deliverTask (Some enq) eq e t (d, q) = (r, w')"
  shows "delivered_inv has w'"
proof (cases "\<not> task_terminal (tState t) \<or> tDeliveredAt t \<noteq> 0")
  case True
  with dv del show ?thesis by (auto simp: deliverTask_def)
next
  case False
  then have ended: "task_terminal (tState t)" by simp
  obtain x q' where en: "enq eq (result_input t) q = (x, q')" by (metis prod.collapse)
  have del': "delivered_inv has (d, q')" using del keeps [OF _ en] by (rule delivered_inv_queue)
  show ?thesis
  proof (cases x)
    case (Inl err)
    with dv False en del' show ?thesis by (auto simp: deliverTask_def)
  next
    case (Inr v)
    obtain y d' where m: "markDelivered e (tID t) d = (y, d')" by (metis prod.collapse)
    with dv False en Inr have w': "w' = (d', q')" by (auto simp: deliverTask_def split: sum.splits)
    from m have "mutateTask e (tID t) (\<lambda>t task. Inr (if tDeliveredAt task = 0 then task\<lparr>tDeliveredAt := t\<rparr> else task)) d
        = (y, d')" by (simp add: markDelivered_def)
    then show ?thesis
    proof (cases rule: mutateTask_cases)
      case failed
      with del' w' show ?thesis by simp
    next
      case (wrote a b)
      from cur wrote(1) have le: "task_le t a" by (auto simp: current_def)
      have res: "result_input a = result_input t" "tState a = tState t"
        using task_le_result [OF le ended] by auto
      from wrote(5) have "qID (result_input t) \<noteq> []" by (cases "tID t") (auto simp: result_input_def)
      with en Inr have has: "has (result_input t) q'" by (auto intro: accepts)
      let ?b = "b\<lparr>tUpdatedAt := clk e 1\<rparr>"
      from wrote(2) res ended has have b: "task_terminal (tState ?b) \<and> has (result_input ?b) q'"
        by (auto split: if_splits)
      from wrote(2) le have "tID b = tID t" by (auto simp: task_le_def split: if_splits)
      with b wrote(3) del' w' show ?thesis by (auto simp: delivered_inv_def readJSON_update split: if_splits)
    qed
  qed
qed

lemma deliver_inv:
  "qinv q \<Longrightarrow> deliverTask (Some enq) eq e t (d, q) = (r, w') \<Longrightarrow> qinv (snd w')"
  by (auto simp: deliverTask_def split: if_splits sum.splits prod.splits dest: keeps_inv)

text \<open>What a world must satisfy, and one call after which it still does.\<close>

definition good :: "taskDir \<times> 'q \<Rightarrow> bool" where
  "good w \<longleftrightarrow> task_inv (fst w) \<and> delivered_inv has w \<and> qinv (snd w)"

lemma goodI: "task_inv d \<Longrightarrow> delivered_inv has (d, q) \<Longrightarrow> qinv q \<Longrightarrow> good (d, q)"
  by (simp add: good_def)

lemma deliver_good:
  assumes "good (d, q)" and "current d t" and "deliverTask (Some enq) eq e t (d, q) = (r, w')"
  shows "good w' \<and> dir_le d (fst w')"
  using assms deliver_keeps [of d q t eq e r w'] deliver_inv [of q eq e t d r w'] deliverTask_step [of "(d, q)" "Some enq" eq e t r w']
  by (auto simp: good_def)

lemma mutated_current:
  assumes "upd_ok upd" and "task_inv d" and "mutateTask e i upd d = (Inr v, d')"
  shows "current d' v"
  using mutateTask_result [OF assms] by (auto simp: current_def)

lemma marked_current:
  assumes "task_inv d"
  shows "markLost e i d = (Inr v, d') \<Longrightarrow> current d' v"
    and "cancelMark e i d = (Inr v, d') \<Longrightarrow> current d' v"
    and "st \<in> {TSucceeded, TFailed, TLost} \<Longrightarrow> finishTask e i o' st out f d = (Inr v, d') \<Longrightarrow> current d' v"
  using assms by (auto simp: mark_defs upd_ok_finish elim!: mutated_current [rotated 2])

lemma reconcileLoop_good:
  "reconcileLoop (Some enq) es t timeout n cs w = (r, w') \<Longrightarrow> good w \<Longrightarrow> good w'"
proof (induction cs arbitrary: n w r)
  case Nil
  then show ?case by simp
next
  case (Cons c cs)
  obtain d q where w: "w = (d, q)" by (cases w)
  show ?case
  proof (cases "heartbeat_expired t timeout c")
    case False
    with Cons show ?thesis by auto
  next
    case exp: True
    obtain x d1 where m: "markLost (es n 0) (tID c) d = (x, d1)" by (metis prod.collapse)
    have g: "good (d1, q)" using Cons.prems(2) mark_step(5) [OF _ m] mark_delivered_keeps(5) [OF _ _ m]
      by (auto simp: good_def w)
    show ?thesis
    proof (cases x)
      case (Inl err)
      with Cons.prems(1) exp m g show ?thesis by (auto simp: w)
    next
      case (Inr task)
      obtain t' err w1 where dv: "deliverTask (Some enq) (es n 2) (es n 1) task (d1, q) = ((t', err), w1)"
        by (metis prod.collapse)
      have "current d1 task" using marked_current(1) [of d] m Inr Cons.prems(2) by (simp add: good_def w)
      from deliver_good [OF g this dv] have "good w1" by simp
      with Cons.prems(1) Cons.IH [of "Suc n" w1] exp m Inr dv show ?thesis
        by (cases err) (auto simp: w split: prod.splits)
    qed
  qed
qed

lemma deliverLoop_good:
  "deliverLoop (Some enq) es n cs w = (r, w') \<Longrightarrow> good w \<Longrightarrow> \<forall>c\<in>set cs. current (fst w) c \<Longrightarrow> good w'"
proof (induction cs arbitrary: n w)
  case Nil
  then show ?case by simp
next
  case (Cons c cs)
  show ?case
  proof (cases "task_terminal (tState c) \<and> tDeliveredAt c = 0")
    case False
    with Cons show ?thesis by auto
  next
    case True
    obtain t' err w1 where dv: "deliverTask (Some enq) (es n 2) (es n 1) c w = ((t', err), w1)" by (metis prod.collapse)
    obtain d q where w: "w = (d, q)" by (cases w)
    from deliver_good [of d q c] dv Cons.prems(2,3) have g: "good w1" and le: "dir_le d (fst w1)" by (auto simp: w)
    from Cons.prems(3) le have "\<forall>c\<in>set cs. current (fst w1) c" by (auto simp: w intro: current_later)
    with Cons.prems(1) Cons.IH [of "Suc n" w1] True dv g show ?thesis by (cases err) auto
  qed
qed

lemma consumeLoop_good:
  "consumeLoop rd es n cs w = (r, w') \<Longrightarrow> good w \<Longrightarrow> good w'"
proof (induction cs arbitrary: n w)
  case Nil
  then show ?case by simp
next
  case (Cons c cs)
  obtain d q where w: "w = (d, q)" by (cases w)
  show ?case
  proof (cases "rd (tParentRunID c) (tID c) q")
    case (Inl err)
    with Cons show ?thesis by (auto simp: w split: if_splits)
  next
    case (Inr ds)
    obtain x d1 where m: "markConsumed (es n 0) (tID c) ds d = (x, d1)" by (metis prod.collapse)
    have g: "good (d1, q)" using Cons.prems(2) mark_step(6) [OF _ m] mark_delivered_keeps(6) [OF _ _ m]
      by (auto simp: good_def w)
    with Cons Inr m show ?thesis by (cases x) (auto simp: w split: if_splits)
  qed
qed

lemma thenDeliver_good:
  assumes "good (d, q)" and "\<And>v. x = Inr v \<Longrightarrow> current d v" and "thenDeliver (Some enq) eq e (x, d) q = (r, w')"
  shows "good w'"
  using assms deliver_good [of d q] by (auto simp: thenDeliver_def split: sum.splits)

lemma do_task_good:
  assumes g: "good w" and fresh: "fresh_call c"
  shows "good (snd (do_task (Some enq) rd c w))"
proof -
  obtain d q where w: "w = (d, q)" by (cases w)
  from g have inv: "task_inv d" and del: "delivered_inv has (d, q)" and q: "qinv q" by (simp_all add: good_def w)
  have marks: "\<And>r d'. task_inv d' \<and> dir_le d d' \<Longrightarrow> delivered_inv has (d', q) \<Longrightarrow> good (snd (on_tasks (r, d') q))"
    using q by (simp add: on_tasks_def good_def)
  show ?thesis
  proof (cases c)
    case (TCreate e t)
    obtain r d' where c: "CreateTask e t d = (r, d')" by (metis prod.collapse)
    have "tDeliveredAt t = 0" using fresh TCreate by (simp add: fresh_call_def)
    from marks [OF CreateTask_step [OF inv c] create_delivered [OF this del c]] c show ?thesis by (simp add: w TCreate)
  next
    case (TStart e i o')
    obtain r d' where c: "StartTask e i o' d = (r, d')" by (metis prod.collapse)
    from marks [OF mark_step(1) [OF inv c] mark_delivered_keeps(1) [OF inv del c]] c show ?thesis by (simp add: w TStart)
  next
    case (THeartbeat e i o')
    obtain r d' where c: "HeartbeatTask e i o' d = (r, d')" by (metis prod.collapse)
    from marks [OF mark_step(2) [OF inv c] mark_delivered_keeps(2) [OF inv del c]] c show ?thesis by (simp add: w THeartbeat)
  next
    case (TStop e i)
    obtain r d' where c: "RequestStop e i d = (r, d')" by (metis prod.collapse)
    from marks [OF mark_step(3) [OF inv c] mark_delivered_keeps(3) [OF inv del c]] c show ?thesis by (simp add: w TStop)
  next
    case (TComplete e1 eq e2 i o' out)
    obtain x d1 where f: "finishTask e1 i o' TSucceeded out [] d = (x, d1)" by (metis prod.collapse)
    have "good (d1, q)" using finish_step [OF inv _ f] mark_delivered_keeps(7) [OF inv del _ f] q by (simp add: good_def)
    moreover have "\<And>v. x = Inr v \<Longrightarrow> current d1 v"
      using marked_current(3) [OF inv, of TSucceeded e1 i o' out "[]"] f by simp
    ultimately have "good (snd (thenDeliver (Some enq) eq e2 (x, d1) q))"
      by (rule thenDeliver_good [OF _ _ prod.collapse [symmetric]])
    with f show ?thesis
      by (simp add: TComplete CompleteTask_def w)
  next
    case (TFail e1 eq e2 i o' out)
    obtain x d1 where f: "finishTask e1 i o' TFailed [] out d = (x, d1)" by (metis prod.collapse)
    have "good (d1, q)" using finish_step [OF inv _ f] mark_delivered_keeps(7) [OF inv del _ f] q by (simp add: good_def)
    moreover have "\<And>v. x = Inr v \<Longrightarrow> current d1 v"
      using marked_current(3) [OF inv, of TFailed e1 i o' "[]" out] f by simp
    ultimately have "good (snd (thenDeliver (Some enq) eq e2 (x, d1) q))"
      by (rule thenDeliver_good [OF _ _ prod.collapse [symmetric]])
    with f show ?thesis
      by (simp add: TFail FailTask_def w)
  next
    case (TCancel e1 eq e2 i)
    obtain x d1 where f: "cancelMark e1 i d = (x, d1)" by (metis prod.collapse)
    have "good (d1, q)" using mark_step(4) [OF inv f] mark_delivered_keeps(4) [OF inv del f] q by (simp add: good_def)
    moreover have "\<And>v. x = Inr v \<Longrightarrow> current d1 v" using marked_current(2) [OF inv, of e1 i] f by simp
    ultimately have "good (snd (thenDeliver (Some enq) eq e2 (x, d1) q))"
      by (rule thenDeliver_good [OF _ _ prod.collapse [symmetric]])
    with f show ?thesis
      by (simp add: TCancel CancelTask_def w)
  next
    case (TReconcileLost es t timeout)
    then show ?thesis using reconcileLoop_good [OF prod.collapse [symmetric] g] g
      by (auto simp: ReconcileLost_def split: sum.splits)
  next
    case (TDeliverPending es)
    then show ?thesis using deliverLoop_good [OF prod.collapse [symmetric] g] g listed_current [OF inv]
      by (auto simp: DeliverPending_def w split: sum.splits)
  next
    case (TReconcileConsumption es)
    then show ?thesis using consumeLoop_good [OF prod.collapse [symmetric] g] g
      by (auto simp: ReconcileConsumption_def split: sum.splits option.splits)
  qed
qed

end

section \<open>The store and the inbox together\<close>

text \<open>The daemon passes its run store as the queue. Other callers use the same queue, so its own calls interleave with the
  store's.\<close>

lemma evolves_find:
  assumes "evolves xs ys" and "findInput i xs = Some x"
  shows "\<exists>y. findInput i ys = Some y \<and> iInput y = iInput x"
proof -
  from assms(1) obtain zs new where ys: "ys = zs @ new" and st: "list_all2 item_step xs zs"
    by (auto simp: evolves_def)
  from st assms(2) have "\<exists>y. findInput i zs = Some y \<and> iInput y = iInput x"
    by (induction rule: list_all2_induct) (auto simp: findInput_def item_step_def split: if_splits)
  then show ?thesis by (auto simp: ys findInput_append)
qed

lemma enqueued_evolves:
  "enqueued inp d \<Longrightarrow> (\<And>rid. evolves (items_of d rid) (items_of d' rid)) \<Longrightarrow> enqueued inp d'"
  unfolding enqueued_def by (metis evolves_find)

interpretation inboxq: input_enqueuer Enqueue enqueued wf_map
proof
  fix e inp q v q' assume "qID inp \<noteq> []" and "Enqueue e inp q = (Inr v, q')"
  then show "enqueued inp q'" using Enqueue_reported [of inp e q v] by simp
next
  fix e inp inp' q r q' assume "enqueued inp q" and "Enqueue e inp' q = (r, q')"
  then show "enqueued inp q'" by (blast intro: enqueued_evolves Enqueue_evolves)
next
  fix e inp q r q' assume "wf_map q" and "Enqueue e inp q = (r, q')"
  then show "wf_map q'" using Enqueue_wf [of q e inp] by simp
qed

datatype system_call = OnTasks task_call | OnInbox inbox_call

fun do_system :: "system_call \<Rightarrow> taskDir \<times> inboxDir \<Rightarrow> unit \<times> (taskDir \<times> inboxDir)" where
  "do_system (OnTasks c) w = do_task (Some Enqueue) (Some InputStatus) c w"
| "do_system (OnInbox c) w = ((), (fst w, snd (do_call c (snd w))))"

definition fresh_system_call :: "system_call \<Rightarrow> bool" where
  "fresh_system_call s \<longleftrightarrow> (case s of OnTasks c \<Rightarrow> fresh_call c | OnInbox c \<Rightarrow> True)"

lemma do_system_good:
  assumes "inboxq.good w" and "fresh_system_call s"
  shows "inboxq.good (snd (do_system s w))"
proof (cases s)
  case (OnTasks c)
  with assms show ?thesis using inboxq.do_task_good by (auto simp: fresh_system_call_def)
next
  case (OnInbox c)
  obtain d q where w: "w = (d, q)" by (cases w)
  have wf: "wf_map q" using assms(1) by (simp add: inboxq.good_def w)
  have "enqueued x q \<Longrightarrow> enqueued x (snd (do_call c q))" for x
    using do_call_step [OF wf, of c] by (blast intro: enqueued_evolves)
  with assms(1) do_call_step [OF wf, of c] show ?thesis
    by (auto simp: inboxq.good_def w OnInbox intro: delivered_inv_queue)
qed

lemma brace_trim: "TrimSpace (CHR ''{'' # s @ ''}'') = CHR ''{'' # s @ ''}''"
  by (rule TrimSpace_ends) (auto simp: space_runes_def)

lemma result_content_braces: "\<exists>s. result_content t = CHR ''{'' # s @ ''}'' \<and> length (tOutput t) \<le> length s"
proof -
  have "\<exists>a b. result_content t = CHR ''{'' # (a @ json_escape (tOutput t) @ b) @ ''}''"
    by (rule exI [of _ "json_string ''failure'' @ '':'' @ json_string (tFailure t) @ '','' @ json_string ''output'' @ '':'' @ [CHR 0x22]"],
        rule exI [of _ "[CHR 0x22] @ '','' @ json_string ''state'' @ '':'' @ json_string (state_text (tState t)) @ '',''
           @ json_string ''task_id'' @ '':'' @ json_string (tID t) @ '','' @ json_string ''title'' @ '':'' @ json_string (tTitle t)"])
      (simp add: result_content_def json_string_def)
  then show ?thesis using json_escape_length [of "tOutput t"] by (metis le_add2 length_append trans_le_add1 trans_le_add2)
qed

text \<open>C14. Start with no task marked delivered. Whatever calls the task store and the queue then serve, in any order and with
  whatever write failures, a task marked delivered has ended and its outcome is in the queue of its parent run.\<close>

theorem delivered_means_enqueued:
  assumes "task_inv d" and "wf_map q" and "\<And>i t. readJSON d (task_path i) = Inr t \<Longrightarrow> tDeliveredAt t = 0"
    and "list_all fresh_system_call cs"
    and "readJSON (fst (run_steps do_system cs (d, q))) (task_path i) = Inr t" and "tDeliveredAt t \<noteq> 0"
  shows "task_terminal (tState t) \<and> enqueued (result_input t) (snd (run_steps do_system cs (d, q)))"
proof -
  have "inboxq.good (d, q)" using assms(1-3) by (auto simp: inboxq.good_def delivered_inv_def)
  with assms(4) have "inboxq.good (run_steps do_system cs (d, q))"
  proof (induction cs arbitrary: d q)
    case Nil
    then show ?case by simp
  next
    case (Cons c cs)
    then have "inboxq.good (snd (do_system c (d, q)))" using do_system_good by simp
    with Cons show ?case by (metis list.pred_inject(2) prod.collapse run_steps.simps(2))
  qed
  with assms(5,6) show ?thesis by (auto simp: inboxq.good_def delivered_inv_def)
qed

theorem delivered_means_enqueued_witness:
  "\<exists>t. readJSON (fst (run_steps do_system [OnTasks (TComplete demo_env demo_env demo_env ''t1'' ''w1'' ''ok'')]
       (demo_tasks TRunning, []))) (task_path ''t1'') = Inr t \<and> tState t = TSucceeded \<and> tDeliveredAt t = 100 \<and>
     enqueued (result_input t) (snd (run_steps do_system
       [OnTasks (TComplete demo_env demo_env demo_env ''t1'' ''w1'' ''ok'')] (demo_tasks TRunning, [])))"
proof -
  define t where "t = (demo_task TSucceeded)\<lparr>tOutput := ''ok'', tUpdatedAt := 100\<rparr>"
  have f: "finishTask demo_env ''t1'' ''w1'' TSucceeded ''ok'' [] (demo_tasks TRunning) =
      (Inr t, AList.update (task_path ''t1'') (Record t) (demo_tasks TRunning))"
    by (simp add: finishTask_def mutateTask_def atomicWrite_def demo_env_def char_eval t_def)
      (simp add: demo_task_def zeroBTask_def Let_def)
  obtain s where s: "result_content t = CHR ''{'' # s @ ''}''" using result_content_braces by blast
  have len: "length (result_content t) \<le> 65536"
    by (simp add: result_content_def json_string_def json_escape1_def t_def demo_task_def zeroBTask_def)
  have tf: "tID t = ''t1''" "tParentRunID t = ''run''" by (simp_all add: t_def demo_task_def zeroBTask_def)
  have tr: "TrimSpace (result_content t) = result_content t" using s brace_trim [of s] by simp
  have ne: "result_content t \<noteq> []" using s by simp
  have safe: "safeID ''run''" by (simp add: char_eval)
  obtain v q' where e: "Enqueue demo_env (result_input t) [] = (Inr v, q')"
    using len ne safe
    by (simp add: Enqueue_def result_input_def validateID_def Let_def validKind_def loadInbox_def readJSON_def findInput_def
        atomicWrite_def demo_env_def maximumQueuedInputBytes_def tf tr char_eval)
  let ?w = "run_steps do_system [OnTasks (TComplete demo_env demo_env demo_env ''t1'' ''w1'' ''ok'')] (demo_tasks TRunning, [])"
  have "deliverTask (Some Enqueue) demo_env demo_env t (AList.update (task_path ''t1'') (Record t) (demo_tasks TRunning), [])
     = ((t\<lparr>tDeliveredAt := 100\<rparr>, None),
        (AList.update (task_path ''t1'') (Record (t\<lparr>tDeliveredAt := 100\<rparr>))
          (AList.update (task_path ''t1'') (Record t) (demo_tasks TRunning)), q'))"
    using e by (simp add: deliverTask_def markDelivered_def mutateTask_def atomicWrite_def demo_env_def readJSON_update)
      (simp add: t_def demo_task_def zeroBTask_def task_terminal_def char_eval readJSON_update Let_def)
  with f have w: "?w = (AList.update (task_path ''t1'') (Record (t\<lparr>tDeliveredAt := 100\<rparr>))
          (AList.update (task_path ''t1'') (Record t) (demo_tasks TRunning)), q')"
    by (simp add: CompleteTask_def thenDeliver_def)
  then have r: "readJSON (fst ?w) (task_path ''t1'') = Inr (t\<lparr>tDeliveredAt := 100\<rparr>)" by (simp add: readJSON_update)
  have z: "tDeliveredAt x = 0" if "readJSON (demo_tasks TRunning) (task_path j) = Inr x" for j x
    using that by (auto simp: demo_task_def zeroBTask_def split: if_splits)
  have f: "list_all fresh_system_call [OnTasks (TComplete demo_env demo_env demo_env ''t1'' ''w1'' ''ok'')]"
    by (simp add: fresh_system_call_def fresh_call_def)
  have "enqueued (result_input (t\<lparr>tDeliveredAt := 100\<rparr>)) (snd ?w)"
    using delivered_means_enqueued [OF demo_tasks_inv _ z f r] by (simp add: wf_map_def)
  with r show ?thesis by (simp add: t_def demo_task_def)
qed

section \<open>A result the queue never accepts\<close>

lemma oversized_rejected:
  assumes "length (tOutput t) > 65536"
  shows "\<exists>err. Enqueue e (result_input t) q = (Inl err, q)"
proof -
  obtain s where s: "result_content t = CHR ''{'' # s @ ''}''" "length (tOutput t) \<le> length s"
    using result_content_braces by blast
  with assms have "length (TrimSpace (result_content t)) > maximumQueuedInputBytes"
    using brace_trim [of s] by (simp add: maximumQueuedInputBytes_def)
  then show ?thesis by (auto simp: Enqueue_def result_input_def Let_def split: option.splits)
qed

lemma deliverLoop_skips:
  "list_all (\<lambda>c. \<not> (task_terminal (tState c) \<and> tDeliveredAt c = 0)) pre \<Longrightarrow>
    deliverLoop dl es n (pre @ cs) w = deliverLoop dl es (n + length pre) cs w"
  by (induction pre arbitrary: n) auto

text \<open>A task that ended with more than 64 KiB of output is never delivered: the queue refuses it on every attempt, and since
  \<open>DeliverPending\<close> stops at the first error, \<open>reconcileTasks\<close> then fails every time, delivers none of the tasks that come after
  it and never reconciles a consumption.\<close>

theorem oversized_output_blocks_reconciliation:
  assumes "ReconcileLost (Some Enqueue) (es 0) t timeout w = ((lost, None), w1)"
    and "listTasks (fst w1) = Inr (pre @ c # cs)"
    and "list_all (\<lambda>c. \<not> (task_terminal (tState c) \<and> tDeliveredAt c = 0)) pre"
    and "task_terminal (tState c)" and "tDeliveredAt c = 0" and "length (tOutput c) > 65536"
  shows "\<exists>err. reconcileTasks (Some Enqueue) rd es t timeout w = (Some err, w1)"
proof -
  obtain err where "Enqueue (es 1 (length pre) 2) (result_input c) (snd w1) = (Inl err, snd w1)"
    using oversized_rejected [OF assms(6)] by blast
  then have "deliverTask (Some Enqueue) (es 1 (length pre) 2) (es 1 (length pre) 1) c w1 = ((c, Some err), w1)"
    using assms(4,5) by (simp add: deliverTask_def)
  then have "DeliverPending (Some Enqueue) (es 1) w1 = (Some err, w1)"
    using assms(2-5) by (simp add: DeliverPending_def deliverLoop_skips)
  then show ?thesis using assms(1) by (simp add: reconcileTasks_def)
qed

theorem oversized_output_blocks_reconciliation_witness:
  "\<exists>err. reconcileTasks (Some Enqueue) (Some InputStatus) (\<lambda>_ _ _. demo_env) 100 50
     ([(''t1.task.json'', Record ((demo_task TSucceeded)\<lparr>tOutput := replicate 65537 (CHR ''x'')\<rparr>))], []) =
     (Some err, ([(''t1.task.json'', Record ((demo_task TSucceeded)\<lparr>tOutput := replicate 65537 (CHR ''x'')\<rparr>))], []))"
proof -
  define c where "c = (demo_task TSucceeded)\<lparr>tOutput := replicate 65537 (CHR ''x'')\<rparr>"
  have c: "tState c = TSucceeded" "tDeliveredAt c = 0" "length (tOutput c) > 65536"
    by (simp_all add: c_def demo_task_def zeroBTask_def)
  let ?w = "([(''t1.task.json'', Record c)], []) :: taskDir \<times> inboxDir"
  have l: "listTasks (fst ?w) = Inr ([] @ c # [])" by (simp add: listTasks_def readDir_def suffix_def)
  then have "ReconcileLost (Some Enqueue) (\<lambda>_ _. demo_env) 100 50 ?w = (([], None), ?w)"
    using c by (simp add: ReconcileLost_def heartbeat_expired_def)
  from oversized_output_blocks_reconciliation [OF this l _ _ c(2,3), of "Some InputStatus"] c(1)
  show ?thesis unfolding c_def [symmetric] by (simp add: task_terminal_def)
qed

end
