(* ===== verification/WorkItem.thy ===== *)
theory WorkItem
  imports Ledger
begin

text \<open>
  Product tasks: \<open>internal/workitem/types.go\<close> and \<open>internal/workitem/store.go\<close>. A task is one JSON file under
  \<open>tasks\<close>, an artifact version one file under \<open>artifacts\<close>. A task is claimed under a lease, submitted with a
  handoff that names artifact versions, and done once the reviewer of its gate passes exactly those. Every change
  appends an operation to the task's ledger and advances its revision. Slices are lists, so a nil slice is the
  empty one.
\<close>

section \<open>Data\<close>

definition SchemaVersion :: int where
  "SchemaVersion = 2"

datatype WState = Todo | InProgress | InReview | Done | Closed | OtherState string

datatype GateKind = GateHuman | GateCode | GateAgent | OtherGate string

datatype GateDecision = GatePass | GateReject | GateNeedsHuman | OtherDecision string

fun state_name :: "WState \<Rightarrow> string" where
  "state_name Todo = ''todo''"
| "state_name InProgress = ''in_progress''"
| "state_name InReview = ''in_review''"
| "state_name Done = ''done''"
| "state_name Closed = ''closed''"
| "state_name (OtherState s) = s"

fun gate_name :: "GateKind \<Rightarrow> string" where
  "gate_name GateHuman = ''human''"
| "gate_name GateCode = ''code''"
| "gate_name GateAgent = ''agent''"
| "gate_name (OtherGate s) = s"

fun decision_name :: "GateDecision \<Rightarrow> string" where
  "decision_name GatePass = ''pass''"
| "decision_name GateReject = ''reject''"
| "decision_name GateNeedsHuman = ''needs_human''"
| "decision_name (OtherDecision s) = s"

record Requirement =
  rqID :: string
  rqText :: string

record Scope =
  scAllow :: "string list"
  scDeny :: "string list"

record GateSpec =
  gKind :: GateKind
  gReviewerID :: string
  gChecks :: "string list"
  gRequiredEvidence :: "string list"
  gOnReject :: string

record WClaim =
  wcOwnerID :: string
  wcLeaseID :: string
  wcExpiresAt :: time

record ArtifactRef =
  arID :: string
  arVersion :: string
  arDigest :: string

record Artifact =
  afSchemaVersion :: int
  afID :: string
  afTaskID :: string
  afVersion :: string
  afKind :: string
  afURI :: string
  afDigest :: string
  afProducerID :: string
  afCreatedAt :: time

record Handoff =
  hContractRevision :: int
  hAuthorID :: string
  hSummary :: string
  hDecisions :: "string list"
  hEvidence :: "string list"
  hArtifacts :: "ArtifactRef list"
  hRemaining :: "string list"
  hRisks :: "string list"
  hNextAction :: string
  hCreatedAt :: time

record GateResult =
  grDecision :: GateDecision
  grReviewerID :: string
  grArtifactVersion :: "ArtifactRef list"
  grEvidence :: "string list"
  grReason :: string
  grCreatedAt :: time

record WOperation =
  woID :: string
  woAction :: string
  woFingerprint :: string
  woRevision :: int
  woCreatedAt :: time

record WTask =
  wSchemaVersion :: int
  wID :: string
  wWorkspaceID :: string
  wChannelID :: string
  wThreadID :: string
  wParentTaskID :: string
  wCreatorID :: string
  wTitle :: string
  wObjective :: string
  wState :: WState
  wRevision :: int
  wContractRevision :: int
  wRequirements :: "Requirement list"
  wScope :: Scope
  wStopConditions :: "string list"
  wAssigneeID :: string
  wClaim :: "WClaim option"
  wGate :: GateSpec
  wArtifactRefs :: "ArtifactRef list"
  wSubmissions :: "Handoff list"
  wReviews :: "GateResult list"
  wClosedReason :: string
  wOperations :: "WOperation list"
  wCreatedAt :: time
  wUpdatedAt :: time

record WCreate =
  cOperationID :: string
  cID :: string
  cWorkspaceID :: string
  cChannelID :: string
  cThreadID :: string
  cParentTaskID :: string
  cCreatorID :: string
  cTitle :: string
  cObjective :: string
  cRequirements :: "Requirement list"
  cScope :: Scope
  cStopConditions :: "string list"
  cAssigneeID :: string
  cGate :: GateSpec

record ContractUpdate =
  cuOperationID :: string
  cuExpectedRevision :: int
  cuActorID :: string
  cuRequirements :: "Requirement list"
  cuScope :: Scope
  cuStopConditions :: "string list"
  cuGate :: GateSpec

record ArtifactInput =
  aiOperationID :: string
  aiExpectedRevision :: int
  aiOwnerID :: string
  aiLeaseID :: string
  aiID :: string
  aiVersion :: string
  aiKind :: string
  aiURI :: string
  aiDigest :: string

record workStore =
  wsTasks :: "WTask dir"
  wsArtifacts :: "Artifact dir"

definition ErrConflict :: go_error where
  "ErrConflict = Sentinel ''work item revision conflict''"

definition ErrTransition :: go_error where
  "ErrTransition = Sentinel ''invalid work item transition''"

definition ErrLease :: go_error where
  "ErrLease = Sentinel ''invalid or expired work item lease''"

section \<open>Fingerprinted values\<close>

text \<open>The JSON of the values that \<open>semanticFingerprint\<close> hashes: the fields in the order of the Go structs.\<close>

definition requirement_json :: "Requirement \<Rightarrow> json" where
  "requirement_json r = JObj [(''id'', JStr (rqID r)), (''text'', JStr (rqText r))]"

definition scope_json :: "Scope \<Rightarrow> json" where
  "scope_json s = JObj (jomit_strs ''allow'' (scAllow s) @ jomit_strs ''deny'' (scDeny s))"

definition gate_json :: "GateSpec \<Rightarrow> json" where
  "gate_json g = JObj [(''kind'', JStr (gate_name (gKind g))), (''reviewer_id'', JStr (gReviewerID g)),
     (''checks'', jstrs (gChecks g)), (''required_evidence'', jstrs (gRequiredEvidence g)),
     (''on_reject'', JStr (gOnReject g))]"

definition ref_json :: "ArtifactRef \<Rightarrow> json" where
  "ref_json r = JObj [(''id'', JStr (arID r)), (''version'', JStr (arVersion r)), (''digest'', JStr (arDigest r))]"

text \<open>Handoffs and gate results are normalised before they are hashed, with the time reset.\<close>

definition zero_time_json :: json where
  "zero_time_json = JStr ''0001-01-01T00:00:00Z''"

definition handoff_json :: "Handoff \<Rightarrow> json" where
  "handoff_json h = JObj ([(''contract_revision'', JInt (hContractRevision h)), (''author_id'', JStr (hAuthorID h)),
     (''summary'', JStr (hSummary h))] @ jomit_strs ''decisions'' (hDecisions h) @
     [(''evidence'', jstrs (hEvidence h)), (''artifacts'', JArr (map ref_json (hArtifacts h)))] @
     jomit_strs ''remaining'' (hRemaining h) @ jomit_strs ''risks'' (hRisks h) @
     [(''next_action'', JStr (hNextAction h)), (''created_at'', zero_time_json)])"

definition gate_result_json :: "GateResult \<Rightarrow> json" where
  "gate_result_json r = JObj [(''decision'', JStr (decision_name (grDecision r))), (''reviewer_id'', JStr (grReviewerID r)),
     (''artifact_versions'', JArr (map ref_json (grArtifactVersion r))), (''evidence'', jstrs (grEvidence r)),
     (''reason'', JStr (grReason r)), (''created_at'', zero_time_json)]"

definition create_json :: "WCreate \<Rightarrow> json" where
  "create_json c = JObj ([(''operation_id'', JStr (cOperationID c))] @ jomit ''id'' (cID c) @
     [(''workspace_id'', JStr (cWorkspaceID c)), (''channel_id'', JStr (cChannelID c))] @
     jomit ''thread_id'' (cThreadID c) @ jomit ''parent_task_id'' (cParentTaskID c) @
     [(''creator_id'', JStr (cCreatorID c)), (''title'', JStr (cTitle c)), (''objective'', JStr (cObjective c)),
      (''requirements'', JArr (map requirement_json (cRequirements c))), (''scope'', scope_json (cScope c)),
      (''stop_conditions'', jstrs (cStopConditions c))] @ jomit ''assignee_id'' (cAssigneeID c) @
     [(''gate'', gate_json (cGate c))])"

definition lease_json :: "string \<Rightarrow> string \<Rightarrow> duration \<Rightarrow> json" where
  "lease_json owner lease ttl = JObj [(''owner'', JStr owner), (''lease'', JStr lease), (''ttl_ms'', JInt (ttl div 1000000))]"

definition contract_json :: "ContractUpdate \<Rightarrow> json" where
  "contract_json u = JObj [(''actor'', JStr (cuActorID u)), (''requirements'', JArr (map requirement_json (cuRequirements u))),
     (''scope'', scope_json (cuScope u)), (''stop_conditions'', jstrs (cuStopConditions u)), (''gate'', gate_json (cuGate u))]"

definition artifact_json :: "ArtifactInput \<Rightarrow> json" where
  "artifact_json a = JObj [(''owner'', JStr (aiOwnerID a)), (''lease'', JStr (aiLeaseID a)), (''id'', JStr (aiID a)),
     (''version'', JStr (aiVersion a)), (''kind'', JStr (aiKind a)), (''uri'', JStr (aiURI a)), (''digest'', JStr (aiDigest a))]"

definition submit_json :: "string \<Rightarrow> string \<Rightarrow> Handoff \<Rightarrow> json" where
  "submit_json owner lease h = JObj [(''owner'', JStr owner), (''lease'', JStr lease), (''handoff'', handoff_json h)]"

definition close_json :: "string \<Rightarrow> string \<Rightarrow> json" where
  "close_json actor reason = JObj [(''actor'', JStr actor), (''reason'', JStr reason)]"

section \<open>Normalisation\<close>

definition normalizeRequirements :: "Requirement list \<Rightarrow> Requirement list" where
  "normalizeRequirements items = map (\<lambda>r. r\<lparr>rqID := TrimSpace (rqID r), rqText := TrimSpace (rqText r)\<rparr>) items"

definition normalizeScope :: "Scope \<Rightarrow> Scope" where
  "normalizeScope s = s\<lparr>scAllow := normalizeStrings (scAllow s), scDeny := normalizeStrings (scDeny s)\<rparr>"

definition normalizeGate :: "GateSpec \<Rightarrow> GateSpec" where
  "normalizeGate g = g\<lparr>gReviewerID := TrimSpace (gReviewerID g), gChecks := normalizeStrings (gChecks g),
     gRequiredEvidence := normalizeStrings (gRequiredEvidence g), gOnReject := TrimSpace (gOnReject g)\<rparr>"

definition normalizeCreate :: "WCreate \<Rightarrow> WCreate" where
  "normalizeCreate c = c\<lparr>cOperationID := TrimSpace (cOperationID c), cID := TrimSpace (cID c),
     cWorkspaceID := TrimSpace (cWorkspaceID c), cChannelID := TrimSpace (cChannelID c), cThreadID := TrimSpace (cThreadID c),
     cParentTaskID := TrimSpace (cParentTaskID c), cCreatorID := TrimSpace (cCreatorID c),
     cAssigneeID := TrimSpace (cAssigneeID c), cTitle := TrimSpace (cTitle c), cObjective := TrimSpace (cObjective c),
     cRequirements := normalizeRequirements (cRequirements c), cScope := normalizeScope (cScope c),
     cStopConditions := normalizeStrings (cStopConditions c), cGate := normalizeGate (cGate c)\<rparr>"

definition normalizeHandoff :: "Handoff \<Rightarrow> Handoff" where
  "normalizeHandoff h = h\<lparr>hAuthorID := TrimSpace (hAuthorID h), hSummary := TrimSpace (hSummary h),
     hDecisions := normalizeStrings (hDecisions h), hEvidence := normalizeStrings (hEvidence h),
     hRemaining := normalizeStrings (hRemaining h), hRisks := normalizeStrings (hRisks h),
     hNextAction := TrimSpace (hNextAction h), hCreatedAt := 0\<rparr>"

definition normalizeGateResult :: "GateResult \<Rightarrow> GateResult" where
  "normalizeGateResult r = r\<lparr>grReviewerID := TrimSpace (grReviewerID r), grEvidence := normalizeStrings (grEvidence r),
     grReason := TrimSpace (grReason r), grCreatedAt := 0\<rparr>"

text \<open>\<open>strings.ToLower\<close> on ASCII letters; the digest it is applied to must be hexadecimal afterwards, and no other
  letter has a hexadecimal digit as its lower case.\<close>

definition ToLower :: "string \<Rightarrow> string" where
  "ToLower s = map (\<lambda>c. if CHR ''A'' \<le> c \<and> c \<le> CHR ''Z'' then char_of (of_char c + 32 :: nat) else c) s"

definition normalizeArtifactInput :: "env \<Rightarrow> ArtifactInput \<Rightarrow> ArtifactInput" where
  "normalizeArtifactInput e a =
     (let i = TrimSpace (aiID a) in
      a\<lparr>aiID := (if i = [] then newID ''artifact'' (ent e 0) else i), aiVersion := TrimSpace (aiVersion a),
        aiKind := TrimSpace (aiKind a), aiURI := TrimSpace (aiURI a), aiDigest := ToLower (TrimSpace (aiDigest a))\<rparr>)"

section \<open>Validation\<close>

definition optionalID :: "string \<Rightarrow> bool" where
  "optionalID s \<longleftrightarrow> s = [] \<or> safeID s"

definition validateContract :: "Requirement list \<Rightarrow> Scope \<Rightarrow> string list \<Rightarrow> GateSpec \<Rightarrow> go_error option" where
  "validateContract requirements scope stop gate =
     (if requirements = [] \<or> stop = [] \<or> gChecks gate = [] \<or> gRequiredEvidence gate = [] \<or> gOnReject gate = []
      then Some (Errorf ''requirements, stop conditions, gate checks, evidence contract, and rejection policy are required'')
      else if (gKind gate \<noteq> GateHuman \<and> gKind gate \<noteq> GateCode \<and> gKind gate \<noteq> GateAgent) \<or> \<not> safeID (gReviewerID gate)
      then Some (Errorf ''valid gate kind and reviewer are required'')
      else if \<not> scan_unique (\<lambda>r. safeID (rqID r) \<and> rqText r \<noteq> []) rqID [] requirements
      then Some (Errorf ''requirements need unique ids and non-empty text'')
      else if scAllow scope = [] \<and> scDeny scope = []
      then Some (Errorf ''task scope must have an allow or deny boundary'')
      else None)"

definition validateCreate :: "WCreate \<Rightarrow> go_error option" where
  "validateCreate c =
     (if \<not> list_all safeID [cOperationID c, cID c, cWorkspaceID c, cChannelID c, cCreatorID c]
      then Some (Errorf ''operation, task, workspace, channel, and creator ids are required'')
      else if \<not> optionalID (cThreadID c) \<or> \<not> optionalID (cParentTaskID c) \<or> \<not> optionalID (cAssigneeID c)
      then Some (Errorf ''invalid optional task identity'')
      else if cTitle c = [] \<or> cObjective c = [] then Some (Errorf ''title and objective are required'')
      else validateContract (cRequirements c) (cScope c) (cStopConditions c) (cGate c))"

definition validArtifactRef :: "ArtifactRef \<Rightarrow> bool" where
  "validArtifactRef r \<longleftrightarrow> safeID (arID r) \<and> safeID (arVersion r) \<and> safeDigest (arDigest r)"

definition containsArtifact :: "ArtifactRef list \<Rightarrow> ArtifactRef \<Rightarrow> bool" where
  "containsArtifact items target = list_ex (\<lambda>item. item = target) items"

definition operation_ok :: "WOperation \<Rightarrow> bool" where
  "operation_ok x \<longleftrightarrow> safeID (woID x) \<and> woAction x \<noteq> [] \<and> safeDigest (woFingerprint x) \<and> woCreatedAt x \<noteq> 0"

definition claim_ok :: "WClaim option \<Rightarrow> bool" where
  "claim_ok c \<longleftrightarrow> (case c of None \<Rightarrow> True
     | Some x \<Rightarrow> safeID (wcOwnerID x) \<and> safeID (wcLeaseID x) \<and> wcExpiresAt x \<noteq> 0)"

definition validateTask :: "WTask \<Rightarrow> go_error option" where
  "validateTask t =
     (if wSchemaVersion t \<noteq> SchemaVersion \<or> \<not> safeID (wID t) \<or> \<not> safeID (wWorkspaceID t) \<or> \<not> safeID (wChannelID t)
         \<or> \<not> safeID (wCreatorID t) \<or> wRevision t \<le> 0 \<or> wContractRevision t \<le> 0 \<or> wCreatedAt t = 0 \<or> wUpdatedAt t = 0
      then Some (Errorf ''invalid canonical task'')
      else if wState t \<noteq> Todo \<and> wState t \<noteq> InProgress \<and> wState t \<noteq> InReview \<and> wState t \<noteq> Done \<and> wState t \<noteq> Closed
      then Some (Errorf ''invalid task state'')
      else if \<not> optionalID (wThreadID t) \<or> \<not> optionalID (wParentTaskID t) \<or> \<not> optionalID (wAssigneeID t)
      then Some (Errorf ''invalid optional canonical task identity'')
      else (case validateContract (wRequirements t) (wScope t) (wStopConditions t) (wGate t) of
        Some err \<Rightarrow> Some err
      | None \<Rightarrow>
          if \<not> ledger_ok operation_ok woID woRevision (wOperations t) then Some (Errorf ''invalid task operation ledger'')
          else if wOperations t = [] \<or> woRevision (last (wOperations t)) \<noteq> wRevision t
          then Some (Errorf ''task operation ledger does not reach current revision'')
          else if \<not> claim_ok (wClaim t) then Some (Errorf ''invalid task claim'')
          else if \<not> scan_unique validArtifactRef id [] (wArtifactRefs t)
          then Some (Errorf ''invalid or duplicate task artifact reference'')
          else None))"

text \<open>The loop of \<open>validateHandoff\<close> checks each reference and that it is new, then that it is attached to the task.\<close>

fun scan_handoff :: "ArtifactRef list \<Rightarrow> ArtifactRef list \<Rightarrow> ArtifactRef list \<Rightarrow> go_error option" where
  "scan_handoff attached seen [] = None"
| "scan_handoff attached seen (r # rs) =
     (if \<not> validArtifactRef r \<or> r \<in> set seen then Some (Errorf ''handoff contains invalid or duplicate artifacts'')
      else if \<not> containsArtifact attached r
      then Some (Errorf ''handoff references an artifact version not attached to the task'')
      else scan_handoff attached (r # seen) rs)"

definition validateHandoff :: "WTask \<Rightarrow> Handoff \<Rightarrow> go_error option" where
  "validateHandoff t h =
     (if hSummary h = [] \<or> hEvidence h = [] \<or> hArtifacts h = [] \<or> hNextAction h = []
      then Some (Errorf ''handoff summary, evidence, artifact versions, and next action are required'')
      else case scan_handoff (wArtifactRefs t) [] (hArtifacts h) of Some err \<Rightarrow> Some err
      | None \<Rightarrow>
          if gRequiredEvidence (wGate t) \<noteq> [] \<and> length (hEvidence h) < length (gRequiredEvidence (wGate t))
          then Some (Errorf ''handoff does not provide the gate's required evidence'')
          else None)"

definition validClaim :: "WTask \<Rightarrow> string \<Rightarrow> string \<Rightarrow> time \<Rightarrow> bool" where
  "validClaim t owner lease n \<longleftrightarrow> (case wClaim t of None \<Rightarrow> False
     | Some c \<Rightarrow> wcOwnerID c = owner \<and> wcLeaseID c = lease \<and> n < wcExpiresAt c)"

fun operationMatch :: "WOperation list \<Rightarrow> string \<Rightarrow> string \<Rightarrow> bool" where
  "operationMatch [] i fp = False"
| "operationMatch (x # xs) i fp = (if woID x = i then woFingerprint x = fp else operationMatch xs i fp)"

definition transition :: "WState \<Rightarrow> WState \<Rightarrow> go_error" where
  "transition a b = Wrap (''cannot transition '' @ state_name a @ '' to '' @ state_name b) ErrTransition"

definition work_terminal :: "WState \<Rightarrow> bool" where
  "work_terminal s \<longleftrightarrow> s = Done \<or> s = Closed"

text \<open>\<open>sameArtifactSet\<close> counts up over the left list and down over the right one; a Go map without an entry reads 0.\<close>

fun count_down :: "(ArtifactRef \<Rightarrow> int) \<Rightarrow> ArtifactRef list \<Rightarrow> (ArtifactRef \<Rightarrow> int) option" where
  "count_down counts [] = Some counts"
| "count_down counts (r # rs) =
     (let counts' = counts(r := counts r - 1) in if counts' r < 0 then None else count_down counts' rs)"

definition sameArtifactSet :: "ArtifactRef list \<Rightarrow> ArtifactRef list \<Rightarrow> bool" where
  "sameArtifactSet left right =
     (if length left \<noteq> length right then False else
      case count_down (foldl (\<lambda>counts r. counts(r := counts r + 1)) (\<lambda>_. 0) left) right of
        None \<Rightarrow> False
      | Some counts \<Rightarrow> list_all (\<lambda>r. counts r = 0) (left @ right))"

section \<open>Files\<close>

definition taskPath :: "string \<Rightarrow> string" where
  "taskPath i = i @ ''.task-v2.json''"

definition artifactPath :: "string \<Rightarrow> string \<Rightarrow> string" where
  "artifactPath i version = i @ ''--'' @ version @ ''.artifact.json''"

definition readTask :: "string \<Rightarrow> WTask dir \<Rightarrow> go_error + WTask" where
  "readTask i d =
     (if \<not> safeID i then Inl (Errorf ''invalid task id'') else
      case readJSON d (taskPath i) of Inl err \<Rightarrow> Inl err
      | Inr t \<Rightarrow> (case validateTask t of Some err \<Rightarrow> Inl err | None \<Rightarrow> Inr t))"

definition readArtifact :: "string \<Rightarrow> string \<Rightarrow> Artifact dir \<Rightarrow> go_error + Artifact" where
  "readArtifact i version d =
     (if \<not> safeID i \<or> \<not> safeID version then Inl (Errorf ''invalid artifact identity'') else
      case readJSON d (artifactPath i version) of Inl err \<Rightarrow> Inl err
      | Inr a \<Rightarrow>
          if afSchemaVersion a \<noteq> SchemaVersion \<or> afID a \<noteq> i \<or> afVersion a \<noteq> version \<or> \<not> safeDigest (afDigest a)
          then Inl (Errorf ''invalid artifact record'') else Inr a)"

text \<open>Both writers read the file back and compare.\<close>

definition writeTask :: "io \<Rightarrow> WTask \<Rightarrow> WTask dir \<Rightarrow> go_error option \<times> WTask dir" where
  "writeTask i t d =
     (case atomicWrite i (taskPath (wID t)) t d of
        (Some err, d') \<Rightarrow> (Some err, d')
      | (None, d') \<Rightarrow>
          (case readTask (wID t) d' of Inl err \<Rightarrow> (Some err, d')
           | Inr verified \<Rightarrow>
               if wRevision verified \<noteq> wRevision t \<or> length (wOperations verified) \<noteq> length (wOperations t)
                  \<or> wState verified \<noteq> wState t
               then (Some (Errorf ''task read-back verification failed''), d') else (None, d')))"

definition writeArtifact :: "io \<Rightarrow> Artifact \<Rightarrow> Artifact dir \<Rightarrow> go_error option \<times> Artifact dir" where
  "writeArtifact i a d =
     (case atomicWrite i (artifactPath (afID a) (afVersion a)) a d of
        (Some err, d') \<Rightarrow> (Some err, d')
      | (None, d') \<Rightarrow>
          (case readArtifact (afID a) (afVersion a) d' of Inl err \<Rightarrow> (Some err, d')
           | Inr verified \<Rightarrow>
               if afDigest verified \<noteq> afDigest a \<or> afTaskID verified \<noteq> afTaskID a
               then (Some (Errorf ''artifact read-back verification failed''), d') else (None, d')))"

fun readTaskFiles :: "WTask dir \<Rightarrow> string list \<Rightarrow> go_error + WTask list" where
  "readTaskFiles d [] = Inr []"
| "readTaskFiles d (name # names) =
     (if \<not> suffix ''.task-v2.json'' name then readTaskFiles d names else
      case readTask (take (length name - length ''.task-v2.json'') name) d of Inl err \<Rightarrow> Inl err
      | Inr t \<Rightarrow> (case readTaskFiles d names of Inl err \<Rightarrow> Inl err | Inr ts \<Rightarrow> Inr (t # ts)))"

definition listWork :: "WTask dir \<Rightarrow> go_error + WTask list" where
  "listWork d = readTaskFiles d (map fst (readDir d))"

definition children :: "string \<Rightarrow> WTask dir \<Rightarrow> go_error + WTask list" where
  "children parentID d = (case listWork d of Inl err \<Rightarrow> Inl err | Inr items \<Rightarrow>
     Inr (filter (\<lambda>t. wParentTaskID t = parentID) items))"

section \<open>Operations\<close>

definition checkParent :: "WCreate \<Rightarrow> WTask dir \<Rightarrow> go_error option" where
  "checkParent input d =
     (if cParentTaskID input = [] then None else
      case readTask (cParentTaskID input) d of
        Inl err \<Rightarrow> Some (Wrap ''parent task'' err)
      | Inr parent \<Rightarrow>
          if wWorkspaceID parent \<noteq> cWorkspaceID input \<or> wChannelID parent \<noteq> cChannelID input \<or> work_terminal (wState parent)
          then Some (Errorf ''parent task must be open in the same workspace and channel'') else None)"

definition newWork :: "time \<Rightarrow> string \<Rightarrow> WCreate \<Rightarrow> WTask" where
  "newWork n fingerprint input =
     \<lparr>wSchemaVersion = SchemaVersion, wID = cID input, wWorkspaceID = cWorkspaceID input,
      wChannelID = cChannelID input, wThreadID = cThreadID input, wParentTaskID = cParentTaskID input,
      wCreatorID = cCreatorID input, wTitle = cTitle input, wObjective = cObjective input, wState = Todo,
      wRevision = 1, wContractRevision = 1, wRequirements = cRequirements input, wScope = cScope input,
      wStopConditions = cStopConditions input, wAssigneeID = cAssigneeID input, wClaim = None,
      wGate = cGate input, wArtifactRefs = [], wSubmissions = [], wReviews = [], wClosedReason = [],
      wOperations = [\<lparr>woID = cOperationID input, woAction = ''create'', woFingerprint = fingerprint,
                      woRevision = 1, woCreatedAt = n\<rparr>],
      wCreatedAt = n, wUpdatedAt = n\<rparr>"

definition CreateWork :: "env \<Rightarrow> WCreate \<Rightarrow> workStore \<Rightarrow> (go_error + WTask) \<times> workStore" where
  "CreateWork e input0 s =
     (case cerr e of Some err \<Rightarrow> (Inl err, s) | None \<Rightarrow>
      let input = normalizeCreate (if cID input0 = [] then input0\<lparr>cID := newID ''work'' (ent e 0)\<rparr> else input0) in
      (case validateCreate input of Some err \<Rightarrow> (Inl err, s) | None \<Rightarrow>
       let fingerprint = semanticFingerprint ''create'' (create_json input) in
       (case readTask (cID input) (wsTasks s) of
          Inr existing \<Rightarrow>
            if operationMatch (wOperations existing) (cOperationID input) fingerprint then (Inr existing, s)
            else (Inl (Wrap (''task already exists '' @ cID input) ErrConflict), s)
        | Inl err \<Rightarrow>
            if \<not> errors_Is err os_ErrNotExist then (Inl err, s) else
            (case checkParent input (wsTasks s) of Some err' \<Rightarrow> (Inl err', s) | None \<Rightarrow>
             let t = newWork (now e) fingerprint input in
             (case writeTask (wio e) t (wsTasks s) of
                (Some err', d') \<Rightarrow> (Inl err', s\<lparr>wsTasks := d'\<rparr>)
              | (None, d') \<Rightarrow> (Inr t, s\<lparr>wsTasks := d'\<rparr>))))))"

definition GetWork :: "env \<Rightarrow> string \<Rightarrow> workStore \<Rightarrow> go_error + WTask" where
  "GetWork e i s =
     (case cerr e of Some err \<Rightarrow> Inl err | None \<Rightarrow>
      if \<not> safeID i then Inl (Errorf ''invalid task id'') else readTask i (wsTasks s))"

definition GetArtifact :: "env \<Rightarrow> string \<Rightarrow> string \<Rightarrow> workStore \<Rightarrow> go_error + Artifact" where
  "GetArtifact e i version s =
     (case cerr e of Some err \<Rightarrow> Inl err | None \<Rightarrow> readArtifact i version (wsArtifacts s))"

text \<open>Go's \<open>sort.Slice\<close> leaves the order of tasks with equal creation times open; \<open>sort_key\<close> keeps the directory's.\<close>

definition ListWork :: "env \<Rightarrow> string \<Rightarrow> string \<Rightarrow> workStore \<Rightarrow> go_error + WTask list" where
  "ListWork e workspaceID channelID s =
     (case cerr e of Some err \<Rightarrow> Inl err | None \<Rightarrow>
      (case listWork (wsTasks s) of Inl err \<Rightarrow> Inl err | Inr tasks \<Rightarrow>
       Inr (sort_key wCreatedAt (filter (\<lambda>t. \<not> (workspaceID \<noteq> [] \<and> wWorkspaceID t \<noteq> workspaceID)
                                           \<and> \<not> (channelID \<noteq> [] \<and> wChannelID t \<noteq> channelID)) tasks))))"

definition mutateWork :: "env \<Rightarrow> string \<Rightarrow> string \<Rightarrow> string \<Rightarrow> int \<Rightarrow> json \<Rightarrow> (time \<Rightarrow> WTask \<Rightarrow> go_error + WTask)
    \<Rightarrow> workStore \<Rightarrow> (go_error + WTask) \<times> workStore" where
  "mutateWork e taskID operationID action expectedRevision semantic upd s =
     (case cerr e of Some err \<Rightarrow> (Inl err, s) | None \<Rightarrow>
      if \<not> safeID taskID \<or> \<not> safeID operationID \<or> expectedRevision \<le> 0
      then (Inl (Errorf ''task id, operation id, and positive expected revision are required''), s) else
      let fingerprint = semanticFingerprint action semantic in
      (case readTask taskID (wsTasks s) of Inl err \<Rightarrow> (Inl err, s) | Inr t \<Rightarrow>
       if operationMatch (wOperations t) operationID fingerprint then (Inr t, s) else
       if find_op woID operationID (wOperations t) \<noteq> None
       then (Inl (Wrap ''operation id reused with different semantics'' ErrConflict), s) else
       if wRevision t \<noteq> expectedRevision then (Inl ErrConflict, s) else
       (case upd (now e) t of Inl err \<Rightarrow> (Inl err, s) | Inr t1 \<Rightarrow>
        let t2 = t1\<lparr>wRevision := wRevision t1 + 1, wUpdatedAt := now e,
                    wOperations := wOperations t1 @ [\<lparr>woID = operationID, woAction = action, woFingerprint = fingerprint,
                      woRevision = wRevision t1 + 1, woCreatedAt = now e\<rparr>]\<rparr> in
        (case validateTask t2 of Some err \<Rightarrow> (Inl err, s) | None \<Rightarrow>
         (case writeTask (wio e) t2 (wsTasks s) of
            (Some err, d') \<Rightarrow> (Inl err, s\<lparr>wsTasks := d'\<rparr>)
          | (None, d') \<Rightarrow> (Inr t2, s\<lparr>wsTasks := d'\<rparr>))))))"

definition claimUpdate :: "string \<Rightarrow> string \<Rightarrow> duration \<Rightarrow> time \<Rightarrow> WTask \<Rightarrow> go_error + WTask" where
  "claimUpdate ownerID leaseID ttl n t =
     (if \<not> safeID ownerID \<or> \<not> safeID leaseID then Inl (Errorf ''owner and lease ids are required'')
      else if wState t \<noteq> Todo \<and> wState t \<noteq> InProgress then Inl (transition (wState t) InProgress)
      else if wAssigneeID t \<noteq> [] \<and> wAssigneeID t \<noteq> ownerID then Inl (Errorf ''task is assigned to another owner'')
      else if (case wClaim t of None \<Rightarrow> False | Some c \<Rightarrow> n < wcExpiresAt c) then Inl ErrLease
      else Inr (t\<lparr>wState := InProgress, wAssigneeID := ownerID,
                 wClaim := Some \<lparr>wcOwnerID = ownerID, wcLeaseID = leaseID, wcExpiresAt = n + ttl\<rparr>\<rparr>))"

definition ClaimWork :: "env \<Rightarrow> string \<Rightarrow> string \<Rightarrow> string \<Rightarrow> string \<Rightarrow> int \<Rightarrow> duration \<Rightarrow> workStore
    \<Rightarrow> (go_error + WTask) \<times> workStore" where
  "ClaimWork e taskID operationID ownerID leaseID0 expectedRevision ttl s =
     (if ttl \<le> 0 \<or> ttl > 24 * Hour then (Inl (Errorf ''claim ttl must be in (0,24h]''), s) else
      let leaseID = (if leaseID0 = [] then newID ''lease'' (ent e 0) else leaseID0) in
      mutateWork e taskID operationID ''claim'' expectedRevision (lease_json ownerID leaseID ttl)
        (claimUpdate ownerID leaseID ttl) s)"

definition renewUpdate :: "string \<Rightarrow> string \<Rightarrow> duration \<Rightarrow> time \<Rightarrow> WTask \<Rightarrow> go_error + WTask" where
  "renewUpdate ownerID leaseID ttl n t =
     (if wState t \<noteq> InProgress \<or> \<not> validClaim t ownerID leaseID n then Inl ErrLease
      else Inr (t\<lparr>wClaim := map_option (\<lambda>c. c\<lparr>wcExpiresAt := n + ttl\<rparr>) (wClaim t)\<rparr>))"

definition RenewWork :: "env \<Rightarrow> string \<Rightarrow> string \<Rightarrow> string \<Rightarrow> string \<Rightarrow> int \<Rightarrow> duration \<Rightarrow> workStore
    \<Rightarrow> (go_error + WTask) \<times> workStore" where
  "RenewWork e taskID operationID ownerID leaseID expectedRevision ttl s =
     (if ttl \<le> 0 \<or> ttl > 24 * Hour then (Inl (Errorf ''renew ttl must be in (0,24h]''), s) else
      mutateWork e taskID operationID ''renew'' expectedRevision (lease_json ownerID leaseID ttl)
        (renewUpdate ownerID leaseID ttl) s)"

definition contractUpdate :: "ContractUpdate \<Rightarrow> time \<Rightarrow> WTask \<Rightarrow> go_error + WTask" where
  "contractUpdate u n t =
     (if wState t \<noteq> Todo \<and> wState t \<noteq> InProgress
      then Inl (Wrap (''contract cannot change in state '' @ state_name (wState t)) ErrTransition)
      else if cuActorID u \<noteq> wCreatorID t then Inl (Errorf ''only the task creator may revise its contract'')
      else case validateContract (cuRequirements u) (cuScope u) (cuStopConditions u) (cuGate u) of Some err \<Rightarrow> Inl err
      | None \<Rightarrow> Inr (t\<lparr>wRequirements := cuRequirements u, wScope := cuScope u, wStopConditions := cuStopConditions u,
                      wGate := cuGate u, wContractRevision := wContractRevision t + 1\<rparr>))"

definition ReviseContract :: "env \<Rightarrow> string \<Rightarrow> ContractUpdate \<Rightarrow> workStore \<Rightarrow> (go_error + WTask) \<times> workStore" where
  "ReviseContract e taskID u0 s =
     (let u = u0\<lparr>cuRequirements := normalizeRequirements (cuRequirements u0), cuScope := normalizeScope (cuScope u0),
                cuStopConditions := normalizeStrings (cuStopConditions u0), cuGate := normalizeGate (cuGate u0)\<rparr> in
      mutateWork e taskID (cuOperationID u) ''revise_contract'' (cuExpectedRevision u) (contract_json u) (contractUpdate u) s)"

text \<open>\<open>AddArtifact\<close> does not go through \<open>mutate\<close>. It writes two files; \<open>aio\<close> is the outcome of the first write.\<close>

definition newArtifact :: "time \<Rightarrow> ArtifactInput \<Rightarrow> WTask \<Rightarrow> Artifact" where
  "newArtifact n input t =
     \<lparr>afSchemaVersion = SchemaVersion, afID = aiID input, afTaskID = wID t, afVersion = aiVersion input,
      afKind = aiKind input, afURI = aiURI input, afDigest = aiDigest input, afProducerID = aiOwnerID input,
      afCreatedAt = n\<rparr>"

definition storeArtifact :: "io \<Rightarrow> Artifact \<Rightarrow> Artifact dir \<Rightarrow> go_error option \<times> Artifact dir" where
  "storeArtifact aio a d =
     (case readArtifact (afID a) (afVersion a) d of
        Inr existing \<Rightarrow> (if existing \<noteq> a then Some (Errorf ''artifact version is immutable'') else None, d)
      | Inl err \<Rightarrow> if errors_Is err os_ErrNotExist then writeArtifact aio a d else (Some err, d))"

definition withArtifact :: "time \<Rightarrow> string \<Rightarrow> ArtifactInput \<Rightarrow> WTask \<Rightarrow> WTask" where
  "withArtifact n fingerprint input t =
     (let ref = \<lparr>arID = aiID input, arVersion = aiVersion input, arDigest = aiDigest input\<rparr> in
      t\<lparr>wArtifactRefs := (if containsArtifact (wArtifactRefs t) ref then wArtifactRefs t else wArtifactRefs t @ [ref]),
        wRevision := wRevision t + 1, wUpdatedAt := n,
        wOperations := wOperations t @ [\<lparr>woID = aiOperationID input, woAction = ''add_artifact'',
          woFingerprint = fingerprint, woRevision = wRevision t + 1, woCreatedAt = n\<rparr>]\<rparr>)"

definition AddArtifact :: "env \<Rightarrow> io \<Rightarrow> string \<Rightarrow> ArtifactInput \<Rightarrow> workStore \<Rightarrow> (go_error + WTask \<times> Artifact) \<times> workStore" where
  "AddArtifact e aio taskID input0 s =
     (let input = normalizeArtifactInput e input0 in
      if \<not> safeID (aiID input) \<or> aiVersion input = [] \<or> aiKind input = [] \<or> aiURI input = [] \<or> \<not> safeDigest (aiDigest input)
      then (Inl (Errorf ''artifact id, version, kind, uri, and sha256 digest are required''), s) else
      let fingerprint = semanticFingerprint ''add_artifact'' (artifact_json input) in
      (case readTask taskID (wsTasks s) of Inl err \<Rightarrow> (Inl err, s) | Inr t \<Rightarrow>
       if operationMatch (wOperations t) (aiOperationID input) fingerprint
       then (case readArtifact (aiID input) (aiVersion input) (wsArtifacts s) of
               Inl err \<Rightarrow> (Inl err, s) | Inr a \<Rightarrow> (Inr (t, a), s)) else
       if wRevision t \<noteq> aiExpectedRevision input then (Inl ErrConflict, s) else
       if wState t \<noteq> InProgress \<or> \<not> validClaim t (aiOwnerID input) (aiLeaseID input) (now e) then (Inl ErrLease, s) else
       let a = newArtifact (now e) input t in
       (case storeArtifact aio a (wsArtifacts s) of
          (Some err, af) \<Rightarrow> (Inl err, s\<lparr>wsArtifacts := af\<rparr>)
        | (None, af) \<Rightarrow>
            let t2 = withArtifact (now e) fingerprint input t in
            (case writeTask (wio e) t2 (wsTasks s) of
               (Some err, d') \<Rightarrow> (Inl err, s\<lparr>wsArtifacts := af, wsTasks := d'\<rparr>)
             | (None, d') \<Rightarrow> (Inr (t2, a), s\<lparr>wsArtifacts := af, wsTasks := d'\<rparr>)))))"

definition submitUpdate :: "string \<Rightarrow> string \<Rightarrow> Handoff \<Rightarrow> WTask dir \<Rightarrow> time \<Rightarrow> WTask \<Rightarrow> go_error + WTask" where
  "submitUpdate ownerID leaseID handoff d n t =
     (if wState t \<noteq> InProgress then Inl (transition (wState t) InReview)
      else if \<not> validClaim t ownerID leaseID n then Inl ErrLease
      else if hContractRevision handoff \<noteq> wContractRevision t \<or> hAuthorID handoff \<noteq> ownerID
      then Inl (Errorf ''handoff must bind the current contract revision and active owner'')
      else case validateHandoff t handoff of Some err \<Rightarrow> Inl err
      | None \<Rightarrow>
          (case children (wID t) d of Inl err \<Rightarrow> Inl err
           | Inr kids \<Rightarrow>
               (case find (\<lambda>c. wState c \<noteq> Done \<and> wState c \<noteq> Closed) kids of
                  Some c \<Rightarrow> Inl (Wrap (''child task '' @ wID c @ '' is '' @ state_name (wState c)) ErrTransition)
                | None \<Rightarrow> Inr (t\<lparr>wSubmissions := wSubmissions t @ [handoff\<lparr>hCreatedAt := n\<rparr>], wState := InReview,
                                 wClaim := None\<rparr>))))"

definition SubmitWork :: "env \<Rightarrow> string \<Rightarrow> string \<Rightarrow> string \<Rightarrow> string \<Rightarrow> int \<Rightarrow> Handoff \<Rightarrow> workStore
    \<Rightarrow> (go_error + WTask) \<times> workStore" where
  "SubmitWork e taskID operationID ownerID leaseID expectedRevision handoff0 s =
     (let handoff = normalizeHandoff handoff0 in
      mutateWork e taskID operationID ''submit'' expectedRevision (submit_json ownerID leaseID handoff)
        (submitUpdate ownerID leaseID handoff (wsTasks s)) s)"

definition reviewUpdate :: "GateResult \<Rightarrow> time \<Rightarrow> WTask \<Rightarrow> go_error + WTask" where
  "reviewUpdate result n t =
     (if wState t \<noteq> InReview \<or> wSubmissions t = [] then Inl (transition (wState t) Done)
      else if grReviewerID result \<noteq> gReviewerID (wGate t) then Inl (Errorf ''gate result came from the wrong reviewer'')
      else if grDecision result \<noteq> GatePass \<and> grDecision result \<noteq> GateReject \<and> grDecision result \<noteq> GateNeedsHuman
      then Inl (Errorf ''invalid gate decision'')
      else if \<not> sameArtifactSet (hArtifacts (last (wSubmissions t))) (grArtifactVersion result)
      then Inl (Errorf ''gate result artifact versions do not match the submitted handoff'')
      else if grEvidence result = [] \<or> grReason result = [] then Inl (Errorf ''gate result requires evidence and reason'')
      else let t1 = t\<lparr>wReviews := wReviews t @ [result\<lparr>grCreatedAt := n\<rparr>]\<rparr> in
        Inr (case grDecision result of
               GatePass \<Rightarrow> t1\<lparr>wState := Done\<rparr>
             | GateReject \<Rightarrow> t1\<lparr>wState := InProgress, wClaim := None\<rparr>
             | _ \<Rightarrow> t1\<lparr>wState := InReview\<rparr>))"

definition ReviewWork :: "env \<Rightarrow> string \<Rightarrow> string \<Rightarrow> int \<Rightarrow> GateResult \<Rightarrow> workStore \<Rightarrow> (go_error + WTask) \<times> workStore" where
  "ReviewWork e taskID operationID expectedRevision result0 s =
     (let result = normalizeGateResult result0 in
      mutateWork e taskID operationID ''review'' expectedRevision (gate_result_json result) (reviewUpdate result) s)"

definition closeUpdate :: "string \<Rightarrow> string \<Rightarrow> time \<Rightarrow> WTask \<Rightarrow> go_error + WTask" where
  "closeUpdate actorID reason n t =
     (if wState t = Done \<or> wState t = Closed then Inl (transition (wState t) Closed)
      else if actorID \<noteq> wCreatorID t \<or> reason = []
      then Inl (Errorf ''only the creator may close an open task with a reason'')
      else Inr (t\<lparr>wState := Closed, wClosedReason := reason, wClaim := None\<rparr>))"

definition CloseWork :: "env \<Rightarrow> string \<Rightarrow> string \<Rightarrow> string \<Rightarrow> string \<Rightarrow> int \<Rightarrow> workStore \<Rightarrow> (go_error + WTask) \<times> workStore" where
  "CloseWork e taskID operationID actorID reason0 expectedRevision s =
     (let reason = TrimSpace reason0 in
      mutateWork e taskID operationID ''close'' expectedRevision (close_json actorID reason) (closeUpdate actorID reason) s)"

end
