(* ===== verification/WorkHistory.thy ===== *)
theory WorkHistory
  imports WorkItem
begin

text \<open>
  What the product task store guarantees: the multiset that \<open>sameArtifactSet\<close> compares, the effect of every operation on
  the task's file, and from it the history of a task over any sequence of calls: operations, submissions and reviews
  are only appended, a task that ended never changes, and a done task was passed by the reviewer of its gate.
\<close>

section \<open>Helper functions\<close>

lemma count_up: "foldl (\<lambda>counts r. counts(r := counts r + 1)) c xs = (\<lambda>r. c r + int (count (mset xs) r))"
  by (induction xs arbitrary: c) (auto simp: fun_eq_iff)

lemma count_down_iff:
  assumes "\<And>r. 0 \<le> c r"
  shows "count_down c xs = (if \<forall>r. int (count (mset xs) r) \<le> c r then Some (\<lambda>r. c r - int (count (mset xs) r)) else None)"
  using assms
proof (induction xs arbitrary: c)
  case Nil
  then show ?case by simp
next
  case (Cons x xs)
  let ?c = "c(x := c x - 1)"
  show ?case
  proof (cases "c x = 0")
    case True
    have "\<not> (\<forall>r. int (count (mset (x # xs)) r) \<le> c r)" using True by (intro notI) (auto dest!: spec [of _ x])
    with True show ?thesis by (simp add: Let_def)
  next
    case False
    have "0 \<le> ?c r" for r using Cons.prems [of r] False Cons.prems [of x] by auto
    from Cons.IH [OF this] have "count_down ?c xs =
      (if \<forall>r. int (count (mset xs) r) \<le> ?c r then Some (\<lambda>r. ?c r - int (count (mset xs) r)) else None)" .
    moreover have "(\<forall>r. int (count (mset xs) r) \<le> ?c r) \<longleftrightarrow> (\<forall>r. int (count (mset (x # xs)) r) \<le> c r)"
      by (auto split: if_splits)
    moreover have "(\<lambda>r. ?c r - int (count (mset xs) r)) = (\<lambda>r. c r - int (count (mset (x # xs)) r))"
      by (auto simp: fun_eq_iff)
    moreover have "0 \<le> c x - 1" using False Cons.prems [of x] by simp
    ultimately show ?thesis by (simp add: Let_def)
  qed
qed

lemma sameArtifactSet_mset: "sameArtifactSet xs ys \<longleftrightarrow> mset xs = mset ys"
proof (cases "length xs = length ys")
  case True
  have "sameArtifactSet xs ys \<longleftrightarrow> (\<forall>r. count (mset ys) r \<le> count (mset xs) r) \<and>
      (\<forall>r\<in>set (xs @ ys). count (mset xs) r = count (mset ys) r)"
    using True by (auto simp: sameArtifactSet_def count_up count_down_iff list_all_iff)
  also have "\<dots> \<longleftrightarrow> mset xs = mset ys"
    unfolding multiset_eq_iff by (metis (no_types, lifting) Un_iff count_mset_0_iff le_refl set_append)
  finally show ?thesis .
next
  case False
  then show ?thesis by (auto simp: sameArtifactSet_def dest: mset_eq_length)
qed

lemma containsArtifact_set [simp]: "containsArtifact xs r \<longleftrightarrow> r \<in> set xs"
  by (auto simp: containsArtifact_def list_ex_iff)

lemma scan_handoff_None:
  "scan_handoff attached seen rs = None \<longleftrightarrow>
     list_all validArtifactRef rs \<and> distinct rs \<and> set rs \<inter> set seen = {} \<and> set rs \<subseteq> set attached"
  by (induction rs arbitrary: seen) auto

lemma validateHandoff_None:
  "validateHandoff t h = None \<Longrightarrow> hArtifacts h \<noteq> [] \<and> hEvidence h \<noteq> [] \<and> distinct (hArtifacts h) \<and>
     set (hArtifacts h) \<subseteq> set (wArtifactRefs t) \<and> length (gRequiredEvidence (wGate t)) \<le> length (hEvidence h)"
  by (auto simp: validateHandoff_def scan_handoff_None split: if_splits option.splits)

lemma operationMatch_find:
  "operationMatch xs i fp \<longleftrightarrow> (\<exists>x. find_op woID i xs = Some x \<and> woFingerprint x = fp)"
  by (induction xs) (auto simp: find_op_def)

lemma validateTask_safe: "validateTask t = None \<Longrightarrow> safeID (wID t)"
  by (auto simp: validateTask_def split: if_splits)

lemma validateTask_ledger:
  "validateTask t = None \<Longrightarrow> ledger_ok operation_ok woID woRevision (wOperations t) \<and> wOperations t \<noteq> []
     \<and> wRevision t = int (length (wOperations t))"
  by (auto simp: validateTask_def ledger_ok_last split: if_splits option.splits)

lemma taskPath_inj [simp]: "taskPath i = taskPath j \<longleftrightarrow> i = j"
  by (simp add: taskPath_def)

lemma readTask_Inr:
  "readTask i d = Inr t \<longleftrightarrow> safeID i \<and> readJSON d (taskPath i) = Inr t \<and> validateTask t = None"
  by (auto simp: readTask_def split: sum.splits option.splits)

lemma writeTask_valid: "validateTask t = None \<Longrightarrow> writeTask i t d = atomicWrite i (taskPath (wID t)) t d"
  by (cases i) (auto simp: writeTask_def atomicWrite_def readTask_def readJSON_update validateTask_safe)

lemma writeTask_dir: "writeTask i t d = (err, d') \<Longrightarrow> d' = d \<or> d' = AList.update (taskPath (wID t)) (Record t) d"
  by (cases i) (auto simp: writeTask_def atomicWrite_def split: sum.splits if_splits)

lemma writeTask_ok:
  "writeTask i t d = (None, d') \<Longrightarrow> validateTask t = None \<and> d' = AList.update (taskPath (wID t)) (Record t) d"
  by (cases i) (auto simp: writeTask_def atomicWrite_def readTask_Inr readJSON_update split: sum.splits if_splits)

section \<open>The ledger of a task\<close>

definition mk_operation :: "string \<Rightarrow> string \<Rightarrow> string \<Rightarrow> int \<Rightarrow> time \<Rightarrow> WOperation" where
  "mk_operation action i fp r t = \<lparr>woID = i, woAction = action, woFingerprint = fp, woRevision = r, woCreatedAt = t\<rparr>"

interpretation wol: op_ledger woID woFingerprint woRevision operation_ok mk_operation "\<lambda>action. action \<noteq> []"
  by unfold_locales (auto simp: mk_operation_def operation_ok_def)

definition commitTask :: "string \<Rightarrow> string \<Rightarrow> string \<Rightarrow> time \<Rightarrow> WTask \<Rightarrow> WTask" where
  "commitTask i action fp n t = t\<lparr>wRevision := wRevision t + 1, wUpdatedAt := n,
     wOperations := wOperations t @ [mk_operation action i fp (wRevision t + 1) n]\<rparr>"

text \<open>What \<open>validateTask\<close> asks of the fields that an update changes.\<close>

definition content_ok :: "WTask \<Rightarrow> bool" where
  "content_ok t \<longleftrightarrow> wState t \<in> {Todo, InProgress, InReview, Done, Closed} \<and> wContractRevision t > 0 \<and>
     optionalID (wAssigneeID t) \<and> validateContract (wRequirements t) (wScope t) (wStopConditions t) (wGate t) = None \<and>
     claim_ok (wClaim t) \<and> scan_unique validArtifactRef id [] (wArtifactRefs t)"

definition same_task :: "WTask \<Rightarrow> WTask \<Rightarrow> bool" where
  "same_task t u \<longleftrightarrow> wSchemaVersion u = wSchemaVersion t \<and> wID u = wID t \<and> wWorkspaceID u = wWorkspaceID t \<and>
     wChannelID u = wChannelID t \<and> wThreadID u = wThreadID t \<and> wParentTaskID u = wParentTaskID t \<and>
     wCreatorID u = wCreatorID t \<and> wTitle u = wTitle t \<and> wObjective u = wObjective t \<and> wCreatedAt u = wCreatedAt t"

lemma commit_valid:
  assumes "validateTask t = None" and "same_task t t1" and "wOperations t1 = wOperations t" and "wRevision t1 = wRevision t"
    and "content_ok t1" and "safeID i" and "find_op woID i (wOperations t) = None" and "action \<noteq> []" and "n \<noteq> 0"
    and "safeDigest fp"
  shows "validateTask (commitTask i action fp n t1) = None"
proof -
  have led: "ledger_ok operation_ok woID woRevision (wOperations t)" "wOperations t \<noteq> []"
    "wRevision t = int (length (wOperations t))"
    using validateTask_ledger [OF assms(1)] by auto
  from wol.commit_ok [OF led(1) assms(7) assms(8) assms(6) assms(10) assms(9)]
  have "ledger_ok operation_ok woID woRevision (wOperations t @ [mk_operation action i fp (wRevision t + 1) n])"
    by (simp add: led(3))
  with assms show ?thesis
    by (auto simp: validateTask_def content_ok_def same_task_def commitTask_def mk_operation_def split: if_splits option.splits)
qed

section \<open>The effect of an operation on the task's file\<close>

lemma mutateWork_commit:
  assumes "cerr e = None" and "safeID tid" and "safeID op" and "er > 0" and "readTask tid (wsTasks s) = Inr t"
    and "find_op woID op (wOperations t) = None" and "wRevision t = er" and "upd (now e) t = Inr t1"
    and "u = commitTask op action (semanticFingerprint action sem) (now e) t1"
  shows "mutateWork e tid op action er sem upd s =
    (case validateTask u of Some err \<Rightarrow> (Inl err, s)
     | None \<Rightarrow> (case atomicWrite (wio e) (taskPath (wID t1)) u (wsTasks s) of
           (Some err, d') \<Rightarrow> (Inl err, s\<lparr>wsTasks := d'\<rparr>) | (None, d') \<Rightarrow> (Inr u, s\<lparr>wsTasks := d'\<rparr>)))"
proof -
  have m: "\<not> operationMatch (wOperations t) op (semanticFingerprint action sem)"
    using assms(6) by (auto simp: operationMatch_find)
  have u: "t1\<lparr>wRevision := wRevision t1 + 1, wUpdatedAt := now e, wOperations := wOperations t1 @
        [\<lparr>woID = op, woAction = action, woFingerprint = semanticFingerprint action sem, woRevision = wRevision t1 + 1,
          woCreatedAt = now e\<rparr>]\<rparr> = u" by (simp add: assms(9) commitTask_def mk_operation_def)
  have w: "wID u = wID t1" by (simp add: assms(9) commitTask_def)
  have "mutateWork e tid op action er sem upd s =
    (case validateTask u of Some err \<Rightarrow> (Inl err, s)
     | None \<Rightarrow> (case writeTask (wio e) u (wsTasks s) of
           (Some err, d') \<Rightarrow> (Inl err, s\<lparr>wsTasks := d'\<rparr>) | (None, d') \<Rightarrow> (Inr u, s\<lparr>wsTasks := d'\<rparr>)))"
    using assms(1-8) m by (simp add: mutateWork_def Let_def u del: safeID.simps)
  then show ?thesis by (auto simp: writeTask_valid w split: option.splits)
qed

text \<open>Either nothing changes and a success is a replay, or one operation is committed.\<close>

lemma mutateWork_cases:
  assumes "mutateWork e tid op action er sem upd s = (r, s')"
  obtains (unchanged) "s' = s" and "\<And>v. r = Inr v \<Longrightarrow>
      readTask tid (wsTasks s) = Inr v \<and> operationMatch (wOperations v) op (semanticFingerprint action sem)"
  | (committed) t t1 where "readTask tid (wsTasks s) = Inr t" and "find_op woID op (wOperations t) = None"
      and "wRevision t = er" and "upd (now e) t = Inr t1" and "cerr e = None" and "safeID op"
      and "validateTask (commitTask op action (semanticFingerprint action sem) (now e) t1) = None"
      and "s' = s\<lparr>wsTasks := AList.update (taskPath (wID t1))
            (Record (commitTask op action (semanticFingerprint action sem) (now e) t1)) (wsTasks s)\<rparr>"
      and "\<And>v. r = Inr v \<Longrightarrow> v = commitTask op action (semanticFingerprint action sem) (now e) t1"
proof (cases "\<exists>t t1. cerr e = None \<and> safeID tid \<and> safeID op \<and> er > 0 \<and> readTask tid (wsTasks s) = Inr t \<and>
    find_op woID op (wOperations t) = None \<and> wRevision t = er \<and> upd (now e) t = Inr t1")
  case True
  then obtain t t1 where t: "cerr e = None" "safeID tid" "safeID op" "er > 0" "readTask tid (wsTasks s) = Inr t"
    "find_op woID op (wOperations t) = None" "wRevision t = er" "upd (now e) t = Inr t1" by blast
  let ?u = "commitTask op action (semanticFingerprint action sem) (now e) t1"
  note m = mutateWork_commit [where tid = tid and op = op and er = er and upd = upd, OF t refl, of action sem, unfolded assms]
  show thesis
  proof (cases "validateTask ?u = None \<and> wio e \<noteq> Io_early")
    case True
    with m have r: "r = (if wio e = Io_ok then Inr ?u else Inl IOError)"
      and s': "s' = s\<lparr>wsTasks := AList.update (taskPath (wID t1)) (Record ?u) (wsTasks s)\<rparr>"
      by (cases "wio e"; simp add: atomicWrite_def)+
    from True have v: "validateTask ?u = None" by simp
    show thesis
    proof (rule committed [OF t(5-8,1,3) v s'])
      fix v assume "r = Inr v"
      with r show "v = ?u" by (simp split: if_splits)
    qed
  next
    case False
    with m have "s' = s \<and> (\<forall>v. r \<noteq> Inr v)" by (auto simp: atomicWrite_def split: option.splits)
    then show thesis using unchanged by blast
  qed
next
  case False
  then have "s' = s \<and> (\<forall>v. r = Inr v \<longrightarrow>
      readTask tid (wsTasks s) = Inr v \<and> operationMatch (wOperations v) op (semanticFingerprint action sem))"
    using assms by (auto simp: mutateWork_def Let_def split: sum.splits option.splits if_splits)
  then show thesis using unchanged by blast
qed

section \<open>The contract of a task\<close>

text \<open>A task in review or done has a latest submission made under its current contract, of artifacts attached to it; a done
  task was last reviewed by the reviewer of its gate, who passed exactly the submitted artifacts.\<close>

definition submission_bound :: "WTask \<Rightarrow> bool" where
  "submission_bound t \<longleftrightarrow> wSubmissions t \<noteq> [] \<and> hContractRevision (last (wSubmissions t)) = wContractRevision t \<and>
     hArtifacts (last (wSubmissions t)) \<noteq> [] \<and> set (hArtifacts (last (wSubmissions t))) \<subseteq> set (wArtifactRefs t)"

definition gate_passed :: "WTask \<Rightarrow> bool" where
  "gate_passed t \<longleftrightarrow> wReviews t \<noteq> [] \<and> grDecision (last (wReviews t)) = GatePass \<and>
     grReviewerID (last (wReviews t)) = gReviewerID (wGate t) \<and>
     mset (grArtifactVersion (last (wReviews t))) = mset (hArtifacts (last (wSubmissions t))) \<and>
     grEvidence (last (wReviews t)) \<noteq> [] \<and> grReason (last (wReviews t)) \<noteq> []"

definition reviewed :: "WTask \<Rightarrow> bool" where
  "reviewed t \<longleftrightarrow> (wState t \<in> {InReview, Done} \<longrightarrow> submission_bound t) \<and> (wState t = Done \<longrightarrow> gate_passed t)"

text \<open>\<open>u\<close> is a later version of \<open>t\<close>.\<close>

definition work_le :: "WTask \<Rightarrow> WTask \<Rightarrow> bool" where
  "work_le t u \<longleftrightarrow> same_task t u \<and> prefix (wOperations t) (wOperations u) \<and> prefix (wSubmissions t) (wSubmissions u) \<and>
     prefix (wReviews t) (wReviews u) \<and> prefix (wArtifactRefs t) (wArtifactRefs u) \<and>
     wContractRevision t \<le> wContractRevision u \<and> (work_terminal (wState t) \<longrightarrow> u = t)"

lemma same_task_refl [simp]: "same_task t t"
  by (simp add: same_task_def)

lemma work_le_refl [simp]: "work_le t t"
  by (simp add: work_le_def)

lemma work_le_trans: "work_le t u \<Longrightarrow> work_le u v \<Longrightarrow> work_le t v"
  by (auto simp: work_le_def same_task_def intro: prefix_order.trans)

text \<open>What every update function of the store does to a task it accepts.\<close>

definition update_ok :: "(time \<Rightarrow> WTask \<Rightarrow> go_error + WTask) \<Rightarrow> bool" where
  "update_ok upd \<longleftrightarrow> (\<forall>n t t1. upd n t = Inr t1 \<longrightarrow> \<not> work_terminal (wState t) \<and> work_le t t1 \<and>
     wOperations t1 = wOperations t \<and> wRevision t1 = wRevision t \<and> (reviewed t \<longrightarrow> reviewed t1))"

named_theorems updates \<open>the update functions of the store are well behaved\<close>

lemma claimUpdate_ok [updates]: "update_ok (claimUpdate owner lease ttl)"
  by (auto simp: update_ok_def claimUpdate_def work_le_def same_task_def work_terminal_def reviewed_def
      split: if_splits option.splits)

lemma renewUpdate_ok [updates]: "update_ok (renewUpdate owner lease ttl)"
  by (auto simp: update_ok_def renewUpdate_def work_le_def same_task_def work_terminal_def reviewed_def
      split: if_splits)

lemma contractUpdate_ok [updates]: "update_ok (contractUpdate u)"
  by (auto simp: update_ok_def contractUpdate_def work_le_def same_task_def work_terminal_def reviewed_def
      split: if_splits option.splits)

lemma closeUpdate_ok [updates]: "update_ok (closeUpdate actor reason)"
  by (auto simp: update_ok_def closeUpdate_def work_le_def same_task_def work_terminal_def reviewed_def
      split: if_splits)

lemma submitUpdate_result:
  assumes "submitUpdate owner lease h d n t = Inr t1"
  shows "wState t = InProgress" and "validClaim t owner lease n" and "hContractRevision h = wContractRevision t"
    and "validateHandoff t h = None"
    and "t1 = t\<lparr>wSubmissions := wSubmissions t @ [h\<lparr>hCreatedAt := n\<rparr>], wState := InReview, wClaim := None\<rparr>"
    and "\<exists>kids. children (wID t) d = Inr kids \<and> (\<forall>c\<in>set kids. work_terminal (wState c))"
  using assms
  by (auto simp: submitUpdate_def find_None_iff work_terminal_def split: if_splits option.splits sum.splits)

lemma submitUpdate_ok [updates]: "update_ok (submitUpdate owner lease h d)"
  unfolding update_ok_def
proof (intro allI impI)
  fix n t t1 assume u: "submitUpdate owner lease h d n t = Inr t1"
  note r = submitUpdate_result [OF u]
  from validateHandoff_None [OF r(4)] have "submission_bound t1"
    by (auto simp: r(5) submission_bound_def r(3))
  then show "\<not> work_terminal (wState t) \<and> work_le t t1 \<and> wOperations t1 = wOperations t \<and> wRevision t1 = wRevision t \<and>
      (reviewed t \<longrightarrow> reviewed t1)"
    using r(1) by (auto simp: r(5) reviewed_def work_le_def same_task_def work_terminal_def)
qed

lemma reviewUpdate_ok [updates]: "update_ok (reviewUpdate result)"
  by (auto simp: update_ok_def reviewUpdate_def Let_def work_le_def same_task_def work_terminal_def reviewed_def
      submission_bound_def gate_passed_def sameArtifactSet_mset split: if_splits GateDecision.splits)

lemma commit_le:
  assumes "update_ok upd" and "upd n t = Inr t1"
  shows "work_le t (commitTask op action fp n t1)" and "wID (commitTask op action fp n t1) = wID t"
    and "reviewed t \<Longrightarrow> reviewed (commitTask op action fp n t1)"
proof -
  from assms have "\<not> work_terminal (wState t)" "work_le t t1" "wOperations t1 = wOperations t" "reviewed t \<longrightarrow> reviewed t1"
    unfolding update_ok_def by blast+
  then show "work_le t (commitTask op action fp n t1)" "wID (commitTask op action fp n t1) = wID t"
    "reviewed t \<Longrightarrow> reviewed (commitTask op action fp n t1)"
    by (auto simp: work_le_def commitTask_def same_task_def reviewed_def submission_bound_def gate_passed_def)
qed

section \<open>Histories of the store\<close>

definition work_inv :: "workStore \<Rightarrow> bool" where
  "work_inv s \<longleftrightarrow> (\<forall>i t. readJSON (wsTasks s) (taskPath i) = Inr t \<longrightarrow> wID t = i \<and> reviewed t)"

definition store_le :: "workStore \<Rightarrow> workStore \<Rightarrow> bool" where
  "store_le s s' \<longleftrightarrow> (\<forall>i t. readJSON (wsTasks s) (taskPath i) = Inr t \<longrightarrow>
     (\<exists>u. readJSON (wsTasks s') (taskPath i) = Inr u \<and> work_le t u))"

lemma store_le_refl [simp]: "store_le s s"
  by (auto simp: store_le_def intro: work_le_refl)

lemma store_le_trans: "store_le a b \<Longrightarrow> store_le b c \<Longrightarrow> store_le a c"
  unfolding store_le_def by (meson work_le_trans)

lemma put_work_step:
  assumes "work_inv s" and "readJSON (wsTasks s) (taskPath i) = Inr t \<and> work_le t u \<or>
      readJSON (wsTasks s) (taskPath i) = Inl err" and "wID u = i" and "reviewed u"
    and "wsTasks s' = AList.update (taskPath i) (Record u) (wsTasks s)"
  shows "work_inv s' \<and> store_le s s'"
  using assms by (auto simp: work_inv_def store_le_def readJSON_update)

lemma mutateWork_step:
  assumes "update_ok upd" and "work_inv s" and "mutateWork e tid op action er sem upd s = (r, s')"
  shows "work_inv s' \<and> store_le s s' \<and> wsArtifacts s' = wsArtifacts s"
  using assms(3)
proof (cases rule: mutateWork_cases)
  case unchanged
  with assms(2) show ?thesis by simp
next
  case (committed t t1)
  from committed(1) have t: "readJSON (wsTasks s) (taskPath tid) = Inr t" by (simp add: readTask_Inr)
  with assms(2) have i: "wID t = tid" "reviewed t" by (auto simp: work_inv_def)
  note le = commit_le [OF assms(1) committed(4), of op action "semanticFingerprint action sem"]
  have "wID t1 = wID t" using le(2) by (simp add: commitTask_def)
  with put_work_step [OF assms(2) disjI1 [OF conjI [OF t le(1)]]] le i committed(8) show ?thesis by simp
qed

lemma validateContract_error: "validateContract a b c d = Some err \<Longrightarrow> \<not> errors_Is err os_ErrNotExist"
  by (simp add: validateContract_def split: if_splits) fastforce+

lemma validateTask_error: "validateTask t = Some err \<Longrightarrow> \<not> errors_Is err os_ErrNotExist"
  using validateContract_error [of "wRequirements t" "wScope t" "wStopConditions t" "wGate t" err]
  by (cases "validateContract (wRequirements t) (wScope t) (wStopConditions t) (wGate t)")
    (auto simp: validateTask_def simp del: safeID.simps split: if_splits)

lemma readTask_missing:
  "readTask i d = Inl err \<Longrightarrow> errors_Is err os_ErrNotExist \<Longrightarrow> readJSON d (taskPath i) = Inl err"
  by (cases "readJSON d (taskPath i)") (auto simp: readTask_def dest: validateTask_error split: if_splits option.splits)

text \<open>\<open>Create\<close> after the normalisation of its input.\<close>

definition createInput :: "env \<Rightarrow> WCreate \<Rightarrow> WCreate" where
  "createInput e c = normalizeCreate (if cID c = [] then c\<lparr>cID := newID ''work'' (ent e 0)\<rparr> else c)"

definition createdTask :: "env \<Rightarrow> WCreate \<Rightarrow> WTask" where
  "createdTask e c = newWork (now e) (semanticFingerprint ''create'' (create_json (createInput e c))) (createInput e c)"

lemma CreateWork_cases:
  assumes "CreateWork e c s = (r, s')"
  obtains (unchanged) "s' = s" and "\<And>v. r = Inr v \<Longrightarrow> readTask (cID (createInput e c)) (wsTasks s) = Inr v"
  | (created) err where "readTask (cID (createInput e c)) (wsTasks s) = Inl err" and "errors_Is err os_ErrNotExist"
      and "checkParent (createInput e c) (wsTasks s) = None"
      and "s' = s\<lparr>wsTasks := snd (writeTask (wio e) (createdTask e c) (wsTasks s))\<rparr>"
      and "\<And>v. r = Inr v \<Longrightarrow> v = createdTask e c \<and> fst (writeTask (wio e) (createdTask e c) (wsTasks s)) = None"
proof -
  have "s' = s \<and> (\<forall>v. r = Inr v \<longrightarrow> readTask (cID (createInput e c)) (wsTasks s) = Inr v) \<or> (\<exists>err. readTask (cID (createInput e c)) (wsTasks s) = Inl err \<and> errors_Is err os_ErrNotExist \<and>
      checkParent (createInput e c) (wsTasks s) = None \<and>
      s' = s\<lparr>wsTasks := snd (writeTask (wio e) (createdTask e c) (wsTasks s))\<rparr> \<and>
      (\<forall>v. r = Inr v \<longrightarrow> v = createdTask e c \<and> fst (writeTask (wio e) (createdTask e c) (wsTasks s)) = None))"
  proof (cases "\<exists>err. cerr e = None \<and> validateCreate (createInput e c) = None \<and>
      readTask (cID (createInput e c)) (wsTasks s) = Inl err \<and> errors_Is err os_ErrNotExist \<and>
      checkParent (createInput e c) (wsTasks s) = None")
    case True
    then obtain err where err: "cerr e = None" "validateCreate (createInput e c) = None"
      "readTask (cID (createInput e c)) (wsTasks s) = Inl err" "errors_Is err os_ErrNotExist"
      "checkParent (createInput e c) (wsTasks s) = None" by blast
    with assms have "s' = s\<lparr>wsTasks := snd (writeTask (wio e) (createdTask e c) (wsTasks s))\<rparr> \<and>
        (\<forall>v. r = Inr v \<longrightarrow> v = createdTask e c \<and> fst (writeTask (wio e) (createdTask e c) (wsTasks s)) = None)"
      by (cases "writeTask (wio e) (createdTask e c) (wsTasks s)")
        (simp add: CreateWork_def createInput_def [symmetric] createdTask_def [symmetric] Let_def, auto simp: createdTask_def split: option.splits)
    with err show ?thesis by blast
  next
    case False
    with assms have "s' = s \<and> (\<forall>v. r = Inr v \<longrightarrow> readTask (cID (createInput e c)) (wsTasks s) = Inr v)"
      by (cases "readTask (cID (createInput e c)) (wsTasks s)")
        (auto simp: CreateWork_def createInput_def [symmetric] createdTask_def [symmetric] Let_def
          split: option.splits if_splits)
    then show ?thesis ..
  qed
  then show thesis using unchanged created by blast
qed

lemma CreateWork_step:
  assumes "work_inv s" and "CreateWork e c s = (r, s')"
  shows "work_inv s' \<and> store_le s s'"
  using assms(2)
proof (cases rule: CreateWork_cases)
  case (created err)
  have u: "wID (createdTask e c) = cID (createInput e c)" "reviewed (createdTask e c)"
    by (simp_all add: createdTask_def newWork_def reviewed_def)
  from writeTask_dir [OF prod.collapse [symmetric], of "wio e" "createdTask e c" "wsTasks s"]
  show ?thesis
  proof
    assume "snd (writeTask (wio e) (createdTask e c) (wsTasks s)) = wsTasks s"
    with created(4) assms(1) show ?thesis by simp
  next
    assume "snd (writeTask (wio e) (createdTask e c) (wsTasks s)) =
      AList.update (taskPath (wID (createdTask e c))) (Record (createdTask e c)) (wsTasks s)"
    with put_work_step [OF assms(1) disjI2 [OF readTask_missing [OF created(1,2)]] u] created(4) u(1)
    show ?thesis by simp
  qed
qed (simp add: assms(1))

text \<open>\<open>AddArtifact\<close> leaves the tasks alone or appends to the task.\<close>

lemma AddArtifact_cases:
  assumes "AddArtifact e aio tid input s = (r, s')"
  obtains (unchanged) "wsTasks s' = wsTasks s"
  | (appended) t u where "readTask tid (wsTasks s) = Inr t" and "wState t = InProgress" and "work_le t u"
      and "wState u = InProgress" and "wID u = wID t" and "wsTasks s' = AList.update (taskPath (wID t)) (Record u) (wsTasks s)"
proof (cases "wsTasks s' = wsTasks s")
  case True
  then show thesis by (rule unchanged)
next
  case False
  let ?in = "normalizeArtifactInput e input"
  from False assms obtain t where t: "readTask tid (wsTasks s) = Inr t"
    by (auto simp: AddArtifact_def Let_def split: sum.splits if_splits)
  define u where "u = withArtifact (now e) (semanticFingerprint ''add_artifact'' (artifact_json ?in)) ?in t"
  have "wState t = InProgress \<and> (\<exists>err d'. writeTask (wio e) u (wsTasks s) = (err, d') \<and> wsTasks s' = d')"
    using assms False t unfolding u_def
    by (auto simp: AddArtifact_def Let_def split: sum.splits if_splits prod.splits option.splits)
  then have "wState t = InProgress" "wsTasks s' = AList.update (taskPath (wID t)) (Record u) (wsTasks s)"
    using False by (auto dest!: writeTask_dir simp: u_def withArtifact_def Let_def)
  moreover from this have "work_le t u" "wState u = InProgress" "wID u = wID t"
    by (auto simp: u_def withArtifact_def Let_def work_le_def same_task_def work_terminal_def)
  ultimately show thesis using appended [OF t] by blast
qed

lemma AddArtifact_step:
  assumes "work_inv s" and "AddArtifact e aio tid input s = (r, s')"
  shows "work_inv s' \<and> store_le s s'"
  using assms(2)
proof (cases rule: AddArtifact_cases)
  case unchanged
  with assms(1) show ?thesis by (simp add: work_inv_def store_le_def)
next
  case (appended t u)
  from appended(1) have t: "readJSON (wsTasks s) (taskPath tid) = Inr t" by (simp add: readTask_Inr)
  with assms(1) have i: "wID t = tid" by (simp add: work_inv_def)
  have "reviewed u" using appended(4) by (simp add: reviewed_def)
  with put_work_step [OF assms(1) disjI1 [OF conjI [OF t appended(3)]]] appended i show ?thesis by simp
qed

section \<open>Calls\<close>

text \<open>The operations that go through \<open>mutate\<close>, as requests: task, operation id and arguments.\<close>

datatype work_req =
    RClaim string string string string int duration
  | RRenew string string string string int duration
  | RRevise string ContractUpdate
  | RSubmit string string string string int Handoff
  | RReview string string int GateResult
  | RClose string string string string int

fun do_req :: "work_req \<Rightarrow> env \<Rightarrow> workStore \<Rightarrow> (go_error + WTask) \<times> workStore" where
  "do_req (RClaim i op owner lease er ttl) e s = ClaimWork e i op owner lease er ttl s"
| "do_req (RRenew i op owner lease er ttl) e s = RenewWork e i op owner lease er ttl s"
| "do_req (RRevise i u) e s = ReviseContract e i u s"
| "do_req (RSubmit i op owner lease er h) e s = SubmitWork e i op owner lease er h s"
| "do_req (RReview i op er res) e s = ReviewWork e i op er res s"
| "do_req (RClose i op actor reason er) e s = CloseWork e i op actor reason er s"

text \<open>The task, the operation id, the expected revision and the fingerprint of a request that names its lease.\<close>

fun req_task :: "work_req \<Rightarrow> string" where
  "req_task (RClaim i op owner lease er ttl) = i"
| "req_task (RRenew i op owner lease er ttl) = i"
| "req_task (RRevise i u) = i"
| "req_task (RSubmit i op owner lease er h) = i"
| "req_task (RReview i op er res) = i"
| "req_task (RClose i op actor reason er) = i"

fun req_op :: "work_req \<Rightarrow> string" where
  "req_op (RClaim i op owner lease er ttl) = op"
| "req_op (RRenew i op owner lease er ttl) = op"
| "req_op (RRevise i u) = cuOperationID u"
| "req_op (RSubmit i op owner lease er h) = op"
| "req_op (RReview i op er res) = op"
| "req_op (RClose i op actor reason er) = op"

fun req_revision :: "work_req \<Rightarrow> int" where
  "req_revision (RClaim i op owner lease er ttl) = er"
| "req_revision (RRenew i op owner lease er ttl) = er"
| "req_revision (RRevise i u) = cuExpectedRevision u"
| "req_revision (RSubmit i op owner lease er h) = er"
| "req_revision (RReview i op er res) = er"
| "req_revision (RClose i op actor reason er) = er"

fun names_lease :: "work_req \<Rightarrow> bool" where
  "names_lease (RClaim i op owner lease er ttl) = (lease \<noteq> [])"
| "names_lease _ = True"

definition normalizeUpdate :: "ContractUpdate \<Rightarrow> ContractUpdate" where
  "normalizeUpdate u = u\<lparr>cuRequirements := normalizeRequirements (cuRequirements u), cuScope := normalizeScope (cuScope u),
     cuStopConditions := normalizeStrings (cuStopConditions u), cuGate := normalizeGate (cuGate u)\<rparr>"

fun req_fingerprint :: "work_req \<Rightarrow> string" where
  "req_fingerprint (RClaim i op owner lease er ttl) = semanticFingerprint ''claim'' (lease_json owner lease ttl)"
| "req_fingerprint (RRenew i op owner lease er ttl) = semanticFingerprint ''renew'' (lease_json owner lease ttl)"
| "req_fingerprint (RRevise i u) = semanticFingerprint ''revise_contract'' (contract_json (normalizeUpdate u))"
| "req_fingerprint (RSubmit i op owner lease er h) =
     semanticFingerprint ''submit'' (submit_json owner lease (normalizeHandoff h))"
| "req_fingerprint (RReview i op er res) = semanticFingerprint ''review'' (gate_result_json (normalizeGateResult res))"
| "req_fingerprint (RClose i op actor reason er) = semanticFingerprint ''close'' (close_json actor (TrimSpace reason))"

lemma do_req_mutate:
  obtains (refused) err where "do_req r e s = (Inl err, s)"
  | (mutates) action sem upd where "do_req r e s = mutateWork e (req_task r) (req_op r) action (req_revision r) sem upd s"
      and "update_ok upd" and "names_lease r \<Longrightarrow> semanticFingerprint action sem = req_fingerprint r"
proof (cases r)
  case (RClaim i op owner lease er ttl)
  let ?l = "if lease = [] then newID ''lease'' (ent e 0) else lease"
  show thesis
  proof (cases "ttl \<le> 0 \<or> ttl > 24 * Hour")
    case False
    then have "do_req r e s = mutateWork e (req_task r) (req_op r) ''claim'' (req_revision r) (lease_json owner ?l ttl)
        (claimUpdate owner ?l ttl) s" by (simp add: RClaim ClaimWork_def Let_def)
    from mutates [OF this claimUpdate_ok] show thesis by (simp add: RClaim)
  qed (use refused in \<open>simp add: RClaim ClaimWork_def\<close>)
next
  case (RRenew i op owner lease er ttl)
  show thesis
  proof (cases "ttl \<le> 0 \<or> ttl > 24 * Hour")
    case False
    then have "do_req r e s = mutateWork e (req_task r) (req_op r) ''renew'' (req_revision r) (lease_json owner lease ttl)
        (renewUpdate owner lease ttl) s" by (simp add: RRenew RenewWork_def)
    from mutates [OF this renewUpdate_ok] show thesis by (simp add: RRenew)
  qed (use refused in \<open>simp add: RRenew RenewWork_def\<close>)
next
  case (RRevise i u)
  have "do_req r e s = mutateWork e (req_task r) (req_op r) ''revise_contract'' (req_revision r)
      (contract_json (normalizeUpdate u)) (contractUpdate (normalizeUpdate u)) s"
    by (simp add: RRevise ReviseContract_def Let_def normalizeUpdate_def)
  from mutates [OF this contractUpdate_ok] show thesis by (simp add: RRevise)
next
  case (RSubmit i op owner lease er h)
  have "do_req r e s = mutateWork e (req_task r) (req_op r) ''submit'' (req_revision r)
      (submit_json owner lease (normalizeHandoff h)) (submitUpdate owner lease (normalizeHandoff h) (wsTasks s)) s"
    by (simp add: RSubmit SubmitWork_def Let_def)
  from mutates [OF this submitUpdate_ok] show thesis by (simp add: RSubmit)
next
  case (RReview i op er res)
  have "do_req r e s = mutateWork e (req_task r) (req_op r) ''review'' (req_revision r)
      (gate_result_json (normalizeGateResult res)) (reviewUpdate (normalizeGateResult res)) s"
    by (simp add: RReview ReviewWork_def Let_def)
  from mutates [OF this reviewUpdate_ok] show thesis by (simp add: RReview)
next
  case (RClose i op actor reason er)
  have "do_req r e s = mutateWork e (req_task r) (req_op r) ''close'' (req_revision r) (close_json actor (TrimSpace reason))
      (closeUpdate actor (TrimSpace reason)) s"
    by (simp add: RClose CloseWork_def Let_def)
  from mutates [OF this closeUpdate_ok] show thesis by (simp add: RClose)
qed

datatype work_call = WCreateCall env WCreate | WReq work_req env | WAdd env io string ArtifactInput

fun do_work :: "work_call \<Rightarrow> workStore \<Rightarrow> unit \<times> workStore" where
  "do_work (WCreateCall e c) s = ((), snd (CreateWork e c s))"
| "do_work (WReq r e) s = ((), snd (do_req r e s))"
| "do_work (WAdd e aio i input) s = ((), snd (AddArtifact e aio i input s))"

lemma do_req_step: "work_inv s \<Longrightarrow> work_inv (snd (do_req r e s)) \<and> store_le s (snd (do_req r e s))"
  by (cases r e s rule: do_req_mutate) (auto dest: mutateWork_step [OF _ _ prod.collapse [symmetric]])

lemma do_work_step: "work_inv s \<Longrightarrow> work_inv (snd (do_work c s)) \<and> store_le s (snd (do_work c s))"
  using do_req_step CreateWork_step [OF _ prod.collapse [symmetric]] AddArtifact_step [OF _ prod.collapse [symmetric]]
  by (cases c) auto

lemma work_history: "work_inv s \<Longrightarrow> work_inv (run_steps do_work cs s) \<and> store_le s (run_steps do_work cs s)"
proof (induction cs arbitrary: s)
  case (Cons c cs)
  from do_work_step [OF Cons.prems, of c] Cons.IH [of "snd (do_work c s)"] show ?case by (auto intro: store_le_trans)
qed simp

section \<open>Requests take effect at most once\<close>

definition recorded_req :: "work_req \<Rightarrow> workStore \<Rightarrow> bool" where
  "recorded_req r s \<longleftrightarrow> (\<exists>t. readTask (req_task r) (wsTasks s) = Inr t \<and>
     operationMatch (wOperations t) (req_op r) (req_fingerprint r))"

lemma commitTask_match: "find_op woID op (wOperations t1) = None \<Longrightarrow> operationMatch (wOperations (commitTask op action fp n t1)) op fp"
  by (simp add: commitTask_def operationMatch_find wol.commit_found)

lemma committed_read:
  assumes "work_inv s" and "readTask i (wsTasks s) = Inr t" and "update_ok upd" and "upd n t = Inr t1"
    and "validateTask (commitTask op action fp n t1) = None"
    and "s' = s\<lparr>wsTasks := AList.update (taskPath (wID t1)) (Record (commitTask op action fp n t1)) (wsTasks s)\<rparr>"
  shows "readTask i (wsTasks s') = Inr (commitTask op action fp n t1)" and "wOperations t1 = wOperations t"
    and "wRevision t1 = wRevision t" and "wID t1 = i"
proof -
  have "wID t = i" using assms(1,2) by (auto simp: readTask_Inr work_inv_def)
  moreover have "wID t1 = wID t" using commit_le(2) [OF assms(3,4), of op action fp] by (simp add: commitTask_def)
  ultimately show "wID t1 = i" by simp
  with assms(2,5,6) show "readTask i (wsTasks s') = Inr (commitTask op action fp n t1)"
    by (simp add: readTask_Inr readJSON_update)
  show "wOperations t1 = wOperations t" "wRevision t1 = wRevision t" using assms(3,4) unfolding update_ok_def by blast+
qed

lemma do_req_replay:
  assumes "names_lease r" and "recorded_req r s"
  shows "snd (do_req r e s) = s"
proof (cases r e s rule: do_req_mutate)
  case (mutates action sem upd)
  obtain x s' where m: "mutateWork e (req_task r) (req_op r) action (req_revision r) sem upd s = (x, s')" by fastforce
  from m have "s' = s"
  proof (cases rule: mutateWork_cases)
    case (committed t t1)
    with assms(2) show ?thesis by (auto simp: recorded_req_def operationMatch_find)
  qed
  with m mutates show ?thesis by simp
qed simp

lemma do_req_effect:
  assumes "names_lease r" and "work_inv s" and "do_req r e s = (x, s')"
  shows "(s' = s \<or> recorded_req r s') \<and> ((\<exists>v. x = Inr v) \<longrightarrow> recorded_req r s')"
proof (cases r e s rule: do_req_mutate)
  case (mutates action sem upd)
  from mutates(1) assms(3) have m: "mutateWork e (req_task r) (req_op r) action (req_revision r) sem upd s = (x, s')" by simp
  from mutates(3) [OF assms(1)] have fp: "semanticFingerprint action sem = req_fingerprint r" .
  from m show ?thesis
  proof (cases rule: mutateWork_cases)
    case unchanged
    with fp show ?thesis by (auto simp: recorded_req_def)
  next
    case (committed t t1)
    note c = committed_read [OF assms(2) committed(1) mutates(2) committed(4,7,8)]
    have "find_op woID (req_op r) (wOperations t1) = None" using committed(2) c(2) by simp
    with c(1) commitTask_match [of "req_op r" t1] have "recorded_req r s'" unfolding recorded_req_def fp [symmetric] by blast
    then show ?thesis by simp
  qed
qed (use assms(3) in auto)

interpretation work: at_most_once "do_req r" "recorded_req r" "\<lambda>s. names_lease r \<and> work_inv s" for r
proof
  fix s e assume "names_lease r \<and> work_inv s" and "recorded_req r s"
  then show "snd (do_req r e s) = s" by (simp add: do_req_replay)
next
  fix s e assume "names_lease r \<and> work_inv s" and "\<not> recorded_req r s"
  then show "snd (do_req r e s) = s \<or> recorded_req r (snd (do_req r e s))"
    using do_req_effect [OF _ _ prod.collapse [symmetric]] by blast
next
  fix s e v assume "names_lease r \<and> work_inv s" and "fst (do_req r e s) = Inr v"
  then show "recorded_req r (snd (do_req r e s))" using do_req_effect [OF _ _ prod.collapse [symmetric]] by blast
next
  fix s e assume "names_lease r \<and> work_inv s"
  then show "names_lease r \<and> work_inv (snd (do_req r e s))" using do_req_step by blast
qed

section \<open>A concrete store\<close>

definition demo_ref :: ArtifactRef where
  "demo_ref = \<lparr>arID = ''a1'', arVersion = ''1'', arDigest = replicate 64 (CHR ''0'')\<rparr>"

definition demo_handoff :: Handoff where
  "demo_handoff = \<lparr>hContractRevision = 1, hAuthorID = ''dev'', hSummary = ''x'', hDecisions = [], hEvidence = [''x''],
     hArtifacts = [demo_ref], hRemaining = [], hRisks = [], hNextAction = ''x'', hCreatedAt = 0\<rparr>"

definition demo_review :: GateResult where
  "demo_review = \<lparr>grDecision = GatePass, grReviewerID = ''lead'', grArtifactVersion = [demo_ref], grEvidence = [''x''],
     grReason = ''x'', grCreatedAt = 0\<rparr>"

definition demo_gate :: GateSpec where
  "demo_gate = \<lparr>gKind = GateHuman, gReviewerID = ''lead'', gChecks = [''x''], gRequiredEvidence = [''x''], gOnReject = ''x''\<rparr>"

definition demo_fp :: string where
  "demo_fp = semanticFingerprint ''create'' JNull"

definition demo_work :: "WState \<Rightarrow> WTask" where
  "demo_work st = \<lparr>wSchemaVersion = 2, wID = ''k1'', wWorkspaceID = ''w'', wChannelID = ''c'', wThreadID = [], wParentTaskID = [],
     wCreatorID = ''boss'', wTitle = ''x'', wObjective = ''x'', wState = st, wRevision = 1, wContractRevision = 1,
     wRequirements = [\<lparr>rqID = ''r1'', rqText = ''x''\<rparr>], wScope = \<lparr>scAllow = [''x''], scDeny = []\<rparr>, wStopConditions = [''x''],
     wAssigneeID = ''dev'', wClaim = (if st = InProgress then Some \<lparr>wcOwnerID = ''dev'', wcLeaseID = ''l1'', wcExpiresAt = 200\<rparr> else None),
     wGate = demo_gate, wArtifactRefs = [demo_ref], wSubmissions = (if st = InReview \<or> st = Done then [demo_handoff] else []),
     wReviews = (if st = Done then [demo_review] else []), wClosedReason = [],
     wOperations = [\<lparr>woID = ''op1'', woAction = ''create'', woFingerprint = demo_fp, woRevision = 1, woCreatedAt = 1\<rparr>],
     wCreatedAt = 1, wUpdatedAt = 1\<rparr>"

definition demo_store :: "WState \<Rightarrow> workStore" where
  "demo_store st = \<lparr>wsTasks = [(taskPath ''k1'', Record (demo_work st))], wsArtifacts = []\<rparr>"

lemma demo_fp_digest [simp]: "safeDigest demo_fp"
  by (simp add: demo_fp_def)

lemma demo_ref_valid [simp]: "validArtifactRef demo_ref"
  by (simp add: validArtifactRef_def demo_ref_def safeDigest_def char_eval list_all_iff)

lemma demo_gate_valid: "validateContract [\<lparr>rqID = ''r1'', rqText = ''x''\<rparr>] \<lparr>scAllow = [''x''], scDeny = []\<rparr> [''x''] demo_gate = None"
  by (simp add: validateContract_def demo_gate_def char_eval)

lemma demo_work_valid [simp]: "st \<in> {Todo, InProgress, InReview, Done, Closed} \<Longrightarrow> validateTask (demo_work st) = None"
  by (auto simp: validateTask_def demo_work_def demo_gate_valid SchemaVersion_def optionalID_def claim_ok_def ledger_ok_def
      operation_ok_def char_eval)

lemma demo_store_read [simp]:
  "readJSON (wsTasks (demo_store st)) (taskPath i) = (if i = ''k1'' then Inr (demo_work st) else Inl os_ErrNotExist)"
  by (simp add: demo_store_def readJSON_def)

lemma safe_k1 [simp]: "safeID ''k1''"
  by (simp add: char_eval)

lemma demo_store_task: "st \<in> {Todo, InProgress, InReview, Done, Closed} \<Longrightarrow>
    readTask ''k1'' (wsTasks (demo_store st)) = Inr (demo_work st)"
  by (simp add: readTask_Inr del: safeID.simps)

lemma demo_store_inv [simp]: "work_inv (demo_store st)"
  by (auto simp: work_inv_def demo_work_def reviewed_def submission_bound_def gate_passed_def demo_handoff_def demo_review_def
      demo_gate_def split: if_splits)

text \<open>A request on the concrete task succeeds as soon as its update does.\<close>

lemma demo_commit:
  assumes "st \<in> {Todo, InProgress, InReview, Done, Closed}" and "upd 100 (demo_work st) = Inr t1"
    and "same_task (demo_work st) t1" and "wOperations t1 = wOperations (demo_work st)" and "wRevision t1 = 1" and "content_ok t1"
    and "action \<noteq> []" and "u = commitTask ''op2'' action (semanticFingerprint action sem) 100 t1"
    and "readTask ''k1'' (wsTasks s) = Inr (demo_work st)"
  shows "mutateWork demo_env ''k1'' ''op2'' action 1 sem upd s =
    (Inr u, s\<lparr>wsTasks := AList.update (taskPath ''k1'') (Record u) (wsTasks s)\<rparr>)"
proof -
  have rev: "wRevision (demo_work st) = 1" by (simp add: demo_work_def)
  have op: "find_op woID ''op2'' (wOperations (demo_work st)) = None" by (simp add: demo_work_def find_op_def)
  have e: "cerr demo_env = None" "now demo_env = 100" "wio demo_env = Io_ok" by (simp_all add: demo_env_def)
  have safe: "safeID ''op2''" by (simp add: char_eval)
  have "validateTask u = None" unfolding assms(8)
    by (rule commit_valid [OF demo_work_valid [OF assms(1)] assms(3,4) _ assms(6) safe op assms(7)])
      (simp_all add: assms(5) rev)
  moreover have "wID t1 = ''k1''" using assms(3) by (simp add: same_task_def demo_work_def)
  ultimately show ?thesis
    using mutateWork_commit [OF e(1) safe_k1 safe zero_less_one assms(9) op rev, of upd t1] assms(2,8) e
    by (simp add: atomicWrite_ok)
qed

lemma trim_x: "TrimSpace ''x'' = ''x''"
  by (rule TrimSpace_safeID) (simp add: char_eval)

lemma demo_review_normal [simp]: "normalizeGateResult demo_review = demo_review"
proof -
  have "TrimSpace ''lead'' = ''lead''" by (rule TrimSpace_safeID) (simp add: char_eval)
  then show ?thesis by (simp add: normalizeGateResult_def demo_review_def normalizeStrings_def trim_x)
qed

definition demo_done :: WTask where
  "demo_done = commitTask ''op2'' ''review'' (semanticFingerprint ''review'' (gate_result_json demo_review)) 100
     ((demo_work InReview)\<lparr>wReviews := [demo_review\<lparr>grCreatedAt := 100\<rparr>], wState := Done\<rparr>)"

lemma demo_done_valid: "validateTask demo_done = None"
proof -
  have "safeID ''op2''" by (simp add: char_eval)
  then show ?thesis unfolding demo_done_def
    by (intro commit_valid [OF demo_work_valid [of InReview]])
      (simp_all add: demo_work_def same_task_def content_ok_def optionalID_def demo_gate_valid claim_ok_def find_op_def char_eval)
qed

lemma demo_pass_on:
  assumes "readTask ''k1'' (wsTasks s) = Inr (demo_work InReview)"
  shows "ReviewWork demo_env ''k1'' ''op2'' 1 demo_review s =
    (Inr demo_done, s\<lparr>wsTasks := AList.update (taskPath ''k1'') (Record demo_done) (wsTasks s)\<rparr>)"
proof -
  have "reviewUpdate demo_review 100 (demo_work InReview) =
      Inr ((demo_work InReview)\<lparr>wReviews := [demo_review\<lparr>grCreatedAt := 100\<rparr>], wState := Done\<rparr>)"
    by (simp add: reviewUpdate_def demo_work_def demo_review_def demo_handoff_def demo_gate_def sameArtifactSet_mset)
  from demo_commit [where upd = "reviewUpdate demo_review", OF _ this, of "''review''" demo_done "gate_result_json demo_review" s] assms
  show ?thesis
    by (simp add: ReviewWork_def Let_def demo_done_def)
      (simp add: demo_work_def same_task_def content_ok_def optionalID_def demo_gate_valid claim_ok_def char_eval)
qed

lemma demo_pass:
  "ReviewWork demo_env ''k1'' ''op2'' 1 demo_review (demo_store InReview) =
    (Inr demo_done, (demo_store InReview)\<lparr>wsTasks := AList.update (taskPath ''k1'') (Record demo_done) (wsTasks (demo_store InReview))\<rparr>)"
  by (rule demo_pass_on) (simp add: demo_store_task)

section \<open>Creation and artifacts, forwards\<close>

lemma newWork_valid:
  "validateCreate c = None \<Longrightarrow> n \<noteq> 0 \<Longrightarrow> safeDigest fp \<Longrightarrow> validateTask (newWork n fp c) = None"
  by (auto simp: validateCreate_def validateTask_def newWork_def SchemaVersion_def claim_ok_def ledger_ok_def operation_ok_def
      split: if_splits)

lemma CreateWork_success:
  assumes "cerr e = None" and "validateCreate (createInput e c) = None" and "now e \<noteq> 0" and "wio e = Io_ok"
    and "readTask (cID (createInput e c)) (wsTasks s) = Inl os_ErrNotExist" and "checkParent (createInput e c) (wsTasks s) = None"
  shows "CreateWork e c s = (Inr (createdTask e c),
    s\<lparr>wsTasks := AList.update (taskPath (cID (createInput e c))) (Record (createdTask e c)) (wsTasks s)\<rparr>)"
proof -
  have v: "validateTask (createdTask e c) = None" using assms(2,3) by (simp add: createdTask_def newWork_valid)
  have i: "wID (createdTask e c) = cID (createInput e c)" by (simp add: createdTask_def newWork_def)
  from assms have "CreateWork e c s = (case writeTask (wio e) (createdTask e c) (wsTasks s) of
      (Some err', d') \<Rightarrow> (Inl err', s\<lparr>wsTasks := d'\<rparr>) | (None, d') \<Rightarrow> (Inr (createdTask e c), s\<lparr>wsTasks := d'\<rparr>))"
    by (simp add: CreateWork_def createInput_def [symmetric] Let_def createdTask_def split: prod.splits option.splits)
  with assms(4) show ?thesis by (simp add: writeTask_valid [OF v] atomicWrite_def i)
qed

definition accepted_artifact :: "ArtifactInput \<Rightarrow> bool" where
  "accepted_artifact a \<longleftrightarrow> safeID (aiID a) \<and> safeID (aiVersion a) \<and> aiKind a \<noteq> [] \<and> aiURI a \<noteq> [] \<and> safeDigest (aiDigest a)"

text \<open>A new artifact version that passes the checks is stored first, then the task is written.\<close>

lemma AddArtifact_run:
  assumes "readTask i (wsTasks s) = Inr t" and "wState t = InProgress" and "wRevision t = aiExpectedRevision input"
    and "validClaim t (aiOwnerID input) (aiLeaseID input) (now e)" and "accepted_artifact (normalizeArtifactInput e input)"
    and "readArtifact (aiID (normalizeArtifactInput e input)) (aiVersion (normalizeArtifactInput e input)) (wsArtifacts s) = Inl os_ErrNotExist"
    and "fp = semanticFingerprint ''add_artifact'' (artifact_json (normalizeArtifactInput e input))"
    and "\<not> operationMatch (wOperations t) (aiOperationID input) fp"
    and "a = newArtifact (now e) (normalizeArtifactInput e input) t"
    and "u = withArtifact (now e) fp (normalizeArtifactInput e input) t"
  shows "AddArtifact e Io_ok i input s =
    (case writeTask (wio e) u (wsTasks s) of
       (Some err, d') \<Rightarrow> (Inl err, s\<lparr>wsArtifacts := AList.update (artifactPath (afID a) (afVersion a)) (Record a) (wsArtifacts s), wsTasks := d'\<rparr>)
     | (None, d') \<Rightarrow> (Inr (u, a), s\<lparr>wsArtifacts := AList.update (artifactPath (afID a) (afVersion a)) (Record a) (wsArtifacts s), wsTasks := d'\<rparr>))"
proof -
  let ?in = "normalizeArtifactInput e input"
  have fields: "aiOwnerID ?in = aiOwnerID input" "aiLeaseID ?in = aiLeaseID input" "aiOperationID ?in = aiOperationID input"
    "aiExpectedRevision ?in = aiExpectedRevision input" by (simp_all add: normalizeArtifactInput_def Let_def)
  have acc: "safeID (aiID ?in)" "safeID (aiVersion ?in)" "aiVersion ?in \<noteq> []" "aiKind ?in \<noteq> []" "aiURI ?in \<noteq> []" "safeDigest (aiDigest ?in)"
    using assms(5) safeID_nonempty by (auto simp: accepted_artifact_def)
  have a: "afID a = aiID ?in" "afVersion a = aiVersion ?in" "afDigest a = aiDigest ?in" "afSchemaVersion a = SchemaVersion"
    by (simp_all add: assms(9) newArtifact_def)
  have st: "storeArtifact Io_ok a (wsArtifacts s) =
      (None, AList.update (artifactPath (afID a) (afVersion a)) (Record a) (wsArtifacts s))"
    using acc assms(6) by (simp add: storeArtifact_def a writeArtifact_def atomicWrite_def readArtifact_def [of _ _ "AList.update _ _ _"]
        readJSON_update del: safeID.simps)
  show ?thesis
    using assms(1-4,8) acc st unfolding assms(10)
    by (simp add: AddArtifact_def fields Let_def assms(9) [symmetric] assms(7) [symmetric] del: safeID.simps split: option.splits)
qed

end
