(* ===== verification/WorkProps.thy ===== *)
theory WorkProps
  imports WorkHistory
begin

text \<open>
  The properties of the product task store, over the lemmas of \<open>WorkHistory\<close>: what a done task proves, its append-only history,
  optimistic concurrency, leases, submission, and the defects of \<open>AddArtifact\<close> and of the review of a task with children.
\<close>

section \<open>The contract of a done task\<close>

text \<open>C4. Whatever calls the store serves, with whatever write failures, a task that reads as done was submitted under its
  current contract with attached artifacts only, and its last review is a pass by the reviewer of its gate for exactly
  the submitted artifact versions, with evidence and a reason.\<close>

theorem done_was_passed:
  assumes "work_inv s" and "readTask i (wsTasks (run_steps do_work cs s)) = Inr t" and "wState t = Done"
  shows "submission_bound t \<and> gate_passed t"
proof -
  from work_history [OF assms(1)] have "work_inv (run_steps do_work cs s)" by blast
  with assms(2,3) show ?thesis by (auto simp: readTask_Inr work_inv_def reviewed_def)
qed

theorem done_was_passed_witness:
  "submission_bound demo_done \<and> gate_passed demo_done"
proof -
  have "readTask ''k1'' (wsTasks (run_steps do_work [WReq (RReview ''k1'' ''op2'' 1 demo_review) demo_env] (demo_store InReview))) = Inr demo_done"
    using demo_pass by (simp add: readTask_Inr readJSON_update demo_done_valid del: safeID.simps)
  from done_was_passed [OF demo_store_inv this] show ?thesis by (simp add: demo_done_def commitTask_def)
qed

text \<open>C5. Over any sequence of calls a task keeps its identity, its operations, submissions, reviews and artifact references are
  only appended to, its contract revision never decreases, and once done or closed it does not change at all.\<close>

theorem work_append_only:
  assumes "work_inv s" and "readTask i (wsTasks s) = Inr t"
  shows "\<exists>u. readJSON (wsTasks (run_steps do_work cs s)) (taskPath i) = Inr u \<and> work_le t u"
  using work_history [OF assms(1), of cs] assms(2) by (auto simp: readTask_Inr store_le_def)

theorem work_append_only_witness:
  "readJSON (wsTasks (run_steps do_work [WReq (RClose ''k1'' ''op2'' ''boss'' ''x'' 1) demo_env,
     WReq (RReview ''k1'' ''op3'' 1 demo_review) demo_env] (demo_store Done))) (taskPath ''k1'') = Inr (demo_work Done)"
proof -
  have "readTask ''k1'' (wsTasks (demo_store Done)) = Inr (demo_work Done)" by (simp add: demo_store_task)
  from work_append_only [OF demo_store_inv this, of "[WReq (RClose ''k1'' ''op2'' ''boss'' ''x'' 1) demo_env,
     WReq (RReview ''k1'' ''op3'' 1 demo_review) demo_env]"]
  show ?thesis by (auto simp: work_le_def work_terminal_def demo_work_def)
qed

section \<open>Optimistic concurrency\<close>

text \<open>C6. A request that succeeds was recorded before, with the same meaning, and then nothing changes, or it found the task at the
  revision it expected, and then it advances the revision by one, appends its own operation to the ledger and touches
  no other task.\<close>

theorem work_request_commits:
  assumes "work_inv s" and "names_lease r" and "do_req r e s = (Inr v, s')"
  shows "(s' = s \<and> readTask (req_task r) (wsTasks s) = Inr v \<and> operationMatch (wOperations v) (req_op r) (req_fingerprint r)) \<or>
    (\<exists>t action. readTask (req_task r) (wsTasks s) = Inr t \<and> wRevision t = req_revision r \<and> wRevision v = wRevision t + 1 \<and>
       wOperations v = wOperations t @ [mk_operation action (req_op r) (req_fingerprint r) (wRevision v) (now e)] \<and>
       readTask (req_task r) (wsTasks s') = Inr v \<and>
       (\<forall>j. j \<noteq> req_task r \<longrightarrow> readTask j (wsTasks s') = readTask j (wsTasks s)))"
proof (cases r e s rule: do_req_mutate)
  case (refused err)
  with assms(3) show ?thesis by simp
next
  case (mutates action sem upd)
  from mutates(3) [OF assms(2)] have fp: "semanticFingerprint action sem = req_fingerprint r" .
  from mutates(1) assms(3) have "mutateWork e (req_task r) (req_op r) action (req_revision r) sem upd s = (Inr v, s')" by simp
  then show ?thesis
  proof (cases rule: mutateWork_cases)
    case unchanged
    with fp show ?thesis by simp
  next
    case (committed t t1)
    note c = committed_read [OF assms(1) committed(1) mutates(2) committed(4,7,8)]
    have v: "v = commitTask (req_op r) action (req_fingerprint r) (now e) t1" using committed(9) fp by simp
    have "readTask j (wsTasks s') = readTask j (wsTasks s)" if "j \<noteq> req_task r" for j
      using that by (simp add: committed(8) c(4) readTask_def readJSON_update)
    moreover have "wRevision v = wRevision t + 1"
      "wOperations v = wOperations t @ [mk_operation action (req_op r) (req_fingerprint r) (wRevision v) (now e)]"
      by (simp_all add: v commitTask_def c(2,3))
    ultimately show ?thesis using committed(1,3) c(1) v fp by (intro disjI2 exI [of _ t] exI [of _ action]) simp
  qed
qed

theorem work_request_commits_witness:
  "\<exists>action. wOperations demo_done = wOperations (demo_work InReview) @
     [mk_operation action ''op2'' (req_fingerprint (RReview ''k1'' ''op2'' 1 demo_review)) 2 100]"
proof -
  have r: "do_req (RReview ''k1'' ''op2'' 1 demo_review) demo_env (demo_store InReview) =
    (Inr demo_done, (demo_store InReview)\<lparr>wsTasks := AList.update (taskPath ''k1'') (Record demo_done) (wsTasks (demo_store InReview))\<rparr>)"
    using demo_pass by simp
  have t: "readTask ''k1'' (wsTasks (demo_store InReview)) = Inr (demo_work InReview)" by (simp add: demo_store_task)
  have "wRevision demo_done = 2" "wRevision (demo_work InReview) = 1" by (simp_all add: demo_done_def commitTask_def demo_work_def)
  moreover from this have "demo_done \<noteq> demo_work InReview" by auto
  ultimately show ?thesis using work_request_commits [OF demo_store_inv _ r] t by (auto simp: demo_env_def)
qed

text \<open>C8. However often one request is retried, with whatever write failures in between, the store goes through at most one
  change, and once one attempt has reported success the request is in the task's ledger.\<close>

theorem work_request_at_most_once:
  assumes "work_inv s" and "names_lease r"
  shows "(\<exists>s'. \<forall>k. run_steps (do_req r) (take k es) s \<in> {s, s'}) \<and>
    (Inr v \<in> set (outcomes (do_req r) es s) \<longrightarrow> recorded_req r (run_steps (do_req r) es s))"
  using work.one_effect work.success_recorded assms by blast

theorem work_request_at_most_once_witness:
  "recorded_req (RReview ''k1'' ''op2'' 1 demo_review)
     (run_steps (do_req (RReview ''k1'' ''op2'' 1 demo_review)) [demo_env, demo_env] (demo_store InReview))"
proof -
  have "Inr demo_done \<in> set (outcomes (do_req (RReview ''k1'' ''op2'' 1 demo_review)) [demo_env, demo_env] (demo_store InReview))"
    using demo_pass by simp
  moreover have "names_lease (RReview ''k1'' ''op2'' 1 demo_review)" by simp
  ultimately show ?thesis using work_request_at_most_once [OF demo_store_inv] by blast
qed

section \<open>Leases\<close>

lemma mutateWork_update_fails:
  assumes "readTask i (wsTasks s) = Inr t" and "find_op woID op (wOperations t) = None" and "\<exists>err. upd (now e) t = Inl err"
  shows "\<exists>err. mutateWork e i op action er sem upd s = (Inl err, s)"
proof -
  obtain x s' where m: "mutateWork e i op action er sem upd s = (x, s')" by fastforce
  then have "s' = s \<and> (\<exists>err. x = Inl err)"
  proof (cases rule: mutateWork_cases)
    case unchanged
    with assms(1,2) show ?thesis by (cases x) (auto simp: operationMatch_find)
  next
    case (committed t t1)
    with assms show ?thesis by simp
  qed
  with m show ?thesis by auto
qed

text \<open>C7. While the lease of a task in progress lasts, nobody can claim it, and whoever does not present that owner and lease
  can neither renew the lease, attach an artifact nor submit: the store is left as it was.\<close>

theorem lease_excludes:
  assumes "readTask i (wsTasks s) = Inr t" and "wState t = InProgress" and "wClaim t = Some c" and "now e < wcExpiresAt c"
    and "find_op woID op (wOperations t) = None" and "(owner, lease) \<noteq> (wcOwnerID c, wcLeaseID c)"
    and "aiOperationID input = op" and "aiOwnerID input = owner" and "aiLeaseID input = lease"
  shows "(\<exists>err. ClaimWork e i op anyone anylease er ttl s = (Inl err, s)) \<and>
    (\<exists>err. RenewWork e i op owner lease er ttl s = (Inl err, s)) \<and>
    (\<exists>err. SubmitWork e i op owner lease er h s = (Inl err, s)) \<and>
    (\<exists>err. AddArtifact e aio i input s = (Inl err, s))"
proof -
  have v: "\<not> validClaim t owner lease (now e)" using assms(3,6) by (auto simp: validClaim_def)
  have "\<exists>err. claimUpdate anyone l ttl (now e) t = Inl err" for l
    using assms(2-4) by (simp add: claimUpdate_def)
  then have "\<exists>err. ClaimWork e i op anyone anylease er ttl s = (Inl err, s)"
    using mutateWork_update_fails [OF assms(1,5)] by (simp add: ClaimWork_def Let_def)
  moreover have "\<exists>err. renewUpdate owner lease ttl (now e) t = Inl err" using v by (simp add: renewUpdate_def)
  then have "\<exists>err. RenewWork e i op owner lease er ttl s = (Inl err, s)"
    using mutateWork_update_fails [OF assms(1,5)] by (simp add: RenewWork_def)
  moreover have "\<exists>err. submitUpdate owner lease (normalizeHandoff h) (wsTasks s) (now e) t = Inl err"
    using v assms(2) by (simp add: submitUpdate_def)
  then have "\<exists>err. SubmitWork e i op owner lease er h s = (Inl err, s)"
    using mutateWork_update_fails [OF assms(1,5)] by (simp add: SubmitWork_def Let_def)
  moreover have "\<not> operationMatch (wOperations t) op fp" for fp using assms(5) by (simp add: operationMatch_find)
  then have "\<exists>err. AddArtifact e aio i input s = (Inl err, s)"
    using assms(1,7-9) v by (auto simp: AddArtifact_def normalizeArtifactInput_def Let_def)
  ultimately show ?thesis by blast
qed

theorem lease_excludes_witness:
  "\<exists>err. SubmitWork demo_env ''k1'' ''op2'' ''eve'' ''l1'' 1 demo_handoff (demo_store InProgress) = (Inl err, demo_store InProgress)"
  using lease_excludes [of "''k1''" "demo_store InProgress" "demo_work InProgress"
      "\<lparr>wcOwnerID = ''dev'', wcLeaseID = ''l1'', wcExpiresAt = 200\<rparr>" demo_env "''op2''" "''eve''" "''l1''"
      "\<lparr>aiOperationID = ''op2'', aiExpectedRevision = 1, aiOwnerID = ''eve'', aiLeaseID = ''l1'', aiID = ''a2'', aiVersion = ''1'',
        aiKind = ''x'', aiURI = ''x'', aiDigest = ''x''\<rparr>" _ _ 1 1 demo_handoff Io_ok]
  by (simp add: demo_store_task) (simp add: demo_work_def demo_env_def find_op_def)

section \<open>Submission and children\<close>

lemma readTaskFiles_in:
  "readTaskFiles d names = Inr ts \<Longrightarrow> taskPath j \<in> set names \<Longrightarrow> readTask j d = Inr c \<Longrightarrow> c \<in> set ts"
  by (induction names arbitrary: ts) (auto simp: taskPath_def suffix_def split: if_splits sum.splits)

lemma listWork_in:
  assumes "listWork d = Inr ts" and "readTask j d = Inr c"
  shows "c \<in> set ts"
proof -
  from assms(2) have "map_of d (taskPath j) = Some (Record c)" by (simp add: readTask_Inr readJSON_Inr)
  then have "taskPath j \<in> set (map fst (readDir d))" by (force dest: map_of_SomeD)
  with readTaskFiles_in assms show ?thesis unfolding listWork_def by blast
qed

text \<open>A submission that is accepted was made by the holder of a live lease in the state in progress, for the current
  contract, names attached artifacts only and enough evidence, and every child task has ended; the task is then in review
  without a lease, with the handoff as its latest submission.\<close>

theorem submit_accepts:
  assumes "work_inv s" and "SubmitWork e i op owner lease er h s = (Inr v, s')"
    and "readTask i (wsTasks s) = Inr t" and "find_op woID op (wOperations t) = None"
  shows "wState t = InProgress \<and> validClaim t owner lease (now e) \<and> hContractRevision h = wContractRevision t \<and>
    set (hArtifacts h) \<subseteq> set (wArtifactRefs t) \<and> length (gRequiredEvidence (wGate t)) \<le> length (hEvidence (normalizeHandoff h)) \<and>
    (\<forall>j c. readTask j (wsTasks s) = Inr c \<and> wParentTaskID c = i \<longrightarrow> work_terminal (wState c)) \<and>
    wState v = InReview \<and> wClaim v = None \<and> wSubmissions v = wSubmissions t @ [(normalizeHandoff h)\<lparr>hCreatedAt := now e\<rparr>]"
proof -
  let ?h = "normalizeHandoff h"
  have h: "hContractRevision ?h = hContractRevision h" "hArtifacts ?h = hArtifacts h"
    by (simp_all add: normalizeHandoff_def)
  have id: "wID t = i" using assms(1,3) by (auto simp: readTask_Inr work_inv_def)
  from assms(2) have "mutateWork e i op ''submit'' er (submit_json owner lease ?h) (submitUpdate owner lease ?h (wsTasks s)) s
      = (Inr v, s')" by (simp add: SubmitWork_def Let_def)
  then show ?thesis
  proof (cases rule: mutateWork_cases)
    case unchanged
    with assms(3,4) show ?thesis by (simp add: operationMatch_find)
  next
    case (committed t' t1)
    with assms(3) have u: "submitUpdate owner lease ?h (wsTasks s) (now e) t = Inr t1" by simp
    note r = submitUpdate_result [OF u]
    from r(6) id obtain kids where kids: "children i (wsTasks s) = Inr kids" "\<forall>c\<in>set kids. work_terminal (wState c)" by auto
    have "work_terminal (wState c)" if "readTask j (wsTasks s) = Inr c" "wParentTaskID c = i" for j c
      using kids that listWork_in [OF _ that(1)] by (auto simp: children_def split: sum.splits)
    then show ?thesis using committed(9) [OF refl] r(1-5) validateHandoff_None [OF r(4)] h by (auto simp: commitTask_def)
  qed
qed

lemma demo_handoff_normal: "normalizeHandoff demo_handoff = demo_handoff"
proof -
  have "TrimSpace ''dev'' = ''dev''" by (rule TrimSpace_safeID) (simp add: char_eval)
  then show ?thesis by (simp add: normalizeHandoff_def demo_handoff_def normalizeStrings_def trim_x)
qed

lemma demo_children: "st \<in> {Todo, InProgress, InReview, Done, Closed} \<Longrightarrow> children ''k1'' (wsTasks (demo_store st)) = Inr []"
  using demo_store_task [of st]
  by (simp add: children_def listWork_def readDir_def demo_store_def taskPath_def suffix_def) (simp add: demo_work_def)

theorem submit_accepts_witness:
  "\<exists>v s'. SubmitWork demo_env ''k1'' ''op2'' ''dev'' ''l1'' 1 demo_handoff (demo_store InProgress) = (Inr v, s') \<and>
     wState v = InReview \<and> wSubmissions v = [demo_handoff\<lparr>hCreatedAt := 100\<rparr>]"
proof -
  let ?t1 = "(demo_work InProgress)\<lparr>wSubmissions := [demo_handoff\<lparr>hCreatedAt := 100\<rparr>], wState := InReview, wClaim := None\<rparr>"
  have "submitUpdate ''dev'' ''l1'' demo_handoff (wsTasks (demo_store InProgress)) 100 (demo_work InProgress) = Inr ?t1"
    using demo_children [of InProgress]
    by (simp add: submitUpdate_def demo_work_def validClaim_def demo_handoff_def validateHandoff_def demo_gate_def)
  from demo_commit [where upd = "submitUpdate ''dev'' ''l1'' demo_handoff (wsTasks (demo_store InProgress))", OF _ this, of "''submit''"
      _ "submit_json ''dev'' ''l1'' demo_handoff" "demo_store InProgress"]
  obtain v s' where v: "SubmitWork demo_env ''k1'' ''op2'' ''dev'' ''l1'' 1 demo_handoff (demo_store InProgress) = (Inr v, s')"
    by (simp add: SubmitWork_def demo_handoff_normal demo_store_task)
      (simp add: demo_work_def same_task_def content_ok_def optionalID_def demo_gate_valid claim_ok_def char_eval)
  have "find_op woID ''op2'' (wOperations (demo_work InProgress)) = None" by (simp add: demo_work_def find_op_def)
  from submit_accepts [OF demo_store_inv v demo_store_task this] v show ?thesis
    by (simp add: demo_handoff_normal demo_env_def) (simp add: demo_work_def)
qed

text \<open>A child can be added to a task in review, and the review does not look at the children again: after a pass the task is done
  while the new child is still to do.\<close>

theorem review_ignores_new_child:
  assumes "work_inv s" and "readTask p (wsTasks s) = Inr t" and "wState t = InReview"
    and "CreateWork e c s = (Inr k, s1)" and "readTask (wID k) (wsTasks s) = Inl err"
    and "ReviewWork e' p op er res s1 = (Inr v, s2)" and "find_op woID op (wOperations t) = None" and "grDecision res = GatePass"
  shows "readTask p (wsTasks s2) = Inr v \<and> wState v = Done \<and> readTask (wID k) (wsTasks s2) = Inr k \<and> wState k = Todo \<and>
    wParentTaskID k = cParentTaskID (createInput e c)"
proof -
  from assms(4) have k: "k = createdTask e c \<and> readTask (wID k) (wsTasks s1) = Inr k \<and>
    (\<forall>j. j \<noteq> wID k \<longrightarrow> readTask j (wsTasks s1) = readTask j (wsTasks s))"
  proof (cases rule: CreateWork_cases)
    case unchanged
    from unchanged(2) [OF refl] have r: "readTask (cID (createInput e c)) (wsTasks s) = Inr k" .
    with assms(1) have "wID k = cID (createInput e c)" by (auto simp: readTask_Inr work_inv_def)
    with r assms(5) show ?thesis by simp
  next
    case (created err)
    from created(5) [OF refl] have "k = createdTask e c" and w: "writeTask (wio e) k (wsTasks s) = (None, wsTasks s1)"
      by (auto simp: created(4) prod_eq_iff)
    with writeTask_ok [OF w] show ?thesis
      by (auto simp: readTask_Inr readJSON_update validateTask_safe readTask_def)
  qed
  have np: "p \<noteq> wID k" using assms(2,5) by auto
  with k assms(2) have t: "readTask p (wsTasks s1) = Inr t" by simp
  have inv: "work_inv s1" using CreateWork_step [OF assms(1,4)] by simp
  let ?r = "normalizeGateResult res"
  have gp: "grDecision ?r = GatePass" using assms(8) by (simp add: normalizeGateResult_def)
  from assms(6) have "mutateWork e' p op ''review'' er (gate_result_json ?r) (reviewUpdate ?r) s1 = (Inr v, s2)"
    by (simp add: ReviewWork_def Let_def)
  then have "readTask p (wsTasks s2) = Inr v \<and> wState v = Done \<and> readTask (wID k) (wsTasks s2) = readTask (wID k) (wsTasks s1)"
  proof (cases rule: mutateWork_cases)
    case unchanged
    with t assms(7) show ?thesis by (simp add: operationMatch_find)
  next
    case (committed t' t1)
    note c = committed_read [OF inv committed(1) reviewUpdate_ok committed(4,7,8)]
    from committed(4) gp have "wState t1 = Done" by (auto simp: reviewUpdate_def Let_def split: if_splits)
    with committed(9) [OF refl] c(1,4) np show ?thesis
      by (simp add: committed(8) commitTask_def readTask_def readJSON_update)
  qed
  with k show ?thesis by (auto simp: createdTask_def newWork_def)
qed

definition demo_create :: WCreate where
  "demo_create = \<lparr>cOperationID = ''op9'', cID = ''k2'', cWorkspaceID = ''w'', cChannelID = ''c'', cThreadID = [],
     cParentTaskID = ''k1'', cCreatorID = ''boss'', cTitle = ''x'', cObjective = ''x'', cRequirements = [\<lparr>rqID = ''r1'', rqText = ''x''\<rparr>],
     cScope = \<lparr>scAllow = [''x''], scDeny = []\<rparr>, cStopConditions = [''x''], cAssigneeID = [], cGate = demo_gate\<rparr>"

lemma demo_create_input: "createInput demo_env demo_create = demo_create"
proof -
  have "TrimSpace w = w" if "w \<in> {''op9'', ''k1'', ''k2'', ''w'', ''c'', ''boss'', ''r1'', ''lead''}" for w
    using that by (auto intro!: TrimSpace_safeID simp: char_eval)
  then show ?thesis
    by (simp add: createInput_def normalizeCreate_def demo_create_def normalizeRequirements_def normalizeScope_def
        normalizeStrings_def normalizeGate_def demo_gate_def trim_x TrimSpace_empty)
qed

theorem review_ignores_new_child_witness:
  "\<exists>k s1 v s2. CreateWork demo_env demo_create (demo_store InReview) = (Inr k, s1) \<and>
     ReviewWork demo_env ''k1'' ''op2'' 1 demo_review s1 = (Inr v, s2) \<and>
     wState v = Done \<and> readTask (wID k) (wsTasks s2) = Inr k \<and> wState k = Todo \<and> wParentTaskID k = ''k1''"
proof -
  let ?s = "demo_store InReview" and ?k = "createdTask demo_env demo_create"
  let ?s1 = "?s\<lparr>wsTasks := AList.update (taskPath ''k2'') (Record ?k) (wsTasks ?s)\<rparr>"
  have safe: "safeID ''k2''" by (simp add: char_eval)
  have fresh: "readTask ''k2'' (wsTasks ?s) = Inl os_ErrNotExist" using safe by (simp add: readTask_def del: safeID.simps)
  have valid: "validateCreate demo_create = None"
    using demo_gate_valid by (simp add: validateCreate_def demo_create_def optionalID_def char_eval)
  have parent: "checkParent demo_create (wsTasks ?s) = None"
    using demo_store_task [of InReview] by (simp add: checkParent_def demo_create_def work_terminal_def) (simp add: demo_work_def)
  have e: "cerr demo_env = None" "now demo_env \<noteq> 0" "wio demo_env = Io_ok" by (simp_all add: demo_env_def)
  have id: "cID demo_create = ''k2''" "cParentTaskID demo_create = ''k1''" by (simp_all add: demo_create_def)
  have c: "CreateWork demo_env demo_create ?s = (Inr ?k, ?s1)"
    using CreateWork_success [where e = demo_env and c = demo_create and s = ?s] valid e fresh parent
    by (simp add: demo_create_input id)
  have k: "wID ?k = ''k2''" by (simp add: createdTask_def newWork_def demo_create_input id)
  have t: "readTask ''k1'' (wsTasks ?s) = Inr (demo_work InReview)" by (simp add: demo_store_task)
  then have "readTask ''k1'' (wsTasks ?s1) = Inr (demo_work InReview)"
    by (simp add: readTask_def readJSON_update del: safeID.simps)
  from demo_pass_on [OF this] obtain s2 where r: "ReviewWork demo_env ''k1'' ''op2'' 1 demo_review ?s1 = (Inr demo_done, s2)"
    by blast
  have "readTask (wID ?k) (wsTasks ?s) = Inl os_ErrNotExist" using fresh k by simp
  from review_ignores_new_child [OF demo_store_inv t _ c this r] r c id(2) show ?thesis
    by (simp add: demo_create_input) (simp add: demo_work_def demo_review_def find_op_def)
qed

section \<open>Defects of adding an artifact\<close>

text \<open>A task file that fails validation stays as it is: no operation can read it, and none overwrites it.\<close>

lemma unreadable_stays:
  assumes "work_inv s" and "readJSON (wsTasks s) (taskPath i) = Inr u" and "validateTask u = Some err"
  shows "readJSON (wsTasks (snd (do_work c s))) (taskPath i) = Inr u"
proof (cases c)
  case (WCreateCall e inp)
  obtain r s' where c: "CreateWork e inp s = (r, s')" by fastforce
  then have "readJSON (wsTasks s') (taskPath i) = Inr u"
  proof (cases rule: CreateWork_cases)
    case (created err')
    from readTask_missing [OF created(1,2)] assms(2) have "cID (createInput e inp) \<noteq> i" by auto
    with created(4) writeTask_dir [OF prod.collapse [symmetric], of "wio e" "createdTask e inp" "wsTasks s"] assms(2)
    show ?thesis by (auto simp: createdTask_def newWork_def readJSON_update)
  qed (simp add: assms(2))
  with c show ?thesis by (simp add: WCreateCall)
next
  case (WReq r e)
  have "readJSON (wsTasks (snd (do_req r e s))) (taskPath i) = Inr u"
  proof (cases r e s rule: do_req_mutate)
    case (mutates action sem upd)
    obtain x s' where m: "mutateWork e (req_task r) (req_op r) action (req_revision r) sem upd s = (x, s')" by fastforce
    then have "readJSON (wsTasks s') (taskPath i) = Inr u"
    proof (cases rule: mutateWork_cases)
      case (committed t t1)
      note c = committed_read [OF assms(1) committed(1) mutates(2) committed(4,7,8)]
      have "req_task r \<noteq> i" using committed(1) assms(2,3) by (auto simp: readTask_Inr)
      with c(4) committed(8) assms(2) show ?thesis by (simp add: readJSON_update)
    qed (simp add: assms(2))
    with m mutates(1) show ?thesis by simp
  qed (simp add: assms(2))
  then show ?thesis by (simp add: WReq)
next
  case (WAdd e aio j inp)
  obtain r s' where a: "AddArtifact e aio j inp s = (r, s')" by fastforce
  then have "readJSON (wsTasks s') (taskPath i) = Inr u"
  proof (cases rule: AddArtifact_cases)
    case (appended t v)
    have "j \<noteq> i" using appended(1) assms(2,3) by (auto simp: readTask_Inr)
    moreover have "wID t = j" using appended(1) assms(1) by (auto simp: readTask_Inr work_inv_def)
    ultimately show ?thesis using appended(6) assms(2) by (simp add: readJSON_update)
  qed (simp add: assms(2))
  with a show ?thesis by (simp add: WAdd)
qed

lemma unreadable_for_good:
  assumes "work_inv s" and "readJSON (wsTasks s) (taskPath i) = Inr u" and "validateTask u = Some err" and "safeID i"
  shows "readTask i (wsTasks (run_steps do_work cs s)) = Inl err"
  using assms
proof (induction cs arbitrary: s)
  case (Cons c cs)
  with do_work_step [of s c] unreadable_stays [of s i u err c] show ?case by simp
qed (simp add: readTask_def)

text \<open>C18. \<open>AddArtifact\<close> checks neither the operation id nor its reuse. With an invalid or an already used id it writes a task
  that no longer validates: the call fails, and the task cannot be read again, whatever is called later.\<close>

theorem unchecked_operation_id_loses_task:
  assumes "work_inv s" and "readTask i (wsTasks s) = Inr t" and "wState t = InProgress" and "wRevision t = aiExpectedRevision input"
    and "validClaim t (aiOwnerID input) (aiLeaseID input) (now e)" and "inp = normalizeArtifactInput e input"
    and "accepted_artifact inp" and "readArtifact (aiID inp) (aiVersion inp) (wsArtifacts s) = Inl os_ErrNotExist"
    and "\<not> operationMatch (wOperations t) (aiOperationID input) (semanticFingerprint ''add_artifact'' (artifact_json inp))"
    and "\<not> safeID (aiOperationID input) \<or> find_op woID (aiOperationID input) (wOperations t) \<noteq> None" and "wio e = Io_ok"
  shows "\<exists>err s'. AddArtifact e Io_ok i input s = (Inl err, s') \<and>
    (\<forall>cs. readTask i (wsTasks (run_steps do_work cs s')) = Inl err)"
proof -
  let ?u = "withArtifact (now e) (semanticFingerprint ''add_artifact'' (artifact_json inp)) inp t"
  have op: "aiOperationID inp = aiOperationID input" by (simp add: assms(6) normalizeArtifactInput_def Let_def)
  have id: "wID t = i" "wID ?u = i" "safeID i" using assms(1,2) by (auto simp: withArtifact_def Let_def readTask_Inr work_inv_def)
  have "validateTask ?u \<noteq> None"
  proof
    assume "validateTask ?u = None"
    from validateTask_ledger [OF this] assms(10) show False
      by (auto simp: withArtifact_def Let_def ledger_ok_snoc operation_ok_def op find_op_None)
  qed
  then obtain err where err: "validateTask ?u = Some err" by blast
  have w: "writeTask (wio e) ?u (wsTasks s) = (Some err, AList.update (taskPath i) (Record ?u) (wsTasks s))"
    using id err by (simp add: writeTask_def assms(11) atomicWrite_def readTask_def readJSON_update)
  obtain s' where s': "AddArtifact e Io_ok i input s = (Inl err, s')" "wsTasks s' = AList.update (taskPath i) (Record ?u) (wsTasks s)"
    using AddArtifact_run [OF assms(2-5) assms(7,8) [unfolded assms(6)] refl assms(9) [unfolded assms(6)] refl refl]
    by (simp add: w [unfolded assms(6)] assms(6))
  have inv: "work_inv s'" using AddArtifact_step [OF assms(1) s'(1)] by simp
  have "readJSON (wsTasks s') (taskPath i) = Inr ?u" by (simp add: s'(2) readJSON_update)
  from unreadable_for_good [OF inv this err id(3)] s'(1) show ?thesis by blast
qed

definition demo_artifact :: "string \<Rightarrow> ArtifactInput" where
  "demo_artifact op = \<lparr>aiOperationID = op, aiExpectedRevision = 1, aiOwnerID = ''dev'', aiLeaseID = ''l1'', aiID = ''a2'',
     aiVersion = ''1'', aiKind = ''x'', aiURI = ''x'', aiDigest = replicate 64 (CHR ''0'')\<rparr>"

lemma demo_artifact_input: "normalizeArtifactInput e (demo_artifact op) = demo_artifact op"
proof -
  have "TrimSpace w = w" if "w \<in> {''a2'', ''1''}" for w using that by (auto intro!: TrimSpace_safeID simp: char_eval)
  moreover have "TrimSpace (replicate 64 (CHR ''0'')) = replicate 64 (CHR ''0'')"
    by (rule TrimSpace_safeID) (simp add: char_eval list_all_iff numeral_eq_Suc)
  ultimately show ?thesis
    by (simp add: normalizeArtifactInput_def demo_artifact_def Let_def trim_x ToLower_def less_eq_char_def)
qed

lemma demo_artifact_accepted: "accepted_artifact (demo_artifact op)"
  by (simp add: accepted_artifact_def demo_artifact_def safeDigest_def list_all_iff char_eval)

theorem unchecked_operation_id_loses_task_witness:
  "\<exists>err s'. AddArtifact demo_env Io_ok ''k1'' (demo_artifact []) (demo_store InProgress) = (Inl err, s') \<and>
    (\<forall>cs. readTask ''k1'' (wsTasks (run_steps do_work cs s')) = Inl err)"
proof (rule unchecked_operation_id_loses_task [OF demo_store_inv demo_store_task _ _ _ refl])
  show "readArtifact (aiID (normalizeArtifactInput demo_env (demo_artifact []))) (aiVersion (normalizeArtifactInput demo_env (demo_artifact [])))
      (wsArtifacts (demo_store InProgress)) = Inl os_ErrNotExist"
    unfolding demo_artifact_input by (simp add: demo_artifact_def demo_store_def readArtifact_def readJSON_def char_eval)
qed (simp_all add: demo_artifact_input demo_artifact_accepted,
    simp_all add: demo_work_def demo_artifact_def validClaim_def demo_env_def)

text \<open>When the artifact file was written but the task file was not, the artifact can never be attached: a retry at a later time
  is refused because the stored version carries the time of the first attempt.\<close>

theorem artifact_retry_refused:
  assumes "readTask i (wsTasks s) = Inr t" and "wState t = InProgress" and "wRevision t = aiExpectedRevision input"
    and "validClaim t (aiOwnerID input) (aiLeaseID input) (now e)" and "TrimSpace (aiID input) \<noteq> []"
    and "accepted_artifact (normalizeArtifactInput e input)"
    and "readArtifact (aiID (normalizeArtifactInput e input)) (aiVersion (normalizeArtifactInput e input)) (wsArtifacts s) = Inl os_ErrNotExist"
    and "find_op woID (aiOperationID input) (wOperations t) = None" and "wio e = Io_early" and "now e' \<noteq> now e"
  shows "\<exists>s'. AddArtifact e Io_ok i input s = (Inl IOError, s') \<and> wsTasks s' = wsTasks s \<and>
    (\<exists>err. AddArtifact e' aio i input s' = (Inl err, s'))"
proof -
  let ?in = "normalizeArtifactInput e input" and ?a = "newArtifact (now e) (normalizeArtifactInput e input) t"
  let ?s = "s\<lparr>wsArtifacts := AList.update (artifactPath (afID ?a) (afVersion ?a)) (Record ?a) (wsArtifacts s)\<rparr>"
  have in': "normalizeArtifactInput e' input = ?in" using assms(5) by (simp add: normalizeArtifactInput_def Let_def)
  have m: "\<not> operationMatch (wOperations t) (aiOperationID input) fp" for fp using assms(8) by (simp add: operationMatch_find)
  have run: "AddArtifact e Io_ok i input s = (Inl IOError, ?s)"
    using AddArtifact_run [OF assms(1-4,6,7) refl m refl refl] assms(9) by (simp add: writeTask_def atomicWrite_def)
  have f: "aiOperationID ?in = aiOperationID input" by (simp add: normalizeArtifactInput_def Let_def)
  have a: "afID ?a = aiID ?in" "afVersion ?a = aiVersion ?in" "afDigest ?a = aiDigest ?in" "afSchemaVersion ?a = SchemaVersion"
    "afCreatedAt ?a = now e" by (simp_all add: newArtifact_def)
  have "readArtifact (aiID ?in) (aiVersion ?in) (wsArtifacts ?s) = Inr ?a"
    using assms(6) a by (simp add: readArtifact_def readJSON_update accepted_artifact_def del: safeID.simps)
  moreover have "?a \<noteq> newArtifact (now e') ?in t" using assms(10) by (simp add: newArtifact_def)
  ultimately have "storeArtifact aio (newArtifact (now e') ?in t) (wsArtifacts ?s) =
      (Some (Errorf ''artifact version is immutable''), wsArtifacts ?s)"
    by (simp add: storeArtifact_def newArtifact_def)
  then have "\<exists>err. AddArtifact e' aio i input ?s = (Inl err, ?s)"
    using assms(1) m by (simp add: AddArtifact_def in' Let_def f)
  with run show ?thesis by simp
qed

theorem artifact_retry_refused_witness:
  "\<exists>s' err. AddArtifact (demo_env\<lparr>wio := Io_early\<rparr>) Io_ok ''k1'' (demo_artifact ''op2'') (demo_store InProgress) = (Inl IOError, s') \<and>
     AddArtifact (demo_env\<lparr>clk := \<lambda>_. 150\<rparr>) Io_ok ''k1'' (demo_artifact ''op2'') s' = (Inl err, s')"
proof -
  have "TrimSpace ''a2'' = ''a2''" by (rule TrimSpace_safeID) (simp add: char_eval)
  then have "TrimSpace (aiID (demo_artifact ''op2'')) \<noteq> []" by (simp add: demo_artifact_def)
  moreover have "readArtifact (aiID (demo_artifact ''op2'')) (aiVersion (demo_artifact ''op2'')) (wsArtifacts (demo_store InProgress)) = Inl os_ErrNotExist"
    by (simp add: demo_artifact_def demo_store_def readArtifact_def readJSON_def char_eval)
  moreover have "wState (demo_work InProgress) = InProgress" "wRevision (demo_work InProgress) = aiExpectedRevision (demo_artifact ''op2'')"
    "validClaim (demo_work InProgress) (aiOwnerID (demo_artifact ''op2'')) (aiLeaseID (demo_artifact ''op2'')) 100"
    "find_op woID (aiOperationID (demo_artifact ''op2'')) (wOperations (demo_work InProgress)) = None"
    by (simp_all add: demo_work_def demo_artifact_def validClaim_def find_op_def)
  ultimately show ?thesis
    using artifact_retry_refused [where e = "demo_env\<lparr>wio := Io_early\<rparr>" and e' = "demo_env\<lparr>clk := \<lambda>_. 150\<rparr>" and aio = Io_ok
        and input = "demo_artifact ''op2''", OF demo_store_task [of InProgress]]
    by (simp add: demo_artifact_input demo_artifact_accepted demo_env_def [THEN arg_cong [where f = clk]]) blast
qed

end
