(* ===== verification/Attention.thy ===== *)
theory Attention
  imports Ledger
begin

text \<open>
  Agent attention: \<open>internal/attention/types.go\<close> and \<open>internal/attention/store.go\<close>. One file holds the conversations, the inbox
  items that tell an agent which messages to read, the read cursors, work marks, stale drafts and the operation ledger.
  An agent claims one item at a time under a lease, and a reply is sent only if the conversation has not moved since the
  claim. Go maps are association lists: \<open>range\<close> visits them in the order of the list. A map that is nil in the file makes
  it invalid, so it counts as a file that does not decode.
\<close>

section \<open>Data\<close>

definition attSchemaVersion :: int where
  "attSchemaVersion = 1"

datatype Priority = PriorityCorrection | PriorityDirect | PriorityReview | PrioritySubscription | OtherPriority string

datatype InboxState = Pending | Claimed | ItemDone | OtherInboxState string

fun priority_name :: "Priority \<Rightarrow> string" where
  "priority_name PriorityCorrection = ''human_correction''"
| "priority_name PriorityDirect = ''direct''"
| "priority_name PriorityReview = ''task_review''"
| "priority_name PrioritySubscription = ''subscription''"
| "priority_name (OtherPriority s) = s"

record Delivery =
  dlAgentID :: string
  dlPriority :: Priority

record Message =
  mID :: string
  mConversationID :: string
  mSeq :: int
  mAuthorID :: string
  mKind :: string
  mContent :: string
  mCreatedAt :: time

record Conversation =
  cvID :: string
  cvLastSeq :: int
  cvMessages :: "Message list"

record InboxItem =
  nID :: string
  nAgentID :: string
  nConversationID :: string
  nFromSeq :: int
  nToSeq :: int
  nPriority :: Priority
  nState :: InboxState
  nLeaseID :: string
  nLeaseExpiresAt :: time
  nClaimReadSeq :: int
  nCreatedAt :: time
  nUpdatedAt :: time

record WorkMark =
  wmAgentID :: string
  wmConversationID :: string
  wmTaskID :: string
  wmReason :: string
  wmActive :: bool
  wmRevision :: int
  wmUpdatedAt :: time

record Draft =
  drOperationID :: string
  drAgentID :: string
  drConversationID :: string
  drItemID :: string
  drContent :: string
  drBaseReadSeq :: int
  drLatestSeq :: int
  drUpdatedAt :: time

record AOperation =
  aoID :: string
  aoAction :: string
  aoFingerprint :: string
  aoOutcome :: string
  aoEntityID :: string
  aoRevision :: int
  aoCreatedAt :: time

record AState =
  aSchemaVersion :: int
  aRevision :: int
  aConversations :: "Conversation gomap"
  aInbox :: "InboxItem gomap"
  aReadCursors :: "int gomap"
  aWorkMarks :: "WorkMark gomap"
  aDrafts :: "Draft gomap"
  aOperations :: "AOperation list"
  aUpdatedAt :: time

record PublishInput =
  pOperationID :: string
  pMessageID :: string
  pConversationID :: string
  pAuthorID :: string
  pKind :: string
  pContent :: string
  pDeliveries :: "Delivery list"

record AClaim =
  acItem :: InboxItem
  acMessages :: "Message list"

record WorkMarkInput =
  wiOperationID :: string
  wiAgentID :: string
  wiConversationID :: string
  wiTaskID :: string
  wiReason :: string

record FreshReplyInput =
  fOperationID :: string
  fMessageID :: string
  fAgentID :: string
  fItemID :: string
  fLeaseID :: string
  fReadSeq :: int
  fContent :: string
  fDeliveries :: "Delivery list"

record FreshReplyResult =
  frSent :: "Message option"
  frDraft :: "Draft option"
  frMissed :: "Message list"

type_synonym attDir = "AState dir"

definition attErrConflict :: go_error where
  "attErrConflict = Sentinel ''attention state conflict''"

definition attErrLease :: go_error where
  "attErrLease = Sentinel ''invalid or expired inbox lease''"

definition ErrNoWork :: go_error where
  "ErrNoWork = Sentinel ''agent inbox has no pending work''"

definition ErrStale :: go_error where
  "ErrStale = Sentinel ''reply is stale; conversation changed after read_seq''"

text \<open>What a Go map gives for a key it does not have.\<close>

definition zeroConversation :: Conversation where
  "zeroConversation = \<lparr>cvID = [], cvLastSeq = 0, cvMessages = []\<rparr>"

definition zeroMark :: WorkMark where
  "zeroMark = \<lparr>wmAgentID = [], wmConversationID = [], wmTaskID = [], wmReason = [], wmActive = False, wmRevision = 0, wmUpdatedAt = 0\<rparr>"

definition zeroItem :: InboxItem where
  "zeroItem = \<lparr>nID = [], nAgentID = [], nConversationID = [], nFromSeq = 0, nToSeq = 0, nPriority = OtherPriority [],
     nState = OtherInboxState [], nLeaseID = [], nLeaseExpiresAt = 0, nClaimReadSeq = 0, nCreatedAt = 0, nUpdatedAt = 0\<rparr>"

definition conversationOf :: "AState \<Rightarrow> string \<Rightarrow> Conversation" where
  "conversationOf st i = (case mget (aConversations st) i of Some c \<Rightarrow> c | None \<Rightarrow> zeroConversation)"

section \<open>Fingerprinted values\<close>

definition deliveries_json :: "Delivery list \<Rightarrow> (string \<times> json) list" where
  "deliveries_json ds = (if ds = [] then [] else [(''deliveries'', JArr (map (\<lambda>d.
     JObj [(''agent_id'', JStr (dlAgentID d)), (''priority'', JStr (priority_name (dlPriority d)))]) ds))])"

definition publish_json :: "PublishInput \<Rightarrow> json" where
  "publish_json p = JObj ([(''operation_id'', JStr (pOperationID p)), (''message_id'', JStr (pMessageID p)),
     (''conversation_id'', JStr (pConversationID p)), (''author_id'', JStr (pAuthorID p)), (''kind'', JStr (pKind p)),
     (''content'', JStr (pContent p))] @ deliveries_json (pDeliveries p))"

definition claim_json :: "string \<Rightarrow> string \<Rightarrow> duration \<Rightarrow> json" where
  "claim_json agent lease ttl = JObj [(''agent'', JStr agent), (''lease'', JStr lease), (''ttl_ms'', JInt (ttl div 1000000))]"

definition item_json :: "string \<Rightarrow> string \<Rightarrow> string \<Rightarrow> json" where
  "item_json item agent lease = JObj [(''item'', JStr item), (''agent'', JStr agent), (''lease'', JStr lease)]"

definition mark_json :: "WorkMarkInput \<Rightarrow> json" where
  "mark_json m = JObj ([(''operation_id'', JStr (wiOperationID m)), (''agent_id'', JStr (wiAgentID m)),
     (''conversation_id'', JStr (wiConversationID m))] @ jomit ''task_id'' (wiTaskID m) @ [(''reason'', JStr (wiReason m))])"

definition clear_json :: "string \<Rightarrow> string \<Rightarrow> json" where
  "clear_json agent conversation = JObj [(''agent'', JStr agent), (''conversation'', JStr conversation)]"

definition fresh_json :: "FreshReplyInput \<Rightarrow> json" where
  "fresh_json f = JObj ([(''operation_id'', JStr (fOperationID f)), (''message_id'', JStr (fMessageID f)),
     (''agent_id'', JStr (fAgentID f)), (''item_id'', JStr (fItemID f)), (''lease_id'', JStr (fLeaseID f)),
     (''read_seq'', JInt (fReadSeq f)), (''content'', JStr (fContent f))] @ deliveries_json (fDeliveries f))"

section \<open>Input\<close>

definition validPriority :: "Priority \<Rightarrow> bool" where
  "validPriority p \<longleftrightarrow> p = PriorityCorrection \<or> p = PriorityDirect \<or> p = PriorityReview \<or> p = PrioritySubscription"

fun priorityRank :: "Priority \<Rightarrow> nat" where
  "priorityRank PriorityCorrection = 0"
| "priorityRank PriorityDirect = 1"
| "priorityRank PriorityReview = 2"
| "priorityRank _ = 3"

definition cursorKey :: "string \<Rightarrow> string \<Rightarrow> string" where
  "cursorKey agentID conversationID = agentID @ ''::'' @ conversationID"

definition markKey :: "string \<Rightarrow> string \<Rightarrow> string" where
  "markKey agentID conversationID = agentID @ ''::'' @ conversationID"

text \<open>Deliveries with equal agents, whose order \<open>sort.Slice\<close> leaves open, are refused by the validation that follows.\<close>

definition normalizeDeliveries :: "Delivery list \<Rightarrow> Delivery list" where
  "normalizeDeliveries ds = sort_by (\<lambda>a b. dlAgentID a < dlAgentID b) (map (\<lambda>d. d\<lparr>dlAgentID := TrimSpace (dlAgentID d)\<rparr>) ds)"

definition normalizePublish :: "PublishInput \<Rightarrow> PublishInput" where
  "normalizePublish p = p\<lparr>pOperationID := TrimSpace (pOperationID p), pMessageID := TrimSpace (pMessageID p),
     pConversationID := TrimSpace (pConversationID p), pAuthorID := TrimSpace (pAuthorID p), pKind := TrimSpace (pKind p),
     pContent := TrimSpace (pContent p), pDeliveries := normalizeDeliveries (pDeliveries p)\<rparr>"

definition validatePublish :: "PublishInput \<Rightarrow> go_error option" where
  "validatePublish p =
     (if \<not> safeID (pOperationID p) \<or> \<not> safeID (pMessageID p) \<or> \<not> safeID (pConversationID p) \<or> \<not> safeID (pAuthorID p)
         \<or> pKind p = [] \<or> pContent p = [] \<or> length (pContent p) > 32768
      then Some (Errorf ''operation, message, conversation, author, kind, and bounded content are required'')
      else if \<not> scan_unique (\<lambda>d. safeID (dlAgentID d) \<and> validPriority (dlPriority d)) dlAgentID [] (pDeliveries p)
      then Some (Errorf ''deliveries require unique agents and valid priorities'')
      else None)"

definition normalizeWorkMark :: "WorkMarkInput \<Rightarrow> WorkMarkInput" where
  "normalizeWorkMark m = m\<lparr>wiOperationID := TrimSpace (wiOperationID m), wiAgentID := TrimSpace (wiAgentID m),
     wiConversationID := TrimSpace (wiConversationID m), wiTaskID := TrimSpace (wiTaskID m), wiReason := TrimSpace (wiReason m)\<rparr>"

definition normalizeFreshReply :: "FreshReplyInput \<Rightarrow> FreshReplyInput" where
  "normalizeFreshReply f = f\<lparr>fOperationID := TrimSpace (fOperationID f), fMessageID := TrimSpace (fMessageID f),
     fAgentID := TrimSpace (fAgentID f), fItemID := TrimSpace (fItemID f), fLeaseID := TrimSpace (fLeaseID f),
     fContent := TrimSpace (fContent f), fDeliveries := normalizeDeliveries (fDeliveries f)\<rparr>"

definition validateFreshReply :: "FreshReplyInput \<Rightarrow> go_error option" where
  "validateFreshReply f =
     (if \<not> safeID (fOperationID f) \<or> \<not> safeID (fMessageID f) \<or> \<not> safeID (fAgentID f) \<or> \<not> safeID (fItemID f)
         \<or> \<not> safeID (fLeaseID f) \<or> fReadSeq f \<le> 0 \<or> fContent f = [] \<or> length (fContent f) > 32768
      then Some (Errorf ''operation, message, agent, claimed item, lease, positive read_seq, and bounded content are required'')
      else if \<not> scan_unique (\<lambda>d. safeID (dlAgentID d) \<and> dlAgentID d \<noteq> fAgentID f \<and> validPriority (dlPriority d))
                dlAgentID [] (fDeliveries f)
      then Some (Errorf ''deliveries require unique agents and valid priorities'')
      else None)"

section \<open>The canonical state\<close>

definition emptyState :: "time \<Rightarrow> AState" where
  "emptyState n = \<lparr>aSchemaVersion = attSchemaVersion, aRevision = 0, aConversations = [], aInbox = [], aReadCursors = [],
     aWorkMarks = [], aDrafts = [], aOperations = [], aUpdatedAt = n\<rparr>"

text \<open>The loop over the messages of one conversation returns the message ids seen so far, that over the conversations checks
  them all.\<close>

fun scan_messages :: "string \<Rightarrow> nat \<Rightarrow> string list \<Rightarrow> Message list \<Rightarrow> string list option" where
  "scan_messages i index seen [] = Some seen"
| "scan_messages i index seen (m # ms) =
     (if mSeq m \<noteq> int index + 1 \<or> mConversationID m \<noteq> i \<or> \<not> safeID (mID m) \<or> \<not> safeID (mAuthorID m) \<or> mID m \<in> set seen
         \<or> mKind m = [] \<or> mContent m = [] \<or> mCreatedAt m = 0
      then None else scan_messages i (Suc index) (mID m # seen) ms)"

fun scan_conversations :: "string list \<Rightarrow> (string \<times> Conversation) list \<Rightarrow> go_error option" where
  "scan_conversations seen [] = None"
| "scan_conversations seen ((i, c) # cs) =
     (if \<not> safeID i \<or> cvID c \<noteq> i \<or> int (length (cvMessages c)) \<noteq> cvLastSeq c
      then Some (Errorf ''invalid conversation sequence'') else
      (case scan_messages i 0 seen (cvMessages c) of
         None \<Rightarrow> Some (Errorf ''invalid canonical message'')
       | Some seen' \<Rightarrow> scan_conversations seen' cs))"

definition item_valid :: "Conversation gomap \<Rightarrow> string \<Rightarrow> InboxItem \<Rightarrow> bool" where
  "item_valid convs i x \<longleftrightarrow> i = nID x \<and> safeID i \<and> safeID (nAgentID x) \<and> nFromSeq x > 0 \<and> nFromSeq x \<le> nToSeq x \<and>
     (case mget convs (nConversationID x) of None \<Rightarrow> False | Some c \<Rightarrow> nToSeq x \<le> cvLastSeq c) \<and>
     validPriority (nPriority x) \<and> nCreatedAt x \<noteq> 0 \<and> nUpdatedAt x \<noteq> 0"

definition claimed_valid :: "Conversation gomap \<Rightarrow> InboxItem \<Rightarrow> bool" where
  "claimed_valid convs x \<longleftrightarrow> safeID (nLeaseID x) \<and> nLeaseExpiresAt x \<noteq> 0 \<and> nFromSeq x \<le> nClaimReadSeq x \<and>
     (case mget convs (nConversationID x) of None \<Rightarrow> False | Some c \<Rightarrow> nClaimReadSeq x \<le> cvLastSeq c)"

fun scan_inbox :: "Conversation gomap \<Rightarrow> string list \<Rightarrow> (string \<times> InboxItem) list \<Rightarrow> go_error option" where
  "scan_inbox convs seen [] = None"
| "scan_inbox convs seen ((i, x) # xs) =
     (if \<not> item_valid convs i x then Some (Errorf ''invalid canonical inbox item'')
      else if nState x \<noteq> Pending \<and> nState x \<noteq> Claimed \<and> nState x \<noteq> ItemDone then Some (Errorf ''invalid inbox state'')
      else if nState x = Claimed \<and> \<not> claimed_valid convs x then Some (Errorf ''invalid claimed inbox item'')
      else if nState x \<noteq> Claimed \<and> (nLeaseID x \<noteq> [] \<or> nLeaseExpiresAt x \<noteq> 0)
      then Some (Errorf ''non-claimed inbox item carries a lease'')
      else if nState x \<noteq> ItemDone \<and> cursorKey (nAgentID x) (nConversationID x) \<in> set seen
      then Some (Errorf ''agent has duplicate open inbox items for one conversation'')
      else scan_inbox convs (if nState x \<noteq> ItemDone then cursorKey (nAgentID x) (nConversationID x) # seen else seen) xs)"

definition mark_valid :: "string \<Rightarrow> WorkMark \<Rightarrow> bool" where
  "mark_valid key m \<longleftrightarrow> key = markKey (wmAgentID m) (wmConversationID m) \<and> safeID (wmAgentID m) \<and> safeID (wmConversationID m) \<and>
     (wmTaskID m = [] \<or> safeID (wmTaskID m)) \<and> wmReason m \<noteq> [] \<and> wmRevision m > 0 \<and> wmUpdatedAt m \<noteq> 0"

definition draft_valid :: "Conversation gomap \<Rightarrow> string \<Rightarrow> Draft \<Rightarrow> bool" where
  "draft_valid convs i d \<longleftrightarrow> i = drOperationID d \<and> safeID i \<and> safeID (drAgentID d) \<and> safeID (drItemID d) \<and> drContent d \<noteq> [] \<and>
     drBaseReadSeq d > 0 \<and> drLatestSeq d > drBaseReadSeq d \<and>
     (case mget convs (drConversationID d) of None \<Rightarrow> False | Some c \<Rightarrow> drLatestSeq d \<le> cvLastSeq c) \<and> drUpdatedAt d \<noteq> 0"

definition aop_ok :: "AOperation \<Rightarrow> bool" where
  "aop_ok x \<longleftrightarrow> safeID (aoID x) \<and> safeDigest (aoFingerprint x) \<and> aoCreatedAt x \<noteq> 0"

definition validateState :: "AState \<Rightarrow> go_error option" where
  "validateState st =
     (if aSchemaVersion st \<noteq> attSchemaVersion \<or> aRevision st < 0 then Some (Errorf ''invalid canonical attention state'') else
      case scan_conversations [] (aConversations st) of Some err \<Rightarrow> Some err | None \<Rightarrow>
      (case scan_inbox (aConversations st) [] (aInbox st) of Some err \<Rightarrow> Some err | None \<Rightarrow>
       if \<not> list_all (\<lambda>(k, m). mark_valid k m) (aWorkMarks st) then Some (Errorf ''invalid persistent work mark'')
       else if \<not> list_all (\<lambda>(k, d). draft_valid (aConversations st) k d) (aDrafts st) then Some (Errorf ''invalid stale draft'')
       else if \<not> ledger_ok aop_ok aoID aoRevision (aOperations st) then Some (Errorf ''invalid attention operation ledger'')
       else if int (length (aOperations st)) \<noteq> aRevision st
       then Some (Errorf ''attention operation ledger does not reach current revision'')
       else None))"

section \<open>Changes of the state\<close>

definition appendMessage :: "string \<Rightarrow> string \<Rightarrow> string \<Rightarrow> string \<Rightarrow> string \<Rightarrow> time \<Rightarrow> AState \<Rightarrow> Message \<times> AState" where
  "appendMessage i conversationID authorID kind content n st =
     (let c = (conversationOf st conversationID)\<lparr>cvID := conversationID\<rparr>;
          m = \<lparr>mID = i, mConversationID = conversationID, mSeq = cvLastSeq c + 1, mAuthorID = authorID, mKind = kind,
               mContent = content, mCreatedAt = n\<rparr>;
          c' = c\<lparr>cvLastSeq := cvLastSeq c + 1, cvMessages := cvMessages c @ [m]\<rparr> in
      (m, st\<lparr>aConversations := mput conversationID c' (aConversations st)\<rparr>))"

definition open_for :: "string \<Rightarrow> string \<Rightarrow> InboxItem \<Rightarrow> bool" where
  "open_for agentID conversationID x \<longleftrightarrow> nAgentID x = agentID \<and> nConversationID x = conversationID \<and> nState x \<noteq> ItemDone"

text \<open>\<open>deliver\<close> gives the agent a new item or extends the open one; new item \<open>k\<close> takes the random bytes \<open>ent e k\<close>.\<close>

definition newItemFor :: "string \<Rightarrow> Message \<Rightarrow> Delivery \<Rightarrow> time \<Rightarrow> InboxItem" where
  "newItemFor i m d n = \<lparr>nID = i, nAgentID = dlAgentID d, nConversationID = mConversationID m, nFromSeq = mSeq m, nToSeq = mSeq m,
     nPriority = dlPriority d, nState = Pending, nLeaseID = [], nLeaseExpiresAt = 0, nClaimReadSeq = 0, nCreatedAt = n, nUpdatedAt = n\<rparr>"

fun deliver :: "env \<Rightarrow> nat \<Rightarrow> Message \<Rightarrow> time \<Rightarrow> Delivery list \<Rightarrow> InboxItem gomap \<Rightarrow> InboxItem list \<times> InboxItem gomap" where
  "deliver e k m n [] inbox = ([], inbox)"
| "deliver e k m n (d # ds) inbox =
     (let x = (case find (\<lambda>p. open_for (dlAgentID d) (mConversationID m) (snd p)) inbox of
                 None \<Rightarrow> newItemFor (newID ''inbox'' (ent e k)) m d n
               | Some (i, c) \<Rightarrow> c\<lparr>nID := i, nToSeq := mSeq m,
                   nPriority := (if priorityRank (dlPriority d) < priorityRank (nPriority c) then dlPriority d else nPriority c),
                   nUpdatedAt := n\<rparr>);
          r = deliver e (Suc k) m n ds (mput (nID x) x inbox) in
      (x # fst r, snd r))"

definition appendOperation :: "string \<Rightarrow> string \<Rightarrow> string \<Rightarrow> string \<Rightarrow> string \<Rightarrow> time \<Rightarrow> AState \<Rightarrow> AState" where
  "appendOperation i action fingerprint outcome entityID n st =
     st\<lparr>aRevision := aRevision st + 1, aUpdatedAt := n,
        aOperations := aOperations st @ [\<lparr>aoID = i, aoAction = action, aoFingerprint = fingerprint, aoOutcome = outcome,
          aoEntityID = entityID, aoRevision = aRevision st + 1, aoCreatedAt = n\<rparr>]\<rparr>"

section \<open>The file\<close>

definition attPath :: string where
  "attPath = ''attention-v1.json''"

definition readState :: "attDir \<Rightarrow> go_error + AState" where
  "readState d = (case readJSON d attPath of Inl err \<Rightarrow> Inl err
     | Inr st \<Rightarrow> (case validateState st of Some err \<Rightarrow> Inl err | None \<Rightarrow> Inr st))"

definition writeState :: "io \<Rightarrow> AState \<Rightarrow> attDir \<Rightarrow> go_error option \<times> attDir" where
  "writeState i st d =
     (case validateState st of Some err \<Rightarrow> (Some err, d) | None \<Rightarrow>
      (case atomicWrite i attPath st d of
         (Some err, d') \<Rightarrow> (Some err, d')
       | (None, d') \<Rightarrow>
           (case readState d' of Inl err \<Rightarrow> (Some err, d')
            | Inr verified \<Rightarrow>
                if aRevision verified \<noteq> aRevision st \<or> length (aOperations verified) \<noteq> length (aOperations st)
                then (Some (Errorf ''attention state read-back verification failed''), d') else (None, d'))))"

definition NewAttention :: "env \<Rightarrow> attDir \<Rightarrow> go_error option \<times> attDir" where
  "NewAttention e d =
     (if map_of d attPath = None then writeState (wio e) (emptyState (now e)) d
      else case readState d of Inl err \<Rightarrow> (Some err, d) | Inr _ \<Rightarrow> (None, d))"

section \<open>Queries\<close>

definition messagesRange :: "Conversation \<Rightarrow> int \<Rightarrow> int \<Rightarrow> Message list" where
  "messagesRange c from to = filter (\<lambda>m. mSeq m \<ge> from \<and> mSeq m \<le> to) (cvMessages c)"

definition messagesAfter :: "Conversation \<Rightarrow> int \<Rightarrow> Message list" where
  "messagesAfter c s = messagesRange c (s + 1) (cvLastSeq c)"

definition findMessage :: "AState \<Rightarrow> string \<Rightarrow> string \<Rightarrow> Message option" where
  "findMessage st conversationID messageID = find (\<lambda>m. mID m = messageID) (cvMessages (conversationOf st conversationID))"

definition findMessageAny :: "AState \<Rightarrow> string \<Rightarrow> Message option" where
  "findMessageAny st messageID = find (\<lambda>m. mID m = messageID) (concat (map (\<lambda>p. cvMessages (snd p)) (aConversations st)))"

definition validLease :: "InboxItem \<Rightarrow> string \<Rightarrow> string \<Rightarrow> time \<Rightarrow> bool" where
  "validLease x agentID leaseID n \<longleftrightarrow> nState x = Claimed \<and> nAgentID x = agentID \<and> nLeaseID x = leaseID \<and> n < nLeaseExpiresAt x"

definition claimResult :: "AState \<Rightarrow> string \<Rightarrow> go_error + AClaim" where
  "claimResult st itemID = (case mget (aInbox st) itemID of
     None \<Rightarrow> Inl (Errorf ''claim operation has no inbox item'')
   | Some x \<Rightarrow> Inr \<lparr>acItem = x, acMessages = messagesRange (conversationOf st (nConversationID x)) (nFromSeq x) (nClaimReadSeq x)\<rparr>)"

definition deliveryItems :: "AState \<Rightarrow> string \<Rightarrow> Delivery list \<Rightarrow> InboxItem list" where
  "deliveryItems st conversationID ds =
     concat (map (\<lambda>d. case find (\<lambda>p. open_for (dlAgentID d) conversationID (snd p)) (aInbox st) of
                   None \<Rightarrow> [] | Some p \<Rightarrow> [snd p]) ds)"

definition noReply :: FreshReplyResult where
  "noReply = \<lparr>frSent = None, frDraft = None, frMissed = []\<rparr>"

definition replayFreshResult :: "AState \<Rightarrow> AOperation \<Rightarrow> FreshReplyResult \<times> go_error option" where
  "replayFreshResult st x =
     (if aoOutcome x = ''sent''
      then (case findMessageAny st (aoEntityID x) of
              None \<Rightarrow> (noReply, Some (Errorf ''fresh send operation has no message''))
            | Some m \<Rightarrow> (noReply\<lparr>frSent := Some m\<rparr>, None))
      else (case mget (aDrafts st) (aoID x) of
              None \<Rightarrow> (noReply, Some (Errorf ''stale send operation has no draft''))
            | Some d \<Rightarrow> (noReply\<lparr>frDraft := Some d, frMissed := messagesAfter (conversationOf st (drConversationID d)) (drBaseReadSeq d)\<rparr>,
                        Some ErrStale)))"

section \<open>Operations\<close>

text \<open>Every operation has the same frame: read the state, answer a known operation id from the ledger, else compute the change,
  append the operation and write. \<open>fail\<close> turns an error into a result; \<open>change\<close> gives the outcome, the entity, the new
  state before the ledger entry and the result to return after the write.\<close>

definition transact :: "env \<Rightarrow> string \<Rightarrow> string \<Rightarrow> string \<Rightarrow> (go_error \<Rightarrow> 'r) \<Rightarrow> (AState \<Rightarrow> AOperation \<Rightarrow> 'r)
    \<Rightarrow> (AState \<Rightarrow> go_error + (string \<times> string \<times> AState \<times> (AState \<Rightarrow> 'r))) \<Rightarrow> attDir \<Rightarrow> 'r \<times> attDir" where
  "transact e operationID action fingerprint fail replay change d =
     (case readState d of Inl err \<Rightarrow> (fail err, d) | Inr st \<Rightarrow>
      (case find_op aoID operationID (aOperations st) of
         Some x \<Rightarrow> (if aoFingerprint x \<noteq> fingerprint then fail attErrConflict else replay st x, d)
       | None \<Rightarrow>
           (case change st of Inl err \<Rightarrow> (fail err, d) | Inr (outcome, entityID, st1, result) \<Rightarrow>
            let st2 = appendOperation operationID action fingerprint outcome entityID (now e) st1 in
            (case writeState (wio e) st2 d of (Some err, d') \<Rightarrow> (fail err, d') | (None, d') \<Rightarrow> (result st2, d')))))"

definition publishChange :: "env \<Rightarrow> PublishInput \<Rightarrow> AState
    \<Rightarrow> go_error + (string \<times> string \<times> AState \<times> (AState \<Rightarrow> go_error + Message \<times> InboxItem list))" where
  "publishChange e p st =
     (if findMessageAny st (pMessageID p) \<noteq> None then Inl (Wrap ''message id already exists'' attErrConflict) else
      case appendMessage (pMessageID p) (pConversationID p) (pAuthorID p) (pKind p) (pContent p) (now e) st of (m, st1) \<Rightarrow>
      (case deliver e 0 m (now e) (pDeliveries p) (aInbox st1) of (items, inbox) \<Rightarrow>
         Inr (''sent'', mID m, st1\<lparr>aInbox := inbox\<rparr>, (\<lambda>_. Inr (m, items)))))"

definition Publish :: "env \<Rightarrow> PublishInput \<Rightarrow> attDir \<Rightarrow> (go_error + Message \<times> InboxItem list) \<times> attDir" where
  "Publish e p0 d =
     (let p = normalizePublish p0 in
      case validatePublish p of Some err \<Rightarrow> (Inl err, d) | None \<Rightarrow>
      transact e (pOperationID p) ''publish'' (semanticFingerprint ''publish'' (publish_json p)) Inl
        (\<lambda>st x. case findMessage st (pConversationID p) (pMessageID p) of
            None \<Rightarrow> Inl (Errorf ''publish operation has no canonical message'')
          | Some m \<Rightarrow> Inr (m, deliveryItems st (pConversationID p) (pDeliveries p)))
        (publishChange e p) d)"

text \<open>The comparison that orders the candidates of a claim.\<close>

definition before :: "InboxItem \<Rightarrow> InboxItem \<Rightarrow> bool" where
  "before x y \<longleftrightarrow>
     (if priorityRank (nPriority x) \<noteq> priorityRank (nPriority y) then priorityRank (nPriority x) < priorityRank (nPriority y)
      else if nCreatedAt x \<noteq> nCreatedAt y then nCreatedAt x < nCreatedAt y
      else nID x < nID y)"

definition release_expired :: "string \<Rightarrow> time \<Rightarrow> InboxItem \<Rightarrow> InboxItem" where
  "release_expired agentID n x =
     (if nAgentID x \<noteq> agentID \<or> nState x \<noteq> Claimed then x
      else x\<lparr>nState := Pending, nLeaseID := [], nLeaseExpiresAt := 0, nClaimReadSeq := 0, nUpdatedAt := n\<rparr>)"

definition claimChange :: "time \<Rightarrow> string \<Rightarrow> string \<Rightarrow> duration \<Rightarrow> AState
    \<Rightarrow> go_error + (string \<times> string \<times> AState \<times> (AState \<Rightarrow> go_error + AClaim))" where
  "claimChange n agentID leaseID ttl st =
     (if list_ex (\<lambda>p. nAgentID (snd p) = agentID \<and> nState (snd p) = Claimed \<and> n < nLeaseExpiresAt (snd p)) (aInbox st)
      then Inl attErrLease else
      let inbox = map (\<lambda>p. (fst p, release_expired agentID n (snd p))) (aInbox st);
          candidates = filter (\<lambda>x. nAgentID x = agentID \<and> nState x = Pending) (map snd inbox) in
      if candidates = [] then Inl ErrNoWork else
      let x = hd (sort_by before candidates);
          c = conversationOf st (nConversationID x);
          x' = x\<lparr>nState := Claimed, nLeaseID := leaseID, nLeaseExpiresAt := n + ttl, nClaimReadSeq := cvLastSeq c, nUpdatedAt := n\<rparr> in
      Inr (''claimed'', nID x',
        st\<lparr>aInbox := mput (nID x') x' inbox,
           aReadCursors := mput (cursorKey agentID (nConversationID x')) (nClaimReadSeq x') (aReadCursors st)\<rparr>,
        (\<lambda>st2. claimResult st2 (nID x'))))"

definition ClaimItem :: "env \<Rightarrow> string \<Rightarrow> string \<Rightarrow> string \<Rightarrow> duration \<Rightarrow> attDir \<Rightarrow> (go_error + AClaim) \<times> attDir" where
  "ClaimItem e agentID0 operationID0 leaseID0 ttl d =
     (case cerr e of Some err \<Rightarrow> (Inl err, d) | None \<Rightarrow>
      let agentID = TrimSpace agentID0; operationID = TrimSpace operationID0; leaseID1 = TrimSpace leaseID0 in
      if \<not> safeID agentID \<or> \<not> safeID operationID \<or> ttl \<le> 0 \<or> ttl > 24 * Hour
      then (Inl (Errorf ''agent, operation, and a ttl in (0,24h] are required''), d) else
      let leaseID = (if leaseID1 = [] then newID ''inbox-lease'' (ent e 0) else leaseID1) in
      if \<not> safeID leaseID then (Inl (Errorf ''invalid lease id''), d) else
      transact e operationID ''claim'' (semanticFingerprint ''claim'' (claim_json agentID leaseID ttl)) Inl
        (\<lambda>st x. claimResult st (aoEntityID x)) (claimChange (now e) agentID leaseID ttl) d)"

definition itemChange :: "time \<Rightarrow> (time \<Rightarrow> InboxItem \<Rightarrow> go_error + InboxItem) \<Rightarrow> string \<Rightarrow> AState
    \<Rightarrow> go_error + (string \<times> string \<times> AState \<times> (AState \<Rightarrow> go_error + InboxItem))" where
  "itemChange n upd itemID st = (case mget (aInbox st) itemID of None \<Rightarrow> Inl os_ErrNotExist
     | Some x \<Rightarrow> (case upd n x of Inl err \<Rightarrow> Inl err
        | Inr x1 \<Rightarrow> let x2 = x1\<lparr>nUpdatedAt := n\<rparr> in
            Inr (''committed'', nID x2, st\<lparr>aInbox := mput (nID x2) x2 (aInbox st)\<rparr>, (\<lambda>_. Inr x2))))"

text \<open>\<open>mutateItem\<close>, which only \<open>Ack\<close> uses.\<close>

definition mutateItem :: "env \<Rightarrow> string \<Rightarrow> string \<Rightarrow> json \<Rightarrow> string \<Rightarrow> (time \<Rightarrow> InboxItem \<Rightarrow> go_error + InboxItem) \<Rightarrow> attDir
    \<Rightarrow> (go_error + InboxItem) \<times> attDir" where
  "mutateItem e operationID action semantic itemID upd d =
     (case cerr e of Some err \<Rightarrow> (Inl err, d) | None \<Rightarrow>
      if \<not> safeID operationID \<or> \<not> safeID itemID then (Inl (Errorf ''operation and item ids are required''), d) else
      transact e operationID action (semanticFingerprint action semantic) Inl
        (\<lambda>st x. Inr (case mget (aInbox st) (aoEntityID x) of Some y \<Rightarrow> y | None \<Rightarrow> zeroItem))
        (itemChange (now e) upd itemID) d)"

definition ackUpdate :: "string \<Rightarrow> string \<Rightarrow> time \<Rightarrow> InboxItem \<Rightarrow> go_error + InboxItem" where
  "ackUpdate agentID leaseID n x =
     (if \<not> validLease x agentID leaseID n then Inl attErrLease
      else Inr (x\<lparr>nState := ItemDone, nLeaseID := [], nLeaseExpiresAt := 0\<rparr>))"

definition AckItem :: "env \<Rightarrow> string \<Rightarrow> string \<Rightarrow> string \<Rightarrow> string \<Rightarrow> attDir \<Rightarrow> (go_error + InboxItem) \<times> attDir" where
  "AckItem e itemID operationID agentID leaseID d =
     mutateItem e operationID ''ack'' (item_json itemID agentID leaseID) itemID (ackUpdate agentID leaseID) d"

definition refreshChange :: "time \<Rightarrow> string \<Rightarrow> string \<Rightarrow> string \<Rightarrow> AState
    \<Rightarrow> go_error + (string \<times> string \<times> AState \<times> (AState \<Rightarrow> go_error + AClaim))" where
  "refreshChange n itemID agentID leaseID st =
     (case mget (aInbox st) itemID of None \<Rightarrow> Inl attErrLease | Some x \<Rightarrow>
      if \<not> validLease x agentID leaseID n then Inl attErrLease else
      let c = conversationOf st (nConversationID x);
          x' = x\<lparr>nClaimReadSeq := cvLastSeq c, nUpdatedAt := n\<rparr> in
      Inr (''refreshed'', nID x',
        st\<lparr>aInbox := mput (nID x') x' (aInbox st),
           aReadCursors := mput (cursorKey agentID (nConversationID x')) (nClaimReadSeq x') (aReadCursors st)\<rparr>,
        (\<lambda>_. Inr \<lparr>acItem = x', acMessages = messagesRange c (nClaimReadSeq x + 1) (nClaimReadSeq x')\<rparr>)))"

definition Refresh :: "env \<Rightarrow> string \<Rightarrow> string \<Rightarrow> string \<Rightarrow> string \<Rightarrow> attDir \<Rightarrow> (go_error + AClaim) \<times> attDir" where
  "Refresh e itemID0 operationID0 agentID0 leaseID0 d =
     (case cerr e of Some err \<Rightarrow> (Inl err, d) | None \<Rightarrow>
      let itemID = TrimSpace itemID0; operationID = TrimSpace operationID0; agentID = TrimSpace agentID0;
          leaseID = TrimSpace leaseID0 in
      if \<not> safeID itemID \<or> \<not> safeID operationID \<or> \<not> safeID agentID \<or> \<not> safeID leaseID
      then (Inl (Errorf ''item, operation, agent, and lease ids are required''), d) else
      transact e operationID ''refresh'' (semanticFingerprint ''refresh'' (item_json itemID agentID leaseID)) Inl
        (\<lambda>st x. claimResult st (aoEntityID x)) (refreshChange (now e) itemID agentID leaseID) d)"

definition markOf :: "AState \<Rightarrow> string \<Rightarrow> WorkMark" where
  "markOf st key = (case mget (aWorkMarks st) key of Some m \<Rightarrow> m | None \<Rightarrow> zeroMark)"

definition setMarkChange :: "time \<Rightarrow> WorkMarkInput \<Rightarrow> AState
    \<Rightarrow> go_error + (string \<times> string \<times> AState \<times> (AState \<Rightarrow> go_error + WorkMark))" where
  "setMarkChange n input st =
     (let key = markKey (wiAgentID input) (wiConversationID input); m0 = markOf st key;
          m = m0\<lparr>wmAgentID := wiAgentID input, wmConversationID := wiConversationID input, wmTaskID := wiTaskID input,
                 wmReason := wiReason input, wmActive := True, wmRevision := wmRevision m0 + 1, wmUpdatedAt := n\<rparr> in
      Inr (''active'', key, st\<lparr>aWorkMarks := mput key m (aWorkMarks st)\<rparr>, (\<lambda>_. Inr m)))"

definition SetWorkMark :: "env \<Rightarrow> WorkMarkInput \<Rightarrow> attDir \<Rightarrow> (go_error + WorkMark) \<times> attDir" where
  "SetWorkMark e input0 d =
     (let input = normalizeWorkMark input0; key = markKey (wiAgentID input) (wiConversationID input) in
      if \<not> safeID (wiOperationID input) \<or> \<not> safeID (wiAgentID input) \<or> \<not> safeID (wiConversationID input)
         \<or> (wiTaskID input \<noteq> [] \<and> \<not> safeID (wiTaskID input)) \<or> wiReason input = []
      then (Inl (Errorf ''operation, agent, conversation, and reason are required''), d) else
      transact e (wiOperationID input) ''set_work_mark'' (semanticFingerprint ''set_work_mark'' (mark_json input)) Inl
        (\<lambda>st x. Inr (markOf st key))
        (setMarkChange (now e) input) d)"

definition clearMarkChange :: "time \<Rightarrow> string \<Rightarrow> AState
    \<Rightarrow> go_error + (string \<times> string \<times> AState \<times> (AState \<Rightarrow> go_error + WorkMark))" where
  "clearMarkChange n key st = (case mget (aWorkMarks st) key of
      None \<Rightarrow> Inl (Errorf ''active work mark not found'')
    | Some m0 \<Rightarrow>
        if \<not> wmActive m0 then Inl (Errorf ''active work mark not found'') else
        let m = m0\<lparr>wmActive := False, wmRevision := wmRevision m0 + 1, wmUpdatedAt := n\<rparr> in
        Inr (''cleared'', key, st\<lparr>aWorkMarks := mput key m (aWorkMarks st)\<rparr>, (\<lambda>_. Inr m)))"

definition ClearWorkMark :: "env \<Rightarrow> string \<Rightarrow> string \<Rightarrow> string \<Rightarrow> attDir \<Rightarrow> (go_error + WorkMark) \<times> attDir" where
  "ClearWorkMark e agentID conversationID operationID d =
     (let agent = TrimSpace agentID; conversation = TrimSpace conversationID; key = markKey agent conversation in
      if \<not> safeID agent \<or> \<not> safeID conversation \<or> \<not> safeID operationID
      then (Inl (Errorf ''operation, agent, and conversation are required''), d) else
      transact e operationID ''clear_work_mark'' (semanticFingerprint ''clear_work_mark'' (clear_json agent conversation)) Inl
        (\<lambda>st x. Inr (markOf st key))
        (clearMarkChange (now e) key) d)"

definition freshChange :: "env \<Rightarrow> FreshReplyInput \<Rightarrow> AState
    \<Rightarrow> go_error + (string \<times> string \<times> AState \<times> (AState \<Rightarrow> FreshReplyResult \<times> go_error option))" where
  "freshChange e f st =
     (case mget (aInbox st) (fItemID f) of None \<Rightarrow> Inl attErrLease | Some x \<Rightarrow>
      if \<not> validLease x (fAgentID f) (fLeaseID f) (now e) then Inl attErrLease else
      let c = conversationOf st (nConversationID x) in
      if fReadSeq f \<noteq> nClaimReadSeq x \<or> cvLastSeq c \<noteq> fReadSeq f then
        let dr = \<lparr>drOperationID = fOperationID f, drAgentID = fAgentID f, drConversationID = nConversationID x, drItemID = nID x,
                  drContent = fContent f, drBaseReadSeq = fReadSeq f, drLatestSeq = cvLastSeq c, drUpdatedAt = now e\<rparr> in
        Inr (''stale'', nID x, st\<lparr>aDrafts := mput (fOperationID f) dr (aDrafts st)\<rparr>,
          (\<lambda>_. (noReply\<lparr>frDraft := Some dr, frMissed := messagesAfter c (fReadSeq f)\<rparr>, Some ErrStale)))
      else if findMessageAny st (fMessageID f) \<noteq> None then Inl (Wrap ''message id already exists'' attErrConflict) else
      (case appendMessage (fMessageID f) (nConversationID x) (fAgentID f) ''agent'' (fContent f) (now e) st of (m, st1) \<Rightarrow>
       (case deliver e 0 m (now e) (fDeliveries f) (aInbox st1) of (items, inbox) \<Rightarrow>
        let x' = x\<lparr>nState := ItemDone, nLeaseID := [], nLeaseExpiresAt := 0, nUpdatedAt := now e\<rparr> in
        Inr (''sent'', mID m, st1\<lparr>aInbox := mput (nID x') x' inbox\<rparr>, (\<lambda>_. (noReply\<lparr>frSent := Some m\<rparr>, None))))))"

definition SendFresh :: "env \<Rightarrow> FreshReplyInput \<Rightarrow> attDir \<Rightarrow> (FreshReplyResult \<times> go_error option) \<times> attDir" where
  "SendFresh e f0 d =
     (let f = normalizeFreshReply f0 in
      case validateFreshReply f of Some err \<Rightarrow> ((noReply, Some err), d) | None \<Rightarrow>
      transact e (fOperationID f) ''send_fresh'' (semanticFingerprint ''send_fresh'' (fresh_json f))
        (\<lambda>err. (noReply, Some err)) replayFreshResult (freshChange e f) d)"

definition GetState :: "env \<Rightarrow> attDir \<Rightarrow> go_error + AState" where
  "GetState e d = (case cerr e of Some err \<Rightarrow> Inl err | None \<Rightarrow> readState d)"

end
