(* ===== verification/AttHistory.thy ===== *)
theory AttHistory
  imports Attention
begin

text \<open>
  The lemmas of the attention store: what the validation of its state says, the effect of an operation on the file, what each
  change keeps, and the histories of the store over any sequence of calls.
\<close>

section \<open>What a valid state is\<close>

lemma cursorKey_inj:
  assumes "safeID a" and "safeID a'"
  shows "cursorKey a c = cursorKey a' c' \<longleftrightarrow> a = a' \<and> c = c'"
proof -
  have nc: "\<not> safe_char (CHR '':'')" by (simp add: char_eval)
  have safe: "CHR '':'' \<notin> set w" if "safeID w" for w
  proof (cases w)
    case Nil
    then show ?thesis by simp
  next
    case (Cons x xs)
    with that nc have "\<forall>y\<in>set w. y \<noteq> CHR '':''" by (auto simp: list_all_iff safe_char_def is_alnum_def less_eq_char_def)
    then show ?thesis by blast
  qed
  have "takeWhile (\<lambda>x. x \<noteq> CHR '':'') (cursorKey w v) = w" if "safeID w" for w v
  proof -
    from safe [OF that] have "\<And>x. x \<in> set w \<Longrightarrow> x \<noteq> CHR '':''" by blast
    then show ?thesis by (simp add: cursorKey_def takeWhile_append2)
  qed
  with assms show ?thesis unfolding cursorKey_def by (metis append_same_eq same_append_eq)
qed

definition entry_ok :: "Conversation gomap \<Rightarrow> string \<Rightarrow> InboxItem \<Rightarrow> bool" where
  "entry_ok convs i x \<longleftrightarrow> item_valid convs i x \<and> nState x \<in> {Pending, Claimed, ItemDone} \<and>
     (nState x = Claimed \<longrightarrow> claimed_valid convs x) \<and> (nState x \<noteq> Claimed \<longrightarrow> nLeaseID x = [] \<and> nLeaseExpiresAt x = 0)"

definition item_key :: "InboxItem \<Rightarrow> string" where
  "item_key x = cursorKey (nAgentID x) (nConversationID x)"

definition open_keys :: "InboxItem gomap \<Rightarrow> string list" where
  "open_keys inbox = map (item_key \<circ> snd) (filter (\<lambda>p. nState (snd p) \<noteq> ItemDone) inbox)"

lemma scan_inbox_None:
  "scan_inbox convs seen xs = None \<longleftrightarrow>
     list_all (\<lambda>p. entry_ok convs (fst p) (snd p)) xs \<and> distinct (open_keys xs) \<and> set (open_keys xs) \<inter> set seen = {}"
proof (induction xs arbitrary: seen)
  case (Cons p xs)
  obtain i x where p: "p = (i, x)" by fastforce
  show ?case
    by (cases "entry_ok convs i x"; cases "nState x = ItemDone")
      (use Cons.IH in \<open>auto simp: p entry_ok_def open_keys_def item_key_def\<close>)
qed (simp add: open_keys_def)

lemma validateState_parts:
  assumes "validateState st = None"
  shows "scan_conversations [] (aConversations st) = None" and "scan_inbox (aConversations st) [] (aInbox st) = None"
    and "list_all (\<lambda>(k, m). mark_valid k m) (aWorkMarks st)"
    and "list_all (\<lambda>(k, d). draft_valid (aConversations st) k d) (aDrafts st)"
    and "ledger_ok aop_ok aoID aoRevision (aOperations st)" and "int (length (aOperations st)) = aRevision st"
  using assms by (auto simp: validateState_def split: if_splits option.splits)

lemma inbox_entry:
  "validateState st = None \<Longrightarrow> mget (aInbox st) i = Some x \<Longrightarrow> entry_ok (aConversations st) i x"
  using validateState_parts(2) [of st] by (auto simp: scan_inbox_None list_all_iff dest!: map_of_SomeD)

lemma inbox_id: "validateState st = None \<Longrightarrow> mget (aInbox st) i = Some x \<Longrightarrow> nID x = i"
  by (auto dest!: inbox_entry simp: entry_ok_def item_valid_def)

text \<open>An agent has at most one open item per conversation.\<close>

lemma open_unique:
  assumes "validateState st = None" and "mget (aInbox st) i = Some x" and "mget (aInbox st) j = Some y"
    and "nState x \<noteq> ItemDone" and "nState y \<noteq> ItemDone" and "item_key x = item_key y"
  shows "i = j"
proof -
  let ?xs = "filter (\<lambda>p. nState (snd p) \<noteq> ItemDone) (aInbox st)"
  from validateState_parts(2) [OF assms(1)] have d: "distinct (map (item_key \<circ> snd) ?xs)"
    by (simp add: scan_inbox_None open_keys_def)
  have "(i, x) \<in> set ?xs" "(j, y) \<in> set ?xs" using assms(2-5) by (auto dest: map_of_SomeD)
  moreover from d have "inj_on (item_key \<circ> snd) (set ?xs)" by (simp only: distinct_map)
  ultimately have "(i, x) = (j, y)" using assms(6) by (simp only: inj_on_def comp_def snd_conv)
  then show ?thesis by simp
qed

lemma scan_messages_Some:
  "scan_messages i n seen ms = Some seen' \<longleftrightarrow> seen' = rev (map mID ms) @ seen \<and> distinct (map mID ms) \<and>
     set (map mID ms) \<inter> set seen = {} \<and> map mSeq ms = map (\<lambda>k. int k + 1) [n..<n + length ms] \<and>
     list_all (\<lambda>m. mConversationID m = i \<and> safeID (mID m) \<and> safeID (mAuthorID m) \<and> mKind m \<noteq> [] \<and> mContent m \<noteq> [] \<and>
       mCreatedAt m \<noteq> 0) ms"
proof (induction ms arbitrary: n seen)
  case (Cons m ms)
  have "[n..<n + length (m # ms)] = n # [Suc n..<Suc n + length ms]" by (simp add: upt_rec)
  with Cons.IH [of "Suc n" "mID m # seen"] show ?case by auto
qed auto

lemma scan_conversations_in:
  "scan_conversations seen cs = None \<Longrightarrow> (i, c) \<in> set cs \<Longrightarrow>
     safeID i \<and> cvID c = i \<and> int (length (cvMessages c)) = cvLastSeq c \<and>
     map mSeq (cvMessages c) = map (\<lambda>k. int k + 1) [0..<length (cvMessages c)]"
  by (induction seen cs rule: scan_conversations.induct)
    (auto simp: scan_messages_Some split: if_splits option.splits)

lemma conversation_ok:
  "validateState st = None \<Longrightarrow> mget (aConversations st) i = Some c \<Longrightarrow>
     safeID i \<and> cvID c = i \<and> int (length (cvMessages c)) = cvLastSeq c \<and>
     map mSeq (cvMessages c) = map (\<lambda>k. int k + 1) [0..<length (cvMessages c)]"
  by (rule scan_conversations_in [OF validateState_parts(1)]) (auto dest: map_of_SomeD)

section \<open>The effect of an operation on the file\<close>

lemma readState_Inr: "readState d = Inr st \<longleftrightarrow> readJSON d attPath = Inr st \<and> validateState st = None"
  by (auto simp: readState_def split: sum.splits option.splits)

lemma writeState_eq:
  "writeState i st d = (case validateState st of Some err \<Rightarrow> (Some err, d) | None \<Rightarrow> atomicWrite i attPath st d)"
  by (cases i) (auto simp: writeState_def atomicWrite_def readState_def readJSON_update split: option.splits)

definition mk_aop :: "string \<times> string \<times> string \<Rightarrow> string \<Rightarrow> string \<Rightarrow> int \<Rightarrow> time \<Rightarrow> AOperation" where
  "mk_aop x i fp r t = \<lparr>aoID = i, aoAction = fst x, aoFingerprint = fp, aoOutcome = fst (snd x), aoEntityID = snd (snd x),
     aoRevision = r, aoCreatedAt = t\<rparr>"

interpretation aol: op_ledger aoID aoFingerprint aoRevision aop_ok mk_aop "\<lambda>_. True"
  by unfold_locales (auto simp: mk_aop_def aop_ok_def)

lemma appendOperation_ledger:
  "aOperations (appendOperation i act fp out ety n st) = aOperations st @ [mk_aop (act, out, ety) i fp (aRevision st + 1) n]"
  by (simp add: appendOperation_def mk_aop_def)

lemma appendOperation_rest [simp]:
  "aConversations (appendOperation i act fp out ety n st) = aConversations st"
  "aInbox (appendOperation i act fp out ety n st) = aInbox st"
  "aReadCursors (appendOperation i act fp out ety n st) = aReadCursors st"
  "aWorkMarks (appendOperation i act fp out ety n st) = aWorkMarks st"
  "aDrafts (appendOperation i act fp out ety n st) = aDrafts st"
  "aRevision (appendOperation i act fp out ety n st) = aRevision st + 1"
  "aSchemaVersion (appendOperation i act fp out ety n st) = aSchemaVersion st"
  by (simp_all add: appendOperation_def)

text \<open>Either the file is untouched and the answer is an error or a replay, or one operation is committed.\<close>

lemma transact_cases:
  assumes "transact e op act fp fail replay change d = (r, d')"
  obtains (failed) err where "d' = d" and "r = fail err"
  | (replayed) st x where "d' = d" and "readState d = Inr st" and "find_op aoID op (aOperations st) = Some x"
      and "aoFingerprint x = fp" and "r = replay st x"
  | (committed) st out ety st1 result where "readState d = Inr st" and "find_op aoID op (aOperations st) = None"
      and "change st = Inr (out, ety, st1, result)"
      and "validateState (appendOperation op act fp out ety (now e) st1) = None"
      and "d' = AList.update attPath (Record (appendOperation op act fp out ety (now e) st1)) d"
      and "r = result (appendOperation op act fp out ety (now e) st1) \<or> r = fail IOError"
proof (cases "readState d")
  case (Inl err)
  with assms failed show thesis by (auto simp: transact_def)
next
  case (Inr st)
  show thesis
  proof (cases "find_op aoID op (aOperations st)")
    case (Some x)
    with Inr assms show thesis using failed [of attErrConflict] replayed [of st x]
      by (auto simp: transact_def split: if_splits)
  next
    case None
    show thesis
    proof (cases "change st")
      case (Inl err)
      with None Inr assms failed show thesis by (auto simp: transact_def)
    next
      case c: (Inr res)
      obtain out ety st1 result where res: "res = (out, ety, st1, result)" by (metis prod_cases4)
      let ?st2 = "appendOperation op act fp out ety (now e) st1"
      have t: "transact e op act fp fail replay change d =
        (case writeState (wio e) ?st2 d of (Some err, d') \<Rightarrow> (fail err, d') | (None, d') \<Rightarrow> (result ?st2, d'))"
        using Inr None c res by (simp add: transact_def Let_def)
      show thesis
      proof (cases "validateState ?st2")
        case (Some err)
        with t assms failed show thesis by (auto simp: writeState_eq)
      next
        case v: None
        show thesis
        proof (cases "wio e")
          case Io_ok
          with t v assms have "d' = AList.update attPath (Record ?st2) d" "r = result ?st2"
            by (auto simp: writeState_eq atomicWrite_def)
          with committed [OF Inr None c [unfolded res] v] show thesis by blast
        next
          case Io_early
          with t v assms failed show thesis by (auto simp: writeState_eq atomicWrite_def)
        next
          case Io_late
          with t v assms have "d' = AList.update attPath (Record ?st2) d" "r = fail IOError"
            by (auto simp: writeState_eq atomicWrite_def)
          with committed [OF Inr None c [unfolded res] v] show thesis by blast
        qed
      qed
    qed
  qed
qed

lemma transact_commits:
  assumes "readState d = Inr st" and "find_op aoID op (aOperations st) = None" and "change st = Inr (out, ety, st1, result)"
    and "validateState (appendOperation op act fp out ety (now e) st1) = None" and "wio e = Io_ok"
  shows "transact e op act fp fail replay change d = (result (appendOperation op act fp out ety (now e) st1),
    AList.update attPath (Record (appendOperation op act fp out ety (now e) st1)) d)"
  using assms by (simp add: transact_def Let_def writeState_eq atomicWrite_def)

section \<open>What the changes keep\<close>

text \<open>No agent holds two items.\<close>

definition one_claim :: "InboxItem gomap \<Rightarrow> bool" where
  "one_claim inbox \<longleftrightarrow> (\<forall>i j x y. mget inbox i = Some x \<longrightarrow> mget inbox j = Some y \<longrightarrow> nState x = Claimed \<longrightarrow> nState y = Claimed \<longrightarrow>
     nAgentID x = nAgentID y \<longrightarrow> i = j)"

definition state_inv :: "AState \<Rightarrow> bool" where
  "state_inv st \<longleftrightarrow> wf_map (aInbox st) \<and> one_claim (aInbox st)"

definition att_le :: "AState \<Rightarrow> AState \<Rightarrow> bool" where
  "att_le st st' \<longleftrightarrow> prefix (aOperations st) (aOperations st') \<and>
     (\<forall>i. prefix (cvMessages (conversationOf st i)) (cvMessages (conversationOf st' i)))"

lemma att_le_refl [simp]: "att_le st st"
  by (simp add: att_le_def)

lemma att_le_trans: "att_le a b \<Longrightarrow> att_le b c \<Longrightarrow> att_le a c"
  unfolding att_le_def by (meson prefix_order.trans)

text \<open>Every item that is claimed afterwards was claimed by the same agent before.\<close>

definition claims_from :: "InboxItem gomap \<Rightarrow> InboxItem gomap \<Rightarrow> bool" where
  "claims_from inbox inbox' \<longleftrightarrow> (\<forall>i y. mget inbox' i = Some y \<longrightarrow> nState y = Claimed \<longrightarrow>
     (\<exists>x. mget inbox i = Some x \<and> nState x = Claimed \<and> nAgentID x = nAgentID y))"

lemma claims_from_refl [simp]: "claims_from inbox inbox"
  by (simp add: claims_from_def)

lemma claims_from_trans: "claims_from a b \<Longrightarrow> claims_from b c \<Longrightarrow> claims_from a c"
  unfolding claims_from_def by metis

lemma claims_from_one: "one_claim inbox \<Longrightarrow> claims_from inbox inbox' \<Longrightarrow> one_claim inbox'"
  unfolding one_claim_def claims_from_def by metis

lemma claims_from_put:
  "nState y \<noteq> Claimed \<or> (\<exists>x. mget inbox i = Some x \<and> nState x = Claimed \<and> nAgentID x = nAgentID y) \<Longrightarrow>
    claims_from inbox (mput i y inbox)"
  by (auto simp: claims_from_def)

lemma find_mget:
  assumes "wf_map m" and "find (\<lambda>p. P (snd p)) m = Some (i, x)"
  shows "mget m i = Some x \<and> P x"
proof -
  from assms(2) have "(i, x) \<in> set m \<and> P (snd (i, x))" by (metis find_Some_iff nth_mem)
  with mget_set [OF assms(1), of i x] show ?thesis by simp
qed

lemma deliver_inbox_keeps:
  "wf_map inbox \<Longrightarrow> deliver e k m n ds inbox = (items, inbox') \<Longrightarrow> wf_map inbox' \<and> claims_from inbox inbox'"
proof (induction ds arbitrary: k inbox items inbox')
  case (Cons d ds)
  let ?P = "\<lambda>p. open_for (dlAgentID d) (mConversationID m) (snd p)"
  define x where "x = (case find ?P inbox of None \<Rightarrow> newItemFor (newID ''inbox'' (ent e k)) m d n
      | Some (i, c) \<Rightarrow> c\<lparr>nID := i, nToSeq := mSeq m,
          nPriority := (if priorityRank (dlPriority d) < priorityRank (nPriority c) then dlPriority d else nPriority c),
          nUpdatedAt := n\<rparr>)"
  obtain items1 where r: "deliver e (Suc k) m n ds (mput (nID x) x inbox) = (items1, inbox')"
    using Cons.prems(2) by (auto simp: x_def Let_def prod_eq_iff)
  have "nState x \<noteq> Claimed \<or> (\<exists>c. mget inbox (nID x) = Some c \<and> nState c = Claimed \<and> nAgentID c = nAgentID x)"
  proof (cases "find ?P inbox")
    case None
    then show ?thesis by (simp add: x_def newItemFor_def)
  next
    case (Some p)
    obtain i c where p: "p = (i, c)" by fastforce
    from find_mget [OF Cons.prems(1) Some [unfolded p]] show ?thesis by (auto simp: x_def Some p)
  qed
  then have "claims_from inbox (mput (nID x) x inbox)" by (rule claims_from_put)
  moreover have "wf_map inbox' \<and> claims_from (mput (nID x) x inbox) inbox'" using Cons.IH [OF _ r] Cons.prems(1) by simp
  ultimately show ?case by (blast intro: claims_from_trans)
qed simp

lemma appendMessage_result:
  assumes "appendMessage i cv au kd ct n st = (m, st1)"
  shows "aInbox st1 = aInbox st" and "aOperations st1 = aOperations st" and "aRevision st1 = aRevision st" and "mID m = i"
    and "mConversationID m = cv" and "mSeq m = cvLastSeq (conversationOf st cv) + 1" and "mContent m = ct" and "mAuthorID m = au"
    and "conversationOf st1 j = (if j = cv then (conversationOf st cv)\<lparr>cvID := cv, cvLastSeq := mSeq m,
      cvMessages := cvMessages (conversationOf st cv) @ [m]\<rparr> else conversationOf st j)"
  using assms by (auto simp: appendMessage_def Let_def conversationOf_def)

lemma appendMessage_le: "appendMessage i cv au kd ct n st = (m, st1) \<Longrightarrow> att_le st st1"
  using appendMessage_result(2,9) [of i cv au kd ct n st m st1] by (simp add: att_le_def)

definition change_ok :: "(AState \<Rightarrow> go_error + (string \<times> string \<times> AState \<times> 'r)) \<Rightarrow> bool" where
  "change_ok change \<longleftrightarrow> (\<forall>st out ety st1 res. change st = Inr (out, ety, st1, res) \<longrightarrow> validateState st = None \<longrightarrow> state_inv st \<longrightarrow>
     state_inv st1 \<and> att_le st st1)"

lemma publishChange_ok: "change_ok (publishChange e p)"
proof -
  have "state_inv st1 \<and> att_le st st1"
    if c: "publishChange e p st = Inr (out, ety, st1, res)" and i: "state_inv st" for st out ety st1 res
  proof -
    obtain m s1 where m: "appendMessage (pMessageID p) (pConversationID p) (pAuthorID p) (pKind p) (pContent p) (now e) st = (m, s1)"
      by fastforce
    obtain items inbox where d: "deliver e 0 m (now e) (pDeliveries p) (aInbox st) = (items, inbox)" by fastforce
    have st1: "st1 = s1\<lparr>aInbox := inbox\<rparr>"
      using c d appendMessage_result(1) [OF m] by (simp add: publishChange_def m split: if_splits)
    have "att_le st s1" using m by (rule appendMessage_le)
    with st1 deliver_inbox_keeps [OF _ d] i show ?thesis
      by (auto simp: state_inv_def att_le_def conversationOf_def intro: claims_from_one)
  qed
  then show ?thesis unfolding change_ok_def by blast
qed

lemma freshChange_ok: "change_ok (freshChange e f)"
proof -
  have "state_inv st1 \<and> att_le st st1"
    if c: "freshChange e f st = Inr (out, ety, st1, res)" and v: "validateState st = None" and i: "state_inv st" for st out ety st1 res
  proof -
    from c obtain x where x: "mget (aInbox st) (fItemID f) = Some x" by (auto simp: freshChange_def split: option.splits)
    let ?c = "conversationOf st (nConversationID x)"
    show ?thesis
    proof (cases "fReadSeq f \<noteq> nClaimReadSeq x \<or> cvLastSeq ?c \<noteq> fReadSeq f")
      case True
      with c x have "\<exists>dr. st1 = st\<lparr>aDrafts := dr\<rparr>" by (auto simp: freshChange_def Let_def split: if_splits)
      with i show ?thesis by (auto simp: state_inv_def att_le_def conversationOf_def)
    next
      case False
      obtain m s1 where m: "appendMessage (fMessageID f) (nConversationID x) (fAgentID f) ''agent'' (fContent f) (now e) st = (m, s1)"
        by fastforce
      obtain items inbox where d: "deliver e 0 m (now e) (fDeliveries f) (aInbox st) = (items, inbox)" by fastforce
      let ?x = "x\<lparr>nState := ItemDone, nLeaseID := [], nLeaseExpiresAt := 0, nUpdatedAt := now e\<rparr>"
      have st1: "st1 = s1\<lparr>aInbox := mput (nID x) ?x inbox\<rparr>"
        using c x False d appendMessage_result(1) [OF m] by (auto simp: freshChange_def Let_def m split: if_splits)
      have "att_le st s1" using m by (rule appendMessage_le)
      moreover have "claims_from inbox (mput (nID x) ?x inbox)" by (rule claims_from_put) simp
      with deliver_inbox_keeps [OF _ d] i have "wf_map inbox \<and> claims_from (aInbox st) (mput (nID x) ?x inbox)"
        by (auto simp: state_inv_def intro: claims_from_trans)
      ultimately show ?thesis using i
        by (auto simp: st1 state_inv_def att_le_def conversationOf_def intro: claims_from_one)
    qed
  qed
  then show ?thesis unfolding change_ok_def by blast
qed

lemma refreshChange_ok: "change_ok (refreshChange n i agent lease)"
  unfolding change_ok_def
  by (auto simp: refreshChange_def Let_def validLease_def state_inv_def att_le_def conversationOf_def inbox_id
      intro!: claims_from_one [of _ "mput _ _ _"] claims_from_put split: option.splits if_splits)

lemma mget_map_snd: "mget (map (\<lambda>p. (fst p, f (snd p))) m) i = map_option f (mget m i)"
  by (induction m) auto

text \<open>The candidates of a claim and the item it takes.\<close>

definition released :: "string \<Rightarrow> time \<Rightarrow> AState \<Rightarrow> InboxItem gomap" where
  "released agent n st = map (\<lambda>p. (fst p, release_expired agent n (snd p))) (aInbox st)"

lemma released_get: "mget (released agent n st) i = map_option (release_expired agent n) (mget (aInbox st) i)"
  by (simp add: released_def mget_map_snd)

lemma released_wf [simp]: "wf_map (released agent n st) \<longleftrightarrow> wf_map (aInbox st)"
  by (simp add: released_def wf_map_def comp_def)

lemma claimChange_result:
  assumes "claimChange n agent lease ttl st = Inr (out, ety, st1, res)" and "wf_map (aInbox st)" and "validateState st = None"
  obtains x x' where "mget (released agent n st) (nID x) = Some x" and "nAgentID x = agent" and "nState x = Pending"
    and "\<And>i y. mget (released agent n st) i = Some y \<Longrightarrow> nAgentID y = agent \<Longrightarrow> nState y = Pending \<Longrightarrow> \<not> before y x"
    and "x' = x\<lparr>nState := Claimed, nLeaseID := lease, nLeaseExpiresAt := n + ttl,
        nClaimReadSeq := cvLastSeq (conversationOf st (nConversationID x)), nUpdatedAt := n\<rparr>"
    and "ety = nID x" and "st1 = st\<lparr>aInbox := mput (nID x) x' (released agent n st),
        aReadCursors := mput (cursorKey agent (nConversationID x)) (nClaimReadSeq x') (aReadCursors st)\<rparr>"
    and "res = (\<lambda>st2. claimResult st2 (nID x))" and "out = ''claimed''"
proof -
  let ?c = "filter (\<lambda>x. nAgentID x = agent \<and> nState x = Pending) (map snd (released agent n st))"
  from assms(1) have ne: "?c \<noteq> []" by (auto simp: claimChange_def Let_def released_def split: if_splits)
  define x where "x = hd (sort_by before ?c)"
  have "x \<in> set (sort_by before ?c)" unfolding x_def by (rule hd_in_set) (simp add: ne del: filter_empty_conv)
  then have "x \<in> set ?c" by (simp only: set_sort_by)
  then obtain i where i: "(i, x) \<in> set (released agent n st)" and x: "nAgentID x = agent" "nState x = Pending" by auto
  have wf: "wf_map (released agent n st)" using assms(2) by simp
  from i have g: "mget (released agent n st) i = Some x" by (simp add: mget_set [OF wf])
  then obtain x0 where "mget (aInbox st) i = Some x0" "x = release_expired agent n x0" by (auto simp: released_get)
  with inbox_id [OF assms(3)] have id: "nID x = i" by (simp add: release_expired_def)
  have trans: "before a b \<Longrightarrow> \<not> before c b \<Longrightarrow> before a c" for a b c
    by (auto simp: before_def split: if_splits)
  have asym: "before a b \<Longrightarrow> \<not> before b a" for a b by (auto simp: before_def split: if_splits)
  have least: "\<not> before y x"
    if "mget (released agent n st) j = Some y" "nAgentID y = agent" "nState y = Pending" for j y
  proof -
    have "y \<in> set ?c" using that by (auto dest!: map_of_SomeD intro!: image_eqI [of _ snd "(j, y)"])
    from sort_by_first [of before, OF trans asym this] show ?thesis by (simp add: x_def)
  qed
  show thesis
    by (rule that [OF g [folded id] x least refl]) 
      (use assms(1) ne in \<open>auto simp: claimChange_def Let_def released_def [symmetric] x_def [symmetric] split: if_splits\<close>)
qed

lemma claimChange_ok: "change_ok (claimChange n agent lease ttl)"
proof -
  have "state_inv st1 \<and> att_le st st1"
    if c: "claimChange n agent lease ttl st = Inr (out, ety, st1, res)" and v: "validateState st = None" and i: "state_inv st" for st out ety st1 res
  proof -
    from i have wf: "wf_map (aInbox st)" and one: "one_claim (aInbox st)" by (simp_all add: state_inv_def)
    obtain x' where x: "nAgentID x' = agent"
      and st1: "aInbox st1 = mput (nID x') x' (released agent n st)" "aConversations st1 = aConversations st" "aOperations st1 = aOperations st"
    proof (rule claimChange_result [OF c wf v], goal_cases)
      case (1 x x')
      show ?case by (rule 1(1) [of x']) (simp_all add: 1(3,6,8))
    qed
    have old: "mget (aInbox st) i = Some y \<and> nAgentID y \<noteq> agent"
      if "mget (released agent n st) i = Some y" "nState y = Claimed" for i y
    proof -
      from that(1) obtain z where z: "mget (aInbox st) i = Some z" "y = release_expired agent n z" by (auto simp: released_get)
      with that(2) show ?thesis by (cases "nAgentID z \<noteq> agent \<or> nState z \<noteq> Claimed") (auto simp: release_expired_def)
    qed
    have "one_claim (aInbox st1)" unfolding one_claim_def st1 mget_mput
      using one [unfolded one_claim_def] old x by (metis option.inject)
    then show ?thesis using wf by (simp add: state_inv_def st1 att_le_def conversationOf_def)
  qed
  then show ?thesis unfolding change_ok_def by blast
qed

lemma quiet_change_ok:
  assumes "\<And>st out ety st1 res. change st = Inr (out, ety, st1, res) \<Longrightarrow> validateState st = None \<Longrightarrow>
    (aInbox st1 = aInbox st \<or> (\<exists>i x. aInbox st1 = mput i x (aInbox st) \<and> nState x \<noteq> Claimed)) \<and>
    aConversations st1 = aConversations st \<and> aOperations st1 = aOperations st"
  shows "change_ok change"
proof -
  have "state_inv st1 \<and> att_le st st1"
    if "change st = Inr (out, ety, st1, res)" "validateState st = None" "state_inv st" for st out ety st1 res
    using assms [OF that(1,2)] that(3) claims_from_one [OF _ claims_from_put]
    by (auto simp: state_inv_def att_le_def conversationOf_def)
  then show ?thesis unfolding change_ok_def by blast
qed

text \<open>The changes leave the ledger to \<open>transact\<close>.\<close>

definition keeps_ops :: "(AState \<Rightarrow> go_error + (string \<times> string \<times> AState \<times> 'r)) \<Rightarrow> bool" where
  "keeps_ops change \<longleftrightarrow> (\<forall>st out ety st1 res. change st = Inr (out, ety, st1, res) \<longrightarrow> aOperations st1 = aOperations st)"

lemma publishChange_ops: "keeps_ops (publishChange e p)"
  using appendMessage_result(2) by (fastforce simp: keeps_ops_def publishChange_def split: prod.splits if_splits)

lemma freshChange_ops: "keeps_ops (freshChange e f)"
  using appendMessage_result(2) by (fastforce simp: keeps_ops_def freshChange_def Let_def split: prod.splits if_splits option.splits)

lemma claimChange_ops: "keeps_ops (claimChange n agent lease ttl)"
  by (auto simp: keeps_ops_def claimChange_def Let_def split: if_splits)

lemma refreshChange_ops: "keeps_ops (refreshChange n i agent lease)"
  by (auto simp: keeps_ops_def refreshChange_def Let_def split: if_splits option.splits)

section \<open>Histories of the store\<close>

definition att_inv :: "attDir \<Rightarrow> bool" where
  "att_inv d \<longleftrightarrow> (\<forall>st. readJSON d attPath = Inr st \<longrightarrow> state_inv st)"

definition file_le :: "attDir \<Rightarrow> attDir \<Rightarrow> bool" where
  "file_le d d' \<longleftrightarrow> (\<forall>st. readState d = Inr st \<longrightarrow> (\<exists>st'. readState d' = Inr st' \<and> att_le st st'))"

definition recorded_op :: "string \<Rightarrow> string \<Rightarrow> attDir \<Rightarrow> bool" where
  "recorded_op op fp d \<longleftrightarrow> (\<exists>st x. readState d = Inr st \<and> find_op aoID op (aOperations st) = Some x \<and> aoFingerprint x = fp)"

lemma file_le_refl [simp]: "file_le d d"
  by (auto simp: file_le_def intro: att_le_refl)

lemma file_le_trans: "file_le a b \<Longrightarrow> file_le b c \<Longrightarrow> file_le a c"
  unfolding file_le_def by (meson att_le_trans)

text \<open>What one call does to the file: a known operation changes nothing, a change records the operation, a success is recorded, and
  the invariant and the history are kept.\<close>

definition ledgered :: "string \<Rightarrow> string \<Rightarrow> bool \<Rightarrow> attDir \<Rightarrow> attDir \<Rightarrow> bool" where
  "ledgered op fp success d d' \<longleftrightarrow> (recorded_op op fp d \<longrightarrow> d' = d) \<and> (d' = d \<or> recorded_op op fp d') \<and>
     (success \<longrightarrow> recorded_op op fp d') \<and> (att_inv d \<longrightarrow> att_inv d' \<and> file_le d d')"

lemma ledgered_refused [simp]: "ledgered op fp False d d"
  by (simp add: ledgered_def)

lemma state_inv_append [simp]: "state_inv (appendOperation i act fp out ety n st) = state_inv st"
  by (simp add: state_inv_def)

lemma transact_ledgered:
  assumes "change_ok change" and "keeps_ops change" and "transact e op act fp fail replay change d = (r, d')"
    and "success \<Longrightarrow> \<forall>err. r \<noteq> fail err"
  shows "ledgered op fp success d d'"
  using assms(3)
proof (cases rule: transact_cases)
  case (failed err)
  with assms(4) show ?thesis by (auto simp: ledgered_def)
next
  case (replayed st x)
  then show ?thesis by (auto simp: ledgered_def recorded_op_def)
next
  case (committed st out ety st1 result)
  let ?u = "appendOperation op act fp out ety (now e) st1"
  have ops: "aOperations st1 = aOperations st" using assms(2) committed(3) unfolding keeps_ops_def by blast
  have read: "readState d' = Inr ?u" by (simp add: readState_Inr committed(4,5) readJSON_update)
  have led: "aOperations ?u = aOperations st @ [mk_aop (act, out, ety) op fp (aRevision st1 + 1) (now e)]"
    by (simp only: appendOperation_ledger ops)
  have "recorded_op op fp d'"
    unfolding recorded_op_def using read led aol.commit_found [OF committed(2)] by (auto simp: mk_aop_def)
  moreover have "\<not> recorded_op op fp d" using committed(1,2) by (auto simp: recorded_op_def)
  moreover have "att_inv d' \<and> file_le d d'" if "att_inv d"
  proof -
    from committed(1) have v: "readJSON d attPath = Inr st" "validateState st = None" by (simp_all add: readState_Inr)
    with that have "state_inv st" by (simp add: att_inv_def)
    with assms(1) committed(3) v(2) have s: "state_inv st1" "att_le st st1" unfolding change_ok_def by blast+
    have "att_le st ?u" using s(2) led by (auto simp: att_le_def conversationOf_def)
    with s(1) committed(1) read show ?thesis by (auto simp: att_inv_def file_le_def readState_Inr)
  qed
  ultimately show ?thesis by (simp add: ledgered_def)
qed

section \<open>Requests\<close>

datatype att_req =
    QPublish PublishInput
  | QClaim string string string duration
  | QAck string string string string
  | QRefresh string string string string
  | QSetMark WorkMarkInput
  | QClearMark string string string
  | QSend FreshReplyInput

definition reported :: "(go_error + 'a) \<times> attDir \<Rightarrow> (go_error + unit) \<times> attDir" where
  "reported x = (map_sum id (\<lambda>_. ()) (fst x), snd x)"

definition reported_fresh :: "(FreshReplyResult \<times> go_error option) \<times> attDir \<Rightarrow> (go_error + unit) \<times> attDir" where
  "reported_fresh x = (case snd (fst x) of None \<Rightarrow> Inr () | Some err \<Rightarrow> Inl err, snd x)"

fun do_att :: "att_req \<Rightarrow> env \<Rightarrow> attDir \<Rightarrow> (go_error + unit) \<times> attDir" where
  "do_att (QPublish p) e d = reported (Publish e p d)"
| "do_att (QClaim agent op lease ttl) e d = reported (ClaimItem e agent op lease ttl d)"
| "do_att (QAck i op agent lease) e d = reported (AckItem e i op agent lease d)"
| "do_att (QRefresh i op agent lease) e d = reported (Refresh e i op agent lease d)"
| "do_att (QSetMark m) e d = reported (SetWorkMark e m d)"
| "do_att (QClearMark agent cv op) e d = reported (ClearWorkMark e agent cv op d)"
| "do_att (QSend f) e d = reported_fresh (SendFresh e f d)"

fun att_op :: "att_req \<Rightarrow> string" where
  "att_op (QPublish p) = TrimSpace (pOperationID p)"
| "att_op (QClaim agent op lease ttl) = TrimSpace op"
| "att_op (QAck i op agent lease) = op"
| "att_op (QRefresh i op agent lease) = TrimSpace op"
| "att_op (QSetMark m) = TrimSpace (wiOperationID m)"
| "att_op (QClearMark agent cv op) = op"
| "att_op (QSend f) = TrimSpace (fOperationID f)"

text \<open>The fingerprint of a request; a claim without a lease id gets a new one on every attempt, so it names its lease here.\<close>

fun att_fingerprint :: "att_req \<Rightarrow> string" where
  "att_fingerprint (QPublish p) = semanticFingerprint ''publish'' (publish_json (normalizePublish p))"
| "att_fingerprint (QClaim agent op lease ttl) =
     semanticFingerprint ''claim'' (claim_json (TrimSpace agent) (TrimSpace lease) ttl)"
| "att_fingerprint (QAck i op agent lease) = semanticFingerprint ''ack'' (item_json i agent lease)"
| "att_fingerprint (QRefresh i op agent lease) =
     semanticFingerprint ''refresh'' (item_json (TrimSpace i) (TrimSpace agent) (TrimSpace lease))"
| "att_fingerprint (QSetMark m) = semanticFingerprint ''set_work_mark'' (mark_json (normalizeWorkMark m))"
| "att_fingerprint (QClearMark agent cv op) = semanticFingerprint ''clear_work_mark'' (clear_json (TrimSpace agent) (TrimSpace cv))"
| "att_fingerprint (QSend f) = semanticFingerprint ''send_fresh'' (fresh_json (normalizeFreshReply f))"

fun att_explicit :: "att_req \<Rightarrow> bool" where
  "att_explicit (QClaim agent op lease ttl) = (TrimSpace lease \<noteq> [])"
| "att_explicit _ = True"

lemma reported_ledgered:
  assumes "\<And>r d'. x = (r, d') \<Longrightarrow> ledgered op fp (\<exists>v. r = Inr v) d d'"
  shows "ledgered op fp (\<exists>v. fst (reported x) = Inr v) d (snd (reported x))"
proof -
  obtain r d' where x: "x = (r, d')" by fastforce
  have "(\<exists>v. fst (reported x) = Inr v) \<longleftrightarrow> (\<exists>v. r = Inr v)" by (cases r) (simp_all add: x reported_def)
  with assms [OF x] show ?thesis by (simp add: x reported_def)
qed

lemma transact_reported:
  assumes "change_ok change" and "keeps_ops change"
  shows "ledgered op fp (\<exists>v. fst (reported (transact e op act fp Inl replay change d)) = Inr v) d
    (snd (reported (transact e op act fp Inl replay change d)))"
  by (rule reported_ledgered) (rule transact_ledgered [OF assms], assumption, auto)

lemma transact_fresh_reported:
  assumes "change_ok change" and "keeps_ops change"
  shows "ledgered op fp (\<exists>v. fst (reported_fresh (transact e op act fp (\<lambda>err. (noReply, Some err)) replay change d)) = Inr v) d
    (snd (reported_fresh (transact e op act fp (\<lambda>err. (noReply, Some err)) replay change d)))"
proof -
  obtain r d' where x: "transact e op act fp (\<lambda>err. (noReply, Some err)) replay change d = (r, d')" by fastforce
  have "ledgered op fp (snd r = None) d d'" by (rule transact_ledgered [OF assms x]) auto
  then show ?thesis by (cases "snd r") (simp_all add: x reported_fresh_def)
qed

lemma reported_error [simp]: "reported (Inl err, d) = (Inl err, d)"
  by (simp add: reported_def)

lemma ackChange_ok: "change_ok (itemChange n (ackUpdate agent lease) i)"
proof (rule quiet_change_ok)
  fix st out ety st1 res assume "itemChange n (ackUpdate agent lease) i st = Inr (out, ety, st1, res)"
  then obtain y where "st1 = st\<lparr>aInbox := mput (nID y) (y\<lparr>nState := ItemDone, nLeaseID := [], nLeaseExpiresAt := 0, nUpdatedAt := n\<rparr>)
      (aInbox st)\<rparr>"
    by (auto simp: itemChange_def ackUpdate_def Let_def split: option.splits if_splits)
  then show "(aInbox st1 = aInbox st \<or> (\<exists>i x. aInbox st1 = mput i x (aInbox st) \<and> nState x \<noteq> Claimed)) \<and>
    aConversations st1 = aConversations st \<and> aOperations st1 = aOperations st"
    by (intro conjI disjI2 exI [of _ "nID y"] exI [of _ "y\<lparr>nState := ItemDone, nLeaseID := [], nLeaseExpiresAt := 0, nUpdatedAt := n\<rparr>"])
      simp_all
qed

lemma ackChange_ops: "keeps_ops (itemChange n (ackUpdate agent lease) i)"
  by (auto simp: keeps_ops_def itemChange_def Let_def split: option.splits sum.splits)

lemma setMarkChange_ok: "change_ok (setMarkChange n input)"
  by (rule quiet_change_ok) (auto simp: setMarkChange_def Let_def)

lemma setMarkChange_ops: "keeps_ops (setMarkChange n input)"
  by (auto simp: keeps_ops_def setMarkChange_def Let_def)

lemma clearMarkChange_ok: "change_ok (clearMarkChange n key)"
  by (rule quiet_change_ok) (auto simp: clearMarkChange_def Let_def split: option.splits if_splits)

lemma clearMarkChange_ops: "keeps_ops (clearMarkChange n key)"
  by (auto simp: keeps_ops_def clearMarkChange_def Let_def split: option.splits if_splits)

lemma do_att_ledgered:
  "\<exists>fp. ledgered (att_op r) fp (\<exists>v. fst (do_att r e d) = Inr v) d (snd (do_att r e d)) \<and> (att_explicit r \<longrightarrow> fp = att_fingerprint r)"
proof (cases r)
  case (QPublish p)
  have "pOperationID (normalizePublish p) = TrimSpace (pOperationID p)" by (simp add: normalizePublish_def)
  then show ?thesis
    using transact_reported [OF publishChange_ok publishChange_ops]
    by (cases "validatePublish (normalizePublish p)")
      (auto simp: QPublish Publish_def Let_def intro!: exI [of _ "att_fingerprint r"])
next
  case (QClaim agent op lease ttl)
  let ?l = "if TrimSpace lease = [] then newID ''inbox-lease'' (ent e 0) else TrimSpace lease"
  let ?fp = "semanticFingerprint ''claim'' (claim_json (TrimSpace agent) ?l ttl)"
  have "ledgered (att_op r) ?fp (\<exists>v. fst (do_att r e d) = Inr v) d (snd (do_att r e d))"
    using transact_reported [OF claimChange_ok claimChange_ops]
    by (cases "cerr e") (simp_all add: QClaim ClaimItem_def Let_def)
  then show ?thesis by (intro exI [of _ ?fp]) (simp add: QClaim)
next
  case (QAck i op agent lease)
  have "ledgered (att_op r) (att_fingerprint r) (\<exists>v. fst (do_att r e d) = Inr v) d (snd (do_att r e d))"
    using transact_reported [OF ackChange_ok ackChange_ops]
    by (cases "cerr e") (simp_all add: QAck AckItem_def mutateItem_def del: safeID.simps)
  then show ?thesis by blast
next
  case (QRefresh i op agent lease)
  have "ledgered (att_op r) (att_fingerprint r) (\<exists>v. fst (do_att r e d) = Inr v) d (snd (do_att r e d))"
    using transact_reported [OF refreshChange_ok refreshChange_ops]
    by (cases "cerr e") (simp_all add: QRefresh Refresh_def Let_def)
  then show ?thesis by blast
next
  case (QSetMark m)
  have w: "wiOperationID (normalizeWorkMark m) = TrimSpace (wiOperationID m)" by (simp add: normalizeWorkMark_def)
  have "ledgered (att_op r) (att_fingerprint r) (\<exists>v. fst (do_att r e d) = Inr v) d (snd (do_att r e d))"
    using transact_reported [OF setMarkChange_ok setMarkChange_ops]
    by (simp add: QSetMark SetWorkMark_def Let_def w del: safeID.simps)
  then show ?thesis by blast
next
  case (QClearMark agent cv op)
  have "ledgered (att_op r) (att_fingerprint r) (\<exists>v. fst (do_att r e d) = Inr v) d (snd (do_att r e d))"
    using transact_reported [OF clearMarkChange_ok clearMarkChange_ops]
    by (simp add: QClearMark ClearWorkMark_def Let_def del: safeID.simps)
  then show ?thesis by blast
next
  case (QSend f)
  have w: "fOperationID (normalizeFreshReply f) = TrimSpace (fOperationID f)" by (simp add: normalizeFreshReply_def)
  have r: "reported_fresh ((noReply, Some err), d) = (Inl err, d)" for err by (simp add: reported_fresh_def)
  show ?thesis
    using transact_fresh_reported [OF freshChange_ok freshChange_ops]
    by (cases "validateFreshReply (normalizeFreshReply f)")
      (auto simp: QSend SendFresh_def Let_def w r intro!: exI [of _ "att_fingerprint r"])
qed

datatype att_call = ACall att_req env

fun do_attention :: "att_call \<Rightarrow> attDir \<Rightarrow> unit \<times> attDir" where
  "do_attention (ACall r e) d = ((), snd (do_att r e d))"

lemma do_attention_step: "att_inv d \<Longrightarrow> att_inv (snd (do_attention c d)) \<and> file_le d (snd (do_attention c d))"
proof (cases c)
  case (ACall r e)
  assume "att_inv d"
  with do_att_ledgered [of r e d] show ?thesis by (auto simp: ACall ledgered_def)
qed

lemma attention_history:
  "att_inv d \<Longrightarrow> att_inv (run_steps do_attention cs d) \<and> file_le d (run_steps do_attention cs d)"
proof (induction cs arbitrary: d)
  case (Cons c cs)
  from do_attention_step [OF Cons.prems, of c] Cons.IH [of "snd (do_attention c d)"] show ?case
    by (auto intro: file_le_trans)
qed simp

interpretation attention: at_most_once "do_att r" "recorded_op (att_op r) (att_fingerprint r)" "\<lambda>d. att_explicit r" for r
proof
  fix d e assume "att_explicit r" and "recorded_op (att_op r) (att_fingerprint r) d"
  with do_att_ledgered [of r e d] show "snd (do_att r e d) = d" by (auto simp: ledgered_def)
next
  fix d e assume "att_explicit r" and "\<not> recorded_op (att_op r) (att_fingerprint r) d"
  with do_att_ledgered [of r e d] show "snd (do_att r e d) = d \<or> recorded_op (att_op r) (att_fingerprint r) (snd (do_att r e d))"
    by (auto simp: ledgered_def)
next
  fix d e v assume "att_explicit r" and "fst (do_att r e d) = Inr v"
  with do_att_ledgered [of r e d] show "recorded_op (att_op r) (att_fingerprint r) (snd (do_att r e d))"
    by (auto simp: ledgered_def)
qed

end
