(* ===== verification/AttProps.thy ===== *)
theory AttProps
  imports AttHistory
begin

text \<open>
  The properties of the attention store, over the lemmas of \<open>AttHistory\<close>: its append-only history and the single claim of an agent,
  retries, the order of claims, the delivery of messages, the freshness barrier of replies, and two defects of it.
\<close>

section \<open>A valid state after an operation\<close>

lemma valid_after:
  assumes "validateState st = None" and "find_op aoID op (aOperations st) = None" and "safeID op" and "safeDigest fp" and "n \<noteq> 0"
    and "aOperations st1 = aOperations st" and "aRevision st1 = aRevision st" and "aSchemaVersion st1 = aSchemaVersion st"
    and "scan_conversations [] (aConversations st1) = None" and "scan_inbox (aConversations st1) [] (aInbox st1) = None"
    and "list_all (\<lambda>(k, m). mark_valid k m) (aWorkMarks st1)"
  shows "validateState (appendOperation op act fp out ety n st1) =
    (if list_all (\<lambda>(k, d). draft_valid (aConversations st1) k d) (aDrafts st1) then None else Some (Errorf ''invalid stale draft''))"
proof -
  let ?u = "appendOperation op act fp out ety n st1"
  have rev: "int (length (aOperations st)) = aRevision st" and led: "ledger_ok aop_ok aoID aoRevision (aOperations st)"
    using validateState_parts [OF assms(1)] by simp_all
  have "aOperations ?u = aOperations st @ [mk_aop (act, out, ety) op fp (int (length (aOperations st)) + 1) n]"
    by (simp only: appendOperation_ledger assms(6,7) rev)
  with aol.commit_ok [OF led assms(2) _ assms(3-5)] have "ledger_ok aop_ok aoID aoRevision (aOperations ?u)"
    and "length (aOperations ?u) = Suc (length (aOperations st))" by simp_all
  moreover have "aSchemaVersion st = attSchemaVersion" "aRevision st \<ge> 0"
    using assms(1) by (auto simp: validateState_def split: if_splits)
  ultimately show ?thesis using rev assms(7-11) by (simp add: validateState_def)
qed

section \<open>A concrete conversation\<close>

text \<open>Message 1 of conversation \<open>c1\<close> waits for agent \<open>a\<close> as item \<open>i1\<close>, in the given state; \<open>k\<close> messages were sent and the item
  was claimed, if it is, after the first.\<close>

definition demo_message :: "string \<Rightarrow> int \<Rightarrow> Message" where
  "demo_message i k = \<lparr>mID = i, mConversationID = ''c1'', mSeq = k, mAuthorID = ''u'', mKind = ''x'', mContent = ''x'', mCreatedAt = 1\<rparr>"

definition demo_item :: "InboxState \<Rightarrow> int \<Rightarrow> InboxItem" where
  "demo_item s k = \<lparr>nID = ''i1'', nAgentID = ''a'', nConversationID = ''c1'', nFromSeq = 1, nToSeq = k, nPriority = PriorityDirect, nState = s,
     nLeaseID = (if s = Claimed then ''l1'' else []), nLeaseExpiresAt = (if s = Claimed then 200 else 0),
     nClaimReadSeq = (if s = Claimed then 1 else 0), nCreatedAt = 1, nUpdatedAt = 1\<rparr>"

definition demo_att :: "InboxState \<Rightarrow> Message list \<Rightarrow> AState" where
  "demo_att s ms = \<lparr>aSchemaVersion = 1, aRevision = 0, aConversations = [(''c1'', \<lparr>cvID = ''c1'', cvLastSeq = int (length ms), cvMessages = ms\<rparr>)],
     aInbox = [(''i1'', demo_item s (int (length ms)))], aReadCursors = [], aWorkMarks = [], aDrafts = [], aOperations = [], aUpdatedAt = 1\<rparr>"

definition demo_dir_att :: "AState \<Rightarrow> attDir" where
  "demo_dir_att st = [(attPath, Record st)]"

lemma demo_dir_att_read [simp]: "readJSON (demo_dir_att st) attPath = Inr st"
  by (simp add: demo_dir_att_def readJSON_def)

lemma demo_att_valid:
  "s \<in> {Pending, Claimed, ItemDone} \<Longrightarrow> ms \<in> {[demo_message ''m1'' 1], [demo_message ''m1'' 1, demo_message ''m2'' 2]} \<Longrightarrow>
    validateState (demo_att s ms) = None"
  by (auto simp: validateState_def demo_att_def demo_item_def demo_message_def attSchemaVersion_def item_valid_def claimed_valid_def
      validPriority_def ledger_ok_def char_eval)

lemma demo_att_inv: "att_inv (demo_dir_att (demo_att s ms))"
  by (auto simp: att_inv_def state_inv_def one_claim_def wf_map_def demo_att_def)

lemma demo_att_read:
  "s \<in> {Pending, Claimed, ItemDone} \<Longrightarrow> ms \<in> {[demo_message ''m1'' 1], [demo_message ''m1'' 1, demo_message ''m2'' 2]} \<Longrightarrow>
    readState (demo_dir_att (demo_att s ms)) = Inr (demo_att s ms)"
  by (simp add: readState_Inr demo_att_valid)

section \<open>Histories\<close>

text \<open>Over any sequence of calls, with any write failures, the messages of every conversation and the operation ledger only
  grow at the end, and no agent ever holds two claimed items.\<close>

theorem attention_append_only:
  assumes "att_inv d" and "readState d = Inr st"
  shows "\<exists>st'. readState (run_steps do_attention cs d) = Inr st' \<and> prefix (aOperations st) (aOperations st') \<and>
    (\<forall>i. prefix (cvMessages (conversationOf st i)) (cvMessages (conversationOf st' i))) \<and> one_claim (aInbox st')"
proof -
  note h = attention_history [OF assms(1), of cs]
  from h assms(2) obtain st' where s: "readState (run_steps do_attention cs d) = Inr st'" "att_le st st'"
    unfolding file_le_def by blast
  from h s(1) have "state_inv st'" by (simp add: att_inv_def readState_Inr)
  with s show ?thesis by (auto simp: att_le_def state_inv_def)
qed

theorem attention_append_only_witness:
  "\<exists>st' tl. readState (run_steps do_attention [ACall (QClaim ''a'' ''op1'' ''l1'' 5) demo_env, ACall (QAck ''i1'' ''op2'' ''a'' ''l1'') demo_env]
     (demo_dir_att (demo_att Pending [demo_message ''m1'' 1]))) = Inr st' \<and>
     cvMessages (conversationOf st' ''c1'') = demo_message ''m1'' 1 # tl"
proof -
  have r: "readState (demo_dir_att (demo_att Pending [demo_message ''m1'' 1])) = Inr (demo_att Pending [demo_message ''m1'' 1])"
    by (simp add: demo_att_read)
  have c: "cvMessages (conversationOf (demo_att Pending [demo_message ''m1'' 1]) ''c1'') = [demo_message ''m1'' 1]"
    by (simp add: conversationOf_def demo_att_def)
  from attention_append_only [OF demo_att_inv r, of "[ACall (QClaim ''a'' ''op1'' ''l1'' 5) demo_env, ACall (QAck ''i1'' ''op2'' ''a'' ''l1'') demo_env]"]
  show ?thesis using c by (metis append_Cons append_Nil prefixE)
qed

text \<open>However often one request is retried, with write failures in between, the file goes through at most one change, and once
  an attempt has reported success its operation is in the ledger.\<close>

theorem attention_at_most_once:
  assumes "att_explicit r"
  shows "(\<exists>d'. \<forall>k. run_steps (do_att r) (take k es) d \<in> {d, d'}) \<and>
    (Inr v \<in> set (outcomes (do_att r) es d) \<longrightarrow> recorded_op (att_op r) (att_fingerprint r) (run_steps (do_att r) es d))"
  using attention.one_effect [of r] attention.success_recorded [of r] assms by blast

lemma demo_safe [simp]: "safeID ''i1''" "safeID ''op1''" "safeID ''op2''" "safeID ''a''" "safeID ''l1''" "safeID ''m3''"
  by (simp_all add: char_eval)

lemma demo_trim [simp]: "TrimSpace ''i1'' = ''i1''" "TrimSpace ''op1'' = ''op1''" "TrimSpace ''op2'' = ''op2''" "TrimSpace ''a'' = ''a''"
    "TrimSpace ''l1'' = ''l1''" "TrimSpace ''m3'' = ''m3''" "TrimSpace ''x'' = ''x''"
  by (rule TrimSpace_safeID, simp add: char_eval)+

lemma demo_env_now [simp]: "now demo_env = 100" "wio demo_env = Io_ok" "cerr demo_env = None"
  by (simp_all add: demo_env_def)

lemma demo_item_get: "mget (aInbox (demo_att s ms)) ''i1'' = Some (demo_item s (int (length ms)))"
  by (simp add: demo_att_def)

lemma demo_lease: "validLease (demo_item Claimed k) ''a'' ''l1'' 100"
  by (simp add: demo_item_def validLease_def)

lemma demo_fresh_op: "find_op aoID op (aOperations (demo_att s ms)) = None"
  by (simp add: demo_att_def find_op_def)

text \<open>An acknowledgement of the claimed item, whatever has arrived since.\<close>

definition demo_acked :: "Message list \<Rightarrow> InboxItem" where
  "demo_acked ms = (demo_item Claimed (int (length ms)))\<lparr>nState := ItemDone, nLeaseID := [], nLeaseExpiresAt := 0, nUpdatedAt := 100\<rparr>"

lemma demo_ack:
  assumes "ms \<in> {[demo_message ''m1'' 1], [demo_message ''m1'' 1, demo_message ''m2'' 2]}"
  shows "\<exists>d'. AckItem demo_env ''i1'' ''op2'' ''a'' ''l1'' (demo_dir_att (demo_att Claimed ms)) = (Inr (demo_acked ms), d')"
proof -
  let ?st = "demo_att Claimed ms"
  let ?st1 = "?st\<lparr>aInbox := mput ''i1'' (demo_acked ms) (aInbox ?st)\<rparr>"
  have v: "validateState ?st = None" using assms by (intro demo_att_valid) auto
  have c: "itemChange 100 (ackUpdate ''a'' ''l1'') ''i1'' ?st = Inr (''committed'', ''i1'', ?st1, (\<lambda>_. Inr (demo_acked ms)))"
    using demo_lease by (simp add: itemChange_def ackUpdate_def demo_item_get demo_acked_def Let_def) (simp add: demo_item_def)
  have "scan_inbox (aConversations ?st1) [] (aInbox ?st1) = None"
    using assms by (auto simp: demo_att_def demo_acked_def demo_item_def item_valid_def validPriority_def char_eval)
  then have "validateState (appendOperation ''op2'' ''ack'' fp out ety 100 ?st1) = None" if "safeDigest fp" for fp out ety
    using valid_after [OF v demo_fresh_op demo_safe(3) that, of 100 ?st1] validateState_parts [OF v] by simp
  then show ?thesis using demo_att_read [of Claimed ms] assms c
    by (simp add: AckItem_def mutateItem_def transact_commits demo_fresh_op del: safeID.simps)
qed

theorem attention_at_most_once_witness:
  "recorded_op ''op2'' (att_fingerprint (QAck ''i1'' ''op2'' ''a'' ''l1''))
    (run_steps (do_att (QAck ''i1'' ''op2'' ''a'' ''l1'')) [demo_env, demo_env] (demo_dir_att (demo_att Claimed [demo_message ''m1'' 1])))"
proof -
  have "Inr () \<in> set (outcomes (do_att (QAck ''i1'' ''op2'' ''a'' ''l1'')) [demo_env, demo_env] (demo_dir_att (demo_att Claimed [demo_message ''m1'' 1])))"
    using demo_ack [of "[demo_message ''m1'' 1]"] by (auto simp: reported_def)
  moreover have "att_explicit (QAck ''i1'' ''op2'' ''a'' ''l1'')" by simp
  from conjunct2 [OF attention_at_most_once [OF this, of "[demo_env, demo_env]" "demo_dir_att (demo_att Claimed [demo_message ''m1'' 1])" "()"]] have "Inr () \<in> set (outcomes (do_att (QAck ''i1'' ''op2'' ''a'' ''l1''))
      [demo_env, demo_env] (demo_dir_att (demo_att Claimed [demo_message ''m1'' 1]))) \<longrightarrow> ?thesis" by (simp only: att_op.simps)
  ultimately show ?thesis by blast
qed

section \<open>The freshness barrier\<close>

lemma normal_reply [simp]:
  "fItemID (normalizeFreshReply f) = TrimSpace (fItemID f)" "fReadSeq (normalizeFreshReply f) = fReadSeq f"
  "fAgentID (normalizeFreshReply f) = TrimSpace (fAgentID f)" "fLeaseID (normalizeFreshReply f) = TrimSpace (fLeaseID f)"
  "fOperationID (normalizeFreshReply f) = TrimSpace (fOperationID f)" "fMessageID (normalizeFreshReply f) = TrimSpace (fMessageID f)"
  "fContent (normalizeFreshReply f) = TrimSpace (fContent f)"
  by (simp_all add: normalizeFreshReply_def)

lemma SendFresh_unfold:
  "SendFresh e f0 d = (case validateFreshReply (normalizeFreshReply f0) of Some err \<Rightarrow> ((noReply, Some err), d) | None \<Rightarrow>
      transact e (TrimSpace (fOperationID f0)) ''send_fresh'' (semanticFingerprint ''send_fresh'' (fresh_json (normalizeFreshReply f0)))
        (\<lambda>err. (noReply, Some err)) replayFreshResult (freshChange e (normalizeFreshReply f0)) d)"
  by (cases "validateFreshReply (normalizeFreshReply f0)") (simp_all add: SendFresh_def Let_def)

text \<open>C19. A new reply that is reported as sent came from the holder of a live lease whose claim has read exactly to the given
  sequence number, which was the last of the conversation. It is appended to that conversation as the next message and nowhere
  else, and the item is done.\<close>

theorem fresh_reply_sent:
  assumes "readState d = Inr st" and "find_op aoID (TrimSpace (fOperationID f)) (aOperations st) = None"
    and "SendFresh e f d = ((r, None), d')"
  shows "\<exists>x m st'. mget (aInbox st) (TrimSpace (fItemID f)) = Some x \<and>
    validLease x (TrimSpace (fAgentID f)) (TrimSpace (fLeaseID f)) (now e) \<and>
    nClaimReadSeq x = fReadSeq f \<and> cvLastSeq (conversationOf st (nConversationID x)) = fReadSeq f \<and>
    frSent r = Some m \<and> mSeq m = fReadSeq f + 1 \<and> mAuthorID m = TrimSpace (fAgentID f) \<and> mContent m = TrimSpace (fContent f) \<and>
    readState d' = Inr st' \<and> (\<forall>j. cvMessages (conversationOf st' j) =
      cvMessages (conversationOf st j) @ (if j = nConversationID x then [m] else [])) \<and>
    (\<exists>y. mget (aInbox st') (TrimSpace (fItemID f)) = Some y \<and> nState y = ItemDone)"
proof -
  let ?f = "normalizeFreshReply f"
  let ?op = "TrimSpace (fOperationID f)"
  from assms(3) have "transact e ?op ''send_fresh'' (semanticFingerprint ''send_fresh'' (fresh_json ?f))
      (\<lambda>err. (noReply, Some err)) replayFreshResult (freshChange e ?f) d = ((r, None), d')"
    by (auto simp: SendFresh_unfold split: option.splits)
  then show ?thesis
  proof (cases rule: transact_cases)
    case failed
    then show ?thesis by simp
  next
    case replayed
    with assms(1,2) show ?thesis by simp
  next
    case (committed st0 out ety st1 result)
    from committed(1) assms(1) have st0: "st0 = st" by simp
    from committed(6) have res: "result (appendOperation ?op ''send_fresh'' (semanticFingerprint ''send_fresh'' (fresh_json ?f)) out ety (now e) st1) = (r, None)"
      by auto
    obtain x where x: "mget (aInbox st) (fItemID ?f) = Some x" "validLease x (fAgentID ?f) (fLeaseID ?f) (now e)"
      using committed(3) by (auto simp: freshChange_def st0 split: option.splits if_splits)
    have read: "fReadSeq f = nClaimReadSeq x" "cvLastSeq (conversationOf st (nConversationID x)) = fReadSeq f"
      using committed(3) res x by (auto simp: freshChange_def st0 Let_def split: if_splits)
    obtain m s1 where m: "appendMessage (fMessageID ?f) (nConversationID x) (fAgentID ?f) ''agent'' (fContent ?f) (now e) st = (m, s1)"
      by fastforce
    obtain items inbox where dv: "deliver e 0 m (now e) (fDeliveries ?f) (aInbox s1) = (items, inbox)" by fastforce
    let ?x = "x\<lparr>nState := ItemDone, nLeaseID := [], nLeaseExpiresAt := 0, nUpdatedAt := now e\<rparr>"
    from committed(3) x read m dv have st1: "st1 = s1\<lparr>aInbox := mput (nID x) ?x inbox\<rparr>" "result = (\<lambda>_. (noReply\<lparr>frSent := Some m\<rparr>, None))"
      by (auto simp: freshChange_def st0 Let_def split: if_splits)
    have id: "nID x = TrimSpace (fItemID f)" using inbox_id [of st] x(1) committed(1) by (simp add: readState_Inr st0)
    let ?u = "appendOperation ?op ''send_fresh'' (semanticFingerprint ''send_fresh'' (fresh_json ?f)) out ety (now e) st1"
    have "readState d' = Inr ?u" using committed(4,5) by (simp add: readState_Inr readJSON_update)
    moreover have "conversationOf ?u j = conversationOf s1 j" for j by (simp add: conversationOf_def st1(1))
    moreover have "mget (aInbox ?u) (TrimSpace (fItemID f)) = Some ?x" by (simp add: st1(1) id)
    moreover have "frSent r = Some m" using res by (auto simp: st1(2))
    ultimately show ?thesis
      using x read appendMessage_result [OF m] by (intro exI [of _ x] exI [of _ m] exI [of _ ?u]) simp
  qed
qed

definition demo_reply :: "int \<Rightarrow> FreshReplyInput" where
  "demo_reply k = \<lparr>fOperationID = ''op2'', fMessageID = ''m3'', fAgentID = ''a'', fItemID = ''i1'', fLeaseID = ''l1'', fReadSeq = k,
     fContent = ''x'', fDeliveries = []\<rparr>"

lemma demo_reply_normal [simp]: "normalizeFreshReply (demo_reply k) = demo_reply k"
  by (simp add: normalizeFreshReply_def demo_reply_def normalizeDeliveries_def sort_by_def)

lemma demo_reply_fields [simp]:
  "fOperationID (demo_reply k) = ''op2''" "fMessageID (demo_reply k) = ''m3''" "fAgentID (demo_reply k) = ''a''" "fItemID (demo_reply k) = ''i1''"
  "fLeaseID (demo_reply k) = ''l1''" "fReadSeq (demo_reply k) = k" "fContent (demo_reply k) = ''x''" "fDeliveries (demo_reply k) = []"
  by (simp_all add: demo_reply_def)

lemma demo_reply_valid [simp]: "k > 0 \<Longrightarrow> validateFreshReply (demo_reply k) = None"
  by (simp add: validateFreshReply_def del: safeID.simps)

lemma demo_conversation [simp]:
  "conversationOf (demo_att s ms) j = (if j = ''c1'' then \<lparr>cvID = ''c1'', cvLastSeq = int (length ms), cvMessages = ms\<rparr> else zeroConversation)"
  by (simp add: conversationOf_def demo_att_def)

lemma demo_sent: "\<exists>d'. SendFresh demo_env (demo_reply 1) (demo_dir_att (demo_att Claimed [demo_message ''m1'' 1])) =
    ((noReply\<lparr>frSent := Some (demo_message ''m3'' 2 \<lparr>mAuthorID := ''a'', mKind := ''agent'', mCreatedAt := 100\<rparr>)\<rparr>, None), d')"
proof -
  let ?st = "demo_att Claimed [demo_message ''m1'' 1]" and ?m = "demo_message ''m3'' 2 \<lparr>mAuthorID := ''a'', mKind := ''agent'', mCreatedAt := 100\<rparr>"
  let ?x = "(demo_item Claimed 1)\<lparr>nState := ItemDone, nLeaseID := [], nLeaseExpiresAt := 0, nUpdatedAt := 100\<rparr>"
  let ?st1 = "?st\<lparr>aConversations := [(''c1'', \<lparr>cvID = ''c1'', cvLastSeq = 2, cvMessages = [demo_message ''m1'' 1, ?m]\<rparr>)], aInbox := [(''i1'', ?x)]\<rparr>"
  have v: "validateState ?st = None" by (simp add: demo_att_valid)
  have "findMessageAny ?st ''m3'' = None" by (simp add: findMessageAny_def demo_att_def demo_message_def)
  then have c: "freshChange demo_env (demo_reply 1) ?st = Inr (''sent'', ''m3'', ?st1, (\<lambda>_. (noReply\<lparr>frSent := Some ?m\<rparr>, None)))"
    using demo_lease [of 1] by (simp add: freshChange_def demo_item_get appendMessage_def Let_def)
      (simp add: demo_item_def demo_att_def demo_message_def)
  have "scan_conversations [] (aConversations ?st1) = None" "scan_inbox (aConversations ?st1) [] (aInbox ?st1) = None"
    by (simp_all add: demo_message_def demo_item_def item_valid_def validPriority_def char_eval)
  then have "validateState (appendOperation ''op2'' ''send_fresh'' fp out ety 100 ?st1) = None" if "safeDigest fp" for fp out ety
    using valid_after [OF v demo_fresh_op demo_safe(3) that, of 100 ?st1] by (simp add: demo_att_def)
  then show ?thesis using c by (simp add: SendFresh_unfold transact_commits demo_att_read demo_fresh_op)
qed

theorem fresh_reply_sent_witness:
  "cvLastSeq (conversationOf (demo_att Claimed [demo_message ''m1'' 1]) ''c1'') = fReadSeq (demo_reply 1) \<and>
   nClaimReadSeq (demo_item Claimed 1) = fReadSeq (demo_reply 1)"
proof -
  obtain d' where s: "SendFresh demo_env (demo_reply 1) (demo_dir_att (demo_att Claimed [demo_message ''m1'' 1])) =
    ((noReply\<lparr>frSent := Some (demo_message ''m3'' 2 \<lparr>mAuthorID := ''a'', mKind := ''agent'', mCreatedAt := 100\<rparr>)\<rparr>, None), d')"
    using demo_sent by blast
  have r: "readState (demo_dir_att (demo_att Claimed [demo_message ''m1'' 1])) = Inr (demo_att Claimed [demo_message ''m1'' 1])"
    by (simp add: demo_att_read)
  have "nConversationID (demo_item Claimed 1) = ''c1''" by (simp add: demo_item_def)
  with fresh_reply_sent [OF r _ s] show ?thesis by (auto simp: demo_fresh_op demo_item_get)
qed

text \<open>When the claim has not read to the given sequence number, or the conversation has moved past it, the reply is not sent:
  the call fails and no conversation changes, whatever the write does.\<close>

theorem stale_reply_held:
  assumes "readState d = Inr st" and "find_op aoID (TrimSpace (fOperationID f)) (aOperations st) = None"
    and "mget (aInbox st) (TrimSpace (fItemID f)) = Some x"
    and "fReadSeq f \<noteq> nClaimReadSeq x \<or> fReadSeq f \<noteq> cvLastSeq (conversationOf st (nConversationID x))"
  shows "\<exists>r err d' st'. SendFresh e f d = ((r, Some err), d') \<and> frSent r = None \<and>
    readState d' = Inr st' \<and> aConversations st' = aConversations st \<and> aInbox st' = aInbox st"
proof -
  let ?f = "normalizeFreshReply f"
  let ?op = "TrimSpace (fOperationID f)"
  obtain r d' where s: "SendFresh e f d = (r, d')" by fastforce
  show ?thesis
  proof (cases "validateFreshReply ?f")
    case (Some err)
    with s assms(1) show ?thesis by (auto simp: SendFresh_unfold noReply_def)
  next
    case None
    with s have "transact e ?op ''send_fresh'' (semanticFingerprint ''send_fresh'' (fresh_json ?f))
      (\<lambda>err. (noReply, Some err)) replayFreshResult (freshChange e ?f) d = (r, d')" by (simp add: SendFresh_unfold)
    then show ?thesis
    proof (cases rule: transact_cases)
      case failed
      with s assms(1) show ?thesis by (auto simp: noReply_def)
    next
      case replayed
      with assms(1,2) show ?thesis by simp
    next
      case (committed st0 out ety st1 result)
      from committed(1) assms(1) have st0: "st0 = st" by simp
      let ?u = "appendOperation ?op ''send_fresh'' (semanticFingerprint ''send_fresh'' (fresh_json ?f)) out ety (now e) st1"
      from committed(3) assms(3,4) have "\<exists>dr. st1 = st\<lparr>aDrafts := dr\<rparr>" and "\<exists>dr ms. result = (\<lambda>_. (noReply\<lparr>frDraft := Some dr, frMissed := ms\<rparr>, Some ErrStale))"
        by (auto simp: freshChange_def st0 Let_def split: if_splits)
      moreover have "readState d' = Inr ?u" using committed(4,5) by (simp add: readState_Inr readJSON_update)
      ultimately show ?thesis using committed(6) s by (auto simp: noReply_def)
    qed
  qed
qed

theorem stale_reply_held_witness:
  "\<exists>r err d'. SendFresh demo_env (demo_reply 1) (demo_dir_att (demo_att Claimed [demo_message ''m1'' 1, demo_message ''m2'' 2])) = ((r, Some err), d') \<and>
    frSent r = None"
  using stale_reply_held [of "demo_dir_att (demo_att Claimed [demo_message ''m1'' 1, demo_message ''m2'' 2])"
      "demo_att Claimed [demo_message ''m1'' 1, demo_message ''m2'' 2]" "demo_reply 1" "demo_item Claimed 2" demo_env]
  by (simp add: demo_att_read demo_fresh_op demo_item_get) (auto simp: demo_item_def)

text \<open>The change of a reply that is not fresh.\<close>

definition staleDraft :: "env \<Rightarrow> FreshReplyInput \<Rightarrow> InboxItem \<Rightarrow> AState \<Rightarrow> Draft" where
  "staleDraft e f x st = \<lparr>drOperationID = fOperationID f, drAgentID = fAgentID f, drConversationID = nConversationID x, drItemID = nID x,
     drContent = fContent f, drBaseReadSeq = fReadSeq f, drLatestSeq = cvLastSeq (conversationOf st (nConversationID x)),
     drUpdatedAt = now e\<rparr>"

lemma freshChange_stale:
  assumes "mget (aInbox st) (fItemID f) = Some x" and "validLease x (fAgentID f) (fLeaseID f) (now e)"
    and "fReadSeq f \<noteq> nClaimReadSeq x \<or> fReadSeq f \<noteq> cvLastSeq (conversationOf st (nConversationID x))"
  shows "freshChange e f st = Inr (''stale'', nID x, st\<lparr>aDrafts := mput (fOperationID f) (staleDraft e f x st) (aDrafts st)\<rparr>,
    (\<lambda>_. (noReply\<lparr>frDraft := Some (staleDraft e f x st),
       frMissed := messagesAfter (conversationOf st (nConversationID x)) (fReadSeq f)\<rparr>, Some ErrStale)))"
  using assms by (auto simp: freshChange_def Let_def staleDraft_def)

lemma list_all_mput: "wf_map m \<Longrightarrow> list_all P m \<Longrightarrow> list_all P (mput k v m) \<longleftrightarrow> P (k, v)"
  by (auto simp: list_all_iff set_mput)

lemma stale_valid:
  assumes "readState d = Inr st" and "find_op aoID (fOperationID f) (aOperations st) = None" and "validateFreshReply f = None"
    and "mget (aInbox st) (fItemID f) = Some x" and "validLease x (fAgentID f) (fLeaseID f) (now e)" and "now e \<noteq> 0"
    and "wf_map (aDrafts st)" and "safeDigest fp"
  shows "validateState (appendOperation (fOperationID f) act fp out ety (now e)
      (st\<lparr>aDrafts := mput (fOperationID f) (staleDraft e f x st) (aDrafts st)\<rparr>)) =
    (if fReadSeq f < cvLastSeq (conversationOf st (nConversationID x)) then None else Some (Errorf ''invalid stale draft''))"
proof -
  let ?d = "staleDraft e f x st"
  let ?st1 = "st\<lparr>aDrafts := mput (fOperationID f) ?d (aDrafts st)\<rparr>"
  from assms(1) have v: "validateState st = None" by (simp add: readState_Inr)
  from inbox_entry [OF v assms(4)] have x: "safeID (nID x)" and cv: "mget (aConversations st) (nConversationID x) \<noteq> None"
    by (auto simp: entry_ok_def item_valid_def split: option.splits)
  from assms(3) have f: "safeID (fOperationID f)" "safeID (fAgentID f)" "fReadSeq f > 0" "fContent f \<noteq> []"
    by (auto simp: validateFreshReply_def split: if_splits)
  have "draft_valid (aConversations st) (fOperationID f) ?d \<longleftrightarrow> fReadSeq f < cvLastSeq (conversationOf st (nConversationID x))"
    using x cv f assms(6) by (auto simp: draft_valid_def staleDraft_def conversationOf_def simp del: safeID.simps)
  moreover have "list_all (\<lambda>(k, d). draft_valid (aConversations st) k d) (mput (fOperationID f) ?d (aDrafts st)) \<longleftrightarrow>
      draft_valid (aConversations st) (fOperationID f) ?d"
    using list_all_mput [OF assms(7) validateState_parts(4) [OF v]] by simp
  ultimately show ?thesis
    using valid_after [OF v assms(2) f(1) assms(8,6), of ?st1] validateState_parts [OF v] by simp
qed

text \<open>A valid reply by the holder of the lease, for a conversation that has moved past the sequence number it was written for, is
  kept: the write stores the draft with the two sequence numbers, and the answer is \<open>ErrStale\<close> with the messages the agent missed.\<close>

theorem stale_reply_saved:
  assumes "readState d = Inr st" and "find_op aoID (TrimSpace (fOperationID f)) (aOperations st) = None"
    and "validateFreshReply (normalizeFreshReply f) = None" and "mget (aInbox st) (TrimSpace (fItemID f)) = Some x"
    and "validLease x (TrimSpace (fAgentID f)) (TrimSpace (fLeaseID f)) (now e)" and "now e \<noteq> 0" and "wio e = Io_ok"
    and "wf_map (aDrafts st)" and "fReadSeq f < cvLastSeq (conversationOf st (nConversationID x))"
  shows "\<exists>d' st' dr. SendFresh e f d = ((\<lparr>frSent = None, frDraft = Some dr,
      frMissed = messagesAfter (conversationOf st (nConversationID x)) (fReadSeq f)\<rparr>, Some ErrStale), d') \<and>
    readState d' = Inr st' \<and> mget (aDrafts st') (TrimSpace (fOperationID f)) = Some dr \<and> drContent dr = TrimSpace (fContent f) \<and>
    drBaseReadSeq dr = fReadSeq f \<and> drLatestSeq dr = cvLastSeq (conversationOf st (nConversationID x))"
proof -
  let ?f = "normalizeFreshReply f"
  let ?dr = "staleDraft e ?f x st"
  let ?u = "appendOperation (TrimSpace (fOperationID f)) ''send_fresh'' (semanticFingerprint ''send_fresh'' (fresh_json ?f)) ''stale'' (nID x)
    (now e) (st\<lparr>aDrafts := mput (TrimSpace (fOperationID f)) ?dr (aDrafts st)\<rparr>)"
  have v: "validateState ?u = None"
    using stale_valid [of d st ?f x e] assms by simp
  have "SendFresh e f d = ((noReply\<lparr>frDraft := Some ?dr, frMissed := messagesAfter (conversationOf st (nConversationID x)) (fReadSeq f)\<rparr>,
      Some ErrStale), AList.update attPath (Record ?u) d)"
    using assms freshChange_stale [of st ?f x e] v by (simp add: SendFresh_unfold transact_commits)
  moreover have "readState (AList.update attPath (Record ?u) d) = Inr ?u" using v by (simp add: readState_Inr readJSON_update)
  ultimately show ?thesis
    by (intro exI [of _ "AList.update attPath (Record ?u) d"] exI [of _ ?u] exI [of _ ?dr]) (simp add: noReply_def staleDraft_def)
qed

theorem stale_reply_saved_witness:
  "\<exists>d' dr. SendFresh demo_env (demo_reply 1) (demo_dir_att (demo_att Claimed [demo_message ''m1'' 1, demo_message ''m2'' 2])) =
     ((\<lparr>frSent = None, frDraft = Some dr, frMissed = [demo_message ''m2'' 2]\<rparr>, Some ErrStale), d')"
  using stale_reply_saved [of "demo_dir_att (demo_att Claimed [demo_message ''m1'' 1, demo_message ''m2'' 2])"
      "demo_att Claimed [demo_message ''m1'' 1, demo_message ''m2'' 2]" "demo_reply 1" "demo_item Claimed 2" demo_env] demo_lease [of 2]
  by (simp add: demo_att_read demo_fresh_op demo_item_get)
    (auto simp: demo_item_def demo_att_def messagesAfter_def messagesRange_def demo_message_def)

text \<open>A reply written for the newest message is answered with an internal error, and nothing is stored, when the claim itself has
  read less far: the code takes it for stale, but its draft, which would have to lag behind the conversation, does not validate.\<close>

theorem read_ahead_reply_lost:
  assumes "readState d = Inr st" and "find_op aoID (TrimSpace (fOperationID f)) (aOperations st) = None"
    and "validateFreshReply (normalizeFreshReply f) = None" and "mget (aInbox st) (TrimSpace (fItemID f)) = Some x"
    and "validLease x (TrimSpace (fAgentID f)) (TrimSpace (fLeaseID f)) (now e)" and "now e \<noteq> 0" and "wf_map (aDrafts st)"
    and "fReadSeq f \<noteq> nClaimReadSeq x" and "fReadSeq f \<ge> cvLastSeq (conversationOf st (nConversationID x))"
  shows "SendFresh e f d = ((noReply, Some (Errorf ''invalid stale draft'')), d)"
proof -
  let ?f = "normalizeFreshReply f"
  have "validateState (appendOperation (TrimSpace (fOperationID f)) ''send_fresh'' (semanticFingerprint ''send_fresh'' (fresh_json ?f)) ''stale''
      (nID x) (now e) (st\<lparr>aDrafts := mput (TrimSpace (fOperationID f)) (staleDraft e ?f x st) (aDrafts st)\<rparr>)) =
      Some (Errorf ''invalid stale draft'')"
    using stale_valid [of d st ?f x e] assms by simp
  then show ?thesis
    using assms freshChange_stale [of st ?f x e] by (simp add: SendFresh_unfold transact_def Let_def writeState_eq)
qed

theorem read_ahead_reply_lost_witness:
  "SendFresh demo_env (demo_reply 2) (demo_dir_att (demo_att Claimed [demo_message ''m1'' 1, demo_message ''m2'' 2])) =
     ((noReply, Some (Errorf ''invalid stale draft'')), demo_dir_att (demo_att Claimed [demo_message ''m1'' 1, demo_message ''m2'' 2]))"
  using read_ahead_reply_lost [of "demo_dir_att (demo_att Claimed [demo_message ''m1'' 1, demo_message ''m2'' 2])"
      "demo_att Claimed [demo_message ''m1'' 1, demo_message ''m2'' 2]" "demo_reply 2" "demo_item Claimed 2" demo_env] demo_lease [of 2]
  by (simp add: demo_att_read demo_fresh_op demo_item_get) (auto simp: demo_item_def demo_att_def)

section \<open>Claims\<close>

lemma filter_seq:
  "map mSeq ms = map (\<lambda>k. int k + 1) [a..<a + length ms] \<Longrightarrow>
    filter (\<lambda>m. from \<le> mSeq m \<and> mSeq m \<le> int (a + length ms)) ms = drop (nat (from - 1 - int a)) ms"
proof (induction ms arbitrary: a)
  case (Cons m ms)
  have u: "[a..<a + length (m # ms)] = a # [Suc a..<Suc a + length ms]" by (simp add: upt_rec)
  from Cons.prems have m: "mSeq m = int a + 1" and ms: "map mSeq ms = map (\<lambda>k. int k + 1) [Suc a..<Suc a + length ms]"
    unfolding u by simp_all
  note IH = Cons.IH [OF ms]
  show ?case
  proof (cases "from \<le> int a + 1")
    case True
    then have "nat (from - 1 - int a) = 0" "nat (from - 1 - int (Suc a)) = 0" by simp_all
    with IH True m show ?thesis by simp
  next
    case False
    then have "nat (from - 1 - int a) = Suc (nat (from - 1 - int (Suc a)))" by simp
    with IH False m show ?thesis by simp
  qed
qed simp

lemma messagesRange_drop:
  assumes "validateState st = None" and "mget (aConversations st) i = Some c"
  shows "messagesRange c from (cvLastSeq c) = drop (nat (from - 1)) (cvMessages c)"
  using conversation_ok [OF assms] filter_seq [of "cvMessages c" 0 "from"] by (simp add: messagesRange_def)

lemma release_expired_same [simp]:
  "before (release_expired a n x) y = before x y" "before x (release_expired a n y) = before x y"
  "nAgentID (release_expired a n x) = nAgentID x"
  by (simp_all add: release_expired_def before_def)

lemma before_claimed [simp]:
  "before y (x\<lparr>nState := s, nLeaseID := l, nLeaseExpiresAt := t, nClaimReadSeq := k, nUpdatedAt := n\<rparr>) = before y x"
  by (simp add: before_def)

lemma claim_live: "claimChange n agent lease ttl st = Inr r \<Longrightarrow> wf_map (aInbox st) \<Longrightarrow> mget (aInbox st) i = Some y \<Longrightarrow>
    nAgentID y = agent \<Longrightarrow> nState y = Claimed \<Longrightarrow> nLeaseExpiresAt y \<le> n"
  by (force simp: claimChange_def list_ex_iff mget_set [symmetric] split: if_splits)

lemma release_state: "entry_ok cs i y \<Longrightarrow> nAgentID y = agent \<Longrightarrow> nState y \<noteq> ItemDone \<Longrightarrow> nState (release_expired agent n y) = Pending"
  by (auto simp: release_expired_def entry_ok_def)

text \<open>What the change of a claim computes.\<close>

lemma claimChange_spec:
  assumes ch: "claimChange n a l ttl st = Inr (out, ety, st1, res)" and wf: "wf_map (aInbox st)" and v: "validateState st = None"
  obtains x c where "c = conversationOf st (nConversationID x)" and "mget (aConversations st) (nConversationID x) = Some c"
    and "nAgentID x = a" and "nState x = Claimed" and "nLeaseExpiresAt x = n + ttl" and "nClaimReadSeq x = cvLastSeq c"
    and "mget (aInbox st1) (nID x) = Some x" and "mget (aReadCursors st1) (cursorKey a (nConversationID x)) = Some (cvLastSeq c)"
    and "aConversations st1 = aConversations st" and "res = (\<lambda>st2. claimResult st2 (nID x))"
    and "\<And>i y. mget (aInbox st) i = Some y \<Longrightarrow> nAgentID y = a \<Longrightarrow> nState y \<noteq> ItemDone \<Longrightarrow> \<not> before y x"
proof (rule claimChange_result [OF ch wf v], goal_cases)
  case (1 y x')
  let ?c = "conversationOf st (nConversationID y)"
  from 1(2) obtain y0 where y0: "mget (aInbox st) (nID y) = Some y0" "y = release_expired a n y0" by (auto simp: released_get)
  have cv: "mget (aConversations st) (nConversationID y) = Some ?c"
    using inbox_entry [OF v y0(1)] y0(2)
    by (auto simp: entry_ok_def item_valid_def release_expired_def conversationOf_def split: option.splits)
  have "\<not> before z x'" if z: "mget (aInbox st) i = Some z" "nAgentID z = a" "nState z \<noteq> ItemDone" for i z
  proof -
    have "mget (released a n st) i = Some (release_expired a n z)" by (simp add: released_get z)
    from 1(5) [OF this] release_state [OF inbox_entry [OF v z(1)] z(2,3)] z(2) show ?thesis by (simp add: 1(6))
  qed
  then show ?case by (rule 1(1) [of ?c x', rotated -1]) (simp_all add: 1(3,6,8,9) cv)
qed

text \<open>A new claim takes, of the open items of the agent, one that no other precedes in priority, age and id, all earlier leases
  of the agent having run out. It hands out every message of the conversation from the first one of the item on, and records that
  the agent has read to the end.\<close>

theorem claim_takes_first:
  assumes "att_inv d" and "readState d = Inr st" and "find_op aoID (TrimSpace op) (aOperations st) = None"
    and "ClaimItem e agent op lease ttl d = (Inr cl, d')" and "x = acItem cl" and "c = conversationOf st (nConversationID x)"
  shows "nAgentID x = TrimSpace agent \<and> nState x = Claimed \<and> nLeaseExpiresAt x = now e + ttl \<and> nClaimReadSeq x = cvLastSeq c \<and>
    acMessages cl = drop (nat (nFromSeq x - 1)) (cvMessages c) \<and>
    (\<forall>i y. mget (aInbox st) i = Some y \<and> nAgentID y = TrimSpace agent \<and> nState y \<noteq> ItemDone \<longrightarrow>
       \<not> before y x \<and> (nState y = Claimed \<longrightarrow> nLeaseExpiresAt y \<le> now e)) \<and>
    (\<exists>st'. readState d' = Inr st' \<and> mget (aInbox st') (nID x) = Some x \<and>
       mget (aReadCursors st') (cursorKey (TrimSpace agent) (nConversationID x)) = Some (cvLastSeq c))"
proof -
  let ?a = "TrimSpace agent" and ?op = "TrimSpace op"
  let ?l = "if TrimSpace lease = [] then newID ''inbox-lease'' (ent e 0) else TrimSpace lease"
  let ?fp = "semanticFingerprint ''claim'' (claim_json ?a ?l ttl)"
  from assms(4) have "transact e ?op ''claim'' ?fp Inl (\<lambda>st x. claimResult st (aoEntityID x)) (claimChange (now e) ?a ?l ttl) d = (Inr cl, d')"
    by (auto simp: ClaimItem_def Let_def split: option.splits if_splits)
  then show ?thesis
  proof (cases rule: transact_cases)
    case (committed st0 out ety st1 result)
    from committed(1) assms(1,2) have st0: "st0 = st" and v: "validateState st = None" and wf: "wf_map (aInbox st)"
      by (auto simp: readState_Inr att_inv_def state_inv_def)
    note ch = committed(3) [unfolded st0]
    let ?u = "appendOperation ?op ''claim'' ?fp out ety (now e) st1"
    have read: "readState d' = Inr ?u" using committed(4,5) by (simp add: readState_Inr readJSON_update)
    show ?thesis
    proof (rule claimChange_spec [OF ch wf v], goal_cases)
      case (1 y k)
      have "conversationOf ?u j = conversationOf st j" for j by (simp add: conversationOf_def 1(9))
      moreover have "Inr cl = claimResult ?u (nID y)" using committed(6) by (auto simp: 1(10))
      ultimately have "cl = \<lparr>acItem = y, acMessages = drop (nat (nFromSeq y - 1)) (cvMessages k)\<rparr>"
        using 1(1,6,7) messagesRange_drop [OF v 1(2)] by (simp add: claimResult_def)
      then show ?case using assms(5,6) read 1 claim_live [OF ch wf] by simp blast
    qed
  qed (use assms(2,3) in simp_all)
qed

definition demo_claimed :: InboxItem where
  "demo_claimed = (demo_item Claimed 1)\<lparr>nLeaseExpiresAt := 100 + Hour, nUpdatedAt := 100\<rparr>"

lemma demo_claim: "\<exists>d'. ClaimItem demo_env ''a'' ''op1'' ''l1'' Hour (demo_dir_att (demo_att Pending [demo_message ''m1'' 1])) =
    (Inr \<lparr>acItem = demo_claimed, acMessages = [demo_message ''m1'' 1]\<rparr>, d')"
proof -
  let ?st = "demo_att Pending [demo_message ''m1'' 1]"
  let ?st1 = "?st\<lparr>aInbox := [(''i1'', demo_claimed)], aReadCursors := [(cursorKey ''a'' ''c1'', 1)]\<rparr>"
  have v: "validateState ?st = None" by (simp add: demo_att_valid)
  have c: "claimChange 100 ''a'' ''l1'' Hour ?st = Inr (''claimed'', ''i1'', ?st1, (\<lambda>st2. claimResult st2 ''i1''))"
    by (simp add: claimChange_def Let_def demo_att_def demo_claimed_def demo_item_def sort_by_def release_expired_def conversationOf_def)
  have "scan_inbox (aConversations ?st1) [] (aInbox ?st1) = None"
    by (simp add: demo_att_def demo_claimed_def demo_item_def item_valid_def claimed_valid_def validPriority_def char_eval)
  then have "validateState (appendOperation ''op1'' ''claim'' fp out ety 100 ?st1) = None" if "safeDigest fp" for fp out ety
    using valid_after [OF v demo_fresh_op demo_safe(2) that, of 100 ?st1] validateState_parts [OF v] by simp
  moreover have "claimResult (appendOperation op act fp out ety n ?st1) ''i1'' = Inr \<lparr>acItem = demo_claimed, acMessages = [demo_message ''m1'' 1]\<rparr>"
    for op act fp out ety n
    by (simp add: claimResult_def conversationOf_def demo_att_def demo_claimed_def demo_item_def messagesRange_def demo_message_def)
  ultimately show ?thesis using c
    by (simp add: ClaimItem_def Let_def transact_commits demo_att_read demo_fresh_op del: safeID.simps)
qed

theorem claim_takes_first_witness:
  "nClaimReadSeq demo_claimed = cvLastSeq (conversationOf (demo_att Pending [demo_message ''m1'' 1]) ''c1'') \<and>
   [demo_message ''m1'' 1] = drop (nat (nFromSeq demo_claimed - 1)) [demo_message ''m1'' 1]"
proof -
  obtain d' where c: "ClaimItem demo_env ''a'' ''op1'' ''l1'' Hour (demo_dir_att (demo_att Pending [demo_message ''m1'' 1])) =
    (Inr \<lparr>acItem = demo_claimed, acMessages = [demo_message ''m1'' 1]\<rparr>, d')" using demo_claim by blast
  have r: "readState (demo_dir_att (demo_att Pending [demo_message ''m1'' 1])) = Inr (demo_att Pending [demo_message ''m1'' 1])"
    by (simp add: demo_att_read)
  have "nConversationID demo_claimed = ''c1''" by (simp add: demo_claimed_def demo_item_def)
  with claim_takes_first [OF demo_att_inv r _ c refl refl] show ?thesis by (simp add: demo_fresh_op)
qed

section \<open>Acknowledgement\<close>

lemma last_message:
  assumes "validateState st = None" and "mget (aInbox st) i = Some x"
  shows "\<exists>m\<in>set (cvMessages (conversationOf st (nConversationID x))). mSeq m = nToSeq x"
proof -
  from inbox_entry [OF assms] obtain c where c: "mget (aConversations st) (nConversationID x) = Some c" "nToSeq x \<le> cvLastSeq c" "nToSeq x > 0"
    by (auto simp: entry_ok_def item_valid_def split: option.splits)
  note ok = conversation_ok [OF assms(1) c(1)]
  let ?k = "nat (nToSeq x) - 1"
  have k: "?k < length (cvMessages c)" "int ?k + 1 = nToSeq x"
    using conjunct1 [OF conjunct2 [OF conjunct2 [OF ok]]] c(2,3) by linarith+
  have "mSeq (cvMessages c ! ?k) = map mSeq (cvMessages c) ! ?k" using k(1) by simp
  with ok k have "mSeq (cvMessages c ! ?k) = nToSeq x" by simp
  with k(1) c(1) show ?thesis by (auto simp: conversationOf_def intro: nth_mem)
qed

text \<open>C21. An acknowledgement closes the item although messages have arrived for it since it was claimed: the agent then has no open
  item for the conversation, so no later claim hands those messages out.\<close>

theorem ack_drops_unread:
  assumes "readState d = Inr st" and "find_op aoID op (aOperations st) = None" and "mget (aInbox st) i = Some x"
    and "nClaimReadSeq x < nToSeq x" and "AckItem e i op agent lease d = (Inr y, d')"
  shows "\<exists>st' m. readState d' = Inr st' \<and> m \<in> set (cvMessages (conversationOf st' (nConversationID x))) \<and> nClaimReadSeq x < mSeq m \<and>
    mSeq m \<le> nToSeq x \<and> (\<forall>j z. mget (aInbox st') j = Some z \<longrightarrow> \<not> open_for (nAgentID x) (nConversationID x) z)"
proof -
  let ?fp = "semanticFingerprint ''ack'' (item_json i agent lease)"
  from assms(5) have "transact e op ''ack'' ?fp Inl (\<lambda>st x. Inr (case mget (aInbox st) (aoEntityID x) of Some y \<Rightarrow> y | None \<Rightarrow> zeroItem))
      (itemChange (now e) (ackUpdate agent lease) i) d = (Inr y, d')"
    by (auto simp: AckItem_def mutateItem_def split: option.splits if_splits)
  then show ?thesis
  proof (cases rule: transact_cases)
    case failed
    then show ?thesis by simp
  next
    case replayed
    with assms(1,2) show ?thesis by simp
  next
    case (committed st0 out ety st1 result)
    from committed(1) assms(1) have st0: "st0 = st" and v: "validateState st = None" by (simp_all add: readState_Inr)
    let ?x = "x\<lparr>nState := ItemDone, nLeaseID := [], nLeaseExpiresAt := 0, nUpdatedAt := now e\<rparr>"
    let ?u = "appendOperation op ''ack'' ?fp out ety (now e) st1"
    have id: "nID x = i" using inbox_id [OF v assms(3)] .
    from committed(3) assms(3) id have l: "validLease x agent lease (now e)" and st1: "st1 = st\<lparr>aInbox := mput i ?x (aInbox st)\<rparr>"
      by (auto simp: itemChange_def ackUpdate_def st0 Let_def split: if_splits)
    have "\<not> open_for (nAgentID x) (nConversationID x) z" if "mget (aInbox ?u) j = Some z" for j z
    proof
      assume op: "open_for (nAgentID x) (nConversationID x) z"
      with that have z: "mget (aInbox st) j = Some z" "j \<noteq> i" by (auto simp: st1 open_for_def split: if_splits)
      have "j = i" by (rule open_unique [OF v z(1) assms(3)]) (use op l in \<open>auto simp: open_for_def validLease_def item_key_def\<close>)
      with z(2) show False by simp
    qed
    moreover have "readState d' = Inr ?u" using committed(4,5) by (simp add: readState_Inr readJSON_update)
    moreover have "conversationOf ?u (nConversationID x) = conversationOf st (nConversationID x)" by (simp add: conversationOf_def st1)
    ultimately show ?thesis using last_message [OF v assms(3)] assms(4) by (metis order_refl)
  qed
qed

theorem ack_drops_unread_witness:
  "\<exists>d' st'. AckItem demo_env ''i1'' ''op2'' ''a'' ''l1'' (demo_dir_att (demo_att Claimed [demo_message ''m1'' 1, demo_message ''m2'' 2])) =
     (Inr (demo_acked [demo_message ''m1'' 1, demo_message ''m2'' 2]), d') \<and> readState d' = Inr st' \<and>
     (\<exists>m\<in>set (cvMessages (conversationOf st' ''c1'')). mSeq m = 2)"
proof -
  let ?ms = "[demo_message ''m1'' 1, demo_message ''m2'' 2]"
  obtain d' where a: "AckItem demo_env ''i1'' ''op2'' ''a'' ''l1'' (demo_dir_att (demo_att Claimed ?ms)) = (Inr (demo_acked ?ms), d')"
    using demo_ack [of ?ms] by auto
  have "readState (demo_dir_att (demo_att Claimed ?ms)) = Inr (demo_att Claimed ?ms)" by (simp add: demo_att_read)
  from ack_drops_unread [OF this demo_fresh_op demo_item_get _ a] obtain st' m where
    "readState d' = Inr st'" "m \<in> set (cvMessages (conversationOf st' ''c1''))" "1 < mSeq m" "mSeq m \<le> 2"
    by (auto simp: demo_item_def)
  moreover from this have "mSeq m = 2" by simp
  ultimately show ?thesis using a by blast
qed

section \<open>Delivery\<close>

definition fresh_ids :: "env \<Rightarrow> nat \<Rightarrow> nat \<Rightarrow> InboxItem gomap \<Rightarrow> bool" where
  "fresh_ids e k n inbox \<longleftrightarrow> (\<forall>j. k \<le> j \<and> j < k + n \<longrightarrow> mget inbox (newID ''inbox'' (ent e j)) = None \<and>
     (\<forall>j'. k \<le> j' \<and> j' < j \<longrightarrow> newID ''inbox'' (ent e j') \<noteq> newID ''inbox'' (ent e j)))"

text \<open>The item an agent has for a message it must read.\<close>

definition waits_for :: "Delivery \<Rightarrow> Message \<Rightarrow> InboxItem \<Rightarrow> bool" where
  "waits_for dv m x \<longleftrightarrow> open_for (dlAgentID dv) (mConversationID m) x \<and> nFromSeq x \<le> mSeq m \<and> nToSeq x = mSeq m \<and>
     priorityRank (nPriority x) \<le> priorityRank (dlPriority dv)"

lemma waits_for_agent: "waits_for dv m x \<Longrightarrow> nAgentID x = dlAgentID dv"
  by (simp add: waits_for_def open_for_def)

lemma deliver_waits:
  assumes "deliver e k m n ds inbox = (items, inbox')" and "wf_map inbox" and "\<And>i x. mget inbox i = Some x \<Longrightarrow> nConversationID x = mConversationID m \<Longrightarrow> nFromSeq x \<le> mSeq m"
    and "distinct (map dlAgentID ds)" and "fresh_ids e k (length ds) inbox"
  shows "(\<forall>dv\<in>set ds. \<exists>i x. mget inbox' i = Some x \<and> waits_for dv m x) \<and>
    (\<forall>i x. mget inbox i = Some x \<and> nAgentID x \<notin> dlAgentID ` set ds \<longrightarrow> mget inbox' i = Some x)"
  using assms
proof (induction ds arbitrary: k inbox items inbox')
  case (Cons dv ds)
  let ?P = "\<lambda>p. open_for (dlAgentID dv) (mConversationID m) (snd p)"
  let ?new = "newID ''inbox'' (ent e k)"
  define x where "x = (case find ?P inbox of None \<Rightarrow> newItemFor ?new m dv n
      | Some (i, c) \<Rightarrow> c\<lparr>nID := i, nToSeq := mSeq m,
          nPriority := (if priorityRank (dlPriority dv) < priorityRank (nPriority c) then dlPriority dv else nPriority c),
          nUpdatedAt := n\<rparr>)"
  let ?in = "mput (nID x) x inbox"
  obtain items1 where r: "deliver e (Suc k) m n ds ?in = (items1, inbox')"
    using Cons.prems(1) by (auto simp: x_def Let_def prod_eq_iff)
  have new: "mget inbox ?new = None" using Cons.prems(5) by (simp add: fresh_ids_def)
  have xs: "waits_for dv m x \<and> (nID x = ?new \<or> (\<exists>c. mget inbox (nID x) = Some c \<and> nAgentID c = dlAgentID dv))"
  proof (cases "find ?P inbox")
    case None
    then show ?thesis by (simp add: x_def newItemFor_def waits_for_def open_for_def)
  next
    case (Some p)
    obtain i c where p: "p = (i, c)" by fastforce
    from find_mget [OF Cons.prems(2) Some [unfolded p]] have c: "mget inbox i = Some c" "open_for (dlAgentID dv) (mConversationID m) c" by auto
    moreover have "x = c\<lparr>nID := i, nToSeq := mSeq m, nPriority := (if priorityRank (dlPriority dv) < priorityRank (nPriority c)
        then dlPriority dv else nPriority c), nUpdatedAt := n\<rparr>" by (simp add: x_def Some p)
    ultimately show ?thesis using Cons.prems(3) [OF c(1)] by (simp add: waits_for_def open_for_def)
  qed
  have "fresh_ids e (Suc k) (length ds) ?in"
  proof -
    have "mget ?in (newID ''inbox'' (ent e j)) = None \<and> (\<forall>j'. Suc k \<le> j' \<and> j' < j \<longrightarrow> newID ''inbox'' (ent e j') \<noteq> newID ''inbox'' (ent e j))"
      if "Suc k \<le> j" "j < Suc k + length ds" for j
    proof -
      from that Cons.prems(5) have "mget inbox (newID ''inbox'' (ent e j)) = None" and
        ne: "\<forall>j'. k \<le> j' \<and> j' < j \<longrightarrow> newID ''inbox'' (ent e j') \<noteq> newID ''inbox'' (ent e j)" by (auto simp: fresh_ids_def)
      moreover from ne that(1) have "newID ''inbox'' (ent e j) \<noteq> ?new" by (metis Suc_le_eq order_refl)
      ultimately show ?thesis using xs by (auto dest: Suc_leD)
    qed
    then show ?thesis unfolding fresh_ids_def by blast
  qed
  moreover have "nFromSeq y \<le> mSeq m" if "mget ?in i = Some y" "nConversationID y = mConversationID m" for i y
    using that xs Cons.prems(3) by (auto simp: waits_for_def split: if_splits)
  ultimately have ih: "(\<forall>dv\<in>set ds. \<exists>i x. mget inbox' i = Some x \<and> waits_for dv m x) \<and>
      (\<forall>i x. mget ?in i = Some x \<and> nAgentID x \<notin> dlAgentID ` set ds \<longrightarrow> mget inbox' i = Some x)"
    using Cons.IH [OF r] Cons.prems(2,4) by simp
  from xs have "nAgentID x = dlAgentID dv" using waits_for_agent by blast
  with Cons.prems(4) have out: "nAgentID x \<notin> dlAgentID ` set ds" by auto
  from ih out have "mget inbox' (nID x) = Some x" by auto
  with xs ih have "\<forall>dv\<in>set (dv # ds). \<exists>i x. mget inbox' i = Some x \<and> waits_for dv m x" by auto
  moreover have "mget inbox' i = Some y" if y: "mget inbox i = Some y" "nAgentID y \<notin> dlAgentID ` set (dv # ds)" for i y
  proof -
    have "i \<noteq> nID x" using xs y new by auto
    with ih y show ?thesis by auto
  qed
  ultimately show ?case by blast
qed simp

text \<open>A message that is published for the first time becomes the next message of its conversation, and every agent it is
  delivered to has an open item that covers it and is at least as urgent as the delivery, provided that the random item ids are
  new.\<close>

theorem publish_reaches:
  assumes "att_inv d" and "readState d = Inr st" and "find_op aoID (TrimSpace (pOperationID p)) (aOperations st) = None"
    and "Publish e p d = (Inr (m, items), d')" and "fresh_ids e 0 (length (pDeliveries p)) (aInbox st)"
  shows "mSeq m = cvLastSeq (conversationOf st (TrimSpace (pConversationID p))) + 1 \<and>
    (\<exists>st'. readState d' = Inr st' \<and>
      cvMessages (conversationOf st' (TrimSpace (pConversationID p))) = cvMessages (conversationOf st (TrimSpace (pConversationID p))) @ [m] \<and>
      (\<forall>dv\<in>set (pDeliveries (normalizePublish p)). \<exists>i x. mget (aInbox st') i = Some x \<and> waits_for dv m x))"
proof -
  let ?p = "normalizePublish p" and ?op = "TrimSpace (pOperationID p)" and ?cv = "TrimSpace (pConversationID p)"
  let ?fp = "semanticFingerprint ''publish'' (publish_json ?p)"
  have np: "pOperationID ?p = ?op" "pConversationID ?p = ?cv" "length (pDeliveries ?p) = length (pDeliveries p)"
    by (simp_all add: normalizePublish_def normalizeDeliveries_def)
  from assms(4) have vp: "validatePublish ?p = None" by (auto simp: Publish_def Let_def split: option.splits)
  with assms(4) np have "transact e ?op ''publish'' ?fp Inl
      (\<lambda>st x. case findMessage st (pConversationID ?p) (pMessageID ?p) of
            None \<Rightarrow> Inl (Errorf ''publish operation has no canonical message'')
          | Some m \<Rightarrow> Inr (m, deliveryItems st (pConversationID ?p) (pDeliveries ?p))) (publishChange e ?p) d = (Inr (m, items), d')"
    by (simp add: Publish_def Let_def)
  then show ?thesis
  proof (cases rule: transact_cases)
    case failed
    then show ?thesis by simp
  next
    case replayed
    with assms(2,3) show ?thesis by simp
  next
    case (committed st0 out ety st1 result)
    from committed(1) assms(2) have st0: "st0 = st" and v: "validateState st = None" by (simp_all add: readState_Inr)
    let ?u = "appendOperation ?op ''publish'' ?fp out ety (now e) st1"
    obtain m' s1 where m': "appendMessage (pMessageID ?p) ?cv (pAuthorID ?p) (pKind ?p) (pContent ?p) (now e) st = (m', s1)" by fastforce
    obtain its inbox where dv: "deliver e 0 m' (now e) (pDeliveries ?p) (aInbox s1) = (its, inbox)" by fastforce
    from committed(3) have st1: "st1 = s1\<lparr>aInbox := inbox\<rparr>" "result = (\<lambda>_. Inr (m', its))"
      by (auto simp: publishChange_def st0 m' dv np split: if_splits)
    with committed(6) have m: "m = m'" by auto
    note am = appendMessage_result [OF m']
    have wf: "wf_map (aInbox st)" using assms(1,2) by (simp add: att_inv_def readState_Inr state_inv_def)
    have "nFromSeq x \<le> mSeq m'" if "mget (aInbox st) i = Some x" "nConversationID x = ?cv" for i x
      using inbox_entry [OF v that(1)] that(2) am(6) by (auto simp: entry_ok_def item_valid_def conversationOf_def split: option.splits)
    moreover have "distinct (map dlAgentID (pDeliveries ?p))"
      using vp by (auto simp: validatePublish_def scan_unique_Nil split: if_splits)
    ultimately have "\<forall>dv\<in>set (pDeliveries ?p). \<exists>i x. mget inbox i = Some x \<and> waits_for dv m' x"
      using deliver_waits [OF dv [unfolded am(1)] wf] assms(5) am(5) np(3) by simp
    moreover have "readState d' = Inr ?u" using committed(4,5) by (simp add: readState_Inr readJSON_update)
    moreover have "conversationOf ?u ?cv = conversationOf s1 ?cv" by (simp add: st1(1) conversationOf_def)
    moreover have "aInbox ?u = inbox" by (simp add: st1(1))
    ultimately show ?thesis using am(6,9) m by simp
  qed
qed

definition demo_publish :: PublishInput where
  "demo_publish = \<lparr>pOperationID = ''op2'', pMessageID = ''m3'', pConversationID = ''c1'', pAuthorID = ''a'', pKind = ''x'', pContent = ''x'',
     pDeliveries = [\<lparr>dlAgentID = ''a'', dlPriority = PriorityCorrection\<rparr>]\<rparr>"

lemma demo_c1 [simp]: "TrimSpace ''c1'' = ''c1''"
  by (rule TrimSpace_safeID) (simp add: char_eval)

lemma demo_publish_normal [simp]: "normalizePublish demo_publish = demo_publish"
  by (simp add: normalizePublish_def demo_publish_def normalizeDeliveries_def sort_by_def)

lemma demo_publish_op [simp]: "pOperationID demo_publish = ''op2''"
  by (simp add: demo_publish_def)

lemma demo_publish_valid: "validatePublish demo_publish = None"
  by (simp add: validatePublish_def demo_publish_def validPriority_def char_eval)

definition demo_third :: Message where
  "demo_third = (demo_message ''m3'' 2)\<lparr>mAuthorID := ''a'', mCreatedAt := 100\<rparr>"

lemma demo_published: "\<exists>d'. Publish demo_env demo_publish (demo_dir_att (demo_att Pending [demo_message ''m1'' 1])) =
    (Inr (demo_third, [(demo_item Pending 2)\<lparr>nPriority := PriorityCorrection, nUpdatedAt := 100\<rparr>]), d')"
proof -
  let ?st = "demo_att Pending [demo_message ''m1'' 1]" and ?x = "(demo_item Pending 2)\<lparr>nPriority := PriorityCorrection, nUpdatedAt := 100\<rparr>"
  let ?st1 = "?st\<lparr>aConversations := [(''c1'', \<lparr>cvID = ''c1'', cvLastSeq = 2, cvMessages = [demo_message ''m1'' 1, demo_third]\<rparr>)], aInbox := [(''i1'', ?x)]\<rparr>"
  have v: "validateState ?st = None" by (simp add: demo_att_valid)
  have "findMessageAny ?st ''m3'' = None" by (simp add: findMessageAny_def demo_att_def demo_message_def)
  then have c: "publishChange demo_env demo_publish ?st = Inr (''sent'', ''m3'', ?st1, (\<lambda>_. Inr (demo_third, [?x])))"
    by (simp add: publishChange_def appendMessage_def Let_def demo_publish_def)
      (simp add: demo_item_def demo_att_def demo_message_def demo_third_def open_for_def)
  have "scan_conversations [] (aConversations ?st1) = None" "scan_inbox (aConversations ?st1) [] (aInbox ?st1) = None"
    by (simp_all add: demo_message_def demo_third_def demo_item_def item_valid_def validPriority_def char_eval)
  then have "validateState (appendOperation ''op2'' ''publish'' fp out ety 100 ?st1) = None" if "safeDigest fp" for fp out ety
    using valid_after [OF v demo_fresh_op demo_safe(3) that, of 100 ?st1] by (simp add: demo_att_def)
  then show ?thesis using c demo_publish_valid
    by (simp add: Publish_def Let_def transact_commits demo_att_read demo_fresh_op)
qed

theorem publish_reaches_witness:
  "mSeq demo_third = 2 \<and> (\<exists>d' st' i x. Publish demo_env demo_publish (demo_dir_att (demo_att Pending [demo_message ''m1'' 1])) =
     (Inr (demo_third, [(demo_item Pending 2)\<lparr>nPriority := PriorityCorrection, nUpdatedAt := 100\<rparr>]), d') \<and> readState d' = Inr st' \<and>
     mget (aInbox st') i = Some x \<and> nToSeq x = 2 \<and> nAgentID x = ''a'')"
proof -
  obtain d' where p: "Publish demo_env demo_publish (demo_dir_att (demo_att Pending [demo_message ''m1'' 1])) =
    (Inr (demo_third, [(demo_item Pending 2)\<lparr>nPriority := PriorityCorrection, nUpdatedAt := 100\<rparr>]), d')" using demo_published by blast
  have r: "readState (demo_dir_att (demo_att Pending [demo_message ''m1'' 1])) = Inr (demo_att Pending [demo_message ''m1'' 1])"
    by (simp add: demo_att_read)
  have f: "fresh_ids demo_env 0 (length (pDeliveries demo_publish)) (aInbox (demo_att Pending [demo_message ''m1'' 1]))"
    by (simp add: fresh_ids_def demo_att_def newID_def demo_env_def demo_publish_def)
  have ds: "pDeliveries demo_publish = [\<lparr>dlAgentID = ''a'', dlPriority = PriorityCorrection\<rparr>]" by (simp add: demo_publish_def)
  from publish_reaches [OF demo_att_inv r demo_fresh_op p f] obtain st' i x where
    "readState d' = Inr st'" "mget (aInbox st') i = Some x" "waits_for \<lparr>dlAgentID = ''a'', dlPriority = PriorityCorrection\<rparr> demo_third x"
    by (auto simp: ds)
  moreover have "mSeq demo_third = 2" by (simp add: demo_third_def demo_message_def)
  ultimately show ?thesis using p by (auto simp: waits_for_def open_for_def)
qed

end
