(* ===== verification/FileStore.thy ===== *)
theory FileStore
  imports Ledger
begin

text \<open>
  The frame of a store that keeps its whole state in one file: the stores of the packages automation, computer and dispatcher
  read the file, answer a known operation from the ledger, else compute a new state, validate it, write it and read it back. The frame
  is written once over the parts in which the stores differ (path, validation, read-back check); each store instantiates
  it, and the effect of an operation on the file is a lemma of a locale.
\<close>

record 's file_store =
  fsPath :: string
  fsValid :: "'s \<Rightarrow> go_error option"
  fsSame :: "'s \<Rightarrow> 's \<Rightarrow> bool"
  fsMismatch :: string

definition readFile :: "'s file_store \<Rightarrow> 's dir \<Rightarrow> go_error + 's" where
  "readFile fs d = (case readJSON d (fsPath fs) of Inl err \<Rightarrow> Inl err
     | Inr st \<Rightarrow> (case fsValid fs st of Some err \<Rightarrow> Inl err | None \<Rightarrow> Inr st))"

definition writeFile :: "'s file_store \<Rightarrow> io \<Rightarrow> 's \<Rightarrow> 's dir \<Rightarrow> go_error option \<times> 's dir" where
  "writeFile fs i st d =
     (case fsValid fs st of Some err \<Rightarrow> (Some err, d) | None \<Rightarrow>
      (case atomicWrite i (fsPath fs) st d of
         (Some err, d') \<Rightarrow> (Some err, d')
       | (None, d') \<Rightarrow>
           (case readFile fs d' of Inl err \<Rightarrow> (Some err, d')
            | Inr verified \<Rightarrow> if \<not> fsSame fs verified st then (Some (Errorf (fsMismatch fs)), d') else (None, d'))))"

text \<open>\<open>New\<close>: the first start writes the empty state, later ones check the file.\<close>

definition openFile :: "'s file_store \<Rightarrow> io \<Rightarrow> 's \<Rightarrow> 's dir \<Rightarrow> go_error option \<times> 's dir" where
  "openFile fs i initial d =
     (if map_of d (fsPath fs) = None then writeFile fs i initial d
      else case readFile fs d of Inl err \<Rightarrow> (Some err, d) | Inr _ \<Rightarrow> (None, d))"

text \<open>One locked section: \<open>lookup\<close> finds the operation if it is known, \<open>replay\<close> answers it, \<open>change\<close> gives the new state
  with its ledger entry and the result, and \<open>fail\<close> turns an error into a result.\<close>

definition operate :: "'s file_store \<Rightarrow> io \<Rightarrow> (go_error \<Rightarrow> 'r) \<Rightarrow> ('s \<Rightarrow> 'o option) \<Rightarrow> ('s \<Rightarrow> 'o \<Rightarrow> 'r)
    \<Rightarrow> ('s \<Rightarrow> go_error + 's \<times> 'r) \<Rightarrow> 's dir \<Rightarrow> 'r \<times> 's dir" where
  "operate fs i fail lookup replay change d =
     (case readFile fs d of Inl err \<Rightarrow> (fail err, d) | Inr st \<Rightarrow>
      (case lookup st of Some x \<Rightarrow> (replay st x, d) | None \<Rightarrow>
       (case change st of Inl err \<Rightarrow> (fail err, d) | Inr (st', result) \<Rightarrow>
        (case writeFile fs i st' d of (Some err, d') \<Rightarrow> (fail err, d') | (None, d') \<Rightarrow> (result, d')))))"

text \<open>The locked section of an operation that is not looked up in the ledger first.\<close>

definition update_file :: "'s file_store \<Rightarrow> io \<Rightarrow> (go_error \<Rightarrow> 'r) \<Rightarrow> ('s \<Rightarrow> go_error + 's \<times> 'r) \<Rightarrow> 's dir \<Rightarrow> 'r \<times> 's dir" where
  "update_file fs i fail change d =
     (case readFile fs d of Inl err \<Rightarrow> (fail err, d) | Inr st \<Rightarrow>
      (case change st of Inl err \<Rightarrow> (fail err, d) | Inr (st', result) \<Rightarrow>
       (case writeFile fs i st' d of (Some err, d') \<Rightarrow> (fail err, d') | (None, d') \<Rightarrow> (result, d'))))"

lemma update_file_operate: "update_file fs i fail change d = operate fs i fail (\<lambda>st. None :: unit option) (\<lambda>st x. fail IOError) change d"
  unfolding update_file_def operate_def option.case by (rule refl)

section \<open>The effect of an operation on the file\<close>

lemma readFile_Inr: "readFile fs d = Inr st \<longleftrightarrow> readJSON d (fsPath fs) = Inr st \<and> fsValid fs st = None"
  by (auto simp: readFile_def split: sum.splits option.splits)

lemma readFile_written: "fsValid fs st = None \<Longrightarrow> readFile fs (AList.update (fsPath fs) (Record st) d) = Inr st"
  by (simp add: readFile_Inr readJSON_update)

locale durable_file =
  fixes fs :: "'s file_store"
  assumes same: "fsSame fs st st"
begin

lemma write_eq:
  "writeFile fs i st d = (case fsValid fs st of Some err \<Rightarrow> (Some err, d) | None \<Rightarrow> atomicWrite i (fsPath fs) st d)"
  by (cases i) (auto simp: writeFile_def atomicWrite_def readFile_written same split: option.splits)

lemma write_cases:
  assumes "writeFile fs i st d = (r, d')"
  obtains (refused) err where "d' = d" and "r = Some err"
  | (written) "fsValid fs st = None" and "d' = AList.update (fsPath fs) (Record st) d" and "r = None \<or> r = Some IOError"
      and "i \<noteq> Io_late \<Longrightarrow> r = None"
proof (cases "fsValid fs st")
  case (Some err)
  with assms have "d' = d" "r = Some err" by (simp_all add: write_eq)
  then show thesis by (rule refused)
next
  case None
  with assms have "(r, d') = atomicWrite i (fsPath fs) st d" by (simp add: write_eq)
  then show thesis using None refused [of IOError] written by (cases i) (simp_all add: atomicWrite_def)
qed

lemma write_ok: "fsValid fs st = None \<Longrightarrow> writeFile fs Io_ok st d = (None, AList.update (fsPath fs) (Record st) d)"
  by (simp add: write_eq atomicWrite_def)

lemma operate_cases:
  assumes "operate fs i fail lookup replay change d = (r, d')"
  obtains (failed) err where "d' = d" and "r = fail err"
  | (replayed) st x where "d' = d" and "readFile fs d = Inr st" and "lookup st = Some x" and "r = replay st x"
  | (committed) st st' result where "readFile fs d = Inr st" and "lookup st = None" and "change st = Inr (st', result)"
      and "fsValid fs st' = None" and "d' = AList.update (fsPath fs) (Record st') d" and "r = result \<or> r = fail IOError"
proof (cases "readFile fs d")
  case (Inl err)
  with assms failed show thesis by (auto simp: operate_def)
next
  case (Inr st)
  show thesis
  proof (cases "lookup st")
    case (Some x)
    with Inr assms show thesis using replayed by (auto simp: operate_def)
  next
    case None
    show thesis
    proof (cases "change st")
      case (Inl err)
      with None Inr assms failed show thesis by (auto simp: operate_def)
    next
      case c: (Inr p)
      obtain st' result where p: "p = (st', result)" by fastforce
      obtain w dw where w: "writeFile fs i st' d = (w, dw)" by fastforce
      from w show thesis
      proof (cases rule: write_cases)
        case (refused err)
        with w c p None Inr assms failed show thesis by (auto simp: operate_def)
      next
        case written
        with w c p None Inr assms committed [OF Inr None c [unfolded p] written(1)] show thesis by (auto simp: operate_def)
      qed
    qed
  qed
qed

text \<open>What an operation keeps: the invariant of the file's state and the order between the states before and after.\<close>

definition keeps :: "('s \<Rightarrow> bool) \<Rightarrow> ('s \<Rightarrow> 's \<Rightarrow> bool) \<Rightarrow> 's dir \<Rightarrow> 's dir \<Rightarrow> bool" where
  "keeps I le d d' \<longleftrightarrow>
     ((\<forall>st. readJSON d (fsPath fs) = Inr st \<longrightarrow> I st) \<longrightarrow>
        (\<forall>st. readJSON d' (fsPath fs) = Inr st \<longrightarrow> I st) \<and>
        (\<forall>st. readFile fs d = Inr st \<longrightarrow> (\<exists>st'. readFile fs d' = Inr st' \<and> le st st')))"

lemma keeps_refl: "(\<And>st. le st st) \<Longrightarrow> keeps I le d d"
  by (auto simp: keeps_def)

lemma keeps_trans:
  assumes "\<And>a b c. le a b \<Longrightarrow> le b c \<Longrightarrow> le a c" and "keeps I le d d'" and "keeps I le d' d''"
  shows "keeps I le d d''"
  unfolding keeps_def
proof (intro impI conjI allI)
  assume d: "\<forall>st. readJSON d (fsPath fs) = Inr st \<longrightarrow> I st"
  with assms(2) have m: "\<forall>st. readJSON d' (fsPath fs) = Inr st \<longrightarrow> I st"
    and ab: "\<And>st. readFile fs d = Inr st \<Longrightarrow> \<exists>st'. readFile fs d' = Inr st' \<and> le st st'" unfolding keeps_def by blast+
  from m assms(3) have bc: "\<And>st. readFile fs d' = Inr st \<Longrightarrow> \<exists>st'. readFile fs d'' = Inr st' \<and> le st st'" unfolding keeps_def by blast
  show "I st" if "readJSON d'' (fsPath fs) = Inr st" for st using m assms(3) that unfolding keeps_def by blast
  show "\<exists>st'. readFile fs d'' = Inr st' \<and> le st st'" if "readFile fs d = Inr st" for st
    using ab [OF that] bc assms(1) by blast
qed

lemma written_keeps:
  assumes "readFile fs d = Inr st" and "fsValid fs st' = None" and "I st \<Longrightarrow> I st' \<and> le st st'"
  shows "keeps I le d (AList.update (fsPath fs) (Record st') d)"
  using assms by (auto simp: keeps_def readJSON_update readFile_Inr)

lemma operate_keeps:
  assumes "operate fs i fail lookup replay change d = (r, d')" and "\<And>st. le st st"
    and "\<And>st st' result. change st = Inr (st', result) \<Longrightarrow> fsValid fs st = None \<Longrightarrow> I st \<Longrightarrow> I st' \<and> le st st'"
  shows "keeps I le d d'"
  using assms(1)
proof (cases rule: operate_cases)
  case (committed st st' result)
  then show ?thesis using assms(3) by (auto intro!: written_keeps simp: readFile_Inr)
qed (simp_all add: keeps_refl assms(2))

lemma update_cases:
  assumes "update_file fs i fail change d = (r, d')"
  obtains (failed) err where "d' = d" and "r = fail err"
  | (committed) st st' result where "readFile fs d = Inr st" and "change st = Inr (st', result)"
      and "fsValid fs st' = None" and "d' = AList.update (fsPath fs) (Record st') d" and "r = result \<or> r = fail IOError"
  using assms(1) unfolding update_file_operate by (cases rule: operate_cases) (use failed committed in auto)

lemma update_keeps:
  assumes "update_file fs i fail change d = (r, d')" and "\<And>st. le st st"
    and "\<And>st st' result. change st = Inr (st', result) \<Longrightarrow> fsValid fs st = None \<Longrightarrow> I st \<Longrightarrow> I st' \<and> le st st'"
  shows "keeps I le d d'"
  using assms(1) unfolding update_file_operate by (rule operate_keeps) (use assms(2,3) in auto)

lemma open_keeps:
  assumes "openFile fs i initial d = (r, d')" and "\<And>st. le st st" and "I initial"
  shows "keeps I le d d'"
proof (cases "map_of d (fsPath fs)")
  case None
  with assms(1) have "writeFile fs i initial d = (r, d')" by (simp add: openFile_def)
  then show ?thesis
    by (cases rule: write_cases) (use None assms(2,3) in \<open>auto simp: keeps_def readJSON_update readFile_Inr readJSON_def\<close>)
next
  case (Some x)
  with assms(1) have "d' = d" by (auto simp: openFile_def split: sum.splits)
  then show ?thesis using keeps_refl assms(2) by blast
qed

lemma operate_commits:
  assumes "readFile fs d = Inr st" and "lookup st = None" and "change st = Inr (st', result)" and "fsValid fs st' = None"
  shows "operate fs Io_ok fail lookup replay change d = (result, AList.update (fsPath fs) (Record st') d)"
  using assms by (simp add: operate_def write_ok)

end

end
