(* ===== verification/GoTime.thy ===== *)
theory GoTime
  imports Encoding
begin

text \<open>
  Times as text. A time is the number of nanoseconds since the zero time of Go, 0001-01-01 00:00:00 UTC, in the proleptic Gregorian
  calendar. \<open>Time.Format\<close> with the layout \<open>RFC3339Nano\<close> and \<open>Time.MarshalJSON\<close>, which refuses a year of more
  than four digits, are needed for the fingerprints and operation ids that contain a time; all times are UTC.
\<close>

definition leap_year :: "int \<Rightarrow> bool" where
  "leap_year y \<longleftrightarrow> y mod 4 = 0 \<and> (y mod 100 \<noteq> 0 \<or> y mod 400 = 0)"

definition month_lengths :: "bool \<Rightarrow> int list" where
  "month_lengths leap = [31, if leap then 29 else 28, 31, 30, 31, 30, 31, 31, 30, 31, 30, 31]"

text \<open>The year of a day, counted from 0001-01-01, and the day in that year, both from the cycles of 400, 100, 4 and 1 years.\<close>

definition year_of_day :: "int \<Rightarrow> int \<times> int" where
  "year_of_day d =
     (let n400 = d div 146097; r400 = d mod 146097;
          n100 = min 3 (r400 div 36524); r100 = r400 - n100 * 36524;
          n4 = r100 div 1461; r4 = r100 mod 1461;
          n1 = min 3 (r4 div 365) in
      (400 * n400 + 100 * n100 + 4 * n4 + n1 + 1, r4 - n1 * 365))"

fun month_of_day :: "int \<Rightarrow> int list \<Rightarrow> int \<Rightarrow> int \<times> int" where
  "month_of_day m [] d = (m, d + 1)"
| "month_of_day m (l # ls) d = (if d < l then (m, d + 1) else month_of_day (m + 1) ls (d - l))"

definition pad_dec :: "nat \<Rightarrow> int \<Rightarrow> string" where
  "pad_dec w n = (let s = dec_nat (nat \<bar>n\<bar>) in (if n < 0 then ''-'' else []) @ replicate (w - length s) CHR ''0'' @ s)"

definition trim_zeros :: "string \<Rightarrow> string" where
  "trim_zeros s = rev (dropWhile (\<lambda>c. c = CHR ''0'') (rev s))"

definition day_ns :: int where
  "day_ns = 86400 * Second"

definition format_rfc3339nano :: "time \<Rightarrow> string" where
  "format_rfc3339nano t =
     (case year_of_day (t div day_ns) of (y, yd) \<Rightarrow>
      (case month_of_day 1 (month_lengths (leap_year y)) yd of (m, md) \<Rightarrow>
       let ns = t mod day_ns; s = ns div Second; f = ns mod Second in
       pad_dec 4 y @ ''-'' @ pad_dec 2 m @ ''-'' @ pad_dec 2 md @ ''T'' @ pad_dec 2 (s div 3600) @ '':'' @ pad_dec 2 (s div 60 mod 60)
       @ '':'' @ pad_dec 2 (s mod 60) @ (if f = 0 then [] else ''.'' @ trim_zeros (pad_dec 9 f)) @ ''Z''))"

definition json_time :: "time \<Rightarrow> json option" where
  "json_time t = (let y = fst (year_of_day (t div day_ns)) in
     if y < 0 \<or> y > 9999 then None else Some (JStr (format_rfc3339nano t)))"


lemma dec_nat_step: "n < 10 \<Longrightarrow> dec_nat n = [digit n]" "10 \<le> n \<Longrightarrow> dec_nat n = dec_nat (n div 10) @ [digit (n mod 10)]"
  by (subst dec_nat.simps, simp)+

lemma replicate_small: "replicate 2 c = [c, c]" "replicate 3 c = [c, c, c]" "replicate 1 c = [c]"
  by (simp_all add: numeral_eq_Suc)

lemmas format_eval = format_rfc3339nano_def year_of_day_def month_lengths_def leap_year_def pad_dec_def day_ns_def dec_nat_step digit_def
  trim_zeros_def replicate_small

text \<open>The calendar agrees with known dates: the zero time, the Unix epoch, a leap day and the end of a century.\<close>

lemma format_examples:
  "format_rfc3339nano 0 = ''0001-01-01T00:00:00Z''"
  "format_rfc3339nano (719162 * day_ns + 1500000000) = ''1970-01-01T00:00:01.5Z''"
  "format_rfc3339nano ((719162 + 11016) * day_ns) = ''2000-02-29T00:00:00Z''"
  "format_rfc3339nano ((719162 - 25567) * day_ns - Second) = ''1899-12-31T23:59:59Z''"
  by (simp_all add: format_eval)

end
