(* ===== verification/Automation.thy ===== *)
theory Automation
  imports FileStore GoTime WorkItem
begin

text \<open>
  Recurring tasks: \<open>internal/automation/types.go\<close> and \<open>internal/automation/store.go\<close>. An automation creates a product task from its
  template whenever its next run is due, skips the slot while the previous task is open, and is paused after too many failures in a
  row. \<open>Tick\<close> works on two stores, the file of the automations and the task store it is given.

  The interval is a 64-bit product of seconds, so it can wrap; the loop that moves the next run past the current time is
  a partial function, \<open>None\<close> meaning that the call never returns, and so are \<open>advance\<close> and \<open>Tick\<close>.
\<close>

section \<open>Data\<close>

datatype AutoStatus = Active | Paused | OtherStatus string

fun status_name :: "AutoStatus \<Rightarrow> string" where
  "status_name Active = ''active''"
| "status_name Paused = ''paused''"
| "status_name (OtherStatus s) = s"

datatype RunState = RunDispatched | RunSucceeded | RunFailed | RunSkipped | OtherRunState string

record TaskTemplate =
  tpWorkspaceID :: string
  tpChannelID :: string
  tpCreatorID :: string
  tpTitle :: string
  tpObjective :: string
  tpRequirements :: "Requirement list"
  tpScope :: Scope
  tpStopConditions :: "string list"
  tpAssigneeID :: string
  tpGate :: GateSpec

record ARun =
  rnSequence :: int
  rnTaskID :: string
  rnState :: RunState
  rnScheduledAt :: time
  rnDispatchedAt :: time
  rnCompletedAt :: time
  rnEvidence :: "string list"
  rnReason :: string

record Automation =
  auSchemaVersion :: int
  auID :: string
  auName :: string
  auEverySeconds :: int
  auNextRunAt :: time
  auFailurePauseThreshold :: int
  auConsecutiveFailures :: int
  auStatus :: AutoStatus
  auTemplate :: TaskTemplate
  auRuns :: "ARun list"
  auRevision :: int
  auCreatedAt :: time
  auUpdatedAt :: time

record AutoOperation =
  uoID :: string
  uoFingerprint :: string
  uoAutomationID :: string
  uoRevision :: int
  uoCreatedAt :: time

record AutoState =
  usSchemaVersion :: int
  usRevision :: int
  usAutomations :: "Automation gomap"
  usOperations :: "AutoOperation list"
  usUpdatedAt :: time

record AutoCreate =
  ucOperationID :: string
  ucID :: string
  ucName :: string
  ucEverySeconds :: int
  ucStartAt :: time
  ucFailurePauseThreshold :: int
  ucTemplate :: TaskTemplate

record ReportInput =
  riOperationID :: string
  riTaskID :: string
  riSuccess :: bool
  riEvidence :: "string list"
  riReason :: string

record TickResult =
  tkDispatched :: "ARun list"
  tkSkipped :: "ARun list"
  tkPaused :: "string list"

type_synonym autoDir = "AutoState dir"

definition auErrConflict :: go_error where
  "auErrConflict = Sentinel ''automation revision conflict''"

definition ErrRun :: go_error where
  "ErrRun = Sentinel ''invalid automation run report''"

definition auSchema :: int where
  "auSchema = 1"

section \<open>Fingerprints and generated ids\<close>

definition template_json :: "TaskTemplate \<Rightarrow> json" where
  "template_json p = JObj ([(''workspace_id'', JStr (tpWorkspaceID p)), (''channel_id'', JStr (tpChannelID p)),
     (''creator_id'', JStr (tpCreatorID p)), (''title'', JStr (tpTitle p)), (''objective'', JStr (tpObjective p)),
     (''requirements'', JArr (map requirement_json (tpRequirements p))), (''scope'', scope_json (tpScope p)),
     (''stop_conditions'', jstrs (tpStopConditions p))] @ jomit ''assignee_id'' (tpAssigneeID p) @ [(''gate'', gate_json (tpGate p))])"

definition auto_create_json :: "AutoCreate \<Rightarrow> json option" where
  "auto_create_json c = map_option (\<lambda>start. JObj [(''operation_id'', JStr (ucOperationID c)), (''id'', JStr (ucID c)), (''name'', JStr (ucName c)),
     (''every_seconds'', JInt (ucEverySeconds c)), (''start_at'', start),
     (''failure_pause_threshold'', JInt (ucFailurePauseThreshold c)), (''template'', template_json (ucTemplate c))])
     (json_time (ucStartAt c))"

definition report_json :: "ReportInput \<Rightarrow> json" where
  "report_json r = JObj [(''operation_id'', JStr (riOperationID r)), (''task_id'', JStr (riTaskID r)), (''success'', JBool (riSuccess r)),
     (''evidence'', jstrs (riEvidence r)), (''reason'', JStr (riReason r))]"

section \<open>Input\<close>

definition normalizeTemplate :: "TaskTemplate \<Rightarrow> TaskTemplate" where
  "normalizeTemplate p = p\<lparr>tpWorkspaceID := TrimSpace (tpWorkspaceID p), tpChannelID := TrimSpace (tpChannelID p),
     tpCreatorID := TrimSpace (tpCreatorID p), tpTitle := TrimSpace (tpTitle p), tpObjective := TrimSpace (tpObjective p),
     tpAssigneeID := TrimSpace (tpAssigneeID p), tpRequirements := normalizeRequirements (tpRequirements p),
     tpScope := normalizeScope (tpScope p), tpStopConditions := normalizeStrings (tpStopConditions p),
     tpGate := normalizeGate (tpGate p)\<rparr>"

definition normalizeAutoCreate :: "AutoCreate \<Rightarrow> AutoCreate" where
  "normalizeAutoCreate c = c\<lparr>ucOperationID := TrimSpace (ucOperationID c), ucID := TrimSpace (ucID c), ucName := TrimSpace (ucName c),
     ucTemplate := normalizeTemplate (ucTemplate c)\<rparr>"

definition validateAutoCreate :: "AutoCreate \<Rightarrow> go_error option" where
  "validateAutoCreate c =
     (let p = ucTemplate c; g = tpGate p in
      if \<not> safeID (ucOperationID c) \<or> \<not> safeID (ucID c) \<or> length (ucID c) > 96 \<or> ucName c = [] \<or> ucEverySeconds c \<le> 0
         \<or> ucFailurePauseThreshold c \<le> 0
      then Some (Errorf ''valid operation, automation, interval, and failure threshold are required'')
      else if \<not> safeID (tpWorkspaceID p) \<or> \<not> safeID (tpChannelID p) \<or> \<not> safeID (tpCreatorID p) \<or> tpTitle p = [] \<or> tpObjective p = []
         \<or> tpRequirements p = [] \<or> tpStopConditions p = []
      then Some (Errorf ''automation task template is incomplete'')
      else if \<not> list_all (\<lambda>r. safeID (rqID r) \<and> rqText r \<noteq> []) (tpRequirements p)
      then Some (Errorf ''automation task requirement is invalid'')
      else if (gKind g \<noteq> GateHuman \<and> gKind g \<noteq> GateCode \<and> gKind g \<noteq> GateAgent) \<or> gReviewerID g = [] \<or> gChecks g = []
         \<or> gRequiredEvidence g = [] \<or> gOnReject g = []
      then Some (Errorf ''automation task gate is incomplete'')
      else None)"

section \<open>The canonical state\<close>

definition run_ok :: "nat \<Rightarrow> ARun \<Rightarrow> go_error option" where
  "run_ok index run =
     (if rnSequence run \<noteq> int index + 1 \<or> rnScheduledAt run = 0 then Some (Errorf ''invalid canonical automation run ordering'') else
      case rnState run of
        RunDispatched \<Rightarrow>
          if \<not> safeID (rnTaskID run) \<or> rnDispatchedAt run = 0 \<or> rnCompletedAt run \<noteq> 0
          then Some (Errorf ''invalid dispatched automation run'') else None
      | RunSkipped \<Rightarrow>
          if rnTaskID run \<noteq> [] \<or> rnCompletedAt run = 0 then Some (Errorf ''invalid skipped automation run'') else None
      | OtherRunState _ \<Rightarrow> Some (Errorf ''invalid automation run state'')
      | _ \<Rightarrow>
          if \<not> safeID (rnTaskID run) \<or> rnDispatchedAt run = 0 \<or> rnCompletedAt run = 0
          then Some (Errorf ''invalid completed automation run'') else None)"

fun scan_runs :: "nat \<Rightarrow> ARun list \<Rightarrow> go_error option" where
  "scan_runs index [] = None"
| "scan_runs index (run # runs) = (case run_ok index run of Some err \<Rightarrow> Some err | None \<Rightarrow> scan_runs (Suc index) runs)"

definition template_check :: "Automation \<Rightarrow> AutoCreate" where
  "template_check x = \<lparr>ucOperationID = ''validate'', ucID = auID x, ucName = auName x, ucEverySeconds = auEverySeconds x, ucStartAt = 0,
     ucFailurePauseThreshold = auFailurePauseThreshold x, ucTemplate = auTemplate x\<rparr>"

definition automation_ok :: "string \<Rightarrow> Automation \<Rightarrow> go_error option" where
  "automation_ok i x =
     (if i \<noteq> auID x \<or> auSchemaVersion x \<noteq> auSchema \<or> \<not> safeID i \<or> length i > 96 \<or> auName x = [] \<or> auEverySeconds x \<le> 0
         \<or> auFailurePauseThreshold x \<le> 0 \<or> auConsecutiveFailures x < 0 \<or> auRevision x \<le> 0 \<or> auNextRunAt x = 0
         \<or> auCreatedAt x = 0 \<or> auUpdatedAt x = 0 \<or> (auStatus x \<noteq> Active \<and> auStatus x \<noteq> Paused)
      then Some (Errorf ''invalid canonical automation'') else
      case validateAutoCreate (template_check x) of
        Some err \<Rightarrow> Some (Wrap ''invalid canonical automation template'' err)
      | None \<Rightarrow> scan_runs 0 (auRuns x))"

fun scan_automations :: "(string \<times> Automation) list \<Rightarrow> go_error option" where
  "scan_automations [] = None"
| "scan_automations ((i, x) # xs) = (case automation_ok i x of Some err \<Rightarrow> Some err | None \<Rightarrow> scan_automations xs)"

definition uop_ok :: "AutoOperation \<Rightarrow> bool" where
  "uop_ok x \<longleftrightarrow> safeID (uoID x) \<and> safeDigest (uoFingerprint x) \<and> uoCreatedAt x \<noteq> 0"

definition validateAutoState :: "AutoState \<Rightarrow> go_error option" where
  "validateAutoState st =
     (if usSchemaVersion st \<noteq> auSchema \<or> usRevision st < 0 then Some (Errorf ''invalid canonical automation state'') else
      case scan_automations (usAutomations st) of Some err \<Rightarrow> Some err | None \<Rightarrow>
      if \<not> ledger_ok uop_ok uoID uoRevision (usOperations st) then Some (Errorf ''invalid automation operation ledger'')
      else if int (length (usOperations st)) \<noteq> usRevision st then Some (Errorf ''automation operation ledger does not reach revision'')
      else None)"

definition autoStore :: "AutoState file_store" where
  "autoStore = \<lparr>fsPath = ''automations-v1.json'', fsValid = validateAutoState, fsSame = (\<lambda>x y. usRevision x = usRevision y),
     fsMismatch = ''automation state read-back verification failed''\<rparr>"

definition NewAutomations :: "env \<Rightarrow> autoDir \<Rightarrow> go_error option \<times> autoDir" where
  "NewAutomations e d = openFile autoStore (wio e)
     \<lparr>usSchemaVersion = auSchema, usRevision = 0, usAutomations = [], usOperations = [], usUpdatedAt = now e\<rparr> d"

definition appendAutoOperation :: "string \<Rightarrow> string \<Rightarrow> string \<Rightarrow> time \<Rightarrow> AutoState \<Rightarrow> AutoState" where
  "appendAutoOperation i fp automationID n st = st\<lparr>usRevision := usRevision st + 1, usUpdatedAt := n,
     usOperations := usOperations st @ [\<lparr>uoID = i, uoFingerprint = fp, uoAutomationID = automationID, uoRevision = usRevision st + 1,
       uoCreatedAt = n\<rparr>]\<rparr>"

definition zeroAutomation :: Automation where
  "zeroAutomation = \<lparr>auSchemaVersion = 0, auID = [], auName = [], auEverySeconds = 0, auNextRunAt = 0, auFailurePauseThreshold = 0,
     auConsecutiveFailures = 0, auStatus = OtherStatus [],
     auTemplate = \<lparr>tpWorkspaceID = [], tpChannelID = [], tpCreatorID = [], tpTitle = [], tpObjective = [], tpRequirements = [],
       tpScope = \<lparr>scAllow = [], scDeny = []\<rparr>, tpStopConditions = [], tpAssigneeID = [],
       tpGate = \<lparr>gKind = OtherGate [], gReviewerID = [], gChecks = [], gRequiredEvidence = [], gOnReject = []\<rparr>\<rparr>,
     auRuns = [], auRevision = 0, auCreatedAt = 0, auUpdatedAt = 0\<rparr>"

definition automationOf :: "AutoState \<Rightarrow> string \<Rightarrow> Automation" where
  "automationOf st i = (case mget (usAutomations st) i of Some x \<Rightarrow> x | None \<Rightarrow> zeroAutomation)"

section \<open>Operations on one file\<close>

definition autoOperate :: "env \<Rightarrow> string \<Rightarrow> (AutoState \<Rightarrow> AutoOperation \<Rightarrow> go_error + Automation) \<Rightarrow> (AutoState \<Rightarrow> go_error + AutoState \<times> (go_error + Automation))
    \<Rightarrow> autoDir \<Rightarrow> (go_error + Automation) \<times> autoDir" where
  "autoOperate e operationID replay change d =
     operate autoStore (wio e) Inl (\<lambda>st. find_op uoID operationID (usOperations st)) replay change d"

definition newAutomation :: "time \<Rightarrow> AutoCreate \<Rightarrow> Automation" where
  "newAutomation n c = \<lparr>auSchemaVersion = auSchema, auID = ucID c, auName = ucName c, auEverySeconds = ucEverySeconds c,
     auNextRunAt = (if ucStartAt c = 0 then n else ucStartAt c), auFailurePauseThreshold = ucFailurePauseThreshold c,
     auConsecutiveFailures = 0, auStatus = Active, auTemplate = ucTemplate c, auRuns = [], auRevision = 1, auCreatedAt = n,
     auUpdatedAt = n\<rparr>"

definition createAutoChange :: "env \<Rightarrow> AutoCreate \<Rightarrow> string \<Rightarrow> AutoState \<Rightarrow> go_error + AutoState \<times> (go_error + Automation)" where
  "createAutoChange e c fp st =
     (if mget (usAutomations st) (ucID c) \<noteq> None then Inl auErrConflict else
      let x = newAutomation (now e) c in
      Inr (appendAutoOperation (ucOperationID c) fp (auID x) (now e) (st\<lparr>usAutomations := mput (auID x) x (usAutomations st)\<rparr>), Inr x))"

definition CreateAutomation :: "env \<Rightarrow> AutoCreate \<Rightarrow> autoDir \<Rightarrow> (go_error + Automation) \<times> autoDir" where
  "CreateAutomation e c0 d =
     (case cerr e of Some err \<Rightarrow> (Inl err, d) | None \<Rightarrow>
      let c = normalizeAutoCreate c0 in
      case validateAutoCreate c of Some err \<Rightarrow> (Inl err, d) | None \<Rightarrow>
      let fp = plainFingerprint ''create'' (auto_create_json c) in
      autoOperate e (ucOperationID c)
        (\<lambda>st x. if uoFingerprint x \<noteq> fp then Inl auErrConflict else Inr (automationOf st (uoAutomationID x)))
        (createAutoChange e c fp) d)"

text \<open>The last index at which a predicate holds.\<close>

definition find_last :: "('a \<Rightarrow> bool) \<Rightarrow> 'a list \<Rightarrow> nat option" where
  "find_last P xs = find (\<lambda>i. P (xs ! i)) (rev [0..<length xs])"

definition count_failure :: "Automation \<Rightarrow> Automation" where
  "count_failure x = (let k = auConsecutiveFailures x + 1 in
     x\<lparr>auConsecutiveFailures := k, auStatus := (if k \<ge> auFailurePauseThreshold x then Paused else auStatus x)\<rparr>)"

definition reportChange :: "env \<Rightarrow> string \<Rightarrow> ReportInput \<Rightarrow> string \<Rightarrow> env \<Rightarrow> workStore \<Rightarrow> AutoState
    \<Rightarrow> go_error + AutoState \<times> (go_error + Automation)" where
  "reportChange e i r fp eg ws st =
     (case mget (usAutomations st) i of None \<Rightarrow> Inl os_ErrNotExist | Some x \<Rightarrow>
      (case find_last (\<lambda>run. rnTaskID run = riTaskID r) (auRuns x) of None \<Rightarrow> Inl ErrRun | Some k \<Rightarrow>
       let run = auRuns x ! k in
       if rnState run \<noteq> RunDispatched then Inl ErrRun else
       (case GetWork eg (riTaskID r) ws of Inl err \<Rightarrow> Inl err | Inr task \<Rightarrow>
        if riSuccess r \<and> wState task \<noteq> Done then Inl (Errorf ''successful automation report requires a done product task'')
        else if \<not> riSuccess r \<and> wState task \<noteq> Closed then Inl (Errorf ''failed automation report requires a closed product task'')
        else
        let n = now e;
            run' = run\<lparr>rnState := (if riSuccess r then RunSucceeded else RunFailed), rnEvidence := riEvidence r, rnReason := riReason r,
                     rnCompletedAt := n\<rparr>;
            x1 = (if riSuccess r then x\<lparr>auConsecutiveFailures := 0\<rparr> else count_failure x);
            x' = x1\<lparr>auRuns := (auRuns x)[k := run'], auRevision := auRevision x + 1, auUpdatedAt := n\<rparr> in
        Inr (appendAutoOperation (riOperationID r) fp (auID x') n (st\<lparr>usAutomations := mput (auID x') x' (usAutomations st)\<rparr>), Inr x'))))"

definition normalizeReport :: "ReportInput \<Rightarrow> ReportInput" where
  "normalizeReport r = r\<lparr>riOperationID := TrimSpace (riOperationID r), riTaskID := TrimSpace (riTaskID r), riReason := TrimSpace (riReason r),
     riEvidence := normalizeStrings (riEvidence r)\<rparr>"

text \<open>\<open>Report\<close> reads the task from the task store \<open>ws\<close>; \<open>eg\<close> is the environment of that call.\<close>

definition ReportRun :: "env \<Rightarrow> env \<Rightarrow> string \<Rightarrow> ReportInput \<Rightarrow> workStore \<Rightarrow> autoDir \<Rightarrow> (go_error + Automation) \<times> autoDir" where
  "ReportRun e eg i0 r0 ws d =
     (case cerr e of Some err \<Rightarrow> (Inl err, d) | None \<Rightarrow>
      let i = TrimSpace i0; r = normalizeReport r0 in
      if \<not> safeID i \<or> \<not> safeID (riOperationID r) \<or> \<not> safeID (riTaskID r) \<or> riEvidence r = [] \<or> riReason r = []
      then (Inl (Errorf ''automation, operation, task, evidence, and reason are required''), d) else
      let fp = plainFingerprint ''report'' (Some (report_json r)) in
      autoOperate e (riOperationID r)
        (\<lambda>st x. if uoFingerprint x \<noteq> fp \<or> uoAutomationID x \<noteq> i then Inl auErrConflict else Inr (automationOf st i))
        (reportChange e i r fp eg ws) d)"

definition statusChange :: "env \<Rightarrow> string \<Rightarrow> string \<Rightarrow> AutoStatus \<Rightarrow> string \<Rightarrow> AutoState \<Rightarrow> go_error + AutoState \<times> (go_error + Automation)" where
  "statusChange e i operationID status fp st =
     (case mget (usAutomations st) i of None \<Rightarrow> Inl os_ErrNotExist | Some x \<Rightarrow>
      if status \<noteq> Active \<and> status \<noteq> Paused then Inl (Errorf ''status must be active or paused'') else
      let x' = x\<lparr>auStatus := status, auUpdatedAt := now e, auRevision := auRevision x + 1,
                 auConsecutiveFailures := (if status = Active then 0 else auConsecutiveFailures x)\<rparr> in
      Inr (appendAutoOperation operationID fp (auID x') (now e) (st\<lparr>usAutomations := mput (auID x') x' (usAutomations st)\<rparr>), Inr x'))"

definition status_json :: "string \<Rightarrow> AutoStatus \<Rightarrow> json" where
  "status_json i s = JObj [(''automation'', JStr i), (''status'', JStr (status_name s))]"

definition SetAutoStatus :: "env \<Rightarrow> string \<Rightarrow> string \<Rightarrow> AutoStatus \<Rightarrow> autoDir \<Rightarrow> (go_error + Automation) \<times> autoDir" where
  "SetAutoStatus e i0 op0 status d =
     (case cerr e of Some err \<Rightarrow> (Inl err, d) | None \<Rightarrow>
      let i = TrimSpace i0; operationID = TrimSpace op0 in
      if \<not> safeID i \<or> \<not> safeID operationID then (Inl (Errorf ''valid automation and operation IDs are required''), d) else
      let fp = plainFingerprint ''set_status'' (Some (status_json i status)) in
      autoOperate e operationID
        (\<lambda>st x. if uoFingerprint x \<noteq> fp then Inl auErrConflict else Inr (automationOf st i))
        (statusChange e i operationID status fp) d)"

definition ListAutomations :: "env \<Rightarrow> autoDir \<Rightarrow> go_error + Automation list" where
  "ListAutomations e d = (case cerr e of Some err \<Rightarrow> Inl err | None \<Rightarrow>
     (case readFile autoStore d of Inl err \<Rightarrow> Inl err
      | Inr st \<Rightarrow> Inr (sort_by (\<lambda>x y. auID x < auID y) (map snd (usAutomations st)))))"

section \<open>The scheduler\<close>

definition activeRun :: "Automation \<Rightarrow> ARun option" where
  "activeRun x = map_option (\<lambda>k. auRuns x ! k) (find_last (\<lambda>run. rnState run = RunDispatched) (auRuns x))"

definition finalizeTerminal :: "env \<Rightarrow> workStore \<Rightarrow> time \<Rightarrow> Automation \<Rightarrow> Automation \<times> bool" where
  "finalizeTerminal e ws at x =
     (case find_last (\<lambda>run. rnState run = RunDispatched) (auRuns x) of None \<Rightarrow> (x, False) | Some k \<Rightarrow>
      let run = auRuns x ! k in
      (case GetWork e (rnTaskID run) ws of Inl err \<Rightarrow> (x, False) | Inr task \<Rightarrow>
       if wState task = Done then
         (x\<lparr>auRuns := (auRuns x)[k := run\<lparr>rnState := RunSucceeded, rnCompletedAt := at, rnReason := ''product task reached done''\<rparr>],
            auConsecutiveFailures := 0\<rparr>, True)
       else if wState task = Closed then
         (count_failure (x\<lparr>auRuns := (auRuns x)[k := run\<lparr>rnState := RunFailed, rnCompletedAt := at,
            rnReason := ''product task closed before delivery''\<rparr>]\<rparr>), True)
       else (x, False)))"

text \<open>\<open>time.Duration(EverySeconds) * time.Second\<close> in 64 bits, and the loop of \<open>advance\<close>.\<close>

definition autoStep :: "Automation \<Rightarrow> duration" where
  "autoStep x = sint (word_of_int (auEverySeconds x) * word_of_int Second :: 64 word)"

partial_function (option) advanceTo :: "duration \<Rightarrow> time \<Rightarrow> time \<Rightarrow> time option" where
  "advanceTo step at t = (if at < t then Some t else advanceTo step at (t + step))"

definition advanceAuto :: "time \<Rightarrow> Automation \<Rightarrow> Automation option" where
  "advanceAuto at x = map_option (\<lambda>t. x\<lparr>auNextRunAt := t\<rparr>) (advanceTo (autoStep x) at (auNextRunAt x))"

definition run_task_id :: "Automation \<Rightarrow> string" where
  "run_task_id x = auID x @ ''-run-'' @ dec_int (int (length (auRuns x)) + 1)"

definition dispatch_input :: "Automation \<Rightarrow> WCreate" where
  "dispatch_input x = (let p = auTemplate x in
     \<lparr>cOperationID = ''dispatch-'' @ run_task_id x, cID = run_task_id x, cWorkspaceID = tpWorkspaceID p, cChannelID = tpChannelID p,
      cThreadID = [], cParentTaskID = [], cCreatorID = tpCreatorID p, cTitle = tpTitle p, cObjective = tpObjective p,
      cRequirements = tpRequirements p, cScope = tpScope p, cStopConditions = tpStopConditions p, cAssigneeID = tpAssigneeID p,
      cGate = tpGate p\<rparr>)"

definition next_run :: "RunState \<Rightarrow> Automation \<Rightarrow> ARun" where
  "next_run s x = \<lparr>rnSequence = int (length (auRuns x)) + 1, rnTaskID = [], rnState = s, rnScheduledAt = auNextRunAt x, rnDispatchedAt = 0,
     rnCompletedAt = 0, rnEvidence = [], rnReason = []\<rparr>"

definition touched :: "time \<Rightarrow> Automation \<Rightarrow> Automation" where
  "touched at x = x\<lparr>auRevision := auRevision x + 1, auUpdatedAt := at\<rparr>"

datatype tick_step =
    TickIdle
  | TickPaused Automation bool
  | TickSkipped Automation ARun
  | TickDispatched Automation ARun

text \<open>One turn of the loop of \<open>Tick\<close>; \<open>eg\<close> and \<open>ec\<close> are the environments of the two calls to the task store.\<close>

definition tickItem :: "env \<Rightarrow> env \<Rightarrow> time \<Rightarrow> Automation \<Rightarrow> workStore \<Rightarrow> ((go_error + tick_step) \<times> workStore) option" where
  "tickItem eg ec at x ws =
     (if auStatus x \<noteq> Active \<or> at < auNextRunAt x then Some (Inr TickIdle, ws) else
      case finalizeTerminal eg ws at x of (x1, finalized) \<Rightarrow>
      if auStatus x1 = Paused then Some (Inr (TickPaused (touched at x1) finalized), ws)
      else if activeRun x1 \<noteq> None then
        (let run = (next_run RunSkipped x1)\<lparr>rnCompletedAt := at, rnReason := ''previous automation task is still open''\<rparr> in
         map_option (\<lambda>x2. (Inr (TickSkipped (touched at x2) run), ws)) (advanceAuto at (x1\<lparr>auRuns := auRuns x1 @ [run]\<rparr>)))
      else
        (case CreateWork ec (dispatch_input x1) ws of
           (Inl err, ws') \<Rightarrow> Some (Inl (Wrap (''dispatch automation '' @ auID x1) err), ws')
         | (Inr created, ws') \<Rightarrow>
             let run = (next_run RunDispatched x1)\<lparr>rnTaskID := wID created, rnDispatchedAt := at\<rparr> in
             map_option (\<lambda>x2. (Inr (TickDispatched (touched at x2) run), ws')) (advanceAuto at (x1\<lparr>auRuns := auRuns x1 @ [run]\<rparr>))))"

type_synonym tick_acc = "Automation gomap \<times> TickResult \<times> bool"

fun apply_step :: "string \<Rightarrow> tick_step \<Rightarrow> tick_acc \<Rightarrow> tick_acc" where
  "apply_step i TickIdle acc = acc"
| "apply_step i (TickPaused x finalized) (m, r, changed) = (mput i x m, r\<lparr>tkPaused := tkPaused r @ [i]\<rparr>, changed \<or> finalized)"
| "apply_step i (TickSkipped x run) (m, r, changed) = (mput i x m, r\<lparr>tkSkipped := tkSkipped r @ [run]\<rparr>, True)"
| "apply_step i (TickDispatched x run) (m, r, changed) = (mput i x m, r\<lparr>tkDispatched := tkDispatched r @ [run]\<rparr>, True)"

text \<open>The ids are the keys of the map; turn \<open>k\<close> uses the environments \<open>es k 0\<close> and \<open>es k 1\<close>.\<close>

fun tickLoop :: "(nat \<Rightarrow> nat \<Rightarrow> env) \<Rightarrow> nat \<Rightarrow> time \<Rightarrow> string list \<Rightarrow> tick_acc \<Rightarrow> workStore \<Rightarrow> ((go_error + tick_acc) \<times> workStore) option" where
  "tickLoop es k at [] acc ws = Some (Inr acc, ws)"
| "tickLoop es k at (i # is) acc ws =
     (case tickItem (es k 0) (es k 1) at (case mget (fst acc) i of Some x \<Rightarrow> x | None \<Rightarrow> zeroAutomation) ws of
        None \<Rightarrow> None
      | Some (Inl err, ws') \<Rightarrow> Some (Inl err, ws')
      | Some (Inr step, ws') \<Rightarrow> tickLoop es (Suc k) at is (apply_step i step acc) ws')"

definition tick_ids :: "AutoState \<Rightarrow> string list" where
  "tick_ids st = sort_by (<) (map fst (usAutomations st))"

definition Tick :: "env \<Rightarrow> (nat \<Rightarrow> nat \<Rightarrow> env) \<Rightarrow> time \<Rightarrow> autoDir \<Rightarrow> workStore \<Rightarrow> ((go_error + TickResult) \<times> autoDir \<times> workStore) option" where
  "Tick e es at0 d ws =
     (case cerr e of Some err \<Rightarrow> Some (Inl err, d, ws) | None \<Rightarrow>
      let at = (if at0 = 0 then clk e 0 else at0) in
      (case readFile autoStore d of Inl err \<Rightarrow> Some (Inl err, d, ws) | Inr st \<Rightarrow>
       (case tickLoop es 0 at (tick_ids st) (usAutomations st, \<lparr>tkDispatched = [], tkSkipped = [], tkPaused = []\<rparr>, False) ws of
          None \<Rightarrow> None
        | Some (Inl err, ws') \<Rightarrow> Some (Inl err, d, ws')
        | Some (Inr (m, result, changed), ws') \<Rightarrow>
            if \<not> changed then Some (Inr result, d, ws') else
            let n = clk e 1;
                fp = plainFingerprint ''tick'' (map_option (\<lambda>j. JObj [(''At'', j)]) (json_time at));
                op = internalOperationID ''tick'' [format_rfc3339nano at, dec_int (usRevision st + 1)] in
            (case writeFile autoStore (wio e) (appendAutoOperation op fp ''scheduler'' n (st\<lparr>usAutomations := m\<rparr>)) d of
               (Some err, d') \<Rightarrow> Some (Inl err, d', ws')
             | (None, d') \<Rightarrow> Some (Inr result, d', ws')))))"

end
