(* ===== verification/AutoProps.thy ===== *)
theory AutoProps
  imports Automation WorkProps
begin

text \<open>
  The properties of the recurring tasks: when the interval loop ends, what a tick leaves behind, what every run in the file says about
  its product task over any interleaving with calls to the task store, and two ways in which one automation stops the scheduler.
\<close>

section \<open>The interval\<close>

lemma autoStep_exact: "0 < auEverySeconds x \<Longrightarrow> auEverySeconds x \<le> 9223372036 \<Longrightarrow> autoStep x = auEverySeconds x * Second"
  by (simp only: autoStep_def wi_hom_mult sint_sbintrunc') (simp add: signed_take_bit_int_eq_self)

lemma advanceTo_past: "at < t \<Longrightarrow> advanceTo step at t = Some t"
  by (subst advanceTo.simps) simp

lemma advanceTo_least:
  assumes "0 < step"
  shows "\<exists>n. advanceTo step at t = Some (t + int n * step) \<and> at < t + int n * step \<and> (n \<noteq> 0 \<longrightarrow> t + (int n - 1) * step \<le> at)"
proof (induction "nat (at - t + 1)" arbitrary: t rule: less_induct)
  case less
  show ?case
  proof (cases "at < t")
    case True
    then show ?thesis by (intro exI [of _ 0]) (simp add: advanceTo_past)
  next
    case False
    with assms have "nat (at - (t + step) + 1) < nat (at - t + 1)" by simp
    from less [OF this] obtain n where n: "advanceTo step at (t + step) = Some (t + step + int n * step)"
      "at < t + step + int n * step" "n \<noteq> 0 \<longrightarrow> t + step + (int n - 1) * step \<le> at" by blast
    have "advanceTo step at t = Some (t + int (Suc n) * step)"
      using False n(1) by (subst advanceTo.simps) (simp add: algebra_simps)
    moreover have "at < t + int (Suc n) * step" using n(2) by (simp add: algebra_simps)
    moreover have "t + (int (Suc n) - 1) * step \<le> at" using n(3) False by (cases n) (simp_all add: algebra_simps)
    ultimately show ?thesis by blast
  qed
qed

lemma advanceTo_stuck:
  assumes "step \<le> 0" and "t \<le> at"
  shows "advanceTo step at t = None"
proof -
  have "\<not> (step \<le> 0 \<and> t \<le> at)" if "advanceTo step at t = Some r" for r
    using that by (rule advanceTo.raw_induct [rotated]) (fastforce split: if_splits)
  with assms show ?thesis by (cases "advanceTo step at t") auto
qed

lemma advanceAuto_Some: "advanceAuto at x = Some y \<Longrightarrow> at < auNextRunAt y \<and> (\<exists>t. y = x\<lparr>auNextRunAt := t\<rparr>)"
proof -
  assume "advanceAuto at x = Some y"
  then obtain t where t: "advanceTo (autoStep x) at (auNextRunAt x) = Some t" "y = x\<lparr>auNextRunAt := t\<rparr>"
    by (auto simp: advanceAuto_def)
  have "at < t" using t(1) by (rule advanceTo.raw_induct [rotated]) (auto split: if_splits)
  with t(2) show ?thesis by auto
qed

lemma advanceAuto_same [simp]: "autoStep (x\<lparr>auRuns := rs\<rparr>) = autoStep x" "autoStep (x\<lparr>auConsecutiveFailures := k\<rparr>) = autoStep x"
    "autoStep (x\<lparr>auStatus := s\<rparr>) = autoStep x"
  by (simp_all add: autoStep_def)

text \<open>The loop that moves the next run past the current time ends if and only if the next run is already past it or the 64-bit
  interval is positive.\<close>

theorem advance_returns_iff:
  "(\<exists>y. advanceAuto at x = Some y) \<longleftrightarrow> at < auNextRunAt x \<or> 0 < autoStep x"
proof (cases "0 < autoStep x")
  case True
  with advanceTo_least [OF True, of at "auNextRunAt x"] show ?thesis by (auto simp: advanceAuto_def)
next
  case False
  then show ?thesis using advanceTo_stuck [of "autoStep x" "auNextRunAt x" at]
    by (cases "at < auNextRunAt x") (simp_all add: advanceAuto_def advanceTo_past)
qed

text \<open>With an interval of at most 9223372036 seconds the product does not wrap, and the loop computes a closed formula: the
  first slot of the schedule after the current time.\<close>

theorem advance_closed_form:
  assumes "0 < auEverySeconds x" and "auEverySeconds x \<le> 9223372036"
  shows "advanceAuto at x = Some (x\<lparr>auNextRunAt := (if at < auNextRunAt x then auNextRunAt x
    else auNextRunAt x + ((at - auNextRunAt x) div (auEverySeconds x * Second) + 1) * (auEverySeconds x * Second))\<rparr>)"
proof -
  let ?s = "auEverySeconds x * Second" and ?t = "auNextRunAt x"
  have s: "autoStep x = ?s" "0 < ?s" using assms autoStep_exact by simp_all
  show ?thesis
  proof (cases "at < ?t")
    case True
    then show ?thesis by (simp add: advanceAuto_def advanceTo_past)
  next
    case False
    from advanceTo_least [OF s(2), of at ?t] obtain n where n: "advanceTo ?s at ?t = Some (?t + int n * ?s)" "at < ?t + int n * ?s"
      "n \<noteq> 0 \<longrightarrow> ?t + (int n - 1) * ?s \<le> at" by blast
    with False have "n \<noteq> 0" by (cases n) auto
    with n have "(at - ?t) div ?s = int n - 1"
      by (intro int_div_pos_eq [of _ _ _ "at - ?t - (int n - 1) * ?s"]) (simp_all add: algebra_simps)
    with n(1) False show ?thesis by (simp add: advanceAuto_def s(1))
  qed
qed

section \<open>The runs of one automation\<close>

lemma find_last_None: "find_last P xs = None \<longleftrightarrow> (\<forall>x\<in>set xs. \<not> P x)"
  by (auto simp: find_last_def find_None_iff all_set_conv_all_nth)

lemma find_last_Some: "find_last P xs = Some k \<Longrightarrow> k < length xs \<and> P (xs ! k)"
  by (auto simp: find_last_def find_Some_iff) (metis length_rev length_upt minus_nat.diff_0 nth_mem set_rev atLeastLessThan_upt atLeastLessThan_iff)

definition open_runs :: "ARun list \<Rightarrow> nat" where
  "open_runs rs = length (filter (\<lambda>run. rnState run = RunDispatched) rs)"

lemma open_runs_close:
  assumes "k < length rs" and "rnState (rs ! k) = RunDispatched" and "rnState run \<noteq> RunDispatched"
  shows "open_runs (rs[k := run]) + 1 = open_runs rs"
proof -
  have "rs = take k rs @ rs ! k # drop (Suc k) rs" using assms(1) by (rule id_take_nth_drop)
  then have "open_runs rs = open_runs (take k rs @ rs ! k # drop (Suc k) rs)" by (rule arg_cong)
  moreover have "rs[k := run] = take k rs @ run # drop (Suc k) rs" using assms(1) by (rule upd_conv_take_nth_drop)
  ultimately show ?thesis using assms(2,3) by (simp add: open_runs_def)
qed

text \<open>What a run in the file says about its task.\<close>

definition run_backed :: "workStore \<Rightarrow> ARun \<Rightarrow> bool" where
  "run_backed ws run \<longleftrightarrow>
     (rnState run = RunDispatched \<longrightarrow> (\<exists>t. readJSON (wsTasks ws) (taskPath (rnTaskID run)) = Inr t)) \<and>
     (rnState run = RunSucceeded \<longrightarrow> (\<exists>t. readJSON (wsTasks ws) (taskPath (rnTaskID run)) = Inr t \<and> wState t = Done)) \<and>
     (rnState run = RunFailed \<longrightarrow> (\<exists>t. readJSON (wsTasks ws) (taskPath (rnTaskID run)) = Inr t \<and> wState t = Closed))"

lemma run_backed_later: "run_backed ws run \<Longrightarrow> store_le ws ws' \<Longrightarrow> run_backed ws' run"
  unfolding run_backed_def store_le_def work_le_def by (metis work_terminal_def)

text \<open>The invariant of one automation.\<close>

definition auto_good :: "workStore \<Rightarrow> Automation \<Rightarrow> bool" where
  "auto_good ws x \<longleftrightarrow> 0 < auFailurePauseThreshold x \<and> open_runs (auRuns x) \<le> 1 \<and>
     (auStatus x = Active \<longrightarrow> auConsecutiveFailures x < auFailurePauseThreshold x) \<and> list_all (run_backed ws) (auRuns x)"

lemma auto_good_later: "auto_good ws x \<Longrightarrow> store_le ws ws' \<Longrightarrow> auto_good ws' x"
  by (auto simp: auto_good_def list_all_iff intro: run_backed_later)

lemma backed_update: "list_all P rs \<Longrightarrow> P run \<Longrightarrow> list_all P (rs[k := run])"
  using set_update_subset_insert [of rs k run] by (auto simp: list_all_iff)

definition same_plan :: "Automation \<Rightarrow> Automation \<Rightarrow> bool" where
  "same_plan x y \<longleftrightarrow> auID y = auID x \<and> auTemplate y = auTemplate x \<and> auEverySeconds y = auEverySeconds x \<and>
     auFailurePauseThreshold y = auFailurePauseThreshold x"

lemma finalize_good:
  assumes "finalizeTerminal e ws at x = (x1, b)" and "auto_good ws x"
  shows "auto_good ws x1 \<and> same_plan x x1 \<and> auNextRunAt x1 = auNextRunAt x \<and> length (auRuns x1) = length (auRuns x) \<and>
    (b \<or> x1 = x)"
proof (cases "find_last (\<lambda>run. rnState run = RunDispatched) (auRuns x)")
  case None
  with assms show ?thesis by (auto simp: finalizeTerminal_def same_plan_def)
next
  case (Some k)
  let ?run = "auRuns x ! k"
  from find_last_Some [OF Some] have k: "k < length (auRuns x)" "rnState ?run = RunDispatched" by blast+
  show ?thesis
  proof (cases "GetWork e (rnTaskID ?run) ws")
    case (Inl err)
    with assms Some show ?thesis by (auto simp: finalizeTerminal_def same_plan_def Let_def)
  next
    case (Inr task)
    then have task: "readJSON (wsTasks ws) (taskPath (rnTaskID ?run)) = Inr task"
      by (auto simp: GetWork_def readTask_Inr split: option.splits if_splits)
    have fewer: "open_runs ((auRuns x)[k := run']) \<le> 1" if "rnState run' \<noteq> RunDispatched" for run'
      using open_runs_close [OF k that] assms(2) by (simp add: auto_good_def)
    show ?thesis
    proof (cases "wState task = Done")
      case True
      let ?r = "?run\<lparr>rnState := RunSucceeded, rnCompletedAt := at, rnReason := ''product task reached done''\<rparr>"
      from True assms(1) Some Inr have x1: "x1 = x\<lparr>auRuns := (auRuns x)[k := ?r], auConsecutiveFailures := 0\<rparr>" "b"
        by (simp_all add: finalizeTerminal_def Let_def)
      have "run_backed ws ?r" using True task by (simp add: run_backed_def)
      with assms(2) fewer [of ?r] show ?thesis by (simp add: x1 auto_good_def same_plan_def backed_update)
    next
      case False
      show ?thesis
      proof (cases "wState task = Closed")
        case True
        let ?r = "?run\<lparr>rnState := RunFailed, rnCompletedAt := at, rnReason := ''product task closed before delivery''\<rparr>"
        from True assms(1) Some Inr have x1: "x1 = count_failure (x\<lparr>auRuns := (auRuns x)[k := ?r]\<rparr>)" "b"
          by (simp_all add: finalizeTerminal_def Let_def)
        have "run_backed ws ?r" using True task by (simp add: run_backed_def)
        with assms(2) fewer [of ?r] show ?thesis by (simp add: x1 auto_good_def same_plan_def backed_update count_failure_def Let_def)
      next
        case closed: False
        with False assms Some Inr show ?thesis by (auto simp: finalizeTerminal_def same_plan_def Let_def)
      qed
    qed
  qed
qed

section \<open>One turn of the scheduler\<close>

lemma CreateWork_reads:
  assumes "work_inv s" and "CreateWork e c s = (Inr v, s')"
  shows "readTask (wID v) (wsTasks s') = Inr v"
  using assms(2)
proof (cases rule: CreateWork_cases)
  case unchanged
  then have v: "readTask (cID (createInput e c)) (wsTasks s) = Inr v" by blast
  with assms(1) have "wID v = cID (createInput e c)" by (auto simp: work_inv_def readTask_Inr)
  with v unchanged(1) show ?thesis by simp
next
  case (created err)
  obtain r d' where w: "writeTask (wio e) (createdTask e c) (wsTasks s) = (r, d')" by fastforce
  with created(4,5) have "v = createdTask e c" "r = None" "wsTasks s' = d'" by simp_all
  with writeTask_ok [of "wio e" v "wsTasks s" d'] w validateTask_safe show ?thesis by (auto simp: readTask_Inr readJSON_update)
qed

text \<open>What the turn of one automation makes of it.\<close>

definition turned :: "time \<Rightarrow> workStore \<Rightarrow> Automation \<Rightarrow> Automation \<Rightarrow> bool" where
  "turned at ws x y \<longleftrightarrow> auto_good ws y \<and> same_plan x y \<and> (auStatus y = Active \<longrightarrow> at < auNextRunAt y)"

fun step_result :: "Automation \<Rightarrow> tick_step \<Rightarrow> Automation" where
  "step_result x TickIdle = x"
| "step_result x (TickPaused y b) = y"
| "step_result x (TickSkipped y r) = y"
| "step_result x (TickDispatched y r) = y"

lemma good_advance:
  assumes "advanceAuto at (x\<lparr>auRuns := auRuns x @ [run]\<rparr>) = Some y" and "auto_good ws x" and "run_backed ws run"
    and "rnState run = RunDispatched \<Longrightarrow> open_runs (auRuns x) = 0"
  shows "turned at ws x (touched at y)"
proof -
  from advanceAuto_Some [OF assms(1)] obtain t where y: "y = x\<lparr>auRuns := auRuns x @ [run], auNextRunAt := t\<rparr>" "at < auNextRunAt y" by auto
  have "open_runs (auRuns x @ [run]) \<le> 1"
    using assms(2,4) by (cases "rnState run = RunDispatched") (auto simp: open_runs_def auto_good_def)
  with assms(2,3) y show ?thesis by (simp add: turned_def auto_good_def same_plan_def touched_def)
qed

lemma tickItem_turned:
  assumes "tickItem eg ec at x ws = Some (r, ws')" and "work_inv ws" and "auto_good ws x"
  shows "work_inv ws' \<and> store_le ws ws' \<and>
    (\<forall>step. r = Inr step \<longrightarrow> turned at ws' x (step_result x step) \<and> step \<noteq> TickPaused (step_result x step) False)"
proof (cases "auStatus x \<noteq> Active \<or> at < auNextRunAt x")
  case True
  with assms show ?thesis by (auto simp: tickItem_def turned_def same_plan_def)
next
  case False
  obtain x1 b where f: "finalizeTerminal eg ws at x = (x1, b)" by fastforce
  note g = finalize_good [OF f assms(3)]
  have plan: "turned at ws x y" if "turned at ws x1 y" for y ws using that g by (auto simp: turned_def same_plan_def)
  show ?thesis
  proof (cases "auStatus x1 = Paused")
    case True
    with False g have "b" by auto
    with True False f assms(1,2) g show ?thesis
      by (auto simp: tickItem_def turned_def auto_good_def same_plan_def touched_def)
  next
    case unpaused: False
    show ?thesis
    proof (cases "activeRun x1")
      case (Some a)
      let ?run = "(next_run RunSkipped x1)\<lparr>rnCompletedAt := at, rnReason := ''previous automation task is still open''\<rparr>"
      from Some unpaused False f assms(1) obtain x2 where x2: "advanceAuto at (x1\<lparr>auRuns := auRuns x1 @ [?run]\<rparr>) = Some x2"
        "r = Inr (TickSkipped (touched at x2) ?run)" "ws' = ws"
        by (auto simp: tickItem_def Let_def)
      have "turned at ws x1 (touched at x2)"
        by (rule good_advance [OF x2(1)]) (use g in \<open>simp_all add: run_backed_def next_run_def\<close>)
      with plan x2 assms(2) show ?thesis by simp
    next
      case None
      then have none: "open_runs (auRuns x1) = 0" by (simp add: activeRun_def find_last_None open_runs_def filter_empty_conv)
      obtain c wc where c: "CreateWork ec (dispatch_input x1) ws = (c, wc)" by fastforce
      note le = CreateWork_step [OF assms(2) c]
      show ?thesis
      proof (cases c)
        case (Inl err)
        with None unpaused False f c assms(1) le show ?thesis by (auto simp: tickItem_def)
      next
        case (Inr t)
        let ?run = "(next_run RunDispatched x1)\<lparr>rnTaskID := wID t, rnDispatchedAt := at\<rparr>"
        from None unpaused False f c Inr assms(1) obtain x2 where x2: "advanceAuto at (x1\<lparr>auRuns := auRuns x1 @ [?run]\<rparr>) = Some x2"
          "r = Inr (TickDispatched (touched at x2) ?run)" "ws' = wc"
          by (auto simp: tickItem_def Let_def)
        have "run_backed wc ?run"
          using CreateWork_reads [OF assms(2) c [unfolded Inr]] by (simp add: run_backed_def next_run_def readTask_Inr)
        then have "turned at wc x1 (touched at x2)"
          by (intro good_advance [OF x2(1)]) (use g le none in \<open>auto intro: auto_good_later\<close>)
        with plan x2 le show ?thesis by simp
      qed
    qed
  qed
qed

section \<open>The loop of the scheduler\<close>

definition all_good :: "workStore \<Rightarrow> Automation gomap \<Rightarrow> bool" where
  "all_good ws m \<longleftrightarrow> wf_map m \<and> (\<forall>i x. mget m i = Some x \<longrightarrow> auto_good ws x \<and> auID x = i)"

lemma all_good_later: "all_good ws m \<Longrightarrow> store_le ws ws' \<Longrightarrow> all_good ws' m"
  by (auto simp: all_good_def intro: auto_good_later)

lemma all_good_put: "all_good ws m \<Longrightarrow> auto_good ws x \<Longrightarrow> auID x = i \<Longrightarrow> all_good ws (mput i x m)"
  by (auto simp: all_good_def)

definition settled :: "time \<Rightarrow> Automation \<Rightarrow> bool" where
  "settled at x \<longleftrightarrow> auStatus x = Active \<longrightarrow> at < auNextRunAt x"

lemma apply_step_map:
  "mget m i = Some x \<Longrightarrow> mget (fst (apply_step i step (m, rest))) j = (if j = i then Some (step_result x step) else mget m j)"
  by (cases step; cases rest) auto

lemma apply_step_wf: "wf_map m \<Longrightarrow> wf_map (fst (apply_step i step (m, rest)))"
  by (cases step; cases rest) auto

lemma apply_step_changed:
  "step \<noteq> TickPaused (step_result x step) False \<Longrightarrow> \<not> snd (snd (apply_step i step acc)) \<Longrightarrow> step = TickIdle \<and> \<not> snd (snd acc)"
  by (cases step; cases acc) auto

lemma tickLoop_good:
  assumes "tickLoop es k at is acc ws = Some (r, ws')" and "work_inv ws" and "all_good ws (fst acc)" and "distinct is"
    and "\<forall>i\<in>set is. mget (fst acc) i \<noteq> None"
  shows "work_inv ws' \<and> store_le ws ws' \<and> (\<forall>m res changed. r = Inr (m, res, changed) \<longrightarrow> all_good ws' m \<and>
    (\<forall>i\<in>set is. \<forall>x. mget m i = Some x \<longrightarrow> settled at x) \<and> (\<forall>i. i \<notin> set is \<longrightarrow> mget m i = mget (fst acc) i) \<and>
    (\<forall>i x. mget (fst acc) i = Some x \<longrightarrow> (\<exists>y. mget m i = Some y \<and> same_plan x y)) \<and>
    (\<not> changed \<longrightarrow> m = fst acc \<and> \<not> snd (snd acc)))"
  using assms
proof (induction "is" arbitrary: k acc ws)
  case Nil
  then show ?case by (auto simp: same_plan_def)
next
  case (Cons i "is")
  obtain m0 rest where acc: "acc = (m0, rest)" by (metis surj_pair)
  from Cons.prems(5) acc obtain x where x: "mget m0 i = Some x" by auto
  with Cons.prems(3) acc have gx: "auto_good ws x" "auID x = i" by (auto simp: all_good_def)
  from Cons.prems(1) acc x obtain r1 ws1 where t: "tickItem (es k 0) (es k 1) at x ws = Some (r1, ws1)"
    by (auto split: option.splits)
  note turn = tickItem_turned [OF t Cons.prems(2) gx(1)]
  show ?case
  proof (cases r1)
    case (Inl err)
    with Cons.prems(1) acc x t turn show ?thesis by auto
  next
    case (Inr step)
    let ?acc = "apply_step i step acc"
    let ?y = "step_result x step"
    from Inr turn have y: "turned at ws1 x ?y" "step \<noteq> TickPaused ?y False" by auto
    have get: "mget (fst ?acc) j = (if j = i then Some ?y else mget m0 j)" for j
      using apply_step_map [OF x] by (simp add: acc)
    have loop: "tickLoop es (Suc k) at is ?acc ws1 = Some (r, ws')"
      using Cons.prems(1) t Inr x by (simp add: acc)
    have "all_good ws1 (fst ?acc)"
      using all_good_later [OF Cons.prems(3), of ws1] turn y(1) gx apply_step_wf [of m0 i step rest] get
      by (auto simp: all_good_def acc turned_def same_plan_def split: if_splits)
    moreover have "\<forall>j\<in>set is. mget (fst ?acc) j \<noteq> None" using Cons.prems(5) get by (auto simp: acc)
    ultimately have ih: "work_inv ws' \<and> store_le ws1 ws' \<and> (\<forall>m res changed. r = Inr (m, res, changed) \<longrightarrow> all_good ws' m \<and>
      (\<forall>i\<in>set is. \<forall>x. mget m i = Some x \<longrightarrow> settled at x) \<and> (\<forall>i. i \<notin> set is \<longrightarrow> mget m i = mget (fst ?acc) i) \<and>
      (\<forall>i x. mget (fst ?acc) i = Some x \<longrightarrow> (\<exists>y. mget m i = Some y \<and> same_plan x y)) \<and> (\<not> changed \<longrightarrow> m = fst ?acc \<and> \<not> snd (snd ?acc)))"
      using Cons.IH [OF loop] turn Cons.prems(4) by simp
    have plan: "\<exists>w. mget m j = Some w \<and> same_plan z w"
      if m: "\<forall>i x. mget (fst ?acc) i = Some x \<longrightarrow> (\<exists>y. mget m i = Some y \<and> same_plan x y)" "mget m0 j = Some z" for m j z
    proof (cases "j = i")
      case True
      with m(1) get [of i] obtain w where w: "mget m j = Some w" "same_plan ?y w" by auto
      moreover have "same_plan z ?y" using y(1) x m(2) True by (simp add: turned_def)
      ultimately show ?thesis by (auto simp: same_plan_def)
    next
      case False
      with m get [of j] show ?thesis by auto
    qed
    have idle: "?acc = acc \<and> \<not> snd (snd acc)" if "\<not> snd (snd ?acc)"
      using apply_step_changed [OF y(2) that] by simp
    have "i \<notin> set is" using Cons.prems(4) by simp
    have "\<forall>m res changed. r = Inr (m, res, changed) \<longrightarrow> all_good ws' m \<and> (\<forall>j\<in>set (i # is). \<forall>z. mget m j = Some z \<longrightarrow> settled at z) \<and>
        (\<forall>j. j \<notin> set (i # is) \<longrightarrow> mget m j = mget m0 j) \<and> (\<forall>j z. mget m0 j = Some z \<longrightarrow> (\<exists>w. mget m j = Some w \<and> same_plan z w)) \<and>
        (\<not> changed \<longrightarrow> m = m0 \<and> \<not> snd (snd acc))"
    proof (intro allI impI)
      fix m res changed assume r: "r = Inr (m, res, changed)"
      note hh = conjunct2 [OF conjunct2 [OF ih], THEN spec, THEN spec, THEN spec, THEN mp, OF r]
      note h = conjunct1 [OF hh] hh [THEN conjunct2, THEN conjunct1] hh [THEN conjunct2, THEN conjunct2, THEN conjunct1]
        hh [THEN conjunct2, THEN conjunct2, THEN conjunct2, THEN conjunct1] hh [THEN conjunct2, THEN conjunct2, THEN conjunct2, THEN conjunct2]
      have "mget m i = Some ?y" using h(3) \<open>i \<notin> set is\<close> get by simp
      with y(1) have "\<forall>z. mget m i = Some z \<longrightarrow> settled at z" by (simp add: turned_def settled_def)
      with h(2) have "\<forall>j\<in>set (i # is). \<forall>z. mget m j = Some z \<longrightarrow> settled at z" by simp
      moreover have "\<forall>j. j \<notin> set (i # is) \<longrightarrow> mget m j = mget m0 j" using h(3) get by simp
      moreover have "\<not> changed \<longrightarrow> m = m0 \<and> \<not> snd (snd acc)" using h(5) idle acc by auto
      moreover have "\<forall>j z. mget m0 j = Some z \<longrightarrow> (\<exists>w. mget m j = Some w \<and> same_plan z w)" using plan [OF h(4)] by blast
      ultimately show "all_good ws' m \<and> (\<forall>j\<in>set (i # is). \<forall>z. mget m j = Some z \<longrightarrow> settled at z) \<and>
        (\<forall>j. j \<notin> set (i # is) \<longrightarrow> mget m j = mget m0 j) \<and> (\<forall>j z. mget m0 j = Some z \<longrightarrow> (\<exists>w. mget m j = Some w \<and> same_plan z w)) \<and>
        (\<not> changed \<longrightarrow> m = m0 \<and> \<not> snd (snd acc))"
        using h(1) by (intro conjI)
    qed
    moreover note conjunct1 [OF ih] and store_le_trans [OF conjunct1 [OF conjunct2 [OF turn]] conjunct1 [OF conjunct2 [OF ih]]]
    ultimately show ?thesis unfolding acc fst_conv by (intro conjI)
  qed
qed

lemma tickLoop_idle:
  "\<forall>i\<in>set is. \<forall>x. mget (fst acc) i = Some x \<longrightarrow> auStatus x \<noteq> Active \<or> at < auNextRunAt x \<Longrightarrow>
    tickLoop es k at is acc ws = Some (Inr acc, ws)"
  by (induction "is" arbitrary: k) (auto simp: tickItem_def zeroAutomation_def split: option.splits)

section \<open>Histories\<close>

interpretation auf: durable_file autoStore
  by unfold_locales (simp add: autoStore_def)

type_synonym auto_world = "autoDir \<times> workStore"

definition auto_inv :: "auto_world \<Rightarrow> bool" where
  "auto_inv w \<longleftrightarrow> work_inv (snd w) \<and>
     (\<forall>st. readJSON (fst w) (fsPath autoStore) = Inr st \<longrightarrow> all_good (snd w) (usAutomations st))"

lemma auto_inv_written:
  assumes "work_inv ws" and "all_good ws (usAutomations st)"
  shows "auto_inv (AList.update (fsPath autoStore) (Record st) d, ws)"
  using assms by (simp add: auto_inv_def readJSON_update)

lemma auto_inv_work: "auto_inv (d, ws) \<Longrightarrow> work_inv ws' \<Longrightarrow> store_le ws ws' \<Longrightarrow> auto_inv (d, ws')"
  by (auto simp: auto_inv_def intro: all_good_later)

lemma append_automations [simp]: "usAutomations (appendAutoOperation i fp a n st) = usAutomations st"
  by (simp add: appendAutoOperation_def)

lemma autoOperate_inv:
  assumes "autoOperate e op replay change d = (r, d')" and "auto_inv (d, ws)"
    and "\<And>st st' res. change st = Inr (st', res) \<Longrightarrow> fsValid autoStore st = None \<Longrightarrow> all_good ws (usAutomations st) \<Longrightarrow>
      all_good ws (usAutomations st')"
  shows "auto_inv (d', ws)"
  using assms(1) unfolding autoOperate_def
proof (cases rule: auf.operate_cases)
  case (committed st st' result)
  from committed(1) assms(2) have "all_good ws (usAutomations st)" "work_inv ws" by (auto simp: auto_inv_def readFile_Inr)
  with committed assms(3) show ?thesis by (auto intro: auto_inv_written simp: readFile_Inr)
qed (use assms(2) in simp_all)

lemma create_good:
  assumes "createAutoChange e c fp st = Inr (st', res)" and "all_good ws (usAutomations st)" and "validateAutoCreate c = None"
  shows "all_good ws (usAutomations st')"
proof -
  from assms(3) have "0 < ucFailurePauseThreshold c" by (auto simp: validateAutoCreate_def Let_def split: if_splits)
  then have "auto_good ws (newAutomation (now e) c)" by (simp add: auto_good_def newAutomation_def open_runs_def)
  moreover have i: "auID (newAutomation (now e) c) = ucID c" by (simp add: newAutomation_def)
  moreover have "usAutomations st' = mput (ucID c) (newAutomation (now e) c) (usAutomations st)"
    using assms(1) i by (simp add: createAutoChange_def Let_def split: if_splits) (metis append_automations AutoState.select_convs(3) AutoState.surjective AutoState.update_convs(3))
  ultimately show ?thesis using assms(2) by (simp add: all_good_put)
qed

lemma status_good:
  assumes "statusChange e i op s fp st = Inr (st', res)" and "all_good ws (usAutomations st)"
  shows "all_good ws (usAutomations st')"
proof -
  from assms(1) obtain x where x: "mget (usAutomations st) i = Some x" by (auto simp: statusChange_def split: option.splits)
  with assms(2) have g: "auto_good ws x" "auID x = i" by (auto simp: all_good_def)
  let ?y = "x\<lparr>auStatus := s, auUpdatedAt := now e, auRevision := auRevision x + 1,
    auConsecutiveFailures := (if s = Active then 0 else auConsecutiveFailures x)\<rparr>"
  have "auto_good ws ?y" using g(1) by (simp add: auto_good_def)
  moreover have "usAutomations st' = mput i ?y (usAutomations st)"
    using assms(1) x g(2) by (auto simp: statusChange_def Let_def split: if_splits)
  ultimately show ?thesis using assms(2) g(2) by (simp add: all_good_put)
qed

lemma report_good:
  assumes "reportChange e i r fp eg ws st = Inr (st', res)" and "all_good ws (usAutomations st)"
  shows "all_good ws (usAutomations st')"
proof -
  from assms(1) obtain x k task where x: "mget (usAutomations st) i = Some x" and k: "find_last (\<lambda>run. rnTaskID run = riTaskID r) (auRuns x) = Some k"
    and st: "rnState (auRuns x ! k) = RunDispatched" and t: "GetWork eg (riTaskID r) ws = Inr task"
    and ok: "wState task = (if riSuccess r then Done else Closed)"
    by (auto simp: reportChange_def Let_def split: option.splits sum.splits if_splits)
  let ?run = "(auRuns x ! k)\<lparr>rnState := (if riSuccess r then RunSucceeded else RunFailed), rnEvidence := riEvidence r, rnReason := riReason r,
    rnCompletedAt := now e\<rparr>"
  from assms(2) x have good: "auto_good ws x" "auID x = i" by (auto simp: all_good_def)
  from find_last_Some [OF k] have kk: "k < length (auRuns x)" "rnTaskID (auRuns x ! k) = riTaskID r" by simp_all
  from t have "readJSON (wsTasks ws) (taskPath (riTaskID r)) = Inr task"
    by (auto simp: GetWork_def readTask_Inr split: option.splits if_splits)
  then have "run_backed ws ?run" using kk(2) ok by (simp add: run_backed_def)
  then have b: "list_all (run_backed ws) ((auRuns x)[k := ?run])" using good(1) by (simp add: auto_good_def backed_update)
  have "rnState ?run \<noteq> RunDispatched" by simp
  from open_runs_close [OF kk(1) st this] good(1) have o: "open_runs ((auRuns x)[k := ?run]) \<le> 1"
    unfolding auto_good_def by linarith
  obtain y where y: "usAutomations st' = mput i y (usAutomations st)" "auID y = i" "auRuns y = (auRuns x)[k := ?run]"
    "auFailurePauseThreshold y = auFailurePauseThreshold x"
    "auConsecutiveFailures y = (if riSuccess r then 0 else auConsecutiveFailures x + 1)"
    "auStatus y = (if \<not> riSuccess r \<and> auConsecutiveFailures x + 1 \<ge> auFailurePauseThreshold x then Paused else auStatus x)"
    using assms(1) x k st t ok good(2) by (cases "riSuccess r") (auto simp: reportChange_def Let_def count_failure_def)
  have "auto_good ws y" using b o good(1) by (auto simp: auto_good_def y)
  with assms(2) y(1,2) show ?thesis by (simp add: all_good_put)
qed

text \<open>A tick that returns kept the task store, and either left the file alone or wrote the automations of its loop.\<close>

definition noTick :: TickResult where
  "noTick = \<lparr>tkDispatched = [], tkSkipped = [], tkPaused = []\<rparr>"

lemma tick_ids_set: "set (tick_ids st) = fst ` set (usAutomations st)"
  by (simp add: tick_ids_def)

lemma tick_ids_distinct: "wf_map (usAutomations st) \<Longrightarrow> distinct (tick_ids st)"
  by (metis tick_ids_def mset_sort_by mset_eq_imp_distinct_iff wf_map_def)

lemma tick_ids_keys: "wf_map m \<Longrightarrow> i \<in> fst ` set m \<longleftrightarrow> mget m i \<noteq> None"
  using mget_set [of m i] by (force simp: image_iff)

definition tick_state :: "env \<Rightarrow> time \<Rightarrow> AutoState \<Rightarrow> Automation gomap \<Rightarrow> AutoState" where
  "tick_state e at st m = appendAutoOperation (internalOperationID ''tick'' [format_rfc3339nano at, dec_int (usRevision st + 1)])
     (plainFingerprint ''tick'' (map_option (\<lambda>j. JObj [(''At'', j)]) (json_time at))) ''scheduler'' (clk e 1) (st\<lparr>usAutomations := m\<rparr>)"

lemma tick_state_automations [simp]: "usAutomations (tick_state e at st m) = m"
  by (simp add: tick_state_def)

lemma Tick_run:
  assumes "cerr e = None" and "readFile autoStore d = Inr st" and "at = (if at0 = 0 then clk e 0 else at0)"
    and "tickLoop es 0 at (tick_ids st) (usAutomations st, noTick, False) ws = Some (Inr (m, res, changed), ws0)"
  shows "Tick e es at0 d ws = (if \<not> changed then Some (Inr res, d, ws0) else
        case writeFile autoStore (wio e) (tick_state e at st m) d of (Some err, d') \<Rightarrow> Some (Inl err, d', ws0) | (None, d') \<Rightarrow> Some (Inr res, d', ws0))"
  unfolding Tick_def Let_def tick_state_def assms(3) [symmetric] assms(1,2) option.case sum.case assms(4) [unfolded noTick_def] prod.case by (rule refl)

lemma Tick_cases:
  assumes "Tick e es at0 d ws = Some (r, d', ws')" and "auto_inv (d, ws)" and "at = (if at0 = 0 then clk e 0 else at0)"
  obtains (failed) err where "r = Inl err" and "work_inv ws'" and "store_le ws ws'" and "d' = d"
  | (ran) st m res changed st' where "readFile autoStore d = Inr st" and "work_inv ws'" and "store_le ws ws'" and "all_good ws' m"
      and "tickLoop es 0 at (tick_ids st) (usAutomations st, noTick, False) ws = Some (Inr (m, res, changed), ws')"
      and "\<forall>x\<in>snd ` set m. settled at x" and "\<forall>i x. mget (usAutomations st) i = Some x \<longrightarrow> (\<exists>y. mget m i = Some y \<and> same_plan x y)"
      and "r = Inr res \<or> (\<exists>err. r = Inl err)"
      and "d' = d \<and> (m = usAutomations st \<or> (\<exists>err. r = Inl err)) \<or>
        usAutomations st' = m \<and> fsValid autoStore st' = None \<and> d' = AList.update (fsPath autoStore) (Record st') d"
proof (cases "\<exists>st r0 ws0. cerr e = None \<and> readFile autoStore d = Inr st \<and>
    tickLoop es 0 at (tick_ids st) (usAutomations st, noTick, False) ws = Some (r0, ws0)")
  case False
  from assms(2) have "work_inv ws" by (simp add: auto_inv_def)
  moreover have "r \<in> range Inl \<and> d' = d \<and> ws' = ws"
    using False assms(1,3) by (auto simp: Tick_def Let_def noTick_def split: option.splits sum.splits)
  ultimately show thesis using failed by auto
next
  case True
  then obtain st r0 ws0 where ce: "cerr e = None" and st: "readFile autoStore d = Inr st"
    and loop: "tickLoop es 0 at (tick_ids st) (usAutomations st, noTick, False) ws = Some (r0, ws0)" by blast
  from assms(2) st have g: "all_good ws (usAutomations st)" "work_inv ws" by (auto simp: auto_inv_def readFile_Inr)
  then have wf: "wf_map (usAutomations st)" by (simp add: all_good_def)
  have keys: "\<forall>i\<in>set (tick_ids st). mget (fst (usAutomations st, noTick, False)) i \<noteq> None"
    using tick_ids_keys [OF wf] by (simp add: tick_ids_set)
  note L = tickLoop_good [OF loop g(2) _ tick_ids_distinct [OF wf] keys, unfolded fst_conv, OF g(1)]
  show thesis
  proof (cases r0)
    case (Inl err)
    with assms(1,3) ce st loop have "r = Inl err" "d' = d" "ws' = ws0" by (simp_all add: Tick_def Let_def noTick_def)
    with L failed show thesis by blast
  next
    case (Inr acc)
    obtain m res changed where acc: "acc = (m, res, changed)" by (metis surj_pair)
    have M: "all_good ws0 m" "\<forall>i\<in>set (tick_ids st). \<forall>x. mget m i = Some x \<longrightarrow> settled at x"
      "\<forall>i. i \<notin> set (tick_ids st) \<longrightarrow> mget m i = mget (usAutomations st) i" "\<not> changed \<longrightarrow> m = usAutomations st"
      "\<forall>i x. mget (usAutomations st) i = Some x \<longrightarrow> (\<exists>y. mget m i = Some y \<and> same_plan x y)"
      using L [THEN conjunct2, THEN conjunct2, THEN spec, THEN spec, THEN spec, THEN mp, OF Inr [unfolded acc]] by simp_all
    have sett: "\<forall>x\<in>snd ` set m. settled at x"
    proof (rule ballI)
      fix x assume "x \<in> snd ` set m"
      then obtain i where "(i, x) \<in> set m" by force
      with M(1) have ix: "mget m i = Some x" by (simp add: all_good_def mget_set)
      have "i \<in> set (tick_ids st)"
      proof (rule ccontr)
        assume no: "i \<notin> set (tick_ids st)"
        then have "mget (usAutomations st) i \<noteq> None" using M(3) ix by simp
        with no show False using tick_ids_keys [OF wf] by (simp add: tick_ids_set)
      qed
      with M(2) ix show "settled at x" by blast
    qed
    let ?st' = "tick_state e at st m"
    note t = assms(1) [unfolded Tick_run [OF ce st assms(3) loop [unfolded Inr acc]], symmetric]
    have concl: "ws' = ws0 \<and> (r = Inr res \<or> (\<exists>err. r = Inl err)) \<and> (d' = d \<and> (m = usAutomations st \<or> (\<exists>err. r = Inl err)) \<or>
        usAutomations ?st' = m \<and> fsValid autoStore ?st' = None \<and> d' = AList.update (fsPath autoStore) (Record ?st') d)"
    proof (cases changed)
      case False
      with t M(4) show ?thesis by simp
    next
      case True
      obtain w dw where w: "writeFile autoStore (wio e) ?st' d = (w, dw)" by fastforce
      from w show ?thesis by (cases rule: auf.write_cases) (use t True w in \<open>auto split: option.splits\<close>)
    qed
    show thesis
      by (rule ran [OF st, of m res changed ?st']) (use L M sett concl loop Inr acc in simp_all)
  qed
qed

lemma Tick_inv:
  assumes "Tick e es at0 d ws = Some (r, d', ws')" and "auto_inv (d, ws)"
  shows "auto_inv (d', ws')"
  using assms refl
proof (cases rule: Tick_cases)
  case failed
  then show ?thesis using assms(2) auto_inv_work by blast
next
  case (ran st m res changed st')
  from ran(9) show ?thesis
  proof
    assume "d' = d \<and> (m = usAutomations st \<or> (\<exists>err. r = Inl err))"
    then show ?thesis using auto_inv_work [OF assms(2) ran(2,3)] by simp
  next
    assume "usAutomations st' = m \<and> fsValid autoStore st' = None \<and> d' = AList.update (fsPath autoStore) (Record st') d"
    then show ?thesis using auto_inv_written [OF ran(2), of st' d] ran(4) by simp
  qed
qed

section \<open>Calls\<close>

datatype auto_call =
    UCreate env AutoCreate
  | UTick env "nat \<Rightarrow> nat \<Rightarrow> env" time
  | UReport env env string ReportInput
  | UStatus env string string AutoStatus
  | UWork work_call

text \<open>The world after one call; \<open>None\<close> if the call never returns.\<close>

fun do_auto :: "auto_call \<Rightarrow> auto_world \<Rightarrow> auto_world option" where
  "do_auto (UCreate e c) (d, ws) = Some (snd (CreateAutomation e c d), ws)"
| "do_auto (UTick e es at) (d, ws) = map_option snd (Tick e es at d ws)"
| "do_auto (UReport e eg i r) (d, ws) = Some (snd (ReportRun e eg i r ws d), ws)"
| "do_auto (UStatus e i op s) (d, ws) = Some (snd (SetAutoStatus e i op s d), ws)"
| "do_auto (UWork c) (d, ws) = Some (d, snd (do_work c ws))"

fun auto_steps :: "auto_call list \<Rightarrow> auto_world \<Rightarrow> auto_world option" where
  "auto_steps [] w = Some w"
| "auto_steps (c # cs) w = Option.bind (do_auto c w) (auto_steps cs)"

lemma CreateAutomation_inv: "auto_inv (d, ws) \<Longrightarrow> CreateAutomation e c d = (r, d') \<Longrightarrow> auto_inv (d', ws)"
  by (auto simp: CreateAutomation_def Let_def intro: create_good elim!: autoOperate_inv split: option.splits)

lemma ReportRun_inv: "auto_inv (d, ws) \<Longrightarrow> ReportRun e eg i q ws d = (r, d') \<Longrightarrow> auto_inv (d', ws)"
  by (auto simp: ReportRun_def Let_def simp del: safeID.simps intro: report_good elim!: autoOperate_inv split: option.splits if_splits)

lemma SetAutoStatus_inv: "auto_inv (d, ws) \<Longrightarrow> SetAutoStatus e i op s d = (r, d') \<Longrightarrow> auto_inv (d', ws)"
  by (auto simp: SetAutoStatus_def Let_def simp del: safeID.simps intro: status_good elim!: autoOperate_inv split: option.splits if_splits)

lemma do_auto_inv: "do_auto c w = Some w' \<Longrightarrow> auto_inv w \<Longrightarrow> auto_inv w'"
proof (cases c)
  case (UWork wc)
  assume "do_auto c w = Some w'" "auto_inv w"
  with UWork show ?thesis using do_work_step [of "snd w" wc] auto_inv_work
    by (cases w) (auto simp: auto_inv_def intro: all_good_later)
qed (cases w; auto intro: CreateAutomation_inv Tick_inv ReportRun_inv SetAutoStatus_inv prod.collapse [symmetric])+

lemma auto_steps_inv: "auto_steps cs w = Some w' \<Longrightarrow> auto_inv w \<Longrightarrow> auto_inv w'"
  by (induction cs arbitrary: w) (auto dest: do_auto_inv split: Option.bind_splits)

section \<open>What the file says\<close>

lemma auto_file:
  assumes "auto_inv w" and "auto_steps cs w = Some (d', ws')" and "readJSON d' (fsPath autoStore) = Inr st" and "mget (usAutomations st) i = Some x"
  shows "auto_good ws' x \<and> work_inv ws'"
  using auto_steps_inv [OF assms(2,1)] assms(3,4) by (auto simp: auto_inv_def all_good_def)

text \<open>C22. After any calls to the two stores, with any write failures, a run that the file shows as dispatched has its product task, a
  run it shows as succeeded has a task that is done, submitted under its current contract and passed by the reviewer of its gate, and
  a run it shows as failed has a task that was closed.\<close>

theorem runs_reflect_tasks:
  assumes "auto_inv w" and "auto_steps cs w = Some (d', ws')" and "readJSON d' (fsPath autoStore) = Inr st"
    and "mget (usAutomations st) i = Some x" and "run \<in> set (auRuns x)"
  shows "(rnState run = RunDispatched \<longrightarrow> (\<exists>t. readJSON (wsTasks ws') (taskPath (rnTaskID run)) = Inr t)) \<and>
    (rnState run = RunSucceeded \<longrightarrow> (\<exists>t. readJSON (wsTasks ws') (taskPath (rnTaskID run)) = Inr t \<and> wState t = Done \<and>
       submission_bound t \<and> gate_passed t)) \<and>
    (rnState run = RunFailed \<longrightarrow> (\<exists>t. readJSON (wsTasks ws') (taskPath (rnTaskID run)) = Inr t \<and> wState t = Closed))"
proof -
  from auto_file [OF assms(1-4)] assms(5) have b: "run_backed ws' run" and w: "work_inv ws'"
    by (auto simp: auto_good_def list_all_iff)
  have "reviewed t" if "readJSON (wsTasks ws') (taskPath j) = Inr t" for j t using w that by (auto simp: work_inv_def)
  with b show ?thesis unfolding run_backed_def reviewed_def by blast
qed

text \<open>C23. After any calls an automation has at most one run that is still dispatched, and an active one has had fewer failures in a row
  than its threshold.\<close>

theorem no_overlap_and_pause:
  assumes "auto_inv w" and "auto_steps cs w = Some (d', ws')" and "readJSON d' (fsPath autoStore) = Inr st"
    and "mget (usAutomations st) i = Some x"
  shows "length (filter (\<lambda>run. rnState run = RunDispatched) (auRuns x)) \<le> 1 \<and>
    (auStatus x = Active \<longrightarrow> auConsecutiveFailures x < auFailurePauseThreshold x)"
  using auto_file [OF assms] by (simp add: auto_good_def open_runs_def)

text \<open>A tick that succeeds has settled its time: another tick for the same time changes neither store and reports nothing.\<close>

theorem tick_settles:
  assumes "auto_inv (d, ws)" and "Tick e es at d ws = Some (Inr res, d', ws')" and "at \<noteq> 0" and "cerr e' = None"
  shows "Tick e' es' at d' ws' = Some (Inr noTick, d', ws')"
proof -
  have at: "at = (if at = 0 then clk e 0 else at)" "at = (if at = 0 then clk e' 0 else at)" using assms(3) by simp_all
  have quiet: "Tick e' es' at d' ws' = Some (Inr noTick, d', ws')" if "readFile autoStore d' = Inr st" "\<forall>x\<in>snd ` set (usAutomations st). settled at x" for st
  proof -
    have "tickLoop es' 0 at (tick_ids st) (usAutomations st, noTick, False) ws' = Some (Inr (usAutomations st, noTick, False), ws')"
      using that(2) by (intro tickLoop_idle) (force simp: settled_def dest: map_of_SomeD)
    from Tick_run [OF assms(4) that(1) at(2) this] show ?thesis by simp
  qed
  from assms(2,1) at(1) show ?thesis
  proof (cases rule: Tick_cases)
    case (ran st m res1 changed st')
    from ran(9) show ?thesis
    proof
      assume "d' = d \<and> (m = usAutomations st \<or> (\<exists>err. Inr res = Inl err))"
      with ran(1,6) show ?thesis by (intro quiet) auto
    next
      assume "usAutomations st' = m \<and> fsValid autoStore st' = None \<and> d' = AList.update (fsPath autoStore) (Record st') d"
      with ran(6) show ?thesis by (intro quiet [of st']) (auto simp: readFile_written)
    qed
  qed simp
qed

lemma tickItem_returns: "0 < autoStep x \<Longrightarrow> tickItem eg ec at x ws \<noteq> None"
proof -
  assume s: "0 < autoStep x"
  obtain x1 b where f: "finalizeTerminal eg ws at x = (x1, b)" by fastforce
  have "autoStep x1 = autoStep x"
    using f by (auto simp: finalizeTerminal_def Let_def count_failure_def autoStep_def split: option.splits sum.splits if_splits)
  with s have "\<exists>y. advanceAuto at (x1\<lparr>auRuns := rs\<rparr>) = Some y" for rs using advanceTo_least [of "autoStep x1" at "auNextRunAt x1"]
    by (auto simp: advanceAuto_def)
  then show ?thesis by (auto simp: tickItem_def f Let_def split: prod.splits sum.splits)
qed

lemma tickLoop_returns:
  "\<forall>i\<in>set is. \<forall>x. mget (fst acc) i = Some x \<longrightarrow> 0 < autoStep x \<Longrightarrow> distinct is \<Longrightarrow> tickLoop es k at is acc ws \<noteq> None"
proof (induction "is" arbitrary: k acc ws)
  case (Cons i "is")
  let ?x = "case mget (fst acc) i of Some x \<Rightarrow> x | None \<Rightarrow> zeroAutomation"
  have "tickItem (es k 0) (es k 1) at ?x ws \<noteq> None"
    using Cons.prems(1) tickItem_returns by (cases "mget (fst acc) i") (auto simp: tickItem_def zeroAutomation_def)
  then obtain r ws1 where t: "tickItem (es k 0) (es k 1) at ?x ws = Some (r, ws1)" by auto
  show ?case
  proof (cases r)
    case (Inl err)
    with t show ?thesis by simp
  next
    case (Inr step)
    have "mget (fst (apply_step i step acc)) j = mget (fst acc) j" if "j \<noteq> i" for j
      using that by (cases step; cases acc) auto
    then have "\<forall>j\<in>set is. \<forall>x. mget (fst (apply_step i step acc)) j = Some x \<longrightarrow> 0 < autoStep x"
      using Cons.prems by (metis distinct.simps(2) list.set_intros(2))
    with Cons.IH Cons.prems(2) t Inr show ?thesis by simp
  qed
qed simp

lemma scan_automations_in: "scan_automations m = None \<Longrightarrow> (i, x) \<in> set m \<Longrightarrow> automation_ok i x = None"
  by (induction m rule: scan_automations.induct) (auto split: option.splits)

lemma file_interval: "readFile autoStore d = Inr st \<Longrightarrow> (i, x) \<in> set (usAutomations st) \<Longrightarrow> 0 < auEverySeconds x"
proof -
  assume "readFile autoStore d = Inr st" "(i, x) \<in> set (usAutomations st)"
  then have "automation_ok i x = None"
    by (intro scan_automations_in [of "usAutomations st"])
      (auto simp: readFile_Inr autoStore_def validateAutoState_def split: if_splits option.splits)
  then show ?thesis by (simp add: automation_ok_def split: if_splits)
qed

text \<open>C24. A tick always returns if no automation in the file has an interval above 9223372036 seconds.\<close>

theorem tick_returns:
  assumes "\<And>st i x. readFile autoStore d = Inr st \<Longrightarrow> mget (usAutomations st) i = Some x \<Longrightarrow> auEverySeconds x \<le> 9223372036"
    and "\<And>st. readJSON d (fsPath autoStore) = Inr st \<Longrightarrow> wf_map (usAutomations st)"
  shows "\<exists>r d' ws'. Tick e es at0 d ws = Some (r, d', ws')"
proof (cases "\<exists>st. cerr e = None \<and> readFile autoStore d = Inr st")
  case False
  then show ?thesis by (auto simp: Tick_def Let_def split: option.splits sum.splits)
next
  case True
  then obtain st where ce: "cerr e = None" and st: "readFile autoStore d = Inr st" by blast
  have wf: "wf_map (usAutomations st)" using st assms(2) by (simp add: readFile_Inr)
  have "0 < autoStep x" if "mget (usAutomations st) i = Some x" for i x
    using autoStep_exact [of x] file_interval [OF st, of i x] assms(1) [OF st that] that wf by (simp add: mget_set)
  then have "tickLoop es 0 (if at0 = 0 then clk e 0 else at0) (tick_ids st) (usAutomations st, noTick, False) ws \<noteq> None"
    by (intro tickLoop_returns tick_ids_distinct wf) simp
  then obtain r ws0 where loop: "tickLoop es 0 (if at0 = 0 then clk e 0 else at0) (tick_ids st) (usAutomations st, noTick, False) ws = Some (r, ws0)"
    by auto
  show ?thesis
  proof (cases r)
    case (Inl err)
    with ce st loop show ?thesis by (simp add: Tick_def Let_def noTick_def)
  next
    case (Inr acc)
    with loop show ?thesis
      by (cases acc) (simp add: Tick_run [OF ce st refl] split: prod.splits option.splits)
  qed
qed

section \<open>How one automation stops the scheduler\<close>

lemma tickLoop_blocked:
  "i \<in> set is \<Longrightarrow> mget (fst acc) i = Some x \<Longrightarrow> distinct is \<Longrightarrow> (\<And>eg ec ws step ws'. tickItem eg ec at x ws \<noteq> Some (Inr step, ws')) \<Longrightarrow>
    tickLoop es k at is acc ws \<noteq> Some (Inr acc', ws')"
proof (induction "is" arbitrary: k acc ws)
  case (Cons j "is")
  show ?case
  proof (cases "i = j")
    case True
    with Cons.prems show ?thesis by (auto split: option.splits prod.splits sum.splits)
  next
    case False
    then have "mget (fst (apply_step j step acc)) i = Some x" for step
      using Cons.prems(2) by (cases step; cases acc) auto
    with Cons.IH [OF _ _ _ Cons.prems(4)] Cons.prems(1,3) False show ?thesis by (auto split: option.splits prod.splits sum.splits)
  qed
qed simp

lemma Tick_blocked:
  assumes "readFile autoStore d = Inr st" and "wf_map (usAutomations st)" and "mget (usAutomations st) i = Some x"
    and at: "at = (if at0 = 0 then clk e 0 else at0)" and "\<And>eg ec ws step ws'. tickItem eg ec at x ws \<noteq> Some (Inr step, ws')"
  shows "Tick e es at0 d ws \<noteq> Some (Inr res, w)"
proof -
  let ?loop = "tickLoop es 0 at (tick_ids st) (usAutomations st, noTick, False) ws"
  have "i \<in> set (tick_ids st)" using tick_ids_keys [OF assms(2), of i] assms(3) by (simp add: tick_ids_set)
  from tickLoop_blocked [OF this, of "(usAutomations st, noTick, False)", unfolded fst_conv, OF assms(3) tick_ids_distinct [OF assms(2)] assms(5)]
  have ne: "?loop \<noteq> Some (Inr acc', ws')" for acc' ws' by blast
  have "?loop = None \<or> (\<exists>err ws'. ?loop = Some (Inl err, ws'))"
  proof (cases ?loop)
    case (Some p)
    with ne show ?thesis by (cases p; cases "fst p") auto
  qed simp
  then show ?thesis
    unfolding Tick_def Let_def at [symmetric] assms(1) noTick_def sum.case by (cases "cerr e") auto
qed

lemma due_item:
  assumes "auStatus x = Active" and "auNextRunAt x \<le> at" and "activeRun x = None"
  shows "tickItem eg ec at x ws =
    (case CreateWork ec (dispatch_input x) ws of
       (Inl err, ws') \<Rightarrow> Some (Inl (Wrap (''dispatch automation '' @ auID x) err), ws')
     | (Inr created, ws') \<Rightarrow>
         let run = (next_run RunDispatched x)\<lparr>rnTaskID := wID created, rnDispatchedAt := at\<rparr> in
         map_option (\<lambda>x2. (Inr (TickDispatched (touched at x2) run), ws')) (advanceAuto at (x\<lparr>auRuns := auRuns x @ [run]\<rparr>)))"
proof -
  from assms(3) have "finalizeTerminal eg ws at x = (x, False)" by (simp add: activeRun_def finalizeTerminal_def)
  with assms show ?thesis by (simp add: tickItem_def)
qed

text \<open>C25. An interval whose 64-bit product is zero or negative stops the scheduler: once the automation is due and has no open run, no
  tick ever succeeds for any automation; it never returns, unless it fails before.\<close>

theorem interval_overflow_stalls:
  assumes "readFile autoStore d = Inr st" and "wf_map (usAutomations st)" and "mget (usAutomations st) i = Some x" and "auStatus x = Active"
    and "auNextRunAt x \<le> (if at0 = 0 then clk e 0 else at0)" and "activeRun x = None" and "autoStep x \<le> 0"
  shows "\<nexists>res w. Tick e es at0 d ws = Some (Inr res, w)"
proof -
  obtain at where at: "at = (if at0 = 0 then clk e 0 else at0)" by blast
  note due = assms(5) [folded at]
  have "advanceAuto at (x\<lparr>auRuns := rs\<rparr>) = None" for rs
    using due assms(7) advanceTo_stuck [of "autoStep x" "auNextRunAt x" at] by (simp add: advanceAuto_def)
  then have "tickItem eg ec at x ws0 \<noteq> Some (Inr step, ws1)" for eg ec ws0 step ws1
    unfolding due_item [OF assms(4) due assms(6)] by (simp add: Let_def split: prod.splits sum.splits)
  from Tick_blocked [OF assms(1-3) at this] show ?thesis by blast
qed

text \<open>The checks of an automation's template are weaker than those of the task it creates: when a due automation has a template
  that the task store refuses, for instance one with an empty scope, no tick succeeds for any automation, and the file is never
  written.\<close>

theorem bad_template_stalls:
  assumes "readFile autoStore d = Inr st" and "wf_map (usAutomations st)" and "mget (usAutomations st) i = Some x" and "auStatus x = Active"
    and "auNextRunAt x \<le> (if at0 = 0 then clk e 0 else at0)" and "activeRun x = None"
    and "validateCreate (normalizeCreate (dispatch_input x)) \<noteq> None"
  shows "\<nexists>res w. Tick e es at0 d ws = Some (Inr res, w)"
proof -
  have "cID (dispatch_input x) \<noteq> []" by (simp add: dispatch_input_def run_task_id_def Let_def)
  with assms(7) have c: "\<exists>err. CreateWork ec (dispatch_input x) ws0 = (Inl err, ws0)" for ec ws0
    by (cases "cerr ec") (auto simp: CreateWork_def Let_def)
  obtain at where at: "at = (if at0 = 0 then clk e 0 else at0)" by blast
  note due = assms(5) [folded at]
  have "tickItem eg ec at x ws0 \<noteq> Some (Inr step, ws1)" for eg ec ws0 step ws1
  proof -
    obtain err where "CreateWork ec (dispatch_input x) ws0 = (Inl err, ws0)" using c by blast
    then show ?thesis unfolding due_item [OF assms(4) due assms(6)] by simp
  qed
  from Tick_blocked [OF assms(1-3) at this] show ?thesis by blast
qed

section \<open>Concrete automations\<close>

text \<open>One automation \<open>n1\<close>, due at 100, with the given interval, scope and runs.\<close>

definition demo_template :: "string list \<Rightarrow> TaskTemplate" where
  "demo_template allow = \<lparr>tpWorkspaceID = ''w'', tpChannelID = ''c'', tpCreatorID = ''boss'', tpTitle = ''x'', tpObjective = ''x'',
     tpRequirements = [\<lparr>rqID = ''r1'', rqText = ''x''\<rparr>], tpScope = \<lparr>scAllow = allow, scDeny = []\<rparr>, tpStopConditions = [''x''],
     tpAssigneeID = ''dev'', tpGate = demo_gate\<rparr>"

definition demo_auto :: "int \<Rightarrow> string list \<Rightarrow> ARun list \<Rightarrow> Automation" where
  "demo_auto every allow runs = \<lparr>auSchemaVersion = 1, auID = ''n1'', auName = ''x'', auEverySeconds = every, auNextRunAt = 100,
     auFailurePauseThreshold = 2, auConsecutiveFailures = 0, auStatus = Active, auTemplate = demo_template allow, auRuns = runs,
     auRevision = 1, auCreatedAt = 1, auUpdatedAt = 1\<rparr>"

definition demo_auto_state :: "Automation \<Rightarrow> AutoState" where
  "demo_auto_state x = \<lparr>usSchemaVersion = 1, usRevision = 0, usAutomations = [(''n1'', x)], usOperations = [], usUpdatedAt = 1\<rparr>"

definition demo_auto_dir :: "Automation \<Rightarrow> autoDir" where
  "demo_auto_dir x = [(''automations-v1.json'', Record (demo_auto_state x))]"

text \<open>Every call sees the same environment.\<close>

definition demo_envs :: "nat \<Rightarrow> nat \<Rightarrow> env" where
  "demo_envs = (\<lambda>k n. demo_env)"

definition demo_run :: ARun where
  "demo_run = \<lparr>rnSequence = 1, rnTaskID = ''k1'', rnState = RunSucceeded, rnScheduledAt = 1, rnDispatchedAt = 1, rnCompletedAt = 2,
     rnEvidence = [], rnReason = ''x''\<rparr>"

lemma autoStore_fields [simp]: "fsPath autoStore = ''automations-v1.json''" "fsValid autoStore = validateAutoState"
  by (simp_all add: autoStore_def)

lemma demo_template_valid:
  "0 < every \<Longrightarrow> validateAutoCreate (template_check (demo_auto every allow runs)) = None"
  by (simp add: validateAutoCreate_def template_check_def demo_auto_def demo_template_def demo_gate_def Let_def char_eval)

lemma demo_runs_scan: "runs \<in> {[], [demo_run]} \<Longrightarrow> scan_runs 0 runs = None"
  by (auto simp: demo_run_def run_ok_def char_eval)

lemma demo_auto_ok: "0 < every \<Longrightarrow> runs \<in> {[], [demo_run]} \<Longrightarrow> automation_ok ''n1'' (demo_auto every allow runs) = None"
  unfolding automation_ok_def by (simp add: demo_template_valid) (simp add: demo_auto_def auSchema_def demo_runs_scan char_eval)

lemma demo_auto_valid:
  "0 < every \<Longrightarrow> runs \<in> {[], [demo_run]} \<Longrightarrow> validateAutoState (demo_auto_state (demo_auto every allow runs)) = None"
  unfolding validateAutoState_def demo_auto_state_def by (simp add: demo_auto_ok) (simp add: auSchema_def)

lemma demo_auto_read:
  "0 < every \<Longrightarrow> runs \<in> {[], [demo_run]} \<Longrightarrow>
    readFile autoStore (demo_auto_dir (demo_auto every allow runs)) = Inr (demo_auto_state (demo_auto every allow runs))"
  unfolding readFile_Inr autoStore_fields by (simp only: demo_auto_valid) (simp add: demo_auto_dir_def readJSON_def)

lemma demo_auto_inv: "auto_inv (demo_auto_dir (demo_auto every allow [demo_run]), demo_store Done)"
proof -
  have "run_backed (demo_store Done) demo_run" by (simp add: run_backed_def demo_run_def) (simp add: demo_work_def)
  then have "auto_good (demo_store Done) (demo_auto every allow [demo_run])"
    by (simp add: auto_good_def demo_auto_def open_runs_def)
  then show ?thesis
    by (auto simp: auto_inv_def demo_auto_dir_def readJSON_def demo_auto_state_def all_good_def wf_map_def) (simp add: demo_auto_def)
qed

lemma demo_world_step:
  "auto_steps [UWork (WReq (RClose ''k1'' ''op2'' ''boss'' ''x'' 1) demo_env)] (d, ws) =
    Some (d, snd (do_req (RClose ''k1'' ''op2'' ''boss'' ''x'' 1) demo_env ws))"
  by simp

theorem runs_reflect_tasks_witness:
  "\<exists>t. readJSON (wsTasks (snd (do_req (RClose ''k1'' ''op2'' ''boss'' ''x'' 1) demo_env (demo_store Done)))) (taskPath ''k1'') = Inr t \<and>
     wState t = Done \<and> gate_passed t"
  using runs_reflect_tasks [OF demo_auto_inv [of 60 "[''x'']"] demo_world_step, of "demo_auto_state (demo_auto 60 [''x''] [demo_run])" "''n1''"
      "demo_auto 60 [''x''] [demo_run]" demo_run]
  by (simp add: demo_auto_dir_def readJSON_def demo_auto_state_def del: do_req.simps) (auto simp: demo_auto_def demo_run_def)

theorem no_overlap_and_pause_witness:
  "length (filter (\<lambda>run. rnState run = RunDispatched) (auRuns (demo_auto 60 [''x''] [demo_run]))) \<le> 1"
  using no_overlap_and_pause [OF demo_auto_inv [of 60 "[''x'']"] demo_world_step, of "demo_auto_state (demo_auto 60 [''x''] [demo_run])" "''n1''"
      "demo_auto 60 [''x''] [demo_run]"]
  by (simp add: demo_auto_dir_def readJSON_def demo_auto_state_def)

theorem advance_closed_form_witness:
  "advanceAuto 250 (demo_auto 60 [] []) = Some ((demo_auto 60 [] [])\<lparr>auNextRunAt := 100 + 60 * Second\<rparr>)"
  using advance_closed_form [of "demo_auto 60 [] []" 250] by (simp add: demo_auto_def)

lemma autoStep_overflow: "auEverySeconds x = 2 ^ 55 \<Longrightarrow> autoStep x = 0"
  by (simp add: autoStep_def)

theorem interval_overflow_stalls_witness:
  "(\<nexists>res w. Tick demo_env demo_envs 100 (demo_auto_dir (demo_auto (2 ^ 55) [''x''] [])) (demo_store Done) = Some (Inr res, w)) \<and>
   validateAutoCreate (template_check (demo_auto (2 ^ 55) [''x''] [])) = None"
proof -
  have "mget (usAutomations (demo_auto_state (demo_auto (2 ^ 55) [''x''] []))) ''n1'' = Some (demo_auto (2 ^ 55) [''x''] [])"
    "wf_map (usAutomations (demo_auto_state (demo_auto (2 ^ 55) [''x''] [])))" by (simp_all add: demo_auto_state_def wf_map_def)
  with interval_overflow_stalls [OF demo_auto_read, of "2 ^ 55" "[]" "[''x'']" "''n1''" "demo_auto (2 ^ 55) [''x''] []" 100 demo_env demo_envs "demo_store Done"]
    autoStep_overflow [of "demo_auto (2 ^ 55) [''x''] []"]
  show ?thesis by (simp add: demo_template_valid) (simp add: demo_auto_def activeRun_def find_last_def)
qed

theorem bad_template_stalls_witness:
  "(\<nexists>res w. Tick demo_env demo_envs 100 (demo_auto_dir (demo_auto 60 [] [])) (demo_store Done) = Some (Inr res, w)) \<and>
   validateAutoCreate (template_check (demo_auto 60 [] [])) = None"
proof -
  have m: "mget (usAutomations (demo_auto_state (demo_auto 60 [] []))) ''n1'' = Some (demo_auto 60 [] [])"
    "wf_map (usAutomations (demo_auto_state (demo_auto 60 [] [])))" by (simp_all add: demo_auto_state_def wf_map_def)
  have "scAllow (cScope (normalizeCreate (dispatch_input (demo_auto 60 [] [])))) = []" "scDeny (cScope (normalizeCreate (dispatch_input (demo_auto 60 [] [])))) = []"
    by (simp_all add: normalizeCreate_def normalizeScope_def dispatch_input_def demo_auto_def demo_template_def Let_def normalizeStrings_def)
  then have "validateCreate (normalizeCreate (dispatch_input (demo_auto 60 [] []))) \<noteq> None"
    by (simp add: validateCreate_def validateContract_def del: safeID.simps)
  with m bad_template_stalls [OF demo_auto_read, of 60 "[]" "[]" "''n1''" "demo_auto 60 [] []" 100 demo_env demo_envs "demo_store Done"]
  show ?thesis by (simp add: demo_template_valid) (simp add: demo_auto_def activeRun_def find_last_def)
qed

lemma demo_auto_idle:
  "Tick demo_env es 50 (demo_auto_dir (demo_auto 60 [''x''] [demo_run])) ws =
     Some (Inr noTick, demo_auto_dir (demo_auto 60 [''x''] [demo_run]), ws)"
proof -
  let ?st = "demo_auto_state (demo_auto 60 [''x''] [demo_run])"
  have "tickLoop es 0 50 (tick_ids ?st) (usAutomations ?st, noTick, False) ws = Some (Inr (usAutomations ?st, noTick, False), ws)"
    by (intro tickLoop_idle) (auto simp: demo_auto_state_def demo_auto_def split: if_splits)
  from Tick_run [OF _ demo_auto_read [of 60 "[demo_run]" "[''x'']"] _ this, of demo_env 50] show ?thesis by (simp add: demo_env_def)
qed

theorem tick_settles_witness:
  "Tick demo_env demo_envs 50 (demo_auto_dir (demo_auto 60 [''x''] [demo_run])) (demo_store Done) =
     Some (Inr noTick, demo_auto_dir (demo_auto 60 [''x''] [demo_run]), demo_store Done)"
  using tick_settles [OF demo_auto_inv [of 60 "[''x'']"] demo_auto_idle, of demo_env demo_envs] by (simp add: demo_env_def)

theorem tick_returns_witness:
  "\<exists>r d' ws'. Tick demo_env demo_envs 100 (demo_auto_dir (demo_auto 60 [''x''] [])) (demo_store Done) = Some (r, d', ws')"
proof (rule tick_returns)
  fix st i x
  assume "readFile autoStore (demo_auto_dir (demo_auto 60 [''x''] [])) = Inr st" and "mget (usAutomations st) i = Some x"
  then show "auEverySeconds x \<le> 9223372036"
    by (simp add: demo_auto_read) (auto simp: demo_auto_state_def demo_auto_def split: if_splits)
next
  fix st
  assume "readJSON (demo_auto_dir (demo_auto 60 [''x''] [])) (fsPath autoStore) = Inr st"
  then show "wf_map (usAutomations st)" by (auto simp: demo_auto_dir_def readJSON_def demo_auto_state_def wf_map_def)
qed

end
