(* ===== verification/Computers.thy ===== *)
theory Computers
  imports FileStore GoTime
begin

text \<open>
  The control plane of the execution devices, internal/computer: types.go and store.go. A computer is an execution
  identity whose daemon connects with a short lease and publishes its capabilities; an agent is bound to one computer, runs
  under a run lease, and work reaches the daemon as commands that it polls and acknowledges. The whole state is one file.
\<close>

datatype CompStatus = Offline | Online | OtherCompStatus string

datatype CommandState = CommandQueued | CommandSent | CommandAcked | CommandFailed | OtherCommandState string

datatype RunMode = RunExecute | RunReview | OtherMode string

fun mode_name :: "RunMode \<Rightarrow> string" where
  "mode_name RunExecute = ''execute''"
| "mode_name RunReview = ''review''"
| "mode_name (OtherMode s) = s"

record RunRequest =
  rrRunID :: string
  rrTaskID :: string
  rrAgentID :: string
  rrMode :: RunMode
  rrPrompt :: string
  rrSessionID :: string
  rrAgentRevisionID :: string
  rrRelationshipRevisionID :: string
  rrCapability :: string
  rrTimeoutSeconds :: int
  rrMaxTurns :: int
  rrApprovedTools :: "string list"
  rrTaskRevision :: int
  rrContractRevision :: int
  rrDispatchedAt :: time

record RunResult =
  rsRunID :: string
  rsTaskID :: string
  rsSuccess :: bool
  rsTerminal :: string
  rsSummary :: string
  rsEvidence :: "string list"
  rsArtifactURI :: string
  rsArtifactHash :: string
  rsDecision :: string
  rsReason :: string
  rsStartedAt :: time
  rsCompletedAt :: time

record CapabilitySnapshot =
  csRevision :: int
  csDigest :: string
  csOS :: string
  csArch :: string
  csRuntime :: string
  csTools :: "string gomap"
  csSandboxes :: "string list"
  csCreatedAt :: time

record Computer =
  cmID :: string
  cmOwnerID :: string
  cmName :: string
  cmStatus :: CompStatus
  cmRevision :: int
  cmLeaseID :: string
  cmLeaseExpiresAt :: time
  cmCapability :: string
  cmCapabilities :: "CapabilitySnapshot list"
  cmCreatedAt :: time
  cmUpdatedAt :: time

record Binding =
  bnAgentID :: string
  bnComputerID :: string
  bnRevision :: int
  bnBoundBy :: string
  bnBoundAt :: time

record RunLease =
  rlRunID :: string
  rlAgentID :: string
  rlComputerID :: string
  rlLeaseID :: string
  rlExpiresAt :: time

record Command =
  cdID :: string
  cdComputerID :: string
  cdKind :: string
  cdAgentID :: string
  cdRun :: "RunRequest option"
  cdCancelRunID :: string
  cdResult :: "RunResult option"
  cdState :: CommandState
  cdAttempt :: int
  cdDeliveryLeaseID :: string
  cdError :: string
  cdCreatedAt :: time
  cdUpdatedAt :: time

record CompOperation =
  coID :: string
  coAction :: string
  coFingerprint :: string
  coEntityID :: string
  coRevision :: int
  coCreatedAt :: time

record CompState =
  ccSchemaVersion :: int
  ccRevision :: int
  ccComputers :: "Computer gomap"
  ccBindings :: "Binding gomap"
  ccRunLeases :: "RunLease gomap"
  ccCommands :: "Command gomap"
  ccOperations :: "CompOperation list"
  ccUpdatedAt :: time

record RegisterInput =
  rgOperationID :: string
  rgID :: string
  rgOwnerID :: string
  rgName :: string

record Hello =
  hlComputerID :: string
  hlLeaseID :: string
  hlOS :: string
  hlArch :: string
  hlRuntime :: string
  hlTools :: "string gomap"
  hlSandboxes :: "string list"

record RebindInput =
  rbOperationID :: string
  rbAgentID :: string
  rbTargetComputerID :: string
  rbActorID :: string
  rbExpectedRevision :: int

record RunLeaseInput =
  liOperationID :: string
  liRunID :: string
  liAgentID :: string
  liComputerID :: string
  liLeaseID :: string
  liTTLSeconds :: int

record CommandAck =
  ckCommandID :: string
  ckSuccess :: bool
  ckError :: string
  ckResult :: "RunResult option"

type_synonym compDir = "CompState dir"

definition coErrConflict :: go_error where
  "coErrConflict = Sentinel ''computer control-plane conflict''"

definition ErrOffline :: go_error where
  "ErrOffline = Sentinel ''target computer is offline''"

definition ErrActiveRun :: go_error where
  "ErrActiveRun = Sentinel ''agent has an active run lease''"

definition coErrLease :: go_error where
  "coErrLease = Sentinel ''invalid computer or run lease''"

definition ErrNoCommand :: go_error where
  "ErrNoCommand = Sentinel ''no queued command''"

definition ccSchema :: int where
  "ccSchema = 1"

section \<open>JSON\<close>

definition register_json :: "RegisterInput \<Rightarrow> json" where
  "register_json r = JObj [(''operation_id'', JStr (rgOperationID r)), (''id'', JStr (rgID r)), (''owner_id'', JStr (rgOwnerID r)),
     (''name'', JStr (rgName r))]"

definition rebind_json :: "RebindInput \<Rightarrow> json" where
  "rebind_json r = JObj [(''operation_id'', JStr (rbOperationID r)), (''agent_id'', JStr (rbAgentID r)),
     (''target_computer_id'', JStr (rbTargetComputerID r)), (''actor_id'', JStr (rbActorID r)),
     (''expected_binding_revision'', JInt (rbExpectedRevision r))]"

definition run_lease_json :: "RunLeaseInput \<Rightarrow> json" where
  "run_lease_json r = JObj [(''operation_id'', JStr (liOperationID r)), (''run_id'', JStr (liRunID r)), (''agent_id'', JStr (liAgentID r)),
     (''computer_id'', JStr (liComputerID r)), (''lease_id'', JStr (liLeaseID r)), (''ttl_seconds'', JInt (liTTLSeconds r))]"

definition request_json :: "RunRequest \<Rightarrow> json option" where
  "request_json r = map_option (\<lambda>at. JObj ([(''run_id'', JStr (rrRunID r)), (''task_id'', JStr (rrTaskID r)), (''agent_id'', JStr (rrAgentID r)),
     (''mode'', JStr (mode_name (rrMode r))), (''prompt'', JStr (rrPrompt r))] @ jomit ''session_id'' (rrSessionID r) @
     [(''agent_revision_id'', JStr (rrAgentRevisionID r)), (''relationship_revision_id'', JStr (rrRelationshipRevisionID r)),
     (''expected_capability_digest'', JStr (rrCapability r)), (''timeout_seconds'', JInt (rrTimeoutSeconds r)),
     (''max_turns'', JInt (rrMaxTurns r))] @ jomit_strs ''approved_tools'' (rrApprovedTools r) @
     [(''task_revision'', JInt (rrTaskRevision r)), (''task_contract_revision'', JInt (rrContractRevision r)), (''dispatched_at'', at)]))
     (json_time (rrDispatchedAt r))"

definition result_json :: "RunResult \<Rightarrow> json option" where
  "result_json r = (case (json_time (rsStartedAt r), json_time (rsCompletedAt r)) of
     (Some a, Some b) \<Rightarrow> Some (JObj ([(''run_id'', JStr (rsRunID r)), (''task_id'', JStr (rsTaskID r)), (''success'', JBool (rsSuccess r)),
        (''terminal_reason'', JStr (rsTerminal r)), (''summary'', JStr (rsSummary r))] @ jomit_strs ''evidence'' (rsEvidence r) @
        jomit ''artifact_uri'' (rsArtifactURI r) @ jomit ''artifact_sha256'' (rsArtifactHash r) @ jomit ''decision'' (rsDecision r) @
        jomit ''reason'' (rsReason r) @ [(''started_at'', a), (''completed_at'', b)]))
   | _ \<Rightarrow> None)"

definition ack_json :: "CommandAck \<Rightarrow> json option" where
  "ack_json a = (let base = [(''command_id'', JStr (ckCommandID a)), (''success'', JBool (ckSuccess a))] @ jomit ''error'' (ckError a) in
     case ckResult a of None \<Rightarrow> Some (JObj base) | Some r \<Rightarrow> map_option (\<lambda>j. JObj (base @ [(''result'', j)])) (result_json r))"

text \<open>\<open>encoding/json\<close> writes a map with its keys sorted.\<close>

definition map_json :: "string gomap \<Rightarrow> json" where
  "map_json m = JObj (map (\<lambda>(k, v). (k, JStr v)) (sort_by (\<lambda>x y. fst x < fst y) m))"

definition capabilityDigest :: "Hello \<Rightarrow> string" where
  "capabilityDigest h = sha256_hex (json_text (JObj [(''OS'', JStr (hlOS h)), (''Arch'', JStr (hlArch h)), (''Runtime'', JStr (hlRuntime h)),
     (''Tools'', map_json (hlTools h)), (''Sandboxes'', jstrs (hlSandboxes h))]))"

section \<open>Input\<close>

text \<open>This package also sorts the strings it normalises. \<open>strings.ToLower\<close> is modelled on ASCII letters: the result must be a
  digest of ASCII characters, and no other letter has a lower case in \<open>0-9a-f\<close>.\<close>

definition sortedStrings :: "string list \<Rightarrow> string list" where
  "sortedStrings items = sort_by (<) (normalizeStrings items)"

definition lower :: "char \<Rightarrow> char" where
  "lower c = (let n = of_char c :: nat in if 65 \<le> n \<and> n \<le> 90 then char_of (n + 32) else c)"

definition normalizeHello :: "Hello \<Rightarrow> Hello" where
  "normalizeHello h = h\<lparr>hlComputerID := TrimSpace (hlComputerID h), hlLeaseID := TrimSpace (hlLeaseID h), hlOS := TrimSpace (hlOS h),
     hlArch := TrimSpace (hlArch h), hlRuntime := TrimSpace (hlRuntime h), hlSandboxes := sortedStrings (hlSandboxes h)\<rparr>"

definition normalizeRunRequest :: "RunRequest \<Rightarrow> RunRequest" where
  "normalizeRunRequest r = r\<lparr>rrRunID := TrimSpace (rrRunID r), rrTaskID := TrimSpace (rrTaskID r), rrAgentID := TrimSpace (rrAgentID r),
     rrPrompt := TrimSpace (rrPrompt r), rrSessionID := TrimSpace (rrSessionID r), rrAgentRevisionID := TrimSpace (rrAgentRevisionID r),
     rrRelationshipRevisionID := TrimSpace (rrRelationshipRevisionID r), rrCapability := map lower (TrimSpace (rrCapability r)),
     rrApprovedTools := sortedStrings (rrApprovedTools r)\<rparr>"

definition validateRunRequest :: "RunRequest \<Rightarrow> go_error option" where
  "validateRunRequest r =
     (if \<not> safeID (rrRunID r) \<or> \<not> safeID (rrTaskID r) \<or> \<not> safeID (rrAgentID r) \<or> (rrMode r \<noteq> RunExecute \<and> rrMode r \<noteq> RunReview)
         \<or> rrPrompt r = [] \<or> \<not> safeID (rrAgentRevisionID r) \<or> \<not> safeID (rrRelationshipRevisionID r) \<or> \<not> safeDigest (rrCapability r)
         \<or> rrTimeoutSeconds r \<le> 0 \<or> rrTimeoutSeconds r > 86400 \<or> rrMaxTurns r \<le> 0 \<or> rrMaxTurns r > 256 \<or> rrTaskRevision r \<le> 0
         \<or> rrContractRevision r \<le> 0
      then Some (Errorf ''invalid run request'') else None)"

definition validateRunResult :: "RunResult \<Rightarrow> go_error option" where
  "validateRunResult r =
     (if \<not> safeID (rsRunID r) \<or> \<not> safeID (rsTaskID r) \<or> rsTerminal r = [] \<or> rsSummary r = [] \<or> rsStartedAt r = 0 \<or> rsCompletedAt r = 0
         \<or> rsCompletedAt r < rsStartedAt r
      then Some (Errorf ''invalid run result'')
      else if (rsArtifactHash r \<noteq> [] \<and> \<not> safeDigest (rsArtifactHash r)) \<or> (rsArtifactHash r \<noteq> [] \<and> rsArtifactURI r = [])
      then Some (Errorf ''invalid run result artifact'') else None)"

section \<open>The canonical state\<close>

fun snapshots_ok :: "nat \<Rightarrow> CapabilitySnapshot list \<Rightarrow> bool" where
  "snapshots_ok index [] = True"
| "snapshots_ok index (x # xs) =
     (if csRevision x \<noteq> int index + 1 \<or> \<not> safeDigest (csDigest x) \<or> csOS x = [] \<or> csArch x = [] \<or> csRuntime x = [] \<or> csCreatedAt x = 0
      then False else snapshots_ok (Suc index) xs)"

definition computer_ok :: "string \<times> Computer \<Rightarrow> go_error option" where
  "computer_ok p = (case p of (i, c) \<Rightarrow>
     if i \<noteq> cmID c \<or> \<not> safeID i \<or> \<not> safeID (cmOwnerID c) \<or> cmName c = [] \<or> cmRevision c \<le> 0 \<or> cmCreatedAt c = 0 \<or> cmUpdatedAt c = 0
     then Some (Errorf ''invalid canonical computer'')
     else if cmStatus c \<noteq> Online \<and> cmStatus c \<noteq> Offline then Some (Errorf ''invalid computer status'')
     else if cmStatus c = Online \<and> (\<not> safeID (cmLeaseID c) \<or> cmLeaseExpiresAt c = 0)
     then Some (Errorf ''online computer lacks connection lease'')
     else if cmStatus c = Offline \<and> (cmLeaseID c \<noteq> [] \<or> cmLeaseExpiresAt c \<noteq> 0)
     then Some (Errorf ''offline computer carries connection lease'')
     else if \<not> snapshots_ok 0 (cmCapabilities c) then Some (Errorf ''invalid capability snapshot'')
     else if (cmCapabilities c = [] \<and> cmCapability c \<noteq> [])
         \<or> (cmCapabilities c \<noteq> [] \<and> cmCapability c \<noteq> csDigest (last (cmCapabilities c)))
     then Some (Errorf ''current capability does not identify latest snapshot'') else None)"

definition zeroComputer :: Computer where
  "zeroComputer = \<lparr>cmID = [], cmOwnerID = [], cmName = [], cmStatus = OtherCompStatus [], cmRevision = 0, cmLeaseID = [],
     cmLeaseExpiresAt = 0, cmCapability = [], cmCapabilities = [], cmCreatedAt = 0, cmUpdatedAt = 0\<rparr>"

definition computerOf :: "CompState \<Rightarrow> string \<Rightarrow> Computer" where
  "computerOf st i = (case mget (ccComputers st) i of Some c \<Rightarrow> c | None \<Rightarrow> zeroComputer)"

definition binding_ok :: "CompState \<Rightarrow> string \<times> Binding \<Rightarrow> go_error option" where
  "binding_ok st p = (case p of (i, b) \<Rightarrow>
     if i \<noteq> bnAgentID b \<or> \<not> safeID i \<or> cmID (computerOf st (bnComputerID b)) = [] \<or> bnRevision b \<le> 0 \<or> \<not> safeID (bnBoundBy b)
         \<or> bnBoundAt b = 0
     then Some (Errorf ''invalid agent computer binding'') else None)"

definition lease_ok :: "CompState \<Rightarrow> string \<times> RunLease \<Rightarrow> go_error option" where
  "lease_ok st p = (case p of (i, l) \<Rightarrow>
     if i \<noteq> rlRunID l \<or> \<not> safeID i \<or> \<not> safeID (rlAgentID l) \<or> \<not> safeID (rlComputerID l) \<or> \<not> safeID (rlLeaseID l) \<or> rlExpiresAt l = 0
         \<or> (case mget (ccBindings st) (rlAgentID l) of None \<Rightarrow> True | Some b \<Rightarrow> bnComputerID b \<noteq> rlComputerID l)
     then Some (Errorf ''invalid agent run lease'') else None)"

definition kind_ok :: "Command \<Rightarrow> go_error option" where
  "kind_ok c =
     (if cdKind c = ''cleanup_agent'' then
        (if cdRun c \<noteq> None \<or> cdCancelRunID c \<noteq> [] \<or> cdResult c \<noteq> None then Some (Errorf ''cleanup command carries run data'') else None)
      else if cdKind c = ''run_agent'' then
        (if (case cdRun c of None \<Rightarrow> True | Some r \<Rightarrow> validateRunRequest r \<noteq> None \<or> rrAgentID r \<noteq> cdAgentID c) \<or> cdCancelRunID c \<noteq> []
         then Some (Errorf ''invalid run command'')
         else if (case cdResult c of None \<Rightarrow> False | Some r \<Rightarrow> validateRunResult r \<noteq> None) then Some (Errorf ''invalid run command result'')
         else None)
      else if cdKind c = ''cancel_run'' then
        (if \<not> safeID (cdCancelRunID c) \<or> cdRun c \<noteq> None \<or> cdResult c \<noteq> None then Some (Errorf ''invalid cancel command'') else None)
      else Some (Errorf ''invalid daemon command kind''))"

definition command_ok :: "CompState \<Rightarrow> string \<times> Command \<Rightarrow> go_error option" where
  "command_ok st p = (case p of (i, c) \<Rightarrow>
     if i \<noteq> cdID c \<or> \<not> safeID i \<or> cmID (computerOf st (cdComputerID c)) = [] \<or> \<not> safeID (cdAgentID c) \<or> cdAttempt c < 0
         \<or> cdCreatedAt c = 0 \<or> cdUpdatedAt c = 0
     then Some (Errorf ''invalid daemon command'') else
     case kind_ok c of Some err \<Rightarrow> Some err | None \<Rightarrow>
     if cdState c \<noteq> CommandQueued \<and> cdState c \<noteq> CommandSent \<and> cdState c \<noteq> CommandAcked \<and> cdState c \<noteq> CommandFailed
     then Some (Errorf ''invalid daemon command state'')
     else if (cdState c = CommandSent \<and> \<not> safeID (cdDeliveryLeaseID c))
         \<or> (cdState c \<noteq> CommandSent \<and> cdDeliveryLeaseID c \<noteq> [] \<and> cdAttempt c = 0)
     then Some (Errorf ''invalid command delivery lease'') else None)"

definition cop_ok :: "CompOperation \<Rightarrow> bool" where
  "cop_ok x \<longleftrightarrow> safeID (coID x) \<and> coAction x \<noteq> [] \<and> safeDigest (coFingerprint x) \<and> coCreatedAt x \<noteq> 0"

definition validateCompState :: "CompState \<Rightarrow> go_error option" where
  "validateCompState st =
     (if ccSchemaVersion st \<noteq> ccSchema \<or> ccRevision st < 0 then Some (Errorf ''invalid canonical computer state'') else
      case first_error computer_ok (ccComputers st) of Some err \<Rightarrow> Some err | None \<Rightarrow>
      case first_error (binding_ok st) (ccBindings st) of Some err \<Rightarrow> Some err | None \<Rightarrow>
      case first_error (lease_ok st) (ccRunLeases st) of Some err \<Rightarrow> Some err | None \<Rightarrow>
      case first_error (command_ok st) (ccCommands st) of Some err \<Rightarrow> Some err | None \<Rightarrow>
      if \<not> ledger_ok cop_ok coID coRevision (ccOperations st) then Some (Errorf ''invalid computer operation ledger'')
      else if int (length (ccOperations st)) \<noteq> ccRevision st then Some (Errorf ''computer operation ledger does not reach revision'')
      else None)"

definition compStore :: "CompState file_store" where
  "compStore = \<lparr>fsPath = ''computers-v1.json'', fsValid = validateCompState, fsSame = (\<lambda>x y. ccRevision x = ccRevision y),
     fsMismatch = ''computer state read-back verification failed''\<rparr>"

definition emptyCompState :: "time \<Rightarrow> CompState" where
  "emptyCompState n = \<lparr>ccSchemaVersion = ccSchema, ccRevision = 0, ccComputers = [], ccBindings = [], ccRunLeases = [], ccCommands = [],
     ccOperations = [], ccUpdatedAt = n\<rparr>"

definition NewComputers :: "env \<Rightarrow> compDir \<Rightarrow> go_error option \<times> compDir" where
  "NewComputers e d = openFile compStore (wio e) (emptyCompState (now e)) d"

definition appendCompOperation :: "string \<Rightarrow> string \<Rightarrow> string \<Rightarrow> string \<Rightarrow> time \<Rightarrow> CompState \<Rightarrow> CompState" where
  "appendCompOperation i action fp entityID n st = st\<lparr>ccRevision := ccRevision st + 1, ccUpdatedAt := n,
     ccOperations := ccOperations st @ [\<lparr>coID = i, coAction = action, coFingerprint = fp, coEntityID = entityID,
       coRevision = ccRevision st + 1, coCreatedAt = n\<rparr>]\<rparr>"

definition find_cop :: "string \<Rightarrow> CompState \<Rightarrow> CompOperation option" where
  "find_cop i st = find_op coID i (ccOperations st)"

section \<open>Connections\<close>

definition registerChange :: "env \<Rightarrow> RegisterInput \<Rightarrow> string \<Rightarrow> CompState \<Rightarrow> go_error + CompState \<times> (go_error + Computer)" where
  "registerChange e r fp st =
     (if mget (ccComputers st) (rgID r) \<noteq> None then Inl coErrConflict else
      let c = zeroComputer\<lparr>cmID := rgID r, cmOwnerID := rgOwnerID r, cmName := rgName r, cmStatus := Offline, cmRevision := 1,
                cmCreatedAt := now e, cmUpdatedAt := now e\<rparr> in
      Inr (appendCompOperation (rgOperationID r) ''register'' fp (cmID c) (now e) (st\<lparr>ccComputers := mput (cmID c) c (ccComputers st)\<rparr>),
        Inr c))"

definition normalizeRegister :: "RegisterInput \<Rightarrow> RegisterInput" where
  "normalizeRegister r = \<lparr>rgOperationID = TrimSpace (rgOperationID r), rgID = TrimSpace (rgID r), rgOwnerID = TrimSpace (rgOwnerID r),
     rgName = TrimSpace (rgName r)\<rparr>"

definition RegisterComputer :: "env \<Rightarrow> RegisterInput \<Rightarrow> compDir \<Rightarrow> (go_error + Computer) \<times> compDir" where
  "RegisterComputer e r0 d =
     (case cerr e of Some err \<Rightarrow> (Inl err, d) | None \<Rightarrow>
      let r = normalizeRegister r0 in
      if \<not> safeID (rgOperationID r) \<or> \<not> safeID (rgID r) \<or> \<not> safeID (rgOwnerID r) \<or> rgName r = []
      then (Inl (Errorf ''operation, computer, owner, and name are required''), d) else
      let fp = plainFingerprint ''register'' (Some (register_json r)) in
      operate compStore (wio e) Inl (find_cop (rgOperationID r))
        (\<lambda>st x. if coFingerprint x \<noteq> fp then Inl coErrConflict else Inr (computerOf st (coEntityID x)))
        (registerChange e r fp) d)"

definition put_computer :: "string \<Rightarrow> string \<Rightarrow> string \<Rightarrow> time \<Rightarrow> Computer \<Rightarrow> CompState \<Rightarrow> CompState" where
  "put_computer p leaseID fp n c st =
     appendCompOperation (internalOperationID p [leaseID, dec_int (cmRevision c)]) p fp (cmID c) n
       (st\<lparr>ccComputers := mput (cmID c) c (ccComputers st)\<rparr>)"

definition connectChange :: "env \<Rightarrow> Hello \<Rightarrow> duration \<Rightarrow> string \<Rightarrow> CompState \<Rightarrow> go_error + CompState \<times> (go_error + Computer)" where
  "connectChange e h ttl digest st =
     (case mget (ccComputers st) (hlComputerID h) of None \<Rightarrow> Inl os_ErrNotExist | Some c \<Rightarrow>
      let n = now e in
      if cmStatus c = Online \<and> n < cmLeaseExpiresAt c \<and> cmLeaseID c \<noteq> hlLeaseID h then Inl coErrLease else
      let snapshot = \<lparr>csRevision = int (length (cmCapabilities c)) + 1, csDigest = digest, csOS = hlOS h, csArch = hlArch h,
            csRuntime = hlRuntime h, csTools = hlTools h, csSandboxes = hlSandboxes h, csCreatedAt = n\<rparr>;
          c1 = c\<lparr>cmStatus := Online, cmLeaseID := hlLeaseID h, cmLeaseExpiresAt := n + ttl\<rparr>;
          c2 = (if cmCapability c \<noteq> digest then c1\<lparr>cmCapabilities := cmCapabilities c @ [snapshot], cmCapability := digest\<rparr> else c1);
          c' = c2\<lparr>cmRevision := cmRevision c + 1, cmUpdatedAt := n\<rparr> in
      Inr (put_computer ''connect'' (hlLeaseID h) digest n c' st, Inr c'))"

abbreviation ttl_limit :: duration where
  "ttl_limit \<equiv> 600 * Second"

definition ConnectComputer :: "env \<Rightarrow> Hello \<Rightarrow> duration \<Rightarrow> compDir \<Rightarrow> (go_error + Computer) \<times> compDir" where
  "ConnectComputer e h0 ttl d =
     (case cerr e of Some err \<Rightarrow> (Inl err, d) | None \<Rightarrow>
      let h = normalizeHello h0 in
      if \<not> safeID (hlComputerID h) \<or> \<not> safeID (hlLeaseID h) \<or> hlOS h = [] \<or> hlArch h = [] \<or> hlRuntime h = [] \<or> ttl \<le> 0 \<or> ttl > ttl_limit
      then (Inl (Errorf ''valid computer hello and ttl in (0,10m] are required''), d)
      else update_file compStore (wio e) Inl (connectChange e h ttl (capabilityDigest h)) d)"

definition pair_json :: "string \<Rightarrow> string \<Rightarrow> string \<Rightarrow> string \<Rightarrow> json" where
  "pair_json k v k' v' = JObj [(k, JStr v), (k', JStr v')]"

definition heartbeatComputerChange :: "env \<Rightarrow> string \<Rightarrow> string \<Rightarrow> duration \<Rightarrow> CompState \<Rightarrow> go_error + CompState \<times> (go_error + Computer)" where
  "heartbeatComputerChange e i leaseID ttl st =
     (case mget (ccComputers st) i of None \<Rightarrow> Inl coErrLease | Some c \<Rightarrow>
      let n = now e in
      if cmLeaseID c \<noteq> leaseID \<or> cmStatus c \<noteq> Online \<or> \<not> n < cmLeaseExpiresAt c \<or> ttl \<le> 0 \<or> ttl > ttl_limit then Inl coErrLease else
      let c' = c\<lparr>cmLeaseExpiresAt := n + ttl, cmUpdatedAt := n, cmRevision := cmRevision c + 1\<rparr> in
      Inr (put_computer ''heartbeat'' leaseID (plainFingerprint ''heartbeat'' (Some (pair_json ''Computer'' i ''Lease'' leaseID))) n c' st,
        Inr c'))"

definition HeartbeatComputer :: "env \<Rightarrow> string \<Rightarrow> string \<Rightarrow> duration \<Rightarrow> compDir \<Rightarrow> (go_error + Computer) \<times> compDir" where
  "HeartbeatComputer e i leaseID ttl d =
     (case cerr e of Some err \<Rightarrow> (Inl err, d) | None \<Rightarrow>
      update_file compStore (wio e) Inl (heartbeatComputerChange e i leaseID ttl) d)"

definition disconnectChange :: "env \<Rightarrow> string \<Rightarrow> string \<Rightarrow> CompState \<Rightarrow> go_error + CompState \<times> (go_error + unit)" where
  "disconnectChange e i leaseID st =
     (case mget (ccComputers st) i of None \<Rightarrow> Inl coErrLease | Some c \<Rightarrow>
      if cmLeaseID c \<noteq> leaseID then Inl coErrLease else
      let n = now e;
          c' = c\<lparr>cmStatus := Offline, cmLeaseID := [], cmLeaseExpiresAt := 0, cmRevision := cmRevision c + 1, cmUpdatedAt := n\<rparr> in
      Inr (put_computer ''disconnect'' leaseID (plainFingerprint ''disconnect'' (Some (pair_json ''Computer'' i ''Lease'' leaseID))) n c' st,
        Inr ()))"

definition Disconnect :: "env \<Rightarrow> string \<Rightarrow> string \<Rightarrow> compDir \<Rightarrow> (go_error + unit) \<times> compDir" where
  "Disconnect e i leaseID d =
     (case cerr e of Some err \<Rightarrow> (Inl err, d) | None \<Rightarrow> update_file compStore (wio e) Inl (disconnectChange e i leaseID) d)"

definition online_at :: "time \<Rightarrow> Computer \<Rightarrow> bool" where
  "online_at n c \<longleftrightarrow> cmStatus c = Online \<and> n < cmLeaseExpiresAt c"

section \<open>Bindings and run leases\<close>

text \<open>The loops of \<open>Rebind\<close> and \<open>AcquireRun\<close> over the run leases: they drop the expired ones and stop at one that forbids the
  operation.\<close>

fun rebindLeases :: "time \<Rightarrow> string \<Rightarrow> RunLease gomap \<Rightarrow> go_error + RunLease gomap" where
  "rebindLeases n agent [] = Inr []"
| "rebindLeases n agent ((i, l) # ls) =
     (if \<not> n < rlExpiresAt l then rebindLeases n agent ls
      else if rlAgentID l = agent then Inl ErrActiveRun
      else map_sum id ((#) (i, l)) (rebindLeases n agent ls))"

fun acquireLeases :: "time \<Rightarrow> string \<Rightarrow> string \<Rightarrow> RunLease gomap \<Rightarrow> go_error + RunLease gomap" where
  "acquireLeases n run agent [] = Inr []"
| "acquireLeases n run agent ((i, l) # ls) =
     (if \<not> n < rlExpiresAt l then acquireLeases n run agent ls
      else if rlRunID l = run then Inl coErrLease
      else if rlAgentID l = agent then Inl ErrActiveRun
      else map_sum id ((#) (i, l)) (acquireLeases n run agent ls))"

definition newCommand :: "string \<Rightarrow> string \<Rightarrow> string \<Rightarrow> string \<Rightarrow> time \<Rightarrow> Command" where
  "newCommand i computerID kind agentID n = \<lparr>cdID = i, cdComputerID = computerID, cdKind = kind, cdAgentID = agentID, cdRun = None,
     cdCancelRunID = [], cdResult = None, cdState = CommandQueued, cdAttempt = 0, cdDeliveryLeaseID = [], cdError = [], cdCreatedAt = n,
     cdUpdatedAt = n\<rparr>"

definition put_command :: "Command \<Rightarrow> CompState \<Rightarrow> CompState" where
  "put_command c st = st\<lparr>ccCommands := mput (cdID c) c (ccCommands st)\<rparr>"

definition rebindChange :: "env \<Rightarrow> RebindInput \<Rightarrow> string \<Rightarrow> CompState \<Rightarrow> go_error + CompState \<times> (go_error + Binding \<times> Command option)" where
  "rebindChange e r fp st =
     (let n = now e; current = mget (ccBindings st) (rbAgentID r) in
      if (case mget (ccComputers st) (rbTargetComputerID r) of None \<Rightarrow> True | Some c \<Rightarrow> \<not> online_at n c) then Inl ErrOffline
      else if (case current of None \<Rightarrow> rbExpectedRevision r \<noteq> 0 | Some b \<Rightarrow> bnRevision b \<noteq> rbExpectedRevision r) then Inl coErrConflict
      else
      (case rebindLeases n (rbAgentID r) (ccRunLeases st) of Inl err \<Rightarrow> Inl err | Inr leases \<Rightarrow>
       let b = \<lparr>bnAgentID = rbAgentID r, bnComputerID = rbTargetComputerID r, bnRevision = rbExpectedRevision r + 1,
                bnBoundBy = rbActorID r, bnBoundAt = n\<rparr>;
           st1 = st\<lparr>ccRunLeases := leases, ccBindings := mput (rbAgentID r) b (ccBindings st)\<rparr> in
       (case current of
          Some b0 \<Rightarrow>
            if bnComputerID b0 \<noteq> rbTargetComputerID r then
              (let c = newCommand (internalOperationID ''cleanup'' [rbOperationID r]) (bnComputerID b0) ''cleanup_agent'' (rbAgentID r) n in
               Inr (appendCompOperation (rbOperationID r) ''rebind'' fp (cdID c) n (put_command c st1), Inr (b, Some c)))
            else Inr (appendCompOperation (rbOperationID r) ''rebind'' fp (bnAgentID b) n st1, Inr (b, None))
        | None \<Rightarrow> Inr (appendCompOperation (rbOperationID r) ''rebind'' fp (bnAgentID b) n st1, Inr (b, None)))))"

definition normalizeRebind :: "RebindInput \<Rightarrow> RebindInput" where
  "normalizeRebind r = r\<lparr>rbOperationID := TrimSpace (rbOperationID r), rbAgentID := TrimSpace (rbAgentID r),
     rbTargetComputerID := TrimSpace (rbTargetComputerID r), rbActorID := TrimSpace (rbActorID r)\<rparr>"

definition zeroBinding :: Binding where
  "zeroBinding = \<lparr>bnAgentID = [], bnComputerID = [], bnRevision = 0, bnBoundBy = [], bnBoundAt = 0\<rparr>"

definition Rebind :: "env \<Rightarrow> RebindInput \<Rightarrow> compDir \<Rightarrow> (go_error + Binding \<times> Command option) \<times> compDir" where
  "Rebind e r0 d =
     (case cerr e of Some err \<Rightarrow> (Inl err, d) | None \<Rightarrow>
      let r = normalizeRebind r0 in
      if \<not> safeID (rbOperationID r) \<or> \<not> safeID (rbAgentID r) \<or> \<not> safeID (rbTargetComputerID r) \<or> \<not> safeID (rbActorID r)
         \<or> rbExpectedRevision r < 0
      then (Inl (Errorf ''operation, agent, target computer, actor, and non-negative expected revision are required''), d) else
      let fp = plainFingerprint ''rebind'' (Some (rebind_json r)) in
      operate compStore (wio e) Inl (find_cop (rbOperationID r))
        (\<lambda>st x. if coFingerprint x \<noteq> fp then Inl coErrConflict
           else Inr (case mget (ccBindings st) (rbAgentID r) of Some b \<Rightarrow> b | None \<Rightarrow> zeroBinding, mget (ccCommands st) (coEntityID x)))
        (rebindChange e r fp) d)"

definition acquireChange :: "env \<Rightarrow> RunLeaseInput \<Rightarrow> string \<Rightarrow> CompState \<Rightarrow> go_error + CompState \<times> (go_error + RunLease)" where
  "acquireChange e r fp st =
     (if (case mget (ccBindings st) (liAgentID r) of None \<Rightarrow> True | Some b \<Rightarrow> bnComputerID b \<noteq> liComputerID r) then Inl coErrConflict else
      let n = now e in
      (case acquireLeases n (liRunID r) (liAgentID r) (ccRunLeases st) of Inl err \<Rightarrow> Inl err | Inr leases \<Rightarrow>
       let l = \<lparr>rlRunID = liRunID r, rlAgentID = liAgentID r, rlComputerID = liComputerID r, rlLeaseID = liLeaseID r,
                rlExpiresAt = n + liTTLSeconds r * Second\<rparr> in
       Inr (appendCompOperation (liOperationID r) ''acquire_run'' fp (rlRunID l) n (st\<lparr>ccRunLeases := mput (rlRunID l) l leases\<rparr>), Inr l)))"

definition AcquireRun :: "env \<Rightarrow> RunLeaseInput \<Rightarrow> compDir \<Rightarrow> (go_error + RunLease) \<times> compDir" where
  "AcquireRun e r d =
     (case cerr e of Some err \<Rightarrow> (Inl err, d) | None \<Rightarrow>
      if \<not> safeID (liOperationID r) \<or> \<not> safeID (liRunID r) \<or> \<not> safeID (liAgentID r) \<or> \<not> safeID (liComputerID r) \<or> \<not> safeID (liLeaseID r)
         \<or> liTTLSeconds r \<le> 0 \<or> liTTLSeconds r > 86400
      then (Inl (Errorf ''valid run lease fields are required''), d) else
      let fp = plainFingerprint ''acquire_run'' (Some (run_lease_json r)) in
      operate compStore (wio e) Inl (find_cop (liOperationID r))
        (\<lambda>st x. if coFingerprint x \<noteq> fp then Inl coErrConflict
           else case mget (ccRunLeases st) (liRunID r) of None \<Rightarrow> Inl coErrLease | Some l \<Rightarrow> Inr l)
        (acquireChange e r fp) d)"

definition releaseChange :: "env \<Rightarrow> string \<Rightarrow> string \<Rightarrow> string \<Rightarrow> string \<Rightarrow> CompState \<Rightarrow> go_error + CompState \<times> (go_error + unit)" where
  "releaseChange e runID operationID leaseID fp st =
     (case mget (ccRunLeases st) runID of None \<Rightarrow> Inl coErrLease | Some l \<Rightarrow>
      if rlLeaseID l \<noteq> leaseID then Inl coErrLease
      else Inr (appendCompOperation operationID ''release_run'' fp runID (now e) (st\<lparr>ccRunLeases := mdel runID (ccRunLeases st)\<rparr>), Inr ()))"

definition ReleaseRun :: "env \<Rightarrow> string \<Rightarrow> string \<Rightarrow> string \<Rightarrow> compDir \<Rightarrow> (go_error + unit) \<times> compDir" where
  "ReleaseRun e runID operationID leaseID d =
     (case cerr e of Some err \<Rightarrow> (Inl err, d) | None \<Rightarrow>
      let fp = plainFingerprint ''release_run'' (Some (pair_json ''Run'' runID ''Lease'' leaseID)) in
      operate compStore (wio e) Inl (find_cop operationID)
        (\<lambda>st x. if coFingerprint x \<noteq> fp then Inl coErrConflict else Inr ())
        (releaseChange e runID operationID leaseID fp) d)"

section \<open>Commands\<close>

definition queueRunChange :: "env \<Rightarrow> string \<Rightarrow> RunRequest \<Rightarrow> string \<Rightarrow> CompState \<Rightarrow> go_error + CompState \<times> (go_error + Command)" where
  "queueRunChange e operationID r fp st =
     (let n = now e in
      case mget (ccRunLeases st) (rrRunID r) of None \<Rightarrow> Inl coErrLease | Some l \<Rightarrow>
      if rlAgentID l \<noteq> rrAgentID r \<or> \<not> n < rlExpiresAt l then Inl coErrLease else
      (case (mget (ccBindings st) (rrAgentID r), mget (ccComputers st) (rlComputerID l)) of
         (Some b, Some c) \<Rightarrow>
           if bnComputerID b \<noteq> rlComputerID l \<or> \<not> online_at n c then Inl ErrOffline
           else if cmCapability c \<noteq> rrCapability r then Inl coErrConflict
           else
             let cd = (newCommand (internalOperationID ''run'' [operationID]) (cmID c) ''run_agent'' (rrAgentID r) n)
                   \<lparr>cdRun := Some (r\<lparr>rrDispatchedAt := n\<rparr>)\<rparr> in
             Inr (appendCompOperation operationID ''queue_run'' fp (cdID cd) n (put_command cd st), Inr cd)
       | _ \<Rightarrow> Inl ErrOffline))"

definition QueueRun :: "env \<Rightarrow> string \<Rightarrow> RunRequest \<Rightarrow> compDir \<Rightarrow> (go_error + Command) \<times> compDir" where
  "QueueRun e op0 r0 d =
     (case cerr e of Some err \<Rightarrow> (Inl err, d) | None \<Rightarrow>
      let operationID = TrimSpace op0; r = normalizeRunRequest r0 in
      if \<not> safeID operationID \<or> validateRunRequest r \<noteq> None then (Inl (Errorf ''valid operation and run request are required''), d) else
      let fp = plainFingerprint ''queue_run'' (request_json r) in
      operate compStore (wio e) Inl (find_cop operationID)
        (\<lambda>st x. if coFingerprint x \<noteq> fp then Inl coErrConflict
           else case mget (ccCommands st) (coEntityID x) of None \<Rightarrow> Inl coErrConflict | Some c \<Rightarrow> Inr c)
        (queueRunChange e operationID r fp) d)"

definition zeroCommand :: Command where
  "zeroCommand = (newCommand [] [] [] [] 0)\<lparr>cdState := OtherCommandState []\<rparr>"

definition queueCancelChange :: "env \<Rightarrow> string \<Rightarrow> string \<Rightarrow> string \<Rightarrow> CompState \<Rightarrow> go_error + CompState \<times> (go_error + Command)" where
  "queueCancelChange e operationID runID fp st =
     (case mget (ccRunLeases st) runID of None \<Rightarrow> Inl coErrLease | Some l \<Rightarrow>
      let n = now e;
          c = (newCommand (internalOperationID ''cancel'' [operationID]) (rlComputerID l) ''cancel_run'' (rlAgentID l) n)
                \<lparr>cdCancelRunID := runID\<rparr> in
      Inr (appendCompOperation operationID ''queue_cancel'' fp (cdID c) n (put_command c st), Inr c))"

definition QueueCancel :: "env \<Rightarrow> string \<Rightarrow> string \<Rightarrow> compDir \<Rightarrow> (go_error + Command) \<times> compDir" where
  "QueueCancel e op0 run0 d =
     (case cerr e of Some err \<Rightarrow> (Inl err, d) | None \<Rightarrow>
      let operationID = TrimSpace op0; runID = TrimSpace run0 in
      if \<not> safeID operationID \<or> \<not> safeID runID then (Inl (Errorf ''valid operation and run IDs are required''), d) else
      let fp = plainFingerprint ''queue_cancel'' (Some (JObj [(''run_id'', JStr runID)])) in
      operate compStore (wio e) Inl (find_cop operationID)
        (\<lambda>st x. if coFingerprint x \<noteq> fp then Inl coErrConflict
           else Inr (case mget (ccCommands st) (coEntityID x) of Some c \<Rightarrow> c | None \<Rightarrow> zeroCommand))
        (queueCancelChange e operationID runID fp) d)"

definition deliverable :: "string \<Rightarrow> string \<Rightarrow> Command \<Rightarrow> bool" where
  "deliverable i leaseID c \<longleftrightarrow>
     cdComputerID c = i \<and> (cdState c = CommandQueued \<or> (cdState c = CommandSent \<and> cdDeliveryLeaseID c \<noteq> leaseID))"

definition next_command :: "string \<Rightarrow> string \<Rightarrow> CompState \<Rightarrow> Command option" where
  "next_command i leaseID st =
     (let cs = filter (deliverable i leaseID) (map snd (ccCommands st)) in
      if cs = [] then None else Some (hd (sort_by (\<lambda>x y. cdCreatedAt x < cdCreatedAt y) cs)))"

definition rejectCommand :: "time \<Rightarrow> string \<Rightarrow> Computer \<Rightarrow> Command \<Rightarrow> CompState \<Rightarrow> CompState" where
  "rejectCommand n i c x st =
     (let x' = x\<lparr>cdState := CommandFailed, cdError := ''computer capability changed before dispatch'', cdUpdatedAt := n,
                 cdDeliveryLeaseID := []\<rparr>;
          fp = plainFingerprint ''capability_reject'' (Some (JObj [(''Computer'', JStr i), (''Command'', JStr (cdID x)),
                 (''Capability'', JStr (cmCapability c))])) in
      appendCompOperation (internalOperationID ''capability-reject'' [cdID x, dec_int (cmRevision c)]) ''capability_reject'' fp (cdID x) n
        (put_command x' st))"

definition sendCommand :: "time \<Rightarrow> string \<Rightarrow> string \<Rightarrow> Command \<Rightarrow> CompState \<Rightarrow> CompState \<times> Command" where
  "sendCommand n i leaseID x st =
     (let x' = x\<lparr>cdState := CommandSent, cdAttempt := cdAttempt x + 1, cdUpdatedAt := n, cdDeliveryLeaseID := leaseID\<rparr>;
          fp = plainFingerprint ''poll_command'' (Some (pair_json ''Computer'' i ''Command'' (cdID x))) in
      (appendCompOperation (internalOperationID ''poll'' [cdID x, dec_int (cdAttempt x')]) ''poll_command'' fp (cdID x) n (put_command x' st),
       x'))"

definition pollChange :: "env \<Rightarrow> string \<Rightarrow> string \<Rightarrow> CompState \<Rightarrow> go_error + CompState \<times> (go_error + Command)" where
  "pollChange e i leaseID st =
     (let n = now e in
      case mget (ccComputers st) i of None \<Rightarrow> Inl coErrLease | Some c \<Rightarrow>
      if cmLeaseID c \<noteq> leaseID \<or> \<not> online_at n c then Inl coErrLease else
      (case next_command i leaseID st of None \<Rightarrow> Inl ErrNoCommand | Some x \<Rightarrow>
       if (case cdRun x of None \<Rightarrow> False | Some r \<Rightarrow> rrCapability r \<noteq> cmCapability c)
       then Inr (rejectCommand n i c x st, Inl ErrNoCommand)
       else case sendCommand n i leaseID x st of (st', x') \<Rightarrow> Inr (st', Inr x')))"

definition PollCommand :: "env \<Rightarrow> string \<Rightarrow> string \<Rightarrow> compDir \<Rightarrow> (go_error + Command) \<times> compDir" where
  "PollCommand e i leaseID d =
     (case cerr e of Some err \<Rightarrow> (Inl err, d) | None \<Rightarrow> update_file compStore (wio e) Inl (pollChange e i leaseID) d)"

definition settleCommand :: "time \<Rightarrow> CommandAck \<Rightarrow> Command \<Rightarrow> go_error + Command" where
  "settleCommand n a x =
     (let text = TrimSpace (ckError a) in
      if ckSuccess a then
        (if cdKind x = ''run_agent'' then
           (case (ckResult a, cdRun x) of
              (Some r, Some q) \<Rightarrow>
                if rsRunID r \<noteq> rrRunID q \<or> rsTaskID r \<noteq> rrTaskID q \<or> rsCompletedAt r = 0
                then Inl (Errorf ''run acknowledgement requires a matching result'')
                else Inr (x\<lparr>cdError := text, cdResult := Some r, cdState := CommandAcked, cdUpdatedAt := n\<rparr>)
            | _ \<Rightarrow> Inl (Errorf ''run acknowledgement requires a matching result''))
         else Inr (x\<lparr>cdError := text, cdState := CommandAcked, cdUpdatedAt := n\<rparr>))
      else Inr (x\<lparr>cdError := (if text = [] then ''daemon reported failure'' else text), cdState := CommandFailed, cdUpdatedAt := n\<rparr>))"

definition ackCommandChange :: "env \<Rightarrow> string \<Rightarrow> string \<Rightarrow> CommandAck \<Rightarrow> CompState \<Rightarrow> go_error + CompState \<times> (go_error + Command)" where
  "ackCommandChange e i leaseID a st =
     (let n = now e in
      case mget (ccComputers st) i of None \<Rightarrow> Inl coErrLease | Some c \<Rightarrow>
      if cmLeaseID c \<noteq> leaseID \<or> \<not> n < cmLeaseExpiresAt c then Inl coErrLease else
      (case mget (ccCommands st) (ckCommandID a) of None \<Rightarrow> Inl coErrConflict | Some x \<Rightarrow>
       if cdComputerID x \<noteq> i \<or> cdState x \<noteq> CommandSent \<or> cdDeliveryLeaseID x \<noteq> leaseID then Inl coErrConflict else
       (case settleCommand n a x of Inl err \<Rightarrow> Inl err | Inr x' \<Rightarrow>
        Inr (appendCompOperation (internalOperationID ''ack'' [cdID x, dec_int (cdAttempt x)]) ''ack_command''
          (plainFingerprint ''ack_command'' (ack_json a)) (cdID x) n (put_command x' st), Inr x'))))"

definition AckCommand :: "env \<Rightarrow> string \<Rightarrow> string \<Rightarrow> CommandAck \<Rightarrow> compDir \<Rightarrow> (go_error + Command) \<times> compDir" where
  "AckCommand e i leaseID a d =
     (case cerr e of Some err \<Rightarrow> (Inl err, d) | None \<Rightarrow> update_file compStore (wio e) Inl (ackCommandChange e i leaseID a) d)"

definition GetCompState :: "env \<Rightarrow> compDir \<Rightarrow> go_error + CompState" where
  "GetCompState e d = (case cerr e of Some err \<Rightarrow> Inl err | None \<Rightarrow> readFile compStore d)"

end
