(* ===== verification/CompProps.thy ===== *)
theory CompProps
  imports Computers
begin

text \<open>
  What the computer store guarantees. Its bindings and run leases implement an abstract fence per agent: a binding that
  is exchanged by compare and swap while no lease is held, and at most one lease at a time. Commands are handed out once per connection.
\<close>

section \<open>The invariant of the file\<close>

abbreviation lease_agents :: "RunLease gomap \<Rightarrow> string list" where
  "lease_agents ls \<equiv> map (\<lambda>p. rlAgentID (snd p)) ls"

definition comp_inv :: "CompState \<Rightarrow> bool" where
  "comp_inv st \<longleftrightarrow> wf_map (ccComputers st) \<and> wf_map (ccBindings st) \<and> wf_map (ccRunLeases st) \<and> wf_map (ccCommands st) \<and>
     distinct (lease_agents (ccRunLeases st))"

interpretation cs: durable_file compStore
  by unfold_locales (simp add: compStore_def)

lemma compStore_fields [simp]: "fsPath compStore = ''computers-v1.json''" "fsValid compStore = validateCompState"
  by (simp_all add: compStore_def)

lemma valid_lease:
  assumes "validateCompState st = None" and "(i, l) \<in> set (ccRunLeases st)"
  shows "i = rlRunID l \<and> (\<exists>b. mget (ccBindings st) (rlAgentID l) = Some b \<and> bnComputerID b = rlComputerID l)"
proof -
  have "lease_ok st (i, l) = None"
    using assms by (auto simp: validateCompState_def first_error_None split: if_splits option.splits)
  then show ?thesis by (auto simp: lease_ok_def split: if_splits option.splits)
qed

lemma valid_command:
  assumes "validateCompState st = None" and "(i, c) \<in> set (ccCommands st)"
  shows "command_ok st (i, c) = None"
  using assms by (auto simp: validateCompState_def first_error_None split: if_splits option.splits)

lemma append_fields [simp]:
  "ccComputers (appendCompOperation i a fp x n st) = ccComputers st"
  "ccBindings (appendCompOperation i a fp x n st) = ccBindings st"
  "ccRunLeases (appendCompOperation i a fp x n st) = ccRunLeases st"
  "ccCommands (appendCompOperation i a fp x n st) = ccCommands st"
  by (simp_all add: appendCompOperation_def)

lemma put_fields [simp]:
  "ccComputers (put_command c st) = ccComputers st" "ccBindings (put_command c st) = ccBindings st"
  "ccRunLeases (put_command c st) = ccRunLeases st" "ccCommands (put_command c st) = mput (cdID c) c (ccCommands st)"
  "ccOperations (put_command c st) = ccOperations st" "ccRevision (put_command c st) = ccRevision st"
  "ccSchemaVersion (put_command c st) = ccSchemaVersion st"
  by (simp_all add: put_command_def)

lemma put_computer_fields [simp]:
  "ccComputers (put_computer p l fp n c st) = mput (cmID c) c (ccComputers st)" "ccBindings (put_computer p l fp n c st) = ccBindings st"
  "ccRunLeases (put_computer p l fp n c st) = ccRunLeases st" "ccCommands (put_computer p l fp n c st) = ccCommands st"
  by (simp_all add: put_computer_def)

section \<open>The loops over the run leases\<close>

definition live :: "time \<Rightarrow> RunLease gomap \<Rightarrow> RunLease gomap" where
  "live n ls = filter (\<lambda>p. n < rlExpiresAt (snd p)) ls"

lemma rebindLeases_Inr: "rebindLeases n a ls = Inr ls' \<Longrightarrow> ls' = live n ls \<and> a \<notin> set (lease_agents ls')"
proof (induction ls arbitrary: ls')
  case (Cons p ls)
  then show ?case by (cases p; cases "rebindLeases n a ls") (auto simp: live_def split: if_splits)
qed (simp add: live_def)

lemma acquireLeases_Inr:
  "acquireLeases n run a ls = Inr ls' \<Longrightarrow> ls' = live n ls \<and> a \<notin> set (lease_agents ls') \<and> (\<forall>p\<in>set ls'. rlRunID (snd p) \<noteq> run)"
proof (induction ls arbitrary: ls')
  case (Cons p ls)
  then show ?case by (cases p; cases "acquireLeases n run a ls") (auto simp: live_def split: if_splits, blast)
qed (simp add: live_def)

lemma mput_fresh: "k \<notin> fst ` set m \<Longrightarrow> mput k v m = m @ [(k, v)]"
  by (induction m) auto

lemma live_distinct: "distinct (lease_agents ls) \<Longrightarrow> distinct (lease_agents (live n ls))"
  by (induction ls) (auto simp: live_def)

lemma live_wf [simp]: "wf_map ls \<Longrightarrow> wf_map (live n ls)"
  by (simp add: live_def)

lemma mdel_distinct: "distinct (lease_agents ls) \<Longrightarrow> distinct (lease_agents (mdel k ls))"
  by (induction ls) (auto simp: AList.delete_eq split_def)

section \<open>The abstract fence\<close>

text \<open>For each agent the computer and revision of its binding, and the run, lease id and expiry of its lease.\<close>

type_synonym agent_fence = "(string \<times> int) option \<times> (string \<times> string \<times> time) option"

fun unexpired :: "time \<Rightarrow> (string \<times> string \<times> time) option \<Rightarrow> (string \<times> string \<times> time) option" where
  "unexpired n None = None"
| "unexpired n (Some (run, lease, t)) = (if n < t then Some (run, lease, t) else None)"

text \<open>The steps at time \<open>n\<close> of a caller that knows the lease id \<open>key\<close>.\<close>

inductive fence_step :: "time \<Rightarrow> string \<Rightarrow> (string \<Rightarrow> agent_fence) \<Rightarrow> (string \<Rightarrow> agent_fence) \<Rightarrow> bool" for n key where
  expire: "fence_step n key s (\<lambda>a. (fst (s a), unexpired n (snd (s a))))"
| bind: "s a = (b, None) \<Longrightarrow> r = (case b of None \<Rightarrow> 0 | Some (_, r0) \<Rightarrow> r0) \<Longrightarrow> fence_step n key s (s(a := (Some (c, r + 1), None)))"
| acquire: "s a = (Some (c, r), None) \<Longrightarrow> n < t \<Longrightarrow> fence_step n key s (s(a := (Some (c, r), Some (run, lease, t))))"
| release: "s a = (b, Some (run, key, t)) \<Longrightarrow> fence_step n key s (s(a := (b, None)))"

definition fence_of :: "Binding gomap \<Rightarrow> RunLease gomap \<Rightarrow> string \<Rightarrow> agent_fence" where
  "fence_of bs ls a = (map_option (\<lambda>b. (bnComputerID b, bnRevision b)) (mget bs a),
     map_option (\<lambda>p. (rlRunID (snd p), rlLeaseID (snd p), rlExpiresAt (snd p))) (find (\<lambda>p. rlAgentID (snd p) = a) ls))"

definition fence :: "CompState \<Rightarrow> string \<Rightarrow> agent_fence" where
  "fence st = fence_of (ccBindings st) (ccRunLeases st)"

lemma find_agent_None: "a \<notin> set (lease_agents ls) \<Longrightarrow> find (\<lambda>p. rlAgentID (snd p) = a) ls = None"
  unfolding find_None_iff by force

lemma fence_live:
  assumes "distinct (lease_agents ls)"
  shows "fence_of bs (live n ls) = (\<lambda>a. (fst (fence_of bs ls a), unexpired n (snd (fence_of bs ls a))))"
proof
  fix a
  from assms have "map_option (\<lambda>p. (rlRunID (snd p), rlLeaseID (snd p), rlExpiresAt (snd p))) (find (\<lambda>p. rlAgentID (snd p) = a) (live n ls)) =
    unexpired n (map_option (\<lambda>p. (rlRunID (snd p), rlLeaseID (snd p), rlExpiresAt (snd p))) (find (\<lambda>p. rlAgentID (snd p) = a) ls))"
    by (induction ls) (auto simp: live_def find_agent_None)
  then show "fence_of bs (live n ls) a = (fst (fence_of bs ls a), unexpired n (snd (fence_of bs ls a)))" by (simp add: fence_of_def)
qed

lemma fence_bind:
  "a \<notin> set (lease_agents ls) \<Longrightarrow> fence_of (mput a b bs) ls = (fence_of bs ls)(a := (Some (bnComputerID b, bnRevision b), None))"
  by (auto simp: fence_of_def find_agent_None fun_eq_iff)

lemma fence_acquire:
  assumes "rlAgentID l \<notin> set (lease_agents ls)"
  shows "fence_of bs (ls @ [(k, l)]) =
    (fence_of bs ls)(rlAgentID l := (fst (fence_of bs ls (rlAgentID l)), Some (rlRunID l, rlLeaseID l, rlExpiresAt l)))"
  using assms by (auto simp: fence_of_def find_append find_agent_None fun_eq_iff split: option.splits)

lemma fence_release:
  assumes "distinct (lease_agents ls)" and "wf_map ls" and "mget ls k = Some l"
  shows "fence_of bs (mdel k ls) = (fence_of bs ls)(rlAgentID l := (fst (fence_of bs ls (rlAgentID l)), None))"
    and "snd (fence_of bs ls (rlAgentID l)) = Some (rlRunID l, rlLeaseID l, rlExpiresAt l)"
proof -
  have "find (\<lambda>p. rlAgentID (snd p) = a) (mdel k ls) = (if a = rlAgentID l then None else find (\<lambda>p. rlAgentID (snd p) = a) ls) \<and>
    find (\<lambda>p. rlAgentID (snd p) = rlAgentID l) ls = Some (k, l)" for a
    using assms
  proof (induction ls)
    case (Cons p ls)
    show ?case
    proof (cases "fst p = k")
      case True
      with Cons.prems have l: "snd p = l" and "k \<notin> fst ` set ls" by (cases p; auto simp: wf_map_def)+
      then have "mdel k ls = ls" by (simp add: AList.delete_eq filter_id_conv split_def) force
      with True l Cons.prems(1) show ?thesis by (cases p) (auto simp: find_agent_None)
    next
      case False
      with Cons.prems have m: "mget ls k = Some l" "distinct (lease_agents ls)" "wf_map ls" by (cases p; auto simp: wf_map_def)+
      from m(1) have "l \<in> snd ` set ls" by (force dest: map_of_SomeD)
      with Cons.prems(1) have "rlAgentID (snd p) \<noteq> rlAgentID l" by auto
      with Cons.IH [OF m(2,3,1)] False show ?thesis by (cases p) auto
    qed
  qed simp
  then show "fence_of bs (mdel k ls) = (fence_of bs ls)(rlAgentID l := (fst (fence_of bs ls (rlAgentID l)), None))"
    and "snd (fence_of bs ls (rlAgentID l)) = Some (rlRunID l, rlLeaseID l, rlExpiresAt l)"
    by (auto simp: fence_of_def fun_eq_iff)
qed

section \<open>Every operation implements the fence\<close>

text \<open>What one locked section does at time \<open>n\<close> for a caller with lease id \<open>key\<close>: it keeps the invariant and takes steps of the fence.\<close>

definition comp_effect :: "time \<Rightarrow> string \<Rightarrow> CompState \<Rightarrow> CompState \<Rightarrow> bool" where
  "comp_effect n key st st' \<longleftrightarrow> (fence_step n key)\<^sup>*\<^sup>* (fence st) (fence st')"

lemma effect_refl [simp]: "comp_effect n key st st"
  by (simp add: comp_effect_def)

lemma effect_same:
  "ccBindings st' = ccBindings st \<Longrightarrow> ccRunLeases st' = ccRunLeases st \<Longrightarrow> comp_effect n key st st'"
  by (simp add: comp_effect_def fence_def)

lemma effect_step: "fence_step n key (fence st) (fence st') \<Longrightarrow> comp_effect n key st st'"
  unfolding comp_effect_def by blast

lemma live_step: "distinct (lease_agents (ccRunLeases st)) \<Longrightarrow> fence_step n key (fence st) (fence_of (ccBindings st) (live n (ccRunLeases st)))"
  unfolding fence_live fence_def by (rule fence_step.expire)

lemma fence_unleased: "a \<notin> set (lease_agents ls) \<Longrightarrow> fence_of bs ls a = (map_option (\<lambda>b. (bnComputerID b, bnRevision b)) (mget bs a), None)"
  by (simp add: fence_of_def find_agent_None)

lemma rebind_effect:
  assumes "rebindChange e r fp st = Inr (st', res)" and "comp_inv st"
  shows "comp_inv st' \<and> comp_effect (now e) key st st'"
proof -
  obtain ls where ls: "rebindLeases (now e) (rbAgentID r) (ccRunLeases st) = Inr ls"
    using assms(1) by (auto simp: rebindChange_def Let_def split: if_splits sum.splits)
  define b where "b = \<lparr>bnAgentID = rbAgentID r, bnComputerID = rbTargetComputerID r, bnRevision = rbExpectedRevision r + 1,
                bnBoundBy = rbActorID r, bnBoundAt = now e\<rparr>"
  have st': "ccRunLeases st' = ls" "ccBindings st' = mput (rbAgentID r) b (ccBindings st)" "ccComputers st' = ccComputers st"
    "wf_map (ccCommands st) \<Longrightarrow> wf_map (ccCommands st')"
    and old: "rbExpectedRevision r = (case mget (ccBindings st) (rbAgentID r) of None \<Rightarrow> 0 | Some b \<Rightarrow> bnRevision b)"
    using assms(1) ls by (auto simp: rebindChange_def Let_def b_def [symmetric] split: if_splits option.splits)
  note l = rebindLeases_Inr [OF ls]
  have "fence_step (now e) key (fence_of (ccBindings st) ls) (fence st')"
    unfolding fence_def st' fence_bind [OF conjunct2 [OF l]]
    using fence_step.bind [of "fence_of (ccBindings st) ls" "rbAgentID r" "map_option (\<lambda>b. (bnComputerID b, bnRevision b)) (mget (ccBindings st) (rbAgentID r))"
      "rbExpectedRevision r" "now e" key "rbTargetComputerID r"] l old
    by (auto simp: fence_unleased b_def split: option.splits)
  with live_step [of st "now e" key] assms(2) l have "comp_effect (now e) key st st'"
    by (auto simp: comp_effect_def comp_inv_def intro: converse_rtranclp_into_rtranclp)
  with assms(2) l st' show ?thesis by (auto simp: comp_inv_def live_distinct)
qed

lemma acquire_effect:
  assumes "acquireChange e r fp st = Inr (st', res)" and "comp_inv st" and "validateCompState st = None" and "0 < liTTLSeconds r"
  shows "comp_inv st' \<and> comp_effect (now e) key st st'"
proof -
  obtain ls where ls: "acquireLeases (now e) (liRunID r) (liAgentID r) (ccRunLeases st) = Inr ls"
    using assms(1) by (auto simp: acquireChange_def Let_def split: if_splits sum.splits)
  define l where "l = \<lparr>rlRunID = liRunID r, rlAgentID = liAgentID r, rlComputerID = liComputerID r, rlLeaseID = liLeaseID r,
                rlExpiresAt = now e + liTTLSeconds r * Second\<rparr>"
  have st': "ccRunLeases st' = mput (rlRunID l) l ls" "ccBindings st' = ccBindings st" "ccComputers st' = ccComputers st"
    "ccCommands st' = ccCommands st" "res = Inr l"
    using assms(1) ls by (auto simp: acquireChange_def Let_def l_def split: if_splits option.splits)
  obtain b where b: "mget (ccBindings st) (rlAgentID l) = Some b"
    using assms(1) by (auto simp: acquireChange_def l_def split: if_splits option.splits)
  note a = acquireLeases_Inr [OF ls]
  have "rlRunID l \<notin> fst ` set ls"
  proof
    assume "rlRunID l \<in> fst ` set ls"
    then obtain x where x: "(rlRunID l, x) \<in> set ls" by auto
    with a have "(rlRunID l, x) \<in> set (ccRunLeases st)" by (simp add: live_def)
    with valid_lease [OF assms(3)] have "rlRunID x = liRunID r" by (auto simp: l_def)
    with a x show False by force
  qed
  then have new: "ccRunLeases st' = ls @ [(rlRunID l, l)]" by (simp add: st' mput_fresh)
  have out: "rlAgentID l \<notin> set (lease_agents ls)" unfolding l_def RunLease.select_convs using a by blast
  have "fence_step (now e) key (fence_of (ccBindings st) ls) (fence st')"
    unfolding fence_def new st'(2) fence_acquire [OF out]
    using fence_step.acquire [of "fence_of (ccBindings st) ls" "rlAgentID l" "bnComputerID b" "bnRevision b" "now e" "rlExpiresAt l" key "rlRunID l" "rlLeaseID l"]
      fence_unleased [OF out, of "ccBindings st"] b assms(4) by (simp add: l_def)
  with live_step [of st "now e" key] assms(2) a have "comp_effect (now e) key st st'"
    by (auto simp: comp_effect_def comp_inv_def intro: converse_rtranclp_into_rtranclp)
  moreover have "wf_map (ccRunLeases st')" unfolding st'(1) using a assms(2) by (simp add: comp_inv_def)
  moreover have "distinct (lease_agents (ccRunLeases st'))"
    using new out a live_distinct [of "ccRunLeases st" "now e"] assms(2) by (simp add: comp_inv_def)
  ultimately show ?thesis using assms(2) st' by (simp add: comp_inv_def)
qed

lemma release_effect:
  assumes "releaseChange e run op key fp st = Inr (st', res)" and "comp_inv st"
  shows "comp_inv st' \<and> comp_effect n key st st'"
proof -
  obtain l where l: "mget (ccRunLeases st) run = Some l" "rlLeaseID l = key"
    using assms(1) by (auto simp: releaseChange_def split: if_splits option.splits)
  with assms(1) have st': "ccRunLeases st' = mdel run (ccRunLeases st)" "ccBindings st' = ccBindings st" "ccComputers st' = ccComputers st"
    "ccCommands st' = ccCommands st" by (auto simp: releaseChange_def)
  have d: "distinct (lease_agents (ccRunLeases st))" "wf_map (ccRunLeases st)" using assms(2) by (simp_all add: comp_inv_def)
  note f = fence_release [OF d l(1), of "ccBindings st"]
  have "fence_step n key (fence st) (fence st')"
    unfolding fence_def st' f(1)
    by (rule fence_step.release [of _ _ _ "rlRunID l" _ "rlExpiresAt l"]) (use f(2) l(2) in \<open>simp add: prod_eq_iff\<close>)
  then show ?thesis using assms(2) st' d by (auto simp: comp_inv_def mdel_distinct intro: effect_step)
qed

datatype comp_call =
    KOpen
  | KRegister RegisterInput
  | KConnect Hello duration
  | KHeartbeat string string duration
  | KDisconnect string string
  | KRebind RebindInput
  | KAcquire RunLeaseInput
  | KRelease string string string
  | KQueue string RunRequest
  | KCancel string string
  | KPoll string string
  | KAck string string CommandAck

fun do_comp :: "comp_call \<Rightarrow> env \<Rightarrow> compDir \<Rightarrow> compDir" where
  "do_comp KOpen e d = snd (NewComputers e d)"
| "do_comp (KRegister r) e d = snd (RegisterComputer e r d)"
| "do_comp (KConnect h ttl) e d = snd (ConnectComputer e h ttl d)"
| "do_comp (KHeartbeat i l ttl) e d = snd (HeartbeatComputer e i l ttl d)"
| "do_comp (KDisconnect i l) e d = snd (Disconnect e i l d)"
| "do_comp (KRebind r) e d = snd (Rebind e r d)"
| "do_comp (KAcquire r) e d = snd (AcquireRun e r d)"
| "do_comp (KRelease run op l) e d = snd (ReleaseRun e run op l d)"
| "do_comp (KQueue op r) e d = snd (QueueRun e op r d)"
| "do_comp (KCancel op run) e d = snd (QueueCancel e op run d)"
| "do_comp (KPoll i l) e d = snd (PollCommand e i l d)"
| "do_comp (KAck i l a) e d = snd (AckCommand e i l a d)"

fun run_comp :: "(comp_call \<times> env) list \<Rightarrow> compDir \<Rightarrow> compDir" where
  "run_comp [] d = d"
| "run_comp ((c, e) # cs) d = run_comp cs (do_comp c e d)"

text \<open>A call either leaves the file alone or commits one of the changes.\<close>

definition comp_change :: "comp_call \<Rightarrow> env \<Rightarrow> CompState \<Rightarrow> CompState \<Rightarrow> bool" where
  "comp_change c e st st' \<longleftrightarrow> (case c of
     KOpen \<Rightarrow> False
   | KRegister r \<Rightarrow> \<exists>fp res. registerChange e (normalizeRegister r) fp st = Inr (st', res)
   | KConnect h ttl \<Rightarrow> \<exists>res. connectChange e (normalizeHello h) ttl (capabilityDigest (normalizeHello h)) st = Inr (st', res)
   | KHeartbeat i l ttl \<Rightarrow> \<exists>res. heartbeatComputerChange e i l ttl st = Inr (st', res)
   | KDisconnect i l \<Rightarrow> \<exists>res. disconnectChange e i l st = Inr (st', res)
   | KRebind r \<Rightarrow> \<exists>fp res. rebindChange e (normalizeRebind r) fp st = Inr (st', res)
   | KAcquire r \<Rightarrow> \<exists>fp res. acquireChange e r fp st = Inr (st', res) \<and> 0 < liTTLSeconds r
   | KRelease run op l \<Rightarrow> \<exists>fp res. releaseChange e run op l fp st = Inr (st', res)
   | KQueue op r \<Rightarrow> \<exists>fp res. queueRunChange e (TrimSpace op) (normalizeRunRequest r) fp st = Inr (st', res)
   | KCancel op run \<Rightarrow> \<exists>fp res. queueCancelChange e (TrimSpace op) (TrimSpace run) fp st = Inr (st', res)
   | KPoll i l \<Rightarrow> \<exists>res. pollChange e i l st = Inr (st', res)
   | KAck i l a \<Rightarrow> \<exists>res. ackCommandChange e i l a st = Inr (st', res))"

lemmas comp_calls = RegisterComputer_def ConnectComputer_def HeartbeatComputer_def Disconnect_def Rebind_def AcquireRun_def ReleaseRun_def
  QueueRun_def QueueCancel_def PollCommand_def AckCommand_def NewComputers_def

lemma operate_snd:
  assumes "\<And>st st' res. change st = Inr (st', res) \<Longrightarrow> validateCompState st = None \<Longrightarrow> I st \<Longrightarrow> I st' \<and> le st st'" and "\<And>st. le st st"
  shows "cs.keeps I le d (snd (operate compStore i fail lookup replay change d))"
    and "cs.keeps I le d (snd (update_file compStore i fail change d))"
  using cs.operate_keeps [of i fail lookup replay change d _ _ le I, OF surjective_pairing] cs.update_keeps [of i fail change d _ _ le I, OF surjective_pairing]
    assms by auto

lemma do_comp_keeps:
  assumes "\<And>st st'. comp_change c e st st' \<Longrightarrow> validateCompState st = None \<Longrightarrow> I st \<Longrightarrow> I st' \<and> le st st'" and refl: "\<And>st. le st st"
    and "I (emptyCompState (now e))"
  shows "cs.keeps I le d (do_comp c e d)"
proof -
  have "cs.keeps I le d (snd (operate compStore i fail lookup replay change d))"
    and "cs.keeps I le d (snd (update_file compStore i fail change d))"
    if "\<And>st st' res. change st = Inr (st', res) \<Longrightarrow> comp_change c e st st'" for i and fail :: "go_error \<Rightarrow> 'r" and lookup replay change
    by (rule operate_snd; use assms(1) [OF that] refl in blast)+
  note ops = this
  show ?thesis
  proof (cases c)
    case KOpen
    show ?thesis unfolding KOpen do_comp.simps NewComputers_def by (rule cs.open_keeps [OF surjective_pairing]) (use assms(3) refl in auto)
  qed (auto simp: comp_calls Let_def comp_change_def intro!: ops cs.keeps_refl refl split: option.splits, blast+)
qed

lemma poll_fields:
  "pollChange e i l st = Inr (st', res) \<Longrightarrow> ccComputers st' = ccComputers st \<and> ccBindings st' = ccBindings st \<and> ccRunLeases st' = ccRunLeases st \<and>
    (\<exists>k x. ccCommands st' = mput k x (ccCommands st))"
  by (auto simp: pollChange_def Let_def rejectCommand_def sendCommand_def split: option.splits if_splits, blast+)

lemma ack_fields:
  "ackCommandChange e i l a st = Inr (st', res) \<Longrightarrow> ccComputers st' = ccComputers st \<and> ccBindings st' = ccBindings st \<and> ccRunLeases st' = ccRunLeases st \<and>
    (\<exists>k x. ccCommands st' = mput k x (ccCommands st))"
  by (auto simp: ackCommandChange_def Let_def split: option.splits if_splits sum.splits, blast)

lemma queue_fields:
  "queueRunChange e op r fp st = Inr (st', res) \<Longrightarrow> ccComputers st' = ccComputers st \<and> ccBindings st' = ccBindings st \<and> ccRunLeases st' = ccRunLeases st \<and>
    (\<exists>x. ccCommands st' = mput (internalOperationID ''run'' [op]) x (ccCommands st))"
  "queueCancelChange e op run fp st = Inr (st', res2) \<Longrightarrow> ccComputers st' = ccComputers st \<and> ccBindings st' = ccBindings st \<and> ccRunLeases st' = ccRunLeases st \<and>
    (\<exists>x. ccCommands st' = mput (internalOperationID ''cancel'' [op]) x (ccCommands st))"
  by (auto simp: queueRunChange_def queueCancelChange_def newCommand_def Let_def split: option.splits if_splits)

lemma computer_fields:
  assumes "comp_change c e st st'" and "\<And>r. c \<noteq> KRebind r" and "\<And>r. c \<noteq> KAcquire r" and "\<And>run op l. c \<noteq> KRelease run op l"
  shows "ccBindings st' = ccBindings st \<and> ccRunLeases st' = ccRunLeases st \<and> (wf_map (ccComputers st) \<longrightarrow> wf_map (ccComputers st')) \<and>
    (wf_map (ccCommands st) \<longrightarrow> wf_map (ccCommands st'))"
proof (cases c)
  case (KPoll i l)
  with assms(1) poll_fields show ?thesis by (fastforce simp: comp_change_def)
next
  case (KAck i l a)
  with assms(1) ack_fields show ?thesis by (fastforce simp: comp_change_def)
next
  case (KQueue op r)
  with assms(1) queue_fields(1) show ?thesis by (fastforce simp: comp_change_def)
next
  case (KCancel op run)
  with assms(1) queue_fields(2) show ?thesis by (fastforce simp: comp_change_def)
qed (use assms in \<open>auto simp: comp_change_def registerChange_def connectChange_def heartbeatComputerChange_def disconnectChange_def Let_def
      split: option.splits if_splits\<close>)

definition call_key :: "comp_call \<Rightarrow> string" where
  "call_key c = (case c of KRelease run op l \<Rightarrow> l | _ \<Rightarrow> [])"

lemma change_effect:
  assumes "comp_change c e st st'" and "validateCompState st = None" and "comp_inv st"
  shows "comp_inv st' \<and> comp_effect (now e) (call_key c) st st'"
proof (cases "(\<exists>r. c = KRebind r) \<or> (\<exists>r. c = KAcquire r) \<or> (\<exists>run op l. c = KRelease run op l)")
  case True
  with assms show ?thesis by (auto simp: comp_change_def call_key_def dest: rebind_effect acquire_effect release_effect)
next
  case False
  with computer_fields [OF assms(1)] assms(3) show ?thesis by (auto simp: comp_inv_def intro: effect_same)
qed

lemma empty_inv: "comp_inv (emptyCompState n)"
  by (simp add: comp_inv_def emptyCompState_def wf_map_def)

lemma do_comp_effect: "cs.keeps comp_inv (comp_effect (now e) (call_key c)) d (do_comp c e d)"
  using change_effect empty_inv by (intro do_comp_keeps) auto

definition comp_file :: "compDir \<Rightarrow> bool" where
  "comp_file d \<longleftrightarrow> (\<forall>st. readJSON d (fsPath compStore) = Inr st \<longrightarrow> comp_inv st)"

lemma do_comp_file: "comp_file d \<Longrightarrow> comp_file (do_comp c e d)"
  using do_comp_effect [of e c d] by (simp add: cs.keeps_def comp_file_def)

lemma run_comp_file: "comp_file d \<Longrightarrow> comp_file (run_comp cs d)"
  by (induction cs d rule: run_comp.induct) (simp_all add: do_comp_file)

lemma comp_file_start: "comp_file []"
  by (simp add: comp_file_def readJSON_def)

section \<open>Properties\<close>

text \<open>C26. The store implements the fence: in a file that satisfies the invariant, as the empty directory does, one call, successful or not,
  with any write failure, keeps the invariant and takes each agent's binding and lease through steps of the fence, at the time
  the call read; it releases a lease only for a caller that gives its lease id.\<close>

theorem store_refines_fence:
  assumes "comp_file d" and "readFile compStore d = Inr st"
  shows "comp_file (do_comp c e d) \<and>
    (\<exists>st'. readFile compStore (do_comp c e d) = Inr st' \<and> (fence_step (now e) (call_key c))\<^sup>*\<^sup>* (fence st) (fence st'))"
  using do_comp_effect [of e c d] do_comp_file [OF assms(1), of c e] assms unfolding cs.keeps_def comp_file_def comp_effect_def by blast

text \<open>C27. After any calls an agent holds at most one run lease, and a lease is for the computer its agent is bound to.\<close>

theorem one_run_per_agent:
  assumes "comp_file d" and "readFile compStore (run_comp cs d) = Inr st" and "mget (ccRunLeases st) i = Some l"
  shows "(\<exists>b. mget (ccBindings st) (rlAgentID l) = Some b \<and> bnComputerID b = rlComputerID l) \<and>
    (\<forall>j l'. mget (ccRunLeases st) j = Some l' \<and> rlAgentID l' = rlAgentID l \<longrightarrow> j = i)"
proof -
  have st: "validateCompState st = None" "comp_inv st"
    using assms(2) run_comp_file [OF assms(1), of cs] by (auto simp: readFile_Inr comp_file_def)
  have in1: "(i, l) \<in> set (ccRunLeases st)" using assms(3) by (rule map_of_SomeD)
  have "j = i" if "mget (ccRunLeases st) j = Some l'" "rlAgentID l' = rlAgentID l" for j l'
  proof -
    from that(1) have "(j, l') \<in> set (ccRunLeases st)" by (rule map_of_SomeD)
    moreover have "inj_on (\<lambda>p. rlAgentID (snd p)) (set (ccRunLeases st))" using st(2) by (simp add: comp_inv_def distinct_map)
    ultimately show ?thesis using in1 that(2) inj_onD [of "\<lambda>p. rlAgentID (snd p)" _ "(j, l')" "(i, l)"] by simp
  qed
  then show ?thesis using valid_lease [OF st(1) in1] by blast
qed

section \<open>Handing out commands\<close>

lemma next_command_Some:
  assumes "next_command i l st = Some x"
  shows "x \<in> snd ` set (ccCommands st)" and "deliverable i l x"
proof -
  have "filter (deliverable i l) (map snd (ccCommands st)) \<noteq> []"
    and x: "x = hd (sort_by (\<lambda>x y. cdCreatedAt x < cdCreatedAt y) (filter (deliverable i l) (map snd (ccCommands st))))"
    using assms by (auto simp: next_command_def Let_def split: if_splits)
  then have "x \<in> set (filter (deliverable i l) (map snd (ccCommands st)))"
    by (metis hd_in_set set_sort_by sort_by_empty)
  then show "x \<in> snd ` set (ccCommands st)" and "deliverable i l x" by auto
qed

lemma command_key:
  assumes "validateCompState st = None" and "wf_map (ccCommands st)" and "x \<in> snd ` set (ccCommands st)"
  shows "mget (ccCommands st) (cdID x) = Some x"
proof -
  obtain k where k: "(k, x) \<in> set (ccCommands st)" using assms(3) by auto
  with valid_command [OF assms(1) this] have "k = cdID x" by (auto simp: command_ok_def split: if_splits)
  with k assms(2) show ?thesis by (simp add: mget_set)
qed

definition sent_copy :: "time \<Rightarrow> string \<Rightarrow> Command \<Rightarrow> Command" where
  "sent_copy n l x = x\<lparr>cdState := CommandSent, cdAttempt := cdAttempt x + 1, cdUpdatedAt := n, cdDeliveryLeaseID := l\<rparr>"

lemma poll_success:
  assumes "PollCommand e i l d = (Inr y, d')"
  obtains st st' c x where "readFile compStore d = Inr st" and "mget (ccComputers st) i = Some c" and "cmLeaseID c = l" and "online_at (now e) c"
    and "next_command i l st = Some x" and "case cdRun x of None \<Rightarrow> True | Some r \<Rightarrow> rrCapability r = cmCapability c"
    and "y = sent_copy (now e) l x" and "readFile compStore d' = Inr st'" and "ccCommands st' = mput (cdID x) y (ccCommands st)"
proof -
  from assms have "update_file compStore (wio e) Inl (pollChange e i l) d = (Inr y, d')" by (simp add: PollCommand_def split: option.splits)
  then show thesis
  proof (cases rule: cs.update_cases)
    case (committed st st' result)
    then have result: "pollChange e i l st = Inr (st', Inr y)" by simp
    then obtain c x where cx: "mget (ccComputers st) i = Some c" "cmLeaseID c = l" "online_at (now e) c" "next_command i l st = Some x"
      "case cdRun x of None \<Rightarrow> True | Some r \<Rightarrow> rrCapability r = cmCapability c" "sendCommand (now e) i l x st = (st', y)"
      by (auto simp: pollChange_def Let_def split: option.splits if_splits prod.splits)
    from committed have "readFile compStore d' = Inr st'" by (simp add: readFile_Inr readJSON_update)
    with cx committed(1) that show thesis by (auto simp: sendCommand_def Let_def sent_copy_def)
  qed simp
qed

text \<open>A command that needs no more attention on one connection: it has ended, or was sent under that connection's lease.\<close>

definition handed :: "string \<Rightarrow> string \<Rightarrow> string \<Rightarrow> CompState \<Rightarrow> bool" where
  "handed i l k st \<longleftrightarrow> (\<exists>x. mget (ccCommands st) k = Some x \<and> cdID x = k \<and> cdComputerID x = i \<and>
     (cdState x = CommandAcked \<or> cdState x = CommandFailed \<or> (cdState x = CommandSent \<and> cdDeliveryLeaseID x = l)))"

text \<open>Calls that are no poll under another lease, and whose generated command id is a new one.\<close>

definition quiet :: "string \<Rightarrow> string \<Rightarrow> string \<Rightarrow> comp_call \<Rightarrow> bool" where
  "quiet i l k c \<longleftrightarrow> (case c of
     KPoll j l' \<Rightarrow> j = i \<longrightarrow> l' = l
   | KQueue op r \<Rightarrow> internalOperationID ''run'' [TrimSpace op] \<noteq> k
   | KCancel op run \<Rightarrow> internalOperationID ''cancel'' [TrimSpace op] \<noteq> k
   | KRebind r \<Rightarrow> internalOperationID ''cleanup'' [TrimSpace (rbOperationID r)] \<noteq> k
   | _ \<Rightarrow> True)"

lemma handed_not_deliverable:
  assumes "handed i l k st" and "validateCompState st = None" and "comp_inv st" and "next_command j l' st = Some x" and "j = i \<Longrightarrow> l' = l"
  shows "cdID x \<noteq> k"
proof
  assume "cdID x = k"
  with command_key [OF assms(2) _ next_command_Some(1) [OF assms(4)]] assms(3) have "mget (ccCommands st) k = Some x" by (simp add: comp_inv_def)
  with assms(1) next_command_Some(2) [OF assms(4)] assms(5) show False by (auto simp: handed_def deliverable_def)
qed

lemma handed_put: "handed i l k st \<Longrightarrow> ccCommands st' = mput k' x (ccCommands st) \<Longrightarrow> k' \<noteq> k \<Longrightarrow> handed i l k st'"
  by (simp add: handed_def)

lemma handed_poll:
  assumes "pollChange e j l' st = Inr (st', res)" and "validateCompState st = None" and "comp_inv st" and "handed i l k st" and "j = i \<Longrightarrow> l' = l"
  shows "handed i l k st'"
proof -
  from assms(1) obtain x y where x: "next_command j l' st = Some x" and "ccCommands st' = mput (cdID x) y (ccCommands st)"
    by (auto simp: pollChange_def Let_def rejectCommand_def sendCommand_def split: option.splits if_splits)
  with handed_put [OF assms(4)] handed_not_deliverable [OF assms(4,2,3) x assms(5)] show ?thesis by blast
qed

lemma settle_fields:
  "settleCommand n a x = Inr x' \<Longrightarrow> cdID x' = cdID x \<and> cdComputerID x' = cdComputerID x \<and> (cdState x' = CommandAcked \<or> cdState x' = CommandFailed)"
  by (auto simp: settleCommand_def Let_def split: if_splits option.splits)

lemma handed_ack:
  assumes "ackCommandChange e j l' a st = Inr (st', res)" and "validateCompState st = None" and "handed i l k st"
  shows "handed i l k st'"
proof -
  from assms(1) obtain x x' where x: "mget (ccCommands st) (ckCommandID a) = Some x" "settleCommand (now e) a x = Inr x'"
      "ccCommands st' = mput (cdID x') x' (ccCommands st)"
    by (auto simp: ackCommandChange_def Let_def split: option.splits if_splits sum.splits, metis)
  from valid_command [OF assms(2) map_of_SomeD [OF x(1)]] have key: "ckCommandID a = cdID x" by (auto simp: command_ok_def split: if_splits)
  show ?thesis
  proof (cases "cdID x = k")
    case True
    with assms(3) x key settle_fields [OF x(2)] show ?thesis by (auto simp: handed_def)
  next
    case False
    with settle_fields [OF x(2)] x(3) handed_put [OF assms(3)] show ?thesis by metis
  qed
qed

lemma rebind_commands:
  "rebindChange e r fp st = Inr (st', res) \<Longrightarrow>
    ccCommands st' = ccCommands st \<or> (\<exists>x. ccCommands st' = mput (internalOperationID ''cleanup'' [rbOperationID r]) x (ccCommands st))"
  by (auto simp: rebindChange_def Let_def newCommand_def split: option.splits if_splits sum.splits)

lemma handed_stays:
  assumes "comp_change c e st st'" and "validateCompState st = None" and "comp_inv st" and "quiet i l k c" and "handed i l k st"
  shows "handed i l k st'"
proof (cases c)
  case (KPoll j l')
  with assms handed_poll show ?thesis by (auto simp: comp_change_def quiet_def)
next
  case (KAck j l' a)
  with assms handed_ack show ?thesis by (auto simp: comp_change_def)
next
  case (KQueue op r)
  with assms(1,4) handed_put [OF assms(5)] queue_fields(1) show ?thesis by (fastforce simp: comp_change_def quiet_def)
next
  case (KCancel op run)
  with assms(1,4) handed_put [OF assms(5)] queue_fields(2) show ?thesis by (fastforce simp: comp_change_def quiet_def)
next
  case (KRebind r)
  with assms(1) obtain fp res where "rebindChange e (normalizeRebind r) fp st = Inr (st', res)" by (auto simp: comp_change_def)
  from rebind_commands [OF this] assms(4,5) handed_put [OF assms(5)] KRebind show ?thesis
    by (auto simp: quiet_def normalizeRebind_def handed_def)
qed (use assms in \<open>auto simp: comp_change_def handed_def registerChange_def connectChange_def heartbeatComputerChange_def disconnectChange_def
      acquireChange_def releaseChange_def Let_def split: option.splits if_splits sum.splits\<close>)

lemma run_comp_handed:
  assumes "comp_file d" and "readFile compStore d = Inr st" and "handed i l k st" and "\<forall>(c, e)\<in>set cs. quiet i l k c"
  shows "\<exists>st'. readFile compStore (run_comp cs d) = Inr st' \<and> handed i l k st'"
  using assms
proof (induction cs d arbitrary: st rule: run_comp.induct)
  case (2 c e cs d)
  have "cs.keeps comp_inv (\<lambda>st st'. handed i l k st \<longrightarrow> handed i l k st') d (do_comp c e d)"
  proof (rule do_comp_keeps)
    show "comp_inv st' \<and> (handed i l k st \<longrightarrow> handed i l k st')"
      if "comp_change c e st st'" "validateCompState st = None" "comp_inv st" for st st'
      using change_effect [OF that] handed_stays [OF that] 2(5) by auto
  qed (simp_all add: empty_inv)
  then obtain st' where "readFile compStore (do_comp c e d) = Inr st'" "handed i l k st'"
    using 2(2-4) unfolding cs.keeps_def comp_file_def by blast
  with 2 do_comp_file [OF 2(2)] show ?case by auto
qed auto

text \<open>C28. A command that a connection has been given is not given to it again, whatever calls come between, as long as no other
  lease of the same computer polls and no generated command id repeats.\<close>

theorem no_redelivery:
  assumes "comp_file d0" and "PollCommand e i l d0 = (Inr x, d)" and "\<forall>(c, e)\<in>set cs. quiet i l (cdID x) c"
  shows "\<nexists>y. fst (PollCommand e' i l (run_comp cs d)) = Inr y \<and> cdID y = cdID x"
proof
  assume "\<exists>y. fst (PollCommand e' i l (run_comp cs d)) = Inr y \<and> cdID y = cdID x"
  then obtain y d' where y: "PollCommand e' i l (run_comp cs d) = (Inr y, d')" "cdID y = cdID x" by (metis prod.collapse)
  have fd: "comp_file d" using do_comp_file [OF assms(1), of "KPoll i l" e] assms(2) by simp
  from assms(2) show False
  proof (cases rule: poll_success)
    case (1 st st' c z)
    then have "mget (ccCommands st') (cdID z) = Some x" by simp
    with 1 next_command_Some(2) [OF 1(5)] have "handed i l (cdID x) st'"
      by (auto simp: handed_def sent_copy_def deliverable_def)
    with run_comp_handed [OF fd 1(8) _ assms(3)] obtain st2 where st2: "readFile compStore (run_comp cs d) = Inr st2" "handed i l (cdID x) st2" by blast
    have inv: "comp_inv st2" "validateCompState st2 = None"
      using run_comp_file [OF fd, of cs] st2(1) by (auto simp: readFile_Inr comp_file_def)
    from y(1) show False
    proof (cases rule: poll_success)
      case p: (1 stp stp' cp xp)
      with handed_not_deliverable [OF st2(2) inv(2,1), of i l xp] st2(1) y(2) show ?thesis by (auto simp: sent_copy_def)
    qed
  qed
qed

text \<open>Every command that a poll hands out is complete: it is for that computer, its run request or run to cancel is valid, and it is
  recorded as sent under the caller's lease.\<close>

theorem polled_well_formed:
  assumes "PollCommand e i l d = (Inr x, d')"
  shows "safeID (cdID x) \<and> cdComputerID x = i \<and> safeID (cdAgentID x) \<and> cdState x = CommandSent \<and> cdDeliveryLeaseID x = l \<and> 1 \<le> cdAttempt x \<and>
    (cdKind x = ''cleanup_agent'' \<and> cdRun x = None \<or>
     cdKind x = ''run_agent'' \<and> (\<exists>r. cdRun x = Some r \<and> validateRunRequest r = None \<and> rrAgentID r = cdAgentID x) \<or>
     cdKind x = ''cancel_run'' \<and> safeID (cdCancelRunID x) \<and> cdRun x = None)"
  using assms
proof (cases rule: poll_success)
  case (1 st st' c y)
  have "y \<in> snd ` set (ccCommands st)" by (rule next_command_Some(1) [OF 1(5)])
  then obtain k where "(k, y) \<in> set (ccCommands st)" by auto
  from valid_command [OF _ this] 1(1) have "command_ok st (k, y) = None" by (simp add: readFile_Inr)
  then have "safeID (cdID y)" "safeID (cdAgentID y)" "0 \<le> cdAttempt y" "kind_ok y = None"
    by (auto simp: command_ok_def split: if_splits option.splits)
  moreover have "cdComputerID y = i" using next_command_Some(2) [OF 1(5)] by (simp add: deliverable_def)
  ultimately show ?thesis unfolding 1(7) by (auto simp: sent_copy_def kind_ok_def split: if_splits option.splits)
qed

interpretation cl: op_ledger coID coFingerprint coRevision cop_ok
  "\<lambda>p i f r t. \<lparr>coID = i, coAction = fst p, coFingerprint = f, coEntityID = snd p, coRevision = r, coCreatedAt = t\<rparr>" "\<lambda>p. fst p \<noteq> []"
  by unfold_locales (simp_all add: cop_ok_def)

lemma append_valid:
  assumes "validateCompState st = None" and "find_cop op st = None" and "safeID op" and "a \<noteq> []" and "safeDigest fp" and "n \<noteq> 0"
    and "first_error computer_ok (ccComputers st1) = None \<and> first_error (binding_ok st1) (ccBindings st1) = None \<and>
      first_error (lease_ok st1) (ccRunLeases st1) = None \<and> first_error (command_ok st1) (ccCommands st1) = None"
    and "ccOperations st1 = ccOperations st" and "ccRevision st1 = ccRevision st" and "ccSchemaVersion st1 = ccSchemaVersion st"
  shows "validateCompState (appendCompOperation op a fp x n st1) = None"
proof -
  have v: "ccSchemaVersion st = ccSchema" "0 \<le> ccRevision st" "ledger_ok cop_ok coID coRevision (ccOperations st)"
    "int (length (ccOperations st)) = ccRevision st"
    using assms(1) by (auto simp: validateCompState_def split: if_splits option.splits)
  have parts: "first_error computer_ok (ccComputers st1) = None" "first_error (binding_ok st1) (ccBindings st1) = None"
    "first_error (lease_ok st1) (ccRunLeases st1) = None" "first_error (command_ok st1) (ccCommands st1) = None"
    using assms(7) by simp_all
  have same: "binding_ok (appendCompOperation op a fp x n st1) = binding_ok st1" "lease_ok (appendCompOperation op a fp x n st1) = lease_ok st1"
    "command_ok (appendCompOperation op a fp x n st1) = command_ok st1"
    by (simp_all add: fun_eq_iff binding_ok_def lease_ok_def command_ok_def computerOf_def)
  have "ledger_ok cop_ok coID coRevision (ccOperations (appendCompOperation op a fp x n st1))"
    using cl.commit_ok [OF v(3), of op "(a, x)" fp n] assms(2-6,8,9) v(4) by (simp add: appendCompOperation_def find_cop_def)
  with v parts assms(8-10) show ?thesis
    by (simp add: validateCompState_def same) (simp add: appendCompOperation_def)
qed

lemma send_valid:
  assumes "validateCompState st = None" and "wf_map (ccCommands st)" and "next_command i l st = Some x" and "safeID l" and "n \<noteq> 0"
    and "find_cop (internalOperationID ''poll'' [cdID x, dec_int (cdAttempt x + 1)]) st = None" and "sendCommand n i l x st = (st', y)"
  shows "validateCompState st' = None"
proof -
  have y: "y = sent_copy n l x" using assms(7) by (auto simp: sendCommand_def Let_def sent_copy_def)
  have k: "mget (ccCommands st) (cdID x) = Some x" by (rule command_key [OF assms(1,2) next_command_Some(1) [OF assms(3)]])
  have "command_ok st (cdID x, x) = None" by (rule valid_command [OF assms(1) map_of_SomeD [OF k]])
  then have yok: "command_ok st (cdID x, y) = None"
    using assms(4,5) by (auto simp: y sent_copy_def command_ok_def kind_ok_def split: if_splits option.splits)
  have same: "binding_ok (put_command y st) = binding_ok st" "lease_ok (put_command y st) = lease_ok st" "command_ok (put_command y st) = command_ok st"
    by (simp_all add: fun_eq_iff binding_ok_def lease_ok_def command_ok_def computerOf_def)
  have old: "first_error computer_ok (ccComputers st) = None" "first_error (binding_ok st) (ccBindings st) = None"
    "first_error (lease_ok st) (ccRunLeases st) = None" "first_error (command_ok st) (ccCommands st) = None"
    using assms(1) by (auto simp: validateCompState_def split: if_splits option.splits)
  then have new: "first_error (command_ok st) (mput (cdID y) y (ccCommands st)) = None"
    using yok set_mput [OF assms(2), of "cdID y" y] by (auto simp: first_error_None y sent_copy_def)
  have st': "st' = appendCompOperation (internalOperationID ''poll'' [cdID x, dec_int (cdAttempt x + 1)]) ''poll_command''
      (plainFingerprint ''poll_command'' (Some (pair_json ''Computer'' i ''Command'' (cdID x)))) (cdID x) n (put_command y st)"
    using assms(7) by (auto simp: sendCommand_def Let_def)
  show ?thesis unfolding st'
    by (rule append_valid [OF assms(1,6)])
      (use new old assms(5) in \<open>auto simp: same char_eval intro!: internalOperationID_safe\<close>)
qed

lemma poll_delivers:
  assumes "readFile compStore d = Inr st" and "comp_inv st" and "mget (ccComputers st) i = Some c" and "cmLeaseID c = l" and "online_at (now e) c"
    and "next_command i l st = Some x" and "case cdRun x of None \<Rightarrow> True | Some r \<Rightarrow> rrCapability r = cmCapability c"
    and "find_cop (internalOperationID ''poll'' [cdID x, dec_int (cdAttempt x + 1)]) st = None"
    and "cerr e = None" and "wio e = Io_ok" and "now e \<noteq> 0"
  shows "\<exists>d'. PollCommand e i l d = (Inr (sent_copy (now e) l x), d')"
proof -
  have v: "validateCompState st = None" using assms(1) by (simp add: readFile_Inr)
  then have "computer_ok (i, c) = None"
    using map_of_SomeD [OF assms(3)] by (auto simp: validateCompState_def first_error_None split: if_splits option.splits)
  with assms(4,5) have l: "safeID l" by (auto simp: computer_ok_def online_at_def split: if_splits)
  obtain st' y where s: "sendCommand (now e) i l x st = (st', y)" by fastforce
  then have y: "y = sent_copy (now e) l x" by (auto simp: sendCommand_def Let_def sent_copy_def)
  have "validateCompState st' = None"
    using send_valid [OF v _ assms(6) l assms(11,8) s] assms(2) by (simp add: comp_inv_def)
  moreover have "pollChange e i l st = Inr (st', Inr y)" using assms(3-7) s by (auto simp: pollChange_def split: option.splits)
  ultimately have "update_file compStore Io_ok Inl (pollChange e i l) d = (Inr y, AList.update (fsPath compStore) (Record st') d)"
    using assms(1) by (simp add: update_file_def cs.write_ok)
  then show ?thesis using assms(9,10) by (simp add: PollCommand_def y)
qed

text \<open>A poll does not look at run leases or bindings: a queued run is handed out although its lease is gone and its agent has been bound
  to another computer since.\<close>

theorem stale_run_delivered:
  assumes "readFile compStore d = Inr st" and "comp_inv st" and "mget (ccComputers st) i = Some c" and "cmLeaseID c = l" and "online_at (now e) c"
    and "next_command i l st = Some x" and "cdRun x = Some r" and "rrCapability r = cmCapability c"
    and "mget (ccRunLeases st) (rrRunID r) = None" and "mget (ccBindings st) (cdAgentID x) = Some b" and "bnComputerID b \<noteq> i"
    and "find_cop (internalOperationID ''poll'' [cdID x, dec_int (cdAttempt x + 1)]) st = None"
    and "cerr e = None" and "wio e = Io_ok" and "now e \<noteq> 0"
  shows "\<exists>d'. PollCommand e i l d = (Inr (sent_copy (now e) l x), d')"
  by (rule poll_delivers [OF assms(1-6) _ assms(12-15)]) (simp add: assms(7,8))

section \<open>Concrete computers\<close>

text \<open>Two computers online until 500. Agent \<open>a1\<close> is bound to \<open>m2\<close> and holds the lease of run \<open>r2\<close> there; a command for its earlier
  run \<open>r1\<close> is still queued for \<open>m1\<close>.\<close>

definition demo_digest :: string where
  "demo_digest = replicate 64 CHR ''0''"

definition demo_computer :: "string \<Rightarrow> string \<Rightarrow> Computer" where
  "demo_computer i l = \<lparr>cmID = i, cmOwnerID = ''boss'', cmName = ''x'', cmStatus = Online, cmRevision = 1, cmLeaseID = l,
     cmLeaseExpiresAt = 500, cmCapability = demo_digest,
     cmCapabilities = [\<lparr>csRevision = 1, csDigest = demo_digest, csOS = ''x'', csArch = ''x'', csRuntime = ''x'', csTools = [], csSandboxes = [],
       csCreatedAt = 1\<rparr>],
     cmCreatedAt = 1, cmUpdatedAt = 1\<rparr>"

definition demo_request :: RunRequest where
  "demo_request = \<lparr>rrRunID = ''r1'', rrTaskID = ''k1'', rrAgentID = ''a1'', rrMode = RunExecute, rrPrompt = ''x'', rrSessionID = [],
     rrAgentRevisionID = ''v1'', rrRelationshipRevisionID = ''v1'', rrCapability = demo_digest, rrTimeoutSeconds = 60, rrMaxTurns = 5,
     rrApprovedTools = [], rrTaskRevision = 1, rrContractRevision = 1, rrDispatchedAt = 1\<rparr>"

definition demo_command :: Command where
  "demo_command = (newCommand ''c1'' ''m1'' ''run_agent'' ''a1'' 1)\<lparr>cdRun := Some demo_request\<rparr>"

definition demo_binding :: Binding where
  "demo_binding = \<lparr>bnAgentID = ''a1'', bnComputerID = ''m2'', bnRevision = 2, bnBoundBy = ''boss'', bnBoundAt = 1\<rparr>"

definition demo_lease :: RunLease where
  "demo_lease = \<lparr>rlRunID = ''r2'', rlAgentID = ''a1'', rlComputerID = ''m2'', rlLeaseID = ''k2'', rlExpiresAt = 400\<rparr>"

definition demo_comp :: CompState where
  "demo_comp = \<lparr>ccSchemaVersion = 1, ccRevision = 0, ccComputers = [(''m1'', demo_computer ''m1'' ''l1''), (''m2'', demo_computer ''m2'' ''l2'')],
     ccBindings = [(''a1'', demo_binding)], ccRunLeases = [(''r2'', demo_lease)], ccCommands = [(''c1'', demo_command)], ccOperations = [],
     ccUpdatedAt = 1\<rparr>"

definition demo_comp_dir :: compDir where
  "demo_comp_dir = [(''computers-v1.json'', Record demo_comp)]"

lemma demo_digest_ok: "safeDigest demo_digest"
  by (simp add: demo_digest_def safeDigest_def list_all_iff char_eval)

lemma demo_computer_ok: "safeID i \<Longrightarrow> safeID l \<Longrightarrow> computer_ok (i, demo_computer i l) = None"
  unfolding computer_ok_def demo_computer_def by (simp add: demo_digest_ok char_eval)

lemma demo_request_ok: "validateRunRequest demo_request = None"
  unfolding validateRunRequest_def demo_request_def by (simp add: demo_digest_ok char_eval)

lemma demo_comp_valid: "validateCompState demo_comp = None"
proof -
  have m: "cmID (computerOf demo_comp ''m1'') = ''m1''" "cmID (computerOf demo_comp ''m2'') = ''m2''"
    by (simp_all add: computerOf_def demo_comp_def demo_computer_def)
  have "first_error (binding_ok demo_comp) (ccBindings demo_comp) = None"
    using m by (simp add: demo_comp_def) (simp add: binding_ok_def demo_binding_def char_eval)
  moreover have "lease_ok demo_comp (''r2'', demo_lease) = None"
    by (simp add: lease_ok_def demo_lease_def char_eval) (simp add: demo_comp_def demo_binding_def)
  moreover have "command_ok demo_comp (''c1'', demo_command) = None"
    using m demo_request_ok by (simp add: command_ok_def kind_ok_def demo_command_def newCommand_def char_eval) (simp add: demo_request_def)
  moreover have "computer_ok (''m1'', demo_computer ''m1'' ''l1'') = None" "computer_ok (''m2'', demo_computer ''m2'' ''l2'') = None"
    by (rule demo_computer_ok; simp add: char_eval)+
  ultimately show ?thesis
    unfolding validateCompState_def by (simp add: demo_comp_def ccSchema_def)
qed

lemma demo_comp_read: "readFile compStore demo_comp_dir = Inr demo_comp"
  unfolding readFile_Inr compStore_fields by (simp add: demo_comp_valid) (simp add: demo_comp_dir_def readJSON_def)

lemma demo_comp_inv: "comp_inv demo_comp"
  by (simp add: comp_inv_def demo_comp_def wf_map_def)

lemma demo_comp_file: "comp_file demo_comp_dir"
  by (simp add: comp_file_def demo_comp_dir_def readJSON_def demo_comp_inv)

lemma demo_next: "next_command ''m1'' ''l1'' demo_comp = Some demo_command"
  by (simp add: next_command_def demo_comp_def deliverable_def demo_command_def newCommand_def sort_by_def)

theorem store_refines_fence_witness:
  "\<exists>st'. readFile compStore (do_comp (KRelease ''r2'' ''op1'' ''k2'') demo_env demo_comp_dir) = Inr st' \<and>
    (fence_step 100 ''k2'')\<^sup>*\<^sup>* (fence demo_comp) (fence st')"
  using store_refines_fence [OF demo_comp_file demo_comp_read, of "KRelease ''r2'' ''op1'' ''k2''" demo_env]
  by (simp add: call_key_def demo_env_def)

theorem one_run_per_agent_witness:
  "\<exists>b. mget (ccBindings demo_comp) ''a1'' = Some b \<and> bnComputerID b = ''m2''"
  using one_run_per_agent [OF demo_comp_file, of "[]" demo_comp "''r2''" demo_lease] demo_comp_read
  by (simp add: demo_comp_def demo_lease_def)

theorem stale_run_delivered_witness:
  "\<exists>d'. PollCommand demo_env ''m1'' ''l1'' demo_comp_dir = (Inr (sent_copy 100 ''l1'' demo_command), d')"
  using stale_run_delivered [OF demo_comp_read demo_comp_inv, of "''m1''" "demo_computer ''m1'' ''l1''" "''l1''" demo_env demo_command demo_request demo_binding]
    demo_next by (simp add: demo_comp_def find_cop_def find_op_def demo_env_def online_at_def demo_computer_def demo_command_def demo_request_def
      demo_binding_def newCommand_def)

lemma demo_poll: "\<exists>d'. PollCommand demo_env ''m1'' ''l1'' demo_comp_dir = (Inr (sent_copy 100 ''l1'' demo_command), d')"
  using poll_delivers [OF demo_comp_read demo_comp_inv, of "''m1''" "demo_computer ''m1'' ''l1''" "''l1''" demo_env demo_command]
    demo_next by (simp add: demo_comp_def find_cop_def find_op_def demo_env_def online_at_def demo_computer_def demo_command_def demo_request_def
      newCommand_def)

theorem no_redelivery_witness:
  "\<nexists>y. fst (PollCommand demo_env ''m1'' ''l1'' (snd (PollCommand demo_env ''m1'' ''l1'' demo_comp_dir))) = Inr y \<and> cdID y = ''c1''"
proof -
  obtain d' where d': "PollCommand demo_env ''m1'' ''l1'' demo_comp_dir = (Inr (sent_copy 100 ''l1'' demo_command), d')" using demo_poll by blast
  from no_redelivery [OF demo_comp_file this, of "[]" demo_env] show ?thesis
    by (simp add: d') (simp add: sent_copy_def demo_command_def newCommand_def)
qed

theorem polled_well_formed_witness:
  "\<exists>d'. PollCommand demo_env ''m1'' ''l1'' demo_comp_dir = (Inr (sent_copy 100 ''l1'' demo_command), d') \<and> safeID (cdID (sent_copy 100 ''l1'' demo_command))"
proof -
  obtain d' where d': "PollCommand demo_env ''m1'' ''l1'' demo_comp_dir = (Inr (sent_copy 100 ''l1'' demo_command), d')" using demo_poll by blast
  from polled_well_formed [OF this] d' show ?thesis by blast
qed

end
