(* ===== verification/GoFloat.thy ===== *)
theory GoFloat
  imports Encoding
begin

text \<open>
  What the stores need of float64: the comparison of two numbers and the text that encoding/json writes for one, which is the
  shortest decimal that reads back as the same number. A finite number is its sign, significand \<open>m < 2 ^ 53\<close> and binary exponent \<open>e \<ge> -1074\<close>, with \<open>m \<ge> 2 ^ 52\<close> unless \<open>e = -1074\<close>.
\<close>

datatype float64 = Fin bool nat int | Inf bool | NaN

definition fin_value :: "bool \<Rightarrow> nat \<Rightarrow> int \<Rightarrow> int \<Rightarrow> int" where
  "fin_value neg m e k = (if neg then - 1 else 1) * int m * 2 ^ nat (e - k)"

fun float_less :: "float64 \<Rightarrow> float64 \<Rightarrow> bool" where
  "float_less (Fin s m e) (Fin s' m' e') = (let k = min e e' in fin_value s m e k < fin_value s' m' e' k)"
| "float_less (Fin s m e) (Inf neg) = (\<not> neg)"
| "float_less (Inf neg) (Fin s m e) = neg"
| "float_less (Inf neg) (Inf neg') = (neg \<and> \<not> neg')"
| "float_less _ _ = False"

text \<open>\<open>num / den\<close> is the value; \<open>lo\<close>, \<open>hi\<close> over the same denominator bound the numbers that read back as it.\<close>

definition float_bounds :: "nat \<Rightarrow> int \<Rightarrow> nat \<times> nat \<times> nat \<times> nat" where
  "float_bounds m e =
     (let s = 2 ^ nat (e - 2); den = 2 ^ nat (2 - e);
          lo = (if m = 2 ^ 52 \<and> e > - 1074 then 4 * m - 1 else 4 * m - 2) in
      (4 * m * s, lo * s, (4 * m + 2) * s, den))"

text \<open>The position of the decimal point: \<open>10 ^ (p - 1) \<le> num / den < 10 ^ p\<close>.\<close>

fun leading_zeros :: "nat \<Rightarrow> nat \<Rightarrow> nat \<Rightarrow> nat" where
  "leading_zeros 0 num den = 0"
| "leading_zeros (Suc fuel) num den = (if den \<le> 10 * num then 0 else Suc (leading_zeros fuel (10 * num) den))"

definition point :: "nat \<Rightarrow> nat \<Rightarrow> int" where
  "point num den = (if den \<le> num then int (length (dec_nat (num div den))) else - int (leading_zeros 400 num den))"

definition round_even :: "nat \<Rightarrow> nat \<Rightarrow> nat" where
  "round_even num den = (let q = num div den; r = num mod den in
     if 2 * r < den \<or> (2 * r = den \<and> even q) then q else q + 1)"

text \<open>The first \<open>n \<le> 17\<close> for which the nearest decimal of \<open>n\<close> digits lies in the interval.\<close>

fun shortest :: "nat \<Rightarrow> nat \<Rightarrow> bool \<Rightarrow> nat \<times> nat \<times> nat \<times> nat \<Rightarrow> int \<Rightarrow> nat \<times> nat" where
  "shortest 0 n incl (num, lo, hi, den) p = (n, 0)"
| "shortest (Suc fuel) n incl (num, lo, hi, den) p =
     (let up = 10 ^ nat (int n - p); down = 10 ^ nat (p - int n);
          d = round_even (num * up) (den * down);
          x = d * den * down in
      if fuel = 0 \<or> (if incl then lo * up \<le> x \<and> x \<le> hi * up else lo * up < x \<and> x < hi * up) then (n, d)
      else shortest fuel (Suc n) incl (num, lo, hi, den) p)"

definition trim_digits :: "string \<Rightarrow> string" where
  "trim_digits s = rev (dropWhile (\<lambda>c. c = CHR ''0'') (rev s))"

text \<open>The digits and the position of the point of a positive number.\<close>

definition float_digits :: "nat \<Rightarrow> int \<Rightarrow> string \<times> int" where
  "float_digits m e = (case float_bounds m e of (num, lo, hi, den) \<Rightarrow>
     let p = point num den in
     case shortest 17 1 (even m) (num, lo, hi, den) p of (n, d) \<Rightarrow> (trim_digits (dec_nat d), if d = 10 ^ n then p + 1 else p))"

definition float_abs_text :: "nat \<Rightarrow> int \<Rightarrow> string" where
  "float_abs_text m e =
     (if m = 0 then ''0'' else
      case float_digits m e of (ds, p) \<Rightarrow>
      if - 6 < p \<and> p \<le> 21 then
        (if p \<le> 0 then ''0.'' @ replicate (nat (- p)) CHR ''0'' @ ds
         else if length ds \<le> nat p then ds @ replicate (nat p - length ds) CHR ''0''
         else take (nat p) ds @ ''.'' @ drop (nat p) ds)
      else take 1 ds @ (if length ds = 1 then [] else ''.'' @ drop 1 ds) @ ''e'' @ (if p - 1 < 0 then ''-'' else ''+'') @ dec_nat (nat \<bar>p - 1\<bar>))"

definition json_float :: "float64 \<Rightarrow> json option" where
  "json_float x = (case x of Fin neg m e \<Rightarrow> Some (JNum ((if neg then ''-'' else []) @ float_abs_text m e)) | _ \<Rightarrow> None)"

end
