(* ===== verification/Registry.thy ===== *)
theory Registry
  imports FileStore GoTime GoFloat
begin

text \<open>
  The agent registry, internal/agentregistry: types.go and store.go. An agent's record holds its immutable revisions,
  its relationship revisions and proposals, its session generations and the selections that made a revision current.
  Every agent has a file of its own; each operation rewrites it under the expected revision.
\<close>

datatype SessionState = SessionActive | SessionRetired | OtherSession string

datatype ProposalState = ProposalOpen | ProposalAccepted | ProposalRejected | OtherProposal string

fun proposal_name :: "ProposalState \<Rightarrow> string" where
  "proposal_name ProposalOpen = ''open''"
| "proposal_name ProposalAccepted = ''accepted''"
| "proposal_name ProposalRejected = ''rejected''"
| "proposal_name (OtherProposal s) = s"

datatype SelectionDecision = SelectionAccept | SelectionReject | OtherDecision string

fun selection_name :: "SelectionDecision \<Rightarrow> string" where
  "selection_name SelectionAccept = ''accept''"
| "selection_name SelectionReject = ''reject''"
| "selection_name (OtherDecision s) = s"

record AgentRevision =
  avID :: string
  avVersion :: int
  avPromptRef :: string
  avSkills :: "string list"
  avTools :: "string list"
  avPermissions :: "string list"
  avModel :: string
  avCreatedBy :: string
  avReason :: string
  avCreatedAt :: time

record TeammateRelationship =
  tmAgentID :: string
  tmRole :: string
  tmDelegateWhen :: "string list"
  tmCollaborateWhen :: "string list"
  tmInputs :: "string list"
  tmReportBackWith :: "string list"

record RelationshipRevision =
  lvID :: string
  lvVersion :: int
  lvMyRole :: string
  lvTeammates :: "TeammateRelationship list"
  lvCreatedBy :: string
  lvReason :: string
  lvCreatedAt :: time

record SessionHandoff =
  hoScope :: string
  hoCurrentTask :: string
  hoOwnedTasks :: "string list"
  hoPendingReviews :: "string list"
  hoAvailableTasks :: "string list"
  hoReferences :: "string list"
  hoConfirmedFacts :: "string list"
  hoUnresolvedItems :: "string list"

record SessionGeneration =
  sgGeneration :: int
  sgSessionID :: string
  sgState :: SessionState
  sgCreatedAt :: time
  sgRetiredAt :: time
  sgHandoff :: "SessionHandoff option"

record RelationshipPR =
  prID :: string
  prBase :: string
  prMyRole :: string
  prTeammates :: "TeammateRelationship list"
  prProblem :: string
  prTeamCheck :: "string list"
  prState :: ProposalState
  prDecisionReason :: string
  prCreatedBy :: string
  prReviewedBy :: string
  prCreatedAt :: time
  prReviewedAt :: time

record AgentSelection =
  slID :: string
  slBaselineRevisionID :: string
  slCandidateRevisionID :: string
  slSuiteID :: string
  slModel :: string
  slTokenBudget :: int
  slBaselineScore :: float64
  slCandidateScore :: float64
  slTeamCompatible :: bool
  slEvidence :: "string list"
  slDecision :: SelectionDecision
  slReason :: string
  slSelectedBy :: string
  slCreatedAt :: time

record AgentOperation =
  goID :: string
  goAction :: string
  goFingerprint :: string
  goRevision :: int
  goCreatedAt :: time

record Agent =
  agSchemaVersion :: int
  agID :: string
  agWorkspaceID :: string
  agName :: string
  agRevision :: int
  agCurrentRevisionID :: string
  agCurrentRelationship :: string
  agCurrentGeneration :: int
  agRevisions :: "AgentRevision list"
  agRelationships :: "RelationshipRevision list"
  agSessions :: "SessionGeneration list"
  agPRs :: "RelationshipPR list"
  agSelections :: "AgentSelection list"
  agOperations :: "AgentOperation list"
  agCreatedAt :: time
  agUpdatedAt :: time

record AgentCreate =
  gcOperationID :: string
  gcID :: string
  gcWorkspaceID :: string
  gcName :: string
  gcCreatedBy :: string
  gcPromptRef :: string
  gcSkills :: "string list"
  gcTools :: "string list"
  gcPermissions :: "string list"
  gcModel :: string
  gcMyRole :: string
  gcTeammates :: "TeammateRelationship list"
  gcSessionID :: string

record RelationshipUpdate =
  ruOperationID :: string
  ruExpectedRevision :: int
  ruActorID :: string
  ruMyRole :: string
  ruTeammates :: "TeammateRelationship list"
  ruReason :: string

record SessionRotation =
  srOperationID :: string
  srExpectedRevision :: int
  srExpectedGeneration :: int
  srActorID :: string
  srNewSessionID :: string
  srHandoff :: SessionHandoff

record AgentRevisionProposal =
  vpOperationID :: string
  vpExpectedRevision :: int
  vpActorID :: string
  vpPromptRef :: string
  vpSkills :: "string list"
  vpTools :: "string list"
  vpPermissions :: "string list"
  vpModel :: string
  vpReason :: string

record SelectionInput =
  snOperationID :: string
  snExpectedRevision :: int
  snID :: string
  snBaselineRevisionID :: string
  snCandidateRevisionID :: string
  snSuiteID :: string
  snModel :: string
  snTokenBudget :: int
  snBaselineScore :: float64
  snCandidateScore :: float64
  snTeamCompatible :: bool
  snEvidence :: "string list"
  snDecision :: SelectionDecision
  snReason :: string
  snSelectedBy :: string

record RelationshipPRInput =
  piOperationID :: string
  piExpectedRevision :: int
  piID :: string
  piActorID :: string
  piMyRole :: string
  piTeammates :: "TeammateRelationship list"
  piProblem :: string
  piTeamCheck :: "string list"

record RelationshipPRReview =
  pvOperationID :: string
  pvExpectedRevision :: int
  pvReviewerID :: string
  pvDecision :: ProposalState
  pvReason :: string

type_synonym agentDir = "Agent dir"

definition agErrConflict :: go_error where
  "agErrConflict = Sentinel ''agent registry revision conflict''"

definition ErrSession :: go_error where
  "ErrSession = Sentinel ''invalid session generation transition''"

definition agSchema :: int where
  "agSchema = 1"

section \<open>JSON\<close>

definition teammate_json :: "TeammateRelationship \<Rightarrow> json" where
  "teammate_json t = JObj ([(''agent_id'', JStr (tmAgentID t)), (''role'', JStr (tmRole t))] @ jomit_strs ''delegate_when'' (tmDelegateWhen t) @
     jomit_strs ''collaborate_when'' (tmCollaborateWhen t) @ jomit_strs ''inputs'' (tmInputs t) @ jomit_strs ''report_back_with'' (tmReportBackWith t))"

definition teammates_json :: "TeammateRelationship list \<Rightarrow> (string \<times> json) list" where
  "teammates_json ts = (if ts = [] then [] else [(''teammates'', JArr (map teammate_json ts))])"

definition agent_create_json :: "AgentCreate \<Rightarrow> json" where
  "agent_create_json c = JObj ([(''operation_id'', JStr (gcOperationID c)), (''id'', JStr (gcID c)), (''workspace_id'', JStr (gcWorkspaceID c)),
     (''name'', JStr (gcName c)), (''created_by'', JStr (gcCreatedBy c)), (''prompt_ref'', JStr (gcPromptRef c))] @
     jomit_strs ''skills'' (gcSkills c) @ jomit_strs ''tools'' (gcTools c) @ jomit_strs ''permissions'' (gcPermissions c) @
     [(''model'', JStr (gcModel c)), (''my_role'', JStr (gcMyRole c))] @ teammates_json (gcTeammates c) @ [(''session_id'', JStr (gcSessionID c))])"

definition relationship_json :: "RelationshipUpdate \<Rightarrow> json" where
  "relationship_json r = JObj ([(''operation_id'', JStr (ruOperationID r)), (''expected_revision'', JInt (ruExpectedRevision r)),
     (''actor_id'', JStr (ruActorID r)), (''my_role'', JStr (ruMyRole r))] @ teammates_json (ruTeammates r) @ [(''reason'', JStr (ruReason r))])"

definition session_handoff_json :: "SessionHandoff \<Rightarrow> json" where
  "session_handoff_json h = JObj ([(''scope'', JStr (hoScope h))] @ jomit ''current_task'' (hoCurrentTask h) @ jomit_strs ''owned_tasks'' (hoOwnedTasks h) @
     jomit_strs ''pending_reviews'' (hoPendingReviews h) @ jomit_strs ''available_tasks'' (hoAvailableTasks h) @
     jomit_strs ''references'' (hoReferences h) @ jomit_strs ''confirmed_facts'' (hoConfirmedFacts h) @
     jomit_strs ''unresolved_items'' (hoUnresolvedItems h))"

definition rotation_json :: "SessionRotation \<Rightarrow> json" where
  "rotation_json r = JObj [(''operation_id'', JStr (srOperationID r)), (''expected_revision'', JInt (srExpectedRevision r)),
     (''expected_generation'', JInt (srExpectedGeneration r)), (''actor_id'', JStr (srActorID r)), (''new_session_id'', JStr (srNewSessionID r)),
     (''handoff'', session_handoff_json (srHandoff r))]"

definition proposal_json :: "AgentRevisionProposal \<Rightarrow> json" where
  "proposal_json p = JObj ([(''operation_id'', JStr (vpOperationID p)), (''expected_revision'', JInt (vpExpectedRevision p)),
     (''actor_id'', JStr (vpActorID p)), (''prompt_ref'', JStr (vpPromptRef p))] @ jomit_strs ''skills'' (vpSkills p) @
     jomit_strs ''tools'' (vpTools p) @ jomit_strs ''permissions'' (vpPermissions p) @
     [(''model'', JStr (vpModel p)), (''reason'', JStr (vpReason p))])"

definition selection_json :: "SelectionInput \<Rightarrow> json option" where
  "selection_json s = (case (json_float (snBaselineScore s), json_float (snCandidateScore s)) of
     (Some a, Some b) \<Rightarrow> Some (JObj [(''operation_id'', JStr (snOperationID s)), (''expected_revision'', JInt (snExpectedRevision s)),
       (''id'', JStr (snID s)), (''baseline_revision_id'', JStr (snBaselineRevisionID s)),
       (''candidate_revision_id'', JStr (snCandidateRevisionID s)), (''suite_id'', JStr (snSuiteID s)), (''model'', JStr (snModel s)),
       (''token_budget'', JInt (snTokenBudget s)), (''baseline_score'', a), (''candidate_score'', b),
       (''team_compatible'', JBool (snTeamCompatible s)), (''evidence'', jstrs (snEvidence s)),
       (''decision'', JStr (selection_name (snDecision s))), (''reason'', JStr (snReason s)), (''selected_by'', JStr (snSelectedBy s))])
   | _ \<Rightarrow> None)"

definition pr_json :: "RelationshipPRInput \<Rightarrow> json" where
  "pr_json p = JObj ([(''operation_id'', JStr (piOperationID p)), (''expected_revision'', JInt (piExpectedRevision p)), (''id'', JStr (piID p)),
     (''actor_id'', JStr (piActorID p)), (''my_role'', JStr (piMyRole p))] @ teammates_json (piTeammates p) @
     [(''problem'', JStr (piProblem p)), (''team_check'', jstrs (piTeamCheck p))])"

definition pr_review_json :: "string \<Rightarrow> RelationshipPRReview \<Rightarrow> json" where
  "pr_review_json i r = JObj [(''pr'', JStr i), (''review'', JObj [(''operation_id'', JStr (pvOperationID r)),
     (''expected_revision'', JInt (pvExpectedRevision r)), (''reviewer_id'', JStr (pvReviewerID r)),
     (''decision'', JStr (proposal_name (pvDecision r))), (''reason'', JStr (pvReason r))])]"

text \<open>The callers ignore the error of a value that cannot be encoded, a score that is not finite, and go on with the empty
  fingerprint.\<close>

definition agFingerprint :: "string \<Rightarrow> json option \<Rightarrow> string" where
  "agFingerprint action v = (case v of None \<Rightarrow> [] | Some j \<Rightarrow> semanticFingerprint action j)"

section \<open>Input\<close>

definition revisionID :: "string \<Rightarrow> int \<Rightarrow> string" where
  "revisionID kind version = kind @ ''-v'' @ dec_int version"

definition normalizeTeammate :: "TeammateRelationship \<Rightarrow> TeammateRelationship" where
  "normalizeTeammate t = \<lparr>tmAgentID = TrimSpace (tmAgentID t), tmRole = TrimSpace (tmRole t),
     tmDelegateWhen = normalizeStrings (tmDelegateWhen t), tmCollaborateWhen = normalizeStrings (tmCollaborateWhen t),
     tmInputs = normalizeStrings (tmInputs t), tmReportBackWith = normalizeStrings (tmReportBackWith t)\<rparr>"

definition normalizeTeammates :: "TeammateRelationship list \<Rightarrow> TeammateRelationship list" where
  "normalizeTeammates items = sort_by (\<lambda>x y. tmAgentID x < tmAgentID y) (map normalizeTeammate items)"

definition validateTeammates :: "string \<Rightarrow> TeammateRelationship list \<Rightarrow> go_error option" where
  "validateTeammates self ts =
     (if scan_unique (\<lambda>t. safeID (tmAgentID t) \<and> tmAgentID t \<noteq> self \<and> tmRole t \<noteq> []) tmAgentID [] ts then None
      else Some (Errorf ''teammates require unique non-self agent ids and roles''))"

definition cleanHandoff :: "SessionHandoff \<Rightarrow> SessionHandoff" where
  "cleanHandoff h = h\<lparr>hoOwnedTasks := normalizeStrings (hoOwnedTasks h), hoPendingReviews := normalizeStrings (hoPendingReviews h),
     hoAvailableTasks := normalizeStrings (hoAvailableTasks h), hoReferences := normalizeStrings (hoReferences h),
     hoConfirmedFacts := normalizeStrings (hoConfirmedFacts h), hoUnresolvedItems := normalizeStrings (hoUnresolvedItems h)\<rparr>"

definition checkHandoff :: "SessionHandoff \<Rightarrow> go_error option" where
  "checkHandoff h = (if hoScope h = [] \<or> hoReferences h = [] \<or> hoConfirmedFacts h = []
     then Some (Errorf ''session handoff requires scope, references, and confirmed facts'') else None)"

definition normalizeAgentCreate :: "AgentCreate \<Rightarrow> AgentCreate" where
  "normalizeAgentCreate c = \<lparr>gcOperationID = TrimSpace (gcOperationID c), gcID = TrimSpace (gcID c), gcWorkspaceID = TrimSpace (gcWorkspaceID c),
     gcName = TrimSpace (gcName c), gcCreatedBy = TrimSpace (gcCreatedBy c), gcPromptRef = TrimSpace (gcPromptRef c),
     gcSkills = normalizeStrings (gcSkills c), gcTools = normalizeStrings (gcTools c), gcPermissions = normalizeStrings (gcPermissions c),
     gcModel = TrimSpace (gcModel c), gcMyRole = TrimSpace (gcMyRole c), gcTeammates = normalizeTeammates (gcTeammates c),
     gcSessionID = TrimSpace (gcSessionID c)\<rparr>"

definition validateAgentCreate :: "AgentCreate \<Rightarrow> go_error option" where
  "validateAgentCreate c =
     (if \<not> list_all safeID [gcOperationID c, gcID c, gcWorkspaceID c, gcCreatedBy c, gcSessionID c]
      then Some (Errorf ''operation, agent, workspace, creator, and session ids are required'')
      else if gcName c = [] \<or> gcPromptRef c = [] \<or> gcModel c = [] \<or> gcMyRole c = []
      then Some (Errorf ''name, prompt, model, and role are required'')
      else validateTeammates (gcID c) (gcTeammates c))"

definition normalizeRelationshipUpdate :: "RelationshipUpdate \<Rightarrow> RelationshipUpdate" where
  "normalizeRelationshipUpdate r = r\<lparr>ruOperationID := TrimSpace (ruOperationID r), ruActorID := TrimSpace (ruActorID r),
     ruMyRole := TrimSpace (ruMyRole r), ruReason := TrimSpace (ruReason r), ruTeammates := normalizeTeammates (ruTeammates r)\<rparr>"

definition normalizeSessionRotation :: "SessionRotation \<Rightarrow> SessionRotation" where
  "normalizeSessionRotation r = (let h = cleanHandoff (srHandoff r) in
     r\<lparr>srOperationID := TrimSpace (srOperationID r), srActorID := TrimSpace (srActorID r), srNewSessionID := TrimSpace (srNewSessionID r),
       srHandoff := h\<lparr>hoScope := TrimSpace (hoScope h), hoCurrentTask := TrimSpace (hoCurrentTask h)\<rparr>\<rparr>)"

definition normalizeProposal :: "AgentRevisionProposal \<Rightarrow> AgentRevisionProposal" where
  "normalizeProposal p = p\<lparr>vpOperationID := TrimSpace (vpOperationID p), vpActorID := TrimSpace (vpActorID p),
     vpPromptRef := TrimSpace (vpPromptRef p), vpModel := TrimSpace (vpModel p), vpReason := TrimSpace (vpReason p),
     vpSkills := normalizeStrings (vpSkills p), vpTools := normalizeStrings (vpTools p), vpPermissions := normalizeStrings (vpPermissions p)\<rparr>"

definition normalizeSelection :: "SelectionInput \<Rightarrow> SelectionInput" where
  "normalizeSelection s = s\<lparr>snOperationID := TrimSpace (snOperationID s), snID := TrimSpace (snID s),
     snBaselineRevisionID := TrimSpace (snBaselineRevisionID s), snCandidateRevisionID := TrimSpace (snCandidateRevisionID s),
     snSuiteID := TrimSpace (snSuiteID s), snModel := TrimSpace (snModel s), snEvidence := normalizeStrings (snEvidence s),
     snReason := TrimSpace (snReason s), snSelectedBy := TrimSpace (snSelectedBy s)\<rparr>"

definition normalizeRelationshipPR :: "RelationshipPRInput \<Rightarrow> RelationshipPRInput" where
  "normalizeRelationshipPR p = p\<lparr>piOperationID := TrimSpace (piOperationID p), piID := TrimSpace (piID p), piActorID := TrimSpace (piActorID p),
     piMyRole := TrimSpace (piMyRole p), piProblem := TrimSpace (piProblem p), piTeammates := normalizeTeammates (piTeammates p),
     piTeamCheck := normalizeStrings (piTeamCheck p)\<rparr>"

section \<open>The canonical record\<close>

definition findAgentRevision :: "Agent \<Rightarrow> string \<Rightarrow> AgentRevision option" where
  "findAgentRevision a i = find (\<lambda>r. avID r = i) (agRevisions a)"

fun revisions_ok :: "nat \<Rightarrow> AgentRevision list \<Rightarrow> bool" where
  "revisions_ok index [] = True"
| "revisions_ok index (r # rs) =
     (if avVersion r \<noteq> int index + 1 \<or> avID r \<noteq> revisionID ''agent'' (avVersion r) \<or> avPromptRef r = [] \<or> avModel r = []
         \<or> \<not> safeID (avCreatedBy r) \<or> avCreatedAt r = 0
      then False else revisions_ok (Suc index) rs)"

fun relationships_ok :: "string \<Rightarrow> nat \<Rightarrow> RelationshipRevision list \<Rightarrow> bool" where
  "relationships_ok self index [] = True"
| "relationships_ok self index (r # rs) =
     (if lvVersion r \<noteq> int index + 1 \<or> lvID r \<noteq> revisionID ''relationship'' (lvVersion r) \<or> lvMyRole r = [] \<or> \<not> safeID (lvCreatedBy r)
         \<or> lvReason r = [] \<or> lvCreatedAt r = 0 \<or> validateTeammates self (lvTeammates r) \<noteq> None
      then False else relationships_ok self (Suc index) rs)"

fun scan_prs :: "string \<Rightarrow> string list \<Rightarrow> RelationshipPR list \<Rightarrow> go_error option" where
  "scan_prs self seen [] = None"
| "scan_prs self seen (p # ps) =
     (if \<not> safeID (prID p) \<or> prID p \<in> set seen \<or> prBase p = [] \<or> prMyRole p = [] \<or> prProblem p = [] \<or> prTeamCheck p = []
         \<or> \<not> safeID (prCreatedBy p) \<or> prCreatedAt p = 0 \<or> validateTeammates self (prTeammates p) \<noteq> None
      then Some (Errorf ''invalid relationship PR history'')
      else if prState p \<noteq> ProposalOpen \<and> prState p \<noteq> ProposalAccepted \<and> prState p \<noteq> ProposalRejected
      then Some (Errorf ''invalid relationship PR state'')
      else if prState p \<noteq> ProposalOpen \<and> (\<not> safeID (prReviewedBy p) \<or> prDecisionReason p = [] \<or> prReviewedAt p = 0)
      then Some (Errorf ''reviewed relationship PR lacks decision metadata'')
      else scan_prs self (prID p # seen) ps)"

fun scan_selections :: "Agent \<Rightarrow> string list \<Rightarrow> AgentSelection list \<Rightarrow> go_error option" where
  "scan_selections a seen [] = None"
| "scan_selections a seen (s # ss) =
     (if \<not> safeID (slID s) \<or> slID s \<in> set seen \<or> slBaselineRevisionID s = slCandidateRevisionID s \<or> slSuiteID s = [] \<or> slModel s = []
         \<or> slTokenBudget s \<le> 0 \<or> slEvidence s = [] \<or> slReason s = [] \<or> \<not> safeID (slSelectedBy s) \<or> slCreatedAt s = 0
      then Some (Errorf ''invalid agent selection history'')
      else if slDecision s \<noteq> SelectionAccept \<and> slDecision s \<noteq> SelectionReject then Some (Errorf ''invalid agent selection decision'')
      else if findAgentRevision a (slBaselineRevisionID s) = None then Some (Errorf ''selection baseline revision is missing'')
      else if findAgentRevision a (slCandidateRevisionID s) = None then Some (Errorf ''selection candidate revision is missing'')
      else scan_selections a (slID s # seen) ss)"

fun scan_sessions :: "nat \<Rightarrow> string list \<Rightarrow> SessionGeneration list \<Rightarrow> go_error option" where
  "scan_sessions index seen [] = None"
| "scan_sessions index seen (g # gs) =
     (if sgGeneration g \<noteq> int index + 1 \<or> \<not> safeID (sgSessionID g) \<or> sgSessionID g \<in> set seen \<or> sgCreatedAt g = 0
      then Some (Errorf ''invalid session generation history'')
      else if sgState g = SessionActive \<and> (sgHandoff g \<noteq> None \<or> sgRetiredAt g \<noteq> 0)
      then Some (Errorf ''active session carries retirement data'')
      else if sgState g \<noteq> SessionActive \<and> (sgState g \<noteq> SessionRetired \<or> sgRetiredAt g = 0 \<or>
         (case sgHandoff g of None \<Rightarrow> True | Some h \<Rightarrow> checkHandoff h \<noteq> None))
      then Some (Errorf ''invalid retired session'')
      else scan_sessions (Suc index) (sgSessionID g # seen) gs)"

definition active_sessions :: "Agent \<Rightarrow> nat" where
  "active_sessions a = length (filter (\<lambda>g. sgState g = SessionActive) (agSessions a))"

definition gop_ok :: "AgentOperation \<Rightarrow> bool" where
  "gop_ok x \<longleftrightarrow> safeID (goID x) \<and> safeDigest (goFingerprint x) \<and> goCreatedAt x \<noteq> 0"

definition validateAgent :: "Agent \<Rightarrow> go_error option" where
  "validateAgent a =
     (if agSchemaVersion a \<noteq> agSchema \<or> \<not> safeID (agID a) \<or> \<not> safeID (agWorkspaceID a) \<or> agName a = [] \<or> agRevision a \<le> 0
         \<or> agCreatedAt a = 0 \<or> agUpdatedAt a = 0
      then Some (Errorf ''invalid canonical agent identity'')
      else if agRevisions a = [] \<or> agRelationships a = [] \<or> agSessions a = [] \<or> agOperations a = []
      then Some (Errorf ''agent identity is missing revision or session history'')
      else if \<not> revisions_ok 0 (agRevisions a) then Some (Errorf ''invalid agent revision history'')
      else if findAgentRevision a (agCurrentRevisionID a) = None then Some (Errorf ''current agent revision is missing'')
      else if \<not> relationships_ok (agID a) 0 (agRelationships a) then Some (Errorf ''invalid relationship revision history'')
      else if agCurrentRelationship a \<noteq> lvID (last (agRelationships a)) then Some (Errorf ''current relationship revision is not latest'')
      else case scan_prs (agID a) [] (agPRs a) of Some err \<Rightarrow> Some err | None \<Rightarrow>
      case scan_selections a [] (agSelections a) of Some err \<Rightarrow> Some err | None \<Rightarrow>
      case scan_sessions 0 [] (agSessions a) of Some err \<Rightarrow> Some err | None \<Rightarrow>
      if active_sessions a \<noteq> 1 \<or> agCurrentGeneration a \<noteq> sgGeneration (last (agSessions a)) \<or> sgState (last (agSessions a)) \<noteq> SessionActive
      then Some (Errorf ''agent must have exactly one current active session'')
      else if \<not> ledger_ok gop_ok goID goRevision (agOperations a) then Some (Errorf ''invalid agent operation ledger'')
      else if int (length (agOperations a)) \<noteq> agRevision a then Some (Errorf ''agent operation ledger does not reach revision'')
      else None)"

definition agentPath :: "string \<Rightarrow> string" where
  "agentPath i = i @ ''.agent.json''"

definition agentFile :: "string \<Rightarrow> Agent file_store" where
  "agentFile i = \<lparr>fsPath = agentPath i, fsValid = validateAgent,
     fsSame = (\<lambda>x y. agRevision x = agRevision y \<and> agCurrentGeneration x = agCurrentGeneration y),
     fsMismatch = ''agent read-back verification failed''\<rparr>"

definition readAgent :: "string \<Rightarrow> agentDir \<Rightarrow> go_error + Agent" where
  "readAgent i d = (if \<not> safeID i then Inl (Errorf ''invalid agent id'') else readFile (agentFile i) d)"

definition writeAgent :: "io \<Rightarrow> Agent \<Rightarrow> agentDir \<Rightarrow> go_error option \<times> agentDir" where
  "writeAgent i a d = writeFile (agentFile (agID a)) i a d"

definition agMatches :: "AgentOperation list \<Rightarrow> string \<Rightarrow> string \<Rightarrow> bool" where
  "agMatches ops i fp = (case find_op goID i ops of Some x \<Rightarrow> goFingerprint x = fp | None \<Rightarrow> False)"

section \<open>Operations\<close>

definition newAgent :: "time \<Rightarrow> string \<Rightarrow> AgentCreate \<Rightarrow> Agent" where
  "newAgent n fp c =
     (let r = \<lparr>avID = revisionID ''agent'' 1, avVersion = 1, avPromptRef = gcPromptRef c, avSkills = gcSkills c, avTools = gcTools c,
            avPermissions = gcPermissions c, avModel = gcModel c, avCreatedBy = gcCreatedBy c, avReason = ''initial'', avCreatedAt = n\<rparr>;
          l = \<lparr>lvID = revisionID ''relationship'' 1, lvVersion = 1, lvMyRole = gcMyRole c, lvTeammates = gcTeammates c,
            lvCreatedBy = gcCreatedBy c, lvReason = ''initial'', lvCreatedAt = n\<rparr> in
      \<lparr>agSchemaVersion = agSchema, agID = gcID c, agWorkspaceID = gcWorkspaceID c, agName = gcName c, agRevision = 1,
       agCurrentRevisionID = avID r, agCurrentRelationship = lvID l, agCurrentGeneration = 1, agRevisions = [r], agRelationships = [l],
       agSessions = [\<lparr>sgGeneration = 1, sgSessionID = gcSessionID c, sgState = SessionActive, sgCreatedAt = n, sgRetiredAt = 0, sgHandoff = None\<rparr>],
       agPRs = [], agSelections = [],
       agOperations = [\<lparr>goID = gcOperationID c, goAction = ''create'', goFingerprint = fp, goRevision = 1, goCreatedAt = n\<rparr>],
       agCreatedAt = n, agUpdatedAt = n\<rparr>)"

definition CreateAgent :: "env \<Rightarrow> AgentCreate \<Rightarrow> agentDir \<Rightarrow> (go_error + Agent) \<times> agentDir" where
  "CreateAgent e c0 d =
     (case cerr e of Some err \<Rightarrow> (Inl err, d) | None \<Rightarrow>
      let c = normalizeAgentCreate c0 in
      case validateAgentCreate c of Some err \<Rightarrow> (Inl err, d) | None \<Rightarrow>
      let fp = agFingerprint ''create'' (Some (agent_create_json c)) in
      case readAgent (gcID c) d of
        Inr existing \<Rightarrow> if agMatches (agOperations existing) (gcOperationID c) fp then (Inr existing, d) else (Inl agErrConflict, d)
      | Inl err \<Rightarrow>
          if \<not> errors_Is err os_ErrNotExist then (Inl err, d) else
          let a = newAgent (now e) fp c in
          (case writeAgent (wio e) a d of (Some err, d') \<Rightarrow> (Inl err, d') | (None, d') \<Rightarrow> (Inr a, d')))"

definition GetAgent :: "env \<Rightarrow> string \<Rightarrow> agentDir \<Rightarrow> go_error + Agent" where
  "GetAgent e i d = (case cerr e of Some err \<Rightarrow> Inl err | None \<Rightarrow> readAgent (TrimSpace i) d)"

fun listAgentFiles :: "string \<Rightarrow> (string \<times> Agent content) list \<Rightarrow> agentDir \<Rightarrow> go_error + Agent list" where
  "listAgentFiles ws [] d = Inr []"
| "listAgentFiles ws ((name, x) # rest) d =
     (if \<not> suffix ''.agent.json'' name then listAgentFiles ws rest d else
      case readAgent (take (length name - 11) name) d of Inl err \<Rightarrow> Inl err
      | Inr a \<Rightarrow> map_sum id (\<lambda>as. if ws = [] \<or> agWorkspaceID a = ws then a # as else as) (listAgentFiles ws rest d))"

definition ListAgents :: "env \<Rightarrow> string \<Rightarrow> agentDir \<Rightarrow> go_error + Agent list" where
  "ListAgents e ws d = (case cerr e of Some err \<Rightarrow> Inl err | None \<Rightarrow>
     map_sum id (sort_by (\<lambda>x y. agCreatedAt x < agCreatedAt y)) (listAgentFiles ws (readDir d) d))"

definition mutateAgent :: "env \<Rightarrow> string \<Rightarrow> string \<Rightarrow> string \<Rightarrow> int \<Rightarrow> json option \<Rightarrow> (Agent \<Rightarrow> time \<Rightarrow> go_error + Agent)
    \<Rightarrow> agentDir \<Rightarrow> (go_error + Agent) \<times> agentDir" where
  "mutateAgent e i0 op0 action expected semantic change d =
     (case cerr e of Some err \<Rightarrow> (Inl err, d) | None \<Rightarrow>
      let i = TrimSpace i0; op = TrimSpace op0 in
      if \<not> safeID i \<or> \<not> safeID op \<or> expected \<le> 0
      then (Inl (Errorf ''agent, operation, and positive expected revision are required''), d) else
      let fp = agFingerprint action semantic in
      case readAgent i d of Inl err \<Rightarrow> (Inl err, d) | Inr a \<Rightarrow>
      if agMatches (agOperations a) op fp then (Inr a, d)
      else if find_op goID op (agOperations a) \<noteq> None then (Inl agErrConflict, d)
      else if agRevision a \<noteq> expected then (Inl agErrConflict, d) else
      let n = now e in
      case change a n of Inl err \<Rightarrow> (Inl err, d) | Inr a1 \<Rightarrow>
      let a2 = a1\<lparr>agRevision := agRevision a1 + 1, agUpdatedAt := n,
            agOperations := agOperations a1 @ [\<lparr>goID = op, goAction = action, goFingerprint = fp, goRevision = agRevision a1 + 1, goCreatedAt = n\<rparr>]\<rparr> in
      (case writeAgent (wio e) a2 d of (Some err, d') \<Rightarrow> (Inl err, d') | (None, d') \<Rightarrow> (Inr a2, d')))"

definition add_relationship :: "string \<Rightarrow> TeammateRelationship list \<Rightarrow> string \<Rightarrow> string \<Rightarrow> time \<Rightarrow> Agent \<Rightarrow> Agent" where
  "add_relationship role ts by reason n a =
     (let v = int (length (agRelationships a)) + 1;
          r = \<lparr>lvID = revisionID ''relationship'' v, lvVersion = v, lvMyRole = role, lvTeammates = ts, lvCreatedBy = by, lvReason = reason,
               lvCreatedAt = n\<rparr> in
      a\<lparr>agRelationships := agRelationships a @ [r], agCurrentRelationship := lvID r\<rparr>)"

definition reviseUpdate :: "RelationshipUpdate \<Rightarrow> Agent \<Rightarrow> time \<Rightarrow> go_error + Agent" where
  "reviseUpdate r a n =
     (if \<not> safeID (ruActorID r) \<or> ruMyRole r = [] \<or> ruReason r = [] then Inl (Errorf ''actor, role, and revision reason are required'') else
      case validateTeammates (agID a) (ruTeammates r) of Some err \<Rightarrow> Inl err
      | None \<Rightarrow> Inr (add_relationship (ruMyRole r) (ruTeammates r) (ruActorID r) (ruReason r) n a))"

definition ReviseRelationships :: "env \<Rightarrow> string \<Rightarrow> RelationshipUpdate \<Rightarrow> agentDir \<Rightarrow> (go_error + Agent) \<times> agentDir" where
  "ReviseRelationships e i r0 d =
     (let r = normalizeRelationshipUpdate r0 in
      mutateAgent e i (ruOperationID r) ''revise_relationships'' (ruExpectedRevision r) (Some (relationship_json r)) (reviseUpdate r) d)"

definition rotateUpdate :: "SessionRotation \<Rightarrow> Agent \<Rightarrow> time \<Rightarrow> go_error + Agent" where
  "rotateUpdate r a n =
     (if \<not> safeID (srActorID r) \<or> \<not> safeID (srNewSessionID r) \<or> srExpectedGeneration r \<noteq> agCurrentGeneration a then Inl ErrSession else
      case checkHandoff (srHandoff r) of Some err \<Rightarrow> Inl err | None \<Rightarrow>
      if srNewSessionID r \<in> set (map sgSessionID (agSessions a)) then Inl (Errorf ''new session id was already used'')
      else if agSessions a = [] \<or> sgGeneration (last (agSessions a)) \<noteq> srExpectedGeneration r \<or> sgState (last (agSessions a)) \<noteq> SessionActive
      then Inl ErrSession else
      let old = (last (agSessions a))\<lparr>sgState := SessionRetired, sgRetiredAt := n, sgHandoff := Some (cleanHandoff (srHandoff r))\<rparr>;
          next = srExpectedGeneration r + 1 in
      Inr (a\<lparr>agSessions := butlast (agSessions a) @ [old, \<lparr>sgGeneration = next, sgSessionID = srNewSessionID r, sgState = SessionActive,
             sgCreatedAt = n, sgRetiredAt = 0, sgHandoff = None\<rparr>], agCurrentGeneration := next\<rparr>))"

definition RotateSession :: "env \<Rightarrow> string \<Rightarrow> SessionRotation \<Rightarrow> agentDir \<Rightarrow> (go_error + Agent) \<times> agentDir" where
  "RotateSession e i r0 d =
     (let r = normalizeSessionRotation r0 in
      mutateAgent e i (srOperationID r) ''rotate_session'' (srExpectedRevision r) (Some (rotation_json r)) (rotateUpdate r) d)"

definition proposeUpdate :: "AgentRevisionProposal \<Rightarrow> Agent \<Rightarrow> time \<Rightarrow> go_error + Agent" where
  "proposeUpdate p a n =
     (if \<not> safeID (vpActorID p) \<or> vpPromptRef p = [] \<or> vpModel p = [] \<or> vpReason p = []
      then Inl (Errorf ''actor, prompt, model, and proposal reason are required'') else
      let v = int (length (agRevisions a)) + 1 in
      Inr (a\<lparr>agRevisions := agRevisions a @ [\<lparr>avID = revisionID ''agent'' v, avVersion = v, avPromptRef = vpPromptRef p,
             avSkills = vpSkills p, avTools = vpTools p, avPermissions = vpPermissions p, avModel = vpModel p, avCreatedBy = vpActorID p,
             avReason = vpReason p, avCreatedAt = n\<rparr>]\<rparr>))"

definition ProposeAgentRevision :: "env \<Rightarrow> string \<Rightarrow> AgentRevisionProposal \<Rightarrow> agentDir \<Rightarrow> (go_error + Agent) \<times> agentDir" where
  "ProposeAgentRevision e i p0 d =
     (let p = normalizeProposal p0 in
      mutateAgent e i (vpOperationID p) ''propose_agent_revision'' (vpExpectedRevision p) (Some (proposal_json p)) (proposeUpdate p) d)"

definition selectUpdate :: "SelectionInput \<Rightarrow> Agent \<Rightarrow> time \<Rightarrow> go_error + Agent" where
  "selectUpdate s a n =
     (if \<not> safeID (snID s) \<or> \<not> safeID (snSelectedBy s) \<or> snSuiteID s = [] \<or> snModel s = [] \<or> snTokenBudget s \<le> 0 \<or> snEvidence s = []
         \<or> snReason s = []
      then Inl (Errorf ''selection identity, evaluator conditions, evidence, and reason are required'')
      else if snID s \<in> set (map slID (agSelections a)) then Inl agErrConflict else
      case (findAgentRevision a (snBaselineRevisionID s), findAgentRevision a (snCandidateRevisionID s)) of
        (Some baseline, Some candidate) \<Rightarrow>
          if avID baseline \<noteq> agCurrentRevisionID a \<or> avID baseline = avID candidate
          then Inl (Errorf ''selection must compare the current baseline with a distinct candidate'')
          else if avModel baseline \<noteq> snModel s \<or> avModel candidate \<noteq> snModel s
          then Inl (Errorf ''baseline and candidate must be evaluated under the same model'')
          else if snDecision s \<noteq> SelectionAccept \<and> snDecision s \<noteq> SelectionReject
          then Inl (Errorf ''selection decision must be accept or reject'')
          else if snDecision s = SelectionAccept \<and> (\<not> snTeamCompatible s \<or> float_less (snCandidateScore s) (snBaselineScore s))
          then Inl (Errorf ''candidate cannot be accepted without non-regression and team compatibility'')
          else
            let x = \<lparr>slID = snID s, slBaselineRevisionID = snBaselineRevisionID s, slCandidateRevisionID = snCandidateRevisionID s,
                  slSuiteID = snSuiteID s, slModel = snModel s, slTokenBudget = snTokenBudget s, slBaselineScore = snBaselineScore s,
                  slCandidateScore = snCandidateScore s, slTeamCompatible = snTeamCompatible s, slEvidence = snEvidence s,
                  slDecision = snDecision s, slReason = snReason s, slSelectedBy = snSelectedBy s, slCreatedAt = n\<rparr> in
            Inr (a\<lparr>agSelections := agSelections a @ [x],
                   agCurrentRevisionID := (if snDecision s = SelectionAccept then avID candidate else agCurrentRevisionID a)\<rparr>)
      | _ \<Rightarrow> Inl (Errorf ''selection must compare the current baseline with a distinct candidate''))"

definition SelectAgentRevision :: "env \<Rightarrow> string \<Rightarrow> SelectionInput \<Rightarrow> agentDir \<Rightarrow> (go_error + Agent) \<times> agentDir" where
  "SelectAgentRevision e i s0 d =
     (let s = normalizeSelection s0 in
      mutateAgent e i (snOperationID s) ''select_agent_revision'' (snExpectedRevision s) (selection_json s) (selectUpdate s) d)"

definition createPRUpdate :: "RelationshipPRInput \<Rightarrow> Agent \<Rightarrow> time \<Rightarrow> go_error + Agent" where
  "createPRUpdate p a n =
     (if \<not> safeID (piID p) \<or> \<not> safeID (piActorID p) \<or> piMyRole p = [] \<or> piProblem p = [] \<or> piTeamCheck p = []
      then Inl (Errorf ''relationship PR identity, role, problem, and team check are required'') else
      case validateTeammates (agID a) (piTeammates p) of Some err \<Rightarrow> Inl err | None \<Rightarrow>
      if piID p \<in> set (map prID (agPRs a)) then Inl agErrConflict else
      Inr (a\<lparr>agPRs := agPRs a @ [\<lparr>prID = piID p, prBase = agCurrentRelationship a, prMyRole = piMyRole p, prTeammates = piTeammates p,
             prProblem = piProblem p, prTeamCheck = piTeamCheck p, prState = ProposalOpen, prDecisionReason = [], prCreatedBy = piActorID p,
             prReviewedBy = [], prCreatedAt = n, prReviewedAt = 0\<rparr>]\<rparr>))"

definition CreateRelationshipPR :: "env \<Rightarrow> string \<Rightarrow> RelationshipPRInput \<Rightarrow> agentDir \<Rightarrow> (go_error + Agent) \<times> agentDir" where
  "CreateRelationshipPR e i p0 d =
     (let p = normalizeRelationshipPR p0 in
      mutateAgent e i (piOperationID p) ''create_relationship_pr'' (piExpectedRevision p) (Some (pr_json p)) (createPRUpdate p) d)"

definition find_index :: "('a \<Rightarrow> bool) \<Rightarrow> 'a list \<Rightarrow> nat option" where
  "find_index P xs = find (\<lambda>k. P (xs ! k)) [0..<length xs]"

definition reviewPRUpdate :: "string \<Rightarrow> RelationshipPRReview \<Rightarrow> Agent \<Rightarrow> time \<Rightarrow> go_error + Agent" where
  "reviewPRUpdate i r a n =
     (if \<not> safeID i \<or> \<not> safeID (pvReviewerID r) \<or> pvReason r = [] \<or> (pvDecision r \<noteq> ProposalAccepted \<and> pvDecision r \<noteq> ProposalRejected)
      then Inl (Errorf ''relationship PR review requires reviewer, accepted/rejected decision, and reason'') else
      case find_index (\<lambda>p. prID p = i) (agPRs a) of None \<Rightarrow> Inl (Errorf ''open relationship PR not found'') | Some k \<Rightarrow>
      let p = agPRs a ! k in
      if prState p \<noteq> ProposalOpen then Inl (Errorf ''open relationship PR not found'')
      else if prBase p \<noteq> agCurrentRelationship a then Inl (Wrap ''relationship baseline changed'' agErrConflict) else
      let p' = p\<lparr>prState := pvDecision r, prDecisionReason := pvReason r, prReviewedBy := pvReviewerID r, prReviewedAt := n\<rparr>;
          a1 = a\<lparr>agPRs := (agPRs a)[k := p']\<rparr> in
      Inr (if pvDecision r = ProposalAccepted
           then add_relationship (prMyRole p) (prTeammates p) (pvReviewerID r) (''accepted PR '' @ prID p @ '': '' @ pvReason r) n a1 else a1))"

definition ReviewRelationshipPR :: "env \<Rightarrow> string \<Rightarrow> string \<Rightarrow> RelationshipPRReview \<Rightarrow> agentDir \<Rightarrow> (go_error + Agent) \<times> agentDir" where
  "ReviewRelationshipPR e i pr0 r0 d =
     (let pr = TrimSpace pr0; r = r0\<lparr>pvOperationID := TrimSpace (pvOperationID r0), pvReviewerID := TrimSpace (pvReviewerID r0),
            pvReason := TrimSpace (pvReason r0)\<rparr> in
      mutateAgent e i (pvOperationID r) ''review_relationship_pr'' (pvExpectedRevision r) (Some (pr_review_json pr r)) (reviewPRUpdate pr r) d)"

end
