(* ===== verification/RegistryProps.thy ===== *)
theory RegistryProps
  imports Registry "HOL-Library.Sublist"
begin

text \<open>
  What the agent registry guarantees: an agent's history only grows, its current revision is what its log of selections
  yields, and a proposal whose base has been overtaken is never decided.
\<close>

section \<open>What one call does to the files\<close>

interpretation af: durable_file "agentFile i" for i
  by unfold_locales (simp add: agentFile_def)

lemma agentFile_fields [simp]: "fsPath (agentFile i) = agentPath i" "fsValid (agentFile i) = validateAgent"
  by (simp_all add: agentFile_def)

lemma agentPath_inj [simp]: "agentPath i = agentPath j \<longleftrightarrow> i = j"
  by (simp add: agentPath_def)

lemma readAgent_Inr: "readAgent i d = Inr a \<longleftrightarrow> safeID i \<and> readJSON d (agentPath i) = Inr a \<and> validateAgent a = None"
  by (auto simp: readAgent_def readFile_Inr)

lemma writeAgent_cases:
  assumes "writeAgent io a d = (r, d')"
  obtains "d' = d" and "r \<noteq> None" | "validateAgent a = None" and "d' = AList.update (agentPath (agID a)) (Record a) d"
  using assms unfolding writeAgent_def by (cases rule: af.write_cases) auto

text \<open>The record that \<open>mutate\<close> writes after a change.\<close>

definition stamped :: "string \<Rightarrow> string \<Rightarrow> string \<Rightarrow> time \<Rightarrow> Agent \<Rightarrow> Agent" where
  "stamped op action fp n a = a\<lparr>agRevision := agRevision a + 1, agUpdatedAt := n,
     agOperations := agOperations a @ [\<lparr>goID = op, goAction = action, goFingerprint = fp, goRevision = agRevision a + 1, goCreatedAt = n\<rparr>]\<rparr>"

lemma stamped_fields [simp]:
  "agID (stamped op action fp n a) = agID a" "agWorkspaceID (stamped op action fp n a) = agWorkspaceID a"
  "agCreatedAt (stamped op action fp n a) = agCreatedAt a" "agCurrentRevisionID (stamped op action fp n a) = agCurrentRevisionID a"
  "agCurrentRelationship (stamped op action fp n a) = agCurrentRelationship a" "agRevisions (stamped op action fp n a) = agRevisions a"
  "agRelationships (stamped op action fp n a) = agRelationships a" "agSessions (stamped op action fp n a) = agSessions a"
  "agPRs (stamped op action fp n a) = agPRs a" "agSelections (stamped op action fp n a) = agSelections a"
  by (simp_all add: stamped_def)

lemma mutate_cases:
  assumes "mutateAgent e i op action expected semantic change d = (r, d')"
  obtains (same) "d' = d"
  | (committed) a a1 a2 fp where "readAgent (TrimSpace i) d = Inr a" and "change a (now e) = Inr a1"
      and "a2 = stamped (TrimSpace op) action fp (now e) a1" and "validateAgent a2 = None" and "agRevision a = expected"
      and "d' = AList.update (agentPath (agID a2)) (Record a2) d"
proof (cases "d' = d")
  case False
  let ?fp = "agFingerprint action semantic"
  from assms False obtain a a1 where "readAgent (TrimSpace i) d = Inr a" "change a (now e) = Inr a1" "agRevision a = expected"
    and w: "snd (writeAgent (wio e) (stamped (TrimSpace op) action ?fp (now e) a1) d) = d'"
    by (auto simp: mutateAgent_def Let_def stamped_def split: option.splits if_splits sum.splits prod.splits)
  with False show thesis
    by (cases "writeAgent (wio e) (stamped (TrimSpace op) action ?fp (now e) a1) d" rule: prod.exhaust)
      (auto elim!: writeAgent_cases intro: committed [of a a1 _ ?fp])
qed (use same in simp)

lemma scan_errors:
  "scan_prs self seen ps = Some err \<Longrightarrow> \<exists>m. err = Errorf m"
  "scan_selections a seen ss = Some err \<Longrightarrow> \<exists>m. err = Errorf m"
  "scan_sessions n seen gs = Some err \<Longrightarrow> \<exists>m. err = Errorf m"
  by (induction ps arbitrary: seen, auto split: if_splits)
    (induction ss arbitrary: seen, auto split: if_splits, induction gs arbitrary: n seen, auto split: if_splits)

lemma validateAgent_error: "validateAgent a = Some err \<Longrightarrow> \<exists>m. err = Errorf m"
  unfolding validateAgent_def by (simp split: if_splits option.splits; (elim scan_errors)?; blast)

lemma create_cases:
  assumes "CreateAgent e c d = (r, d')"
  obtains (same) "d' = d"
  | (created) a fp where "a = newAgent (now e) fp (normalizeAgentCreate c)" and "validateAgent a = None"
      and "map_of d (agentPath (agID a)) = None" and "d' = AList.update (agentPath (agID a)) (Record a) d"
proof (cases "d' = d")
  case False
  let ?c = "normalizeAgentCreate c"
  let ?a = "newAgent (now e) (agFingerprint ''create'' (Some (agent_create_json ?c))) ?c"
  from assms False obtain err where err: "readAgent (gcID ?c) d = Inl err" "errors_Is err os_ErrNotExist" and v: "validateAgentCreate ?c = None"
    and w: "snd (writeAgent (wio e) ?a d) = d'"
    by (auto simp: CreateAgent_def Let_def split: option.splits if_splits sum.splits prod.splits)
  have id: "agID ?a = gcID ?c" by (simp add: newAgent_def Let_def)
  have "map_of d (agentPath (gcID ?c)) = None"
    using err v validateAgent_error
    by (force simp: readAgent_def readFile_def readJSON_def validateAgentCreate_def split: if_splits option.splits content.splits sum.splits)
  with False w id show thesis
    by (cases "writeAgent (wio e) ?a d" rule: prod.exhaust) (auto elim!: writeAgent_cases intro!: created [OF refl])
qed (use same in simp)

datatype agent_call =
    GCreate AgentCreate
  | GRevise string RelationshipUpdate
  | GRotate string SessionRotation
  | GPropose string AgentRevisionProposal
  | GSelect string SelectionInput
  | GPropose_relationship string RelationshipPRInput
  | GReview string string RelationshipPRReview

fun do_agent :: "agent_call \<Rightarrow> env \<Rightarrow> agentDir \<Rightarrow> agentDir" where
  "do_agent (GCreate c) e d = snd (CreateAgent e c d)"
| "do_agent (GRevise i r) e d = snd (ReviseRelationships e i r d)"
| "do_agent (GRotate i r) e d = snd (RotateSession e i r d)"
| "do_agent (GPropose i p) e d = snd (ProposeAgentRevision e i p d)"
| "do_agent (GSelect i s) e d = snd (SelectAgentRevision e i s d)"
| "do_agent (GPropose_relationship i p) e d = snd (CreateRelationshipPR e i p d)"
| "do_agent (GReview i k r) e d = snd (ReviewRelationshipPR e i k r d)"

fun run_agents :: "(agent_call \<times> env) list \<Rightarrow> agentDir \<Rightarrow> agentDir" where
  "run_agents [] d = d"
| "run_agents ((c, e) # cs) d = run_agents cs (do_agent c e d)"

text \<open>The changes an update function may make.\<close>

definition agent_update :: "(Agent \<Rightarrow> time \<Rightarrow> go_error + Agent) \<Rightarrow> bool" where
  "agent_update u \<longleftrightarrow> (\<exists>r. u = reviseUpdate r) \<or> (\<exists>r. u = rotateUpdate r) \<or> (\<exists>p. u = proposeUpdate p) \<or> (\<exists>s. u = selectUpdate s) \<or>
     (\<exists>p. u = createPRUpdate p) \<or> (\<exists>i r. u = reviewPRUpdate i r)"

lemma agent_updates:
  "agent_update (reviseUpdate r)" "agent_update (rotateUpdate t)" "agent_update (proposeUpdate p)" "agent_update (selectUpdate s)"
  "agent_update (createPRUpdate q)" "agent_update (reviewPRUpdate k v)"
  by (auto simp: agent_update_def)

lemma do_agent_mutate:
  assumes "\<And>x. c \<noteq> GCreate x"
  shows "\<exists>u i op action expected semantic. agent_update u \<and> do_agent c e d = snd (mutateAgent e i op action expected semantic u d)"
proof (cases c)
  case (GCreate x)
  with assms show ?thesis by blast
qed (simp only: do_agent.simps ReviseRelationships_def RotateSession_def ProposeAgentRevision_def SelectAgentRevision_def
    CreateRelationshipPR_def ReviewRelationshipPR_def Let_def; blast intro: agent_updates)+

lemma do_agent_cases:
  obtains (same) "do_agent c e d = d"
  | (created) n fp x where "validateAgent (newAgent n fp x) = None" and "map_of d (agentPath (agID (newAgent n fp x))) = None"
      and "do_agent c e d = AList.update (agentPath (agID (newAgent n fp x))) (Record (newAgent n fp x)) d"
  | (updated) u i a n a1 op action fp where "agent_update u" and "readAgent i d = Inr a" and "u a n = Inr a1"
      and "validateAgent (stamped op action fp n a1) = None"
      and "do_agent c e d = AList.update (agentPath (agID a1)) (Record (stamped op action fp n a1)) d"
proof (cases "\<exists>x. c = GCreate x")
  case True
  then obtain x where "c = GCreate x" by blast
  then show thesis using create_cases [OF surjective_pairing, of e x d] same created by (metis do_agent.simps(1))
next
  case False
  with do_agent_mutate obtain u i op action expected semantic where u: "agent_update u"
    and m: "do_agent c e d = snd (mutateAgent e i op action expected semantic u d)" by metis
  show thesis
  proof (cases rule: mutate_cases [OF surjective_pairing, of e i op action expected semantic u d])
    case 1
    with m same show thesis by simp
  next
    case (2 a a1 a2 fp)
    show thesis by (rule updated [OF u 2(1,2)]) (use 2(3,4,6) m in simp_all)
  qed
qed

definition agent_files :: "(Agent \<Rightarrow> bool) \<Rightarrow> agentDir \<Rightarrow> bool" where
  "agent_files I d \<longleftrightarrow> (\<forall>i a. readJSON d (agentPath i) = Inr a \<longrightarrow> agID a = i \<and> I a)"

lemma agent_update_id: "agent_update u \<Longrightarrow> u a n = Inr a1 \<Longrightarrow> agID a1 = agID a"
  by (auto simp: agent_update_def reviseUpdate_def rotateUpdate_def proposeUpdate_def selectUpdate_def createPRUpdate_def reviewPRUpdate_def
      add_relationship_def Let_def split: if_splits option.splits)

lemma do_agent_keeps:
  assumes "\<And>n fp x. I (newAgent n fp x)" and "\<And>a. le a a"
    and upd: "\<And>u a n a1 op action fp. agent_update u \<Longrightarrow> u a n = Inr a1 \<Longrightarrow> validateAgent a = None \<Longrightarrow> I a \<Longrightarrow>
      I (stamped op action fp n a1) \<and> le a (stamped op action fp n a1)"
    and files: "agent_files I d"
  shows "agent_files I (do_agent c e d) \<and> (\<forall>i a. readAgent i d = Inr a \<longrightarrow> (\<exists>b. readAgent i (do_agent c e d) = Inr b \<and> le a b))"
proof (cases rule: do_agent_cases [of c e d])
  case same
  with assms(2) files show ?thesis by auto
next
  case (created n fp x)
  then have "readAgent i (do_agent c e d) = Inr a" if "readAgent i d = Inr a" for i a
    using that by (auto simp: readAgent_Inr readJSON_update) (auto simp: readJSON_def)
  with created assms(1,2) files show ?thesis by (auto simp: agent_files_def readJSON_update)
next
  case (updated u i a n a1 op action fp)
  then have a: "readJSON d (agentPath i) = Inr a" "validateAgent a = None" "safeID i" by (simp_all add: readAgent_Inr)
  with files have i: "agID a = i" "I a" by (auto simp: agent_files_def)
  note id = agent_update_id [OF updated(1,3)]
  from upd [OF updated(1,3) a(2) i(2)] have new: "I (stamped op action fp n a1)" "le a (stamped op action fp n a1)" by auto
  have "\<exists>b. readAgent j (do_agent c e d) = Inr b \<and> le a' b" if "readAgent j d = Inr a'" for j a'
    using that updated(2,4,5) new(2) assms(2) a(3) id i(1) by (cases "j = i") (auto simp: readAgent_Inr readJSON_update)
  with updated(5) new(1) files id i(1) show ?thesis by (auto simp: agent_files_def readJSON_update)
qed

lemma run_agents_keeps:
  assumes "\<And>n fp x. I (newAgent n fp x)" and refl: "\<And>a. le a a" and trans: "\<And>a b c. le a b \<Longrightarrow> le b c \<Longrightarrow> le a c"
    and upd: "\<And>u a n a1 op action fp. agent_update u \<Longrightarrow> u a n = Inr a1 \<Longrightarrow> validateAgent a = None \<Longrightarrow> I a \<Longrightarrow>
      I (stamped op action fp n a1) \<and> le a (stamped op action fp n a1)"
    and "agent_files I d"
  shows "agent_files I (run_agents cs d) \<and> (\<forall>i a. readAgent i d = Inr a \<longrightarrow> (\<exists>b. readAgent i (run_agents cs d) = Inr b \<and> le a b))"
  using assms(5)
proof (induction cs d rule: run_agents.induct)
  case (2 c e cs d)
  have "agent_files I (do_agent c e d) \<and> (\<forall>i a. readAgent i d = Inr a \<longrightarrow> (\<exists>b. readAgent i (do_agent c e d) = Inr b \<and> le a b))"
    by (rule do_agent_keeps) (fact assms(1) refl 2(2) | rule upd, assumption+)+
  then have s: "agent_files I (do_agent c e d)" "\<And>i a. readAgent i d = Inr a \<Longrightarrow> \<exists>b. readAgent i (do_agent c e d) = Inr b \<and> le a b"
    by blast+
  from 2(1) [OF s(1)] s(2) trans show ?case by (auto, meson)
qed (use refl in auto)

section \<open>History\<close>

definition same_session :: "SessionGeneration \<Rightarrow> SessionGeneration \<Rightarrow> bool" where
  "same_session g h \<longleftrightarrow> sgGeneration h = sgGeneration g \<and> sgSessionID h = sgSessionID g \<and> sgCreatedAt h = sgCreatedAt g \<and>
     (sgState g \<noteq> SessionActive \<longrightarrow> h = g)"

definition same_pr :: "RelationshipPR \<Rightarrow> RelationshipPR \<Rightarrow> bool" where
  "same_pr p q \<longleftrightarrow> prID q = prID p \<and> prBase q = prBase p \<and> prMyRole q = prMyRole p \<and> prTeammates q = prTeammates p \<and> prProblem q = prProblem p \<and>
     prTeamCheck q = prTeamCheck p \<and> prCreatedBy q = prCreatedBy p \<and> (prState p \<noteq> ProposalOpen \<longrightarrow> q = p)"

definition extends :: "('a \<Rightarrow> 'a \<Rightarrow> bool) \<Rightarrow> 'a list \<Rightarrow> 'a list \<Rightarrow> bool" where
  "extends P xs ys \<longleftrightarrow> length xs \<le> length ys \<and> (\<forall>k<length xs. P (xs ! k) (ys ! k))"

lemma extends_refl: "(\<And>x. P x x) \<Longrightarrow> extends P xs xs"
  by (simp add: extends_def)

lemma extends_trans: "(\<And>x y z. P x y \<Longrightarrow> P y z \<Longrightarrow> P x z) \<Longrightarrow> extends P xs ys \<Longrightarrow> extends P ys zs \<Longrightarrow> extends P xs zs"
  unfolding extends_def by (meson less_le_trans order_trans)

lemma extends_append: "(\<And>x. P x x) \<Longrightarrow> extends P xs (xs @ ys)"
  by (auto simp: extends_def nth_append)

lemma extends_update: "(\<And>x. P x x) \<Longrightarrow> (k < length xs \<Longrightarrow> P (xs ! k) y) \<Longrightarrow> extends P xs (xs[k := y])"
  by (auto simp: extends_def) (metis nth_list_update_eq nth_list_update_neq)

definition agent_le :: "Agent \<Rightarrow> Agent \<Rightarrow> bool" where
  "agent_le a b \<longleftrightarrow> agID b = agID a \<and> agWorkspaceID b = agWorkspaceID a \<and> agCreatedAt b = agCreatedAt a \<and>
     prefix (agRevisions a) (agRevisions b) \<and> prefix (agRelationships a) (agRelationships b) \<and> prefix (agSelections a) (agSelections b) \<and>
     prefix (agOperations a) (agOperations b) \<and> extends same_session (agSessions a) (agSessions b) \<and> extends same_pr (agPRs a) (agPRs b)"

lemma same_refl: "same_session g g" "same_pr p p"
  by (simp_all add: same_session_def same_pr_def)

lemma same_trans: "same_session g h \<Longrightarrow> same_session h k \<Longrightarrow> same_session g k" "same_pr p q \<Longrightarrow> same_pr q r \<Longrightarrow> same_pr p r"
  by (auto simp: same_session_def same_pr_def)

lemma session_trans: "extends same_session xs ys \<Longrightarrow> extends same_session ys zs \<Longrightarrow> extends same_session xs zs"
  by (erule (1) extends_trans [rotated]) (erule (1) same_trans(1))

lemma pr_trans: "extends same_pr xs ys \<Longrightarrow> extends same_pr ys zs \<Longrightarrow> extends same_pr xs zs"
  by (erule (1) extends_trans [rotated]) (erule (1) same_trans(2))

lemma agent_le_refl: "agent_le a a"
  by (simp add: agent_le_def extends_refl same_refl)

lemma agent_le_trans:
  assumes "agent_le a b" and "agent_le b c"
  shows "agent_le a c"
proof -
  note ab = assms(1) [unfolded agent_le_def] and bc = assms(2) [unfolded agent_le_def]
  have "prefix (agRevisions a) (agRevisions c)" "prefix (agRelationships a) (agRelationships c)"
    "prefix (agSelections a) (agSelections c)" "prefix (agOperations a) (agOperations c)"
    using ab bc by (blast intro: prefix_order.trans)+
  moreover have "extends same_session (agSessions a) (agSessions c)" using ab bc session_trans by blast
  moreover have "extends same_pr (agPRs a) (agPRs c)" using ab bc pr_trans by blast
  moreover have "agID c = agID a" "agWorkspaceID c = agWorkspaceID a" "agCreatedAt c = agCreatedAt a"
    using ab bc by (blast intro: trans)+
  ultimately show ?thesis unfolding agent_le_def by blast
qed

lemma find_index_Some: "find_index P xs = Some k \<Longrightarrow> k < length xs \<and> P (xs ! k)"
  unfolding find_index_def find_Some_iff by auto

lemma rotate_sessions:
  assumes "rotateUpdate r a n = Inr a1"
  shows "extends same_session (agSessions a) (agSessions a1)"
proof -
  from assms obtain gs g where gs: "agSessions a = gs @ [g]" by (cases "agSessions a" rule: rev_cases) (auto simp: rotateUpdate_def split: if_splits option.splits)
  with assms show ?thesis
    by (auto simp: rotateUpdate_def Let_def extends_def nth_append same_session_def less_Suc_eq split: if_splits option.splits)
qed

lemma update_le:
  assumes "agent_update u" and "u a n = Inr a1"
  shows "agent_le a (stamped op action fp n a1)"
proof -
  have "prefix (agOperations a1) (agOperations (stamped op action fp n a1))" by (simp add: stamped_def)
  moreover have "agent_le a a1"
    using assms unfolding agent_update_def
  proof (elim disjE exE)
    fix r assume u: "u = rotateUpdate r"
    from rotate_sessions [of r a n a1] assms(2) u show ?thesis
      by (auto simp: agent_le_def rotateUpdate_def Let_def extends_refl same_refl split: if_splits option.splits)
  next
    fix i r assume u: "u = reviewPRUpdate i r"
    with assms(2) show ?thesis
      by (auto simp: agent_le_def reviewPRUpdate_def add_relationship_def Let_def extends_refl same_refl same_pr_def
          intro!: extends_update split: if_splits option.splits)
  qed (use assms(2) in \<open>auto simp: agent_le_def reviseUpdate_def proposeUpdate_def selectUpdate_def createPRUpdate_def add_relationship_def Let_def
        extends_refl extends_append same_refl split: if_splits option.splits\<close>)
  ultimately show ?thesis by (auto simp: agent_le_def)
qed

text \<open>After any calls, successful or not, with any write failures, an agent keeps its identity; its revisions, relationship
  revisions, selections and operations have only been appended to, an ended session and its handoff and a decided proposal
  are unchanged, and the others kept all but their state.\<close>

theorem agent_history_append_only:
  assumes "agent_files (\<lambda>a. True) d" and "readAgent i d = Inr a"
  shows "\<exists>b. readAgent i (run_agents cs d) = Inr b \<and> agent_le a b"
  using run_agents_keeps [of "\<lambda>a. True" agent_le d cs] agent_le_refl agent_le_trans update_le assms by blast

section \<open>The current revision\<close>

text \<open>The revision that the log of selections makes current, starting from \<open>cur\<close>.\<close>

fun replay_selections :: "string \<Rightarrow> AgentSelection list \<Rightarrow> string" where
  "replay_selections cur [] = cur"
| "replay_selections cur (s # ss) = replay_selections (if slDecision s = SelectionAccept then slCandidateRevisionID s else cur) ss"

text \<open>Every selection compared what was current with another revision, and accepted only one that is compatible and not worse.\<close>

fun fair_selections :: "string \<Rightarrow> AgentSelection list \<Rightarrow> bool" where
  "fair_selections cur [] = True"
| "fair_selections cur (s # ss) =
     (slBaselineRevisionID s = cur \<and> slCandidateRevisionID s \<noteq> cur \<and> slEvidence s \<noteq> [] \<and>
      (slDecision s = SelectionAccept \<longrightarrow> slTeamCompatible s \<and> \<not> float_less (slCandidateScore s) (slBaselineScore s)) \<and>
      fair_selections (if slDecision s = SelectionAccept then slCandidateRevisionID s else cur) ss)"

lemma replay_snoc: "replay_selections cur (ss @ [s]) =
    (if slDecision s = SelectionAccept then slCandidateRevisionID s else replay_selections cur ss)"
  by (induction ss arbitrary: cur) simp_all

lemma fair_snoc: "fair_selections cur (ss @ [s]) \<longleftrightarrow> fair_selections cur ss \<and> fair_selections (replay_selections cur ss) [s]"
  by (induction ss arbitrary: cur) simp_all

definition current_inv :: "Agent \<Rightarrow> bool" where
  "current_inv a \<longleftrightarrow> agCurrentRevisionID a = replay_selections (revisionID ''agent'' 1) (agSelections a) \<and>
     fair_selections (revisionID ''agent'' 1) (agSelections a)"

lemma findAgentRevision_id: "findAgentRevision a i = Some r \<Longrightarrow> avID r = i"
  by (auto simp: findAgentRevision_def find_Some_iff)

lemma select_current:
  assumes "selectUpdate s a n = Inr a1" and "current_inv a"
  shows "current_inv a1"
proof -
  from assms(1) obtain x y where "findAgentRevision a (snBaselineRevisionID s) = Some x" "findAgentRevision a (snCandidateRevisionID s) = Some y"
    by (auto simp: selectUpdate_def split: if_splits option.splits)
  with findAgentRevision_id have xy: "avID x = snBaselineRevisionID s" "avID y = snCandidateRevisionID s" "findAgentRevision a (snBaselineRevisionID s) = Some x"
    "findAgentRevision a (snCandidateRevisionID s) = Some y" by blast+
  with assms show ?thesis
    by (auto simp: selectUpdate_def current_inv_def replay_snoc fair_snoc Let_def split: if_splits)
qed

lemma current_step:
  assumes "agent_update u" and "u a n = Inr a1" and "current_inv a"
  shows "current_inv (stamped op action fp n a1)"
proof -
  have "current_inv a1"
    using assms select_current unfolding agent_update_def
    by (elim disjE exE; force simp: current_inv_def reviseUpdate_def rotateUpdate_def proposeUpdate_def createPRUpdate_def reviewPRUpdate_def
        add_relationship_def Let_def split: if_splits option.splits)
  then show ?thesis by (simp add: current_inv_def)
qed

text \<open>C29. An agent's current revision is the one that replaying its log of selections from its first revision yields, and every entry of the log
  compared the revision that was current then; none is current merely because it was proposed.\<close>

theorem current_revision_replays:
  assumes "agent_files current_inv d" and "readAgent i (run_agents cs d) = Inr a"
  shows "agCurrentRevisionID a = replay_selections (revisionID ''agent'' 1) (agSelections a) \<and>
    fair_selections (revisionID ''agent'' 1) (agSelections a)"
proof -
  have "current_inv (newAgent n fp x)" for n fp x by (simp add: current_inv_def newAgent_def Let_def)
  then have "agent_files current_inv (run_agents cs d)"
    using run_agents_keeps [of current_inv "\<lambda>a b. True" d cs] current_step assms(1) by blast
  with assms(2) show ?thesis by (auto simp: agent_files_def readAgent_Inr current_inv_def)
qed

section \<open>Proposals on an old base\<close>

lemma revisionID_inj: "0 \<le> v \<Longrightarrow> 0 \<le> w \<Longrightarrow> revisionID k v = revisionID k w \<longleftrightarrow> v = w"
  by (auto simp: revisionID_def dec_int_inj)

lemma relationships_nth:
  "relationships_ok self n rs \<Longrightarrow> k < length rs \<Longrightarrow> lvID (rs ! k) = revisionID ''relationship'' (int (n + k) + 1)"
proof (induction rs arbitrary: n k)
  case (Cons r rs)
  then show ?case by (cases k) (auto split: if_splits)
qed simp

definition overtaken :: "Agent \<Rightarrow> RelationshipPR \<Rightarrow> bool" where
  "overtaken a p \<longleftrightarrow> (\<exists>k. Suc k < length (agRelationships a) \<and> prBase p = lvID (agRelationships a ! k))"

lemma overtaken_base:
  assumes "validateAgent a = None" and "overtaken a p"
  shows "prBase p \<noteq> agCurrentRelationship a"
proof -
  have v: "relationships_ok (agID a) 0 (agRelationships a)" "agCurrentRelationship a = lvID (last (agRelationships a))" "agRelationships a \<noteq> []"
    using assms(1) by (auto simp: validateAgent_def split: if_splits option.splits)
  obtain k where k: "Suc k < length (agRelationships a)" "prBase p = lvID (agRelationships a ! k)" using assms(2) by (auto simp: overtaken_def)
  then show ?thesis
    using v relationships_nth [OF v(1), of k] relationships_nth [OF v(1), of "length (agRelationships a) - 1"]
    by (simp add: last_conv_nth revisionID_inj)
qed

definition stuck :: "string \<Rightarrow> Agent \<Rightarrow> bool" where
  "stuck i a \<longleftrightarrow> (\<exists>k p. find_index (\<lambda>p. prID p = i) (agPRs a) = Some k \<and> agPRs a ! k = p \<and> prState p = ProposalOpen \<and> overtaken a p)"

lemma find_index_iff: "find_index P xs = Some k \<longleftrightarrow> k < length xs \<and> P (xs ! k) \<and> (\<forall>j<k. \<not> P (xs ! j))"
  unfolding find_index_def find_Some_iff by (auto intro!: exI [of _ k])

lemma find_index_append: "find_index P xs = Some k \<Longrightarrow> find_index P (xs @ ys) = Some k"
  by (auto simp: find_index_iff nth_append)

lemma find_index_update:
  "find_index P xs = Some k \<Longrightarrow> P (xs ! j) = P y \<Longrightarrow> j < length xs \<Longrightarrow> find_index P (xs[j := y]) = Some k"
  by (auto simp: find_index_iff nth_list_update)

lemma overtaken_later: "overtaken a p \<Longrightarrow> agRelationships b = agRelationships a @ rs \<Longrightarrow> overtaken b p"
  unfolding overtaken_def by (metis (no_types, lifting) Suc_lessD length_append nth_append trans_less_add1)

lemma review_not_stuck:
  assumes "reviewPRUpdate j r a n = Inr a1" and "stuck i a" and "validateAgent a = None"
  shows "stuck i a1"
proof -
  obtain k p where k: "find_index (\<lambda>p. prID p = i) (agPRs a) = Some k" "agPRs a ! k = p" "prState p = ProposalOpen" "overtaken a p"
    using assms(2) by (auto simp: stuck_def)
  from assms(1) obtain m where m: "find_index (\<lambda>p. prID p = j) (agPRs a) = Some m" "prBase (agPRs a ! m) = agCurrentRelationship a"
    by (auto simp: reviewPRUpdate_def Let_def split: if_splits option.splits)
  note km = find_index_Some [OF k(1)] find_index_Some [OF m(1)]
  have "k \<noteq> m" using overtaken_base [OF assms(3) k(4)] k(2) m(2) by auto
  moreover have "agPRs a1 = (agPRs a)[m := (agPRs a ! m)\<lparr>prState := pvDecision r, prDecisionReason := pvReason r,
      prReviewedBy := pvReviewerID r, prReviewedAt := n\<rparr>]" "\<exists>rs. agRelationships a1 = agRelationships a @ rs"
    using assms(1) m(1) by (auto simp: reviewPRUpdate_def add_relationship_def Let_def split: if_splits)
  moreover have "prID ((agPRs a ! m)\<lparr>prState := pvDecision r, prDecisionReason := pvReason r, prReviewedBy := pvReviewerID r, prReviewedAt := n\<rparr>) = j"
    using km(2) by simp
  ultimately obtain q rs where "prID q = j" "agPRs a1 = (agPRs a)[m := q]" "agRelationships a1 = agRelationships a @ rs" "k \<noteq> m" by blast
  with k km find_index_update [OF k(1), of m q] overtaken_later [OF k(4)] show ?thesis by (auto simp: stuck_def)
qed

lemma stuck_step:
  assumes "agent_update u" and "u a n = Inr a1" and "validateAgent a = None" and "stuck i a"
  shows "stuck i (stamped op action fp n a1)"
proof -
  have grow: "stuck i b" if "\<exists>ps. agPRs b = agPRs a @ ps" "\<exists>rs. agRelationships b = agRelationships a @ rs" for b
  proof -
    from assms(4) obtain k p where k: "find_index (\<lambda>p. prID p = i) (agPRs a) = Some k" "agPRs a ! k = p" "prState p = ProposalOpen" "overtaken a p"
      by (auto simp: stuck_def)
    with that find_index_Some [OF k(1)] overtaken_later [OF k(4)] show ?thesis
      by (auto simp: stuck_def find_index_append nth_append)
  qed
  have "stuck i a1"
    using assms(1) unfolding agent_update_def
  proof (elim disjE exE)
    fix j r assume "u = reviewPRUpdate j r"
    with assms(2-4) review_not_stuck show ?thesis by blast
  qed (use assms(2) in \<open>auto intro!: grow simp: reviseUpdate_def rotateUpdate_def proposeUpdate_def selectUpdate_def createPRUpdate_def add_relationship_def
      Let_def split: if_splits option.splits\<close>)
  then show ?thesis by (simp add: stuck_def overtaken_def)
qed

text \<open>A proposal whose base revision has been overtaken is never decided: whatever calls follow, it stays open, since a review refuses
  to reject it just as it refuses to accept it.\<close>

theorem overtaken_proposal_stays_open:
  assumes "agent_files (\<lambda>a. True) d" and "readAgent i d = Inr a" and "stuck k a"
  shows "\<exists>b. readAgent i (run_agents cs d) = Inr b \<and> stuck k b"
  using run_agents_keeps [of "\<lambda>a. True" "\<lambda>a b. stuck k a \<longrightarrow> stuck k b" d cs] stuck_step assms by blast

section \<open>A concrete agent\<close>

text \<open>Agent \<open>a1\<close> has two agent and two relationship revisions, and a proposal on the first relationship.\<close>

definition demo_fp :: string where
  "demo_fp = replicate 64 CHR ''0''"

definition demo_agent_revision :: "int \<Rightarrow> AgentRevision" where
  "demo_agent_revision v = \<lparr>avID = revisionID ''agent'' v, avVersion = v, avPromptRef = ''x'', avSkills = [], avTools = [], avPermissions = [],
     avModel = ''x'', avCreatedBy = ''boss'', avReason = ''x'', avCreatedAt = 1\<rparr>"

definition demo_relationship :: "int \<Rightarrow> RelationshipRevision" where
  "demo_relationship v = \<lparr>lvID = revisionID ''relationship'' v, lvVersion = v, lvMyRole = ''x'', lvTeammates = [], lvCreatedBy = ''boss'',
     lvReason = ''x'', lvCreatedAt = 1\<rparr>"

definition demo_selection :: AgentSelection where
  "demo_selection = \<lparr>slID = ''s1'', slBaselineRevisionID = revisionID ''agent'' 1, slCandidateRevisionID = revisionID ''agent'' 2, slSuiteID = ''x'',
     slModel = ''x'', slTokenBudget = 1, slBaselineScore = Fin False 1 0, slCandidateScore = Fin False 1 1, slTeamCompatible = True,
     slEvidence = [''x''], slDecision = SelectionAccept, slReason = ''x'', slSelectedBy = ''boss'', slCreatedAt = 1\<rparr>"

definition demo_pr :: RelationshipPR where
  "demo_pr = \<lparr>prID = ''p1'', prBase = revisionID ''relationship'' 1, prMyRole = ''x'', prTeammates = [], prProblem = ''x'', prTeamCheck = [''x''],
     prState = ProposalOpen, prDecisionReason = [], prCreatedBy = ''boss'', prReviewedBy = [], prCreatedAt = 1, prReviewedAt = 0\<rparr>"

definition demo_agent :: Agent where
  "demo_agent = \<lparr>agSchemaVersion = 1, agID = ''a1'', agWorkspaceID = ''w'', agName = ''x'', agRevision = 1,
     agCurrentRevisionID = revisionID ''agent'' 2, agCurrentRelationship = revisionID ''relationship'' 2, agCurrentGeneration = 1,
     agRevisions = [demo_agent_revision 1, demo_agent_revision 2], agRelationships = [demo_relationship 1, demo_relationship 2],
     agSessions = [\<lparr>sgGeneration = 1, sgSessionID = ''s1'', sgState = SessionActive, sgCreatedAt = 1, sgRetiredAt = 0, sgHandoff = None\<rparr>],
     agPRs = [demo_pr], agSelections = [demo_selection],
     agOperations = [\<lparr>goID = ''op1'', goAction = ''create'', goFingerprint = demo_fp, goRevision = 1, goCreatedAt = 1\<rparr>],
     agCreatedAt = 1, agUpdatedAt = 1\<rparr>"

definition demo_agent_dir :: agentDir where
  "demo_agent_dir = [(''a1.agent.json'', Record demo_agent)]"

lemma revisionID_neq [simp]: "revisionID k 1 \<noteq> revisionID k 2" "revisionID k 2 \<noteq> revisionID k 1"
  by (simp_all add: revisionID_inj)

lemma demo_fp_ok: "safeDigest demo_fp"
  by (simp add: demo_fp_def safeDigest_def list_all_iff char_eval)

lemma demo_agent_parts:
  "revisions_ok 0 [demo_agent_revision 1, demo_agent_revision 2]" "relationships_ok ''a1'' 0 [demo_relationship 1, demo_relationship 2]"
  "scan_prs ''a1'' [] [demo_pr] = None" "ledger_ok gop_ok goID goRevision (agOperations demo_agent)"
  "findAgentRevision demo_agent (revisionID ''agent'' 1) = Some (demo_agent_revision 1)"
  "findAgentRevision demo_agent (revisionID ''agent'' 2) = Some (demo_agent_revision 2)"
  by (simp_all add: demo_agent_revision_def demo_relationship_def demo_pr_def char_eval validateTeammates_def revisionID_def ledger_ok_iff gop_ok_def
      demo_agent_def demo_fp_ok findAgentRevision_def dec_int_inj)

lemma demo_agent_fields:
  "agSchemaVersion demo_agent = 1" "agID demo_agent = ''a1''" "agWorkspaceID demo_agent = ''w''" "agName demo_agent = ''x''" "agRevision demo_agent = 1"
  "agCurrentRevisionID demo_agent = revisionID ''agent'' 2" "agCurrentRelationship demo_agent = revisionID ''relationship'' 2"
  "agCurrentGeneration demo_agent = 1" "agRevisions demo_agent = [demo_agent_revision 1, demo_agent_revision 2]"
  "agRelationships demo_agent = [demo_relationship 1, demo_relationship 2]" "agPRs demo_agent = [demo_pr]" "agSelections demo_agent = [demo_selection]"
  "agSessions demo_agent = [\<lparr>sgGeneration = 1, sgSessionID = ''s1'', sgState = SessionActive, sgCreatedAt = 1, sgRetiredAt = 0, sgHandoff = None\<rparr>]"
  "agOperations demo_agent = [\<lparr>goID = ''op1'', goAction = ''create'', goFingerprint = demo_fp, goRevision = 1, goCreatedAt = 1\<rparr>]"
  "agCreatedAt demo_agent = 1" "agUpdatedAt demo_agent = 1"
  by (simp_all add: demo_agent_def)

lemma demo_agent_valid: "validateAgent demo_agent = None"
proof -
  have "scan_selections demo_agent [] [demo_selection] = None"
    by (simp add: demo_selection_def demo_agent_parts char_eval)
  moreover have "scan_sessions 0 [] (agSessions demo_agent) = None" "active_sessions demo_agent = 1"
    by (simp_all add: demo_agent_def active_sessions_def char_eval)
  moreover have "lvID (demo_relationship 2) = revisionID ''relationship'' 2" by (simp add: demo_relationship_def)
  ultimately show ?thesis
    using demo_agent_parts unfolding validateAgent_def demo_agent_fields
    by (simp del: revisions_ok.simps relationships_ok.simps scan_prs.simps scan_selections.simps scan_sessions.simps add: agSchema_def)
      (simp add: char_eval)
qed

lemma demo_agent_read: "readAgent ''a1'' demo_agent_dir = Inr demo_agent"
  by (simp add: readAgent_Inr demo_agent_valid) (simp add: demo_agent_dir_def agentPath_def readJSON_def char_eval)

lemma demo_agent_files: "I demo_agent \<Longrightarrow> agent_files I demo_agent_dir"
  by (auto simp: agent_files_def demo_agent_dir_def readJSON_def agentPath_def demo_agent_def)

definition demo_review :: "agent_call \<times> env" where
  "demo_review = (GReview ''a1'' ''p1'' \<lparr>pvOperationID = ''op2'', pvExpectedRevision = 1, pvReviewerID = ''boss'', pvDecision = ProposalRejected,
     pvReason = ''x''\<rparr>, demo_env)"

theorem agent_history_append_only_witness:
  "\<exists>b. readAgent ''a1'' (run_agents [demo_review] demo_agent_dir) = Inr b \<and> agent_le demo_agent b"
  by (rule agent_history_append_only [OF demo_agent_files demo_agent_read]) simp

theorem current_revision_replays_witness:
  "revisionID ''agent'' 2 = replay_selections (revisionID ''agent'' 1) [demo_selection] \<and> fair_selections (revisionID ''agent'' 1) [demo_selection]"
proof -
  have "current_inv demo_agent"
    by (simp add: current_inv_def demo_agent_def demo_selection_def fin_value_def)
  from current_revision_replays [OF demo_agent_files [where I = current_inv, OF this], of "''a1''" "[]" demo_agent] demo_agent_read
  show ?thesis by (simp add: demo_agent_def)
qed

theorem overtaken_proposal_stays_open_witness:
  "\<exists>b. readAgent ''a1'' (run_agents [demo_review] demo_agent_dir) = Inr b \<and> stuck ''p1'' b"
proof (rule overtaken_proposal_stays_open [OF demo_agent_files demo_agent_read])
  show "stuck ''p1'' demo_agent"
    by (auto simp: stuck_def find_index_def overtaken_def demo_agent_def demo_pr_def demo_relationship_def intro!: exI [of _ 0])
qed simp

end
