(* ===== verification/Messages.thy ===== *)
theory Messages
  imports GoFloat GoTime
begin

text \<open>
  The data that a run exchanges and stores (internal/schema/message.go and the types of internal/engine/engine.go): messages, tool calls and
  results, trace events, checkpoints, acknowledgements and results, with what a round through a JSON file makes of each of them.
  The arguments of a tool call are raw JSON; two raw texts that differ in white space or in the escaping of strings are the
  same value here, as a file written with indentation gives back other white space. Raw bytes that are not JSON make the encoder fail.
  A number in the metadata of an event, of whatever Go type, is read back as a float64. A nil slice or map is an empty one.
\<close>

section \<open>Numbers read back from a file\<close>

fun bit_length :: "nat \<Rightarrow> nat" where
  "bit_length n = (if n = 0 then 0 else Suc (bit_length (n div 2)))"

declare bit_length.simps [simp del]

text \<open>The float64 nearest to \<open>num / den\<close>, ties to the even significand, as \<open>strconv.ParseFloat\<close> finds it.\<close>

definition round_float :: "bool \<Rightarrow> nat \<Rightarrow> nat \<Rightarrow> float64" where
  "round_float neg num den =
     (if num = 0 then Fin neg 0 (- 1074) else
      let e1 = int (bit_length num) - int (bit_length den) - 53;
          e = max (- 1074) (if 2 ^ 53 * den * 2 ^ nat e1 \<le> num * 2 ^ nat (- e1) then e1 + 1 else e1);
          m = round_even (num * 2 ^ nat (- e)) (den * 2 ^ nat e) in
      case (if m = 2 ^ 53 then (2 ^ 52, e + 1) else (m, e)) of (m', e') \<Rightarrow> if e' > 971 then Inf neg else Fin neg m' e')"

definition float_of_int :: "int \<Rightarrow> float64" where
  "float_of_int i = round_float (i < 0) (nat \<bar>i\<bar>) 1"

text \<open>\<open>int64(x)\<close> cuts the fraction off. What it gives for a number out of range is up to the machine; on amd64 it is the least integer.\<close>

definition int64_of_float :: "float64 \<Rightarrow> int" where
  "int64_of_float x = (case x of
     Fin neg m e \<Rightarrow>
       (let v = int (if 0 \<le> e then m * 2 ^ nat e else m div 2 ^ nat (- e)); w = (if neg then - v else v) in
        if - (2 ^ 63) \<le> w \<and> w < 2 ^ 63 then w else - (2 ^ 63))
   | _ \<Rightarrow> - (2 ^ 63))"

text \<open>The comparison \<open>==\<close> of two float64 values: zero and its negative are equal, a NaN equals nothing.\<close>

definition float_eq :: "float64 \<Rightarrow> float64 \<Rightarrow> bool" where
  "float_eq x y = (case (x, y) of
     (Fin s m e, Fin s' m' e') \<Rightarrow> (let k = min e e' in fin_value s m e k = fin_value s' m' e' k)
   | (Inf s, Inf s') \<Rightarrow> s = s'
   | _ \<Rightarrow> False)"

lemma bit_length_0 [simp]: "bit_length 0 = 0"
  by (subst bit_length.simps) simp

lemma bit_length_pos: "0 < n \<Longrightarrow> bit_length n = Suc (bit_length (n div 2))"
  by (subst bit_length.simps) simp

lemma bit_length_less: "n < 2 ^ bit_length n"
proof (induction n rule: less_induct)
  case (less n)
  show ?case
  proof (cases "n = 0")
    case False
    then have "n div 2 < 2 ^ bit_length (n div 2)" using less.IH [of "n div 2"] by simp
    with False show ?thesis by (simp add: bit_length_pos)
  qed simp
qed

lemma bit_length_le: "n < 2 ^ k \<Longrightarrow> bit_length n \<le> k"
proof (induction k arbitrary: n)
  case (Suc k)
  then have "n div 2 < 2 ^ k" by simp
  then have "bit_length (n div 2) \<le> k" by (rule Suc.IH)
  then show ?case by (cases "n = 0") (simp_all add: bit_length_pos)
qed simp

lemma bit_length_ge: "0 < n \<Longrightarrow> 2 ^ bit_length n \<le> 2 * n"
proof (induction n rule: less_induct)
  case (less n)
  show ?case
  proof (cases "n div 2 = 0")
    case False
    then have "2 ^ bit_length (n div 2) \<le> 2 * (n div 2)" using less.IH [of "n div 2"] by simp
    with less.prems show ?thesis by (simp add: bit_length_pos [of n])
  next
    case True
    with less.prems show ?thesis by (simp add: bit_length_pos [of n])
  qed
qed

lemma bit_length_scaled:
  assumes "0 < n" and "bit_length n \<le> k"
  shows "2 ^ k \<le> n * 2 ^ (Suc k - bit_length n)" and "n * 2 ^ (k - bit_length n) < 2 ^ k"
proof -
  let ?b = "bit_length n"
  have p: "(2::nat) ^ k = 2 ^ ?b * 2 ^ (k - ?b)" using assms(2) by (simp flip: power_add)
  also have "\<dots> \<le> 2 * n * 2 ^ (k - ?b)" using bit_length_ge [OF assms(1)] by simp
  finally show "2 ^ k \<le> n * 2 ^ (Suc k - ?b)" using assms(2) by (simp add: Suc_diff_le ac_simps)
  show "n * 2 ^ (k - ?b) < 2 ^ k" unfolding p using bit_length_less [of n] by simp
qed

text \<open>An integer of at most 53 bits is read back exactly.\<close>

lemma round_float_small:
  assumes "0 < n" and "n < 2 ^ 53"
  shows "round_float neg n 1 = Fin neg (n * 2 ^ (53 - bit_length n)) (int (bit_length n) - 53)"
proof -
  let ?b = "bit_length n"
  have b: "?b \<le> 53" using assms(2) by (rule bit_length_le)
  have l1: "bit_length 1 = 1" by (subst bit_length.simps) simp
  note s = bit_length_scaled [OF assms(1) b]
  define e1 where "e1 = int ?b - int (bit_length 1) - 53"
  have e1: "e1 = int ?b - 54" unfolding e1_def l1 by simp
  have n1: "nat (- e1) = Suc 53 - ?b" "nat e1 = 0" "nat (- (e1 + 1)) = 53 - ?b" "nat (e1 + 1) = 0" "max (- 1074) (e1 + 1) = e1 + 1" "\<not> e1 + 1 > 971"
    using b unfolding e1 by linarith+
  have m: "round_even (n * 2 ^ (53 - ?b)) (1 * 2 ^ 0) = n * 2 ^ (53 - ?b)" by (simp add: round_even_def)
  have g: "2 ^ 53 * 1 * 2 ^ nat e1 \<le> n * 2 ^ nat (- e1)" using s(1) by (simp only: n1 power_0 mult_1_right)
  have ne: "n * 2 ^ (53 - ?b) \<noteq> 2 ^ 53" using s(2) by (rule less_imp_neq)
  have e: "e1 + 1 = int ?b - 53" by (simp add: e1)
  have "n \<noteq> 0" using assms(1) by simp
  then show ?thesis
    unfolding round_float_def e1_def [symmetric] Let_def unfolding if_P [OF g] unfolding n1 m unfolding if_not_P [OF ne] prod.case
    using n1(6) by (simp only: if_False e)
qed

lemma float_eq_refl: "x \<noteq> NaN \<Longrightarrow> float_eq x x"
  by (cases x) (simp_all add: float_eq_def)

lemma float_of_int_not_NaN [simp]: "float_of_int i \<noteq> NaN"
  unfolding float_of_int_def round_float_def Let_def
  by (simp only: float64.distinct not_False_eq_True simp_thms if_split_eq1 prod.case_eq_if split: if_split)

lemma float_of_int_exact:
  assumes "\<bar>i\<bar> < 2 ^ 53"
  shows "int64_of_float (float_of_int i) = i" and "float_eq (float_of_int (int64_of_float (float_of_int i))) (float_of_int i)"
proof -
  let ?n = "nat \<bar>i\<bar>" let ?b = "bit_length ?n"
  from assms have n: "?n < 2 ^ 53" by (simp add: nat_less_iff)
  then have b: "?b \<le> 53" by (rule bit_length_le)
  show g: "int64_of_float (float_of_int i) = i"
  proof (cases "i = 0")
    case False
    then have e: "float_of_int i = Fin (i < 0) (?n * 2 ^ (53 - ?b)) (int ?b - 53)" using n
      by (simp only: float_of_int_def round_float_small zero_less_nat_eq zero_less_abs_iff not_False_eq_True)
    have "(if 0 \<le> int ?b - 53 then ?n * 2 ^ (53 - ?b) * 2 ^ nat (int ?b - 53) else ?n * 2 ^ (53 - ?b) div 2 ^ nat (- (int ?b - 53))) = ?n"
    proof (cases "?b = 53")
      case True
      then show ?thesis by simp
    next
      case False
      with b have "\<not> 0 \<le> int ?b - 53" "nat (- (int ?b - 53)) = 53 - ?b" by linarith+
      then show ?thesis by (simp only: if_False) simp
    qed
    moreover have "- (2 ^ 63) \<le> i" "i < 2 ^ 63" using assms by simp_all
    moreover have "(if i < 0 then - int ?n else int ?n) = i" by simp
    ultimately show ?thesis unfolding e int64_of_float_def float64.case Let_def by (simp only: if_True simp_thms)
  qed (simp add: float_of_int_def round_float_def int64_of_float_def)
  show "float_eq (float_of_int (int64_of_float (float_of_int i))) (float_of_int i)"
    unfolding g by (simp add: float_eq_refl)
qed

text \<open>\<open>json.Number.Int64\<close> is \<open>strconv.ParseInt\<close> with base 10.\<close>

definition is_digit :: "char \<Rightarrow> bool" where
  "is_digit c \<longleftrightarrow> CHR ''0'' \<le> c \<and> c \<le> CHR ''9''"

definition digits_value :: "string \<Rightarrow> nat" where
  "digits_value s = foldl (\<lambda>a c. 10 * a + (of_char c - 48)) 0 s"

definition parse_int64 :: "string \<Rightarrow> int option" where
  "parse_int64 s =
     (let neg = (s \<noteq> [] \<and> hd s = CHR ''-''); ds = (if s \<noteq> [] \<and> (hd s = CHR ''-'' \<or> hd s = CHR ''+'') then tl s else s);
          v = (if neg then - int (digits_value ds) else int (digits_value ds)) in
      if ds = [] \<or> \<not> list_all is_digit ds \<or> v < - (2 ^ 63) \<or> v \<ge> 2 ^ 63 then None else Some v)"

text \<open>The text of a JSON number read as a float64: sign, digits, fraction and exponent. Text that is no number of the JSON grammar, and a
  number out of range, have no value.\<close>

definition json_number :: "string \<Rightarrow> (bool \<times> string \<times> string \<times> bool \<times> string) option" where
  "json_number s =
     (let neg = (s \<noteq> [] \<and> hd s = CHR ''-''); s1 = (if neg then tl s else s);
          whole = takeWhile is_digit s1; s2 = dropWhile is_digit s1;
          dot = (s2 \<noteq> [] \<and> hd s2 = CHR ''.''); frac = (if dot then takeWhile is_digit (tl s2) else []);
          s3 = (if dot then dropWhile is_digit (tl s2) else s2);
          ex = (s3 \<noteq> [] \<and> (hd s3 = CHR ''e'' \<or> hd s3 = CHR ''E'')); s4 = (if ex then tl s3 else s3);
          sign = (ex \<and> s4 \<noteq> [] \<and> (hd s4 = CHR ''+'' \<or> hd s4 = CHR ''-'')); eneg = (sign \<and> hd s4 = CHR ''-'');
          ds = (if sign then tl s4 else s4) in
      if whole = [] \<or> (hd whole = CHR ''0'' \<and> tl whole \<noteq> []) \<or> (dot \<and> frac = []) \<or> (ex \<and> ds = []) \<or> (\<not> ex \<and> s3 \<noteq> [])
         \<or> \<not> list_all is_digit ds then None
      else Some (neg, whole, frac, eneg, ds))"

definition ParseFloat :: "string \<Rightarrow> float64 option" where
  "ParseFloat s = (case json_number s of None \<Rightarrow> None | Some (neg, whole, frac, eneg, ds) \<Rightarrow>
     let m = digits_value (whole @ frac); x = (if eneg then - int (digits_value ds) else int (digits_value ds)) - int (length frac) in
     (case round_float neg (m * 10 ^ nat x) (10 ^ nat (- x)) of Inf _ \<Rightarrow> None | r \<Rightarrow> Some r))"

section \<open>Messages, tool calls and results\<close>

datatype Role = RoleSystem | RoleUser | RoleAssistant | RoleTool | OtherRole string

datatype raw = RawNil | RawJSON json | RawBad string

record ToolCall =
  callID :: string
  callName :: string
  callArguments :: raw

record ChatMessage =
  msgRole :: Role
  msgContent :: string
  msgToolCalls :: "ToolCall list"
  msgToolCallID :: string
  msgIsError :: bool

record ToolResult =
  resToolCallID :: string
  resOutput :: string
  resIsError :: bool
  resErrorCode :: string
  resRetryable :: bool
  resFatal :: bool
  resApprovalID :: string

record Usage =
  inputTokens :: int
  outputTokens :: int

text \<open>The counters are int64 values; \<open>wrap64\<close> is what an addition leaves of a sum.\<close>

definition wrap64 :: "int \<Rightarrow> int" where
  "wrap64 i = (i + 2 ^ 63) mod 2 ^ 64 - 2 ^ 63"

definition TotalTokens :: "Usage \<Rightarrow> int" where
  "TotalTokens u = wrap64 (inputTokens u + outputTokens u)"

definition usage_Add :: "Usage \<Rightarrow> Usage \<Rightarrow> Usage" where
  "usage_Add u v = \<lparr>inputTokens = wrap64 (inputTokens u + inputTokens v), outputTokens = wrap64 (outputTokens u + outputTokens v)\<rparr>"

record Generation =
  genMessage :: ChatMessage
  genUsage :: Usage

datatype TerminalReason = NoReason | TerminalCompleted | TerminalMaxTurns | TerminalAborted | TerminalTimeout | TerminalPermissionDenied
  | TerminalBudgetExceeded | TerminalFatalToolError | TerminalProviderError | TerminalPersistenceError | TerminalApprovalRequired
  | OtherReason string

fun reason_text :: "TerminalReason \<Rightarrow> string" where
  "reason_text NoReason = []"
| "reason_text TerminalCompleted = ''completed''"
| "reason_text TerminalMaxTurns = ''max_turns''"
| "reason_text TerminalAborted = ''aborted''"
| "reason_text TerminalTimeout = ''timeout''"
| "reason_text TerminalPermissionDenied = ''permission_denied''"
| "reason_text TerminalBudgetExceeded = ''budget_exceeded''"
| "reason_text TerminalFatalToolError = ''fatal_tool_error''"
| "reason_text TerminalProviderError = ''provider_error''"
| "reason_text TerminalPersistenceError = ''persistence_error''"
| "reason_text TerminalApprovalRequired = ''approval_required''"
| "reason_text (OtherReason s) = s"

record CapabilityRevision =
  capSequence :: nat
  capDigest :: string
  capToolDigest :: string
  capPromptDigest :: string
  capAgentsDigest :: string
  capSkillsDigest :: string

definition Equivalent :: "CapabilityRevision \<Rightarrow> CapabilityRevision \<Rightarrow> bool" where
  "Equivalent r other \<longleftrightarrow> capDigest r \<noteq> [] \<and> capDigest r = capDigest other"

definition zeroChatMessage :: ChatMessage where
  "zeroChatMessage = \<lparr>msgRole = OtherRole [], msgContent = [], msgToolCalls = [], msgToolCallID = [], msgIsError = False\<rparr>"

definition zeroToolCall :: ToolCall where
  "zeroToolCall = \<lparr>callID = [], callName = [], callArguments = RawNil\<rparr>"

definition zeroToolResult :: ToolResult where
  "zeroToolResult = \<lparr>resToolCallID = [], resOutput = [], resIsError = False, resErrorCode = [], resRetryable = False, resFatal = False,
     resApprovalID = []\<rparr>"

definition zeroUsage :: Usage where
  "zeroUsage = \<lparr>inputTokens = 0, outputTokens = 0\<rparr>"

definition zeroCapability :: CapabilityRevision where
  "zeroCapability = \<lparr>capSequence = 0, capDigest = [], capToolDigest = [], capPromptDigest = [], capAgentsDigest = [], capSkillsDigest = []\<rparr>"

section \<open>Events, checkpoints and results\<close>

datatype EventType = EventTurnStarted | EventRunStarted | EventCapability | EventThinking | EventAssistant | EventToolStarted
  | EventToolResult | EventRecoveryHint | EventReminder | EventCompacted | EventCheckpoint | EventCommitted | EventInputClaimed
  | EventInputAcked | EventCompleted | OtherEvent string

text \<open>A value of the metadata with its dynamic type; the program stores scalars only.\<close>

datatype any = AnyNil | AnyString string | AnyReason TerminalReason | AnyBool bool | AnyInt int | AnyInt64 int | AnyUint64 nat
  | AnyFloat float64 | AnyNumber string

record Event =
  evType :: EventType
  evRunID :: string
  evSequence :: int
  evTimestamp :: time
  evTurn :: int
  evMessage :: ChatMessage
  evToolCall :: ToolCall
  evToolResult :: ToolResult
  evMessages :: "ChatMessage list"
  evUsage :: Usage
  evMetadata :: "any gomap"

record Checkpoint =
  ckVersion :: int
  ckRunID :: string
  ckTurnID :: string
  ckAdmission :: int
  ckLeaseID :: string
  ckPrompt :: string
  ckWorkDir :: string
  ckMemoryScope :: string
  ckParentRunID :: string
  ckParentTurnID :: string
  ckCapability :: CapabilityRevision
  ckMessages :: "ChatMessage list"
  ckTurn :: int
  ckUsage :: Usage
  ckReason :: TerminalReason
  ckRepeatedCalls :: "int gomap"
  ckSequence :: int
  ckOperationSequence :: int
  ckHistoryRevision :: int
  ckLastOperationID :: string
  ckLastFingerprint :: string
  ckCommittedInputClaims :: "int gomap"
  ckUpdatedAt :: time

record HistoryCommit =
  hcRunID :: string
  hcOperationID :: string
  hcFingerprint :: string
  hcExpectedRevision :: int
  hcCheckpoint :: Checkpoint

record HistoryAck =
  haRunID :: string
  haOperationID :: string
  haFingerprint :: string
  haRevision :: int
  haCommittedAt :: time

record EngineRunResult =
  rrRunID :: string
  rrTurnID :: string
  rrAdmission :: int
  rrCapability :: CapabilityRevision
  rrHistoryRevision :: int
  rrMemoryScope :: string
  rrParentRunID :: string
  rrParentTurnID :: string
  rrReason :: TerminalReason
  rrFinalMessage :: ChatMessage
  rrMessages :: "ChatMessage list"
  rrTurns :: int
  rrUsage :: Usage
  rrStartedAt :: time
  rrCompletedAt :: time
  rrDurationMS :: int

section \<open>What a JSON file gives back\<close>

text \<open>\<open>None\<close> is an error of the encoder.\<close>

fun wire_raw :: "raw \<Rightarrow> raw option" where
  "wire_raw RawNil = Some (RawJSON JNull)"
| "wire_raw (RawJSON j) = Some (RawJSON j)"
| "wire_raw (RawBad s) = None"

fun wire_list :: "('a \<Rightarrow> 'a option) \<Rightarrow> 'a list \<Rightarrow> 'a list option" where
  "wire_list f [] = Some []"
| "wire_list f (x # xs) = (case f x of None \<Rightarrow> None | Some y \<Rightarrow>
     (case wire_list f xs of None \<Rightarrow> None | Some ys \<Rightarrow> Some (y # ys)))"

definition wire_call :: "ToolCall \<Rightarrow> ToolCall option" where
  "wire_call c = (case wire_raw (callArguments c) of None \<Rightarrow> None | Some r \<Rightarrow> Some (c\<lparr>callArguments := r\<rparr>))"

definition wire_message :: "ChatMessage \<Rightarrow> ChatMessage option" where
  "wire_message m = (case wire_list wire_call (msgToolCalls m) of None \<Rightarrow> None | Some cs \<Rightarrow> Some (m\<lparr>msgToolCalls := cs\<rparr>))"

fun wire_any :: "any \<Rightarrow> any option" where
  "wire_any (AnyReason r) = Some (AnyString (reason_text r))"
| "wire_any (AnyInt i) = Some (AnyFloat (float_of_int i))"
| "wire_any (AnyInt64 i) = Some (AnyFloat (float_of_int i))"
| "wire_any (AnyUint64 n) = Some (AnyFloat (float_of_int (int n)))"
| "wire_any (AnyNumber s) = (case ParseFloat s of Some x \<Rightarrow> Some (AnyFloat x) | None \<Rightarrow> None)"
| "wire_any (AnyFloat x) = (case x of Fin s m e \<Rightarrow> Some (AnyFloat x) | _ \<Rightarrow> None)"
| "wire_any v = Some v"

definition wire_meta :: "any gomap \<Rightarrow> any gomap option" where
  "wire_meta md = wire_list (\<lambda>(k, v). case wire_any v of None \<Rightarrow> None | Some w \<Rightarrow> Some (k, w)) md"

definition wire_event :: "Event \<Rightarrow> Event option" where
  "wire_event e =
     (case (wire_message (evMessage e), wire_call (evToolCall e), wire_list wire_message (evMessages e), wire_meta (evMetadata e)) of
        (Some m, Some c, Some ms, Some md) \<Rightarrow> Some (e\<lparr>evMessage := m, evToolCall := c, evMessages := ms, evMetadata := md\<rparr>)
      | _ \<Rightarrow> None)"

definition wire_checkpoint :: "Checkpoint \<Rightarrow> Checkpoint option" where
  "wire_checkpoint c = (case wire_list wire_message (ckMessages c) of None \<Rightarrow> None | Some ms \<Rightarrow> Some (c\<lparr>ckMessages := ms\<rparr>))"

definition wire_result :: "EngineRunResult \<Rightarrow> EngineRunResult option" where
  "wire_result r = (case (wire_message (rrFinalMessage r), wire_list wire_message (rrMessages r)) of
        (Some m, Some ms) \<Rightarrow> Some (r\<lparr>rrFinalMessage := m, rrMessages := ms\<rparr>) | _ \<Rightarrow> None)"

end
