(* ===== verification/RunStore.thy ===== *)
theory RunStore
  imports Messages Inbox
begin

text \<open>
  The file store of runs (internal/runstore/store.go): for each run a trace, which is an append-only log of events and results, the file of its
  last result, the file of its canonical history, which is the last committed checkpoint with its acknowledgement, and an append-only
  log of the operations committed so far. \<open>CommitHistory\<close> is the only operation that changes the history. The files of the four kinds have
  different suffixes, so each kind is a directory of its own here.
\<close>

section \<open>Append-only logs\<close>

text \<open>A log is a sequence of lines; a line that was torn by a crash is \<open>Garbage\<close>. An append can fail before the file is
  opened (\<open>Ap_open\<close>), before anything is written (\<open>Ap_none\<close>), in the middle of the line (\<open>Ap_torn\<close>), or after it, when the file is synced or
  closed (\<open>Ap_late\<close>). A value that cannot be encoded writes nothing.\<close>

datatype append_io = Ap_ok | Ap_open | Ap_none | Ap_torn | Ap_late

type_synonym 'a log = "'a content list"

definition log_lines :: "'a log gomap \<Rightarrow> string \<Rightarrow> 'a log" where
  "log_lines m p = (case mget m p of None \<Rightarrow> [] | Some l \<Rightarrow> l)"

definition appendLine :: "append_io \<Rightarrow> string \<Rightarrow> 'a option \<Rightarrow> 'a log gomap \<Rightarrow> go_error option \<times> 'a log gomap" where
  "appendLine i p encoded m =
     (if i = Ap_open then (Some IOError, m) else
      (case encoded of None \<Rightarrow> (Some IOError, mput p (log_lines m p) m) | Some v \<Rightarrow>
       (case i of
          Ap_ok \<Rightarrow> (None, mput p (log_lines m p @ [Record v]) m)
        | Ap_torn \<Rightarrow> (Some IOError, mput p (log_lines m p @ [Garbage]) m)
        | Ap_late \<Rightarrow> (Some IOError, mput p (log_lines m p @ [Record v]) m)
        | _ \<Rightarrow> (Some IOError, mput p (log_lines m p) m))))"

lemma log_lines_mput [simp]: "log_lines (mput p l m) q = (if q = p then l else log_lines m q)"
  by (simp add: log_lines_def)

lemma appendLine_cases:
  assumes "appendLine i p v m = (r, m')"
  obtains (nothing) "log_lines m' = log_lines m" and "r = Some IOError"
  | (torn) "log_lines m' = (log_lines m) (p := log_lines m p @ [Garbage])" and "r = Some IOError"
  | (line) w where "v = Some w" and "log_lines m' = (log_lines m) (p := log_lines m p @ [Record w])" and "r = None \<or> r = Some IOError"
      and "i \<noteq> Ap_late \<Longrightarrow> r = None"
  using assms by (cases i; cases v) (auto simp: appendLine_def fun_eq_iff)

section \<open>The records of the store\<close>

record traceItem =
  tiKind :: string
  tiEvent :: "Event option"
  tiResult :: "EngineRunResult option"

record canonicalHistory =
  chAcknowledgement :: HistoryAck
  chCheckpoint :: Checkpoint

record operationRecord =
  orOperationID :: string
  orFingerprint :: string
  orRevision :: int
  orCommittedAt :: time

record runDir =
  rdTraces :: "traceItem log gomap"
  rdResults :: "EngineRunResult dir"
  rdHistories :: "canonicalHistory dir"
  rdOperations :: "operationRecord log gomap"

definition ErrHistoryConflict :: go_error where
  "ErrHistoryConflict = Sentinel ''canonical history revision conflict''"

definition zeroAck :: HistoryAck where
  "zeroAck = \<lparr>haRunID = [], haOperationID = [], haFingerprint = [], haRevision = 0, haCommittedAt = 0\<rparr>"

definition tracePath :: "string \<Rightarrow> string" where "tracePath runID = runID @ ''.trace.jsonl''"
definition resultPath :: "string \<Rightarrow> string" where "resultPath runID = runID @ ''.result.json''"
definition historyPath :: "string \<Rightarrow> string" where "historyPath runID = runID @ ''.history.json''"
definition operationsPath :: "string \<Rightarrow> string" where "operationsPath runID = runID @ ''.operations.jsonl''"

lemmas run_paths = tracePath_def resultPath_def historyPath_def operationsPath_def

section \<open>Traces and results\<close>

definition wire_item :: "traceItem \<Rightarrow> traceItem option" where
  "wire_item item =
     (case tiEvent item of
        Some e \<Rightarrow> (case wire_event e of None \<Rightarrow> None | Some e' \<Rightarrow> Some (item\<lparr>tiEvent := Some e'\<rparr>))
      | None \<Rightarrow> (case tiResult item of
          Some r \<Rightarrow> (case wire_result r of None \<Rightarrow> None | Some r' \<Rightarrow> Some (item\<lparr>tiResult := Some r'\<rparr>))
        | None \<Rightarrow> Some item))"

definition appendTrace :: "append_io \<Rightarrow> string \<Rightarrow> traceItem \<Rightarrow> runDir \<Rightarrow> go_error option \<times> runDir" where
  "appendTrace i runID item d =
     (case validateID runID of Some err \<Rightarrow> (Some err, d) | None \<Rightarrow>
      (case appendLine i (tracePath runID) (wire_item item) (rdTraces d) of (r, m) \<Rightarrow> (r, d\<lparr>rdTraces := m\<rparr>)))"

text \<open>The error of the context that is passed to \<open>Record\<close> counts only if it is neither a cancellation nor a deadline.\<close>

definition context_Canceled :: go_error where "context_Canceled = Sentinel ''context canceled''"
definition context_DeadlineExceeded :: go_error where "context_DeadlineExceeded = Sentinel ''context deadline exceeded''"

definition RecordEvent :: "append_io \<Rightarrow> go_error option \<Rightarrow> Event \<Rightarrow> runDir \<Rightarrow> go_error option \<times> runDir" where
  "RecordEvent i ctxErr event d =
     (case ctxErr of
        Some err \<Rightarrow>
          if \<not> errors_Is err context_Canceled \<and> \<not> errors_Is err context_DeadlineExceeded then (Some err, d)
          else appendTrace i (evRunID event) \<lparr>tiKind = ''event'', tiEvent = Some event, tiResult = None\<rparr> d
      | None \<Rightarrow> appendTrace i (evRunID event) \<lparr>tiKind = ''event'', tiEvent = Some event, tiResult = None\<rparr> d)"

definition writeResult :: "io \<Rightarrow> EngineRunResult \<Rightarrow> runDir \<Rightarrow> go_error option \<times> runDir" where
  "writeResult i result d =
     (case wire_result result of None \<Rightarrow> (Some IOError, d) | Some r \<Rightarrow>
      (case atomicWrite i (resultPath (rrRunID result)) r (rdResults d) of (err, m) \<Rightarrow> (err, d\<lparr>rdResults := m\<rparr>)))"

definition CompleteRun :: "append_io \<Rightarrow> io \<Rightarrow> EngineRunResult \<Rightarrow> runDir \<Rightarrow> go_error option \<times> runDir" where
  "CompleteRun ai i result d =
     (case appendTrace ai (rrRunID result) \<lparr>tiKind = ''result'', tiEvent = None, tiResult = Some result\<rparr> d of
        (Some err, d') \<Rightarrow> (Some err, d')
      | (None, d') \<Rightarrow> writeResult i result d')"

definition LoadResult :: "string \<Rightarrow> runDir \<Rightarrow> go_error + EngineRunResult" where
  "LoadResult runID d =
     (case validateID runID of Some err \<Rightarrow> Inl err | None \<Rightarrow>
      (case readJSON (rdResults d) (resultPath runID) of
         Inl err \<Rightarrow> Inl (Wrap (''load result '' @ runID) err)
       | Inr result \<Rightarrow>
           if rrRunID result \<noteq> runID \<or> reason_text (rrReason result) = [] \<or> rrCompletedAt result = 0
           then Inl (Errorf (''load result '' @ runID @ '': invalid result identity'')) else Inr result))"

record Trace =
  trEvents :: "Event list"
  trResult :: EngineRunResult

definition zeroRunResult :: EngineRunResult where
  "zeroRunResult = \<lparr>rrRunID = [], rrTurnID = [], rrAdmission = 0, rrCapability = zeroCapability, rrHistoryRevision = 0, rrMemoryScope = [],
     rrParentRunID = [], rrParentTurnID = [], rrReason = NoReason, rrFinalMessage = zeroChatMessage, rrMessages = [], rrTurns = 0,
     rrUsage = zeroUsage, rrStartedAt = 0, rrCompletedAt = 0, rrDurationMS = 0\<rparr>"

fun loadLines :: "traceItem log \<Rightarrow> Trace \<Rightarrow> go_error + Trace" where
  "loadLines [] trace = Inr trace"
| "loadLines (Garbage # ls) trace = Inl (Wrap ''decode trace'' IOError)"
| "loadLines (Record item # ls) trace =
     (if tiKind item = ''event'' then
        (case tiEvent item of None \<Rightarrow> Inl (Errorf ''trace event record has no event'')
         | Some e \<Rightarrow> loadLines ls (trace\<lparr>trEvents := trEvents trace @ [e]\<rparr>))
      else if tiKind item = ''result'' then
        (case tiResult item of None \<Rightarrow> Inl (Errorf ''trace result record has no result'')
         | Some r \<Rightarrow> loadLines ls (trace\<lparr>trResult := r\<rparr>))
      else Inl (Errorf (''unknown trace record kind '' @ tiKind item)))"

definition LoadTraceFile :: "traceItem log option \<Rightarrow> go_error + Trace" where
  "LoadTraceFile file =
     (case file of None \<Rightarrow> Inl os_ErrNotExist | Some ls \<Rightarrow>
      (case loadLines ls \<lparr>trEvents = [], trResult = zeroRunResult\<rparr> of Inl err \<Rightarrow> Inl err
       | Inr trace \<Rightarrow> if rrRunID (trResult trace) = [] then Inl (Errorf ''trace has no completed result'') else Inr trace))"

definition LoadTrace :: "string \<Rightarrow> runDir \<Rightarrow> go_error + Trace" where
  "LoadTrace runID d =
     (case validateID runID of Some err \<Rightarrow> Inl err | None \<Rightarrow> LoadTraceFile (mget (rdTraces d) (tracePath runID)))"

fun lastSequence :: "string \<Rightarrow> traceItem log \<Rightarrow> int \<Rightarrow> go_error + int" where
  "lastSequence runID [] n = Inr n"
| "lastSequence runID (Garbage # ls) n = Inl (Wrap ''decode trace sequence'' IOError)"
| "lastSequence runID (Record item # ls) n =
     (if tiKind item \<noteq> ''event'' then lastSequence runID ls n else
      (case tiEvent item of None \<Rightarrow> Inl (Errorf ''trace event sequence is corrupt'')
       | Some e \<Rightarrow> if evRunID e \<noteq> runID \<or> evSequence e \<le> n then Inl (Errorf ''trace event sequence is corrupt'')
                else lastSequence runID ls (evSequence e)))"

definition LastEventSequence :: "string \<Rightarrow> runDir \<Rightarrow> go_error + int" where
  "LastEventSequence runID d =
     (case validateID runID of Some err \<Rightarrow> Inl err | None \<Rightarrow>
      (case mget (rdTraces d) (tracePath runID) of None \<Rightarrow> Inr 0 | Some ls \<Rightarrow> lastSequence runID ls 0))"

section \<open>The canonical history\<close>

definition validateCanonicalHistory :: "string \<Rightarrow> canonicalHistory \<Rightarrow> go_error option" where
  "validateCanonicalHistory runID history =
     (let ack = chAcknowledgement history; checkpoint = chCheckpoint history in
      if haRunID ack \<noteq> runID \<or> ckRunID checkpoint \<noteq> runID \<or> ckVersion checkpoint \<noteq> 2
      then Some (Errorf ''canonical history identity mismatch'')
      else if haRevision ack \<le> 0 \<or> haOperationID ack = [] \<or> \<not> safeDigest (haFingerprint ack) \<or> haCommittedAt ack = 0
      then Some (Errorf ''canonical history acknowledgement is invalid'')
      else if ckHistoryRevision checkpoint \<noteq> haRevision ack \<or> ckLastOperationID checkpoint \<noteq> haOperationID ack
        \<or> ckLastFingerprint checkpoint \<noteq> haFingerprint ack
      then Some (Errorf ''canonical history acknowledgement mismatch'')
      else None)"

definition LoadCheckpoint :: "string \<Rightarrow> runDir \<Rightarrow> go_error + Checkpoint" where
  "LoadCheckpoint runID d =
     (case validateID runID of Some err \<Rightarrow> Inl err | None \<Rightarrow>
      (case readJSON (rdHistories d) (historyPath runID) of
         Inl err \<Rightarrow> Inl (Wrap (''load checkpoint '' @ runID) err)
       | Inr history \<Rightarrow>
           (case validateCanonicalHistory runID history of Some err \<Rightarrow> Inl (Wrap (''load checkpoint '' @ runID) err)
            | None \<Rightarrow> Inr (chCheckpoint history))))"

fun loadOperations :: "operationRecord log \<Rightarrow> operationRecord gomap \<Rightarrow> go_error + operationRecord gomap" where
  "loadOperations [] operations = Inr operations"
| "loadOperations (Garbage # ls) operations = Inl (Wrap ''decode operation log'' IOError)"
| "loadOperations (Record operation # ls) operations =
     (if (case mget operations (orOperationID operation) of Some previous \<Rightarrow> previous \<noteq> operation | None \<Rightarrow> False)
      then Inl (Errorf (''conflicting operation log entry '' @ orOperationID operation))
      else if orOperationID operation = [] \<or> \<not> safeDigest (orFingerprint operation) \<or> orRevision operation \<le> 0
        \<or> orCommittedAt operation = 0
      then Inl (Errorf ''operation log contains an invalid record'')
      else loadOperations ls (mput (orOperationID operation) operation operations))"

definition appendOpLine :: "append_io \<Rightarrow> string \<Rightarrow> operationRecord \<Rightarrow> runDir \<Rightarrow> go_error option \<times> runDir" where
  "appendOpLine i runID operation d =
     (case appendLine i (operationsPath runID) (Some operation) (rdOperations d) of (r, m) \<Rightarrow> (r, d\<lparr>rdOperations := m\<rparr>))"

definition writeHistory :: "io \<Rightarrow> string \<Rightarrow> canonicalHistory \<Rightarrow> runDir \<Rightarrow> go_error option \<times> runDir" where
  "writeHistory i runID history d =
     (case wire_checkpoint (chCheckpoint history) of None \<Rightarrow> (Some IOError, d) | Some c \<Rightarrow>
      (case atomicWrite i (historyPath runID) (history\<lparr>chCheckpoint := c\<rparr>) (rdHistories d) of
         (err, m) \<Rightarrow> (err, d\<lparr>rdHistories := m\<rparr>)))"

text \<open>The current history: none, or one that the file holds and that is valid.\<close>

definition readHistory :: "string \<Rightarrow> runDir \<Rightarrow> go_error + canonicalHistory option" where
  "readHistory runID d =
     (case readJSON (rdHistories d) (historyPath runID) of
        Inl err \<Rightarrow> if \<not> errors_Is err os_ErrNotExist then Inl (Wrap ''read canonical history'' err) else Inr None
      | Inr current \<Rightarrow>
          (case validateCanonicalHistory runID current of Some err \<Rightarrow> Inl (Wrap ''validate canonical history'' err)
           | None \<Rightarrow> Inr (Some current)))"

definition commitAck :: "HistoryCommit \<Rightarrow> int \<Rightarrow> time \<Rightarrow> HistoryAck" where
  "commitAck commit revision t =
     \<lparr>haRunID = hcRunID commit, haOperationID = hcOperationID commit, haFingerprint = hcFingerprint commit, haRevision = revision,
      haCommittedAt = t\<rparr>"

definition ackRecord :: "HistoryAck \<Rightarrow> operationRecord" where
  "ackRecord ack = \<lparr>orOperationID = haOperationID ack, orFingerprint = haFingerprint ack, orRevision = haRevision ack,
     orCommittedAt = haCommittedAt ack\<rparr>"

definition nextHistory :: "HistoryCommit \<Rightarrow> HistoryAck \<Rightarrow> canonicalHistory" where
  "nextHistory commit ack = \<lparr>chAcknowledgement = ack,
     chCheckpoint = (hcCheckpoint commit)\<lparr>ckHistoryRevision := haRevision ack, ckLastOperationID := haOperationID ack,
       ckLastFingerprint := haFingerprint ack, ckUpdatedAt := haCommittedAt ack\<rparr>\<rparr>"

definition verifyHistory :: "string \<Rightarrow> HistoryAck \<Rightarrow> runDir \<Rightarrow> go_error option" where
  "verifyHistory runID ack d =
     (case readJSON (rdHistories d) (historyPath runID) of
        Inl err \<Rightarrow> Some (Wrap ''read back canonical history'' err)
      | Inr verified \<Rightarrow>
          if chAcknowledgement verified \<noteq> ack \<or> ckHistoryRevision (chCheckpoint verified) \<noteq> haRevision ack
            \<or> ckLastFingerprint (chCheckpoint verified) \<noteq> haFingerprint ack
          then Some (Errorf ''canonical history read-back verification failed'') else None)"

definition CommitHistory :: "append_io \<Rightarrow> env \<Rightarrow> HistoryCommit \<Rightarrow> runDir \<Rightarrow> (go_error + HistoryAck) \<times> runDir" where
  "CommitHistory ai e commit d =
     (let runID = hcRunID commit in
      case validateID runID of Some err \<Rightarrow> (Inl err, d) | None \<Rightarrow>
      if ckRunID (hcCheckpoint commit) \<noteq> runID \<or> hcOperationID commit = [] \<or> length (hcOperationID commit) > 256
        \<or> \<not> safeDigest (hcFingerprint commit)
      then (Inl (Errorf ''invalid canonical history commit''), d) else
      (case readHistory runID d of Inl err \<Rightarrow> (Inl err, d) | Inr existing \<Rightarrow>
       let current = (case existing of Some h \<Rightarrow> chAcknowledgement h | None \<Rightarrow> zeroAck) in
       (case loadOperations (log_lines (rdOperations d) (operationsPath runID)) [] of Inl err \<Rightarrow> (Inl err, d) | Inr operations \<Rightarrow>
        if existing = None \<and> operations \<noteq> [] then (Inl (Errorf ''operation ledger exists without canonical history''), d) else
        (case mget operations (hcOperationID commit) of
           Some previous \<Rightarrow>
             if orRevision previous > haRevision current
             then (Inl (Errorf ''operation ledger revision exceeds canonical history''), d)
             else if orFingerprint previous \<noteq> hcFingerprint commit
             then (Inl (Wrap (''operation '' @ hcOperationID commit @ '' reused with different semantics'') ErrHistoryConflict), d)
             else (Inr \<lparr>haRunID = runID, haOperationID = orOperationID previous, haFingerprint = orFingerprint previous,
                        haRevision = orRevision previous, haCommittedAt = orCommittedAt previous\<rparr>, d)
         | None \<Rightarrow>
             if haOperationID current = hcOperationID commit then
               (if haFingerprint current \<noteq> hcFingerprint commit
                then (Inl (Wrap (''operation '' @ hcOperationID commit @ '' reused with different semantics'') ErrHistoryConflict), d)
                else (case appendOpLine ai runID (ackRecord (commitAck commit (haRevision current) (haCommittedAt current))) d of
                        (Some err, d') \<Rightarrow> (Inl err, d')
                      | (None, d') \<Rightarrow> (Inr current, d')))
             else if hcExpectedRevision commit \<noteq> haRevision current
             then (Inl (Wrap (''expected revision '' @ dec_int (hcExpectedRevision commit) @ '', current revision ''
                     @ dec_int (haRevision current)) ErrHistoryConflict), d)
             else
               let ack = commitAck commit (haRevision current + 1) (now e) in
               (case writeHistory (wio e) runID (nextHistory commit ack) d of
                  (Some err, d') \<Rightarrow> (Inl (Wrap ''write canonical history'' err), d')
                | (None, d') \<Rightarrow>
                    (case verifyHistory runID ack d' of Some err \<Rightarrow> (Inl err, d') | None \<Rightarrow>
                     (case appendOpLine ai runID (ackRecord ack) d' of
                        (Some err, d'') \<Rightarrow> (Inl (Wrap ''append operation acknowledgement'' err), d'')
                      | (None, d'') \<Rightarrow> (Inr ack, d''))))))))"

end
