(* ===== verification/RunProps.thy ===== *)
theory RunProps
  imports RunStore
begin

text \<open>
  What the run store promises. A trace comes back as it was recorded; a committed checkpoint is the one that is loaded; over any interleaving of
  commits, with failures at any point, one revision of a run belongs to one operation and one operation to one revision; a commit
  that was cut off between the history and the operation log is completed by its retry. A torn line of the operation log, however, blocks
  the run for good.
\<close>

section \<open>Traces\<close>

lemma wire_list_Some_length: "wire_list f xs = Some ys \<Longrightarrow> length ys = length xs"
  by (induction xs arbitrary: ys) (auto split: option.splits)

lemma wire_list_append:
  "wire_list f (xs @ ys) = (case wire_list f xs of None \<Rightarrow> None | Some xs' \<Rightarrow>
     (case wire_list f ys of None \<Rightarrow> None | Some ys' \<Rightarrow> Some (xs' @ ys')))"
  by (induction xs) (auto split: option.splits)

definition eventItem :: "Event \<Rightarrow> traceItem" where
  "eventItem e = \<lparr>tiKind = ''event'', tiEvent = Some e, tiResult = None\<rparr>"

definition resultItem :: "EngineRunResult \<Rightarrow> traceItem" where
  "resultItem r = \<lparr>tiKind = ''result'', tiEvent = None, tiResult = Some r\<rparr>"

lemma loadLines_events: "loadLines (map (Record \<circ> eventItem) es @ ls) t = loadLines ls (t\<lparr>trEvents := trEvents t @ es\<rparr>)"
  by (induction es arbitrary: t) (simp_all add: eventItem_def)

fun record_all :: "Event list \<Rightarrow> runDir \<Rightarrow> runDir" where
  "record_all [] d = d"
| "record_all (e # es) d = record_all es (snd (RecordEvent Ap_ok None e d))"

lemma RecordEvent_ok:
  assumes "safeID (evRunID e)" and "wire_event e = Some w"
  shows "RecordEvent Ap_ok None e d =
    (None, d\<lparr>rdTraces := mput (tracePath (evRunID e)) (log_lines (rdTraces d) (tracePath (evRunID e)) @ [Record (eventItem w)]) (rdTraces d)\<rparr>)"
  using assms by (simp add: RecordEvent_def appendTrace_def validateID_def wire_item_def appendLine_def eventItem_def)

lemma record_all_lines:
  assumes "safeID r" and "\<forall>e\<in>set es. evRunID e = r" and "wire_list wire_event es = Some ws"
  shows "log_lines (rdTraces (record_all es d)) (tracePath r) = log_lines (rdTraces d) (tracePath r) @ map (Record \<circ> eventItem) ws
    \<and> (es \<noteq> [] \<longrightarrow> mget (rdTraces (record_all es d)) (tracePath r) \<noteq> None)"
  using assms(2,3)
proof (induction es arbitrary: d ws)
  case (Cons e es)
  from Cons.prems(2) obtain w ws' where w: "wire_event e = Some w" and ws: "ws = w # ws'" "wire_list wire_event es = Some ws'"
    by (auto split: option.splits)
  let ?d = "snd (RecordEvent Ap_ok None e d)"
  from Cons.prems(1) have r: "evRunID e = r" "\<forall>e\<in>set es. evRunID e = r" by auto
  from RecordEvent_ok [OF _ w, of d] r assms(1) have d: "log_lines (rdTraces ?d) (tracePath r) = log_lines (rdTraces d) (tracePath r) @ [Record (eventItem w)]"
    "mget (rdTraces ?d) (tracePath r) \<noteq> None" by simp_all
  from Cons.IH [OF r(2) ws(2), of ?d] d show ?case by (cases "es = []") (auto simp: ws)
qed simp

lemma CompleteRun_ok:
  assumes "safeID (rrRunID res)" and "wire_result res = Some w"
  shows "rdTraces (snd (CompleteRun Ap_ok i res d)) =
      mput (tracePath (rrRunID res)) (log_lines (rdTraces d) (tracePath (rrRunID res)) @ [Record (resultItem w)]) (rdTraces d)"
    and "i \<noteq> Io_early \<Longrightarrow> readJSON (rdResults (snd (CompleteRun Ap_ok i res d))) (resultPath (rrRunID res)) = Inr w"
  using assms by (cases i; simp add: CompleteRun_def appendTrace_def validateID_def wire_item_def appendLine_def resultItem_def writeResult_def
      atomicWrite_def store_simps)+

lemma wire_result_fields: "wire_result r = Some w \<Longrightarrow> rrRunID w = rrRunID r \<and> rrReason w = rrReason r \<and> rrCompletedAt w = rrCompletedAt r"
  by (auto simp: wire_result_def split: option.splits)

text \<open>Round trip of a trace: when the events of a new run are recorded and then its result, \<open>LoadTrace\<close> gives back exactly these events, in order,
  and this result, up to what the JSON text keeps of a value (a number of the metadata comes back as a float64); and once the result
  file is in place, whatever the error of the write, \<open>LoadResult\<close> gives the same result.\<close>

theorem trace_round_trip:
  assumes "safeID r" and "mget (rdTraces d) (tracePath r) = None" and "\<forall>e\<in>set es. evRunID e = r" and "rrRunID res = r"
    and "wire_list wire_event es = Some ws" and "wire_result res = Some w"
    and "i \<noteq> Io_early" and "reason_text (rrReason res) \<noteq> []" and "rrCompletedAt res \<noteq> 0"
  shows "LoadTrace r (snd (CompleteRun Ap_ok i res (record_all es d))) = Inr \<lparr>trEvents = ws, trResult = w\<rparr>
    \<and> LoadResult r (snd (CompleteRun Ap_ok i res (record_all es d))) = Inr w"
proof
  from assms(2) have "log_lines (rdTraces d) (tracePath r) = []" by (simp add: log_lines_def)
  with record_all_lines [OF assms(1,3,5), of d]
  have l: "log_lines (rdTraces (record_all es d)) (tracePath r) = map (Record \<circ> eventItem) ws" by simp
  have c: "rdTraces (snd (CompleteRun Ap_ok i res (record_all es d))) =
      mput (tracePath r) (map (Record \<circ> eventItem) ws @ [Record (resultItem w)]) (rdTraces (record_all es d))"
    using CompleteRun_ok(1) [of res w i "record_all es d"] assms(1,4,6) l by simp
  have "r \<noteq> []" using assms(1) by (rule safeID_nonempty)
  then show "LoadTrace r (snd (CompleteRun Ap_ok i res (record_all es d))) = Inr \<lparr>trEvents = ws, trResult = w\<rparr>"
    using wire_result_fields [OF assms(6)] assms(1,4)
    by (simp add: LoadTrace_def validateID_def LoadTraceFile_def c loadLines_events resultItem_def)
  show "LoadResult r (snd (CompleteRun Ap_ok i res (record_all es d))) = Inr w"
    using CompleteRun_ok(2) [OF _ assms(6) assms(7), of "record_all es d"] wire_result_fields [OF assms(6)] assms(1,4,8,9)
    by (simp add: LoadResult_def validateID_def)
qed

section \<open>Cases of a commit\<close>

definition log_records :: "'a log \<Rightarrow> 'a set" where
  "log_records l = {v. Record v \<in> set l}"

lemma log_records_simps [simp]:
  "log_records [] = {}" "log_records (l @ [Garbage]) = log_records l" "log_records (l @ [Record v]) = insert v (log_records l)"
  by (auto simp: log_records_def)

lemma loadOperations_Inr:
  assumes "loadOperations l m = Inr ops"
  shows "Garbage \<notin> set l" and "\<And>x. x \<in> log_records l \<Longrightarrow> mget ops (orOperationID x) = Some x"
    and "\<And>k v. mget m k = Some v \<Longrightarrow> mget ops k = Some v"
    and "\<And>k v. mget ops k = Some v \<Longrightarrow> mget m k = Some v \<or> v \<in> log_records l \<and> orOperationID v = k"
    and "ops = [] \<longleftrightarrow> l = [] \<and> m = []"
proof -
  have "Garbage \<notin> set l \<and> (\<forall>x \<in> log_records l. mget ops (orOperationID x) = Some x) \<and>
    (\<forall>k v. mget m k = Some v \<longrightarrow> mget ops k = Some v) \<and>
    (\<forall>k v. mget ops k = Some v \<longrightarrow> mget m k = Some v \<or> v \<in> log_records l \<and> orOperationID v = k) \<and> (ops = [] \<longleftrightarrow> l = [] \<and> m = [])"
    using assms
  proof (induction l m rule: loadOperations.induct)
    case (3 y ls m)
    from "3.prems" have p: "\<And>v. mget m (orOperationID y) = Some v \<Longrightarrow> v = y"
      and l: "loadOperations ls (mput (orOperationID y) y m) = Inr ops"
      by (auto split: if_splits option.splits)
    from "3.prems" have n: "\<not> (case mget m (orOperationID y) of None \<Rightarrow> False | Some previous \<Rightarrow> previous \<noteq> y)"
      "\<not> (orOperationID y = [] \<or> \<not> safeDigest (orFingerprint y) \<or> orRevision y \<le> 0 \<or> orCommittedAt y = 0)" by (auto split: if_splits)
    from "3.IH" [OF n l] have ih: "Garbage \<notin> set ls" "\<forall>x \<in> log_records ls. mget ops (orOperationID x) = Some x"
      "\<forall>k v. mget (mput (orOperationID y) y m) k = Some v \<longrightarrow> mget ops k = Some v"
      "\<forall>k v. mget ops k = Some v \<longrightarrow> mget (mput (orOperationID y) y m) k = Some v \<or> v \<in> log_records ls \<and> orOperationID v = k"
      by blast+
    have r: "log_records (Record y # ls) = insert y (log_records ls)" by (auto simp: log_records_def)
    have "mget ops (orOperationID y) = Some y" using ih(3) by simp
    moreover have "ops \<noteq> []" using calculation by auto
    moreover have "mget ops k = Some v" if "mget m k = Some v" for k v
      using ih(3) p that by (cases "k = orOperationID y") auto
    moreover have "mget m k = Some v \<or> v \<in> log_records (Record y # ls) \<and> orOperationID v = k" if "mget ops k = Some v" for k v
      using ih(4) that unfolding r by (auto split: if_splits)
    ultimately show ?case using ih(1,2) unfolding r by auto
  qed (auto simp: log_records_def)
  then show "Garbage \<notin> set l" and "\<And>x. x \<in> log_records l \<Longrightarrow> mget ops (orOperationID x) = Some x"
    and "\<And>k v. mget m k = Some v \<Longrightarrow> mget ops k = Some v"
    and "\<And>k v. mget ops k = Some v \<Longrightarrow> mget m k = Some v \<or> v \<in> log_records l \<and> orOperationID v = k"
    and "ops = [] \<longleftrightarrow> l = [] \<and> m = []" by blast+
qed


text \<open>The records of a run: its current acknowledgement and the lines of its operation log.\<close>

definition current_ack :: "string \<Rightarrow> runDir \<Rightarrow> HistoryAck option" where
  "current_ack runID d = (case readJSON (rdHistories d) (historyPath runID) of Inl _ \<Rightarrow> None | Inr h \<Rightarrow> Some (chAcknowledgement h))"

abbreviation op_lines :: "string \<Rightarrow> runDir \<Rightarrow> operationRecord log" where
  "op_lines runID d \<equiv> log_lines (rdOperations d) (operationsPath runID)"

lemma path_inj [simp]: "operationsPath a = operationsPath b \<longleftrightarrow> a = b" "historyPath a = historyPath b \<longleftrightarrow> a = b"
  by (simp_all add: run_paths)

lemma readHistory_Inr:
  assumes "readHistory runID d = Inr existing"
  shows "case existing of None \<Rightarrow> current_ack runID d = None
    | Some h \<Rightarrow> readJSON (rdHistories d) (historyPath runID) = Inr h \<and> validateCanonicalHistory runID h = None
        \<and> current_ack runID d = Some (chAcknowledgement h)"
  using assms by (auto simp: readHistory_def current_ack_def split: sum.splits option.splits if_splits)

lemma validate_fields:
  assumes "validateCanonicalHistory runID h = None"
  shows "haRunID (chAcknowledgement h) = runID" and "0 < haRevision (chAcknowledgement h)" and "haOperationID (chAcknowledgement h) \<noteq> []"
  using assms by (auto simp: validateCanonicalHistory_def Let_def split: if_splits)

text \<open>What an append leaves of the operation log.\<close>

definition log_step :: "string \<Rightarrow> HistoryAck \<Rightarrow> runDir \<Rightarrow> runDir \<Rightarrow> bool \<Rightarrow> bool" where
  "log_step runID ack d d' done_ok \<longleftrightarrow> (\<exists>l \<in> {op_lines runID d, op_lines runID d @ [Garbage], op_lines runID d @ [Record (ackRecord ack)]}.
     op_lines runID d' = l \<and> (done_ok \<longrightarrow> l = op_lines runID d @ [Record (ackRecord ack)]) \<and>
     (\<forall>r. r \<noteq> runID \<longrightarrow> op_lines r d' = op_lines r d))"

lemma appendOpLine_step:
  assumes "appendOpLine ai runID (ackRecord ack) d = (r, d')"
  shows "log_step runID ack d d' (r = None) \<and> rdHistories d' = rdHistories d"
proof -
  from assms obtain m where m: "appendLine ai (operationsPath runID) (Some (ackRecord ack)) (rdOperations d) = (r, m)"
    and d': "d' = d\<lparr>rdOperations := m\<rparr>" by (auto simp: appendOpLine_def split: prod.splits)
  from m show ?thesis
    by (cases rule: appendLine_cases) (auto simp: d' log_step_def)
qed

definition commit_valid :: "HistoryCommit \<Rightarrow> bool" where
  "commit_valid c \<longleftrightarrow> safeID (hcRunID c) \<and> ckRunID (hcCheckpoint c) = hcRunID c \<and> hcOperationID c \<noteq> [] \<and> length (hcOperationID c) \<le> 256
     \<and> safeDigest (hcFingerprint c)"

lemma commit_cases:
  assumes "CommitHistory ai e c d = (r, d')"
  obtains (refused) err where "d' = d" and "r = Inl err"
  | (replayed) a prev where "d' = d" and "current_ack (hcRunID c) d = Some a" and "prev \<in> log_records (op_lines (hcRunID c) d)"
      and "r = Inr \<lparr>haRunID = hcRunID c, haOperationID = orOperationID prev, haFingerprint = orFingerprint prev, haRevision = orRevision prev,
             haCommittedAt = orCommittedAt prev\<rparr>" and "orOperationID prev = hcOperationID c" and "orFingerprint prev = hcFingerprint c"
  | (repaired) a where "current_ack (hcRunID c) d = Some a" and "haRunID a = hcRunID c" and "haOperationID a = hcOperationID c"
      and "haFingerprint a = hcFingerprint c" and "\<forall>x\<in>log_records (op_lines (hcRunID c) d). orOperationID x \<noteq> hcOperationID c"
      and "rdHistories d' = rdHistories d" and "log_step (hcRunID c) a d d' (\<exists>v. r = Inr v)" and "r = Inr a \<or> (\<exists>err. r = Inl err)"
  | (committed) ack w ops where "\<forall>x\<in>log_records (op_lines (hcRunID c) d). orOperationID x \<noteq> hcOperationID c"
      and "ack = commitAck c (hcExpectedRevision c + 1) (now e)"
      and "case current_ack (hcRunID c) d of None \<Rightarrow> hcExpectedRevision c = 0 \<and> op_lines (hcRunID c) d = []
           | Some a \<Rightarrow> hcExpectedRevision c = haRevision a \<and> 0 < haRevision a \<and> haOperationID a \<noteq> hcOperationID c"
      and "wire_checkpoint (chCheckpoint (nextHistory c ack)) = Some w"
      and "rdHistories d' = AList.update (historyPath (hcRunID c)) (Record \<lparr>chAcknowledgement = ack, chCheckpoint = w\<rparr>) (rdHistories d)"
      and "log_step (hcRunID c) ack d d' (\<exists>v. r = Inr v)" and "r = Inr ack \<or> (\<exists>err. r = Inl err)"
      and "commit_valid c" and "loadOperations (op_lines (hcRunID c) d) [] = Inr ops" and "mget ops (hcOperationID c) = None"
      and "ai \<noteq> Ap_torn \<Longrightarrow> Garbage \<notin> set (op_lines (hcRunID c) d')"
proof -
  let ?R = "hcRunID c"
  show thesis
  proof (cases "(\<exists>err. r = Inl err) \<and> d' = d")
    case True
    then show thesis using refused by blast
  next
    case nofail: False
    from nofail assms obtain existing where h: "readHistory ?R d = Inr existing" and v: "validateID ?R = None"
      and ok: "\<not> (ckRunID (hcCheckpoint c) \<noteq> ?R \<or> hcOperationID c = [] \<or> length (hcOperationID c) > 256 \<or> \<not> safeDigest (hcFingerprint c))"
      by (auto simp: CommitHistory_def Let_def split: option.splits if_splits sum.splits)
    define cur where "cur = (case existing of Some h \<Rightarrow> chAcknowledgement h | None \<Rightarrow> zeroAck)"
    from nofail assms h v ok obtain ops where o: "loadOperations (op_lines ?R d) [] = Inr ops" and ne: "\<not> (existing = None \<and> ops \<noteq> [])"
      by (auto simp: CommitHistory_def Let_def split: option.splits if_splits sum.splits)
    note O = loadOperations_Inr [OF o]
    have cv: "commit_valid c" using v ok by (auto simp: commit_valid_def validateID_def split: if_splits)
    have H: "case existing of None \<Rightarrow> current_ack ?R d = None
      | Some h \<Rightarrow> validateCanonicalHistory ?R h = None \<and> current_ack ?R d = Some (chAcknowledgement h)"
      using readHistory_Inr [OF h] by (auto split: option.splits)
    show thesis
    proof (cases "mget ops (hcOperationID c)")
      case (Some prev)
      with ne have "existing \<noteq> None" by auto
      then obtain hh where hh: "existing = Some hh" by blast
      from O(4) [OF Some] have p: "prev \<in> log_records (op_lines ?R d)" "orOperationID prev = hcOperationID c" by auto
      from assms h v ok o ne Some nofail have "d' = d" "orFingerprint prev = hcFingerprint c"
        "r = Inr \<lparr>haRunID = ?R, haOperationID = orOperationID prev, haFingerprint = orFingerprint prev, haRevision = orRevision prev,
             haCommittedAt = orCommittedAt prev\<rparr>"
        by (auto simp: CommitHistory_def Let_def split: if_splits)
      then show thesis using replayed p H by (auto simp: hh)
    next
      case None
      with O(2) have new: "\<forall>x\<in>log_records (op_lines ?R d). orOperationID x \<noteq> hcOperationID c" by force
      show thesis
      proof (cases "haOperationID cur = hcOperationID c")
        case True
        with ok have "existing \<noteq> None" by (cases existing) (auto simp: cur_def zeroAck_def)
        then obtain hh where hh: "existing = Some hh" by blast
        with H have V: "validateCanonicalHistory ?R hh = None" and A: "current_ack ?R d = Some cur" by (auto simp: cur_def)
        note F = validate_fields [OF V]
        from assms h v ok o ne None nofail True obtain q where fp: "haFingerprint cur = hcFingerprint c"
          and q: "appendOpLine ai ?R (ackRecord (commitAck c (haRevision cur) (haCommittedAt cur))) d = (q, d')"
          and r: "r = (case q of None \<Rightarrow> Inr cur | Some err \<Rightarrow> Inl err)"
          by (auto simp: CommitHistory_def Let_def cur_def [symmetric] split: if_splits prod.splits option.splits)
        have "commitAck c (haRevision cur) (haCommittedAt cur) = cur" using True fp F by (simp add: commitAck_def cur_def hh)
        with appendOpLine_step q have "log_step ?R cur d d' (q = None)" "rdHistories d' = rdHistories d" by auto
        moreover have "(q = None) = (\<exists>v. r = Inr v)" by (auto simp: r split: option.splits)
        ultimately show thesis using repaired [OF A] True fp new F by (auto simp: r cur_def hh split: option.splits)
      next
        case False
        define ack where "ack = commitAck c (haRevision cur + 1) (now e)"
        from assms h v ok o ne None nofail False have rev: "hcExpectedRevision c = haRevision cur"
          by (auto simp: CommitHistory_def Let_def cur_def [symmetric] split: if_splits)
        obtain wq d1 where w: "writeHistory (wio e) ?R (nextHistory c ack) d = (wq, d1)" by fastforce
        have step: "CommitHistory ai e c d = (case writeHistory (wio e) ?R (nextHistory c ack) d of
                  (Some err, d') \<Rightarrow> (Inl (Wrap ''write canonical history'' err), d')
                | (None, d') \<Rightarrow>
                    (case verifyHistory ?R ack d' of Some err \<Rightarrow> (Inl err, d') | None \<Rightarrow>
                     (case appendOpLine ai ?R (ackRecord ack) d' of
                        (Some err, d'') \<Rightarrow> (Inl (Wrap ''append operation acknowledgement'' err), d'')
                      | (None, d'') \<Rightarrow> (Inr ack, d''))))"
          unfolding CommitHistory_def Let_def h v o sum.case option.case cur_def [symmetric] None ack_def
          using ok ne False rev by auto
        show thesis
        proof (cases "wq = Some IOError \<and> d1 = d")
          case True
          with step w assms nofail show thesis by auto
        next
          case wr: False
          from w wr obtain cw where cw: "wire_checkpoint (chCheckpoint (nextHistory c ack)) = Some cw"
            and d1: "d1 = d\<lparr>rdHistories := AList.update (historyPath ?R) (Record \<lparr>chAcknowledgement = ack, chCheckpoint = cw\<rparr>) (rdHistories d)\<rparr>"
            and wq: "wq = None \<or> wq = Some IOError"
            by (cases "wio e") (auto simp: writeHistory_def atomicWrite_def nextHistory_def split: option.splits)
          have E: "ack = commitAck c (hcExpectedRevision c + 1) (now e)" by (simp add: ack_def rev)
          have C: "case current_ack ?R d of None \<Rightarrow> hcExpectedRevision c = 0 \<and> op_lines ?R d = []
             | Some a \<Rightarrow> hcExpectedRevision c = haRevision a \<and> 0 < haRevision a \<and> haOperationID a \<noteq> hcOperationID c"
            using H rev False ne O(5) validate_fields(2) by (auto simp: cur_def zeroAck_def split: option.splits)
          have L1: "log_step ?R ack d d1 False" by (auto simp: log_step_def d1)
          have nohist: thesis if "d' = d1" "r = Inl err" for err
            using committed [OF new E C cw _ _ _ cv o None] L1 O(1) that by (auto simp: d1 log_step_def)
          show thesis
          proof (cases "wq = None \<and> verifyHistory ?R ack d1 = None")
            case False
            with step w assms wq show thesis by (auto intro: nohist split: option.splits)
          next
            case True
            obtain q d2 where q: "appendOpLine ai ?R (ackRecord ack) d1 = (q, d2)" by fastforce
            with True step w assms have r: "r = (case q of None \<Rightarrow> Inr ack | Some err \<Rightarrow> Inl (Wrap ''append operation acknowledgement'' err))"
              and d2: "d' = d2" by (auto split: option.splits)
            from appendOpLine_step [OF q] have L: "log_step ?R ack d1 d2 (q = None)" "rdHistories d2 = rdHistories d1" by auto
            have "log_step ?R ack d d2 (q = None)" using L(1) by (simp add: log_step_def d1)
            moreover have "(q = None) = (\<exists>v. r = Inr v)" by (auto simp: r split: option.splits)
            moreover have "Garbage \<notin> set (op_lines ?R d')" if "ai \<noteq> Ap_torn"
              using q that O(1) by (cases ai) (auto simp: d2 d1 appendOpLine_def appendLine_def)
            ultimately show thesis using committed [OF new E C cw _ _ _ cv o None] L(2) by (auto simp: r d2 d1 split: option.splits)
          qed
        qed
      qed
    qed
  qed
qed


section \<open>One revision, one operation\<close>

definition run_records :: "string \<Rightarrow> runDir \<Rightarrow> operationRecord set" where
  "run_records r d = log_records (op_lines r d) \<union> (case current_ack r d of None \<Rightarrow> {} | Some a \<Rightarrow> {ackRecord a})"

definition run_inv :: "string \<Rightarrow> runDir \<Rightarrow> bool" where
  "run_inv r d \<longleftrightarrow> inj_on orRevision (run_records r d) \<and> inj_on orOperationID (run_records r d) \<and>
     (case current_ack r d of None \<Rightarrow> log_records (op_lines r d) = {}
      | Some a \<Rightarrow> haRunID a = r \<and> (\<forall>x\<in>run_records r d. orRevision x \<le> haRevision a))"

lemma ackRecord_fields [simp]: "orRevision (ackRecord a) = haRevision a" "orOperationID (ackRecord a) = haOperationID a"
  "ackRecord a = ackRecord b \<longleftrightarrow> haOperationID a = haOperationID b \<and> haFingerprint a = haFingerprint b \<and> haRevision a = haRevision b
     \<and> haCommittedAt a = haCommittedAt b"
  by (simp_all add: ackRecord_def)

lemma log_step_records:
  assumes "log_step r a d d' b"
  shows "log_records (op_lines r d') \<in> {log_records (op_lines r d), insert (ackRecord a) (log_records (op_lines r d))}"
    and "b \<Longrightarrow> ackRecord a \<in> log_records (op_lines r d')" and "r' \<noteq> r \<Longrightarrow> op_lines r' d' = op_lines r' d"
  using assms by (auto simp: log_step_def)

lemma run_inv_cong:
  "current_ack r d' = current_ack r d \<Longrightarrow> log_records (op_lines r d') = log_records (op_lines r d) \<Longrightarrow> run_inv r d' = run_inv r d"
  by (cases "current_ack r d") (simp_all add: run_inv_def run_records_def)

lemma commit_keeps_linear:
  assumes "CommitHistory ai e c d = (res, d')" and inv: "run_inv r d"
  shows "run_inv r d'" and "log_records (op_lines r d) \<subseteq> log_records (op_lines r d')"
    and "\<And>a. res = Inr a \<Longrightarrow> haRunID a = hcRunID c \<and> (hcRunID c = r \<longrightarrow> ackRecord a \<in> log_records (op_lines r d'))"
proof -
  have "run_inv r d' \<and> log_records (op_lines r d) \<subseteq> log_records (op_lines r d') \<and>
    (\<forall>a. res = Inr a \<longrightarrow> haRunID a = hcRunID c \<and> (hcRunID c = r \<longrightarrow> ackRecord a \<in> log_records (op_lines r d')))"
    using assms(1)
  proof (cases rule: commit_cases)
    case (replayed a prev)
    define b where "b = \<lparr>haRunID = hcRunID c, haOperationID = orOperationID prev, haFingerprint = orFingerprint prev,
      haRevision = orRevision prev, haCommittedAt = orCommittedAt prev\<rparr>"
    have "ackRecord b = prev" "haRunID b = hcRunID c" by (simp_all add: b_def ackRecord_def)
    with replayed(1,3,4) show ?thesis using inv unfolding b_def [symmetric] by auto
  next
    case (repaired a)
    have cur: "current_ack r d' = current_ack r d" using repaired(6) by (simp add: current_ack_def)
    show ?thesis
    proof (cases "hcRunID c = r")
      case True
      note S = log_step_records [OF repaired(7)]
      have "run_records r d' = run_records r d" using S(1) repaired(1) True by (auto simp: run_records_def cur)
      moreover have "run_inv r d'" using inv calculation repaired(1) True by (simp add: run_inv_def cur)
      ultimately show ?thesis using S(1,2) repaired(2,8) True by auto
    next
      case False
      with log_step_records(3) [OF repaired(7), of r] have "op_lines r d' = op_lines r d" by auto
      with False run_inv_cong [OF cur] inv repaired(2,8) show ?thesis by auto
    qed
  next
    case (committed ack w ops)
    note S = log_step_records [OF committed(6)]
    have ar: "haRunID ack = hcRunID c" "haRevision ack = hcExpectedRevision c + 1" "haOperationID ack = hcOperationID c"
      by (simp_all add: committed(2) commitAck_def)
    show ?thesis
    proof (cases "hcRunID c = r")
      case True
      let ?L = "log_records (op_lines r d)"
      have cur: "current_ack r d' = Some ack" using committed(5) True by (simp add: current_ack_def store_simps)
      have K: "run_records r d' = insert (ackRecord ack) ?L" using S(1) True by (auto simp: run_records_def cur)
      have lt: "\<forall>x\<in>?L. orRevision x < haRevision ack"
        using inv committed(3) True by (auto simp: run_inv_def run_records_def ar split: option.splits)
      have "inj_on orRevision (run_records r d)" "inj_on orOperationID (run_records r d)" "?L \<subseteq> run_records r d"
        using inv by (simp_all add: run_inv_def run_records_def)
      then have "inj_on orRevision ?L" "inj_on orOperationID ?L" by (blast intro: inj_on_subset)+
      moreover have "\<forall>x\<in>?L. orOperationID x \<noteq> haOperationID ack" using committed(1) True by (simp add: ar)
      ultimately have "inj_on orRevision (run_records r d')" "inj_on orOperationID (run_records r d')"
        using lt unfolding K inj_on_insert ackRecord_fields by (metis (no_types, lifting) Diff_iff imageE less_irrefl)+
      then have "run_inv r d'" using lt True ar by (auto simp: run_inv_def cur K)
      then show ?thesis using S(1,2) committed(7) True ar by auto
    next
      case False
      with committed(5) have ca: "current_ack r d' = current_ack r d" by (simp add: current_ack_def store_simps)
      from False S(3) [of r] have ol: "op_lines r d' = op_lines r d" by simp
      have "run_inv r d'" using inv run_inv_cong [OF ca] ol by simp
      then show ?thesis using committed(7) ar(1) False ol by (elim disjE exE) simp_all
    qed
  qed (use inv in auto)
  then show "run_inv r d'" and "log_records (op_lines r d) \<subseteq> log_records (op_lines r d')"
    and "\<And>a. res = Inr a \<Longrightarrow> haRunID a = hcRunID c \<and> (hcRunID c = r \<longrightarrow> ackRecord a \<in> log_records (op_lines r d'))" by blast+
qed

text \<open>A sequence of commits, each with its own failures and clock.\<close>

type_synonym commit_call = "append_io \<times> env \<times> HistoryCommit"

fun do_commit :: "commit_call \<Rightarrow> runDir \<Rightarrow> (go_error + HistoryAck) \<times> runDir" where
  "do_commit (ai, e, c) d = CommitHistory ai e c d"

definition emptyRunDir :: runDir where
  "emptyRunDir = \<lparr>rdTraces = [], rdResults = [], rdHistories = [], rdOperations = []\<rparr>"

lemma commits_acked:
  assumes "run_inv r d"
  shows "run_inv r (run_steps do_commit cs d)" and "log_records (op_lines r d) \<subseteq> log_records (op_lines r (run_steps do_commit cs d))"
    and "\<And>a. Inr a \<in> set (outcomes do_commit cs d) \<Longrightarrow> haRunID a = r \<Longrightarrow> ackRecord a \<in> log_records (op_lines r (run_steps do_commit cs d))"
proof -
  have "run_inv r (run_steps do_commit cs d) \<and> log_records (op_lines r d) \<subseteq> log_records (op_lines r (run_steps do_commit cs d)) \<and>
    (\<forall>a. Inr a \<in> set (outcomes do_commit cs d) \<longrightarrow> haRunID a = r \<longrightarrow> ackRecord a \<in> log_records (op_lines r (run_steps do_commit cs d)))"
    using assms
  proof (induction cs arbitrary: d)
    case (Cons cc cs)
    obtain ai e c where cc: "cc = (ai, e, c)" by (cases cc)
    obtain res d' where s: "CommitHistory ai e c d = (res, d')" by fastforce
    note k = commit_keeps_linear [OF s Cons.prems]
    from Cons.IH [OF k(1)] k show ?case by (auto simp: cc s)
  qed simp
  then show "run_inv r (run_steps do_commit cs d)" and "log_records (op_lines r d) \<subseteq> log_records (op_lines r (run_steps do_commit cs d))"
    and "\<And>a. Inr a \<in> set (outcomes do_commit cs d) \<Longrightarrow> haRunID a = r \<Longrightarrow> ackRecord a \<in> log_records (op_lines r (run_steps do_commit cs d))"
    by blast+
qed

lemma run_inv_empty: "run_inv r emptyRunDir"
  by (simp add: run_inv_def run_records_def emptyRunDir_def current_ack_def readJSON_def log_lines_def)

text \<open>C11. The history of a run is linear: over any sequence of commits to any runs, with failures of the write and of the log at any point, two
  acknowledgements of one run that name the same revision, or the same operation, are the same acknowledgement, fingerprint and
  time included.\<close>

theorem history_linear:
  assumes "Inr a \<in> set (outcomes do_commit cs emptyRunDir)" and "Inr b \<in> set (outcomes do_commit cs emptyRunDir)"
    and "haRunID a = haRunID b" and "haRevision a = haRevision b \<or> haOperationID a = haOperationID b"
  shows "a = b"
proof -
  let ?d = "run_steps do_commit cs emptyRunDir" and ?r = "haRunID b"
  note k = commits_acked [OF run_inv_empty, where r = "?r" and cs = cs]
  from k(3) assms(1-3) have m: "ackRecord a \<in> run_records ?r ?d" "ackRecord b \<in> run_records ?r ?d"
    by (auto simp: run_records_def)
  from k(1) have "inj_on orRevision (run_records ?r ?d)" "inj_on orOperationID (run_records ?r ?d)" by (auto simp: run_inv_def)
  with assms(4) have "ackRecord a = ackRecord b" using m by (metis ackRecord_fields(1,2) inj_on_eq_iff)
  with assms(3) show ?thesis by simp
qed

section \<open>The history a commit leaves\<close>

lemma wire_checkpoint_fields:
  "wire_checkpoint c = Some w \<Longrightarrow> ckVersion w = ckVersion c \<and> ckRunID w = ckRunID c \<and> ckHistoryRevision w = ckHistoryRevision c
     \<and> ckLastOperationID w = ckLastOperationID c \<and> ckLastFingerprint w = ckLastFingerprint c"
  by (auto simp: wire_checkpoint_def split: option.splits)

text \<open>A history that a commit wrote is valid, if the checkpoint has version 2 and the clock does not show the zero time.\<close>

lemma committed_valid:
  assumes "commit_valid c" and "ack = commitAck c (r + 1) t" and "0 \<le> r" and "t \<noteq> 0" and "ckVersion (hcCheckpoint c) = 2"
    and "wire_checkpoint (chCheckpoint (nextHistory c ack)) = Some w"
  shows "validateCanonicalHistory (hcRunID c) \<lparr>chAcknowledgement = ack, chCheckpoint = w\<rparr> = None"
  using wire_checkpoint_fields [OF assms(6)] assms(1-5)
  by (auto simp: validateCanonicalHistory_def Let_def nextHistory_def commitAck_def commit_valid_def)

lemma current_cases_nonneg:
  "case ca of None \<Rightarrow> r = 0 \<and> P | Some a \<Rightarrow> r = haRevision a \<and> 0 < haRevision a \<and> Q a \<Longrightarrow> 0 \<le> r"
  by (auto split: option.splits)

text \<open>Round trip of the canonical history: when a new operation is acknowledged, the next load gives exactly the checkpoint that was committed (up to its
  JSON text), stamped with the acknowledgement, whose revision is the successor of the one the caller expected.\<close>

theorem committed_checkpoint_loads:
  assumes "CommitHistory ai e c d = (Inr a, d')" and "ckVersion (hcCheckpoint c) = 2" and "now e \<noteq> 0"
    and "hcOperationID c \<notin> orOperationID ` run_records (hcRunID c) d"
  shows "\<exists>w. wire_checkpoint (chCheckpoint (nextHistory c a)) = Some w \<and> LoadCheckpoint (hcRunID c) d' = Inr w
    \<and> haRevision a = hcExpectedRevision c + 1"
  using assms(1)
proof (cases rule: commit_cases)
  case (replayed a' prev)
  then have "prev \<in> run_records (hcRunID c) d" by (simp add: run_records_def)
  with replayed assms(4) show ?thesis by (metis image_eqI)
next
  case (repaired a')
  then have "ackRecord a' \<in> run_records (hcRunID c) d" by (simp add: run_records_def)
  with repaired assms(4) show ?thesis by (metis image_eqI ackRecord_fields(2))
next
  case (committed ack w ops)
  from committed_valid [OF committed(8,2) current_cases_nonneg [OF committed(3)] assms(3,2) committed(4)] committed(5,8)
  have "LoadCheckpoint (hcRunID c) d' = Inr w"
    by (simp add: LoadCheckpoint_def validateID_def commit_valid_def store_simps)
  then show ?thesis using committed(2,4,7) by (auto simp: commitAck_def)
qed simp

lemma loadOperations_snoc:
  assumes "loadOperations l m = Inr ops" and "mget ops (orOperationID x) = None" and "orOperationID x \<noteq> []" and "safeDigest (orFingerprint x)"
    and "0 < orRevision x" and "orCommittedAt x \<noteq> 0"
  shows "loadOperations (l @ [Record x]) m = Inr (mput (orOperationID x) x ops)"
  using assms by (induction l m rule: loadOperations.induct) (auto split: if_splits)

text \<open>C12. Crash repair: a commit that put the new history in place and then reported a failure, of the directory sync or of the append of its line to the
  operation log, is completed by its retry, which returns the acknowledgement of the first attempt and does not touch the history.
  The only exception is a line that was torn.\<close>

theorem cut_commit_repaired:
  assumes "CommitHistory ai e c d = (Inl err, d')" and "current_ack (hcRunID c) d' \<noteq> current_ack (hcRunID c) d" and "ai \<noteq> Ap_torn"
    and "ckVersion (hcCheckpoint c) = 2" and "now e \<noteq> 0"
  shows "\<exists>d''. CommitHistory Ap_ok e' c d' = (Inr (commitAck c (hcExpectedRevision c + 1) (now e)), d'') \<and> rdHistories d'' = rdHistories d'"
  using assms(1)
proof (cases rule: commit_cases)
  case (repaired a)
  with assms(2) show ?thesis by (simp add: current_ack_def)
next
  case (committed ack w ops)
  let ?R = "hcRunID c" and ?h = "\<lparr>chAcknowledgement = ack, chCheckpoint = w\<rparr>"
  note r0 = current_cases_nonneg [OF committed(3)]
  from committed_valid [OF committed(8,2) r0 assms(5,4) committed(4)] committed(5)
  have rh: "readHistory ?R d' = Inr (Some ?h)" by (simp add: readHistory_def store_simps)
  have cv: "validateID ?R = None" "\<not> (ckRunID (hcCheckpoint c) \<noteq> ?R \<or> hcOperationID c = [] \<or> length (hcOperationID c) > 256
    \<or> \<not> safeDigest (hcFingerprint c))" using committed(8) by (auto simp: commit_valid_def validateID_def)
  have ack: "haOperationID ack = hcOperationID c" "haFingerprint ack = hcFingerprint c" "haRunID ack = ?R"
    "haRevision ack = hcExpectedRevision c + 1" "haCommittedAt ack = now e" by (simp_all add: committed(2) commitAck_def)
  from committed(6,11) assms(3) consider "op_lines ?R d' = op_lines ?R d" | "op_lines ?R d' = op_lines ?R d @ [Record (ackRecord ack)]"
    by (auto simp: log_step_def)
  then show ?thesis
  proof cases
    case 1
    obtain d'' where a: "appendOpLine Ap_ok ?R (ackRecord ack) d' = (None, d'')" "rdHistories d'' = rdHistories d'"
      by (simp add: appendOpLine_def appendLine_def)
    have "commitAck c (haRevision ack) (haCommittedAt ack) = ack" by (simp add: committed(2) commitAck_def)
    then have "CommitHistory Ap_ok e' c d' = (Inr ack, d'')"
      unfolding CommitHistory_def Let_def cv(1) rh sum.case option.case 1 committed(9,10) using cv(2) ack a by simp
    with a show ?thesis by (simp add: committed(2))
  next
    case 2
    from loadOperations_snoc [OF committed(9), of "ackRecord ack"] committed(10) ack cv(2) r0 assms(5)
    have l: "loadOperations (op_lines ?R d') [] = Inr (mput (hcOperationID c) (ackRecord ack) ops)" unfolding 2 by (simp add: ackRecord_def)
    have "CommitHistory Ap_ok e' c d' = (Inr ack, d')"
      unfolding CommitHistory_def Let_def cv(1) rh sum.case option.case l using cv(2) ack by (simp add: ackRecord_def)
    then show ?thesis by (simp add: committed(2))
  qed
qed (use assms(2) in simp_all)

lemma loadOperations_Garbage: "Garbage \<in> set l \<Longrightarrow> \<exists>err. loadOperations l m = Inl err"
  using loadOperations_Inr(1) by (cases "loadOperations l m") blast+

lemma torn_refused:
  assumes "Garbage \<in> set (op_lines (hcRunID c) d)"
  shows "\<exists>err. CommitHistory ai e c d = (Inl err, d)"
proof -
  from loadOperations_Garbage [OF assms] obtain err where "loadOperations (op_lines (hcRunID c) d) [] = Inl err" by blast
  then show ?thesis by (auto simp: CommitHistory_def Let_def split: option.splits sum.splits)
qed

lemma torn_stays:
  assumes "Garbage \<in> set (op_lines r d)" and "CommitHistory ai e c d = (res, d')"
  shows "Garbage \<in> set (op_lines r d') \<and> current_ack r d' = current_ack r d"
proof (cases "hcRunID c = r")
  case True
  with torn_refused [where c = c and d = d and ai = ai and e = e] assms show ?thesis by auto
next
  case False
  from assms(2) show ?thesis
  proof (cases rule: commit_cases)
    case (repaired a)
    then show ?thesis using assms(1) False by (auto simp: log_step_def current_ack_def)
  next
    case (committed ack w ops)
    then show ?thesis using assms(1) False by (auto simp: log_step_def current_ack_def store_simps)
  qed (use assms(1) in auto)
qed

text \<open>C30. A torn line of the operation log blocks the run: after it every commit to the run fails, whatever operation it carries, the repair of the retry
  included, and the canonical history stays as it is, although that history is whole.\<close>

theorem torn_log_blocks:
  assumes "Garbage \<in> set (op_lines r d)"
  shows "current_ack r (run_steps do_commit cs d) = current_ack r d \<and> (\<forall>a. Inr a \<in> set (outcomes do_commit cs d) \<longrightarrow> haRunID a \<noteq> r)"
  using assms
proof (induction cs arbitrary: d)
  case (Cons cc cs)
  obtain ai e c where cc: "cc = (ai, e, c)" by (cases cc)
  obtain res d' where s: "CommitHistory ai e c d = (res, d')" by fastforce
  note t = torn_stays [OF Cons.prems s]
  from s have "res = Inr b \<Longrightarrow> haRunID b = hcRunID c" for b
    by (cases rule: commit_cases) (auto simp: commitAck_def)
  with torn_refused [where c = c and d = d and ai = ai and e = e] Cons.prems s have "res \<noteq> Inr b" if "haRunID b = r" for b using that by auto
  with Cons.IH t show ?case by (auto simp: cc s)
qed simp

section \<open>Examples\<close>

definition demo_checkpoint :: Checkpoint where
  "demo_checkpoint = \<lparr>ckVersion = 2, ckRunID = ''run-1'', ckTurnID = ''turn-1'', ckAdmission = 1, ckLeaseID = ''lease-1'', ckPrompt = ''hi'',
     ckWorkDir = ''/w'', ckMemoryScope = ''run-1'', ckParentRunID = [], ckParentTurnID = [], ckCapability = zeroCapability,
     ckMessages = [zeroChatMessage\<lparr>msgToolCalls := [zeroToolCall]\<rparr>], ckTurn = 0, ckUsage = zeroUsage, ckReason = NoReason, ckRepeatedCalls = [],
     ckSequence = 1, ckOperationSequence = 1, ckHistoryRevision = 0, ckLastOperationID = ''op-1'', ckLastFingerprint = [],
     ckCommittedInputClaims = [], ckUpdatedAt = 50\<rparr>"

definition demo_commit :: HistoryCommit where
  "demo_commit = \<lparr>hcRunID = ''run-1'', hcOperationID = ''op-1'', hcFingerprint = replicate 64 CHR ''a'', hcExpectedRevision = 0,
     hcCheckpoint = demo_checkpoint\<rparr>"

definition demo_ack :: HistoryAck where
  "demo_ack = commitAck demo_commit 1 100"

definition demo_history :: canonicalHistory where
  "demo_history = (nextHistory demo_commit demo_ack)\<lparr>chCheckpoint := (chCheckpoint (nextHistory demo_commit demo_ack))
     \<lparr>ckMessages := [zeroChatMessage\<lparr>msgToolCalls := [zeroToolCall\<lparr>callArguments := RawJSON JNull\<rparr>]\<rparr>]\<rparr>\<rparr>"

definition demo_runDir :: "operationRecord log \<Rightarrow> runDir" where
  "demo_runDir l = emptyRunDir\<lparr>rdHistories := [(''run-1.history.json'', Record demo_history)], rdOperations := [(''run-1.operations.jsonl'', l)]\<rparr>"

lemmas demo_run_simps = demo_commit_def demo_checkpoint_def demo_ack_def demo_history_def demo_runDir_def emptyRunDir_def commitAck_def
  nextHistory_def ackRecord_def zeroChatMessage_def zeroToolCall_def wire_checkpoint_def wire_message_def wire_call_def

lemma demo_digest: "safeDigest (replicate 64 CHR ''a'')"
  by (simp add: safeDigest_def is_hex_def list_all_iff less_eq_char_def)

lemma demo_commit_ok:
  "CommitHistory ai demo_env demo_commit emptyRunDir =
    (case ai of Ap_ok \<Rightarrow> (Inr demo_ack, demo_runDir [Record (ackRecord demo_ack)])
     | Ap_open \<Rightarrow> (Inl (Wrap ''append operation acknowledgement'' IOError), emptyRunDir\<lparr>rdHistories := [(''run-1.history.json'', Record demo_history)]\<rparr>)
     | Ap_none \<Rightarrow> (Inl (Wrap ''append operation acknowledgement'' IOError), demo_runDir [])
     | Ap_torn \<Rightarrow> (Inl (Wrap ''append operation acknowledgement'' IOError), demo_runDir [Garbage])
     | Ap_late \<Rightarrow> (Inl (Wrap ''append operation acknowledgement'' IOError), demo_runDir [Record (ackRecord demo_ack)]))"
  using demo_digest
  by (cases ai) (simp_all add: CommitHistory_def Let_def demo_run_simps validateID_def is_alnum_def safe_char_def less_eq_char_def readHistory_def
      readJSON_def log_lines_def zeroAck_def writeHistory_def atomicWrite_def demo_env_def verifyHistory_def appendOpLine_def appendLine_def run_paths)

lemma demo_retry_ok: "CommitHistory Ap_ok demo_env demo_commit (demo_runDir [Record (ackRecord demo_ack)]) =
    (Inr demo_ack, demo_runDir [Record (ackRecord demo_ack)])"
  using demo_digest
  by (simp add: CommitHistory_def Let_def demo_run_simps validateID_def is_alnum_def safe_char_def less_eq_char_def readHistory_def
      readJSON_def log_lines_def validateCanonicalHistory_def run_paths)

lemma demo_fields [simp]:
  "now demo_env = 100" "ckVersion (hcCheckpoint demo_commit) = 2" "hcRunID demo_commit = ''run-1''" "hcExpectedRevision demo_commit = 0"
  "current_ack r emptyRunDir = None" "run_records r emptyRunDir = {}" "haRunID demo_ack = ''run-1''"
  "current_ack ''run-1'' (demo_runDir l) = Some demo_ack" "op_lines ''run-1'' (demo_runDir l) = l"
  by (simp_all add: demo_env_def demo_commit_def demo_checkpoint_def current_ack_def run_records_def emptyRunDir_def readJSON_def log_lines_def
      demo_runDir_def demo_ack_def commitAck_def demo_history_def nextHistory_def run_paths)

theorem history_linear_witness:
  "projr (outcomes do_commit [(Ap_ok, demo_env, demo_commit), (Ap_ok, demo_env, demo_commit)] emptyRunDir ! 0) =
   projr (outcomes do_commit [(Ap_ok, demo_env, demo_commit), (Ap_ok, demo_env, demo_commit)] emptyRunDir ! 1)"
  by (rule history_linear [of _ "[(Ap_ok, demo_env, demo_commit), (Ap_ok, demo_env, demo_commit)]"]) (simp_all add: demo_commit_ok demo_retry_ok)

theorem committed_checkpoint_loads_witness:
  "\<exists>w. LoadCheckpoint ''run-1'' (demo_runDir [Record (ackRecord demo_ack)]) = Inr w"
  using committed_checkpoint_loads [of Ap_ok demo_env demo_commit emptyRunDir demo_ack "demo_runDir [Record (ackRecord demo_ack)]"]
  by (auto simp: demo_commit_ok)

theorem cut_commit_repaired_witness:
  "\<exists>d''. CommitHistory Ap_ok demo_env demo_commit (demo_runDir []) = (Inr (commitAck demo_commit 1 100), d'')"
  using cut_commit_repaired [of Ap_none demo_env demo_commit emptyRunDir "Wrap ''append operation acknowledgement'' IOError" "demo_runDir []" demo_env]
  by (auto simp: demo_commit_ok)

theorem torn_log_blocks_witness:
  "Inr demo_ack \<notin> set (outcomes do_commit [(Ap_ok, demo_env, demo_commit)] (snd (CommitHistory Ap_torn demo_env demo_commit emptyRunDir)))"
  using torn_log_blocks [where r = "''run-1''" and d = "demo_runDir [Garbage]" and cs = "[(Ap_ok, demo_env, demo_commit)]"]
  by (auto simp: demo_commit_ok)

definition demo_event :: Event where
  "demo_event = \<lparr>evType = EventCommitted, evRunID = ''run-1'', evSequence = 1, evTimestamp = 60, evTurn = 0, evMessage = zeroChatMessage,
     evToolCall = zeroToolCall, evToolResult = zeroToolResult, evMessages = [], evUsage = zeroUsage,
     evMetadata = [(''revision'', AnyInt64 1)]\<rparr>"

definition demo_result :: EngineRunResult where
  "demo_result = zeroRunResult\<lparr>rrRunID := ''run-1'', rrReason := TerminalCompleted, rrCompletedAt := 70\<rparr>"

theorem trace_round_trip_witness:
  "LoadTrace ''run-1'' (snd (CompleteRun Ap_ok Io_late demo_result (record_all [demo_event] emptyRunDir))) =
     Inr \<lparr>trEvents = [demo_event\<lparr>evToolCall := zeroToolCall\<lparr>callArguments := RawJSON JNull\<rparr>, evMetadata := [(''revision'', AnyFloat (float_of_int 1))]\<rparr>],
           trResult = demo_result\<rparr>"
proof -
  have w: "wire_list wire_event [demo_event] = Some [demo_event\<lparr>evToolCall := zeroToolCall\<lparr>callArguments := RawJSON JNull\<rparr>,
      evMetadata := [(''revision'', AnyFloat (float_of_int 1))]\<rparr>]"
    by (simp add: demo_event_def wire_event_def wire_message_def zeroChatMessage_def wire_call_def zeroToolCall_def wire_meta_def)
  have r: "wire_result demo_result = Some demo_result"
    by (simp add: demo_result_def zeroRunResult_def wire_result_def wire_message_def zeroChatMessage_def)
  show ?thesis
    using trace_round_trip [OF _ _ _ _ w r, of "''run-1''" emptyRunDir Io_late]
    by (simp add: demo_event_def demo_result_def emptyRunDir_def char_eval)
qed

end
