(* ===== verification/Dispatcher.thy ===== *)
theory Dispatcher
  imports WorkHistory CompProps RegistryProps
begin

text \<open>
  The package dispatcher (internal/dispatcher/types.go, store.go): it runs one work item through its life. An execution claims its
  task, queues a run of the assigned agent on the computer the agent is bound to, submits the result of the run, queues a review by
  the gate's reviewer and records its verdict; \<open>Reconcile\<close> advances every execution by one step. The state is one JSON file, a
  \<open>file_store\<close>; the steps call the work item, agent and computer stores, which are the models of the theories \<open>WorkItem\<close>, \<open>Registry\<close>
  and \<open>Computers\<close>. Other clients use those stores between two calls of the dispatcher, so the surroundings of a call
  list the calls that come before it.
\<close>

section \<open>Data\<close>

definition dsSchema :: int where
  "dsSchema = 1"

datatype Phase = PendingClaim | Running | AwaitingChildren | PendingReview | Reviewing | AwaitingHuman | Canceling
  | Succeeded | Failed | Canceled | OtherPhase string

record Execution =
  dxSchemaVersion :: int
  dxID :: string
  dxTaskID :: string
  dxAgentID :: string
  dxReviewerID :: string
  dxPhase :: Phase
  dxAttempt :: int
  dxReviewAttempt :: int
  dxReworkCount :: int
  dxMaxAttempts :: int
  dxTimeoutSeconds :: int
  dxTaskLeaseID :: string
  dxActiveRunID :: string
  dxActiveRunLease :: string
  dxActiveCommandID :: string
  dxResult :: "RunResult option"
  dxCancelReason :: string
  dxLastError :: string
  dxRevision :: int
  dxCreatedAt :: time
  dxUpdatedAt :: time

record DispOperation =
  dpID :: string
  dpFingerprint :: string
  dpExecutionID :: string
  dpRevision :: int
  dpCreatedAt :: time

record DispState =
  dsSchemaVersion :: int
  dsRevision :: int
  dsExecutions :: "Execution gomap"
  dsOperations :: "DispOperation list"
  dsUpdatedAt :: time

record StartInput =
  siOperationID :: string
  siID :: string
  siTaskID :: string
  siMaxAttempts :: int
  siTimeoutSeconds :: int

record CancelInput =
  ciOperationID :: string
  ciReason :: string

record ReconcileResult =
  rcAdvanced :: "string list"
  rcWaiting :: "string list"
  rcFailed :: "string list"

type_synonym dispDir = "DispState dir"

definition dsErrConflict :: go_error where
  "dsErrConflict = Sentinel ''dispatcher conflict''"

definition ErrTerminal :: go_error where
  "ErrTerminal = Sentinel ''dispatcher execution is terminal''"

text \<open>Go's zero value, which a lookup of an absent key gives.\<close>

definition zeroExecution :: Execution where
  "zeroExecution = \<lparr>dxSchemaVersion = 0, dxID = [], dxTaskID = [], dxAgentID = [], dxReviewerID = [], dxPhase = OtherPhase [],
     dxAttempt = 0, dxReviewAttempt = 0, dxReworkCount = 0, dxMaxAttempts = 0, dxTimeoutSeconds = 0, dxTaskLeaseID = [],
     dxActiveRunID = [], dxActiveRunLease = [], dxActiveCommandID = [], dxResult = None, dxCancelReason = [], dxLastError = [],
     dxRevision = 0, dxCreatedAt = 0, dxUpdatedAt = 0\<rparr>"

definition executionOf :: "DispState \<Rightarrow> string \<Rightarrow> Execution" where
  "executionOf st i = (case mget (dsExecutions st) i of Some x \<Rightarrow> x | None \<Rightarrow> zeroExecution)"

section \<open>Identifiers and fingerprints\<close>

text \<open>The callers ignore the error of a value that cannot be encoded and go on with the empty fingerprint.\<close>

definition dispFingerprint :: "string \<Rightarrow> json option \<Rightarrow> string" where
  "dispFingerprint action v = (case v of None \<Rightarrow> [] | Some j \<Rightarrow> semanticFingerprint action j)"

definition start_json :: "StartInput \<Rightarrow> json" where
  "start_json i = JObj [(''operation_id'', JStr (siOperationID i)), (''id'', JStr (siID i)), (''task_id'', JStr (siTaskID i)),
     (''max_attempts'', JInt (siMaxAttempts i)), (''timeout_seconds'', JInt (siTimeoutSeconds i))]"

definition cancel_json :: "CancelInput \<Rightarrow> json" where
  "cancel_json i = JObj [(''operation_id'', JStr (ciOperationID i)), (''reason'', JStr (ciReason i))]"

definition reconcile_json :: "string list \<Rightarrow> time \<Rightarrow> json option" where
  "reconcile_json ids n = map_option (\<lambda>t. JObj [(''executions'', jstrs ids), (''at'', t)]) (json_time n)"

section \<open>The file\<close>

definition dispTerminal :: "Phase \<Rightarrow> bool" where
  "dispTerminal p \<longleftrightarrow> p = Succeeded \<or> p = Failed \<or> p = Canceled"

fun known_phase :: "Phase \<Rightarrow> bool" where
  "known_phase (OtherPhase s) = False"
| "known_phase _ = True"

definition execution_ok :: "string \<times> Execution \<Rightarrow> go_error option" where
  "execution_ok p = (case p of (i, x) \<Rightarrow>
     if i \<noteq> dxID x \<or> dxSchemaVersion x \<noteq> dsSchema \<or> \<not> safeID i \<or> \<not> safeID (dxTaskID x) \<or> \<not> safeID (dxAgentID x)
        \<or> \<not> safeID (dxReviewerID x) \<or> dxAgentID x = dxReviewerID x \<or> dxMaxAttempts x \<le> 0 \<or> dxTimeoutSeconds x \<le> 0
        \<or> dxRevision x \<le> 0 \<or> dxCreatedAt x = 0 \<or> dxUpdatedAt x = 0
     then Some (Errorf ''invalid canonical dispatcher execution'')
     else if \<not> known_phase (dxPhase x) then Some (Errorf ''invalid dispatcher phase'')
     else if (case dxResult x of None \<Rightarrow> False
              | Some r \<Rightarrow> \<not> safeID (rsRunID r) \<or> \<not> safeID (rsTaskID r) \<or> rsTaskID r \<noteq> dxTaskID x)
     then Some (Errorf ''invalid dispatcher result'') else None)"

definition dop_ok :: "DispOperation \<Rightarrow> bool" where
  "dop_ok x \<longleftrightarrow> safeID (dpID x) \<and> safeDigest (dpFingerprint x) \<and> dpCreatedAt x \<noteq> 0"

definition validateDispState :: "DispState \<Rightarrow> go_error option" where
  "validateDispState st =
     (if dsSchemaVersion st \<noteq> dsSchema \<or> dsRevision st < 0 then Some (Errorf ''invalid canonical dispatcher state'') else
      case first_error execution_ok (dsExecutions st) of Some err \<Rightarrow> Some err | None \<Rightarrow>
      if \<not> ledger_ok dop_ok dpID dpRevision (dsOperations st) then Some (Errorf ''invalid dispatcher operation ledger'')
      else if int (length (dsOperations st)) \<noteq> dsRevision st
      then Some (Errorf ''dispatcher operation ledger does not reach revision'') else None)"

definition dispStore :: "DispState file_store" where
  "dispStore = \<lparr>fsPath = ''dispatches-v1.json'', fsValid = validateDispState, fsSame = (\<lambda>x y. dsRevision x = dsRevision y),
     fsMismatch = ''dispatcher state read-back verification failed''\<rparr>"

definition emptyDispState :: "time \<Rightarrow> DispState" where
  "emptyDispState n = \<lparr>dsSchemaVersion = dsSchema, dsRevision = 0, dsExecutions = [], dsOperations = [], dsUpdatedAt = n\<rparr>"

definition NewDispatcher :: "env \<Rightarrow> dispDir \<Rightarrow> go_error option \<times> dispDir" where
  "NewDispatcher e d = openFile dispStore (wio e) (emptyDispState (now e)) d"

definition appendDispOperation :: "string \<Rightarrow> string \<Rightarrow> string \<Rightarrow> time \<Rightarrow> DispState \<Rightarrow> DispState" where
  "appendDispOperation i fp executionID n st = st\<lparr>dsRevision := dsRevision st + 1, dsUpdatedAt := n,
     dsOperations := dsOperations st @ [\<lparr>dpID = i, dpFingerprint = fp, dpExecutionID = executionID, dpRevision = dsRevision st + 1,
       dpCreatedAt = n\<rparr>]\<rparr>"

definition put_execution :: "Execution \<Rightarrow> DispState \<Rightarrow> DispState" where
  "put_execution x st = st\<lparr>dsExecutions := mput (dxID x) x (dsExecutions st)\<rparr>"

definition touch :: "time \<Rightarrow> Execution \<Rightarrow> Execution" where
  "touch n x = x\<lparr>dxRevision := dxRevision x + 1, dxUpdatedAt := n\<rparr>"

definition clearActive :: "Execution \<Rightarrow> Execution" where
  "clearActive x = x\<lparr>dxActiveRunID := [], dxActiveRunLease := [], dxActiveCommandID := []\<rparr>"

section \<open>The world of the dispatcher\<close>

text \<open>The stores, and the number of calls made so far. For each call the surroundings say what other clients of the stores did since
  the call before, and what the call meets: its clock, its file system, its context.\<close>

record dispWorld =
  dwSelf :: dispDir
  dwTasks :: workStore
  dwAgents :: agentDir
  dwComputers :: compDir
  dwTick :: nat

record surround =
  srEnv :: env
  srIo :: io
  srWork :: "work_call list"
  srAgents :: "(agent_call \<times> env) list"
  srComputers :: "(comp_call \<times> env) list"

type_synonym surroundings = "nat \<Rightarrow> surround"

definition others_act :: "surround \<Rightarrow> dispWorld \<Rightarrow> dispWorld" where
  "others_act r w = w\<lparr>dwTasks := run_steps do_work (srWork r) (dwTasks w), dwAgents := run_agents (srAgents r) (dwAgents w),
     dwComputers := run_comp (srComputers r) (dwComputers w), dwTick := dwTick w + 1\<rparr>"

definition ask :: "surroundings \<Rightarrow> dispWorld \<Rightarrow> surround \<times> dispWorld" where
  "ask su w = (su (dwTick w), others_act (su (dwTick w)) w)"

definition askNow :: "surroundings \<Rightarrow> dispWorld \<Rightarrow> time \<times> dispWorld" where
  "askNow su w = (case ask su w of (r, w1) \<Rightarrow> (now (srEnv r), w1))"

definition askTasks :: "surroundings \<Rightarrow> (surround \<Rightarrow> workStore \<Rightarrow> 'a \<times> workStore) \<Rightarrow> dispWorld \<Rightarrow> 'a \<times> dispWorld" where
  "askTasks su call w = (case ask su w of (r, w1) \<Rightarrow> (case call r (dwTasks w1) of (x, s) \<Rightarrow> (x, w1\<lparr>dwTasks := s\<rparr>)))"

definition askComputers :: "surroundings \<Rightarrow> (surround \<Rightarrow> compDir \<Rightarrow> 'a \<times> compDir) \<Rightarrow> dispWorld \<Rightarrow> 'a \<times> dispWorld" where
  "askComputers su call w = (case ask su w of (r, w1) \<Rightarrow> (case call r (dwComputers w1) of (x, d) \<Rightarrow> (x, w1\<lparr>dwComputers := d\<rparr>)))"

definition getTask :: "surroundings \<Rightarrow> string \<Rightarrow> dispWorld \<Rightarrow> (go_error + WTask) \<times> dispWorld" where
  "getTask su i = askTasks su (\<lambda>r s. (GetWork (srEnv r) i s, s))"

definition getAgent :: "surroundings \<Rightarrow> string \<Rightarrow> dispWorld \<Rightarrow> (go_error + Agent) \<times> dispWorld" where
  "getAgent su i w = (case ask su w of (r, w1) \<Rightarrow> (GetAgent (srEnv r) i (dwAgents w1), w1))"

definition getComputers :: "surroundings \<Rightarrow> dispWorld \<Rightarrow> (go_error + CompState) \<times> dispWorld" where
  "getComputers su = askComputers su (\<lambda>r d. (GetCompState (srEnv r) d, d))"

text \<open>\<open>touch(execution, s.now())\<close> at the end of a step.\<close>

definition touchNow :: "surroundings \<Rightarrow> Execution \<Rightarrow> dispWorld \<Rightarrow> Execution \<times> dispWorld" where
  "touchNow su x w = (case askNow su w of (n, w1) \<Rightarrow> (touch n x, w1))"

section \<open>Prompts\<close>

definition handoff_packet :: "Handoff \<Rightarrow> json option" where
  "handoff_packet h = map_option (\<lambda>created. JObj ([(''contract_revision'', JInt (hContractRevision h)), (''author_id'', JStr (hAuthorID h)),
     (''summary'', JStr (hSummary h))] @ jomit_strs ''decisions'' (hDecisions h) @
     [(''evidence'', jstrs (hEvidence h)), (''artifacts'', JArr (map ref_json (hArtifacts h)))] @
     jomit_strs ''remaining'' (hRemaining h) @ jomit_strs ''risks'' (hRisks h) @
     [(''next_action'', JStr (hNextAction h)), (''created_at'', created)])) (json_time (hCreatedAt h))"

definition executePrompt :: "WTask \<Rightarrow> string" where
  "executePrompt task =
     ''Execute this Product Task. Respect the exact contract, produce verifiable evidence, and summarize completed work. Task contract: '' @
     json_text (JObj [(''objective'', JStr (wObjective task)), (''requirements'', JArr (map requirement_json (wRequirements task))),
       (''scope'', scope_json (wScope task)), (''stop_conditions'', jstrs (wStopConditions task))])"

definition reviewPrompt :: "WTask \<Rightarrow> string" where
  "reviewPrompt task =
     ''Independently review the exact submitted artifacts and evidence. Do not trust the author'' @ [CHR 0x27] @
     ''s summary. Return JSON only: {'' @ json_string ''decision'' @ '':'' @ json_string ''pass|reject|needs_human'' @ '','' @
     json_string ''reason'' @ '':'' @ json_string ''...'' @ ''}. Review packet: '' @
     (case handoff_packet (last (wSubmissions task)) of None \<Rightarrow> []
      | Some h \<Rightarrow> json_text (JObj [(''requirements'', JArr (map requirement_json (wRequirements task))), (''gate'', gate_json (wGate task)),
          (''handoff'', h)]))"

section \<open>Claims and runs\<close>

text \<open>\<open>ensureClaim\<close>: keep a live claim of the execution, renew it in its last minute, else claim the task.\<close>

definition claim_ttl :: "Execution \<Rightarrow> duration" where
  "claim_ttl x = (dxTimeoutSeconds x + 120) * Second"

definition ensureClaim :: "surroundings \<Rightarrow> Execution \<Rightarrow> dispWorld \<Rightarrow> (go_error + WTask) \<times> dispWorld" where
  "ensureClaim su x w =
     (case getTask su (dxTaskID x) w of (Inl err, w1) \<Rightarrow> (Inl err, w1) | (Inr task, w1) \<Rightarrow>
      (case askNow su w1 of (n, w2) \<Rightarrow>
       (case (case wClaim task of None \<Rightarrow> None
              | Some c \<Rightarrow> if wcOwnerID c = dxAgentID x \<and> wcLeaseID c = dxTaskLeaseID x \<and> n < wcExpiresAt c then Some c else None) of
          Some c \<Rightarrow>
            if time_Sub (wcExpiresAt c) n > 60 * Second then (Inr task, w2)
            else askTasks su (\<lambda>r. RenewWork (srEnv r) (wID task) (internalOperationID ''renew'' [dxID x, dec_int (wRevision task)])
                   (dxAgentID x) (dxTaskLeaseID x) (wRevision task) (claim_ttl x)) w2
        | None \<Rightarrow>
            askTasks su (\<lambda>r. ClaimWork (srEnv r) (wID task) (internalOperationID ''claim'' [dxID x, dec_int (wRevision task)])
              (dxAgentID x) (dxTaskLeaseID x) (wRevision task) (claim_ttl x)) w2)))"

definition current_session :: "Agent \<Rightarrow> string" where
  "current_session a = (case find (\<lambda>s. sgGeneration s = agCurrentGeneration a) (agSessions a) of Some s \<Rightarrow> sgSessionID s | None \<Rightarrow> [])"

definition runRequest :: "Execution \<Rightarrow> WTask \<Rightarrow> string \<Rightarrow> string \<Rightarrow> RunMode \<Rightarrow> string \<Rightarrow> Agent \<Rightarrow> Computer \<Rightarrow> RunRequest" where
  "runRequest x task agentID runID mode prompt a node =
     \<lparr>rrRunID = runID, rrTaskID = wID task, rrAgentID = agentID, rrMode = mode, rrPrompt = prompt, rrSessionID = current_session a,
      rrAgentRevisionID = agCurrentRevisionID a, rrRelationshipRevisionID = agCurrentRelationship a, rrCapability = cmCapability node,
      rrTimeoutSeconds = dxTimeoutSeconds x, rrMaxTurns = 32, rrApprovedTools = [], rrTaskRevision = wRevision task,
      rrContractRevision = wContractRevision task, rrDispatchedAt = 0\<rparr>"

definition queueRun :: "surroundings \<Rightarrow> Execution \<Rightarrow> WTask \<Rightarrow> string \<Rightarrow> string \<Rightarrow> RunMode \<Rightarrow> string \<Rightarrow> dispWorld
    \<Rightarrow> (go_error + Command \<times> string) \<times> dispWorld" where
  "queueRun su x task agentID runID mode prompt w =
     (case getAgent su agentID w of (Inl err, w1) \<Rightarrow> (Inl err, w1) | (Inr a, w1) \<Rightarrow>
      (case getComputers su w1 of (Inl err, w2) \<Rightarrow> (Inl err, w2) | (Inr st, w2) \<Rightarrow>
       (case mget (ccBindings st) agentID of None \<Rightarrow> (Inl (Errorf ''agent has no computer binding''), w2) | Some b \<Rightarrow>
        let node = computerOf st (bnComputerID b) in
        if cmStatus node \<noteq> Online then (Inl ErrOffline, w2) else
        (case askNow su w2 of (n, w3) \<Rightarrow>
         if \<not> n < cmLeaseExpiresAt node then (Inl ErrOffline, w3) else
         let leaseID = internalOperationID ''run-lease'' [runID] in
         (case askComputers su (\<lambda>r. AcquireRun (srEnv r) \<lparr>liOperationID = internalOperationID ''acquire'' [runID], liRunID = runID,
                 liAgentID = agentID, liComputerID = bnComputerID b, liLeaseID = leaseID,
                 liTTLSeconds = dxTimeoutSeconds x + 120\<rparr>) w3 of
            (Inl err, w4) \<Rightarrow> (Inl err, w4)
          | (Inr _, w4) \<Rightarrow>
              (case askComputers su (\<lambda>r. QueueRun (srEnv r) (internalOperationID ''queue'' [runID])
                      (runRequest x task agentID runID mode prompt a node)) w4 of
                 (Inl err, w5) \<Rightarrow> (Inl err, w5)
               | (Inr command, w5) \<Rightarrow> (Inr (command, leaseID), w5)))))))"

text \<open>All callers ignore the error of \<open>releaseRun\<close>.\<close>

definition releaseRun :: "surroundings \<Rightarrow> Execution \<Rightarrow> dispWorld \<Rightarrow> dispWorld" where
  "releaseRun su x w =
     (if dxActiveRunID x = [] \<or> dxActiveRunLease x = [] then w
      else snd (askComputers su (\<lambda>r. ReleaseRun (srEnv r) (dxActiveRunID x) (internalOperationID ''release'' [dxActiveRunID x])
                  (dxActiveRunLease x)) w))"

definition commandOf :: "surroundings \<Rightarrow> string \<Rightarrow> dispWorld \<Rightarrow> (go_error + Command) \<times> dispWorld" where
  "commandOf su i w =
     (case getComputers su w of (Inl err, w1) \<Rightarrow> (Inl err, w1)
      | (Inr st, w1) \<Rightarrow> (case mget (ccCommands st) i of None \<Rightarrow> (Inl os_ErrNotExist, w1) | Some c \<Rightarrow> (Inr c, w1)))"

section \<open>The steps\<close>

text \<open>A step works on a copy of the execution. It returns whether the execution waits, the error, the copy as
  the step left it, changed fields included when the step fails, and the world.\<close>

type_synonym step_result = "(bool \<times> go_error option) \<times> Execution \<times> dispWorld"

definition advanced :: "surroundings \<Rightarrow> bool \<Rightarrow> Execution \<Rightarrow> dispWorld \<Rightarrow> step_result" where
  "advanced su wait x w = (case touchNow su x w of (x1, w1) \<Rightarrow> ((wait, None), x1, w1))"

definition failExecution :: "surroundings \<Rightarrow> Execution \<Rightarrow> string \<Rightarrow> dispWorld \<Rightarrow> step_result" where
  "failExecution su x reason w =
     (case getTask su (dxTaskID x) (releaseRun su x w) of (got, w1) \<Rightarrow>
      let w2 = (case got of Inl err \<Rightarrow> w1
            | Inr task \<Rightarrow> if wState task \<noteq> Done \<and> wState task \<noteq> Closed
                then snd (askTasks su (\<lambda>r. CloseWork (srEnv r) (wID task) (internalOperationID ''close-failed'' [dxID x]) (wCreatorID task)
                       reason (wRevision task)) w1)
                else w1) in
      advanced su False (clearActive (x\<lparr>dxPhase := Failed, dxLastError := TrimSpace reason\<rparr>)) w2)"

definition exec_run_id :: "Execution \<Rightarrow> string" where
  "exec_run_id x = dxID x @ ''-exec-'' @ dec_int (dxAttempt x + 1)"

definition review_run_id :: "Execution \<Rightarrow> string" where
  "review_run_id x = dxID x @ ''-review-'' @ dec_int (dxReviewAttempt x + 1)"

definition dispatchExecute :: "surroundings \<Rightarrow> Execution \<Rightarrow> dispWorld \<Rightarrow> step_result" where
  "dispatchExecute su x w =
     (if dxAttempt x \<ge> dxMaxAttempts x then failExecution su x ''execution attempts exhausted'' w else
      (case ensureClaim su x w of (Inl err, w1) \<Rightarrow> ((False, Some err), x, w1) | (Inr task, w1) \<Rightarrow>
       (case queueRun su x task (dxAgentID x) (exec_run_id x) RunExecute (executePrompt task) w1 of
          (Inl err, w2) \<Rightarrow> ((False, Some err), x, w2)
        | (Inr (command, leaseID), w2) \<Rightarrow>
            advanced su False (x\<lparr>dxAttempt := dxAttempt x + 1, dxActiveRunID := exec_run_id x, dxActiveRunLease := leaseID,
              dxActiveCommandID := cdID command, dxPhase := Running, dxLastError := []\<rparr>) w2)))"

text \<open>\<open>submitResult\<close>: the artifact of the run is registered once, then the handoff that names it is submitted. The outcome of the two
  writes of \<open>AddArtifact\<close> are \<open>srIo\<close> and the \<open>wio\<close> of the environment.\<close>

definition resultArtifact :: "surroundings \<Rightarrow> Execution \<Rightarrow> RunResult \<Rightarrow> WTask \<Rightarrow> dispWorld \<Rightarrow> (go_error + WTask \<times> Artifact) \<times> dispWorld" where
  "resultArtifact su x r task w =
     (let i = internalOperationID ''result'' [dxID x] in
      (case askTasks su (\<lambda>s ws. (GetArtifact (srEnv s) i (rsRunID r) ws, ws)) w of
         (Inr a, w1) \<Rightarrow> (Inr (task, a), w1)
       | (Inl err, w1) \<Rightarrow>
           if errors_Is err os_ErrNotExist
           then askTasks su (\<lambda>s. AddArtifact (srEnv s) (srIo s) (wID task)
                  \<lparr>aiOperationID = internalOperationID ''artifact'' [rsRunID r], aiExpectedRevision = wRevision task, aiOwnerID = dxAgentID x,
                   aiLeaseID = dxTaskLeaseID x, aiID = i, aiVersion = rsRunID r, aiKind = ''agent_run'', aiURI = rsArtifactURI r,
                   aiDigest = rsArtifactHash r\<rparr>) w1
           else (Inl err, w1)))"

definition resultHandoff :: "Execution \<Rightarrow> RunResult \<Rightarrow> WTask \<Rightarrow> Artifact \<Rightarrow> Handoff" where
  "resultHandoff x r task a =
     \<lparr>hContractRevision = wContractRevision task, hAuthorID = dxAgentID x, hSummary = rsSummary r, hDecisions = [],
      hEvidence = rsEvidence r, hArtifacts = [\<lparr>arID = afID a, arVersion = afVersion a, arDigest = afDigest a\<rparr>], hRemaining = [],
      hRisks = [], hNextAction = ''independent gate review'', hCreatedAt = 0\<rparr>"

definition submitResult :: "surroundings \<Rightarrow> Execution \<Rightarrow> dispWorld \<Rightarrow> step_result" where
  "submitResult su x w =
     (case dxResult x of None \<Rightarrow> ((False, Some (Errorf ''execution result is missing'')), x, w) | Some r \<Rightarrow>
      (case ensureClaim su x w of (Inl err, w1) \<Rightarrow> ((False, Some err), x, w1) | (Inr task0, w1) \<Rightarrow>
       (case resultArtifact su x r task0 w1 of (Inl err, w2) \<Rightarrow> ((False, Some err), x, w2) | (Inr (task, a), w2) \<Rightarrow>
        (case askTasks su (\<lambda>s. SubmitWork (srEnv s) (wID task) (internalOperationID ''submit'' [rsRunID r]) (dxAgentID x)
                (dxTaskLeaseID x) (wRevision task) (resultHandoff x r task a)) w2 of
           (Inl err, w3) \<Rightarrow>
             if errors_Is err ErrTransition
             then advanced su True (x\<lparr>dxPhase := AwaitingChildren, dxLastError := error_text err\<rparr>) w3
             else ((False, Some err), x, w3)
         | (Inr _, w3) \<Rightarrow> advanced su False (x\<lparr>dxPhase := PendingReview, dxLastError := []\<rparr>) w3))))"

definition observeExecute :: "surroundings \<Rightarrow> Execution \<Rightarrow> dispWorld \<Rightarrow> step_result" where
  "observeExecute su x w =
     (case commandOf su (dxActiveCommandID x) w of (Inl err, w1) \<Rightarrow> ((True, Some err), x, w1) | (Inr command, w1) \<Rightarrow>
      case cdState command of
        CommandQueued \<Rightarrow> ((True, None), x, w1)
      | CommandSent \<Rightarrow> ((True, None), x, w1)
      | CommandFailed \<Rightarrow>
          (let w2 = releaseRun su x w1 in
           if dxAttempt x \<ge> dxMaxAttempts x then failExecution su x (cdError command) w2
           else advanced su False (clearActive (x\<lparr>dxPhase := PendingClaim, dxLastError := cdError command\<rparr>)) w2)
      | CommandAcked \<Rightarrow>
          (case cdResult command of None \<Rightarrow> ((False, Some (Errorf ''acknowledged run has no result'')), x, w1) | Some r \<Rightarrow>
           if rsSuccess r \<and> (rsArtifactURI r = [] \<or> \<not> safeDigest (rsArtifactHash r))
           then ((False, Some (Errorf ''successful execution result lacks a durable artifact'')), x, w1) else
           let x1 = x\<lparr>dxResult := Some r\<rparr>; w2 = releaseRun su x1 w1; x2 = clearActive x1 in
           if \<not> rsSuccess r then
             (if dxAttempt x2 \<ge> dxMaxAttempts x2 then failExecution su x2 (rsTerminal r) w2
              else advanced su False (x2\<lparr>dxPhase := PendingClaim, dxLastError := rsTerminal r\<rparr>) w2)
           else submitResult su x2 w2)
      | OtherCommandState s \<Rightarrow> ((False, Some (Errorf ''invalid command state'')), x, w1))"

definition dispatchReview :: "surroundings \<Rightarrow> Execution \<Rightarrow> dispWorld \<Rightarrow> step_result" where
  "dispatchReview su x w =
     (if dxReviewAttempt x \<ge> dxMaxAttempts x
      then advanced su False (x\<lparr>dxPhase := AwaitingHuman, dxLastError := ''review attempts exhausted''\<rparr>) w else
      (case getTask su (dxTaskID x) w of (Inl err, w1) \<Rightarrow> ((False, Some err), x, w1) | (Inr task, w1) \<Rightarrow>
       if wState task \<noteq> InReview \<or> wSubmissions task = []
       then ((False, Some (Errorf ''task is not ready for gate review'')), x, w1) else
       (case queueRun su x task (dxReviewerID x) (review_run_id x) RunReview (reviewPrompt task) w1 of
          (Inl err, w2) \<Rightarrow> ((False, Some err), x, w2)
        | (Inr (command, leaseID), w2) \<Rightarrow>
            advanced su False (x\<lparr>dxReviewAttempt := dxReviewAttempt x + 1, dxActiveRunID := review_run_id x, dxActiveRunLease := leaseID,
              dxActiveCommandID := cdID command, dxPhase := Reviewing, dxLastError := []\<rparr>) w2)))"

text \<open>A review that did not succeed is tried again, or handed to a human when the attempts are used up.\<close>

definition retryReview :: "Execution \<Rightarrow> string \<Rightarrow> Execution" where
  "retryReview x reason = x\<lparr>dxPhase := (if dxReviewAttempt x \<ge> dxMaxAttempts x then AwaitingHuman else PendingReview), dxLastError := reason\<rparr>"

definition decisionOf :: "string \<Rightarrow> GateDecision" where
  "decisionOf s = (if s = decision_name GatePass then GatePass else if s = decision_name GateReject then GateReject else GateNeedsHuman)"

definition gateResult :: "Execution \<Rightarrow> RunResult \<Rightarrow> Handoff \<Rightarrow> GateResult" where
  "gateResult x r latest =
     (let reason = TrimSpace (rsReason r) in
      \<lparr>grDecision = decisionOf (rsDecision r), grReviewerID = dxReviewerID x, grArtifactVersion = hArtifacts latest,
       grEvidence = (if rsEvidence r = [] then [''review run '' @ rsRunID r] else rsEvidence r),
       grReason = (if reason = [] then rsSummary r else reason), grCreatedAt = 0\<rparr>)"

text \<open>The execution after its task was reviewed.\<close>

definition afterReview :: "WState \<Rightarrow> Execution \<Rightarrow> Execution" where
  "afterReview s x = (case s of
       Done \<Rightarrow> x\<lparr>dxPhase := Succeeded\<rparr>
     | InProgress \<Rightarrow> x\<lparr>dxPhase := PendingClaim, dxResult := None, dxReworkCount := dxReworkCount x + 1\<rparr>
     | InReview \<Rightarrow> x\<lparr>dxPhase := AwaitingHuman\<rparr>
     | _ \<Rightarrow> x)"

text \<open>The code takes the last submission of the task without asking whether there is one. A task under review has one: the property
  \<open>reviewed_tasks_have_submissions\<close> of \<open>DispProps\<close> shows that the branch for an empty list, where Go panics, is not reached.\<close>

definition observeReview :: "surroundings \<Rightarrow> Execution \<Rightarrow> dispWorld \<Rightarrow> step_result" where
  "observeReview su x w =
     (case commandOf su (dxActiveCommandID x) w of (Inl err, w1) \<Rightarrow> ((True, Some err), x, w1) | (Inr command, w1) \<Rightarrow>
      case cdState command of
        CommandQueued \<Rightarrow> ((True, None), x, w1)
      | CommandSent \<Rightarrow> ((True, None), x, w1)
      | CommandFailed \<Rightarrow> advanced su False (retryReview (clearActive x) (cdError command)) (releaseRun su x w1)
      | CommandAcked \<Rightarrow>
          (case cdResult command of None \<Rightarrow> ((False, Some (Errorf ''acknowledged review has no result'')), x, w1) | Some r \<Rightarrow>
           let w2 = releaseRun su x w1; x1 = clearActive x in
           if \<not> rsSuccess r then advanced su False (retryReview x1 (rsTerminal r)) w2 else
           (case getTask su (dxTaskID x1) w2 of (Inl err, w3) \<Rightarrow> ((False, Some err), x1, w3) | (Inr task, w3) \<Rightarrow>
            if wSubmissions task = [] then ((False, Some (Errorf ''index out of range'')), x1, w3) else
            (case askTasks su (\<lambda>s. ReviewWork (srEnv s) (wID task) (internalOperationID ''review'' [rsRunID r]) (wRevision task)
                    (gateResult x1 r (last (wSubmissions task)))) w3 of
               (Inl err, w4) \<Rightarrow> ((False, Some err), x1, w4)
             | (Inr task1, w4) \<Rightarrow> advanced su False ((afterReview (wState task1) x1)\<lparr>dxLastError := []\<rparr>) w4)))
      | OtherCommandState s \<Rightarrow> ((False, Some (Errorf ''invalid review command state'')), x, w1))"

definition awaitHuman :: "surroundings \<Rightarrow> Execution \<Rightarrow> dispWorld \<Rightarrow> step_result" where
  "awaitHuman su x w =
     (case getTask su (dxTaskID x) w of (Inl err, w1) \<Rightarrow> ((True, Some err), x, w1) | (Inr task, w1) \<Rightarrow>
      (case wState task of
         Done \<Rightarrow> advanced su False (x\<lparr>dxPhase := Succeeded, dxLastError := []\<rparr>) w1
       | InProgress \<Rightarrow> advanced su False (x\<lparr>dxPhase := PendingClaim, dxResult := None, dxLastError := [],
           dxReworkCount := dxReworkCount x + 1\<rparr>) w1
       | _ \<Rightarrow> ((True, None), x, w1)))"

definition finishCancel :: "surroundings \<Rightarrow> Execution \<Rightarrow> dispWorld \<Rightarrow> step_result" where
  "finishCancel su x w =
     (let (x1, w1) = (if dxActiveRunID x \<noteq> [] then (clearActive x, releaseRun su x w) else (x, w)) in
      (case getTask su (dxTaskID x1) w1 of (Inl err, w2) \<Rightarrow> ((False, Some err), x1, w2) | (Inr task, w2) \<Rightarrow>
       let (closed, w3) = (if wState task \<noteq> Done \<and> wState task \<noteq> Closed
             then askTasks su (\<lambda>r. CloseWork (srEnv r) (wID task) (internalOperationID ''close-cancel'' [dxID x1]) (wCreatorID task)
                    (dxCancelReason x1) (wRevision task)) w2
             else (Inr task, w2)) in
       (case closed of
          Inl err \<Rightarrow> if \<not> errors_Is err ErrTransition then ((False, Some err), x1, w3)
            else advanced su False (x1\<lparr>dxPhase := Canceled, dxLastError := []\<rparr>) w3
        | Inr _ \<Rightarrow> advanced su False (x1\<lparr>dxPhase := Canceled, dxLastError := []\<rparr>) w3)))"

definition advance :: "surroundings \<Rightarrow> Execution \<Rightarrow> dispWorld \<Rightarrow> step_result" where
  "advance su x w = (case dxPhase x of
       PendingClaim \<Rightarrow> dispatchExecute su x w
     | Running \<Rightarrow> observeExecute su x w
     | AwaitingChildren \<Rightarrow> submitResult su x w
     | PendingReview \<Rightarrow> dispatchReview su x w
     | Reviewing \<Rightarrow> observeReview su x w
     | AwaitingHuman \<Rightarrow> awaitHuman su x w
     | Canceling \<Rightarrow> finishCancel su x w
     | Succeeded \<Rightarrow> ((True, None), x, w)
     | Failed \<Rightarrow> ((True, None), x, w)
     | Canceled \<Rightarrow> ((True, None), x, w)
     | OtherPhase s \<Rightarrow> ((False, Some (Errorf ''unknown dispatcher phase'')), x, w))"

section \<open>The operations\<close>

definition saveDisp :: "surroundings \<Rightarrow> DispState \<Rightarrow> dispWorld \<Rightarrow> go_error option \<times> dispWorld" where
  "saveDisp su st w = (case ask su w of (r, w1) \<Rightarrow>
     (case writeFile dispStore (wio (srEnv r)) st (dwSelf w1) of (err, d) \<Rightarrow> (err, w1\<lparr>dwSelf := d\<rparr>)))"

definition trimStart :: "StartInput \<Rightarrow> StartInput" where
  "trimStart i = i\<lparr>siOperationID := TrimSpace (siOperationID i), siID := TrimSpace (siID i), siTaskID := TrimSpace (siTaskID i)\<rparr>"

definition start_valid :: "StartInput \<Rightarrow> bool" where
  "start_valid i \<longleftrightarrow> safeID (siOperationID i) \<and> safeID (siID i) \<and> length (siID i) \<le> 72 \<and> safeID (siTaskID i) \<and>
     0 < siMaxAttempts i \<and> siMaxAttempts i \<le> 10 \<and> 0 < siTimeoutSeconds i \<and> siTimeoutSeconds i \<le> 86280"

definition newExecution :: "StartInput \<Rightarrow> WTask \<Rightarrow> time \<Rightarrow> Execution" where
  "newExecution i task n = zeroExecution\<lparr>dxSchemaVersion := dsSchema, dxID := siID i, dxTaskID := wID task, dxAgentID := wAssigneeID task,
     dxReviewerID := gReviewerID (wGate task), dxPhase := PendingClaim, dxMaxAttempts := siMaxAttempts i,
     dxTimeoutSeconds := siTimeoutSeconds i, dxTaskLeaseID := internalOperationID ''task-lease'' [siID i], dxRevision := 1,
     dxCreatedAt := n, dxUpdatedAt := n\<rparr>"

text \<open>The checks of \<open>Start\<close> before its lock: the task and the two agents.\<close>

definition startTask :: "surroundings \<Rightarrow> StartInput \<Rightarrow> dispWorld \<Rightarrow> (go_error + WTask) \<times> dispWorld" where
  "startTask su i w =
     (case getTask su (siTaskID i) w of (Inl err, w1) \<Rightarrow> (Inl err, w1) | (Inr task, w1) \<Rightarrow>
      let reviewer = gReviewerID (wGate task) in
      if \<not> safeID (wAssigneeID task) \<or> \<not> safeID reviewer \<or> wAssigneeID task = reviewer
      then (Inl (Errorf ''task requires distinct assigned executor and gate reviewer''), w1)
      else if wState task \<noteq> Todo \<and> wState task \<noteq> InProgress
      then (Inl (Errorf ''only todo or in-progress tasks can be dispatched''), w1) else
      (case getAgent su (wAssigneeID task) w1 of (Inl err, w2) \<Rightarrow> (Inl (Wrap ''executor agent'' err), w2) | (Inr _, w2) \<Rightarrow>
       (case getAgent su reviewer w2 of (Inl err, w3) \<Rightarrow> (Inl (Wrap ''reviewer agent'' err), w3) | (Inr _, w3) \<Rightarrow> (Inr task, w3))))"

definition StartExecution :: "surroundings \<Rightarrow> StartInput \<Rightarrow> dispWorld \<Rightarrow> (go_error + Execution) \<times> dispWorld" where
  "StartExecution su i0 w0 =
     (case ask su w0 of (r, w) \<Rightarrow>
      (case cerr (srEnv r) of Some err \<Rightarrow> (Inl err, w) | None \<Rightarrow>
       let i = trimStart i0 in
       if \<not> start_valid i then (Inl (Errorf ''valid operation, execution, task, attempts, and timeout are required''), w) else
       (case startTask su i w of (Inl err, w1) \<Rightarrow> (Inl err, w1) | (Inr task, w1) \<Rightarrow>
        let fp = dispFingerprint ''start'' (Some (start_json i)) in
        (case readFile dispStore (dwSelf w1) of Inl err \<Rightarrow> (Inl err, w1) | Inr st \<Rightarrow>
         (case find_op dpID (siOperationID i) (dsOperations st) of
            Some op \<Rightarrow> if dpFingerprint op \<noteq> fp then (Inl dsErrConflict, w1) else (Inr (executionOf st (dpExecutionID op)), w1)
          | None \<Rightarrow>
              if mget (dsExecutions st) (siID i) \<noteq> None then (Inl dsErrConflict, w1) else
              (case askNow su w1 of (n, w2) \<Rightarrow>
               let x = newExecution i task n in
               (case saveDisp su (appendDispOperation (siOperationID i) fp (dxID x) n (put_execution x st)) w2 of
                  (Some err, w3) \<Rightarrow> (Inl err, w3) | (None, w3) \<Rightarrow> (Inr x, w3))))))))"

text \<open>The command that tells the computer to stop the run; a run whose lease is gone needs none.\<close>

definition cancelRun :: "surroundings \<Rightarrow> string \<Rightarrow> Execution \<Rightarrow> dispWorld \<Rightarrow> go_error option \<times> dispWorld" where
  "cancelRun su op x w =
     (if dxActiveRunID x = [] then (None, w) else
      (case askComputers su (\<lambda>r. QueueCancel (srEnv r) (internalOperationID ''queue-cancel'' [op]) (dxActiveRunID x)) w of
         (Inl err, w1) \<Rightarrow> (if errors_Is err coErrLease then None else Some err, w1)
       | (Inr _, w1) \<Rightarrow> (None, w1)))"

text \<open>The second half of \<open>Cancel\<close>: the command, then the execution with its operation.\<close>

definition commitCancel :: "surroundings \<Rightarrow> string \<Rightarrow> string \<Rightarrow> DispState \<Rightarrow> Execution \<Rightarrow> dispWorld \<Rightarrow> (go_error + Execution) \<times> dispWorld" where
  "commitCancel su op fp st x w =
     (case cancelRun su op x w of (Some err, w1) \<Rightarrow> (Inl err, w1) | (None, w1) \<Rightarrow>
      (case touchNow su x w1 of (x1, w2) \<Rightarrow>
       (case askNow su w2 of (n, w3) \<Rightarrow>
        (case saveDisp su (appendDispOperation op fp (dxID x1) n (put_execution x1 st)) w3 of
           (Some err, w4) \<Rightarrow> (Inl err, w4) | (None, w4) \<Rightarrow> (Inr x1, w4)))))"

definition CancelExecution :: "surroundings \<Rightarrow> string \<Rightarrow> CancelInput \<Rightarrow> dispWorld \<Rightarrow> (go_error + Execution) \<times> dispWorld" where
  "CancelExecution su i0 input0 w0 =
     (case ask su w0 of (r, w) \<Rightarrow>
      (case cerr (srEnv r) of Some err \<Rightarrow> (Inl err, w) | None \<Rightarrow>
       let i = TrimSpace i0;
           input = input0\<lparr>ciOperationID := TrimSpace (ciOperationID input0), ciReason := TrimSpace (ciReason input0)\<rparr> in
       if \<not> safeID i \<or> \<not> safeID (ciOperationID input) \<or> ciReason input = []
       then (Inl (Errorf ''execution, operation, and reason are required''), w) else
       let fp = dispFingerprint ''cancel'' (Some (cancel_json input)) in
       (case readFile dispStore (dwSelf w) of Inl err \<Rightarrow> (Inl err, w) | Inr st \<Rightarrow>
        (case find_op dpID (ciOperationID input) (dsOperations st) of
           Some op \<Rightarrow> if dpFingerprint op \<noteq> fp \<or> dpExecutionID op \<noteq> i then (Inl dsErrConflict, w) else (Inr (executionOf st i), w)
         | None \<Rightarrow>
             (case mget (dsExecutions st) i of None \<Rightarrow> (Inl os_ErrNotExist, w) | Some x0 \<Rightarrow>
              if dispTerminal (dxPhase x0) then (Inl ErrTerminal, w) else
              let x = x0\<lparr>dxPhase := Canceling, dxCancelReason := ciReason input, dxLastError := []\<rparr> in
              commitCancel su (ciOperationID input) fp st x w)))))"

definition ListExecutions :: "env \<Rightarrow> dispDir \<Rightarrow> go_error + Execution list" where
  "ListExecutions e d =
     (case cerr e of Some err \<Rightarrow> Inl err | None \<Rightarrow>
      (case readFile dispStore d of Inl err \<Rightarrow> Inl err | Inr st \<Rightarrow> Inr (sort_key dxCreatedAt (map snd (dsExecutions st)))))"

text \<open>One turn of the loop of \<open>Reconcile\<close>: the execution advances, an error is written into it unless it says so already, and it
  is put back into the state when its revision has changed.\<close>

definition noteError :: "surroundings \<Rightarrow> go_error option \<Rightarrow> Execution \<Rightarrow> dispWorld \<Rightarrow> Execution \<times> dispWorld" where
  "noteError su err x w = (case err of None \<Rightarrow> (x, w)
     | Some er \<Rightarrow> if dxLastError x = error_text er then (x, w) else touchNow su (x\<lparr>dxLastError := error_text er\<rparr>) w)"

definition classify :: "bool \<Rightarrow> bool \<Rightarrow> Execution \<Rightarrow> string \<Rightarrow> ReconcileResult \<Rightarrow> ReconcileResult" where
  "classify wait changed x i res =
     (if dxPhase x = Failed then res\<lparr>rcFailed := rcFailed res @ [i]\<rparr>
      else if wait then res\<lparr>rcWaiting := rcWaiting res @ [i]\<rparr>
      else if changed then res\<lparr>rcAdvanced := rcAdvanced res @ [i]\<rparr> else res)"

definition reconcileOne :: "surroundings \<Rightarrow> string \<Rightarrow> DispState \<times> bool \<times> ReconcileResult \<times> dispWorld
    \<Rightarrow> DispState \<times> bool \<times> ReconcileResult \<times> dispWorld" where
  "reconcileOne su i acc = (case acc of (st, changed, res, w) \<Rightarrow>
     let x = executionOf st i in
     (case advance su x w of ((wait, err), x1, w1) \<Rightarrow>
      (case noteError su err x1 w1 of (x2, w2) \<Rightarrow>
       let moved = dxRevision x2 \<noteq> dxRevision x in
       (if moved then st\<lparr>dsExecutions := mput i x2 (dsExecutions st)\<rparr> else st, changed \<or> moved, classify wait moved x2 i res, w2))))"

fun reconcileAll :: "surroundings \<Rightarrow> string list \<Rightarrow> DispState \<times> bool \<times> ReconcileResult \<times> dispWorld
    \<Rightarrow> DispState \<times> bool \<times> ReconcileResult \<times> dispWorld" where
  "reconcileAll su [] acc = acc"
| "reconcileAll su (i # is) acc = reconcileAll su is (reconcileOne su i acc)"

definition noResult :: ReconcileResult where
  "noResult = \<lparr>rcAdvanced = [], rcWaiting = [], rcFailed = []\<rparr>"

definition ReconcileDispatcher :: "surroundings \<Rightarrow> dispWorld \<Rightarrow> (go_error + ReconcileResult) \<times> dispWorld" where
  "ReconcileDispatcher su w0 =
     (case ask su w0 of (r, w) \<Rightarrow>
      (case cerr (srEnv r) of Some err \<Rightarrow> (Inl err, w) | None \<Rightarrow>
       (case readFile dispStore (dwSelf w) of Inl err \<Rightarrow> (Inl err, w) | Inr st0 \<Rightarrow>
        let ids = sort_by (<) (map fst (dsExecutions st0)) in
        (case reconcileAll su ids (st0, False, noResult, w) of (st, changed, res, w1) \<Rightarrow>
         if \<not> changed then (Inr res, w1) else
         (case askNow su w1 of (n, w2) \<Rightarrow>
          (case saveDisp su (appendDispOperation
                  (internalOperationID ''reconcile'' [dec_int (dsRevision st + 1), format_rfc3339nano n])
                  (dispFingerprint ''reconcile'' (reconcile_json ids n)) ''scheduler'' n st) w2 of
             (Some err, w3) \<Rightarrow> (Inl err, w3) | (None, w3) \<Rightarrow> (Inr res, w3)))))))"

end
