(* ===== verification/DispProps.thy ===== *)
theory DispProps
  imports Dispatcher
begin

text \<open>
  The theorems about the dispatcher: what an execution's phase says about its task whatever other clients do to the stores between its
  calls, which fields of an execution change, how many runs it starts and for how long it claims, and the states it cannot leave.
\<close>

section \<open>What a step leaves of the stores\<close>

text \<open>The tasks only move forward, and the dispatcher's own file is written by \<open>saveDisp\<close> alone.\<close>

definition tasks_step :: "dispWorld \<Rightarrow> dispWorld \<Rightarrow> bool" where
  "tasks_step w w' \<longleftrightarrow> dwSelf w' = dwSelf w \<and>
     (work_inv (dwTasks w) \<longrightarrow> work_inv (dwTasks w') \<and> store_le (dwTasks w) (dwTasks w'))"

lemma tasks_step_refl [simp]: "tasks_step w w"
  by (simp add: tasks_step_def)

lemma tasks_step_trans: "tasks_step a b \<Longrightarrow> tasks_step b c \<Longrightarrow> tasks_step a c"
  by (auto simp: tasks_step_def intro: store_le_trans)

lemma ask_step: "ask su w = (r, w') \<Longrightarrow> tasks_step w w'"
  using work_history [of "dwTasks w" "srWork (su (dwTick w))"] by (auto simp: ask_def others_act_def tasks_step_def)

lemma askNow_step: "askNow su w = (n, w') \<Longrightarrow> tasks_step w w'"
  by (auto simp: askNow_def split: prod.splits intro: ask_step)

text \<open>A call of the work item store, as the dispatcher makes it: what the store promises of all its operations.\<close>

locale task_call =
  fixes call :: "surround \<Rightarrow> workStore \<Rightarrow> 'a \<times> workStore"
  assumes call_keeps: "work_inv s \<Longrightarrow> work_inv (snd (call r s)) \<and> store_le s (snd (call r s))"
begin

lemma asked: "askTasks su call w = (x, w') \<Longrightarrow> tasks_step w w'"
proof -
  assume a: "askTasks su call w = (x, w')"
  obtain r w1 where k: "ask su w = (r, w1)" by fastforce
  obtain y s where c: "call r (dwTasks w1) = (y, s)" by fastforce
  have "w' = w1\<lparr>dwTasks := s\<rparr>" using a k c by (simp add: askTasks_def)
  with ask_step [OF k] call_keeps [of "dwTasks w1" r] c show ?thesis by (auto simp: tasks_step_def intro: store_le_trans)
qed

end

interpretation read_call: task_call "\<lambda>r s. (f r s, s)" for f
  by unfold_locales simp

interpretation req_call: task_call "\<lambda>r. do_req q (srEnv r)" for q
  by unfold_locales (rule do_req_step)

interpretation artifact_call: task_call "\<lambda>r. AddArtifact (srEnv r) (srIo r) i a" for i a
  by unfold_locales (use AddArtifact_step [OF _ prod.collapse [symmetric]] in blast)

lemmas claim_asked = req_call.asked [where q = "RClaim i op owner lease er ttl" for i op owner lease er ttl, unfolded do_req.simps]
lemmas renew_asked = req_call.asked [where q = "RRenew i op owner lease er ttl" for i op owner lease er ttl, unfolded do_req.simps]
lemmas submit_asked = req_call.asked [where q = "RSubmit i op owner lease er h" for i op owner lease er h, unfolded do_req.simps]
lemmas review_asked = req_call.asked [where q = "RReview i op er res" for i op er res, unfolded do_req.simps]
lemmas close_asked = req_call.asked [where q = "RClose i op actor reason er" for i op actor reason er, unfolded do_req.simps]

lemma askComputers_step: "askComputers su call w = (x, w') \<Longrightarrow> tasks_step w w'"
proof -
  assume a: "askComputers su call w = (x, w')"
  obtain r w1 where k: "ask su w = (r, w1)" by fastforce
  obtain y d where c: "call r (dwComputers w1) = (y, d)" by fastforce
  have "w' = w1\<lparr>dwComputers := d\<rparr>" using a k c by (simp add: askComputers_def)
  with ask_step [OF k] show ?thesis by (simp add: tasks_step_def)
qed

lemma getTask_step: "getTask su i w = (x, w') \<Longrightarrow> tasks_step w w'"
  unfolding getTask_def by (rule read_call.asked)

lemma getAgent_step: "getAgent su i w = (x, w') \<Longrightarrow> tasks_step w w'"
  by (auto simp: getAgent_def split: prod.splits intro: ask_step)

lemma getComputers_step: "getComputers su w = (x, w') \<Longrightarrow> tasks_step w w'"
  unfolding getComputers_def by (rule askComputers_step)

lemma commandOf_step: "commandOf su i w = (x, w') \<Longrightarrow> tasks_step w w'"
  by (auto simp: commandOf_def split: prod.splits sum.splits option.splits dest!: getComputers_step)

lemma releaseRun_step: "tasks_step w (releaseRun su x w)"
  by (auto simp: releaseRun_def intro: askComputers_step [OF prod.collapse [symmetric]])

lemma ensureClaim_step: "ensureClaim su x w = (r, w') \<Longrightarrow> tasks_step w w'"
  by (auto simp: ensureClaim_def split: prod.splits sum.splits option.splits if_splits
      dest!: getTask_step askNow_step claim_asked renew_asked intro: tasks_step_trans)

lemma queueRun_step: "queueRun su x task a i mode p w = (r, w') \<Longrightarrow> tasks_step w w'"
  by (auto simp: queueRun_def Let_def split: prod.splits sum.splits option.splits if_splits
      dest!: getAgent_step getComputers_step askNow_step askComputers_step intro: tasks_step_trans)
    (meson tasks_step_trans)+

lemma resultArtifact_step: "resultArtifact su x r task w = (y, w') \<Longrightarrow> tasks_step w w'"
  by (auto simp: resultArtifact_def Let_def split: prod.splits sum.splits if_splits
      dest!: read_call.asked artifact_call.asked intro: tasks_step_trans)

section \<open>What a step does to the execution\<close>

text \<open>What never changes in an execution, the counters that only grow, and their limits.\<close>

definition later :: "Execution \<Rightarrow> Execution \<Rightarrow> bool" where
  "later x y \<longleftrightarrow> dxSchemaVersion y = dxSchemaVersion x \<and> dxID y = dxID x \<and> dxTaskID y = dxTaskID x \<and> dxAgentID y = dxAgentID x \<and>
     dxReviewerID y = dxReviewerID x \<and> dxMaxAttempts y = dxMaxAttempts x \<and> dxTimeoutSeconds y = dxTimeoutSeconds x \<and>
     dxTaskLeaseID y = dxTaskLeaseID x \<and> dxCreatedAt y = dxCreatedAt x \<and> dxRevision x \<le> dxRevision y \<and>
     dxAttempt x \<le> dxAttempt y \<and> dxReviewAttempt x \<le> dxReviewAttempt y \<and> dxReworkCount x \<le> dxReworkCount y"

definition counted :: "Execution \<Rightarrow> bool" where
  "counted x \<longleftrightarrow> 0 \<le> dxAttempt x \<and> dxAttempt x \<le> dxMaxAttempts x \<and> 0 \<le> dxReviewAttempt x \<and> dxReviewAttempt x \<le> dxMaxAttempts x \<and>
     dxMaxAttempts x \<le> 10 \<and> 0 < dxTimeoutSeconds x \<and> claim_ttl x \<le> 24 * Hour"

lemma later_refl [simp]: "later x x"
  by (simp add: later_def)

lemma later_trans: "later x y \<Longrightarrow> later y z \<Longrightarrow> later x z"
  by (auto simp: later_def)

lemma later_touch [simp]: "later x y \<Longrightarrow> later x (touch n y)"
  by (simp add: later_def touch_def)

lemma counted_touch [simp]: "counted (touch n x) = counted x"
  by (simp add: counted_def touch_def claim_ttl_def)

text \<open>What the phase of an execution says about the task.\<close>

definition task_state :: "dispWorld \<Rightarrow> Execution \<Rightarrow> (WTask \<Rightarrow> bool) \<Rightarrow> bool" where
  "task_state w x P \<longleftrightarrow> (\<exists>t. readJSON (wsTasks (dwTasks w)) (taskPath (dxTaskID x)) = Inr t \<and> P t)"

definition grounded :: "dispWorld \<Rightarrow> Execution \<Rightarrow> bool" where
  "grounded w x \<longleftrightarrow> (dxPhase x = Succeeded \<longrightarrow> task_state w x (\<lambda>t. wState t = Done)) \<and>
     (dxPhase x = Reviewing \<longrightarrow> task_state w x (\<lambda>t. wSubmissions t \<noteq> []))"

lemma task_state_step:
  assumes "tasks_step w w'" and "work_inv (dwTasks w)" and "task_state w x P" and "\<And>t u. work_le t u \<Longrightarrow> P t \<Longrightarrow> P u"
  shows "task_state w' x P"
proof -
  from assms(1,2) have "store_le (dwTasks w) (dwTasks w')" by (simp add: tasks_step_def)
  with assms(3,4) show ?thesis unfolding task_state_def store_le_def by blast
qed

lemma grounded_step:
  assumes "tasks_step w w'" and "work_inv (dwTasks w)" and "grounded w x"
  shows "grounded w' x"
proof -
  have "work_le t u \<Longrightarrow> wState t = Done \<Longrightarrow> wState u = Done" for t u by (auto simp: work_le_def work_terminal_def)
  moreover have "work_le t u \<Longrightarrow> wSubmissions t \<noteq> [] \<Longrightarrow> wSubmissions u \<noteq> []" for t u by (auto simp: work_le_def)
  ultimately show ?thesis using assms task_state_step [OF assms(1,2)] unfolding grounded_def by blast
qed

lemma grounded_cong: "dxPhase y = dxPhase x \<Longrightarrow> dxTaskID y = dxTaskID x \<Longrightarrow> grounded w y = grounded w x"
  by (simp add: grounded_def task_state_def)

lemma grounded_touch [simp]: "grounded w (touch n x) = grounded w x"
  by (rule grounded_cong) (simp_all add: touch_def)

text \<open>A step that keeps all this.\<close>

definition good :: "Execution \<Rightarrow> dispWorld \<Rightarrow> step_result \<Rightarrow> bool" where
  "good x w res \<longleftrightarrow> (case res of (out, y, w') \<Rightarrow> tasks_step w w' \<and> later x y \<and> (counted x \<longrightarrow> counted y) \<and>
     (work_inv (dwTasks w) \<longrightarrow> grounded w x \<longrightarrow> grounded w' y))"

text \<open>Every change of a step in its execution apart from the phase, as an update that keeps what identifies and counts.\<close>

definition same_counts :: "Execution \<Rightarrow> Execution \<Rightarrow> bool" where
  "same_counts x y \<longleftrightarrow> later x y \<and> (counted x \<longrightarrow> counted y)"

lemma same_counts_refl [simp]: "same_counts x x"
  by (simp add: same_counts_def)

lemma same_counts_trans: "same_counts x y \<Longrightarrow> same_counts y z \<Longrightarrow> same_counts x z"
  by (auto simp: same_counts_def intro: later_trans)

lemma same_counts_update [simp]:
  "same_counts x y \<Longrightarrow> same_counts x (clearActive y)" "same_counts x y \<Longrightarrow> same_counts x (y\<lparr>dxPhase := p\<rparr>)"
  "same_counts x y \<Longrightarrow> same_counts x (y\<lparr>dxLastError := e\<rparr>)" "same_counts x y \<Longrightarrow> same_counts x (y\<lparr>dxResult := r\<rparr>)"
  "same_counts x y \<Longrightarrow> dxReworkCount y \<le> n \<Longrightarrow> same_counts x (y\<lparr>dxReworkCount := n\<rparr>)" "same_counts x y \<Longrightarrow> same_counts x (touch n y)"
  by (auto simp: same_counts_def later_def counted_def clearActive_def touch_def claim_ttl_def)

lemma good_same: "tasks_step w w' \<Longrightarrow> same_counts x y \<Longrightarrow> dxPhase y = dxPhase x \<Longrightarrow> good x w (out, y, w')"
  using grounded_step [of w w' x] grounded_cong [of y x w'] by (auto simp: good_def same_counts_def later_def)

lemma advanced_good:
  assumes "tasks_step w w1" and "same_counts x y"
    and "work_inv (dwTasks w) \<Longrightarrow> work_inv (dwTasks w1) \<Longrightarrow> grounded w x \<Longrightarrow> grounded w1 y"
  shows "good x w (advanced su b y w1)"
proof -
  obtain n w2 where n: "askNow su w1 = (n, w2)" by fastforce
  note s = askNow_step [OF n]
  have "work_inv (dwTasks w) \<Longrightarrow> grounded w x \<Longrightarrow> grounded w2 y"
    using assms(1,3) s grounded_step [OF s] by (auto simp: tasks_step_def)
  with n s assms(1,2) show ?thesis
    by (auto simp: good_def advanced_def touchNow_def same_counts_def intro: tasks_step_trans)
qed

text \<open>A step into any other phase needs no reason.\<close>

lemma advanced_plain:
  assumes "tasks_step w w1" and "same_counts x y" and "dxPhase y \<noteq> Succeeded" and "dxPhase y \<noteq> Reviewing"
  shows "good x w (advanced su b y w1)"
  using assms(1,2) by (rule advanced_good) (simp add: grounded_def assms(3,4))

lemma good_from:
  assumes "tasks_step w w1" and "same_counts x y" and "dxPhase y = dxPhase x" and "good y w1 res"
  shows "good x w res"
proof -
  obtain out z w2 where r: "res = (out, z, w2)" by (metis prod_cases3)
  have "work_inv (dwTasks w) \<Longrightarrow> grounded w x \<Longrightarrow> work_inv (dwTasks w1) \<and> grounded w1 y"
    using assms(1,2,3) grounded_step [OF assms(1), of x] grounded_cong [of y x w1]
    by (auto simp: tasks_step_def same_counts_def later_def)
  with r assms show ?thesis by (auto simp: good_def same_counts_def intro: tasks_step_trans later_trans)
qed

section \<open>Every step is such a step\<close>

lemma failExecution_good: "good x w (failExecution su x reason w)"
proof -
  obtain got w1 where g: "getTask su (dxTaskID x) (releaseRun su x w) = (got, w1)" by fastforce
  from releaseRun_step getTask_step [OF g] have s: "tasks_step w w1" by (rule tasks_step_trans)
  have "tasks_step w (snd (askTasks su (\<lambda>r. CloseWork (srEnv r) i op actor reason er) w1))" for i op actor er
    using s close_asked [OF prod.collapse [symmetric]] by (rule tasks_step_trans)
  with s show ?thesis unfolding failExecution_def g
    by (auto simp: Let_def clearActive_def intro!: advanced_plain split: sum.split)
      (simp_all add: same_counts_def later_def counted_def claim_ttl_def)
qed

lemma exec_started: "dxAttempt x < dxMaxAttempts x \<Longrightarrow> same_counts x (x\<lparr>dxAttempt := dxAttempt x + 1, dxActiveRunID := i,
    dxActiveRunLease := l, dxActiveCommandID := c, dxPhase := p, dxLastError := e\<rparr>)"
  by (simp add: same_counts_def later_def counted_def claim_ttl_def)

lemma review_started: "dxReviewAttempt x < dxMaxAttempts x \<Longrightarrow> same_counts x (x\<lparr>dxReviewAttempt := dxReviewAttempt x + 1,
    dxActiveRunID := i, dxActiveRunLease := l, dxActiveCommandID := c, dxPhase := p, dxLastError := e\<rparr>)"
  by (simp add: same_counts_def later_def counted_def claim_ttl_def)

lemma dispatchExecute_good: "good x w (dispatchExecute su x w)"
  by (auto simp: dispatchExecute_def failExecution_good split: prod.split sum.split
      dest!: ensureClaim_step queueRun_step intro!: good_same advanced_plain exec_started intro: tasks_step_trans)

lemma submitResult_good: "good x w (submitResult su x w)"
proof (cases "dxResult x")
  case None
  then show ?thesis by (simp add: submitResult_def good_same)
next
  case (Some r)
  obtain c w1 where c: "ensureClaim su x w = (c, w1)" by fastforce
  note s1 = ensureClaim_step [OF c]
  show ?thesis
  proof (cases c)
    case (Inl err)
    with Some c s1 show ?thesis by (simp add: submitResult_def good_same)
  next
    case (Inr task0)
    obtain k w2 where k: "resultArtifact su x r task0 w1 = (k, w2)" by fastforce
    from s1 resultArtifact_step [OF k] have s2: "tasks_step w w2" by (rule tasks_step_trans)
    show ?thesis
    proof (cases k)
      case Inl
      with Some c Inr k s2 show ?thesis by (simp add: submitResult_def good_same)
    next
      case k': (Inr p)
      obtain task a where p: "p = (task, a)" by fastforce
      let ?call = "\<lambda>s. SubmitWork (srEnv s) (wID task) (internalOperationID ''submit'' [rsRunID r]) (dxAgentID x) (dxTaskLeaseID x)
        (wRevision task) (resultHandoff x r task a)"
      obtain y w3 where y: "askTasks su ?call w2 = (y, w3)" by fastforce
      from s2 submit_asked [OF y] have s3: "tasks_step w w3" by (rule tasks_step_trans)
      with Some c Inr k k' p y show ?thesis
        by (auto simp: submitResult_def split: sum.split intro!: good_same advanced_plain)
    qed
  qed
qed

lemma observeExecute_good: "good x w (observeExecute su x w)"
proof -
  obtain g w1 where g: "commandOf su (dxActiveCommandID x) w = (g, w1)" by fastforce
  note s1 = commandOf_step [OF g]
  have s2: "tasks_step w (releaseRun su y w1)" for y using s1 releaseRun_step by (rule tasks_step_trans)
  have f: "same_counts x y \<Longrightarrow> dxPhase y = dxPhase x \<Longrightarrow> good x w (failExecution su y reason (releaseRun su z w1))" for y z reason
    by (rule good_from [OF s2 _ _ failExecution_good])
  have sub: "same_counts x y \<Longrightarrow> dxPhase y = dxPhase x \<Longrightarrow> good x w (submitResult su y (releaseRun su z w1))" for y z
    by (rule good_from [OF s2 _ _ submitResult_good])
  from g s1 s2 show ?thesis
    by (auto simp: observeExecute_def Let_def split: sum.split CommandState.split option.split
        intro!: good_same advanced_plain f sub) (simp_all add: clearActive_def)
qed

lemma getTask_got:
  assumes "getTask su i w = (Inr t, w')"
  shows "readTask i (wsTasks (dwTasks w')) = Inr t"
proof -
  obtain r w1 where k: "ask su w = (r, w1)" by fastforce
  with assms have "GetWork (srEnv r) i (dwTasks w1) = Inr t" and "w' = w1\<lparr>dwTasks := dwTasks w1\<rparr>"
    by (auto simp: getTask_def askTasks_def)
  then show ?thesis by (simp add: GetWork_def split: option.splits if_splits)
qed

lemma dispatchReview_good: "good x w (dispatchReview su x w)"
proof (cases "dxReviewAttempt x \<ge> dxMaxAttempts x")
  case True
  then show ?thesis by (simp add: dispatchReview_def advanced_plain)
next
  case False
  obtain g w1 where g: "getTask su (dxTaskID x) w = (g, w1)" by fastforce
  note s1 = getTask_step [OF g]
  show ?thesis
  proof (cases "\<exists>task. g = Inr task \<and> wState task = InReview \<and> wSubmissions task \<noteq> []")
    case True
    then obtain task where t: "g = Inr task" "wState task = InReview" "wSubmissions task \<noteq> []" by blast
    obtain q w2 where q: "queueRun su x task (dxReviewerID x) (review_run_id x) RunReview (reviewPrompt task) w1 = (q, w2)" by fastforce
    note s2 = queueRun_step [OF q]
    have r: "readTask (dxTaskID x) (wsTasks (dwTasks w1)) = Inr task" using g t(1) getTask_got by simp
    with t(3) have "task_state w1 x (\<lambda>t. wSubmissions t \<noteq> [])" by (auto simp: task_state_def readTask_Inr)
    moreover have "work_le t u \<Longrightarrow> wSubmissions t \<noteq> [] \<Longrightarrow> wSubmissions u \<noteq> []" for t u by (auto simp: work_le_def)
    ultimately have sub: "work_inv (dwTasks w1) \<Longrightarrow> task_state w2 x (\<lambda>t. wSubmissions t \<noteq> [])" using task_state_step [OF s2] by blast
    have "dxReviewAttempt x < dxMaxAttempts x" using False by simp
    from review_started [OF this] q t g False s1 s2 sub show ?thesis
      by (auto simp: dispatchReview_def split: sum.split prod.split intro!: good_same advanced_good intro: tasks_step_trans)
        (auto simp: grounded_def task_state_def tasks_step_def)
  next
    case F: False
    with False g s1 show ?thesis by (cases g) (auto simp: dispatchReview_def good_same)
  qed
qed

lemma do_req_stored:
  assumes "work_inv s" and "do_req q e s = (Inr v, s')"
  shows "readTask (req_task q) (wsTasks s') = Inr v"
proof (cases q e s rule: do_req_mutate)
  case (mutates action sem upd)
  from mutates(1) assms(2) have "mutateWork e (req_task q) (req_op q) action (req_revision q) sem upd s = (Inr v, s')" by simp
  then show ?thesis
  proof (cases rule: mutateWork_cases)
    case (committed t t1)
    show ?thesis using committed_read(1) [OF assms(1) committed(1) mutates(2) committed(4,7,8)] committed(9) by simp
  qed simp
qed (use assms(2) in simp)

lemma asked_stored:
  assumes "askTasks su (\<lambda>r. do_req q (srEnv r)) w = (Inr v, w')" and "work_inv (dwTasks w)"
  shows "readTask (req_task q) (wsTasks (dwTasks w')) = Inr v"
proof -
  obtain r w1 where k: "ask su w = (r, w1)" by fastforce
  obtain y s where c: "do_req q (srEnv r) (dwTasks w1) = (y, s)" by fastforce
  have i: "work_inv (dwTasks w1)" using ask_step [OF k] assms(2) by (simp add: tasks_step_def)
  from assms(1) k c have y: "y = Inr v" and s: "dwTasks w' = s" by (auto simp: askTasks_def)
  from do_req_stored [OF i c [unfolded y]] show ?thesis by (simp only: s)
qed

lemmas review_stored = asked_stored [where q = "RReview i op er res" for i op er res, unfolded do_req.simps req_task.simps]

lemma awaitHuman_good: "good x w (awaitHuman su x w)"
proof -
  obtain g w1 where g: "getTask su (dxTaskID x) w = (g, w1)" by fastforce
  have "g = Inr task \<Longrightarrow> wState task = Done \<Longrightarrow> grounded w1 (x\<lparr>dxPhase := Succeeded, dxLastError := []\<rparr>)" for task
    using getTask_got [of su "dxTaskID x" w task w1] g by (simp add: grounded_def task_state_def readTask_Inr)
  with g getTask_step [OF g] show ?thesis
    by (auto simp: awaitHuman_def split: sum.split WState.split intro!: good_same advanced_good) (simp add: grounded_def)
qed

lemma finishCancel_good: "good x w (finishCancel su x w)"
proof -
  obtain x1 w1 where a: "(if dxActiveRunID x \<noteq> [] then (clearActive x, releaseRun su x w) else (x, w)) = (x1, w1)" by fastforce
  then have x1: "same_counts x x1" "dxPhase x1 = dxPhase x" and s1: "tasks_step w w1"
    by (auto simp: clearActive_def releaseRun_step split: if_splits) (simp_all add: same_counts_def later_def counted_def claim_ttl_def)
  obtain g w2 where g: "getTask su (dxTaskID x1) w1 = (g, w2)" by fastforce
  from s1 getTask_step [OF g] have s2: "tasks_step w w2" by (rule tasks_step_trans)
  have c: "askTasks su (\<lambda>r. CloseWork (srEnv r) i op actor reason er) w2 = (y, w3) \<Longrightarrow> tasks_step w w3" for i op actor reason er y w3
    using s2 close_asked by (rule tasks_step_trans)
  from x1 s2 c a g show ?thesis
    by (auto simp: finishCancel_def split: sum.split prod.split intro!: good_same advanced_plain)
qed

lemma observeReview_good: "good x w (observeReview su x w)"
proof -
  obtain g w1 where g: "commandOf su (dxActiveCommandID x) w = (g, w1)" by fastforce
  note s1 = commandOf_step [OF g]
  from s1 releaseRun_step have s2: "tasks_step w (releaseRun su x w1)" by (rule tasks_step_trans)
  have retry: "good x w (advanced su b (retryReview (clearActive x) m) (releaseRun su x w1))" for b m
    by (rule advanced_plain [OF s2]) (auto simp: retryReview_def)
  have cl: "same_counts x (clearActive x)" "dxPhase (clearActive x) = dxPhase x" "dxTaskID (clearActive x) = dxTaskID x"
    by (simp_all add: clearActive_def) (simp_all add: same_counts_def later_def counted_def claim_ttl_def)
  have verdict: "good x w (case getTask su (dxTaskID (clearActive x)) (releaseRun su x w1) of
      (Inl err, w3) \<Rightarrow> ((False, Some err), clearActive x, w3)
    | (Inr task, w3) \<Rightarrow> if wSubmissions task = [] then ((False, Some (Errorf ''index out of range'')), clearActive x, w3) else
       (case askTasks su (\<lambda>s. ReviewWork (srEnv s) (wID task) op (wRevision task) (gateResult (clearActive x) r (last (wSubmissions task)))) w3 of
          (Inl err, w4) \<Rightarrow> ((False, Some err), clearActive x, w4)
        | (Inr task1, w4) \<Rightarrow> advanced su False ((afterReview (wState task1) (clearActive x))\<lparr>dxLastError := []\<rparr>) w4))" for op r
  proof -
    obtain h w3 where h: "getTask su (dxTaskID (clearActive x)) (releaseRun su x w1) = (h, w3)" by fastforce
    from s2 getTask_step [OF h] have s3: "tasks_step w w3" by (rule tasks_step_trans)
    show ?thesis
    proof (cases h)
      case (Inl err)
      with h s3 cl show ?thesis by (simp add: good_same)
    next
      case (Inr task)
      from h [unfolded Inr] have t: "readTask (dxTaskID x) (wsTasks (dwTasks w3)) = Inr task" using getTask_got cl(3) by metis
      let ?res = "gateResult (clearActive x) r (last (wSubmissions task))"
      obtain y w4 where y: "askTasks su (\<lambda>s. ReviewWork (srEnv s) (wID task) op (wRevision task) ?res) w3 = (y, w4)" by fastforce
      from s3 review_asked [OF y] have s4: "tasks_step w w4" by (rule tasks_step_trans)
      have "grounded w4 ((afterReview (wState task1) (clearActive x))\<lparr>dxLastError := []\<rparr>)"
        if v: "y = Inr task1" and i: "work_inv (dwTasks w)" and gx: "grounded w x" for task1
      proof -
        from i s3 have i3: "work_inv (dwTasks w3)" by (simp add: tasks_step_def)
        from t i3 have "wID task = dxTaskID x" by (auto simp: readTask_Inr work_inv_def)
        with review_stored [OF y [unfolded v] i3] have "readJSON (wsTasks (dwTasks w4)) (taskPath (dxTaskID x)) = Inr task1"
          by (simp add: readTask_Inr)
        moreover from grounded_step [OF s4 i gx] cl have "grounded w4 (clearActive x)" by (simp add: grounded_cong [of "clearActive x" x])
        ultimately show ?thesis by (cases "wState task1") (simp_all add: grounded_def task_state_def afterReview_def cl)
      qed
      moreover have "same_counts x ((afterReview st (clearActive x))\<lparr>dxLastError := []\<rparr>)" for st
        using cl by (simp add: afterReview_def split: WState.split)
      ultimately show ?thesis using h Inr y s3 s4 cl
        by (auto split: sum.split intro!: good_same advanced_good)
    qed
  qed
  from g s1 s2 retry verdict show ?thesis
    by (auto simp: observeReview_def Let_def split: sum.split CommandState.split option.split intro!: good_same)
qed

lemma advance_good: "good x w (advance su x w)"
  by (auto simp: advance_def dispatchExecute_good observeExecute_good submitResult_good dispatchReview_good observeReview_good
      awaitHuman_good finishCancel_good good_same split: Phase.split)

lemma advance_terminal: "dispTerminal (dxPhase x) \<Longrightarrow> advance su x w = ((True, None), x, w)"
  by (auto simp: dispTerminal_def advance_def)

lemma noteError_good:
  assumes "noteError su err y w1 = (z, w2)"
  shows "tasks_step w1 w2 \<and> same_counts y z \<and> dxPhase z = dxPhase y"
proof -
  have [simp]: "dxPhase (touch n (y\<lparr>dxLastError := e\<rparr>)) = dxPhase y" for n e by (simp add: touch_def)
  from assms show ?thesis
    by (auto simp: noteError_def touchNow_def split: option.splits if_splits prod.splits dest: askNow_step)
qed

section \<open>The file of the dispatcher\<close>

interpretation df: durable_file dispStore
  by unfold_locales (simp add: dispStore_def)

interpretation dl: op_ledger dpID dpFingerprint dpRevision dop_ok
    "\<lambda>x i f r t. \<lparr>dpID = i, dpFingerprint = f, dpExecutionID = x, dpRevision = r, dpCreatedAt = t\<rparr>" "\<lambda>x. True"
  by unfold_locales (simp_all add: dop_ok_def)

definition exec_le :: "Execution \<Rightarrow> Execution \<Rightarrow> bool" where
  "exec_le x y \<longleftrightarrow> later x y \<and> (dispTerminal (dxPhase x) \<longrightarrow> y = x)"

definition disp_le :: "DispState \<Rightarrow> DispState \<Rightarrow> bool" where
  "disp_le st st' \<longleftrightarrow> prefix (dsOperations st) (dsOperations st') \<and>
     (\<forall>i x. mget (dsExecutions st) i = Some x \<longrightarrow> (\<exists>y. mget (dsExecutions st') i = Some y \<and> exec_le x y))"

definition disp_ok :: "dispWorld \<Rightarrow> DispState \<Rightarrow> bool" where
  "disp_ok w st \<longleftrightarrow> (\<forall>i x. mget (dsExecutions st) i = Some x \<longrightarrow> counted x \<and> grounded w x)"

definition disp_inv :: "dispWorld \<Rightarrow> bool" where
  "disp_inv w \<longleftrightarrow> work_inv (dwTasks w) \<and> (\<forall>st. readJSON (dwSelf w) (fsPath dispStore) = Inr st \<longrightarrow> disp_ok w st)"

definition file_le :: "dispWorld \<Rightarrow> dispWorld \<Rightarrow> bool" where
  "file_le w w' \<longleftrightarrow> (\<forall>st. readFile dispStore (dwSelf w) = Inr st \<longrightarrow>
     (\<exists>st'. readFile dispStore (dwSelf w') = Inr st' \<and> disp_le st st'))"

lemma exec_le_refl [simp]: "exec_le x x"
  by (simp add: exec_le_def)

lemma exec_le_trans: "exec_le x y \<Longrightarrow> exec_le y z \<Longrightarrow> exec_le x z"
  by (auto simp: exec_le_def intro: later_trans)

lemma disp_le_refl [simp]: "disp_le st st"
  by (auto simp: disp_le_def intro: exec_le_refl)

lemma disp_le_trans: "disp_le a b \<Longrightarrow> disp_le b c \<Longrightarrow> disp_le a c"
  unfolding disp_le_def by (meson exec_le_trans prefix_order.trans)

lemma disp_file_trans: "file_le a b \<Longrightarrow> file_le b c \<Longrightarrow> file_le a c"
  unfolding file_le_def by (meson disp_le_trans)

lemma disp_ok_step: "tasks_step w w' \<Longrightarrow> work_inv (dwTasks w) \<Longrightarrow> disp_ok w st \<Longrightarrow> disp_ok w' st"
  unfolding disp_ok_def using grounded_step by blast

text \<open>A call that does not write the file.\<close>

lemma step_world: "tasks_step w w' \<Longrightarrow> disp_inv w \<Longrightarrow> disp_inv w' \<and> file_le w w'"
  unfolding disp_inv_def file_le_def using disp_ok_step [of w w'] disp_le_refl by (auto simp: tasks_step_def)

lemma save_world:
  assumes "tasks_step w0 w" and "disp_inv w0" and "readFile dispStore (dwSelf w) = Inr st" and "disp_ok w st'" and "disp_le st st'"
    and "saveDisp su st' w = (err, w')"
  shows "disp_inv w' \<and> file_le w0 w'"
proof -
  obtain r w1 where r: "ask su w = (r, w1)" by fastforce
  note s = tasks_step_trans [OF assms(1) ask_step [OF r]]
  obtain e d where d: "writeFile dispStore (wio (srEnv r)) st' (dwSelf w1) = (e, d)" by fastforce
  with assms(6) r have w': "w' = w1\<lparr>dwSelf := d\<rparr>" by (simp add: saveDisp_def)
  have self: "dwSelf w1 = dwSelf w" using ask_step [OF r] by (simp add: tasks_step_def)
  have i: "work_inv (dwTasks w)" "work_inv (dwTasks w1)" using assms(1,2) s by (auto simp: tasks_step_def disp_inv_def)
  have ok: "disp_ok w1 st'" using disp_ok_step [OF ask_step [OF r] i(1) assms(4)] .
  have g: "disp_ok (w1\<lparr>dwSelf := d\<rparr>) q = disp_ok w1 q" for d q by (simp add: disp_ok_def grounded_def task_state_def)
  from d show ?thesis
  proof (cases rule: df.write_cases)
    case refused
    with step_world [OF s assms(2)] show ?thesis by (simp add: w')
  next
    case written
    then have read: "readFile dispStore d = Inr st'" by (simp add: readFile_written)
    have "dwSelf w1 = dwSelf w0" using s by (simp add: tasks_step_def)
    with assms(3) self have "readFile dispStore (dwSelf w0) = Inr st" by simp
    with read assms(5) have "file_le w0 w'" by (simp add: file_le_def w')
    moreover have "disp_inv w'" using i ok read by (simp add: disp_inv_def w' g readFile_Inr)
    ultimately show ?thesis by simp
  qed
qed

text \<open>A state in which one execution was replaced, and one with a further operation.\<close>

lemma put_le:
  assumes "\<And>x. mget (dsExecutions st) i = Some x \<Longrightarrow> exec_le x y"
  shows "disp_le st (st\<lparr>dsExecutions := mput i y (dsExecutions st)\<rparr>)"
  using assms by (auto simp: disp_le_def)

lemma put_ok: "disp_ok w st \<Longrightarrow> counted y \<Longrightarrow> grounded w y \<Longrightarrow> disp_ok w (st\<lparr>dsExecutions := mput i y (dsExecutions st)\<rparr>)"
  by (auto simp: disp_ok_def)

lemma append_ok [simp]: "disp_ok w (appendDispOperation i fp x n st) = disp_ok w st"
  by (simp add: disp_ok_def appendDispOperation_def)

lemma append_later: "disp_le st st' \<Longrightarrow> disp_le st (appendDispOperation i fp x n st')"
  by (auto simp: disp_le_def appendDispOperation_def)

section \<open>The operations\<close>

lemma reconcileOne_step:
  assumes "mget (dsExecutions st) i = Some x" and "reconcileOne su i (st, ch, res, w) = (st', ch', res', w')"
  shows "tasks_step w w' \<and> (work_inv (dwTasks w) \<longrightarrow> disp_ok w st \<longrightarrow> disp_ok w' st') \<and> disp_le st st' \<and>
    (\<forall>j. mget (dsExecutions st) j \<noteq> None \<longrightarrow> mget (dsExecutions st') j \<noteq> None)"
proof -
  have x: "executionOf st i = x" using assms(1) by (simp add: executionOf_def)
  obtain wait err y w1 where a: "advance su x w = ((wait, err), y, w1)" by (metis prod.exhaust)
  obtain z w2 where n: "noteError su err y w1 = (z, w2)" by fastforce
  have "good x w ((wait, err), y, w1)" using advance_good [of x w su] a by simp
  then have ad: "tasks_step w w1" "same_counts x y" "work_inv (dwTasks w) \<Longrightarrow> grounded w x \<Longrightarrow> grounded w1 y"
    by (auto simp: good_def same_counts_def)
  note ne = noteError_good [OF n]
  have s: "tasks_step w w2" using ad(1) ne by (auto intro: tasks_step_trans)
  have z: "same_counts x z" using ad(2) ne by (auto intro: same_counts_trans)
  have gz: "work_inv (dwTasks w) \<Longrightarrow> grounded w x \<Longrightarrow> grounded w2 z"
    using ad ne grounded_step [of w1 w2 y] grounded_cong [of z y w2] by (auto simp: tasks_step_def same_counts_def later_def)
  have t: "dispTerminal (dxPhase x) \<Longrightarrow> z = x" using a n advance_terminal [of x su w] by (simp add: noteError_def)
  have le: "exec_le x z" using z t by (simp add: exec_le_def same_counts_def)
  have st': "st' = (if dxRevision z \<noteq> dxRevision x then st\<lparr>dsExecutions := mput i z (dsExecutions st)\<rparr> else st)" "w' = w2"
    using assms(2) by (auto simp: reconcileOne_def x a n Let_def)
  have "disp_le st st'" using put_le [of st i z] assms(1) le by (simp add: st')
  moreover have "disp_ok w' st'" if "work_inv (dwTasks w)" "disp_ok w st"
  proof -
    have "counted x" "grounded w x" using that(2) assms(1) by (auto simp: disp_ok_def)
    with z gz that have "counted z" "grounded w2 z" by (auto simp: same_counts_def)
    with disp_ok_step [OF s that] show ?thesis by (auto simp: st' intro: put_ok)
  qed
  ultimately show ?thesis using s by (auto simp: st')
qed

lemma reconcileAll_step:
  assumes "\<forall>i \<in> set ids. mget (dsExecutions st) i \<noteq> None" and "reconcileAll su ids (st, ch, res, w) = (st', ch', res', w')"
  shows "tasks_step w w' \<and> (work_inv (dwTasks w) \<longrightarrow> disp_ok w st \<longrightarrow> disp_ok w' st') \<and> disp_le st st'"
  using assms
proof (induction ids arbitrary: st ch res w)
  case (Cons i ids)
  obtain st1 ch1 res1 w1 where o: "reconcileOne su i (st, ch, res, w) = (st1, ch1, res1, w1)" by (metis prod.exhaust)
  from Cons.prems(1) obtain x where "mget (dsExecutions st) i = Some x" by auto
  from reconcileOne_step [OF this o] have one: "tasks_step w w1" "work_inv (dwTasks w) \<longrightarrow> disp_ok w st \<longrightarrow> disp_ok w1 st1"
    "disp_le st st1" "\<forall>j. mget (dsExecutions st) j \<noteq> None \<longrightarrow> mget (dsExecutions st1) j \<noteq> None" by blast+
  from Cons.prems one(4) o have "\<forall>i \<in> set ids. mget (dsExecutions st1) i \<noteq> None"
    "reconcileAll su ids (st1, ch1, res1, w1) = (st', ch', res', w')" by auto
  from Cons.IH [OF this] one show ?case by (auto simp: tasks_step_def intro: tasks_step_trans disp_le_trans store_le_trans)
qed simp

lemma startTask_step: "startTask su i w = (r, w') \<Longrightarrow> tasks_step w w'"
  by (auto simp: startTask_def Let_def split: prod.splits sum.splits if_splits dest!: getTask_step getAgent_step
      intro: tasks_step_trans)

lemma cancelRun_step: "cancelRun su op x w = (r, w') \<Longrightarrow> tasks_step w w'"
  by (auto simp: cancelRun_def split: prod.splits sum.splits if_splits dest!: askComputers_step)

text \<open>What each operation writes: nothing, or a state made from the one it read.\<close>

lemma StartExecution_cases:
  assumes "StartExecution su i w = (r, w')"
  obtains (kept) "tasks_step w w'"
  | (saved) task st op fp n w3 where "tasks_step w w3" and "start_valid (trimStart i)" and "readFile dispStore (dwSelf w3) = Inr st"
      and "mget (dsExecutions st) (siID (trimStart i)) = None"
      and "w' = snd (saveDisp su (appendDispOperation op fp (siID (trimStart i)) n (put_execution (newExecution (trimStart i) task n) st)) w3)"
proof -
  let ?i = "trimStart i"
  obtain q w1 where q: "ask su w = (q, w1)" by fastforce
  obtain g w2 where g: "startTask su ?i w1 = (g, w2)" by fastforce
  obtain n w3 where n: "askNow su w2 = (n, w3)" by fastforce
  note s1 = ask_step [OF q] and s2 = tasks_step_trans [OF ask_step [OF q] startTask_step [OF g]]
  note s3 = tasks_step_trans [OF s2 askNow_step [OF n]]
  have id: "dxID (newExecution ?i task n) = siID ?i" for task by (simp add: newExecution_def)
  consider "w' = w1" | "w' = w2" | task st err where "start_valid ?i" "readFile dispStore (dwSelf w2) = Inr st"
      "mget (dsExecutions st) (siID ?i) = None"
      "saveDisp su (appendDispOperation (siOperationID ?i) (dispFingerprint ''start'' (Some (start_json ?i)))
        (siID ?i) n (put_execution (newExecution ?i task n) st)) w3 = (err, w')"
    using assms q g n
    by (auto simp: StartExecution_def Let_def id split: option.splits sum.splits if_splits prod.splits)
  then show thesis
  proof cases
    case (3 task st err)
    have "readFile dispStore (dwSelf w3) = Inr st" using 3(2) s2 s3 by (simp add: tasks_step_def)
    from saved [OF s3 3(1) this 3(3) 3(4) [THEN arg_cong [where f = snd], unfolded snd_conv, symmetric]] show thesis .
  qed (use kept s1 s2 in simp_all)
qed

lemma commitCancel_cases:
  assumes "commitCancel su op fp st x w = (r, w')"
  obtains (kept) "tasks_step w w'"
  | (saved) n0 n w4 where "tasks_step w w4" and "w' = snd (saveDisp su (appendDispOperation op fp (dxID x) n (put_execution (touch n0 x) st)) w4)"
proof -
  obtain e w2 where e: "cancelRun su op x w = (e, w2)" by fastforce
  obtain n0 w3 where n0: "askNow su w2 = (n0, w3)" by fastforce
  obtain n w4 where n: "askNow su w3 = (n, w4)" by fastforce
  note s2 = cancelRun_step [OF e]
  note s4 = tasks_step_trans [OF tasks_step_trans [OF s2 askNow_step [OF n0]] askNow_step [OF n]]
  show thesis
  proof (cases e)
    case (Some err)
    with assms e s2 show thesis by (auto simp: commitCancel_def intro: kept)
  next
    case None
    have "dxID (touch n0 x) = dxID x" by (simp add: touch_def)
    with assms e None n0 n have "w' = snd (saveDisp su (appendDispOperation op fp (dxID x) n (put_execution (touch n0 x) st)) w4)"
      by (auto simp: commitCancel_def touchNow_def split: option.splits prod.splits)
    then show thesis by (rule saved [OF s4])
  qed
qed

lemma CancelExecution_cases:
  assumes "CancelExecution su i input w = (r, w')"
  obtains (kept) "tasks_step w w'"
  | (saved) st x0 x1 op fp n w4 where "tasks_step w w4" and "readFile dispStore (dwSelf w4) = Inr st"
      and "mget (dsExecutions st) (TrimSpace i) = Some x0" and "\<not> dispTerminal (dxPhase x0)" and "same_counts x0 x1"
      and "dxPhase x1 = Canceling" and "w' = snd (saveDisp su (appendDispOperation op fp (dxID x1) n (put_execution x1 st)) w4)"
proof -
  obtain q w1 where q: "ask su w = (q, w1)" by fastforce
  note s1 = ask_step [OF q]
  consider "w' = w1" | st x0 op fp reason where "readFile dispStore (dwSelf w1) = Inr st"
      "mget (dsExecutions st) (TrimSpace i) = Some x0" "\<not> dispTerminal (dxPhase x0)"
      "commitCancel su op fp st (x0\<lparr>dxPhase := Canceling, dxCancelReason := reason, dxLastError := []\<rparr>) w1 = (r, w')"
    using assms q by (auto simp: CancelExecution_def Let_def split: option.splits sum.splits if_splits)
  then show thesis
  proof cases
    case (2 st x0 op fp reason)
    let ?x = "x0\<lparr>dxPhase := Canceling, dxCancelReason := reason, dxLastError := []\<rparr>"
    have x: "same_counts x0 ?x" by (auto simp: same_counts_def later_def counted_def claim_ttl_def)
    from 2(4) show thesis
    proof (cases rule: commitCancel_cases)
      case kept
      with s1 show thesis by (auto intro: that(1) tasks_step_trans)
    next
      case (saved n0 n w4)
      from s1 saved(1) have s: "tasks_step w w4" by (rule tasks_step_trans)
      have r: "readFile dispStore (dwSelf w4) = Inr st" using 2(1) saved(1) by (simp add: tasks_step_def)
      have t: "same_counts x0 (touch n0 ?x)" "dxPhase (touch n0 ?x) = Canceling" "dxID (touch n0 ?x) = dxID ?x"
        using x by simp_all (simp_all add: touch_def)
      from that(2) [OF s r 2(2,3) t(1,2)] saved(2) t(3) show thesis by simp
    qed
  qed (use kept s1 in simp)
qed

lemma ReconcileDispatcher_cases:
  assumes "ReconcileDispatcher su w = (r, w')"
  obtains (kept) "tasks_step w w'"
  | (saved) st0 ids st ch res op fp n w1 w2 w3 where "tasks_step w w1" and "readFile dispStore (dwSelf w1) = Inr st0"
      and "\<forall>i \<in> set ids. mget (dsExecutions st0) i \<noteq> None"
      and "reconcileAll su ids (st0, False, noResult, w1) = (st, ch, res, w2)" and "tasks_step w2 w3"
      and "w' = snd (saveDisp su (appendDispOperation op fp ''scheduler'' n st) w3)"
proof -
  obtain q w1 where q: "ask su w = (q, w1)" by fastforce
  note s1 = ask_step [OF q]
  show thesis
  proof (cases "cerr (srEnv q) = None \<and> (\<exists>st. readFile dispStore (dwSelf w1) = Inr st)")
    case False
    with assms q have "w' = w1" by (auto simp: ReconcileDispatcher_def split: option.splits sum.splits)
    with s1 kept show thesis by simp
  next
    case True
    then obtain st0 where st0: "cerr (srEnv q) = None" "readFile dispStore (dwSelf w1) = Inr st0" by blast
    let ?ids = "sort_by (<) (map fst (dsExecutions st0))"
    obtain st ch res w2 where a: "reconcileAll su ?ids (st0, False, noResult, w1) = (st, ch, res, w2)" by (metis prod.exhaust)
    have ids: "\<forall>i \<in> set ?ids. mget (dsExecutions st0) i \<noteq> None" by (auto simp: map_of_eq_None_iff)
    from reconcileAll_step [OF ids a] have s2: "tasks_step w w2" using s1 by (blast intro: tasks_step_trans)
    obtain n w3 where n: "askNow su w2 = (n, w3)" by fastforce
    show thesis
    proof (cases ch)
      case False
      with assms q st0 a have "w' = w2" by (simp add: ReconcileDispatcher_def)
      with s2 kept show thesis by simp
    next
      case True
      with assms q st0 a n have "w' = snd (saveDisp su (appendDispOperation
          (internalOperationID ''reconcile'' [dec_int (dsRevision st + 1), format_rfc3339nano n])
          (dispFingerprint ''reconcile'' (reconcile_json ?ids n)) ''scheduler'' n st) w3)"
        by (auto simp: ReconcileDispatcher_def split: option.splits prod.splits)
      then show thesis by (rule saved [OF s1 st0(2) ids a askNow_step [OF n]])
    qed
  qed
qed

lemma executions_named:
  assumes "readFile dispStore d = Inr st" and "mget (dsExecutions st) i = Some x"
  shows "dxID x = i"
proof -
  have "fsValid dispStore st = None" using assms(1) by (simp add: readFile_Inr)
  then have "first_error execution_ok (dsExecutions st) = None"
    by (auto simp: dispStore_def validateDispState_def split: if_splits option.splits)
  then have "execution_ok (i, x) = None" using map_of_SomeD [OF assms(2)] by (simp add: first_error_None)
  then show ?thesis by (auto simp: execution_ok_def split: if_splits)
qed

lemma new_counted: "start_valid i \<Longrightarrow> counted (newExecution i task n)"
  by (simp add: counted_def newExecution_def zeroExecution_def start_valid_def claim_ttl_def)

lemma file_ok: "disp_inv w \<Longrightarrow> readFile dispStore (dwSelf w) = Inr st \<Longrightarrow> disp_ok w st"
  by (simp add: disp_inv_def readFile_Inr)

lemma start_world:
  assumes "disp_inv w" and "StartExecution su i w = (r, w')"
  shows "disp_inv w' \<and> file_le w w'"
  using assms(2)
proof (cases rule: StartExecution_cases)
  case kept
  from step_world [OF this assms(1)] show ?thesis .
next
  case (saved task st op fp n w3)
  let ?x = "newExecution (trimStart i) task n"
  have x: "dxID ?x = siID (trimStart i)" "dxPhase ?x = PendingClaim" by (simp_all add: newExecution_def)
  have "disp_inv w3" using step_world [OF saved(1) assms(1)] by simp
  from put_ok [OF file_ok [OF this saved(3)] new_counted [OF saved(2)]]
  have ok: "disp_ok w3 (put_execution ?x st)" by (simp add: put_execution_def grounded_def x)
  have "disp_le st (put_execution ?x st)" unfolding put_execution_def by (rule put_le) (simp add: x saved(4))
  from save_world [OF saved(1) assms(1) saved(3) _ append_later [OF this] prod.collapse [symmetric]] ok saved(5)
  show ?thesis by simp
qed

lemma cancel_world:
  assumes "disp_inv w" and "CancelExecution su i input w = (r, w')"
  shows "disp_inv w' \<and> file_le w w'"
  using assms(2)
proof (cases rule: CancelExecution_cases)
  case kept
  from step_world [OF this assms(1)] show ?thesis .
next
  case (saved st x0 x1 op fp n w4)
  have "disp_inv w4" using step_world [OF saved(1) assms(1)] by simp
  then have st: "disp_ok w4 st" using saved(2) by (rule file_ok)
  then have "counted x1" using saved(3,5) by (auto simp: disp_ok_def same_counts_def)
  then have ok: "disp_ok w4 (put_execution x1 st)" using st unfolding put_execution_def
    by (intro put_ok) (simp_all add: grounded_def saved(6))
  have "dxID x1 = TrimSpace i" using executions_named [OF saved(2,3)] saved(5) by (simp add: same_counts_def later_def)
  then have "disp_le st (put_execution x1 st)" unfolding put_execution_def
    by (intro put_le) (use saved(3,4,5) in \<open>auto simp: exec_le_def same_counts_def\<close>)
  from save_world [OF saved(1) assms(1) saved(2) _ append_later [OF this] prod.collapse [symmetric]] ok saved(7)
  show ?thesis by simp
qed

lemma reconcile_world:
  assumes "disp_inv w" and "ReconcileDispatcher su w = (r, w')"
  shows "disp_inv w' \<and> file_le w w'"
  using assms(2)
proof (cases rule: ReconcileDispatcher_cases)
  case kept
  from step_world [OF this assms(1)] show ?thesis .
next
  case (saved st0 ids st ch res op fp n w1 w2 w3)
  from reconcileAll_step [OF saved(3,4)] have all: "tasks_step w1 w2" "work_inv (dwTasks w1) \<longrightarrow> disp_ok w1 st0 \<longrightarrow> disp_ok w2 st"
    "disp_le st0 st" by blast+
  note s2 = tasks_step_trans [OF saved(1) all(1)]
  have i: "disp_inv w1" "disp_inv w2" using step_world [OF saved(1) assms(1)] step_world [OF s2 assms(1)] by simp_all
  then have "disp_ok w2 st" using all(2) file_ok [OF i(1) saved(2)] by (simp add: disp_inv_def)
  then have ok: "disp_ok w3 st" using disp_ok_step [OF saved(5)] i(2) by (simp add: disp_inv_def)
  have "readFile dispStore (dwSelf w3) = Inr st0" using saved(2,5) all(1) by (simp add: tasks_step_def)
  from save_world [OF tasks_step_trans [OF s2 saved(5)] assms(1) this _ append_later [OF all(3)] prod.collapse [symmetric]] ok saved(6)
  show ?thesis by simp
qed

section \<open>Histories\<close>

datatype disp_call = DStart StartInput | DCancel string CancelInput | DReconcile

fun do_disp :: "surroundings \<Rightarrow> disp_call \<Rightarrow> dispWorld \<Rightarrow> dispWorld" where
  "do_disp su (DStart i) w = snd (StartExecution su i w)"
| "do_disp su (DCancel i input) w = snd (CancelExecution su i input w)"
| "do_disp su DReconcile w = snd (ReconcileDispatcher su w)"

fun run_disp :: "surroundings \<Rightarrow> disp_call list \<Rightarrow> dispWorld \<Rightarrow> dispWorld" where
  "run_disp su [] w = w"
| "run_disp su (c # cs) w = run_disp su cs (do_disp su c w)"

lemma do_disp_world: "disp_inv w \<Longrightarrow> disp_inv (do_disp su c w) \<and> file_le w (do_disp su c w)"
  using start_world [OF _ prod.collapse [symmetric]] cancel_world [OF _ prod.collapse [symmetric]]
    reconcile_world [OF _ prod.collapse [symmetric]] by (cases c) auto

lemma run_disp_world: "disp_inv w \<Longrightarrow> disp_inv (run_disp su cs w) \<and> file_le w (run_disp su cs w)"
proof (induction cs arbitrary: w)
  case Nil
  then show ?case by (simp add: file_le_def)
next
  case (Cons c cs)
  from do_disp_world [OF Cons.prems, of su c] Cons.IH [of "do_disp su c w"] show ?case by (auto intro: disp_file_trans)
qed

lemma opened_world:
  assumes "work_inv (dwTasks w)" and "dwSelf w = snd (NewDispatcher e [])"
  shows "disp_inv w"
proof -
  have "readJSON (dwSelf w) (fsPath dispStore) = Inr st \<Longrightarrow> dsExecutions st = []" for st
    unfolding assms(2) NewDispatcher_def openFile_def
    by (cases "wio e") (auto simp: df.write_eq atomicWrite_def emptyDispState_def readJSON_def split: option.splits)
  with assms(1) show ?thesis by (simp add: disp_inv_def disp_ok_def)
qed

section \<open>One execution in the file\<close>

lemma appended_valid:
  assumes "validateDispState st = None" and "find_op dpID op (dsOperations st) = None" and "safeID op" and "safeDigest fp" and "n \<noteq> 0"
    and "dsExecutions st' = xs" and "first_error execution_ok xs = None" and "dsSchemaVersion st' = dsSchemaVersion st"
    and "dsRevision st' = dsRevision st" and "dsOperations st' = dsOperations st"
  shows "validateDispState (appendDispOperation op fp e n st') = None"
proof -
  from assms(1) have v: "dsSchemaVersion st = dsSchema" "ledger_ok dop_ok dpID dpRevision (dsOperations st)"
    "int (length (dsOperations st)) = dsRevision st" by (auto simp: validateDispState_def split: if_splits option.splits)
  from dl.commit_ok [OF v(2) assms(2) TrueI assms(3-5), of e] v assms(6-10) show ?thesis
    by (simp add: validateDispState_def appendDispOperation_def)
qed

lemma reconcile_single:
  assumes "readFile dispStore (dwSelf w) = Inr st" and "dsExecutions st = [(i, x)]" and "ask su w = (q, w1)" and "cerr (srEnv q) = None"
    and "advance su x w1 = ((wait, err), y, w2)" and "noteError su err y w2 = (z, w3)" and "dxRevision z \<noteq> dxRevision x"
    and "execution_ok (i, z) = None" and "askNow su w3 = (n, w4)" and "n \<noteq> 0" and "json_time n = Some tj"
    and "find_op dpID (internalOperationID ''reconcile'' [dec_int (dsRevision st + 1), format_rfc3339nano n]) (dsOperations st) = None"
    and "\<And>k. wio (srEnv (su k)) = Io_ok"
  obtains res w' st' where "ReconcileDispatcher su w = (Inr res, w')" and "readFile dispStore (dwSelf w') = Inr st'"
    and "dsExecutions st' = [(i, z)]" and "dwTasks w' = run_steps do_work (srWork (su (dwTick w4))) (dwTasks w4)"
proof -
  let ?op = "internalOperationID ''reconcile'' [dec_int (dsRevision st + 1), format_rfc3339nano n]"
  let ?fp = "dispFingerprint ''reconcile'' (reconcile_json [i] n)"
  let ?st = "appendDispOperation ?op ?fp ''scheduler'' n (st\<lparr>dsExecutions := [(i, z)]\<rparr>)"
  have "good x w1 ((wait, err), y, w2)" using advance_good [of x w1 su] assms(5) by simp
  then have "tasks_step w1 w2" by (simp add: good_def)
  then have s: "tasks_step w w4"
    using ask_step [OF assms(3)] noteError_good [OF assms(6)] askNow_step [OF assms(9)] by (blast intro: tasks_step_trans)
  have self: "dwSelf w1 = dwSelf w" using ask_step [OF assms(3)] by (simp add: tasks_step_def)
  have "safeID ''reconcile''" by (simp add: char_eval)
  then have op: "safeID ?op" by (rule internalOperationID_safe) simp
  have "validateDispState st = None" using assms(1) by (simp add: readFile_Inr dispStore_def)
  from appended_valid [OF this assms(12) op, of ?fp n "st\<lparr>dsExecutions := [(i, z)]\<rparr>"] assms(8,10,11)
  have v: "fsValid dispStore ?st = None" by (simp add: dispFingerprint_def reconcile_json_def dispStore_def)
  obtain u w5 where u: "ask su w4 = (u, w5)" by fastforce
  then have "u = su (dwTick w4)" by (simp add: ask_def)
  then have "saveDisp su ?st w4 = (None, w5\<lparr>dwSelf := AList.update (fsPath dispStore) (Record ?st) (dwSelf w5)\<rparr>)"
    using df.write_ok [OF v] assms(13) by (simp add: saveDisp_def u)
  then have R: "ReconcileDispatcher su w =
      (Inr (classify wait True z i noResult), w5\<lparr>dwSelf := AList.update (fsPath dispStore) (Record ?st) (dwSelf w5)\<rparr>)"
    using assms by (simp add: ReconcileDispatcher_def self reconcileOne_def executionOf_def sort_by_def Let_def)
  have F: "readFile dispStore (AList.update (fsPath dispStore) (Record ?st) (dwSelf w5)) = Inr ?st" using v by (rule readFile_written)
  have T: "dwTasks w5 = run_steps do_work (srWork (su (dwTick w4))) (dwTasks w4)" using u by (auto simp: ask_def others_act_def)
  have "dsExecutions ?st = [(i, z)]" by (simp add: appendDispOperation_def)
  then show thesis by (rule that [OF R, rotated]) (simp_all add: F T)
qed

section \<open>What a phase says\<close>

text \<open>C9. Whatever other clients do to the stores before and between its calls: an execution that the dispatcher's file records as
  succeeded has its task done, by a passed gate: the last review is a pass by the reviewer of the gate over exactly the artifacts of
  the last submission, which is bound to the current contract.\<close>

theorem succeeded_means_passed:
  assumes "disp_inv w" and "readFile dispStore (dwSelf (run_disp su cs w)) = Inr st" and "mget (dsExecutions st) i = Some x"
    and "dxPhase x = Succeeded"
  shows "\<exists>t. readJSON (wsTasks (dwTasks (run_disp su cs w))) (taskPath (dxTaskID x)) = Inr t \<and> wState t = Done \<and>
    submission_bound t \<and> gate_passed t"
proof -
  let ?w = "run_disp su cs w"
  have i: "disp_inv ?w" using run_disp_world [OF assms(1)] by blast
  from file_ok [OF i assms(2)] assms(3) have "grounded ?w x" by (simp add: disp_ok_def)
  with assms(4) obtain t where t: "readJSON (wsTasks (dwTasks ?w)) (taskPath (dxTaskID x)) = Inr t" "wState t = Done"
    by (auto simp: grounded_def task_state_def)
  moreover from i t have "reviewed t" by (auto simp: disp_inv_def work_inv_def)
  ultimately show ?thesis by (auto simp: reviewed_def)
qed

text \<open>The dispatcher opened on an empty directory, with any history of the task store, satisfies the hypothesis: \<open>opened_world\<close>.\<close>

text \<open>C10. An execution keeps its identity, its task, its agents and its limits; its revision and its counters never decrease; once it has
  succeeded, failed or been cancelled it does not change at all; it starts at most as many runs, and as many reviews, as it was given
  attempts, at most ten, and claims its task for at most a day. The operations are only appended to.\<close>

theorem executions_only_advance:
  assumes "disp_inv w" and "readFile dispStore (dwSelf (run_disp su cs w)) = Inr st" and "mget (dsExecutions st) i = Some x"
  shows "\<exists>st' y. readFile dispStore (dwSelf (run_disp su (cs @ ds) w)) = Inr st' \<and> prefix (dsOperations st) (dsOperations st') \<and>
    mget (dsExecutions st') i = Some y \<and> later x y \<and> (dispTerminal (dxPhase x) \<longrightarrow> y = x) \<and> counted y"
proof -
  have app: "run_disp su (cs @ ds) w = run_disp su ds (run_disp su cs w)" by (induction cs arbitrary: w) auto
  have i: "disp_inv (run_disp su cs w)" using run_disp_world [OF assms(1)] by blast
  from run_disp_world [OF this, of su ds] have j: "disp_inv (run_disp su (cs @ ds) w)"
    and le: "file_le (run_disp su cs w) (run_disp su (cs @ ds) w)" by (simp_all add: app)
  from le assms(2) obtain st' where st': "readFile dispStore (dwSelf (run_disp su (cs @ ds) w)) = Inr st'" "disp_le st st'"
    by (auto simp: file_le_def)
  with assms(3) obtain y where y: "mget (dsExecutions st') i = Some y" "exec_le x y" "prefix (dsOperations st) (dsOperations st')"
    by (auto simp: disp_le_def)
  from file_ok [OF j st'(1)] y(1) have "counted y" by (simp add: disp_ok_def)
  with st'(1) y show ?thesis by (auto simp: exec_le_def)
qed

section \<open>A state that cannot be left\<close>

text \<open>An execution that runs without a command: \<open>Reconcile\<close> looks for the command with the empty id, and a valid computer file has none.\<close>

definition stranded :: "RunResult \<Rightarrow> string \<Rightarrow> DispState \<Rightarrow> bool" where
  "stranded r i st \<longleftrightarrow> (\<exists>y. mget (dsExecutions st) i = Some y \<and> dxPhase y = Running \<and> dxActiveCommandID y = [] \<and> dxResult y = Some r)"

definition stranded_file :: "RunResult \<Rightarrow> string \<Rightarrow> dispWorld \<Rightarrow> bool" where
  "stranded_file r i w \<longleftrightarrow> (\<exists>st. readFile dispStore (dwSelf w) = Inr st \<and> stranded r i st)"

lemma no_empty_command: "readFile compStore d = Inr cst \<Longrightarrow> mget (ccCommands cst) [] = None"
proof (rule ccontr)
  assume a: "readFile compStore d = Inr cst" and "mget (ccCommands cst) [] \<noteq> None"
  then obtain c where "([], c) \<in> set (ccCommands cst)" by (auto dest: map_of_SomeD)
  moreover from a have "first_error (command_ok cst) (ccCommands cst) = None"
    by (auto simp: readFile_Inr compStore_fields validateCompState_def split: if_splits option.splits)
  ultimately have "command_ok cst ([], c) = None" by (auto simp: first_error_None)
  then show False by (simp add: command_ok_def)
qed

lemma stranded_advance:
  assumes "dxPhase x = Running" and "dxActiveCommandID x = []" and "advance su x w = (out, y, w')"
  shows "y = x"
proof -
  obtain g w1 where g: "commandOf su [] w = (g, w1)" by fastforce
  have "\<exists>err. g = Inl err"
  proof (cases g)
    case (Inr c)
    obtain k w2 where k: "ask su w = (k, w2)" by fastforce
    with g Inr obtain cst where "GetCompState (srEnv k) (dwComputers w2) = Inr cst" "mget (ccCommands cst) [] = Some c"
      by (auto simp: commandOf_def getComputers_def askComputers_def split: sum.splits option.splits)
    then show ?thesis using no_empty_command by (auto simp: GetCompState_def split: option.splits)
  qed simp
  with assms g show ?thesis by (auto simp: advance_def observeExecute_def)
qed

lemma stranded_one:
  assumes "stranded r i st" and "mget (dsExecutions st) j \<noteq> None" and "reconcileOne su j (st, ch, res, w) = (st', ch', res', w')"
  shows "stranded r i st'"
proof -
  obtain x where x: "mget (dsExecutions st) j = Some x" using assms(2) by blast
  obtain wait err y w1 where a: "advance su x w = ((wait, err), y, w1)" by (metis prod.exhaust)
  obtain z w2 where n: "noteError su err y w1 = (z, w2)" by fastforce
  have st': "st' = (if dxRevision z \<noteq> dxRevision x then st\<lparr>dsExecutions := mput j z (dsExecutions st)\<rparr> else st)"
    using assms(3) x by (auto simp: reconcileOne_def executionOf_def a n Let_def)
  show ?thesis
  proof (cases "j = i")
    case True
    with assms(1) x have s: "dxPhase x = Running" "dxActiveCommandID x = []" "dxResult x = Some r" by (auto simp: stranded_def)
    from stranded_advance [OF s(1,2) a] s n have "dxPhase z = Running \<and> dxActiveCommandID z = [] \<and> dxResult z = Some r"
      by (auto simp: noteError_def touchNow_def touch_def split: option.splits if_splits prod.splits)
    with assms(1) True show ?thesis by (auto simp: st' stranded_def)
  next
    case False
    with assms(1) show ?thesis by (auto simp: st' stranded_def)
  qed
qed

lemma stranded_all:
  assumes "stranded r i st" and "\<forall>j \<in> set ids. mget (dsExecutions st) j \<noteq> None"
    and "reconcileAll su ids (st, ch, res, w) = (st', ch', res', w')"
  shows "stranded r i st'"
  using assms
proof (induction ids arbitrary: st ch res w)
  case (Cons j ids)
  obtain st1 ch1 res1 w1 where o: "reconcileOne su j (st, ch, res, w) = (st1, ch1, res1, w1)" by (metis prod.exhaust)
  from Cons.prems(2) obtain x where "mget (dsExecutions st) j = Some x" by auto
  from reconcileOne_step [OF this o] have "\<forall>k. mget (dsExecutions st) k \<noteq> None \<longrightarrow> mget (dsExecutions st1) k \<noteq> None" by blast
  with Cons.prems o have "\<forall>k \<in> set ids. mget (dsExecutions st1) k \<noteq> None" "stranded r i st1"
    "reconcileAll su ids (st1, ch1, res1, w1) = (st', ch', res', w')" by (auto intro: stranded_one)
  with Cons.IH show ?case by blast
qed simp

lemma stranded_append [simp]: "stranded r i (appendDispOperation op fp e n st) = stranded r i st"
  by (simp add: stranded_def appendDispOperation_def)

lemma stranded_save:
  assumes "tasks_step w w1" and "stranded_file r i w" and "readFile dispStore (dwSelf w1) = Inr st0 \<Longrightarrow> stranded r i st0 \<Longrightarrow> stranded r i st"
    and "readFile dispStore (dwSelf w1) = Inr st0"
  shows "stranded_file r i (snd (saveDisp su st w1))"
proof -
  have "stranded r i st0" using assms(1,2,4) by (auto simp: stranded_file_def tasks_step_def)
  with assms(3,4) have st: "stranded r i st" by blast
  obtain q w2 where q: "ask su w1 = (q, w2)" by fastforce
  have self: "dwSelf w2 = dwSelf w1" using ask_step [OF q] by (simp add: tasks_step_def)
  obtain e d where d: "writeFile dispStore (wio (srEnv q)) st (dwSelf w2) = (e, d)" by fastforce
  then have "d = dwSelf w2 \<or> readFile dispStore d = Inr st"
    by (cases rule: df.write_cases) (auto intro: readFile_written)
  with st \<open>stranded r i st0\<close> assms(4) self show ?thesis by (auto simp: saveDisp_def q d [unfolded self] self stranded_file_def)
qed

lemma stranded_kept: "tasks_step w w' \<Longrightarrow> stranded_file r i w \<Longrightarrow> stranded_file r i w'"
  by (simp add: stranded_file_def tasks_step_def)

text \<open>Only \<open>Cancel\<close> ends it.\<close>

lemma stranded_step:
  assumes "stranded_file r i w" and "\<And>j input. c = DCancel j input \<Longrightarrow> TrimSpace j \<noteq> i"
  shows "stranded_file r i (do_disp su c w)"
proof (cases c)
  case (DStart input)
  obtain q w' where "StartExecution su input w = (q, w')" by fastforce
  then show ?thesis
  proof (cases rule: StartExecution_cases)
    case kept
    from stranded_kept [OF this assms(1)] show ?thesis by (simp add: DStart \<open>StartExecution su input w = (q, w')\<close>)
  next
    case (saved task st op fp n w3)
    have "stranded r i st \<Longrightarrow> stranded r i (appendDispOperation op fp e n (put_execution (newExecution (trimStart input) task n) st))" for e
      using saved(4) by (auto simp: stranded_def put_execution_def newExecution_def appendDispOperation_def)
    from stranded_save [OF saved(1) assms(1) this saved(3)] show ?thesis
      by (simp add: DStart \<open>StartExecution su input w = (q, w')\<close> saved(5))
  qed
next
  case (DCancel j input)
  obtain q w' where c: "CancelExecution su j input w = (q, w')" by fastforce
  then show ?thesis
  proof (cases rule: CancelExecution_cases)
    case kept
    from stranded_kept [OF this assms(1)] show ?thesis by (simp add: DCancel c)
  next
    case (saved st x0 x1 op fp n w4)
    have "dxID x1 = TrimSpace j" using executions_named [OF saved(2,3)] saved(5) by (simp add: same_counts_def later_def)
    with assms(2) [OF DCancel] have "stranded r i st \<Longrightarrow> stranded r i (appendDispOperation op fp e n (put_execution x1 st))" for e
      by (auto simp: stranded_def put_execution_def appendDispOperation_def)
    from stranded_save [OF saved(1) assms(1) this saved(2)] show ?thesis by (simp add: DCancel c saved(7))
  qed
next
  case DReconcile
  obtain q w' where c: "ReconcileDispatcher su w = (q, w')" by fastforce
  then show ?thesis
  proof (cases rule: ReconcileDispatcher_cases)
    case kept
    from stranded_kept [OF this assms(1)] show ?thesis by (simp add: DReconcile c)
  next
    case (saved st0 ids st ch res op fp n w1 w2 w3)
    from reconcileAll_step [OF saved(3,4)] have s2: "tasks_step w1 w2" by blast
    then have s3: "tasks_step w1 w3" using saved(5) by (rule tasks_step_trans)
    have r: "readFile dispStore (dwSelf w3) = Inr st0" using saved(2) s3 by (simp add: tasks_step_def)
    have "stranded r i st0 \<Longrightarrow> stranded r i (appendDispOperation op fp e n st)" for e
      using stranded_all [OF _ saved(3,4)] by simp
    from stranded_save [OF tasks_step_trans [OF saved(1) s3] assms(1) this r] show ?thesis by (simp add: DReconcile c saved(6))
  qed
qed

lemma stranded_run:
  "stranded_file r i w \<Longrightarrow> (\<And>j input. DCancel j input \<in> set cs \<Longrightarrow> TrimSpace j \<noteq> i) \<Longrightarrow> stranded_file r i (run_disp su cs w)"
proof (induction cs arbitrary: w)
  case (Cons c cs)
  have "stranded_file r i (do_disp su c w)" by (rule stranded_step [OF Cons.prems(1)]) (use Cons.prems(2) in auto)
  from Cons.IH [OF this] Cons.prems(2) show ?case by auto
qed simp

lemma releaseRun_tick: "dwTick w \<le> dwTick (releaseRun su x w)"
  by (simp add: releaseRun_def askComputers_def ask_def others_act_def split: prod.split)

lemma reconcileOne_other:
  "reconcileOne su j (st, ch, res, w) = (st', ch', res', w') \<Longrightarrow> j \<noteq> i \<Longrightarrow> mget (dsExecutions st') i = mget (dsExecutions st) i \<and> (ch \<longrightarrow> ch')"
  by (auto simp: reconcileOne_def Let_def split: prod.splits if_splits)

lemma reconcileOne_changed: "reconcileOne su j (st, ch, res, w) = (st', ch', res', w') \<Longrightarrow> ch \<Longrightarrow> ch'"
  by (auto simp: reconcileOne_def Let_def split: prod.splits)

lemma reconcileAll_other:
  "reconcileAll su ids (st, ch, res, w) = (st', ch', res', w') \<Longrightarrow> i \<notin> set ids \<Longrightarrow> mget (dsExecutions st') i = mget (dsExecutions st) i"
proof (induction ids arbitrary: st ch res w)
  case (Cons j ids)
  obtain st1 ch1 res1 w1 where o: "reconcileOne su j (st, ch, res, w) = (st1, ch1, res1, w1)" by (metis prod.exhaust)
  from Cons.prems(2) have "j \<noteq> i" "i \<notin> set ids" by auto
  with Cons.prems(1) Cons.IH [of st1 ch1 res1 w1] reconcileOne_other [OF o, of i] o show ?case by simp
qed simp

lemma reconcileAll_changed: "reconcileAll su ids (st, ch, res, w) = (st', ch', res', w') \<Longrightarrow> ch \<Longrightarrow> ch'"
proof (induction ids arbitrary: st ch res w)
  case (Cons j ids)
  obtain st1 ch1 res1 w1 where o: "reconcileOne su j (st, ch, res, w) = (st1, ch1, res1, w1)" by (metis prod.exhaust)
  with Cons.prems Cons.IH [of st1 ch1 res1 w1] reconcileOne_changed [OF o] show ?case by simp
qed simp

lemma reconcileAll_append: "reconcileAll su (is1 @ is2) acc = reconcileAll su is2 (reconcileAll su is1 acc)"
  by (induction is1 arbitrary: acc) auto

lemma reconcileAll_exists:
  "\<forall>j \<in> set ids. mget (dsExecutions st) j \<noteq> None \<Longrightarrow> reconcileAll su ids (st, ch, res, w) = (st', ch', res', w') \<Longrightarrow>
    mget (dsExecutions st) k \<noteq> None \<Longrightarrow> mget (dsExecutions st') k \<noteq> None"
proof (induction ids arbitrary: st ch res w)
  case (Cons j ids)
  obtain st1 ch1 res1 w1 where o: "reconcileOne su j (st, ch, res, w) = (st1, ch1, res1, w1)" by (metis prod.exhaust)
  from Cons.prems(1) obtain x where "mget (dsExecutions st) j = Some x" by auto
  from reconcileOne_step [OF this o] have "\<forall>k. mget (dsExecutions st) k \<noteq> None \<longrightarrow> mget (dsExecutions st1) k \<noteq> None" by blast
  with Cons.prems o Cons.IH [of st1 ch1 res1 w1] show ?case by auto
qed simp

text \<open>A successful \<open>Reconcile\<close> that changed something has written what it made of the executions.\<close>

lemma reconcile_wrote:
  assumes "ReconcileDispatcher su w = (Inr res, w')" and "ask su w = (q, w0)" and "readFile dispStore (dwSelf w0) = Inr st"
    and "reconcileAll su (sort_by (<) (map fst (dsExecutions st))) (st, False, noResult, w0) = (st', True, res', w1)"
  obtains op fp n where "readFile dispStore (dwSelf w') = Inr (appendDispOperation op fp ''scheduler'' n st')"
proof -
  obtain n w2 where n: "askNow su w1 = (n, w2)" by fastforce
  let ?op = "internalOperationID ''reconcile'' [dec_int (dsRevision st' + 1), format_rfc3339nano n]"
  let ?fp = "dispFingerprint ''reconcile'' (reconcile_json (sort_by (<) (map fst (dsExecutions st))) n)"
  from assms n have s: "saveDisp su (appendDispOperation ?op ?fp ''scheduler'' n st') w2 = (None, w')"
    by (auto simp: ReconcileDispatcher_def Let_def split: option.splits prod.splits)
  obtain u w3 where u: "ask su w2 = (u, w3)" by fastforce
  obtain d where d: "writeFile dispStore (wio (srEnv u)) (appendDispOperation ?op ?fp ''scheduler'' n st') (dwSelf w3) = (None, d)" "dwSelf w' = d"
    using s u by (auto simp: saveDisp_def split: prod.splits)
  from d(1) have "readFile dispStore d = Inr (appendDispOperation ?op ?fp ''scheduler'' n st')"
    by (cases rule: df.write_cases) (auto intro: readFile_written)
  with d(2) that show thesis by blast
qed

text \<open>The step of the execution itself: the command is dropped, then the look at the task fails, and the copy without the command is put back.\<close>

lemma cancelled_advance:
  assumes "dxPhase x = Running" and "dxLastError x \<noteq> error_text err"
    and "commandOf su (dxActiveCommandID x) w = (Inr c, w2)" and "cdState c = CommandAcked" and "cdResult c = Some r"
    and "rsSuccess r" and "rsArtifactURI r \<noteq> []" and "safeDigest (rsArtifactHash r)"
    and "\<And>k. dwTick w2 \<le> k \<Longrightarrow> cerr (srEnv (su k)) = Some err"
  obtains n w3 w4 where "advance su x w = ((False, Some err), clearActive (x\<lparr>dxResult := Some r\<rparr>), w3)" and "askNow su w3 = (n, w4)"
    and "noteError su (Some err) (clearActive (x\<lparr>dxResult := Some r\<rparr>)) w3 =
      (touch n ((clearActive (x\<lparr>dxResult := Some r\<rparr>))\<lparr>dxLastError := error_text err\<rparr>), w4)"
proof -
  let ?x = "clearActive (x\<lparr>dxResult := Some r\<rparr>)"
  let ?w = "releaseRun su (x\<lparr>dxResult := Some r\<rparr>) w2"
  obtain g w3 where g: "getTask su (dxTaskID ?x) ?w = (g, w3)" by fastforce
  have "cerr (srEnv (su (dwTick ?w))) = Some err" using assms(9) releaseRun_tick by blast
  with g have gi: "g = Inl err" by (auto simp: getTask_def askTasks_def ask_def GetWork_def split: prod.splits)
  have "ensureClaim su ?x ?w = (Inl err, w3)" using g gi by (simp add: ensureClaim_def)
  then have "submitResult su ?x ?w = ((False, Some err), ?x, w3)" by (simp add: submitResult_def clearActive_def)
  with assms(1,3-8) have a: "advance su x w = ((False, Some err), ?x, w3)" by (simp add: advance_def observeExecute_def)
  obtain n w4 where n: "askNow su w3 = (n, w4)" by fastforce
  have "noteError su (Some err) ?x w3 = (touch n (?x\<lparr>dxLastError := error_text err\<rparr>), w4)"
    using n assms(2) by (simp add: noteError_def touchNow_def clearActive_def)
  with that [OF a n] show thesis by blast
qed

lemma cancelled_one:
  assumes "mget (dsExecutions st) i = Some x" and "dxPhase x = Running" and "advance su x w = ((False, Some err), clearActive (x\<lparr>dxResult := Some r\<rparr>), w3)"
    and "noteError su (Some err) (clearActive (x\<lparr>dxResult := Some r\<rparr>)) w3 = (touch n ((clearActive (x\<lparr>dxResult := Some r\<rparr>))\<lparr>dxLastError := l\<rparr>), w4)"
    and "reconcileOne su i (st, ch, res, w) = (st', ch', res', w')"
  shows "stranded r i st' \<and> ch'"
proof -
  let ?z = "touch n ((clearActive (x\<lparr>dxResult := Some r\<rparr>))\<lparr>dxLastError := l\<rparr>)"
  have f: "dxRevision ?z = dxRevision x + 1" "dxPhase ?z = Running" "dxActiveCommandID ?z = []" "dxResult ?z = Some r"
    using assms(2) by (simp_all add: touch_def clearActive_def)
  have "executionOf st i = x" using assms(1) by (simp add: executionOf_def)
  with assms(5) f(1) have "st' = st\<lparr>dsExecutions := mput i ?z (dsExecutions st)\<rparr> \<and> ch'" by (auto simp: reconcileOne_def assms(3,4) Let_def)
  with f show ?thesis by (auto simp: stranded_def)
qed

text \<open>C20. The context of a \<open>Reconcile\<close> is cancelled (its client goes away, the server shuts down) just after it has seen the successful
  result of a run: the step has dropped the run's command before it fails, and what is saved is an execution that runs without a command.
  Whatever happens later, it stays so until somebody cancels it, although its result is recorded and a second try would submit it.
  The dispatcher may have any other executions, reconciled before (\<open>before\<close>) or after (\<open>rest\<close>) this one, time passes as it likes and any write may fail,
  as long as the \<open>Reconcile\<close> itself returns without an error: it has then saved what it did. The cancelled context stays cancelled, and
  its error is not the one that the execution has noted last (otherwise nothing is saved).\<close>

theorem cancelled_reconcile_strands:
  assumes "ReconcileDispatcher su w = (Inr res, w')" and "ask su w = (q, w0)" and "readFile dispStore (dwSelf w0) = Inr st"
    and "sort_by (<) (map fst (dsExecutions st)) = before @ i # rest" and "i \<notin> set before"
    and "reconcileAll su before (st, False, noResult, w0) = (st1, ch1, res1, w1)"
    and "mget (dsExecutions st) i = Some x" and "dxPhase x = Running" and "dxLastError x \<noteq> error_text err"
    and "commandOf su (dxActiveCommandID x) w1 = (Inr c, w2)" and "cdState c = CommandAcked" and "cdResult c = Some r"
    and "rsSuccess r" and "rsArtifactURI r \<noteq> []" and "safeDigest (rsArtifactHash r)"
    and "\<And>k. dwTick w2 \<le> k \<Longrightarrow> cerr (srEnv (su k)) = Some err"
    and "\<And>j input. DCancel j input \<in> set cs \<Longrightarrow> TrimSpace j \<noteq> i"
  shows "\<exists>st' y. readFile dispStore (dwSelf (run_disp su' cs w')) = Inr st' \<and>
    mget (dsExecutions st') i = Some y \<and> dxPhase y = Running \<and> dxActiveCommandID y = [] \<and> dxResult y = Some r"
proof -
  let ?ids = "before @ i # rest"
  have ids: "\<forall>j \<in> set ?ids. mget (dsExecutions st) j \<noteq> None" unfolding assms(4) [symmetric] by (auto simp: map_of_eq_None_iff)
  then have b: "\<forall>j \<in> set before. mget (dsExecutions st) j \<noteq> None" by simp
  from reconcileAll_other [OF assms(6,5)] assms(7) have x: "mget (dsExecutions st1) i = Some x" by simp
  obtain st2 ch2 res2 w3 where o: "reconcileOne su i (st1, ch1, res1, w1) = (st2, ch2, res2, w3)" by (metis prod.exhaust)
  obtain n u v where step: "advance su x w1 = ((False, Some err), clearActive (x\<lparr>dxResult := Some r\<rparr>), u)" "askNow su u = (n, v)"
    "noteError su (Some err) (clearActive (x\<lparr>dxResult := Some r\<rparr>)) u = (touch n ((clearActive (x\<lparr>dxResult := Some r\<rparr>))\<lparr>dxLastError := error_text err\<rparr>), v)"
    by (rule cancelled_advance [OF assms(8-16)])
  from cancelled_one [OF x assms(8) step(1,3) o] have one: "stranded r i st2" "ch2" by blast+
  obtain st3 ch3 res3 w4 where a: "reconcileAll su rest (st2, ch2, res2, w3) = (st3, ch3, res3, w4)" by (metis prod.exhaust)
  from reconcileOne_step [OF x o] reconcileAll_exists [OF b assms(6)] ids have "\<forall>j \<in> set rest. mget (dsExecutions st2) j \<noteq> None" by simp
  from stranded_all [OF one(1) this a] have s: "stranded r i st3" .
  have "reconcileAll su (sort_by (<) (map fst (dsExecutions st))) (st, False, noResult, w0) = (st3, True, res3, w4)"
    using o a reconcileAll_changed [OF a one(2)] by (simp add: assms(4,6) reconcileAll_append)
  from reconcile_wrote [OF assms(1-3) this] s have "stranded_file r i w'" by (metis stranded_append stranded_file_def)
  then have "stranded_file r i (run_disp su' cs w')" by (rule stranded_run) (rule assms(17))
  then show ?thesis by (auto simp: stranded_file_def stranded_def)
qed

section \<open>Concrete worlds\<close>

definition demo_exec :: "Phase \<Rightarrow> Execution" where
  "demo_exec p = zeroExecution\<lparr>dxSchemaVersion := 1, dxID := ''x1'', dxTaskID := ''k1'', dxAgentID := ''dev'', dxReviewerID := ''lead'',
     dxPhase := p, dxAttempt := 1, dxMaxAttempts := 2, dxTimeoutSeconds := 60, dxTaskLeaseID := ''l1'', dxActiveRunID := ''r1'',
     dxActiveRunLease := ''l2'', dxActiveCommandID := ''c1'', dxRevision := 1, dxCreatedAt := 1, dxUpdatedAt := 1\<rparr>"

definition demo_disp :: "Phase \<Rightarrow> DispState" where
  "demo_disp p = \<lparr>dsSchemaVersion = 1, dsRevision = 0, dsExecutions = [(''x1'', demo_exec p)], dsOperations = [], dsUpdatedAt = 1\<rparr>"

text \<open>The computer has acknowledged the run with its result.\<close>

definition demo_run_result :: RunResult where
  "demo_run_result = \<lparr>rsRunID = ''r1'', rsTaskID = ''k1'', rsSuccess = True, rsTerminal = ''x'', rsSummary = ''x'', rsEvidence = [''x''],
     rsArtifactURI = ''x'', rsArtifactHash = demo_digest, rsDecision = [], rsReason = [], rsStartedAt = 1, rsCompletedAt = 2\<rparr>"

definition demo_acked :: Command where
  "demo_acked = demo_command\<lparr>cdState := CommandAcked, cdResult := Some demo_run_result\<rparr>"

definition demo_comp_acked :: CompState where
  "demo_comp_acked = demo_comp\<lparr>ccCommands := [(''c1'', demo_acked)]\<rparr>"

definition demo_world :: "Phase \<Rightarrow> WState \<Rightarrow> dispWorld" where
  "demo_world p s = \<lparr>dwSelf = [(''dispatches-v1.json'', Record (demo_disp p))], dwTasks = demo_store s, dwAgents = [],
     dwComputers = [(''computers-v1.json'', Record demo_comp_acked)], dwTick = 0\<rparr>"

definition demo_around :: "env \<Rightarrow> work_call list \<Rightarrow> surround" where
  "demo_around e ws = \<lparr>srEnv = e, srIo = Io_ok, srWork = ws, srAgents = [], srComputers = []\<rparr>"

lemma demo_exec_ok: "known_phase p \<Longrightarrow> execution_ok (''x1'', demo_exec p) = None"
  unfolding execution_ok_def demo_exec_def zeroExecution_def by (simp add: dsSchema_def char_eval)

lemma demo_disp_read: "known_phase p \<Longrightarrow> readFile dispStore (dwSelf (demo_world p s)) = Inr (demo_disp p)"
  using demo_exec_ok [of p]
  by (simp add: readFile_Inr dispStore_def demo_world_def readJSON_def validateDispState_def demo_disp_def dsSchema_def ledger_ok_def
      del: safeID.simps)

lemma demo_world_inv: "p \<noteq> Succeeded \<Longrightarrow> p \<noteq> Reviewing \<Longrightarrow> disp_inv (demo_world p s)"
  by (auto simp: disp_inv_def disp_ok_def grounded_def demo_world_def dispStore_def readJSON_def demo_disp_def)
    (simp_all add: demo_exec_def counted_def claim_ttl_def zeroExecution_def)

lemma demo_year [simp]: "json_time 100 = Some (JStr (format_rfc3339nano 100))"
  by (simp add: json_time_def year_of_day_def day_ns_def)

lemma demo_comp_acked_read: "readFile compStore [(''computers-v1.json'', Record demo_comp_acked)] = Inr demo_comp_acked"
proof -
  have m: "cmID (computerOf demo_comp_acked ''m1'') = ''m1''" "cmID (computerOf demo_comp_acked ''m2'') = ''m2''"
    by (simp_all add: computerOf_def demo_comp_acked_def demo_comp_def demo_computer_def)
  have "validateRunResult demo_run_result = None"
    unfolding validateRunResult_def demo_run_result_def by (simp add: demo_digest_ok char_eval)
  then have "command_ok demo_comp_acked (''c1'', demo_acked) = None"
    using m demo_request_ok by (simp add: command_ok_def kind_ok_def demo_acked_def demo_command_def newCommand_def char_eval)
      (simp add: demo_request_def)
  moreover have "first_error (binding_ok demo_comp_acked) (ccBindings demo_comp_acked) = None"
    using m by (simp add: demo_comp_acked_def demo_comp_def) (simp add: binding_ok_def demo_binding_def char_eval)
  moreover have "lease_ok demo_comp_acked (''r2'', demo_lease) = None"
    by (simp add: lease_ok_def demo_lease_def char_eval) (simp add: demo_comp_acked_def demo_comp_def demo_binding_def)
  moreover have "computer_ok (''m1'', demo_computer ''m1'' ''l1'') = None" "computer_ok (''m2'', demo_computer ''m2'' ''l2'') = None"
    by (rule demo_computer_ok; simp add: char_eval)+
  ultimately have "validateCompState demo_comp_acked = None"
    unfolding validateCompState_def by (simp add: demo_comp_acked_def demo_comp_def ccSchema_def)
  then show ?thesis unfolding readFile_Inr compStore_fields by simp (simp add: readJSON_def)
qed

theorem executions_only_advance_witness:
  "\<exists>st y. readFile dispStore (dwSelf (run_disp (\<lambda>k. demo_around demo_env []) [DReconcile, DReconcile] (demo_world AwaitingHuman InReview))) = Inr st \<and>
    mget (dsExecutions st) ''x1'' = Some y \<and> later (demo_exec AwaitingHuman) y \<and> counted y"
proof -
  have r: "readFile dispStore (dwSelf (run_disp (\<lambda>k. demo_around demo_env []) [] (demo_world AwaitingHuman InReview))) =
    Inr (demo_disp AwaitingHuman)" by (simp add: demo_disp_read)
  have "mget (dsExecutions (demo_disp AwaitingHuman)) ''x1'' = Some (demo_exec AwaitingHuman)" by (simp add: demo_disp_def)
  from executions_only_advance [OF demo_world_inv r this, of "[DReconcile, DReconcile]"] show ?thesis by auto
qed

text \<open>A human passes the task while \<open>Reconcile\<close> runs.\<close>

definition demo_human :: surroundings where
  "demo_human k = demo_around demo_env (if k = 1 then [WReq (RReview ''k1'' ''op2'' 1 WorkHistory.demo_review) demo_env] else [])"

lemma demo_human_reconcile:
  obtains w' st' z where "run_disp demo_human [DReconcile] (demo_world AwaitingHuman InReview) = w'"
    and "readFile dispStore (dwSelf w') = Inr st'" and "mget (dsExecutions st') ''x1'' = Some z" and "dxPhase z = Succeeded"
    and "dxTaskID z = ''k1''"
proof -
  let ?w = "demo_world AwaitingHuman InReview" and ?x = "demo_exec AwaitingHuman"
  let ?z = "touch 100 (?x\<lparr>dxPhase := Succeeded, dxLastError := []\<rparr>)"
  have e: "cerr demo_env = None" "now demo_env = 100" "wio demo_env = Io_ok" by (simp_all add: demo_env_def)
  obtain q w1 where q: "ask demo_human ?w = (q, w1)" by fastforce
  then have q': "cerr (srEnv q) = None" "dwTasks w1 = demo_store InReview" "dwTick w1 = 1"
    by (auto simp: ask_def others_act_def demo_human_def demo_around_def demo_world_def e)
  obtain g w2 where g: "getTask demo_human ''k1'' w1 = (g, w2)" by fastforce
  have "ReviewWork demo_env ''k1'' ''op2'' 1 WorkHistory.demo_review (demo_store InReview) = (Inr demo_done, (demo_store InReview)\<lparr>wsTasks :=
      AList.update (taskPath ''k1'') (Record demo_done) (wsTasks (demo_store InReview))\<rparr>)" by (rule demo_pass)
  then have "g = Inr demo_done" using g q'(2,3)
    by (auto simp: getTask_def askTasks_def ask_def others_act_def demo_human_def demo_around_def e GetWork_def readTask_Inr readJSON_update
        demo_done_valid simp del: safeID.simps)
  moreover have "wState demo_done = Done" by (simp add: demo_done_def commitTask_def)
  ultimately have h: "awaitHuman demo_human ?x w1 = advanced demo_human False (?x\<lparr>dxPhase := Succeeded, dxLastError := []\<rparr>) w2"
    using g by (simp add: awaitHuman_def demo_exec_def)
  obtain n w3 where n: "askNow demo_human w2 = (n, w3)" by fastforce
  obtain n' w4 where n': "askNow demo_human w3 = (n', w4)" by fastforce
  have ns: "n = 100" "n' = 100" using n n' by (auto simp: askNow_def ask_def demo_human_def demo_around_def e)
  have a: "advance demo_human ?x w1 = ((False, None), ?z, w3)" using h n ns
    by (simp add: advance_def advanced_def touchNow_def) (simp add: demo_exec_def)
  have m: "dxRevision ?z \<noteq> dxRevision ?x" by (simp add: touch_def)
  have ok: "execution_ok (''x1'', ?z) = None" using demo_exec_ok [of AwaitingHuman]
    by (auto simp: execution_ok_def touch_def split: if_splits option.splits)
  obtain res w' st' where r: "ReconcileDispatcher demo_human ?w = (Inr res, w')" "readFile dispStore (dwSelf w') = Inr st'"
      "dsExecutions st' = [(''x1'', ?z)]"
    by (rule reconcile_single [OF demo_disp_read [of AwaitingHuman InReview] _ q q'(1) a _ m ok n' [unfolded ns(2)] _ demo_year])
      (simp_all add: demo_disp_def noteError_def find_op_def demo_human_def demo_around_def e)
  then have "run_disp demo_human [DReconcile] ?w = w'" by simp
  from that [OF this r(2)] r(3) show thesis by (simp add: touch_def) (simp add: demo_exec_def)
qed

theorem succeeded_means_passed_witness:
  "\<exists>t. readJSON (wsTasks (dwTasks (run_disp demo_human [DReconcile] (demo_world AwaitingHuman InReview)))) (taskPath ''k1'') = Inr t \<and>
    wState t = Done \<and> gate_passed t"
proof -
  obtain w' st' z where r: "run_disp demo_human [DReconcile] (demo_world AwaitingHuman InReview) = w'"
    "readFile dispStore (dwSelf w') = Inr st'" "mget (dsExecutions st') ''x1'' = Some z" "dxPhase z = Succeeded" "dxTaskID z = ''k1''"
    by (rule demo_human_reconcile)
  from succeeded_means_passed [OF demo_world_inv _ r(3,4), of AwaitingHuman demo_human "[DReconcile]" InReview] r
  show ?thesis by auto
qed

text \<open>The context is cancelled after two calls.\<close>

definition demo_cancelled :: surroundings where
  "demo_cancelled k = demo_around (if k < 2 then demo_env else demo_env\<lparr>cerr := Some (Sentinel ''context canceled'')\<rparr>) []"

theorem cancelled_reconcile_strands_witness:
  "\<exists>st y. readFile dispStore (dwSelf (run_disp demo_human [DReconcile, DReconcile]
      (snd (ReconcileDispatcher demo_cancelled (demo_world Running InProgress))))) = Inr st \<and>
    mget (dsExecutions st) ''x1'' = Some y \<and> dxPhase y = Running \<and> dxActiveCommandID y = [] \<and> dxResult y = Some demo_run_result"
proof -
  let ?w = "demo_world Running InProgress" and ?x = "demo_exec Running"
  have e: "cerr demo_env = None" "wio demo_env = Io_ok" "clk demo_env k = 100" for k by (simp_all add: demo_env_def)
  obtain q w1 where q: "ask demo_cancelled ?w = (q, w1)" by fastforce
  then have q': "cerr (srEnv q) = None" "dwComputers w1 = [(''computers-v1.json'', Record demo_comp_acked)]" "dwTick w1 = 1"
    by (auto simp: ask_def others_act_def demo_cancelled_def demo_around_def demo_world_def e)
  obtain c w2 where c: "commandOf demo_cancelled (dxActiveCommandID ?x) w1 = (c, w2)" by fastforce
  have "c = Inr demo_acked \<and> dwTick w2 = 2" using c q' demo_comp_acked_read
    by (auto simp: commandOf_def getComputers_def askComputers_def ask_def others_act_def demo_cancelled_def demo_around_def e
        GetCompState_def demo_comp_acked_def demo_exec_def)
  with c have c': "commandOf demo_cancelled (dxActiveCommandID ?x) w1 = (Inr demo_acked, w2)" "dwTick w2 = 2" by auto
  have x: "dsExecutions (demo_disp Running) = [(''x1'', ?x)]" "dxPhase ?x = Running" "dxTaskID ?x = ''k1''" "dxLastError ?x = []"
    by (simp_all add: demo_disp_def) (simp_all add: demo_exec_def zeroExecution_def)
  have r: "cdState demo_acked = CommandAcked" "cdResult demo_acked = Some demo_run_result" "rsSuccess demo_run_result"
    "rsArtifactURI demo_run_result \<noteq> []" "safeDigest (rsArtifactHash demo_run_result)" "safeID (rsRunID demo_run_result)"
    "rsTaskID demo_run_result = dxTaskID ?x"
    by (simp_all add: demo_acked_def demo_run_result_def demo_digest_ok x char_eval)
  have cancelled: "cerr (srEnv (demo_cancelled k)) = Some (Sentinel ''context canceled'')" if "dwTick w2 \<le> k" for k
    using that by (simp add: demo_cancelled_def demo_around_def c'(2))
  have last: "dxLastError ?x \<noteq> error_text (Sentinel ''context canceled'')" by (simp add: x)
  obtain n u v where step: "advance demo_cancelled ?x w1 = ((False, Some (Sentinel ''context canceled'')), clearActive (?x\<lparr>dxResult := Some demo_run_result\<rparr>), u)"
    "askNow demo_cancelled u = (n, v)" "noteError demo_cancelled (Some (Sentinel ''context canceled'')) (clearActive (?x\<lparr>dxResult := Some demo_run_result\<rparr>)) u =
      (touch n ((clearActive (?x\<lparr>dxResult := Some demo_run_result\<rparr>))\<lparr>dxLastError := error_text (Sentinel ''context canceled'')\<rparr>), v)"
    by (rule cancelled_advance [OF x(2) last c'(1) r(1-5) cancelled])
  let ?z = "touch n ((clearActive (?x\<lparr>dxResult := Some demo_run_result\<rparr>))\<lparr>dxLastError := error_text (Sentinel ''context canceled'')\<rparr>)"
  obtain n' v' where n': "askNow demo_cancelled v = (n', v')" by fastforce
  have ns: "n = 100" "n' = 100" using step(2) n' by (auto simp: askNow_def ask_def demo_cancelled_def demo_around_def e)
  have ok: "execution_ok (''x1'', ?z) = None" using demo_exec_ok [of Running] r(6,7) x(2)
    by (auto simp: execution_ok_def touch_def clearActive_def ns split: if_splits)
  have m: "dxRevision ?z \<noteq> dxRevision ?x" by (simp add: touch_def clearActive_def)
  obtain res w' where R: "ReconcileDispatcher demo_cancelled ?w = (Inr res, w')"
    by (rule reconcile_single [OF demo_disp_read x(1) q q'(1) step(1,3) m ok n' [unfolded ns(2)] _ demo_year])
      (auto simp: demo_disp_def find_op_def demo_cancelled_def demo_around_def e)
  have read: "readFile dispStore (dwSelf w1) = Inr (demo_disp Running)" using ask_step [OF q] by (simp add: tasks_step_def demo_disp_read)
  have none: "reconcileAll demo_cancelled [] (demo_disp Running, False, noResult, w1) = (demo_disp Running, False, noResult, w1)" by simp
  have sorted: "sort_by (<) (map fst (dsExecutions (demo_disp Running))) = [] @ ''x1'' # []" by (simp add: x(1) sort_by_def)
  have "\<exists>st y. readFile dispStore (dwSelf (run_disp demo_human [DReconcile, DReconcile] w')) = Inr st \<and>
    mget (dsExecutions st) ''x1'' = Some y \<and> dxPhase y = Running \<and> dxActiveCommandID y = [] \<and> dxResult y = Some demo_run_result"
    by (rule cancelled_reconcile_strands [OF R q read sorted _ none _ x(2) last c'(1) r(1-5) cancelled]) (simp_all add: x(1))
  then show ?thesis by (simp add: R)
qed

end
