(* ===== verification/TraceReplay.thy ===== *)
theory TraceReplay
  imports RunStore
begin

text \<open>
  The check of a stored trace (\<open>Replay\<close> in internal/runstore/store.go), a single pass with maps of open tool calls, of committed operations and
  of claimed inputs, and a reference definition of what it accepts: each event is judged by the events before it, with no state.
  The two agree, in the verdict and in the summary.
\<close>

section \<open>The pass\<close>

record ReplaySummary =
  rsRunID :: string
  rsEvents :: nat
  rsToolCalls :: nat
  rsToolResults :: nat
  rsCapabilitySnapshots :: nat
  rsCapabilityDigest :: string
  rsToolDigest :: string
  rsPromptDigest :: string
  rsAgentsDigest :: string
  rsSkillsDigest :: string
  rsHistoryCommits :: nat
  rsLastHistoryRevision :: int
  rsInputClaims :: nat
  rsInputAcknowledgements :: nat
  rsPendingInputClaims :: nat
  rsFinalReason :: string

definition metadataString :: "any gomap \<Rightarrow> string \<Rightarrow> string \<times> bool" where
  "metadataString metadata key = (case mget metadata key of Some (AnyString s) \<Rightarrow> (s, True) | _ \<Rightarrow> ([], False))"

definition metadataInt64 :: "any gomap \<Rightarrow> string \<Rightarrow> int \<times> bool" where
  "metadataInt64 metadata key = (case mget metadata key of
       Some (AnyInt i) \<Rightarrow> (i, True)
     | Some (AnyInt64 i) \<Rightarrow> (i, True)
     | Some (AnyFloat x) \<Rightarrow> (let c = int64_of_float x in (c, float_eq (float_of_int c) x))
     | Some (AnyNumber s) \<Rightarrow> (case parse_int64 s of Some i \<Rightarrow> (i, True) | None \<Rightarrow> (0, False))
     | _ \<Rightarrow> (0, False))"

record replayState =
  rpSummary :: ReplaySummary
  rpLast :: int
  rpPending :: "int gomap"
  rpOperations :: "string gomap"
  rpClaims :: "bool gomap"

definition pendingCount :: "int gomap \<Rightarrow> string \<Rightarrow> int" where
  "pendingCount m k = (case mget m k of Some n \<Rightarrow> n | None \<Rightarrow> 0)"

definition replayCapability :: "any gomap \<Rightarrow> ReplaySummary \<Rightarrow> go_error + ReplaySummary" where
  "replayCapability md s =
     (case metadataString md ''digest'' of (digest, ok) \<Rightarrow>
      if \<not> ok \<or> \<not> safeDigest digest then Inl (Errorf ''capability snapshot has invalid digest'') else
      if rsCapabilityDigest s \<noteq> [] \<and> rsCapabilityDigest s \<noteq> digest then Inl (Errorf ''capability revision changed inside one run'') else
      let s1 = s\<lparr>rsCapabilityDigest := digest, rsCapabilitySnapshots := rsCapabilitySnapshots s + 1\<rparr> in
      (case (metadataString md ''tool_digest'', metadataString md ''prompt_digest'', metadataString md ''agents_digest'',
             metadataString md ''skills_digest'') of
         ((toolDigest, hasTool), (promptDigest, hasPrompt), (agentsDigest, hasAgents), (skillsDigest, hasSkills)) \<Rightarrow>
           if hasTool \<or> hasPrompt \<or> hasAgents \<or> hasSkills then
             if \<not> hasTool \<or> \<not> safeDigest toolDigest \<or> \<not> hasPrompt \<or> \<not> safeDigest promptDigest \<or> \<not> hasSkills \<or> \<not> safeDigest skillsDigest
               \<or> (agentsDigest \<noteq> [] \<and> \<not> safeDigest agentsDigest)
             then Inl (Errorf ''capability snapshot has invalid component digests'')
             else Inr (s1\<lparr>rsToolDigest := toolDigest, rsPromptDigest := promptDigest, rsAgentsDigest := agentsDigest,
                          rsSkillsDigest := skillsDigest\<rparr>)
           else Inr s1))"

definition replayStep :: "string \<Rightarrow> Event \<Rightarrow> replayState \<Rightarrow> go_error + replayState" where
  "replayStep runID event st0 =
     (if evRunID event \<noteq> runID
      then Inl (Errorf (''event run id '' @ evRunID event @ '' does not match result '' @ runID)) else
      if evSequence event \<le> rpLast st0
      then Inl (Errorf (''event sequence '' @ dec_int (evSequence event) @ '' is not greater than '' @ dec_int (rpLast st0))) else
      let st = st0\<lparr>rpLast := evSequence event\<rparr>; summary = rpSummary st; md = evMetadata event in
      case evType event of
        EventCapability \<Rightarrow>
          (case replayCapability md summary of Inl err \<Rightarrow> Inl err | Inr s \<Rightarrow> Inr (st\<lparr>rpSummary := s\<rparr>))
      | EventCommitted \<Rightarrow>
          (case (metadataString md ''operation_id'', metadataString md ''fingerprint'', metadataInt64 md ''revision'') of
             ((operationID, operationOK), (fingerprint, fingerprintOK), (revision, revisionOK)) \<Rightarrow>
               if \<not> operationOK \<or> operationID = [] \<or> \<not> fingerprintOK \<or> \<not> safeDigest fingerprint \<or> \<not> revisionOK
               then Inl (Errorf ''history_committed event has invalid commit identity'') else
               (case mget (rpOperations st) operationID of
                  Some existing \<Rightarrow>
                    if existing \<noteq> fingerprint then Inl (Errorf (''operation '' @ operationID @ '' has conflicting fingerprints''))
                    else Inl (Errorf (''operation '' @ operationID @ '' was acknowledged more than once''))
                | None \<Rightarrow>
                    if revision \<noteq> rsLastHistoryRevision summary + 1
                    then Inl (Errorf (''history revision '' @ dec_int revision @ '' does not follow '' @ dec_int (rsLastHistoryRevision summary)))
                    else Inr (st\<lparr>rpOperations := mput operationID fingerprint (rpOperations st),
                                 rpSummary := summary\<lparr>rsHistoryCommits := rsHistoryCommits summary + 1, rsLastHistoryRevision := revision\<rparr>\<rparr>)))
      | EventInputClaimed \<Rightarrow>
          (case metadataString md ''claim_id'' of (claimID, ok) \<Rightarrow>
             if \<not> ok \<or> claimID = [] then Inl (Errorf ''input_claimed event has empty claim id'') else
             if mget (rpClaims st) claimID \<noteq> None then Inl (Errorf (''input claim '' @ claimID @ '' appears more than once'')) else
             Inr (st\<lparr>rpClaims := mput claimID False (rpClaims st), rpSummary := summary\<lparr>rsInputClaims := rsInputClaims summary + 1\<rparr>\<rparr>))
      | EventInputAcked \<Rightarrow>
          (case (metadataString md ''claim_id'', metadataInt64 md ''history_revision'') of ((claimID, ok), (revision, revisionOK)) \<Rightarrow>
             if \<not> ok \<or> claimID = [] \<or> mget (rpClaims st) claimID = None
             then Inl (Errorf (''input acknowledgement '' @ claimID @ '' has no preceding claim'')) else
             if mget (rpClaims st) claimID = Some True
             then Inl (Errorf (''input claim '' @ claimID @ '' was acknowledged more than once'')) else
             if \<not> revisionOK \<or> revision \<le> 0 \<or> revision > rsLastHistoryRevision summary
             then Inl (Errorf (''input claim '' @ claimID @ '' has invalid committed revision '' @ dec_int revision)) else
             Inr (st\<lparr>rpClaims := mput claimID True (rpClaims st),
                     rpSummary := summary\<lparr>rsInputAcknowledgements := rsInputAcknowledgements summary + 1\<rparr>\<rparr>))
      | EventToolStarted \<Rightarrow>
          (let i = callID (evToolCall event) in
           if i = [] then Inl (Errorf ''tool_started event has empty call id'') else
           Inr (st\<lparr>rpPending := mput i (pendingCount (rpPending st) i + 1) (rpPending st),
                   rpSummary := summary\<lparr>rsToolCalls := rsToolCalls summary + 1\<rparr>\<rparr>))
      | EventToolResult \<Rightarrow>
          (let i = resToolCallID (evToolResult event) in
           if pendingCount (rpPending st) i = 0 then Inl (Errorf (''tool result '' @ i @ '' has no preceding call'')) else
           Inr (st\<lparr>rpPending := mput i (pendingCount (rpPending st) i - 1) (rpPending st),
                   rpSummary := summary\<lparr>rsToolResults := rsToolResults summary + 1\<rparr>\<rparr>))
      | _ \<Rightarrow> Inr st)"

fun replayEvents :: "string \<Rightarrow> Event list \<Rightarrow> replayState \<Rightarrow> go_error + replayState" where
  "replayEvents runID [] st = Inr st"
| "replayEvents runID (e # es) st = (case replayStep runID e st of Inl err \<Rightarrow> Inl err | Inr st' \<Rightarrow> replayEvents runID es st')"

definition replayStart :: "Trace \<Rightarrow> replayState" where
  "replayStart trace = \<lparr>rpSummary = \<lparr>rsRunID = rrRunID (trResult trace), rsEvents = length (trEvents trace), rsToolCalls = 0, rsToolResults = 0,
     rsCapabilitySnapshots = 0, rsCapabilityDigest = [], rsToolDigest = [], rsPromptDigest = [], rsAgentsDigest = [], rsSkillsDigest = [],
     rsHistoryCommits = 0, rsLastHistoryRevision = 0, rsInputClaims = 0, rsInputAcknowledgements = 0, rsPendingInputClaims = 0,
     rsFinalReason = reason_text (rrReason (trResult trace))\<rparr>, rpLast = 0, rpPending = [], rpOperations = [], rpClaims = []\<rparr>"

definition replayFinish :: "EngineRunResult \<Rightarrow> replayState \<Rightarrow> go_error + ReplaySummary" where
  "replayFinish result st =
     (let summary = rpSummary st; capability = rrCapability result in
      if rsCapabilityDigest summary \<noteq> [] \<and> capDigest capability \<noteq> rsCapabilityDigest summary
      then Inl (Errorf ''result capability does not match trace snapshot'') else
      if rsToolDigest summary \<noteq> [] \<and> (capToolDigest capability \<noteq> rsToolDigest summary \<or> capPromptDigest capability \<noteq> rsPromptDigest summary
        \<or> capAgentsDigest capability \<noteq> rsAgentsDigest summary \<or> capSkillsDigest capability \<noteq> rsSkillsDigest summary)
      then Inl (Errorf ''result capability components do not match trace snapshot'') else
      if rsHistoryCommits summary > 0 \<and> rrHistoryRevision result \<noteq> rsLastHistoryRevision summary
      then Inl (Errorf (''result history revision '' @ dec_int (rrHistoryRevision result) @ '' does not match trace revision ''
             @ dec_int (rsLastHistoryRevision summary))) else
      let summary' = summary\<lparr>rsPendingInputClaims := rsPendingInputClaims summary + length (filter (\<lambda>p. \<not> snd p) (rpClaims st))\<rparr> in
      (case filter (\<lambda>p. snd p \<noteq> 0 \<and> reason_text (rrReason result) = ''completed'') (rpPending st) of
         (i, n) # _ \<Rightarrow> Inl (Errorf (''completed trace has '' @ dec_int n @ '' unmatched call(s) for '' @ i))
       | [] \<Rightarrow> Inr summary'))"

definition Replay :: "Trace \<Rightarrow> go_error + ReplaySummary" where
  "Replay trace =
     (case replayEvents (rrRunID (trResult trace)) (trEvents trace) (replayStart trace) of
        Inl err \<Rightarrow> Inl err
      | Inr st \<Rightarrow> replayFinish (trResult trace) st)"

section \<open>The reference definition\<close>

text \<open>What the events before an event say.\<close>

definition of_type :: "EventType \<Rightarrow> Event list \<Rightarrow> Event list" where
  "of_type t es = filter (\<lambda>e. evType e = t) es"

definition str :: "string \<Rightarrow> Event \<Rightarrow> string" where
  "str key e = fst (metadataString (evMetadata e) key)"

definition has_str :: "string \<Rightarrow> Event \<Rightarrow> bool" where
  "has_str key e = snd (metadataString (evMetadata e) key)"

definition commits :: "Event list \<Rightarrow> nat" where
  "commits es = length (of_type EventCommitted es)"

definition committed_ids :: "Event list \<Rightarrow> string list" where
  "committed_ids es = map (str ''operation_id'') (of_type EventCommitted es)"

definition claimed_ids :: "Event list \<Rightarrow> string list" where
  "claimed_ids es = map (str ''claim_id'') (of_type EventInputClaimed es)"

definition acked_ids :: "Event list \<Rightarrow> string list" where
  "acked_ids es = map (str ''claim_id'') (of_type EventInputAcked es)"

definition started :: "Event list \<Rightarrow> string \<Rightarrow> nat" where
  "started es i = length (filter (\<lambda>e. callID (evToolCall e) = i) (of_type EventToolStarted es))"

definition answered :: "Event list \<Rightarrow> string \<Rightarrow> nat" where
  "answered es i = length (filter (\<lambda>e. resToolCallID (evToolResult e) = i) (of_type EventToolResult es))"

definition last_sequence :: "Event list \<Rightarrow> int" where
  "last_sequence es = (if es = [] then 0 else evSequence (last es))"

definition has_components :: "Event \<Rightarrow> bool" where
  "has_components e \<longleftrightarrow> has_str ''tool_digest'' e \<or> has_str ''prompt_digest'' e \<or> has_str ''agents_digest'' e \<or> has_str ''skills_digest'' e"

definition components_ok :: "Event \<Rightarrow> bool" where
  "components_ok e \<longleftrightarrow> has_str ''tool_digest'' e \<and> safeDigest (str ''tool_digest'' e) \<and> has_str ''prompt_digest'' e
     \<and> safeDigest (str ''prompt_digest'' e) \<and> has_str ''skills_digest'' e \<and> safeDigest (str ''skills_digest'' e)
     \<and> (str ''agents_digest'' e = [] \<or> safeDigest (str ''agents_digest'' e))"

definition snapshot_digest :: "Event list \<Rightarrow> string" where
  "snapshot_digest es = (case rev (of_type EventCapability es) of [] \<Rightarrow> [] | e # _ \<Rightarrow> str ''digest'' e)"

definition component :: "string \<Rightarrow> Event list \<Rightarrow> string" where
  "component key es = (case rev (filter has_components (of_type EventCapability es)) of [] \<Rightarrow> [] | e # _ \<Rightarrow> str key e)"

definition capability_ok :: "Event list \<Rightarrow> Event \<Rightarrow> bool" where
  "capability_ok es e \<longleftrightarrow> has_str ''digest'' e \<and> safeDigest (str ''digest'' e) \<and>
     (snapshot_digest es = [] \<or> snapshot_digest es = str ''digest'' e) \<and> (has_components e \<longrightarrow> components_ok e)"

text \<open>An event is in order after the events before it.\<close>

definition event_fits :: "Event list \<Rightarrow> Event \<Rightarrow> bool" where
  "event_fits es e \<longleftrightarrow> (case evType e of
        EventCapability \<Rightarrow> capability_ok es e
      | EventCommitted \<Rightarrow> has_str ''operation_id'' e \<and> str ''operation_id'' e \<noteq> [] \<and> has_str ''fingerprint'' e
          \<and> safeDigest (str ''fingerprint'' e) \<and> str ''operation_id'' e \<notin> set (committed_ids es)
          \<and> metadataInt64 (evMetadata e) ''revision'' = (int (commits es) + 1, True)
      | EventInputClaimed \<Rightarrow> has_str ''claim_id'' e \<and> str ''claim_id'' e \<noteq> [] \<and> str ''claim_id'' e \<notin> set (claimed_ids es)
      | EventInputAcked \<Rightarrow> has_str ''claim_id'' e \<and> str ''claim_id'' e \<noteq> [] \<and> str ''claim_id'' e \<in> set (claimed_ids es)
          \<and> str ''claim_id'' e \<notin> set (acked_ids es)
          \<and> (case metadataInt64 (evMetadata e) ''history_revision'' of (r, ok) \<Rightarrow> ok \<and> 0 < r \<and> r \<le> int (commits es))
      | EventToolStarted \<Rightarrow> callID (evToolCall e) \<noteq> []
      | EventToolResult \<Rightarrow> answered es (resToolCallID (evToolResult e)) < started es (resToolCallID (evToolResult e))
      | _ \<Rightarrow> True)"

definition event_ok :: "string \<Rightarrow> Event list \<Rightarrow> Event \<Rightarrow> bool" where
  "event_ok runID es e \<longleftrightarrow> evRunID e = runID \<and> last_sequence es < evSequence e \<and> event_fits es e"

fun events_ok :: "string \<Rightarrow> Event list \<Rightarrow> Event list \<Rightarrow> bool" where
  "events_ok runID pre [] = True"
| "events_ok runID pre (e # es) = (event_ok runID pre e \<and> events_ok runID (pre @ [e]) es)"

definition result_ok :: "EngineRunResult \<Rightarrow> Event list \<Rightarrow> bool" where
  "result_ok r es \<longleftrightarrow>
     (snapshot_digest es = [] \<or> snapshot_digest es = capDigest (rrCapability r)) \<and>
     (component ''tool_digest'' es = [] \<or> component ''tool_digest'' es = capToolDigest (rrCapability r)
        \<and> component ''prompt_digest'' es = capPromptDigest (rrCapability r) \<and> component ''agents_digest'' es = capAgentsDigest (rrCapability r)
        \<and> component ''skills_digest'' es = capSkillsDigest (rrCapability r)) \<and>
     (commits es = 0 \<or> rrHistoryRevision r = int (commits es)) \<and>
     (reason_text (rrReason r) = ''completed'' \<longrightarrow>
        (\<forall>i\<in>set (map (callID \<circ> evToolCall) (of_type EventToolStarted es)). answered es i = started es i))"

definition summary_of :: "Trace \<Rightarrow> ReplaySummary" where
  "summary_of t = (let es = trEvents t in
     \<lparr>rsRunID = rrRunID (trResult t), rsEvents = length es, rsToolCalls = length (of_type EventToolStarted es),
      rsToolResults = length (of_type EventToolResult es), rsCapabilitySnapshots = length (of_type EventCapability es),
      rsCapabilityDigest = snapshot_digest es, rsToolDigest = component ''tool_digest'' es, rsPromptDigest = component ''prompt_digest'' es,
      rsAgentsDigest = component ''agents_digest'' es, rsSkillsDigest = component ''skills_digest'' es, rsHistoryCommits = commits es,
      rsLastHistoryRevision = int (commits es), rsInputClaims = length (claimed_ids es), rsInputAcknowledgements = length (acked_ids es),
      rsPendingInputClaims = length (claimed_ids es) - length (acked_ids es), rsFinalReason = reason_text (rrReason (trResult t))\<rparr>)"

definition trace_ok :: "Trace \<Rightarrow> bool" where
  "trace_ok t \<longleftrightarrow> events_ok (rrRunID (trResult t)) [] (trEvents t) \<and> result_ok (trResult t) (trEvents t)"

section \<open>The pass computes the reference\<close>

lemma of_type_snoc [simp]: "of_type t (es @ [e]) = (if evType e = t then of_type t es @ [e] else of_type t es)"
  by (simp add: of_type_def)

lemma of_type_Nil [simp]: "of_type t [] = []"
  by (simp add: of_type_def)

lemmas trace_counts = commits_def committed_ids_def claimed_ids_def acked_ids_def started_def answered_def snapshot_digest_def component_def
  last_sequence_def

definition replay_inv :: "Trace \<Rightarrow> Event list \<Rightarrow> replayState \<Rightarrow> bool" where
  "replay_inv t es st \<longleftrightarrow>
     rpSummary st = (summary_of \<lparr>trEvents = es, trResult = trResult t\<rparr>)\<lparr>rsEvents := length (trEvents t), rsPendingInputClaims := 0\<rparr> \<and>
     rpLast st = last_sequence es \<and>
     (\<forall>i. mget (rpPending st) i = (if started es i > 0 then Some (int (started es i) - int (answered es i)) else None)) \<and>
     (\<forall>i. answered es i \<le> started es i) \<and> wf_map (rpPending st) \<and>
     (\<forall>i. mget (rpOperations st) i = None \<longleftrightarrow> i \<notin> set (committed_ids es)) \<and>
     (\<forall>i. mget (rpClaims st) i = (if i \<in> set (claimed_ids es) then Some (i \<in> set (acked_ids es)) else None)) \<and> wf_map (rpClaims st) \<and>
     distinct (claimed_ids es) \<and> distinct (acked_ids es) \<and> set (acked_ids es) \<subseteq> set (claimed_ids es)"

lemma replay_inv_start: "replay_inv t [] (replayStart t)"
  by (simp add: replay_inv_def replayStart_def summary_of_def trace_counts Let_def)

lemma metadata_pair: "metadataString md k = (fst (metadataString md k), snd (metadataString md k))"
  by simp

lemma pendingCount_inv: "replay_inv t es st \<Longrightarrow> pendingCount (rpPending st) i = int (started es i) - int (answered es i)"
proof -
  assume inv: "replay_inv t es st"
  then have "mget (rpPending st) i = (if started es i > 0 then Some (int (started es i) - int (answered es i)) else None)"
    "answered es i \<le> started es i" by (simp_all add: replay_inv_def)
  then show ?thesis by (auto simp: pendingCount_def)
qed

lemma md_str: "metadataString (evMetadata e) k = (str k e, has_str k e)"
  by (simp add: str_def has_str_def)

lemma replay_capability:
  assumes "rsCapabilityDigest s = snapshot_digest es"
  shows "capability_ok es e \<Longrightarrow> replayCapability (evMetadata e) s =
      Inr (if has_components e
        then s\<lparr>rsCapabilityDigest := str ''digest'' e, rsCapabilitySnapshots := rsCapabilitySnapshots s + 1,
          rsToolDigest := str ''tool_digest'' e, rsPromptDigest := str ''prompt_digest'' e, rsAgentsDigest := str ''agents_digest'' e,
          rsSkillsDigest := str ''skills_digest'' e\<rparr>
        else s\<lparr>rsCapabilityDigest := str ''digest'' e, rsCapabilitySnapshots := rsCapabilitySnapshots s + 1\<rparr>)"
    and "\<not> capability_ok es e \<Longrightarrow> \<exists>err. replayCapability (evMetadata e) s = Inl err"
proof -
  define c where "c \<longleftrightarrow> (\<not> has_str ''tool_digest'' e \<or> \<not> safeDigest (str ''tool_digest'' e) \<or> \<not> has_str ''prompt_digest'' e
    \<or> \<not> safeDigest (str ''prompt_digest'' e) \<or> \<not> has_str ''skills_digest'' e \<or> \<not> safeDigest (str ''skills_digest'' e)
    \<or> (str ''agents_digest'' e \<noteq> [] \<and> \<not> safeDigest (str ''agents_digest'' e)))"
  have c: "c \<longleftrightarrow> \<not> components_ok e" by (auto simp: c_def components_ok_def)
  have eq: "replayCapability (evMetadata e) s =
     (if \<not> has_str ''digest'' e \<or> \<not> safeDigest (str ''digest'' e) then Inl (Errorf ''capability snapshot has invalid digest'') else
      if snapshot_digest es \<noteq> [] \<and> snapshot_digest es \<noteq> str ''digest'' e then Inl (Errorf ''capability revision changed inside one run'') else
      let s1 = s\<lparr>rsCapabilityDigest := str ''digest'' e, rsCapabilitySnapshots := rsCapabilitySnapshots s + 1\<rparr> in
      if has_components e then if \<not> components_ok e then Inl (Errorf ''capability snapshot has invalid component digests'') else
        Inr (s1\<lparr>rsToolDigest := str ''tool_digest'' e, rsPromptDigest := str ''prompt_digest'' e, rsAgentsDigest := str ''agents_digest'' e,
          rsSkillsDigest := str ''skills_digest'' e\<rparr>) else Inr s1)"
    unfolding replayCapability_def md_str prod.case assms c_def [symmetric] c has_components_def by (rule refl)
  show "\<exists>err. replayCapability (evMetadata e) s = Inl err" if "\<not> capability_ok es e"
    using that unfolding eq Let_def capability_ok_def by (auto split: if_splits)
  show "replayCapability (evMetadata e) s = Inr (if has_components e
        then s\<lparr>rsCapabilityDigest := str ''digest'' e, rsCapabilitySnapshots := rsCapabilitySnapshots s + 1,
          rsToolDigest := str ''tool_digest'' e, rsPromptDigest := str ''prompt_digest'' e, rsAgentsDigest := str ''agents_digest'' e,
          rsSkillsDigest := str ''skills_digest'' e\<rparr>
        else s\<lparr>rsCapabilityDigest := str ''digest'' e, rsCapabilitySnapshots := rsCapabilitySnapshots s + 1\<rparr>)" if "capability_ok es e"
    using that unfolding eq Let_def capability_ok_def by (cases "has_components e") simp_all
qed

lemma replay_step:
  assumes inv: "replay_inv t es st"
  shows "(if event_ok r es e then \<exists>st'. replayStep r e st = Inr st' \<and> replay_inv t (es @ [e]) st' else \<exists>err. replayStep r e st = Inl err)"
proof -
  have S: "rpSummary st = (summary_of \<lparr>trEvents = es, trResult = trResult t\<rparr>)\<lparr>rsEvents := length (trEvents t), rsPendingInputClaims := 0\<rparr>"
    and L: "rpLast st = last_sequence es"
    and O: "\<And>i. mget (rpOperations st) i = None \<longleftrightarrow> i \<notin> set (committed_ids es)"
    and C: "\<And>i. mget (rpClaims st) i = (if i \<in> set (claimed_ids es) then Some (i \<in> set (acked_ids es)) else None)"
    and D: "distinct (claimed_ids es)" "distinct (acked_ids es)" "set (acked_ids es) \<subseteq> set (claimed_ids es)" "wf_map (rpClaims st)"
    and P: "\<And>i. mget (rpPending st) i = (if started es i > 0 then Some (int (started es i) - int (answered es i)) else None)"
      "\<And>i. answered es i \<le> started es i" "wf_map (rpPending st)"
    using inv by (simp_all add: replay_inv_def)
  note pc = pendingCount_inv [OF inv]
  have ls: "last_sequence (es @ [e]) = evSequence e" by (simp add: last_sequence_def)
  show ?thesis
  proof (cases "evRunID e = r \<and> last_sequence es < evSequence e")
    case False
    then show ?thesis by (auto simp: event_ok_def event_fits_def replayStep_def L)
  next
    case seq: True
    then have pre: "\<not> evRunID e \<noteq> r" "\<not> evSequence e \<le> rpLast st" by (auto simp: L)
    consider (quiet) "evType e \<notin> {EventCapability, EventCommitted, EventInputClaimed, EventInputAcked, EventToolStarted, EventToolResult}"
      | (cap) "evType e = EventCapability" | (com) "evType e = EventCommitted" | (claim) "evType e = EventInputClaimed"
      | (ack) "evType e = EventInputAcked" | (start) "evType e = EventToolStarted" | (answer) "evType e = EventToolResult" by auto
    then show ?thesis
    proof cases
      case quiet
      then have "replayStep r e st = Inr (st\<lparr>rpLast := evSequence e\<rparr>)" "event_ok r es e"
        using seq by (auto simp: replayStep_def pre Let_def event_ok_def event_fits_def split: EventType.splits)
      moreover have "of_type t (es @ [e]) = of_type t es"
        if "t \<in> {EventCapability, EventCommitted, EventInputClaimed, EventInputAcked, EventToolStarted, EventToolResult}" for t
        using quiet that by auto
      ultimately show ?thesis using P C O D
        by (simp add: replay_inv_def S ls summary_of_def Let_def trace_counts)
    next
      case cap
      have rd: "rsCapabilityDigest (rpSummary (st\<lparr>rpLast := evSequence e\<rparr>)) = snapshot_digest es" by (simp add: S summary_of_def Let_def)
      note rc = replay_capability [OF rd, of e]
      have eo: "event_ok r es e \<longleftrightarrow> capability_ok es e" using seq by (simp add: event_ok_def event_fits_def cap)
      show ?thesis
      proof (cases "capability_ok es e")
        case True
        from rc(1) [OF True] show ?thesis
          using True eo P C O D
          by (simp add: replayStep_def pre cap Let_def replay_inv_def S ls summary_of_def trace_counts)
      next
        case False
        from rc(2) [OF False] False eo show ?thesis by (auto simp: replayStep_def pre cap Let_def)
      qed
    next
      case com
      show ?thesis
      proof (cases "event_ok r es e")
        case True
        then have "mget (rpOperations st) (str ''operation_id'' e) = None" using O by (simp add: event_ok_def event_fits_def com)
        with True show ?thesis
          by (simp add: replayStep_def pre com Let_def event_ok_def event_fits_def md_str replay_inv_def S ls summary_of_def)
            (use P C O D in \<open>simp add: trace_counts com\<close>)
      next
        case False
        with seq show ?thesis
          by (auto simp: replayStep_def pre com Let_def event_ok_def event_fits_def md_str S summary_of_def O split: option.splits prod.splits)
      qed
    next
      case claim
      show ?thesis
      proof (cases "event_ok r es e")
        case True
        then have "mget (rpClaims st) (str ''claim_id'' e) = None" using C by (simp add: event_ok_def event_fits_def claim)
        with True show ?thesis
          by (simp add: replayStep_def pre claim Let_def event_ok_def event_fits_def md_str replay_inv_def S ls summary_of_def)
            (use P C O D in \<open>simp add: trace_counts claim, blast\<close>)
      next
        case False
        with seq show ?thesis
          by (auto simp: replayStep_def pre claim Let_def event_ok_def event_fits_def md_str C)
      qed
    next
      case ack
      show ?thesis
      proof (cases "event_ok r es e")
        case True
        then have "mget (rpClaims st) (str ''claim_id'' e) = Some False" using C by (simp add: event_ok_def event_fits_def ack)
        with True show ?thesis
          by (simp add: replayStep_def pre ack Let_def event_ok_def event_fits_def md_str replay_inv_def S ls summary_of_def split_def)
            (use P C O D in \<open>simp add: trace_counts ack\<close>)
      next
        case False
        with seq show ?thesis
          by (auto simp: replayStep_def pre ack Let_def event_ok_def event_fits_def md_str S summary_of_def C split: option.splits prod.splits)
      qed
    next
      case start
      show ?thesis
      proof (cases "callID (evToolCall e) = []")
        case False
        then show ?thesis using seq P C O D
          by (simp add: replayStep_def pre start Let_def replay_inv_def S ls summary_of_def event_ok_def event_fits_def pc)
            (auto simp: trace_counts start intro: le_SucI)
      qed (use seq in \<open>simp add: replayStep_def pre start Let_def event_ok_def event_fits_def\<close>)
    next
      case answer
      let ?i = "resToolCallID (evToolResult e)"
      show ?thesis
      proof (cases "answered es ?i < started es ?i")
        case True
        then show ?thesis using seq P C O D
          by (simp add: replayStep_def pre answer Let_def replay_inv_def S ls summary_of_def event_ok_def event_fits_def pc)
            (auto simp: trace_counts answer)
      next
        case False
        with P(2) [of ?i] have "answered es ?i = started es ?i" by simp
        then show ?thesis using seq by (simp add: replayStep_def pre answer Let_def event_ok_def event_fits_def pc)
      qed
    qed
  qed
qed

lemma replay_events:
  "replay_inv t pre st \<Longrightarrow> (if events_ok r pre es then \<exists>st'. replayEvents r es st = Inr st' \<and> replay_inv t (pre @ es) st'
     else \<exists>err. replayEvents r es st = Inl err)"
proof (induction es arbitrary: pre st)
  case (Cons e es)
  note s = replay_step [OF Cons.prems, of r e]
  show ?case
  proof (cases "event_ok r pre e")
    case True
    with s obtain st' where st': "replayStep r e st = Inr st'" "replay_inv t (pre @ [e]) st'" by auto
    with Cons.IH [OF st'(2)] True show ?thesis by (simp split: if_splits)
  next
    case False
    with s show ?thesis by auto
  qed
qed simp

text \<open>The open claims are the claimed ones that are not acknowledged.\<close>

lemma open_claims:
  assumes "replay_inv t es st"
  shows "length (filter (\<lambda>p. \<not> snd p) (rpClaims st)) = length (claimed_ids es) - length (acked_ids es)"
proof -
  have C: "\<And>i. mget (rpClaims st) i = (if i \<in> set (claimed_ids es) then Some (i \<in> set (acked_ids es)) else None)"
    and D: "distinct (claimed_ids es)" "distinct (acked_ids es)" "set (acked_ids es) \<subseteq> set (claimed_ids es)" and w: "wf_map (rpClaims st)"
    using assms by (simp_all add: replay_inv_def)
  let ?o = "filter (\<lambda>p. \<not> snd p) (rpClaims st)"
  have "wf_map ?o" using w by simp
  then have "length ?o = card (set (map fst ?o))" by (metis wf_map_def distinct_card length_map)
  also have "set (map fst ?o) = set (claimed_ids es) - set (acked_ids es)"
  proof (rule set_eqI)
    fix i
    have "i \<in> set (map fst ?o) \<longleftrightarrow> (i, False) \<in> set (rpClaims st)" by force
    also have "\<dots> \<longleftrightarrow> mget (rpClaims st) i = Some False" by (rule mget_set [OF w])
    finally show "i \<in> set (map fst ?o) \<longleftrightarrow> i \<in> set (claimed_ids es) - set (acked_ids es)" by (auto simp: C)
  qed
  also have "card \<dots> = length (claimed_ids es) - length (acked_ids es)"
    using D by (simp add: card_Diff_subset distinct_card)
  finally show ?thesis .
qed

lemma started_ids: "0 < started es i \<longleftrightarrow> i \<in> set (map (callID \<circ> evToolCall) (of_type EventToolStarted es))"
  by (auto simp: started_def filter_empty_conv)

lemma replay_finish:
  assumes inv: "replay_inv t (trEvents t) st"
  shows "if result_ok (trResult t) (trEvents t) then replayFinish (trResult t) st = Inr (summary_of t)
    else (\<exists>err. replayFinish (trResult t) st = Inl err)"
proof -
  let ?es = "trEvents t" and ?r = "trResult t"
  have S: "rpSummary st = (summary_of \<lparr>trEvents = ?es, trResult = ?r\<rparr>)\<lparr>rsEvents := length ?es, rsPendingInputClaims := 0\<rparr>"
    and P: "\<And>i. mget (rpPending st) i = (if started ?es i > 0 then Some (int (started ?es i) - int (answered ?es i)) else None)" "wf_map (rpPending st)"
    using inv by (simp_all add: replay_inv_def)
  let ?u = "filter (\<lambda>p. snd p \<noteq> 0 \<and> reason_text (rrReason ?r) = ''completed'') (rpPending st)"
  have "(i, n) \<in> set (rpPending st) \<longleftrightarrow> 0 < started ?es i \<and> n = int (started ?es i) - int (answered ?es i)" for i n
    unfolding mget_set [OF P(2)] P(1) by auto
  then have u: "?u = [] \<longleftrightarrow> (reason_text (rrReason ?r) = ''completed'' \<longrightarrow>
      (\<forall>i\<in>set (map (callID \<circ> evToolCall) (of_type EventToolStarted ?es)). answered ?es i = started ?es i))"
    unfolding filter_empty_conv Ball_def started_ids [symmetric] split_paired_All by auto
  have c0: "rsHistoryCommits (rpSummary st) > 0 \<longleftrightarrow> commits ?es \<noteq> 0" by (simp add: S summary_of_def Let_def)
  show ?thesis
  proof (cases "?u = []")
    case True
    then show ?thesis using u open_claims [OF inv]
      by (cases t) (auto simp: replayFinish_def Let_def result_ok_def S summary_of_def)
  next
    case False
    then obtain i n us where us: "?u = (i, n) # us" by (cases ?u) auto
    from False u have "\<not> result_ok ?r ?es" by (simp add: result_ok_def)
    moreover have "\<exists>err. replayFinish ?r st = Inl err" unfolding replayFinish_def Let_def us by simp
    ultimately show ?thesis by simp
  qed
qed

lemma replay_computes:
  "(case Replay t of Inr s \<Rightarrow> Some s | Inl err \<Rightarrow> None) = (if trace_ok t then Some (summary_of t) else None)"
proof (cases "events_ok (rrRunID (trResult t)) [] (trEvents t)")
  case True
  with replay_events [OF replay_inv_start, where t = t and r = "rrRunID (trResult t)" and es = "trEvents t"] obtain st
    where "replayEvents (rrRunID (trResult t)) (trEvents t) (replayStart t) = Inr st" "replay_inv t (trEvents t) st" by auto
  with replay_finish [of t st] True show ?thesis by (auto simp: Replay_def trace_ok_def split: if_splits)
next
  case False
  with replay_events [OF replay_inv_start, where t = t and r = "rrRunID (trResult t)" and es = "trEvents t"] show ?thesis
    by (auto simp: Replay_def trace_ok_def)
qed

text \<open>C13. The single pass over a trace accepts exactly the traces of the reference definition, in which every event is judged by the events
  before it (ascending numbers, revisions 1, 2, 3, ... with distinct operations, an acknowledgement for a claim that was made, at a revision
  already committed, results only for calls that are open, one capability snapshot) and the result by all of them (its revision is the last one committed, no call is open in a completed run); and it counts what
  they hold.\<close>

theorem replay_reference:
  "(case Replay t of Inr s \<Rightarrow> Some s | Inl err \<Rightarrow> None) = (if trace_ok t then Some (summary_of t) else None)"
  by (rule replay_computes)

end
