(* ===== verification/EngineParts.thy ===== *)
theory EngineParts
  imports TraceReplay
begin

text \<open>
  The pure parts of the engine (internal/engine): the JSON text of a checkpoint and its fingerprint, the fingerprint of a tool call, which
  does not depend on how its arguments are written, the combined capability digest, the recovery hints and the messages that the
  engine writes itself.
\<close>

section \<open>The fingerprint of a checkpoint\<close>

fun json_raw :: "raw \<Rightarrow> json option" where
  "json_raw RawNil = Some JNull"
| "json_raw (RawJSON j) = Some j"
| "json_raw (RawBad s) = None"

definition json_call :: "ToolCall \<Rightarrow> json option" where
  "json_call c = (case json_raw (callArguments c) of None \<Rightarrow> None | Some a \<Rightarrow>
     Some (JObj [(''id'', JStr (callID c)), (''name'', JStr (callName c)), (''arguments'', a)]))"

fun json_list :: "('a \<Rightarrow> json option) \<Rightarrow> 'a list \<Rightarrow> json list option" where
  "json_list f [] = Some []"
| "json_list f (x # xs) = (case f x of None \<Rightarrow> None | Some y \<Rightarrow>
     (case json_list f xs of None \<Rightarrow> None | Some ys \<Rightarrow> Some (y # ys)))"

fun role_text :: "Role \<Rightarrow> string" where
  "role_text RoleSystem = ''system''"
| "role_text RoleUser = ''user''"
| "role_text RoleAssistant = ''assistant''"
| "role_text RoleTool = ''tool''"
| "role_text (OtherRole s) = s"

definition json_message :: "ChatMessage \<Rightarrow> json option" where
  "json_message m = (case json_list json_call (msgToolCalls m) of None \<Rightarrow> None | Some cs \<Rightarrow>
     Some (JObj ([(''role'', JStr (role_text (msgRole m)))] @ jomit ''content'' (msgContent m)
       @ (if cs = [] then [] else [(''tool_calls'', JArr cs)]) @ jomit ''tool_call_id'' (msgToolCallID m)
       @ (if msgIsError m then [(''is_error'', JBool True)] else []))))"

definition json_capability :: "CapabilityRevision \<Rightarrow> json" where
  "json_capability c = JObj ([(''sequence'', JInt (int (capSequence c))), (''digest'', JStr (capDigest c))]
     @ jomit ''tool_digest'' (capToolDigest c) @ jomit ''prompt_digest'' (capPromptDigest c)
     @ jomit ''agents_digest'' (capAgentsDigest c) @ jomit ''skills_digest'' (capSkillsDigest c))"

text \<open>A map is written with its keys in order; an empty one is left out.\<close>

definition jomit_map :: "string \<Rightarrow> int gomap \<Rightarrow> (string \<times> json) list" where
  "jomit_map k m = (if m = [] then [] else [(k, JObj (map (\<lambda>(i, n). (i, JInt n)) (sort_key fst m)))])"

definition json_checkpoint :: "Checkpoint \<Rightarrow> json option" where
  "json_checkpoint c =
     (case (json_list json_message (ckMessages c), json_time (ckUpdatedAt c)) of
        (Some ms, Some t) \<Rightarrow> Some (JObj
          ([(''version'', JInt (ckVersion c)), (''run_id'', JStr (ckRunID c)), (''turn_id'', JStr (ckTurnID c)),
            (''admission'', JInt (ckAdmission c)), (''lease_id'', JStr (ckLeaseID c)), (''prompt'', JStr (ckPrompt c)),
            (''work_dir'', JStr (ckWorkDir c))]
           @ jomit ''memory_scope'' (ckMemoryScope c) @ jomit ''parent_run_id'' (ckParentRunID c)
           @ jomit ''parent_turn_id'' (ckParentTurnID c)
           @ [(''capability'', json_capability (ckCapability c)), (''messages'', JArr ms), (''turn'', JInt (ckTurn c)),
              (''usage'', JObj [(''input_tokens'', JInt (inputTokens (ckUsage c))), (''output_tokens'', JInt (outputTokens (ckUsage c)))])]
           @ jomit ''reason'' (reason_text (ckReason c)) @ jomit_map ''repeated_calls'' (ckRepeatedCalls c)
           @ [(''sequence'', JInt (ckSequence c)), (''operation_sequence'', JInt (ckOperationSequence c)),
              (''history_revision'', JInt (ckHistoryRevision c))]
           @ jomit ''last_operation_id'' (ckLastOperationID c) @ jomit ''last_fingerprint'' (ckLastFingerprint c)
           @ jomit_map ''committed_input_claims'' (ckCommittedInputClaims c) @ [(''updated_at'', t)]))
      | _ \<Rightarrow> None)"

definition historyFingerprint :: "string \<Rightarrow> Checkpoint \<Rightarrow> go_error + string" where
  "historyFingerprint kind checkpoint =
     (case json_checkpoint (checkpoint\<lparr>ckUpdatedAt := 0, ckHistoryRevision := 0, ckLastOperationID := [], ckLastFingerprint := []\<rparr>) of
        None \<Rightarrow> Inl (Wrap ''engine: encode history fingerprint'' IOError)
      | Some j \<Rightarrow> Inr (sha256_hex (json_text (JObj [(''kind'', JStr kind), (''checkpoint'', j)]))))"

lemma historyFingerprint_digest: "historyFingerprint k c = Inr f \<Longrightarrow> safeDigest f"
  by (auto simp: historyFingerprint_def split: option.splits)

text \<open>The fingerprint does not depend on the fields that the commit itself fills in.\<close>

lemma historyFingerprint_volatile:
  "historyFingerprint k (c\<lparr>ckUpdatedAt := t, ckHistoryRevision := r, ckLastOperationID := i, ckLastFingerprint := f\<rparr>) = historyFingerprint k c"
  by (simp add: historyFingerprint_def)

section \<open>The fingerprint of a tool call\<close>

text \<open>\<open>json.Unmarshal\<close> into an \<open>any\<close> and \<open>json.Marshal\<close> of the result: objects become maps, so the last of several equal keys counts and the keys are
  sorted; numbers become float64 values, and one out of range makes the decoder fail.\<close>

fun canonical :: "json \<Rightarrow> json option" and canonical_list :: "json list \<Rightarrow> json list option"
  and canonical_fields :: "(string \<times> json) list \<Rightarrow> json gomap option" where
  "canonical (JInt i) = (case round_float (i < 0) (nat \<bar>i\<bar>) 1 of Inf _ \<Rightarrow> None | x \<Rightarrow> json_float x)"
| "canonical (JNum s) = (case ParseFloat s of None \<Rightarrow> None | Some x \<Rightarrow> json_float x)"
| "canonical (JArr xs) = (case canonical_list xs of None \<Rightarrow> None | Some ys \<Rightarrow> Some (JArr ys))"
| "canonical (JObj fs) = (case canonical_fields fs of None \<Rightarrow> None | Some gs \<Rightarrow> Some (JObj (sort_key fst gs)))"
| "canonical j = Some j"
| "canonical_list [] = Some []"
| "canonical_list (x # xs) = (case canonical x of None \<Rightarrow> None | Some y \<Rightarrow>
     (case canonical_list xs of None \<Rightarrow> None | Some ys \<Rightarrow> Some (y # ys)))"
| "canonical_fields [] = Some []"
| "canonical_fields ((k, x) # fs) = (case canonical x of None \<Rightarrow> None | Some y \<Rightarrow>
     (case canonical_fields fs of None \<Rightarrow> None
      | Some gs \<Rightarrow> Some (if mget gs k = None then (k, y) # gs else gs)))"

definition call_arguments_text :: "raw \<Rightarrow> string" where
  "call_arguments_text r = (case r of RawNil \<Rightarrow> [] | RawBad s \<Rightarrow> s
     | RawJSON j \<Rightarrow> (case canonical j of Some c \<Rightarrow> json_text c | None \<Rightarrow> json_text j))"

text \<open>The 32 bytes are named by their hexadecimal form, which is the key of the map in a checkpoint.\<close>

definition toolFingerprint :: "ToolCall \<Rightarrow> string" where
  "toolFingerprint c = sha256_hex (callName c @ [CHR 0x00] @ call_arguments_text (callArguments c))"

definition is_hex_any :: "char \<Rightarrow> bool" where
  "is_hex_any c \<longleftrightarrow> is_hex c \<or> (CHR ''A'' \<le> c \<and> c \<le> CHR ''F'')"

definition lower_hex :: "char \<Rightarrow> char" where
  "lower_hex c = (if CHR ''A'' \<le> c \<and> c \<le> CHR ''F'' then char_of (of_char c + 32 :: nat) else c)"

text \<open>\<open>hex.DecodeString\<close> of a stored key: 64 digits of either case, any other key is passed over.\<close>

definition decodeKey :: "string \<Rightarrow> string option" where
  "decodeKey key = (if length key = 64 \<and> list_all is_hex_any key then Some (map lower_hex key) else None)"

fun restoreRepeated :: "int gomap \<Rightarrow> int gomap \<Rightarrow> int gomap" where
  "restoreRepeated [] m = m"
| "restoreRepeated ((key, n) # ks) m = restoreRepeated ks (case decodeKey key of Some f \<Rightarrow> mput f n m | None \<Rightarrow> m)"

section \<open>The capability of a run\<close>

record promptSnapshot =
  psSystemPrompt :: string
  psDigest :: string
  psAgentsDigest :: string
  psSkillsDigest :: string

definition combinedCapability :: "CapabilityRevision \<Rightarrow> promptSnapshot \<Rightarrow> CapabilityRevision" where
  "combinedCapability toolRevision snapshot =
     (let toolDigest = (if capToolDigest toolRevision = [] then capDigest toolRevision else capToolDigest toolRevision);
          manifest = JObj ([(''tool'', JStr toolDigest), (''prompt'', JStr (psDigest snapshot))] @ jomit ''agents'' (psAgentsDigest snapshot)
            @ [(''skills'', JStr (psSkillsDigest snapshot))]) in
      \<lparr>capSequence = capSequence toolRevision, capDigest = sha256_hex (json_text manifest), capToolDigest = toolDigest,
       capPromptDigest = psDigest snapshot, capAgentsDigest = psAgentsDigest snapshot, capSkillsDigest = psSkillsDigest snapshot\<rparr>)"

lemma combinedCapability_digest [simp]: "safeDigest (capDigest (combinedCapability t s))"
  by (simp add: combinedCapability_def Let_def)

section \<open>Recovery hints and messages of the engine\<close>

definition recoveryHint :: "ToolResult \<Rightarrow> string" where
  "recoveryHint r =
     (if \<not> resIsError r \<or> resFatal r then [] else
      let code = resErrorCode r in
      if code = ''no_match'' then ''Read the current file again, then retry with exact text and enough surrounding context to identify one location.''
      else if code = ''ambiguous_match'' then ''Read the relevant region again and include more unique surrounding context; do not guess which occurrence to edit.''
      else if code = ''edit_conflict'' then ''The file changed after it was read. Re-read it, use the new digest, and recompute the edit from current contents.''
      else if code \<in> {''open_file'', ''stat_file'', ''read_file'', ''offset_out_of_range''} then ''Verify the path and current file metadata with available read-only tools, then retry using the observed state.''
      else if code \<in> {''schema_validation'', ''argument_validation'', ''invalid_arguments''} then ''Correct the tool arguments to match its schema and validation error before retrying.''
      else if code = ''command_failed'' then ''Inspect the exit code and output, fix quoting or command assumptions, and retry only with a materially changed command.''
      else if code = ''plan_not_found'' then ''Create the plan with expected_revision 0 before reading or updating it.''
      else if code = ''plan_conflict'' then ''Read the latest plan revision, merge against that canonical state, and retry with a new operation_id.''
      else if code = ''unknown_skill'' then ''Choose a skill from the pinned capability catalog; live filesystem additions are unavailable until a new run.''
      else if code = ''memory_search'' then ''Narrow or rephrase the recall query and continue from recent raw context if no archived detail is available.''
      else if resRetryable r then ''Use the structured error code as evidence, change the approach or arguments, and avoid repeating the equivalent call.''
      else [])"

definition attachRecoveryHint :: "ToolResult \<Rightarrow> ToolResult \<times> string" where
  "attachRecoveryHint r = (let hint = recoveryHint r in
     if hint = [] then (r, [])
     else (r\<lparr>resOutput := TrimSpace (resOutput r) @ [CHR 0x0A] @ ''Recovery guidance: '' @ hint\<rparr>, hint))"

lemma attachRecoveryHint_same [simp]:
  "resToolCallID (fst (attachRecoveryHint r)) = resToolCallID r" "resFatal (fst (attachRecoveryHint r)) = resFatal r"
  "resErrorCode (fst (attachRecoveryHint r)) = resErrorCode r" "resIsError (fst (attachRecoveryHint r)) = resIsError r"
  by (simp_all add: attachRecoveryHint_def Let_def)

definition userMessage :: "string \<Rightarrow> ChatMessage" where
  "userMessage s = \<lparr>msgRole = RoleUser, msgContent = s, msgToolCalls = [], msgToolCallID = [], msgIsError = False\<rparr>"

definition repeatedCallReminder :: "string \<Rightarrow> int \<Rightarrow> int \<Rightarrow> ChatMessage" where
  "repeatedCallReminder toolName n limit = userMessage
     (''<system-reminder> The equivalent '' @ toolName @ '' call has been attempted '' @ dec_int n @ '' times (hard limit '' @ dec_int limit
      @ ''). Stop repeating it. Reassess the latest observations, change the arguments or approach, or explain why progress is blocked. </system-reminder>'')"

fun kind_text :: "InputKind \<Rightarrow> string" where
  "kind_text InputUserSteer = ''user_steer''"
| "kind_text InputTool = ''tool_input''"
| "kind_text InputTask = ''task_result''"
| "kind_text (OtherKind s) = s"

definition formatQueuedInput :: "QueuedInput \<Rightarrow> string" where
  "formatQueuedInput q = ''[queued '' @ kind_text (qKind q) @ '' id='' @ qID q @ '']'' @ [CHR 0x0A] @ qContent q"

definition contextReasonFromError :: "go_error option \<Rightarrow> TerminalReason" where
  "contextReasonFromError e = (case e of None \<Rightarrow> NoReason
     | Some err \<Rightarrow> if errors_Is err context_DeadlineExceeded then TerminalTimeout
                 else if errors_Is err context_Canceled then TerminalAborted else NoReason)"

definition overBudget :: "int \<Rightarrow> Usage \<Rightarrow> bool" where
  "overBudget maxTokens usage \<longleftrightarrow> maxTokens > 0 \<and> TotalTokens usage > maxTokens"

end
