(* ===== verification/ToolGate.thy ===== *)
theory ToolGate
  imports EngineParts
begin

text \<open>
  The tool registry (internal/tools/registry.go, tool.go, approval.go, lease.go): which tools exist, the gate that a call passes before its
  tool runs, and the execution of a batch of calls, one after the other or in parallel. A tool is a record of functions on
  a world of any type; the JSON schema validator is a library and a parameter. What a context carries is a record: its error, the lease
  of the turn, the tools approved for the run and the approval scope.
\<close>

section \<open>Tools\<close>

datatype ToolRisk = RiskRead | RiskWrite | RiskExecute | RiskExternal | RiskState | OtherRisk string

fun risk_text :: "ToolRisk \<Rightarrow> string" where
  "risk_text RiskRead = ''read''"
| "risk_text RiskWrite = ''write''"
| "risk_text RiskExecute = ''execute''"
| "risk_text RiskExternal = ''external''"
| "risk_text RiskState = ''state''"
| "risk_text (OtherRisk s) = s"

text \<open>The schema is \<open>None\<close> for a nil map. A tool always gives the same definition.\<close>

record ToolDefinition =
  tdName :: string
  tdDescription :: string
  tdInputSchema :: "json option"
  tdRisk :: ToolRisk
  tdParallelSafe :: bool

record ToolError =
  teCode :: string
  teMessage :: string
  teRetryable :: bool
  teFatal :: bool

text \<open>How \<open>Execute\<close> of a tool ends: with an output, with an error that \<open>errors.As\<close> finds to be a \<open>*tools.Error\<close>, with another
  error, or with a panic.\<close>

datatype tool_outcome = ToolOutput string | ToolFailed ToolError | ToolErrored go_error | ToolPanic string

record 'w BaseTool =
  btName :: string
  btDefinition :: ToolDefinition
  btValidate :: "raw \<Rightarrow> go_error option"
  btExecute :: "raw \<Rightarrow> 'w \<Rightarrow> tool_outcome \<times> 'w"

section \<open>Permissions\<close>

record PermissionDecision =
  pdAllowed :: bool
  pdReason :: string
  pdRequiresApproval :: bool
  pdApprovalID :: string

record ApprovalScope =
  asRunID :: string
  asTurnID :: string
  asLeaseID :: string
  asAdmission :: int
  asCapability :: string

record ApprovalRequest =
  arqRunID :: string
  arqTurnID :: string
  arqLeaseID :: string
  arqAdmission :: int
  arqCapability :: string
  arqToolName :: string
  arqArguments :: raw

record ApprovalResolution =
  arsID :: string
  arsState :: string
  arsAllowed :: bool
  arsReason :: string

text \<open>What the code reads of a context: \<open>ctx.Err()\<close>, the validation of the execution lease, and \<open>Err()\<close> of the context with the tool's
  timeout, each when it is asked; the names of \<open>WithApprovedTools\<close> and the scope of \<open>WithApprovalScope\<close>.\<close>

record 'w callContext =
  ctxErr :: "'w \<Rightarrow> go_error option \<times> 'w"
  ctxLease :: "'w \<Rightarrow> go_error option \<times> 'w"
  ctxToolErr :: "'w \<Rightarrow> go_error option \<times> 'w"
  ctxApproved :: "string list"
  ctxScope :: "ApprovalScope option"

type_synonym 'w policy = "'w callContext \<Rightarrow> ToolDefinition \<Rightarrow> raw \<Rightarrow> 'w \<Rightarrow> PermissionDecision \<times> 'w"

definition allowed :: PermissionDecision where
  "allowed = \<lparr>pdAllowed = True, pdReason = [], pdRequiresApproval = False, pdApprovalID = []\<rparr>"

definition denied :: "string \<Rightarrow> PermissionDecision" where
  "denied reason = \<lparr>pdAllowed = False, pdReason = reason, pdRequiresApproval = False, pdApprovalID = []\<rparr>"

definition harmless :: "ToolRisk \<Rightarrow> bool" where
  "harmless r \<longleftrightarrow> r = RiskRead \<or> r = RiskState"

definition ReadOnlyPolicy :: "'w policy" where
  "ReadOnlyPolicy ctx d args w =
     (if harmless (tdRisk d) then allowed else denied ''only read-only tools are permitted by the active policy'', w)"

definition ApprovalScopeFromContext :: "'w callContext \<Rightarrow> ApprovalScope option" where
  "ApprovalScopeFromContext ctx = (case ctxScope ctx of None \<Rightarrow> None | Some s \<Rightarrow>
     if asRunID s \<noteq> [] \<and> asTurnID s \<noteq> [] \<and> asLeaseID s \<noteq> [] \<and> asCapability s \<noteq> [] then Some s else None)"

definition approvedTools :: "string list \<Rightarrow> string list" where
  "approvedTools names = filter (\<lambda>n. n \<noteq> []) names"

text \<open>The backend is an interface, nil or an approval store.\<close>

definition ApprovalPolicy :: "(ApprovalRequest \<Rightarrow> 'w \<Rightarrow> (go_error + ApprovalResolution) \<times> 'w) option \<Rightarrow> 'w policy" where
  "ApprovalPolicy backend ctx d args w =
     (if harmless (tdRisk d) then (allowed, w)
      else if tdName d \<in> set (approvedTools (ctxApproved ctx)) then (allowed, w) else
      (case backend of
         None \<Rightarrow> ((denied (''tool requires explicit per-run approval: '' @ tdName d))\<lparr>pdRequiresApproval := True\<rparr>, w)
       | Some resolve \<Rightarrow>
           (case ApprovalScopeFromContext ctx of None \<Rightarrow> (denied ''durable approval scope is unavailable'', w) | Some s \<Rightarrow>
            (case resolve \<lparr>arqRunID = asRunID s, arqTurnID = asTurnID s, arqLeaseID = asLeaseID s, arqAdmission = asAdmission s,
                   arqCapability = asCapability s, arqToolName = tdName d, arqArguments = args\<rparr> w of
               (Inl err, w1) \<Rightarrow> (denied (''durable approval failed closed: '' @ error_text err), w1)
             | (Inr r, w1) \<Rightarrow>
                 if arsAllowed r then (allowed\<lparr>pdApprovalID := arsID r\<rparr>, w1) else
                 let reason = (if arsReason r = [] then ''approval '' @ arsID r @ '' is '' @ arsState r else arsReason r) in
                 (\<lparr>pdAllowed = False, pdReason = reason, pdRequiresApproval = (arsState r = ''pending''), pdApprovalID = arsID r\<rparr>, w1)))))"

section \<open>The registry\<close>

record 'w toolRegistry =
  trTools :: "'w BaseTool gomap"
  trPolicy :: "'w policy"
  trMaxParallel :: int
  trRevision :: CapabilityRevision

text \<open>\<open>json.Marshal\<close> of a map sorts the keys.\<close>

fun sorted_json :: "json \<Rightarrow> json" and sorted_fields :: "(string \<times> json) list \<Rightarrow> (string \<times> json) list" where
  "sorted_json (JArr xs) = JArr (map sorted_json xs)"
| "sorted_json (JObj fs) = JObj (sort_key fst (sorted_fields fs))"
| "sorted_json j = j"
| "sorted_fields [] = []"
| "sorted_fields ((k, x) # fs) = (k, sorted_json x) # sorted_fields fs"

definition definition_json :: "ToolDefinition \<Rightarrow> json" where
  "definition_json d = JObj [(''name'', JStr (tdName d)), (''description'', JStr (tdDescription d)),
     (''input_schema'', case tdInputSchema d of None \<Rightarrow> JNull | Some s \<Rightarrow> sorted_json s), (''risk'', JStr (risk_text (tdRisk d))),
     (''parallel_safe'', JBool (tdParallelSafe d))]"

definition GetAvailableTools :: "'w toolRegistry \<Rightarrow> ToolDefinition list" where
  "GetAvailableTools r = sort_key tdName (map (btDefinition \<circ> snd) (trTools r))"

definition capabilityOf :: "'w BaseTool gomap \<Rightarrow> string" where
  "capabilityOf ts = sha256_hex (json_text (JArr (map definition_json (sort_key tdName (map (btDefinition \<circ> snd) ts)))))"

text \<open>The options give a policy (nil keeps the read-only one) and a positive number of parallel calls.\<close>

definition NewRegistry :: "'w policy option \<Rightarrow> int \<Rightarrow> 'w toolRegistry" where
  "NewRegistry p n = \<lparr>trTools = [], trPolicy = (case p of None \<Rightarrow> ReadOnlyPolicy | Some q \<Rightarrow> q),
     trMaxParallel = (if n > 0 then n else 4),
     trRevision = zeroCapability\<lparr>capDigest := capabilityOf ([] :: unit BaseTool gomap), capToolDigest := capabilityOf ([] :: unit BaseTool gomap)\<rparr>\<rparr>"

definition RegisterTool :: "'w BaseTool \<Rightarrow> 'w toolRegistry \<Rightarrow> go_error option \<times> 'w toolRegistry" where
  "RegisterTool tool r =
     (let name = TrimSpace (btName tool); d = btDefinition tool in
      if name = [] then (Some (Errorf ''register tool: name is empty''), r)
      else if tdName d \<noteq> name then (Some (Errorf (''register tool '' @ name @ '': definition name '' @ tdName d @ '' does not match'')), r)
      else if tdInputSchema d = None then (Some (Errorf (''register tool '' @ name @ '': input schema is nil'')), r)
      else if mget (trTools r) name \<noteq> None then (Some (Errorf (''register tool '' @ name @ '': duplicate name'')), r)
      else let ts = mput name tool (trTools r); digest = capabilityOf ts; rev = trRevision r in
        (None, r\<lparr>trTools := ts, trRevision := rev\<lparr>capSequence := capSequence rev + 1, capDigest := digest, capToolDigest := digest\<rparr>\<rparr>))"

section \<open>One call\<close>

definition errorResult :: "string \<Rightarrow> string \<Rightarrow> string \<Rightarrow> bool \<Rightarrow> bool \<Rightarrow> ToolResult" where
  "errorResult i code message retryable fatal = \<lparr>resToolCallID = i, resOutput = ''Error ['' @ code @ '']: '' @ message, resIsError = True,
     resErrorCode = code, resRetryable = retryable, resFatal = fatal, resApprovalID = []\<rparr>"

definition contextResult :: "string \<Rightarrow> go_error \<Rightarrow> ToolResult" where
  "contextResult i err = errorResult i (if errors_Is err context_DeadlineExceeded then ''timeout'' else ''cancelled'') (error_text err) False True"

text \<open>\<open>chk\<close> is the validator of the library: an error, or whether the arguments are valid and what it says of them.\<close>

definition validateSchema :: "(json \<Rightarrow> raw \<Rightarrow> go_error + bool \<times> string list) \<Rightarrow> json option \<Rightarrow> raw \<Rightarrow> go_error option" where
  "validateSchema chk schema args = (case chk (case schema of None \<Rightarrow> JNull | Some s \<Rightarrow> s) args of
       Inl err \<Rightarrow> Some (Wrap ''validate JSON schema'' err)
     | Inr (valid, items) \<Rightarrow> if valid then None else Some (Errorf (join ''; '' items)))"

definition executeSafely :: "'w BaseTool \<Rightarrow> raw \<Rightarrow> 'w \<Rightarrow> tool_outcome \<times> 'w" where
  "executeSafely tool args w = (case btExecute tool args w of
       (ToolPanic s, w1) \<Rightarrow> (ToolFailed \<lparr>teCode = ''tool_panic'', teMessage = s, teRetryable = False, teFatal = True\<rparr>, w1)
     | other \<Rightarrow> other)"

text \<open>The run of the tool after the gate, and the result of its outcome.\<close>

definition runTool :: "'w callContext \<Rightarrow> 'w BaseTool \<Rightarrow> string \<Rightarrow> raw \<Rightarrow> 'w \<Rightarrow> ToolResult \<times> 'w" where
  "runTool ctx tool i args w =
     (case executeSafely tool args w of
        (ToolOutput s, w1) \<Rightarrow> (zeroToolResult\<lparr>resToolCallID := i, resOutput := s\<rparr>, w1)
      | (outcome, w1) \<Rightarrow>
          (case ctxToolErr ctx w1 of
             (Some err, w2) \<Rightarrow> (contextResult i err, w2)
           | (None, w2) \<Rightarrow>
               ((case outcome of
                   ToolFailed e \<Rightarrow> errorResult i (teCode e) (teMessage e) (teRetryable e) (teFatal e)
                 | ToolErrored err \<Rightarrow> errorResult i ''tool_error'' (error_text err) True False
                 | _ \<Rightarrow> zeroToolResult), w2)))"

definition deniedResult :: "string \<Rightarrow> PermissionDecision \<Rightarrow> ToolResult" where
  "deniedResult i d =
     (let reason = TrimSpace (pdReason d) in
      (errorResult i (if pdRequiresApproval d then ''approval_required'' else ''permission_denied'')
         (if reason = [] then ''tool use denied by policy'' else reason) False True)\<lparr>resApprovalID := pdApprovalID d\<rparr>)"

definition executeCall :: "(json \<Rightarrow> raw \<Rightarrow> go_error + bool \<times> string list) \<Rightarrow> 'w toolRegistry \<Rightarrow> 'w callContext \<Rightarrow> ToolCall \<Rightarrow> 'w \<Rightarrow> ToolResult \<times> 'w" where
  "executeCall chk r ctx call w =
     (case ctxErr ctx w of (Some err, w1) \<Rightarrow> (contextResult (callID call) err, w1) | (None, w1) \<Rightarrow>
      (case mget (trTools r) (callName call) of
         None \<Rightarrow> (errorResult (callID call) ''unknown_tool'' (''tool '' @ callName call @ '' is not registered'') True False, w1)
       | Some tool \<Rightarrow>
           let d = btDefinition tool; args = (if callArguments call = RawNil then RawJSON (JObj []) else callArguments call) in
           (case validateSchema chk (tdInputSchema d) args of
              Some err \<Rightarrow> (errorResult (callID call) ''schema_validation'' (error_text err) True False, w1)
            | None \<Rightarrow>
              (case btValidate tool args of
                 Some err \<Rightarrow> (errorResult (callID call) ''argument_validation'' (error_text err) True False, w1)
               | None \<Rightarrow>
                 (case trPolicy r ctx d args w1 of (decision, w2) \<Rightarrow>
                  if \<not> pdAllowed decision then (deniedResult (callID call) decision, w2) else
                  (case ctxErr ctx w2 of (Some err, w3) \<Rightarrow> (contextResult (callID call) err, w3) | (None, w3) \<Rightarrow>
                   (case ctxLease ctx w3 of
                      (Some err, w4) \<Rightarrow> (errorResult (callID call) ''stale_lease'' (error_text err) False True, w4)
                    | (None, w4) \<Rightarrow> runTool ctx tool (callID call) args w4)))))))"

section \<open>Batches\<close>

definition canRunInParallel :: "'w toolRegistry \<Rightarrow> ToolCall list \<Rightarrow> bool" where
  "canRunInParallel r calls \<longleftrightarrow> \<not> (length calls < 2 \<or> trMaxParallel r < 2) \<and>
     list_all (\<lambda>call. case mget (trTools r) (callName call) of None \<Rightarrow> False
        | Some tool \<Rightarrow> tdRisk (btDefinition tool) = RiskRead \<and> tdParallelSafe (btDefinition tool)) calls"

text \<open>One after the other: a fatal result ends the batch and the calls behind it are answered without being executed.\<close>

definition batchCancelled :: "ToolCall \<Rightarrow> ToolResult" where
  "batchCancelled call = errorResult (callID call) ''batch_cancelled'' ''not executed after a fatal tool result'' False True"

fun runSequential :: "(ToolCall \<Rightarrow> 'w \<Rightarrow> ToolResult \<times> 'w) \<Rightarrow> ToolCall list \<Rightarrow> 'w \<Rightarrow> ToolResult list \<times> 'w" where
  "runSequential one [] w = ([], w)"
| "runSequential one (call # calls) w =
     (case one call w of (res, w1) \<Rightarrow>
      if resFatal res then (res # map batchCancelled calls, w1)
      else (case runSequential one calls w1 of (rs, w2) \<Rightarrow> (res # rs, w2)))"

text \<open>In parallel: the goroutines take the semaphore in some order, the plan; one that finds the context done first does not
  execute its call. The calls only read, so they are taken one after the other in that order. A plan names every index once.\<close>

fun runPlan :: "(ToolCall \<Rightarrow> 'w \<Rightarrow> ToolResult \<times> 'w) \<Rightarrow> ToolCall list \<Rightarrow> (nat \<times> go_error option) list \<Rightarrow> ToolResult list \<Rightarrow> 'w
    \<Rightarrow> ToolResult list \<times> 'w" where
  "runPlan one calls [] rs w = (rs, w)"
| "runPlan one calls ((i, done) # plan) rs w =
     (case done of
        Some err \<Rightarrow> runPlan one calls plan (rs[i := contextResult (callID (calls ! i)) err]) w
      | None \<Rightarrow> (case one (calls ! i) w of (res, w1) \<Rightarrow> runPlan one calls plan (rs[i := res]) w1))"

definition plan_ok :: "(nat \<times> go_error option) list \<Rightarrow> nat \<Rightarrow> bool" where
  "plan_ok plan n \<longleftrightarrow> mset (map fst plan) = mset [0..<n]"

definition executeBatch :: "(ToolCall \<Rightarrow> 'w \<Rightarrow> ToolResult \<times> 'w) \<Rightarrow> (ToolCall list \<Rightarrow> bool) \<Rightarrow> (nat \<times> go_error option) list
    \<Rightarrow> ToolCall list \<Rightarrow> 'w \<Rightarrow> ToolResult list \<times> 'w" where
  "executeBatch one canParallel plan calls w =
     (if calls = [] then ([], w)
      else if \<not> canParallel calls then runSequential one calls w
      else runPlan one calls plan (replicate (length calls) zeroToolResult) w)"

definition ExecuteBatch :: "(json \<Rightarrow> raw \<Rightarrow> go_error + bool \<times> string list) \<Rightarrow> 'w toolRegistry \<Rightarrow> 'w callContext \<Rightarrow> (nat \<times> go_error option) list
    \<Rightarrow> ToolCall list \<Rightarrow> 'w \<Rightarrow> ToolResult list \<times> 'w" where
  "ExecuteBatch chk r ctx plan = executeBatch (executeCall chk r ctx) (canRunInParallel r) plan"

end
