(* ===== verification/Approvals.thy ===== *)
theory Approvals
  imports ToolGate Ledger
begin

text \<open>
  The package approvalstore (internal/approvalstore/store.go): one file per request, named by a digest of the run, the capability, the
  tool and the canonical arguments. A request waits for the decision of a person, an approved one is consumed by the one execution
  it allows. \<open>ResolveApproval\<close> is the backend of the policy \<open>ApprovalPolicy\<close> of \<open>ToolGate\<close>. The arguments are stored as JSON, which the
  model keeps up to white space.
\<close>

section \<open>Data\<close>

definition apVersion_const :: int where
  "apVersion_const = 1"

datatype ApState = ApPending | ApApproved | ApRejected | ApExpired | ApConsumed | OtherApState string

fun ap_state_text :: "ApState \<Rightarrow> string" where
  "ap_state_text ApPending = ''pending''"
| "ap_state_text ApApproved = ''approved''"
| "ap_state_text ApRejected = ''rejected''"
| "ap_state_text ApExpired = ''expired''"
| "ap_state_text ApConsumed = ''consumed''"
| "ap_state_text (OtherApState s) = s"

record ApRequest =
  apVersion :: int
  apID :: string
  apState :: ApState
  apRunID :: string
  apTurnID :: string
  apOriginLeaseID :: string
  apAdmission :: int
  apCapability :: string
  apToolName :: string
  apArguments :: json
  apArgumentsDigest :: string
  apCreatedAt :: time
  apExpiresAt :: time
  apDecidedAt :: time
  apConsumedAt :: time
  apActor :: string

type_synonym approvalDir = "ApRequest dir"

text \<open>\<open>New\<close> refuses a blank directory and gives requests a quarter of an hour when no positive time to live is set.\<close>

definition NewApprovals :: "string \<Rightarrow> duration \<Rightarrow> go_error + duration" where
  "NewApprovals dir ttl = (if TrimSpace dir = [] then Inl (Errorf ''approval store directory is required'')
     else Inr (if ttl \<le> 0 then 900 * Second else ttl))"

section \<open>Identity\<close>

definition canonicalArguments :: "raw \<Rightarrow> go_error + json \<times> string" where
  "canonicalArguments r =
     (case (case r of RawNil \<Rightarrow> canonical (JObj []) | RawJSON j \<Rightarrow> canonical j | RawBad s \<Rightarrow> None) of
        None \<Rightarrow> Inl IOError
      | Some c \<Rightarrow> Inr (c, sha256_hex (json_text c)))"

definition requestID :: "string \<Rightarrow> string \<Rightarrow> string \<Rightarrow> string \<Rightarrow> string" where
  "requestID runID capability tool argumentsDigest =
     ''apr-'' @ take 24 (sha256_hex (runID @ [CHR 0x00] @ capability @ [CHR 0x00] @ tool @ [CHR 0x00] @ argumentsDigest))"

definition validApprovalID :: "string \<Rightarrow> bool" where
  "validApprovalID i \<longleftrightarrow> take 4 i = ''apr-'' \<and> length i = 28 \<and> list_all is_hex_any (drop 4 i)"

section \<open>Files\<close>

definition approvalPath :: "string \<Rightarrow> string" where
  "approvalPath i = i @ ''.json''"

definition loadApproval :: "string \<Rightarrow> approvalDir \<Rightarrow> go_error + ApRequest" where
  "loadApproval i d =
     (if \<not> validApprovalID i then Inl (Errorf ''invalid approval id'') else
      (case readJSON d (approvalPath i) of Inl err \<Rightarrow> Inl err | Inr r \<Rightarrow>
       if apVersion r \<noteq> apVersion_const \<or> apID r \<noteq> i then Inl (Errorf ''invalid approval record'') else Inr r))"

text \<open>\<open>json.Marshal\<close> refuses a time after the year 9999.\<close>

definition saveApproval :: "io \<Rightarrow> ApRequest \<Rightarrow> approvalDir \<Rightarrow> go_error option \<times> approvalDir" where
  "saveApproval i r d =
     (if \<exists>t \<in> set [apCreatedAt r, apExpiresAt r, apDecidedAt r, apConsumedAt r]. json_time t = None then (Some IOError, d)
      else atomicWrite i (approvalPath (apID r)) r d)"

section \<open>Operations\<close>

definition resolution :: "ApRequest \<Rightarrow> bool \<Rightarrow> ApprovalResolution" where
  "resolution r ok = \<lparr>arsID = apID r, arsState = ap_state_text (apState r), arsAllowed = ok,
     arsReason = ''approval '' @ apID r @ '' is '' @ ap_state_text (apState r) @ '' for exact call '' @ apToolName r\<rparr>"

definition newRequest :: "duration \<Rightarrow> ApprovalRequest \<Rightarrow> json \<Rightarrow> string \<Rightarrow> string \<Rightarrow> time \<Rightarrow> ApRequest" where
  "newRequest ttl q args digest i n = \<lparr>apVersion = apVersion_const, apID = i, apState = ApPending, apRunID = arqRunID q,
     apTurnID = arqTurnID q, apOriginLeaseID = arqLeaseID q, apAdmission = arqAdmission q, apCapability = arqCapability q,
     apToolName = arqToolName q, apArguments = args, apArgumentsDigest = digest, apCreatedAt = n, apExpiresAt = n + ttl, apDecidedAt = 0,
     apConsumedAt = 0, apActor = []\<rparr>"

text \<open>A request whose time has passed expires when it is looked at; \<open>io\<close> is the outcome of the write.\<close>

definition expireRequest :: "env \<Rightarrow> ApRequest \<Rightarrow> approvalDir \<Rightarrow> ApRequest \<times> go_error option \<times> approvalDir" where
  "expireRequest e r d =
     (if apState r = ApPending \<and> clk e 0 > apExpiresAt r
      then (let r1 = r\<lparr>apState := ApExpired\<rparr> in (case saveApproval (wio e) r1 d of (err, d1) \<Rightarrow> (r1, err, d1)))
      else (r, None, d))"

text \<open>The part of \<open>Resolve\<close> for a request that exists. Only one of its two writes happens: an expired request is not approved.\<close>

definition resolveExisting :: "env \<Rightarrow> ApRequest \<Rightarrow> approvalDir \<Rightarrow> (go_error + ApprovalResolution) \<times> approvalDir" where
  "resolveExisting e r0 d =
     (case expireRequest e r0 d of
        (r, Some err, d1) \<Rightarrow> (Inl err, d1)
      | (r, None, d1) \<Rightarrow>
          if apState r = ApApproved
          then (let r1 = r\<lparr>apState := ApConsumed, apConsumedAt := clk e 1\<rparr> in
                (case saveApproval (wio e) r1 d1 of (Some err, d2) \<Rightarrow> (Inl err, d2) | (None, d2) \<Rightarrow> (Inr (resolution r1 True), d2)))
          else (Inr (resolution r False), d1))"

definition ResolveApproval :: "duration \<Rightarrow> env \<Rightarrow> ApprovalRequest \<Rightarrow> approvalDir \<Rightarrow> (go_error + ApprovalResolution) \<times> approvalDir" where
  "ResolveApproval ttl e q d =
     (case cerr e of Some err \<Rightarrow> (Inl err, d) | None \<Rightarrow>
      (case canonicalArguments (arqArguments q) of Inl err \<Rightarrow> (Inl err, d) | Inr (args, digest) \<Rightarrow>
       if arqRunID q = [] \<or> arqTurnID q = [] \<or> arqLeaseID q = [] \<or> arqCapability q = [] \<or> arqToolName q = []
       then (Inl (Errorf ''approval request identity is incomplete''), d) else
       let i = requestID (arqRunID q) (arqCapability q) (arqToolName q) digest in
       (case loadApproval i d of
          Inl err \<Rightarrow>
            if errors_Is err os_ErrNotExist
            then (let r = newRequest ttl q args digest i (clk e 0) in
                  (case saveApproval (wio e) r d of (Some err', d1) \<Rightarrow> (Inl err', d1) | (None, d1) \<Rightarrow> (Inr (resolution r False), d1)))
            else (Inl err, d)
        | Inr r \<Rightarrow>
            if apRunID r \<noteq> arqRunID q \<or> apCapability r \<noteq> arqCapability q \<or> apToolName r \<noteq> arqToolName q \<or> apArgumentsDigest r \<noteq> digest
            then (Inl (Errorf ''approval semantic fingerprint conflict''), d)
            else resolveExisting e r d)))"

text \<open>\<open>Decide\<close> ignores the error of writing an expired request.\<close>

definition DecideApproval :: "env \<Rightarrow> string \<Rightarrow> ApState \<Rightarrow> string \<Rightarrow> approvalDir \<Rightarrow> (go_error + ApRequest) \<times> approvalDir" where
  "DecideApproval e i decision actor d =
     (case cerr e of Some err \<Rightarrow> (Inl err, d) | None \<Rightarrow>
      if decision \<noteq> ApApproved \<and> decision \<noteq> ApRejected then (Inl (Errorf ''decision must be approved or rejected''), d) else
      (case loadApproval i d of Inl err \<Rightarrow> (Inl err, d) | Inr r0 \<Rightarrow>
       (case expireRequest e r0 d of (r, _, d1) \<Rightarrow>
        if apState r \<noteq> ApPending
        then (if apState r = decision then Inr r else Inl (Errorf (''approval '' @ i @ '' is already '' @ ap_state_text (apState r))), d1)
        else
          let r1 = r\<lparr>apState := decision, apActor := TrimSpace actor, apDecidedAt := clk e 1\<rparr> in
          (case saveApproval (wio e) r1 d1 of (Some err, d2) \<Rightarrow> (Inl err, d2) | (None, d2) \<Rightarrow> (Inr r1, d2)))))"

definition GetApproval :: "env \<Rightarrow> string \<Rightarrow> approvalDir \<Rightarrow> go_error + ApRequest" where
  "GetApproval e i d = (case cerr e of Some err \<Rightarrow> Inl err | None \<Rightarrow> loadApproval i d)"

fun loadApprovals :: "string list \<Rightarrow> approvalDir \<Rightarrow> go_error + ApRequest list" where
  "loadApprovals [] d = Inr []"
| "loadApprovals (name # names) d =
     (if \<not> (length name \<ge> 5 \<and> drop (length name - 5) name = ''.json'') then loadApprovals names d else
      (case loadApproval (take (length name - 5) name) d of Inl err \<Rightarrow> Inl err
       | Inr r \<Rightarrow> map_sum id ((#) r) (loadApprovals names d)))"

definition ListApprovals :: "env \<Rightarrow> ApState \<Rightarrow> approvalDir \<Rightarrow> go_error + ApRequest list" where
  "ListApprovals e state d =
     (case cerr e of Some err \<Rightarrow> Inl err | None \<Rightarrow>
      (case loadApprovals (map fst (readDir d)) d of Inl err \<Rightarrow> Inl err | Inr rs \<Rightarrow>
       Inr (sort_key apCreatedAt (filter (\<lambda>r. state = OtherApState [] \<or> apState r = state) rs))))"

end
