(* ===== verification/GateProps.thy ===== *)
theory GateProps
  imports Approvals
begin

text \<open>
  The theorems about the tool registry and the approval store: every call of a batch gets its answer, a fatal result stops a
  sequential batch, the life of an approval, and, for the registry with the policy \<open>ApprovalPolicy\<close> on the store, that a side effect
  happens at most once for each approval and never without one.
\<close>

section \<open>Batches\<close>

text \<open>What a batch needs of the execution of one call: the answer names the call.\<close>

locale call_executor =
  fixes one :: "ToolCall \<Rightarrow> 'w \<Rightarrow> ToolResult \<times> 'w"
  assumes answers: "resToolCallID (fst (one call w)) = callID call"
begin

lemma sequential_ids: "map resToolCallID (fst (runSequential one calls w)) = map callID calls"
proof (induction calls arbitrary: w)
  case (Cons call calls)
  obtain res w1 where o: "one call w = (res, w1)" by fastforce
  obtain rs w2 where r: "runSequential one calls w1 = (rs, w2)" by fastforce
  have "resToolCallID res = callID call" using answers [of call w] o by simp
  moreover have "map (resToolCallID \<circ> batchCancelled) calls = map callID calls" by (simp add: batchCancelled_def errorResult_def)
  ultimately show ?case using Cons.IH [of w1] o r by simp
qed simp

lemma plan_ids:
  assumes "length rs = length calls" and "\<forall>i \<in> fst ` set plan. i < length calls"
    and "\<forall>j < length calls. j \<notin> fst ` set plan \<longrightarrow> resToolCallID (rs ! j) = callID (calls ! j)"
  shows "map resToolCallID (fst (runPlan one calls plan rs w)) = map callID calls"
  using assms
proof (induction plan arbitrary: rs w)
  case Nil
  then show ?case by (auto intro: nth_equalityI)
next
  case (Cons p plan)
  obtain i dn where p: "p = (i, dn)" by fastforce
  have ih: "resToolCallID res = callID (calls ! i) \<Longrightarrow> map resToolCallID (fst (runPlan one calls plan (rs[i := res]) w1)) = map callID calls"
    for res w1
    by (rule Cons.IH) (use Cons.prems p in \<open>auto simp: nth_list_update\<close>)
  show ?case
  proof (cases dn)
    case None
    obtain res w1 where o: "one (calls ! i) w = (res, w1)" by fastforce
    have "resToolCallID res = callID (calls ! i)" using answers [of "calls ! i" w] o by simp
    from ih [OF this] show ?thesis by (simp add: p None o)
  next
    case (Some err)
    have "resToolCallID (contextResult (callID (calls ! i)) err) = callID (calls ! i)" by (simp add: contextResult_def errorResult_def)
    from ih [OF this] show ?thesis by (simp add: p Some)
  qed
qed

lemma batch_ids:
  assumes "plan_ok plan (length calls)"
  shows "map resToolCallID (fst (executeBatch one canParallel plan calls w)) = map callID calls"
proof -
  from assms have "set (map fst plan) = {0..<length calls}"
    unfolding plan_ok_def by (metis set_mset_mset atLeast_upt set_upt)
  then have "fst ` set plan = {0..<length calls}" by simp
  then have "map resToolCallID (fst (runPlan one calls plan (replicate (length calls) zeroToolResult) w)) = map callID calls"
    by (intro plan_ids) auto
  then show ?thesis using sequential_ids by (simp add: executeBatch_def)
qed

end

lemma errorResult_id [simp]: "resToolCallID (errorResult i c m b f) = i" "resToolCallID (contextResult i err) = i"
  by (simp_all add: errorResult_def contextResult_def)

lemma runTool_id: "resToolCallID (fst (runTool ctx tool i args w)) = i"
proof -
  obtain out w1 where o: "executeSafely tool args w = (out, w1)" by fastforce
  have "out \<noteq> ToolPanic s" for s using o by (auto simp: executeSafely_def split: prod.splits tool_outcome.splits)
  then show ?thesis using o by (cases out) (auto simp: runTool_def split: prod.split option.split)
qed

lemma executeCall_id: "resToolCallID (fst (executeCall chk r ctx call w)) = callID call"
  by (simp add: executeCall_def Let_def deniedResult_def runTool_id split: prod.split option.split)

interpretation gate: call_executor "executeCall chk r ctx" for chk r ctx
  by unfold_locales (rule executeCall_id)

text \<open>A batch answers every call, in the order of the calls, whatever the tools do and in whatever order parallel calls get their
  turn. This is what the engine asks of its tools: the hypothesis of its properties about traces.\<close>

theorem batch_answers_every_call:
  assumes "plan_ok plan (length calls)"
  shows "map resToolCallID (fst (ExecuteBatch chk r ctx plan calls w)) = map callID calls"
  unfolding ExecuteBatch_def using assms by (rule gate.batch_ids)

definition demo_reader :: "nat BaseTool" where
  "demo_reader = \<lparr>btName = ''ls'', btDefinition = \<lparr>tdName = ''ls'', tdDescription = [], tdInputSchema = Some (JObj []), tdRisk = RiskRead,
     tdParallelSafe = True\<rparr>, btValidate = (\<lambda>a. None), btExecute = (\<lambda>a w. (ToolOutput ''ok'', w))\<rparr>"

definition demo_tools :: "nat toolRegistry" where
  "demo_tools = snd (RegisterTool demo_reader (NewRegistry None 4))"

definition demo_context :: "nat callContext" where
  "demo_context = \<lparr>ctxErr = (\<lambda>w. (None, w)), ctxLease = (\<lambda>w. (None, w)), ctxToolErr = (\<lambda>w. (None, w)), ctxApproved = [], ctxScope = None\<rparr>"

definition demo_call :: "string \<Rightarrow> ToolCall" where
  "demo_call i = \<lparr>callID = i, callName = ''ls'', callArguments = RawNil\<rparr>"

theorem batch_answers_every_call_witness:
  "map resToolCallID (fst (ExecuteBatch (\<lambda>s a. Inr (True, [])) demo_tools demo_context [(1, None), (0, Some context_DeadlineExceeded)]
     [demo_call ''c1'', demo_call ''c2''] 0)) = [''c1'', ''c2'']"
proof -
  have "plan_ok [(1, None), (0, Some context_DeadlineExceeded)] (length [demo_call ''c1'', demo_call ''c2''])"
    by (simp add: plan_ok_def upt_rec add_mset_commute)
  from batch_answers_every_call [OF this] show ?thesis by (simp add: demo_call_def)
qed

section \<open>The life of an approval\<close>

text \<open>What later versions of a request may look like.\<close>

definition same_request :: "ApRequest \<Rightarrow> ApRequest \<Rightarrow> bool" where
  "same_request r r' \<longleftrightarrow> apID r' = apID r \<and> apRunID r' = apRunID r \<and> apTurnID r' = apTurnID r \<and> apOriginLeaseID r' = apOriginLeaseID r \<and>
     apAdmission r' = apAdmission r \<and> apCapability r' = apCapability r \<and> apToolName r' = apToolName r \<and> apArguments r' = apArguments r \<and>
     apArgumentsDigest r' = apArgumentsDigest r \<and> apCreatedAt r' = apCreatedAt r \<and> apExpiresAt r' = apExpiresAt r"

definition ap_le :: "ApRequest \<Rightarrow> ApRequest \<Rightarrow> bool" where
  "ap_le r r' \<longleftrightarrow> same_request r r' \<and>
     (r' = r \<or> apState r = ApPending \<or>
      (apState r = ApApproved \<and> apState r' = ApConsumed \<and> apActor r' = apActor r \<and> apDecidedAt r' = apDecidedAt r))"

lemma ap_le_refl [simp]: "ap_le r r"
  by (simp add: ap_le_def same_request_def)

lemma ap_le_trans: "ap_le a b \<Longrightarrow> ap_le b c \<Longrightarrow> ap_le a c"
  by (auto simp: ap_le_def same_request_def)

text \<open>What one operation does to the directory: nothing, or it replaces the request of one file by a later version of it or, where
  there is no file, by a new pending one. A request that becomes approved was pending, in its time, and this is \<open>Decide\<close>'s doing.\<close>

definition ap_write :: "bool \<Rightarrow> string \<Rightarrow> approvalDir \<Rightarrow> approvalDir \<Rightarrow> bool" where
  "ap_write deciding i d d' \<longleftrightarrow> d' = d \<or> (\<exists>r. apID r = i \<and> d' = AList.update (approvalPath i) (Record r) d \<and>
     (case readJSON d (approvalPath i) of
        Inl err \<Rightarrow> apState r = ApPending
      | Inr r0 \<Rightarrow> apID r0 = i \<and> ap_le r0 r \<and> (apState r = ApApproved \<longrightarrow> apState r0 = ApApproved \<or> deciding) \<and>
          (apState r = ApConsumed \<longrightarrow> apState r0 = ApApproved)))"

lemma ap_write_refl [simp]: "ap_write b i d d"
  by (simp add: ap_write_def)

lemma saveApproval_cases:
  assumes "saveApproval io r d = (err, d')"
  obtains "d' = d" and "err \<noteq> None" | "d' = AList.update (approvalPath (apID r)) (Record r) d"
  using assms by (cases io) (auto simp: saveApproval_def atomicWrite_def split: if_splits)

lemma loadApproval_Inr: "loadApproval i d = Inr r \<Longrightarrow> readJSON d (approvalPath i) = Inr r \<and> apID r = i"
  by (auto simp: loadApproval_def split: if_splits sum.splits)

lemma loadApproval_missing: "loadApproval i d = Inl err \<Longrightarrow> errors_Is err os_ErrNotExist \<Longrightarrow> readJSON d (approvalPath i) = Inl err"
  by (auto simp: loadApproval_def split: if_splits sum.splits)

lemma save_write:
  assumes "saveApproval io r d = (err, d')" and "apID r = i"
    and "case readJSON d (approvalPath i) of Inl err \<Rightarrow> apState r = ApPending
      | Inr r0 \<Rightarrow> apID r0 = i \<and> ap_le r0 r \<and> (apState r = ApApproved \<longrightarrow> apState r0 = ApApproved \<or> b) \<and>
          (apState r = ApConsumed \<longrightarrow> apState r0 = ApApproved)"
  shows "ap_write b i d d'"
  using assms(1) by (cases rule: saveApproval_cases) (use assms(2,3) in \<open>auto simp: ap_write_def\<close>)

lemma expire_cases:
  assumes "expireRequest e r d = (r1, err, d1)"
  obtains "r1 = r" and "err = None" and "d1 = d" and "apState r = ApPending \<longrightarrow> clk e 0 \<le> apExpiresAt r"
  | "r1 = r\<lparr>apState := ApExpired\<rparr>" and "apState r = ApPending" and "saveApproval (wio e) (r\<lparr>apState := ApExpired\<rparr>) d = (err, d1)"
  using assms by (auto simp: expireRequest_def Let_def split: if_splits prod.splits)

text \<open>An allowed resolution turns the request of exactly this call from approved into consumed.\<close>

lemma resolve_write:
  assumes "ResolveApproval ttl e q d = (res, d')"
  shows "\<exists>i. ap_write False i d d' \<and>
    (\<forall>a. res = Inr a \<longrightarrow> arsAllowed a \<longrightarrow> (\<exists>args digest r r'. canonicalArguments (arqArguments q) = Inr (args, digest) \<and>
       i = requestID (arqRunID q) (arqCapability q) (arqToolName q) digest \<and> readJSON d (approvalPath i) = Inr r \<and> apState r = ApApproved \<and>
       readJSON d' (approvalPath i) = Inr r' \<and> apState r' = ApConsumed))"
proof (cases "cerr e = None \<and> (\<exists>args digest. canonicalArguments (arqArguments q) = Inr (args, digest)) \<and>
    \<not> (arqRunID q = [] \<or> arqTurnID q = [] \<or> arqLeaseID q = [] \<or> arqCapability q = [] \<or> arqToolName q = [])")
  case False
  then have "d' = d \<and> (\<forall>a. res \<noteq> Inr a)" using assms by (auto simp: ResolveApproval_def split: option.splits sum.splits prod.splits)
  then show ?thesis by auto
next
  case True
  then obtain args digest where c: "cerr e = None" "canonicalArguments (arqArguments q) = Inr (args, digest)"
    "\<not> (arqRunID q = [] \<or> arqTurnID q = [] \<or> arqLeaseID q = [] \<or> arqCapability q = [] \<or> arqToolName q = [])" by blast
  define i where "i = requestID (arqRunID q) (arqCapability q) (arqToolName q) digest"
  show ?thesis
  proof (cases "loadApproval i d")
    case (Inl err)
    show ?thesis
    proof (cases "errors_Is err os_ErrNotExist")
      case True
      let ?r = "newRequest ttl q args digest i (clk e 0)"
      obtain er d1 where s: "saveApproval (wio e) ?r d = (er, d1)" by fastforce
      have r: "apID ?r = i" "apState ?r = ApPending" by (simp_all add: newRequest_def)
      from assms c s True Inl have "d' = d1" and "res = Inr a \<Longrightarrow> \<not> arsAllowed a" for a
        by (auto simp: ResolveApproval_def i_def [symmetric] Let_def resolution_def split: option.splits)
      moreover have "ap_write False i d d1" using loadApproval_missing [OF Inl True] r by (intro save_write [OF s]) simp_all
      ultimately show ?thesis by blast
    next
      case False
      with assms c Inl have "d' = d \<and> (\<forall>a. res \<noteq> Inr a)" by (auto simp: ResolveApproval_def i_def [symmetric])
      then show ?thesis by auto
    qed
  next
    case (Inr r)
    note l = loadApproval_Inr [OF Inr]
    show ?thesis
    proof (cases "apRunID r \<noteq> arqRunID q \<or> apCapability r \<noteq> arqCapability q \<or> apToolName r \<noteq> arqToolName q \<or> apArgumentsDigest r \<noteq> digest")
      case True
      with assms c Inr have "d' = d \<and> (\<forall>a. res \<noteq> Inr a)" by (auto simp: ResolveApproval_def i_def [symmetric])
      then show ?thesis by auto
    next
      case False
      with assms c Inr have x: "resolveExisting e r d = (res, d')" by (auto simp: ResolveApproval_def i_def [symmetric])
      obtain r1 err d1 where ex: "expireRequest e r d = (r1, err, d1)" by (metis prod_cases3)
      then show ?thesis
      proof (cases rule: expire_cases)
        case 1
        show ?thesis
        proof (cases "apState r = ApApproved")
          case True
          let ?r = "r\<lparr>apState := ApConsumed, apConsumedAt := clk e 1\<rparr>"
          obtain er d2 where s: "saveApproval (wio e) ?r d = (er, d2)" by fastforce
          from x ex 1 True s have d': "d' = d2" and res: "res = (case er of Some err \<Rightarrow> Inl err | None \<Rightarrow> Inr (resolution ?r True))"
            by (auto simp: resolveExisting_def Let_def split: option.splits)
          have "ap_le r ?r" using True by (simp add: ap_le_def same_request_def)
          then have w: "ap_write False i d d2" using l True by (intro save_write [OF s]) simp_all
          have "er = None \<Longrightarrow> readJSON d2 (approvalPath i) = Inr ?r" using s
            by (cases rule: saveApproval_cases) (auto simp: l readJSON_update)
          then show ?thesis using w c l True by (intro exI [of _ i]) (auto simp: d' res i_def split: option.splits)
        next
          case False
          with x ex 1 have "d' = d" and "res = Inr a \<Longrightarrow> \<not> arsAllowed a" for a by (auto simp: resolveExisting_def resolution_def)
          then show ?thesis by auto
        qed
      next
        case 2
        have "ap_le r (r\<lparr>apState := ApExpired\<rparr>)" using 2 by (simp add: ap_le_def same_request_def)
        then have w: "ap_write False i d d1" using l by (intro save_write [OF 2(3)]) simp_all
        from x ex 2 have "d' = d1" and "res = Inr a \<Longrightarrow> \<not> arsAllowed a" for a
          by (auto simp: resolveExisting_def resolution_def split: option.splits)
        then show ?thesis using w by blast
      qed
    qed
  qed
qed

text \<open>Only a decision to approve makes a request approved.\<close>

lemma decide_write:
  assumes "DecideApproval e i decision actor d = (res, d')"
  shows "ap_write (decision = ApApproved) i d d'"
proof (cases "cerr e = None \<and> (decision = ApApproved \<or> decision = ApRejected) \<and> (\<exists>r. loadApproval i d = Inr r)")
  case False
  then have "d' = d" using assms by (auto simp: DecideApproval_def split: option.splits sum.splits if_splits)
  then show ?thesis by simp
next
  case True
  then obtain r where c: "cerr e = None" "decision = ApApproved \<or> decision = ApRejected" "loadApproval i d = Inr r" by blast
  note l = loadApproval_Inr [OF c(3)]
  obtain r1 err d1 where ex: "expireRequest e r d = (r1, err, d1)" by (metis prod_cases3)
  then show ?thesis
  proof (cases rule: expire_cases)
    case 1
    show ?thesis
    proof (cases "apState r = ApPending")
      case True
      let ?r = "r\<lparr>apState := decision, apActor := TrimSpace actor, apDecidedAt := clk e 1\<rparr>"
      obtain er d2 where s: "saveApproval (wio e) ?r d = (er, d2)" by fastforce
      from assms c ex 1 True s have "d' = d2" by (auto simp: DecideApproval_def Let_def split: option.splits)
      moreover have "ap_le r ?r" using True by (simp add: ap_le_def same_request_def)
      then have "ap_write (decision = ApApproved) i d d2" using l c(2) by (intro save_write [OF s]) auto
      ultimately show ?thesis by simp
    next
      case False
      with assms c ex 1 have "d' = d" by (auto simp: DecideApproval_def)
      then show ?thesis by simp
    qed
  next
    case 2
    have "ap_le r (r\<lparr>apState := ApExpired\<rparr>)" using 2 by (simp add: ap_le_def same_request_def)
    then have "ap_write (decision = ApApproved) i d d1" using l by (intro save_write [OF 2(3)]) simp_all
    moreover have "apState r1 = ApExpired" using 2 by simp
    with assms c ex have "d' = d1" by (auto simp: DecideApproval_def)
    ultimately show ?thesis by simp
  qed
qed

section \<open>The registry on the approval store\<close>

text \<open>A world in which tools have side effects: the approvals, the gated executions so far, named by the request of the exact call, and the
  requests somebody decided to approve. Other people decide at any time; the context, the lease and the outcomes of the tools are whatever
  the surroundings make of them.\<close>

record gateWorld =
  gwApprovals :: approvalDir
  gwRuns :: "string list"
  gwApproved :: "string list"
  gwTick :: nat

record gateAround =
  gaEnv :: env
  gaContext :: "go_error option"
  gaOutcome :: tool_outcome
  gaDecisions :: "(env \<times> string \<times> ApState \<times> string) list"

fun decideAll :: "(env \<times> string \<times> ApState \<times> string) list \<Rightarrow> gateWorld \<Rightarrow> gateWorld" where
  "decideAll [] w = w"
| "decideAll ((e, i, decision, actor) # ds) w =
     decideAll ds (w\<lparr>gwApprovals := snd (DecideApproval e i decision actor (gwApprovals w)),
       gwApproved := (if decision = ApApproved then [i] else []) @ gwApproved w\<rparr>)"

definition gateStep :: "(nat \<Rightarrow> gateAround) \<Rightarrow> gateWorld \<Rightarrow> gateAround \<times> gateWorld" where
  "gateStep su w = (su (gwTick w), decideAll (gaDecisions (su (gwTick w))) (w\<lparr>gwTick := gwTick w + 1\<rparr>))"

definition gateLook :: "(nat \<Rightarrow> gateAround) \<Rightarrow> gateWorld \<Rightarrow> go_error option \<times> gateWorld" where
  "gateLook su w = (case gateStep su w of (r, w1) \<Rightarrow> (gaContext r, w1))"

definition gateContext :: "(nat \<Rightarrow> gateAround) \<Rightarrow> string list \<Rightarrow> ApprovalScope option \<Rightarrow> gateWorld callContext" where
  "gateContext su approved scope = \<lparr>ctxErr = gateLook su, ctxLease = gateLook su, ctxToolErr = gateLook su, ctxApproved = approved,
     ctxScope = scope\<rparr>"

lemma gateContext_fields [simp]:
  "ctxErr (gateContext su approved scope) = gateLook su" "ctxLease (gateContext su approved scope) = gateLook su"
  "ctxToolErr (gateContext su approved scope) = gateLook su" "ctxApproved (gateContext su approved scope) = approved"
  "ctxScope (gateContext su approved scope) = scope"
  by (simp_all add: gateContext_def)

definition gateBackend :: "duration \<Rightarrow> (nat \<Rightarrow> gateAround) \<Rightarrow> ApprovalRequest \<Rightarrow> gateWorld \<Rightarrow> (go_error + ApprovalResolution) \<times> gateWorld" where
  "gateBackend ttl su q w = (case gateStep su w of (r, w1) \<Rightarrow>
     (case ResolveApproval ttl (gaEnv r) q (gwApprovals w1) of (res, d) \<Rightarrow> (res, w1\<lparr>gwApprovals := d\<rparr>)))"

text \<open>The request of the exact call: run, capability, tool and canonical arguments.\<close>

definition exact_call :: "ApprovalScope option \<Rightarrow> string \<Rightarrow> raw \<Rightarrow> string" where
  "exact_call scope tool args = (case (scope, canonicalArguments args) of
       (Some s, Inr (c, digest)) \<Rightarrow> requestID (asRunID s) (asCapability s) tool digest | _ \<Rightarrow> [])"

definition gated :: "string list \<Rightarrow> ToolDefinition \<Rightarrow> bool" where
  "gated approved d \<longleftrightarrow> \<not> harmless (tdRisk d) \<and> tdName d \<notin> set (approvedTools approved)"

definition gateTool :: "(nat \<Rightarrow> gateAround) \<Rightarrow> string list \<Rightarrow> ApprovalScope option \<Rightarrow> ToolDefinition \<times> (raw \<Rightarrow> go_error option)
    \<Rightarrow> gateWorld BaseTool" where
  "gateTool su approved scope dv = \<lparr>btName = tdName (fst dv), btDefinition = fst dv, btValidate = snd dv,
     btExecute = (\<lambda>args w. case gateStep su w of (r, w1) \<Rightarrow>
       (gaOutcome r, w1\<lparr>gwRuns := gwRuns w1 @ (if gated approved (fst dv) then [exact_call scope (tdName (fst dv)) args] else [])\<rparr>))\<rparr>"

definition gateRegistry :: "duration \<Rightarrow> (nat \<Rightarrow> gateAround) \<Rightarrow> (ToolDefinition \<times> (raw \<Rightarrow> go_error option)) gomap \<Rightarrow> int \<Rightarrow> string list
    \<Rightarrow> ApprovalScope option \<Rightarrow> gateWorld toolRegistry" where
  "gateRegistry ttl su ts n approved scope = \<lparr>trTools = map (\<lambda>(name, dv). (name, gateTool su approved scope dv)) ts,
     trPolicy = ApprovalPolicy (Some (gateBackend ttl su)), trMaxParallel = n, trRevision = zeroCapability\<rparr>"

section \<open>What the gate keeps\<close>

definition consumed :: "approvalDir \<Rightarrow> string \<Rightarrow> bool" where
  "consumed d i \<longleftrightarrow> (\<exists>r. readJSON d (approvalPath i) = Inr r \<and> apState r = ApConsumed)"

definition gate_inv :: "gateWorld \<Rightarrow> bool" where
  "gate_inv w \<longleftrightarrow> distinct (gwRuns w) \<and> (\<forall>i\<in>set (gwRuns w). consumed (gwApprovals w) i) \<and>
     (\<forall>i r. readJSON (gwApprovals w) (approvalPath i) = Inr r \<longrightarrow> apState r \<in> {ApApproved, ApConsumed} \<longrightarrow> i \<in> set (gwApproved w))"

text \<open>A world between the resolution of a call and its execution.\<close>

definition ready :: "string \<Rightarrow> gateWorld \<Rightarrow> bool" where
  "ready i w \<longleftrightarrow> consumed (gwApprovals w) i \<and> i \<notin> set (gwRuns w)"

lemma approvalPath_inj [simp]: "approvalPath i = approvalPath j \<longleftrightarrow> i = j"
  by (simp add: approvalPath_def)

lemma write_consumed: "ap_write b i d d' \<Longrightarrow> consumed d j \<Longrightarrow> consumed d' j"
  by (cases "i = j"; cases "readJSON d (approvalPath i)") (auto simp: ap_write_def consumed_def readJSON_update ap_le_def)

lemma write_inv:
  assumes "ap_write b i (gwApprovals w) d'" and "gate_inv w" and "b \<Longrightarrow> i \<in> set as"
  shows "gate_inv (w\<lparr>gwApprovals := d', gwApproved := as @ gwApproved w\<rparr>)"
proof -
  have "j \<in> set (as @ gwApproved w)" if r: "readJSON d' (approvalPath j) = Inr r" "apState r \<in> {ApApproved, ApConsumed}" for j r
  proof (cases "\<exists>r0. readJSON (gwApprovals w) (approvalPath j) = Inr r0 \<and> apState r0 \<in> {ApApproved, ApConsumed}")
    case True
    with assms(2) show ?thesis by (auto simp: gate_inv_def)
  next
    case False
    with assms(1) r have "i = j \<and> b"
      by (cases "i = j"; cases "readJSON (gwApprovals w) (approvalPath i)") (auto simp: ap_write_def readJSON_update ap_le_def)
    with assms(3) show ?thesis by auto
  qed
  moreover have "\<forall>j\<in>set (gwRuns w). consumed d' j" using assms(2) write_consumed [OF assms(1)] by (auto simp: gate_inv_def)
  moreover have "distinct (gwRuns w)" using assms(2) by (simp add: gate_inv_def)
  ultimately show ?thesis unfolding gate_inv_def by simp
qed

lemma decideAll_keeps: "gate_inv w \<Longrightarrow> gate_inv (decideAll ds w) \<and> (ready i w \<longrightarrow> ready i (decideAll ds w))"
proof (induction ds w rule: decideAll.induct)
  case (2 e j decision actor ds w)
  let ?w = "w\<lparr>gwApprovals := snd (DecideApproval e j decision actor (gwApprovals w)),
       gwApproved := (if decision = ApApproved then [j] else []) @ gwApproved w\<rparr>"
  have d: "ap_write (decision = ApApproved) j (gwApprovals w) (snd (DecideApproval e j decision actor (gwApprovals w)))"
    by (rule decide_write [OF prod.collapse [symmetric]])
  have "gate_inv ?w" by (rule write_inv [OF d 2(2)]) simp
  moreover have "ready i w \<longrightarrow> ready i ?w" using write_consumed [OF d] by (auto simp: ready_def)
  ultimately show ?case using 2(1) by auto
qed simp

lemma gateStep_keeps: "gateStep su w = (r, w1) \<Longrightarrow> gate_inv w \<Longrightarrow> gate_inv w1 \<and> (ready i w \<longrightarrow> ready i w1)"
  using decideAll_keeps [of "w\<lparr>gwTick := gwTick w + 1\<rparr>"]
  by (auto simp: gateStep_def gate_inv_def ready_def)

lemma look_keeps: "gateLook su w = (x, w1) \<Longrightarrow> gate_inv w \<Longrightarrow> gate_inv w1 \<and> (ready i w \<longrightarrow> ready i w1)"
  using gateStep_keeps [of su w] by (auto simp: gateLook_def split: prod.splits)

text \<open>The policy lets a gated call pass only with an approval that this call consumes.\<close>

lemma policy_keeps:
  assumes "ApprovalPolicy (Some (gateBackend ttl su)) (gateContext su approved scope) d args w = (decision, w1)" and "gate_inv w"
  shows "gate_inv w1 \<and> (pdAllowed decision \<longrightarrow> gated approved d \<longrightarrow> ready (exact_call scope (tdName d) args) w1)"
proof (cases "gated approved d \<and> ApprovalScopeFromContext (gateContext su approved scope) \<noteq> None")
  case False
  then show ?thesis using assms
    by (auto simp: ApprovalPolicy_def gated_def denied_def split: if_splits option.splits)
next
  case True
  then obtain s where s: "gated approved d" "ApprovalScopeFromContext (gateContext su approved scope) = Some s" by blast
  then have scope: "scope = Some s" by (auto simp: ApprovalScopeFromContext_def split: option.splits if_splits)
  let ?q = "\<lparr>arqRunID = asRunID s, arqTurnID = asTurnID s, arqLeaseID = asLeaseID s, arqAdmission = asAdmission s,
    arqCapability = asCapability s, arqToolName = tdName d, arqArguments = args\<rparr>"
  obtain r w2 where g: "gateStep su w = (r, w2)" by fastforce
  obtain res d' where v: "ResolveApproval ttl (gaEnv r) ?q (gwApprovals w2) = (res, d')" by fastforce
  have inv: "gate_inv w2" using gateStep_keeps [OF g assms(2)] by blast
  have w1: "w1 = w2\<lparr>gwApprovals := d'\<rparr>" and allow: "pdAllowed decision \<Longrightarrow> \<exists>a. res = Inr a \<and> arsAllowed a"
    using assms(1) s v g by (auto simp: ApprovalPolicy_def gated_def gateBackend_def Let_def denied_def
        split: sum.splits if_splits)
  from resolve_write [OF v] obtain i where i: "ap_write False i (gwApprovals w2) d'"
    "\<forall>a. res = Inr a \<longrightarrow> arsAllowed a \<longrightarrow> (\<exists>c digest r r'. canonicalArguments args = Inr (c, digest) \<and>
       i = requestID (asRunID s) (asCapability s) (tdName d) digest \<and> readJSON (gwApprovals w2) (approvalPath i) = Inr r \<and>
       apState r = ApApproved \<and> readJSON d' (approvalPath i) = Inr r' \<and> apState r' = ApConsumed)" by auto
  from write_inv [OF i(1) inv, of "[]"] have "gate_inv w1" by (simp add: w1)
  moreover have "ready (exact_call scope (tdName d) args) w1" if p: "pdAllowed decision"
  proof -
    from allow [OF p] i(2) obtain c digest r r' where a: "canonicalArguments args = Inr (c, digest)"
      "i = requestID (asRunID s) (asCapability s) (tdName d) digest" "readJSON (gwApprovals w2) (approvalPath i) = Inr r"
      "apState r = ApApproved" "readJSON d' (approvalPath i) = Inr r'" "apState r' = ApConsumed" by blast
    from a(3,4) have "\<not> consumed (gwApprovals w2) i" by (simp add: consumed_def)
    then have "i \<notin> set (gwRuns w2)" using inv by (auto simp: gate_inv_def)
    then show ?thesis using a by (auto simp: ready_def consumed_def exact_call_def scope w1)
  qed
  ultimately show ?thesis by blast
qed

lemma runTool_keeps:
  assumes "runTool (gateContext su approved scope) (gateTool su approved scope dv) i args w = (res, w1)" and "gate_inv w"
    and "gated approved (fst dv) \<Longrightarrow> ready (exact_call scope (tdName (fst dv)) args) w"
  shows "gate_inv w1"
proof -
  obtain r w2 where g: "gateStep su w = (r, w2)" by fastforce
  let ?w = "w2\<lparr>gwRuns := gwRuns w2 @ (if gated approved (fst dv) then [exact_call scope (tdName (fst dv)) args] else [])\<rparr>"
  from gateStep_keeps [OF g assms(2)] assms(3) have inv: "gate_inv ?w"
    by (auto simp: gate_inv_def ready_def)
  obtain out where out: "executeSafely (gateTool su approved scope dv) args w = (out, ?w)"
    using g by (cases "gaOutcome r") (auto simp: executeSafely_def gateTool_def)
  obtain t w3 where t: "gateLook su ?w = (t, w3)" by fastforce
  from look_keeps [OF t inv] have "gate_inv w3" by simp
  with inv assms(1) out t show ?thesis
    by (cases out) (auto simp: runTool_def split: option.splits)
qed

lemma executeCall_keeps:
  assumes "gate_inv w"
  shows "gate_inv (snd (executeCall chk (gateRegistry ttl su ts n approved scope) (gateContext su approved scope) call w))"
proof -
  let ?ctx = "gateContext su approved scope" and ?reg = "gateRegistry ttl su ts n approved scope"
  define args where "args = (if callArguments call = RawNil then RawJSON (JObj []) else callArguments call)"
  obtain e1 w1 where e1: "gateLook su w = (e1, w1)" by fastforce
  from look_keeps [OF e1 assms] have i1: "gate_inv w1" by simp
  show ?thesis
  proof (cases "e1 = None \<and> mget (trTools ?reg) (callName call) \<noteq> None")
    case False
    with e1 i1 show ?thesis by (auto simp: executeCall_def split: option.split)
  next
    case True
    then obtain dv where "mget ts (callName call) = Some dv" by (auto simp: gateRegistry_def map_of_map)
    then have dv: "mget (trTools ?reg) (callName call) = Some (gateTool su approved scope dv)" by (simp add: gateRegistry_def map_of_map)
    obtain p w2 where p: "trPolicy ?reg ?ctx (fst dv) args w1 = (p, w2)" by fastforce
    then have "ApprovalPolicy (Some (gateBackend ttl su)) ?ctx (fst dv) args w1 = (p, w2)" by (simp add: gateRegistry_def)
    from policy_keeps [OF this i1] have i2: "gate_inv w2" and
      r2: "pdAllowed p \<Longrightarrow> gated approved (fst dv) \<Longrightarrow> ready (exact_call scope (tdName (fst dv)) args) w2" by blast+
    obtain e3 w3 where e3: "gateLook su w2 = (e3, w3)" by fastforce
    from look_keeps [OF e3 i2] r2 have i3: "gate_inv w3" and
      r3: "pdAllowed p \<Longrightarrow> gated approved (fst dv) \<Longrightarrow> ready (exact_call scope (tdName (fst dv)) args) w3" by blast+
    obtain e4 w4 where e4: "gateLook su w3 = (e4, w4)" by fastforce
    from look_keeps [OF e4 i3] r3 have i4: "gate_inv w4" and
      r4: "pdAllowed p \<Longrightarrow> gated approved (fst dv) \<Longrightarrow> ready (exact_call scope (tdName (fst dv)) args) w4" by blast+
    have i5: "pdAllowed p \<Longrightarrow> gate_inv (snd (runTool ?ctx (gateTool su approved scope dv) (callID call) args w4))"
      by (rule runTool_keeps [OF prod.collapse [symmetric] i4 r4])
    have b: "btDefinition (gateTool su approved scope dv) = fst dv" by (simp add: gateTool_def)
    show ?thesis using True e1 dv p e3 e4 i1 i2 i3 i4 i5
      by (simp add: executeCall_def Let_def b args_def [symmetric] split: option.split)
  qed
qed

section \<open>Batches of gated calls\<close>

lemma sequential_keeps:
  assumes "\<And>call w. P w \<Longrightarrow> P (snd (one call w))"
  shows "P w \<Longrightarrow> P (snd (runSequential one calls w))"
proof (induction calls arbitrary: w)
  case (Cons call calls)
  obtain res w1 where o: "one call w = (res, w1)" by fastforce
  with assms [OF Cons.prems, of call] have "P w1" by simp
  with Cons.IH [OF this] o show ?case by (auto split: prod.split)
qed simp

lemma plan_keeps:
  assumes "\<And>call w. P w \<Longrightarrow> P (snd (one call w))"
  shows "P w \<Longrightarrow> P (snd (runPlan one calls plan rs w))"
proof (induction plan arbitrary: rs w)
  case (Cons p plan)
  obtain i dn where p: "p = (i, dn)" by fastforce
  obtain res w1 where o: "one (calls ! i) w = (res, w1)" by fastforce
  with assms [OF Cons.prems, of "calls ! i"] have "P w1" by simp
  with Cons p o show ?case by (cases dn) simp_all
qed simp

lemma batch_keeps:
  assumes "\<And>call w. P w \<Longrightarrow> P (snd (one call w))" and "P w"
  shows "P (snd (executeBatch one canParallel plan calls w))"
  using sequential_keeps [of P one, OF assms] plan_keeps [of P one, OF assms] assms(2) by (simp add: executeBatch_def)

text \<open>A batch of a turn: the tools approved for the run, the scope, the plan of its parallel part, and the calls.\<close>

datatype gate_batch = GateBatch "string list" "ApprovalScope option" "(nat \<times> go_error option) list" "ToolCall list"

fun do_batch :: "(json \<Rightarrow> raw \<Rightarrow> go_error + bool \<times> string list) \<Rightarrow> duration \<Rightarrow> (nat \<Rightarrow> gateAround)
    \<Rightarrow> (ToolDefinition \<times> (raw \<Rightarrow> go_error option)) gomap \<Rightarrow> int \<Rightarrow> gate_batch \<Rightarrow> gateWorld \<Rightarrow> ToolResult list \<times> gateWorld" where
  "do_batch chk ttl su ts n (GateBatch approved scope plan calls) w =
     ExecuteBatch chk (gateRegistry ttl su ts n approved scope) (gateContext su approved scope) plan calls w"

lemma batches_keep: "gate_inv w \<Longrightarrow> gate_inv (run_steps (do_batch chk ttl su ts n) bs w)"
proof (induction bs arbitrary: w)
  case (Cons b bs)
  have "gate_inv (snd (do_batch chk ttl su ts n b w))"
    by (cases b) (simp add: ExecuteBatch_def batch_keeps [where P = gate_inv, OF executeCall_keeps Cons.prems])
  from Cons.IH [OF this] show ?case by simp
qed simp

text \<open>C31. The registry with the approval policy on an approval store, from an empty store on, with decisions of people, cancelled contexts,
  stale leases and failing writes at any time: a tool with side effects that is not approved for the whole run executes at most once for
  each exact call of a run and capability, and only after somebody decided to approve exactly this call; the approval is then
  consumed.\<close>

theorem gated_calls_run_once:
  assumes "gwApprovals w = []" and "gwRuns w = []"
  shows "distinct (gwRuns (run_steps (do_batch chk ttl su ts n) bs w)) \<and>
    (\<forall>i \<in> set (gwRuns (run_steps (do_batch chk ttl su ts n) bs w)).
       i \<in> set (gwApproved (run_steps (do_batch chk ttl su ts n) bs w)) \<and>
       (\<exists>r. readJSON (gwApprovals (run_steps (do_batch chk ttl su ts n) bs w)) (approvalPath i) = Inr r \<and> apState r = ApConsumed))"
proof -
  have "gate_inv w" using assms by (simp add: gate_inv_def readJSON_def)
  then have "gate_inv (run_steps (do_batch chk ttl su ts n) bs w)" by (rule batches_keep)
  then show ?thesis by (auto simp: gate_inv_def consumed_def)
qed

lemma sequential_batch:
  "\<not> canRunInParallel r calls \<Longrightarrow> ExecuteBatch chk r ctx plan calls w = runSequential (executeCall chk r ctx) calls w"
  by (cases calls) (simp_all add: ExecuteBatch_def executeBatch_def)

text \<open>A fatal result in a batch that is not parallel ends it: the calls up to that one were executed in order, none behind it was, and
  each of those is answered as cancelled.\<close>

theorem fatal_result_stops_batch:
  assumes "\<not> canRunInParallel r calls" and "ExecuteBatch chk r ctx plan calls w = (rs, w')"
  shows "\<exists>k \<le> length calls. w' = run_steps (executeCall chk r ctx) (take k calls) w \<and>
    take k rs = outcomes (executeCall chk r ctx) (take k calls) w \<and> drop k rs = map batchCancelled (drop k calls) \<and>
    (\<forall>j < k. resFatal (rs ! j) \<longrightarrow> Suc j = k) \<and> (k < length calls \<longrightarrow> 0 < k \<and> resFatal (rs ! (k - 1)))"
proof -
  let ?one = "executeCall chk r ctx"
  have "(rs, w') = runSequential ?one calls w" using assms by (simp add: sequential_batch)
  then show ?thesis
  proof (induction calls arbitrary: w rs)
    case Nil
    then show ?case by simp
  next
    case (Cons call calls)
    obtain res w1 where o: "?one call w = (res, w1)" by fastforce
    show ?case
    proof (cases "resFatal res")
      case True
      with Cons.prems o show ?thesis by (intro exI [of _ 1]) simp
    next
      case False
      obtain rs1 w2 where s: "runSequential ?one calls w1 = (rs1, w2)" by fastforce
      with Cons.prems o False have rs: "rs = res # rs1" "w' = w2" by simp_all
      from Cons.IH [of rs1 w1] s rs(2) obtain k where k: "k \<le> length calls" "w' = run_steps ?one (take k calls) w1"
        "take k rs1 = outcomes ?one (take k calls) w1" "drop k rs1 = map batchCancelled (drop k calls)"
        "\<forall>j<k. resFatal (rs1 ! j) \<longrightarrow> Suc j = k" "k < length calls \<longrightarrow> 0 < k \<and> resFatal (rs1 ! (k - 1))" by auto
      from k(5) False have "\<forall>j<Suc k. resFatal ((res # rs1) ! j) \<longrightarrow> Suc j = Suc k" by (auto simp: nth_Cons split: nat.split)
      moreover from k(6) have "k < length calls \<longrightarrow> resFatal ((res # rs1) ! k)" by (cases k) auto
      ultimately show ?thesis using k(1-4) o rs(1) by (intro exI [of _ "Suc k"]) simp
    qed
  qed
qed

section \<open>Concrete runs\<close>

definition demo_cancelled_context :: "nat callContext" where
  "demo_cancelled_context = demo_context\<lparr>ctxErr := (\<lambda>w. (Some (Sentinel ''context canceled''), w))\<rparr>"

lemma fatal_first_stops:
  assumes "\<And>call w. one call w = (f call, w)" and "\<And>call. resFatal (f call)"
  shows "runSequential one [a, b] w = ([f a, batchCancelled b], w)"
  by (simp add: assms)

theorem fatal_result_stops_batch_witness:
  "\<exists>rs k. fst (ExecuteBatch (\<lambda>s a. Inr (True, [])) demo_tools demo_cancelled_context [] [(demo_call ''c1'')\<lparr>callName := ''rm''\<rparr>, demo_call ''c2''] 0) = rs
     \<and> length rs = 2 \<and> k \<le> 2 \<and> (\<forall>j < k. resFatal (rs ! j) \<longrightarrow> Suc j = k) \<and>
     drop k rs = map batchCancelled (drop k [(demo_call ''c1'')\<lparr>callName := ''rm''\<rparr>, demo_call ''c2''])"
proof -
  define a where "a = (demo_call ''c1'')\<lparr>callName := ''rm''\<rparr>"
  define b where "b = demo_call ''c2''"
  have t: "trTools demo_tools = [(''ls'', demo_reader)]"
  proof -
    have "TrimSpace ''ls'' = ''ls''" by (rule TrimSpace_safeID) (simp add: char_eval)
    then show ?thesis by (simp add: demo_tools_def RegisterTool_def demo_reader_def NewRegistry_def Let_def)
  qed
  have np: "\<not> canRunInParallel demo_tools [a, b]" by (simp add: canRunInParallel_def t a_def)
  obtain rs w' where r: "ExecuteBatch (\<lambda>s a. Inr (True, [])) demo_tools demo_cancelled_context [] [a, b] 0 = (rs, w')" by fastforce
  let ?one = "executeCall (\<lambda>s a. Inr (True, [])) demo_tools demo_cancelled_context"
  let ?f = "\<lambda>call. contextResult (callID call) (Sentinel ''context canceled'')"
  have one: "?one call w = (?f call, w)" for call w
    by (simp add: executeCall_def demo_cancelled_context_def)
  have fatal: "resFatal (?f call)" for call by (simp add: contextResult_def errorResult_def)
  have "(rs, w') = runSequential ?one [a, b] 0" by (rule trans [OF r [symmetric] sequential_batch [OF np]])
  also have "\<dots> = ([?f a, batchCancelled b], 0)" by (rule fatal_first_stops [of ?one ?f, OF one fatal])
  finally have "length rs = 2" by simp
  have len: "length [a, b] = 2" by simp
  from fatal_result_stops_batch [OF np r] obtain k where k: "k \<le> length [a, b]" "drop k rs = map batchCancelled (drop k [a, b])"
    "\<forall>j < k. resFatal (rs ! j) \<longrightarrow> Suc j = k" by blast
  have "fst (ExecuteBatch (\<lambda>s a. Inr (True, [])) demo_tools demo_cancelled_context [] [a, b] 0) = rs" by (simp only: r fst_conv)
  with \<open>length rs = 2\<close> k show ?thesis unfolding a_def [symmetric] b_def [symmetric] len by blast
qed

text \<open>A tool that removes things, called twice in a run; the person decides between the calls.\<close>

definition demo_scope :: ApprovalScope where
  "demo_scope = \<lparr>asRunID = ''r1'', asTurnID = ''t1'', asLeaseID = ''l1'', asAdmission = 1, asCapability = ''c1''\<rparr>"

definition demo_rm :: "(ToolDefinition \<times> (raw \<Rightarrow> go_error option)) gomap" where
  "demo_rm = [(''rm'', \<lparr>tdName = ''rm'', tdDescription = [], tdInputSchema = Some (JObj []), tdRisk = RiskExecute, tdParallelSafe = False\<rparr>, \<lambda>a. None)]"

definition demo_request_id :: string where
  "demo_request_id = requestID ''r1'' ''c1'' ''rm'' (sha256_hex ''{}'')"

definition demo_people :: "nat \<Rightarrow> gateAround" where
  "demo_people k = \<lparr>gaEnv = demo_env, gaContext = None, gaOutcome = ToolOutput ''gone'',
     gaDecisions = (if k = 3 then [(demo_env, demo_request_id, ApApproved, ''boss'')] else [])\<rparr>"

definition demo_gate_world :: gateWorld where
  "demo_gate_world = \<lparr>gwApprovals = [], gwRuns = [], gwApproved = [], gwTick = 0\<rparr>"

definition demo_batch :: gate_batch where
  "demo_batch = GateBatch [] (Some demo_scope) [] [\<lparr>callID = ''k'', callName = ''rm'', callArguments = RawNil\<rparr>]"

definition demo_pending :: ApRequest where
  "demo_pending = newRequest 1000 \<lparr>arqRunID = ''r1'', arqTurnID = ''t1'', arqLeaseID = ''l1'', arqAdmission = 1, arqCapability = ''c1'',
     arqToolName = ''rm'', arqArguments = RawJSON (JObj [])\<rparr> (JObj []) (sha256_hex ''{}'') demo_request_id 100"

lemma demo_request_valid: "validApprovalID demo_request_id"
proof -
  have "list_all is_hex_any (take 24 (sha256_hex s))" for s
    unfolding sha256_hex_def using hexEncode_hex [of "sha256 (bytes_of s)"]
    by (auto simp: list_all_iff is_hex_any_def dest: in_set_takeD)
  then show ?thesis by (simp add: validApprovalID_def demo_request_id_def requestID_def)
qed

lemma demo_times: "json_time 100 \<noteq> None" "json_time 1100 \<noteq> None" "json_time 0 \<noteq> None"
  by (simp_all add: json_time_def year_of_day_def day_ns_def)

definition demo_query :: ApprovalRequest where
  "demo_query = \<lparr>arqRunID = ''r1'', arqTurnID = ''t1'', arqLeaseID = ''l1'', arqAdmission = 1, arqCapability = ''c1'', arqToolName = ''rm'',
     arqArguments = RawJSON (JObj [])\<rparr>"

definition demo_approved :: ApRequest where
  "demo_approved = demo_pending\<lparr>apState := ApApproved, apActor := TrimSpace ''boss'', apDecidedAt := 100\<rparr>"

definition demo_consumed :: ApRequest where
  "demo_consumed = demo_approved\<lparr>apState := ApConsumed, apConsumedAt := 100\<rparr>"

definition demo_file :: "ApRequest \<Rightarrow> approvalDir" where
  "demo_file r = [(approvalPath demo_request_id, Record r)]"

lemma demo_env_fields: "cerr demo_env = None" "clk demo_env k = 100" "wio demo_env = Io_ok"
  by (simp_all add: demo_env_def)

lemma demo_saves: "r \<in> {demo_pending, demo_approved, demo_consumed} \<Longrightarrow>
    saveApproval Io_ok r d = (None, AList.update (approvalPath demo_request_id) (Record r) d)"
  using demo_times by (auto simp: saveApproval_def demo_consumed_def demo_approved_def demo_pending_def newRequest_def atomicWrite_def)

lemma demo_loads: "r \<in> {demo_pending, demo_approved, demo_consumed} \<Longrightarrow> loadApproval demo_request_id (demo_file r) = Inr r"
  using demo_request_valid
  by (auto simp: loadApproval_def demo_file_def readJSON_def demo_consumed_def demo_approved_def demo_pending_def newRequest_def)

lemma demo_args: "canonicalArguments (RawJSON (JObj [])) = Inr (JObj [], sha256_hex ''{}'')"
  by (simp add: canonicalArguments_def)

lemma demo_asks: "ResolveApproval 1000 demo_env demo_query [] = (Inr (resolution demo_pending False), demo_file demo_pending)"
proof -
  have "newRequest 1000 demo_query (JObj []) (sha256_hex ''{}'') demo_request_id 100 = demo_pending"
    by (simp add: demo_pending_def demo_query_def)
  moreover have "loadApproval demo_request_id [] = Inl os_ErrNotExist" using demo_request_valid by (simp add: loadApproval_def readJSON_def)
  ultimately show ?thesis using demo_saves [of demo_pending "[]"]
    by (simp add: ResolveApproval_def demo_env_fields demo_query_def demo_args Let_def demo_request_id_def [symmetric] demo_file_def)
qed

lemma demo_decides: "DecideApproval demo_env demo_request_id ApApproved ''boss'' (demo_file demo_pending) = (Inr demo_approved, demo_file demo_approved)"
proof -
  have "expireRequest demo_env demo_pending d = (demo_pending, None, d)" for d
    by (simp add: expireRequest_def demo_env_fields demo_pending_def newRequest_def)
  moreover have "apState demo_pending = ApPending" by (simp add: demo_pending_def newRequest_def)
  ultimately show ?thesis using demo_saves [of demo_approved "demo_file demo_pending"]
    by (simp add: DecideApproval_def demo_env_fields demo_loads demo_approved_def [symmetric] Let_def) (simp add: demo_file_def)
qed

lemma demo_uses: "ResolveApproval 1000 demo_env demo_query (demo_file demo_approved) = (Inr (resolution demo_consumed True), demo_file demo_consumed)"
proof -
  have st: "apState demo_approved = ApApproved" "apRunID demo_approved = ''r1''" "apCapability demo_approved = ''c1''"
    "apToolName demo_approved = ''rm''" "apArgumentsDigest demo_approved = sha256_hex ''{}''"
    by (simp_all add: demo_approved_def demo_pending_def newRequest_def)
  then have "resolveExisting demo_env demo_approved (demo_file demo_approved) = (Inr (resolution demo_consumed True), demo_file demo_consumed)"
    using demo_saves [of demo_consumed "demo_file demo_approved"]
    by (simp add: resolveExisting_def expireRequest_def demo_env_fields demo_consumed_def [symmetric]) (simp add: demo_file_def)
  with st show ?thesis
    by (simp add: ResolveApproval_def demo_env_fields demo_query_def demo_args demo_request_id_def [symmetric] demo_loads)
qed

lemma demo_steps: "gateStep demo_people w = (demo_people (gwTick w), (if gwTick w = 3 then decideAll [(demo_env, demo_request_id, ApApproved, ''boss'')]
    (w\<lparr>gwTick := 4\<rparr>) else w\<lparr>gwTick := gwTick w + 1\<rparr>))"
  by (simp add: gateStep_def demo_people_def)

lemma demo_run:
  "run_steps (do_batch (\<lambda>s a. Inr (True, [])) 1000 demo_people demo_rm 4) [demo_batch, demo_batch] demo_gate_world =
     \<lparr>gwApprovals = demo_file demo_consumed, gwRuns = [demo_request_id], gwApproved = [demo_request_id], gwTick = 7\<rparr>"
proof -
  let ?go = "do_batch (\<lambda>s a. Inr (True, [])) 1000 demo_people demo_rm 4 demo_batch"
  note gate_simps = demo_batch_def ExecuteBatch_def executeBatch_def canRunInParallel_def executeCall_def gateLook_def demo_steps
    validateSchema_def gateRegistry_def demo_rm_def gateTool_def ApprovalPolicy_def harmless_def approvedTools_def ApprovalScopeFromContext_def
    demo_scope_def gateBackend_def demo_query_def [symmetric] resolution_def demo_people_def runTool_def executeSafely_def Let_def
  have a: "snd (?go demo_gate_world) = \<lparr>gwApprovals = demo_file demo_pending, gwRuns = [], gwApproved = [], gwTick = 2\<rparr>"
    using demo_asks by (simp add: gate_simps demo_gate_world_def)
  have x: "exact_call (Some demo_scope) ''rm'' (RawJSON (JObj [])) = demo_request_id"
    by (simp add: exact_call_def demo_args demo_scope_def demo_request_id_def)
  have b: "snd (?go \<lparr>gwApprovals = demo_file demo_pending, gwRuns = [], gwApproved = [], gwTick = 2\<rparr>) =
    \<lparr>gwApprovals = demo_file demo_consumed, gwRuns = [demo_request_id], gwApproved = [demo_request_id], gwTick = 7\<rparr>"
    using demo_uses x by (simp add: gate_simps demo_decides gated_def allowed_def)
  from a b show ?thesis by simp
qed

theorem gated_calls_run_once_witness:
  "gwRuns (run_steps (do_batch (\<lambda>s a. Inr (True, [])) 1000 demo_people demo_rm 4) [demo_batch, demo_batch] demo_gate_world) = [demo_request_id] \<and>
   (\<exists>r. readJSON (demo_file demo_consumed) (approvalPath demo_request_id) = Inr r \<and> apState r = ApConsumed)"
proof -
  have "gwApprovals demo_gate_world = []" "gwRuns demo_gate_world = []" by (simp_all add: demo_gate_world_def)
  from gated_calls_run_once [OF this, of "\<lambda>s a. Inr (True, [])" 1000 demo_people demo_rm 4 "[demo_batch, demo_batch]"]
  show ?thesis unfolding demo_run by simp
qed

end
