(* ===== verification/FloatSum.thy ===== *)
theory FloatSum
  imports Messages Complex_Main
begin

text \<open>
  Sums of float64 numbers, for the team store: the sum is the exact sum rounded to nearest. The lemmas give what pruning by a
  budget needs: a sum with a number that is not negative is not below the other summand, and the comparison of float64 numbers that are
  no NaN is a strict weak order. \<open>fixed_text\<close> is the verb \<open>%.nf\<close> of package fmt.
\<close>

section \<open>Sums\<close>

fun float_add :: "float64 \<Rightarrow> float64 \<Rightarrow> float64" where
  "float_add (Fin s m e) (Fin s' m' e') =
     (let k = min e e'; v = fin_value s m e k + fin_value s' m' e' k in
      if v = 0 then Fin (s \<and> s') 0 (- 1074) else round_float (v < 0) (nat \<bar>v\<bar> * 2 ^ nat k) (2 ^ nat (- k)))"
| "float_add (Fin s m e) x = x"
| "float_add x (Fin s m e) = x"
| "float_add (Inf s) (Inf s') = (if s = s' then Inf s else NaN)"
| "float_add _ _ = NaN"

definition float_zero :: float64 where
  "float_zero = Fin False 0 (- 1074)"

text \<open>The verb \<open>%.nf\<close> rounds the exact value, ties to the even digit.\<close>

definition fixed_text :: "nat \<Rightarrow> float64 \<Rightarrow> string" where
  "fixed_text n x = (case x of
     Fin neg m e \<Rightarrow>
       (let ds = dec_nat (round_even (m * 2 ^ nat e * 10 ^ n) (2 ^ nat (- e)));
            ps = replicate (Suc n - length ds) CHR ''0'' @ ds; whole = length ps - n in
        (if neg then ''-'' else []) @ take whole ps @ (if n = 0 then [] else ''.'' @ drop whole ps))
   | Inf neg \<Rightarrow> (if neg then ''-Inf'' else ''+Inf'')
   | NaN \<Rightarrow> ''NaN'')"

section \<open>The order\<close>

definition fval :: "bool \<Rightarrow> nat \<Rightarrow> int \<Rightarrow> real" where
  "fval s m e = (if s then - 1 else 1) * real m * 2 powi e"

lemma fval_0 [simp]: "fval s 0 e = 0"
  by (simp add: fval_def)

lemma fin_value_fval: "k \<le> e \<Longrightarrow> real_of_int (fin_value s m e k) * 2 powi k = fval s m e"
proof -
  assume k: "k \<le> e"
  have "(2::real) ^ nat (e - k) = 2 powi (e - k)" using k by (simp add: power_int_def)
  then have "(2::real) ^ nat (e - k) * 2 powi k = 2 powi e" by (simp add: power_int_diff)
  then show ?thesis by (simp add: fin_value_def fval_def mult.assoc)
qed

lemma fin_value_mono:
  assumes "k \<le> e" and "k \<le> e'"
  shows "fin_value s m e k < fin_value s' m' e' k \<longleftrightarrow> fval s m e < fval s' m' e'"
    and "fin_value s m e k = fin_value s' m' e' k \<longleftrightarrow> fval s m e = fval s' m' e'"
proof -
  have p: "(2::real) powi k > 0" by simp
  show "fin_value s m e k < fin_value s' m' e' k \<longleftrightarrow> fval s m e < fval s' m' e'"
    using p by (simp flip: fin_value_fval [OF assms(1)] fin_value_fval [OF assms(2)])
  show "fin_value s m e k = fin_value s' m' e' k \<longleftrightarrow> fval s m e = fval s' m' e'"
    using p by (simp flip: fin_value_fval [OF assms(1)] fin_value_fval [OF assms(2)])
qed

lemma float_less_fval: "float_less (Fin s m e) (Fin s' m' e') \<longleftrightarrow> fval s m e < fval s' m' e'"
  by (simp add: Let_def fin_value_mono)

lemma float_eq_fval: "float_eq (Fin s m e) (Fin s' m' e') \<longleftrightarrow> fval s m e = fval s' m' e'"
  by (simp add: float_eq_def Let_def fin_value_mono)

declare float_less.simps(1) [simp del]

text \<open>A rank that orders the numbers: the infinite ones below and above all others.\<close>

definition franks :: "float64 \<Rightarrow> int \<times> real" where
  "franks x = (case x of Fin s m e \<Rightarrow> (0, fval s m e) | Inf neg \<Rightarrow> (if neg then - 1 else 1, 0) | NaN \<Rightarrow> (0, 0))"

definition flt :: "int \<times> real \<Rightarrow> int \<times> real \<Rightarrow> bool" where
  "flt a b \<longleftrightarrow> fst a < fst b \<or> (fst a = fst b \<and> snd a < snd b)"

lemma float_less_rank: "x \<noteq> NaN \<Longrightarrow> y \<noteq> NaN \<Longrightarrow> float_less x y \<longleftrightarrow> flt (franks x) (franks y)"
  by (cases x; cases y) (auto simp: franks_def flt_def float_less_fval)

lemma float_eq_rank: "x \<noteq> NaN \<Longrightarrow> y \<noteq> NaN \<Longrightarrow> float_eq x y \<longleftrightarrow> franks x = franks y"
  by (cases x; cases y) (auto simp: franks_def float_eq_fval, auto simp: float_eq_def)

lemma flt_order: "\<not> flt a a" "flt a b \<Longrightarrow> flt b c \<Longrightarrow> flt a c" "flt a b \<or> a = b \<or> flt b a"
  by (auto simp: flt_def prod_eq_iff)

section \<open>A sum with a number that is not negative\<close>

definition float_nonneg :: "float64 \<Rightarrow> bool" where
  "float_nonneg x \<longleftrightarrow> x \<noteq> NaN \<and> \<not> float_less x float_zero"

lemma round_even_ge: "0 < den \<Longrightarrow> k * den \<le> num \<Longrightarrow> k \<le> round_even num den"
proof -
  assume "0 < den" "k * den \<le> num"
  then have "k \<le> num div den" by (simp add: less_eq_div_iff_mult_less_eq)
  then show ?thesis by (auto simp: round_even_def Let_def)
qed

lemma round_even_real: "0 < den \<Longrightarrow> real k \<le> real num / real den \<Longrightarrow> k \<le> round_even num den"
proof (rule round_even_ge)
  assume a: "0 < den" "real k \<le> real num / real den"
  then have "real (k * den) \<le> real num" by (simp add: le_divide_eq)
  then show "k * den \<le> num" by (simp only: of_nat_le_iff)
qed simp

text \<open>The exponent that \<open>round_float\<close> picks and the quotient it rounds.\<close>

definition round_exp :: "nat \<Rightarrow> nat \<Rightarrow> int" where
  "round_exp num den = (let e1 = int (bit_length num) - int (bit_length den) - 53 in
     max (- 1074) (if 2 ^ 53 * den * 2 ^ nat e1 \<le> num * 2 ^ nat (- e1) then e1 + 1 else e1))"

definition round_quot :: "nat \<Rightarrow> nat \<Rightarrow> nat" where
  "round_quot num den = round_even (num * 2 ^ nat (- round_exp num den)) (den * 2 ^ nat (round_exp num den))"

lemma round_float_parts:
  assumes "num \<noteq> 0"
  shows "round_float neg num den = (case (if round_quot num den = 2 ^ 53 then (2 ^ 52, round_exp num den + 1)
     else (round_quot num den, round_exp num den)) of (m', e') \<Rightarrow> if e' > 971 then Inf neg else Fin neg m' e')"
  unfolding round_float_def if_not_P [OF assms] round_quot_def round_exp_def Let_def by (rule refl)

lemma scaled_quot:
  assumes "0 < den"
  shows "real (num * 2 ^ nat (- e)) / real (den * 2 ^ nat e) = real num / real den / 2 powi e"
proof (cases "0 \<le> e")
  case True
  then show ?thesis by (simp add: power_int_def)
next
  case False
  then show ?thesis by (simp add: power_int_def divide_simps)
qed

lemma scaled_less:
  assumes "0 < den"
  shows "2 ^ j * den * 2 ^ nat e \<le> num * 2 ^ nat (- e) \<longleftrightarrow> 2 ^ j * 2 powi e \<le> real num / real den"
proof -
  have "2 ^ j * den * 2 ^ nat e \<le> num * 2 ^ nat (- e) \<longleftrightarrow> real (2 ^ j * (den * 2 ^ nat e)) \<le> real (num * 2 ^ nat (- e))"
    by (simp only: of_nat_le_iff mult.assoc)
  also have "\<dots> \<longleftrightarrow> 2 ^ j \<le> real (num * 2 ^ nat (- e)) / real (den * 2 ^ nat e)"
    using assms by (simp add: le_divide_eq)
  also have "\<dots> \<longleftrightarrow> 2 ^ j * 2 powi e \<le> real num / real den" by (simp only: scaled_quot [OF assms] pos_le_divide_eq [OF zero_less_power_int [OF zero_less_numeral]])
  finally show ?thesis .
qed

lemma bit_length_bounds:
  assumes "0 < n"
  shows "2 powi (int (bit_length n) - 1) \<le> real n" and "real n < 2 powi (int (bit_length n))"
proof -
  from bit_length_ge [OF assms] have "(2::real) ^ bit_length n \<le> 2 * real n"
    by (metis of_nat_le_iff of_nat_mult of_nat_numeral of_nat_power)
  then show "2 powi (int (bit_length n) - 1) \<le> real n" by (simp add: power_int_diff)
  from bit_length_less [of n] have "real n < real (2 ^ bit_length n)" by (simp only: of_nat_less_iff)
  then show "real n < 2 powi (int (bit_length n))" by simp
qed

lemma quotient_bounds:
  assumes "0 < num" and "0 < den"
  shows "2 powi (int (bit_length num) - int (bit_length den) - 1) \<le> real num / real den"
    and "real num / real den < 2 powi (int (bit_length num) - int (bit_length den) + 1)"
proof -
  note n = bit_length_bounds [OF assms(1)] and d = bit_length_bounds [OF assms(2)]
  have "2 powi (int (bit_length num) - 1) / 2 powi int (bit_length den) \<le> real num / real den"
    using n d assms by (intro frac_le) auto
  then show "2 powi (int (bit_length num) - int (bit_length den) - 1) \<le> real num / real den"
    by (simp add: power_int_diff)
  have "real num / real den < 2 powi int (bit_length num) / 2 powi (int (bit_length den) - 1)"
    using n d assms by (intro frac_less) auto
  then show "real num / real den < 2 powi (int (bit_length num) - int (bit_length den) + 1)"
    by (simp add: power_int_diff power_int_add)
qed

lemma round_exp_bounds:
  assumes "0 < num" and "0 < den"
  shows "- 1074 \<le> round_exp num den" and "real num / real den < 2 ^ 53 * 2 powi round_exp num den"
    and "- 1074 < round_exp num den \<Longrightarrow> 2 ^ 52 * 2 powi round_exp num den \<le> real num / real den"
proof -
  define e1 where "e1 = int (bit_length num) - int (bit_length den) - 53"
  define e where "e = (if 2 ^ 53 * den * 2 ^ nat e1 \<le> num * 2 ^ nat (- e1) then e1 + 1 else e1)"
  have re: "round_exp num den = max (- 1074) e" by (simp add: round_exp_def e_def e1_def Let_def)
  then show "- 1074 \<le> round_exp num den" by simp
  note q = quotient_bounds [OF assms]
  have up: "(2::real) ^ 53 * 2 powi (e1 + 1) = 2 powi (int (bit_length num) - int (bit_length den) + 1)"
    by (simp add: e1_def power_int_add power_int_diff)
  have down: "(2::real) ^ 52 * 2 powi e1 = 2 powi (int (bit_length num) - int (bit_length den) - 1)"
    by (simp add: e1_def power_int_add power_int_diff)
  have l: "real num / real den < 2 ^ 53 * 2 powi e"
  proof (cases "2 ^ 53 * den * 2 ^ nat e1 \<le> num * 2 ^ nat (- e1)")
    case True
    then show ?thesis using q(2) up by (simp add: e_def)
  next
    case False
    then show ?thesis using scaled_less [OF assms(2), of 53 e1 num] by (simp add: e_def not_le)
  qed
  also have "\<dots> \<le> 2 ^ 53 * 2 powi max (- 1074) e" by (simp add: power_int_increasing)
  finally show "real num / real den < 2 ^ 53 * 2 powi round_exp num den" by (simp add: re)
  have "2 ^ 52 * 2 powi e \<le> real num / real den"
  proof (cases "2 ^ 53 * den * 2 ^ nat e1 \<le> num * 2 ^ nat (- e1)")
    case True
    moreover have "(2::real) ^ 52 * 2 powi (e1 + 1) = 2 ^ 53 * 2 powi e1" by (simp add: power_int_add)
    ultimately show ?thesis using scaled_less [OF assms(2), of 53 e1 num] by (simp add: e_def)
  next
    case False
    then show ?thesis using q(1) down by (simp add: e_def)
  qed
  then show "2 ^ 52 * 2 powi round_exp num den \<le> real num / real den" if "- 1074 < round_exp num den" using that by (simp add: re)
qed

lemma round_even_le: "0 < den \<Longrightarrow> num \<le> k * den \<Longrightarrow> round_even num den \<le> k"
proof -
  assume a: "0 < den" "num \<le> k * den"
  show ?thesis
  proof (cases "num mod den = 0")
    case True
    then have "num div den * den = num" by (metis add.right_neutral div_mult_mod_eq)
    with a have "num div den \<le> k" by (metis mult_le_cancel2)
    then show ?thesis using True a(1) by (simp add: round_even_def Let_def)
  next
    case False
    have "num div den < k"
    proof (rule ccontr)
      assume "\<not> num div den < k"
      then have "k * den \<le> num div den * den" by (intro mult_le_mono1) simp
      moreover have "num div den * den < num" using False by (metis div_mult_mod_eq less_add_same_cancel1 not_gr0)
      ultimately show False using a(2) by linarith
    qed
    then show ?thesis by (auto simp: round_even_def Let_def)
  qed
qed

definition float_ok :: "float64 \<Rightarrow> bool" where
  "float_ok x \<longleftrightarrow> (case x of Fin s m e \<Rightarrow> m < 2 ^ 53 \<and> - 1074 \<le> e | _ \<Rightarrow> True)"

lemma round_quot_le:
  assumes "0 < num" and "0 < den"
  shows "round_quot num den \<le> 2 ^ 53"
  unfolding round_quot_def
proof (rule round_even_le)
  let ?e = "round_exp num den"
  show "0 < den * 2 ^ nat ?e" using assms by simp
  have "real num / real den / 2 powi ?e < 2 ^ 53"
    using round_exp_bounds(2) [OF assms] by (simp only: pos_divide_less_eq [OF zero_less_power_int [OF zero_less_numeral]])
  then have "real (num * 2 ^ nat (- ?e)) / real (den * 2 ^ nat ?e) < 2 ^ 53" by (simp only: scaled_quot [OF assms(2)])
  then have "real (num * 2 ^ nat (- ?e)) < real (2 ^ 53 * (den * 2 ^ nat ?e))" using assms(2) by (simp add: divide_less_eq)
  then show "num * 2 ^ nat (- ?e) \<le> 2 ^ 53 * (den * 2 ^ nat ?e)" by (simp only: of_nat_less_iff less_imp_le)
qed

lemma round_float_ok: "0 < den \<Longrightarrow> float_ok (round_float neg num den)"
proof (cases "num = 0")
  case True
  then show ?thesis by (simp add: round_float_def float_ok_def)
next
  case False
  assume d: "0 < den"
  from False have n: "0 < num" by simp
  show ?thesis using round_quot_le [OF n d] round_exp_bounds(1) [OF n d]
    unfolding round_float_parts [OF False] by (auto simp: float_ok_def split: if_splits)
qed

lemma round_float_ge:
  assumes "0 < num" and "0 < den" and "m < 2 ^ 53" and "- 1074 \<le> e" and "fval s m e \<le> real num / real den"
  shows "\<not> float_less (round_float False num den) (Fin s m e)"
proof -
  let ?e = "round_exp num den" let ?q = "round_quot num den"
  have num: "num \<noteq> 0" using assms(1) by simp
  note b = round_exp_bounds [OF assms(1,2)]
  have lower: "fval s m e \<le> real ?q * 2 powi ?e"
  proof (cases "s \<or> e < ?e")
    case True
    show ?thesis
    proof (cases s)
      case True
      then have "fval s m e \<le> 0" by (simp add: fval_def mult_nonneg_nonneg)
      also have "\<dots> \<le> real ?q * 2 powi ?e" by simp
      finally show ?thesis .
    next
      case False
      with True have e: "e < ?e" by simp
      with assms(4) b(3) have "2 ^ 52 * 2 powi ?e \<le> real num / real den" by simp
      then have "real (2 ^ 52) \<le> real (num * 2 ^ nat (- ?e)) / real (den * 2 ^ nat ?e)"
        unfolding scaled_quot [OF assms(2)] pos_le_divide_eq [OF zero_less_power_int [OF zero_less_numeral]] by simp
      with assms(2) have "2 ^ 52 \<le> ?q" unfolding round_quot_def by (intro round_even_real) simp_all
      then have "real (2 ^ 52) * 2 powi ?e \<le> real ?q * 2 powi ?e" by (intro mult_right_mono) (simp_all only: of_nat_le_iff, simp)
      moreover have "real (2 ^ 52) * 2 powi (e + 1) \<le> real (2 ^ 52) * 2 powi ?e" using e by (intro mult_left_mono power_int_increasing) simp_all
      moreover have "real (2 ^ 52) * 2 powi (e + 1) = real (2 ^ 53) * 2 powi e" by (simp add: power_int_add)
      moreover have "real m * 2 powi e \<le> real (2 ^ 53) * 2 powi e" using assms(3) by (intro mult_right_mono) (simp_all only: of_nat_le_iff, simp_all)
      moreover have "fval s m e = real m * 2 powi e" using False by (simp add: fval_def)
      ultimately show ?thesis by linarith
    qed
  next
    case False
    then have e: "?e \<le> e" and s: "\<not> s" by simp_all
    have p: "real (m * 2 ^ nat (e - ?e)) * 2 powi ?e = real m * 2 powi e"
      using fin_value_fval [OF e, of False m] by (simp add: fin_value_def fval_def)
    with assms(5) s have "real (m * 2 ^ nat (e - ?e)) \<le> real num / real den / 2 powi ?e"
      by (simp only: pos_le_divide_eq [OF zero_less_power_int [OF zero_less_numeral]]) (simp add: fval_def)
    then have "real (m * 2 ^ nat (e - ?e)) \<le> real (num * 2 ^ nat (- ?e)) / real (den * 2 ^ nat ?e)"
      by (simp only: scaled_quot [OF assms(2)])
    with assms(2) have "m * 2 ^ nat (e - ?e) \<le> ?q" unfolding round_quot_def by (intro round_even_real) simp_all
    then have "real (m * 2 ^ nat (e - ?e)) * 2 powi ?e \<le> real ?q * 2 powi ?e" by (intro mult_right_mono) (simp_all only: of_nat_le_iff, simp)
    moreover have "fval s m e = real (m * 2 ^ nat (e - ?e)) * 2 powi ?e" using p s by (simp only: fval_def if_False mult_1)
    ultimately show ?thesis by (simp only:)
  qed
  have same: "real (2 ^ 52) * 2 powi (?e + 1) = real (2 ^ 53) * 2 powi ?e" by (simp add: power_int_add)
  show ?thesis
  proof (cases "?q = 2 ^ 53")
    case True
    with lower same show ?thesis
      unfolding round_float_parts [OF num] by (simp add: float_less_fval) (simp add: fval_def)
  next
    case False
    with lower show ?thesis
      unfolding round_float_parts [OF num] by (simp add: float_less_fval) (simp add: fval_def)
  qed
qed

lemma float_zero_rank: "franks float_zero = (0, 0)"
  by (simp add: franks_def float_zero_def)

lemma float_nonneg_Fin: "float_nonneg (Fin s m e) \<longleftrightarrow> 0 \<le> fval s m e"
  by (simp add: float_nonneg_def float_zero_def float_less_fval not_less)

lemma float_nonneg_zero: "float_nonneg float_zero"
  by (simp add: float_nonneg_Fin float_zero_def)

lemma float_add_ok:
  assumes "float_ok x" and "float_ok y"
  shows "float_ok (float_add x y)"
proof -
  have "float_ok (Fin s 0 (- 1074))" "float_ok (Inf s)" "float_ok NaN" for s by (simp_all add: float_ok_def)
  with assms show ?thesis by (cases "(x, y)" rule: float_add.cases) (simp_all add: Let_def round_float_ok)
qed

lemma float_ok_zero [simp]: "float_ok float_zero"
  by (simp add: float_zero_def float_ok_def)

lemma float_less_iff: "float_less x y \<longleftrightarrow> x \<noteq> NaN \<and> y \<noteq> NaN \<and> flt (franks x) (franks y)"
  by (cases "x = NaN \<or> y = NaN") (auto simp: float_less_rank)

lemma float_eq_iff: "float_eq x y \<longleftrightarrow> x \<noteq> NaN \<and> y \<noteq> NaN \<and> franks x = franks y"
  by (cases "x = NaN \<or> y = NaN") (auto simp: float_eq_rank, simp_all add: float_eq_def split: float64.splits)

lemma float_less_trans: "float_less x y \<Longrightarrow> float_less y z \<Longrightarrow> float_less x z"
  unfolding float_less_iff using flt_order(2) by blast

lemma float_less_irrefl [simp]: "\<not> float_less x x"
  unfolding float_less_iff using flt_order(1) by blast

text \<open>What a number exceeds, every number that is not smaller exceeds too.\<close>

lemma float_less_up: "float_less b x \<Longrightarrow> y \<noteq> NaN \<Longrightarrow> \<not> float_less y x \<Longrightarrow> float_less b y"
  unfolding float_less_iff using flt_order(2,3) by metis

lemma float_add_ge:
  assumes "float_ok x" and "float_nonneg x" and "float_nonneg y"
  shows "float_nonneg (float_add x y)" and "\<not> float_less (float_add x y) x"
proof -
  have "float_nonneg (float_add x y) \<and> \<not> float_less (float_add x y) x"
  proof (cases "\<exists>s m e s' m' e'. x = Fin s m e \<and> y = Fin s' m' e'")
    case True
    then obtain s m e s' m' e' where x: "x = Fin s m e" and y: "y = Fin s' m' e'" by blast
    define k where "k = min e e'"
    define v where "v = fin_value s m e k + fin_value s' m' e' k"
    have sum: "real_of_int v * 2 powi k = fval s m e + fval s' m' e'"
      using fin_value_fval [of k e s m] fin_value_fval [of k e' s' m'] by (simp add: v_def k_def distrib_right)
    have p: "0 \<le> fval s m e" "0 \<le> fval s' m' e'" using assms x y by (simp_all add: float_nonneg_Fin)
    have zero: "fval t 0 i = 0" for t i by (simp add: fval_def)
    show ?thesis
    proof (cases "v = 0")
      case True
      with sum p have "fval s m e = 0" by simp
      then show ?thesis using True by (simp add: x y Let_def float_nonneg_Fin float_less_fval zero flip: k_def v_def)
    next
      case False
      have "0 \<le> real_of_int v" using sum p by (metis add_nonneg_nonneg mult_less_0_iff not_le zero_less_numeral zero_less_power_int)
      with False have v: "0 < v" by simp
      define num where "num = nat \<bar>v\<bar> * 2 ^ nat k"
      define den where "den = (2::nat) ^ nat (- k)"
      have pos: "0 < num" "0 < den" using v by (simp_all add: num_def den_def)
      have "real num / real den = real_of_int v * 2 powi k" using v by (cases "0 \<le> k") (simp_all add: num_def den_def power_int_def field_simps)
      with sum p have ge: "fval s m e \<le> real num / real den" "fval False 0 (- 1074) \<le> real num / real den" by (simp_all add: zero)
      have ok: "m < 2 ^ 53" "- 1074 \<le> e" using assms(1) x by (simp_all add: float_ok_def)
      have "float_add x y = round_float False num den"
        using v by (simp add: x y Let_def num_def den_def flip: k_def v_def)
      moreover have "round_float False num den \<noteq> NaN"
        using pos round_float_parts [of num False den] by (auto split: if_splits)
      ultimately show ?thesis
        using round_float_ge [OF pos ok ge(1)] round_float_ge [OF pos _ _ ge(2)] by (simp add: x float_nonneg_def float_zero_def)
    qed
  next
    case False
    with assms show ?thesis by (cases x; cases y) (auto simp: float_nonneg_def float_zero_def)
  qed
  then show "float_nonneg (float_add x y)" and "\<not> float_less (float_add x y) x" by blast+
qed

end
