(* ===== verification/Teams.thy ===== *)
theory Teams
  imports Registry FloatSum
begin

text \<open>
  The package team (internal/team/types.go, store.go): which agents form a team for a template of roles. \<open>Select\<close> reads the candidates
  from the agent registry, searches the best assignment within a budget and appends the result as a new version of the team's lockfile.
  The state is one JSON file, a \<open>file_store\<close>. The scores and costs are float64 numbers. The registry is
  read once for each candidate; what it holds at the \<open>k\<close>-th reading, and the context's error then, are the function \<open>look\<close>.
\<close>

section \<open>Data\<close>

definition tsSchema :: int where
  "tsSchema = 1"

record RoleRequirement =
  rqRole :: string
  rqRequiredSkills :: "string list"
  rqPreferredSkills :: "string list"
  rqRequiredTools :: "string list"
  rqRequiredPermissions :: "string list"

record TeamTemplate =
  ttID :: string
  ttName :: string
  ttRoles :: "RoleRequirement list"

record MemberLock =
  mlRole :: string
  mlAgentID :: string
  mlAgentRevisionID :: string
  mlRelationshipRevisionID :: string
  mlModel :: string
  mlEstimatedCost :: float64
  mlSelectionScore :: float64

record Lockfile =
  lfSchemaVersion :: int
  lfTeamID :: string
  lfVersion :: int
  lfWorkspaceID :: string
  lfObjective :: string
  lfTemplate :: TeamTemplate
  lfMembers :: "MemberLock list"
  lfTotalCost :: float64
  lfEvidence :: "string list"
  lfCreatedBy :: string
  lfCreatedAt :: time

record Team =
  teID :: string
  teWorkspaceID :: string
  teCurrentVersion :: int
  teLockfiles :: "Lockfile list"
  teCreatedAt :: time
  teUpdatedAt :: time

record TeamOperation =
  toID :: string
  toFingerprint :: string
  toTeamID :: string
  toVersion :: int
  toRevision :: int
  toCreatedAt :: time

record TeamState =
  tsSchemaVersion :: int
  tsRevision :: int
  tsTeams :: "Team gomap"
  tsOperations :: "TeamOperation list"
  tsUpdatedAt :: time

record SelectInput =
  slcOperationID :: string
  slcTeamID :: string
  slcWorkspaceID :: string
  slcExpectedVersion :: int
  slcObjective :: string
  slcTemplate :: TeamTemplate
  slcCandidates :: "string list"
  slcDelivery :: "float64 gomap"
  slcModelCosts :: "float64 gomap"
  slcBudget :: float64
  slcCreatedBy :: string

type_synonym teamDir = "TeamState dir"

definition teErrConflict :: go_error where
  "teErrConflict = Sentinel ''team lockfile revision conflict''"

definition ErrNoSelection :: go_error where
  "ErrNoSelection = Sentinel ''no candidate team satisfies capabilities and budget''"

section \<open>Input\<close>

definition teamStrings :: "string list \<Rightarrow> string list" where
  "teamStrings items = sort_by (<) (remdups (normalizeStrings items))"

definition normalizeRole :: "RoleRequirement \<Rightarrow> RoleRequirement" where
  "normalizeRole r = \<lparr>rqRole = TrimSpace (rqRole r), rqRequiredSkills = teamStrings (rqRequiredSkills r),
     rqPreferredSkills = teamStrings (rqPreferredSkills r), rqRequiredTools = teamStrings (rqRequiredTools r),
     rqRequiredPermissions = teamStrings (rqRequiredPermissions r)\<rparr>"

definition normalizeSelect :: "SelectInput \<Rightarrow> SelectInput" where
  "normalizeSelect i = i\<lparr>slcOperationID := TrimSpace (slcOperationID i), slcTeamID := TrimSpace (slcTeamID i),
     slcWorkspaceID := TrimSpace (slcWorkspaceID i), slcObjective := TrimSpace (slcObjective i), slcCreatedBy := TrimSpace (slcCreatedBy i),
     slcTemplate := \<lparr>ttID = TrimSpace (ttID (slcTemplate i)), ttName = TrimSpace (ttName (slcTemplate i)),
       ttRoles = map normalizeRole (ttRoles (slcTemplate i))\<rparr>,
     slcCandidates := teamStrings (slcCandidates i)\<rparr>"

definition validateSelect :: "SelectInput \<Rightarrow> go_error option" where
  "validateSelect i =
     (let t = slcTemplate i in
      if \<not> safeID (slcOperationID i) \<or> \<not> safeID (slcTeamID i) \<or> \<not> safeID (slcWorkspaceID i) \<or> \<not> safeID (slcCreatedBy i)
         \<or> slcExpectedVersion i < 0 \<or> slcObjective i = [] \<or> \<not> safeID (ttID t) \<or> ttName t = [] \<or> ttRoles t = [] \<or> slcCandidates i = []
         \<or> float_less (slcBudget i) float_zero
      then Some (Errorf ''valid selection identity, template, candidates, and budget are required'')
      else if \<not> scan_unique (\<lambda>r. rqRole r \<noteq> []) rqRole [] (ttRoles t)
      then Some (Errorf ''template roles must be unique and non-empty'') else None)"

text \<open>The JSON text of the input; a number that is not finite cannot be encoded, and the caller goes on with the empty fingerprint.\<close>

definition role_json :: "RoleRequirement \<Rightarrow> json" where
  "role_json r = JObj ([(''role'', JStr (rqRole r))] @ jomit_strs ''required_skills'' (rqRequiredSkills r)
     @ jomit_strs ''preferred_skills'' (rqPreferredSkills r) @ jomit_strs ''required_tools'' (rqRequiredTools r)
     @ jomit_strs ''required_permissions'' (rqRequiredPermissions r))"

definition team_template_json :: "TeamTemplate \<Rightarrow> json" where
  "team_template_json t = JObj [(''id'', JStr (ttID t)), (''name'', JStr (ttName t)), (''roles'', JArr (map role_json (ttRoles t)))]"

fun floats_json :: "float64 gomap \<Rightarrow> (string \<times> json) list option" where
  "floats_json [] = Some []"
| "floats_json ((k, x) # xs) = (case (json_float x, floats_json xs) of (Some j, Some js) \<Rightarrow> Some ((k, j) # js) | _ \<Rightarrow> None)"

definition select_json :: "SelectInput \<Rightarrow> json option" where
  "select_json i =
     (case (floats_json (sort_key fst (slcDelivery i)), floats_json (sort_key fst (slcModelCosts i)), json_float (slcBudget i)) of
        (Some ds, Some cs, Some b) \<Rightarrow> Some (JObj ([(''operation_id'', JStr (slcOperationID i)), (''team_id'', JStr (slcTeamID i)),
            (''workspace_id'', JStr (slcWorkspaceID i)), (''expected_team_version'', JInt (slcExpectedVersion i)),
            (''objective'', JStr (slcObjective i)), (''template'', team_template_json (slcTemplate i)),
            (''candidate_agent_ids'', jstrs (slcCandidates i))]
           @ (if ds = [] then [] else [(''delivery_scores'', JObj ds)])
           @ [(''model_costs_usd'', JObj cs), (''budget_usd'', b), (''created_by'', JStr (slcCreatedBy i))]))
      | _ \<Rightarrow> None)"

definition selectFingerprint :: "SelectInput \<Rightarrow> string" where
  "selectFingerprint i = (case select_json i of None \<Rightarrow> [] | Some j \<Rightarrow> sha256_hex (json_text j))"

section \<open>The search\<close>

record candidate =
  caAgent :: Agent
  caRevision :: AgentRevision
  caCost :: float64
  caDelivery :: float64

definition containsAll :: "string list \<Rightarrow> string list \<Rightarrow> bool" where
  "containsAll vals required \<longleftrightarrow> list_all (\<lambda>x. x \<in> set vals) required"

definition matches :: "string list \<Rightarrow> string list \<Rightarrow> nat" where
  "matches left right = length (filter (\<lambda>x. x \<in> set right) left)"

definition qualifies :: "RoleRequirement \<Rightarrow> AgentRevision \<Rightarrow> bool" where
  "qualifies r v \<longleftrightarrow> containsAll (avSkills v) (rqRequiredSkills r) \<and> containsAll (avTools v) (rqRequiredTools r)
     \<and> containsAll (avPermissions v) (rqRequiredPermissions r)"

definition memberScore :: "RoleRequirement \<Rightarrow> candidate \<Rightarrow> float64" where
  "memberScore r c = float_add (caDelivery c) (float_of_int (int (matches (rqPreferredSkills r) (avSkills (caRevision c)))))"

definition memberLock :: "RoleRequirement \<Rightarrow> candidate \<Rightarrow> MemberLock" where
  "memberLock r c = \<lparr>mlRole = rqRole r, mlAgentID = agID (caAgent c), mlAgentRevisionID = agCurrentRevisionID (caAgent c),
     mlRelationshipRevisionID = agCurrentRelationship (caAgent c), mlModel = avModel (caRevision c), mlEstimatedCost = caCost c,
     mlSelectionScore = memberScore r c\<rparr>"

text \<open>The best team so far: its members, score, cost and key.\<close>

record bestTeam =
  btMembers :: "MemberLock list"
  btScore :: float64
  btCost :: float64
  btKey :: string

definition noTeam :: bestTeam where
  "noTeam = \<lparr>btMembers = [], btScore = float_of_int (- 1), btCost = float_zero, btKey = []\<rparr>"

definition team_key :: "MemberLock list \<Rightarrow> string" where
  "team_key ms = join ''|'' (map mlAgentID ms)"

definition improve :: "MemberLock list \<Rightarrow> float64 \<Rightarrow> float64 \<Rightarrow> bestTeam \<Rightarrow> bestTeam" where
  "improve ms score cost b =
     (let key = team_key ms in
      if float_less (btScore b) score
         \<or> (float_eq score (btScore b) \<and> (btMembers b = [] \<or> float_less cost (btCost b) \<or> (float_eq cost (btCost b) \<and> key < btKey b)))
      then \<lparr>btMembers = ms, btScore = score, btCost = cost, btKey = key\<rparr> else b)"

fun search :: "candidate list \<Rightarrow> float64 \<Rightarrow> RoleRequirement list \<Rightarrow> MemberLock list \<Rightarrow> string list \<Rightarrow> float64 \<Rightarrow> float64 \<Rightarrow> bestTeam \<Rightarrow> bestTeam" where
  "search cs budget [] ms used score cost b = (if float_less budget cost then b else improve ms score cost b)"
| "search cs budget (r # rs) ms used score cost b =
     (if float_less budget cost then b else
      foldl (\<lambda>b c. if agID (caAgent c) \<in> set used \<or> \<not> qualifies r (caRevision c) then b
               else search cs budget rs (ms @ [memberLock r c]) (agID (caAgent c) # used) (float_add score (memberScore r c))
                      (float_add cost (caCost c)) b) b cs)"

definition chooseTeam :: "RoleRequirement list \<Rightarrow> candidate list \<Rightarrow> float64 \<Rightarrow> bestTeam option" where
  "chooseTeam roles cs budget =
     (let b = search cs budget roles [] [] float_zero float_zero noTeam in
      if length (btMembers b) = length roles then Some b else None)"

section \<open>The file\<close>

definition lockfile_ok :: "string \<Rightarrow> string \<Rightarrow> nat \<times> Lockfile \<Rightarrow> bool" where
  "lockfile_ok i ws p = (case p of (n, l) \<Rightarrow>
     lfSchemaVersion l = tsSchema \<and> lfTeamID l = i \<and> lfVersion l = int n + 1 \<and> lfWorkspaceID l = ws
     \<and> length (lfMembers l) = length (ttRoles (lfTemplate l)) \<and> safeID (lfCreatedBy l) \<and> lfCreatedAt l \<noteq> 0)"

definition team_ok :: "string \<times> Team \<Rightarrow> go_error option" where
  "team_ok p = (case p of (i, t) \<Rightarrow>
     if i \<noteq> teID t \<or> \<not> safeID i \<or> \<not> safeID (teWorkspaceID t) \<or> teCurrentVersion t \<noteq> int (length (teLockfiles t))
        \<or> teCreatedAt t = 0 \<or> teUpdatedAt t = 0
     then Some (Errorf ''invalid canonical team'')
     else if \<not> list_all (lockfile_ok i (teWorkspaceID t)) (enumerate 0 (teLockfiles t))
     then Some (Errorf ''invalid team lockfile'') else None)"

definition tmop_ok :: "TeamOperation \<Rightarrow> bool" where
  "tmop_ok x \<longleftrightarrow> safeID (toID x) \<and> safeDigest (toFingerprint x) \<and> toVersion x > 0 \<and> toCreatedAt x \<noteq> 0"

definition validateTeamState :: "TeamState \<Rightarrow> go_error option" where
  "validateTeamState st =
     (if tsSchemaVersion st \<noteq> tsSchema \<or> tsRevision st < 0 then Some (Errorf ''invalid canonical team state'') else
      case first_error team_ok (tsTeams st) of Some err \<Rightarrow> Some err | None \<Rightarrow>
      if \<not> ledger_ok tmop_ok toID toRevision (tsOperations st) then Some (Errorf ''invalid team operation ledger'')
      else if int (length (tsOperations st)) \<noteq> tsRevision st
      then Some (Errorf ''team operation ledger does not reach revision'') else None)"

definition teamStore :: "TeamState file_store" where
  "teamStore = \<lparr>fsPath = ''teams-v1.json'', fsValid = validateTeamState, fsSame = (\<lambda>x y. tsRevision x = tsRevision y),
     fsMismatch = ''team lockfile read-back verification failed''\<rparr>"

definition emptyTeams :: "time \<Rightarrow> TeamState" where
  "emptyTeams n = \<lparr>tsSchemaVersion = tsSchema, tsRevision = 0, tsTeams = [], tsOperations = [], tsUpdatedAt = n\<rparr>"

definition NewTeams :: "env \<Rightarrow> teamDir \<Rightarrow> go_error option \<times> teamDir" where
  "NewTeams e d = openFile teamStore (wio e) (emptyTeams (now e)) d"

section \<open>Operations\<close>

text \<open>A candidate of another workspace, or whose model has no cost, is passed over.\<close>

fun loadCandidates :: "(nat \<Rightarrow> env \<times> agentDir) \<Rightarrow> nat \<Rightarrow> SelectInput \<Rightarrow> string list \<Rightarrow> go_error + candidate list" where
  "loadCandidates look k i [] = Inr []"
| "loadCandidates look k i (x # xs) =
     (case GetAgent (fst (look k)) x (snd (look k)) of Inl err \<Rightarrow> Inl (Wrap (''load candidate '' @ x) err) | Inr a \<Rightarrow>
      if agWorkspaceID a \<noteq> slcWorkspaceID i then loadCandidates look (Suc k) i xs else
      (case findAgentRevision a (agCurrentRevisionID a) of None \<Rightarrow> Inl (Errorf ''candidate current revision is missing'') | Some v \<Rightarrow>
       (case mget (slcModelCosts i) (avModel v) of None \<Rightarrow> loadCandidates look (Suc k) i xs | Some cost \<Rightarrow>
        if float_less cost float_zero then loadCandidates look (Suc k) i xs else
        (case loadCandidates look (Suc k) i xs of Inl err \<Rightarrow> Inl err | Inr cs \<Rightarrow>
         Inr (\<lparr>caAgent = a, caRevision = v, caCost = cost,
               caDelivery = (case mget (slcDelivery i) x of Some s \<Rightarrow> s | None \<Rightarrow> float_zero)\<rparr> # cs)))))"

definition evidence :: "bestTeam \<Rightarrow> float64 \<Rightarrow> string list" where
  "evidence b budget =
     (''selected '' @ dec_nat (length (btMembers b)) @ '' roles with score '' @ fixed_text 3 (btScore b) @ '' within '' @ fixed_text 4 budget @ '' USD budget'') #
     map (\<lambda>m. mlRole m @ ''='' @ mlAgentID m @ '' agent_revision='' @ mlAgentRevisionID m @ '' relationship_revision='' @ mlRelationshipRevisionID m) (btMembers b)"

definition newLockfile :: "SelectInput \<Rightarrow> bestTeam \<Rightarrow> time \<Rightarrow> Lockfile" where
  "newLockfile i b n = \<lparr>lfSchemaVersion = tsSchema, lfTeamID = slcTeamID i, lfVersion = slcExpectedVersion i + 1, lfWorkspaceID = slcWorkspaceID i,
     lfObjective = slcObjective i, lfTemplate = slcTemplate i, lfMembers = btMembers b, lfTotalCost = btCost b,
     lfEvidence = evidence b (slcBudget i), lfCreatedBy = slcCreatedBy i, lfCreatedAt = n\<rparr>"

definition addLockfile :: "SelectInput \<Rightarrow> string \<Rightarrow> Lockfile \<Rightarrow> time \<Rightarrow> TeamState \<Rightarrow> TeamState" where
  "addLockfile i fp l n st =
     (let current = (case mget (tsTeams st) (slcTeamID i) of Some t \<Rightarrow> t
        | None \<Rightarrow> \<lparr>teID = slcTeamID i, teWorkspaceID = slcWorkspaceID i, teCurrentVersion = 0, teLockfiles = [], teCreatedAt = n, teUpdatedAt = 0\<rparr>);
          t = current\<lparr>teCurrentVersion := lfVersion l, teUpdatedAt := n, teLockfiles := teLockfiles current @ [l]\<rparr> in
      st\<lparr>tsTeams := mput (teID t) t (tsTeams st), tsRevision := tsRevision st + 1, tsUpdatedAt := n,
        tsOperations := tsOperations st @ [\<lparr>toID = slcOperationID i, toFingerprint = fp, toTeamID = teID t, toVersion = lfVersion l,
          toRevision = tsRevision st + 1, toCreatedAt = n\<rparr>]\<rparr>)"

text \<open>A score that is not finite makes the encoder fail when the state is written; an empty fingerprint fails its validation before that.
  A result is \<open>None\<close> when the code panics: an index past the lockfiles of a team.\<close>

type_synonym selectResult = "(go_error + Lockfile) option"

definition encodable :: "Lockfile \<Rightarrow> bool" where
  "encodable l \<longleftrightarrow> json_float (lfTotalCost l) \<noteq> None \<and>
     list_all (\<lambda>m. json_float (mlEstimatedCost m) \<noteq> None \<and> json_float (mlSelectionScore m) \<noteq> None) (lfMembers l)"

definition selectChange :: "(nat \<Rightarrow> env \<times> agentDir) \<Rightarrow> time \<Rightarrow> SelectInput \<Rightarrow> string \<Rightarrow> TeamState \<Rightarrow> go_error + TeamState \<times> selectResult" where
  "selectChange look n i fp st =
     (if (case mget (tsTeams st) (slcTeamID i) of None \<Rightarrow> slcExpectedVersion i \<noteq> 0
          | Some t \<Rightarrow> teCurrentVersion t \<noteq> slcExpectedVersion i \<or> teWorkspaceID t \<noteq> slcWorkspaceID i)
      then Inl teErrConflict else
      (case loadCandidates look 0 i (slcCandidates i) of Inl err \<Rightarrow> Inl err | Inr cs \<Rightarrow>
       (case chooseTeam (ttRoles (slcTemplate i)) cs (slcBudget i) of None \<Rightarrow> Inl ErrNoSelection | Some b \<Rightarrow>
        let l = newLockfile i b n in
        if fp \<noteq> [] \<and> \<not> encodable l then Inl IOError else Inr (addLockfile i fp l n st, Some (Inr l)))))"

definition lockfileAt :: "TeamState \<Rightarrow> string \<Rightarrow> int \<Rightarrow> Lockfile option" where
  "lockfileAt st i v = (case mget (tsTeams st) i of None \<Rightarrow> None | Some t \<Rightarrow>
     if 1 \<le> v \<and> v \<le> int (length (teLockfiles t)) then Some (teLockfiles t ! nat (v - 1)) else None)"

definition SelectTeam :: "(nat \<Rightarrow> env \<times> agentDir) \<Rightarrow> env \<Rightarrow> SelectInput \<Rightarrow> teamDir \<Rightarrow> selectResult \<times> teamDir" where
  "SelectTeam look e i0 d =
     (case cerr e of Some err \<Rightarrow> (Some (Inl err), d) | None \<Rightarrow>
      let i = normalizeSelect i0 in
      case validateSelect i of Some err \<Rightarrow> (Some (Inl err), d) | None \<Rightarrow>
      let fp = selectFingerprint i in
      operate teamStore (wio e) (\<lambda>err. Some (Inl err)) (\<lambda>st. find_op toID (slcOperationID i) (tsOperations st))
        (\<lambda>st x. if toFingerprint x \<noteq> fp then Some (Inl teErrConflict) else map_option Inr (lockfileAt st (toTeamID x) (toVersion x)))
        (selectChange look (now e) i fp) d)"

definition GetLockfile :: "env \<Rightarrow> string \<Rightarrow> int \<Rightarrow> teamDir \<Rightarrow> go_error + Lockfile" where
  "GetLockfile e i version d =
     (case cerr e of Some err \<Rightarrow> Inl err | None \<Rightarrow>
      (case readFile teamStore d of Inl err \<Rightarrow> Inl err | Inr st \<Rightarrow>
       (case mget (tsTeams st) (TrimSpace i) of None \<Rightarrow> Inl os_ErrNotExist | Some t \<Rightarrow>
        (case lockfileAt st (TrimSpace i) (if version = 0 then teCurrentVersion t else version) of
           None \<Rightarrow> Inl os_ErrNotExist | Some l \<Rightarrow> Inr l))))"

end
