(* ===== verification/TeamProps.thy ===== *)
theory TeamProps
  imports Teams RegistryProps
begin

text \<open>
  Properties of the team store: the search with pruning finds a best team of all teams within the budget, and a
  lockfile, once selected, is what every retry and every read of its version gives.
\<close>

section \<open>The teams\<close>

text \<open>A team gives each role, in the order of the template, a candidate that qualifies for it, no agent twice.\<close>

definition is_team :: "RoleRequirement list \<Rightarrow> candidate list \<Rightarrow> candidate list \<Rightarrow> bool" where
  "is_team rs cs xs \<longleftrightarrow> list_all2 (\<lambda>r c. qualifies r (caRevision c)) rs xs \<and> set xs \<subseteq> set cs \<and> distinct (map (agID \<circ> caAgent) xs)"

definition membersOf :: "RoleRequirement list \<Rightarrow> candidate list \<Rightarrow> MemberLock list" where
  "membersOf rs xs = map2 memberLock rs xs"

definition scoreOf :: "RoleRequirement list \<Rightarrow> candidate list \<Rightarrow> float64" where
  "scoreOf rs xs = foldl float_add float_zero (map2 memberScore rs xs)"

definition costOf :: "candidate list \<Rightarrow> float64" where
  "costOf xs = foldl float_add float_zero (map caCost xs)"

text \<open>The higher score is better, at equal scores the lower cost, at equal costs the smaller key.\<close>

definition better_team :: "RoleRequirement list \<Rightarrow> candidate list \<Rightarrow> candidate list \<Rightarrow> bool" where
  "better_team rs xs ys \<longleftrightarrow> float_less (scoreOf rs ys) (scoreOf rs xs) \<or>
     (float_eq (scoreOf rs xs) (scoreOf rs ys) \<and> (float_less (costOf xs) (costOf ys) \<or>
       (float_eq (costOf xs) (costOf ys) \<and> team_key (membersOf rs xs) < team_key (membersOf rs ys))))"

section \<open>The leaves of the search\<close>

fun teams :: "candidate list \<Rightarrow> RoleRequirement list \<Rightarrow> string list \<Rightarrow> candidate list list" where
  "teams cs [] used = [[]]"
| "teams cs (r # rs) used = concat (map (\<lambda>c. if agID (caAgent c) \<in> set used \<or> \<not> qualifies r (caRevision c) then []
       else map ((#) c) (teams cs rs (agID (caAgent c) # used))) cs)"

lemma teams_iff:
  "xs \<in> set (teams cs rs used) \<longleftrightarrow> is_team rs cs xs \<and> set (map (agID \<circ> caAgent) xs) \<inter> set used = {}"
proof (induction rs arbitrary: used xs)
  case Nil
  then show ?case by (auto simp: is_team_def)
next
  case (Cons r rs)
  show ?case
  proof (cases xs)
    case Nil
    then show ?thesis by (auto simp: is_team_def)
  next
    case (Cons x ys)
    have "xs \<in> set (teams cs (r # rs) used) \<longleftrightarrow>
        x \<in> set cs \<and> agID (caAgent x) \<notin> set used \<and> qualifies r (caRevision x) \<and> ys \<in> set (teams cs rs (agID (caAgent x) # used))"
      by (auto simp: Cons split: if_splits)
    then show ?thesis unfolding Cons.IH by (auto simp: is_team_def Cons)
  qed
qed

text \<open>A leaf is a complete team with its score and cost; only the leaves within the budget count.\<close>

definition visit :: "float64 \<Rightarrow> RoleRequirement list \<Rightarrow> MemberLock list \<Rightarrow> float64 \<Rightarrow> float64 \<Rightarrow> bestTeam \<Rightarrow> candidate list \<Rightarrow> bestTeam" where
  "visit budget rs ms score cost b xs =
     (if float_less budget (foldl float_add cost (map caCost xs)) then b
      else improve (ms @ map2 memberLock rs xs) (foldl float_add score (map2 memberScore rs xs)) (foldl float_add cost (map caCost xs)) b)"

lemma foldl_concat_map: "foldl f b (concat (map g cs)) = foldl (\<lambda>b c. foldl f b (g c)) b cs"
  by (induction cs arbitrary: b) simp_all

lemma foldl_id: "(\<And>b x. x \<in> set xs \<Longrightarrow> f b x = b) \<Longrightarrow> foldl f b xs = b"
  by (induction xs arbitrary: b) simp_all

text \<open>A team costs at least what its first members cost, so nothing is lost by leaving out the teams that begin with members
  beyond the budget.\<close>

lemma cost_grows:
  assumes "float_ok cost" and "float_nonneg cost" and "\<forall>x\<in>set xs. float_nonneg (caCost x) \<and> float_ok (caCost x)"
    and "float_less budget cost"
  shows "float_less budget (foldl float_add cost (map caCost xs))"
  using assms
proof (induction xs arbitrary: cost)
  case (Cons x xs)
  from Cons.prems float_add_ge [of cost "caCost x"] have g: "float_nonneg (float_add cost (caCost x))"
    "\<not> float_less (float_add cost (caCost x)) cost" by simp_all
  then have "float_less budget (float_add cost (caCost x))"
    using float_less_up [OF Cons.prems(4)] by (simp add: float_nonneg_def)
  with Cons.IH [of "float_add cost (caCost x)"] Cons.prems g(1) show ?case by (simp add: float_add_ok)
qed simp

lemma search_leaves:
  assumes "\<forall>c\<in>set cs. float_nonneg (caCost c) \<and> float_ok (caCost c)"
  shows "float_ok cost \<Longrightarrow> float_nonneg cost \<Longrightarrow>
    search cs budget rs ms used score cost b = foldl (visit budget rs ms score cost) b (teams cs rs used)"
proof (induction rs arbitrary: ms used score cost b)
  case Nil
  then show ?case by (simp add: visit_def)
next
  case (Cons r rs)
  show ?case
  proof (cases "float_less budget cost")
    case True
    have "visit budget (r # rs) ms score cost b xs = b" if "xs \<in> set (teams cs (r # rs) used)" for b xs
    proof -
      from that have "set xs \<subseteq> set cs" by (simp only: teams_iff is_team_def)
      with assms cost_grows [OF Cons.prems _ True, of xs] show ?thesis by (auto simp: visit_def)
    qed
    then have "foldl (visit budget (r # rs) ms score cost) b (teams cs (r # rs) used) = b" by (rule foldl_id)
    with True show ?thesis by simp
  next
    case False
    have step: "search cs budget rs (ms @ [memberLock r c]) (agID (caAgent c) # used) (float_add score (memberScore r c)) (float_add cost (caCost c)) b
        = foldl (visit budget (r # rs) ms score cost) b (map ((#) c) (teams cs rs (agID (caAgent c) # used)))" if "c \<in> set cs" for c b
    proof -
      have "float_ok (float_add cost (caCost c))" "float_nonneg (float_add cost (caCost c))"
        using that assms Cons.prems by (auto intro: float_add_ok float_add_ge(1))
      moreover have "visit budget rs (ms @ [memberLock r c]) (float_add score (memberScore r c)) (float_add cost (caCost c)) b xs
          = visit budget (r # rs) ms score cost b (c # xs)" for b xs by (simp add: visit_def)
      ultimately show ?thesis by (simp add: Cons.IH foldl_map)
    qed
    have "search cs budget (r # rs) ms used score cost b =
        foldl (\<lambda>b c. foldl (visit budget (r # rs) ms score cost) b (if agID (caAgent c) \<in> set used \<or> \<not> qualifies r (caRevision c) then []
          else map ((#) c) (teams cs rs (agID (caAgent c) # used)))) b cs"
      using False step by (auto intro!: foldl_cong)
    then show ?thesis by (simp only: teams.simps foldl_concat_map)
  qed
qed

section \<open>The best of the leaves\<close>

definition within_budget :: "float64 \<Rightarrow> candidate list \<Rightarrow> bool" where
  "within_budget budget xs \<longleftrightarrow> \<not> float_less budget (costOf xs)"

definition found :: "RoleRequirement list \<Rightarrow> candidate list \<Rightarrow> bestTeam" where
  "found rs xs = \<lparr>btMembers = membersOf rs xs, btScore = scoreOf rs xs, btCost = costOf xs, btKey = team_key (membersOf rs xs)\<rparr>"

text \<open>A team of a lower score than -1 is never selected.\<close>

definition eligible :: "RoleRequirement list \<Rightarrow> candidate list \<Rightarrow> bool" where
  "eligible rs xs \<longleftrightarrow> float_less (float_of_int (- 1)) (scoreOf rs xs) \<or> float_eq (scoreOf rs xs) (float_of_int (- 1))"

lemma better_trans: "better_team rs xs ys \<Longrightarrow> better_team rs ys zs \<Longrightarrow> better_team rs xs zs"
  unfolding better_team_def float_less_iff float_eq_iff
  by (elim disjE conjE) (auto intro: flt_order(2) order.strict_trans)

lemma better_eligible: "better_team rs xs ys \<Longrightarrow> eligible rs ys \<Longrightarrow> eligible rs xs"
  by (auto simp: better_team_def eligible_def float_less_iff float_eq_iff intro: flt_order(2))

lemma better_irrefl: "\<not> better_team rs xs xs"
  by (simp add: better_team_def float_eq_iff)

lemma membersOf_empty: "list_all2 P rs xs \<Longrightarrow> rs \<noteq> [] \<Longrightarrow> membersOf rs xs \<noteq> []"
  by (cases rs; cases xs) (simp_all add: membersOf_def)

text \<open>What is kept while the leaves are visited: the best team so far is one of them, and none of them is better.\<close>

definition best_of :: "RoleRequirement list \<Rightarrow> candidate list set \<Rightarrow> bestTeam \<Rightarrow> bool" where
  "best_of rs seen b \<longleftrightarrow> (b = noTeam \<and> (\<forall>ys\<in>seen. \<not> eligible rs ys)) \<or>
     (\<exists>xs\<in>seen. b = found rs xs \<and> membersOf rs xs \<noteq> [] \<and> eligible rs xs \<and> (\<forall>ys\<in>seen. \<not> better_team rs ys xs))"

lemma improve_best:
  assumes "best_of rs seen b" and "list_all2 P rs xs" and "rs \<noteq> []"
  shows "best_of rs (insert xs seen) (improve (membersOf rs xs) (scoreOf rs xs) (costOf xs) b)"
proof -
  have ne: "membersOf rs xs \<noteq> []" using assms(2,3) by (rule membersOf_empty)
  let ?b = "improve (membersOf rs xs) (scoreOf rs xs) (costOf xs) b"
  from assms(1) consider (none) "b = noTeam" "\<forall>ys\<in>seen. \<not> eligible rs ys"
    | (some) zs where "zs \<in> seen" "b = found rs zs" "membersOf rs zs \<noteq> []" "eligible rs zs" "\<forall>ys\<in>seen. \<not> better_team rs ys zs"
    by (auto simp: best_of_def)
  then show ?thesis
  proof cases
    case none
    have e: "?b = (if eligible rs xs then found rs xs else noTeam)"
      by (simp add: none(1) improve_def noTeam_def eligible_def found_def Let_def)
    have "\<not> better_team rs ys xs" if "eligible rs xs" "ys \<in> insert xs seen" for ys
      using that none(2) better_eligible better_irrefl by blast
    with e none(2) ne show ?thesis by (auto simp: best_of_def)
  next
    case some
    have e: "?b = (if better_team rs xs zs then found rs xs else found rs zs)"
      by (simp only: some(2,3) better_team_def improve_def found_def Let_def bestTeam.select_convs simp_thms)
    show ?thesis
    proof (cases "better_team rs xs zs")
      case True
      have "\<not> better_team rs ys xs" if "ys \<in> insert xs seen" for ys
        using that some(5) better_trans [OF _ True] better_irrefl by blast
      moreover have "eligible rs xs" using better_eligible [OF True some(4)] .
      ultimately show ?thesis using e True ne by (auto simp: best_of_def)
    next
      case False
      with e some show ?thesis by (auto simp: best_of_def)
    qed
  qed
qed

lemma leaves_best:
  assumes "rs \<noteq> []"
  shows "best_of rs seen b \<Longrightarrow> \<forall>xs\<in>set xss. \<exists>P. list_all2 P rs xs \<Longrightarrow>
    best_of rs (seen \<union> {xs \<in> set xss. within_budget budget xs}) (foldl (visit budget rs [] float_zero float_zero) b xss)"
proof (induction xss arbitrary: seen b)
  case (Cons xs xss)
  obtain P where P: "list_all2 P rs xs" using Cons.prems(2) by auto
  have v: "visit budget rs [] float_zero float_zero b xs = (if within_budget budget xs then improve (membersOf rs xs) (scoreOf rs xs) (costOf xs) b else b)"
    by (simp add: visit_def within_budget_def costOf_def scoreOf_def membersOf_def)
  define seen' where "seen' = (if within_budget budget xs then insert xs seen else seen)"
  have "best_of rs seen' (visit budget rs [] float_zero float_zero b xs)"
    using improve_best [OF Cons.prems(1) P assms] Cons.prems(1) by (simp add: v seen'_def)
  from Cons.IH [OF this] Cons.prems(2)
  have "best_of rs (seen' \<union> {xs \<in> set xss. within_budget budget xs}) (foldl (visit budget rs [] float_zero float_zero) b (xs # xss))" by simp
  moreover have "seen' \<union> {xs \<in> set xss. within_budget budget xs} = seen \<union> {ys \<in> set (xs # xss). within_budget budget ys}"
    by (auto simp: seen'_def)
  ultimately show ?case by simp
qed simp

lemma noTeam_found: "membersOf rs xs \<noteq> [] \<Longrightarrow> found rs xs \<noteq> noTeam"
  by (simp add: found_def noTeam_def)

text \<open>C32. With costs that are not negative the search, which leaves out every partial team beyond the budget, is equivalent to the
  choice among all teams: it gives a team of qualified agents, no agent twice, within the budget, and no team within the
  budget has a higher score, or the same score at a lower cost, or both the same and a smaller key. It gives none exactly if no team
  within the budget has a score of at least -1.\<close>

theorem team_choice_optimal:
  assumes "\<forall>c\<in>set cs. float_nonneg (caCost c) \<and> float_ok (caCost c)" and "rs \<noteq> []"
  shows "case chooseTeam rs cs budget of
      None \<Rightarrow> \<forall>xs. is_team rs cs xs \<longrightarrow> within_budget budget xs \<longrightarrow> \<not> eligible rs xs
    | Some b \<Rightarrow> \<exists>xs. is_team rs cs xs \<and> within_budget budget xs \<and> eligible rs xs \<and> b = found rs xs \<and>
        (\<forall>ys. is_team rs cs ys \<longrightarrow> within_budget budget ys \<longrightarrow> \<not> better_team rs ys xs)"
proof -
  let ?b = "search cs budget rs [] [] float_zero float_zero noTeam"
  have leaves: "?b = foldl (visit budget rs [] float_zero float_zero) noTeam (teams cs rs [])"
    by (rule search_leaves) (use assms(1) float_nonneg_zero in auto)
  have teams: "xs \<in> set (teams cs rs []) \<longleftrightarrow> is_team rs cs xs" for xs by (simp add: teams_iff)
  have "best_of rs {} noTeam" by (simp add: best_of_def)
  moreover have "\<forall>xs\<in>set (teams cs rs []). \<exists>P. list_all2 P rs xs" by (auto simp: teams is_team_def)
  ultimately have "best_of rs ({} \<union> {xs \<in> set (teams cs rs []). within_budget budget xs}) ?b"
    unfolding leaves by (rule leaves_best [OF assms(2)])
  then have best: "best_of rs {xs \<in> Collect (is_team rs cs). within_budget budget xs} ?b" by (simp add: teams)
  show ?thesis
  proof (cases "?b = noTeam")
    case True
    then have "chooseTeam rs cs budget = None" using assms(2) by (simp add: chooseTeam_def noTeam_def)
    moreover from best True noTeam_found have "\<forall>xs. is_team rs cs xs \<longrightarrow> within_budget budget xs \<longrightarrow> \<not> eligible rs xs"
      unfolding best_of_def by fastforce
    ultimately show ?thesis by simp
  next
    case False
    with best obtain xs where xs: "is_team rs cs xs" "within_budget budget xs" "?b = found rs xs" "eligible rs xs"
      "\<forall>ys. is_team rs cs ys \<longrightarrow> within_budget budget ys \<longrightarrow> \<not> better_team rs ys xs" by (auto simp: best_of_def)
    from xs(1) have "length xs = length rs" by (auto simp: is_team_def dest: list_all2_lengthD)
    then have "chooseTeam rs cs budget = Some (found rs xs)" by (simp add: chooseTeam_def xs(3) found_def membersOf_def)
    with xs show ?thesis by auto
  qed
qed

text \<open>Two agents that differ in their names only.\<close>

definition demo_revision :: AgentRevision where
  "demo_revision = \<lparr>avID = ''agent-v1'', avVersion = 1, avPromptRef = ''p'', avSkills = [''go''], avTools = [], avPermissions = [],
     avModel = ''m'', avCreatedBy = ''boss'', avReason = ''initial'', avCreatedAt = 100\<rparr>"

definition demo_candidate :: "string \<Rightarrow> candidate" where
  "demo_candidate i = \<lparr>caAgent = \<lparr>agSchemaVersion = 1, agID = i, agWorkspaceID = ''w'', agName = i, agRevision = 1,
       agCurrentRevisionID = ''agent-v1'', agCurrentRelationship = ''relationship-v1'', agCurrentGeneration = 1, agRevisions = [demo_revision],
       agRelationships = [], agSessions = [], agPRs = [], agSelections = [], agOperations = [], agCreatedAt = 100, agUpdatedAt = 100\<rparr>,
     caRevision = demo_revision, caCost = float_zero, caDelivery = float_zero\<rparr>"

definition demo_role :: RoleRequirement where
  "demo_role = \<lparr>rqRole = ''dev'', rqRequiredSkills = [''go''], rqPreferredSkills = [], rqRequiredTools = [], rqRequiredPermissions = []\<rparr>"

lemma demo_values:
  "float_add float_zero float_zero = float_zero" "float_of_int 0 = float_zero" "scoreOf [demo_role] [demo_candidate i] = float_zero"
  "costOf [demo_candidate i] = float_zero" "team_key (membersOf [demo_role] [demo_candidate i]) = i"
proof -
  show z: "float_add float_zero float_zero = float_zero" by (simp add: float_zero_def fin_value_def)
  show o: "float_of_int 0 = float_zero" by (simp add: float_of_int_def round_float_def float_zero_def)
  show "scoreOf [demo_role] [demo_candidate i] = float_zero"
    by (simp add: scoreOf_def memberScore_def demo_role_def demo_candidate_def matches_def o z)
  show "costOf [demo_candidate i] = float_zero" by (simp add: costOf_def demo_candidate_def z)
  show "team_key (membersOf [demo_role] [demo_candidate i]) = i"
    by (simp add: team_key_def membersOf_def memberLock_def demo_role_def demo_candidate_def)
qed

lemma demo_teams: "is_team [demo_role] [demo_candidate ''b'', demo_candidate ''a''] xs \<longleftrightarrow> xs = [demo_candidate ''a''] \<or> xs = [demo_candidate ''b'']"
proof -
  have "qualifies demo_role (caRevision (demo_candidate i))" for i
    by (simp add: qualifies_def containsAll_def demo_role_def demo_candidate_def demo_revision_def)
  then show ?thesis by (auto simp: is_team_def list_all2_Cons1)
qed

theorem team_choice_optimal_witness:
  "\<exists>b. chooseTeam [demo_role] [demo_candidate ''b'', demo_candidate ''a''] float_zero = Some b \<and> map mlAgentID (btMembers b) = [''a'']"
proof -
  let ?cs = "[demo_candidate ''b'', demo_candidate ''a'']"
  have "\<forall>c\<in>set ?cs. float_nonneg (caCost c) \<and> float_ok (caCost c)" by (simp add: demo_candidate_def float_nonneg_zero)
  from team_choice_optimal [OF this, of "[demo_role]" float_zero]
  have best: "case chooseTeam [demo_role] ?cs float_zero of
      None \<Rightarrow> \<forall>xs. is_team [demo_role] ?cs xs \<longrightarrow> within_budget float_zero xs \<longrightarrow> \<not> eligible [demo_role] xs
    | Some b \<Rightarrow> \<exists>xs. is_team [demo_role] ?cs xs \<and> within_budget float_zero xs \<and> eligible [demo_role] xs \<and> b = found [demo_role] xs \<and>
        (\<forall>ys. is_team [demo_role] ?cs ys \<longrightarrow> within_budget float_zero ys \<longrightarrow> \<not> better_team [demo_role] ys xs)" by simp
  have "float_less (float_of_int (- 1)) float_zero"
    by (simp add: float_of_int_def round_float_def bit_length_pos round_even_def Let_def float_zero_def) (simp add: fin_value_def)
  then have e: "eligible [demo_role] [demo_candidate i]" for i by (simp add: eligible_def demo_values)
  have w: "within_budget float_zero [demo_candidate i]" for i by (simp add: within_budget_def demo_values)
  have better: "better_team [demo_role] [demo_candidate ''a''] [demo_candidate ''b'']"
    by (simp add: better_team_def demo_values float_eq_iff) (simp add: float_zero_def less_char_def)
  show ?thesis
  proof (cases "chooseTeam [demo_role] ?cs float_zero")
    case None
    with best e w show ?thesis unfolding demo_teams by auto
  next
    case (Some b)
    with best better w obtain xs where "b = found [demo_role] xs" "xs = [demo_candidate ''a'']" unfolding demo_teams by auto
    with Some show ?thesis by (simp add: found_def membersOf_def memberLock_def demo_role_def demo_candidate_def)
  qed
qed

section \<open>The lockfiles\<close>

interpretation team_file: durable_file teamStore
  by unfold_locales (simp add: teamStore_def)

text \<open>Teams are never removed, and their lockfiles and the ledger only grow.\<close>

definition teams_le :: "TeamState \<Rightarrow> TeamState \<Rightarrow> bool" where
  "teams_le st st' \<longleftrightarrow> prefix (tsOperations st) (tsOperations st') \<and>
     (\<forall>i t. mget (tsTeams st) i = Some t \<longrightarrow> (\<exists>t'. mget (tsTeams st') i = Some t' \<and> prefix (teLockfiles t) (teLockfiles t')))"

lemma teams_le_refl: "teams_le st st"
  by (simp add: teams_le_def)

lemma teams_le_trans: "teams_le a b \<Longrightarrow> teams_le b c \<Longrightarrow> teams_le a c"
  unfolding teams_le_def by (meson prefix_order.trans)

lemma team_fields: "teID (t\<lparr>teCurrentVersion := v, teUpdatedAt := n, teLockfiles := ls\<rparr>) = teID t" by simp

lemma valid_team:
  assumes "fsValid teamStore st = None" and "mget (tsTeams st) i = Some t"
  shows "teID t = i" and "safeID i" and "teCurrentVersion t = int (length (teLockfiles t))"
    and "n < length (teLockfiles t) \<Longrightarrow> lfTeamID (teLockfiles t ! n) = i \<and> lfVersion (teLockfiles t ! n) = int n + 1"
proof -
  from assms(1) have "first_error team_ok (tsTeams st) = None" by (auto simp: teamStore_def validateTeamState_def split: if_splits option.splits)
  with assms(2) have ok: "team_ok (i, t) = None" unfolding first_error_None by (meson map_of_SomeD)
  then show "teID t = i" "safeID i" "teCurrentVersion t = int (length (teLockfiles t))"
    by (auto simp: team_ok_def split: if_splits)
  from ok have "list_all (lockfile_ok i (teWorkspaceID t)) (enumerate 0 (teLockfiles t))" by (auto simp: team_ok_def split: if_splits)
  then show "lfTeamID (teLockfiles t ! n) = i \<and> lfVersion (teLockfiles t ! n) = int n + 1" if "n < length (teLockfiles t)"
    using that by (auto simp: list_all_length nth_enumerate_eq lockfile_ok_def)
qed

lemma change_le:
  assumes "selectChange look n i fp st = Inr (st', r)" and "fsValid teamStore st = None"
  shows "teams_le st st'" and "\<exists>l. r = Some (Inr l) \<and> lockfileAt st' (slcTeamID i) (lfVersion l) = Some l"
    and "tsOperations st' = tsOperations st @ [\<lparr>toID = slcOperationID i, toFingerprint = fp, toTeamID = slcTeamID i,
      toVersion = slcExpectedVersion i + 1, toRevision = tsRevision st + 1, toCreatedAt = n\<rparr>]"
    and "\<exists>l. r = Some (Inr l) \<and> lfVersion l = slcExpectedVersion i + 1"
proof -
  from assms(1) obtain b where st': "st' = addLockfile i fp (newLockfile i b n) n st" and r: "r = Some (Inr (newLockfile i b n))"
    and cas: "case mget (tsTeams st) (slcTeamID i) of None \<Rightarrow> slcExpectedVersion i = 0 | Some t \<Rightarrow> teCurrentVersion t = slcExpectedVersion i"
    by (auto simp: selectChange_def Let_def split: if_splits sum.splits option.splits)
  have v: "lfVersion (newLockfile i b n) = slcExpectedVersion i + 1" by (simp add: newLockfile_def)
  have all: "teams_le st st' \<and> lockfileAt st' (slcTeamID i) (slcExpectedVersion i + 1) = Some (newLockfile i b n) \<and>
    tsOperations st' = tsOperations st @ [\<lparr>toID = slcOperationID i, toFingerprint = fp, toTeamID = slcTeamID i,
      toVersion = slcExpectedVersion i + 1, toRevision = tsRevision st + 1, toCreatedAt = n\<rparr>]"
  proof (cases "mget (tsTeams st) (slcTeamID i)")
    case None
    with cas show ?thesis by (simp add: st' addLockfile_def Let_def v lockfileAt_def teams_le_def)
  next
    case (Some t)
    with cas have "teCurrentVersion t = slcExpectedVersion i" by simp
    with valid_team [OF assms(2) Some] Some show ?thesis
      by (auto simp: st' addLockfile_def Let_def v lockfileAt_def teams_le_def nth_append)
  qed
  then show "teams_le st st'" by blast
  from all r v show "\<exists>l. r = Some (Inr l) \<and> lockfileAt st' (slcTeamID i) (lfVersion l) = Some l"
    and "\<exists>l. r = Some (Inr l) \<and> lfVersion l = slcExpectedVersion i + 1" by auto
  from all show "tsOperations st' = tsOperations st @ [\<lparr>toID = slcOperationID i, toFingerprint = fp, toTeamID = slcTeamID i,
      toVersion = slcExpectedVersion i + 1, toRevision = tsRevision st + 1, toCreatedAt = n\<rparr>]" by blast
qed

lemma select_keeps: "team_file.keeps (\<lambda>_. True) teams_le d (snd (SelectTeam look e i0 d))"
proof -
  let ?i = "normalizeSelect i0"
  obtain r d' where s: "SelectTeam look e i0 d = (r, d')" by fastforce
  show ?thesis
  proof (cases "cerr e = None \<and> validateSelect ?i = None")
    case False
    with s have "d' = d" by (auto simp: SelectTeam_def Let_def split: option.splits)
    with s show ?thesis by (simp add: team_file.keeps_refl teams_le_refl)
  next
    case True
    with s have "operate teamStore (wio e) (\<lambda>err. Some (Inl err)) (\<lambda>st. find_op toID (slcOperationID ?i) (tsOperations st))
        (\<lambda>st x. if toFingerprint x \<noteq> selectFingerprint ?i then Some (Inl teErrConflict) else map_option Inr (lockfileAt st (toTeamID x) (toVersion x)))
        (selectChange look (now e) ?i (selectFingerprint ?i)) d = (r, d')" by (simp add: SelectTeam_def Let_def)
    then have "team_file.keeps (\<lambda>_. True) teams_le d d'"
      by (rule team_file.operate_keeps) (auto intro: teams_le_refl change_le(1))
    then show ?thesis by (simp add: s)
  qed
qed

text \<open>After a successful selection the file has its operation and its lockfile.\<close>

definition recorded :: "SelectInput \<Rightarrow> Lockfile \<Rightarrow> TeamState \<Rightarrow> bool" where
  "recorded i l st \<longleftrightarrow> (\<exists>x. find_op toID (slcOperationID i) (tsOperations st) = Some x \<and> toFingerprint x = selectFingerprint i \<and>
     lockfileAt st (toTeamID x) (toVersion x) = Some l)"

lemma recorded_le: "recorded i l st \<Longrightarrow> teams_le st st' \<Longrightarrow> recorded i l st'"
  unfolding recorded_def teams_le_def lockfileAt_def
  by (fastforce simp: prefix_def find_op_append nth_append split: option.splits if_splits)

lemma select_recorded:
  assumes "SelectTeam look e i0 d = (Some (Inr l), d')"
  shows "validateSelect (normalizeSelect i0) = None \<and> (\<exists>st. readFile teamStore d' = Inr st \<and> recorded (normalizeSelect i0) l st)"
proof -
  let ?i = "normalizeSelect i0"
  from assms have v: "validateSelect ?i = None" and o: "operate teamStore (wio e) (\<lambda>err. Some (Inl err)) (\<lambda>st. find_op toID (slcOperationID ?i) (tsOperations st))
        (\<lambda>st x. if toFingerprint x \<noteq> selectFingerprint ?i then Some (Inl teErrConflict) else map_option Inr (lockfileAt st (toTeamID x) (toVersion x)))
        (selectChange look (now e) ?i (selectFingerprint ?i)) d = (Some (Inr l), d')"
    by (auto simp: SelectTeam_def Let_def split: option.splits)
  from o have "\<exists>st. readFile teamStore d' = Inr st \<and> recorded ?i l st"
  proof (cases rule: team_file.operate_cases)
    case (replayed st x)
    then show ?thesis by (auto simp: recorded_def eq_commute [of "Some _" "map_option _ _"] split: if_splits)
  next
    case (committed st st' result)
    from committed(1) have "fsValid teamStore st = None" by (simp add: readFile_Inr)
    note ch = change_le [OF committed(3) this]
    from committed(6) have "result = Some (Inr l)" by auto
    with ch(2-4) committed(2) have "recorded ?i l st'" by (auto simp: recorded_def find_op_append)
    moreover have "readFile teamStore d' = Inr st'" using committed(4,5) by (simp add: readFile_written)
    ultimately show ?thesis by blast
  qed simp
  with v show ?thesis by blast
qed

datatype team_call = TeamSelect "nat \<Rightarrow> env \<times> agentDir" env SelectInput

fun do_team :: "team_call \<Rightarrow> teamDir \<Rightarrow> selectResult \<times> teamDir" where
  "do_team (TeamSelect look e i) d = SelectTeam look e i d"

lemma team_calls_keep: "team_file.keeps (\<lambda>_. True) teams_le d (run_steps do_team calls d)"
proof (induction calls arbitrary: d)
  case (Cons c calls)
  have "team_file.keeps (\<lambda>_. True) teams_le d (snd (do_team c d))" by (cases c) (simp add: select_keeps)
  from team_file.keeps_trans [OF teams_le_trans this Cons.IH [of "snd (do_team c d)"]] show ?case by simp
qed (simp add: team_file.keeps_refl teams_le_refl)

text \<open>C33. A lockfile that \<open>Select\<close> returned is fixed: after any further selections, with any write failures, a retry of the same
  request returns it and changes nothing, and \<open>Get\<close> of its team and version returns it, whatever the registry holds by then.\<close>

theorem lockfile_fixed:
  assumes "SelectTeam look e i d = (Some (Inr l), d1)" and "cerr e' = None"
  shows "SelectTeam look' e' i (run_steps do_team calls d1) = (Some (Inr l), run_steps do_team calls d1) \<and>
    GetLockfile e' (lfTeamID l) (lfVersion l) (run_steps do_team calls d1) = Inr l"
proof -
  from select_recorded [OF assms(1)] obtain st where v: "validateSelect (normalizeSelect i) = None"
    and st: "readFile teamStore d1 = Inr st" "recorded (normalizeSelect i) l st" by blast
  from team_calls_keep [of d1 calls] st(1) obtain st2 where st2: "readFile teamStore (run_steps do_team calls d1) = Inr st2" "teams_le st st2"
    by (auto simp: team_file.keeps_def)
  from recorded_le [OF st(2) st2(2)] obtain x where x: "find_op toID (slcOperationID (normalizeSelect i)) (tsOperations st2) = Some x"
    "toFingerprint x = selectFingerprint (normalizeSelect i)" "lockfileAt st2 (toTeamID x) (toVersion x) = Some l" by (auto simp: recorded_def)
  have "SelectTeam look' e' i (run_steps do_team calls d1) = (Some (Inr l), run_steps do_team calls d1)"
    using assms(2) v st2(1) x by (simp add: SelectTeam_def Let_def operate_def)
  moreover have "GetLockfile e' (lfTeamID l) (lfVersion l) (run_steps do_team calls d1) = Inr l"
  proof -
    from x(3) obtain t where t: "mget (tsTeams st2) (toTeamID x) = Some t" "1 \<le> toVersion x" "toVersion x \<le> int (length (teLockfiles t))"
      "l = teLockfiles t ! nat (toVersion x - 1)" by (auto simp: lockfileAt_def split: option.splits if_splits)
    from st2(1) have "fsValid teamStore st2 = None" by (simp add: readFile_Inr)
    from valid_team [OF this t(1)] valid_team(4) [OF this t(1), of "nat (toVersion x - 1)"] t have "lfTeamID l = toTeamID x" "lfVersion l = toVersion x" "safeID (toTeamID x)" by auto
    with assms(2) st2(1) t(1,2) x(3) show ?thesis by (simp add: GetLockfile_def TrimSpace_safeID)
  qed
  ultimately show ?thesis by blast
qed

text \<open>A team of one, chosen for the agent of the registry's example.\<close>

definition demo_select :: SelectInput where
  "demo_select = \<lparr>slcOperationID = ''op1'', slcTeamID = ''t1'', slcWorkspaceID = ''w'', slcExpectedVersion = 0, slcObjective = ''x'',
     slcTemplate = \<lparr>ttID = ''k'', ttName = ''x'', ttRoles = [\<lparr>rqRole = ''dev'', rqRequiredSkills = [], rqPreferredSkills = [],
       rqRequiredTools = [], rqRequiredPermissions = []\<rparr>]\<rparr>,
     slcCandidates = [''a1''], slcDelivery = [], slcModelCosts = [(avModel (demo_agent_revision 2), float_zero)], slcBudget = float_zero,
     slcCreatedBy = ''boss''\<rparr>"

definition demo_team_dir :: teamDir where
  "demo_team_dir = [(''teams-v1.json'', Record (emptyTeams 100))]"

definition demo_best :: bestTeam where
  "demo_best = found (ttRoles (slcTemplate demo_select)) [\<lparr>caAgent = demo_agent, caRevision = demo_agent_revision 2, caCost = float_zero, caDelivery = float_zero\<rparr>]"

lemma demo_trims: "TrimSpace s = s" if "s \<in> {''op1'', ''t1'', ''w'', ''x'', ''k'', ''dev'', ''a1'', ''boss''}"
  using that by (auto intro!: TrimSpace_safeID simp: char_eval)

lemma demo_select_normal: "normalizeSelect demo_select = demo_select"
  by (simp add: normalizeSelect_def demo_select_def normalizeRole_def teamStrings_def normalizeStrings_def demo_trims sort_by_def)

lemma demo_select_valid: "validateSelect demo_select = None"
  by (simp add: validateSelect_def demo_select_def Let_def char_eval)

lemma demo_loaded: "loadCandidates (\<lambda>k. (demo_env, demo_agent_dir)) 0 demo_select [''a1''] =
    Inr [\<lparr>caAgent = demo_agent, caRevision = demo_agent_revision 2, caCost = float_zero, caDelivery = float_zero\<rparr>]"
  using demo_agent_read demo_agent_parts(6)
  by (simp add: GetAgent_def demo_env_def demo_trims demo_agent_fields) (simp add: demo_select_def)

abbreviation demo_hand :: candidate where
  "demo_hand \<equiv> \<lparr>caAgent = demo_agent, caRevision = demo_agent_revision 2, caCost = float_zero, caDelivery = float_zero\<rparr>"

lemma demo_low: "float_less (float_of_int (- 1)) float_zero"
  by (simp add: float_of_int_def round_float_def bit_length_pos round_even_def Let_def float_zero_def) (simp add: fin_value_def)

lemma demo_chosen: "chooseTeam (ttRoles (slcTemplate demo_select)) [demo_hand] (slcBudget demo_select) = Some demo_best"
proof -
  define r where "r = hd (ttRoles (slcTemplate demo_select))"
  have r: "ttRoles (slcTemplate demo_select) = [r]" "slcBudget demo_select = float_zero" by (simp_all add: r_def demo_select_def)
  have q: "qualifies r (demo_agent_revision 2)" by (simp add: qualifies_def containsAll_def r_def demo_select_def)
  have m: "memberScore r demo_hand = float_zero" by (simp add: memberScore_def matches_def r_def demo_select_def demo_values)
  have "search [demo_hand] float_zero [r] [] [] float_zero float_zero noTeam = improve (membersOf [r] [demo_hand]) float_zero float_zero noTeam"
    by (simp add: q m demo_values membersOf_def)
  also have "\<dots> = found [r] [demo_hand]"
    by (simp add: improve_def noTeam_def demo_low found_def Let_def scoreOf_def costOf_def m demo_values)
  finally show ?thesis unfolding r by (simp add: chooseTeam_def demo_best_def r found_def membersOf_def)
qed

theorem lockfile_fixed_witness:
  "SelectTeam (\<lambda>k. (demo_env, [])) demo_env demo_select
      (run_steps do_team [TeamSelect (\<lambda>k. (demo_env, demo_agent_dir)) demo_env (demo_select\<lparr>slcOperationID := ''op2'', slcExpectedVersion := 1\<rparr>)]
        (snd (SelectTeam (\<lambda>k. (demo_env, demo_agent_dir)) demo_env demo_select demo_team_dir)))
    = (Some (Inr (newLockfile demo_select demo_best 100)),
       run_steps do_team [TeamSelect (\<lambda>k. (demo_env, demo_agent_dir)) demo_env (demo_select\<lparr>slcOperationID := ''op2'', slcExpectedVersion := 1\<rparr>)]
        (snd (SelectTeam (\<lambda>k. (demo_env, demo_agent_dir)) demo_env demo_select demo_team_dir)))"
proof -
  let ?look = "\<lambda>k. (demo_env, demo_agent_dir)" and ?l = "newLockfile demo_select demo_best 100"
  let ?st = "addLockfile demo_select (selectFingerprint demo_select) ?l 100 (emptyTeams 100)"
  have e: "cerr demo_env = None" "now demo_env = 100" "wio demo_env = Io_ok" by (simp_all add: demo_env_def)
  have f: "slcTeamID demo_select = ''t1''" "slcExpectedVersion demo_select = 0" "slcOperationID demo_select = ''op1''"
    "slcCandidates demo_select = [''a1'']" "slcWorkspaceID demo_select = ''w''" "slcCreatedBy demo_select = ''boss''"
    by (simp_all add: demo_select_def)
  have r: "readFile teamStore demo_team_dir = Inr (emptyTeams 100)"
    by (simp add: readFile_def teamStore_def demo_team_dir_def readJSON_def validateTeamState_def emptyTeams_def tsSchema_def)
  have enc: "encodable ?l"
  proof -
    have "json_float float_zero \<noteq> None" by (simp add: json_float_def float_zero_def)
    then show ?thesis by (auto simp: encodable_def newLockfile_def demo_best_def found_def membersOf_def memberLock_def memberScore_def matches_def
          costOf_def demo_select_def demo_values)
  qed
  have c: "selectChange ?look 100 demo_select (selectFingerprint demo_select) (emptyTeams 100) = Inr (?st, Some (Inr ?l))"
  proof -
    have "tsTeams (emptyTeams 100) = []" by (simp add: emptyTeams_def)
    then show ?thesis unfolding selectChange_def f(4) demo_loaded using enc by (simp add: f demo_chosen Let_def)
  qed
  have digest: "safeDigest (selectFingerprint demo_select)"
  proof -
    have "json_float float_zero \<noteq> None" by (simp add: json_float_def float_zero_def)
    then show ?thesis by (auto simp: selectFingerprint_def select_json_def demo_select_def)
  qed
  have lf: "lockfile_ok ''t1'' ''w'' (0, ?l)"
    by (simp add: lockfile_ok_def newLockfile_def f demo_best_def found_def membersOf_def tsSchema_def) (simp add: demo_select_def char_eval)
  have v: "fsValid teamStore ?st = None"
    using digest lf by (simp add: teamStore_def validateTeamState_def addLockfile_def emptyTeams_def Let_def f team_ok_def newLockfile_def
        ledger_ok_iff tmop_ok_def tsSchema_def enumerate_eq_zip char_eval)
  have "SelectTeam ?look demo_env demo_select demo_team_dir = (Some (Inr ?l), AList.update (fsPath teamStore) (Record ?st) demo_team_dir)"
  proof -
    have "find_op toID ''op1'' (tsOperations (emptyTeams 100)) = None" by (simp add: emptyTeams_def find_op_def)
    then show ?thesis
      by (simp add: SelectTeam_def e demo_select_normal demo_select_valid Let_def f(3) operate_def r c team_file.write_ok [OF v])
  qed
  then have "SelectTeam ?look demo_env demo_select demo_team_dir = (Some (Inr ?l), snd (SelectTeam ?look demo_env demo_select demo_team_dir))" by simp
  from lockfile_fixed [OF this e(1)] show ?thesis by blast
qed

end
