(* ===== verification/Sessions.thy ===== *)
theory Sessions
  imports Ledger Messages
begin

text \<open>
  The package sessionstore (internal/sessionstore/store.go): a conversation of several runs. \<open>Begin\<close> admits an operation as the one pending
  turn of its session, with the run that will execute it; \<open>Commit\<close> makes the result of that run a completed turn and the history of
  the session. One JSON file per session; the bytes that a file gives back are the messages up to what the JSON text keeps. The absolute, clean path
  of the working directory, or the error of finding it, is an argument.
\<close>

section \<open>Data\<close>

definition seVersion_const :: int where
  "seVersion_const = 1"

record PendingTurn =
  pnOperationID :: string
  pnPrompt :: string
  pnSemanticSHA :: string
  pnRunID :: string
  pnBaseRevision :: int
  pnStartedAt :: time

record SessionTurn =
  stnOperationID :: string
  stnSemanticSHA :: string
  stnRunID :: string
  stnReason :: TerminalReason
  stnFinalMessage :: ChatMessage
  stnTurns :: int
  stnUsage :: Usage
  stnHistoryRevision :: int
  stnStartedAt :: time
  stnCompletedAt :: time

record ChatSession =
  seVersion :: int
  seID :: string
  seWorkDir :: string
  seRevision :: int
  seMessages :: "ChatMessage list"
  seTurns :: "SessionTurn list"
  sePending :: "PendingTurn option"
  seCreatedAt :: time
  seUpdatedAt :: time

text \<open>A session is admitted with its pending turn, or with the completed turn of the same operation.\<close>

record Admission =
  adState :: ChatSession
  adPending :: PendingTurn
  adCached :: "SessionTurn option"
  adResuming :: bool

definition zeroPending :: PendingTurn where
  "zeroPending = \<lparr>pnOperationID = [], pnPrompt = [], pnSemanticSHA = [], pnRunID = [], pnBaseRevision = 0, pnStartedAt = 0\<rparr>"

type_synonym sessionDir = "ChatSession dir"

definition seErrConflict :: go_error where
  "seErrConflict = Sentinel ''session operation conflict''"

definition ErrBusy :: go_error where
  "ErrBusy = Sentinel ''session has an unfinished turn''"

definition sessionValidateID :: "string \<Rightarrow> go_error option" where
  "sessionValidateID i = (if safeID i then None else Some (Errorf (''invalid id '' @ i)))"

definition semanticDigest :: "string \<Rightarrow> string \<Rightarrow> string" where
  "semanticDigest prompt attributes = sha256_hex (prompt @ [CHR 0x00] @ attributes)"

definition newRunID :: "string \<Rightarrow> entropy \<Rightarrow> string" where
  "newRunID sessionID r = (case fst r of Some v \<Rightarrow> ''session-'' @ take 32 sessionID @ ''-'' @ hexEncode v | None \<Rightarrow> ''session-'' @ dec_int (snd r))"

section \<open>The file\<close>

definition sessionPath :: "string \<Rightarrow> string" where
  "sessionPath i = i @ ''.session.json''"

text \<open>The loop over the turns: \<open>operations\<close> maps the operations seen to their digest.\<close>

fun scan_turns :: "string \<Rightarrow> string gomap \<Rightarrow> SessionTurn list \<Rightarrow> go_error + string gomap" where
  "scan_turns i operations [] = Inr operations"
| "scan_turns i operations (t # ts) =
     (if \<not> safeID (stnOperationID t) \<or> stnRunID t = [] \<or> stnSemanticSHA t = [] \<or> reason_text (stnReason t) = [] \<or> stnCompletedAt t = 0
      then Inl (Errorf (''session '' @ i @ '' has an invalid completed turn''))
      else if (case mget operations (stnOperationID t) of None \<Rightarrow> False | Some previous \<Rightarrow> previous \<noteq> stnSemanticSHA t)
      then Inl (Errorf (''session '' @ i @ '' has conflicting operation records''))
      else scan_turns i (mput (stnOperationID t) (stnSemanticSHA t) operations) ts)"

definition validateSession :: "string \<Rightarrow> ChatSession \<Rightarrow> go_error option" where
  "validateSession i st =
     (if seVersion st \<noteq> seVersion_const \<or> seID st \<noteq> i \<or> seWorkDir st = [] \<or> seRevision st \<le> 0 \<or> seCreatedAt st = 0 \<or> seUpdatedAt st = 0
      then Some (Errorf (''session '' @ i @ '' has invalid canonical state'')) else
      (case scan_turns i [] (seTurns st) of Inl err \<Rightarrow> Some err | Inr operations \<Rightarrow>
       (case sePending st of None \<Rightarrow> None | Some p \<Rightarrow>
        if \<not> safeID (pnOperationID p) \<or> pnRunID p = [] \<or> pnPrompt p = [] \<or> pnSemanticSHA p = [] \<or> pnStartedAt p = 0
        then Some (Errorf (''session '' @ i @ '' has an invalid pending turn''))
        else if mget operations (pnOperationID p) \<noteq> None
        then Some (Errorf (''session '' @ i @ '' has a completed and pending copy of one operation'')) else None)))"

text \<open>No file is no session.\<close>

definition readSession :: "string \<Rightarrow> sessionDir \<Rightarrow> go_error + ChatSession option" where
  "readSession i d = (case readJSON d (sessionPath i) of
     Inl err \<Rightarrow> if errors_Is err os_ErrNotExist then Inr None else Inl (Wrap (''decode session '' @ i) err)
   | Inr st \<Rightarrow> (case validateSession i st of Some err \<Rightarrow> Inl err | None \<Rightarrow> Inr (Some st)))"

text \<open>What the file gives back; \<open>None\<close> when a message or a time cannot be encoded.\<close>

definition wire_turn :: "SessionTurn \<Rightarrow> SessionTurn option" where
  "wire_turn t = (if json_time (stnStartedAt t) = None \<or> json_time (stnCompletedAt t) = None then None
     else map_option (\<lambda>m. t\<lparr>stnFinalMessage := m\<rparr>) (wire_message (stnFinalMessage t)))"

definition wire_session :: "ChatSession \<Rightarrow> ChatSession option" where
  "wire_session st = (case (wire_list wire_message (seMessages st), wire_list wire_turn (seTurns st)) of
     (Some ms, Some ts) \<Rightarrow> Some (st\<lparr>seMessages := ms, seTurns := ts\<rparr>) | _ \<Rightarrow> None)"

text \<open>The state is validated when it is read back, not before it is written.\<close>

definition writeSession :: "io \<Rightarrow> ChatSession \<Rightarrow> sessionDir \<Rightarrow> go_error option \<times> sessionDir" where
  "writeSession i st d =
     (case wire_session st of None \<Rightarrow> (Some IOError, d) | Some w \<Rightarrow>
      (case atomicWrite i (sessionPath (seID st)) w d of
         (Some err, d1) \<Rightarrow> (Some err, d1)
       | (None, d1) \<Rightarrow>
           (case readSession (seID st) d1 of
              Inl err \<Rightarrow> (Some (Wrap ''read back session state'' err), d1)
            | Inr None \<Rightarrow> (Some (Errorf ''read back session state''), d1)
            | Inr (Some v) \<Rightarrow>
                if seRevision v \<noteq> seRevision st \<or> seID v \<noteq> seID st \<or> (sePending v = None) \<noteq> (sePending st = None)
                   \<or> length (seTurns v) \<noteq> length (seTurns st)
                then (Some (Errorf ''session state read-back verification failed''), d1) else (None, d1))))"

section \<open>Operations\<close>

definition newSession :: "string \<Rightarrow> string \<Rightarrow> time \<Rightarrow> ChatSession" where
  "newSession i dir n = \<lparr>seVersion = seVersion_const, seID = i, seWorkDir = dir, seRevision = 0, seMessages = [], seTurns = [], sePending = None,
     seCreatedAt = n, seUpdatedAt = n\<rparr>"

definition admitNew :: "env \<Rightarrow> string \<Rightarrow> string \<Rightarrow> string \<Rightarrow> string \<Rightarrow> ChatSession \<Rightarrow> sessionDir \<Rightarrow> (go_error + Admission) \<times> sessionDir" where
  "admitNew e operationID prompt digest runID0 st d =
     (let runID = (if runID0 = [] then newRunID (seID st) (ent e 0) else runID0) in
      case sessionValidateID runID of Some err \<Rightarrow> (Inl (Wrap ''invalid run id'' err), d) | None \<Rightarrow>
      let pending = \<lparr>pnOperationID = operationID, pnPrompt = prompt, pnSemanticSHA = digest, pnRunID = runID, pnBaseRevision = seRevision st,
            pnStartedAt = clk e 1\<rparr>;
          st1 = st\<lparr>sePending := Some pending, seRevision := seRevision st + 1, seUpdatedAt := clk e 1\<rparr> in
      (case writeSession (wio e) st1 d of
         (Some err, d1) \<Rightarrow> (Inl err, d1)
       | (None, d1) \<Rightarrow> (Inr \<lparr>adState = st1, adPending = pending, adCached = None, adResuming = False\<rparr>, d1)))"

definition admit :: "env \<Rightarrow> string \<Rightarrow> string \<Rightarrow> string \<Rightarrow> string \<Rightarrow> ChatSession \<Rightarrow> sessionDir \<Rightarrow> (go_error + Admission) \<times> sessionDir" where
  "admit e operationID prompt digest runID st d =
     (case find (\<lambda>t. stnOperationID t = operationID) (seTurns st) of
        Some t \<Rightarrow>
          (if stnSemanticSHA t \<noteq> digest then (Inl (Wrap (''operation '' @ operationID @ '' was reused with different semantics'') seErrConflict), d)
           else (Inr \<lparr>adState = st, adPending = zeroPending, adCached = Some t, adResuming = False\<rparr>, d))
      | None \<Rightarrow>
          (case sePending st of
             Some p \<Rightarrow>
               if pnOperationID p \<noteq> operationID
               then (Inl (Wrap (''operation '' @ pnOperationID p @ '' is still pending as run '' @ pnRunID p) ErrBusy), d)
               else if pnSemanticSHA p \<noteq> digest
               then (Inl (Wrap (''pending operation '' @ operationID @ '' was reused with different semantics'') seErrConflict), d)
               else (Inr \<lparr>adState = st, adPending = p, adCached = None, adResuming = True\<rparr>, d)
           | None \<Rightarrow> admitNew e operationID prompt digest runID st d))"

definition BeginSession :: "env \<Rightarrow> go_error + string \<Rightarrow> string \<Rightarrow> string \<Rightarrow> string \<Rightarrow> string \<Rightarrow> string \<Rightarrow> sessionDir
    \<Rightarrow> (go_error + Admission) \<times> sessionDir" where
  "BeginSession e workDir sessionID operationID prompt0 runID attributes d =
     (let prompt = TrimSpace prompt0 in
      case sessionValidateID sessionID of Some err \<Rightarrow> (Inl err, d) | None \<Rightarrow>
      case sessionValidateID operationID of Some err \<Rightarrow> (Inl (Wrap ''invalid operation id'' err), d) | None \<Rightarrow>
      if prompt = [] then (Inl (Errorf ''session prompt is required''), d) else
      case workDir of Inl err \<Rightarrow> (Inl (Wrap ''resolve session workdir'' err), d) | Inr dir \<Rightarrow>
      let digest = semanticDigest prompt attributes in
      case readSession sessionID d of Inl err \<Rightarrow> (Inl err, d) | Inr found \<Rightarrow>
      (case found of
         None \<Rightarrow> admit e operationID prompt digest runID (newSession sessionID dir (clk e 0)) d
       | Some st \<Rightarrow>
           if seWorkDir st \<noteq> dir
           then (Inl (Wrap (''session workspace '' @ seWorkDir st @ '' does not match '' @ dir) seErrConflict), d)
           else admit e operationID prompt digest runID st d))"

definition turnOf :: "PendingTurn \<Rightarrow> EngineRunResult \<Rightarrow> SessionTurn" where
  "turnOf p r = \<lparr>stnOperationID = pnOperationID p, stnSemanticSHA = pnSemanticSHA p, stnRunID = rrRunID r, stnReason = rrReason r,
     stnFinalMessage = rrFinalMessage r, stnTurns = rrTurns r, stnUsage = rrUsage r, stnHistoryRevision = rrHistoryRevision r,
     stnStartedAt = rrStartedAt r, stnCompletedAt = rrCompletedAt r\<rparr>"

definition CommitSession :: "env \<Rightarrow> string \<Rightarrow> string \<Rightarrow> int \<Rightarrow> EngineRunResult \<Rightarrow> sessionDir \<Rightarrow> (go_error + ChatSession) \<times> sessionDir" where
  "CommitSession e sessionID operationID expected r d =
     (case sessionValidateID sessionID of Some err \<Rightarrow> (Inl err, d) | None \<Rightarrow>
      case sessionValidateID operationID of Some err \<Rightarrow> (Inl (Wrap ''invalid operation id'' err), d) | None \<Rightarrow>
      if rrRunID r = [] \<or> reason_text (rrReason r) = [] \<or> rrCompletedAt r = 0 \<or> rrMessages r = []
      then (Inl (Errorf ''cannot commit an incomplete session result''), d) else
      case readSession sessionID d of Inl err \<Rightarrow> (Inl err, d) | Inr found \<Rightarrow>
      (case found of
         None \<Rightarrow> (Inl (Wrap (''session '' @ sessionID @ '' has no pending turn'') seErrConflict), d)
       | Some st \<Rightarrow>
           (case sePending st of
              None \<Rightarrow> (Inl (Wrap (''session '' @ sessionID @ '' has no pending turn'') seErrConflict), d)
            | Some p \<Rightarrow>
                if seRevision st \<noteq> expected
                then (Inl (Wrap (''expected session revision '' @ dec_int expected @ '', current revision '' @ dec_int (seRevision st)) seErrConflict), d)
                else if pnOperationID p \<noteq> operationID \<or> pnRunID p \<noteq> rrRunID r
                then (Inl (Wrap ''pending turn identity does not match result'' seErrConflict), d)
                else
                  let st1 = st\<lparr>seMessages := rrMessages r, seTurns := seTurns st @ [turnOf p r], sePending := None,
                        seRevision := seRevision st + 1, seUpdatedAt := clk e 0\<rparr> in
                  (case writeSession (wio e) st1 d of (Some err, d1) \<Rightarrow> (Inl err, d1) | (None, d1) \<Rightarrow> (Inr st1, d1)))))"

definition GetSession :: "string \<Rightarrow> sessionDir \<Rightarrow> go_error + ChatSession" where
  "GetSession sessionID d =
     (case sessionValidateID sessionID of Some err \<Rightarrow> Inl err | None \<Rightarrow>
      (case readSession sessionID d of Inl err \<Rightarrow> Inl err | Inr None \<Rightarrow> Inl os_ErrNotExist | Inr (Some st) \<Rightarrow> Inr st))"

text \<open>The lanes in memory: a lane is taken by one caller at a time. A caller that finds it taken waits, which is \<open>None\<close>, until it is free or the
  caller's context is done. When the lane is free and the context is done, \<open>select\<close> takes either branch at random: \<open>takes\<close> is its choice.\<close>

definition AcquireLane :: "bool \<Rightarrow> go_error option \<Rightarrow> string \<Rightarrow> string list \<Rightarrow> go_error option option \<times> string list" where
  "AcquireLane takes done sessionID lanes =
     (case sessionValidateID sessionID of Some err \<Rightarrow> (Some (Some err), lanes) | None \<Rightarrow>
      (if sessionID \<notin> set lanes \<and> (takes \<or> done = None) then (Some None, sessionID # lanes)
       else (case done of Some err \<Rightarrow> (Some (Some err), lanes) | None \<Rightarrow> (None, lanes))))"

definition ReleaseLane :: "string \<Rightarrow> string list \<Rightarrow> string list" where
  "ReleaseLane sessionID lanes = remove1 sessionID lanes"

end
