(* ===== verification/SessionProps.thy ===== *)
theory SessionProps
  imports Sessions
begin

text \<open>
  What the session store guarantees: an operation of a session has one run, whatever is retried and whichever writes fail, and a session's
  completed turns only grow.
\<close>

section \<open>The run of an operation\<close>

definition op_run :: "ChatSession \<Rightarrow> string \<Rightarrow> string option" where
  "op_run st i = (case map_option stnRunID (find (\<lambda>t. stnOperationID t = i) (seTurns st)) of Some r \<Rightarrow> Some r
     | None \<Rightarrow> (case sePending st of Some p \<Rightarrow> if pnOperationID p = i then Some (pnRunID p) else None | None \<Rightarrow> None))"

definition admitted_run :: "Admission \<Rightarrow> string" where
  "admitted_run a = (case adCached a of Some t \<Rightarrow> stnRunID t | None \<Rightarrow> pnRunID (adPending a))"

text \<open>A turn without its final message, which a round through the file may change.\<close>

definition turn_core :: "SessionTurn \<Rightarrow> SessionTurn" where
  "turn_core t = t\<lparr>stnFinalMessage := zeroChatMessage\<rparr>"

definition session_le :: "ChatSession \<Rightarrow> ChatSession \<Rightarrow> bool" where
  "session_le st st' \<longleftrightarrow> (\<forall>i r. op_run st i = Some r \<longrightarrow> op_run st' i = Some r) \<and> seRevision st \<le> seRevision st' \<and>
     prefix (map turn_core (seTurns st)) (map turn_core (seTurns st')) \<and> seWorkDir st' = seWorkDir st"

lemma session_le_refl: "session_le st st"
  by (simp add: session_le_def)

lemma session_le_trans: "session_le a b \<Longrightarrow> session_le b c \<Longrightarrow> session_le a c"
  unfolding session_le_def using prefix_order.trans by fastforce

definition sessions_le :: "sessionDir \<Rightarrow> sessionDir \<Rightarrow> bool" where
  "sessions_le d d' \<longleftrightarrow> (\<forall>i st. readSession i d = Inr (Some st) \<longrightarrow> (\<exists>st'. readSession i d' = Inr (Some st') \<and> session_le st st'))"

lemma sessions_le_refl: "sessions_le d d"
  using session_le_refl by (auto simp: sessions_le_def)

lemma sessions_le_trans: "sessions_le a b \<Longrightarrow> sessions_le b c \<Longrightarrow> sessions_le a c"
  unfolding sessions_le_def using session_le_trans by blast

section \<open>The round through the file\<close>

lemma wire_list_map:
  assumes "wire_list f xs = Some ys" and "\<And>x y. f x = Some y \<Longrightarrow> g y = g x"
  shows "map g ys = map g xs"
  using assms(1) by (induction xs arbitrary: ys) (auto split: option.splits dest: assms(2))

lemma wire_turn_core: "wire_turn t = Some t' \<Longrightarrow> turn_core t' = turn_core t"
  by (auto simp: wire_turn_def turn_core_def split: if_splits)

lemma turn_core_fields:
  "turn_core t' = turn_core t \<Longrightarrow> stnOperationID t' = stnOperationID t \<and> stnSemanticSHA t' = stnSemanticSHA t \<and> stnRunID t' = stnRunID t \<and>
     stnReason t' = stnReason t \<and> stnCompletedAt t' = stnCompletedAt t"
  by (cases t; cases t') (simp add: turn_core_def)

lemma scan_turns_core: "map turn_core ts' = map turn_core ts \<Longrightarrow> scan_turns i m ts' = scan_turns i m ts"
proof (induction ts' arbitrary: ts m)
  case (Cons t' ts')
  then obtain t us where ts: "ts = t # us" "turn_core t' = turn_core t" "map turn_core ts' = map turn_core us" by auto
  from turn_core_fields [OF ts(2)] Cons.IH [OF ts(3)] show ?case by (simp add: ts(1) split: option.split)
qed simp

lemma find_core:
  "map turn_core ts' = map turn_core ts \<Longrightarrow>
     map_option stnRunID (find (\<lambda>t. stnOperationID t = i) ts') = map_option stnRunID (find (\<lambda>t. stnOperationID t = i) ts)"
proof (induction ts' arbitrary: ts)
  case (Cons t' ts')
  then obtain t us where ts: "ts = t # us" "turn_core t' = turn_core t" "map turn_core ts' = map turn_core us" by auto
  from turn_core_fields [OF ts(2)] Cons.IH [OF ts(3)] show ?case by (simp add: ts(1))
qed simp

lemma wire_session_same:
  assumes "wire_session st = Some w"
  shows "map turn_core (seTurns w) = map turn_core (seTurns st)" and "sePending w = sePending st" and "seRevision w = seRevision st"
    and "seID w = seID st" and "seWorkDir w = seWorkDir st" and "validateSession i w = validateSession i st" and "op_run w = op_run st"
proof -
  from assms obtain ms ts where w: "w = st\<lparr>seMessages := ms, seTurns := ts\<rparr>" and t: "wire_list wire_turn (seTurns st) = Some ts"
    by (auto simp: wire_session_def split: option.splits)
  from wire_list_map [OF t wire_turn_core] have core: "map turn_core ts = map turn_core (seTurns st)" .
  then show "map turn_core (seTurns w) = map turn_core (seTurns st)" by (simp add: w)
  show "sePending w = sePending st" "seRevision w = seRevision st" "seID w = seID st" "seWorkDir w = seWorkDir st" by (simp_all add: w)
  show "validateSession i w = validateSession i st" by (simp add: validateSession_def w scan_turns_core [OF core] split: sum.split option.split)
  show "op_run w = op_run st"
  proof
    fix i
    have "seTurns w = ts" and "sePending w = sePending st" by (simp_all add: w)
    then show "op_run w i = op_run st i" unfolding op_run_def by (simp only: find_core [OF core, of i])
  qed
qed

lemma newSession_fields [simp]: "seID (newSession i dir n) = i" "seTurns (newSession i dir n) = []" "sePending (newSession i dir n) = None"
  by (simp_all add: newSession_def)

section \<open>Writes\<close>

lemma readSession_Some: "readSession i d = Inr (Some st) \<longleftrightarrow> readJSON d (sessionPath i) = Inr st \<and> validateSession i st = None"
  by (auto simp: readSession_def split: sum.splits option.splits if_splits)

lemma write_session_cases:
  assumes "writeSession x st d = (r, d')" and "validateSession (seID st) st = None"
  obtains (kept) "d' = d" and "r \<noteq> None"
  | (written) w where "wire_session st = Some w" and "d' = AList.update (sessionPath (seID st)) (Record w) d"
proof (cases "wire_session st")
  case None
  with assms kept show ?thesis by (auto simp: writeSession_def)
next
  case (Some w)
  show ?thesis
  proof (cases x)
    case Io_early
    with Some assms kept show ?thesis by (auto simp: writeSession_def atomicWrite_def)
  next
    case Io_late
    with Some assms written show ?thesis by (auto simp: writeSession_def atomicWrite_def)
  next
    case Io_ok
    with Some assms have "d' = AList.update (sessionPath (seID st)) (Record w) d"
      by (auto simp: writeSession_def atomicWrite_def split: sum.splits option.splits if_splits)
    with Some written show ?thesis by blast
  qed
qed

lemma written_read:
  assumes "wire_session st = Some w" and "validateSession (seID st) st = None"
  shows "readSession (seID st) (AList.update (sessionPath (seID st)) (Record w) d) = Inr (Some w)"
  using assms(2) wire_session_same(6) [OF assms(1)] by (simp add: readSession_Some readJSON_update)

lemma sessionPath_inj: "sessionPath i = sessionPath j \<longleftrightarrow> i = j"
  by (simp add: sessionPath_def)

lemma write_le:
  assumes "writeSession x st d = (r, d')" and "validateSession (seID st) st = None"
    and "\<And>st0. readSession (seID st) d = Inr (Some st0) \<Longrightarrow> session_le st0 st"
  shows "sessions_le d d'"
  using assms(1,2)
proof (cases rule: write_session_cases)
  case kept
  then show ?thesis by (simp add: sessions_le_refl)
next
  case (written w)
  note same = wire_session_same [OF written(1)]
  show ?thesis unfolding sessions_le_def
  proof (intro allI impI)
    fix i st0 assume r: "readSession i d = Inr (Some st0)"
    show "\<exists>st'. readSession i d' = Inr (Some st') \<and> session_le st0 st'"
    proof (cases "i = seID st")
      case True
      with r assms(3) have "session_le st0 st" by simp
      then have "session_le st0 w" using same by (simp add: session_le_def)
      with True written_read [OF written(1) assms(2)] written(2) show ?thesis by auto
    next
      case False
      with r written(2) session_le_refl show ?thesis by (auto simp: readSession_Some readJSON_update sessionPath_inj)
    qed
  qed
qed

section \<open>The operations\<close>

lemma scan_turns_snoc:
  "scan_turns i m (ts @ [t]) = (case scan_turns i m ts of Inl err \<Rightarrow> Inl err | Inr m' \<Rightarrow> scan_turns i m' [t])"
  by (induction ts arbitrary: m) (auto split: sum.splits)

lemma scan_turns_keys: "scan_turns i m ts = Inr m' \<Longrightarrow> mget m' k \<noteq> None \<longleftrightarrow> mget m k \<noteq> None \<or> k \<in> stnOperationID ` set ts"
  by (induction ts arbitrary: m) (auto split: if_splits option.splits)

lemma find_none: "find (\<lambda>t. stnOperationID t = k) ts = None \<longleftrightarrow> k \<notin> stnOperationID ` set ts"
  by (auto simp: find_None_iff)

text \<open>The clock never shows Go's zero time.\<close>

definition clock_set :: "env \<Rightarrow> bool" where
  "clock_set e \<longleftrightarrow> (\<forall>k. clk e k \<noteq> 0)"

lemma validate_pending:
  assumes "safeID i" and "pr \<noteq> []" and "dg \<noteq> []" and "run \<noteq> []" and "n \<noteq> 0" and "t \<noteq> 0" and "0 \<le> seRevision st"
    and "i \<notin> stnOperationID ` set (seTurns st)"
    and "seVersion st = seVersion_const" and "seWorkDir st \<noteq> []" and "seCreatedAt st \<noteq> 0" and "\<exists>m. scan_turns (seID st) [] (seTurns st) = Inr m"
  shows "validateSession (seID st) (st\<lparr>sePending := Some \<lparr>pnOperationID = i, pnPrompt = pr, pnSemanticSHA = dg, pnRunID = run,
      pnBaseRevision = b, pnStartedAt = t\<rparr>, seRevision := seRevision st + 1, seUpdatedAt := n\<rparr>) = None"
proof -
  from assms(12) obtain m where m: "scan_turns (seID st) [] (seTurns st) = Inr m" by blast
  from scan_turns_keys [OF m, of i] assms(8) have "mget m i = None" by auto
  with m assms show ?thesis by (simp add: validateSession_def)
qed

lemma session_valid_fields:
  assumes "validateSession i st = None"
  shows "seVersion st = seVersion_const" and "seID st = i" and "seWorkDir st \<noteq> []" and "0 < seRevision st" and "seCreatedAt st \<noteq> 0"
    and "\<exists>m. scan_turns i [] (seTurns st) = Inr m"
    and "sePending st = Some p \<Longrightarrow> safeID (pnOperationID p) \<and> pnSemanticSHA p \<noteq> [] \<and> pnOperationID p \<notin> stnOperationID ` set (seTurns st)"
proof -
  from assms obtain m where m: "scan_turns i [] (seTurns st) = Inr m" by (auto simp: validateSession_def split: if_splits sum.splits)
  with assms show "seVersion st = seVersion_const" "seID st = i" "seWorkDir st \<noteq> []" "0 < seRevision st" "seCreatedAt st \<noteq> 0"
    "\<exists>m. scan_turns i [] (seTurns st) = Inr m" by (auto simp: validateSession_def split: if_splits)
  show "safeID (pnOperationID p) \<and> pnSemanticSHA p \<noteq> [] \<and> pnOperationID p \<notin> stnOperationID ` set (seTurns st)" if "sePending st = Some p"
    using assms m that scan_turns_keys [OF m, of "pnOperationID p"] by (auto simp: validateSession_def split: if_splits)
qed

text \<open>A session is ready for a new turn: it was read from its file, or there is none yet.\<close>

definition ready_session :: "sessionDir \<Rightarrow> ChatSession \<Rightarrow> bool" where
  "ready_session d st \<longleftrightarrow> readSession (seID st) d = Inr (Some st) \<or>
     (readSession (seID st) d = Inr None \<and> (\<exists>dir n. st = newSession (seID st) dir n \<and> dir \<noteq> [] \<and> n \<noteq> 0))"

definition holds_run :: "string \<Rightarrow> string \<Rightarrow> string \<Rightarrow> sessionDir \<Rightarrow> bool" where
  "holds_run s i run d \<longleftrightarrow> (\<exists>st. readSession s d = Inr (Some st) \<and> op_run st i = Some run)"

lemma holds_run_le: "holds_run s i run d \<Longrightarrow> sessions_le d d' \<Longrightarrow> holds_run s i run d'"
  unfolding holds_run_def sessions_le_def session_le_def by blast

lemma admitNew_effect:
  assumes "admitNew e i prompt digest runID st d = (r, d')" and "ready_session d st" and "clock_set e" and "safeID i" and "prompt \<noteq> []"
    and "digest \<noteq> []" and "find (\<lambda>t. stnOperationID t = i) (seTurns st) = None" and "sePending st = None"
  shows "sessions_le d d' \<and> (\<forall>a. r = Inr a \<longrightarrow> holds_run (seID st) i (admitted_run a) d')"
proof -
  define run where "run = (if runID = [] then newRunID (seID st) (ent e 0) else runID)"
  define p where "p = \<lparr>pnOperationID = i, pnPrompt = prompt, pnSemanticSHA = digest, pnRunID = run, pnBaseRevision = seRevision st, pnStartedAt = clk e 1\<rparr>"
  define st1 where "st1 = st\<lparr>sePending := Some p, seRevision := seRevision st + 1, seUpdatedAt := clk e 1\<rparr>"
  have eq: "admitNew e i prompt digest runID st d = (case sessionValidateID run of Some err \<Rightarrow> (Inl (Wrap ''invalid run id'' err), d) | None \<Rightarrow>
      (case writeSession (wio e) st1 d of (Some err, d1) \<Rightarrow> (Inl err, d1)
       | (None, d1) \<Rightarrow> (Inr \<lparr>adState = st1, adPending = p, adCached = None, adResuming = False\<rparr>, d1)))"
    unfolding admitNew_def Let_def run_def p_def st1_def by (rule refl)
  show ?thesis
  proof (cases "safeID run")
    case False
    with assms(1) eq show ?thesis by (auto simp: sessionValidateID_def sessions_le_refl)
  next
    case True
    then have ne: "run \<noteq> []" by (rule safeID_nonempty)
    have clock: "clk e 1 \<noteq> 0" using assms(3) unfolding clock_set_def by blast
    have fields: "seVersion st = seVersion_const \<and> seWorkDir st \<noteq> [] \<and> seCreatedAt st \<noteq> 0 \<and> 0 \<le> seRevision st \<and>
        (\<exists>m. scan_turns (seID st) [] (seTurns st) = Inr m)"
      using assms(2) session_valid_fields [of "seID st" st] unfolding ready_session_def
    proof (elim disjE conjE exE)
      fix dir n assume "st = newSession (seID st) dir n" "dir \<noteq> []" "n \<noteq> 0"
      then have "st = newSession (seID st) dir n \<and> dir \<noteq> [] \<and> n \<noteq> 0" by blast
      then show ?thesis by (metis (no_types, lifting) newSession_def ChatSession.select_convs(1,3,4,6,8) order_refl scan_turns.simps(1))
    qed (auto simp: readSession_Some)
    have v: "validateSession (seID st1) st1 = None"
      unfolding st1_def p_def using validate_pending [OF assms(4-6) ne clock clock, of st] fields iffD1 [OF find_none assms(7)] by simp
    have run: "op_run st1 i = Some run" using assms(7) by (simp add: op_run_def st1_def p_def)
    have le: "session_le st0 st1" if "readSession (seID st1) d = Inr (Some st0)" for st0
    proof -
      from that assms(2) have "st0 = st" by (auto simp: ready_session_def st1_def)
      moreover have "op_run st1 j = Some x" if "op_run st j = Some x" for j x
        using that assms(8) by (auto simp: op_run_def st1_def split: option.splits)
      ultimately show ?thesis by (auto simp: session_le_def st1_def)
    qed
    obtain x d1 where w: "writeSession (wio e) st1 d = (x, d1)" by fastforce
    from assms(1) True w have r: "d' = d1" "r = (case x of Some err \<Rightarrow> Inl err | None \<Rightarrow> Inr \<lparr>adState = st1, adPending = p, adCached = None, adResuming = False\<rparr>)"
      unfolding eq by (auto simp: sessionValidateID_def split: option.splits)
    have "holds_run (seID st) i run d1" if "x = None"
      using w v
    proof (cases rule: write_session_cases)
      case kept
      with that show ?thesis by simp
    next
      case (written s)
      have "seID st1 = seID st" by (simp add: st1_def)
      with written_read [OF written(1) v] wire_session_same(7) [OF written(1)] run written(2) show ?thesis by (auto simp: holds_run_def)
    qed
    with r write_le [OF w v le] show ?thesis by (auto simp: admitted_run_def p_def split: option.splits)
  qed
qed

lemma admit_effect:
  assumes "admit e i prompt digest runID st d = (r, d')" and "ready_session d st" and "clock_set e" and "safeID i" and "prompt \<noteq> []"
    and "digest \<noteq> []"
  shows "sessions_le d d' \<and> (\<forall>a. r = Inr a \<longrightarrow> holds_run (seID st) i (admitted_run a) d')"
proof (cases "find (\<lambda>t. stnOperationID t = i) (seTurns st) = None \<and> sePending st = None")
  case True
  with assms(1) have "admitNew e i prompt digest runID st d = (r, d')" by (simp add: admit_def)
  from admitNew_effect [OF this assms(2-6) conjunct1 [OF True] conjunct2 [OF True]] show ?thesis .
next
  case False
  with assms(2) have r: "readSession (seID st) d = Inr (Some st)" unfolding ready_session_def by (metis find.simps(1) newSession_fields(2,3))
  have "d' = d \<and> (\<forall>a. r = Inr a \<longrightarrow> op_run st i = Some (admitted_run a))"
    using False assms(1) by (auto simp: admit_def op_run_def admitted_run_def split: option.splits if_splits)
  with r sessions_le_refl show ?thesis unfolding holds_run_def by blast
qed

lemma begin_effect:
  assumes "BeginSession e wd s i prompt runID attrs d = (r, d')" and "clock_set e" and "wd \<noteq> Inr []"
  shows "sessions_le d d' \<and> (\<forall>a. r = Inr a \<longrightarrow> holds_run s i (admitted_run a) d')"
proof (cases "r = Inl (projl r) \<and> d' = d")
  case True
  then show ?thesis by (metis Inl_Inr_False sessions_le_refl)
next
  case False
  let ?digest = "semanticDigest (TrimSpace prompt) attrs"
  have digest: "?digest \<noteq> []" by (simp add: semanticDigest_def safeDigest_nonempty)
  obtain dir st where a: "admit e i (TrimSpace prompt) ?digest runID st d = (r, d')" and i: "safeID i" "TrimSpace prompt \<noteq> []"
    and st: "seID st = s" "readSession s d = Inr (Some st) \<or> readSession s d = Inr None \<and> st = newSession s dir (clk e 0)" "wd = Inr dir"
  proof (cases "readSession s d")
    case (Inl err)
    with False assms(1) show ?thesis by (auto simp: BeginSession_def Let_def split: if_splits sum.splits option.splits)
  next
    case (Inr found)
    show ?thesis
    proof (cases found)
      case None
      with Inr False assms(1) that [of "newSession s (projr wd) (clk e 0)" "projr wd"] show ?thesis
        by (auto simp: BeginSession_def Let_def sessionValidateID_def split: if_splits sum.splits option.splits)
    next
      case (Some st)
      with Inr have "seID st = s" by (auto simp: readSession_Some dest: session_valid_fields(2))
      with Some Inr False assms(1) that [of st "projr wd"] show ?thesis
        by (auto simp: BeginSession_def Let_def sessionValidateID_def split: if_splits sum.splits option.splits)
    qed
  qed
  have "ready_session d st" using st assms(2,3) unfolding ready_session_def clock_set_def by blast
  from admit_effect [OF a this assms(2) i digest] show ?thesis using st(1) by simp
qed

lemma commit_effect:
  assumes "CommitSession e s i expected res d = (r, d')" and "clock_set e"
  shows "sessions_le d d'"
proof (cases "d' = d")
  case True
  then show ?thesis by (simp add: sessions_le_refl)
next
  case False
  with assms(1) obtain st p x where st: "readSession s d = Inr (Some st)" and p: "sePending st = Some p" and i: "pnOperationID p = i" "pnRunID p = rrRunID res"
    and ok: "rrRunID res \<noteq> []" "reason_text (rrReason res) \<noteq> []" "rrCompletedAt res \<noteq> 0"
    and w: "writeSession (wio e) (st\<lparr>seMessages := rrMessages res, seTurns := seTurns st @ [turnOf p res], sePending := None,
       seRevision := seRevision st + 1, seUpdatedAt := clk e 0\<rparr>) d = (x, d')"
    by (auto simp: CommitSession_def Let_def split: if_splits sum.splits option.splits prod.splits)
  let ?st = "st\<lparr>seMessages := rrMessages res, seTurns := seTurns st @ [turnOf p res], sePending := None,
       seRevision := seRevision st + 1, seUpdatedAt := clk e 0\<rparr>"
  from st have v: "validateSession s st = None" by (simp add: readSession_Some)
  note f = session_valid_fields [OF v]
  from f(6) obtain m where m: "scan_turns s [] (seTurns st) = Inr m" by blast
  from f(7) [OF p] scan_turns_keys [OF m, of "pnOperationID p"] have new: "mget m (pnOperationID p) = None" "safeID (pnOperationID p)" "pnSemanticSHA p \<noteq> []" by auto
  have clock: "clk e 0 \<noteq> 0" using assms(2) unfolding clock_set_def by blast
  have "scan_turns s [] (seTurns st @ [turnOf p res]) = Inr (mput (pnOperationID p) (pnSemanticSHA p) m)"
    using new ok by (simp add: scan_turns_snoc m turnOf_def)
  then have v1: "validateSession (seID ?st) ?st = None" using f(1-5) clock by (simp add: validateSession_def)
  have "session_le st ?st"
  proof -
    have "op_run ?st j = Some y" if "op_run st j = Some y" for j y
    proof (cases "find (\<lambda>t. stnOperationID t = j) (seTurns st)")
      case None
      with that p i(2) show ?thesis by (auto simp: op_run_def find_append turnOf_def split: if_splits)
    next
      case (Some t)
      with that show ?thesis by (simp add: op_run_def find_append)
    qed
    then show ?thesis by (simp add: session_le_def)
  qed
  with st f(2) have "\<And>st0. readSession (seID ?st) d = Inr (Some st0) \<Longrightarrow> session_le st0 ?st" by simp
  from write_le [OF w v1 this] show ?thesis .
qed

section \<open>Sequences of calls\<close>

datatype session_call = SBegin env "go_error + string" string string string string string | SCommit env string string int EngineRunResult

fun do_session :: "session_call \<Rightarrow> sessionDir \<Rightarrow> (go_error + Admission + ChatSession) \<times> sessionDir" where
  "do_session (SBegin e wd s i prompt runID attrs) d = apfst (map_sum id Inl) (BeginSession e wd s i prompt runID attrs d)"
| "do_session (SCommit e s i expected res) d = apfst (map_sum id Inr) (CommitSession e s i expected res d)"

text \<open>The clock never shows Go's zero time, and an absolute path is not empty.\<close>

fun call_ok :: "session_call \<Rightarrow> bool" where
  "call_ok (SBegin e wd s i prompt runID attrs) = (clock_set e \<and> wd \<noteq> Inr [])"
| "call_ok (SCommit e s i expected res) = clock_set e"

lemma session_calls_le: "list_all call_ok calls \<Longrightarrow> sessions_le d (run_steps do_session calls d)"
proof (induction calls arbitrary: d)
  case (Cons c calls)
  have "sessions_le d (snd (do_session c d))"
    using Cons.prems by (cases c) (auto dest: begin_effect [OF prod.collapse [symmetric]] commit_effect [OF prod.collapse [symmetric]])
  with Cons.IH [of "snd (do_session c d)"] Cons.prems sessions_le_trans show ?case by auto
qed (simp add: sessions_le_refl)

text \<open>C36. An operation of a session has one run: when \<open>Begin\<close> has admitted it, every later \<open>Begin\<close> of the same session and operation
  that succeeds, with whatever run id and prompt it asks for and after any calls with any write failures, resumes
  that run or gives the completed turn of that run.\<close>

theorem operation_one_run:
  assumes "BeginSession e wd s i prompt runID attrs d = (Inr a, d1)" and "clock_set e" and "wd \<noteq> Inr []" and "list_all call_ok calls"
    and "BeginSession e' wd' s i prompt' runID' attrs' (run_steps do_session calls d1) = (Inr b, d2)" and "clock_set e'" and "wd' \<noteq> Inr []"
  shows "admitted_run b = admitted_run a"
proof -
  from begin_effect [OF assms(1-3)] have "holds_run s i (admitted_run a) d1" by blast
  then have "holds_run s i (admitted_run a) (run_steps do_session calls d1)" using session_calls_le [OF assms(4)] by (rule holds_run_le)
  moreover from begin_effect [OF assms(5-7)] have "sessions_le (run_steps do_session calls d1) d2" "holds_run s i (admitted_run b) d2" by blast+
  ultimately have "holds_run s i (admitted_run a) d2" using holds_run_le by blast
  with \<open>holds_run s i (admitted_run b) d2\<close> show ?thesis by (auto simp: holds_run_def)
qed

text \<open>A new session, begun twice with the same prompt and with different run ids.\<close>

definition demo_session :: "string \<Rightarrow> ChatSession" where
  "demo_session dg = \<lparr>seVersion = seVersion_const, seID = ''s1'', seWorkDir = ''/w'', seRevision = 1, seMessages = [], seTurns = [],
     sePending = Some \<lparr>pnOperationID = ''o1'', pnPrompt = ''hi'', pnSemanticSHA = dg, pnRunID = ''r1'', pnBaseRevision = 0, pnStartedAt = 100\<rparr>,
     seCreatedAt = 100, seUpdatedAt = 100\<rparr>"

lemma demo_chars: "is_alnum CHR ''s''" "is_alnum CHR ''o''" "is_alnum CHR ''r''" "safe_char CHR ''1''" "safe_char CHR ''2''"
  by code_simp+

lemma demo_session_valid: "dg \<noteq> [] \<Longrightarrow> validateSession ''s1'' (demo_session dg) = None"
  by (simp add: validateSession_def demo_session_def demo_chars)

definition demo_sessions :: "string \<Rightarrow> sessionDir" where
  "demo_sessions dg = AList.update (sessionPath ''s1'') (Record (demo_session dg)) []"

lemma demo_session_read: "dg \<noteq> [] \<Longrightarrow> readSession ''s1'' (demo_sessions dg) = Inr (Some (demo_session dg))"
  by (simp only: readSession_Some demo_sessions_def readJSON_update demo_session_valid simp_thms if_True)

lemma demo_session_fields: "seID (demo_session dg) = ''s1''" "seWorkDir (demo_session dg) = ''/w''" "seTurns (demo_session dg) = []"
  "seMessages (demo_session dg) = []"
  "sePending (demo_session dg) = Some \<lparr>pnOperationID = ''o1'', pnPrompt = ''hi'', pnSemanticSHA = dg, pnRunID = ''r1'', pnBaseRevision = 0,
     pnStartedAt = 100\<rparr>"
  by (simp_all add: demo_session_def)

lemma demo_session_write: "dg \<noteq> [] \<Longrightarrow> writeSession Io_ok (demo_session dg) [] = (None, demo_sessions dg)"
proof -
  assume dg: "dg \<noteq> []"
  have "demo_session dg\<lparr>seMessages := [], seTurns := []\<rparr> = demo_session dg" by (simp add: demo_session_def)
  then have w: "wire_session (demo_session dg) = Some (demo_session dg)" by (simp add: wire_session_def demo_session_fields)
  have "atomicWrite Io_ok (sessionPath ''s1'') (demo_session dg) [] = (None, demo_sessions dg)" unfolding atomicWrite_def demo_sessions_def by simp
  with demo_session_read [OF dg] w show ?thesis by (simp add: writeSession_def demo_session_fields)
qed

lemma demo_session_new: "readSession ''s1'' [] = Inr None"
  by (simp add: readSession_def readJSON_def)

lemma demo_trim_hi: "TrimSpace ''hi'' = ''hi''"
  by code_simp

lemma demo_clock: "clock_set demo_env"
  by (simp add: clock_set_def demo_env_def)

lemma demo_begin:
  assumes "dg = semanticDigest ''hi'' []" and "dg \<noteq> []"
  shows "\<exists>a. BeginSession demo_env (Inr ''/w'') ''s1'' ''o1'' ''hi'' ''r1'' [] [] = (Inr a, demo_sessions dg) \<and> admitted_run a = ''r1''"
proof -
  have st: "newSession ''s1'' ''/w'' 100\<lparr>sePending := Some \<lparr>pnOperationID = ''o1'', pnPrompt = ''hi'', pnSemanticSHA = dg, pnRunID = ''r1'',
      pnBaseRevision = 0, pnStartedAt = 100\<rparr>, seRevision := 1, seUpdatedAt := 100\<rparr> = demo_session dg"
    by (simp add: newSession_def demo_session_def)
  have "seRevision (newSession ''s1'' ''/w'' 100) = 0" by (simp add: newSession_def)
  then have n: "admitNew demo_env ''o1'' ''hi'' dg ''r1'' (newSession ''s1'' ''/w'' 100) [] = (Inr \<lparr>adState = demo_session dg,
      adPending = \<lparr>pnOperationID = ''o1'', pnPrompt = ''hi'', pnSemanticSHA = dg, pnRunID = ''r1'', pnBaseRevision = 0, pnStartedAt = 100\<rparr>,
      adCached = None, adResuming = False\<rparr>, demo_sessions dg)"
    using st demo_session_write [OF assms(2)] by (simp add: admitNew_def Let_def sessionValidateID_def demo_chars demo_env_def)
  show ?thesis
    using n by (simp add: BeginSession_def Let_def sessionValidateID_def demo_chars demo_trim_hi demo_session_new admit_def admitted_run_def
        assms(1) [symmetric] demo_env_def)
qed

lemma demo_resume:
  assumes "dg = semanticDigest ''hi'' []" and "dg \<noteq> []"
  shows "\<exists>b. BeginSession demo_env (Inr ''/w'') ''s1'' ''o1'' ''hi'' ''r2'' [] (demo_sessions dg) = (Inr b, demo_sessions dg)"
  by (simp add: BeginSession_def Let_def sessionValidateID_def demo_chars demo_trim_hi demo_session_read [OF assms(2)] demo_session_fields admit_def
      assms(1) [symmetric])

lemma demo_busy:
  assumes "dg \<noteq> []"
  shows "snd (BeginSession demo_env (Inr ''/w'') ''s1'' ''o2'' ''hi'' ''r3'' [] (demo_sessions dg)) = demo_sessions dg"
  by (simp add: BeginSession_def Let_def sessionValidateID_def demo_chars demo_trim_hi demo_session_read [OF assms] demo_session_fields admit_def)

theorem operation_one_run_witness:
  "\<exists>a b d d'. BeginSession demo_env (Inr ''/w'') ''s1'' ''o1'' ''hi'' ''r1'' [] [] = (Inr a, d) \<and>
     BeginSession demo_env (Inr ''/w'') ''s1'' ''o1'' ''hi'' ''r2'' []
       (run_steps do_session [SBegin demo_env (Inr ''/w'') ''s1'' ''o2'' ''hi'' ''r3'' []] d) = (Inr b, d') \<and>
     admitted_run a = ''r1'' \<and> admitted_run b = ''r1''"
proof -
  define dg where "dg = semanticDigest ''hi'' []"
  have ne: "dg \<noteq> []" by (simp add: dg_def semanticDigest_def safeDigest_nonempty)
  let ?calls = "[SBegin demo_env (Inr ''/w'') ''s1'' ''o2'' ''hi'' ''r3'' []]"
  obtain a where a: "BeginSession demo_env (Inr ''/w'') ''s1'' ''o1'' ''hi'' ''r1'' [] [] = (Inr a, demo_sessions dg)" "admitted_run a = ''r1''"
    using demo_begin [OF dg_def ne] by blast
  have between: "run_steps do_session ?calls (demo_sessions dg) = demo_sessions dg"
    using demo_busy [OF ne] by (simp add: apfst_def map_prod_def split_beta)
  obtain b where b: "BeginSession demo_env (Inr ''/w'') ''s1'' ''o1'' ''hi'' ''r2'' [] (run_steps do_session ?calls (demo_sessions dg)) =
      (Inr b, demo_sessions dg)"
    using demo_resume [OF dg_def ne] unfolding between by blast
  have "list_all call_ok ?calls" by (simp add: demo_clock)
  from operation_one_run [OF a(1) demo_clock _ this b demo_clock] a(2) have "admitted_run b = ''r1''" by simp
  with a b show ?thesis by blast
qed

end
