(* ===== verification/Plans.thy ===== *)
theory Plans
  imports Ledger GoTime
begin

text \<open>
  The package plan (internal/plan/store.go): the plan of a scope, replaced as a whole under its expected revision, with two projections for people,
  PLAN.md and TODO.md, which are written after it and again with every read. One directory per scope, named by the digest of the scope.
\<close>

section \<open>Data\<close>

definition plErrConflict :: go_error where
  "plErrConflict = Sentinel ''plan revision conflict''"

text \<open>A status is a string, of which four are valid.\<close>

datatype StepStatus = StepPending | StepInProgress | StepCompleted | StepBlocked | OtherStepStatus string

fun step_status_text :: "StepStatus \<Rightarrow> string" where
  "step_status_text StepPending = ''pending''"
| "step_status_text StepInProgress = ''in_progress''"
| "step_status_text StepCompleted = ''completed''"
| "step_status_text StepBlocked = ''blocked''"
| "step_status_text (OtherStepStatus s) = s"

record PlanStep =
  pstID :: string
  pstTitle :: string
  pstStatus :: StepStatus
  pstNote :: string

record PlanState =
  plVersion :: int
  plScope :: string
  plRevision :: int
  plObjective :: string
  plSteps :: "PlanStep list"
  plLastOperationID :: string
  plLastFingerprint :: string
  plCreatedAt :: time
  plUpdatedAt :: time

record PlanUpdate =
  puScope :: string
  puOperationID :: string
  puExpectedRevision :: int
  puObjective :: string
  puSteps :: "PlanStep list"

text \<open>The files of the store: the plans and the texts.\<close>

record planDir =
  pdState :: "PlanState dir"
  pdText :: "string dir"

definition scopeDir :: "string \<Rightarrow> string" where
  "scopeDir scope = sha256_hex scope"

definition planPath :: "string \<Rightarrow> string \<Rightarrow> string" where
  "planPath scope name = scopeDir scope @ ''/'' @ name"

section \<open>The plan file\<close>

definition readPlan :: "string \<Rightarrow> planDir \<Rightarrow> go_error + PlanState" where
  "readPlan scope d =
     (case readJSON (pdState d) (planPath scope ''plan.json'') of
        Inl err \<Rightarrow> Inl err
      | Inr st \<Rightarrow>
          if plVersion st \<noteq> 1 \<or> plScope st \<noteq> scope \<or> plRevision st \<le> 0 \<or> plLastOperationID st = [] \<or> plLastFingerprint st = []
          then Inl (Errorf ''invalid canonical plan'') else Inr st)"

definition writePlan :: "io \<Rightarrow> PlanState \<Rightarrow> planDir \<Rightarrow> go_error option \<times> planDir" where
  "writePlan i st d =
     (if json_time (plCreatedAt st) = None \<or> json_time (plUpdatedAt st) = None then (Some IOError, d)
      else (case atomicWrite i (planPath (plScope st) ''plan.json'') st (pdState d) of (err, s) \<Rightarrow> (err, d\<lparr>pdState := s\<rparr>)))"

section \<open>The projections\<close>

fun statusMark :: "StepStatus \<Rightarrow> string" where
  "statusMark StepCompleted = ''x''"
| "statusMark StepInProgress = ''>''"
| "statusMark StepBlocked = ''!''"
| "statusMark s = '' ''"

definition newline :: string where
  "newline = [CHR 0x0A]"

definition noteText :: "PlanStep \<Rightarrow> string" where
  "noteText st = (if pstNote st = [] then [] else '' '' @ [CHR 0xE2, CHR 0x80, CHR 0x94] @ '' '' @ pstNote st)"

definition planLine :: "PlanStep \<Rightarrow> string" where
  "planLine st = ''- ['' @ statusMark (pstStatus st) @ ''] **'' @ pstID st @ ''**: '' @ pstTitle st @ noteText st @ newline"

definition todoLine :: "PlanStep \<Rightarrow> string" where
  "todoLine st = ''- ['' @ statusMark (pstStatus st) @ ''] '' @ pstTitle st @ '' ('' @ pstID st @ '')'' @ noteText st @ newline"

definition planText :: "PlanState \<Rightarrow> string" where
  "planText st = ''# Plan'' @ newline @ newline @ ''Objective: '' @ plObjective st @ newline @ newline @ ''Revision: '' @ dec_int (plRevision st) @
     newline @ newline @ concat (map planLine (plSteps st))"

definition todoText :: "PlanState \<Rightarrow> string" where
  "todoText st = ''# TODO'' @ newline @ newline @ ''Objective: '' @ plObjective st @ newline @ newline @
     concat (map todoLine (filter (\<lambda>s. pstStatus s \<noteq> StepCompleted) (plSteps st)))"

text \<open>\<open>w\<close> gives the outcomes of the two writes; a directory that cannot be made is a first write that fails early.\<close>

definition repairProjections :: "(nat \<Rightarrow> io) \<Rightarrow> PlanState \<Rightarrow> planDir \<Rightarrow> go_error option \<times> planDir" where
  "repairProjections w st d =
     (case atomicWrite (w 0) (planPath (plScope st) ''PLAN.md'') (planText st) (pdText d) of
        (Some err, t) \<Rightarrow> (Some err, d\<lparr>pdText := t\<rparr>)
      | (None, t) \<Rightarrow>
          (case atomicWrite (w 1) (planPath (plScope st) ''TODO.md'') (todoText st) t of (err, t') \<Rightarrow> (err, d\<lparr>pdText := t'\<rparr>)))"

section \<open>Operations\<close>

definition GetPlan :: "(nat \<Rightarrow> io) \<Rightarrow> string \<Rightarrow> planDir \<Rightarrow> (go_error + PlanState) \<times> planDir" where
  "GetPlan w scope d =
     (if TrimSpace scope = [] then (Inl (Errorf ''plan scope is required''), d) else
      (case readPlan scope d of Inl err \<Rightarrow> (Inl err, d) | Inr st \<Rightarrow>
       (case repairProjections w st d of (Some err, d1) \<Rightarrow> (Inl err, d1) | (None, d1) \<Rightarrow> (Inr st, d1))))"

fun valid_status :: "StepStatus \<Rightarrow> bool" where
  "valid_status (OtherStepStatus s) = False"
| "valid_status _ = True"

definition trimStep :: "PlanStep \<Rightarrow> PlanStep" where
  "trimStep st = st\<lparr>pstID := TrimSpace (pstID st), pstTitle := TrimSpace (pstTitle st), pstNote := TrimSpace (pstNote st)\<rparr>"

text \<open>The loop over the steps; \<open>k\<close> is the index.\<close>

fun checkSteps :: "int \<Rightarrow> string list \<Rightarrow> PlanStep list \<Rightarrow> go_error + PlanStep list" where
  "checkSteps k seen [] = Inr []"
| "checkSteps k seen (st0 # sts) =
     (let st = trimStep st0 in
      if \<not> safeID (pstID st) \<or> pstTitle st = [] \<or> pstID st \<in> set seen
      then Inl (Errorf (''step '' @ dec_int k @ '' has an invalid or duplicate id/title''))
      else if \<not> valid_status (pstStatus st)
      then Inl (Errorf (''step '' @ pstID st @ '' has invalid status '' @ step_status_text (pstStatus st)))
      else map_sum id ((#) st) (checkSteps (k + 1) (pstID st # seen) sts))"

definition step_json :: "PlanStep \<Rightarrow> json" where
  "step_json st = JObj ([(''id'', JStr (pstID st)), (''title'', JStr (pstTitle st)), (''status'', JStr (step_status_text (pstStatus st)))] @
     jomit ''note'' (pstNote st))"

definition updateFingerprint :: "PlanUpdate \<Rightarrow> string" where
  "updateFingerprint u = sha256_hex (json_text (JObj [(''scope'', JStr (puScope u)), (''objective'', JStr (puObjective u)),
     (''steps'', JArr (map step_json (puSteps u)))]))"

definition trimUpdate :: "PlanUpdate \<Rightarrow> PlanUpdate" where
  "trimUpdate u = u\<lparr>puScope := TrimSpace (puScope u), puOperationID := TrimSpace (puOperationID u), puObjective := TrimSpace (puObjective u)\<rparr>"

text \<open>The checks before the lock is taken.\<close>

definition prepareUpdate :: "PlanUpdate \<Rightarrow> go_error + PlanUpdate" where
  "prepareUpdate u0 =
     (let u = trimUpdate u0 in
      if puScope u = [] \<or> \<not> safeID (puOperationID u) \<or> puObjective u = [] \<or> puExpectedRevision u < 0
      then Inl (Errorf ''scope, safe operation_id, objective, and non-negative expected_revision are required'')
      else if puSteps u = [] \<or> length (puSteps u) > 64 then Inl (Errorf ''plan requires 1-64 steps'')
      else (case checkSteps 0 [] (puSteps u) of Inl err \<Rightarrow> Inl err | Inr sts \<Rightarrow> Inr (u\<lparr>puSteps := sts\<rparr>)))"

definition currentRevision :: "PlanState option \<Rightarrow> int" where
  "currentRevision current = (case current of None \<Rightarrow> 0 | Some st \<Rightarrow> plRevision st)"

definition nextPlan :: "env \<Rightarrow> PlanUpdate \<Rightarrow> PlanState option \<Rightarrow> PlanState" where
  "nextPlan e u current = \<lparr>plVersion = 1, plScope = puScope u, plRevision = currentRevision current + 1,
     plObjective = puObjective u, plSteps = puSteps u, plLastOperationID = puOperationID u, plLastFingerprint = updateFingerprint u,
     plCreatedAt = (case current of None \<Rightarrow> clk e 0 | Some st \<Rightarrow> plCreatedAt st), plUpdatedAt = clk e 1\<rparr>"

text \<open>The canonical file first, then the projections, then the read-back.\<close>

definition storePlan :: "env \<Rightarrow> (nat \<Rightarrow> io) \<Rightarrow> PlanState \<Rightarrow> planDir \<Rightarrow> (go_error + PlanState) \<times> planDir" where
  "storePlan e w st d =
     (case writePlan (wio e) st d of (Some err, d1) \<Rightarrow> (Inl err, d1) | (None, d1) \<Rightarrow>
      (case repairProjections w st d1 of (Some err, d2) \<Rightarrow> (Inl err, d2) | (None, d2) \<Rightarrow>
       (case readPlan (plScope st) d2 of Inl err \<Rightarrow> (Inl err, d2) | Inr v \<Rightarrow>
        (if plRevision v \<noteq> plRevision st \<or> plLastFingerprint v \<noteq> plLastFingerprint st then Inl (Errorf ''plan read-back verification failed'') else Inr v,
         d2))))"

definition revisePlan :: "env \<Rightarrow> (nat \<Rightarrow> io) \<Rightarrow> PlanUpdate \<Rightarrow> PlanState option \<Rightarrow> planDir \<Rightarrow> (go_error + PlanState) \<times> planDir" where
  "revisePlan e w u current d =
     (if currentRevision current \<noteq> puExpectedRevision u
      then (Inl (Wrap (''expected revision '' @ dec_int (puExpectedRevision u) @ '', current revision '' @ dec_int (currentRevision current))
              plErrConflict), d)
      else storePlan e w (nextPlan e u current) d)"

definition UpdatePlan :: "env \<Rightarrow> (nat \<Rightarrow> io) \<Rightarrow> PlanUpdate \<Rightarrow> planDir \<Rightarrow> (go_error + PlanState) \<times> planDir" where
  "UpdatePlan e w u0 d =
     (case prepareUpdate u0 of Inl err \<Rightarrow> (Inl err, d) | Inr u \<Rightarrow>
      (case readPlan (puScope u) d of
         Inl err \<Rightarrow> if errors_Is err os_ErrNotExist then revisePlan e w u None d else (Inl err, d)
       | Inr st \<Rightarrow>
           if plLastOperationID st = puOperationID u
           then (if plLastFingerprint st \<noteq> updateFingerprint u
                 then (Inl (Wrap (''operation '' @ puOperationID u @ '' was reused with different semantics'') plErrConflict), d)
                 else (case repairProjections w st d of (Some err, d1) \<Rightarrow> (Inl err, d1) | (None, d1) \<Rightarrow> (Inr st, d1)))
           else revisePlan e w u (Some st) d))"

end
