(* ===== verification/PlanProps.thy ===== *)
theory PlanProps
  imports Plans
begin

text \<open>
  What the plan store guarantees: the plans of a scope form one line of revisions, whatever clients and failures do, and the
  projections of a plan that a call has returned are those of that plan.
\<close>

section \<open>Files\<close>

lemma repair_state: "repairProjections w st d = (r, d') \<Longrightarrow> pdState d' = pdState d"
  by (auto simp: repairProjections_def split: prod.splits option.splits)

lemma readPlan_state: "pdState d' = pdState d \<Longrightarrow> readPlan scope d' = readPlan scope d"
  by (simp add: readPlan_def)

text \<open>The texts that are read at a scope are those of a plan.\<close>

definition rendered :: "planDir \<Rightarrow> PlanState \<Rightarrow> bool" where
  "rendered d st \<longleftrightarrow> readJSON (pdText d) (planPath (plScope st) ''PLAN.md'') = Inr (planText st) \<and>
     readJSON (pdText d) (planPath (plScope st) ''TODO.md'') = Inr (todoText st)"

lemma repair_renders: "repairProjections w st d = (None, d') \<Longrightarrow> rendered d' st"
  by (auto simp: repairProjections_def rendered_def planPath_def readJSON_update dest!: atomicWrite_None split: prod.splits option.splits)

lemma readPlan_Inr:
  "readPlan scope d = Inr st \<longleftrightarrow> readJSON (pdState d) (planPath scope ''plan.json'') = Inr st \<and> plVersion st = 1 \<and> plScope st = scope \<and>
     0 < plRevision st \<and> plLastOperationID st \<noteq> [] \<and> plLastFingerprint st \<noteq> []"
  by (auto simp: readPlan_def split: sum.splits)

section \<open>The line of revisions\<close>

definition plans_le :: "planDir \<Rightarrow> planDir \<Rightarrow> bool" where
  "plans_le d d' \<longleftrightarrow> (\<forall>scope st. readPlan scope d = Inr st \<longrightarrow>
     (\<exists>st'. readPlan scope d' = Inr st' \<and> (st' = st \<or> plRevision st < plRevision st')))"

lemma plans_le_same: "pdState d' = pdState d \<Longrightarrow> plans_le d d'"
  unfolding plans_le_def by (blast intro: trans [OF readPlan_state])

lemma plans_le_trans:
  assumes "plans_le a b" and "plans_le b c"
  shows "plans_le a c"
  unfolding plans_le_def
proof (intro allI impI)
  fix scope st assume "readPlan scope a = Inr st"
  with assms(1) obtain st1 where "readPlan scope b = Inr st1" and 1: "st1 = st \<or> plRevision st < plRevision st1" unfolding plans_le_def by blast
  with assms(2) obtain st2 where "readPlan scope c = Inr st2" "st2 = st1 \<or> plRevision st1 < plRevision st2" unfolding plans_le_def by blast
  with 1 show "\<exists>st'. readPlan scope c = Inr st' \<and> (st' = st \<or> plRevision st < plRevision st')" by fastforce
qed

text \<open>A plan may be written where no plan is, or over an older plan of the same scope. Two scopes may have one directory.\<close>

lemma write_plan_le:
  assumes "writePlan i st d = (r, d')" and "readPlan (plScope st) (d\<lparr>pdState := [(planPath (plScope st) ''plan.json'', Record st)]\<rparr>) = Inr st"
    and "readPlan (plScope st) d = Inl os_ErrNotExist \<or> (\<exists>old. readPlan (plScope st) d = Inr old \<and> plRevision old < plRevision st)"
  shows "plans_le d d'"
proof -
  from assms(2) have ok: "plVersion st = 1" "0 < plRevision st" "plLastOperationID st \<noteq> []" "plLastFingerprint st \<noteq> []"
    by (simp_all add: readPlan_Inr)
  from assms(1) consider "d' = d" | "pdState d' = AList.update (planPath (plScope st) ''plan.json'') (Record st) (pdState d)"
    by (cases i) (auto simp: writePlan_def atomicWrite_def split: if_splits)
  then show ?thesis
  proof cases
    case 2
    show ?thesis unfolding plans_le_def
    proof (intro allI impI)
      fix scope x assume x: "readPlan scope d = Inr x"
      show "\<exists>st'. readPlan scope d' = Inr st' \<and> (st' = x \<or> plRevision x < plRevision st')"
      proof (cases "planPath scope ''plan.json'' = planPath (plScope st) ''plan.json''")
        case True
        with x have "readJSON (pdState d) (planPath (plScope st) ''plan.json'') = Inr x" "plScope x = scope" by (simp_all add: readPlan_Inr)
        with assms(3) have "scope = plScope st" "plRevision x < plRevision st" by (auto simp: readPlan_def split: if_splits)
        with ok show ?thesis by (auto simp: readPlan_Inr 2 readJSON_update)
      next
        case False
        with x show ?thesis by (auto simp: readPlan_Inr 2 readJSON_update)
      qed
    qed
  qed (simp add: plans_le_same)
qed

lemma sha256_nonempty: "sha256_hex s \<noteq> []"
  by (simp add: safeDigest_nonempty)

lemma revise_effect:
  assumes "revisePlan e w u current d = (r, d')" and "safeID (puOperationID u)"
    and "(current = None \<and> readPlan (puScope u) d = Inl os_ErrNotExist) \<or> (\<exists>old. current = Some old \<and> readPlan (puScope u) d = Inr old)"
  shows "plans_le d d' \<and> (\<forall>st. r = Inr st \<longrightarrow> readPlan (puScope u) d' = Inr st \<and> rendered d' st)"
proof (cases "currentRevision current = puExpectedRevision u")
  case False
  with assms(1) show ?thesis by (auto simp: revisePlan_def plans_le_same)
next
  case True
  let ?st = "nextPlan e u current"
  from assms(1) True have s: "storePlan e w ?st d = (r, d')" by (simp add: revisePlan_def)
  obtain x d1 where x: "writePlan (wio e) ?st d = (x, d1)" by fastforce
  have f: "plScope ?st = puScope u" "plRevision ?st = currentRevision current + 1" "plVersion ?st = 1" "plLastOperationID ?st = puOperationID u"
    "plLastFingerprint ?st \<noteq> []" by (simp_all add: nextPlan_def updateFingerprint_def sha256_nonempty)
  have rev: "0 \<le> currentRevision current" using assms(3) by (auto simp: currentRevision_def readPlan_Inr)
  have le: "plans_le d d1" using x
  proof (rule write_plan_le)
    show "readPlan (plScope ?st) (d\<lparr>pdState := [(planPath (plScope ?st) ''plan.json'', Record ?st)]\<rparr>) = Inr ?st"
      using f rev safeID_nonempty [OF assms(2)] by (simp add: readPlan_def readJSON_def)
    show "readPlan (plScope ?st) d = Inl os_ErrNotExist \<or> (\<exists>old. readPlan (plScope ?st) d = Inr old \<and> plRevision old < plRevision ?st)"
      using assms(3) f(1,2) by (auto simp: currentRevision_def)
  qed
  show ?thesis
  proof (cases x)
    case (Some err)
    with s x le show ?thesis by (auto simp: storePlan_def)
  next
    case None
    obtain y d2 where y: "repairProjections w ?st d1 = (y, d2)" by fastforce
    have le2: "plans_le d d2" using plans_le_trans [OF le plans_le_same] repair_state [OF y] by blast
    show ?thesis
    proof (cases y)
      case (Some err)
      with s x None y le2 show ?thesis by (auto simp: storePlan_def)
    next
      case y0: None
      from x None have "pdState d1 = AList.update (planPath (puScope u) ''plan.json'') (Record ?st) (pdState d)"
        by (auto simp: writePlan_def f(1) dest: atomicWrite_None split: if_splits prod.splits)
      with repair_state [OF y] f rev safeID_nonempty [OF assms(2)] have v: "readPlan (puScope u) d2 = Inr ?st"
        by (simp add: readPlan_Inr readJSON_update)
      with s x None y y0 f(1) have "r = Inr ?st" "d' = d2" by (simp_all add: storePlan_def)
      with v le2 repair_renders [OF y [unfolded y0]] show ?thesis by simp
    qed
  qed
qed

lemma prepare_fields:
  "prepareUpdate u0 = Inr u \<Longrightarrow> puScope u = TrimSpace (puScope u0) \<and> puOperationID u = TrimSpace (puOperationID u0) \<and> safeID (puOperationID u)"
  by (auto simp: prepareUpdate_def trimUpdate_def Let_def split: if_splits sum.splits)

lemma update_effect:
  assumes "UpdatePlan e w u0 d = (r, d')"
  shows "plans_le d d' \<and> (\<forall>st. r = Inr st \<longrightarrow> readPlan (plScope st) d' = Inr st \<and> rendered d' st)"
proof (cases "prepareUpdate u0")
  case (Inl err)
  with assms show ?thesis by (auto simp: UpdatePlan_def plans_le_same)
next
  case (Inr u)
  note op = conjunct2 [OF conjunct2 [OF prepare_fields [OF Inr]]]
  have scope: "readPlan (puScope u) d' = Inr st \<Longrightarrow> readPlan (plScope st) d' = Inr st" for st by (auto simp: readPlan_Inr)
  show ?thesis
  proof (cases "readPlan (puScope u) d")
    case (Inl err)
    show ?thesis
    proof (cases "errors_Is err os_ErrNotExist")
      case True
      then have "err = os_ErrNotExist" using Inl
        by (auto simp: readPlan_def readJSON_def split: sum.splits if_splits option.splits content.splits)
      with True Inl Inr assms revise_effect [OF _ op, of e w None d r d'] scope show ?thesis by (auto simp: UpdatePlan_def)
    next
      case False
      with Inl Inr assms show ?thesis by (auto simp: UpdatePlan_def plans_le_same)
    qed
  next
    case cur: (Inr st)
    show ?thesis
    proof (cases "plLastOperationID st = puOperationID u")
      case True
      obtain y d1 where y: "repairProjections w st d = (y, d1)" by fastforce
      from y cur have "readPlan (plScope st) d1 = Inr st" using readPlan_state [OF repair_state [OF y]] by (auto simp: readPlan_Inr)
      with True cur Inr assms y repair_renders [of w st d d1] plans_le_same [OF repair_state [OF y]] plans_le_same [of d d] show ?thesis
        by (auto simp: UpdatePlan_def split: if_splits option.splits)
    next
      case False
      with cur Inr assms revise_effect [OF _ op, of e w "Some st" d r d'] scope show ?thesis by (auto simp: UpdatePlan_def)
    qed
  qed
qed

lemma get_effect:
  assumes "GetPlan w scope d = (r, d')"
  shows "plans_le d d' \<and> (\<forall>st. r = Inr st \<longrightarrow> readPlan (plScope st) d' = Inr st \<and> rendered d' st)"
proof (cases "TrimSpace scope = [] \<or> (\<exists>err. readPlan scope d = Inl err)")
  case True
  with assms show ?thesis by (auto simp: GetPlan_def plans_le_same split: if_splits)
next
  case False
  then obtain st where st: "readPlan scope d = Inr st" by (cases "readPlan scope d") auto
  obtain y d1 where y: "repairProjections w st d = (y, d1)" by fastforce
  from y st have "readPlan (plScope st) d1 = Inr st" using readPlan_state [OF repair_state [OF y]] by (auto simp: readPlan_Inr)
  with False st y assms repair_renders [of w st d d1] plans_le_same [OF repair_state [OF y]] show ?thesis
    by (auto simp: GetPlan_def split: option.splits)
qed

section \<open>Sequences of calls\<close>

datatype plan_call = PGet "nat \<Rightarrow> io" string | PUpdate env "nat \<Rightarrow> io" PlanUpdate

fun do_plan :: "plan_call \<Rightarrow> planDir \<Rightarrow> (go_error + PlanState) \<times> planDir" where
  "do_plan (PGet w scope) d = GetPlan w scope d"
| "do_plan (PUpdate e w u) d = UpdatePlan e w u d"

lemma call_effect:
  "do_plan c d = (r, d') \<Longrightarrow> plans_le d d' \<and> (\<forall>st. r = Inr st \<longrightarrow> readPlan (plScope st) d' = Inr st \<and> rendered d' st)"
  by (cases c) (auto dest: get_effect update_effect)

lemma calls_le: "plans_le d (run_steps do_plan calls d)"
proof (induction calls arbitrary: d)
  case (Cons c calls)
  have "plans_le d (snd (do_plan c d))" using call_effect [of c d] by (metis prod.collapse)
  from plans_le_trans [OF this Cons.IH] show ?case by simp
qed (simp add: plans_le_same)

text \<open>C37. The plans of a scope form one line: when a call has returned a plan, every later call that returns a plan of the same scope, after any calls with
  any write failures, returns the same plan or one with a higher revision, and leaves PLAN.md and TODO.md as the texts
  of the plan it returns.\<close>

theorem plan_revisions_linear:
  assumes "do_plan c d = (Inr st, d1)" and "do_plan c' (run_steps do_plan calls d1) = (Inr st', d2)" and "plScope st' = plScope st"
  shows "(st' = st \<or> plRevision st < plRevision st') \<and> rendered d2 st'"
proof -
  from call_effect [OF assms(1)] have "readPlan (plScope st) d1 = Inr st" by blast
  moreover have "plans_le d1 d2" using plans_le_trans [OF calls_le] call_effect [OF assms(2)] by blast
  moreover from call_effect [OF assms(2)] have "readPlan (plScope st) d2 = Inr st'" "rendered d2 st'" by (simp_all add: assms(3))
  ultimately show ?thesis unfolding plans_le_def by (metis Inr_inject)
qed

text \<open>Where no write fails, an update is accepted under the current revision.\<close>

lemma revise_accepts:
  assumes "currentRevision current = puExpectedRevision u" and "wio e = Io_ok" and "w 0 = Io_ok" and "w 1 = Io_ok" and "safeID (puOperationID u)"
    and "0 \<le> puExpectedRevision u" and "json_time (plCreatedAt (nextPlan e u current)) \<noteq> None" and "json_time (clk e 1) \<noteq> None"
  shows "\<exists>d'. revisePlan e w u current d = (Inr (nextPlan e u current), d') \<and> readPlan (puScope u) d' = Inr (nextPlan e u current)"
proof -
  let ?st = "nextPlan e u current"
  have f: "plScope ?st = puScope u" "plRevision ?st = currentRevision current + 1" "plVersion ?st = 1" "plLastOperationID ?st = puOperationID u"
    "plUpdatedAt ?st = clk e 1" "plLastFingerprint ?st \<noteq> []" by (simp_all add: nextPlan_def updateFingerprint_def sha256_nonempty)
  obtain x d1 where x: "writePlan (wio e) ?st d = (x, d1)" by fastforce
  with assms f have d1: "x = None" "pdState d1 = AList.update (planPath (puScope u) ''plan.json'') (Record ?st) (pdState d)"
    by (auto simp: writePlan_def atomicWrite_ok split: if_splits)
  obtain y d2 where y: "repairProjections w ?st d1 = (y, d2)" by fastforce
  with assms(3,4) have "y = None" by (auto simp: repairProjections_def atomicWrite_ok)
  moreover have "readPlan (puScope u) d2 = Inr ?st"
    using repair_state [OF y] d1(2) f assms(1,6) safeID_nonempty [OF assms(5)] by (simp add: readPlan_Inr readJSON_update)
  ultimately show ?thesis using x d1(1) y assms(1) f(1) by (simp add: revisePlan_def storePlan_def)
qed

lemma update_accepts:
  assumes "prepareUpdate u0 = Inr u" and "currentRevision current = puExpectedRevision u" and "wio e = Io_ok" and "w 0 = Io_ok" and "w 1 = Io_ok"
    and "json_time (plCreatedAt (nextPlan e u current)) \<noteq> None" and "json_time (clk e 1) \<noteq> None"
    and "case current of None \<Rightarrow> readPlan (puScope u) d = Inl os_ErrNotExist
       | Some st \<Rightarrow> readPlan (puScope u) d = Inr st \<and> plLastOperationID st \<noteq> puOperationID u"
  shows "\<exists>d'. UpdatePlan e w u0 d = (Inr (nextPlan e u current), d') \<and> readPlan (puScope u) d' = Inr (nextPlan e u current)"
proof -
  have "0 \<le> puExpectedRevision u" using assms(1) by (auto simp: prepareUpdate_def Let_def split: if_splits sum.splits)
  from revise_accepts [OF assms(2-5) _ this assms(6,7), of d] prepare_fields [OF assms(1)] assms(1,8) show ?thesis
    by (auto simp: UpdatePlan_def split: option.splits)
qed

text \<open>A retry of the last update changes no plan.\<close>

lemma update_retried:
  assumes "prepareUpdate u0 = Inr u" and "readPlan (puScope u) d = Inr st" and "plLastOperationID st = puOperationID u"
  shows "pdState (snd (UpdatePlan e w u0 d)) = pdState d"
proof -
  obtain y d1 where y: "repairProjections w st d = (y, d1)" by fastforce
  with assms repair_state [OF y] show ?thesis by (auto simp: UpdatePlan_def split: option.split)
qed

definition demo_update :: "string \<Rightarrow> int \<Rightarrow> PlanUpdate" where
  "demo_update i k = \<lparr>puScope = ''s'', puOperationID = i, puExpectedRevision = k, puObjective = ''x'',
     puSteps = [\<lparr>pstID = ''a'', pstTitle = ''t'', pstStatus = StepPending, pstNote = []\<rparr>]\<rparr>"

lemma demo_prepare: "prepareUpdate (demo_update ''o1'' 0) = Inr (demo_update ''o1'' 0)" "prepareUpdate (demo_update ''o2'' 1) = Inr (demo_update ''o2'' 1)"
  by code_simp+

lemma demo_plan_clock: "wio demo_env = Io_ok" "json_time (clk demo_env k) \<noteq> None"
  by (simp_all add: demo_env_def json_time_def year_of_day_def day_ns_def)

lemma demo_plan_fields: "puScope (demo_update i k) = ''s''" "puOperationID (demo_update i k) = i" "puExpectedRevision (demo_update i k) = k"
  by (simp_all add: demo_update_def)

theorem plan_revisions_linear_witness:
  "\<exists>d st st' d1 d2. do_plan (PUpdate demo_env (\<lambda>k. Io_ok) (demo_update ''o1'' 0)) d = (Inr st, d1) \<and>
     do_plan (PUpdate demo_env (\<lambda>k. Io_ok) (demo_update ''o2'' 1)) (run_steps do_plan [PUpdate demo_env (\<lambda>k. Io_early) (demo_update ''o1'' 0)] d1) = (Inr st', d2) \<and>
     plRevision st = 1 \<and> plRevision st' = 2 \<and> rendered d2 st'"
proof -
  define u1 where "u1 = demo_update ''o1'' 0"
  define u2 where "u2 = demo_update ''o2'' 1"
  let ?d = "\<lparr>pdState = [], pdText = []\<rparr>" and ?w = "\<lambda>k::nat. Io_ok" and ?f = "\<lambda>k::nat. Io_early"
  define st where "st = nextPlan demo_env u1 None"
  define st' where "st' = nextPlan demo_env u2 (Some st)"
  have rev: "plRevision st = 1" "plRevision st' = 2" and op: "plLastOperationID st = ''o1''" "plScope st' = plScope st"
    by (simp_all add: st_def st'_def nextPlan_def currentRevision_def u1_def u2_def demo_plan_fields)
  have r: "readPlan (puScope u1) ?d = Inl os_ErrNotExist" unfolding readPlan_def readJSON_def by simp
  have "\<exists>d1. UpdatePlan demo_env ?w u1 ?d = (Inr st, d1) \<and> readPlan (puScope u1) d1 = Inr st"
    unfolding st_def by (rule update_accepts [OF demo_prepare(1) [folded u1_def]])
      (use r in \<open>simp_all add: currentRevision_def u1_def demo_plan_fields demo_plan_clock nextPlan_def\<close>)
  then obtain d1 where 1: "do_plan (PUpdate demo_env ?w u1) ?d = (Inr st, d1)" "readPlan (puScope u2) d1 = Inr st"
    by (auto simp: u1_def u2_def demo_plan_fields)
  let ?d1 = "run_steps do_plan [PUpdate demo_env ?f u1] d1"
  have "readPlan (puScope u1) d1 = Inr st" using 1(2) by (simp add: u1_def u2_def demo_plan_fields)
  from update_retried [OF demo_prepare(1) [folded u1_def] this] op(1) have "pdState ?d1 = pdState d1" by (simp add: u1_def demo_plan_fields)
  then have "readPlan (puScope u2) ?d1 = Inr st" using 1(2) readPlan_state by metis
  then have "\<exists>d2. UpdatePlan demo_env ?w u2 ?d1 = (Inr st', d2) \<and> readPlan (puScope u2) d2 = Inr st'"
    unfolding st'_def by (intro update_accepts [OF demo_prepare(2) [folded u2_def]])
      (use rev op in \<open>simp_all add: currentRevision_def u2_def st_def demo_plan_fields demo_plan_clock nextPlan_def\<close>)
  then obtain d2 where 2: "do_plan (PUpdate demo_env ?w u2) ?d1 = (Inr st', d2)" by auto
  from plan_revisions_linear [OF 1(1) 2 op(2)] 1(1) 2 rev show ?thesis unfolding u1_def u2_def by blast
qed

end
