(* ===== verification/Feishu.thy ===== *)
theory Feishu
  imports Ledger GoTime "HOL-Library.Sublist"
begin

text \<open>
  The Feishu bridge (internal/feishu/store.go, bridge.go): a message of the chat becomes a durable job, workers claim jobs, run a turn of the
  agent, send its answer as a reply and record the outcome. The store is one JSON file per job. The agent and the sender are network
  clients: what they answer is an argument of the step that calls them. The state of the bridge in memory is the queue of ids and the jobs that
  workers hold; a log keeps the turns and the replies that were acknowledged.
\<close>

section \<open>Data\<close>

datatype JobState = JobQueued | JobProcessing | JobSucceeded | JobFailed | OtherJobState string

fun job_state_text :: "JobState \<Rightarrow> string" where
  "job_state_text JobQueued = ''queued''"
| "job_state_text JobProcessing = ''processing''"
| "job_state_text JobSucceeded = ''succeeded''"
| "job_state_text JobFailed = ''failed''"
| "job_state_text (OtherJobState s) = s"

record FMessage =
  fmEventID :: string
  fmMessageID :: string
  fmChatID :: string
  fmUserID :: string
  fmContent :: string

record Job =
  jbVersion :: int
  jbID :: string
  jbMessage :: FMessage
  jbSessionID :: string
  jbOperationID :: string
  jbState :: JobState
  jbAttempts :: int
  jbAgentReply :: string
  jbReplyMessage :: string
  jbFailure :: string
  jbCreatedAt :: time
  jbUpdatedAt :: time

type_synonym jobDir = "Job dir"

definition shortDigest :: "string \<Rightarrow> string" where
  "shortDigest v = take 32 (sha256_hex v)"

definition jobID :: "string \<Rightarrow> string" where
  "jobID eventID = ''feishu-'' @ shortDigest eventID"

definition chatSessionID :: "string \<Rightarrow> string" where
  "chatSessionID chatID = ''feishu-chat-'' @ shortDigest chatID"

definition eventOperationID :: "string \<Rightarrow> string" where
  "eventOperationID eventID = ''feishu-event-'' @ shortDigest eventID"

definition jobSuffix :: string where
  "jobSuffix = ''.feishu.json''"

definition jobPath :: "string \<Rightarrow> string" where
  "jobPath i = i @ jobSuffix"

section \<open>Files\<close>

definition validateJob :: "Job \<Rightarrow> go_error option" where
  "validateJob j =
     (if jbVersion j \<noteq> 1 \<or> jbID j = [] \<or> fmEventID (jbMessage j) = [] \<or> jbSessionID j = [] \<or> jbOperationID j = [] \<or> jbCreatedAt j = 0 \<or> jbUpdatedAt j = 0
      then Some (Errorf ''invalid feishu job'')
      else (case jbState j of OtherJobState s \<Rightarrow> Some (Errorf ''invalid feishu job state'') | _ \<Rightarrow> None))"

definition writeJob :: "io \<Rightarrow> Job \<Rightarrow> jobDir \<Rightarrow> go_error option \<times> jobDir" where
  "writeJob i j d =
     (case validateJob j of Some err \<Rightarrow> (Some err, d) | None \<Rightarrow>
      if json_time (jbCreatedAt j) = None \<or> json_time (jbUpdatedAt j) = None then (Some IOError, d) else
      (case atomicWrite i (jobPath (jbID j)) j d of (Some err, d1) \<Rightarrow> (Some err, d1) | (None, d1) \<Rightarrow>
       (case readJSON d1 (jobPath (jbID j)) of
          Inl err \<Rightarrow> (Some err, d1)
        | Inr v \<Rightarrow>
            (if jbID v \<noteq> jbID j \<or> jbState v \<noteq> jbState j \<or> jbAttempts v \<noteq> jbAttempts j then Some (Errorf ''feishu job read-back verification failed'')
             else None, d1))))"

fun readJobs :: "(string \<times> Job content) list \<Rightarrow> go_error + Job list" where
  "readJobs [] = Inr []"
| "readJobs ((name, c) # fs) =
     (if \<not> suffix jobSuffix name then readJobs fs else
      (case c of Garbage \<Rightarrow> Inl IOError | Record j \<Rightarrow>
       (case validateJob j of Some err \<Rightarrow> Inl err | None \<Rightarrow> map_sum id ((#) j) (readJobs fs))))"

definition listJobs :: "jobDir \<Rightarrow> go_error + Job list" where
  "listJobs d = map_sum id (sort_key jbCreatedAt) (readJobs (readDir d))"

section \<open>Operations of the store\<close>

definition trimFMessage :: "FMessage \<Rightarrow> FMessage" where
  "trimFMessage m = m\<lparr>fmEventID := TrimSpace (fmEventID m), fmMessageID := TrimSpace (fmMessageID m), fmChatID := TrimSpace (fmChatID m),
     fmContent := TrimSpace (fmContent m)\<rparr>"

definition newJob :: "env \<Rightarrow> FMessage \<Rightarrow> Job" where
  "newJob e m = \<lparr>jbVersion = 1, jbID = jobID (fmEventID m), jbMessage = m, jbSessionID = chatSessionID (fmChatID m),
     jbOperationID = eventOperationID (fmEventID m), jbState = JobQueued, jbAttempts = 0, jbAgentReply = [], jbReplyMessage = [], jbFailure = [],
     jbCreatedAt = clk e 0, jbUpdatedAt = clk e 1\<rparr>"

definition EnqueueJob :: "env \<Rightarrow> FMessage \<Rightarrow> jobDir \<Rightarrow> (go_error + Job \<times> bool) \<times> jobDir" where
  "EnqueueJob e m0 d =
     (let m = trimFMessage m0 in
      if fmEventID m = [] \<or> fmMessageID m = [] \<or> fmChatID m = [] \<or> fmContent m = []
      then (Inl (Errorf ''event_id, message_id, chat_id, and content are required''), d)
      else if length (fmContent m) > 65536 then (Inl (Errorf ''message content exceeds 64 KiB''), d) else
      let j = newJob e m in
      (case readJSON d (jobPath (jbID j)) of
         Inr x \<Rightarrow>
           (if jbMessage x = m \<and> jbSessionID x = jbSessionID j \<and> jbOperationID x = jbOperationID j then Inr (x, False)
            else Inl (Errorf ''event id was reused with different semantics''), d)
       | Inl err \<Rightarrow>
           if errors_Is err os_ErrNotExist
           then (case writeJob (wio e) j d of (Some err', d1) \<Rightarrow> (Inl err', d1) | (None, d1) \<Rightarrow> (Inr (j, True), d1))
           else (Inl err, d)))"

text \<open>The frame of the operations on one job: the update gives an error, or what the job becomes, or \<open>None\<close> for no change.\<close>

definition mutateJob :: "env \<Rightarrow> string \<Rightarrow> (Job \<Rightarrow> go_error + Job option) \<Rightarrow> jobDir \<Rightarrow> (go_error + Job \<times> bool) \<times> jobDir" where
  "mutateJob e i update d =
     (if \<not> prefix ''feishu-'' i then (Inl (Errorf ''invalid job id''), d) else
      (case readJSON d (jobPath i) of Inl err \<Rightarrow> (Inl err, d) | Inr j \<Rightarrow>
       (case update j of
          Inl err \<Rightarrow> (Inl err, d)
        | Inr None \<Rightarrow> (Inr (j, False), d)
        | Inr (Some j1) \<Rightarrow>
            let j2 = j1\<lparr>jbUpdatedAt := clk e 0\<rparr> in
            (case writeJob (wio e) j2 d of (Some err, d1) \<Rightarrow> (Inl err, d1) | (None, d1) \<Rightarrow> (Inr (j2, True), d1)))))"

definition jobClaim :: "Job \<Rightarrow> go_error + Job option" where
  "jobClaim j = (if jbState j \<noteq> JobQueued then Inr None
     else Inr (Some (j\<lparr>jbState := JobProcessing, jbAttempts := jbAttempts j + 1, jbFailure := []\<rparr>)))"

definition jobComplete :: "string \<Rightarrow> string \<Rightarrow> Job \<Rightarrow> go_error + Job option" where
  "jobComplete reply replyID j =
     (if jbState j = JobSucceeded then (if jbAgentReply j \<noteq> reply then Inl (Errorf ''completed job reply conflict'') else Inr None)
      else if jbState j \<noteq> JobProcessing then Inl (Errorf (''cannot complete job in state '' @ job_state_text (jbState j)))
      else Inr (Some (j\<lparr>jbState := JobSucceeded, jbAgentReply := reply, jbReplyMessage := replyID\<rparr>)))"

definition jobFail :: "string \<Rightarrow> bool \<Rightarrow> Job \<Rightarrow> go_error + Job option" where
  "jobFail failure retry j =
     (if jbState j \<noteq> JobProcessing then Inl (Errorf (''cannot fail job in state '' @ job_state_text (jbState j)))
      else Inr (Some (j\<lparr>jbState := (if retry then JobQueued else JobFailed), jbFailure := TrimSpace failure\<rparr>)))"

definition ClaimJob :: "env \<Rightarrow> string \<Rightarrow> jobDir \<Rightarrow> (go_error + Job \<times> bool) \<times> jobDir" where
  "ClaimJob e i d = mutateJob e i jobClaim d"

definition CompleteJob :: "env \<Rightarrow> string \<Rightarrow> string \<Rightarrow> string \<Rightarrow> jobDir \<Rightarrow> (go_error + Job) \<times> jobDir" where
  "CompleteJob e i reply replyID d = apfst (map_sum id fst) (mutateJob e i (jobComplete reply replyID) d)"

definition FailJob :: "env \<Rightarrow> string \<Rightarrow> string \<Rightarrow> bool \<Rightarrow> jobDir \<Rightarrow> (go_error + Job) \<times> jobDir" where
  "FailJob e i failure retry d = apfst (map_sum id fst) (mutateJob e i (jobFail failure retry) d)"

text \<open>The loop of \<open>Reconcile\<close>; \<open>es k\<close> is the environment of its \<open>k\<close>-th write.\<close>

fun reconcileJobLoop :: "(nat \<Rightarrow> env) \<Rightarrow> nat \<Rightarrow> Job list \<Rightarrow> jobDir \<Rightarrow> (go_error + Job list) \<times> jobDir" where
  "reconcileJobLoop es k [] d = (Inr [], d)"
| "reconcileJobLoop es k (j # js) d =
     (if jbState j = JobProcessing
      then (let j1 = j\<lparr>jbState := JobQueued, jbFailure := ''worker stopped before acknowledgement'', jbUpdatedAt := clk (es k) 0\<rparr> in
            (case writeJob (wio (es k)) j1 d of
               (Some err, d1) \<Rightarrow> (Inl err, d1)
             | (None, d1) \<Rightarrow> apfst (map_sum id ((#) j1)) (reconcileJobLoop es (k + 1) js d1)))
      else if jbState j = JobQueued then apfst (map_sum id ((#) j)) (reconcileJobLoop es (k + 1) js d)
      else reconcileJobLoop es (k + 1) js d)"

definition ReconcileJobs :: "(nat \<Rightarrow> env) \<Rightarrow> jobDir \<Rightarrow> (go_error + Job list) \<times> jobDir" where
  "ReconcileJobs es d = (case listJobs d of Inl err \<Rightarrow> (Inl err, d) | Inr js \<Rightarrow> reconcileJobLoop es 0 js d)"

definition PendingJobs :: "jobDir \<Rightarrow> go_error + Job list" where
  "PendingJobs d = map_sum id (filter (\<lambda>j. jbState j = JobQueued)) (listJobs d)"

definition GetJob :: "string \<Rightarrow> jobDir \<Rightarrow> go_error + Job" where
  "GetJob i d = (case readJSON d (jobPath i) of Inl err \<Rightarrow> Inl err | Inr j \<Rightarrow> (case validateJob j of Some err \<Rightarrow> Inl err | None \<Rightarrow> Inr j))"

section \<open>The bridge\<close>

record BridgeConfig =
  bcQueueSize :: nat
  bcWorkers :: nat
  bcMaxAttempts :: int

text \<open>The default of a limit that is not positive.\<close>

definition bridgeConfig :: "int \<Rightarrow> int \<Rightarrow> int \<Rightarrow> BridgeConfig" where
  "bridgeConfig qsize workers attempts = \<lparr>bcQueueSize = (if qsize \<le> 0 then 128 else nat qsize), bcWorkers = (if workers \<le> 0 then 2 else nat workers),
     bcMaxAttempts = (if attempts \<le> 0 then 3 else attempts)\<rparr>"

text \<open>An acknowledged reply: the message it answers and its text; a turn: its session, operation, prompt and answer.\<close>

record Bridge =
  brDir :: jobDir
  brQueue :: "string list"
  brHeld :: "Job list"
  brTurns :: "(string \<times> string \<times> string \<times> string) list"
  brSent :: "(FMessage \<times> string) list"

definition scheduleJob :: "BridgeConfig \<Rightarrow> string \<Rightarrow> Bridge \<Rightarrow> Bridge" where
  "scheduleJob cfg i b = (if length (brQueue b) < bcQueueSize cfg then b\<lparr>brQueue := brQueue b @ [i]\<rparr> else b)"

definition scheduleAll :: "BridgeConfig \<Rightarrow> Job list \<Rightarrow> Bridge \<Rightarrow> Bridge" where
  "scheduleAll cfg js b = fold (\<lambda>j. scheduleJob cfg (jbID j)) js b"

definition HandleMessage :: "BridgeConfig \<Rightarrow> env \<Rightarrow> FMessage \<Rightarrow> Bridge \<Rightarrow> go_error option \<times> Bridge" where
  "HandleMessage cfg e m b =
     (case EnqueueJob e m (brDir b) of
        (Inl err, d) \<Rightarrow> (Some err, b\<lparr>brDir := d\<rparr>)
      | (Inr (j, _), d) \<Rightarrow> (None, (if jbState j = JobQueued then scheduleJob cfg (jbID j) else id) (b\<lparr>brDir := d\<rparr>)))"

text \<open>One tick of the dispatcher.\<close>

definition dispatchTick :: "BridgeConfig \<Rightarrow> Bridge \<Rightarrow> Bridge" where
  "dispatchTick cfg b = (case PendingJobs (brDir b) of Inl err \<Rightarrow> b | Inr js \<Rightarrow> scheduleAll cfg js b)"

text \<open>\<open>process\<close> up to the claim, and the rest of it, between which other workers go on. Several workers take ids from the queue.\<close>

definition processClaim :: "env \<Rightarrow> string \<Rightarrow> Bridge \<Rightarrow> Bridge" where
  "processClaim e i b =
     (case ClaimJob e i (brDir b) of
        (Inr (j, True), d) \<Rightarrow> b\<lparr>brDir := d, brHeld := brHeld b @ [j]\<rparr>
      | (_, d) \<Rightarrow> b\<lparr>brDir := d\<rparr>)"

definition takeJob :: "BridgeConfig \<Rightarrow> env \<Rightarrow> Bridge \<Rightarrow> Bridge" where
  "takeJob cfg e b = (if length (brHeld b) < bcWorkers cfg then (case brQueue b of [] \<Rightarrow> b | i # is \<Rightarrow> processClaim e i (b\<lparr>brQueue := is\<rparr>)) else b)"

text \<open>What the rest of \<open>process\<close> meets: the answers of the agent and of the sender, whether the bridge is being stopped when the error is looked
  at, and whether the timer of a retry ends before the bridge is stopped.\<close>

record Settle =
  sgAgent :: "go_error + string"
  sgReply :: "go_error + string"
  sgStopped :: bool
  sgTimer :: bool
  sgEnv :: env

definition answerJob :: "Settle \<Rightarrow> Job \<Rightarrow> Bridge \<Rightarrow> (go_error + string \<times> string) \<times> Bridge" where
  "answerJob s j b =
     (case sgAgent s of Inl err \<Rightarrow> (Inl err, b) | Inr reply \<Rightarrow>
      let b1 = b\<lparr>brTurns := brTurns b @ [(jbSessionID j, jbOperationID j, fmContent (jbMessage j), reply)]\<rparr> in
      (case sgReply s of Inl err \<Rightarrow> (Inl err, b1) | Inr replyID \<Rightarrow> (Inr (reply, replyID), b1\<lparr>brSent := brSent b1 @ [(jbMessage j, reply)]\<rparr>)))"

definition processRest :: "BridgeConfig \<Rightarrow> Settle \<Rightarrow> Job \<Rightarrow> Bridge \<Rightarrow> Bridge" where
  "processRest cfg s j b =
     (case answerJob s j b of
        (Inr (reply, replyID), b1) \<Rightarrow> b1\<lparr>brDir := snd (CompleteJob (sgEnv s) (jbID j) reply replyID (brDir b1))\<rparr>
      | (Inl err, b1) \<Rightarrow>
          let retry = (jbAttempts j < bcMaxAttempts cfg \<and> \<not> sgStopped s);
              b2 = b1\<lparr>brDir := snd (FailJob (sgEnv s) (jbID j) (error_text err) retry (brDir b1))\<rparr> in
          if retry \<and> sgTimer s then scheduleJob cfg (jbID j) b2 else b2)"

text \<open>The \<open>k\<close>-th job that is held is settled.\<close>

definition settleJob :: "BridgeConfig \<Rightarrow> Settle \<Rightarrow> nat \<Rightarrow> Bridge \<Rightarrow> Bridge" where
  "settleJob cfg s k b = (if k < length (brHeld b)
     then processRest cfg s (brHeld b ! k) (b\<lparr>brHeld := take k (brHeld b) @ drop (k + 1) (brHeld b)\<rparr>) else b)"

text \<open>A new process: the memory is empty, and \<open>Start\<close> reconciles.\<close>

definition startBridge :: "BridgeConfig \<Rightarrow> (nat \<Rightarrow> env) \<Rightarrow> Bridge \<Rightarrow> go_error option \<times> Bridge" where
  "startBridge cfg es b0 =
     (let b = b0\<lparr>brQueue := [], brHeld := []\<rparr> in
      (case ReconcileJobs es (brDir b) of
         (Inl err, d) \<Rightarrow> (Some err, b\<lparr>brDir := d\<rparr>)
       | (Inr js, d) \<Rightarrow> (None, scheduleAll cfg js (b\<lparr>brDir := d\<rparr>))))"

end
