(* ===== verification/FeishuProps.thy ===== *)
theory FeishuProps
  imports Feishu
begin

text \<open>
  What the Feishu bridge guarantees over any interleaving of messages, ticks, workers and restarts, with any write failures: one worker at a time
  holds a message, a job that is recorded as succeeded was answered and replied to, and a terminal job never changes. A message
  that is being worked on when the bridge is stopped, however, is failed for good.
\<close>

section \<open>Writes\<close>

definition storable :: "Job \<Rightarrow> bool" where
  "storable j \<longleftrightarrow> validateJob j = None \<and> json_time (jbCreatedAt j) \<noteq> None"

lemma write_job_cases:
  assumes "writeJob i j d = (r, d')"
  obtains (kept) "d' = d" and "r \<noteq> None" | (written) "storable j" and "d' = AList.update (jobPath (jbID j)) (Record j) d"
proof (cases "validateJob j = None \<and> json_time (jbCreatedAt j) \<noteq> None \<and> json_time (jbUpdatedAt j) \<noteq> None")
  case True
  then have "storable j" by (simp add: storable_def)
  with True assms kept written show thesis by (cases i) (auto simp: writeJob_def atomicWrite_def readJSON_update)
next
  case False
  show thesis
  proof (cases "validateJob j")
    case None
    with False assms have "r = Some IOError" "d' = d" by (auto simp: writeJob_def split: if_splits)
    with kept show thesis by simp
  next
    case (Some err)
    with assms have "r = Some err" "d' = d" by (auto simp: writeJob_def)
    with kept show thesis by simp
  qed
qed

lemma mutate_job_cases:
  assumes "mutateJob e i update d = (r, d')"
  obtains (kept) "d' = d" and "\<And>j. r \<noteq> Inr (j, True)"
  | (written) j j1 where "readJSON d (jobPath i) = Inr j" and "update j = Inr (Some j1)"
      and "d' = AList.update (jobPath (jbID j1)) (Record (j1\<lparr>jbUpdatedAt := clk e 0\<rparr>)) d"
      and "\<And>x. r = Inr (x, True) \<Longrightarrow> x = j1\<lparr>jbUpdatedAt := clk e 0\<rparr>" and "storable (j1\<lparr>jbUpdatedAt := clk e 0\<rparr>)"
proof (cases "\<exists>j j1. prefix ''feishu-'' i \<and> readJSON d (jobPath i) = Inr j \<and> update j = Inr (Some j1)")
  case False
  with assms kept show thesis by (auto simp: mutateJob_def split: if_splits sum.splits option.splits)
next
  case True
  then obtain j j1 where j: "prefix ''feishu-'' i" "readJSON d (jobPath i) = Inr j" "update j = Inr (Some j1)" by blast
  let ?j = "j1\<lparr>jbUpdatedAt := clk e 0\<rparr>"
  obtain x d1 where w: "writeJob (wio e) ?j d = (x, d1)" by fastforce
  with assms j have r: "r = (case x of None \<Rightarrow> Inr (?j, True) | Some err \<Rightarrow> Inl err)" "d' = d1"
    by (auto simp: mutateJob_def Let_def split: option.splits)
  from w show thesis
  proof (cases rule: write_job_cases)
    case kept
    with r that(1) show thesis by (auto split: option.splits)
  next
    case written
    show thesis
    proof (rule that(2) [OF j(2,3)])
      show "d' = AList.update (jobPath (jbID j1)) (Record ?j) d" using written(2) r(2) by simp
      show "storable ?j" using written(1) .
      show "y = ?j" if "r = Inr (y, True)" for y using that r(1) by (simp split: option.splits)
    qed
  qed
qed

section \<open>The invariant\<close>

definition ident :: "Job \<Rightarrow> string \<times> FMessage \<times> string \<times> string" where
  "ident j = (jbID j, jbMessage j, jbSessionID j, jbOperationID j)"

definition job_of :: "FMessage \<Rightarrow> Job \<Rightarrow> bool" where
  "job_of m j \<longleftrightarrow> ident j = (jobID (fmEventID m), m, chatSessionID (fmChatID m), eventOperationID (fmEventID m))"

definition answered :: "Bridge \<Rightarrow> Job \<Rightarrow> bool" where
  "answered b j \<longleftrightarrow> (jbSessionID j, jbOperationID j, fmContent (jbMessage j), jbAgentReply j) \<in> set (brTurns b) \<and>
     (jbMessage j, jbAgentReply j) \<in> set (brSent b)"

abbreviation job_at :: "Bridge \<Rightarrow> string \<Rightarrow> Job \<Rightarrow> bool" where
  "job_at b p j \<equiv> readJSON (brDir b) p = Inr j"

definition bridge_inv :: "Bridge \<Rightarrow> bool" where
  "bridge_inv b \<longleftrightarrow> wf_map (brDir b) \<and> distinct (map jbID (brHeld b)) \<and>
     (\<forall>p j. job_at b p j \<longrightarrow> p = jobPath (jbID j) \<and> storable j \<and> job_of (jbMessage j) j \<and> (jbState j = JobSucceeded \<longrightarrow> answered b j)) \<and>
     (\<forall>h\<in>set (brHeld b). job_at b (jobPath (jbID h)) h \<and> jbState h = JobProcessing) \<and>
     (\<forall>m r. (m, r) \<in> set (brSent b) \<longrightarrow> (\<exists>j. job_at b (jobPath (jobID (fmEventID m))) j \<and> jbMessage j = m))"

lemma jobPath_inj [simp]: "jobPath i = jobPath k \<longleftrightarrow> i = k"
  by (simp add: jobPath_def)

lemma held_at: "bridge_inv b \<Longrightarrow> h \<in> set (brHeld b) \<Longrightarrow> job_at b (jobPath (jbID h)) h \<and> jbState h = JobProcessing"
  by (simp add: bridge_inv_def)

lemma inv_queue [simp]: "bridge_inv (b\<lparr>brQueue := q\<rparr>) = bridge_inv b"
  by (simp add: bridge_inv_def answered_def)

lemma inv_dir: "bridge_inv b \<Longrightarrow> brDir b = d \<Longrightarrow> bridge_inv (b\<lparr>brDir := d\<rparr>)"
  by auto

lemma inv_queue_of: "bridge_inv b \<Longrightarrow> b' = b\<lparr>brQueue := brQueue b'\<rparr> \<Longrightarrow> bridge_inv b'"
  using inv_queue by metis

text \<open>A job is written that is new or that nobody holds.\<close>

lemma inv_write:
  assumes "bridge_inv b" and "job_of (jbMessage j) j" and "\<And>j0. job_at b (jobPath (jbID j)) j0 \<Longrightarrow> jbMessage j0 = jbMessage j"
    and "jbID j \<notin> jbID ` set (brHeld b)" and "jbState j = JobSucceeded \<longrightarrow> answered b j" and "storable j"
  shows "bridge_inv (b\<lparr>brDir := AList.update (jobPath (jbID j)) (Record j) (brDir b)\<rparr>)"
proof -
  let ?b = "b\<lparr>brDir := AList.update (jobPath (jbID j)) (Record j) (brDir b)\<rparr>"
  have at: "job_at ?b p x \<longleftrightarrow> (if p = jobPath (jbID j) then x = j else job_at b p x)" for p x by (auto simp: readJSON_update)
  have same: "answered ?b = answered b" by (simp add: answered_def fun_eq_iff)
  have files: "p = jobPath (jbID x) \<and> storable x \<and> job_of (jbMessage x) x \<and> (jbState x = JobSucceeded \<longrightarrow> answered ?b x)" if "job_at ?b p x" for p x
    using that assms(1,2,5,6) unfolding at same bridge_inv_def by (cases "p = jobPath (jbID j)") auto
  have held: "job_at ?b (jobPath (jbID h)) h \<and> jbState h = JobProcessing" if "h \<in> set (brHeld ?b)" for h
  proof -
    from that assms(4) have "jbID h \<noteq> jbID j" by (metis Bridge.select_convs(3) Bridge.surjective Bridge.update_convs(1) image_eqI)
    with that assms(1) show ?thesis unfolding at bridge_inv_def by auto
  qed
  have sent: "\<exists>x. job_at ?b (jobPath (jobID (fmEventID m))) x \<and> jbMessage x = m" if "(m, r) \<in> set (brSent ?b)" for m r
  proof -
    from that assms(1) obtain x where "job_at b (jobPath (jobID (fmEventID m))) x \<and> jbMessage x = m" unfolding bridge_inv_def by auto
    with assms(3) show ?thesis unfolding at by (cases "jobID (fmEventID m) = jbID j") auto
  qed
  from assms(1) have "wf_map (brDir ?b)" "distinct (map jbID (brHeld ?b))" by (simp_all add: bridge_inv_def)
  with files held sent show ?thesis unfolding bridge_inv_def by blast
qed

lemma inv_rewrite:
  assumes "bridge_inv b" and "job_at b p j0" and "ident j = ident j0" and "jbID j \<notin> jbID ` set (brHeld b)"
    and "jbState j = JobSucceeded \<longrightarrow> answered b j" and "storable j"
  shows "bridge_inv (b\<lparr>brDir := AList.update (jobPath (jbID j)) (Record j) (brDir b)\<rparr>)"
proof (rule inv_write [OF assms(1) _ _ assms(4,5,6)])
  from assms(1-3) show "job_of (jbMessage j) j" by (auto simp: bridge_inv_def job_of_def ident_def)
  have "p = jobPath (jbID j)" using assms(1-3) by (auto simp: bridge_inv_def ident_def)
  with assms(2,3) show "jbMessage x = jbMessage j" if "job_at b (jobPath (jbID j)) x" for x using that by (simp add: ident_def)
qed

section \<open>Terminal jobs\<close>

definition terminal_job :: "Job \<Rightarrow> bool" where
  "terminal_job j \<longleftrightarrow> jbState j = JobSucceeded \<or> jbState j = JobFailed"

definition keeps_terminal :: "Bridge \<Rightarrow> Bridge \<Rightarrow> bool" where
  "keeps_terminal b b' \<longleftrightarrow> (\<forall>p j. job_at b p j \<longrightarrow> terminal_job j \<longrightarrow> job_at b' p j)"

lemma keeps_terminal_refl: "brDir b' = brDir b \<Longrightarrow> keeps_terminal b b'"
  by (simp add: keeps_terminal_def)

lemma keeps_terminal_trans: "keeps_terminal a b \<Longrightarrow> keeps_terminal b c \<Longrightarrow> keeps_terminal a c"
  by (simp add: keeps_terminal_def)

lemma keeps_write:
  assumes "\<And>j0. job_at b p j0 \<Longrightarrow> \<not> terminal_job j0" and "brDir b' = AList.update p (Record j) (brDir b)"
  shows "keeps_terminal b b'"
  using assms(1) by (auto simp: keeps_terminal_def assms(2) readJSON_update)

section \<open>Steps\<close>

lemma enqueue_writes:
  assumes "EnqueueJob e m0 d = (r, d')" and "d' \<noteq> d"
  obtains err x where "readJSON d (jobPath (jbID (newJob e (trimFMessage m0)))) = Inl err" and "writeJob (wio e) (newJob e (trimFMessage m0)) d = (x, d')"
proof -
  define j where "j = newJob e (trimFMessage m0)"
  have "d' = d \<or> (\<exists>err x. readJSON d (jobPath (jbID j)) = Inl err \<and> writeJob (wio e) j d = (x, d'))"
  proof (cases "readJSON d (jobPath (jbID j))")
    case (Inr x)
    with assms(1) show ?thesis unfolding EnqueueJob_def Let_def j_def by (simp split: if_splits)
  next
    case (Inl err)
    then show ?thesis using assms(1) unfolding EnqueueJob_def Let_def j_def [symmetric]
      by (simp split: if_splits prod.splits option.splits)
  qed
  with assms(2) that show thesis unfolding j_def by blast
qed

lemma handle_step:
  assumes "bridge_inv b"
  shows "bridge_inv (snd (HandleMessage cfg e m b)) \<and> keeps_terminal b (snd (HandleMessage cfg e m b))"
proof -
  let ?m = "trimFMessage m"
  let ?j = "newJob e ?m"
  obtain r d where r: "EnqueueJob e m (brDir b) = (r, d)" by fastforce
  have "bridge_inv (b\<lparr>brDir := d\<rparr>) \<and> keeps_terminal b (b\<lparr>brDir := d\<rparr>)"
  proof (cases "d = brDir b")
    case True
    then show ?thesis using assms keeps_terminal_refl by simp
  next
    case False
    with r obtain err x where n: "readJSON (brDir b) (jobPath (jbID ?j)) = Inl err" and w: "writeJob (wio e) ?j (brDir b) = (x, d)"
      by (rule enqueue_writes)
    from w False have d: "d = AList.update (jobPath (jbID ?j)) (Record ?j) (brDir b)" "storable ?j" by (cases rule: write_job_cases; simp)+
    have "bridge_inv (b\<lparr>brDir := AList.update (jobPath (jbID ?j)) (Record ?j) (brDir b)\<rparr>)"
    proof (rule inv_write [OF assms])
      show "job_of (jbMessage ?j) ?j" by (simp add: job_of_def ident_def newJob_def)
      show "jbMessage j0 = jbMessage ?j" if "job_at b (jobPath (jbID ?j)) j0" for j0 using that n(1) by simp
      show "jbID ?j \<notin> jbID ` set (brHeld b)"
      proof
        assume "jbID ?j \<in> jbID ` set (brHeld b)"
        then obtain h where "h \<in> set (brHeld b)" "jbID ?j = jbID h" by (rule imageE)
        with held_at [OF assms] n(1) show False by simp
      qed
      show "storable ?j" using d(2) .
    qed (simp add: newJob_def)
    with d(1) n(1) keeps_write [of b "jobPath (jbID ?j)" "b\<lparr>brDir := d\<rparr>" ?j] show ?thesis by simp
  qed
  moreover have "\<exists>q. snd (HandleMessage cfg e m b) = b\<lparr>brDir := d, brQueue := q\<rparr>"
  proof (cases r)
    case (Inl err)
    with r have "snd (HandleMessage cfg e m b) = b\<lparr>brDir := d, brQueue := brQueue b\<rparr>" by (simp add: HandleMessage_def)
    then show ?thesis by blast
  next
    case (Inr x)
    obtain j fresh where "x = (j, fresh)" by fastforce
    with Inr r have "snd (HandleMessage cfg e m b) = (if jbState j = JobQueued then scheduleJob cfg (jbID j) else id) (b\<lparr>brDir := d\<rparr>)"
      by (simp add: HandleMessage_def)
    also have "\<dots> = b\<lparr>brDir := d, brQueue := brQueue \<dots>\<rparr>" by (simp add: scheduleJob_def)
    finally show ?thesis by blast
  qed
  ultimately show ?thesis by (auto simp: keeps_terminal_def)
qed

lemma schedule_dir [simp]: "brDir (scheduleJob cfg i b) = brDir b"
  by (simp add: scheduleJob_def)

lemma inv_schedule [simp]: "bridge_inv (scheduleJob cfg i b) = bridge_inv b"
  by (simp add: scheduleJob_def)

lemma schedule_all [simp]: "brDir (scheduleAll cfg js b) = brDir b \<and> bridge_inv (scheduleAll cfg js b) = bridge_inv b"
  unfolding scheduleAll_def by (induction js arbitrary: b) simp_all

lemma tick_step: "bridge_inv b \<Longrightarrow> bridge_inv (dispatchTick cfg b) \<and> keeps_terminal b (dispatchTick cfg b)"
  by (auto simp: dispatchTick_def keeps_terminal_refl split: sum.split)

lemma claim_step:
  assumes "bridge_inv b"
  shows "bridge_inv (processClaim e i b) \<and> keeps_terminal b (processClaim e i b)"
proof -
  obtain r d where r: "ClaimJob e i (brDir b) = (r, d)" by fastforce
  then have "mutateJob e i jobClaim (brDir b) = (r, d)" by (simp add: ClaimJob_def)
  then show ?thesis
  proof (cases rule: mutate_job_cases)
    case kept
    with r assms keeps_terminal_refl show ?thesis by (auto simp: processClaim_def split: sum.split)
  next
    case (written j j1)
    let ?j = "j1\<lparr>jbUpdatedAt := clk e 0\<rparr>"
    let ?b = "b\<lparr>brDir := d\<rparr>"
    from written(2) have q: "jbState j = JobQueued" "ident ?j = ident j" "jbState ?j = JobProcessing" "jbID j1 = jbID j" "jbID ?j = jbID j"
      by (auto simp: jobClaim_def ident_def split: if_splits)
    from assms written(1) have p: "jobPath i = jobPath (jbID j)" unfolding bridge_inv_def by blast
    have free: "jbID j \<notin> jbID ` set (brHeld b)"
    proof
      assume "jbID j \<in> jbID ` set (brHeld b)"
      then obtain h where h: "h \<in> set (brHeld b)" "jbID j = jbID h" by (rule imageE)
      from held_at [OF assms h(1)] h(2) p written(1) have "h = j" by (metis Inr_inject)
      with held_at [OF assms h(1)] q(1) show False by simp
    qed
    have d: "d = AList.update (jobPath (jbID ?j)) (Record ?j) (brDir b)" using written(3) by simp
    have inv: "bridge_inv ?b" using inv_rewrite [OF assms written(1) q(2) _ _ written(5)] free q(3,5) by (simp add: d)
    have "job_at b (jobPath (jbID j)) x \<Longrightarrow> \<not> terminal_job x" for x using written(1) p q(1) by (simp add: terminal_job_def)
    then have keep: "keeps_terminal b ?b" "keeps_terminal b (?b\<lparr>brHeld := brHeld b @ [?j]\<rparr>)"
      using keeps_write [of b "jobPath (jbID ?j)" _ ?j] d q(5) by simp_all
    have at: "job_at ?b (jobPath (jbID ?j)) ?j" by (simp add: d readJSON_update)
    have inv2: "bridge_inv (?b\<lparr>brHeld := brHeld b @ [?j]\<rparr>)"
      using inv at free q(3,5) unfolding bridge_inv_def answered_def by auto
    have "processClaim e i b = ?b \<or> processClaim e i b = ?b\<lparr>brHeld := brHeld b @ [?j]\<rparr>"
      using r written(4) by (auto simp: processClaim_def split: sum.split bool.split)
    with inv inv2 keep show ?thesis by metis
  qed
qed

lemma take_step: "bridge_inv b \<Longrightarrow> bridge_inv (takeJob cfg e b) \<and> keeps_terminal b (takeJob cfg e b)"
proof (cases "brQueue b")
  case (Cons i q)
  assume "bridge_inv b"
  with claim_step [of "b\<lparr>brQueue := q\<rparr>" e i] Cons show ?thesis by (simp add: takeJob_def keeps_terminal_def)
qed (simp add: takeJob_def keeps_terminal_refl)

lemma split_at: "k < length xs \<Longrightarrow> \<exists>ys zs. xs = ys @ xs ! k # zs \<and> take k xs @ drop (k + 1) xs = ys @ zs"
  using id_take_nth_drop [of k xs] by auto

text \<open>A worker settles a job that it no longer holds.\<close>

lemma inv_release:
  assumes "bridge_inv b" and "brHeld b = ys @ j # zs"
  shows "bridge_inv (b\<lparr>brHeld := ys @ zs\<rparr>)" and "jbID j \<notin> jbID ` set (ys @ zs)" and "job_at b (jobPath (jbID j)) j" and "jbState j = JobProcessing"
  using assms by (auto simp: bridge_inv_def answered_def)

text \<open>The logs only grow, with the answer to the job.\<close>

lemma answer_effect:
  assumes "answerJob s j b = (r, b')" and "bridge_inv b" and "job_at b (jobPath (jbID j)) j"
  shows "bridge_inv b' \<and> brDir b' = brDir b \<and> brHeld b' = brHeld b \<and>
    (\<forall>reply i. r = Inr (reply, i) \<longrightarrow> (jbSessionID j, jbOperationID j, fmContent (jbMessage j), reply) \<in> set (brTurns b') \<and>
       (jbMessage j, reply) \<in> set (brSent b'))"
proof -
  have grow: "bridge_inv (b\<lparr>brTurns := brTurns b @ t, brSent := brSent b @ u\<rparr>)" if "set u \<subseteq> {(jbMessage j, reply)}" for t u reply
  proof -
    have "\<exists>x. job_at b (jobPath (jobID (fmEventID m))) x \<and> jbMessage x = m" if "(m, r) \<in> set (brSent b) \<union> {(jbMessage j, reply)}" for m r
    proof (cases "(m, r) \<in> set (brSent b)")
      case True
      with assms(2) show ?thesis unfolding bridge_inv_def by blast
    next
      case False
      with that have "m = jbMessage j" by simp
      moreover have "jbID j = jobID (fmEventID (jbMessage j))" using assms(2,3) unfolding bridge_inv_def job_of_def ident_def by blast
      ultimately show ?thesis using assms(3) by auto
    qed
    then have "\<exists>x. job_at b (jobPath (jobID (fmEventID m))) x \<and> jbMessage x = m" if "(m, r) \<in> set (brSent b @ u)" for m r
      using that \<open>set u \<subseteq> {(jbMessage j, reply)}\<close> by fastforce
    with assms(2) show ?thesis unfolding bridge_inv_def answered_def by simp
  qed
  show ?thesis
  proof (cases "sgAgent s")
    case (Inl err)
    with assms show ?thesis by (auto simp: answerJob_def)
  next
    case a: (Inr reply)
    let ?t = "[(jbSessionID j, jbOperationID j, fmContent (jbMessage j), reply)]"
    show ?thesis
    proof (cases "sgReply s")
      case (Inl err)
      with a assms(1) have "r = Inl err" "b' = b\<lparr>brTurns := brTurns b @ ?t, brSent := brSent b @ []\<rparr>" by (auto simp: answerJob_def)
      with grow [of "[]" _ ?t] show ?thesis by simp
    next
      case (Inr i)
      with a assms(1) have "r = Inr (reply, i)" "b' = b\<lparr>brTurns := brTurns b @ ?t, brSent := brSent b @ [(jbMessage j, reply)]\<rparr>"
        by (auto simp: answerJob_def)
      with grow [of "[(jbMessage j, reply)]" reply ?t] show ?thesis by simp
    qed
  qed
qed

text \<open>The end of a job: of the two updates, each needs a job that is being processed.\<close>

lemma mutate_held:
  assumes "bridge_inv b" and "job_at b (jobPath (jbID j)) j" and "jbID j \<notin> jbID ` set (brHeld b)" and "jbState j = JobProcessing"
    and "\<And>j1. update j = Inr (Some j1) \<Longrightarrow> ident j1 = ident j \<and> (jbState j1 = JobSucceeded \<longrightarrow> answered b j1)"
  shows "bridge_inv (b\<lparr>brDir := snd (mutateJob e (jbID j) update (brDir b))\<rparr>) \<and>
    keeps_terminal b (b\<lparr>brDir := snd (mutateJob e (jbID j) update (brDir b))\<rparr>)"
proof -
  obtain r d where r: "mutateJob e (jbID j) update (brDir b) = (r, d)" by fastforce
  then show ?thesis
  proof (cases rule: mutate_job_cases)
    case kept
    with r assms(1) keeps_terminal_refl show ?thesis by simp
  next
    case (written j0 j1)
    let ?j = "j1\<lparr>jbUpdatedAt := clk e 0\<rparr>"
    from written(1) assms(2) have j0: "j0 = j" by simp
    from assms(5) [OF written(2) [unfolded j0]] have i: "ident ?j = ident j" "jbID ?j = jbID j" "jbState ?j = JobSucceeded \<longrightarrow> answered b ?j"
      by (auto simp: ident_def answered_def)
    have d: "d = AList.update (jobPath (jbID ?j)) (Record ?j) (brDir b)" using written(3) by simp
    have "bridge_inv (b\<lparr>brDir := d\<rparr>)" unfolding d using inv_rewrite [OF assms(1,2) i(1) _ i(3) written(5)] assms(3) i(2) by simp
    moreover have active: "\<And>x. job_at b (jobPath (jbID ?j)) x \<Longrightarrow> \<not> terminal_job x" using assms(2,4) i(2) by (simp add: terminal_job_def)
    have "keeps_terminal b (b\<lparr>brDir := d\<rparr>)" by (rule keeps_write [OF active]) (assumption, rule trans [OF _ d], simp)
    ultimately show ?thesis using r by simp
  qed
qed

lemma settle_step:
  assumes "bridge_inv b"
  shows "bridge_inv (settleJob cfg s k b) \<and> keeps_terminal b (settleJob cfg s k b)"
proof (cases "k < length (brHeld b)")
  case False
  then show ?thesis using assms by (simp add: settleJob_def keeps_terminal_refl)
next
  case True
  let ?j = "brHeld b ! k"
  from split_at [OF True] obtain ys zs where s: "brHeld b = ys @ ?j # zs" "take k (brHeld b) @ drop (k + 1) (brHeld b) = ys @ zs" by blast
  let ?b = "b\<lparr>brHeld := ys @ zs\<rparr>"
  note rel = inv_release [OF assms s(1)]
  obtain r b1 where a: "answerJob s ?j ?b = (r, b1)" by fastforce
  have at0: "job_at ?b (jobPath (jbID ?j)) ?j" using rel(3) by simp
  from answer_effect [OF a rel(1) at0] have b1: "bridge_inv b1" "brDir b1 = brDir b" "brHeld b1 = ys @ zs"
    "\<And>reply i. r = Inr (reply, i) \<Longrightarrow> (jbSessionID ?j, jbOperationID ?j, fmContent (jbMessage ?j), reply) \<in> set (brTurns b1) \<and>
       (jbMessage ?j, reply) \<in> set (brSent b1)" by auto
  have at1: "job_at b1 (jobPath (jbID ?j)) ?j" and free: "jbID ?j \<notin> jbID ` set (brHeld b1)" using rel(2,3) b1(2,3) by simp_all
  have keep: "keeps_terminal b x" if "keeps_terminal b1 x" for x using that b1(2) by (simp add: keeps_terminal_def)
  have e: "settleJob cfg s k b = processRest cfg s ?j ?b" using True s(2) by (simp add: settleJob_def)
  show ?thesis
  proof (cases r)
    case (Inr x)
    obtain reply i where x: "x = (reply, i)" by fastforce
    have "settleJob cfg s k b = b1\<lparr>brDir := snd (mutateJob (sgEnv s) (jbID ?j) (jobComplete reply i) (brDir b1))\<rparr>"
      unfolding e processRest_def using a Inr x by (simp add: CompleteJob_def)
    moreover have "ident j1 = ident ?j \<and> (jbState j1 = JobSucceeded \<longrightarrow> answered b1 j1)" if "jobComplete reply i ?j = Inr (Some j1)" for j1
      using that b1(4) [OF Inr [unfolded x]] rel(4) by (auto simp: jobComplete_def ident_def answered_def)
    ultimately show ?thesis using mutate_held [OF b1(1) at1 free rel(4)] keep by metis
  next
    case (Inl err)
    let ?retry = "jbAttempts ?j < bcMaxAttempts cfg \<and> \<not> sgStopped s"
    let ?b2 = "b1\<lparr>brDir := snd (mutateJob (sgEnv s) (jbID ?j) (jobFail (error_text err) ?retry) (brDir b1))\<rparr>"
    have "settleJob cfg s k b = (if ?retry \<and> sgTimer s then scheduleJob cfg (jbID ?j) ?b2 else ?b2)"
      unfolding e processRest_def using a Inl by (simp add: FailJob_def Let_def)
    then have m: "brDir (settleJob cfg s k b) = brDir ?b2" "bridge_inv (settleJob cfg s k b) = bridge_inv ?b2" by simp_all
    have "ident j1 = ident ?j \<and> (jbState j1 = JobSucceeded \<longrightarrow> answered b1 j1)" if "jobFail (error_text err) ?retry ?j = Inr (Some j1)" for j1
      using that rel(4) by (auto simp: jobFail_def ident_def split: if_splits)
    from mutate_held [OF b1(1) at1 free rel(4) this] have "bridge_inv ?b2" "keeps_terminal b ?b2" using keep by blast+
    then show ?thesis unfolding keeps_terminal_def m by blast
  qed
qed

section \<open>Restart\<close>

lemma readJobs_from: "readJobs fs = Inr js \<Longrightarrow> j \<in> set js \<Longrightarrow> Record j \<in> snd ` set fs"
proof (induction fs arbitrary: js rule: readJobs.induct)
  case (2 name c fs)
  show ?case
  proof (cases c)
    case (Record x)
    show ?thesis
    proof (cases "suffix jobSuffix name")
      case True
      with 2(3,4) Record obtain xs where xs: "validateJob x = None" "readJobs fs = Inr xs" "j = x \<or> j \<in> set xs"
        by (cases "readJobs fs") (auto split: option.splits)
      with 2(2) [OF _ Record xs(1,2)] True Record show ?thesis by auto
    next
      case False
      with 2(1,3,4) show ?thesis by simp
    qed
  qed (use 2 in \<open>auto split: if_splits\<close>)
qed simp

lemma listed_job:
  assumes "listJobs d = Inr js" and "j \<in> set js" and "wf_map d"
  shows "\<exists>p. readJSON d p = Inr j"
proof -
  from assms(1,2) obtain xs where "readJobs (readDir d) = Inr xs" "j \<in> set xs" by (cases "readJobs (readDir d)") (auto simp: listJobs_def)
  from readJobs_from [OF this] obtain p where "(p, Record j) \<in> set d" by auto
  with assms(3) show ?thesis by (auto simp: readJSON_Inr mget_set)
qed

lemma reconcile_loop:
  assumes "reconcileJobLoop es k js (brDir b) = (r, d)" and "bridge_inv b" and "brHeld b = []"
    and "\<And>j. j \<in> set js \<Longrightarrow> \<exists>x. job_at b (jobPath (jbID j)) x \<and> ident x = ident j \<and> (jbState j = JobProcessing \<longrightarrow> \<not> terminal_job x)"
  shows "bridge_inv (b\<lparr>brDir := d\<rparr>) \<and> keeps_terminal b (b\<lparr>brDir := d\<rparr>)"
  using assms
proof (induction js arbitrary: k b r)
  case Nil
  then show ?case using keeps_terminal_refl inv_dir by auto
next
  case (Cons j js)
  show ?case
  proof (cases "jbState j = JobProcessing")
    case False
    with Cons.prems(1) obtain r1 where "reconcileJobLoop es (k + 1) js (brDir b) = (r1, d)"
      by (cases "reconcileJobLoop es (k + 1) js (brDir b)") (auto split: if_splits)
    from Cons.IH [OF this Cons.prems(2,3)] Cons.prems(4) show ?thesis by simp
  next
    case True
    let ?j = "j\<lparr>jbState := JobQueued, jbFailure := ''worker stopped before acknowledgement'', jbUpdatedAt := clk (es k) 0\<rparr>"
    from Cons.prems(4) [of j] True obtain x where x: "job_at b (jobPath (jbID j)) x" "ident x = ident j" "\<not> terminal_job x" by auto
    have i: "ident ?j = ident j" "jbID ?j = jbID j" "jbState ?j = JobQueued" by (simp_all add: ident_def)
    obtain y d1 where w: "writeJob (wio (es k)) ?j (brDir b) = (y, d1)" by fastforce
    let ?b = "b\<lparr>brDir := d1\<rparr>"
    from w have d1: "d1 = brDir b \<or> (d1 = AList.update (jobPath (jbID ?j)) (Record ?j) (brDir b) \<and> storable ?j)" by (cases rule: write_job_cases) auto
    then have first: "bridge_inv ?b \<and> keeps_terminal b ?b"
    proof (elim disjE conjE)
      assume d: "d1 = AList.update (jobPath (jbID ?j)) (Record ?j) (brDir b)" and st: "storable ?j"
      have "bridge_inv ?b" unfolding d using inv_rewrite [OF Cons.prems(2) x(1), of ?j] st x(2) i Cons.prems(3) by simp
      moreover have active: "\<And>z. job_at b (jobPath (jbID ?j)) z \<Longrightarrow> \<not> terminal_job z" using x(1,3) i(2) by simp
      have "keeps_terminal b ?b" by (rule keeps_write [OF active]) (assumption, rule trans [OF _ d], simp)
      ultimately show ?thesis by blast
    qed (use Cons.prems(2) keeps_terminal_refl in simp)
    show ?thesis
    proof (cases y)
      case (Some err)
      with Cons.prems(1) True w have "d = d1" by (simp add: Let_def)
      with first show ?thesis by simp
    next
      case None
      with Cons.prems(1) True w obtain r1 where l: "reconcileJobLoop es (k + 1) js (brDir ?b) = (r1, d)"
        by (cases "reconcileJobLoop es (k + 1) js d1") (auto simp: Let_def)
      have "\<exists>z. job_at ?b (jobPath (jbID h)) z \<and> ident z = ident h \<and> (jbState h = JobProcessing \<longrightarrow> \<not> terminal_job z)" if h: "h \<in> set js" for h
      proof -
        from Cons.prems(4) [of h] h obtain z where z: "job_at b (jobPath (jbID h)) z" "ident z = ident h" "jbState h = JobProcessing \<longrightarrow> \<not> terminal_job z" by auto
        show ?thesis
        proof (cases "jbID h = jbID j \<and> d1 \<noteq> brDir b")
          case True
          with z x have "ident ?j = ident h" "job_at ?b (jobPath (jbID h)) ?j" using d1 i by (auto simp: readJSON_update)
          with i(3) show ?thesis by (auto simp: terminal_job_def)
        next
          case False
          with z d1 i(2) show ?thesis by (auto simp: readJSON_update)
        qed
      qed
      from Cons.IH [OF l first [THEN conjunct1] _ this] Cons.prems(3) have "bridge_inv (b\<lparr>brDir := d\<rparr>)" "keeps_terminal ?b (b\<lparr>brDir := d\<rparr>)" by simp_all
      with first keeps_terminal_trans show ?thesis by blast
    qed
  qed
qed

lemma start_step:
  assumes "bridge_inv b"
  shows "bridge_inv (snd (startBridge cfg es b)) \<and> keeps_terminal b (snd (startBridge cfg es b))"
proof -
  let ?b = "b\<lparr>brQueue := [], brHeld := []\<rparr>"
  have inv: "bridge_inv ?b" using assms unfolding bridge_inv_def answered_def by simp
  obtain r d where r: "ReconcileJobs es (brDir ?b) = (r, d)" by fastforce
  have "bridge_inv (?b\<lparr>brDir := d\<rparr>) \<and> keeps_terminal ?b (?b\<lparr>brDir := d\<rparr>)"
  proof (cases "listJobs (brDir ?b)")
    case (Inl err)
    with r have "brDir ?b = d" by (simp add: ReconcileJobs_def)
    with inv_dir [OF inv this] keeps_terminal_refl show ?thesis by simp
  next
    case (Inr js)
    with r have l: "reconcileJobLoop es 0 js (brDir ?b) = (r, d)" by (simp add: ReconcileJobs_def)
    have "\<exists>x. job_at ?b (jobPath (jbID j)) x \<and> ident x = ident j \<and> (jbState j = JobProcessing \<longrightarrow> \<not> terminal_job x)" if "j \<in> set js" for j
    proof -
      have "wf_map (brDir ?b)" using inv by (simp add: bridge_inv_def)
      from listed_job [OF Inr that this] obtain p where p: "job_at ?b p j" by blast
      moreover from p inv have "p = jobPath (jbID j)" unfolding bridge_inv_def by blast
      ultimately show ?thesis by (auto simp: terminal_job_def)
    qed
    from reconcile_loop [OF l inv _ this] show ?thesis by simp
  qed
  moreover have "keeps_terminal b x = keeps_terminal ?b x" for x by (simp add: keeps_terminal_def)
  ultimately show ?thesis using r by (auto simp: startBridge_def Let_def keeps_terminal_def split: sum.split)
qed

section \<open>Sequences of steps\<close>

datatype bridge_step = BHandle env FMessage | BTick | BTake env | BSettle Settle nat | BStart "nat \<Rightarrow> env"

fun do_bridge :: "BridgeConfig \<Rightarrow> bridge_step \<Rightarrow> Bridge \<Rightarrow> go_error option \<times> Bridge" where
  "do_bridge cfg (BHandle e m) b = HandleMessage cfg e m b"
| "do_bridge cfg BTick b = (None, dispatchTick cfg b)"
| "do_bridge cfg (BTake e) b = (None, takeJob cfg e b)"
| "do_bridge cfg (BSettle s k) b = (None, settleJob cfg s k b)"
| "do_bridge cfg (BStart es) b = startBridge cfg es b"

lemma bridge_step: "bridge_inv b \<Longrightarrow> bridge_inv (snd (do_bridge cfg x b)) \<and> keeps_terminal b (snd (do_bridge cfg x b))"
  by (cases x) (simp_all add: handle_step tick_step take_step settle_step start_step)

lemma bridge_steps: "bridge_inv b \<Longrightarrow> bridge_inv (run_steps (do_bridge cfg) xs b) \<and> keeps_terminal b (run_steps (do_bridge cfg) xs b)"
proof (induction xs arbitrary: b)
  case (Cons x xs)
  with Cons.IH [of "snd (do_bridge cfg x b)"] bridge_step [OF Cons.prems, of cfg x] keeps_terminal_trans show ?case by (metis run_steps.simps(2))
qed (simp add: keeps_terminal_refl)

definition new_bridge :: Bridge where
  "new_bridge = \<lparr>brDir = [], brQueue = [], brHeld = [], brTurns = [], brSent = []\<rparr>"

lemma new_bridge_inv: "bridge_inv new_bridge"
  by (simp add: bridge_inv_def new_bridge_def readJSON_def)

definition bridge_after :: "BridgeConfig \<Rightarrow> bridge_step list \<Rightarrow> Bridge" where
  "bridge_after cfg xs = run_steps (do_bridge cfg) xs new_bridge"

lemma bridge_after_inv: "bridge_inv (bridge_after cfg xs)"
  unfolding bridge_after_def using bridge_steps [OF new_bridge_inv] by blast

lemma bridge_after_keeps: "keeps_terminal (bridge_after cfg xs) (bridge_after cfg (xs @ ys))"
  using bridge_steps [OF bridge_after_inv, of cfg ys cfg xs] by (simp add: bridge_after_def run_steps_append)

lemma GetJob_Inr: "bridge_inv b \<Longrightarrow> GetJob i (brDir b) = Inr j \<longleftrightarrow> job_at b (jobPath i) j"
  by (auto simp: GetJob_def bridge_inv_def storable_def split: sum.splits option.splits)

text \<open>C38. Over any messages, ticks, workers and restarts in any order, with any write failures: no two workers hold the same message; a job whose file says
  succeeded had a turn of its session and operation with the prompt of its message, and the answer that the file records was sent as the reply to this message;
  every acknowledged reply answers a message that was enqueued; and a job that has succeeded or failed stays as it is.\<close>

theorem bridge_replies_recorded:
  "distinct (map jbID (brHeld (bridge_after cfg xs))) \<and>
    (\<forall>i j. GetJob i (brDir (bridge_after cfg xs)) = Inr j \<and> jbState j = JobSucceeded \<longrightarrow>
       (jbSessionID j, jbOperationID j, fmContent (jbMessage j), jbAgentReply j) \<in> set (brTurns (bridge_after cfg xs)) \<and>
       (jbMessage j, jbAgentReply j) \<in> set (brSent (bridge_after cfg xs))) \<and>
    (\<forall>m r. (m, r) \<in> set (brSent (bridge_after cfg xs)) \<longrightarrow>
       (\<exists>j. GetJob (jobID (fmEventID m)) (brDir (bridge_after cfg xs)) = Inr j \<and> jbMessage j = m)) \<and>
    (\<forall>i j. GetJob i (brDir (bridge_after cfg xs)) = Inr j \<and> (jbState j = JobSucceeded \<or> jbState j = JobFailed) \<longrightarrow>
       GetJob i (brDir (bridge_after cfg (xs @ ys))) = Inr j)"
  unfolding GetJob_Inr [OF bridge_after_inv]
proof (intro conjI allI impI)
  note inv = bridge_after_inv [of cfg xs, unfolded bridge_inv_def answered_def]
  show "distinct (map jbID (brHeld (bridge_after cfg xs)))" using inv by blast
  show "(jbSessionID j, jbOperationID j, fmContent (jbMessage j), jbAgentReply j) \<in> set (brTurns (bridge_after cfg xs))"
    "(jbMessage j, jbAgentReply j) \<in> set (brSent (bridge_after cfg xs))"
    if "job_at (bridge_after cfg xs) (jobPath i) j \<and> jbState j = JobSucceeded" for i j using that inv by blast+
  show "\<exists>j. job_at (bridge_after cfg xs) (jobPath (jobID (fmEventID m))) j \<and> jbMessage j = m"
    if "(m, r) \<in> set (brSent (bridge_after cfg xs))" for m r using that inv by blast
  show "job_at (bridge_after cfg (xs @ ys)) (jobPath i) j"
    if "job_at (bridge_after cfg xs) (jobPath i) j \<and> (jbState j = JobSucceeded \<or> jbState j = JobFailed)" for i j
    using that bridge_after_keeps unfolding keeps_terminal_def terminal_job_def by blast
qed

text \<open>C39. A message that a worker holds when the bridge is stopped is failed for good, although it has attempts left and nothing is wrong with it: the turn is
  cancelled, the job is recorded as failed, and no restart and no new delivery of the event works on it again.\<close>

theorem stopping_fails_message:
  assumes "k < length (brHeld (bridge_after cfg xs))" and "j = brHeld (bridge_after cfg xs) ! k" and "sgAgent s = Inl err" and "sgStopped s"
    and "wio (sgEnv s) = Io_ok" and "clk (sgEnv s) 0 \<noteq> 0" and "json_time (clk (sgEnv s) 0) \<noteq> None"
  shows "\<exists>x. GetJob (jbID j) (brDir (bridge_after cfg (xs @ BSettle s k # ys))) = Inr x \<and> jbState x = JobFailed \<and> jbMessage x = jbMessage j"
proof -
  let ?b = "bridge_after cfg xs" and ?b1 = "bridge_after cfg (xs @ [BSettle s k])"
  from split_at [OF assms(1)] obtain ps qs where h: "brHeld ?b = ps @ j # qs" unfolding assms(2) by blast
  note rel = inv_release [OF bridge_after_inv h]
  have "storable j" using rel(3) bridge_after_inv unfolding bridge_inv_def by blast
  let ?j = "j\<lparr>jbState := JobFailed, jbFailure := TrimSpace (error_text err), jbUpdatedAt := clk (sgEnv s) 0\<rparr>"
  have "prefix ''feishu-'' (jbID j)" using rel(3) bridge_after_inv unfolding bridge_inv_def job_of_def ident_def jobID_def by force
  moreover have "validateJob ?j = None \<and> json_time (jbCreatedAt j) \<noteq> None"
    using \<open>storable j\<close> rel(4) assms(6) by (auto simp: storable_def validateJob_def split: if_splits)
  then have "writeJob Io_ok ?j (brDir ?b) = (None, AList.update (jobPath (jbID j)) (Record ?j) (brDir ?b))"
    using assms(7) by (simp add: writeJob_def atomicWrite_ok readJSON_update)
  moreover have "readJSON (brDir ?b) (jobPath (jbID j)) = Inr j" using rel(3) by simp
  ultimately have m: "snd (mutateJob (sgEnv s) (jbID j) (jobFail (error_text err) False) (brDir ?b)) =
      AList.update (jobPath (jbID j)) (Record ?j) (brDir ?b)"
    using rel(4) assms(5) by (simp add: mutateJob_def jobFail_def Let_def)
  have "?b1 = settleJob cfg s k ?b" by (simp add: bridge_after_def run_steps_append)
  then have "brDir ?b1 = AList.update (jobPath (jbID j)) (Record ?j) (brDir ?b)"
    using assms(1,3,4) m by (simp add: settleJob_def processRest_def answerJob_def FailJob_def assms(2) [symmetric])
  then have "job_at ?b1 (jobPath (jbID j)) ?j" by (simp add: readJSON_update)
  moreover have "terminal_job ?j" by (simp add: terminal_job_def)
  ultimately have "job_at (bridge_after cfg ((xs @ [BSettle s k]) @ ys)) (jobPath (jbID j)) ?j"
    using bridge_after_keeps [of cfg "xs @ [BSettle s k]" ys] unfolding keeps_terminal_def by blast
  then have "GetJob (jbID j) (brDir (bridge_after cfg (xs @ BSettle s k # ys))) = Inr ?j" by (simp add: GetJob_Inr [OF bridge_after_inv])
  then show ?thesis by simp
qed

text \<open>A message comes in, a worker takes it, and then the turn ends well or the bridge is stopped.\<close>

definition demo_fmessage :: FMessage where
  "demo_fmessage = \<lparr>fmEventID = ''e'', fmMessageID = ''m'', fmChatID = ''c'', fmUserID = [], fmContent = ''hi''\<rparr>"

definition demo_job :: "JobState \<Rightarrow> int \<Rightarrow> string \<Rightarrow> string \<Rightarrow> Job" where
  "demo_job st k reply replyID = (newJob demo_env demo_fmessage)\<lparr>jbState := st, jbAttempts := k, jbAgentReply := reply, jbReplyMessage := replyID\<rparr>"

definition demo_settle :: "go_error + string \<Rightarrow> bool \<Rightarrow> Settle" where
  "demo_settle answer stopped = \<lparr>sgAgent = answer, sgReply = Inr ''r'', sgStopped = stopped, sgTimer = True, sgEnv = demo_env\<rparr>"

definition demo_bridge :: BridgeConfig where
  "demo_bridge = bridgeConfig 0 0 0"

lemma demo_bridge_env: "wio demo_env = Io_ok" "clk demo_env k = 100" "json_time 100 \<noteq> None"
  by (simp_all add: demo_env_def json_time_def year_of_day_def day_ns_def)

lemma demo_job_fields: "jbID (demo_job st k r i) = jobID ''e''" "jbState (demo_job st k r i) = st" "jbAttempts (demo_job st k r i) = k"
  "jbAgentReply (demo_job st k r i) = r" "jbMessage (demo_job st k r i) = demo_fmessage" "jbCreatedAt (demo_job st k r i) = 100"
  "jbUpdatedAt (demo_job st k r i) = 100"
  "demo_job st k r i\<lparr>jbState := st', jbAttempts := k', jbFailure := [], jbUpdatedAt := 100\<rparr> = demo_job st' k' r i"
  "demo_job st k r i\<lparr>jbState := st', jbAgentReply := r', jbReplyMessage := i', jbUpdatedAt := 100\<rparr> = demo_job st' k r' i'"
  by (simp_all add: demo_job_def newJob_def demo_fmessage_def demo_bridge_env)

lemma demo_job_valid: "st \<in> {JobQueued, JobProcessing, JobSucceeded, JobFailed} \<Longrightarrow> validateJob (demo_job st k r i) = None"
  by (auto simp: validateJob_def demo_job_def newJob_def demo_fmessage_def jobID_def chatSessionID_def eventOperationID_def demo_bridge_env)

definition demo_files :: "Job \<Rightarrow> jobDir" where
  "demo_files j = [(jobPath (jobID ''e''), Record j)]"

lemma demo_files_at: "readJSON (demo_files j) (jobPath (jobID ''e'')) = Inr j" "AList.update (jobPath (jobID ''e'')) (Record j') (demo_files j) = demo_files j'"
  "AList.update (jobPath (jobID ''e'')) (Record j') [] = demo_files j'"
  by (simp_all add: demo_files_def readJSON_def)

lemma demo_write:
  assumes "st \<in> {JobQueued, JobProcessing, JobSucceeded, JobFailed}" and "d \<in> {[], demo_files j}"
  shows "writeJob Io_ok (demo_job st k r i) d = (None, demo_files (demo_job st k r i))"
proof -
  have "AList.update (jobPath (jobID ''e'')) (Record (demo_job st k r i)) d = demo_files (demo_job st k r i)"
    using assms(2) unfolding demo_files_def by auto
  with demo_job_valid [OF assms(1)] demo_bridge_env(3) show ?thesis by (simp add: writeJob_def atomicWrite_ok demo_job_fields demo_files_at(1))
qed

lemma demo_queued: "bridge_after demo_bridge [BHandle demo_env demo_fmessage] =
    new_bridge\<lparr>brDir := demo_files (demo_job JobQueued 0 [] []), brQueue := [jobID ''e'']\<rparr>"
proof -
  have t: "trimFMessage demo_fmessage = demo_fmessage" by (simp add: trimFMessage_def demo_fmessage_def) code_simp
  have f: "fmEventID demo_fmessage \<noteq> []" "fmMessageID demo_fmessage \<noteq> []" "fmChatID demo_fmessage \<noteq> []" "fmContent demo_fmessage = ''hi''"
    by (simp_all add: demo_fmessage_def)
  have j: "newJob demo_env demo_fmessage = demo_job JobQueued 0 [] []" by (simp add: demo_job_def newJob_def)
  have "readJSON ([] :: jobDir) p = Inl os_ErrNotExist" for p by (simp add: readJSON_def)
  then have "EnqueueJob demo_env demo_fmessage [] = (Inr (demo_job JobQueued 0 [] [], True), demo_files (demo_job JobQueued 0 [] []))"
    using demo_write [of JobQueued "[]" "demo_job JobQueued 0 [] []" 0 "[]" "[]"]
    by (simp add: EnqueueJob_def Let_def t j demo_bridge_env f)
  then show ?thesis
    by (simp add: bridge_after_def HandleMessage_def new_bridge_def scheduleJob_def demo_job_fields demo_bridge_def bridgeConfig_def)
qed

lemma demo_prefix: "prefix ''feishu-'' (jobID ''e'')"
  by (simp add: jobID_def)

lemma demo_held: "bridge_after demo_bridge [BHandle demo_env demo_fmessage, BTake demo_env] =
    new_bridge\<lparr>brDir := demo_files (demo_job JobProcessing 1 [] []), brHeld := [demo_job JobProcessing 1 [] []]\<rparr>"
proof -
  have "ClaimJob demo_env (jobID ''e'') (demo_files (demo_job JobQueued 0 [] [])) =
      (Inr (demo_job JobProcessing 1 [] [], True), demo_files (demo_job JobProcessing 1 [] []))"
    using demo_write [of JobProcessing _ "demo_job JobQueued 0 [] []" 1 "[]" "[]"]
    by (simp add: ClaimJob_def mutateJob_def jobClaim_def Let_def demo_prefix demo_files_at(1) demo_job_fields demo_bridge_env)
  moreover have "bridge_after demo_bridge [BHandle demo_env demo_fmessage, BTake demo_env] =
      takeJob demo_bridge demo_env (bridge_after demo_bridge [BHandle demo_env demo_fmessage])" by (simp add: bridge_after_def)
  ultimately show ?thesis
    unfolding demo_queued by (simp add: takeJob_def processClaim_def new_bridge_def demo_bridge_def bridgeConfig_def)
qed

lemma demo_replied: "bridge_after demo_bridge [BHandle demo_env demo_fmessage, BTake demo_env, BSettle (demo_settle (Inr ''ok'') False) 0] =
    new_bridge\<lparr>brDir := demo_files (demo_job JobSucceeded 1 ''ok'' ''r''), brTurns := [(chatSessionID ''c'', eventOperationID ''e'', ''hi'', ''ok'')],
      brSent := [(demo_fmessage, ''ok'')]\<rparr>"
proof -
  have "snd (mutateJob demo_env (jobID ''e'') (jobComplete ''ok'' ''r'') (demo_files (demo_job JobProcessing 1 [] []))) =
      demo_files (demo_job JobSucceeded 1 ''ok'' ''r'')"
    using demo_write [of JobSucceeded _ "demo_job JobProcessing 1 [] []" 1 "''ok''" "''r''"]
    by (simp add: mutateJob_def jobComplete_def Let_def demo_prefix demo_files_at(1) demo_job_fields demo_bridge_env)
  moreover have "bridge_after demo_bridge [BHandle demo_env demo_fmessage, BTake demo_env, BSettle (demo_settle (Inr ''ok'') False) 0] =
      settleJob demo_bridge (demo_settle (Inr ''ok'') False) 0 (bridge_after demo_bridge [BHandle demo_env demo_fmessage, BTake demo_env])"
    by (simp add: bridge_after_def)
  moreover have "jbSessionID (demo_job st k r i) = chatSessionID ''c'' \<and> jbOperationID (demo_job st k r i) = eventOperationID ''e''" for st k r i
    by (simp add: demo_job_def newJob_def demo_fmessage_def)
  ultimately show ?thesis
    unfolding demo_held by (simp add: settleJob_def processRest_def answerJob_def demo_settle_def CompleteJob_def new_bridge_def demo_job_fields Let_def)
      (simp add: demo_fmessage_def)
qed

theorem bridge_replies_recorded_witness:
  "\<exists>j. GetJob (jobID ''e'') (brDir (bridge_after demo_bridge ([BHandle demo_env demo_fmessage, BTake demo_env, BSettle (demo_settle (Inr ''ok'') False) 0] @
      [BHandle demo_env demo_fmessage]))) = Inr j \<and> jbState j = JobSucceeded \<and>
    (demo_fmessage, ''ok'') \<in> set (brSent (bridge_after demo_bridge [BHandle demo_env demo_fmessage, BTake demo_env, BSettle (demo_settle (Inr ''ok'') False) 0]))"
proof -
  let ?j = "demo_job JobSucceeded 1 ''ok'' ''r''"
  have g: "GetJob (jobID ''e'') (brDir (bridge_after demo_bridge [BHandle demo_env demo_fmessage, BTake demo_env, BSettle (demo_settle (Inr ''ok'') False) 0])) = Inr ?j"
    unfolding demo_replied using demo_job_valid [of JobSucceeded] by (simp add: GetJob_def demo_files_at(1))
  note t = bridge_replies_recorded [of demo_bridge "[BHandle demo_env demo_fmessage, BTake demo_env, BSettle (demo_settle (Inr ''ok'') False) 0]"
      "[BHandle demo_env demo_fmessage]"]
  from t g have "GetJob (jobID ''e'') (brDir (bridge_after demo_bridge ([BHandle demo_env demo_fmessage, BTake demo_env,
      BSettle (demo_settle (Inr ''ok'') False) 0] @ [BHandle demo_env demo_fmessage]))) = Inr ?j" by (metis demo_job_fields(2))
  moreover from t g have "(jbMessage ?j, jbAgentReply ?j) \<in> set (brSent (bridge_after demo_bridge
      [BHandle demo_env demo_fmessage, BTake demo_env, BSettle (demo_settle (Inr ''ok'') False) 0]))" by (metis demo_job_fields(2))
  ultimately show ?thesis by (metis demo_job_fields(2,4,5))
qed

theorem stopping_fails_message_witness:
  "\<exists>x. GetJob (jobID ''e'') (brDir (bridge_after demo_bridge ([BHandle demo_env demo_fmessage, BTake demo_env] @
      BSettle (demo_settle (Inl (Errorf ''context canceled'')) True) 0 # [BStart (\<lambda>k. demo_env), BHandle demo_env demo_fmessage, BTick]))) = Inr x \<and>
    jbState x = JobFailed \<and> jbMessage x = demo_fmessage"
proof -
  let ?j = "demo_job JobProcessing 1 [] []"
  have h: "brHeld (bridge_after demo_bridge [BHandle demo_env demo_fmessage, BTake demo_env]) = [?j]" unfolding demo_held by simp
  have "\<exists>x. GetJob (jbID ?j) (brDir (bridge_after demo_bridge ([BHandle demo_env demo_fmessage, BTake demo_env] @
      BSettle (demo_settle (Inl (Errorf ''context canceled'')) True) 0 # [BStart (\<lambda>k. demo_env), BHandle demo_env demo_fmessage, BTick]))) = Inr x \<and>
    jbState x = JobFailed \<and> jbMessage x = jbMessage ?j"
    by (rule stopping_fails_message [of 0 demo_bridge _ _ _ "Errorf ''context canceled''"])
      (simp_all only: h demo_settle_def Settle.simps demo_bridge_env, simp_all add: demo_bridge_env)
  then show ?thesis unfolding demo_job_fields .
qed

end
