(* ===== verification/ContextWindow.thy ===== *)
theory ContextWindow
  imports EngineParts
begin

text \<open>
  The package contextmanager (internal/contextmanager/window.go), the engine's compactor: when the messages exceed a budget of approximate
  tokens, old contents are replaced by markers, then the oldest messages are dropped. The size of a message is the length of its JSON text, where raw
  JSON counts as the model writes it, without white space and escaped as the encoder escapes strings. A missing reference is the empty text.
\<close>

section \<open>UTF-8\<close>

text \<open>\<open>utf8.ValidString\<close>: the ranges that the next bytes must lie in, after the first byte of a rune.\<close>

definition rune_rest :: "nat \<Rightarrow> (nat \<times> nat) list option" where
  "rune_rest n =
     (if n < 0x80 then Some []
      else if 0xC2 \<le> n \<and> n \<le> 0xDF then Some [(0x80, 0xBF)]
      else if n = 0xE0 then Some [(0xA0, 0xBF), (0x80, 0xBF)]
      else if n = 0xED then Some [(0x80, 0x9F), (0x80, 0xBF)]
      else if 0xE1 \<le> n \<and> n \<le> 0xEF then Some [(0x80, 0xBF), (0x80, 0xBF)]
      else if n = 0xF0 then Some [(0x90, 0xBF), (0x80, 0xBF), (0x80, 0xBF)]
      else if 0xF1 \<le> n \<and> n \<le> 0xF3 then Some [(0x80, 0xBF), (0x80, 0xBF), (0x80, 0xBF)]
      else if n = 0xF4 then Some [(0x80, 0x8F), (0x80, 0xBF), (0x80, 0xBF)]
      else None)"

fun utf8_scan :: "(nat \<times> nat) list \<Rightarrow> string \<Rightarrow> bool" where
  "utf8_scan rs [] = (rs = [])"
| "utf8_scan ((lo, hi) # rs) (c # s) = (lo \<le> of_char c \<and> of_char c \<le> hi \<and> utf8_scan rs s)"
| "utf8_scan [] (c # s) = (case rune_rest (of_char c) of None \<Rightarrow> False | Some rs \<Rightarrow> utf8_scan rs s)"

definition ValidString :: "string \<Rightarrow> bool" where
  "ValidString s = utf8_scan [] s"

section \<open>The window\<close>

record 'w Window =
  wdMaxApproxTokens :: int
  wdReserveTokens :: int
  wdMinTailMessages :: int
  wdRecentMessages :: int
  wdMaxToolBytes :: int
  wdArchive :: "(ChatMessage list \<Rightarrow> 'w \<Rightarrow> (go_error + (nat \<Rightarrow> string)) \<times> 'w) option"

definition approximateTokens :: "ChatMessage list \<Rightarrow> int" where
  "approximateTokens ms = (case json_list json_message ms of None \<Rightarrow> 0 | Some js \<Rightarrow> (int (length (json_text (JArr js))) + 3) div 4)"

definition archiveMarker :: "string \<Rightarrow> string \<Rightarrow> string" where
  "archiveMarker kind sourceID =
     (if sourceID = [] then ''[context archived: '' @ kind @ ''; use recall_context to recover exact details]''
      else ''[context archived: '' @ kind @ ''; source_id='' @ sourceID @ ''; use recall_context to recover exact details]'')"

text \<open>The loops that move a cut until the part is valid UTF-8: they make the part shorter, down to the empty one.\<close>

fun shrink :: "(nat \<Rightarrow> string) \<Rightarrow> nat \<Rightarrow> nat" where
  "shrink part 0 = 0"
| "shrink part (Suc n) = (if ValidString (part (Suc n)) then Suc n else shrink part n)"

definition headTail :: "string \<Rightarrow> int \<Rightarrow> string \<Rightarrow> string" where
  "headTail content maximum sourceID =
     (if int (length content) \<le> maximum then content else
      let marker = archiveMarker ''large recent tool result'' sourceID; remaining = maximum - int (length marker) - 2 in
      if remaining < 64 then marker else
      let headSize = nat remaining div 2; tailSize = nat remaining - headSize;
          head = shrink (\<lambda>n. take n content) headSize;
          tail = shrink (\<lambda>n. drop (length content - n) content) tailSize in
      take head content @ [CHR 0x0A] @ marker @ [CHR 0x0A] @ drop (length content - tail) content)"

text \<open>A pass over the messages with indices from \<open>lo\<close> up to \<open>hi\<close>, and whether it changed one.\<close>

definition sweep :: "(nat \<Rightarrow> ChatMessage \<Rightarrow> ChatMessage option) \<Rightarrow> nat \<Rightarrow> nat \<Rightarrow> ChatMessage list \<Rightarrow> ChatMessage list \<times> bool" where
  "sweep f lo hi ms =
     (let news = map (\<lambda>(i, m). if lo \<le> i \<and> i < hi then f i m else None) (enumerate 0 ms) in
      (map (\<lambda>(m, new). case new of None \<Rightarrow> m | Some m' \<Rightarrow> m') (zip ms news), list_ex (\<lambda>new. new \<noteq> None) news))"

definition archived :: "string \<Rightarrow> bool" where
  "archived content \<longleftrightarrow> prefix ''[context archived'' content"

definition archiveOld :: "(nat \<Rightarrow> string) \<Rightarrow> nat \<Rightarrow> ChatMessage \<Rightarrow> ChatMessage option" where
  "archiveOld refs i m =
     (if msgRole m = RoleTool \<and> msgContent m \<noteq> [] \<and> \<not> archived (msgContent m)
      then Some (m\<lparr>msgContent := archiveMarker ''tool result'' (refs i)\<rparr>)
      else if msgRole m = RoleAssistant \<and> length (msgContent m) > 256
      then Some (m\<lparr>msgContent := archiveMarker ''assistant reasoning'' (refs i)\<rparr>) else None)"

definition cutRecent :: "int \<Rightarrow> (nat \<Rightarrow> string) \<Rightarrow> nat \<Rightarrow> ChatMessage \<Rightarrow> ChatMessage option" where
  "cutRecent maxToolBytes refs i m =
     (if msgRole m = RoleTool \<and> int (length (msgContent m)) > maxToolBytes
      then Some (m\<lparr>msgContent := headTail (msgContent m) maxToolBytes (refs i)\<rparr>) else None)"

definition archiveAssistant :: "(nat \<Rightarrow> string) \<Rightarrow> nat \<Rightarrow> ChatMessage \<Rightarrow> ChatMessage option" where
  "archiveAssistant refs i m =
     (if msgRole m = RoleAssistant \<and> msgContent m \<noteq> [] \<and> \<not> archived (msgContent m)
      then Some (m\<lparr>msgContent := archiveMarker ''assistant message'' (refs i)\<rparr>) else None)"

section \<open>The cut\<close>

definition notice :: "string \<Rightarrow> ChatMessage" where
  "notice extra = \<lparr>msgRole = RoleSystem, msgContent = ''Earlier conversation messages were archived and compacted by the harness. Use recall_context with a focused query to retrieve exact details. Newer raw messages override older raw messages, which override summaries.'' @ extra,
     msgToolCalls = [], msgToolCallID = [], msgIsError = False\<rparr>"

text \<open>The loop that takes messages from the end while they fit, and the least number of them in any case; \<open>start\<close> is its second to last argument.\<close>

fun tailStart :: "int \<Rightarrow> int \<Rightarrow> ChatMessage list \<Rightarrow> nat \<Rightarrow> int \<Rightarrow> nat" where
  "tailStart budget least ms (Suc (Suc n)) used =
     (let cand = approximateTokens [ms ! Suc n] in
      if int (length ms) - int (Suc (Suc n)) \<ge> least \<and> used + cand > budget then Suc (Suc n)
      else tailStart budget least ms (Suc n) (used + cand))"
| "tailStart budget least ms start used = start"

text \<open>A cut in front of tool results moves back to the message with their calls: \<open>findOwner\<close> looks at the messages below its last argument.\<close>

fun findOwner :: "ChatMessage list \<Rightarrow> string list \<Rightarrow> nat \<Rightarrow> nat \<Rightarrow> nat option" where
  "findOwner ms needed least 0 = None"
| "findOwner ms needed least (Suc i) =
     (if i < least then None
      else if msgRole (ms ! i) \<noteq> RoleAssistant then findOwner ms needed least i
      else let rest = filter (\<lambda>x. x \<notin> callID ` set (msgToolCalls (ms ! i))) needed in
        if rest = [] then Some i else findOwner ms rest least i)"

definition includeToolCallOwner :: "ChatMessage list \<Rightarrow> nat \<Rightarrow> nat \<Rightarrow> nat" where
  "includeToolCallOwner ms start least =
     (if start \<ge> length ms \<or> msgRole (ms ! start) \<noteq> RoleTool then start else
      case findOwner ms (map msgToolCallID (takeWhile (\<lambda>m. msgRole m = RoleTool) (drop start ms))) least start of
        None \<Rightarrow> start | Some i \<Rightarrow> i)"

definition or_default :: "int \<Rightarrow> int \<Rightarrow> int" where
  "or_default n d = (if n \<le> 0 then d else n)"

definition cutTail :: "int \<Rightarrow> int \<Rightarrow> ChatMessage list \<Rightarrow> bool \<Rightarrow> ChatMessage list \<times> bool" where
  "cutTail budget least ms changed =
     (let fixed = approximateTokens (take 1 ms) + approximateTokens [notice []];
          start = includeToolCallOwner ms (tailStart budget least ms (length ms) fixed) 1 in
      if start \<le> 1 then (ms, changed)
      else (ms ! 0 # notice ('' Omitted '' @ dec_int (int start - 1) @ '' message(s).'') # drop start ms, True))"

definition compactMessages :: "'w Window \<Rightarrow> int \<Rightarrow> (nat \<Rightarrow> string) \<Rightarrow> ChatMessage list \<Rightarrow> ChatMessage list \<times> bool" where
  "compactMessages w budget refs ms =
     (let recentStart = nat (max 1 (int (length ms) - or_default (wdRecentMessages w) 8)) in
      case sweep (archiveOld refs) 1 recentStart ms of (m1, c1) \<Rightarrow>
      case sweep (cutRecent (or_default (wdMaxToolBytes w) 4096) refs) recentStart (length ms) m1 of (m2, c2) \<Rightarrow>
      if approximateTokens m2 \<le> budget then (m2, c1 \<or> c2) else
      case sweep (archiveAssistant refs) 1 recentStart m2 of (m3, c3) \<Rightarrow>
      if approximateTokens m3 \<le> budget then (m3, c1 \<or> c2 \<or> c3) else
      cutTail budget (or_default (wdMinTailMessages w) 4) m3 (c1 \<or> c2 \<or> c3))"

definition Compact :: "'w Window \<Rightarrow> go_error option \<Rightarrow> ChatMessage list \<Rightarrow> 'w \<Rightarrow> (go_error + ChatMessage list \<times> bool) \<times> 'w" where
  "Compact w ctxErr ms s =
     (case ctxErr of Some err \<Rightarrow> (Inl err, s) | None \<Rightarrow>
      if wdMaxApproxTokens w \<le> 0 then (Inl (Errorf ''context window: max approximate tokens must be positive''), s) else
      let budget = wdMaxApproxTokens w - wdReserveTokens w in
      if budget \<le> 0 then (Inl (Errorf ''context window: reserve consumes the full budget''), s)
      else if approximateTokens ms \<le> budget \<or> length ms \<le> 2 then (Inr (ms, False), s) else
      (case wdArchive w of None \<Rightarrow> (Inr (compactMessages w budget (\<lambda>i. []) ms), s) | Some archive \<Rightarrow>
       (case archive ms s of (Inl err, s1) \<Rightarrow> (Inl (Wrap ''archive context before compaction'' err), s1)
        | (Inr refs, s1) \<Rightarrow> (Inr (compactMessages w budget refs ms), s1))))"

end
