(* ===== verification/Engine.thy ===== *)
theory Engine
  imports EngineParts
begin

text \<open>
  The query loop of one run (internal/engine/engine.go). What the engine calls is a record of functions over an abstract world:
  the clock, the random source, the context, the model provider, the tool runtime, the compactor, the queue of inputs and the run
  store, the last three of which may be missing. The engine's local variables are a state record; a step either goes on or ends
  the run with a reason and an error, as the calls of \<open>finish\<close> do. The events that the engine emits are recorded in the order in which \<open>OnEvent\<close> sees them.
\<close>

section \<open>What the engine calls\<close>

record 'w run_store =
  stRecord :: "Event \<Rightarrow> 'w \<Rightarrow> go_error option \<times> 'w"
  stCommit :: "HistoryCommit \<Rightarrow> 'w \<Rightarrow> (go_error + HistoryAck) \<times> 'w"
  stComplete :: "EngineRunResult \<Rightarrow> 'w \<Rightarrow> go_error option \<times> 'w"
  stLastSequence :: "(string \<Rightarrow> 'w \<Rightarrow> (go_error + int) \<times> 'w) option"

record 'w input_queue =
  iqClaim :: "string \<Rightarrow> string \<Rightarrow> int \<Rightarrow> 'w \<Rightarrow> (go_error + InputClaim) \<times> 'w"
  iqAck :: "string \<Rightarrow> int \<Rightarrow> 'w \<Rightarrow> go_error option \<times> 'w"
  iqRelease :: "string \<Rightarrow> 'w \<Rightarrow> go_error option \<times> 'w"
  iqReconcile :: "string \<Rightarrow> int gomap \<Rightarrow> 'w \<Rightarrow> go_error option \<times> 'w"

record 'w runtime =
  rtNow :: "'w \<Rightarrow> time \<times> 'w"
  rtEntropy :: "'w \<Rightarrow> entropy \<times> 'w"
  rtContext :: "'w \<Rightarrow> go_error option \<times> 'w"
  rtCompose :: "string \<Rightarrow> string \<Rightarrow> 'w \<Rightarrow> (go_error + promptSnapshot) \<times> 'w"
  rtRevision :: "'w \<Rightarrow> CapabilityRevision \<times> 'w"
  rtGenerate :: "ChatMessage list \<Rightarrow> bool \<Rightarrow> 'w \<Rightarrow> (go_error + Generation) \<times> 'w"
  rtExecuteBatch :: "ToolCall list \<Rightarrow> 'w \<Rightarrow> ToolResult list \<times> 'w"
  rtCompactor :: "(ChatMessage list \<Rightarrow> 'w \<Rightarrow> (go_error + ChatMessage list \<times> bool) \<times> 'w) option"
  rtQueue :: "'w input_queue option"
  rtStore :: "'w run_store option"

record engineConfig =
  cfgWorkDir :: string
  cfgSystemPrompt :: string
  cfgEnableThinking :: bool
  cfgPlanMode :: bool
  cfgMaxTurns :: int
  cfgMaxTokens :: int
  cfgMaxRepeatedCall :: int
  cfgRunID :: string
  cfgMemoryScope :: string
  cfgParentRunID :: string
  cfgParentTurnID :: string

text \<open>\<open>New\<close>: the checks and defaults of the configuration; \<open>absClean\<close> is \<open>filepath.Abs\<close> followed by \<open>filepath.Clean\<close>.\<close>

definition newEngine :: "(string \<Rightarrow> go_error + string) \<Rightarrow> string \<Rightarrow> string \<Rightarrow> 'w runtime \<Rightarrow> engineConfig \<Rightarrow> go_error + engineConfig" where
  "newEngine absClean defaultPrompt planPrompt rt cfg =
     (if rtQueue rt \<noteq> None \<and> rtStore rt = None then Inl (Errorf ''engine: input queue requires a durable run store'') else
      if TrimSpace (cfgWorkDir cfg) = [] then Inl (Errorf ''engine: workdir is required'') else
      (case absClean (cfgWorkDir cfg) of
         Inl err \<Rightarrow> Inl (Wrap ''engine: resolve workdir'' err)
       | Inr dir \<Rightarrow>
           let prompt = (if TrimSpace (cfgSystemPrompt cfg) = [] then defaultPrompt else cfgSystemPrompt cfg) in
           Inr (cfg\<lparr>cfgWorkDir := dir,
             cfgSystemPrompt := (if cfgPlanMode cfg then TrimSpace prompt @ planPrompt else prompt),
             cfgMaxTurns := (if cfgMaxTurns cfg \<le> 0 then 32 else cfgMaxTurns cfg),
             cfgMaxRepeatedCall := (if cfgMaxRepeatedCall cfg \<le> 0 then 3 else cfgMaxRepeatedCall cfg)\<rparr>)))"

section \<open>The state of a run\<close>

text \<open>What does not change in one run, and the variables of the loop.\<close>

record runConst =
  reRunID :: string
  reTurnID :: string
  reLeaseID :: string
  reAdmission :: int
  rePrompt :: string
  reWorkDir :: string
  reScope :: string
  reParentRunID :: string
  reParentTurnID :: string
  reCapability :: CapabilityRevision

record 'w eng =
  egWorld :: 'w
  egMessages :: "ChatMessage list"
  egResult :: EngineRunResult
  egSequence :: int
  egOpSequence :: int
  egRevision :: int
  egRepeated :: "int gomap"
  egClaims :: "int gomap"
  egEvents :: "Event list"

datatype stop = Finish TerminalReason "go_error option" | Panic

type_synonym ('w, 'a) act = "'w eng \<Rightarrow> (stop + 'a) \<times> 'w eng"

definition andThen :: "('w, 'a) act \<Rightarrow> ('a \<Rightarrow> ('w, 'b) act) \<Rightarrow> ('w, 'b) act" where
  "andThen m f s = (case m s of (Inl x, s') \<Rightarrow> (Inl x, s') | (Inr v, s') \<Rightarrow> f v s')"

definition on_world :: "('w \<Rightarrow> 'r \<times> 'w) \<Rightarrow> 'w eng \<Rightarrow> 'r \<times> 'w eng" where
  "on_world f s = (case f (egWorld s) of (r, w) \<Rightarrow> (r, s\<lparr>egWorld := w\<rparr>))"

text \<open>\<open>if err := ...; err != nil { return finish(TerminalPersistenceError, err) }\<close>\<close>

definition orPersist :: "('w eng \<Rightarrow> go_error option \<times> 'w eng) \<Rightarrow> ('w, unit) act" where
  "orPersist m s = (case m s of (Some err, s') \<Rightarrow> (Inl (Finish TerminalPersistenceError (Some err)), s') | (None, s') \<Rightarrow> (Inr (), s'))"

section \<open>Emitting and committing\<close>

definition newEvent :: "EventType \<Rightarrow> int \<Rightarrow> Event" where
  "newEvent t turn = \<lparr>evType = t, evRunID = [], evSequence = 0, evTimestamp = 0, evTurn = turn, evMessage = zeroChatMessage,
     evToolCall = zeroToolCall, evToolResult = zeroToolResult, evMessages = [], evUsage = zeroUsage, evMetadata = []\<rparr>"

definition emit :: "'w runtime \<Rightarrow> runConst \<Rightarrow> Event \<Rightarrow> 'w eng \<Rightarrow> go_error option \<times> 'w eng" where
  "emit rt c event0 s =
     (case on_world (rtNow rt) (s\<lparr>egSequence := egSequence s + 1\<rparr>) of (t, s1) \<Rightarrow>
      let event = event0\<lparr>evRunID := reRunID c, evSequence := egSequence s1, evTimestamp := t, evMessages := egMessages s1,
                         evUsage := rrUsage (egResult s1)\<rparr>;
          s2 = s1\<lparr>egEvents := egEvents s1 @ [event]\<rparr> in
      (case rtStore rt of None \<Rightarrow> (None, s2) | Some st \<Rightarrow>
       (case on_world (stRecord st event) s2 of
          (Some err, s3) \<Rightarrow> (Some (Wrap ''record trace'' err), s3)
        | (None, s3) \<Rightarrow> (None, s3))))"

definition commitCheckpoint :: "engineConfig \<Rightarrow> runConst \<Rightarrow> int \<Rightarrow> int \<Rightarrow> time \<Rightarrow> 'w eng \<Rightarrow> Checkpoint" where
  "commitCheckpoint cfg c turn reserved t s =
     \<lparr>ckVersion = 2, ckRunID = reRunID c, ckTurnID = reTurnID c, ckAdmission = reAdmission c, ckLeaseID = reLeaseID c,
      ckPrompt = rePrompt c, ckWorkDir = reWorkDir c, ckMemoryScope = reScope c, ckParentRunID = reParentRunID c,
      ckParentTurnID = reParentTurnID c, ckCapability = reCapability c, ckMessages = egMessages s, ckTurn = turn,
      ckUsage = rrUsage (egResult s), ckReason = rrReason (egResult s), ckRepeatedCalls = egRepeated s,
      ckSequence = egSequence s + reserved, ckOperationSequence = egOpSequence s, ckHistoryRevision = egRevision s,
      ckLastOperationID = [], ckLastFingerprint = [], ckCommittedInputClaims = egClaims s, ckUpdatedAt = t\<rparr>"

definition operationID :: "runConst \<Rightarrow> int \<Rightarrow> string \<Rightarrow> string" where
  "operationID c n kind = reRunID c @ ''/op-'' @ pad_dec 6 n @ ''/'' @ kind"

definition commitHistoryAs :: "'w runtime \<Rightarrow> engineConfig \<Rightarrow> runConst \<Rightarrow> string \<Rightarrow> int \<Rightarrow> int \<Rightarrow> 'w eng \<Rightarrow> go_error option \<times> 'w eng" where
  "commitHistoryAs rt cfg c kind turn reserved s =
     (case rtStore rt of None \<Rightarrow> (None, s) | Some st \<Rightarrow>
      let s1 = s\<lparr>egOpSequence := egOpSequence s + 1\<rparr>; operation = operationID c (egOpSequence s1) kind in
      (case on_world (rtNow rt) s1 of (t, s2) \<Rightarrow>
       let checkpoint = commitCheckpoint cfg c turn reserved t s2 in
       (case historyFingerprint kind checkpoint of Inl err \<Rightarrow> (Some err, s2) | Inr fingerprint \<Rightarrow>
        (case on_world (stCommit st \<lparr>hcRunID = reRunID c, hcOperationID = operation, hcFingerprint = fingerprint,
                 hcExpectedRevision = egRevision s2,
                 hcCheckpoint = checkpoint\<lparr>ckLastOperationID := operation, ckLastFingerprint := fingerprint\<rparr>\<rparr>) s2 of
           (Inl err, s3) \<Rightarrow> (Some err, s3)
         | (Inr ack, s3) \<Rightarrow>
             if haRunID ack \<noteq> reRunID c \<or> haOperationID ack \<noteq> operation \<or> haFingerprint ack \<noteq> fingerprint
               \<or> haRevision ack \<le> egRevision s3
             then (Some (Errorf (''engine: invalid history acknowledgement for '' @ operation)), s3)
             else emit rt c ((newEvent EventCommitted turn)\<lparr>evMetadata := [(''operation_id'', AnyString operation),
                    (''fingerprint'', AnyString fingerprint), (''revision'', AnyInt64 (haRevision ack)), (''kind'', AnyString kind)]\<rparr>)
                  (s3\<lparr>egRevision := haRevision ack, egResult := (egResult s3)\<lparr>rrHistoryRevision := haRevision ack\<rparr>\<rparr>)))))"

definition commitKind :: "'w runtime \<Rightarrow> engineConfig \<Rightarrow> runConst \<Rightarrow> string \<Rightarrow> int \<Rightarrow> 'w eng \<Rightarrow> go_error option \<times> 'w eng" where
  "commitKind rt cfg c kind turn s = commitHistoryAs rt cfg c kind turn 1 s"

text \<open>\<open>Duration.Milliseconds\<close> cuts towards zero.\<close>

definition Milliseconds :: "duration \<Rightarrow> int" where
  "Milliseconds d = (if d < 0 then - ((- d) div 1000000) else d div 1000000)"

definition finishRun :: "'w runtime \<Rightarrow> engineConfig \<Rightarrow> runConst \<Rightarrow> TerminalReason \<Rightarrow> go_error option \<Rightarrow> 'w eng
    \<Rightarrow> (EngineRunResult \<times> go_error option) \<times> 'w eng" where
  "finishRun rt cfg c reason err0 s =
     (case on_world (rtNow rt) (s\<lparr>egResult := (egResult s)\<lparr>rrReason := reason, rrMessages := egMessages s\<rparr>\<rparr>) of (t, s1) \<Rightarrow>
      let s2 = s1\<lparr>egResult := (egResult s1)\<lparr>rrCompletedAt := t, rrDurationMS := Milliseconds (time_Sub t (rrStartedAt (egResult s1)))\<rparr>\<rparr>;
          fail = (\<lambda>e err u. if e \<noteq> None \<and> err = None then (e, u\<lparr>egResult := (egResult u)\<lparr>rrReason := TerminalPersistenceError\<rparr>\<rparr>) else (err, u)) in
      (case commitHistoryAs rt cfg c (''terminal-'' @ reason_text reason) (rrTurns (egResult s2)) 2 s2 of (e1, s3) \<Rightarrow>
      (case fail e1 err0 s3 of (err1, s4) \<Rightarrow>
      (case emit rt c ((newEvent EventCompleted (rrTurns (egResult s4)))\<lparr>evMetadata := [(''reason'', AnyReason (rrReason (egResult s4)))]\<rparr>) s4 of (e2, s5) \<Rightarrow>
      (case fail e2 err1 s5 of (err2, s6) \<Rightarrow>
      (case rtStore rt of None \<Rightarrow> ((egResult s6, err2), s6) | Some st \<Rightarrow>
       (case on_world (stComplete st (egResult s6)) s6 of (e3, s7) \<Rightarrow>
       (case fail e3 err2 s7 of (err3, s8) \<Rightarrow> ((egResult s8, err3), s8)))))))))"

section \<open>The steps of a turn\<close>

definition turn_kind :: "int \<Rightarrow> string \<Rightarrow> string" where
  "turn_kind turn what = ''step-'' @ dec_int turn @ ''-'' @ what"

text \<open>Queued inputs: claim, commit, acknowledge.\<close>

definition commitClaim :: "'w runtime \<Rightarrow> engineConfig \<Rightarrow> runConst \<Rightarrow> 'w input_queue \<Rightarrow> int \<Rightarrow> InputClaim \<Rightarrow> ('w, unit) act" where
  "commitClaim rt cfg c q turn claim s =
     (let s1 = s\<lparr>egMessages := egMessages s @ map (userMessage \<circ> formatQueuedInput) (clItems claim),
                 egClaims := mput (clID claim) (egRevision s + 1) (egClaims s)\<rparr> in
      (case commitKind rt cfg c (turn_kind turn ''input-claim'') (turn - 1) s1 of
         (Some err, s2) \<Rightarrow>
           (case on_world (iqRelease q (clID claim)) (s2\<lparr>egClaims := mdel (clID claim) (egClaims s2)\<rparr>) of
              (_, s3) \<Rightarrow> (Inl (Finish TerminalPersistenceError (Some err)), s3))
       | (None, s2) \<Rightarrow>
           (case on_world (iqAck q (clID claim) (egRevision s2)) (s2\<lparr>egClaims := mput (clID claim) (egRevision s2) (egClaims s2)\<rparr>) of
              (Some err, s3) \<Rightarrow> (Inl (Finish TerminalPersistenceError (Some (Wrap ''ack queued inputs'' err))), s3)
            | (None, s3) \<Rightarrow> orPersist (emit rt c ((newEvent EventInputAcked turn)\<lparr>evMetadata :=
                  [(''claim_id'', AnyString (clID claim)), (''history_revision'', AnyInt64 (egRevision s3))]\<rparr>)) s3)))"

definition claimInputs :: "'w runtime \<Rightarrow> engineConfig \<Rightarrow> runConst \<Rightarrow> int \<Rightarrow> ('w, unit) act" where
  "claimInputs rt cfg c turn s =
     (case rtQueue rt of None \<Rightarrow> (Inr (), s) | Some q \<Rightarrow>
      (case on_world (iqClaim q (reRunID c) (reTurnID c) 32) s of
         (Inl err, s1) \<Rightarrow> (Inl (Finish TerminalPersistenceError (Some (Wrap ''claim queued inputs'' err))), s1)
       | (Inr claim, s1) \<Rightarrow>
           if clID claim = [] then (Inr (), s1) else
           (case emit rt c ((newEvent EventInputClaimed turn)\<lparr>evMetadata :=
                  [(''claim_id'', AnyString (clID claim)), (''items'', AnyInt (int (length (clItems claim))))]\<rparr>) s1 of
              (Some err, s2) \<Rightarrow> (case on_world (iqRelease q (clID claim)) s2 of
                  (_, s3) \<Rightarrow> (Inl (Finish TerminalPersistenceError (Some err)), s3))
            | (None, s2) \<Rightarrow> commitClaim rt cfg c q turn claim s2)))"

definition compactStep :: "'w runtime \<Rightarrow> engineConfig \<Rightarrow> runConst \<Rightarrow> int \<Rightarrow> ('w, unit) act" where
  "compactStep rt cfg c turn s =
     (case rtCompactor rt of None \<Rightarrow> (Inr (), s) | Some compact \<Rightarrow>
      (case on_world (compact (egMessages s)) s of
         (Inl err, s1) \<Rightarrow> (Inl (Finish TerminalFatalToolError (Some (Wrap ''compact context'' err))), s1)
       | (Inr (compacted, changed), s1) \<Rightarrow>
           if \<not> changed then (Inr (), s1) else
           andThen (orPersist (emit rt c ((newEvent EventCompacted turn)\<lparr>evMetadata :=
               [(''messages_before'', AnyInt (int (length (egMessages s1)))), (''messages_after'', AnyInt (int (length compacted)))]\<rparr>)))
             (\<lambda>_. orPersist (commitKind rt cfg c (turn_kind turn ''compaction'') (turn - 1)))
             (s1\<lparr>egMessages := compacted\<rparr>)))"

definition providerStop :: "go_error \<Rightarrow> stop" where
  "providerStop err = Finish (if contextReasonFromError (Some err) = NoReason then TerminalProviderError else contextReasonFromError (Some err)) (Some err)"

definition addUsage :: "Usage \<Rightarrow> 'w eng \<Rightarrow> 'w eng" where
  "addUsage u s = s\<lparr>egResult := (egResult s)\<lparr>rrUsage := usage_Add (rrUsage (egResult s)) u\<rparr>\<rparr>"

definition thinkStep :: "'w runtime \<Rightarrow> engineConfig \<Rightarrow> runConst \<Rightarrow> int \<Rightarrow> ('w, unit) act" where
  "thinkStep rt cfg c turn s =
     (if \<not> cfgEnableThinking cfg then (Inr (), s) else
      (case on_world (rtGenerate rt (egMessages s) False) s of
         (Inl err, s1) \<Rightarrow> (Inl (providerStop err), s1)
       | (Inr thinking, s1) \<Rightarrow>
           let s2 = addUsage (genUsage thinking) s1 in
           if overBudget (cfgMaxTokens cfg) (rrUsage (egResult s2)) then (Inl (Finish TerminalBudgetExceeded None), s2) else
           if msgToolCalls (genMessage thinking) \<noteq> [] then
             (Inl (Finish TerminalProviderError (Some (Errorf ''engine: thinking phase returned tool calls although no tools were provided''))), s2) else
           if msgContent (genMessage thinking) = [] then (Inr (), s2) else
           let message = (genMessage thinking)\<lparr>msgRole := RoleAssistant\<rparr> in
           andThen (orPersist (emit rt c ((newEvent EventThinking turn)\<lparr>evMessage := message\<rparr>)))
             (\<lambda>_. orPersist (commitKind rt cfg c (turn_kind turn ''thinking'') (turn - 1)))
             (s2\<lparr>egMessages := egMessages s2 @ [message]\<rparr>)))"

definition generateStep :: "'w runtime \<Rightarrow> engineConfig \<Rightarrow> runConst \<Rightarrow> int \<Rightarrow> ('w, ChatMessage) act" where
  "generateStep rt cfg c turn s =
     (case on_world (rtGenerate rt (egMessages s) True) s of
        (Inl err, s1) \<Rightarrow> (Inl (providerStop err), s1)
      | (Inr generation, s1) \<Rightarrow>
          let message = (genMessage generation)\<lparr>msgRole := RoleAssistant\<rparr> in
          andThen (orPersist (emit rt c ((newEvent EventAssistant turn)\<lparr>evMessage := message\<rparr>)))
            (\<lambda>_. andThen (orPersist (commitKind rt cfg c (turn_kind turn ''assistant'') (turn - 1)))
              (\<lambda>_ s2. if overBudget (cfgMaxTokens cfg) (rrUsage (egResult s2)) then (Inl (Finish TerminalBudgetExceeded None), s2) else
                 if msgToolCalls message = []
                 then (Inl (Finish TerminalCompleted None), s2\<lparr>egResult := (egResult s2)\<lparr>rrFinalMessage := message\<rparr>\<rparr>)
                 else (Inr message, s2)))
            (addUsage (genUsage generation) (s1\<lparr>egMessages := egMessages s1 @ [message]\<rparr>)))"

definition repeatCount :: "int gomap \<Rightarrow> string \<Rightarrow> int" where
  "repeatCount m k = (case mget m k of Some n \<Rightarrow> n | None \<Rightarrow> 0)"

definition repeatedObservation :: "ToolCall \<Rightarrow> int \<Rightarrow> ChatMessage" where
  "repeatedObservation call limit = \<lparr>msgRole = RoleTool,
     msgContent = ''Error [repeated_call]: equivalent call repeated more than '' @ dec_int limit @ '' times'', msgToolCalls = [],
     msgToolCallID = callID call, msgIsError = True\<rparr>"

fun startCalls :: "'w runtime \<Rightarrow> engineConfig \<Rightarrow> runConst \<Rightarrow> int \<Rightarrow> ToolCall list \<Rightarrow> ('w, unit) act" where
  "startCalls rt cfg c turn [] s = (Inr (), s)"
| "startCalls rt cfg c turn (call # calls) s =
     (let f = toolFingerprint call; s1 = s\<lparr>egRepeated := mput f (repeatCount (egRepeated s) f + 1) (egRepeated s)\<rparr> in
      if repeatCount (egRepeated s1) f > cfgMaxRepeatedCall cfg
      then (Inl (Finish TerminalFatalToolError None), s1\<lparr>egMessages := egMessages s1 @ [repeatedObservation call (cfgMaxRepeatedCall cfg)]\<rparr>)
      else andThen (orPersist (emit rt c ((newEvent EventToolStarted turn)\<lparr>evToolCall := call\<rparr>)))
             (\<lambda>_. startCalls rt cfg c turn calls) s1)"

definition fatalReason :: "ToolResult \<Rightarrow> TerminalReason" where
  "fatalReason r = (if resErrorCode r = ''permission_denied'' then TerminalPermissionDenied
     else if resErrorCode r = ''approval_required'' then TerminalApprovalRequired
     else if resErrorCode r = ''timeout'' then TerminalTimeout
     else if resErrorCode r = ''cancelled'' then TerminalAborted
     else TerminalFatalToolError)"

definition toolMessage :: "ToolResult \<Rightarrow> ChatMessage" where
  "toolMessage r = \<lparr>msgRole = RoleTool, msgContent = resOutput r, msgToolCalls = [], msgToolCallID = resToolCallID r, msgIsError = resIsError r\<rparr>"

text \<open>The results are matched with the calls by their index; an index past the calls is a panic.\<close>

definition afterResult :: "'w runtime \<Rightarrow> engineConfig \<Rightarrow> runConst \<Rightarrow> int \<Rightarrow> ToolCall list \<Rightarrow> nat \<Rightarrow> ToolResult \<Rightarrow> ('w, unit) act" where
  "afterResult rt cfg c turn calls index toolResult s =
     (if resFatal toolResult then
        (case on_world (rtContext rt) s of (ctxErr, s1) \<Rightarrow>
           let reason = (if contextReasonFromError ctxErr = NoReason then fatalReason toolResult else contextReasonFromError ctxErr) in
           (Inl (Finish reason None), s1\<lparr>egResult := (egResult s1)\<lparr>rrReason := reason\<rparr>\<rparr>))
      else if index \<ge> length calls then (Inl Panic, s) else
        let call = calls ! index; n = repeatCount (egRepeated s) (toolFingerprint call); limit = cfgMaxRepeatedCall cfg in
        if n = limit then
          let reminder = repeatedCallReminder (callName call) n limit in
          orPersist (emit rt c ((newEvent EventReminder turn)\<lparr>evMessage := reminder, evMetadata := [(''kind'', AnyString ''repeated_call''),
              (''tool'', AnyString (callName call)), (''count'', AnyInt n), (''hard_limit'', AnyInt limit)]\<rparr>))
            (s\<lparr>egMessages := egMessages s @ [reminder]\<rparr>)
        else (Inr (), s))"

fun takeResults :: "'w runtime \<Rightarrow> engineConfig \<Rightarrow> runConst \<Rightarrow> int \<Rightarrow> ToolCall list \<Rightarrow> nat \<Rightarrow> ToolResult list \<Rightarrow> ('w, unit) act" where
  "takeResults rt cfg c turn calls index [] s = (Inr (), s)"
| "takeResults rt cfg c turn calls index (rawResult # rs) s =
     (case attachRecoveryHint rawResult of (toolResult, hint) \<Rightarrow>
      andThen (orPersist (emit rt c ((newEvent EventToolResult turn)\<lparr>evToolResult := toolResult\<rparr>)))
        (\<lambda>_. andThen (if hint = [] then Pair (Inr ()) else orPersist (emit rt c ((newEvent EventRecoveryHint turn)\<lparr>evToolResult := toolResult,
               evMetadata := [(''error_code'', AnyString (resErrorCode toolResult)), (''hint'', AnyString hint)]\<rparr>)))
          (\<lambda>_. andThen (afterResult rt cfg c turn calls index toolResult) (\<lambda>_. takeResults rt cfg c turn calls (Suc index) rs)))
        (s\<lparr>egMessages := egMessages s @ [toolMessage toolResult]\<rparr>))"

definition toolStep :: "'w runtime \<Rightarrow> engineConfig \<Rightarrow> runConst \<Rightarrow> int \<Rightarrow> ToolCall list \<Rightarrow> ('w, unit) act" where
  "toolStep rt cfg c turn calls =
     andThen (startCalls rt cfg c turn calls)
       (\<lambda>_ s. case on_world (rtExecuteBatch rt calls) s of (results, s1) \<Rightarrow> takeResults rt cfg c turn calls 0 results s1)"

definition checkContext :: "'w runtime \<Rightarrow> ('w, unit) act" where
  "checkContext rt s = (case on_world (rtContext rt) s of (ctxErr, s1) \<Rightarrow>
     if contextReasonFromError ctxErr \<noteq> NoReason then (Inl (Finish (contextReasonFromError ctxErr) ctxErr), s1) else (Inr (), s1))"

definition runTurn :: "'w runtime \<Rightarrow> engineConfig \<Rightarrow> runConst \<Rightarrow> int \<Rightarrow> ('w, unit) act" where
  "runTurn rt cfg c turn s =
     andThen (checkContext rt)
       (\<lambda>_. andThen (orPersist (emit rt c (newEvent EventTurnStarted turn)))
       (\<lambda>_. andThen (claimInputs rt cfg c turn)
       (\<lambda>_. andThen (compactStep rt cfg c turn)
       (\<lambda>_. andThen (thinkStep rt cfg c turn)
       (\<lambda>_. andThen (generateStep rt cfg c turn)
       (\<lambda>message. andThen (toolStep rt cfg c turn (msgToolCalls message))
       (\<lambda>_. andThen (orPersist (commitKind rt cfg c (turn_kind turn ''tool-results'') turn))
       (\<lambda>_. orPersist (emit rt c (newEvent EventCheckpoint turn))))))))))
     (s\<lparr>egResult := (egResult s)\<lparr>rrTurns := turn\<rparr>\<rparr>)"

text \<open>The loop over the turns; the first argument counts the turns that are left.\<close>

fun turnLoop :: "'w runtime \<Rightarrow> engineConfig \<Rightarrow> runConst \<Rightarrow> nat \<Rightarrow> int \<Rightarrow> ('w, unit) act" where
  "turnLoop rt cfg c 0 turn s = (Inl (Finish TerminalMaxTurns None), s)"
| "turnLoop rt cfg c (Suc n) turn s = andThen (runTurn rt cfg c turn) (\<lambda>_. turnLoop rt cfg c n (turn + 1)) s"

section \<open>A run\<close>

definition startRun :: "'w runtime \<Rightarrow> engineConfig \<Rightarrow> runConst \<Rightarrow> bool \<Rightarrow> int \<Rightarrow> ('w, unit) act" where
  "startRun rt cfg c resumed completedTurns =
     andThen (\<lambda>s. case rtQueue rt of None \<Rightarrow> (Inr (), s) | Some q \<Rightarrow>
         (case on_world (iqReconcile q (reRunID c) (egClaims s)) s of
            (Some err, s1) \<Rightarrow> (Inl (Finish TerminalPersistenceError (Some (Wrap ''reconcile input claims'' err))), s1)
          | (None, s1) \<Rightarrow> (Inr (), s1)))
       (\<lambda>_. andThen (orPersist (commitKind rt cfg c ''admission'' completedTurns))
       (\<lambda>_. andThen (orPersist (emit rt c ((newEvent EventRunStarted completedTurns)\<lparr>evMetadata := [(''resumed'', AnyBool resumed),
            (''turn_id'', AnyString (reTurnID c)), (''admission'', AnyInt (reAdmission c)), (''lease_id'', AnyString (reLeaseID c)),
            (''parent_run_id'', AnyString (reParentRunID c)), (''parent_turn_id'', AnyString (reParentTurnID c))]\<rparr>)))
       (\<lambda>_. andThen (orPersist (emit rt c ((newEvent EventCapability completedTurns)\<lparr>evMetadata :=
           [(''sequence'', AnyUint64 (capSequence (reCapability c))), (''digest'', AnyString (capDigest (reCapability c))),
            (''tool_digest'', AnyString (capToolDigest (reCapability c))), (''prompt_digest'', AnyString (capPromptDigest (reCapability c))),
            (''agents_digest'', AnyString (capAgentsDigest (reCapability c))), (''skills_digest'', AnyString (capSkillsDigest (reCapability c)))]\<rparr>)))
       (\<lambda>_. turnLoop rt cfg c (nat (cfgMaxTurns cfg - completedTurns)) (completedTurns + 1)))))"

text \<open>The result of a run: \<open>None\<close> is a panic, else the result and the error; with the events that were emitted and the world.\<close>

type_synonym 'w run_outcome = "(EngineRunResult \<times> go_error option) option \<times> Event list \<times> 'w"

definition refuse :: "go_error \<Rightarrow> 'w \<Rightarrow> 'w run_outcome" where
  "refuse err w = (Some (zeroRunResult, Some err), [], w)"

definition executeRun :: "'w runtime \<Rightarrow> engineConfig \<Rightarrow> runConst \<Rightarrow> bool \<Rightarrow> int \<Rightarrow> 'w eng \<Rightarrow> 'w run_outcome" where
  "executeRun rt cfg c resumed completedTurns s =
     (case startRun rt cfg c resumed completedTurns s of
        (Inl (Finish reason err), s1) \<Rightarrow> (case finishRun rt cfg c reason err s1 of (r, s2) \<Rightarrow> (Some r, egEvents s2, egWorld s2))
      | (Inl Panic, s1) \<Rightarrow> (None, egEvents s1, egWorld s1)
      | (Inr u, s1) \<Rightarrow> (None, egEvents s1, egWorld s1))"

definition initialState :: "runConst \<Rightarrow> ChatMessage list \<Rightarrow> Checkpoint option \<Rightarrow> int \<Rightarrow> time \<Rightarrow> 'w \<Rightarrow> 'w eng" where
  "initialState c messages restored sequence t w =
     (let usage = (case restored of Some r \<Rightarrow> ckUsage r | None \<Rightarrow> zeroUsage); revision = (case restored of Some r \<Rightarrow> ckHistoryRevision r | None \<Rightarrow> 0) in
      \<lparr>egWorld = w, egMessages = messages,
       egResult = zeroRunResult\<lparr>rrRunID := reRunID c, rrTurnID := reTurnID c, rrAdmission := reAdmission c, rrCapability := reCapability c,
         rrHistoryRevision := revision, rrMemoryScope := reScope c, rrParentRunID := reParentRunID c, rrParentTurnID := reParentTurnID c,
         rrMessages := messages, rrUsage := usage, rrStartedAt := t\<rparr>,
       egSequence = sequence, egOpSequence = (case restored of Some r \<Rightarrow> ckOperationSequence r | None \<Rightarrow> 0), egRevision = revision,
       egRepeated = (case restored of Some r \<Rightarrow> restoreRepeated (ckRepeatedCalls r) [] | None \<Rightarrow> []),
       egClaims = (case restored of Some r \<Rightarrow> ckCommittedInputClaims r | None \<Rightarrow> []), egEvents = []\<rparr>)"

definition preferNonempty :: "string \<Rightarrow> string \<Rightarrow> string" where
  "preferNonempty a b = (if a \<noteq> [] then a else b)"

definition lastTraceSequence :: "'w runtime \<Rightarrow> Checkpoint \<Rightarrow> 'w \<Rightarrow> (go_error + int) \<times> 'w" where
  "lastTraceSequence rt r w =
     (case rtStore rt of None \<Rightarrow> (Inr (ckSequence r), w) | Some st \<Rightarrow>
      (case stLastSequence st of None \<Rightarrow> (Inr (ckSequence r), w) | Some f \<Rightarrow>
       (case f (ckRunID r) w of
          (Inl err, w1) \<Rightarrow> (Inl (Wrap ''engine: load trace sequence'' err), w1)
        | (Inr n, w1) \<Rightarrow> (Inr (if n > ckSequence r then n else ckSequence r), w1))))"

definition runEngine :: "'w runtime \<Rightarrow> engineConfig \<Rightarrow> string \<Rightarrow> ChatMessage list \<Rightarrow> promptSnapshot \<Rightarrow> Checkpoint option \<Rightarrow> 'w \<Rightarrow> 'w run_outcome" where
  "runEngine rt cfg userPrompt messages snapshot restored w0 =
     (let configured = TrimSpace (cfgRunID cfg) in
      case (if configured = [] then (case rtEntropy rt w0 of (e, w) \<Rightarrow> (newID ''run'' e, w)) else (configured, w0)) of (runID, w1) \<Rightarrow>
      let scope0 = TrimSpace (cfgMemoryScope cfg); restoredScope = (case restored of Some r \<Rightarrow> ckMemoryScope r | None \<Rightarrow> []) in
      if restoredScope \<noteq> [] \<and> scope0 \<noteq> [] \<and> scope0 \<noteq> restoredScope
      then refuse (Errorf (''engine: checkpoint memory scope '' @ restoredScope @ '' does not match '' @ scope0)) w1 else
      let scope = preferNonempty (preferNonempty restoredScope scope0) runID in
      case rtRevision rt w1 of (revision, w2) \<Rightarrow>
      let capability = combinedCapability revision snapshot in
      case rtEntropy rt w2 of (e1, w3) \<Rightarrow>
      (case (case restored of None \<Rightarrow> (Inr 0, w3)
             | Some r \<Rightarrow>
                 if \<not> Equivalent (ckCapability r) capability
                 then (Inl (Errorf (''engine: capability revision changed: checkpoint='' @ capDigest (ckCapability r) @ '' current='' @ capDigest capability)), w3)
                 else lastTraceSequence rt r w3) of
         (Inl err, w4) \<Rightarrow> refuse err w4
       | (Inr sequence, w4) \<Rightarrow>
           (case rtEntropy rt w4 of (e2, w5) \<Rightarrow>
            case rtNow rt w5 of (t, w6) \<Rightarrow>
            let c = \<lparr>reRunID = runID, reTurnID = (case restored of Some r \<Rightarrow> ckTurnID r | None \<Rightarrow> newID ''turn'' e1), reLeaseID = newID ''lease'' e2,
                  reAdmission = (case restored of Some r \<Rightarrow> ckAdmission r + 1 | None \<Rightarrow> 1), rePrompt = userPrompt, reWorkDir = cfgWorkDir cfg,
                  reScope = scope,
                  reParentRunID = preferNonempty (case restored of Some r \<Rightarrow> ckParentRunID r | None \<Rightarrow> []) (TrimSpace (cfgParentRunID cfg)),
                  reParentTurnID = preferNonempty (case restored of Some r \<Rightarrow> ckParentTurnID r | None \<Rightarrow> []) (TrimSpace (cfgParentTurnID cfg)),
                  reCapability = capability\<rparr> in
            executeRun rt cfg c (restored \<noteq> None) (case restored of Some r \<Rightarrow> ckTurn r | None \<Rightarrow> 0)
              (initialState c messages restored sequence t w6))))"

definition systemMessage :: "string \<Rightarrow> ChatMessage" where
  "systemMessage s = (userMessage s)\<lparr>msgRole := RoleSystem\<rparr>"

definition composePrompt :: "'w runtime \<Rightarrow> engineConfig \<Rightarrow> (promptSnapshot \<Rightarrow> 'w \<Rightarrow> 'w run_outcome) \<Rightarrow> 'w \<Rightarrow> 'w run_outcome" where
  "composePrompt rt cfg k w =
     (case rtCompose rt (cfgWorkDir cfg) (cfgSystemPrompt cfg) w of
        (Inl err, w1) \<Rightarrow> refuse (Wrap ''engine: compose prompt'' err) w1
      | (Inr snapshot, w1) \<Rightarrow> k snapshot w1)"

definition RunPrompt :: "'w runtime \<Rightarrow> engineConfig \<Rightarrow> string \<Rightarrow> 'w \<Rightarrow> 'w run_outcome" where
  "RunPrompt rt cfg userPrompt w =
     (if TrimSpace userPrompt = [] then refuse (Errorf ''engine: user prompt is empty'') w else
      composePrompt rt cfg (\<lambda>snapshot. runEngine rt cfg userPrompt [systemMessage (psSystemPrompt snapshot), userMessage userPrompt] snapshot None) w)"

fun systemIndex :: "nat \<Rightarrow> ChatMessage list \<Rightarrow> nat option" where
  "systemIndex n [] = None"
| "systemIndex n (m # ms) = (if msgRole m = RoleSystem then Some n else systemIndex (Suc n) ms)"

definition RunWithHistory :: "'w runtime \<Rightarrow> engineConfig \<Rightarrow> string \<Rightarrow> ChatMessage list \<Rightarrow> 'w \<Rightarrow> 'w run_outcome" where
  "RunWithHistory rt cfg userPrompt0 history w =
     (let userPrompt = TrimSpace userPrompt0 in
      if userPrompt = [] then refuse (Errorf ''engine: user prompt is empty'') w else
      (case history of
         [] \<Rightarrow> RunPrompt rt cfg userPrompt w
       | m # ms \<Rightarrow>
           if msgRole m \<noteq> RoleSystem \<or> TrimSpace (msgContent m) = []
           then refuse (Errorf ''engine: conversation history must start with a non-empty system message'') w else
           (case systemIndex 1 ms of
              Some n \<Rightarrow> refuse (Errorf (''engine: conversation history contains a system message at index '' @ dec_int (int n))) w
            | None \<Rightarrow> composePrompt rt cfg
                (\<lambda>snapshot. runEngine rt cfg userPrompt ((m\<lparr>msgContent := psSystemPrompt snapshot\<rparr> # ms) @ [userMessage userPrompt]) snapshot None) w)))"

text \<open>\<open>Resume\<close> sets the run id of the configuration to the checkpoint's.\<close>

definition Resume :: "(string \<Rightarrow> string) \<Rightarrow> 'w runtime \<Rightarrow> engineConfig \<Rightarrow> Checkpoint \<Rightarrow> 'w \<Rightarrow> 'w run_outcome" where
  "Resume clean rt cfg checkpoint w =
     (if ckVersion checkpoint \<noteq> 2 \<or> ckRunID checkpoint = [] \<or> ckTurnID checkpoint = [] \<or> ckPrompt checkpoint = [] \<or> ckWorkDir checkpoint = []
        \<or> length (ckMessages checkpoint) < 2
      then refuse (Errorf ''engine: invalid checkpoint'') w else
      if clean (ckWorkDir checkpoint) \<noteq> cfgWorkDir cfg
      then refuse (Errorf (''engine: checkpoint workspace '' @ ckWorkDir checkpoint @ '' does not match '' @ cfgWorkDir cfg)) w else
      if ckReason checkpoint = TerminalCompleted then refuse (Errorf ''engine: completed checkpoint cannot be resumed'') w else
      composePrompt rt cfg
        (\<lambda>snapshot. runEngine rt (cfg\<lparr>cfgRunID := ckRunID checkpoint\<rparr>) (ckPrompt checkpoint) (ckMessages checkpoint) snapshot (Some checkpoint)) w)"

end
