(* ===== verification/WindowProps.thy ===== *)
theory WindowProps
  imports ContextWindow Engine
begin

text \<open>
  What compaction does to the order of calls and results, which the model protocols require: a tool result follows the assistant message with its call,
  with only other tool results in between. Compaction keeps that. The engine, however, writes a reminder between two results of one batch,
  and a cut at the reminder leaves a result without its call.
\<close>

definition tools_follow :: "ChatMessage list \<Rightarrow> bool" where
  "tools_follow ms \<longleftrightarrow> (\<forall>i < length ms. msgRole (ms ! i) = RoleTool \<longrightarrow>
     (\<exists>j < i. msgRole (ms ! j) = RoleAssistant \<and> msgToolCallID (ms ! i) \<in> callID ` set (msgToolCalls (ms ! j)) \<and>
        (\<forall>k. j < k \<and> k < i \<longrightarrow> msgRole (ms ! k) = RoleTool)))"

text \<open>A pass changes contents only.\<close>

definition bare :: "ChatMessage \<Rightarrow> ChatMessage" where
  "bare m = m\<lparr>msgContent := []\<rparr>"

lemma bare_eq: "bare m = bare m' \<longleftrightarrow> msgRole m = msgRole m' \<and> msgToolCalls m = msgToolCalls m' \<and> msgToolCallID m = msgToolCallID m' \<and> msgIsError m = msgIsError m'"
  by (cases m; cases m') (simp add: bare_def)

lemma sweep_length [simp]: "length (fst (sweep f lo hi ms)) = length ms"
  by (simp add: sweep_def Let_def)

lemma sweep_nth:
  "i < length ms \<Longrightarrow> fst (sweep f lo hi ms) ! i = (if lo \<le> i \<and> i < hi then (case f i (ms ! i) of None \<Rightarrow> ms ! i | Some m \<Rightarrow> m) else ms ! i)"
  by (auto simp: sweep_def Let_def nth_enumerate_eq split: option.split)

lemma sweep_bare:
  assumes "\<And>i m m'. f i m = Some m' \<Longrightarrow> bare m' = bare m"
  shows "map bare (fst (sweep f lo hi ms)) = map bare ms"
  by (rule nth_equalityI) (auto simp: sweep_nth dest: assms split: option.splits)

lemma passes_bare:
  "archiveOld refs i m = Some m' \<Longrightarrow> bare m' = bare m"
  "cutRecent n refs i m = Some m' \<Longrightarrow> bare m' = bare m"
  "archiveAssistant refs i m = Some m' \<Longrightarrow> bare m' = bare m"
  by (auto simp: archiveOld_def cutRecent_def archiveAssistant_def bare_def split: if_splits)

lemma tools_follow_bare: "map bare ms = map bare ms' \<Longrightarrow> tools_follow ms \<Longrightarrow> tools_follow ms'"
proof -
  assume eq: "map bare ms = map bare ms'" and t: "tools_follow ms"
  then have len: "length ms = length ms'" by (metis length_map)
  have "bare (ms ! i) = bare (ms' ! i)" if "i < length ms" for i using eq len that by (metis nth_map)
  then have same: "msgRole (ms' ! i) = msgRole (ms ! i)" "msgToolCalls (ms' ! i) = msgToolCalls (ms ! i)"
    "msgToolCallID (ms' ! i) = msgToolCallID (ms ! i)" if "i < length ms" for i using that by (auto simp: bare_eq)
  show ?thesis unfolding tools_follow_def
  proof (intro allI impI)
    fix i assume "i < length ms'" "msgRole (ms' ! i) = RoleTool"
    with t len same obtain j where "j < i" "msgRole (ms ! j) = RoleAssistant" "msgToolCallID (ms ! i) \<in> callID ` set (msgToolCalls (ms ! j))"
      "\<forall>k. j < k \<and> k < i \<longrightarrow> msgRole (ms ! k) = RoleTool" by (auto simp: tools_follow_def)
    with same len \<open>i < length ms'\<close> show "\<exists>j<i. msgRole (ms' ! j) = RoleAssistant \<and> msgToolCallID (ms' ! i) \<in> callID ` set (msgToolCalls (ms' ! j)) \<and>
        (\<forall>k. j < k \<and> k < i \<longrightarrow> msgRole (ms' ! k) = RoleTool)" by (intro exI [of _ j]) auto
  qed
qed

section \<open>The cut\<close>

lemma findOwner_found:
  assumes "j < n" and "least \<le> j" and "msgRole (ms ! j) = RoleAssistant" and "set needed \<subseteq> callID ` set (msgToolCalls (ms ! j))"
    and "\<forall>k. j < k \<and> k < n \<longrightarrow> msgRole (ms ! k) = RoleTool"
  shows "findOwner ms needed least n = Some j"
  using assms
proof (induction n)
  case (Suc n)
  show ?case
  proof (cases "j = n")
    case True
    with Suc.prems have "filter (\<lambda>x. x \<notin> callID ` set (msgToolCalls (ms ! n))) needed = []" by (auto simp: filter_empty_conv)
    with True Suc.prems show ?thesis by (simp add: Let_def)
  next
    case False
    with Suc.prems have "j < n" "msgRole (ms ! n) = RoleTool" by auto
    with Suc show ?thesis by auto
  qed
qed simp

text \<open>The results behind the cut belong to one message with calls, to which the cut moves.\<close>

lemma owner_included:
  assumes "tools_follow ms" and "start < length ms" and "msgRole (ms ! start) = RoleTool" and "msgRole (ms ! 0) \<noteq> RoleAssistant"
  shows "includeToolCallOwner ms start 1 < start \<and> msgRole (ms ! includeToolCallOwner ms start 1) = RoleAssistant"
proof -
  from assms(1-3) obtain j where j: "j < start" "msgRole (ms ! j) = RoleAssistant"
    "\<forall>k. j < k \<and> k < start \<longrightarrow> msgRole (ms ! k) = RoleTool" by (auto simp: tools_follow_def)
  have "1 \<le> j" using j(2) assms(4) by (cases j) auto
  let ?run = "takeWhile (\<lambda>m. msgRole m = RoleTool) (drop start ms)"
  have "set (map msgToolCallID ?run) \<subseteq> callID ` set (msgToolCalls (ms ! j))"
  proof
    fix x assume "x \<in> set (map msgToolCallID ?run)"
    then obtain n where n: "n < length ?run" "x = msgToolCallID (?run ! n)" by (auto simp: in_set_conv_nth)
    have nth: "?run ! k = ms ! (start + k)" "msgRole (ms ! (start + k)) = RoleTool" if "k \<le> n" for k
    proof -
      from that n(1) have k: "k < length ?run" by simp
      then have "k < length (drop start ms)" by (metis length_takeWhile_le less_le_trans)
      then show "?run ! k = ms ! (start + k)" using k by (simp add: takeWhile_nth)
      with nth_mem [OF k] set_takeWhileD show "msgRole (ms ! (start + k)) = RoleTool" by metis
    qed
    have "start + n < length ms" using n(1) length_takeWhile_le [of "\<lambda>m. msgRole m = RoleTool" "drop start ms"] by simp
    with assms(1) nth(2) [of n] obtain i where i: "i < start + n" "msgRole (ms ! i) = RoleAssistant"
      "msgToolCallID (ms ! (start + n)) \<in> callID ` set (msgToolCalls (ms ! i))" "\<forall>k. i < k \<and> k < start + n \<longrightarrow> msgRole (ms ! k) = RoleTool"
      by (auto simp: tools_follow_def)
    have "\<not> start \<le> i"
    proof
      assume "start \<le> i"
      then obtain k where "i = start + k" "k \<le> n" using i(1) by (metis le_Suc_ex less_imp_le add_le_cancel_left)
      with nth(2) i(2) show False by simp
    qed
    moreover have "\<not> j < i" using i(2) j(3) calculation by (metis Role.distinct not_le)
    moreover have "\<not> i < j" using i(4) j(1,2) by (metis Role.distinct trans_less_add1)
    ultimately have "i = j" by simp
    with i(3) n(2) nth(1) show "x \<in> callID ` set (msgToolCalls (ms ! j))" by simp
  qed
  with findOwner_found [OF j(1) \<open>1 \<le> j\<close> j(2) _ j(3)] have "includeToolCallOwner ms start 1 = j"
    using assms(2,3) by (simp add: includeToolCallOwner_def)
  with j show ?thesis by simp
qed

lemma cut_keeps:
  assumes "tools_follow ms" and "msgRole (ms ! 0) \<noteq> RoleAssistant"
  shows "tools_follow (fst (cutTail budget least ms changed))"
proof -
  define start0 where "start0 = tailStart budget least ms (length ms) (approximateTokens (take 1 ms) + approximateTokens [notice []])"
  define start where "start = includeToolCallOwner ms start0 1"
  have cut: "cutTail budget least ms changed = (if start \<le> 1 then (ms, changed)
      else (ms ! 0 # notice ('' Omitted '' @ dec_int (int start - 1) @ '' message(s).'') # drop start ms, True))"
    unfolding cutTail_def Let_def start_def start0_def by (rule refl)
  show ?thesis
  proof (cases "start \<le> 1")
    case True
    with assms(1) show ?thesis by (simp add: cut)
  next
    case False
    have no_tool: "msgRole (ms ! start) \<noteq> RoleTool" if "start < length ms"
    proof (cases "start0 \<ge> length ms \<or> msgRole (ms ! start0) \<noteq> RoleTool")
      case True
      with that show ?thesis by (auto simp: start_def includeToolCallOwner_def)
    next
      case False
      with owner_included [OF assms(1) _ _ assms(2), of start0] show ?thesis by (simp add: start_def)
    qed
    define out where "out = ms ! 0 # notice ('' Omitted '' @ dec_int (int start - 1) @ '' message(s).'') # drop start ms"
    have "tools_follow out" unfolding tools_follow_def
    proof (intro allI impI)
      fix i assume i: "i < length out" "msgRole (out ! i) = RoleTool"
      have "i \<noteq> 0"
      proof
        assume "i = 0"
        with i(2) have z: "msgRole (ms ! 0) = RoleTool" by (simp add: out_def)
        show False
        proof (cases "ms = []")
          case True
          then have "start0 = 0" by (simp add: start0_def)
          with True False show False by (simp add: start_def includeToolCallOwner_def)
        next
          case False
          with z assms(1) show False by (auto simp: tools_follow_def)
        qed
      qed
      moreover have "i \<noteq> 1" using i(2) by (auto simp: out_def notice_def)
      ultimately obtain n where n: "i = Suc (Suc n)" by (metis One_nat_def not0_implies_Suc)
      with i have s: "start + n < length ms" "msgRole (ms ! (start + n)) = RoleTool" by (simp_all add: out_def)
      with assms(1) obtain j where j: "j < start + n" "msgRole (ms ! j) = RoleAssistant"
        "msgToolCallID (ms ! (start + n)) \<in> callID ` set (msgToolCalls (ms ! j))" "\<forall>k. j < k \<and> k < start + n \<longrightarrow> msgRole (ms ! k) = RoleTool"
        unfolding tools_follow_def by blast
      have "start \<le> j"
      proof (rule ccontr)
        assume "\<not> start \<le> j"
        with j(4) s have "msgRole (ms ! start) = RoleTool" by (cases "n = 0") auto
        with no_tool s(1) show False by simp
      qed
      then obtain m where m: "j = start + m" by (metis le_Suc_ex)
      have shift: "out ! Suc (Suc k) = ms ! (start + k)" if "k \<le> n" for k using that s(1) by (simp add: out_def)
      have mid: "msgRole (out ! k) = RoleTool" if "Suc (Suc m) < k" "k < i" for k
      proof -
        from that obtain k' where k': "k = Suc (Suc k')" by (metis Suc_lessE)
        with that n have "m < k'" "k' < n" by auto
        with k' shift [of k'] j(4) m show ?thesis by simp
      qed
      show "\<exists>j<i. msgRole (out ! j) = RoleAssistant \<and> msgToolCallID (out ! i) \<in> callID ` set (msgToolCalls (out ! j)) \<and>
          (\<forall>k. j < k \<and> k < i \<longrightarrow> msgRole (out ! k) = RoleTool)"
        using j m n shift [of m] shift [of n] mid by (intro exI [of _ "Suc (Suc m)"]) auto
    qed
    with False show ?thesis by (simp add: cut out_def)
  qed
qed

lemma compactMessages_keeps:
  assumes "tools_follow ms" and "msgRole (ms ! 0) \<noteq> RoleAssistant" and "ms \<noteq> []"
  shows "tools_follow (fst (compactMessages w budget refs ms))"
proof -
  define hi where "hi = nat (max 1 (int (length ms) - or_default (wdRecentMessages w) 8))"
  obtain m1 c1 where s1: "sweep (archiveOld refs) 1 hi ms = (m1, c1)" by fastforce
  obtain m2 c2 where s2: "sweep (cutRecent (or_default (wdMaxToolBytes w) 4096) refs) hi (length ms) m1 = (m2, c2)" by fastforce
  obtain m3 c3 where s3: "sweep (archiveAssistant refs) 1 hi m2 = (m3, c3)" by fastforce
  have fsts: "m1 = fst (sweep (archiveOld refs) 1 hi ms)" "m2 = fst (sweep (cutRecent (or_default (wdMaxToolBytes w) 4096) refs) hi (length ms) m1)"
    "m3 = fst (sweep (archiveAssistant refs) 1 hi m2)" by (simp_all only: s1 s2 s3 fst_conv)
  have b1: "map bare m1 = map bare ms" unfolding fsts(1) by (rule sweep_bare) (rule passes_bare(1))
  have b2: "map bare m2 = map bare m1" unfolding fsts(2) by (rule sweep_bare) (rule passes_bare(2))
  have b3: "map bare m3 = map bare m2" unfolding fsts(3) by (rule sweep_bare) (rule passes_bare(3))
  have t: "tools_follow m2" "tools_follow m3" using assms(1) b1 b2 b3 tools_follow_bare by metis+
  have "bare (m3 ! 0) = bare (ms ! 0)" using b1 b2 b3 assms(3) by (metis length_0_conv length_map neq0_conv nth_map)
  then have "msgRole (m3 ! 0) \<noteq> RoleAssistant" using assms(2) by (simp add: bare_eq)
  with t(2) have "tools_follow (fst (cutTail budget (or_default (wdMinTailMessages w) 4) m3 (c1 \<or> c2 \<or> c3)))" by (rule cut_keeps)
  moreover have "compactMessages w budget refs ms = (if approximateTokens m2 \<le> budget then (m2, c1 \<or> c2)
      else if approximateTokens m3 \<le> budget then (m3, c1 \<or> c2 \<or> c3)
      else cutTail budget (or_default (wdMinTailMessages w) 4) m3 (c1 \<or> c2 \<or> c3))"
    unfolding compactMessages_def Let_def hi_def [symmetric] s1 prod.case s2 s3 by (rule refl)
  ultimately show ?thesis using t by simp
qed

lemma Compact_cases:
  assumes "Compact w err ms s = (Inr (out, changed), s')"
  obtains (same) "out = ms" | (compacted) budget refs where "compactMessages w budget refs ms = (out, changed)"
  using assms by (auto simp: Compact_def Let_def split: if_splits option.splits sum.splits prod.splits)

text \<open>C34. If every tool result follows the message with its call, with only tool results in between, and the conversation does not begin with an
  assistant message, the same holds after a compaction, whatever is archived, cut or dropped.\<close>

theorem compaction_keeps_calls:
  assumes "tools_follow ms" and "ms \<noteq> []" and "msgRole (hd ms) \<noteq> RoleAssistant" and "Compact w err ms s = (Inr (out, changed), s')"
  shows "tools_follow out"
proof -
  from assms(2,3) have "msgRole (ms ! 0) \<noteq> RoleAssistant" by (simp add: hd_conv_nth)
  note keeps = compactMessages_keeps [OF assms(1) this assms(2)]
  from assms(4) show ?thesis
  proof (cases rule: Compact_cases)
    case (compacted budget refs)
    with keeps [of w budget refs] show ?thesis by simp
  qed (simp add: assms(1))
qed

lemma sweep_none: "(\<And>i. i < length ms \<Longrightarrow> lo \<le> i \<Longrightarrow> i < hi \<Longrightarrow> f i (ms ! i) = None) \<Longrightarrow> sweep f lo hi ms = (ms, False)"
proof -
  assume none: "\<And>i. i < length ms \<Longrightarrow> lo \<le> i \<Longrightarrow> i < hi \<Longrightarrow> f i (ms ! i) = None"
  then have "fst (sweep f lo hi ms) = ms" by (intro nth_equalityI) (simp_all add: sweep_nth)
  moreover have "snd (sweep f lo hi ms) = False" using none by (auto simp: sweep_def Let_def list_ex_iff in_set_enumerate_eq)
  ultimately show ?thesis by (simp add: prod_eq_iff)
qed

text \<open>What a batch of four calls leaves behind when the first of them reaches the limit of repetitions: the reminder stands between the
  results.\<close>

definition batch_messages :: "ChatMessage \<Rightarrow> ChatMessage \<Rightarrow> ChatMessage \<Rightarrow> ToolResult list \<Rightarrow> string \<Rightarrow> int \<Rightarrow> ChatMessage list" where
  "batch_messages sys usr asst rs name limit =
     [sys, usr, asst, toolMessage (rs ! 0), repeatedCallReminder name limit limit, toolMessage (rs ! 1), toolMessage (rs ! 2), toolMessage (rs ! 3)]"

lemma batch_roles:
  "msgRole (toolMessage r) = RoleTool" "msgRole (repeatedCallReminder name n limit) = RoleUser" "msgContent (toolMessage r) = resOutput r"
  by (simp_all add: toolMessage_def repeatedCallReminder_def userMessage_def)

text \<open>C35. The window with its default settings, on a conversation in which the reminder of a repeated call stands between the results of a batch
  of four: when the messages must be cut there, the results behind the reminder stay and no assistant message is left, so the results
  have lost their calls.\<close>

theorem reminder_cut_orphans:
  assumes "wdMinTailMessages w \<le> 0" and "wdRecentMessages w \<le> 0" and "wdMaxToolBytes w \<le> 0" and "wdArchive w = None"
    and "ms = batch_messages sys usr asst rs name limit" and "length rs = 4" and "\<forall>r\<in>set rs. length (resOutput r) \<le> 4096"
    and "msgRole sys = RoleSystem" and "msgRole usr = RoleUser" and "msgRole asst = RoleAssistant"
    and "0 < wdMaxApproxTokens w" and "budget = wdMaxApproxTokens w - wdReserveTokens w" and "0 < budget"
    and "budget < approximateTokens ms" and "budget < sum_list (map (\<lambda>m. approximateTokens [m]) (sys # notice [] # drop 3 ms))"
  shows "\<exists>out. Compact w None ms s = (Inr (out, True), s) \<and> drop 4 ms = drop 2 out \<and>
    toolMessage (rs ! 1) \<in> set out \<and> (\<forall>m\<in>set out. msgRole m \<noteq> RoleAssistant) \<and> \<not> tools_follow out"
proof -
  let ?out = "ms ! 0 # notice ('' Omitted '' @ dec_int (int 4 - 1) @ '' message(s).'') # drop 4 ms"
  have short: "length (resOutput (rs ! k)) \<le> 4096" if "k < 4" for k using that assms(6,7) by simp
  have ms: "ms = [sys, usr, asst, toolMessage (rs ! 0), repeatedCallReminder name limit limit, toolMessage (rs ! 1), toolMessage (rs ! 2), toolMessage (rs ! 3)]"
    using assms(5) by (simp add: batch_messages_def)
  have len: "length ms = 8" by (simp add: ms)
  have tool: "\<forall>m\<in>set ms. msgRole m = RoleTool \<longrightarrow> length (msgContent m) \<le> 4096"
    using short assms(8-10) by (simp add: ms batch_roles)
  have s1: "sweep (archiveOld (\<lambda>i. [])) 1 1 ms = (ms, False)" by (rule sweep_none) simp
  have s2: "sweep (cutRecent 4096 (\<lambda>i. [])) 1 8 ms = (ms, False)"
    by (rule sweep_none) (use tool nth_mem [of _ ms] in \<open>fastforce simp: cutRecent_def not_less\<close>)
  have s3: "sweep (archiveAssistant (\<lambda>i. [])) 1 1 ms = (ms, False)" by (rule sweep_none) simp
  define cost where "cost = (\<lambda>i. approximateTokens [ms ! i])"
  have fixed: "approximateTokens (take 1 ms) = cost 0" by (simp add: ms cost_def)
  define used where "used = cost 0 + approximateTokens [notice []]"
  have sum: "budget < used + cost 7 + cost 6 + cost 5 + cost 4 + cost 3"
    using assms(15) by (simp add: ms cost_def used_def)
  have "tailStart budget 4 ms 8 used = 4"
    using sum tailStart.simps(1) [of budget 4 ms 6] tailStart.simps(1) [of budget 4 ms 5] tailStart.simps(1) [of budget 4 ms 4]
      tailStart.simps(1) [of budget 4 ms 3] tailStart.simps(1) [of budget 4 ms 2]
    by (simp add: len Let_def flip: cost_def) (simp add: cost_def add.assoc)
  moreover have "msgRole (ms ! 4) = RoleUser" by (simp add: ms batch_roles)
  ultimately have cut: "cutTail budget 4 ms c = (?out, True)" for c
    unfolding cutTail_def len fixed used_def [symmetric] Let_def by (simp add: includeToolCallOwner_def)
  have "compactMessages w budget (\<lambda>i. []) ms = (?out, True)"
    using assms(1-3,14) unfolding compactMessages_def len by (simp add: or_default_def s1 [unfolded One_nat_def] s2 [unfolded One_nat_def] s3 [unfolded One_nat_def] cut)
  then have c: "Compact w None ms s = (Inr (?out, True), s)"
    using assms(4,11-14) by (simp add: Compact_def Let_def len)
  have d: "drop 4 ms = [repeatedCallReminder name limit limit, toolMessage (rs ! 1), toolMessage (rs ! 2), toolMessage (rs ! 3)]" by (simp add: ms)
  define n where "n = notice ('' Omitted '' @ dec_int (int 4 - 1) @ '' message(s).'')"
  define out where "out = ?out"
  have out: "out = [sys, n, repeatedCallReminder name limit limit, toolMessage (rs ! 1), toolMessage (rs ! 2), toolMessage (rs ! 3)]"
    unfolding out_def d by (simp add: ms n_def)
  have "msgRole n = RoleSystem" by (simp add: n_def notice_def)
  then have roles: "\<forall>m\<in>set out. msgRole m \<noteq> RoleAssistant" using assms(8) by (simp add: out batch_roles)
  have three: "3 < length out" "msgRole (out ! 3) = RoleTool" by (simp_all add: out batch_roles numeral_3_eq_3)
  have "\<not> tools_follow out"
  proof
    assume "tools_follow out"
    with three obtain j where "j < 3" "msgRole (out ! j) = RoleAssistant" unfolding tools_follow_def by blast
    with roles three(1) show False using nth_mem [of j out] by simp
  qed
  moreover have "toolMessage (rs ! 1) \<in> set out" by (simp add: out)
  moreover have "drop 4 ms = drop 2 out" by (simp add: out d)
  ultimately show ?thesis using c [folded out_def] roles by blast
qed

text \<open>A message takes at least two tokens.\<close>

lemma join_first: "length x \<le> length (join sep (x # xs))"
  by (cases xs) simp_all

lemma tokens_two: "json_list json_message (m # ms) = Some js \<Longrightarrow> 2 \<le> approximateTokens (m # ms)"
proof -
  assume js: "json_list json_message (m # ms) = Some js"
  then obtain j js' where j: "json_message m = Some j" "js = j # js'" by (auto split: option.splits)
  then obtain fs where "j = JObj ((''role'', JStr (role_text (msgRole m))) # fs)" by (auto simp: json_message_def split: option.splits)
  then have "9 \<le> length (json_text j)"
    using join_first [of "json_string ''role'' @ '':'' @ json_string (role_text (msgRole m))" "'',''" "map (\<lambda>(k, v). json_string k @ '':'' @ json_text v) fs"]
    by (simp add: json_string_def json_escape1_def)
  then have "9 \<le> length (join '','' (map json_text js))" using join_first [of "json_text j" "'',''" "map json_text js'"] by (simp add: j(2))
  then show ?thesis unfolding approximateTokens_def js by simp
qed

lemma tokens_nonneg: "0 \<le> approximateTokens ms"
  unfolding approximateTokens_def by (auto split: option.split)

lemma json_list_Some: "\<forall>m\<in>set ms. \<exists>j. f m = Some j \<Longrightarrow> \<exists>js. json_list f ms = Some js"
  by (induction ms) auto

definition demo_result :: "string \<Rightarrow> ToolResult" where
  "demo_result i = zeroToolResult\<lparr>resToolCallID := i, resOutput := ''ok''\<rparr>"

definition demo_said :: "Role \<Rightarrow> ToolCall list \<Rightarrow> ChatMessage" where
  "demo_said r cs = \<lparr>msgRole = r, msgContent = ''x'', msgToolCalls = cs, msgToolCallID = [], msgIsError = False\<rparr>"

definition demo_calls :: "ToolCall list" where
  "demo_calls = map (\<lambda>i. \<lparr>callID = i, callName = ''ls'', callArguments = RawNil\<rparr>) [''a'', ''b'', ''c'', ''d'']"

definition demo_window :: "unit Window" where
  "demo_window = \<lparr>wdMaxApproxTokens = 1, wdReserveTokens = 0, wdMinTailMessages = 0, wdRecentMessages = 0, wdMaxToolBytes = 0, wdArchive = None\<rparr>"

definition demo_batch_messages :: "ChatMessage list" where
  "demo_batch_messages = batch_messages (demo_said RoleSystem []) (demo_said RoleUser []) (demo_said RoleAssistant demo_calls)
     (map demo_result [''a'', ''b'', ''c'', ''d'']) ''ls'' 3"

lemma demo_encoded: "\<exists>j. json_message (toolMessage r) = Some j" "\<exists>j. json_message (demo_said x []) = Some j"
  "\<exists>j. json_message (demo_said x demo_calls) = Some j" "\<exists>j. json_message (repeatedCallReminder name n l) = Some j" "\<exists>j. json_message (notice e) = Some j"
  by (simp_all add: json_message_def toolMessage_def demo_said_def demo_calls_def json_call_def repeatedCallReminder_def userMessage_def notice_def)

theorem reminder_cut_orphans_witness:
  "\<exists>out. Compact demo_window None demo_batch_messages () = (Inr (out, True), ()) \<and> toolMessage (demo_result ''b'') \<in> set out \<and>
     (\<forall>m\<in>set out. msgRole m \<noteq> RoleAssistant)"
proof -
  let ?rs = "map demo_result [''a'', ''b'', ''c'', ''d'']" and ?ms = demo_batch_messages
  have one: "2 \<le> approximateTokens [m]" if "\<exists>j. json_message m = Some j" for m
  proof -
    from that obtain j where "json_list json_message [m] = Some [j]" by auto
    then show ?thesis by (rule tokens_two)
  qed
  have "\<exists>js. json_list json_message ?ms = Some js"
    by (rule json_list_Some) (use demo_encoded in \<open>simp add: demo_batch_messages_def batch_messages_def\<close>)
  then have all: "1 < approximateTokens ?ms"
    using tokens_two [of "hd ?ms" "tl ?ms"] by (fastforce simp: demo_batch_messages_def batch_messages_def)
  have sum: "1 < sum_list (map (\<lambda>m. approximateTokens [m]) (demo_said RoleSystem [] # notice [] # drop 3 ?ms))"
    using one [OF demo_encoded(2) [of RoleSystem]] tokens_nonneg [of "[notice []]"]
      sum_list_nonneg [of "map (\<lambda>m. approximateTokens [m]) (drop 3 ?ms)"] tokens_nonneg by fastforce
  have "\<exists>out. Compact demo_window None ?ms () = (Inr (out, True), ()) \<and> drop 4 ?ms = drop 2 out \<and>
    toolMessage (?rs ! 1) \<in> set out \<and> (\<forall>m\<in>set out. msgRole m \<noteq> RoleAssistant) \<and> \<not> tools_follow out"
    by (rule reminder_cut_orphans [where budget = 1 and rs = ?rs and name = "''ls''" and limit = 3, OF _ _ _ _ demo_batch_messages_def])
      (use all sum in \<open>simp_all add: demo_window_def demo_result_def demo_said_def\<close>)
  then show ?thesis by auto
qed

definition demo_conversation :: "ChatMessage list" where
  "demo_conversation = [demo_said RoleSystem [], demo_said RoleUser [], demo_said RoleAssistant demo_calls, toolMessage (demo_result ''a''),
     toolMessage (demo_result ''b''), demo_said RoleUser [], demo_said RoleAssistant []]"

lemma demo_follow: "tools_follow demo_conversation"
  unfolding tools_follow_def
proof (intro allI impI)
  fix i assume i: "i < length demo_conversation" "msgRole (demo_conversation ! i) = RoleTool"
  have "length demo_conversation = 7" by (simp add: demo_conversation_def)
  with i(1) have "i \<in> {0, 1, 2, 3, 4, 5, 6}" by auto
  with i(2) have c: "i = 3 \<or> i = 4" by (auto simp: demo_conversation_def demo_said_def)
  then have "msgToolCallID (demo_conversation ! i) \<in> callID ` set (msgToolCalls (demo_conversation ! 2))"
    by (auto simp: demo_conversation_def demo_said_def demo_calls_def toolMessage_def demo_result_def zeroToolResult_def)
  moreover have "msgRole (demo_conversation ! 2) = RoleAssistant" "msgRole (demo_conversation ! 3) = RoleTool"
    by (simp_all add: demo_conversation_def demo_said_def toolMessage_def)
  moreover have "\<forall>k. 2 < k \<and> k < i \<longrightarrow> k = 3" "2 < i" using c by auto
  ultimately show "\<exists>j<i. msgRole (demo_conversation ! j) = RoleAssistant \<and>
      msgToolCallID (demo_conversation ! i) \<in> callID ` set (msgToolCalls (demo_conversation ! j)) \<and>
      (\<forall>k. j < k \<and> k < i \<longrightarrow> msgRole (demo_conversation ! k) = RoleTool)" by (intro exI [of _ 2]) auto
qed

theorem compaction_keeps_calls_witness:
  "\<exists>out changed. Compact demo_window None demo_conversation () = (Inr (out, changed), ()) \<and> tools_follow out"
proof -
  have "\<exists>p. Compact demo_window None demo_conversation () = (Inr p, ())"
    by (auto simp: Compact_def demo_window_def Let_def)
  then obtain out changed where c: "Compact demo_window None demo_conversation () = (Inr (out, changed), ())" by fastforce
  have "demo_conversation \<noteq> []" "msgRole (hd demo_conversation) \<noteq> RoleAssistant" by (simp_all add: demo_conversation_def demo_said_def)
  from compaction_keeps_calls [OF demo_follow this c] c show ?thesis by blast
qed

end
