(* ===== verification/MemoryArchive.thy ===== *)
theory MemoryArchive
  imports ContextWindow
begin

text \<open>
  The memory archive (internal/memory/archive.go): before the compactor shortens a conversation, it has the archive keep a copy of every message, in an
  append-only log per scope. A copy is named by a digest of what it holds and of its place in the run, so that a copy is written once. The ranking of \<open>Search\<close> (logarithms of
  float64 numbers, the classes of Unicode) is not modelled.
\<close>

record MemMetadata =
  mmScope :: string
  mmRunID :: string
  mmTurn :: int

record MemEntry =
  meID :: string
  meScope :: string
  meRunID :: string
  meTurn :: int
  meIndex :: int
  meRole :: Role
  meToolCalls :: "ToolCall list"
  meToolCallID :: string
  meContent :: string
  meIsError :: bool
  meDigest :: string
  meArchivedAt :: time

type_synonym memDir = "MemEntry log gomap"

definition memoryPath :: "string \<Rightarrow> string" where
  "memoryPath scope = sha256_hex scope @ ''.memory.jsonl''"

section \<open>Reading\<close>

text \<open>The loop over the file; \<open>seen\<close> maps the ids to their digest. No file is an empty one.\<close>

fun loadEntries :: "string gomap \<Rightarrow> MemEntry log \<Rightarrow> go_error + MemEntry list" where
  "loadEntries seen [] = Inr []"
| "loadEntries seen (Garbage # ls) = Inl (Wrap ''decode memory archive'' IOError)"
| "loadEntries seen (Record x # ls) =
     (if meID x = [] \<or> meScope x = [] \<or> meRunID x = [] \<or> meDigest x = [] \<or> meArchivedAt x = 0
      then Inl (Errorf ''memory archive contains an invalid entry'') else
      (case mget seen (meID x) of
         Some previous \<Rightarrow>
           if previous \<noteq> meDigest x then Inl (Errorf (''memory archive contains conflicting source '' @ meID x)) else loadEntries seen ls
       | None \<Rightarrow> map_sum id ((#) x) (loadEntries (mput (meID x) (meDigest x) seen) ls)))"

section \<open>The copies\<close>

text \<open>The JSON text that is digested; \<open>None\<close> when the arguments of a call are no JSON.\<close>

definition identityText :: "string \<Rightarrow> string \<Rightarrow> int \<Rightarrow> int \<Rightarrow> Role \<Rightarrow> ToolCall list \<Rightarrow> string \<Rightarrow> string \<Rightarrow> bool \<Rightarrow> string option" where
  "identityText scope runID turn index role calls callid content isError =
     (case json_list json_call calls of None \<Rightarrow> None | Some cs \<Rightarrow>
      Some (json_text (JObj ([(''scope'', JStr scope), (''run_id'', JStr runID), (''turn'', JInt turn), (''index'', JInt index),
        (''role'', JStr (role_text role))] @ (if cs = [] then [] else [(''tool_calls'', JArr cs)]) @
        [(''tool_call_id'', JStr callid), (''content'', JStr content), (''is_error'', JBool isError)]))))"

definition messageText :: "MemMetadata \<Rightarrow> nat \<Rightarrow> ChatMessage \<Rightarrow> string option" where
  "messageText md i m = identityText (mmScope md) (mmRunID md) (mmTurn md) (int i) (msgRole m) (msgToolCalls m) (msgToolCallID m) (msgContent m) (msgIsError m)"

definition memID :: "string \<Rightarrow> string" where
  "memID identity = ''mem-'' @ take 32 (sha256_hex identity)"

definition newEntry :: "MemMetadata \<Rightarrow> time \<Rightarrow> nat \<Rightarrow> ChatMessage \<Rightarrow> string \<Rightarrow> MemEntry" where
  "newEntry md n i m identity = \<lparr>meID = memID identity, meScope = mmScope md, meRunID = mmRunID md, meTurn = mmTurn md, meIndex = int i,
     meRole = msgRole m, meToolCalls = msgToolCalls m, meToolCallID = msgToolCallID m, meContent = msgContent m, meIsError = msgIsError m,
     meDigest = sha256_hex identity, meArchivedAt = n\<rparr>"

definition archivable :: "ChatMessage \<Rightarrow> bool" where
  "archivable m \<longleftrightarrow> msgRole m \<noteq> RoleSystem \<and> (TrimSpace (msgContent m) \<noteq> [] \<or> msgToolCalls m \<noteq> [])"

fun newEntries :: "MemMetadata \<Rightarrow> time \<Rightarrow> nat \<Rightarrow> ChatMessage list \<Rightarrow> go_error + (nat \<times> MemEntry) list" where
  "newEntries md n i [] = Inr []"
| "newEntries md n i (m # ms) =
     (if \<not> archivable m then newEntries md n (i + 1) ms
      else if length (msgContent m) > 1048576 then Inl (Errorf (''message '' @ dec_int (int i) @ '' exceeds archive limit'')) else
      (case messageText md i m of None \<Rightarrow> Inl IOError | Some identity \<Rightarrow>
       map_sum id ((#) (i, newEntry md n i m identity)) (newEntries md n (i + 1) ms)))"

text \<open>The map of references; an index without a reference has the empty text.\<close>

definition references :: "(nat \<times> MemEntry) list \<Rightarrow> nat \<Rightarrow> string" where
  "references xs i = (case map_of xs i of None \<Rightarrow> [] | Some x \<Rightarrow> meID x)"

definition wire_entry :: "MemEntry \<Rightarrow> MemEntry option" where
  "wire_entry x = (if json_time (meArchivedAt x) = None then None
     else map_option (\<lambda>cs. x\<lparr>meToolCalls := cs\<rparr>) (wire_list wire_call (meToolCalls x)))"

section \<open>Writing\<close>

text \<open>What the file system does: whether the file opens, what becomes of each line, whether the file and its directory are synced and closed. A
  line that is not written completely leaves nothing or a torn line.\<close>

record MemIO =
  moOpen :: bool
  moLine :: "nat \<Rightarrow> append_io"
  moSync :: bool

text \<open>The loop that writes; \<open>k\<close> counts the lines, and \<open>known\<close> maps the ids in the file to their entry.\<close>

fun appendEntries :: "(nat \<Rightarrow> append_io) \<Rightarrow> nat \<Rightarrow> MemEntry gomap \<Rightarrow> MemEntry list \<Rightarrow> MemEntry log \<Rightarrow> go_error option \<times> MemEntry log" where
  "appendEntries w k known [] log = (None, log)"
| "appendEntries w k known (x # xs) log =
     (case mget known (meID x) of
        Some previous \<Rightarrow>
          if meDigest previous \<noteq> meDigest x \<or> meScope previous \<noteq> meScope x
          then (Some (Errorf (''memory source '' @ meID x @ '' has conflicting semantics'')), log) else appendEntries w k known xs log
      | None \<Rightarrow>
          (case wire_entry x of None \<Rightarrow> (Some IOError, log) | Some v \<Rightarrow>
           (case w k of
              Ap_ok \<Rightarrow> appendEntries w (k + 1) (mput (meID x) x known) xs (log @ [Record v])
            | Ap_torn \<Rightarrow> (Some IOError, log @ [Garbage])
            | Ap_late \<Rightarrow> (Some IOError, log @ [Record v])
            | _ \<Rightarrow> (Some IOError, log))))"

definition knownEntries :: "MemEntry list \<Rightarrow> MemEntry gomap" where
  "knownEntries xs = fold (\<lambda>x m. mput (meID x) x m) xs []"

text \<open>The file is written, closed and read again.\<close>

definition commitEntries :: "MemIO \<Rightarrow> string \<Rightarrow> MemEntry list \<Rightarrow> MemEntry gomap \<Rightarrow> memDir \<Rightarrow> go_error option \<times> memDir" where
  "commitEntries w path entries known a =
     (if \<not> moOpen w then (Some IOError, a) else
      (case appendEntries (moLine w) 0 known entries (log_lines a path) of (r, log) \<Rightarrow>
       let a1 = mput path log a in
       (case r of Some err \<Rightarrow> (Some err, a1) | None \<Rightarrow>
        if \<not> moSync w then (Some IOError, a1) else
        (case loadEntries [] log of
           Inl err \<Rightarrow> (Some (Wrap ''read back memory archive'' err), a1)
         | Inr verified \<Rightarrow>
             (case find (\<lambda>x. meID x \<notin> meID ` set verified) entries of
                Some x \<Rightarrow> (Some (Errorf (''memory source '' @ meID x @ '' missing after commit'')), a1)
              | None \<Rightarrow> (None, a1))))))"

definition ArchiveMessages :: "env \<Rightarrow> MemMetadata option \<Rightarrow> MemIO \<Rightarrow> ChatMessage list \<Rightarrow> memDir \<Rightarrow> (go_error + (nat \<Rightarrow> string)) \<times> memDir" where
  "ArchiveMessages e metadata w ms a =
     (case metadata of None \<Rightarrow> (Inl (Errorf ''memory archive requires run scope metadata''), a) | Some md \<Rightarrow>
      if TrimSpace (mmScope md) = [] \<or> TrimSpace (mmRunID md) = [] then (Inl (Errorf ''memory archive requires run scope metadata''), a) else
      (case cerr e of Some err \<Rightarrow> (Inl err, a) | None \<Rightarrow>
       (case newEntries md (clk e 0) 0 ms of Inl err \<Rightarrow> (Inl err, a) | Inr xs \<Rightarrow>
        if xs = [] then (Inr (references xs), a) else
        (case loadEntries [] (log_lines a (memoryPath (mmScope md))) of Inl err \<Rightarrow> (Inl err, a) | Inr existing \<Rightarrow>
         (case commitEntries w (memoryPath (mmScope md)) (map snd xs) (knownEntries existing) a of
            (Some err, a1) \<Rightarrow> (Inl err, a1)
          | (None, a1) \<Rightarrow> (Inr (references xs), a1))))))"

end
