(* ===== verification/MemoryProps.thy ===== *)
theory MemoryProps
  imports MemoryArchive WindowProps
begin

text \<open>
  Compaction with the archive: when the compactor has changed a conversation, the archive holds a copy of every message that is neither a system
  message nor blank, and keeps it whatever is archived later and whatever fails. A torn line of the archive, however, makes every later compaction of its scope fail.
\<close>

section \<open>The text of an entry\<close>

definition entryText :: "MemEntry \<Rightarrow> string option" where
  "entryText x = identityText (meScope x) (meRunID x) (meTurn x) (meIndex x) (meRole x) (meToolCalls x) (meToolCallID x) (meContent x) (meIsError x)"

definition entry_ok :: "MemEntry \<Rightarrow> bool" where
  "entry_ok x \<longleftrightarrow> (\<exists>t. entryText x = Some t \<and> meID x = memID t \<and> meDigest x = sha256_hex t)"

lemma wire_call_json: "wire_call c = Some c' \<Longrightarrow> json_call c' = json_call c"
  by (cases "callArguments c") (auto simp: wire_call_def json_call_def)

lemma wire_calls_json: "wire_list wire_call cs = Some cs' \<Longrightarrow> json_list json_call cs' = json_list json_call cs"
proof (induction cs arbitrary: cs')
  case (Cons c cs)
  then obtain d ds where "wire_call c = Some d" "wire_list wire_call cs = Some ds" "cs' = d # ds" by (auto split: option.splits)
  with Cons.IH wire_call_json [of c d] show ?case by (simp split: option.split)
qed simp

lemma identity_calls:
  "json_list json_call cs' = json_list json_call cs \<Longrightarrow> identityText s r t i ro cs' ci co ie = identityText s r t i ro cs ci co ie"
  by (simp only: identityText_def)

lemma wire_entry_same:
  "wire_entry x = Some v \<Longrightarrow> meID v = meID x \<and> meDigest v = meDigest x \<and> meScope v = meScope x \<and> meContent v = meContent x \<and> entryText v = entryText x"
proof -
  assume w: "wire_entry x = Some v"
  then obtain cs where v: "v = x\<lparr>meToolCalls := cs\<rparr>" and cs: "wire_list wire_call (meToolCalls x) = Some cs" by (auto simp: wire_entry_def split: if_splits)
  have "entryText v = entryText x" unfolding entryText_def by (simp add: v identity_calls [OF wire_calls_json [OF cs]])
  then show ?thesis by (simp add: v)
qed

lemma newEntry_ok: "messageText md i m = Some t \<Longrightarrow> entry_ok (newEntry md n i m t)"
  by (simp add: entry_ok_def entryText_def newEntry_def messageText_def)

lemma newEntries_in:
  "newEntries md n i ms = Inr xs \<Longrightarrow> x \<in> set xs \<Longrightarrow> i \<le> fst x \<and> entry_ok (snd x)"
proof (induction ms arbitrary: i xs)
  case (Cons m ms)
  show ?case
  proof (cases "archivable m")
    case False
    with Cons.prems Cons.IH [of "i + 1" xs] show ?thesis by auto
  next
    case True
    with Cons.prems obtain t ys where t: "messageText md i m = Some t" and ys: "newEntries md n (i + 1) ms = Inr ys" "xs = (i, newEntry md n i m t) # ys"
      by (cases "newEntries md n (i + 1) ms") (auto split: if_splits option.splits)
    from Cons.prems(2) ys(2) consider "x = (i, newEntry md n i m t)" | "x \<in> set ys" by auto
    then show ?thesis using Cons.IH [OF ys(1)] newEntry_ok [OF t] by cases auto
  qed
qed simp

lemma newEntries_all:
  "newEntries md n i ms = Inr xs \<Longrightarrow> k < length ms \<Longrightarrow> archivable (ms ! k) \<Longrightarrow>
     \<exists>t. messageText md (i + k) (ms ! k) = Some t \<and> map_of xs (i + k) = Some (newEntry md n (i + k) (ms ! k) t)"
proof (induction ms arbitrary: i k xs)
  case (Cons m ms)
  show ?case
  proof (cases "archivable m")
    case False
    with Cons.prems obtain k' where k: "k = Suc k'" "archivable (ms ! k')" "k' < length ms" by (cases k) auto
    from False Cons.prems(1) have "newEntries md n (i + 1) ms = Inr xs" by simp
    from Cons.IH [OF this k(3,2)] k(1) show ?thesis by simp
  next
    case True
    with Cons.prems obtain t ys where t: "messageText md i m = Some t" and ys: "newEntries md n (i + 1) ms = Inr ys" "xs = (i, newEntry md n i m t) # ys"
      by (cases "newEntries md n (i + 1) ms") (auto split: if_splits option.splits)
    show ?thesis
    proof (cases k)
      case 0
      with t ys(2) show ?thesis by simp
    next
      case (Suc k')
      with Cons.prems Cons.IH [OF ys(1), of k'] ys(2) show ?thesis by simp
    qed
  qed
qed simp

section \<open>The log\<close>

lemma append_extends:
  "appendEntries w k known xs log = (r, log') \<Longrightarrow>
     \<exists>ext. log' = log @ ext \<and> (\<forall>v. Record v \<in> set ext \<longrightarrow> (\<exists>x\<in>set xs. wire_entry x = Some v))"
proof (induction xs arbitrary: k known log)
  case (Cons x xs)
  show ?case
  proof (cases "mget known (meID x)")
    case (Some previous)
    with Cons show ?thesis by (fastforce split: if_splits)
  next
    case None
    show ?thesis
    proof (cases "wire_entry x")
      case None
      with \<open>mget known (meID x) = None\<close> Cons.prems show ?thesis by auto
    next
      case (Some v)
      show ?thesis
      proof (cases "w k")
        case Ap_ok
        with Some None Cons.prems have "appendEntries w (k + 1) (mput (meID x) x known) xs (log @ [Record v]) = (r, log')" by simp
        from Cons.IH [OF this] Some show ?thesis by fastforce
      qed (use Some None Cons.prems in auto)
    qed
  qed
qed simp

definition keyed :: "MemEntry gomap \<Rightarrow> bool" where
  "keyed known \<longleftrightarrow> (\<forall>i y. mget known i = Some y \<longrightarrow> meID y = i)"

lemma keyed_mput: "keyed known \<Longrightarrow> keyed (mput (meID x) x known)"
  by (auto simp: keyed_def)

lemma append_all:
  "appendEntries w k known xs log = (None, log') \<Longrightarrow> keyed known \<Longrightarrow> x \<in> set xs \<Longrightarrow>
     \<exists>y. meID y = meID x \<and> meDigest y = meDigest x \<and> (Record y \<in> set log' \<or> mget known (meID x) = Some y)"
proof (induction xs arbitrary: k known log)
  case (Cons z xs)
  show ?case
  proof (cases "mget known (meID z)")
    case (Some previous)
    with Cons.prems(1) have rest: "appendEntries w k known xs log = (None, log')" "meDigest previous = meDigest z" by (auto split: if_splits)
    from Some Cons.prems(2) have "meID previous = meID z" by (simp add: keyed_def)
    with Cons.prems(3) Cons.IH [OF rest(1) Cons.prems(2)] Some rest(2) show ?thesis by auto
  next
    case None
    with Cons.prems(1) obtain v where v: "wire_entry z = Some v" "w k = Ap_ok" by (cases "w k") (auto split: option.splits)
    with None Cons.prems(1) have rest: "appendEntries w (k + 1) (mput (meID z) z known) xs (log @ [Record v]) = (None, log')" by simp
    from append_extends [OF rest] have in_log: "Record v \<in> set log'" by auto
    note same = wire_entry_same [OF v(1)]
    show ?thesis
    proof (cases "x = z")
      case True
      with in_log same show ?thesis by auto
    next
      case False
      with Cons.prems(3) Cons.IH [OF rest keyed_mput [OF Cons.prems(2)]] obtain y where
        y: "meID y = meID x" "meDigest y = meDigest x" "Record y \<in> set log' \<or> mget (mput (meID z) z known) (meID x) = Some y" by auto
      show ?thesis
      proof (cases "Record y \<in> set log'")
        case True
        with y show ?thesis by blast
      next
        case not_in: False
        show ?thesis
        proof (cases "meID x = meID z")
          case True
          with y(3) not_in have "y = z" by simp
          with y in_log same show ?thesis by auto
        next
          case False
          with y not_in show ?thesis by auto
        qed
      qed
    qed
  qed
qed simp

lemma known_entries: "keyed (knownEntries xs)" "mget (knownEntries xs) i = Some y \<Longrightarrow> y \<in> set xs"
proof -
  have "(keyed m \<longrightarrow> keyed (fold (\<lambda>x m. mput (meID x) x m) xs m)) \<and>
      (mget (fold (\<lambda>x m. mput (meID x) x m) xs m) i = Some y \<longrightarrow> y \<in> set xs \<or> mget m i = Some y)" for m
  proof (induction xs arbitrary: m)
    case (Cons x xs)
    from Cons.IH [of "mput (meID x) x m"] keyed_mput [of m x] show ?case by (auto split: if_splits)
  qed simp
  note this [of "[]", folded knownEntries_def]
  moreover have "keyed []" by (simp add: keyed_def)
  ultimately show "keyed (knownEntries xs)" "mget (knownEntries xs) i = Some y \<Longrightarrow> y \<in> set xs" by simp_all
qed

lemma loaded_in_log: "loadEntries seen ls = Inr es \<Longrightarrow> y \<in> set es \<Longrightarrow> Record y \<in> set ls"
proof (induction seen ls arbitrary: es rule: loadEntries.induct)
  case (3 seen x ls)
  show ?case
  proof (cases "mget seen (meID x)")
    case None
    with 3(3) obtain zs where zs: "loadEntries (mput (meID x) (meDigest x) seen) ls = Inr zs" "es = x # zs"
      by (cases "loadEntries (mput (meID x) (meDigest x) seen) ls") (auto split: if_splits)
    from 3(3) have "\<not> (meID x = [] \<or> meScope x = [] \<or> meRunID x = [] \<or> meDigest x = [] \<or> meArchivedAt x = 0)" by (auto split: if_splits)
    from 3(1) [OF this None zs(1)] 3(4) zs(2) show ?thesis by auto
  next
    case (Some d)
    with 3(3) have l: "loadEntries seen ls = Inr es" "\<not> (meID x = [] \<or> meScope x = [] \<or> meRunID x = [] \<or> meDigest x = [] \<or> meArchivedAt x = 0)" "\<not> d \<noteq> meDigest x"
      by (auto split: if_splits)
    from 3(2) [OF l(2) Some l(3) l(1) 3(4)] show ?thesis by simp
  qed
qed simp_all

lemma log_loaded:
  "loadEntries seen ls = Inr es \<Longrightarrow> Record y \<in> set ls \<Longrightarrow>
     mget seen (meID y) = Some (meDigest y) \<or> (\<exists>z\<in>set es. meID z = meID y \<and> meDigest z = meDigest y)"
proof (induction seen ls arbitrary: es rule: loadEntries.induct)
  case (3 seen x ls)
  have ok: "\<not> (meID x = [] \<or> meScope x = [] \<or> meRunID x = [] \<or> meDigest x = [] \<or> meArchivedAt x = 0)" using 3(3) by (auto split: if_splits)
  show ?case
  proof (cases "mget seen (meID x)")
    case None
    with 3(3) obtain zs where zs: "loadEntries (mput (meID x) (meDigest x) seen) ls = Inr zs" "es = x # zs"
      by (cases "loadEntries (mput (meID x) (meDigest x) seen) ls") (auto split: if_splits)
    show ?thesis
    proof (cases "y = x")
      case True
      with zs(2) show ?thesis by auto
    next
      case False
      with 3(4) have "Record y \<in> set ls" by simp
      from 3(1) [OF ok None zs(1) this] zs(2) show ?thesis by (auto split: if_splits)
    qed
  next
    case (Some d)
    with 3(3) ok have l: "loadEntries seen ls = Inr es" "\<not> d \<noteq> meDigest x" by (auto split: if_splits)
    show ?thesis
    proof (cases "y = x")
      case True
      with Some l(2) show ?thesis by simp
    next
      case False
      with 3(4) have "Record y \<in> set ls" by simp
      from 3(2) [OF ok Some l(2,1) this] show ?thesis .
    qed
  qed
qed simp_all

section \<open>The archive\<close>

definition archive_ok :: "memDir \<Rightarrow> bool" where
  "archive_ok a \<longleftrightarrow> (\<forall>p x. Record x \<in> set (log_lines a p) \<longrightarrow> entry_ok x)"

definition archive_le :: "memDir \<Rightarrow> memDir \<Rightarrow> bool" where
  "archive_le a a' \<longleftrightarrow> (\<forall>p. prefix (log_lines a p) (log_lines a' p))"

lemma commit_effect_archive:
  assumes "commitEntries w p xs (knownEntries existing) a = (r, a')" and "\<forall>x\<in>set xs. entry_ok x" and "archive_ok a"
    and "loadEntries [] (log_lines a p) = Inr existing"
  shows "archive_ok a' \<and> archive_le a a' \<and>
    (r = None \<longrightarrow> (\<forall>x\<in>set xs. \<exists>y. Record y \<in> set (log_lines a' p) \<and> meID y = meID x \<and> meDigest y = meDigest x))"
proof (cases "moOpen w")
  case False
  with assms show ?thesis by (auto simp: commitEntries_def archive_le_def)
next
  case True
  obtain x log where l: "appendEntries (moLine w) 0 (knownEntries existing) xs (log_lines a p) = (x, log)" by fastforce
  with True assms(1) have a': "a' = mput p log a" "r = None \<Longrightarrow> x = None"
    by (auto simp: commitEntries_def Let_def split: option.splits if_splits sum.splits)
  from append_extends [OF l] obtain ext where ext: "log = log_lines a p @ ext" "\<And>v. Record v \<in> set ext \<Longrightarrow> \<exists>x\<in>set xs. wire_entry x = Some v" by blast
  have new: "entry_ok v" if v: "Record v \<in> set ext" for v
  proof -
    from ext(2) [OF v] obtain z where z: "z \<in> set xs" "wire_entry z = Some v" by blast
    with assms(2) wire_entry_same [OF z(2)] show ?thesis by (simp add: entry_ok_def)
  qed
  have "archive_ok a'" using assms(3) new ext(1) by (auto simp: archive_ok_def a'(1))
  moreover have "archive_le a a'" by (simp add: archive_le_def a'(1) ext(1))
  moreover have "\<exists>y. Record y \<in> set (log_lines a' p) \<and> meID y = meID z \<and> meDigest y = meDigest z" if "r = None" "z \<in> set xs" for z
  proof -
    from l a'(2) [OF that(1)] have "appendEntries (moLine w) 0 (knownEntries existing) xs (log_lines a p) = (None, log)" by simp
    from append_all [OF this known_entries(1) that(2)] obtain y where
      y: "meID y = meID z" "meDigest y = meDigest z" "Record y \<in> set log \<or> mget (knownEntries existing) (meID z) = Some y" by blast
    from y(3) have "Record y \<in> set log"
      using known_entries(2) loaded_in_log [OF assms(4)] ext(1) by fastforce
    with y(1,2) show ?thesis by (auto simp: a'(1))
  qed
  ultimately show ?thesis by blast
qed

lemma archive_le_refl: "archive_le a a"
  by (simp add: archive_le_def)

lemma archive_le_trans: "archive_le a b \<Longrightarrow> archive_le b c \<Longrightarrow> archive_le a c"
  unfolding archive_le_def using prefix_order.trans by blast

text \<open>What a call that succeeds leaves in the archive, for every message that is not blank and not of the system.\<close>

definition holds_copy :: "MemMetadata \<Rightarrow> nat \<Rightarrow> ChatMessage \<Rightarrow> memDir \<Rightarrow> bool" where
  "holds_copy md i m a \<longleftrightarrow> (\<exists>t x t'. messageText md i m = Some t \<and> Record x \<in> set (log_lines a (memoryPath (mmScope md))) \<and> meID x = memID t \<and>
     entryText x = Some t' \<and> (t' = t \<or> (t' \<noteq> t \<and> sha256_hex t' = sha256_hex t)))"

lemma holds_copy_le: "holds_copy md i m a \<Longrightarrow> archive_le a a' \<Longrightarrow> holds_copy md i m a'"
  unfolding holds_copy_def archive_le_def using set_mono_prefix by fast

lemma archive_effect:
  assumes "ArchiveMessages e metadata w ms a = (r, a')" and "archive_ok a"
  shows "archive_ok a' \<and> archive_le a a' \<and>
    (\<forall>refs md. r = Inr refs \<and> metadata = Some md \<longrightarrow> (\<forall>i<length ms. archivable (ms ! i) \<longrightarrow> holds_copy md i (ms ! i) a'))"
proof (cases "a' = a \<and> (\<exists>err. r = Inl err)")
  case True
  with assms(2) archive_le_refl show ?thesis by auto
next
  case False
  with assms(1) obtain md xs where md: "metadata = Some md" and xs: "newEntries md (clk e 0) 0 ms = Inr xs"
    by (auto simp: ArchiveMessages_def split: option.splits if_splits sum.splits)
  note all = newEntries_all [OF xs, unfolded add_0]
  show ?thesis
  proof (cases "xs = []")
    case True
    with False assms(1) md xs have "a' = a" by (auto simp: ArchiveMessages_def split: option.splits if_splits)
    moreover have "\<not> archivable (ms ! i)" if "i < length ms" for i using all [OF that] True by auto
    ultimately show ?thesis using assms(2) archive_le_refl by auto
  next
    case ne: False
    let ?p = "memoryPath (mmScope md)"
    from False assms(1) md xs ne obtain existing where ex: "loadEntries [] (log_lines a ?p) = Inr existing"
      by (auto simp: ArchiveMessages_def split: option.splits if_splits sum.splits)
    obtain y a1 where c: "commitEntries w ?p (map snd xs) (knownEntries existing) a = (y, a1)" by fastforce
    have ok: "\<forall>x\<in>set (map snd xs). entry_ok x" using newEntries_in [OF xs] by auto
    note eff = commit_effect_archive [OF c ok assms(2) ex]
    from False assms(1) md xs ne ex c have a': "a' = a1" "\<And>refs. r = Inr refs \<Longrightarrow> y = None"
      by (auto simp: ArchiveMessages_def split: option.splits if_splits)
    have "holds_copy md i (ms ! i) a'" if "r = Inr refs" "i < length ms" "archivable (ms ! i)" for refs i
    proof -
      from all [OF that(2,3)] obtain t where t: "messageText md i (ms ! i) = Some t" "map_of xs i = Some (newEntry md (clk e 0) i (ms ! i) t)" by blast
      from map_of_SomeD [OF t(2)] have "newEntry md (clk e 0) i (ms ! i) t \<in> set (map snd xs)" by force
      with eff a' that(1) obtain x where x: "Record x \<in> set (log_lines a' ?p)" "meID x = memID t" "meDigest x = sha256_hex t"
        by (fastforce simp: newEntry_def)
      from eff a'(1) x(1) have "entry_ok x" unfolding archive_ok_def by blast
      with x t(1) show ?thesis unfolding holds_copy_def entry_ok_def by metis
    qed
    with eff a'(1) md show ?thesis by blast
  qed
qed

section \<open>Compaction with the archive\<close>

type_synonym archive_call = "env \<times> MemMetadata option \<times> MemIO \<times> ChatMessage list"

fun do_archive :: "archive_call \<Rightarrow> memDir \<Rightarrow> (go_error + (nat \<Rightarrow> string)) \<times> memDir" where
  "do_archive (e, md, w, ms) a = ArchiveMessages e md w ms a"

lemma archive_calls: "archive_ok a \<Longrightarrow> archive_ok (run_steps do_archive calls a) \<and> archive_le a (run_steps do_archive calls a)"
proof (induction calls arbitrary: a)
  case (Cons c calls)
  obtain e md w ms where c: "c = (e, md, w, ms)" by (metis prod_cases4)
  obtain r b where b: "ArchiveMessages e md w ms a = (r, b)" by fastforce
  from archive_effect [OF b Cons.prems] Cons.IH [of b] archive_le_trans show ?case by (auto simp: c b)
qed (simp add: archive_le_refl)

lemma compact_archives:
  assumes "Compact win ctxErr ms a = (Inr (ms', changed), a')" and "wdArchive win = Some archive" and "ms' \<noteq> ms"
  shows "\<exists>refs. archive ms a = (Inr refs, a')"
  using assms by (auto simp: Compact_def Let_def split: option.splits if_splits sum.splits prod.splits)

text \<open>C40. Whatever was archived before, starting from an empty archive: when a compaction with the archive has changed the conversation, the archive
  holds a copy of each message of the conversation that can be archived, and still does so after any later calls of the archive with any failures. A
  message can be archived unless it is a system message or blank (its text is white space and it has no tool calls): the source skips these, so a
  notice of omitted messages, which is a system message, is not archived when a later cut drops it. The copy has the name and the JSON text of the
  message at its place in the run, unless another message with the same SHA-256 digest was archived before.\<close>

theorem compaction_archives_first:
  assumes "Compact (win\<lparr>wdArchive := Some (ArchiveMessages e (Some md) w)\<rparr>) ctxErr ms (run_steps do_archive before []) = (Inr (ms', changed), a')"
    and "ms' \<noteq> ms" and "i < length ms" and "archivable (ms ! i)"
  shows "\<exists>t x t'. messageText md i (ms ! i) = Some t \<and> Record x \<in> set (log_lines (run_steps do_archive later a') (memoryPath (mmScope md))) \<and>
    meID x = memID t \<and> entryText x = Some t' \<and> (t' = t \<or> (t' \<noteq> t \<and> sha256_hex t' = sha256_hex t))"
proof -
  have "archive_ok []" by (simp add: archive_ok_def log_lines_def)
  then have ok: "archive_ok (run_steps do_archive before [])" using archive_calls by blast
  from compact_archives [OF assms(1) _ assms(2)] obtain refs where
    "ArchiveMessages e (Some md) w ms (run_steps do_archive before []) = (Inr refs, a')" by auto
  from archive_effect [OF this ok] assms(3,4) have "holds_copy md i (ms ! i) a'" "archive_ok a'" by blast+
  with archive_calls holds_copy_le have "holds_copy md i (ms ! i) (run_steps do_archive later a')" by blast
  then show ?thesis unfolding holds_copy_def .
qed

text \<open>A torn line stays in front of what is appended behind it: the archive of its scope is never written or read again, so that no conversation of the scope is
  compacted any more.\<close>

lemma load_garbage: "Garbage \<in> set ls \<Longrightarrow> \<exists>err. loadEntries seen ls = Inl err"
proof (induction seen ls rule: loadEntries.induct)
  case (3 seen x ls)
  then show ?case by (cases "mget seen (meID x)") auto
qed simp_all

lemma torn_archive_blocks:
  assumes "Garbage \<in> set (log_lines a (memoryPath (mmScope md)))" and "ArchiveMessages e (Some md) w ms a = (Inr refs, a')"
  shows "\<forall>m\<in>set ms. \<not> archivable m"
proof -
  from load_garbage [OF assms(1)] obtain err where "loadEntries [] (log_lines a (memoryPath (mmScope md))) = Inl err" by blast
  with assms(2) have "newEntries md (clk e 0) 0 ms = Inr []" by (auto simp: ArchiveMessages_def split: option.splits if_splits sum.splits)
  from newEntries_all [OF this] show ?thesis by (auto simp: in_set_conv_nth)
qed

text \<open>A result is replaced by a marker, and a torn line is written to the archive later.\<close>

definition demo_kept :: "ChatMessage list" where
  "demo_kept = [demo_said RoleSystem [], toolMessage (demo_result ''a''), demo_said RoleSystem []]"

definition demo_memory :: MemMetadata where
  "demo_memory = \<lparr>mmScope = ''s'', mmRunID = ''r'', mmTurn = 1\<rparr>"

definition demo_mem_io :: "append_io \<Rightarrow> MemIO" where
  "demo_mem_io x = \<lparr>moOpen = True, moLine = (\<lambda>k. x), moSync = True\<rparr>"

definition demo_archive_window :: "memDir Window" where
  "demo_archive_window = \<lparr>wdMaxApproxTokens = 1, wdReserveTokens = 0, wdMinTailMessages = 0, wdRecentMessages = 1, wdMaxToolBytes = 0, wdArchive = None\<rparr>"

lemma demo_kept_archivable: "archivable (toolMessage (demo_result ''a''))" "\<not> archivable (demo_said RoleSystem [])"
proof -
  have "TrimSpace ''ok'' \<noteq> []" by code_simp
  then show "archivable (toolMessage (demo_result ''a''))" by (simp add: archivable_def toolMessage_def demo_result_def)
qed (simp add: archivable_def demo_said_def)

lemma demo_archived: "\<exists>refs a. ArchiveMessages demo_env (Some demo_memory) (demo_mem_io Ap_ok) demo_kept [] = (Inr refs, a)"
proof -
  let ?m = "toolMessage (demo_result ''a'')"
  have c: "msgToolCalls ?m = []" "length (msgContent ?m) = 2" by (simp_all add: toolMessage_def demo_result_def)
  then obtain t where t: "messageText demo_memory 1 ?m = Some t" by (simp add: messageText_def identityText_def)
  define x where "x = newEntry demo_memory 100 1 ?m t"
  have trim: "TrimSpace ''s'' \<noteq> []" "TrimSpace ''r'' \<noteq> []" by code_simp+
  have env: "clk demo_env 0 = 100" "cerr demo_env = None" "json_time 100 \<noteq> None" by (simp_all add: demo_env_def json_time_def year_of_day_def day_ns_def)
  have new: "newEntries demo_memory 100 0 demo_kept = Inr [(1, x)]"
    using t demo_kept_archivable c(2) by (simp add: demo_kept_def x_def)
  have wire: "wire_entry x = Some x" using env(3) c(1) by (simp add: wire_entry_def x_def newEntry_def)
  have "meID x \<noteq> [] \<and> meScope x \<noteq> [] \<and> meRunID x \<noteq> [] \<and> meDigest x \<noteq> [] \<and> meArchivedAt x \<noteq> 0"
    by (simp add: x_def newEntry_def memID_def demo_memory_def safeDigest_nonempty)
  then have load: "loadEntries [] [Record x] = Inr [x]" by simp
  have "commitEntries (demo_mem_io Ap_ok) p [x] (knownEntries []) [] = (None, mput p [Record x] [])" for p
    using wire load by (simp add: commitEntries_def demo_mem_io_def knownEntries_def log_lines_def Let_def)
  with new trim env show ?thesis by (simp add: ArchiveMessages_def demo_memory_def log_lines_def)
qed

lemma demo_compacted:
  assumes "ArchiveMessages demo_env (Some demo_memory) (demo_mem_io Ap_ok) demo_kept [] = (Inr refs, a)"
  shows "\<exists>out changed. Compact (demo_archive_window\<lparr>wdArchive := Some (ArchiveMessages demo_env (Some demo_memory) (demo_mem_io Ap_ok))\<rparr>) None demo_kept [] =
    (Inr (out, changed), a) \<and> out \<noteq> demo_kept"
proof -
  let ?w = "demo_archive_window\<lparr>wdArchive := Some (ArchiveMessages demo_env (Some demo_memory) (demo_mem_io Ap_ok))\<rparr>"
  let ?t = "toolMessage (demo_result ''a'')" and ?s = "demo_said RoleSystem []"
  define m1 where "m1 = [?s, ?t\<lparr>msgContent := archiveMarker ''tool result'' (refs 1)\<rparr>, ?s]"
  have roles: "msgRole ?t = RoleTool" "msgContent ?t = ''ok''" "msgRole ?s = RoleSystem" by (simp_all add: toolMessage_def demo_result_def demo_said_def)
  have "archiveOld refs 1 ?t = Some (?t\<lparr>msgContent := archiveMarker ''tool result'' (refs 1)\<rparr>)"
    by (simp add: archiveOld_def roles archived_def)
  then have s1: "sweep (archiveOld refs) 1 2 demo_kept = (m1, True)" by (simp add: sweep_def demo_kept_def m1_def)
  have role1: "msgRole (m1 ! 1) = RoleTool" "msgRole (m1 ! 2) = RoleSystem" "length m1 = 3" by (simp_all add: m1_def roles)
  have s2: "sweep (cutRecent 4096 refs) 2 3 m1 = (m1, False)"
  proof (rule sweep_none)
    fix i assume "i < length m1" "2 \<le> i"
    then have "i = 2" using role1(3) by simp
    then show "cutRecent 4096 refs i (m1 ! i) = None" using role1(2) by (simp add: cutRecent_def)
  qed
  have s3: "sweep (archiveAssistant refs) 1 2 m1 = (m1, False)"
  proof (rule sweep_none)
    fix i :: nat assume "1 \<le> i" "i < 2"
    then have "i = 1" by simp
    then show "archiveAssistant refs i (m1 ! i) = None" using role1(1) by (simp add: archiveAssistant_def)
  qed
  have "tailStart b 4 m1 3 u = 1" for b u
    using tailStart.simps(1) [of b 4 m1 1 u] tailStart.simps(1) [of b 4 m1 0] role1(3) by (simp add: Let_def numeral_3_eq_3 numeral_2_eq_2)
  moreover have "includeToolCallOwner m1 1 1 \<le> 1" by (simp add: includeToolCallOwner_def split: option.split)
  ultimately have s4: "cutTail 1 4 m1 True = (m1, True)" by (simp add: cutTail_def role1(3) Let_def)
  have "length demo_kept = 3" by (simp add: demo_kept_def)
  then have c: "compactMessages ?w 1 refs demo_kept = (m1, True)"
    unfolding compactMessages_def by (simp add: demo_archive_window_def or_default_def s1 [unfolded One_nat_def] s2 s3 [unfolded One_nat_def] s4 role1(3))
  have "\<exists>js. json_list json_message demo_kept = Some js" by (rule json_list_Some) (use demo_encoded in \<open>simp add: demo_kept_def\<close>)
  then have "1 < approximateTokens demo_kept" using tokens_two [of ?s] by (fastforce simp: demo_kept_def)
  then have "Compact ?w None demo_kept [] = (Inr (m1, True), a)"
    using assms c \<open>length demo_kept = 3\<close> by (simp add: Compact_def demo_archive_window_def Let_def)
  moreover have "msgContent (m1 ! 1) \<noteq> msgContent (demo_kept ! 1)" by (simp add: m1_def demo_kept_def roles archiveMarker_def)
  then have "m1 \<noteq> demo_kept" by auto
  ultimately show ?thesis by blast
qed

theorem compaction_archives_first_witness:
  "\<exists>out changed a t x. Compact (demo_archive_window\<lparr>wdArchive := Some (ArchiveMessages demo_env (Some demo_memory) (demo_mem_io Ap_ok))\<rparr>) None demo_kept [] =
     (Inr (out, changed), a) \<and> messageText demo_memory 1 (demo_kept ! 1) = Some t \<and>
     Record x \<in> set (log_lines (run_steps do_archive [(demo_env, Some demo_memory, demo_mem_io Ap_torn, [demo_said RoleUser []])] a) (memoryPath ''s'')) \<and>
     meID x = memID t"
proof -
  obtain refs a where r: "ArchiveMessages demo_env (Some demo_memory) (demo_mem_io Ap_ok) demo_kept [] = (Inr refs, a)" using demo_archived by blast
  let ?later = "[(demo_env, Some demo_memory, demo_mem_io Ap_torn, [demo_said RoleUser []])]"
  from demo_compacted [OF r] obtain out changed where
    c: "Compact (demo_archive_window\<lparr>wdArchive := Some (ArchiveMessages demo_env (Some demo_memory) (demo_mem_io Ap_ok))\<rparr>) None demo_kept
      (run_steps do_archive [] []) = (Inr (out, changed), a)" "out \<noteq> demo_kept" by auto
  have "1 < length demo_kept" "archivable (demo_kept ! 1)" using demo_kept_archivable by (simp_all add: demo_kept_def)
  from compaction_archives_first [OF c this, of ?later] c(1) show ?thesis by (fastforce simp: demo_memory_def)
qed

end
