(* ===== verification/EngineProps.thy ===== *)
theory EngineProps
  imports Engine
begin

text \<open>
  The events of a run are in order, whatever fails. The interface of the engine to its surroundings is a locale: what the
  provider, the tools, the queue and the store promise, over an invariant of the world. The proof is a Hoare logic for the steps of the
  engine, in which a step ends normally or with the end of the run.
\<close>

section \<open>Triples\<close>

definition triple :: "('w eng \<Rightarrow> bool) \<Rightarrow> ('w, 'a) act \<Rightarrow> ('a \<Rightarrow> 'w eng \<Rightarrow> bool) \<Rightarrow> (stop \<Rightarrow> 'w eng \<Rightarrow> bool) \<Rightarrow> bool" where
  "triple P m Q E \<longleftrightarrow> (\<forall>s. P s \<longrightarrow> (case m s of (Inr v, s') \<Rightarrow> Q v s' | (Inl x, s') \<Rightarrow> E x s'))"

lemma tripleI: "(\<And>s v s'. P s \<Longrightarrow> m s = (Inr v, s') \<Longrightarrow> Q v s') \<Longrightarrow> (\<And>s x s'. P s \<Longrightarrow> m s = (Inl x, s') \<Longrightarrow> E x s') \<Longrightarrow> triple P m Q E"
  unfolding triple_def by (auto split: prod.splits sum.splits)

lemma tripleD: "triple P m Q E \<Longrightarrow> P s \<Longrightarrow> m s = (Inr v, s') \<Longrightarrow> Q v s'"
  "triple P m Q E \<Longrightarrow> P s \<Longrightarrow> m s = (Inl x, s') \<Longrightarrow> E x s'"
  unfolding triple_def by fastforce+

lemma triple_andThen:
  assumes "triple P m Q E" and "\<And>v. triple (Q v) (f v) R E"
  shows "triple P (andThen m f) R E"
proof (rule tripleI)
  fix s v s' assume P: "P s" and r: "andThen m f s = (Inr v, s')"
  then obtain u s1 where m: "m s = (Inr u, s1)" and f: "f u s1 = (Inr v, s')" by (auto simp: andThen_def split: prod.splits sum.splits)
  from tripleD(1) [OF assms(1) P m] tripleD(1) [OF assms(2) _ f] show "R v s'" by blast
next
  fix s x s' assume P: "P s" and r: "andThen m f s = (Inl x, s')"
  from r consider "m s = (Inl x, s')" | u s1 where "m s = (Inr u, s1)" "f u s1 = (Inl x, s')"
    by (auto simp: andThen_def split: prod.splits sum.splits)
  then show "E x s'"
  proof cases
    case 1
    from tripleD(2) [OF assms(1) P 1] show ?thesis .
  next
    case 2
    from tripleD(1) [OF assms(1) P 2(1)] tripleD(2) [OF assms(2) _ 2(2)] show ?thesis by blast
  qed
qed

lemma triple_pre: "triple P m Q E \<Longrightarrow> (\<And>s. P' s \<Longrightarrow> P s) \<Longrightarrow> triple P' m Q E"
  by (simp add: triple_def)

lemma triple_orPersist:
  assumes "\<And>s r s'. P s \<Longrightarrow> m s = (r, s') \<Longrightarrow> Q s'" and "\<And>s' err. Q s' \<Longrightarrow> E (Finish TerminalPersistenceError err) s'"
  shows "triple P (orPersist m) (\<lambda>_. Q) E"
proof (rule tripleI)
  fix s v s' assume P: "P s" and r: "orPersist m s = (Inr v, s')"
  then have "m s = (None, s')" by (auto simp: orPersist_def split: prod.splits option.splits)
  with P show "Q s'" by (rule assms(1))
next
  fix s x s' assume P: "P s" and r: "orPersist m s = (Inl x, s')"
  then obtain err where m: "m s = (Some err, s')" and x: "x = Finish TerminalPersistenceError (Some err)"
    by (auto simp: orPersist_def split: prod.splits option.splits)
  from assms(1) [OF P m] show "E x s'" unfolding x by (rule assms(2))
qed

lemma triple_if: "(b \<Longrightarrow> triple P m Q E) \<Longrightarrow> (\<not> b \<Longrightarrow> triple P n Q E) \<Longrightarrow> triple P (if b then m else n) Q E"
  by simp

lemma triple_skip: "(\<And>s. P s \<Longrightarrow> Q v s) \<Longrightarrow> triple P (Pair (Inr v)) Q E"
  by (rule tripleI) auto

lemma triple_applyI:
  assumes "\<And>s. P s \<Longrightarrow> m s = n s (g s)" and "\<And>s. P s \<Longrightarrow> P' (g s)" and "\<And>s. P s \<Longrightarrow> triple P' (n s) Q E"
  shows "triple P m Q E"
  unfolding triple_def
proof (intro allI impI)
  fix s assume "P s"
  with assms show "case m s of (Inl x, s') \<Rightarrow> E x s' | (Inr v, s') \<Rightarrow> Q v s'" unfolding triple_def by metis
qed

text \<open>A call to the surroundings, and what is done with its answer.\<close>

lemma triple_call:
  assumes "\<And>s. m s = (case on_world (f s) s of (r, s1) \<Rightarrow> k r s1)" and "\<And>s r w. P s \<Longrightarrow> f s (egWorld s) = (r, w) \<Longrightarrow> P' r (s\<lparr>egWorld := w\<rparr>)"
    and "\<And>r. triple (P' r) (k r) Q E"
  shows "triple P m Q E"
  unfolding triple_def
proof (intro allI impI)
  fix s assume P: "P s"
  obtain r w where r: "f s (egWorld s) = (r, w)" by fastforce
  have "case k r (s\<lparr>egWorld := w\<rparr>) of (Inl x, s') \<Rightarrow> E x s' | (Inr v, s') \<Rightarrow> Q v s'"
    by (rule assms(3) [of r, unfolded triple_def, rule_format, OF assms(2) [OF P r]])
  then show "case m s of (Inl x, s') \<Rightarrow> E x s' | (Inr v, s') \<Rightarrow> Q v s'" unfolding assms(1) on_world_def r by simp
qed

lemma triple_caseI: "(\<And>s. P s \<Longrightarrow> case m s of (Inl x, s') \<Rightarrow> E x s' | (Inr v, s') \<Rightarrow> Q v s') \<Longrightarrow> triple P m Q E"
  by (simp add: triple_def)

lemma triple_stop: "(\<And>s. P s \<Longrightarrow> E x (g s)) \<Longrightarrow> triple P (\<lambda>s. (Inl x, g s)) Q E"
  by (simp add: triple_def)

lemma triple_return: "(\<And>s. P s \<Longrightarrow> Q v (g s)) \<Longrightarrow> triple P (\<lambda>s. (Inr v, g s)) Q E"
  by (simp add: triple_def)

section \<open>Events in order\<close>

lemma events_ok_snoc: "events_ok r pre (es @ [e]) \<longleftrightarrow> events_ok r pre es \<and> event_ok r (pre @ es) e"
  by (induction es arbitrary: pre) auto

lemmas event_counts = commits_def committed_ids_def claimed_ids_def acked_ids_def started_def answered_def

lemma last_sequence_snoc [simp]: "last_sequence (es @ [e]) = evSequence e"
  by (simp add: last_sequence_def)

text \<open>What one more event changes.\<close>

lemma counts_snoc:
  "commits (es @ [e]) = commits es + (if evType e = EventCommitted then 1 else 0)"
  "committed_ids (es @ [e]) = committed_ids es @ (if evType e = EventCommitted then [str ''operation_id'' e] else [])"
  "claimed_ids (es @ [e]) = claimed_ids es @ (if evType e = EventInputClaimed then [str ''claim_id'' e] else [])"
  "acked_ids (es @ [e]) = acked_ids es @ (if evType e = EventInputAcked then [str ''claim_id'' e] else [])"
  "started (es @ [e]) i = started es i + (if evType e = EventToolStarted \<and> callID (evToolCall e) = i then 1 else 0)"
  "answered (es @ [e]) i = answered es i + (if evType e = EventToolResult \<and> resToolCallID (evToolResult e) = i then 1 else 0)"
  "snapshot_digest (es @ [e]) = (if evType e = EventCapability then str ''digest'' e else snapshot_digest es)"
  "component k (es @ [e]) = (if evType e = EventCapability \<and> has_components e then str k e else component k es)"
  by (auto simp: event_counts snapshot_digest_def component_def)

section \<open>The invariant of a run\<close>

text \<open>The ids of the operations committed so far.\<close>

definition op_number :: "runConst \<Rightarrow> int \<Rightarrow> string \<Rightarrow> bool" where
  "op_number c n i \<longleftrightarrow> (\<exists>k kind. 0 < k \<and> k \<le> n \<and> i = operationID c k kind)"

text \<open>Operations with different numbers have different ids: the number ends at the next slash.\<close>

lemma digit_code:
  assumes "m < 10"
  shows "of_char (digit m) = (48 + m :: nat)"
proof -
  have "m \<in> {0, 1, 2, 3, 4, 5, 6, 7, 8, 9}" using assms by auto
  then show ?thesis by (auto simp: digit_def)
qed

lemma digits_value_snoc: "digits_value (s @ [d]) = 10 * digits_value s + (of_char d - 48)"
  by (simp add: digits_value_def)

lemma digits_value_dec_nat: "digits_value (dec_nat n) = n"
proof (induction n rule: less_induct)
  case (less n)
  show ?case
  proof (cases "n < 10")
    case True
    then show ?thesis using digits_value_snoc [of "[]" "digit n"] by (simp add: dec_nat_step digit_code digits_value_def)
  next
    case False
    then show ?thesis using less.IH [of "n div 10"] by (simp add: dec_nat_step digits_value_snoc digit_code)
  qed
qed

lemma digits_value_zeros: "digits_value (replicate k CHR ''0'' @ s) = digits_value s"
  by (induction k) (simp_all add: digits_value_def)

lemma dec_nat_no_slash: "CHR ''/'' \<notin> set (dec_nat n)"
proof (induction n rule: less_induct)
  case (less n)
  have "CHR ''/'' \<noteq> digit m" for m using digit_cases [of m] by auto
  then show ?case using less.IH [of "n div 10"] by (cases "n < 10") (simp_all add: dec_nat_step)
qed

lemma operationID_inj:
  assumes "0 \<le> k" and "0 \<le> m" and "operationID c k kind = operationID c m kind'"
  shows "k = m"
proof -
  have p: "CHR ''/'' \<notin> set (pad_dec 6 i)" "digits_value (pad_dec 6 i) = nat i" if "0 \<le> i" for i
    using that dec_nat_no_slash by (auto simp: pad_dec_def Let_def digits_value_zeros digits_value_dec_nat)
  from assms(3) have "takeWhile (\<lambda>d. d \<noteq> CHR ''/'') (pad_dec 6 k @ ''/'' @ kind) = takeWhile (\<lambda>d. d \<noteq> CHR ''/'') (pad_dec 6 m @ ''/'' @ kind')"
    by (simp add: operationID_def)
  moreover have "takeWhile (\<lambda>d. d \<noteq> CHR ''/'') (pad_dec 6 i @ ''/'' @ x) = pad_dec 6 i" if "0 \<le> i" for i x
  proof -
    have "\<forall>d\<in>set (pad_dec 6 i). d \<noteq> CHR ''/''" using p(1) [OF that] by blast
    then show ?thesis by simp
  qed
  ultimately have "pad_dec 6 k = pad_dec 6 m" using assms(1,2) by metis
  then show ?thesis using p(2) assms(1,2) by (metis eq_nat_nat_iff)
qed

lemma op_number_fresh: "n < m \<Longrightarrow> 0 \<le> n \<Longrightarrow> \<not> op_number c n (operationID c m kind)"
proof
  assume n: "n < m" "0 \<le> n" and "op_number c n (operationID c m kind)"
  then obtain k x where "0 < k" "k \<le> n" "operationID c m kind = operationID c k x" by (auto simp: op_number_def)
  with n operationID_inj [of m k c kind x] show False by simp
qed

definition snapshot_inv :: "CapabilityRevision \<Rightarrow> Event list \<Rightarrow> bool" where
  "snapshot_inv cap es \<longleftrightarrow>
     (snapshot_digest es = [] \<and> component ''tool_digest'' es = []) \<or>
     (snapshot_digest es = capDigest cap \<and> component ''tool_digest'' es = capToolDigest cap \<and> component ''prompt_digest'' es = capPromptDigest cap
       \<and> component ''agents_digest'' es = capAgentsDigest cap \<and> component ''skills_digest'' es = capSkillsDigest cap)"

text \<open>The engine never stores a \<open>json.Number\<close> or a float64, and a reason only under its own key.\<close>

definition plain_entry :: "string \<times> any \<Rightarrow> bool" where
  "plain_entry p \<longleftrightarrow> (case snd p of AnyNumber _ \<Rightarrow> False | AnyFloat _ \<Rightarrow> False | AnyReason _ \<Rightarrow> fst p = ''reason'' | _ \<Rightarrow> True)"

lemma plain_entry_simps [simp]:
  "plain_entry (k, AnyString s)" "plain_entry (k, AnyBool b)" "plain_entry (k, AnyInt i)" "plain_entry (k, AnyInt64 i)" "plain_entry (k, AnyUint64 n)"
  "plain_entry (k, AnyReason r) \<longleftrightarrow> k = ''reason''"
  by (simp_all add: plain_entry_def)

definition plain_event :: "Event \<Rightarrow> bool" where
  "plain_event e \<longleftrightarrow> list_all plain_entry (evMetadata e)"

text \<open>\<open>open_calls i\<close> is the number of calls with the id \<open>i\<close> that were announced and not answered.\<close>

definition run_inv_at :: "runConst \<Rightarrow> (string \<Rightarrow> nat) \<Rightarrow> 'w eng \<Rightarrow> bool" where
  "run_inv_at c open_calls s \<longleftrightarrow>
     events_ok (reRunID c) [] (egEvents s) \<and> list_all plain_event (egEvents s) \<and> last_sequence (egEvents s) = egSequence s \<and>
     int (commits (egEvents s)) = egRevision s \<and> rrHistoryRevision (egResult s) = egRevision s \<and>
     rrCapability (egResult s) = reCapability c \<and> rrRunID (egResult s) = reRunID c \<and>
     0 \<le> egOpSequence s \<and> (\<forall>i\<in>set (committed_ids (egEvents s)). op_number c (egOpSequence s) i) \<and>
     (\<forall>i. started (egEvents s) i = answered (egEvents s) i + open_calls i) \<and>
     set (acked_ids (egEvents s)) \<subseteq> set (claimed_ids (egEvents s)) \<and> snapshot_inv (reCapability c) (egEvents s)"

text \<open>The variables that the order does not depend on may change.\<close>

lemma run_inv_at_cong:
  "egEvents s' = egEvents s \<Longrightarrow> egSequence s' = egSequence s \<Longrightarrow> egRevision s' = egRevision s \<Longrightarrow> egOpSequence s' = egOpSequence s \<Longrightarrow>
   rrHistoryRevision (egResult s') = rrHistoryRevision (egResult s) \<Longrightarrow> rrCapability (egResult s') = rrCapability (egResult s) \<Longrightarrow>
   rrRunID (egResult s') = rrRunID (egResult s) \<Longrightarrow> run_inv_at c B s' = run_inv_at c B s"
  unfolding run_inv_at_def by simp

section \<open>What the surroundings promise\<close>

text \<open>\<open>good n C es w\<close>: the world has no operation of the run with a number above \<open>n\<close>, the claims \<open>C\<close> have been handed out, and
  the events \<open>es\<close> have been recorded.\<close>

locale run_world =
  fixes rt :: "'w runtime" and cfg :: engineConfig and c :: runConst
    and good :: "int \<Rightarrow> string set \<Rightarrow> Event list \<Rightarrow> 'w \<Rightarrow> bool"
  assumes now_good: "rtNow rt w = (t, w') \<Longrightarrow> good n C es w \<Longrightarrow> good n C es w'"
    and context_good: "rtContext rt w = (cx, w') \<Longrightarrow> good n C es w \<Longrightarrow> good n C es w'"
    and generate_good: "rtGenerate rt ms b w = (gr, w') \<Longrightarrow> good n C es w \<Longrightarrow> good n C es w'"
    and generate_ids: "rtGenerate rt ms b w = (Inr g, w') \<Longrightarrow> good n C es w \<Longrightarrow> call \<in> set (msgToolCalls (genMessage g)) \<Longrightarrow> callID call \<noteq> []"
    and batch_good: "rtExecuteBatch rt calls w = (rs, w') \<Longrightarrow> good n C es w \<Longrightarrow> good n C es w'"
    and batch_ids: "rtExecuteBatch rt calls w = (rs, w') \<Longrightarrow> good n C es w \<Longrightarrow> map resToolCallID rs = map callID calls"
    and compact_good: "rtCompactor rt = Some f \<Longrightarrow> f ms w = (cr, w') \<Longrightarrow> good n C es w \<Longrightarrow> good n C es w'"
    and claim_failed: "rtQueue rt = Some q \<Longrightarrow> iqClaim q runID turnID k w = (Inl err, w') \<Longrightarrow> good n C es w \<Longrightarrow> good n C es w'"
    and claim_fresh: "rtQueue rt = Some q \<Longrightarrow> iqClaim q runID turnID k w = (Inr claim, w') \<Longrightarrow> good n C es w \<Longrightarrow>
        (if clID claim = [] then good n C es w' else clID claim \<notin> C \<and> good n (insert (clID claim) C) es w')"
    and ack_good: "rtQueue rt = Some q \<Longrightarrow> iqAck q i v w = (er, w') \<Longrightarrow> good n C es w \<Longrightarrow> good n C es w'"
    and release_good: "rtQueue rt = Some q \<Longrightarrow> iqRelease q i w = (er, w') \<Longrightarrow> good n C es w \<Longrightarrow> good n C es w'"
    and reconcile_good: "rtQueue rt = Some q \<Longrightarrow> iqReconcile q runID m w = (er, w') \<Longrightarrow> good n C es w \<Longrightarrow> good n C es w'"
    and record_good: "rtStore rt = Some st \<Longrightarrow> stRecord st e w = (er, w') \<Longrightarrow> good n C es w \<Longrightarrow> good n C (es @ [e]) w'"
    and unrecorded_good: "rtStore rt = None \<Longrightarrow> good n C es w \<Longrightarrow> good n C (es @ [e]) w"
    and commit_good: "rtStore rt = Some st \<Longrightarrow> stCommit st h w = (hr, w') \<Longrightarrow> good n C es w \<Longrightarrow> 0 \<le> n \<Longrightarrow> hcRunID h = reRunID c \<Longrightarrow>
        hcOperationID h = operationID c (n + 1) kind \<Longrightarrow> good (n + 1) C es w' \<and> (\<forall>a. hr = Inr a \<longrightarrow> haRevision a = hcExpectedRevision h + 1)"
    and queue_store: "rtQueue rt \<noteq> None \<Longrightarrow> rtStore rt \<noteq> None"
    and good_next: "good n C es w \<Longrightarrow> good (n + 1) C es w"
    and digests: "good n C es w \<Longrightarrow> safeDigest (capDigest (reCapability c)) \<and> safeDigest (capToolDigest (reCapability c)) \<and>
      safeDigest (capPromptDigest (reCapability c)) \<and> safeDigest (capSkillsDigest (reCapability c)) \<and>
      (capAgentsDigest (reCapability c) = [] \<or> safeDigest (capAgentsDigest (reCapability c)))"
begin

definition inv_at :: "(string \<Rightarrow> nat) \<Rightarrow> 'w eng \<Rightarrow> bool" where
  "inv_at B s \<longleftrightarrow> run_inv_at c B s \<and> good (egOpSequence s) (set (claimed_ids (egEvents s))) (egEvents s) (egWorld s)"

lemma on_world_eq: "on_world f s = (r, s') \<longleftrightarrow> (\<exists>w. f (egWorld s) = (r, w) \<and> s' = s\<lparr>egWorld := w\<rparr>)"
  by (auto simp: on_world_def split: prod.splits)

text \<open>An emitted event is appended with the next number, whether it could be recorded or not.\<close>

lemma emit_shape:
  assumes "emit rt c e s = (r, s')" and "good n C (egEvents s) (egWorld s)"
  obtains ev w where "s' = s\<lparr>egSequence := egSequence s + 1, egEvents := egEvents s @ [ev], egWorld := w\<rparr>" and "good n C (egEvents s @ [ev]) w"
    and "evRunID ev = reRunID c" and "evSequence ev = egSequence s + 1" and "evType ev = evType e" and "evMetadata ev = evMetadata e"
    and "evToolCall ev = evToolCall e" and "evToolResult ev = evToolResult e" and "evTurn ev = evTurn e"
proof -
  from assms(1) obtain t w1 where t: "rtNow rt (egWorld s) = (t, w1)" by (cases "rtNow rt (egWorld s)")
  define ev where "ev = e\<lparr>evRunID := reRunID c, evSequence := egSequence s + 1, evTimestamp := t, evMessages := egMessages s, evUsage := rrUsage (egResult s)\<rparr>"
  have g1: "good n C (egEvents s) w1" using now_good [OF t assms(2)] .
  show thesis
  proof (cases "rtStore rt")
    case None
    with assms(1) t have "s' = s\<lparr>egSequence := egSequence s + 1, egEvents := egEvents s @ [ev], egWorld := w1\<rparr>"
      by (auto simp: emit_def on_world_def Let_def ev_def)
    then show thesis using that unrecorded_good [OF None g1] by (auto simp: ev_def)
  next
    case (Some st)
    obtain x w2 where x: "stRecord st ev w1 = (x, w2)" by fastforce
    from assms(1) t Some x have "s' = s\<lparr>egSequence := egSequence s + 1, egEvents := egEvents s @ [ev], egWorld := w2\<rparr>"
      by (auto simp: emit_def on_world_def Let_def ev_def split: option.splits)
    then show thesis using that record_good [OF Some x g1] by (auto simp: ev_def)
  qed
qed

text \<open>The calls that are open after an event.\<close>

definition opened :: "Event \<Rightarrow> (string \<Rightarrow> nat) \<Rightarrow> string \<Rightarrow> nat" where
  "opened e B = (case evType e of EventToolStarted \<Rightarrow> B(callID (evToolCall e) := B (callID (evToolCall e)) + 1)
     | EventToolResult \<Rightarrow> B(resToolCallID (evToolResult e) := B (resToolCallID (evToolResult e)) - 1) | _ \<Rightarrow> B)"

lemma event_fits_cong:
  "evType e = evType e' \<Longrightarrow> evMetadata e = evMetadata e' \<Longrightarrow> evToolCall e = evToolCall e' \<Longrightarrow> evToolResult e = evToolResult e' \<Longrightarrow>
   event_fits es e = event_fits es e'"
  by (simp add: event_fits_def capability_ok_def components_ok_def has_components_def str_def has_str_def cong: EventType.case_cong)

lemma emit_inv:
  assumes e: "emit rt c e s = (r, s')" and inv: "run_inv_at c B s" and g: "good n C (egEvents s) (egWorld s)" and fits: "event_fits (egEvents s) e"
    and nc: "evType e \<noteq> EventCommitted" and plain: "plain_event e" and cap: "evType e = EventCapability \<Longrightarrow> snapshot_inv (reCapability c) (egEvents s @ [e])"
  shows "run_inv_at c (opened e B) s'" and "good n C (egEvents s') (egWorld s')" and "egMessages s' = egMessages s" and "egResult s' = egResult s"
    and "egOpSequence s' = egOpSequence s" and "egRevision s' = egRevision s" and "egRepeated s' = egRepeated s" and "egClaims s' = egClaims s"
    and "claimed_ids (egEvents s') = claimed_ids (egEvents s) @ (if evType e = EventInputClaimed then [str ''claim_id'' e] else [])"
    and "acked_ids (egEvents s') = acked_ids (egEvents s) @ (if evType e = EventInputAcked then [str ''claim_id'' e] else [])"
    and "commits (egEvents s') = commits (egEvents s)"
proof -
  from e g obtain ev w where s': "s' = s\<lparr>egSequence := egSequence s + 1, egEvents := egEvents s @ [ev], egWorld := w\<rparr>" and w: "good n C (egEvents s @ [ev]) w"
    and ev: "evRunID ev = reRunID c" "evSequence ev = egSequence s + 1" "evType ev = evType e" "evMetadata ev = evMetadata e"
    "evToolCall ev = evToolCall e" "evToolResult ev = evToolResult e" by (rule emit_shape)
  have st: "str k ev = str k e" "has_str k ev = has_str k e" "has_components ev = has_components e" for k
    by (simp_all add: str_def has_str_def has_components_def ev)
  have ef: "event_fits (egEvents s) ev" using fits event_fits_cong [of ev e] ev by simp
  have L: "last_sequence (egEvents s) = egSequence s" and E: "events_ok (reRunID c) [] (egEvents s)" using inv by (simp_all add: run_inv_at_def)
  from E ef have E': "events_ok (reRunID c) [] (egEvents s @ [ev])" by (simp add: events_ok_snoc event_ok_def ev L)
  have O: "started (egEvents s @ [ev]) i = answered (egEvents s @ [ev]) i + opened e B i" for i
  proof -
    have o: "started (egEvents s) j = answered (egEvents s) j + B j" for j using inv by (simp add: run_inv_at_def)
    show ?thesis
    proof (cases "evType e = EventToolResult")
      case True
      with fits o [of "resToolCallID (evToolResult e)"] have "0 < B (resToolCallID (evToolResult e))" by (simp add: event_fits_def)
      with True o show ?thesis by (auto simp: counts_snoc opened_def ev)
    qed (use o in \<open>auto simp: counts_snoc opened_def ev split: EventType.splits\<close>)
  qed
  have S: "snapshot_inv (reCapability c) (egEvents s @ [ev])"
  proof (cases "evType e = EventCapability")
    case True
    then show ?thesis using cap by (cases "has_components e") (simp_all add: snapshot_inv_def counts_snoc ev st)
  next
    case False
    then show ?thesis using inv by (simp add: snapshot_inv_def counts_snoc ev st run_inv_at_def)
  qed
  have A: "set (acked_ids (egEvents s @ [ev])) \<subseteq> set (claimed_ids (egEvents s @ [ev]))"
  proof (cases "evType e = EventInputAcked")
    case True
    then show ?thesis using inv ef by (simp add: counts_snoc ev run_inv_at_def event_fits_def)
  next
    case False
    then show ?thesis using inv by (auto simp: counts_snoc ev run_inv_at_def)
  qed
  show "run_inv_at c (opened e B) s'"
    using inv E' O S A nc plain unfolding run_inv_at_def by (simp add: s' ev counts_snoc plain_event_def)
  show "good n C (egEvents s') (egWorld s')" "egMessages s' = egMessages s" "egResult s' = egResult s"
    "egOpSequence s' = egOpSequence s" "egRevision s' = egRevision s" "egRepeated s' = egRepeated s" "egClaims s' = egClaims s"
    "claimed_ids (egEvents s') = claimed_ids (egEvents s) @ (if evType e = EventInputClaimed then [str ''claim_id'' e] else [])"
    "acked_ids (egEvents s') = acked_ids (egEvents s) @ (if evType e = EventInputAcked then [str ''claim_id'' e] else [])"
    "commits (egEvents s') = commits (egEvents s)"
    using w nc by (simp_all add: s' counts_snoc ev st)
qed

lemma commit_inv:
  assumes e: "commitHistoryAs rt cfg c kind turn reserved s = (r, s')" and inv: "run_inv_at c B s" and g: "good (egOpSequence s) C (egEvents s) (egWorld s)"
  shows "run_inv_at c B s'" and "good (egOpSequence s') C (egEvents s') (egWorld s')" and "egMessages s' = egMessages s"
    and "egResult s' = (egResult s)\<lparr>rrHistoryRevision := egRevision s'\<rparr>" and "egRepeated s' = egRepeated s" and "egClaims s' = egClaims s"
    and "claimed_ids (egEvents s') = claimed_ids (egEvents s)" and "acked_ids (egEvents s') = acked_ids (egEvents s)"
    and "r = None \<Longrightarrow> rtStore rt \<noteq> None \<Longrightarrow> 0 < egRevision s'"
proof -
  have R: "int (commits (egEvents s)) = egRevision s" "rrHistoryRevision (egResult s) = egRevision s" "0 \<le> egOpSequence s"
    using inv by (simp_all add: run_inv_at_def)
  let ?goal = "run_inv_at c B s' \<and> good (egOpSequence s') C (egEvents s') (egWorld s') \<and> egMessages s' = egMessages s \<and>
    egResult s' = (egResult s)\<lparr>rrHistoryRevision := egRevision s'\<rparr> \<and> egRepeated s' = egRepeated s \<and> egClaims s' = egClaims s \<and>
    claimed_ids (egEvents s') = claimed_ids (egEvents s) \<and> acked_ids (egEvents s') = acked_ids (egEvents s) \<and>
    (r = None \<longrightarrow> rtStore rt \<noteq> None \<longrightarrow> 0 < egRevision s')"
  have same: ?goal if "s' = s\<lparr>egOpSequence := n, egWorld := w\<rparr>" "good n C (egEvents s) w" "egOpSequence s \<le> n" "r \<noteq> None \<or> rtStore rt = None" for n w
  proof -
    have "op_number c (egOpSequence s) i \<Longrightarrow> op_number c n i" for i using that(3) by (auto simp: op_number_def intro: order_trans)
    then have "run_inv_at c B s'" using inv that(1,3) by (auto simp: run_inv_at_def)
    then show ?thesis using that R by auto
  qed
  have ?goal
  proof (cases "rtStore rt")
    case None
    with e have "s' = s" by (simp add: commitHistoryAs_def)
    then show ?thesis using same [where n = "egOpSequence s" and w = "egWorld s"] g None by simp
  next
    case (Some st)
    let ?n = "egOpSequence s + 1" let ?op = "operationID c ?n kind"
    obtain t w1 where t: "rtNow rt (egWorld s) = (t, w1)" by fastforce
    have g1: "good (egOpSequence s) C (egEvents s) w1" using now_good [OF t g] .
    let ?s2 = "s\<lparr>egOpSequence := ?n, egWorld := w1\<rparr>"
    let ?ck = "commitCheckpoint cfg c turn reserved t ?s2"
    show ?thesis
    proof (cases "historyFingerprint kind ?ck")
      case (Inl err)
      with e Some t have "s' = ?s2" "r \<noteq> None" by (auto simp: commitHistoryAs_def Let_def on_world_def)
      then show ?thesis using same [where n = ?n and w = w1] good_next [OF g1] by simp
    next
      case (Inr fp)
      let ?h = "\<lparr>hcRunID = reRunID c, hcOperationID = ?op, hcFingerprint = fp, hcExpectedRevision = egRevision s,
         hcCheckpoint = ?ck\<lparr>ckLastOperationID := ?op, ckLastFingerprint := fp\<rparr>\<rparr>"
      obtain res w2 where c: "stCommit st ?h w1 = (res, w2)" by fastforce
      from commit_good [OF Some c g1 R(3), of kind] have g2: "good ?n C (egEvents s) w2" and rev: "\<And>a. res = Inr a \<Longrightarrow> haRevision a = egRevision s + 1"
        by auto
      show ?thesis
      proof (cases "\<exists>a. res = Inr a \<and> haOperationID a = ?op \<and> haFingerprint a = fp \<and> haRunID a = reRunID c")
        case False
        with e Some t Inr c have "s' = s\<lparr>egOpSequence := ?n, egWorld := w2\<rparr>" "r \<noteq> None"
          by (auto simp: commitHistoryAs_def Let_def on_world_def split: sum.splits if_splits)
        then show ?thesis using same [where n = ?n and w = w2] g2 by simp
      next
        case True
        then obtain a where a: "res = Inr a" "haOperationID a = ?op" "haFingerprint a = fp" "haRunID a = reRunID c" by blast
        let ?s3 = "s\<lparr>egOpSequence := ?n, egWorld := w2, egRevision := egRevision s + 1,
          egResult := (egResult s)\<lparr>rrHistoryRevision := egRevision s + 1\<rparr>\<rparr>"
        let ?e = "(newEvent EventCommitted turn)\<lparr>evMetadata := [(''operation_id'', AnyString ?op), (''fingerprint'', AnyString fp),
          (''revision'', AnyInt64 (egRevision s + 1)), (''kind'', AnyString kind)]\<rparr>"
        from e Some t Inr c a rev have em: "emit rt c ?e ?s3 = (r, s')"
          by (simp add: commitHistoryAs_def Let_def on_world_def)
        have g3: "good ?n C (egEvents ?s3) (egWorld ?s3)" using g2 by simp
        from em g3 obtain ev w where s': "s' = ?s3\<lparr>egSequence := egSequence ?s3 + 1, egEvents := egEvents ?s3 @ [ev], egWorld := w\<rparr>" and w: "good ?n C (egEvents ?s3 @ [ev]) w"
          and ev: "evRunID ev = reRunID c" "evSequence ev = egSequence ?s3 + 1" "evType ev = evType ?e" "evMetadata ev = evMetadata ?e"
            "evToolCall ev = evToolCall ?e" "evToolResult ev = evToolResult ?e" by (rule emit_shape)
        have fp: "safeDigest fp" using Inr by (rule historyFingerprint_digest)
        have new: "?op \<notin> set (committed_ids (egEvents s))"
          using inv op_number_fresh [where c = c and n = "egOpSequence s" and m = ?n and kind = kind] by (auto simp: run_inv_at_def)
        have st: "str ''operation_id'' ev = ?op" "str ''fingerprint'' ev = fp" "has_str ''operation_id'' ev" "has_str ''fingerprint'' ev"
          "metadataInt64 (evMetadata ev) ''revision'' = (egRevision s + 1, True)" "evType ev = EventCommitted"
          by (simp_all add: str_def has_str_def ev metadataString_def metadataInt64_def newEvent_def)
        have "?op \<noteq> []" by (simp add: operationID_def)
        then have ef: "event_fits (egEvents s) ev" using fp new R(1) by (simp add: event_fits_def st)
        have E: "events_ok (reRunID c) [] (egEvents s @ [ev])"
          using inv ef by (simp add: events_ok_snoc event_ok_def ev run_inv_at_def)
        have "op_number c ?n ?op" using R(3) by (auto simp: op_number_def intro!: exI [of _ ?n])
        moreover have "op_number c (egOpSequence s) i \<Longrightarrow> op_number c ?n i" for i by (force simp: op_number_def)
        ultimately have N: "\<forall>i\<in>set (committed_ids (egEvents s @ [ev])). op_number c ?n i"
          using inv by (auto simp: counts_snoc st run_inv_at_def)
        have "run_inv_at c B s'"
          using inv E N R unfolding run_inv_at_def by (simp add: s' ev(1,2,4) counts_snoc st snapshot_inv_def plain_event_def newEvent_def)
        then show ?thesis using w R by (simp add: s' counts_snoc st)
      qed
    qed
  qed
  then show "run_inv_at c B s'" and "good (egOpSequence s') C (egEvents s') (egWorld s')" and "egMessages s' = egMessages s"
    and "egResult s' = (egResult s)\<lparr>rrHistoryRevision := egRevision s'\<rparr>" and "egRepeated s' = egRepeated s" and "egClaims s' = egClaims s"
    and "claimed_ids (egEvents s') = claimed_ids (egEvents s)" and "acked_ids (egEvents s') = acked_ids (egEvents s)"
    and "r = None \<Longrightarrow> rtStore rt \<noteq> None \<Longrightarrow> 0 < egRevision s'" by blast+
qed

definition stop_at :: "stop \<Rightarrow> 'w eng \<Rightarrow> bool" where
  "stop_at x s \<longleftrightarrow> (case x of Panic \<Rightarrow> False
     | Finish reason err \<Rightarrow> \<exists>B. inv_at B s \<and> (reason_text reason = ''completed'' \<longrightarrow> B = (\<lambda>_. 0)))"

lemma stop_at_simple: "inv_at B s \<Longrightarrow> reason_text reason \<noteq> ''completed'' \<Longrightarrow> stop_at (Finish reason err) s"
  by (auto simp: stop_at_def)

lemma inv_at_world: "inv_at B s \<Longrightarrow> good (egOpSequence s) (set (claimed_ids (egEvents s))) (egEvents s) w \<Longrightarrow> inv_at B (s\<lparr>egWorld := w\<rparr>)"
  by (simp add: inv_at_def run_inv_at_def)

text \<open>The messages, the counters of repeated calls, the claims to be stored and the usage may change.\<close>

lemma inv_at_other [simp]:
  "inv_at B (s\<lparr>egMessages := ms\<rparr>) = inv_at B s" "inv_at B (s\<lparr>egRepeated := m\<rparr>) = inv_at B s" "inv_at B (s\<lparr>egClaims := m\<rparr>) = inv_at B s"
  "inv_at B (addUsage u s) = inv_at B s" "inv_at B (s\<lparr>egResult := (egResult s)\<lparr>rrReason := re\<rparr>\<rparr>) = inv_at B s"
  "inv_at B (s\<lparr>egResult := (egResult s)\<lparr>rrTurns := tu\<rparr>\<rparr>) = inv_at B s"
  "inv_at B (s\<lparr>egResult := (egResult s)\<lparr>rrFinalMessage := fm\<rparr>\<rparr>) = inv_at B s"
  by (simp_all add: inv_at_def run_inv_at_def addUsage_def)

lemma emit_at:
  assumes "emit rt c e s = (r, s')" and "inv_at B s" and "event_fits (egEvents s) e" and "plain_event e"
    and "evType e \<notin> {EventCommitted, EventCapability, EventInputClaimed}"
  shows "inv_at (opened e B) s'"
  using emit_inv [OF assms(1), where B = B and C = "set (claimed_ids (egEvents s))"] assms by (auto simp: inv_at_def)

lemma triple_emit:
  assumes "\<And>s. P s \<Longrightarrow> inv_at B s \<and> event_fits (egEvents s) e" and "plain_event e" and "evType e \<notin> {EventCommitted, EventCapability, EventInputClaimed}"
    and "opened e B = B'"
  shows "triple P (orPersist (emit rt c e)) (\<lambda>_. inv_at B') stop_at"
proof (rule triple_orPersist)
  show "inv_at B' s'" if "P s" "emit rt c e s = (r, s')" for s r s' using emit_at that assms by blast
  show "stop_at (Finish TerminalPersistenceError err) s'" if "inv_at B' s'" for s' err using that by (rule stop_at_simple) simp
qed

lemma newEvent_type [simp]: "evType (newEvent t turn) = t" "plain_event (newEvent t turn)"
  "plain_event (e\<lparr>evMetadata := md\<rparr>) \<longleftrightarrow> (list_all plain_entry md)" "plain_event (e\<lparr>evMessage := m\<rparr>) = plain_event e"
  "plain_event (e\<lparr>evToolCall := tc\<rparr>) = plain_event e" "plain_event (e\<lparr>evToolResult := tr\<rparr>) = plain_event e"
  by (simp_all add: newEvent_def plain_event_def)

lemma quiet_fits: "evType e \<notin> {EventCapability, EventCommitted, EventInputClaimed, EventInputAcked, EventToolStarted, EventToolResult} \<Longrightarrow>
   event_fits es e \<and> opened e B = B"
  by (cases "evType e") (simp_all add: event_fits_def opened_def)

lemma triple_emit_quiet:
  assumes "\<And>s. P s \<Longrightarrow> inv_at B s" and "plain_event e"
    and "evType e \<notin> {EventCapability, EventCommitted, EventInputClaimed, EventInputAcked, EventToolStarted, EventToolResult}"
  shows "triple P (orPersist (emit rt c e)) (\<lambda>_. inv_at B) stop_at"
  by (rule triple_emit) (use assms quiet_fits [OF assms(3)] in auto)

lemma commit_at: "commitHistoryAs rt cfg c kind turn reserved s = (r, s') \<Longrightarrow> inv_at B s \<Longrightarrow> inv_at B s'"
  unfolding inv_at_def using commit_inv by metis

lemma triple_commit:
  assumes "\<And>s. P s \<Longrightarrow> inv_at B s"
  shows "triple P (orPersist (commitKind rt cfg c kind turn)) (\<lambda>_. inv_at B) stop_at"
  unfolding commitKind_def
proof (rule triple_orPersist)
  show "inv_at B s'" if "P s" "commitHistoryAs rt cfg c kind turn 1 s = (r, s')" for s r s' using commit_at that assms by blast
  show "stop_at (Finish TerminalPersistenceError err) s'" if "inv_at B s'" for s' err using that by (rule stop_at_simple) simp
qed

lemma context_reason_text: "reason_text (contextReasonFromError x) \<noteq> ''completed''"
  by (auto simp: contextReasonFromError_def split: option.splits)

lemma world_at: "inv_at B s \<Longrightarrow> (\<And>n C es. good n C es (egWorld s) \<Longrightarrow> good n C es w) \<Longrightarrow> inv_at B (s\<lparr>egWorld := w\<rparr>)"
  by (rule inv_at_world) (auto simp: inv_at_def)

lemma check_at: "triple (inv_at B) (checkContext rt) (\<lambda>_. inv_at B) stop_at"
proof (rule triple_call [where f = "\<lambda>s. rtContext rt" and P' = "\<lambda>x. inv_at B"])
  show "checkContext rt s = (case on_world (rtContext rt) s of (x, s1) \<Rightarrow> (if contextReasonFromError x \<noteq> NoReason
      then (\<lambda>s. (Inl (Finish (contextReasonFromError x) x), s)) else (\<lambda>s. (Inr (), s))) s1)" for s
    by (simp add: checkContext_def split: prod.splits)
  show "inv_at B (s\<lparr>egWorld := w\<rparr>)" if "inv_at B s" "rtContext rt (egWorld s) = (x, w)" for s x w
    using that(1) by (rule world_at) (rule context_good [OF that(2)])
  show "triple (inv_at B) (if contextReasonFromError x \<noteq> NoReason
      then (\<lambda>s. (Inl (Finish (contextReasonFromError x) x), s)) else (\<lambda>s. (Inr (), s))) (\<lambda>_. inv_at B) stop_at" for x
    by (intro triple_if triple_stop triple_return stop_at_simple context_reason_text)
qed

lemma compact_at: "triple (inv_at B) (compactStep rt cfg c turn) (\<lambda>_. inv_at B) stop_at"
proof (cases "rtCompactor rt")
  case None
  then show ?thesis by (simp add: compactStep_def triple_def)
next
  case (Some f)
  define k where "k = (\<lambda>r s1. case r of Inl err \<Rightarrow> (Inl (Finish TerminalFatalToolError (Some (Wrap ''compact context'' err))), s1)
       | Inr (compacted, changed) \<Rightarrow>
           if \<not> changed then (Inr (), s1) else
           andThen (orPersist (emit rt c ((newEvent EventCompacted turn)\<lparr>evMetadata :=
               [(''messages_before'', AnyInt (int (length (egMessages s1)))), (''messages_after'', AnyInt (int (length compacted)))]\<rparr>)))
             (\<lambda>_. orPersist (commitKind rt cfg c (turn_kind turn ''compaction'') (turn - 1)))
             (s1\<lparr>egMessages := compacted\<rparr>))"
  show ?thesis
  proof (rule triple_call [where f = "\<lambda>s. f (egMessages s)" and P' = "\<lambda>x. inv_at B" and k = k])
    show "compactStep rt cfg c turn s = (case on_world (f (egMessages s)) s of (r, s1) \<Rightarrow> k r s1)" for s
      by (auto simp: compactStep_def Some k_def split: prod.splits sum.splits)
    show "inv_at B (s\<lparr>egWorld := w\<rparr>)" if "inv_at B s" "f (egMessages s) (egWorld s) = (x, w)" for s x w
      using that(1) by (rule world_at) (rule compact_good [OF Some that(2)])
    show "triple (inv_at B) (k r) (\<lambda>_. inv_at B) stop_at" for r
    proof (cases r)
      case (Inl err)
      then show ?thesis by (auto simp: k_def intro!: triple_stop stop_at_simple)
    next
      case (Inr p)
      obtain ms ch where p: "p = (ms, ch)" by fastforce
      show ?thesis
      proof (cases ch)
        case False
        with Inr p show ?thesis by (auto simp: k_def intro!: triple_return)
      next
        case True
        have t: "triple (inv_at B) (andThen (orPersist (emit rt c ((newEvent EventCompacted turn)\<lparr>evMetadata := md\<rparr>)))
            (\<lambda>_. orPersist (commitKind rt cfg c (turn_kind turn ''compaction'') (turn - 1)))) (\<lambda>_. inv_at B) stop_at"
          if "list_all plain_entry md" for md
          by (rule triple_andThen [OF triple_emit_quiet triple_commit]) (use that in simp_all)
        show ?thesis
          by (rule triple_applyI [where g = "\<lambda>s. s\<lparr>egMessages := ms\<rparr>", OF _ _ t]) (auto simp: k_def Inr p True)
      qed
    qed
  qed
qed

lemma release_at: "rtQueue rt = Some q \<Longrightarrow> inv_at B s \<Longrightarrow> on_world (iqRelease q i) s = (er, s') \<Longrightarrow> inv_at B s'"
  unfolding on_world_eq using world_at release_good by metis

lemma commitClaim_at:
  assumes q: "rtQueue rt = Some q"
  shows "triple (\<lambda>s. inv_at B s \<and> clID claim \<noteq> [] \<and> clID claim \<in> set (claimed_ids (egEvents s)) \<and> clID claim \<notin> set (acked_ids (egEvents s)))
    (commitClaim rt cfg c q turn claim) (\<lambda>_. inv_at B) stop_at"
proof -
  have st: "rtStore rt \<noteq> None" using queue_store q by simp
  have "case commitClaim rt cfg c q turn claim s of (Inl x, s') \<Rightarrow> stop_at x s' | (Inr v, s') \<Rightarrow> inv_at B s'"
    if I: "inv_at B s" and ne: "clID claim \<noteq> []" and cl: "clID claim \<in> set (claimed_ids (egEvents s))" and na: "clID claim \<notin> set (acked_ids (egEvents s))" for s
  proof -
    let ?s1 = "s\<lparr>egMessages := egMessages s @ map (userMessage \<circ> formatQueuedInput) (clItems claim),
                 egClaims := mput (clID claim) (egRevision s + 1) (egClaims s)\<rparr>"
    obtain e1 s2 where k: "commitHistoryAs rt cfg c (turn_kind turn ''input-claim'') (turn - 1) 1 ?s1 = (e1, s2)" by fastforce
    have I1: "inv_at B ?s1" using I by (simp add: inv_at_def run_inv_at_def)
    then have r1: "run_inv_at c B ?s1" "good (egOpSequence ?s1) (set (claimed_ids (egEvents ?s1))) (egEvents ?s1) (egWorld ?s1)" by (simp_all add: inv_at_def)
    note K = commit_inv [OF k r1]
    have I2: "inv_at B s2" using commit_at [OF k I1] .
    show ?thesis
    proof (cases e1)
      case (Some err)
      obtain er s3 where rel: "on_world (iqRelease q (clID claim)) (s2\<lparr>egClaims := mdel (clID claim) (egClaims s2)\<rparr>) = (er, s3)" by fastforce
      have "inv_at B s3" by (rule release_at [OF q _ rel]) (use I2 in simp)
      then show ?thesis using k Some rel by (auto simp: commitClaim_def Let_def commitKind_def intro: stop_at_simple)
    next
      case None
      let ?s2 = "s2\<lparr>egClaims := mput (clID claim) (egRevision s2) (egClaims s2)\<rparr>"
      obtain er s3 where a: "on_world (iqAck q (clID claim) (egRevision s2)) ?s2 = (er, s3)" by fastforce
      then obtain w where w: "iqAck q (clID claim) (egRevision s2) (egWorld ?s2) = (er, w)" and s3: "s3 = ?s2\<lparr>egWorld := w\<rparr>" by (auto simp: on_world_eq)
      have I3: "inv_at B s3" unfolding s3 by (rule world_at) (use I2 ack_good [OF q w] in auto)
      show ?thesis
      proof (cases er)
        case (Some err)
        then show ?thesis using k None a I3 by (auto simp: commitClaim_def Let_def commitKind_def intro: stop_at_simple)
      next
        case n: None
        let ?e = "(newEvent EventInputAcked turn)\<lparr>evMetadata := [(''claim_id'', AnyString (clID claim)), (''history_revision'', AnyInt64 (egRevision s3))]\<rparr>"
        have "0 < egRevision s2" using K(9) None st by simp
        moreover have "int (commits (egEvents s3)) = egRevision s2" using I2 by (simp add: s3 inv_at_def run_inv_at_def)
        moreover have "claimed_ids (egEvents s3) = claimed_ids (egEvents s)" "acked_ids (egEvents s3) = acked_ids (egEvents s)" using K(7,8) by (simp_all add: s3)
        ultimately have fits: "event_fits (egEvents s3) ?e"
          using cl na ne by (simp add: event_fits_def newEvent_def str_def has_str_def metadataString_def metadataInt64_def s3)
        have ty: "evType ?e \<notin> {EventCommitted, EventCapability, EventInputClaimed}" "opened ?e B = B" by (simp_all add: newEvent_def opened_def)
        have "triple (\<lambda>t. t = s3) (orPersist (emit rt c ?e)) (\<lambda>_. inv_at B) stop_at"
        proof (rule triple_emit [OF _ _ ty])
          show "inv_at B t \<and> event_fits (egEvents t) ?e" if "t = s3" for t unfolding that using I3 fits by (rule conjI)
        qed simp
        moreover have "commitClaim rt cfg c q turn claim s = orPersist (emit rt c ?e) s3"
          using k None a n by (simp add: commitClaim_def Let_def commitKind_def)
        ultimately show ?thesis by (simp add: triple_def)
      qed
    qed
  qed
  then show ?thesis by (intro triple_caseI) (elim conjE)
qed

lemma claim_at: "triple (inv_at B) (claimInputs rt cfg c turn) (\<lambda>_. inv_at B) stop_at"
proof (cases "rtQueue rt")
  case None
  then show ?thesis by (simp add: claimInputs_def triple_def)
next
  case (Some q)
  have "case claimInputs rt cfg c turn s of (Inl x, s') \<Rightarrow> stop_at x s' | (Inr v, s') \<Rightarrow> inv_at B s'" if I: "inv_at B s" for s
  proof -
    obtain res w where w: "iqClaim q (reRunID c) (reTurnID c) 32 (egWorld s) = (res, w)" by fastforce
    let ?s1 = "s\<lparr>egWorld := w\<rparr>"
    show ?thesis
    proof (cases res)
      case (Inl err)
      have "inv_at B ?s1" by (rule world_at [OF I]) (rule claim_failed [OF Some w [unfolded Inl]])
      then show ?thesis using w Some Inl by (auto simp: claimInputs_def on_world_def intro: stop_at_simple)
    next
      case (Inr claim)
      show ?thesis
      proof (cases "clID claim = []")
        case True
        have "inv_at B ?s1" by (rule world_at [OF I]) (use claim_fresh [OF Some w [unfolded Inr]] True in simp)
        then show ?thesis using w Some Inr True by (simp add: claimInputs_def on_world_def)
      next
        case ne: False
        let ?C = "set (claimed_ids (egEvents s))"
        from claim_fresh [OF Some w [unfolded Inr]] I ne have fresh: "clID claim \<notin> ?C" and g: "good (egOpSequence s) (insert (clID claim) ?C) (egEvents s) w"
          by (auto simp: inv_at_def)
        let ?e = "(newEvent EventInputClaimed turn)\<lparr>evMetadata := [(''claim_id'', AnyString (clID claim)), (''items'', AnyInt (int (length (clItems claim))))]\<rparr>"
        obtain er s2 where em: "emit rt c ?e ?s1 = (er, s2)" by fastforce
        have R1: "run_inv_at c B ?s1" using I by (simp add: inv_at_def run_inv_at_def)
        have fits: "event_fits (egEvents ?s1) ?e"
          using fresh ne by (simp add: event_fits_def newEvent_def str_def has_str_def metadataString_def)
        have g1: "good (egOpSequence s) (insert (clID claim) ?C) (egEvents ?s1) (egWorld ?s1)" using g by simp
        note E = emit_inv [OF em R1 g1 fits _ _ _]
        have ty: "evType ?e = EventInputClaimed" "opened ?e B = B" "str ''claim_id'' ?e = clID claim"
          by (simp_all add: newEvent_def opened_def str_def metadataString_def)
        have R2: "run_inv_at c B s2" "good (egOpSequence s) (insert (clID claim) ?C) (egEvents s2) (egWorld s2)" "egOpSequence s2 = egOpSequence s"
          "claimed_ids (egEvents s2) = claimed_ids (egEvents s) @ [clID claim]" "acked_ids (egEvents s2) = acked_ids (egEvents s)"
          using E ty by simp_all
        then have I2: "inv_at B s2" by (simp add: inv_at_def insert_commute)
        have "set (acked_ids (egEvents s)) \<subseteq> ?C" using I by (simp add: inv_at_def run_inv_at_def)
        with fresh have na: "clID claim \<notin> set (acked_ids (egEvents s2))" using R2(5) by auto
        show ?thesis
        proof (cases er)
          case er: (Some err)
          obtain e3 s3 where rel: "on_world (iqRelease q (clID claim)) s2 = (e3, s3)" by fastforce
          have "inv_at B s3" by (rule release_at [OF Some I2 rel])
          then show ?thesis using w Some Inr ne em er rel by (auto simp: claimInputs_def on_world_def intro: stop_at_simple)
        next
          case None
          have "claimInputs rt cfg c turn s = commitClaim rt cfg c q turn claim s2"
            using w Some Inr ne em None by (simp add: claimInputs_def on_world_def)
          then show ?thesis using commitClaim_at [OF Some, of B claim turn] I2 ne na R2(4) unfolding triple_def by simp
        qed
      qed
    qed
  qed
  then show ?thesis by (rule triple_caseI)
qed

lemma provider_stop_at: "inv_at B s \<Longrightarrow> stop_at (providerStop err) s"
  unfolding providerStop_def by (rule stop_at_simple) (auto simp: context_reason_text)

lemma think_at: "triple (inv_at B) (thinkStep rt cfg c turn) (\<lambda>_. inv_at B) stop_at"
proof (cases "cfgEnableThinking cfg")
  case False
  then show ?thesis by (simp add: thinkStep_def triple_def)
next
  case True
  define k where "k = (\<lambda>(r :: go_error + Generation) s1. case r of Inl err \<Rightarrow> (Inl (providerStop err), s1)
       | Inr thinking \<Rightarrow>
           let s2 = addUsage (genUsage thinking) s1 in
           if overBudget (cfgMaxTokens cfg) (rrUsage (egResult s2)) then (Inl (Finish TerminalBudgetExceeded None), s2) else
           if msgToolCalls (genMessage thinking) \<noteq> [] then
             (Inl (Finish TerminalProviderError (Some (Errorf ''engine: thinking phase returned tool calls although no tools were provided''))), s2) else
           if msgContent (genMessage thinking) = [] then (Inr (), s2) else
           let message = (genMessage thinking)\<lparr>msgRole := RoleAssistant\<rparr> in
           andThen (orPersist (emit rt c ((newEvent EventThinking turn)\<lparr>evMessage := message\<rparr>)))
             (\<lambda>_. orPersist (commitKind rt cfg c (turn_kind turn ''thinking'') (turn - 1)))
             (s2\<lparr>egMessages := egMessages s2 @ [message]\<rparr>))"
  show ?thesis
  proof (rule triple_call [where f = "\<lambda>s. rtGenerate rt (egMessages s) False" and P' = "\<lambda>x. inv_at B" and k = k])
    show "thinkStep rt cfg c turn s = (case on_world (rtGenerate rt (egMessages s) False) s of (r, s1) \<Rightarrow> k r s1)" for s
      by (auto simp: thinkStep_def True k_def split: prod.splits sum.splits)
    show "inv_at B (s\<lparr>egWorld := w\<rparr>)" if "inv_at B s" "rtGenerate rt (egMessages s) False (egWorld s) = (x, w)" for s x w
      using that(1) by (rule world_at) (rule generate_good [OF that(2)])
    show "triple (inv_at B) (k r) (\<lambda>_. inv_at B) stop_at" for r
    proof (cases r)
      case (Inl err)
      then show ?thesis by (auto simp: k_def intro!: triple_stop provider_stop_at)
    next
      case (Inr g)
      let ?m = "(genMessage g)\<lparr>msgRole := RoleAssistant\<rparr>"
      have t: "triple (inv_at B) (andThen (orPersist (emit rt c ((newEvent EventThinking turn)\<lparr>evMessage := ?m\<rparr>)))
          (\<lambda>_. orPersist (commitKind rt cfg c (turn_kind turn ''thinking'') (turn - 1)))) (\<lambda>_. inv_at B) stop_at"
        by (rule triple_andThen [OF triple_emit_quiet triple_commit]) simp_all
      show ?thesis
      proof (rule triple_caseI)
        fix s assume I: "inv_at B s"
        let ?s2 = "addUsage (genUsage g) s"
        have "case andThen (orPersist (emit rt c ((newEvent EventThinking turn)\<lparr>evMessage := ?m\<rparr>)))
          (\<lambda>_. orPersist (commitKind rt cfg c (turn_kind turn ''thinking'') (turn - 1))) (?s2\<lparr>egMessages := egMessages ?s2 @ [?m]\<rparr>) of
          (Inl x, s') \<Rightarrow> stop_at x s' | (Inr v, s') \<Rightarrow> inv_at B s'"
          by (rule t [unfolded triple_def, rule_format]) (use I in simp)
        then show "case k r s of (Inl x, s') \<Rightarrow> stop_at x s' | (Inr v, s') \<Rightarrow> inv_at B s'"
          using I by (simp add: k_def Inr Let_def stop_at_simple)
      qed
    qed
  qed
qed

text \<open>The answer of the model: the calls of the message that goes on have ids.\<close>

lemma generate_at:
  "triple (inv_at (\<lambda>_. 0)) (generateStep rt cfg c turn) (\<lambda>m s. inv_at (\<lambda>_. 0) s \<and> [] \<notin> callID ` set (msgToolCalls m)) stop_at"
proof -
  define k where "k = (\<lambda>(r :: go_error + Generation) s1. case r of Inl err \<Rightarrow> (Inl (providerStop err), s1)
      | Inr generation \<Rightarrow>
          let message = (genMessage generation)\<lparr>msgRole := RoleAssistant\<rparr> in
          andThen (orPersist (emit rt c ((newEvent EventAssistant turn)\<lparr>evMessage := message\<rparr>)))
            (\<lambda>_. andThen (orPersist (commitKind rt cfg c (turn_kind turn ''assistant'') (turn - 1)))
              (\<lambda>_ s2. if overBudget (cfgMaxTokens cfg) (rrUsage (egResult s2)) then (Inl (Finish TerminalBudgetExceeded None), s2) else
                 if msgToolCalls message = []
                 then (Inl (Finish TerminalCompleted None), s2\<lparr>egResult := (egResult s2)\<lparr>rrFinalMessage := message\<rparr>\<rparr>)
                 else (Inr message, s2)))
            (addUsage (genUsage generation) (s1\<lparr>egMessages := egMessages s1 @ [message]\<rparr>)))"
  let ?P = "\<lambda>r s. inv_at (\<lambda>_. 0) s \<and> (\<forall>g. r = Inr g \<longrightarrow> [] \<notin> callID ` set (msgToolCalls (genMessage g)))"
  show ?thesis
  proof (rule triple_call [where f = "\<lambda>s. rtGenerate rt (egMessages s) True" and P' = ?P and k = k])
    show "generateStep rt cfg c turn s = (case on_world (rtGenerate rt (egMessages s) True) s of (r, s1) \<Rightarrow> k r s1)" for s
      by (auto simp: generateStep_def k_def split: prod.splits sum.splits)
    show "?P r (s\<lparr>egWorld := w\<rparr>)" if "inv_at (\<lambda>_. 0) s" "rtGenerate rt (egMessages s) True (egWorld s) = (r, w)" for s r w
    proof
      show "inv_at (\<lambda>_. 0) (s\<lparr>egWorld := w\<rparr>)" using that(1) by (rule world_at) (rule generate_good [OF that(2)])
      show "\<forall>g. r = Inr g \<longrightarrow> [] \<notin> callID ` set (msgToolCalls (genMessage g))" using generate_ids that unfolding inv_at_def by fastforce
    qed
    show "triple (?P r) (k r) (\<lambda>m s. inv_at (\<lambda>_. 0) s \<and> [] \<notin> callID ` set (msgToolCalls m)) stop_at" for r
    proof (cases r)
      case (Inl err)
      then show ?thesis by (auto simp: k_def intro!: triple_stop provider_stop_at)
    next
      case (Inr g)
      let ?m = "(genMessage g)\<lparr>msgRole := RoleAssistant\<rparr>"
      show ?thesis
      proof (cases "[] \<in> callID ` set (msgToolCalls (genMessage g))")
        case True
        then show ?thesis by (simp add: Inr triple_def)
      next
        case ids: False
        have e: "triple (inv_at (\<lambda>_. 0)) (\<lambda>s2. if overBudget (cfgMaxTokens cfg) (rrUsage (egResult s2)) then (Inl (Finish TerminalBudgetExceeded None), s2) else
                 if msgToolCalls ?m = []
                 then (Inl (Finish TerminalCompleted None), s2\<lparr>egResult := (egResult s2)\<lparr>rrFinalMessage := ?m\<rparr>\<rparr>)
                 else (Inr ?m, s2)) (\<lambda>m s. inv_at (\<lambda>_. 0) s \<and> [] \<notin> callID ` set (msgToolCalls m)) stop_at"
        proof (rule triple_caseI)
          fix s assume I: "inv_at (\<lambda>_. 0) s"
          have "stop_at (Finish TerminalCompleted None) (s\<lparr>egResult := (egResult s)\<lparr>rrFinalMessage := ?m\<rparr>\<rparr>)"
            using I by (auto simp: stop_at_def intro!: exI [of _ "\<lambda>_. 0"])
          then show "case (if overBudget (cfgMaxTokens cfg) (rrUsage (egResult s)) then (Inl (Finish TerminalBudgetExceeded None), s) else
                 if msgToolCalls ?m = []
                 then (Inl (Finish TerminalCompleted None), s\<lparr>egResult := (egResult s)\<lparr>rrFinalMessage := ?m\<rparr>\<rparr>)
                 else (Inr ?m, s)) of (Inl x, s') \<Rightarrow> stop_at x s' | (Inr m, s') \<Rightarrow> inv_at (\<lambda>_. 0) s' \<and> [] \<notin> callID ` set (msgToolCalls m)"
            using I ids by (simp add: stop_at_simple)
        qed
        have t: "triple (inv_at (\<lambda>_. 0)) (andThen (orPersist (emit rt c ((newEvent EventAssistant turn)\<lparr>evMessage := ?m\<rparr>)))
            (\<lambda>_. andThen (orPersist (commitKind rt cfg c (turn_kind turn ''assistant'') (turn - 1)))
              (\<lambda>_ s2. if overBudget (cfgMaxTokens cfg) (rrUsage (egResult s2)) then (Inl (Finish TerminalBudgetExceeded None), s2) else
                 if msgToolCalls ?m = []
                 then (Inl (Finish TerminalCompleted None), s2\<lparr>egResult := (egResult s2)\<lparr>rrFinalMessage := ?m\<rparr>\<rparr>)
                 else (Inr ?m, s2)))) (\<lambda>m s. inv_at (\<lambda>_. 0) s \<and> [] \<notin> callID ` set (msgToolCalls m)) stop_at"
          by (rule triple_andThen [OF triple_emit_quiet triple_andThen [OF triple_commit e]]) simp_all
        show ?thesis
          by (rule triple_applyI [where g = "\<lambda>s. addUsage (genUsage g) (s\<lparr>egMessages := egMessages s @ [?m]\<rparr>)", OF _ _ t]) (simp_all add: k_def Inr Let_def)
      qed
    qed
  qed
qed

lemma start_at:
  assumes "[] \<notin> callID ` set calls"
  shows "triple (inv_at B) (startCalls rt cfg c turn calls) (\<lambda>_. inv_at (\<lambda>i. B i + count_list (map callID calls) i)) stop_at"
  using assms
proof (induction calls arbitrary: B)
  case Nil
  then show ?case by (simp add: triple_def)
next
  case (Cons call calls)
  let ?B = "B(callID call := B (callID call) + 1)"
  let ?e = "(newEvent EventToolStarted turn)\<lparr>evToolCall := call\<rparr>"
  have eq: "(\<lambda>i. ?B i + count_list (map callID calls) i) = (\<lambda>i. B i + count_list (map callID (call # calls)) i)" by auto
  have "triple (inv_at ?B) (startCalls rt cfg c turn calls) (\<lambda>_. inv_at (\<lambda>i. B i + count_list (map callID (call # calls)) i)) stop_at"
  proof -
    have "[] \<notin> callID ` set calls" using Cons.prems by simp
    from Cons.IH [OF this, of ?B] show ?thesis unfolding eq .
  qed
  then have t: "triple (inv_at B) (andThen (orPersist (emit rt c ?e)) (\<lambda>_. startCalls rt cfg c turn calls))
      (\<lambda>_. inv_at (\<lambda>i. B i + count_list (map callID (call # calls)) i)) stop_at"
    by (intro triple_andThen [OF triple_emit [where B = B]]) (use Cons.prems in \<open>auto simp: opened_def event_fits_def\<close>)
  show ?case
  proof (rule triple_caseI)
    fix s assume I: "inv_at B s"
    let ?f = "toolFingerprint call"
    let ?s1 = "s\<lparr>egRepeated := mput ?f (repeatCount (egRepeated s) ?f + 1) (egRepeated s)\<rparr>"
    show "case startCalls rt cfg c turn (call # calls) s of (Inl x, s') \<Rightarrow> stop_at x s'
       | (Inr v, s') \<Rightarrow> inv_at (\<lambda>i. B i + count_list (map callID (call # calls)) i) s'"
    proof (cases "repeatCount (egRepeated ?s1) ?f > cfgMaxRepeatedCall cfg")
      case True
      then show ?thesis using I by (simp add: Let_def stop_at_simple)
    next
      case False
      have "inv_at B ?s1" using I by simp
      from t [unfolded triple_def, rule_format, OF this] False show ?thesis by (simp add: Let_def)
    qed
  qed
qed

lemma fatal_reason_text: "reason_text (fatalReason r) \<noteq> ''completed''"
  by (simp add: fatalReason_def)

lemma after_at:
  assumes "index < length calls"
  shows "triple (inv_at B) (afterResult rt cfg c turn calls index r) (\<lambda>_. inv_at B) stop_at"
proof (rule triple_caseI)
  fix s assume I: "inv_at B s"
  show "case afterResult rt cfg c turn calls index r s of (Inl x, s') \<Rightarrow> stop_at x s' | (Inr v, s') \<Rightarrow> inv_at B s'"
  proof (cases "resFatal r")
    case True
    obtain x w where x: "rtContext rt (egWorld s) = (x, w)" by fastforce
    have "inv_at B (s\<lparr>egWorld := w\<rparr>)" by (rule world_at [OF I]) (rule context_good [OF x])
    then have "inv_at B (s\<lparr>egWorld := w, egResult := (egResult s)\<lparr>rrReason := re\<rparr>\<rparr>)" for re by (simp add: inv_at_def run_inv_at_def)
    then have "stop_at (Finish re None) (s\<lparr>egWorld := w, egResult := (egResult s)\<lparr>rrReason := re\<rparr>\<rparr>)" if "reason_text re \<noteq> ''completed''" for re
      using that by (rule stop_at_simple)
    then show ?thesis using True x by (simp add: afterResult_def on_world_def Let_def context_reason_text fatal_reason_text)
  next
    case False
    let ?call = "calls ! index"
    let ?n = "repeatCount (egRepeated s) (toolFingerprint ?call)"
    let ?m = "repeatedCallReminder (callName ?call) ?n (cfgMaxRepeatedCall cfg)"
    have t: "triple (inv_at B) (orPersist (emit rt c ((newEvent EventReminder turn)\<lparr>evMessage := ?m, evMetadata := [(''kind'', AnyString ''repeated_call''),
              (''tool'', AnyString (callName ?call)), (''count'', AnyInt ?n), (''hard_limit'', AnyInt (cfgMaxRepeatedCall cfg))]\<rparr>))) (\<lambda>_. inv_at B) stop_at"
      by (rule triple_emit_quiet) simp_all
    have "inv_at B (s\<lparr>egMessages := egMessages s @ [?m]\<rparr>)" using I by simp
    from t [unfolded triple_def, rule_format, OF this] False I assms show ?thesis
      by (cases "?n = cfgMaxRepeatedCall cfg") (simp_all add: afterResult_def Let_def)
  qed
qed

lemma take_at:
  assumes "index + length rs = length calls"
  shows "triple (inv_at (count_list (map resToolCallID rs))) (takeResults rt cfg c turn calls index rs) (\<lambda>_. inv_at (\<lambda>_. 0)) stop_at"
  using assms
proof (induction rs arbitrary: index)
  case Nil
  have "count_list ([] :: string list) = (\<lambda>_. 0)" by auto
  then show ?case by (simp add: triple_def)
next
  case (Cons raw rs)
  obtain r hint where r: "attachRecoveryHint raw = (r, hint)" by fastforce
  have id: "resToolCallID r = resToolCallID raw" using attachRecoveryHint_same(1) [of raw] by (simp add: r)
  let ?B = "count_list (map resToolCallID (raw # rs))" and ?B' = "count_list (map resToolCallID rs)"
  let ?e = "(newEvent EventToolResult turn)\<lparr>evToolResult := r\<rparr>"
  have o: "opened ?e ?B = ?B'" by (auto simp: opened_def newEvent_def id fun_eq_iff)
  have fits: "event_fits (egEvents s) ?e" if "inv_at ?B s" for s
    using that by (auto simp: event_fits_def newEvent_def inv_at_def run_inv_at_def id)
  have e: "triple (inv_at ?B) (orPersist (emit rt c ?e)) (\<lambda>_. inv_at ?B') stop_at"
    by (rule triple_emit [OF _ _ _ o]) (use fits in simp_all)
  have h: "triple (inv_at ?B') (if hint = [] then Pair (Inr ()) else orPersist (emit rt c ((newEvent EventRecoveryHint turn)\<lparr>evToolResult := r,
               evMetadata := [(''error_code'', AnyString (resErrorCode r)), (''hint'', AnyString hint)]\<rparr>))) (\<lambda>_. inv_at ?B') stop_at"
    by (intro triple_if triple_skip triple_emit_quiet) simp_all
  have a: "triple (inv_at ?B') (afterResult rt cfg c turn calls index r) (\<lambda>_. inv_at ?B') stop_at"
    by (rule after_at) (use Cons.prems in simp)
  have t: "triple (inv_at ?B) (andThen (orPersist (emit rt c ?e))
        (\<lambda>_. andThen (if hint = [] then Pair (Inr ()) else orPersist (emit rt c ((newEvent EventRecoveryHint turn)\<lparr>evToolResult := r,
               evMetadata := [(''error_code'', AnyString (resErrorCode r)), (''hint'', AnyString hint)]\<rparr>)))
          (\<lambda>_. andThen (afterResult rt cfg c turn calls index r) (\<lambda>_. takeResults rt cfg c turn calls (Suc index) rs)))) (\<lambda>_. inv_at (\<lambda>_. 0)) stop_at"
    by (rule triple_andThen [OF e triple_andThen [OF h triple_andThen [OF a Cons.IH]]]) (use Cons.prems in simp)
  show ?case
  proof (rule triple_applyI [where g = "\<lambda>s. s\<lparr>egMessages := egMessages s @ [toolMessage r]\<rparr>", OF _ _ t])
    show "takeResults rt cfg c turn calls index (raw # rs) s = andThen (orPersist (emit rt c ?e))
        (\<lambda>_. andThen (if hint = [] then Pair (Inr ()) else orPersist (emit rt c ((newEvent EventRecoveryHint turn)\<lparr>evToolResult := r,
               evMetadata := [(''error_code'', AnyString (resErrorCode r)), (''hint'', AnyString hint)]\<rparr>)))
          (\<lambda>_. andThen (afterResult rt cfg c turn calls index r) (\<lambda>_. takeResults rt cfg c turn calls (Suc index) rs)))
        (s\<lparr>egMessages := egMessages s @ [toolMessage r]\<rparr>)" for s by (simp add: r)
    show "inv_at ?B (s\<lparr>egMessages := egMessages s @ [toolMessage r]\<rparr>)" if "inv_at ?B s" for s using that by (simp only: inv_at_other)
  qed
qed

lemma tool_at:
  assumes "[] \<notin> callID ` set calls"
  shows "triple (inv_at (\<lambda>_. 0)) (toolStep rt cfg c turn calls) (\<lambda>_. inv_at (\<lambda>_. 0)) stop_at"
  unfolding toolStep_def
proof (rule triple_andThen [OF start_at [OF assms, of "\<lambda>_. 0"]])
  let ?P = "\<lambda>rs s. map resToolCallID rs = map callID calls \<and> inv_at (count_list (map callID calls)) s"
  show "triple (inv_at (\<lambda>i. 0 + count_list (map callID calls) i))
      (\<lambda>s. case on_world (rtExecuteBatch rt calls) s of (results, s1) \<Rightarrow> takeResults rt cfg c turn calls 0 results s1) (\<lambda>_. inv_at (\<lambda>_. 0)) stop_at"
  proof (rule triple_call [where f = "\<lambda>s. rtExecuteBatch rt calls" and P' = ?P and k = "takeResults rt cfg c turn calls 0"])
    show "?P rs (s\<lparr>egWorld := w\<rparr>)" if "inv_at (\<lambda>i. 0 + count_list (map callID calls) i) s" "rtExecuteBatch rt calls (egWorld s) = (rs, w)" for s rs w
    proof -
      from that(1) have "good (egOpSequence s) (set (claimed_ids (egEvents s))) (egEvents s) (egWorld s)" by (simp add: inv_at_def)
      then show ?thesis using world_at [OF that(1) batch_good [OF that(2)]] batch_ids [OF that(2)] that(1) by simp
    qed
    show "triple (?P rs) (takeResults rt cfg c turn calls 0 rs) (\<lambda>_. inv_at (\<lambda>_. 0)) stop_at" for rs
    proof (cases "map resToolCallID rs = map callID calls")
      case True
      then have "length rs = length calls" by (metis length_map)
      with take_at [of 0 rs calls] True show ?thesis by simp
    qed (simp add: triple_def)
  qed simp
qed

lemma turn_at: "triple (inv_at (\<lambda>_. 0)) (runTurn rt cfg c turn) (\<lambda>_. inv_at (\<lambda>_. 0)) stop_at"
proof -
  let ?I = "inv_at (\<lambda>_. 0)"
  have tl: "triple ?I (andThen (orPersist (commitKind rt cfg c (turn_kind turn ''tool-results'') turn))
       (\<lambda>_. orPersist (emit rt c (newEvent EventCheckpoint turn)))) (\<lambda>_. ?I) stop_at"
    by (rule triple_andThen [OF triple_commit triple_emit_quiet]) simp_all
  have g: "triple (\<lambda>s. ?I s \<and> [] \<notin> callID ` set (msgToolCalls m)) (andThen (toolStep rt cfg c turn (msgToolCalls m))
      (\<lambda>_. andThen (orPersist (commitKind rt cfg c (turn_kind turn ''tool-results'') turn))
       (\<lambda>_. orPersist (emit rt c (newEvent EventCheckpoint turn))))) (\<lambda>_. ?I) stop_at" for m
  proof (cases "[] \<in> callID ` set (msgToolCalls m)")
    case False
    show ?thesis by (rule triple_pre [OF triple_andThen [OF tool_at [OF False] tl]]) simp
  qed (simp add: triple_def)
  have ts: "triple ?I (orPersist (emit rt c (newEvent EventTurnStarted turn))) (\<lambda>_. ?I) stop_at"
    by (rule triple_emit_quiet) simp_all
  note all = triple_andThen [OF check_at triple_andThen [OF ts triple_andThen [OF claim_at triple_andThen [OF compact_at
    triple_andThen [OF think_at triple_andThen [OF generate_at g]]]]]]
  show ?thesis
    by (rule triple_applyI [where g = "\<lambda>s. s\<lparr>egResult := (egResult s)\<lparr>rrTurns := turn\<rparr>\<rparr>", OF _ _ all]) (simp_all add: runTurn_def)
qed

lemma loop_at: "triple (inv_at (\<lambda>_. 0)) (turnLoop rt cfg c n turn) (\<lambda>_ _. False) stop_at"
proof (induction n arbitrary: turn)
  case 0
  show ?case by (auto simp: triple_def intro: stop_at_simple)
next
  case (Suc n)
  have "turnLoop rt cfg c (Suc n) turn = andThen (runTurn rt cfg c turn) (\<lambda>_. turnLoop rt cfg c n (turn + 1))" by (rule ext) simp
  with triple_andThen [OF turn_at Suc.IH] show ?case by simp
qed

lemma capability_at:
  assumes "P = (\<lambda>s. inv_at B s)"
  shows "triple P (orPersist (emit rt c ((newEvent EventCapability turn)\<lparr>evMetadata :=
           [(''sequence'', AnyUint64 (capSequence (reCapability c))), (''digest'', AnyString (capDigest (reCapability c))),
            (''tool_digest'', AnyString (capToolDigest (reCapability c))), (''prompt_digest'', AnyString (capPromptDigest (reCapability c))),
            (''agents_digest'', AnyString (capAgentsDigest (reCapability c))), (''skills_digest'', AnyString (capSkillsDigest (reCapability c)))]\<rparr>)))
       (\<lambda>_. inv_at B) stop_at"
proof -
  let ?e = "(newEvent EventCapability turn)\<lparr>evMetadata :=
           [(''sequence'', AnyUint64 (capSequence (reCapability c))), (''digest'', AnyString (capDigest (reCapability c))),
            (''tool_digest'', AnyString (capToolDigest (reCapability c))), (''prompt_digest'', AnyString (capPromptDigest (reCapability c))),
            (''agents_digest'', AnyString (capAgentsDigest (reCapability c))), (''skills_digest'', AnyString (capSkillsDigest (reCapability c)))]\<rparr>"
  have st: "str ''digest'' ?e = capDigest (reCapability c)" "str ''tool_digest'' ?e = capToolDigest (reCapability c)"
    "str ''prompt_digest'' ?e = capPromptDigest (reCapability c)" "str ''agents_digest'' ?e = capAgentsDigest (reCapability c)"
    "str ''skills_digest'' ?e = capSkillsDigest (reCapability c)" "has_str ''digest'' ?e" "has_str ''tool_digest'' ?e"
    "has_str ''prompt_digest'' ?e" "has_str ''skills_digest'' ?e" "has_components ?e"
    by (simp_all add: str_def has_str_def has_components_def metadataString_def)
  have ty: "evType ?e = EventCapability" by simp
  have fits: "event_fits (egEvents s) ?e" if "inv_at B s" for s
  proof -
    from that have "snapshot_digest (egEvents s) = [] \<or> snapshot_digest (egEvents s) = capDigest (reCapability c)"
      by (auto simp: inv_at_def run_inv_at_def snapshot_inv_def)
    moreover have D: "safeDigest (capDigest (reCapability c))" "components_ok ?e"
      using that digests st(7-9) unfolding components_ok_def st inv_at_def by blast+
    ultimately show ?thesis using st(6) unfolding event_fits_def ty EventType.case capability_ok_def st by simp
  qed
  have snap: "snapshot_inv (reCapability c) (es @ [?e])" for es
    unfolding snapshot_inv_def counts_snoc ty st using st(10) by simp
  show ?thesis unfolding assms
  proof (rule triple_orPersist)
    fix s r s' assume I: "inv_at B s" and e: "emit rt c ?e s = (r, s')"
    from I have R: "run_inv_at c B s" "good (egOpSequence s) (set (claimed_ids (egEvents s))) (egEvents s) (egWorld s)" by (simp_all add: inv_at_def)
    have nc: "evType ?e \<noteq> EventCommitted" by simp
    have o: "opened ?e B = B" by (simp add: opened_def)
    from emit_inv [OF e R fits [OF I] nc _ snap] show "inv_at B s'" unfolding o ty by (simp add: inv_at_def)
  next
    show "stop_at (Finish TerminalPersistenceError err) s'" if "inv_at B s'" for s' err using that by (rule stop_at_simple) simp
  qed
qed

lemma reconcile_at: "triple (inv_at B) (\<lambda>s. case rtQueue rt of None \<Rightarrow> (Inr (), s) | Some q \<Rightarrow>
         (case on_world (iqReconcile q (reRunID c) (egClaims s)) s of
            (Some err, s1) \<Rightarrow> (Inl (Finish TerminalPersistenceError (Some (Wrap ''reconcile input claims'' err))), s1)
          | (None, s1) \<Rightarrow> (Inr (), s1))) (\<lambda>_. inv_at B) stop_at"
proof (cases "rtQueue rt")
  case None
  then show ?thesis by (simp add: triple_def)
next
  case (Some q)
  show ?thesis
  proof (rule triple_caseI)
    fix s assume I: "inv_at B s"
    obtain er w where w: "iqReconcile q (reRunID c) (egClaims s) (egWorld s) = (er, w)" by fastforce
    have "inv_at B (s\<lparr>egWorld := w\<rparr>)" by (rule world_at [OF I]) (rule reconcile_good [OF Some w])
    then show "case (case rtQueue rt of None \<Rightarrow> (Inr (), s) | Some q \<Rightarrow>
         (case on_world (iqReconcile q (reRunID c) (egClaims s)) s of
            (Some err, s1) \<Rightarrow> (Inl (Finish TerminalPersistenceError (Some (Wrap ''reconcile input claims'' err))), s1)
          | (None, s1) \<Rightarrow> (Inr (), s1))) of (Inl x, s') \<Rightarrow> stop_at x s' | (Inr v, s') \<Rightarrow> inv_at B s'"
      using Some w by (cases er) (simp_all add: on_world_def stop_at_simple)
  qed
qed

lemma start_run_at: "triple (inv_at (\<lambda>_. 0)) (startRun rt cfg c resumed turns) (\<lambda>_ _. False) stop_at"
proof -
  let ?I = "inv_at (\<lambda>_. 0)"
  have rs: "triple ?I (orPersist (emit rt c ((newEvent EventRunStarted turns)\<lparr>evMetadata := md\<rparr>))) (\<lambda>_. ?I) stop_at"
    if "list_all plain_entry md" for md
    by (rule triple_emit_quiet) (use that in simp_all)
  have cm: "triple ?I (orPersist (commitKind rt cfg c ''admission'' turns)) (\<lambda>_. ?I) stop_at"
    by (rule triple_commit)
  show ?thesis unfolding startRun_def
    by (rule triple_andThen [OF reconcile_at triple_andThen [OF cm triple_andThen [OF rs triple_andThen [OF capability_at [OF refl] loop_at]]]]) auto
qed

text \<open>The end of the run: the terminal commit, the last event and the result.\<close>

lemma finish_at:
  assumes "finishRun rt cfg c reason err s = ((res, er), s')" and "stop_at (Finish reason err) s"
  obtains B u where "inv_at B u" and "egEvents u = egEvents s'" and "reason_text (rrReason (egResult u)) = ''completed'' \<longrightarrow> B = (\<lambda>_. 0)"
    and "res = egResult u \<or> res = (egResult u)\<lparr>rrReason := TerminalPersistenceError\<rparr>"
    and "case rtStore rt of None \<Rightarrow> egWorld s' = egWorld u | Some st \<Rightarrow> \<exists>e. stComplete st (egResult u) (egWorld u) = (e, egWorld s')"
    and "\<exists>es ev. egEvents s' = es @ [ev] \<and> evType ev = EventCompleted"
proof -
  from assms(2) obtain B where I: "inv_at B s" and B: "reason_text reason = ''completed'' \<Longrightarrow> B = (\<lambda>_. 0)" by (auto simp: stop_at_def)
  let ?s0 = "s\<lparr>egResult := (egResult s)\<lparr>rrReason := reason, rrMessages := egMessages s\<rparr>\<rparr>"
  obtain t w where t: "rtNow rt (egWorld s) = (t, w)" by fastforce
  let ?s2 = "s\<lparr>egWorld := w, egResult := (egResult s)\<lparr>rrReason := reason, rrMessages := egMessages s, rrCompletedAt := t,
    rrDurationMS := Milliseconds (time_Sub t (rrStartedAt (egResult s)))\<rparr>\<rparr>"
  have I2: "inv_at B ?s2" using world_at [OF I now_good [OF t]] by (simp add: inv_at_def run_inv_at_def)
  define fail where "fail = (\<lambda>(e :: go_error option) err (u :: 'w eng). if e \<noteq> None \<and> err = None
    then (e, u\<lparr>egResult := (egResult u)\<lparr>rrReason := TerminalPersistenceError\<rparr>\<rparr>) else (err, u))"
  define J where "J = (\<lambda>u :: 'w eng. inv_at B u \<and> (rrReason (egResult u) = reason \<or> rrReason (egResult u) = TerminalPersistenceError))"
  have F: "J (snd (fail e x u))" if "J u" for e :: "go_error option" and x u
    using that by (simp add: fail_def J_def)
  obtain e1 s3 where k: "commitHistoryAs rt cfg c (''terminal-'' @ reason_text reason) (rrTurns (egResult ?s2)) 2 ?s2 = (e1, s3)" by fastforce
  have "J s3" using commit_at [OF k I2] commit_inv(4) [OF k, where B = B and C = "set (claimed_ids (egEvents s))"] I2 by (simp add: J_def inv_at_def)
  obtain x1 s4 where f1: "fail e1 err s3 = (x1, s4)" by fastforce
  with F [OF \<open>J s3\<close>, of e1 err] have "J s4" by simp
  let ?e = "(newEvent EventCompleted (rrTurns (egResult s4)))\<lparr>evMetadata := [(''reason'', AnyReason (rrReason (egResult s4)))]\<rparr>"
  obtain e2 s5 where em: "emit rt c ?e s4 = (e2, s5)" by fastforce
  have q: "event_fits (egEvents s4) ?e" "opened ?e B = B" using quiet_fits [of ?e] by simp_all
  have I5: "inv_at B s5" using emit_at [OF em _ q(1), of B] \<open>J s4\<close> q(2) by (simp add: J_def)
  have "good (egOpSequence s4) (set (claimed_ids (egEvents s4))) (egEvents s4) (egWorld s4)" using \<open>J s4\<close> by (simp add: J_def inv_at_def)
  then obtain ev where s5: "egEvents s5 = egEvents s4 @ [ev]" "evType ev = EventCompleted" by (rule emit_shape [OF em]) simp
  note I5
  moreover have "egResult s5 = egResult s4"
    using emit_inv(4) [OF em, where B = B and C = "set (claimed_ids (egEvents s4))" and n = "egOpSequence s4"] q(1) \<open>J s4\<close> by (simp add: J_def inv_at_def)
  ultimately have "J s5" using \<open>J s4\<close> by (simp add: J_def)
  obtain x2 s6 where f2: "fail e2 x1 s5 = (x2, s6)" by fastforce
  with F [OF \<open>J s5\<close>, of e2 x1] have J6: "J s6" by simp
  have fin: "finishRun rt cfg c reason err s = (case rtStore rt of None \<Rightarrow> ((egResult s6, x2), s6) | Some st \<Rightarrow>
       (case on_world (stComplete st (egResult s6)) s6 of (e3, s7) \<Rightarrow>
       (case fail e3 x2 s7 of (err3, s8) \<Rightarrow> ((egResult s8, err3), s8))))"
    unfolding finishRun_def fail_def [symmetric] using t k f1 em f2 by (simp add: on_world_def Let_def)
  have "egEvents s' = egEvents s6 \<and> (res = egResult s6 \<or> res = (egResult s6)\<lparr>rrReason := TerminalPersistenceError\<rparr>) \<and>
    (case rtStore rt of None \<Rightarrow> egWorld s' = egWorld s6 | Some st \<Rightarrow> \<exists>e. stComplete st (egResult s6) (egWorld s6) = (e, egWorld s'))"
  proof (cases "rtStore rt")
    case None
    with fin assms(1) show ?thesis by simp
  next
    case (Some st)
    then show ?thesis using fin assms(1) by (auto simp: on_world_def fail_def split: prod.splits if_splits)
  qed
  moreover have "egEvents s6 = egEvents s5" using f2 by (auto simp: fail_def split: if_splits)
  ultimately show thesis using that [of B s6] J6 B s5 by (auto simp: J_def)
qed

text \<open>The trace of a run from its first event on is in order.\<close>

lemma execute_in_order:
  assumes "executeRun rt cfg c resumed turns s = (out, events, w)" and "inv_at (\<lambda>_. 0) s"
  obtains res er sent u n C where "out = Some (res, er)" and "rrRunID sent = reRunID c" and "trace_ok \<lparr>trEvents = events, trResult = sent\<rparr>"
    and "res = sent \<or> res = sent\<lparr>rrReason := TerminalPersistenceError\<rparr>" and "good n C events u" and "list_all plain_event events"
    and "case rtStore rt of None \<Rightarrow> w = u | Some st \<Rightarrow> \<exists>e. stComplete st sent u = (e, w)"
    and "\<exists>es ev. events = es @ [ev] \<and> evType ev = EventCompleted"
proof -
  obtain x s1 where st: "startRun rt cfg c resumed turns s = (x, s1)" by fastforce
  show thesis
  proof (cases x)
    case (Inr v)
    from tripleD(1) [OF start_run_at assms(2) st [unfolded Inr]] show ?thesis ..
  next
    case (Inl y)
    note sa = tripleD(2) [OF start_run_at assms(2) st [unfolded Inl]]
    show ?thesis
    proof (cases y)
      case Panic
      with sa show ?thesis by (simp add: stop_at_def)
    next
      case (Finish reason err)
      obtain res er s2 where f: "finishRun rt cfg c reason err s1 = ((res, er), s2)" by (metis prod.exhaust)
      from finish_at [OF f sa [unfolded Finish]] obtain B u where B: "inv_at B u" "egEvents u = egEvents s2"
        "reason_text (rrReason (egResult u)) = ''completed'' \<longrightarrow> B = (\<lambda>_. 0)"
        "res = egResult u \<or> res = (egResult u)\<lparr>rrReason := TerminalPersistenceError\<rparr>"
        "case rtStore rt of None \<Rightarrow> egWorld s2 = egWorld u | Some st \<Rightarrow> \<exists>e. stComplete st (egResult u) (egWorld u) = (e, egWorld s2)"
        "\<exists>es ev. egEvents s2 = es @ [ev] \<and> evType ev = EventCompleted" .
      have ro: "result_ok (egResult u) (egEvents s2)"
        using B(1,3) unfolding B(2) [symmetric] by (auto simp: result_ok_def inv_at_def run_inv_at_def snapshot_inv_def)
      have ev: "rrRunID (egResult u) = reRunID c" "events_ok (reRunID c) [] (egEvents s2)" "list_all plain_event (egEvents s2)"
        "good (egOpSequence u) (set (claimed_ids (egEvents u))) (egEvents s2) (egWorld u)"
        using B(1) unfolding B(2) [symmetric] by (simp_all add: inv_at_def run_inv_at_def)
      have out: "out = Some (res, er)" "events = egEvents s2" "w = egWorld s2" using assms(1) st Inl Finish f by (simp_all add: executeRun_def)
      from ro ev have "trace_ok \<lparr>trEvents = events, trResult = egResult u\<rparr>" by (simp add: trace_ok_def out)
      then show ?thesis using that [of res er "egResult u"] B(4-6) ev out by auto
    qed
  qed
qed

end

end
