(* ===== verification/EngineRun.thy ===== *)
theory EngineRun
  imports EngineProps RunProps
begin

text \<open>
  The engine on the file store, as src/cmd/01agent/main.go puts them together: one \<open>FileStore\<close> keeps the traces and the history of the run and
  is its queue of inputs too. What is not in the store, the clock, the random source, the model, the tools, the errors of the file system and
  the inputs that other processes enqueue meanwhile, is a record of functions of the number of the call. The order of the events that the
  locale gives for any world then holds for this one, and the trace file of a run passes \<open>Replay\<close>.
\<close>

section \<open>The world of a run\<close>

record runWorld =
  rwRuns :: runDir
  rwInbox :: inboxDir
  rwTick :: nat

record surroundings =
  suEnv :: "nat \<Rightarrow> env"
  suAppend :: "nat \<Rightarrow> append_io"
  suLedger :: "nat \<Rightarrow> append_io"
  suArrive :: "nat \<Rightarrow> inboxDir \<Rightarrow> inboxDir"
  suCompose :: "nat \<Rightarrow> string \<Rightarrow> string \<Rightarrow> go_error + promptSnapshot"
  suRevision :: "nat \<Rightarrow> CapabilityRevision"
  suGenerate :: "nat \<Rightarrow> ChatMessage list \<Rightarrow> bool \<Rightarrow> go_error + Generation"
  suBatch :: "nat \<Rightarrow> ToolCall list \<Rightarrow> ToolResult list"
  suCompact :: "(nat \<Rightarrow> ChatMessage list \<Rightarrow> go_error + ChatMessage list \<times> bool) option"

definition reading :: "(nat \<Rightarrow> 'a) \<Rightarrow> runWorld \<Rightarrow> 'a \<times> runWorld" where
  "reading f w = (f (rwTick w), w\<lparr>rwTick := rwTick w + 1\<rparr>)"

definition on_runs :: "(nat \<Rightarrow> runDir \<Rightarrow> 'r \<times> runDir) \<Rightarrow> runWorld \<Rightarrow> 'r \<times> runWorld" where
  "on_runs f w = (case f (rwTick w) (rwRuns w) of (r, d) \<Rightarrow> (r, w\<lparr>rwRuns := d, rwTick := rwTick w + 1\<rparr>))"

definition on_inbox :: "surroundings \<Rightarrow> (env \<Rightarrow> inboxDir \<Rightarrow> 'r \<times> inboxDir) \<Rightarrow> runWorld \<Rightarrow> 'r \<times> runWorld" where
  "on_inbox su f w = (case f (suEnv su (rwTick w)) (suArrive su (rwTick w) (rwInbox w)) of (r, d) \<Rightarrow>
     (r, w\<lparr>rwInbox := d, rwTick := rwTick w + 1\<rparr>))"

definition fileStore :: "surroundings \<Rightarrow> runWorld run_store" where
  "fileStore su = \<lparr>
     stRecord = (\<lambda>e. on_runs (\<lambda>k. RecordEvent (suAppend su k) (cerr (suEnv su k)) e)),
     stCommit = (\<lambda>h. on_runs (\<lambda>k. CommitHistory (suLedger su k) (suEnv su k) h)),
     stComplete = (\<lambda>r. on_runs (\<lambda>k. CompleteRun (suAppend su k) (wio (suEnv su k)) r)),
     stLastSequence = Some (\<lambda>r. on_runs (\<lambda>k d. (LastEventSequence r d, d)))\<rparr>"

definition fileQueue :: "surroundings \<Rightarrow> runWorld input_queue" where
  "fileQueue su = \<lparr>
     iqClaim = (\<lambda>r t n. on_inbox su (\<lambda>e. Claim e r t n)),
     iqAck = (\<lambda>i v. on_inbox su (\<lambda>e. Ack e i v)),
     iqRelease = (\<lambda>i. on_inbox su (\<lambda>e. Release e i)),
     iqReconcile = (\<lambda>r m. on_inbox su (\<lambda>e. Reconcile e r (\<lambda>i. case mget m i of Some n \<Rightarrow> n | None \<Rightarrow> 0)))\<rparr>"

definition fileRuntime :: "surroundings \<Rightarrow> runWorld runtime" where
  "fileRuntime su = \<lparr>
     rtNow = reading (\<lambda>k. now (suEnv su k)), rtEntropy = reading (\<lambda>k. ent (suEnv su k) 0), rtContext = reading (\<lambda>k. cerr (suEnv su k)),
     rtCompose = (\<lambda>d p. reading (\<lambda>k. suCompose su k d p)), rtRevision = reading (suRevision su),
     rtGenerate = (\<lambda>ms b. reading (\<lambda>k. suGenerate su k ms b)), rtExecuteBatch = (\<lambda>calls. reading (\<lambda>k. suBatch su k calls)),
     rtCompactor = map_option (\<lambda>f ms. reading (\<lambda>k. f k ms)) (suCompact su),
     rtQueue = Some (fileQueue su), rtStore = Some (fileStore su)\<rparr>"

section \<open>What the surroundings promise\<close>

text \<open>The ids of claims differ from each other, a model gives its tool calls an id, the tools answer the calls one by one, and digests are hexadecimal.\<close>

definition claim_id :: "surroundings \<Rightarrow> nat \<Rightarrow> string" where
  "claim_id su k = newID ''claim'' (ent (suEnv su k) 0)"

definition digests_ok :: "CapabilityRevision \<Rightarrow> bool" where
  "digests_ok c \<longleftrightarrow> safeDigest (capDigest c) \<and> safeDigest (capToolDigest c) \<and> safeDigest (capPromptDigest c) \<and> safeDigest (capSkillsDigest c)
     \<and> (capAgentsDigest c = [] \<or> safeDigest (capAgentsDigest c))"

definition well_behaved :: "surroundings \<Rightarrow> bool" where
  "well_behaved su \<longleftrightarrow>
     inj (claim_id su) \<and>
     (\<forall>k ms b g. suGenerate su k ms b = Inr g \<longrightarrow> [] \<notin> callID ` set (msgToolCalls (genMessage g))) \<and>
     (\<forall>k calls. map resToolCallID (suBatch su k calls) = map callID calls) \<and>
     (\<forall>k d p s. suCompose su k d p = Inr s \<longrightarrow> (\<forall>j. digests_ok (combinedCapability (suRevision su j) s)))"

text \<open>The appends to the trace succeed; those to the operation log may fail, and a context may be cancelled all the same.\<close>

definition calm :: "surroundings \<Rightarrow> bool" where
  "calm su \<longleftrightarrow> (\<forall>k. suAppend su k = Ap_ok \<and>
     (case cerr (suEnv su k) of None \<Rightarrow> True | Some err \<Rightarrow> errors_Is err context_Canceled \<or> errors_Is err context_DeadlineExceeded))"

definition logged :: "surroundings \<Rightarrow> runConst \<Rightarrow> traceItem log \<Rightarrow> Event list \<Rightarrow> runWorld \<Rightarrow> bool" where
  "logged su c base es w \<longleftrightarrow> (calm su \<longrightarrow> safeID (reRunID c) \<longrightarrow> (\<forall>e\<in>set es. evRunID e = reRunID c) \<longrightarrow>
     (\<forall>ws. wire_list wire_event es = Some ws \<longrightarrow>
        log_lines (rdTraces (rwRuns w)) (tracePath (reRunID c)) = base @ map (Record \<circ> eventItem) ws))"

definition run_good :: "surroundings \<Rightarrow> runConst \<Rightarrow> traceItem log \<Rightarrow> int \<Rightarrow> string set \<Rightarrow> Event list \<Rightarrow> runWorld \<Rightarrow> bool" where
  "run_good su c base n C es w \<longleftrightarrow>
     well_behaved su \<and> digests_ok (reCapability c) \<and>
     (\<forall>x\<in>run_records (reRunID c) (rwRuns w). op_number c n (orOperationID x)) \<and>
     C \<subseteq> claim_id su ` {..<rwTick w} \<and> logged su c base es w"

lemma reading_good: "reading f w = (r, w') \<Longrightarrow> run_good su c base n C es w \<Longrightarrow> run_good su c base n C es w'"
  by (auto simp: reading_def run_good_def logged_def lessThan_Suc)

lemma on_inbox_good: "on_inbox su f w = (r, w') \<Longrightarrow> run_good su c base n C es w \<Longrightarrow> run_good su c base n C es w'"
  by (auto simp: on_inbox_def run_good_def logged_def lessThan_Suc split: prod.splits)

lemma RecordEvent_keeps: "RecordEvent i x e d = (r, d') \<Longrightarrow> rdHistories d' = rdHistories d \<and> rdOperations d' = rdOperations d"
  by (auto simp: RecordEvent_def appendTrace_def split: option.splits prod.splits if_splits)

lemma CommitHistory_keeps: "CommitHistory ai e h d = (r, d') \<Longrightarrow> rdTraces d' = rdTraces d"
  by (auto simp: CommitHistory_def Let_def writeHistory_def appendOpLine_def split: option.splits prod.splits if_splits sum.splits)

lemma run_records_cong: "rdHistories d' = rdHistories d \<Longrightarrow> rdOperations d' = rdOperations d \<Longrightarrow> run_records r d' = run_records r d"
  by (simp add: run_records_def current_ack_def)

section \<open>The laws\<close>

lemma op_number_mono: "op_number c n i \<Longrightarrow> n \<le> m \<Longrightarrow> op_number c m i"
  by (auto simp: op_number_def intro: order_trans)

lemma op_number_new: "0 \<le> n \<Longrightarrow> op_number c (n + 1) (operationID c (n + 1) kind)"
  by (auto simp: op_number_def intro!: exI [of _ "n + 1"])

lemma good_claim_failed: "on_inbox su (\<lambda>e. Claim e r t k) w = (x, w') \<Longrightarrow> run_good su c base n C es w \<Longrightarrow> run_good su c base n C es w'"
  by (rule on_inbox_good)

lemma Claim_id: "Claim e r t k d = (Inr claim, d') \<Longrightarrow> clID claim = [] \<or> clID claim = newID ''claim'' (ent e 0)"
  by (auto simp: Claim_def Let_def zeroClaim_def split: option.splits sum.splits if_splits prod.splits)

lemma good_claim_fresh:
  assumes c: "on_inbox su (\<lambda>e. Claim e r t k) w = (Inr claim, w')" and g: "run_good su c base n C es w"
  shows "if clID claim = [] then run_good su c base n C es w' else clID claim \<notin> C \<and> run_good su c base n (insert (clID claim) C) es w'"
proof (cases "clID claim = []")
  case True
  with on_inbox_good [OF c g] show ?thesis by simp
next
  case False
  from c obtain d where d: "Claim (suEnv su (rwTick w)) r t k (suArrive su (rwTick w) (rwInbox w)) = (Inr claim, d)"
    and w': "rwTick w' = Suc (rwTick w)" by (auto simp: on_inbox_def split: prod.splits)
  from Claim_id [OF d] False have i: "clID claim = claim_id su (rwTick w)" by (simp add: claim_id_def)
  from g have "inj (claim_id su)" "C \<subseteq> claim_id su ` {..<rwTick w}" by (simp_all add: run_good_def well_behaved_def)
  then have "clID claim \<notin> C" unfolding i by (auto dest: injD)
  moreover have "clID claim \<in> claim_id su ` {..<rwTick w'}" unfolding i w' by blast
  ultimately show ?thesis using False on_inbox_good [OF c g] by (simp add: run_good_def)
qed

lemma good_record:
  assumes r: "on_runs (\<lambda>k. RecordEvent (suAppend su k) (cerr (suEnv su k)) e) w = (er, w')" and g: "run_good su c base n C es w"
  shows "run_good su c base n C (es @ [e]) w'"
proof -
  let ?k = "rwTick w"
  from r obtain d where d: "RecordEvent (suAppend su ?k) (cerr (suEnv su ?k)) e (rwRuns w) = (er, d)"
    and w': "w' = w\<lparr>rwRuns := d, rwTick := ?k + 1\<rparr>" by (auto simp: on_runs_def split: prod.splits)
  have rr: "run_records (reRunID c) d = run_records (reRunID c) (rwRuns w)" using RecordEvent_keeps [OF d] by (intro run_records_cong) auto
  have "logged su c base (es @ [e]) w'"
    unfolding logged_def
  proof (intro impI allI)
    fix ws assume calm: "calm su" and id: "safeID (reRunID c)" and run: "\<forall>x\<in>set (es @ [e]). evRunID x = reRunID c"
      and ws: "wire_list wire_event (es @ [e]) = Some ws"
    from ws obtain vs v where v: "wire_list wire_event es = Some vs" "wire_event e = Some v" "ws = vs @ [v]"
      by (auto simp: wire_list_append split: option.splits)
    have a: "suAppend su ?k = Ap_ok" "case cerr (suEnv su ?k) of None \<Rightarrow> True | Some err \<Rightarrow> errors_Is err context_Canceled \<or> errors_Is err context_DeadlineExceeded"
      using calm by (simp_all add: calm_def)
    have "RecordEvent (suAppend su ?k) (cerr (suEnv su ?k)) e (rwRuns w) = RecordEvent Ap_ok None e (rwRuns w)"
      using a by (auto simp: RecordEvent_def split: option.splits)
    with d RecordEvent_ok [of e v "rwRuns w"] run id v(2)
    have "log_lines (rdTraces d) (tracePath (reRunID c)) = log_lines (rdTraces (rwRuns w)) (tracePath (reRunID c)) @ [Record (eventItem v)]"
      by auto
    moreover have "log_lines (rdTraces (rwRuns w)) (tracePath (reRunID c)) = base @ map (Record \<circ> eventItem) vs"
      using g calm id run v(1) by (simp add: run_good_def logged_def)
    ultimately show "log_lines (rdTraces (rwRuns w')) (tracePath (reRunID c)) = base @ map (Record \<circ> eventItem) ws"
      by (simp add: w' v(3))
  qed
  then show ?thesis using g rr by (auto simp: run_good_def w')
qed

lemma good_commit:
  assumes r: "on_runs (\<lambda>k. CommitHistory (suLedger su k) (suEnv su k) h) w = (hr, w')" and g: "run_good su c base n C es w"
    and n: "0 \<le> n" "hcRunID h = reRunID c" "hcOperationID h = operationID c (n + 1) kind"
  shows "run_good su c base (n + 1) C es w'" and "\<And>a. hr = Inr a \<Longrightarrow> haRevision a = hcExpectedRevision h + 1"
proof -
  let ?k = "rwTick w" let ?r = "reRunID c"
  from r obtain d where d: "CommitHistory (suLedger su ?k) (suEnv su ?k) h (rwRuns w) = (hr, d)"
    and w': "w' = w\<lparr>rwRuns := d, rwTick := ?k + 1\<rparr>" by (auto simp: on_runs_def split: prod.splits)
  from g have O: "\<forall>x\<in>run_records ?r (rwRuns w). op_number c n (orOperationID x)" by (simp add: run_good_def)
  have new: "\<not> op_number c n (hcOperationID h)" using op_number_fresh [of n "n + 1"] n by simp
  have m: "op_number c n i \<Longrightarrow> op_number c (n + 1) i" for i by (rule op_number_mono) auto
  have "(\<forall>x\<in>run_records ?r d. op_number c (n + 1) (orOperationID x)) \<and> (\<forall>a. hr = Inr a \<longrightarrow> haRevision a = hcExpectedRevision h + 1)"
    using d
  proof (cases rule: commit_cases)
    case (refused err)
    then show ?thesis using O m by auto
  next
    case (replayed a prev)
    have "prev \<in> run_records ?r (rwRuns w)" using replayed(3) n by (simp add: run_records_def)
    with O replayed(5) new show ?thesis by auto
  next
    case (repaired a)
    have "ackRecord a \<in> run_records ?r (rwRuns w)" using repaired(1) n by (simp add: run_records_def)
    with O repaired(3) new show ?thesis by force
  next
    case (committed ack x ops)
    have "current_ack ?r d = Some ack" using committed(5) n by (simp add: current_ack_def store_simps)
    then have "run_records ?r d \<subseteq> insert (ackRecord ack) (run_records ?r (rwRuns w))"
      using log_step_records(1) [OF committed(6)] n by (auto simp: run_records_def)
    moreover have "haOperationID ack = operationID c (n + 1) kind" "haRevision ack = hcExpectedRevision h + 1" using committed(2) n by (simp_all add: commitAck_def)
    moreover have "op_number c (n + 1) (operationID c (n + 1) kind)" by (rule op_number_new [OF n(1)])
    ultimately have "\<forall>x\<in>run_records ?r d. op_number c (n + 1) (orOperationID x)" "haRevision ack = hcExpectedRevision h + 1" using O m by force+
    then show ?thesis using committed(7) by (elim disjE exE) simp_all
  qed
  then show "run_good su c base (n + 1) C es w'" and "\<And>a. hr = Inr a \<Longrightarrow> haRevision a = hcExpectedRevision h + 1"
    using g CommitHistory_keeps [OF d] by (auto simp: run_good_def w' logged_def)
qed

lemma good_next: "run_good su c base n C es w \<Longrightarrow> run_good su c base (n + 1) C es w"
  by (auto simp: run_good_def intro: op_number_mono)

lemmas runtime_defs = fileRuntime_def fileStore_def fileQueue_def

interpretation file_run: run_world "fileRuntime su" cfg c "run_good su c base" for su cfg c base
proof unfold_locales
  fix n :: int and C es w assume "run_good su c base n C es w"
  then show "safeDigest (capDigest (reCapability c)) \<and> safeDigest (capToolDigest (reCapability c)) \<and>
      safeDigest (capPromptDigest (reCapability c)) \<and> safeDigest (capSkillsDigest (reCapability c)) \<and>
      (capAgentsDigest (reCapability c) = [] \<or> safeDigest (capAgentsDigest (reCapability c)))"
    by (simp add: run_good_def digests_ok_def)
next
  fix ms b w g w' n C es call
  assume "rtGenerate (fileRuntime su) ms b w = (Inr g, w')" "run_good su c base n C es w" "call \<in> set (msgToolCalls (genMessage g))"
  then have "suGenerate su (rwTick w) ms b = Inr g" "well_behaved su" "call \<in> set (msgToolCalls (genMessage g))"
    by (simp_all add: runtime_defs reading_def run_good_def)
  then show "callID call \<noteq> []" unfolding well_behaved_def by (metis image_eqI)
next
  fix q runID turnID k w claim w' n C es
  assume "rtQueue (fileRuntime su) = Some q" "iqClaim q runID turnID k w = (Inr claim, w')" "run_good su c base n C es w"
  then show "if clID claim = [] then run_good su c base n C es w' else clID claim \<notin> C \<and> run_good su c base n (insert (clID claim) C) es w'"
    by (intro good_claim_fresh) (auto simp: runtime_defs)
next
  fix st h w hr w' n C es kind
  assume "rtStore (fileRuntime su) = Some st" "stCommit st h w = (hr, w')" "run_good su c base n C es w" "0 \<le> n" "hcRunID h = reRunID c"
    "hcOperationID h = operationID c (n + 1) kind"
  then show "run_good su c base (n + 1) C es w' \<and> (\<forall>a. hr = Inr a \<longrightarrow> haRevision a = hcExpectedRevision h + 1)"
    using good_commit [of su h w hr w' c base n C es kind] by (auto simp: runtime_defs)
next
  fix st e w er w' n C es
  assume "rtStore (fileRuntime su) = Some st" "stRecord st e w = (er, w')" "run_good su c base n C es w"
  then show "run_good su c base n C (es @ [e]) w'" by (intro good_record) (auto simp: runtime_defs)
next
  fix calls w rs w' n C es
  assume "rtExecuteBatch (fileRuntime su) calls w = (rs, w')" "run_good su c base n C es w"
  then show "map resToolCallID rs = map callID calls" by (auto simp: runtime_defs reading_def run_good_def well_behaved_def)
qed (auto simp: runtime_defs intro: reading_good on_inbox_good good_next)

section \<open>A new run\<close>

text \<open>The id of a run that is started in \<open>w\<close>: the configured one, else one drawn after the prompt was composed.\<close>

definition new_run_id :: "surroundings \<Rightarrow> engineConfig \<Rightarrow> runWorld \<Rightarrow> string" where
  "new_run_id su cfg w = (if TrimSpace (cfgRunID cfg) = [] then newID ''run'' (ent (suEnv su (rwTick w + 1)) 0) else TrimSpace (cfgRunID cfg))"

lemma file_calls:
  "rtEntropy (fileRuntime su) x = (ent (suEnv su (rwTick x)) 0, x\<lparr>rwTick := rwTick x + 1\<rparr>)"
  "rtNow (fileRuntime su) x = (now (suEnv su (rwTick x)), x\<lparr>rwTick := rwTick x + 1\<rparr>)"
  "rtRevision (fileRuntime su) x = (suRevision su (rwTick x), x\<lparr>rwTick := rwTick x + 1\<rparr>)"
  "rtCompose (fileRuntime su) d p x = (suCompose su (rwTick x) d p, x\<lparr>rwTick := rwTick x + 1\<rparr>)"
  by (simp_all add: fileRuntime_def reading_def)

lemma RunPrompt_starts:
  assumes "RunPrompt (fileRuntime su) cfg prompt w = (out, events, w')"
  obtains (refused) err where "out = Some (zeroRunResult, Some err)" and "events = []" and "rwRuns w' = rwRuns w"
      and "TrimSpace prompt = [] \<or> (\<exists>err. suCompose su (rwTick w) (cfgWorkDir cfg) (cfgSystemPrompt cfg) = Inl err)"
  | (started) c ms t w1 j snapshot where "executeRun (fileRuntime su) cfg c False 0 (initialState c ms None 0 t w1) = (out, events, w')"
      and "rwRuns w1 = rwRuns w" and "reRunID c = new_run_id su cfg w" and "suCompose su (rwTick w) (cfgWorkDir cfg) (cfgSystemPrompt cfg) = Inr snapshot"
      and "reCapability c = combinedCapability (suRevision su j) snapshot" and "TrimSpace prompt \<noteq> []"
      and "ms = [systemMessage (psSystemPrompt snapshot), userMessage prompt]" and "rwInbox w1 = rwInbox w"
proof (cases "TrimSpace prompt = [] \<or> (\<exists>err. suCompose su (rwTick w) (cfgWorkDir cfg) (cfgSystemPrompt cfg) = Inl err)")
  case True
  then show thesis using assms refused by (auto simp: RunPrompt_def composePrompt_def refuse_def file_calls split: if_splits)
next
  case False
  then obtain snapshot where sn: "suCompose su (rwTick w) (cfgWorkDir cfg) (cfgSystemPrompt cfg) = Inr snapshot" and pr: "TrimSpace prompt \<noteq> []"
    by (metis sum.exhaust)
  let ?k = "rwTick w + (if TrimSpace (cfgRunID cfg) = [] then 2 else 1)"
  have id: "(if TrimSpace (cfgRunID cfg) = [] then (case rtEntropy (fileRuntime su) (w\<lparr>rwTick := rwTick w + 1\<rparr>) of (e, w) \<Rightarrow> (newID ''run'' e, w))
      else (TrimSpace (cfgRunID cfg), w\<lparr>rwTick := rwTick w + 1\<rparr>)) = (new_run_id su cfg w, w\<lparr>rwTick := ?k\<rparr>)"
    by (simp add: new_run_id_def file_calls)
  from assms sn pr have "runEngine (fileRuntime su) cfg prompt [systemMessage (psSystemPrompt snapshot), userMessage prompt] snapshot None
      (w\<lparr>rwTick := rwTick w + 1\<rparr>) = (out, events, w')"
    by (simp add: RunPrompt_def composePrompt_def file_calls)
  then show thesis
    unfolding runEngine_def Let_def id
    unfolding prod.case option.case sum.case file_calls not_True_eq_False simp_thms if_False
    by (rule started [OF _ _ _ sn _ pr]) simp_all
qed

lemma initial_good:
  assumes "well_behaved su" and "run_records (reRunID c) (rwRuns w) = {}" and "digests_ok (reCapability c)"
    and "base = log_lines (rdTraces (rwRuns w)) (tracePath (reRunID c))"
  shows "file_run.inv_at c su base (\<lambda>_. 0) (initialState c ms None 0 t w)"
  using assms unfolding file_run.inv_at_def run_inv_at_def
  by (simp add: initialState_def Let_def event_counts snapshot_inv_def snapshot_digest_def component_def last_sequence_def run_good_def logged_def)

text \<open>C1. The trace of a new run is in order, whatever fails: for any errors of the file system, of the model and of the context, any inputs that
  arrive meanwhile and any clock, \<open>Run\<close> returns (it never indexes past the calls of a batch), its last event is \<open>run_completed\<close>, and \<open>Replay\<close>
  accepts the events it emitted, in the order it emitted them, with the result it returns; a blank prompt or a failed composition of the system
  prompt is refused with an error, and then nothing is stored.\<close>

theorem new_run_replays:
  assumes "well_behaved su" and "run_records (new_run_id su cfg w) (rwRuns w) = {}" and "RunPrompt (fileRuntime su) cfg prompt w = (out, events, w')"
  shows "if TrimSpace prompt = [] \<or> (\<exists>err. suCompose su (rwTick w) (cfgWorkDir cfg) (cfgSystemPrompt cfg) = Inl err)
    then (\<exists>err. out = Some (zeroRunResult, Some err) \<and> events = [] \<and> rwRuns w' = rwRuns w) else
    (\<exists>res er es ev. out = Some (res, er) \<and> rrRunID res = new_run_id su cfg w \<and> events = es @ [ev] \<and> evType ev = EventCompleted \<and>
       Replay \<lparr>trEvents = events, trResult = res\<rparr> = Inr (summary_of \<lparr>trEvents = events, trResult = res\<rparr>))"
  using assms(3)
proof (cases rule: RunPrompt_starts)
  case (started c ms t w1 j snapshot)
  from assms(1) started(4,5) have "digests_ok (reCapability c)" by (auto simp: well_behaved_def)
  with started(2,3) assms(1,2) have "file_run.inv_at c su (log_lines (rdTraces (rwRuns w)) (tracePath (reRunID c))) (\<lambda>_. 0)
    (initialState c ms None 0 t w1)" by (intro initial_good) simp_all
  from file_run.execute_in_order [OF started(1) this] obtain res er sent where r: "out = Some (res, er)" "rrRunID sent = reRunID c"
    "trace_ok \<lparr>trEvents = events, trResult = sent\<rparr>" "res = sent \<or> res = sent\<lparr>rrReason := TerminalPersistenceError\<rparr>"
    "\<exists>es ev. events = es @ [ev] \<and> evType ev = EventCompleted" by metis
  from r(3,4) have "trace_ok \<lparr>trEvents = events, trResult = res\<rparr>" by (auto simp: trace_ok_def result_ok_def)
  moreover have "rrRunID res = new_run_id su cfg w" using r(2,4) started(3) by auto
  ultimately show ?thesis using r(1,5) started(4,6) replay_computes [of "\<lparr>trEvents = events, trResult = res\<rparr>"] by (auto split: sum.splits)
qed simp

section \<open>What the file keeps of an event\<close>

text \<open>Two events that \<open>Replay\<close> cannot tell apart: numbers below \<open>2 ^ 53\<close> survive the way through float64.\<close>

definition same_event :: "Event \<Rightarrow> Event \<Rightarrow> bool" where
  "same_event e v \<longleftrightarrow> evType v = evType e \<and> evRunID v = evRunID e \<and> evSequence v = evSequence e \<and>
     callID (evToolCall v) = callID (evToolCall e) \<and> evToolResult v = evToolResult e \<and>
     (\<forall>k. k \<noteq> ''reason'' \<longrightarrow> metadataString (evMetadata v) k = metadataString (evMetadata e) k) \<and>
     (\<forall>k i. metadataInt64 (evMetadata e) k = (i, True) \<longrightarrow> \<bar>i\<bar> < 2 ^ 53 \<longrightarrow> metadataInt64 (evMetadata v) k = (i, True))"

lemma wire_list_all2: "wire_list f xs = Some ys \<longleftrightarrow> list_all2 (\<lambda>x y. f x = Some y) xs ys"
proof (induction xs arbitrary: ys)
  case (Cons x xs)
  show ?case using Cons.IH by (cases ys; cases "wire_list f xs") (auto split: option.splits)
qed auto

lemma mget_wire_meta:
  assumes "wire_meta md = Some md'"
  shows "mget md' k = (case mget md k of None \<Rightarrow> None | Some x \<Rightarrow> wire_any x)"
  using assms
proof (induction md arbitrary: md')
  case Nil
  then show ?case by (simp add: wire_meta_def)
next
  case (Cons p md)
  obtain i x where p: "p = (i, x)" by (cases p)
  from Cons.prems obtain y m where m: "wire_any x = Some y" "wire_meta md = Some m" "md' = (i, y) # m"
    by (auto simp: wire_meta_def p split: option.splits)
  from Cons.IH [OF m(2)] m(1) show ?case by (simp add: m(3) p)
qed

lemma plain_mget: "list_all plain_entry md \<Longrightarrow> mget md k = Some x \<Longrightarrow> plain_entry (k, x)"
  by (metis list_all_iff map_of_SomeD)

lemma wire_same:
  assumes "wire_event e = Some v" and "plain_event e"
  shows "same_event e v"
proof -
  from assms(1) have w: "wire_meta (evMetadata e) = Some (evMetadata v)" "wire_call (evToolCall e) = Some (evToolCall v)"
    and f: "evType v = evType e" "evRunID v = evRunID e" "evSequence v = evSequence e" "evToolResult v = evToolResult e"
    by (auto simp: wire_event_def split: option.splits)
  note mg = mget_wire_meta [OF w(1)]
  have "metadataString (evMetadata v) k = metadataString (evMetadata e) k" if "k \<noteq> ''reason''" for k
  proof (cases "mget (evMetadata e) k")
    case (Some x)
    with assms(2) have "plain_entry (k, x)" unfolding plain_event_def by (rule plain_mget)
    with that Some show ?thesis by (cases x) (auto simp: metadataString_def mg plain_entry_def split: option.splits float64.splits)
  qed (simp add: metadataString_def mg)
  moreover have "metadataInt64 (evMetadata v) k = (i, True)" if i: "metadataInt64 (evMetadata e) k = (i, True)" and b: "\<bar>i\<bar> < 2 ^ 53" for k i
  proof -
    from i obtain x where x: "mget (evMetadata e) k = Some x" by (cases "mget (evMetadata e) k") (simp_all add: metadataInt64_def)
    with assms(2) have "plain_entry (k, x)" unfolding plain_event_def by (rule plain_mget)
    then have "x = AnyInt i \<or> x = AnyInt64 i" using i x by (cases x) (auto simp: metadataInt64_def plain_entry_def)
    then have "mget (evMetadata v) k = Some (AnyFloat (float_of_int i))" using mg [of k] x by auto
    then show ?thesis using float_of_int_exact [OF b] by (simp add: metadataInt64_def)
  qed
  moreover have "callID (evToolCall v) = callID (evToolCall e)"
    using w(2) unfolding wire_call_def by (auto split: option.splits dest!: sym [of _ "evToolCall v"])
  ultimately show ?thesis using f by (simp add: same_event_def)
qed

definition same_events :: "Event list \<Rightarrow> Event list \<Rightarrow> bool" where
  "same_events es vs \<longleftrightarrow> list_all2 same_event es vs"

lemma same_type: "same_events es vs \<Longrightarrow> same_events (of_type t es) (of_type t vs)"
  unfolding same_events_def by (induction rule: list_all2_induct) (auto simp: of_type_def same_event_def)

lemma same_map: "same_events es vs \<Longrightarrow> (\<And>e v. same_event e v \<Longrightarrow> f v = f e) \<Longrightarrow> map f vs = map f es"
  unfolding same_events_def by (induction rule: list_all2_induct) auto

lemma same_filter: "same_events es vs \<Longrightarrow> (\<And>e v. same_event e v \<Longrightarrow> P v = P e) \<Longrightarrow> same_events (filter P es) (filter P vs)"
  unfolding same_events_def by (induction rule: list_all2_induct) auto

lemma same_length: "same_events es vs \<Longrightarrow> length vs = length es"
  unfolding same_events_def by (simp add: list_all2_lengthD)

lemma same_str: "same_event e v \<Longrightarrow> k \<noteq> ''reason'' \<Longrightarrow> str k v = str k e \<and> has_str k v = has_str k e"
  by (simp add: same_event_def str_def has_str_def)

lemma same_last:
  assumes "same_events es vs" and "\<And>e v. same_event e v \<Longrightarrow> f v = f e"
  shows "(case rev vs of [] \<Rightarrow> [] | v # _ \<Rightarrow> f v) = (case rev es of [] \<Rightarrow> [] | e # _ \<Rightarrow> f e)"
proof (cases es rule: rev_cases)
  case Nil
  then show ?thesis using assms(1) by (simp add: same_events_def)
next
  case (snoc xs x)
  then obtain ys y where "vs = ys @ [y]" "same_event x y"
    using assms(1) by (auto simp: same_events_def list_all2_append1 list_all2_Cons1)
  with snoc assms(2) show ?thesis by simp
qed

lemma same_counts:
  assumes "same_events es vs"
  shows "commits vs = commits es" and "committed_ids vs = committed_ids es" and "claimed_ids vs = claimed_ids es" and "acked_ids vs = acked_ids es"
    and "started vs i = started es i" and "answered vs i = answered es i" and "last_sequence vs = last_sequence es"
    and "snapshot_digest vs = snapshot_digest es"
    and "k \<in> {''tool_digest'', ''prompt_digest'', ''agents_digest'', ''skills_digest''} \<Longrightarrow> component k vs = component k es"
    and "map (callID \<circ> evToolCall) (of_type EventToolStarted vs) = map (callID \<circ> evToolCall) (of_type EventToolStarted es)"
proof -
  note T = same_type [OF assms]
  show "commits vs = commits es" unfolding commits_def by (rule same_length [OF T])
  show "committed_ids vs = committed_ids es" "claimed_ids vs = claimed_ids es" "acked_ids vs = acked_ids es"
    unfolding committed_ids_def claimed_ids_def acked_ids_def by (rule same_map [OF T], simp add: same_str)+
  show "started vs i = started es i" "answered vs i = answered es i"
    unfolding started_def answered_def by (rule same_length [OF same_filter [OF T]], simp add: same_event_def)+
  have "length vs = length es" "map evSequence vs = map evSequence es"
    by (rule same_length [OF assms], rule same_map [OF assms]) (simp add: same_event_def)
  then show "last_sequence vs = last_sequence es" unfolding last_sequence_def by (metis last_map list.size(3) length_0_conv)
  show "snapshot_digest vs = snapshot_digest es" unfolding snapshot_digest_def by (rule same_last [OF T]) (simp add: same_str)
  show "component k vs = component k es" if "k \<in> {''tool_digest'', ''prompt_digest'', ''agents_digest'', ''skills_digest''}"
    unfolding component_def by (rule same_last [OF same_filter [OF T]]) (use that in \<open>auto simp: same_str has_components_def\<close>)
  show "map (callID \<circ> evToolCall) (of_type EventToolStarted vs) = map (callID \<circ> evToolCall) (of_type EventToolStarted es)"
    by (rule same_map [OF T]) (simp add: same_event_def)
qed

lemma same_fits:
  assumes "same_events es vs" and "same_event e v" and "event_fits es e" and "int (commits es) + 1 < 2 ^ 53"
  shows "event_fits vs v"
proof -
  note C = same_counts [OF assms(1)]
  have t: "evType v = evType e" "callID (evToolCall v) = callID (evToolCall e)" "evToolResult v = evToolResult e"
    using assms(2) by (simp_all add: same_event_def)
  have S: "str k v = str k e" "has_str k v = has_str k e" if "k \<noteq> ''reason''" for k using same_str [OF assms(2) that] by simp_all
  have I: "metadataInt64 (evMetadata v) k = (i, True)" if "metadataInt64 (evMetadata e) k = (i, True)" "0 \<le> i" "i < 2 ^ 53" for k i
    using assms(2) that by (simp add: same_event_def)
  have cap: "capability_ok vs v = capability_ok es e"
    by (simp add: capability_ok_def components_ok_def has_components_def S C)
  show ?thesis
  proof (cases "evType e = EventCommitted \<or> evType e = EventInputAcked")
    case False
    then show ?thesis using assms(3) by (cases "evType e") (simp_all add: event_fits_def t S C cap)
  next
    case True
    then show ?thesis
    proof
      assume e: "evType e = EventCommitted"
      with assms(3,4) have "metadataInt64 (evMetadata v) ''revision'' = (int (commits es) + 1, True)" by (intro I) (simp_all add: event_fits_def)
      with e assms(3) show ?thesis by (simp add: event_fits_def t S C)
    next
      assume e: "evType e = EventInputAcked"
      with assms(3) obtain r where r: "metadataInt64 (evMetadata e) ''history_revision'' = (r, True)" "0 < r" "r \<le> int (commits es)"
        by (auto simp: event_fits_def split: prod.splits)
      with assms(4) have "metadataInt64 (evMetadata v) ''history_revision'' = (r, True)" by (intro I) simp_all
      with e assms(3) r show ?thesis by (simp add: event_fits_def t S C)
    qed
  qed
qed

lemma commits_le: "commits es \<le> length es"
  by (simp add: commits_def of_type_def)

lemma same_events_ok:
  assumes "same_events pre qre" and "same_events es vs" and "events_ok r pre es" and "int (length pre + length es) + 1 < 2 ^ 53"
  shows "events_ok r qre vs"
  using assms
proof (induction es arbitrary: pre qre vs)
  case Nil
  then show ?case by (simp add: same_events_def)
next
  case (Cons e es)
  from Cons.prems(2) obtain v us where v: "vs = v # us" "same_event e v" "same_events es us" by (auto simp: same_events_def list_all2_Cons1)
  from Cons.prems(3) have e: "evRunID e = r" "last_sequence pre < evSequence e" "event_fits pre e" "events_ok r (pre @ [e]) es"
    by (simp_all add: event_ok_def)
  have "int (commits pre) + 1 < 2 ^ 53" using Cons.prems(4) commits_le [of pre] by linarith
  from same_fits [OF Cons.prems(1) v(2) e(3) this] have "event_ok r qre v"
    using e(1,2) v(2) same_counts(7) [OF Cons.prems(1)] by (simp add: event_ok_def same_event_def)
  moreover have "events_ok r (qre @ [v]) us"
    by (rule Cons.IH [OF _ v(3) e(4)]) (use Cons.prems(1,4) v(2) in \<open>simp_all add: same_events_def list_all2_appendI\<close>)
  ultimately show ?case by (simp add: v(1))
qed

lemma wire_trace_ok:
  assumes "trace_ok \<lparr>trEvents = es, trResult = r\<rparr>" and "list_all plain_event es" and "wire_list wire_event es = Some vs" and "wire_result r = Some q"
    and "int (length es) + 1 < 2 ^ 53"
  shows "trace_ok \<lparr>trEvents = vs, trResult = q\<rparr>"
proof -
  have "list_all2 (\<lambda>e v. wire_event e = Some v) es vs" using assms(3) by (simp add: wire_list_all2)
  then have S: "same_events es vs" using assms(2) unfolding same_events_def by (induction rule: list_all2_induct) (auto intro: wire_same)
  have q: "rrRunID q = rrRunID r" "rrCapability q = rrCapability r" "rrHistoryRevision q = rrHistoryRevision r" "rrReason q = rrReason r"
    using assms(4) by (auto simp: wire_result_def split: option.splits)
  have "events_ok (rrRunID q) [] vs"
    by (rule same_events_ok [OF _ S, where pre = "[]"]) (use assms(1,5) in \<open>simp_all add: trace_ok_def q same_events_def\<close>)
  moreover have "result_ok q vs" using assms(1) unfolding trace_ok_def result_ok_def same_counts(10) [OF S]
    by (simp add: q same_counts [OF S])
  ultimately show ?thesis by (simp add: trace_ok_def)
qed

section \<open>The stored trace of a new run\<close>

lemma events_ok_run: "events_ok r pre es \<Longrightarrow> \<forall>x\<in>set es. evRunID x = r"
  by (induction es arbitrary: pre) (auto simp: event_ok_def)

lemma complete_lines:
  assumes "stComplete (fileStore su) sent u = (e, w)" and "calm su" and "safeID (rrRunID sent)" and "wire_result sent = Some q"
    and "log_lines (rdTraces (rwRuns u)) (tracePath (rrRunID sent)) = ls"
  shows "mget (rdTraces (rwRuns w)) (tracePath (rrRunID sent)) = Some (ls @ [Record (resultItem q)])"
proof -
  let ?k = "rwTick u"
  from assms(2) have ok: "suAppend su ?k = Ap_ok" by (simp add: calm_def)
  from assms(1) ok have "rdTraces (rwRuns w) = rdTraces (snd (CompleteRun Ap_ok (wio (suEnv su ?k)) sent (rwRuns u)))"
    by (auto simp: fileStore_def on_runs_def split: prod.splits)
  then show ?thesis using CompleteRun_ok(1) [OF assms(3,4)] assms(5) by simp
qed

text \<open>C2. What a new run leaves on the disk is a trace that \<open>Replay\<close> accepts, and its events are those that the run emitted: when the appends to the
  trace succeed (any other write may fail, those of the operation log, the history and the result file among them) and the values have a JSON
  text, \<open>LoadTrace\<close> gives the events back and the result up to its reason, with numbers that became float64, and \<open>Replay\<close> accepts them. The stored
  reason is the returned one, unless the run returns a persistence error because its completion could not be stored: then the trace keeps the reason the run had until then.
  Revisions below \<open>2 ^ 53\<close> are exact in float64, so fewer events than that suffice.\<close>

theorem stored_trace_replays:
  assumes "well_behaved su" and "calm su" and "safeID r" and "new_run_id su cfg w = r"
    and "run_records r (rwRuns w) = {}" and "log_lines (rdTraces (rwRuns w)) (tracePath r) = []"
    and "RunPrompt (fileRuntime su) cfg prompt w = (Some (res, er), events, w')" and "events \<noteq> []" and "int (length events) + 1 < 2 ^ 53"
    and "wire_list wire_event events = Some vs" and "wire_result res = Some q"
  shows "\<exists>sent s. LoadTrace r (rwRuns w') = Inr \<lparr>trEvents = vs, trResult = sent\<rparr>
    \<and> (sent = q \<or> (rrReason q = TerminalPersistenceError \<and> sent\<lparr>rrReason := rrReason q\<rparr> = q)) \<and> Replay \<lparr>trEvents = vs, trResult = sent\<rparr> = Inr s"
  using assms(7)
proof (cases rule: RunPrompt_starts)
  case (started c ms t w1 j snapshot)
  let ?base = "log_lines (rdTraces (rwRuns w)) (tracePath (reRunID c))"
  from assms(1) started(4,5) have "digests_ok (reCapability c)" by (auto simp: well_behaved_def)
  with started(2,3) assms(1,4,5) have "file_run.inv_at c su ?base (\<lambda>_. 0) (initialState c ms None 0 t w1)" by (intro initial_good) simp_all
  then obtain res' er' sent u n C where o: "Some (res, er) = Some (res', er')" "rrRunID sent = reRunID c"
    "trace_ok \<lparr>trEvents = events, trResult = sent\<rparr>" "res' = sent \<or> res' = sent\<lparr>rrReason := TerminalPersistenceError\<rparr>"
    "run_good su c ?base n C events u" "list_all plain_event events"
    "case rtStore (fileRuntime su) of None \<Rightarrow> w' = u | Some st \<Rightarrow> \<exists>e. stComplete st sent u = (e, w')"
    by (rule file_run.execute_in_order [OF started(1)]) blast
  note r = o(2,3) o(4) [folded o(1) [simplified, THEN conjunct1]] o(5-7)
  have c: "reRunID c = r" using started(3) assms(4) by simp
  obtain v where v: "wire_result sent = Some v" "v = q \<or> (rrReason q = TerminalPersistenceError \<and> v\<lparr>rrReason := rrReason q\<rparr> = q)"
    using r(3) assms(11) by (fastforce simp: wire_result_def split: option.splits)
  from r(6) obtain e where e: "stComplete (fileStore su) sent u = (e, w')" by (auto simp: fileRuntime_def)
  have ev: "\<forall>x\<in>set events. evRunID x = r" using events_ok_run [of r "[]" events] r(1,2) c by (simp add: trace_ok_def)
  have "log_lines (rdTraces (rwRuns u)) (tracePath (rrRunID sent)) = map (Record \<circ> eventItem) vs"
    using r(1,4) c assms(2,3,6,10) ev by (simp add: run_good_def logged_def)
  from complete_lines [OF e assms(2) _ v(1) this] have f: "mget (rdTraces (rwRuns w')) (tracePath r) =
    Some (map (Record \<circ> eventItem) vs @ [Record (resultItem v)])" using r(1) c assms(3) by simp
  have "rrRunID v = r" using wire_result_fields [OF v(1)] r(1) c by simp
  with f have "LoadTrace r (rwRuns w') = Inr \<lparr>trEvents = vs, trResult = v\<rparr>"
    using assms(3) safeID_nonempty [OF assms(3)] by (simp add: LoadTrace_def validateID_def LoadTraceFile_def loadLines_events resultItem_def)
  moreover from replay_computes [of "\<lparr>trEvents = vs, trResult = v\<rparr>"] wire_trace_ok [OF r(2,5) assms(10) v(1) assms(9)]
  have "\<exists>s. Replay \<lparr>trEvents = vs, trResult = v\<rparr> = Inr s" by (auto split: sum.splits)
  ultimately show ?thesis using v(2) by blast
qed (use assms(8) in simp)

section \<open>An example\<close>

definition demo_digest :: string where "demo_digest = replicate 64 CHR ''a''"

definition demo_surroundings :: surroundings where
  "demo_surroundings = \<lparr>suEnv = (\<lambda>k. \<lparr>clk = (\<lambda>n. 100 + int k), wio = Io_ok, ent = (\<lambda>n. (None, int k)), cerr = None\<rparr>), suAppend = (\<lambda>k. Ap_ok), suLedger = (\<lambda>k. Ap_ok),
     suArrive = (\<lambda>k d. d),
     suCompose = (\<lambda>k d p. Inr \<lparr>psSystemPrompt = p, psDigest = demo_digest, psAgentsDigest = [], psSkillsDigest = demo_digest\<rparr>),
     suRevision = (\<lambda>k. zeroCapability\<lparr>capSequence := 1, capDigest := demo_digest\<rparr>),
     suGenerate = (\<lambda>k ms b. Inr \<lparr>genMessage = zeroChatMessage\<lparr>msgContent := ''done''\<rparr>, genUsage = zeroUsage\<rparr>),
     suBatch = (\<lambda>k calls. map (\<lambda>c. zeroToolResult\<lparr>resToolCallID := callID c\<rparr>) calls), suCompact = None\<rparr>"

definition demo_config :: engineConfig where
  "demo_config = \<lparr>cfgWorkDir = ''/w'', cfgSystemPrompt = ''help'', cfgEnableThinking = False, cfgPlanMode = False, cfgMaxTurns = 2, cfgMaxTokens = 0,
     cfgMaxRepeatedCall = 3, cfgRunID = ''run-1'', cfgMemoryScope = [], cfgParentRunID = [], cfgParentTurnID = []\<rparr>"

definition demo_world :: runWorld where
  "demo_world = \<lparr>rwRuns = emptyRunDir, rwInbox = [], rwTick = 0\<rparr>"

lemma demo_run_id [simp]: "TrimSpace ''run-1'' = ''run-1''" "TrimSpace ''hello'' = ''hello''" "safeID ''run-1''"
  by (rule TrimSpace_safeID, simp add: char_eval)+ (simp add: char_eval)

lemma demo_well_behaved: "well_behaved demo_surroundings"
proof -
  have "k = m" if "claim_id demo_surroundings k = claim_id demo_surroundings m" for k m
  proof -
    from that have "dec_int (int k) = dec_int (int m)" by (simp add: claim_id_def demo_surroundings_def newID_def)
    then have "digits_value (dec_nat k) = digits_value (dec_nat m)" by (simp add: dec_int_def)
    then show ?thesis by (simp add: digits_value_dec_nat)
  qed
  then have "inj (claim_id demo_surroundings)" by (rule injI)
  moreover have "safeDigest demo_digest" unfolding demo_digest_def by (rule demo_digest)
  ultimately show ?thesis
    by (auto simp: well_behaved_def demo_surroundings_def zeroChatMessage_def digests_ok_def combinedCapability_def zeroCapability_def)
qed

theorem new_run_replays_witness:
  "\<exists>res er es ev w. RunPrompt (fileRuntime demo_surroundings) demo_config ''hello'' demo_world = (Some (res, er), es @ [ev], w) \<and> rrRunID res = ''run-1'' \<and>
     evType ev = EventCompleted \<and> Replay \<lparr>trEvents = es @ [ev], trResult = res\<rparr> = Inr (summary_of \<lparr>trEvents = es @ [ev], trResult = res\<rparr>)"
proof -
  obtain out events w where r: "RunPrompt (fileRuntime demo_surroundings) demo_config ''hello'' demo_world = (out, events, w)" by (metis prod.exhaust)
  have i: "new_run_id demo_surroundings demo_config demo_world = ''run-1''" by (simp add: new_run_id_def demo_config_def)
  have e: "run_records ''run-1'' (rwRuns demo_world) = {}"
    by (simp add: demo_world_def emptyRunDir_def run_records_def current_ack_def readJSON_def log_lines_def)
  have c: "suCompose demo_surroundings k d p \<noteq> Inl err" for k d p err by (simp add: demo_surroundings_def)
  have t: "TrimSpace ''hello'' \<noteq> []" by simp
  from new_run_replays [OF demo_well_behaved _ r] show ?thesis unfolding i using e c t r by auto
qed

text \<open>A run on a full disk: no commit succeeds, the run ends at its admission, and its trace holds the end of the run.\<close>

definition full_disk :: surroundings where
  "full_disk = demo_surroundings\<lparr>suEnv := \<lambda>k. \<lparr>clk = (\<lambda>n. 100), wio = Io_early, ent = (\<lambda>n. (None, int k)), cerr = None\<rparr>\<rparr>"

lemma full_disk_runtime: "fileRuntime full_disk = r \<Longrightarrow>
   rtNow r w = (100, w\<lparr>rwTick := rwTick w + 1\<rparr>) \<and> rtQueue r = Some (fileQueue full_disk) \<and> rtStore r = Some (fileStore full_disk)"
  by (auto simp: fileRuntime_def reading_def full_disk_def)

lemma full_disk_commit:
  assumes "rwRuns (egWorld s) = emptyRunDir"
  obtains err w where "commitHistoryAs (fileRuntime full_disk) cfg c kind turn k s = (Some err, s\<lparr>egOpSequence := egOpSequence s + 1, egWorld := w\<rparr>)"
    and "rwRuns w = emptyRunDir" and "rwInbox w = rwInbox (egWorld s)"
proof -
  let ?s = "s\<lparr>egOpSequence := egOpSequence s + 1, egWorld := (egWorld s)\<lparr>rwTick := rwTick (egWorld s) + 1\<rparr>\<rparr>"
  have d: "\<exists>err. CommitHistory Ap_ok \<lparr>clk = (\<lambda>n. 100), wio = Io_early, ent = (\<lambda>n. (None, int j)), cerr = None\<rparr> h emptyRunDir = (Inl err, emptyRunDir)" for j h
    by (auto simp: CommitHistory_def Let_def emptyRunDir_def readHistory_def readJSON_def log_lines_def writeHistory_def atomicWrite_def zeroAck_def
        split: option.splits)
  show thesis
  proof (cases "historyFingerprint kind (commitCheckpoint cfg c turn k 100 ?s)")
    case (Inl err)
    then show thesis using assms that [of err "(egWorld s)\<lparr>rwTick := rwTick (egWorld s) + 1\<rparr>"] full_disk_runtime [OF refl]
      by (simp add: commitHistoryAs_def Let_def on_world_def)
  next
    case (Inr f)
    let ?h = "\<lparr>hcRunID = reRunID c, hcOperationID = operationID c (egOpSequence s + 1) kind, hcFingerprint = f, hcExpectedRevision = egRevision s,
      hcCheckpoint = (commitCheckpoint cfg c turn k 100 ?s)\<lparr>ckLastOperationID := operationID c (egOpSequence s + 1) kind, ckLastFingerprint := f\<rparr>\<rparr>"
    obtain err where "CommitHistory Ap_ok \<lparr>clk = (\<lambda>n. 100), wio = Io_early, ent = (\<lambda>n. (None, int (rwTick (egWorld s) + 1))), cerr = None\<rparr> ?h emptyRunDir
      = (Inl err, emptyRunDir)" using d by blast
    then show thesis using assms Inr that [of err "(egWorld s)\<lparr>rwTick := rwTick (egWorld s) + 2\<rparr>"] full_disk_runtime [OF refl]
      by (simp add: commitHistoryAs_def Let_def on_world_def fileStore_def on_runs_def full_disk_def demo_surroundings_def)
  qed
qed

definition disk_event :: "runConst \<Rightarrow> ChatMessage list \<Rightarrow> Event" where
  "disk_event c ms = (newEvent EventCompleted 0)\<lparr>evMetadata := [(''reason'', AnyReason TerminalPersistenceError)], evRunID := reRunID c,
     evSequence := 1, evTimestamp := 100, evMessages := ms, evUsage := zeroUsage\<rparr>"

lemma full_disk_execute:
  assumes "rwRuns w = emptyRunDir" and "rwInbox w = []" and "reRunID c = ''run-1''"
  obtains res er w' where "executeRun (fileRuntime full_disk) cfg c False 0 (initialState c ms None 0 t w) = (Some (res, er), [disk_event c ms], w')"
    and "rrMessages res = ms" and "rrFinalMessage res = zeroChatMessage" and "rrReason res = TerminalPersistenceError"
proof -
  let ?s = "initialState c ms None 0 t w"
  have rc: "\<exists>w1. iqReconcile (fileQueue full_disk) (reRunID c) (egClaims ?s) (egWorld ?s) = (None, w1) \<and> rwRuns w1 = emptyRunDir \<and> rwInbox w1 = []"
    using assms by (simp add: fileQueue_def on_inbox_def Reconcile_def validateID_def loadInbox_def readJSON_def initialState_def Let_def full_disk_def
        demo_surroundings_def store_simps char_eval)
  then obtain w1 where w1: "iqReconcile (fileQueue full_disk) (reRunID c) (egClaims ?s) (egWorld ?s) = (None, w1)" "rwRuns w1 = emptyRunDir" by blast
  obtain e1 w2 where c1: "commitHistoryAs (fileRuntime full_disk) cfg c ''admission'' 0 1 (?s\<lparr>egWorld := w1\<rparr>) =
      (Some e1, ?s\<lparr>egOpSequence := 1, egWorld := w2\<rparr>)" "rwRuns w2 = emptyRunDir"
    by (rule full_disk_commit [of "?s\<lparr>egWorld := w1\<rparr>" cfg c "''admission''" 0 1]) (use w1(2) in \<open>auto simp: initialState_def Let_def\<close>)
  have st: "startRun (fileRuntime full_disk) cfg c False 0 ?s = (Inl (Finish TerminalPersistenceError (Some e1)), ?s\<lparr>egOpSequence := 1, egWorld := w2\<rparr>)"
    using w1(1) c1(1) full_disk_runtime [OF refl] by (simp add: startRun_def andThen_def on_world_def orPersist_def commitKind_def)
  let ?s1 = "?s\<lparr>egOpSequence := 1, egWorld := w2\<lparr>rwTick := rwTick w2 + 1\<rparr>, egResult := (egResult ?s)\<lparr>rrReason := TerminalPersistenceError,
     rrMessages := egMessages ?s, rrCompletedAt := 100, rrDurationMS := Milliseconds (time_Sub 100 (rrStartedAt (egResult ?s)))\<rparr>\<rparr>"
  have ms: "egMessages ?s = ms" "rrFinalMessage (egResult ?s) = zeroChatMessage" "rrTurns (egResult ?s) = 0" "rrUsage (egResult ?s) = zeroUsage"
    "egSequence ?s = 0" "egEvents ?s = []"
    by (simp_all add: initialState_def Let_def zeroRunResult_def)
  have "rwRuns (egWorld ?s1) = emptyRunDir" using c1(2) by simp
  from full_disk_commit [OF this, of cfg c "''terminal-persistence_error''" 0 2] obtain e2 w3 where
    c2: "commitHistoryAs (fileRuntime full_disk) cfg c ''terminal-persistence_error'' 0 2 ?s1 = (Some e2, ?s1\<lparr>egOpSequence := egOpSequence ?s1 + 1, egWorld := w3\<rparr>)" .
  let ?r = "(egResult ?s)\<lparr>rrReason := TerminalPersistenceError, rrMessages := ms, rrCompletedAt := 100,
     rrDurationMS := Milliseconds (time_Sub 100 (rrStartedAt (egResult ?s)))\<rparr>"
  have "\<exists>er w'. executeRun (fileRuntime full_disk) cfg c False 0 ?s = (Some (?r, er), [disk_event c ms], w')"
    unfolding executeRun_def st using c2 full_disk_runtime [OF refl] ms
    by (auto simp: finishRun_def on_world_def emit_def Let_def disk_event_def split: option.splits prod.splits)
  then show thesis using that ms(2) by auto
qed

theorem stored_trace_replays_witness:
  "\<exists>w vs sent s. snd (snd (RunPrompt (fileRuntime full_disk) demo_config ''hello'' demo_world)) = w \<and> length vs = 1 \<and>
     LoadTrace ''run-1'' (rwRuns w) = Inr \<lparr>trEvents = vs, trResult = sent\<rparr> \<and> Replay \<lparr>trEvents = vs, trResult = sent\<rparr> = Inr s"
proof -
  obtain out events w where r: "RunPrompt (fileRuntime full_disk) demo_config ''hello'' demo_world = (out, events, w)" by (metis prod.exhaust)
  have i: "new_run_id full_disk demo_config demo_world = ''run-1''" by (simp add: new_run_id_def demo_config_def)
  have e: "run_records ''run-1'' (rwRuns demo_world) = {}" "log_lines (rdTraces (rwRuns demo_world)) (tracePath ''run-1'') = []"
    by (simp_all add: demo_world_def emptyRunDir_def run_records_def current_ack_def readJSON_def log_lines_def)
  have wb: "well_behaved full_disk"
  proof -
    have "claim_id full_disk = claim_id demo_surroundings" by (rule ext) (simp add: claim_id_def full_disk_def demo_surroundings_def)
    then show ?thesis using demo_well_behaved by (simp add: well_behaved_def full_disk_def)
  qed
  have ca: "calm full_disk" by (simp add: calm_def full_disk_def demo_surroundings_def)
  obtain res er ms vs q where o: "out = Some (res, er)" "length events = 1" "wire_list wire_event events = Some vs" "wire_result res = Some q"
    using r
  proof (cases rule: RunPrompt_starts)
    case (refused err)
    have "suCompose full_disk k d p \<noteq> Inl err" for k d p err by (simp add: full_disk_def demo_surroundings_def)
    with refused(4) show thesis by auto
  next
    case (started c ms t w1 j snapshot)
    from started(2,3,8) i have "rwRuns w1 = emptyRunDir" "rwInbox w1 = []" "reRunID c = ''run-1''" by (simp_all add: demo_world_def)
    then obtain res er where "out = Some (res, er)" "events = [disk_event c ms]" "rrMessages res = ms" "rrFinalMessage res = zeroChatMessage"
      by (rule full_disk_execute [where cfg = demo_config and ms = ms and t = t]) (use started(1) in auto)
    then show thesis using that started(7)
      by (simp add: disk_event_def wire_event_def wire_message_def wire_call_def wire_meta_def wire_result_def newEvent_def zeroChatMessage_def
          zeroToolCall_def systemMessage_def userMessage_def)
  qed
  have "length vs = 1" using o(2,3) wire_list_Some_length by metis
  moreover have "\<exists>sent s. LoadTrace ''run-1'' (rwRuns w) = Inr \<lparr>trEvents = vs, trResult = sent\<rparr>
    \<and> (sent = q \<or> (rrReason q = TerminalPersistenceError \<and> sent\<lparr>rrReason := rrReason q\<rparr> = q)) \<and> Replay \<lparr>trEvents = vs, trResult = sent\<rparr> = Inr s"
    by (rule stored_trace_replays [OF wb ca _ i e r [unfolded o(1)] _ _ o(3,4)]) (use o(2) in \<open>auto simp: char_eval\<close>)
  ultimately show ?thesis unfolding r by auto
qed

end
