(* ===== verification/EngineBounds.thy ===== *)
theory EngineBounds
  imports EngineProps
begin

text \<open>
  The limits of a run hold for any surroundings, however they behave: equivalent tool calls are started at most \<open>MaxRepeatedCall\<close> times, those of
  the run before a \<open>Resume\<close> included, and no more than \<open>MaxTurns\<close> turns are begun.
\<close>

section \<open>What the steps keep\<close>

definition started_calls :: "string \<Rightarrow> Event list \<Rightarrow> int" where
  "started_calls f es = int (length (filter (\<lambda>e. toolFingerprint (evToolCall e) = f) (of_type EventToolStarted es)))"

definition turns_begun :: "Event list \<Rightarrow> nat" where
  "turns_begun es = length (of_type EventTurnStarted es)"

lemma call_counts_snoc:
  "started_calls f (es @ [e]) = started_calls f es + (if evType e = EventToolStarted \<and> toolFingerprint (evToolCall e) = f then 1 else 0)"
  "turns_begun (es @ [e]) = turns_begun es + (if evType e = EventTurnStarted then 1 else 0)"
  by (simp_all add: started_calls_def turns_begun_def)

definition within :: "int gomap \<Rightarrow> int \<Rightarrow> nat \<Rightarrow> 'w eng \<Rightarrow> bool" where
  "within before limit n s \<longleftrightarrow> turns_begun (egEvents s) \<le> n \<and>
     (\<forall>f. repeatCount before f + started_calls f (egEvents s) \<le> repeatCount (egRepeated s) f \<and>
        (started_calls f (egEvents s) = 0 \<or> repeatCount before f + started_calls f (egEvents s) \<le> limit))"

lemma within_cong: "egEvents s' = egEvents s \<Longrightarrow> egRepeated s' = egRepeated s \<Longrightarrow> within b l n s' = within b l n s"
  by (simp add: within_def)

lemma within_fields [simp]:
  "within b l n (s\<lparr>egWorld := w\<rparr>) = within b l n s" "within b l n (s\<lparr>egMessages := ms\<rparr>) = within b l n s"
  "within b l n (s\<lparr>egResult := r\<rparr>) = within b l n s" "within b l n (s\<lparr>egClaims := m\<rparr>) = within b l n s"
  "within b l n (addUsage u s) = within b l n s" "within b l n (s\<lparr>egOpSequence := k\<rparr>) = within b l n s"
  "within b l n (s\<lparr>egRevision := k\<rparr>) = within b l n s"
  by (simp_all add: within_def addUsage_def)

lemma within_mono: "within b l n s \<Longrightarrow> n \<le> m \<Longrightarrow> within b l m s"
  by (simp add: within_def)

lemma on_world_within: "on_world f s = (r, s') \<Longrightarrow> within b l n s' = within b l n s"
  by (auto simp: on_world_def split: prod.splits)

lemma emit_appends:
  assumes "emit rt c e s = (r, s')"
  obtains ev where "egEvents s' = egEvents s @ [ev]" and "evType ev = evType e" and "evToolCall ev = evToolCall e" and "egRepeated s' = egRepeated s"
  using assms by (auto simp: emit_def on_world_def Let_def split: option.splits prod.splits)

lemma emit_within:
  assumes "emit rt c e s = (r, s')" and "within b l n s" and "evType e \<notin> {EventToolStarted, EventTurnStarted}"
  shows "within b l n s'"
  using assms(1) by (rule emit_appends) (use assms(2,3) in \<open>simp add: within_def call_counts_snoc\<close>)

lemma commit_within: "commitHistoryAs rt cfg c kind turn k s = (r, s') \<Longrightarrow> within b l n s \<Longrightarrow> within b l n s'"
  by (auto simp: commitHistoryAs_def on_world_def Let_def newEvent_def split: option.splits prod.splits sum.splits if_splits elim!: emit_within)

definition keeps :: "('w eng \<Rightarrow> bool) \<Rightarrow> ('w eng \<Rightarrow> 'a \<times> 'w eng) \<Rightarrow> bool" where
  "keeps P m \<longleftrightarrow> (\<forall>s. P s \<longrightarrow> P (snd (m s)))"

lemma keepsI: "(\<And>s. P s \<Longrightarrow> P (snd (m s))) \<Longrightarrow> keeps P m"
  by (simp add: keeps_def)

lemma keepsD: "keeps P m \<Longrightarrow> P s \<Longrightarrow> P (snd (m s))"
  by (simp add: keeps_def)

lemma keeps_andThen: "keeps P m \<Longrightarrow> (\<And>v. keeps P (f v)) \<Longrightarrow> keeps P (andThen m f)"
  unfolding keeps_def andThen_def by (fastforce split: prod.splits sum.splits)

lemma keeps_orPersist: "keeps P m \<Longrightarrow> keeps P (orPersist m)"
  unfolding keeps_def orPersist_def by (fastforce split: prod.splits option.splits)

lemma keeps_return: "keeps P (Pair x)" "keeps P (\<lambda>s. (x, s))"
  by (simp_all add: keeps_def)

lemma emit_keeps: "evType e \<notin> {EventToolStarted, EventTurnStarted} \<Longrightarrow> keeps (within b l n) (orPersist (emit rt c e))"
  by (intro keeps_orPersist keepsI) (metis emit_within surjective_pairing)

lemma commit_keeps_within: "keeps (within b l n) (orPersist (commitKind rt cfg c kind turn))"
  by (intro keeps_orPersist keepsI) (metis commitKind_def commit_within surjective_pairing)

lemmas keeps_intros = keeps_andThen emit_keeps commit_keeps_within keeps_return

lemma type_simps [simp]: "evType (newEvent t turn) = t" "evType (e\<lparr>evMetadata := md\<rparr>) = evType e" "evType (e\<lparr>evMessage := m\<rparr>) = evType e" "evType (e\<lparr>evToolResult := r\<rparr>) = evType e"
  by (simp_all add: newEvent_def)

lemma within_andThen: "keeps (within b l n) m \<Longrightarrow> (\<And>v. keeps (within b l n) (f v)) \<Longrightarrow> within b l n s \<Longrightarrow> within b l n (snd (andThen m f s))"
  by (rule keepsD [OF keeps_andThen])

lemma emit_orPersist: "within b l n s \<Longrightarrow> evType e \<notin> {EventToolStarted, EventTurnStarted} \<Longrightarrow> within b l n (snd (orPersist (emit rt c e) s))"
  by (rule keepsD [OF emit_keeps])

lemma within_counted:
  assumes "within b l n s"
  shows "within b l n (s\<lparr>egRepeated := mput f (repeatCount (egRepeated s) f + 1) (egRepeated s)\<rparr>)"
proof -
  have "repeatCount (egRepeated s) g \<le> repeatCount (mput f (repeatCount (egRepeated s) f + 1) (egRepeated s)) g" for g
    by (simp add: repeatCount_def)
  with assms show ?thesis unfolding within_def by (simp) (blast intro: order_trans)
qed

text \<open>A call to the surroundings leaves the counts, and so does what follows if it does so for any answer.\<close>

lemma keeps_call:
  assumes "\<And>s. m s = (case on_world (f s) s of (r, s1) \<Rightarrow> k r s1)" and "\<And>r s. within b l n s \<Longrightarrow> within b l n (snd (k r s))"
  shows "keeps (within b l n) m"
  by (rule keepsI) (simp add: assms on_world_def split: prod.splits)

lemma compact_keeps: "keeps (within b l n) (compactStep rt cfg c turn)"
proof (cases "rtCompactor rt")
  case (Some f)
  show ?thesis
    by (rule keeps_call [where f = "\<lambda>s. f (egMessages s)"], simp add: compactStep_def Some)
      (auto split: sum.splits prod.splits intro!: within_andThen keeps_intros)
qed (simp add: keeps_def compactStep_def)

lemma think_keeps: "keeps (within b l n) (thinkStep rt cfg c turn)"
proof (cases "cfgEnableThinking cfg")
  case True
  show ?thesis
    by (rule keeps_call [where f = "\<lambda>s. rtGenerate rt (egMessages s) False"], simp add: thinkStep_def True)
      (auto simp: Let_def split: sum.splits intro!: within_andThen keeps_intros)
qed (simp add: keeps_def thinkStep_def)

lemma generate_keeps: "keeps (within b l n) (generateStep rt cfg c turn)"
  by (rule keeps_call [where f = "\<lambda>s. rtGenerate rt (egMessages s) True"], simp add: generateStep_def)
    (auto simp: Let_def split: sum.splits intro!: within_andThen keeps_intros intro: keepsI)

lemma check_keeps: "keeps (within b l n) (checkContext rt)"
  by (rule keeps_call [where f = "\<lambda>s. rtContext rt"], simp add: checkContext_def) simp

text \<open>The queue.\<close>

lemma claim_commit_keeps: "within b l n s \<Longrightarrow> within b l n (snd (commitClaim rt cfg c q turn claim s))"
proof -
  assume W: "within b l n s"
  let ?s1 = "s\<lparr>egMessages := egMessages s @ map (userMessage \<circ> formatQueuedInput) (clItems claim),
                 egClaims := mput (clID claim) (egRevision s + 1) (egClaims s)\<rparr>"
  obtain r s2 where c: "commitKind rt cfg c (turn_kind turn ''input-claim'') (turn - 1) ?s1 = (r, s2)" by fastforce
  from W have "within b l n ?s1" by simp
  with c have "within b l n s2" unfolding commitKind_def by (rule commit_within)
  then show ?thesis
    by (auto simp: commitClaim_def Let_def c on_world_def split: option.splits prod.splits intro!: emit_orPersist)
qed

lemma claim_keeps: "keeps (within b l n) (claimInputs rt cfg c turn)"
proof (cases "rtQueue rt")
  case (Some q)
  show ?thesis
  proof (rule keeps_call [where f = "\<lambda>s. iqClaim q (reRunID c) (reTurnID c) 32"], simp add: claimInputs_def Some)
    fix r and s :: "'a eng" assume W: "within b l n s"
    show "within b l n (snd (case r of Inl err \<Rightarrow> (Inl (Finish TerminalPersistenceError (Some (Wrap ''claim queued inputs'' err))), s)
       | Inr claim \<Rightarrow> if clID claim = [] then (Inr (), s) else
           (case emit rt c ((newEvent EventInputClaimed turn)\<lparr>evMetadata :=
                  [(''claim_id'', AnyString (clID claim)), (''items'', AnyInt (int (length (clItems claim))))]\<rparr>) s of
              (Some err, s2) \<Rightarrow> (case on_world (iqRelease q (clID claim)) s2 of
                  (_, s3) \<Rightarrow> (Inl (Finish TerminalPersistenceError (Some err)), s3))
            | (None, s2) \<Rightarrow> commitClaim rt cfg c q turn claim s2)))"
      using W by (auto simp: on_world_def split: sum.splits prod.splits option.splits elim!: emit_within intro!: claim_commit_keeps)
  qed
qed (simp add: keeps_def claimInputs_def)

text \<open>The calls of a batch: a call is counted before it is started, and started only within the limit.\<close>

lemma start_call_within:
  assumes "emit rt c ((newEvent EventToolStarted turn)\<lparr>evToolCall := call\<rparr>) (s\<lparr>egRepeated := mput f (repeatCount (egRepeated s) f + 1) (egRepeated s)\<rparr>) = (r, s')"
    and "within b l n s" and "f = toolFingerprint call" and "repeatCount (egRepeated s) f + 1 \<le> l"
  shows "within b l n s'"
proof -
  from assms(1) obtain ev where e: "egEvents s' = egEvents s @ [ev]" "evType ev = EventToolStarted" "evToolCall ev = call"
    "egRepeated s' = mput f (repeatCount (egRepeated s) f + 1) (egRepeated s)" by (rule emit_appends) simp
  have r: "repeatCount (egRepeated s') g = repeatCount (egRepeated s) g + (if g = f then 1 else 0)" for g
    by (simp add: e(4) repeatCount_def)
  have "repeatCount b f + started_calls f (egEvents s) \<le> repeatCount (egRepeated s) f" using assms(2) by (simp add: within_def)
  with assms(4) have "repeatCount b f + (started_calls f (egEvents s) + 1) \<le> l" by linarith
  then show ?thesis using assms(2,4) unfolding within_def r by (auto simp: e(1-3) call_counts_snoc assms(3))
qed

lemma calls_keep: "keeps (within b (cfgMaxRepeatedCall cfg) n) (startCalls rt cfg c turn calls)"
proof (induction calls)
  case (Cons call calls)
  show ?case
  proof (rule keepsI)
    fix s :: "'a eng" assume W: "within b (cfgMaxRepeatedCall cfg) n s"
    let ?f = "toolFingerprint call"
    let ?s1 = "s\<lparr>egRepeated := mput ?f (repeatCount (egRepeated s) ?f + 1) (egRepeated s)\<rparr>"
    have n: "repeatCount (egRepeated ?s1) ?f = repeatCount (egRepeated s) ?f + 1" by (simp add: repeatCount_def)
    have W1: "within b (cfgMaxRepeatedCall cfg) n ?s1" using W by (rule within_counted)
    obtain r s2 where e: "emit rt c ((newEvent EventToolStarted turn)\<lparr>evToolCall := call\<rparr>) ?s1 = (r, s2)" by fastforce
    show "within b (cfgMaxRepeatedCall cfg) n (snd (startCalls rt cfg c turn (call # calls) s))"
    proof (cases "repeatCount (egRepeated s) ?f + 1 > cfgMaxRepeatedCall cfg")
      case True
      then show ?thesis using W1 n by (simp add: Let_def)
    next
      case False
      then have "within b (cfgMaxRepeatedCall cfg) n s2" using start_call_within [OF e W refl] by simp
      then show ?thesis using False n e keepsD [OF Cons.IH]
        by (auto simp: Let_def andThen_def orPersist_def split: option.splits)
    qed
  qed
qed (simp add: keeps_def)

lemma after_keeps: "keeps (within b l n) (afterResult rt cfg c turn calls index result)"
  by (rule keepsI) (auto simp: afterResult_def Let_def on_world_def split: prod.splits intro!: emit_orPersist)

lemma take_keeps: "keeps (within b l n) (takeResults rt cfg c turn calls index rs)"
proof (induction rs arbitrary: index)
  case Nil
  show ?case by (simp add: keeps_def)
next
  case (Cons raw rs)
  obtain res hint where h: "attachRecoveryHint raw = (res, hint)" by fastforce
  show ?case
    by (rule keepsI) (auto simp: h intro!: within_andThen keeps_andThen keeps_return emit_keeps after_keeps Cons.IH)
qed

lemma tool_keeps: "keeps (within b (cfgMaxRepeatedCall cfg) n) (toolStep rt cfg c turn calls)"
  unfolding toolStep_def
proof (rule keeps_andThen [OF calls_keep])
  show "keeps (within b (cfgMaxRepeatedCall cfg) n) (\<lambda>s. case on_world (rtExecuteBatch rt calls) s of (results, s1) \<Rightarrow> takeResults rt cfg c turn calls 0 results s1)" for v :: unit
    by (rule keeps_call [where f = "\<lambda>s. rtExecuteBatch rt calls"], rule refl) (rule keepsD [OF take_keeps])
qed

section \<open>A turn, the loop and the whole run\<close>

text \<open>Only the first event of a turn counts as a turn.\<close>

lemma turn_within:
  assumes "within b (cfgMaxRepeatedCall cfg) n s"
  shows "within b (cfgMaxRepeatedCall cfg) (Suc n) (snd (runTurn rt cfg c turn s))"
proof -
  let ?W = "within b (cfgMaxRepeatedCall cfg)"
  let ?rest = "\<lambda>_ :: unit. andThen (claimInputs rt cfg c turn) (\<lambda>_. andThen (compactStep rt cfg c turn) (\<lambda>_. andThen (thinkStep rt cfg c turn)
       (\<lambda>_. andThen (generateStep rt cfg c turn) (\<lambda>message. andThen (toolStep rt cfg c turn (msgToolCalls message))
       (\<lambda>_. andThen (orPersist (commitKind rt cfg c (turn_kind turn ''tool-results'') turn)) (\<lambda>_. orPersist (emit rt c (newEvent EventCheckpoint turn))))))))"
  have rest: "keeps (?W (Suc n)) (?rest u)" for u
    by (intro keeps_andThen claim_keeps compact_keeps think_keeps generate_keeps tool_keeps commit_keeps_within emit_keeps) simp
  let ?s = "s\<lparr>egResult := (egResult s)\<lparr>rrTurns := turn\<rparr>\<rparr>"
  obtain r s1 where c: "checkContext rt ?s = (r, s1)" by fastforce
  with keepsD [OF check_keeps, of b "cfgMaxRepeatedCall cfg" n ?s] assms have s1: "?W n s1" by (metis snd_conv within_fields(3))
  show ?thesis
  proof (cases r)
    case (Inl x)
    then show ?thesis using c s1 within_mono [of b _ n s1 "Suc n"] by (simp add: runTurn_def andThen_def)
  next
    case (Inr u)
    obtain e s2 where e: "emit rt c (newEvent EventTurnStarted turn) s1 = (e, s2)" by fastforce
    then have "?W (Suc n) s2" by (rule emit_appends) (use s1 in \<open>simp add: within_def call_counts_snoc\<close>)
    then have "?W (Suc n) (snd (andThen (orPersist (emit rt c (newEvent EventTurnStarted turn))) ?rest s1))"
      using keepsD [OF rest] by (simp add: andThen_def orPersist_def e split: option.splits)
    moreover have "runTurn rt cfg c turn s = andThen (orPersist (emit rt c (newEvent EventTurnStarted turn))) ?rest s1"
      by (simp add: runTurn_def andThen_def [of "checkContext rt"] c Inr)
    ultimately show ?thesis by simp
  qed
qed

lemma loop_within:
  "within b (cfgMaxRepeatedCall cfg) n s \<Longrightarrow> within b (cfgMaxRepeatedCall cfg) (n + k) (snd (turnLoop rt cfg c k turn s))"
proof (induction k arbitrary: n turn s)
  case (Suc k)
  obtain r s1 where t: "runTurn rt cfg c turn s = (r, s1)" by fastforce
  with turn_within [OF Suc.prems, of rt c turn] have s1: "within b (cfgMaxRepeatedCall cfg) (Suc n) s1" by simp
  from Suc.IH [OF s1, of "turn + 1"] within_mono [OF s1, of "n + Suc k"] show ?case by (cases r) (simp_all add: andThen_def t)
qed simp

lemma finish_within: "finishRun rt cfg c reason err s = (r, s') \<Longrightarrow> within b l n s \<Longrightarrow> within b l n s'"
  by (auto simp: finishRun_def on_world_def Let_def split: prod.splits if_splits option.splits
      dest!: commit_within [where b = b and l = l and n = n] emit_within [where b = b and l = l and n = n])

lemma execute_within:
  fixes s :: "'w eng"
  assumes "executeRun rt cfg c resumed turns s = (out, events, w)" and "egEvents s = []"
  shows "turns_begun events \<le> nat (cfgMaxTurns cfg - turns)"
    and "started_calls f events = 0 \<or> repeatCount (egRepeated s) f + started_calls f events \<le> cfgMaxRepeatedCall cfg"
proof -
  let ?W = "within (egRepeated s) (cfgMaxRepeatedCall cfg)"
  let ?n = "nat (cfgMaxTurns cfg - turns)"
  obtain x s1 where st: "startRun rt cfg c resumed turns s = (x, s1)" by fastforce
  have s0: "?W 0 s" using assms(2) by (simp add: within_def turns_begun_def started_calls_def of_type_def)
  let ?rec = "\<lambda>s. case rtQueue rt of None \<Rightarrow> (Inr (), s) | Some q \<Rightarrow>
         (case on_world (iqReconcile q (reRunID c) (egClaims s)) s of
            (Some err, s1) \<Rightarrow> (Inl (Finish TerminalPersistenceError (Some (Wrap ''reconcile input claims'' err))), s1)
          | (None, s1) \<Rightarrow> (Inr (), s1))"
  have rec: "keeps (?W m) ?rec" for m by (rule keepsI) (auto simp: on_world_def split: option.splits prod.splits)
  have loop: "?W ?n (snd (turnLoop rt cfg c ?n k u))" if "?W 0 u" for k u using loop_within [OF that, of ?n rt c k] by simp
  have "?W ?n s1"
  proof -
    let ?pre = "\<lambda>m. andThen ?rec (\<lambda>_. andThen (orPersist (commitKind rt cfg c ''admission'' turns)) (\<lambda>_. andThen (orPersist (emit rt c ((newEvent EventRunStarted turns)\<lparr>evMetadata := m\<rparr>)))
       (\<lambda>_. orPersist (emit rt c ((newEvent EventCapability turns)\<lparr>evMetadata :=
           [(''sequence'', AnyUint64 (capSequence (reCapability c))), (''digest'', AnyString (capDigest (reCapability c))),
            (''tool_digest'', AnyString (capToolDigest (reCapability c))), (''prompt_digest'', AnyString (capPromptDigest (reCapability c))),
            (''agents_digest'', AnyString (capAgentsDigest (reCapability c))), (''skills_digest'', AnyString (capSkillsDigest (reCapability c)))]\<rparr>)))))"
    let ?md = "[(''resumed'', AnyBool resumed), (''turn_id'', AnyString (reTurnID c)), (''admission'', AnyInt (reAdmission c)), (''lease_id'', AnyString (reLeaseID c)),
            (''parent_run_id'', AnyString (reParentRunID c)), (''parent_turn_id'', AnyString (reParentTurnID c))]"
    have assoc: "andThen (andThen m g) h = andThen m (\<lambda>v. andThen (g v) h)" for m :: "('w, unit) act" and g :: "unit \<Rightarrow> ('w, unit) act" and h :: "unit \<Rightarrow> ('w, unit) act"
      by (rule ext) (simp add: andThen_def split: prod.splits sum.splits)
    have pre: "keeps (?W 0) (?pre ?md)" by (intro keeps_andThen rec commit_keeps_within emit_keeps) simp_all
    have eq: "startRun rt cfg c resumed turns = andThen (?pre ?md) (\<lambda>_. turnLoop rt cfg c ?n (turns + 1))"
      unfolding startRun_def assoc by (rule refl)
    obtain y u where y: "?pre ?md s = (y, u)" by fastforce
    with keepsD [OF pre s0] have u: "?W 0 u" by simp
    show ?thesis using st loop [OF u, of "turns + 1"] within_mono [OF u, of ?n] by (cases y) (simp_all add: eq andThen_def [of "?pre ?md"] y)
  qed
  have "\<exists>s2 :: 'w eng. ?W ?n s2 \<and> events = egEvents s2"
  proof (cases "\<exists>reason err. x = Inl (Finish reason err)")
    case True
    then obtain reason err where x: "x = Inl (Finish reason err)" by blast
    obtain r s2 where f: "finishRun rt cfg c reason err s1 = (r, s2)" by fastforce
    have "events = egEvents s2" using assms(1) by (simp add: executeRun_def st x f)
    with finish_within [OF f \<open>?W ?n s1\<close>] show ?thesis by blast
  next
    case False
    then show ?thesis using \<open>?W ?n s1\<close> assms(1) by (auto simp: executeRun_def st split: sum.splits stop.splits)
  qed
  then show "turns_begun events \<le> ?n"
    and "started_calls f events = 0 \<or> repeatCount (egRepeated s) f + started_calls f events \<le> cfgMaxRepeatedCall cfg" by (auto simp: within_def)
qed

text \<open>C3. The limits of a run, whatever the model, the tools, the store and the queue do: a run begins at most \<open>MaxTurns\<close> turns, those before a \<open>Resume\<close>
  counted, and starts equivalent tool calls, that is calls with the same name and the same arguments up to the order of keys and the writing
  of numbers, at most \<open>MaxRepeatedCall\<close> times, the calls that the checkpoint records counted.\<close>

theorem run_within_limits:
  "case runEngine rt cfg prompt messages snapshot restored w of (out, events, w') \<Rightarrow>
     turns_begun events \<le> nat (cfgMaxTurns cfg - (case restored of Some r \<Rightarrow> ckTurn r | None \<Rightarrow> 0)) \<and>
     (started_calls f events = 0 \<or>
      repeatCount (case restored of Some r \<Rightarrow> restoreRepeated (ckRepeatedCalls r) [] | None \<Rightarrow> []) f + started_calls f events \<le> cfgMaxRepeatedCall cfg)"
proof -
  obtain out events w' where r: "runEngine rt cfg prompt messages snapshot restored w = (out, events, w')" by (metis prod.exhaust)
  then consider "events = []" | c resumed turns s where "executeRun rt cfg c resumed turns s = (out, events, w')" "egEvents s = []"
      "turns = (case restored of Some r \<Rightarrow> ckTurn r | None \<Rightarrow> 0)"
      "egRepeated s = (case restored of Some r \<Rightarrow> restoreRepeated (ckRepeatedCalls r) [] | None \<Rightarrow> [])"
    by (auto simp: runEngine_def Let_def refuse_def initialState_def split: prod.splits sum.splits if_splits)
  then show ?thesis
  proof cases
    case 1
    then show ?thesis by (simp add: r turns_begun_def started_calls_def of_type_def)
  next
    case 2
    from execute_within(1) [OF 2(1,2)] execute_within(2) [OF 2(1,2), of f] 2(3,4) show ?thesis by (simp add: r)
  qed
qed

end
