(* ===== verification/Spec2Isabelle.thy ===== *)
theory Spec2Isabelle
  imports TaskStore WorkProps AttProps AutoProps CompProps RegistryProps RunProps DispProps GateProps TeamProps SessionProps PlanProps FeishuProps WindowProps MemoryProps TraceReplay EngineRun EngineBounds
begin

text \<open>
  A model of 01agent: the harness that runs an agent against a model provider, the durable stores that the harness and its
  daemons keep, and the dispatcher that moves work through them. The Go packages are under src/internal.

  \<^bold>\<open>The program.\<close> Every store keeps its state in JSON files that are replaced by a rename or appended to; a call can be retried, a
  write can fail before or after it took effect, and a process can stop at any point. A client names each change by an operation id, and the
  stores promise that a retry changes nothing a second time. The engine loop talks to a provider, runs tool calls through a gate and commits
  checkpoints to the run store; the dispatcher, the automations and the daemon drive agents from outside through the work items, the agent
  registry and the computer leases. What a model here shows is what those promises are worth, over any sequence of calls and failures.

  \<^bold>\<open>The shared part.\<close>
  \<^item> \<open>GoRuntime\<close>: byte strings with TrimSpace, identifiers, error values with Is, finite maps, sorting, and a directory of JSON records with
    the three outcomes of an atomic write (done, failed before it took effect, failed after it). The locale \<open>record_dir\<close> is the contract of such a directory.
  \<^item> \<open>Encoding\<close>, \<open>GoFloat\<close>, \<open>GoTime\<close>, \<open>FloatSum\<close>: the compact JSON text, SHA-256, the shortest decimal of a float64, RFC 3339 times and float64 sums.
  \<^item> \<open>Ledger\<close>: the environment of a call (clock, random bytes, the outcome of its write, the error of its context) and the operation ledgers of the stores.
    The locale \<open>op_ledger\<close> has the laws of such a ledger and \<open>at_most_once\<close> what a retried request may do.
  \<^item> \<open>FileStore\<close>: the frame of a store with one file; its locale \<open>durable_file\<close> gives the effect of an operation on the file.

  \<^bold>\<open>The stores.\<close> A store's theory has its records with the fields of the Go structures, its validation and one definition per operation, in the order of the
  source; the theorems are in the theory with the suffix Props, where it is not the same one.
  \<^item> \<open>Inbox\<close>: the input queue of a run (runstore/inbox.go). An acknowledged input stays so.
  \<^item> \<open>TaskStore\<close>: background tasks (taskstore/store.go) and their delivery to the queue by the daemon (\<open>reconcileTasks\<close> in cmd/01agentd/main.go).
    The life cycle, the fencing of the owner, and that a task marked delivered is in its parent's queue; the queue is the locale \<open>input_enqueuer\<close>, interpreted by \<open>Inbox\<close>.
  \<^item> \<open>WorkItem\<close>, \<open>WorkHistory\<close>, \<open>WorkProps\<close>: product tasks (workitem). Leases, append-only history, and what a task that reads as done has behind it.
  \<^item> \<open>Attention\<close>, \<open>AttHistory\<close>, \<open>AttProps\<close>: conversations and the inbox of an agent (attention). No reply is sent on an unread conversation.
  \<^item> \<open>Automation\<close>, \<open>AutoProps\<close>: recurring tasks (automation) on the store of work items, with the 64-bit arithmetic of the intervals.
  \<^item> \<open>Computers\<close>, \<open>CompProps\<close>: devices, bindings, run leases and commands (computer), refined to an abstract fence per agent.
  \<^item> \<open>Registry\<close>, \<open>RegistryProps\<close>: agents with their revisions and selections (agentregistry).
  \<^item> \<open>Teams\<close>, \<open>TeamProps\<close>: the choice of a team by a search with pruning (team), equal to a search of all teams.
  \<^item> \<open>Dispatcher\<close>, \<open>DispProps\<close>: executions (dispatcher) on the models of the work items, agents and computers, with other clients of
    those stores between its calls; the locale \<open>task_call\<close> is what a call may do to a task.
  \<^item> \<open>Sessions\<close>, \<open>SessionProps\<close>: conversations of several runs (sessionstore).
  \<^item> \<open>Plans\<close>, \<open>PlanProps\<close>: the plan of a scope with its two projections (plan).
  \<^item> \<open>Feishu\<close>, \<open>FeishuProps\<close>: the jobs of the Feishu bridge and its workers (feishu), with messages, workers and restarts interleaved.
  \<^item> \<open>Approvals\<close>: the approvals of tool calls (approvalstore), as the backend of the gate.

  \<^bold>\<open>The engine.\<close>
  \<^item> \<open>Messages\<close>: the messages, events, checkpoints and results (schema, engine), with what a round through a file makes of them.
  \<^item> \<open>RunStore\<close>, \<open>RunProps\<close>, \<open>TraceReplay\<close>: traces, results and the history of a run (runstore/store.go). One revision of a run belongs to one operation, whatever
    is cut off; the one-pass check of a trace equals a reference definition without state.
  \<^item> \<open>EngineParts\<close>, \<open>Engine\<close>: the query loop (engine) over a record of functions for its surroundings. \<open>EngineProps\<close> is a Hoare logic for its steps under
    the locale \<open>run_world\<close>, \<open>EngineRun\<close> interprets it on the file store and shows that what a run records replays, \<open>EngineBounds\<close> has the limits of a run.
  \<^item> \<open>ToolGate\<close>, \<open>GateProps\<close>: the tool registry, its permission policies and the execution of a batch (tools). A call with side effects runs once for one approval.
  \<^item> \<open>ContextWindow\<close>, \<open>WindowProps\<close>: compaction (contextmanager), which keeps results behind their calls, and the reminder that does not.
  \<^item> \<open>MemoryArchive\<close>, \<open>MemoryProps\<close>: the archive that compaction writes to (memory/archive.go); a compaction has archived each message that is neither a system message nor blank.

  \<^bold>\<open>Conventions.\<close>
  \<^item> A string is its bytes and valid UTF-8, as the JSON decoder makes it. A time is the number of nanoseconds since Go's zero time, in UTC, and \<open>0\<close> is \<open>IsZero\<close>. Integers
    are the unbounded ones where the code counts and checks; where a wrap-around matters (intervals, token counters read as float64) it is written out.
  \<^item> A nil slice or map is the empty one, and a map is an association list, whose order is the iteration order. Where the code sorts, equal keys keep their order.
  \<^item> The text of an error keeps its words and arguments, not the quoting of its arguments; the errors that the operating system can give are one value, apart from \<open>os.ErrNotExist\<close>.
  \<^item> A stored value is read back as it was written, apart from what \<open>Messages\<close> says of messages, metadata and raw JSON. A copy by a JSON round trip is the value itself.
  \<^item> The mutex of a store makes each call one step; calls of different stores interleave in any order. Read-only calls that a batch runs in parallel are taken one after the other.
  \<^item> \<open>ToLower\<close> is that of ASCII; the conversion of a float64 that no int64 can hold is as on amd64. A value that does not come back, or a panic, is \<open>None\<close>.

  \<^bold>\<open>Termination and fuel.\<close> The interval loop of the automations is a \<open>partial_function\<close> and a call that never returns is \<open>None\<close>; that a tick returns is a theorem, and so is one way in
  which it does not. The engine's loop over turns counts down from \<open>MaxTurns\<close>. TrimSpace has the length of its string as fuel, which is proved enough; the
  decimal of a float64 has 17 digits at most and its point at most 400 places away, as every float64 has one of 17 digits and none is below 10 to the power of -324.
  All other loops run over a list.

  \<^bold>\<open>Not modelled.\<close> The clients of the model providers, of Feishu and of the HTTP interface (network), the sandbox, shell and file tools (operating system), the prompt files, the HTTP server and the
  command line (decoding and wiring), the evaluation harnesses and the web console. The ranking of the memory archive is
  left out. The JSON schema validator and the functions of a tool are parameters; the compactor takes its archiver as an argument, and \<open>MemoryProps\<close> gives it the archive.
\<close>

end
